(* ===== verification/Gfarm_Prelude.thy ===== *)
theory Gfarm_Prelude
  imports Main "HOL-Library.Word"
begin

text \<open>
  Shared ground of the development: the byte and word types, the memory that a
  \<open>malloc\<close>ed C buffer is modelled by, and the fact collections the component
  theories fill.

  A C buffer is a total function from offsets to bytes (\<open>mem\<close>): the contents of
  fresh memory are arbitrary, and what a component may read of it is fixed by the
  component's own length fields. \<open>mem_read\<close> is what \<open>memcpy\<close> out of the buffer
  yields, \<open>mem_write\<close> is \<open>memcpy\<close> into it, and \<open>memmove\<close> inside one buffer is
  \<open>mem_write m d (mem_read m s n)\<close>, because the source is read before it is written.
\<close>

named_theorems mem_simps \<open>reading back buffers after writes\<close>
named_theorems inv_defs \<open>definitions of the component invariants\<close>

type_synonym byte = "8 word"
type_synonym u16 = "16 word"
type_synonym u32 = "32 word"
type_synonym u64 = "64 word"
type_synonym mem = "int \<Rightarrow> byte"

subsection \<open>Buffers\<close>

definition mem_read :: "mem \<Rightarrow> int \<Rightarrow> int \<Rightarrow> byte list" where
  "mem_read m off n = map (\<lambda>k. m (off + int k)) [0..<nat n]"

definition mem_write :: "mem \<Rightarrow> int \<Rightarrow> byte list \<Rightarrow> mem" where
  "mem_write m off bs =
     (\<lambda>i. if off \<le> i \<and> i < off + int (length bs) then bs ! nat (i - off) else m i)"

lemma length_mem_read [simp]: "length (mem_read m off n) = nat n"
  by (simp add: mem_read_def)

lemma nth_mem_read [simp]: "k < nat n \<Longrightarrow> mem_read m off n ! k = m (off + int k)"
  by (simp add: mem_read_def)

lemma mem_read_nonpos [simp]: "n \<le> 0 \<Longrightarrow> mem_read m off n = []"
  by (simp add: mem_read_def)

lemma mem_read_empty_iff [simp]: "mem_read m off n = [] \<longleftrightarrow> n \<le> 0"
  by (simp add: mem_read_def)

lemma mem_write_Nil [simp]: "mem_write m off [] = m"
  by (rule ext) (auto simp: mem_write_def)

lemma mem_write_in:
  "off \<le> i \<Longrightarrow> i < off + int (length bs) \<Longrightarrow> mem_write m off bs i = bs ! nat (i - off)"
  by (simp add: mem_write_def)

lemma mem_write_out:
  "i < off \<or> off + int (length bs) \<le> i \<Longrightarrow> mem_write m off bs i = m i"
  by (auto simp: mem_write_def)

lemma mem_read_write_same [mem_simps]:
  "n = int (length bs) \<Longrightarrow> mem_read (mem_write m off bs) off n = bs"
  by (rule nth_equalityI) (simp_all add: mem_write_in)

lemma mem_read_write_prefix:
  "n \<le> int (length bs) \<Longrightarrow> mem_read (mem_write m off bs) off n = take (nat n) bs"
  by (rule nth_equalityI) (auto simp add: mem_write_in)

lemma mem_read_write_disjoint [mem_simps]:
  "off + n \<le> woff \<or> woff + int (length bs) \<le> off \<Longrightarrow>
     mem_read (mem_write m woff bs) off n = mem_read m off n"
  by (rule nth_equalityI) (auto intro!: mem_write_out)

lemma mem_read_append:
  assumes "0 \<le> a" and "0 \<le> b"
  shows "mem_read m off (a + b) = mem_read m off a @ mem_read m (off + a) b"
  using assms by (intro nth_equalityI) (auto simp: nth_append nat_add_distrib)

lemma take_mem_read: "take k (mem_read m off n) = mem_read m off (min (int k) n)"
  by (rule nth_equalityI) (auto simp: min_def split: if_splits)

lemma drop_mem_read:
  "drop k (mem_read m off n) = mem_read m (off + int k) (n - int k)"
  by (rule nth_equalityI) (auto simp: algebra_simps)

lemma mem_read_write_append [mem_simps]:
  assumes "0 \<le> n" and "k = n + int (length bs)" and "woff = off + n"
  shows "mem_read (mem_write m woff bs) off k = mem_read m off n @ bs"
  using assms by (simp add: mem_read_append mem_read_write_same mem_read_write_disjoint)

lemma mem_write_write_absorb:
  "length cs = length bs \<Longrightarrow> mem_write (mem_write m off bs) off cs = mem_write m off cs"
  by (rule ext) (auto simp: mem_write_def)

lemma mem_read_cong:
  "(\<And>i. off \<le> i \<Longrightarrow> i < off + n \<Longrightarrow> m i = m' i) \<Longrightarrow> mem_read m off n = mem_read m' off n"
  by (rule nth_equalityI) auto

lemma mem_read_one [simp]: "mem_read m off 1 = [m off]"
  by (simp add: mem_read_def)

subsection \<open>C integer operations\<close>

text \<open>Division and remainder of C truncate towards zero; those of HOL round down.\<close>

definition cdiv :: "int \<Rightarrow> int \<Rightarrow> int" where
  "cdiv a b = sgn a * sgn b * (\<bar>a\<bar> div \<bar>b\<bar>)"

lemma cdiv_nonneg: "0 \<le> a \<Longrightarrow> 0 < b \<Longrightarrow> cdiv a b = a div b"
  by (cases "a = 0") (simp_all add: cdiv_def)

definition cmod :: "int \<Rightarrow> int \<Rightarrow> int" where
  "cmod a b = a - cdiv a b * b"

lemma cmod_nonneg: "0 \<le> a \<Longrightarrow> 0 < b \<Longrightarrow> cmod a b = a mod b"
  by (simp add: cmod_def cdiv_nonneg minus_div_mult_eq_mod)

lemma cmod_less: "0 < b \<Longrightarrow> cmod a b < b"
proof (cases "0 \<le> a")
  case False
  assume b: "0 < b"
  have "cmod a b = - ((- a) mod b)"
    using False b minus_div_mult_eq_mod [of "- a" b] by (simp add: cmod_def cdiv_def sgn_if)
  moreover have "0 \<le> (- a) mod b" by (rule pos_mod_sign [OF b])
  ultimately show ?thesis using b by linarith
qed (simp add: cmod_nonneg)

text \<open>Conversion to a signed 32-bit \<open>int\<close>, as gcc does it: modulo two's complement.\<close>

definition as_int32 :: "int \<Rightarrow> int" where
  "as_int32 x = signed_take_bit 31 x"

lemma as_int32_id [simp]: "-2147483648 \<le> x \<Longrightarrow> x < 2147483648 \<Longrightarrow> as_int32 x = x"
  by (simp add: as_int32_def signed_take_bit_int_eq_self)

lemma as_int32_range: "-2147483648 \<le> as_int32 x \<and> as_int32 x < 2147483648"
  using signed_take_bit_int_greater_eq_minus_exp [of 31 x] signed_take_bit_int_less_exp [of 31 x]
  by (simp add: as_int32_def)

subsection \<open>Lists\<close>

lemma take_nat_append_min:
  "take (nat (min a b)) xs = take (nat a) (take (nat b) xs)"
  by (simp add: min_def)

lemma take_add_drop: "take (m + n) xs = take m xs @ take n (drop m xs)"
  by (rule take_add)

lemma list_update_beyond_append [simp]:
  "i < length xs \<Longrightarrow> (xs @ ys)[i := v] = xs[i := v] @ ys"
  by (simp add: list_update_append)

end
