(* ===== verification/Gfarm_Error.thy ===== *)
theory Gfarm_Error
  imports Gfarm_Prelude
begin

text \<open>
  The error numbers of \<open>include/gfarm/error.h\<close> (\<open>enum gfarm_errcode\<close>) and
  \<open>gfarm/liberror.h\<close> (\<open>enum gfarm_errmsg\<close>). \<open>gfarm_error_t\<close> is a C \<open>int\<close> that
  holds a value of one of the two enumerations, or a number that
  \<open>liberror.c\<close> has handed out to a foreign error domain, so it is an integer here
  too and the enumerators are names of numerals.
\<close>

type_synonym gfarm_error_t = int

subsection \<open>enum gfarm_errcode\<close>

abbreviation (input) GFARM_ERR_NO_ERROR :: gfarm_error_t where "GFARM_ERR_NO_ERROR \<equiv> 0"
abbreviation (input) GFARM_ERR_OPERATION_NOT_PERMITTED :: gfarm_error_t where "GFARM_ERR_OPERATION_NOT_PERMITTED \<equiv> 1"
abbreviation (input) GFARM_ERR_NO_SUCH_FILE_OR_DIRECTORY :: gfarm_error_t where "GFARM_ERR_NO_SUCH_FILE_OR_DIRECTORY \<equiv> 2"
abbreviation (input) GFARM_ERR_NO_SUCH_PROCESS :: gfarm_error_t where "GFARM_ERR_NO_SUCH_PROCESS \<equiv> 3"
abbreviation (input) GFARM_ERR_INTERRUPTED_SYSTEM_CALL :: gfarm_error_t where "GFARM_ERR_INTERRUPTED_SYSTEM_CALL \<equiv> 4"
abbreviation (input) GFARM_ERR_INPUT_OUTPUT :: gfarm_error_t where "GFARM_ERR_INPUT_OUTPUT \<equiv> 5"
abbreviation (input) GFARM_ERR_DEVICE_NOT_CONFIGURED :: gfarm_error_t where "GFARM_ERR_DEVICE_NOT_CONFIGURED \<equiv> 6"
abbreviation (input) GFARM_ERR_ARGUMENT_LIST_TOO_LONG :: gfarm_error_t where "GFARM_ERR_ARGUMENT_LIST_TOO_LONG \<equiv> 7"
abbreviation (input) GFARM_ERR_EXEC_FORMAT :: gfarm_error_t where "GFARM_ERR_EXEC_FORMAT \<equiv> 8"
abbreviation (input) GFARM_ERR_BAD_FILE_DESCRIPTOR :: gfarm_error_t where "GFARM_ERR_BAD_FILE_DESCRIPTOR \<equiv> 9"
abbreviation (input) GFARM_ERR_NO_CHILD_PROCESS :: gfarm_error_t where "GFARM_ERR_NO_CHILD_PROCESS \<equiv> 10"
abbreviation (input) GFARM_ERR_RESOURCE_TEMPORARILY_UNAVAILABLE :: gfarm_error_t where "GFARM_ERR_RESOURCE_TEMPORARILY_UNAVAILABLE \<equiv> 11"
abbreviation (input) GFARM_ERR_NO_MEMORY :: gfarm_error_t where "GFARM_ERR_NO_MEMORY \<equiv> 12"
abbreviation (input) GFARM_ERR_PERMISSION_DENIED :: gfarm_error_t where "GFARM_ERR_PERMISSION_DENIED \<equiv> 13"
abbreviation (input) GFARM_ERR_BAD_ADDRESS :: gfarm_error_t where "GFARM_ERR_BAD_ADDRESS \<equiv> 14"
abbreviation (input) GFARM_ERR_BLOCK_DEVICE_REQUIRED :: gfarm_error_t where "GFARM_ERR_BLOCK_DEVICE_REQUIRED \<equiv> 15"
abbreviation (input) GFARM_ERR_DEVICE_BUSY :: gfarm_error_t where "GFARM_ERR_DEVICE_BUSY \<equiv> 16"
abbreviation (input) GFARM_ERR_ALREADY_EXISTS :: gfarm_error_t where "GFARM_ERR_ALREADY_EXISTS \<equiv> 17"
abbreviation (input) GFARM_ERR_CROSS_DEVICE_LINK :: gfarm_error_t where "GFARM_ERR_CROSS_DEVICE_LINK \<equiv> 18"
abbreviation (input) GFARM_ERR_OPERATION_NOT_SUPPORTED_BY_DEVICE :: gfarm_error_t where "GFARM_ERR_OPERATION_NOT_SUPPORTED_BY_DEVICE \<equiv> 19"
abbreviation (input) GFARM_ERR_NOT_A_DIRECTORY :: gfarm_error_t where "GFARM_ERR_NOT_A_DIRECTORY \<equiv> 20"
abbreviation (input) GFARM_ERR_IS_A_DIRECTORY :: gfarm_error_t where "GFARM_ERR_IS_A_DIRECTORY \<equiv> 21"
abbreviation (input) GFARM_ERR_INVALID_ARGUMENT :: gfarm_error_t where "GFARM_ERR_INVALID_ARGUMENT \<equiv> 22"
abbreviation (input) GFARM_ERR_TOO_MANY_OPEN_FILES_IN_SYSTEM :: gfarm_error_t where "GFARM_ERR_TOO_MANY_OPEN_FILES_IN_SYSTEM \<equiv> 23"
abbreviation (input) GFARM_ERR_TOO_MANY_OPEN_FILES :: gfarm_error_t where "GFARM_ERR_TOO_MANY_OPEN_FILES \<equiv> 24"
abbreviation (input) GFARM_ERR_INAPPROPRIATE_IOCTL_FOR_DEVICE :: gfarm_error_t where "GFARM_ERR_INAPPROPRIATE_IOCTL_FOR_DEVICE \<equiv> 25"
abbreviation (input) GFARM_ERR_TEXT_FILE_BUSY :: gfarm_error_t where "GFARM_ERR_TEXT_FILE_BUSY \<equiv> 26"
abbreviation (input) GFARM_ERR_FILE_TOO_LARGE :: gfarm_error_t where "GFARM_ERR_FILE_TOO_LARGE \<equiv> 27"
abbreviation (input) GFARM_ERR_NO_SPACE :: gfarm_error_t where "GFARM_ERR_NO_SPACE \<equiv> 28"
abbreviation (input) GFARM_ERR_ILLEGAL_SEEK :: gfarm_error_t where "GFARM_ERR_ILLEGAL_SEEK \<equiv> 29"
abbreviation (input) GFARM_ERR_READ_ONLY_FILE_SYSTEM :: gfarm_error_t where "GFARM_ERR_READ_ONLY_FILE_SYSTEM \<equiv> 30"
abbreviation (input) GFARM_ERR_TOO_MANY_LINKS :: gfarm_error_t where "GFARM_ERR_TOO_MANY_LINKS \<equiv> 31"
abbreviation (input) GFARM_ERR_BROKEN_PIPE :: gfarm_error_t where "GFARM_ERR_BROKEN_PIPE \<equiv> 32"
abbreviation (input) GFARM_ERR_NUMERICAL_ARGUMENT_OUT_OF_DOMAIN :: gfarm_error_t where "GFARM_ERR_NUMERICAL_ARGUMENT_OUT_OF_DOMAIN \<equiv> 33"
abbreviation (input) GFARM_ERR_RESULT_OUT_OF_RANGE :: gfarm_error_t where "GFARM_ERR_RESULT_OUT_OF_RANGE \<equiv> 34"
abbreviation (input) GFARM_ERR_ILLEGAL_BYTE_SEQUENCE :: gfarm_error_t where "GFARM_ERR_ILLEGAL_BYTE_SEQUENCE \<equiv> 35"
abbreviation (input) GFARM_ERR_RESOURCE_DEADLOCK_AVOIDED :: gfarm_error_t where "GFARM_ERR_RESOURCE_DEADLOCK_AVOIDED \<equiv> 36"
abbreviation (input) GFARM_ERR_FILE_NAME_TOO_LONG :: gfarm_error_t where "GFARM_ERR_FILE_NAME_TOO_LONG \<equiv> 37"
abbreviation (input) GFARM_ERR_DIRECTORY_NOT_EMPTY :: gfarm_error_t where "GFARM_ERR_DIRECTORY_NOT_EMPTY \<equiv> 38"
abbreviation (input) GFARM_ERR_NO_LOCKS_AVAILABLE :: gfarm_error_t where "GFARM_ERR_NO_LOCKS_AVAILABLE \<equiv> 39"
abbreviation (input) GFARM_ERR_FUNCTION_NOT_IMPLEMENTED :: gfarm_error_t where "GFARM_ERR_FUNCTION_NOT_IMPLEMENTED \<equiv> 40"
abbreviation (input) GFARM_ERR_OPERATION_NOW_IN_PROGRESS :: gfarm_error_t where "GFARM_ERR_OPERATION_NOW_IN_PROGRESS \<equiv> 41"
abbreviation (input) GFARM_ERR_OPERATION_ALREADY_IN_PROGRESS :: gfarm_error_t where "GFARM_ERR_OPERATION_ALREADY_IN_PROGRESS \<equiv> 42"
abbreviation (input) GFARM_ERR_SOCKET_OPERATION_ON_NON_SOCKET :: gfarm_error_t where "GFARM_ERR_SOCKET_OPERATION_ON_NON_SOCKET \<equiv> 43"
abbreviation (input) GFARM_ERR_DESTINATION_ADDRESS_REQUIRED :: gfarm_error_t where "GFARM_ERR_DESTINATION_ADDRESS_REQUIRED \<equiv> 44"
abbreviation (input) GFARM_ERR_MESSAGE_TOO_LONG :: gfarm_error_t where "GFARM_ERR_MESSAGE_TOO_LONG \<equiv> 45"
abbreviation (input) GFARM_ERR_PROTOCOL_WRONG_TYPE_FOR_SOCKET :: gfarm_error_t where "GFARM_ERR_PROTOCOL_WRONG_TYPE_FOR_SOCKET \<equiv> 46"
abbreviation (input) GFARM_ERR_PROTOCOL_NOT_AVAILABLE :: gfarm_error_t where "GFARM_ERR_PROTOCOL_NOT_AVAILABLE \<equiv> 47"
abbreviation (input) GFARM_ERR_PROTOCOL_NOT_SUPPORTED :: gfarm_error_t where "GFARM_ERR_PROTOCOL_NOT_SUPPORTED \<equiv> 48"
abbreviation (input) GFARM_ERR_OPERATION_NOT_SUPPORTED :: gfarm_error_t where "GFARM_ERR_OPERATION_NOT_SUPPORTED \<equiv> 49"
abbreviation (input) GFARM_ERR_ADDRESS_FAMILY_NOT_SUPPORTED_BY_PROTOCOL_FAMILY :: gfarm_error_t where "GFARM_ERR_ADDRESS_FAMILY_NOT_SUPPORTED_BY_PROTOCOL_FAMILY \<equiv> 50"
abbreviation (input) GFARM_ERR_ADDRESS_ALREADY_IN_USE :: gfarm_error_t where "GFARM_ERR_ADDRESS_ALREADY_IN_USE \<equiv> 51"
abbreviation (input) GFARM_ERR_CANNOT_ASSIGN_REQUESTED_ADDRESS :: gfarm_error_t where "GFARM_ERR_CANNOT_ASSIGN_REQUESTED_ADDRESS \<equiv> 52"
abbreviation (input) GFARM_ERR_NETWORK_IS_DOWN :: gfarm_error_t where "GFARM_ERR_NETWORK_IS_DOWN \<equiv> 53"
abbreviation (input) GFARM_ERR_NETWORK_IS_UNREACHABLE :: gfarm_error_t where "GFARM_ERR_NETWORK_IS_UNREACHABLE \<equiv> 54"
abbreviation (input) GFARM_ERR_CONNECTION_ABORTED :: gfarm_error_t where "GFARM_ERR_CONNECTION_ABORTED \<equiv> 55"
abbreviation (input) GFARM_ERR_CONNECTION_RESET_BY_PEER :: gfarm_error_t where "GFARM_ERR_CONNECTION_RESET_BY_PEER \<equiv> 56"
abbreviation (input) GFARM_ERR_NO_BUFFER_SPACE_AVAILABLE :: gfarm_error_t where "GFARM_ERR_NO_BUFFER_SPACE_AVAILABLE \<equiv> 57"
abbreviation (input) GFARM_ERR_SOCKET_IS_ALREADY_CONNECTED :: gfarm_error_t where "GFARM_ERR_SOCKET_IS_ALREADY_CONNECTED \<equiv> 58"
abbreviation (input) GFARM_ERR_SOCKET_IS_NOT_CONNECTED :: gfarm_error_t where "GFARM_ERR_SOCKET_IS_NOT_CONNECTED \<equiv> 59"
abbreviation (input) GFARM_ERR_OPERATION_TIMED_OUT :: gfarm_error_t where "GFARM_ERR_OPERATION_TIMED_OUT \<equiv> 60"
abbreviation (input) GFARM_ERR_CONNECTION_REFUSED :: gfarm_error_t where "GFARM_ERR_CONNECTION_REFUSED \<equiv> 61"
abbreviation (input) GFARM_ERR_NO_ROUTE_TO_HOST :: gfarm_error_t where "GFARM_ERR_NO_ROUTE_TO_HOST \<equiv> 62"
abbreviation (input) GFARM_ERR_TOO_MANY_LEVELS_OF_SYMBOLIC_LINK :: gfarm_error_t where "GFARM_ERR_TOO_MANY_LEVELS_OF_SYMBOLIC_LINK \<equiv> 63"
abbreviation (input) GFARM_ERR_DISK_QUOTA_EXCEEDED :: gfarm_error_t where "GFARM_ERR_DISK_QUOTA_EXCEEDED \<equiv> 64"
abbreviation (input) GFARM_ERR_STALE_FILE_HANDLE :: gfarm_error_t where "GFARM_ERR_STALE_FILE_HANDLE \<equiv> 65"
abbreviation (input) GFARM_ERR_IDENTIFIER_REMOVED :: gfarm_error_t where "GFARM_ERR_IDENTIFIER_REMOVED \<equiv> 66"
abbreviation (input) GFARM_ERR_NO_MESSAGE_OF_DESIRED_TYPE :: gfarm_error_t where "GFARM_ERR_NO_MESSAGE_OF_DESIRED_TYPE \<equiv> 67"
abbreviation (input) GFARM_ERR_VALUE_TOO_LARGE_TO_BE_STORED_IN_DATA_TYPE :: gfarm_error_t where "GFARM_ERR_VALUE_TOO_LARGE_TO_BE_STORED_IN_DATA_TYPE \<equiv> 68"
abbreviation (input) GFARM_ERR_AUTHENTICATION :: gfarm_error_t where "GFARM_ERR_AUTHENTICATION \<equiv> 69"
abbreviation (input) GFARM_ERR_EXPIRED :: gfarm_error_t where "GFARM_ERR_EXPIRED \<equiv> 70"
abbreviation (input) GFARM_ERR_PROTOCOL :: gfarm_error_t where "GFARM_ERR_PROTOCOL \<equiv> 71"
abbreviation (input) GFARM_ERR_UNKNOWN_HOST :: gfarm_error_t where "GFARM_ERR_UNKNOWN_HOST \<equiv> 72"
abbreviation (input) GFARM_ERR_CANNOT_RESOLVE_AN_IP_ADDRESS_INTO_A_HOSTNAME :: gfarm_error_t where "GFARM_ERR_CANNOT_RESOLVE_AN_IP_ADDRESS_INTO_A_HOSTNAME \<equiv> 73"
abbreviation (input) GFARM_ERR_NO_SUCH_OBJECT :: gfarm_error_t where "GFARM_ERR_NO_SUCH_OBJECT \<equiv> 74"
abbreviation (input) GFARM_ERR_CANT_OPEN :: gfarm_error_t where "GFARM_ERR_CANT_OPEN \<equiv> 75"
abbreviation (input) GFARM_ERR_UNEXPECTED_EOF :: gfarm_error_t where "GFARM_ERR_UNEXPECTED_EOF \<equiv> 76"
abbreviation (input) GFARM_ERR_GFARM_URL_PREFIX_IS_MISSING :: gfarm_error_t where "GFARM_ERR_GFARM_URL_PREFIX_IS_MISSING \<equiv> 77"
abbreviation (input) GFARM_ERR_TOO_MANY_JOBS :: gfarm_error_t where "GFARM_ERR_TOO_MANY_JOBS \<equiv> 78"
abbreviation (input) GFARM_ERR_FILE_MIGRATED :: gfarm_error_t where "GFARM_ERR_FILE_MIGRATED \<equiv> 79"
abbreviation (input) GFARM_ERR_NOT_A_SYMBOLIC_LINK :: gfarm_error_t where "GFARM_ERR_NOT_A_SYMBOLIC_LINK \<equiv> 80"
abbreviation (input) GFARM_ERR_IS_A_SYMBOLIC_LINK :: gfarm_error_t where "GFARM_ERR_IS_A_SYMBOLIC_LINK \<equiv> 81"
abbreviation (input) GFARM_ERR_UNKNOWN :: gfarm_error_t where "GFARM_ERR_UNKNOWN \<equiv> 82"
abbreviation (input) GFARM_ERR_INVALID_FILE_REPLICA :: gfarm_error_t where "GFARM_ERR_INVALID_FILE_REPLICA \<equiv> 83"
abbreviation (input) GFARM_ERR_NO_SUCH_USER :: gfarm_error_t where "GFARM_ERR_NO_SUCH_USER \<equiv> 84"
abbreviation (input) GFARM_ERR_CANNOT_REMOVE_LAST_REPLICA :: gfarm_error_t where "GFARM_ERR_CANNOT_REMOVE_LAST_REPLICA \<equiv> 85"
abbreviation (input) GFARM_ERR_NO_SUCH_GROUP :: gfarm_error_t where "GFARM_ERR_NO_SUCH_GROUP \<equiv> 86"
abbreviation (input) GFARM_ERR_GFARM_URL_USER_IS_MISSING :: gfarm_error_t where "GFARM_ERR_GFARM_URL_USER_IS_MISSING \<equiv> 87"
abbreviation (input) GFARM_ERR_GFARM_URL_HOST_IS_MISSING :: gfarm_error_t where "GFARM_ERR_GFARM_URL_HOST_IS_MISSING \<equiv> 88"
abbreviation (input) GFARM_ERR_GFARM_URL_PORT_IS_MISSING :: gfarm_error_t where "GFARM_ERR_GFARM_URL_PORT_IS_MISSING \<equiv> 89"
abbreviation (input) GFARM_ERR_GFARM_URL_PORT_IS_INVALID :: gfarm_error_t where "GFARM_ERR_GFARM_URL_PORT_IS_INVALID \<equiv> 90"
abbreviation (input) GFARM_ERR_NUMBER :: gfarm_error_t where "GFARM_ERR_NUMBER \<equiv> 91"

subsection \<open>enum gfarm_errmsg\<close>

abbreviation (input) GFARM_ERRMSG_BEGIN :: gfarm_error_t where "GFARM_ERRMSG_BEGIN \<equiv> 4096"
abbreviation (input) GFARM_ERRMSG_INCONSISTENT_RECOVERABLE :: gfarm_error_t where "GFARM_ERRMSG_INCONSISTENT_RECOVERABLE \<equiv> 4096"
abbreviation (input) GFARM_ERRMSG_TOO_MANY_ERROR_DOMAIN :: gfarm_error_t where "GFARM_ERRMSG_TOO_MANY_ERROR_DOMAIN \<equiv> 4097"
abbreviation (input) GFARM_ERRMSG_UNKNOWN_KEYWORD :: gfarm_error_t where "GFARM_ERRMSG_UNKNOWN_KEYWORD \<equiv> 4098"
abbreviation (input) GFARM_ERRMSG_UNKNOWN_AUTH_METHOD :: gfarm_error_t where "GFARM_ERRMSG_UNKNOWN_AUTH_METHOD \<equiv> 4099"
abbreviation (input) GFARM_ERRMSG_HOSTNAME_OR_IP_EXPECTED :: gfarm_error_t where "GFARM_ERRMSG_HOSTNAME_OR_IP_EXPECTED \<equiv> 4100"
abbreviation (input) GFARM_ERRMSG_INVALID_CHAR_IN_HOSTNAME :: gfarm_error_t where "GFARM_ERRMSG_INVALID_CHAR_IN_HOSTNAME \<equiv> 4101"
abbreviation (input) GFARM_ERRMSG_INVALID_CHAR_IN_IP :: gfarm_error_t where "GFARM_ERRMSG_INVALID_CHAR_IN_IP \<equiv> 4102"
abbreviation (input) GFARM_ERRMSG_TOO_BIG_BYTE_IN_IP :: gfarm_error_t where "GFARM_ERRMSG_TOO_BIG_BYTE_IN_IP \<equiv> 4103"
abbreviation (input) GFARM_ERRMSG_IP_ADDRESS_EXPECTED :: gfarm_error_t where "GFARM_ERRMSG_IP_ADDRESS_EXPECTED \<equiv> 4104"
abbreviation (input) GFARM_ERRMSG_IP_ADDRESS_TOO_SHORT :: gfarm_error_t where "GFARM_ERRMSG_IP_ADDRESS_TOO_SHORT \<equiv> 4105"
abbreviation (input) GFARM_ERRMSG_TOO_BIG_NETMASK :: gfarm_error_t where "GFARM_ERRMSG_TOO_BIG_NETMASK \<equiv> 4106"
abbreviation (input) GFARM_ERRMSG_INVALID_NAME_RECORD :: gfarm_error_t where "GFARM_ERRMSG_INVALID_NAME_RECORD \<equiv> 4107"
abbreviation (input) GFARM_ERRMSG_REVERSE_LOOKUP_NAME_IS_NOT_RESOLVABLE :: gfarm_error_t where "GFARM_ERRMSG_REVERSE_LOOKUP_NAME_IS_NOT_RESOLVABLE \<equiv> 4108"
abbreviation (input) GFARM_ERRMSG_REVERSE_LOOKUP_NAME_DOES_NOT_MATCH :: gfarm_error_t where "GFARM_ERRMSG_REVERSE_LOOKUP_NAME_DOES_NOT_MATCH \<equiv> 4109"
abbreviation (input) GFARM_ERRMSG_VALUE_IS_NOT_SPECIFIED :: gfarm_error_t where "GFARM_ERRMSG_VALUE_IS_NOT_SPECIFIED \<equiv> 4110"
abbreviation (input) GFARM_ERRMSG_VALUE_IS_EMPTY :: gfarm_error_t where "GFARM_ERRMSG_VALUE_IS_EMPTY \<equiv> 4111"
abbreviation (input) GFARM_ERRMSG_VALUE_IS_NOT_ALLOWED_FOR_BOOLEAN :: gfarm_error_t where "GFARM_ERRMSG_VALUE_IS_NOT_ALLOWED_FOR_BOOLEAN \<equiv> 4112"
abbreviation (input) GFARM_ERRMSG_INVALID_CHAR_IN_VALUE :: gfarm_error_t where "GFARM_ERRMSG_INVALID_CHAR_IN_VALUE \<equiv> 4113"
abbreviation (input) GFARM_ERRMSG_UNKNOWN_PARAMETER :: gfarm_error_t where "GFARM_ERRMSG_UNKNOWN_PARAMETER \<equiv> 4114"
abbreviation (input) GFARM_ERRMSG_GETPROTOBYNAME_FAILED :: gfarm_error_t where "GFARM_ERRMSG_GETPROTOBYNAME_FAILED \<equiv> 4115"
abbreviation (input) GFARM_ERRMSG_UNKNOWN_SOCKET_OPTION :: gfarm_error_t where "GFARM_ERRMSG_UNKNOWN_SOCKET_OPTION \<equiv> 4116"
abbreviation (input) GFARM_ERRMSG_MISSING_ARGUMENT :: gfarm_error_t where "GFARM_ERRMSG_MISSING_ARGUMENT \<equiv> 4117"
abbreviation (input) GFARM_ERRMSG_TOO_MANY_ARGUMENTS :: gfarm_error_t where "GFARM_ERRMSG_TOO_MANY_ARGUMENTS \<equiv> 4118"
abbreviation (input) GFARM_ERRMSG_INTEGER_EXPECTED :: gfarm_error_t where "GFARM_ERRMSG_INTEGER_EXPECTED \<equiv> 4119"
abbreviation (input) GFARM_ERRMSG_FLOATING_POINT_NUMBER_EXPECTED :: gfarm_error_t where "GFARM_ERRMSG_FLOATING_POINT_NUMBER_EXPECTED \<equiv> 4120"
abbreviation (input) GFARM_ERRMSG_INVALID_CHARACTER :: gfarm_error_t where "GFARM_ERRMSG_INVALID_CHARACTER \<equiv> 4121"
abbreviation (input) GFARM_ERRMSG_ENABLED_OR_DISABLED_EXPECTED :: gfarm_error_t where "GFARM_ERRMSG_ENABLED_OR_DISABLED_EXPECTED \<equiv> 4122"
abbreviation (input) GFARM_ERRMSG_INVALID_SYSLOG_PRIORITY_LEVEL :: gfarm_error_t where "GFARM_ERRMSG_INVALID_SYSLOG_PRIORITY_LEVEL \<equiv> 4123"
abbreviation (input) GFARM_ERRMSG_LOCAL_USER_REDEFIEND :: gfarm_error_t where "GFARM_ERRMSG_LOCAL_USER_REDEFIEND \<equiv> 4124"
abbreviation (input) GFARM_ERRMSG_GLOBAL_USER_REDEFIEND :: gfarm_error_t where "GFARM_ERRMSG_GLOBAL_USER_REDEFIEND \<equiv> 4125"
abbreviation (input) GFARM_ERRMSG_LOCAL_GROUP_REDEFIEND :: gfarm_error_t where "GFARM_ERRMSG_LOCAL_GROUP_REDEFIEND \<equiv> 4126"
abbreviation (input) GFARM_ERRMSG_GLOBAL_GROUP_REDEFIEND :: gfarm_error_t where "GFARM_ERRMSG_GLOBAL_GROUP_REDEFIEND \<equiv> 4127"
abbreviation (input) GFARM_ERRMSG_MISSING_LOCAL_USER :: gfarm_error_t where "GFARM_ERRMSG_MISSING_LOCAL_USER \<equiv> 4128"
abbreviation (input) GFARM_ERRMSG_BACKEND_ALREADY_LDAP :: gfarm_error_t where "GFARM_ERRMSG_BACKEND_ALREADY_LDAP \<equiv> 4129"
abbreviation (input) GFARM_ERRMSG_BACKEND_ALREADY_POSTGRESQL :: gfarm_error_t where "GFARM_ERRMSG_BACKEND_ALREADY_POSTGRESQL \<equiv> 4130"
abbreviation (input) GFARM_ERRMSG_BACKEND_ALREADY_LOCALFS :: gfarm_error_t where "GFARM_ERRMSG_BACKEND_ALREADY_LOCALFS \<equiv> 4131"
abbreviation (input) GFARM_ERRMSG_UNTERMINATED_SINGLE_QUOTE :: gfarm_error_t where "GFARM_ERRMSG_UNTERMINATED_SINGLE_QUOTE \<equiv> 4132"
abbreviation (input) GFARM_ERRMSG_UNTERMINATED_DOUBLE_QUOTE :: gfarm_error_t where "GFARM_ERRMSG_UNTERMINATED_DOUBLE_QUOTE \<equiv> 4133"
abbreviation (input) GFARM_ERRMSG_INCOMPLETE_ESCAPE :: gfarm_error_t where "GFARM_ERRMSG_INCOMPLETE_ESCAPE \<equiv> 4134"
abbreviation (input) GFARM_ERRMSG_MISSING_1ST_AUTH_COMMAND_ARGUMENT :: gfarm_error_t where "GFARM_ERRMSG_MISSING_1ST_AUTH_COMMAND_ARGUMENT \<equiv> 4135"
abbreviation (input) GFARM_ERRMSG_MISSING_2ND_AUTH_METHOD_ARGUMENT :: gfarm_error_t where "GFARM_ERRMSG_MISSING_2ND_AUTH_METHOD_ARGUMENT \<equiv> 4136"
abbreviation (input) GFARM_ERRMSG_MISSING_3RD_HOST_SPEC_ARGUMENT :: gfarm_error_t where "GFARM_ERRMSG_MISSING_3RD_HOST_SPEC_ARGUMENT \<equiv> 4137"
abbreviation (input) GFARM_ERRMSG_UNKNOWN_AUTH_SUBCOMMAND :: gfarm_error_t where "GFARM_ERRMSG_UNKNOWN_AUTH_SUBCOMMAND \<equiv> 4138"
abbreviation (input) GFARM_ERRMSG_MISSING_NETPARAM_OPTION_ARGUMENT :: gfarm_error_t where "GFARM_ERRMSG_MISSING_NETPARAM_OPTION_ARGUMENT \<equiv> 4139"
abbreviation (input) GFARM_ERRMSG_MISSING_SOCKOPT_OPTION_ARGUMENT :: gfarm_error_t where "GFARM_ERRMSG_MISSING_SOCKOPT_OPTION_ARGUMENT \<equiv> 4140"
abbreviation (input) GFARM_ERRMSG_MISSING_ADDRESS_ARGUMENT :: gfarm_error_t where "GFARM_ERRMSG_MISSING_ADDRESS_ARGUMENT \<equiv> 4141"
abbreviation (input) GFARM_ERRMSG_MISSING_USER_MAP_FILE_ARGUMENT :: gfarm_error_t where "GFARM_ERRMSG_MISSING_USER_MAP_FILE_ARGUMENT \<equiv> 4142"
abbreviation (input) GFARM_ERRMSG_MISSING_GROUP_MAP_FILE_ARGUMENT :: gfarm_error_t where "GFARM_ERRMSG_MISSING_GROUP_MAP_FILE_ARGUMENT \<equiv> 4143"
abbreviation (input) GFARM_ERRMSG_MISSING_1ST_ARCHITECTURE_ARGUMENT :: gfarm_error_t where "GFARM_ERRMSG_MISSING_1ST_ARCHITECTURE_ARGUMENT \<equiv> 4144"
abbreviation (input) GFARM_ERRMSG_MISSING_2ND_HOST_SPEC_ARGUMENT :: gfarm_error_t where "GFARM_ERRMSG_MISSING_2ND_HOST_SPEC_ARGUMENT \<equiv> 4145"
abbreviation (input) GFARM_ERRMSG_CANNOT_OPEN_CONFIG :: gfarm_error_t where "GFARM_ERRMSG_CANNOT_OPEN_CONFIG \<equiv> 4146"
abbreviation (input) GFARM_ERRMSG_GFP_XDR_SEND_INVALID_FORMAT_CHARACTER :: gfarm_error_t where "GFARM_ERRMSG_GFP_XDR_SEND_INVALID_FORMAT_CHARACTER \<equiv> 4147"
abbreviation (input) GFARM_ERRMSG_GFP_XDR_RECV_INVALID_FORMAT_CHARACTER :: gfarm_error_t where "GFARM_ERRMSG_GFP_XDR_RECV_INVALID_FORMAT_CHARACTER \<equiv> 4148"
abbreviation (input) GFARM_ERRMSG_GFP_XDR_VRPC_MISSING_RESULT_IN_FORMAT_STRING :: gfarm_error_t where "GFARM_ERRMSG_GFP_XDR_VRPC_MISSING_RESULT_IN_FORMAT_STRING \<equiv> 4149"
abbreviation (input) GFARM_ERRMSG_GFP_XDR_VRPC_INVALID_FORMAT_CHARACTER :: gfarm_error_t where "GFARM_ERRMSG_GFP_XDR_VRPC_INVALID_FORMAT_CHARACTER \<equiv> 4150"
abbreviation (input) GFARM_ERRMSG_SHAREDSECRET_INVALID_EXPIRE_FIELD :: gfarm_error_t where "GFARM_ERRMSG_SHAREDSECRET_INVALID_EXPIRE_FIELD \<equiv> 4151"
abbreviation (input) GFARM_ERRMSG_SHAREDSECRET_INVALID_KEY_FIELD :: gfarm_error_t where "GFARM_ERRMSG_SHAREDSECRET_INVALID_KEY_FIELD \<equiv> 4152"
abbreviation (input) GFARM_ERRMSG_SHAREDSECRET_KEY_FILE_NOT_EXIST :: gfarm_error_t where "GFARM_ERRMSG_SHAREDSECRET_KEY_FILE_NOT_EXIST \<equiv> 4153"
abbreviation (input) GFARM_ERRMSG_AUTH_METHOD_NOT_AVAILABLE_FOR_THE_HOST :: gfarm_error_t where "GFARM_ERRMSG_AUTH_METHOD_NOT_AVAILABLE_FOR_THE_HOST \<equiv> 4154"
abbreviation (input) GFARM_ERRMSG_USABLE_AUTH_METHOD_IS_NOT_CONFIGURED :: gfarm_error_t where "GFARM_ERRMSG_USABLE_AUTH_METHOD_IS_NOT_CONFIGURED \<equiv> 4155"
abbreviation (input) GFARM_ERRMSG_AUTH_REQUEST_SHAREDSECRET_IMPLEMENTATION_ERROR :: gfarm_error_t where "GFARM_ERRMSG_AUTH_REQUEST_SHAREDSECRET_IMPLEMENTATION_ERROR \<equiv> 4156"
abbreviation (input) GFARM_ERRMSG_AUTH_REQUEST_IMPLEMENTATION_ERROR :: gfarm_error_t where "GFARM_ERRMSG_AUTH_REQUEST_IMPLEMENTATION_ERROR \<equiv> 4157"
abbreviation (input) GFARM_ERRMSG_AUTH_REQUEST_SHAREDSECRET_MULTIPLEXED_IMPLEMENTATION_ERROR :: gfarm_error_t where "GFARM_ERRMSG_AUTH_REQUEST_SHAREDSECRET_MULTIPLEXED_IMPLEMENTATION_ERROR \<equiv> 4158"
abbreviation (input) GFARM_ERRMSG_AUTH_REQUEST_MULTIPLEXED_MPLEMENTATION_ERROR :: gfarm_error_t where "GFARM_ERRMSG_AUTH_REQUEST_MULTIPLEXED_MPLEMENTATION_ERROR \<equiv> 4159"
abbreviation (input) GFARM_ERRMSG_AUTH_SHAREDSECRET_MD5_CONTINUE :: gfarm_error_t where "GFARM_ERRMSG_AUTH_SHAREDSECRET_MD5_CONTINUE \<equiv> 4160"
abbreviation (input) GFARM_ERRMSG_GSI_CREDENTIAL_INITIALIZATION_FAILED :: gfarm_error_t where "GFARM_ERRMSG_GSI_CREDENTIAL_INITIALIZATION_FAILED \<equiv> 4161"
abbreviation (input) GFARM_ERRMSG_GSI_INITIALIZATION_FAILED :: gfarm_error_t where "GFARM_ERRMSG_GSI_INITIALIZATION_FAILED \<equiv> 4162"
abbreviation (input) GFARM_ERRMSG_CANNOT_INITIATE_GSI_CONNECTION :: gfarm_error_t where "GFARM_ERRMSG_CANNOT_INITIATE_GSI_CONNECTION \<equiv> 4163"
abbreviation (input) GFARM_ERRMSG_CANNOT_ACQUIRE_CLIENT_CRED :: gfarm_error_t where "GFARM_ERRMSG_CANNOT_ACQUIRE_CLIENT_CRED \<equiv> 4164"
abbreviation (input) GFARM_ERRMSG_UNKNOWN_CREDENTIAL_TYPE :: gfarm_error_t where "GFARM_ERRMSG_UNKNOWN_CREDENTIAL_TYPE \<equiv> 4165"
abbreviation (input) GFARM_ERRMSG_GSI_DELEGATED_CREDENTIAL_NOT_EXIST :: gfarm_error_t where "GFARM_ERRMSG_GSI_DELEGATED_CREDENTIAL_NOT_EXIST \<equiv> 4166"
abbreviation (input) GFARM_ERRMSG_GSI_DELEGATED_CREDENTIAL_CANNOT_EXPORT :: gfarm_error_t where "GFARM_ERRMSG_GSI_DELEGATED_CREDENTIAL_CANNOT_EXPORT \<equiv> 4167"
abbreviation (input) GFARM_ERRMSG_GFSD_ABORTED :: gfarm_error_t where "GFARM_ERRMSG_GFSD_ABORTED \<equiv> 4168"
abbreviation (input) GFARM_ERRMSG_GFSD_DESCRIPTOR_ILLEGAL :: gfarm_error_t where "GFARM_ERRMSG_GFSD_DESCRIPTOR_ILLEGAL \<equiv> 4169"
abbreviation (input) GFARM_ERRMSG_GFSD_REPLY_UNKNOWN :: gfarm_error_t where "GFARM_ERRMSG_GFSD_REPLY_UNKNOWN \<equiv> 4170"
abbreviation (input) GFARM_ERRMSG_GFS_PROTO_PREAD_PROTOCOL :: gfarm_error_t where "GFARM_ERRMSG_GFS_PROTO_PREAD_PROTOCOL \<equiv> 4171"
abbreviation (input) GFARM_ERRMSG_GFS_PROTO_PWRITE_PROTOCOL :: gfarm_error_t where "GFARM_ERRMSG_GFS_PROTO_PWRITE_PROTOCOL \<equiv> 4172"
abbreviation (input) GFARM_ERRMSG_GFS_PIO_IS_EOF :: gfarm_error_t where "GFARM_ERRMSG_GFS_PIO_IS_EOF \<equiv> 4173"
abbreviation (input) GFARM_ERRMSG_GFS_GLOB_NOT_PROPERLY_INITIALIZED :: gfarm_error_t where "GFARM_ERRMSG_GFS_GLOB_NOT_PROPERLY_INITIALIZED \<equiv> 4174"
abbreviation (input) GFARM_ERRMSG_NO_FILESYSTEM_NODE :: gfarm_error_t where "GFARM_ERRMSG_NO_FILESYSTEM_NODE \<equiv> 4175"
abbreviation (input) GFARM_ERRMSG_CRED_TYPE_DEFAULT_INVALID_CRED_NAME :: gfarm_error_t where "GFARM_ERRMSG_CRED_TYPE_DEFAULT_INVALID_CRED_NAME \<equiv> 4176"
abbreviation (input) GFARM_ERRMSG_CRED_TYPE_DEFAULT_INVALID_CRED_SERVICE :: gfarm_error_t where "GFARM_ERRMSG_CRED_TYPE_DEFAULT_INVALID_CRED_SERVICE \<equiv> 4177"
abbreviation (input) GFARM_ERRMSG_CRED_TYPE_DEFAULT_INTERNAL_ERROR :: gfarm_error_t where "GFARM_ERRMSG_CRED_TYPE_DEFAULT_INTERNAL_ERROR \<equiv> 4178"
abbreviation (input) GFARM_ERRMSG_CRED_TYPE_NO_NAME_INVALID_CRED_NAME :: gfarm_error_t where "GFARM_ERRMSG_CRED_TYPE_NO_NAME_INVALID_CRED_NAME \<equiv> 4179"
abbreviation (input) GFARM_ERRMSG_CRED_TYPE_NO_NAME_INVALID_CRED_SERVICE :: gfarm_error_t where "GFARM_ERRMSG_CRED_TYPE_NO_NAME_INVALID_CRED_SERVICE \<equiv> 4180"
abbreviation (input) GFARM_ERRMSG_CRED_TYPE_MECHANISM_SPECIFIC_INVALID_CRED_NAME :: gfarm_error_t where "GFARM_ERRMSG_CRED_TYPE_MECHANISM_SPECIFIC_INVALID_CRED_NAME \<equiv> 4181"
abbreviation (input) GFARM_ERRMSG_CRED_TYPE_MECHANISM_SPECIFIC_INVALID_CRED_SERVICE :: gfarm_error_t where "GFARM_ERRMSG_CRED_TYPE_MECHANISM_SPECIFIC_INVALID_CRED_SERVICE \<equiv> 4182"
abbreviation (input) GFARM_ERRMSG_CRED_TYPE_USER_CRED_INVALID_CRED_SERVICE :: gfarm_error_t where "GFARM_ERRMSG_CRED_TYPE_USER_CRED_INVALID_CRED_SERVICE \<equiv> 4183"
abbreviation (input) GFARM_ERRMSG_CRED_TYPE_SELF_CRED_INVALID_CRED_NAME :: gfarm_error_t where "GFARM_ERRMSG_CRED_TYPE_SELF_CRED_INVALID_CRED_NAME \<equiv> 4184"
abbreviation (input) GFARM_ERRMSG_CRED_TYPE_SELF_CRED_INVALID_CRED_SERVICE :: gfarm_error_t where "GFARM_ERRMSG_CRED_TYPE_SELF_CRED_INVALID_CRED_SERVICE \<equiv> 4185"
abbreviation (input) GFARM_ERRMSG_CRED_TYPE_SELF_NOT_INITIALIZED_AS_AN_INITIATOR :: gfarm_error_t where "GFARM_ERRMSG_CRED_TYPE_SELF_NOT_INITIALIZED_AS_AN_INITIATOR \<equiv> 4186"
abbreviation (input) GFARM_ERRMSG_INVALID_CRED_TYPE :: gfarm_error_t where "GFARM_ERRMSG_INVALID_CRED_TYPE \<equiv> 4187"
abbreviation (input) GFARM_ERRMSG_INVALID_CREDENTIAL_CONFIGURATION :: gfarm_error_t where "GFARM_ERRMSG_INVALID_CREDENTIAL_CONFIGURATION \<equiv> 4188"
abbreviation (input) GFARM_ERRMSG_HOSTNAME_EXPECTED :: gfarm_error_t where "GFARM_ERRMSG_HOSTNAME_EXPECTED \<equiv> 4189"
abbreviation (input) GFARM_ERRMSG_EMPTY_FILE :: gfarm_error_t where "GFARM_ERRMSG_EMPTY_FILE \<equiv> 4190"
abbreviation (input) GFARM_ERRMSG_END :: gfarm_error_t where "GFARM_ERRMSG_END \<equiv> 4191"

end
