(* ===== verification/Timeval.thy ===== *)
theory Timeval
  imports Gfarm_Error
begin

text \<open>
  \<open>gfutil/timeval.c\<close> and \<open>gfarm/timespec.c\<close>: comparison and arithmetic on
  \<open>struct timeval\<close> (seconds and microseconds) and \<open>struct gfarm_timespec\<close>
  (seconds and nanoseconds). Seconds and microseconds are mathematical integers: times and
  lifespans are far from the bounds of a 64-bit \<open>time_t\<close> and \<open>long\<close>; the
  nanoseconds are an \<open>int32_t\<close> in the struct, and every store to them is converted
  (\<open>as_int32\<close>). The division in the normalisation is C's, and is only applied to
  non-negative numbers.
\<close>

datatype timeval = Timeval (tv_sec: int) (tv_usec: int)

abbreviation GFARM_SECOND_BY_MICROSEC :: int where
  "GFARM_SECOND_BY_MICROSEC \<equiv> 1000000"

definition gfarm_timeval_cmp :: "timeval \<Rightarrow> timeval \<Rightarrow> int" where
  "gfarm_timeval_cmp t1 t2 =
     (if tv_sec t1 > tv_sec t2 then 1
      else if tv_sec t1 < tv_sec t2 then -1
      else if tv_usec t1 > tv_usec t2 then 1
      else if tv_usec t1 < tv_usec t2 then -1
      else 0)"

definition gfarm_timeval_normalize :: "timeval \<Rightarrow> timeval" where
  "gfarm_timeval_normalize t =
     (if tv_usec t \<ge> GFARM_SECOND_BY_MICROSEC then
        let n = cdiv (tv_usec t) GFARM_SECOND_BY_MICROSEC
        in Timeval (tv_sec t + n) (tv_usec t - n * GFARM_SECOND_BY_MICROSEC)
      else if tv_usec t < 0 then
        let n = cdiv (- tv_usec t) GFARM_SECOND_BY_MICROSEC + 1
        in Timeval (tv_sec t - n) (tv_usec t + n * GFARM_SECOND_BY_MICROSEC)
      else t)"

definition gfarm_timeval_add :: "timeval \<Rightarrow> timeval \<Rightarrow> timeval" where
  "gfarm_timeval_add t1 t2 =
     gfarm_timeval_normalize (Timeval (tv_sec t1 + tv_sec t2) (tv_usec t1 + tv_usec t2))"

definition gfarm_timeval_sub :: "timeval \<Rightarrow> timeval \<Rightarrow> timeval" where
  "gfarm_timeval_sub t1 t2 =
     gfarm_timeval_normalize (Timeval (tv_sec t1 - tv_sec t2) (tv_usec t1 - tv_usec t2))"

definition gfarm_timeval_add_microsec :: "timeval \<Rightarrow> int \<Rightarrow> timeval" where
  "gfarm_timeval_add_microsec t microsec =
     gfarm_timeval_normalize (Timeval (tv_sec t) (tv_usec t + microsec))"

subsection \<open>timespec.c\<close>

datatype gfarm_timespec = Timespec (ts_sec: int) (ts_nsec: int)

abbreviation GFARM_SECOND_BY_NANOSEC :: int where
  "GFARM_SECOND_BY_NANOSEC \<equiv> 1000000000"

definition gfarm_timespec_cmp :: "gfarm_timespec \<Rightarrow> gfarm_timespec \<Rightarrow> int" where
  "gfarm_timespec_cmp t1 t2 =
     (if ts_sec t1 > ts_sec t2 then 1
      else if ts_sec t1 < ts_sec t2 then -1
      else if ts_nsec t1 > ts_nsec t2 then 1
      else if ts_nsec t1 < ts_nsec t2 then -1
      else 0)"

definition gfarm_timespec_normalize :: "gfarm_timespec \<Rightarrow> gfarm_timespec" where
  "gfarm_timespec_normalize t =
     (if ts_nsec t \<ge> GFARM_SECOND_BY_NANOSEC then
        let n = cdiv (ts_nsec t) GFARM_SECOND_BY_NANOSEC
        in Timespec (ts_sec t + n) (as_int32 (ts_nsec t - n * GFARM_SECOND_BY_NANOSEC))
      else if ts_nsec t < 0 then
        let n = cdiv (- ts_nsec t) GFARM_SECOND_BY_NANOSEC + 1
        in Timespec (ts_sec t - n) (as_int32 (ts_nsec t + n * GFARM_SECOND_BY_NANOSEC))
      else t)"

definition gfarm_timespec_add :: "gfarm_timespec \<Rightarrow> gfarm_timespec \<Rightarrow> gfarm_timespec" where
  "gfarm_timespec_add t1 t2 =
     gfarm_timespec_normalize
       (Timespec (ts_sec t1 + ts_sec t2) (as_int32 (ts_nsec t1 + ts_nsec t2)))"

definition gfarm_timespec_sub :: "gfarm_timespec \<Rightarrow> gfarm_timespec \<Rightarrow> gfarm_timespec" where
  "gfarm_timespec_sub t1 t2 =
     gfarm_timespec_normalize
       (Timespec (ts_sec t1 - ts_sec t2) (as_int32 (ts_nsec t1 - ts_nsec t2)))"

definition gfarm_timespec_add_nanosec :: "gfarm_timespec \<Rightarrow> int \<Rightarrow> gfarm_timespec" where
  "gfarm_timespec_add_nanosec t nanosec =
     gfarm_timespec_normalize (Timespec (ts_sec t) (as_int32 (ts_nsec t + nanosec)))"

subsection \<open>The order and the value of a time\<close>

text \<open>
  The comparison is the lexicographic order on (seconds, microseconds); on normalised
  times it is the order of the instants, \<open>time_us\<close>.
\<close>

instantiation timeval :: linorder
begin

definition less_eq_timeval :: "timeval \<Rightarrow> timeval \<Rightarrow> bool" where
  "less_eq_timeval t1 t2 \<longleftrightarrow>
     tv_sec t1 < tv_sec t2 \<or> tv_sec t1 = tv_sec t2 \<and> tv_usec t1 \<le> tv_usec t2"

definition less_timeval :: "timeval \<Rightarrow> timeval \<Rightarrow> bool" where
  "less_timeval t1 t2 \<longleftrightarrow>
     tv_sec t1 < tv_sec t2 \<or> tv_sec t1 = tv_sec t2 \<and> tv_usec t1 < tv_usec t2"

instance
  by standard (auto simp: less_eq_timeval_def less_timeval_def timeval.expand)

end

definition time_us :: "timeval \<Rightarrow> int" where
  "time_us t = tv_sec t * GFARM_SECOND_BY_MICROSEC + tv_usec t"

definition tv_normalized :: "timeval \<Rightarrow> bool" where
  "tv_normalized t \<longleftrightarrow> 0 \<le> tv_usec t \<and> tv_usec t < GFARM_SECOND_BY_MICROSEC"

lemma gfarm_timeval_cmp_sign:
  "(gfarm_timeval_cmp t1 t2 < 0 \<longleftrightarrow> t1 < t2) \<and> (gfarm_timeval_cmp t1 t2 > 0 \<longleftrightarrow> t2 < t1)
     \<and> (gfarm_timeval_cmp t1 t2 = 0 \<longleftrightarrow> t1 = t2)"
  by (auto simp: gfarm_timeval_cmp_def less_timeval_def timeval.expand)

lemma less_timeval_time_us:
  "tv_normalized t1 \<Longrightarrow> tv_normalized t2 \<Longrightarrow> t1 < t2 \<longleftrightarrow> time_us t1 < time_us t2"
  by (auto simp: less_timeval_def tv_normalized_def time_us_def)

lemma time_us_normalize [simp]: "time_us (gfarm_timeval_normalize t) = time_us t"
  by (simp add: gfarm_timeval_normalize_def time_us_def Let_def algebra_simps)

lemma normalize_normalized:
  assumes "tv_usec t \<ge> 0 \<or> \<not> GFARM_SECOND_BY_MICROSEC dvd tv_usec t"
  shows "tv_normalized (gfarm_timeval_normalize t)"
proof (cases "tv_usec t \<ge> 0")
  case True
  then show ?thesis
    by (auto simp: gfarm_timeval_normalize_def tv_normalized_def cdiv_nonneg Let_def
        minus_div_mult_eq_mod)
next
  case False
  obtain m where m_def: "m = - tv_usec t" by blast
  have "m mod GFARM_SECOND_BY_MICROSEC \<noteq> 0"
    using assms False by (simp add: m_def dvd_eq_mod_eq_0 [symmetric])
  moreover have "- m + (m div GFARM_SECOND_BY_MICROSEC + 1) * GFARM_SECOND_BY_MICROSEC
      = GFARM_SECOND_BY_MICROSEC - m mod GFARM_SECOND_BY_MICROSEC"
    using div_mult_mod_eq [of m GFARM_SECOND_BY_MICROSEC] by (simp add: algebra_simps)
  moreover have "tv_usec (gfarm_timeval_normalize t)
      = - m + (m div GFARM_SECOND_BY_MICROSEC + 1) * GFARM_SECOND_BY_MICROSEC"
    using False by (simp add: gfarm_timeval_normalize_def cdiv_nonneg Let_def m_def)
  ultimately show ?thesis
    using pos_mod_bound [of GFARM_SECOND_BY_MICROSEC m]
      pos_mod_sign [of GFARM_SECOND_BY_MICROSEC m]
    by (simp add: tv_normalized_def del: pos_mod_bound pos_mod_sign)
qed

text \<open>
  The normalisation keeps the instant, and yields a normalised time unless the
  microseconds are a negative multiple of a million.
\<close>

lemma gfarm_timeval_add_normalized:
  "tv_normalized t1 \<Longrightarrow> tv_normalized t2 \<Longrightarrow> tv_normalized (gfarm_timeval_add t1 t2)"
  unfolding gfarm_timeval_add_def by (rule normalize_normalized) (simp add: tv_normalized_def)

lemma gfarm_timeval_sub_normalized:
  assumes "tv_normalized t1" and "tv_normalized t2"
  shows "tv_normalized (gfarm_timeval_sub t1 t2)"
  unfolding gfarm_timeval_sub_def
proof (rule normalize_normalized)
  have "\<bar>tv_usec t1 - tv_usec t2\<bar> < GFARM_SECOND_BY_MICROSEC"
    using assms by (auto simp: tv_normalized_def)
  then show "0 \<le> tv_usec (Timeval (tv_sec t1 - tv_sec t2) (tv_usec t1 - tv_usec t2)) \<or>
      \<not> GFARM_SECOND_BY_MICROSEC dvd
        tv_usec (Timeval (tv_sec t1 - tv_sec t2) (tv_usec t1 - tv_usec t2))"
    using zdvd_imp_le [of GFARM_SECOND_BY_MICROSEC "- (tv_usec t1 - tv_usec t2)"]
    by (auto simp: dvd_diff_commute)
qed

lemma time_us_inject:
  "tv_normalized t1 \<Longrightarrow> tv_normalized t2 \<Longrightarrow> time_us t1 = time_us t2 \<Longrightarrow> t1 = t2"
  using less_timeval_time_us [of t1 t2] less_timeval_time_us [of t2 t1] by (metis neq_iff)

lemma time_us_add: "time_us (gfarm_timeval_add t1 t2) = time_us t1 + time_us t2"
  by (simp add: gfarm_timeval_add_def) (simp add: time_us_def algebra_simps)

lemma time_us_sub: "time_us (gfarm_timeval_sub t1 t2) = time_us t1 - time_us t2"
  by (simp add: gfarm_timeval_sub_def) (simp add: time_us_def algebra_simps)

definition time_ns :: "gfarm_timespec \<Rightarrow> int" where
  "time_ns t = ts_sec t * GFARM_SECOND_BY_NANOSEC + ts_nsec t"

definition ts_normalized :: "gfarm_timespec \<Rightarrow> bool" where
  "ts_normalized t \<longleftrightarrow> 0 \<le> ts_nsec t \<and> ts_nsec t < GFARM_SECOND_BY_NANOSEC"

lemma timespec_normalize_sum:
  assumes "0 \<le> ts_nsec t" and "ts_nsec t < 2147483648"
  shows "ts_normalized (gfarm_timespec_normalize t)
    \<and> time_ns (gfarm_timespec_normalize t) = time_ns t"
proof -
  have r: "ts_nsec t - ts_nsec t div GFARM_SECOND_BY_NANOSEC * GFARM_SECOND_BY_NANOSEC
      = ts_nsec t mod GFARM_SECOND_BY_NANOSEC"
    by (simp add: minus_div_mult_eq_mod)
  have "0 \<le> ts_nsec t mod GFARM_SECOND_BY_NANOSEC"
    and "ts_nsec t mod GFARM_SECOND_BY_NANOSEC < GFARM_SECOND_BY_NANOSEC" by simp_all
  then have conv: "as_int32 (ts_nsec t mod GFARM_SECOND_BY_NANOSEC)
      = ts_nsec t mod GFARM_SECOND_BY_NANOSEC"
    by (intro as_int32_id) linarith+
  show ?thesis
    using assms r conv
    by (auto simp: gfarm_timespec_normalize_def ts_normalized_def time_ns_def cdiv_nonneg Let_def
        algebra_simps)
qed

lemma timespec_normalize_diff:
  assumes "- GFARM_SECOND_BY_NANOSEC < ts_nsec t" and "ts_nsec t < GFARM_SECOND_BY_NANOSEC"
  shows "ts_normalized (gfarm_timespec_normalize t)
    \<and> time_ns (gfarm_timespec_normalize t) = time_ns t"
proof (cases "0 \<le> ts_nsec t")
  case True
  with assms show ?thesis by (intro timespec_normalize_sum) simp_all
next
  case False
  with assms have "cdiv (- ts_nsec t) GFARM_SECOND_BY_NANOSEC = 0" by (simp add: cdiv_nonneg)
  with False assms show ?thesis
    by (simp add: gfarm_timespec_normalize_def ts_normalized_def time_ns_def Let_def)
qed

subsection \<open>Properties\<close>

text \<open>On normalised times, addition and subtraction of \<open>struct timeval\<close> are those of the
  instants, their results are normalised again, subtraction undoes addition, and the
  comparison is that of the instants.\<close>

theorem timeval_arithmetic:
  assumes "tv_normalized t1" and "tv_normalized t2"
  shows "tv_normalized (gfarm_timeval_add t1 t2) \<and> tv_normalized (gfarm_timeval_sub t1 t2)
    \<and> time_us (gfarm_timeval_add t1 t2) = time_us t1 + time_us t2
    \<and> time_us (gfarm_timeval_sub t1 t2) = time_us t1 - time_us t2
    \<and> gfarm_timeval_sub (gfarm_timeval_add t1 t2) t2 = t1
    \<and> gfarm_timeval_cmp t1 t2 = sgn (time_us t1 - time_us t2)"
proof -
  have add: "tv_normalized (gfarm_timeval_add t1 t2)"
    by (rule gfarm_timeval_add_normalized [OF assms])
  have "gfarm_timeval_sub (gfarm_timeval_add t1 t2) t2 = t1"
    by (rule time_us_inject [OF gfarm_timeval_sub_normalized [OF add assms(2)] assms(1)])
      (simp add: time_us_add time_us_sub)
  moreover have "gfarm_timeval_cmp t1 t2 = sgn (time_us t1 - time_us t2)"
    using assms by (auto simp: gfarm_timeval_cmp_def time_us_def tv_normalized_def sgn_if)
  ultimately show ?thesis
    using add gfarm_timeval_sub_normalized [OF assms] time_us_add time_us_sub by simp
qed

text \<open>\<open>gfarm_timeval_add_microsec\<close> always keeps the instant, but when the microseconds become a
  negative multiple of a million the result is not normalised: it has 1000000 microseconds.\<close>

theorem timeval_add_microsec_denormal:
  assumes "tv_usec t + m = - (int k + 1) * GFARM_SECOND_BY_MICROSEC"
  shows "tv_usec (gfarm_timeval_add_microsec t m) = GFARM_SECOND_BY_MICROSEC
    \<and> time_us (gfarm_timeval_add_microsec t m) = time_us t + m"
proof -
  let ?M = "GFARM_SECOND_BY_MICROSEC"
  have neg: "- (int k + 1) * ?M < 0" by simp
  have q: "cdiv (- (- (int k + 1) * ?M)) ?M = int k + 1"
    by (simp add: cdiv_nonneg)
  have "gfarm_timeval_add_microsec t m
      = Timeval (tv_sec t - (int k + 1 + 1)) (- (int k + 1) * ?M + (int k + 1 + 1) * ?M)"
    unfolding gfarm_timeval_add_microsec_def assms gfarm_timeval_normalize_def
    using neg q by (simp add: Let_def)
  then have "tv_usec (gfarm_timeval_add_microsec t m) = ?M" by (simp add: algebra_simps)
  moreover have "time_us (gfarm_timeval_add_microsec t m) = time_us t + m"
    by (simp add: gfarm_timeval_add_microsec_def) (simp add: time_us_def)
  ultimately show ?thesis by simp
qed

text \<open>On normalised \<open>struct gfarm_timespec\<close> values the 32-bit nanosecond field never
  overflows: addition and subtraction are those of the instants and stay normalised.\<close>

theorem timespec_arithmetic:
  assumes "ts_normalized t1" and "ts_normalized t2"
  shows "ts_normalized (gfarm_timespec_add t1 t2) \<and> ts_normalized (gfarm_timespec_sub t1 t2)
    \<and> time_ns (gfarm_timespec_add t1 t2) = time_ns t1 + time_ns t2
    \<and> time_ns (gfarm_timespec_sub t1 t2) = time_ns t1 - time_ns t2"
proof -
  let ?a = "Timespec (ts_sec t1 + ts_sec t2) (ts_nsec t1 + ts_nsec t2)"
  let ?s = "Timespec (ts_sec t1 - ts_sec t2) (ts_nsec t1 - ts_nsec t2)"
  have "gfarm_timespec_add t1 t2 = gfarm_timespec_normalize ?a"
    and "gfarm_timespec_sub t1 t2 = gfarm_timespec_normalize ?s"
    using assms by (simp_all add: gfarm_timespec_add_def gfarm_timespec_sub_def ts_normalized_def)
  moreover have "ts_normalized (gfarm_timespec_normalize ?a)
      \<and> time_ns (gfarm_timespec_normalize ?a) = time_ns ?a"
    by (rule timespec_normalize_sum) (use assms in \<open>simp_all add: ts_normalized_def\<close>)
  moreover have "ts_normalized (gfarm_timespec_normalize ?s)
      \<and> time_ns (gfarm_timespec_normalize ?s) = time_ns ?s"
    by (rule timespec_normalize_diff) (use assms in \<open>simp_all add: ts_normalized_def\<close>)
  ultimately show ?thesis by (simp add: time_ns_def algebra_simps)
qed

subsection \<open>Witnesses\<close>

theorem timeval_arithmetic_witness:
  "gfarm_timeval_sub (gfarm_timeval_add (Timeval 1 999999) (Timeval 2 2)) (Timeval 2 2)
     = Timeval 1 999999"
  using timeval_arithmetic [of "Timeval 1 999999" "Timeval 2 2"] by (simp add: tv_normalized_def)

theorem timeval_add_microsec_denormal_witness:
  "tv_usec (gfarm_timeval_add_microsec (Timeval 10 500000) (-2500000)) = 1000000"
  using timeval_add_microsec_denormal [of "Timeval 10 500000" "-2500000" 1] by simp

theorem timespec_arithmetic_witness:
  "time_ns (gfarm_timespec_add (Timespec 1 999999999) (Timespec 1 999999999)) = 3999999998"
  using timespec_arithmetic [of "Timespec 1 999999999" "Timespec 1 999999999"]
  by (simp add: ts_normalized_def time_ns_def)

end
