(* ===== verification/Byte_Order.thy ===== *)
theory Byte_Order
  imports Gfarm_Prelude
begin

text \<open>
  The memory image of integers on a little-endian host, and the functions of
  \<open>netinet/in.h\<close> and \<open>unistd.h\<close> that \<open>gfp_xdr.c\<close> reorders bytes with: \<open>htons\<close>, \<open>htonl\<close>
  and their inverses reverse the bytes of a value, \<open>swab\<close> exchanges the bytes of every pair.
\<close>

subsection \<open>Memory images\<close>

fun bytes_of :: "nat \<Rightarrow> 'a::len word \<Rightarrow> byte list" where
  "bytes_of 0 w = []"
| "bytes_of (Suc n) w = ucast w # bytes_of n (drop_bit 8 w)"

fun of_bytes :: "byte list \<Rightarrow> 'a::len word" where
  "of_bytes [] = 0"
| "of_bytes (b # bs) = or (ucast b) (push_bit 8 (of_bytes bs))"

lemma length_bytes_of [simp]: "length (bytes_of n w) = n"
  by (induction n arbitrary: w) simp_all

lemma bit_of_bytes_bound: "bit (of_bytes bs :: 'a::len word) m \<Longrightarrow> m < 8 * length bs"
proof (induction bs arbitrary: m)
  case (Cons b bs)
  then show ?case
    by (auto simp: bit_simps dest: bit_imp_le_length Cons.IH)
qed simp

lemma of_bytes_of: "of_bytes (bytes_of n w) = take_bit (8 * n) (w :: 'a::len word)"
proof (induction n arbitrary: w)
  case (Suc n)
  show ?case
    by (rule bit_word_eqI) (auto simp: Suc bit_simps not_le)
qed simp

lemma bytes_of_of:
  "8 * length bs \<le> LENGTH('a) \<Longrightarrow> bytes_of (length bs) (of_bytes bs :: 'a::len word) = bs"
proof (induction bs)
  case (Cons b bs)
  have small: "\<not> bit (of_bytes bs :: 'a word) m" if "LENGTH('a) \<le> m + 8" for m
    using that Cons.prems bit_of_bytes_bound [of bs m] by fastforce
  have "drop_bit 8 (of_bytes (b # bs) :: 'a word) = of_bytes bs"
    using small by (intro bit_word_eqI) (auto simp: bit_simps dest: bit_imp_le_length)
  moreover have "ucast (of_bytes (b # bs) :: 'a word) = b"
    using Cons.prems by (intro bit_word_eqI) (auto simp: bit_simps)
  ultimately show ?case using Cons by simp
qed simp

subsection \<open>Byte order\<close>

definition htons :: "u16 \<Rightarrow> u16" where "htons w = of_bytes (rev (bytes_of 2 w))"
definition ntohs :: "u16 \<Rightarrow> u16" where "ntohs w = of_bytes (rev (bytes_of 2 w))"
definition htonl :: "u32 \<Rightarrow> u32" where "htonl w = of_bytes (rev (bytes_of 4 w))"
definition ntohl :: "u32 \<Rightarrow> u32" where "ntohl w = of_bytes (rev (bytes_of 4 w))"

fun swab :: "byte list \<Rightarrow> byte list" where
  "swab (a # b # bs) = b # a # swab bs"
| "swab bs = bs"

lemma bytes_of_htonl: "bytes_of 4 (htonl w) = rev (bytes_of 4 w)"
  using bytes_of_of [of "rev (bytes_of 4 w)", where 'a = 32] by (simp add: htonl_def)

lemma bytes_of_htons: "bytes_of 2 (htons w) = rev (bytes_of 2 w)"
  using bytes_of_of [of "rev (bytes_of 2 w)", where 'a = 16] by (simp add: htons_def)

lemma take_bit_all [simp]:
  "take_bit 16 (w :: u16) = w" "take_bit 32 (x :: u32) = x" "take_bit 64 (y :: u64) = y"
  by (simp_all add: take_bit_word_eq_self)

lemma ntohl_htonl [simp]: "ntohl (htonl w) = w"
  by (simp add: ntohl_def bytes_of_htonl of_bytes_of)

lemma ntohs_htons [simp]: "ntohs (htons w) = w"
  by (simp add: ntohs_def bytes_of_htons of_bytes_of)

lemma swab_swab [simp]: "swab (swab bs) = bs"
  by (induction bs rule: swab.induct) simp_all

lemma length_swab [simp]: "length (swab bs) = length bs"
  by (induction bs rule: swab.induct) simp_all

text \<open>A 64-bit value from its two halves, as it is taken apart.\<close>

lemma halves_join:
  "or (push_bit 32 (ucast (ucast (drop_bit 32 w) :: u32))) (ucast (ucast w :: u32)) = (w :: u64)"
  by (rule bit_word_eqI) (auto simp: bit_simps)

end
