(* ===== verification/Alloc.thy ===== *)
theory Alloc
  imports Gfarm_Error
begin

text \<open>
  \<open>gfutil/alloc.c\<close>: the overflow-checked size arithmetic every allocation of the
  library goes through. \<open>size_t\<close> is a 64-bit word (LP64). The in-out parameter
  \<open>int *overflowp\<close> is threaded as a boolean: it is set on overflow and never cleared.
  What \<open>malloc\<close> answers is not the library's to decide, so the allocation functions
  take it as a parameter: \<open>mal n\<close> says whether the C library grants \<open>n\<close> bytes.
\<close>

definition gfarm_size_add :: "bool \<Rightarrow> u64 \<Rightarrow> u64 \<Rightarrow> bool \<times> u64" where
  "gfarm_size_add overflow a b =
     (let sum = a + b in (if sum < a then True else overflow, sum))"

definition gfarm_size_mul :: "bool \<Rightarrow> u64 \<Rightarrow> u64 \<Rightarrow> bool \<times> u64" where
  "gfarm_size_mul overflow a b =
     (let product = a * b
      in (if b \<noteq> 0 \<and> product div b \<noteq> a then True else overflow, product))"

text \<open>
  An allocation yields the number of bytes granted, or \<open>None\<close> for \<open>NULL\<close>.
\<close>

definition gfarm_calloc_array :: "(u64 \<Rightarrow> bool) \<Rightarrow> u64 \<Rightarrow> u64 \<Rightarrow> u64 option" where
  "gfarm_calloc_array mal number sz =
     (let (overflow, _) = gfarm_size_mul False number sz
      in if overflow then None
         else if mal (number * sz) then Some (number * sz) else None)"

definition gfarm_malloc_array :: "(u64 \<Rightarrow> bool) \<Rightarrow> u64 \<Rightarrow> u64 \<Rightarrow> u64 option" where
  "gfarm_malloc_array mal number sz =
     (let (overflow, total_size) = gfarm_size_mul False number sz
      in if overflow then None
         else if mal total_size then Some total_size else None)"

definition gfarm_realloc_array :: "(u64 \<Rightarrow> bool) \<Rightarrow> u64 \<Rightarrow> u64 \<Rightarrow> u64 option" where
  "gfarm_realloc_array mal number sz =
     (let (overflow, total_size) = gfarm_size_mul False number sz
      in if overflow then None
         else if mal total_size then Some total_size else None)"

subsection \<open>The overflow tests are exact\<close>

lemma size_add_overflow_iff:
  "fst (gfarm_size_add False a b) \<longleftrightarrow> 2 ^ 64 \<le> unat a + unat b"
proof -
  have sum: "unat (a + b) = (unat a + unat b) mod 2 ^ 64"
    by (simp add: unat_word_ariths)
  have "a + b < a \<longleftrightarrow> 2 ^ 64 \<le> unat a + unat b"
  proof (cases "unat a + unat b < 2 ^ 64")
    case True
    with sum show ?thesis by (simp add: word_less_nat_alt)
  next
    case False
    have "unat a < 2 ^ 64" and "unat b < 2 ^ 64"
      using unsigned_less [of a] unsigned_less [of b] by simp_all
    with False have "(unat a + unat b) mod 2 ^ 64 = unat a + unat b - 2 ^ 64"
      by (simp add: le_mod_geq)
    with sum False \<open>unat b < 2 ^ 64\<close> show ?thesis by (simp add: word_less_nat_alt)
  qed
  then show ?thesis by (simp add: gfarm_size_add_def Let_def)
qed

lemma size_mul_overflow_iff:
  "fst (gfarm_size_mul False a b) \<longleftrightarrow> 2 ^ 64 \<le> unat a * unat b"
proof (cases "b = 0")
  case True
  then show ?thesis by (simp add: gfarm_size_mul_def)
next
  case False
  then have pos: "0 < unat b" by (simp add: unat_gt_0)
  show ?thesis
  proof (cases "unat a * unat b < 2 ^ 64")
    case True
    then have "unat (a * b) = unat a * unat b"
      by (simp add: unat_word_ariths)
    then have "unat (a * b div b) = unat a"
      using pos by (simp add: unat_div)
    then have "a * b div b = a" by (simp add: word_unat_eq_iff)
    with True show ?thesis by (simp add: gfarm_size_mul_def)
  next
    case over: False
    have "a * b div b \<noteq> a"
    proof
      assume "a * b div b = a"
      then have "unat (a * b) div unat b = unat a"
        by (metis unat_div)
      then have "unat a * unat b \<le> unat (a * b)"
        by (metis div_times_less_eq_dividend)
      also have "\<dots> < 2 ^ 64" using unsigned_less [of "a * b"] by simp
      finally show False using over by simp
    qed
    with False over show ?thesis by (simp add: gfarm_size_mul_def)
  qed
qed

text \<open>C1: an array allocation succeeds only with the mathematical product of its factors.\<close>

theorem gfarm_malloc_array_exact:
  "gfarm_malloc_array mal n s = Some t \<longleftrightarrow>
     unat n * unat s < 2 ^ 64 \<and> unat t = unat n * unat s \<and> mal t"
proof -
  have "gfarm_malloc_array mal n s = Some t \<longleftrightarrow>
      \<not> fst (gfarm_size_mul False n s) \<and> t = n * s \<and> mal t"
    by (auto simp: gfarm_malloc_array_def gfarm_size_mul_def Let_def)
  moreover have "unat n * unat s < 2 ^ 64 \<Longrightarrow> unat (n * s) = unat n * unat s"
    by (simp add: unat_word_ariths)
  ultimately show ?thesis
    by (auto simp: size_mul_overflow_iff word_unat_eq_iff)
qed

end
