(* ===== verification/Iobuffer.thy ===== *)
theory Iobuffer
  imports Alloc
begin

text \<open>
  \<open>gfarm/iobuffer.c\<close>: the first-in first-out byte buffer between the XDR layer and
  a socket. The struct is the record \<open>iobuffer\<close>, field by field; the state
  of the world behind the function pointers (the sockets, the peer) is the type
  parameter \<open>'w\<close> and is threaded through every operation that calls a hook.

  A hook \<open>read_func(b, cookie, fd, data, n)\<close> answers a count of bytes it has stored
  at \<open>data\<close>, 0 at end of file, or -1 after having called \<open>gfarm_iobuffer_set_error\<close>
  on the buffer: \<open>Io_got bs\<close> or \<open>Io_err e\<close>. A \<open>write_func\<close> answers the count of
  bytes it has taken, or -1 with the error set: \<open>Io_put k\<close> or \<open>Io_fail e\<close>.

  An in-out parameter \<open>int *residualp\<close> is an \<open>int option\<close>, \<open>None\<close> for \<open>NULL\<close>
  (no limit), and the operation returns its new value.
\<close>

subsection \<open>The buffer\<close>

datatype io_in = Io_got "byte list" | Io_err gfarm_error_t
datatype io_out = Io_put nat | Io_fail gfarm_error_t

type_synonym 'w read_hook = "nat \<Rightarrow> int \<Rightarrow> int \<Rightarrow> 'w \<Rightarrow> io_in \<times> 'w"
type_synonym 'w write_hook = "nat \<Rightarrow> int \<Rightarrow> byte list \<Rightarrow> 'w \<Rightarrow> io_out \<times> 'w"
type_synonym 'w close_hook = "nat \<Rightarrow> int \<Rightarrow> 'w \<Rightarrow> 'w"

record 'w iobuffer =
  ib_buffer :: mem
  ib_bufsize :: int
  ib_head :: int
  ib_tail :: int
  ib_read_func :: "'w read_hook"
  ib_read_cookie :: nat
  ib_read_fd :: int
  ib_write_func :: "'w write_hook"
  ib_write_cookie :: nat
  ib_write_fd :: int
  ib_write_close_func :: "'w close_hook"
  ib_read_eof :: bool
  ib_write_eof :: bool
  ib_error :: gfarm_error_t

definition gfarm_iobuffer_write_close_nop :: "'w close_hook" where
  "gfarm_iobuffer_write_close_nop cookie fd w = w"

text \<open>
  A fresh buffer has \<open>NULL\<close> for both hooks; \<open>rf0\<close> and \<open>wf0\<close> are whatever a call
  through these pointers would do, and \<open>m0\<close> is the content of the fresh memory.
  \<open>malb\<close> is the outcome of the allocation of the struct itself.
\<close>

definition gfarm_iobuffer_alloc ::
  "bool \<Rightarrow> (u64 \<Rightarrow> bool) \<Rightarrow> mem \<Rightarrow> 'w read_hook \<Rightarrow> 'w write_hook \<Rightarrow> int \<Rightarrow> 'w iobuffer option" where
  "gfarm_iobuffer_alloc malb mal m0 rf0 wf0 bufsize =
     (if \<not> malb then None
      else case gfarm_malloc_array mal (word_of_int bufsize) 1 of
        None \<Rightarrow> None
      | Some _ \<Rightarrow> Some
          \<lparr>ib_buffer = m0, ib_bufsize = bufsize, ib_head = 0, ib_tail = 0,
           ib_read_func = rf0, ib_read_cookie = 0, ib_read_fd = -1,
           ib_write_func = wf0, ib_write_cookie = 0, ib_write_fd = -1,
           ib_write_close_func = gfarm_iobuffer_write_close_nop,
           ib_read_eof = False, ib_write_eof = False, ib_error = GFARM_ERR_NO_ERROR\<rparr>)"

definition gfarm_iobuffer_set_error :: "'w iobuffer \<Rightarrow> gfarm_error_t \<Rightarrow> 'w iobuffer" where
  "gfarm_iobuffer_set_error b e = b\<lparr>ib_error := e\<rparr>"

definition gfarm_iobuffer_get_error :: "'w iobuffer \<Rightarrow> gfarm_error_t" where
  "gfarm_iobuffer_get_error b = ib_error b"

definition gfarm_iobuffer_set_read ::
  "'w iobuffer \<Rightarrow> 'w read_hook \<Rightarrow> nat \<Rightarrow> int \<Rightarrow> 'w iobuffer" where
  "gfarm_iobuffer_set_read b rf cookie fd =
     b\<lparr>ib_read_func := rf, ib_read_cookie := cookie, ib_read_fd := fd\<rparr>"

definition gfarm_iobuffer_get_read_cookie :: "'w iobuffer \<Rightarrow> nat" where
  "gfarm_iobuffer_get_read_cookie b = ib_read_cookie b"

definition gfarm_iobuffer_get_read_fd :: "'w iobuffer \<Rightarrow> int" where
  "gfarm_iobuffer_get_read_fd b = ib_read_fd b"

definition gfarm_iobuffer_get_write_cookie :: "'w iobuffer \<Rightarrow> nat" where
  "gfarm_iobuffer_get_write_cookie b = ib_write_cookie b"

definition gfarm_iobuffer_get_write_fd :: "'w iobuffer \<Rightarrow> int" where
  "gfarm_iobuffer_get_write_fd b = ib_write_fd b"

definition gfarm_iobuffer_set_write_close :: "'w iobuffer \<Rightarrow> 'w close_hook \<Rightarrow> 'w iobuffer" where
  "gfarm_iobuffer_set_write_close b wcf = b\<lparr>ib_write_close_func := wcf\<rparr>"

definition gfarm_iobuffer_set_write ::
  "'w iobuffer \<Rightarrow> 'w write_hook \<Rightarrow> nat \<Rightarrow> int \<Rightarrow> 'w iobuffer" where
  "gfarm_iobuffer_set_write b wfn cookie fd =
     b\<lparr>ib_write_func := wfn, ib_write_cookie := cookie, ib_write_fd := fd\<rparr>"

definition gfarm_iobuffer_empty :: "'w iobuffer \<Rightarrow> bool" where
  "gfarm_iobuffer_empty b \<longleftrightarrow> ib_head b \<ge> ib_tail b"

definition gfarm_iobuffer_full :: "'w iobuffer \<Rightarrow> bool" where
  "gfarm_iobuffer_full b \<longleftrightarrow> ib_head b \<le> 0 \<and> ib_tail b \<ge> ib_bufsize b"

definition gfarm_iobuffer_avail_length :: "'w iobuffer \<Rightarrow> int" where
  "gfarm_iobuffer_avail_length b = ib_tail b - ib_head b"

definition gfarm_iobuffer_set_read_eof :: "'w iobuffer \<Rightarrow> 'w iobuffer" where
  "gfarm_iobuffer_set_read_eof b = b\<lparr>ib_read_eof := True\<rparr>"

definition gfarm_iobuffer_clear_read_eof :: "'w iobuffer \<Rightarrow> 'w iobuffer" where
  "gfarm_iobuffer_clear_read_eof b = b\<lparr>ib_read_eof := False\<rparr>"

definition gfarm_iobuffer_clear_write_eof :: "'w iobuffer \<Rightarrow> 'w iobuffer" where
  "gfarm_iobuffer_clear_write_eof b = b\<lparr>ib_write_eof := False\<rparr>"

definition gfarm_iobuffer_is_read_eof :: "'w iobuffer \<Rightarrow> bool" where
  "gfarm_iobuffer_is_read_eof b \<longleftrightarrow> ib_read_eof b"

definition gfarm_iobuffer_is_write_eof :: "'w iobuffer \<Rightarrow> bool" where
  "gfarm_iobuffer_is_write_eof b \<longleftrightarrow> ib_write_eof b"

definition gfarm_iobuffer_is_readable :: "'w iobuffer \<Rightarrow> bool" where
  "gfarm_iobuffer_is_readable b \<longleftrightarrow> \<not> gfarm_iobuffer_full b \<and> \<not> ib_read_eof b"

definition gfarm_iobuffer_is_writable :: "'w iobuffer \<Rightarrow> bool" where
  "gfarm_iobuffer_is_writable b \<longleftrightarrow>
     \<not> gfarm_iobuffer_empty b \<or> (ib_read_eof b \<and> \<not> ib_write_eof b)"

definition gfarm_iobuffer_is_eof :: "'w iobuffer \<Rightarrow> bool" where
  "gfarm_iobuffer_is_eof b \<longleftrightarrow> gfarm_iobuffer_empty b \<and> ib_read_eof b"

subsection \<open>Filling the buffer\<close>

text \<open>The \<open>memmove\<close> of the unread bytes to the front, shared by \<open>read\<close> and \<open>put\<close>.\<close>

definition iobuffer_move_front :: "'w iobuffer \<Rightarrow> 'w iobuffer" where
  "iobuffer_move_front b =
     b\<lparr>ib_buffer := mem_write (ib_buffer b) 0
                      (mem_read (ib_buffer b) (ib_head b) (gfarm_iobuffer_avail_length b)),
       ib_tail := ib_tail b - ib_head b,
       ib_head := 0\<rparr>"

definition gfarm_iobuffer_read ::
  "'w iobuffer \<Rightarrow> int option \<Rightarrow> 'w \<Rightarrow> 'w iobuffer \<times> int option \<times> 'w" where
  "gfarm_iobuffer_read b residualp w =
     (if gfarm_iobuffer_full b then (b, residualp, w)
      else
        let space = ib_head b + (ib_bufsize b - ib_tail b);
            residual = (case residualp of None \<Rightarrow> space | Some r \<Rightarrow> r)
        in if residual \<le> 0 then (b, residualp, w)
           else
             let b1 = (if residual > ib_bufsize b - ib_tail b \<and> ib_head b > 0
                       then iobuffer_move_front b else b);
                 (rv, w') = ib_read_func b1 (ib_read_cookie b1) (ib_read_fd b1)
                              (if residual < space then residual else space) w
             in (case rv of
                   Io_err e \<Rightarrow> (gfarm_iobuffer_set_error b1 e, residualp, w')
                 | Io_got bs \<Rightarrow>
                     if bs = [] then (b1\<lparr>ib_read_eof := True\<rparr>, residualp, w')
                     else (b1\<lparr>ib_buffer := mem_write (ib_buffer b1) (ib_tail b1) bs,
                              ib_tail := ib_tail b1 + int (length bs)\<rparr>,
                           map_option (\<lambda>r. r - int (length bs)) residualp, w')))"

text \<open>\<open>put\<close> copies from the caller's memory: \<open>data\<close> are the bytes at \<open>data[0..len-1]\<close>.\<close>

definition gfarm_iobuffer_put :: "'w iobuffer \<Rightarrow> byte list \<Rightarrow> 'w iobuffer \<times> int" where
  "gfarm_iobuffer_put b data =
     (let len = int (length data)
      in if len \<le> 0 then (b, 0)
         else if gfarm_iobuffer_full b then (b, 0)
         else
           let space = ib_head b + (ib_bufsize b - ib_tail b);
               b1 = (if len > ib_bufsize b - ib_tail b \<and> ib_head b > 0
                     then iobuffer_move_front b else b);
               iolen = (if len < space then len else space)
           in (b1\<lparr>ib_buffer := mem_write (ib_buffer b1) (ib_tail b1) (take (nat iolen) data),
                  ib_tail := ib_tail b1 + iolen\<rparr>, iolen))"

subsection \<open>Draining the buffer\<close>

definition gfarm_iobuffer_write_close :: "'w iobuffer \<Rightarrow> 'w \<Rightarrow> 'w iobuffer \<times> 'w" where
  "gfarm_iobuffer_write_close b w =
     (b\<lparr>ib_write_eof := True\<rparr>,
      ib_write_close_func b (ib_write_cookie b) (ib_write_fd b) w)"

text \<open>The first lines of \<open>write\<close>, \<open>purge\<close> and \<open>get\<close>, on an empty buffer.\<close>

definition iobuffer_on_empty :: "'w iobuffer \<Rightarrow> 'w \<Rightarrow> 'w iobuffer \<times> 'w" where
  "iobuffer_on_empty b w = (if ib_read_eof b then gfarm_iobuffer_write_close b w else (b, w))"

text \<open>Their last lines: the head advances, and an emptied buffer starts over at 0.\<close>

definition iobuffer_advance :: "'w iobuffer \<Rightarrow> int \<Rightarrow> 'w iobuffer" where
  "iobuffer_advance b n =
     (let b1 = b\<lparr>ib_head := ib_head b + n\<rparr>
      in if gfarm_iobuffer_empty b1 then b1\<lparr>ib_head := 0, ib_tail := 0\<rparr> else b1)"

definition gfarm_iobuffer_write ::
  "'w iobuffer \<Rightarrow> int option \<Rightarrow> 'w \<Rightarrow> 'w iobuffer \<times> int option \<times> 'w" where
  "gfarm_iobuffer_write b residualp w =
     (if gfarm_iobuffer_empty b
      then let (b', w') = iobuffer_on_empty b w in (b', residualp, w')
      else
        let avail = gfarm_iobuffer_avail_length b;
            residual = (case residualp of None \<Rightarrow> avail | Some r \<Rightarrow> r)
        in if residual \<le> 0 then (b, residualp, w)
           else
             let (rv, w') = ib_write_func b (ib_write_cookie b) (ib_write_fd b)
                   (mem_read (ib_buffer b) (ib_head b)
                      (if residual < avail then residual else avail)) w
             in (case rv of
                   Io_fail e \<Rightarrow> (gfarm_iobuffer_set_error b e, residualp, w')
                 | Io_put k \<Rightarrow>
                     if k > 0 then (iobuffer_advance b (int k),
                                    map_option (\<lambda>r. r - int k) residualp, w')
                     else (b, residualp, w')))"

definition gfarm_iobuffer_purge ::
  "'w iobuffer \<Rightarrow> int option \<Rightarrow> 'w \<Rightarrow> 'w iobuffer \<times> int option \<times> int \<times> 'w" where
  "gfarm_iobuffer_purge b residualp w =
     (if gfarm_iobuffer_empty b
      then let (b', w') = iobuffer_on_empty b w in (b', residualp, 0, w')
      else
        let avail = gfarm_iobuffer_avail_length b;
            residual = (case residualp of None \<Rightarrow> avail | Some r \<Rightarrow> r)
        in if residual \<le> 0 then (b, residualp, 0, w)
           else
             let purgelen = (if residual < avail then residual else avail)
             in (iobuffer_advance b purgelen,
                 map_option (\<lambda>r. r - purgelen) residualp, purgelen, w))"

text \<open>\<open>get\<close> returns the bytes copied to \<open>data\<close>; the C result is their number.\<close>

definition gfarm_iobuffer_get ::
  "'w iobuffer \<Rightarrow> int \<Rightarrow> 'w \<Rightarrow> 'w iobuffer \<times> byte list \<times> 'w" where
  "gfarm_iobuffer_get b len w =
     (if gfarm_iobuffer_empty b
      then let (b', w') = iobuffer_on_empty b w in (b', [], w')
      else if len \<le> 0 then (b, [], w)
      else
        let avail = gfarm_iobuffer_avail_length b;
            iolen = (if len < avail then len else avail)
        in (iobuffer_advance b iolen, mem_read (ib_buffer b) (ib_head b) iolen, w))"

subsection \<open>The loops over the hooks\<close>

text \<open>
  \<open>flush_write\<close> runs until the buffer is empty or the error is set; a \<open>write_func\<close>
  that keeps answering 0 keeps it running, so the result is an \<open>option\<close> and \<open>None\<close>
  is a call that does not return.
\<close>

partial_function (option) gfarm_iobuffer_flush_write ::
  "'w iobuffer \<Rightarrow> 'w \<Rightarrow> ('w iobuffer \<times> 'w) option" where
  "gfarm_iobuffer_flush_write b w =
     (if \<not> gfarm_iobuffer_empty b \<and> ib_error b = GFARM_ERR_NO_ERROR
      then (case gfarm_iobuffer_write b None w of (b', _, w') \<Rightarrow> gfarm_iobuffer_flush_write b' w')
      else Some (b, w))"

text \<open>
  \<open>put_write\<close>: the loop state is the buffer, the bytes still to be put and the world.
  The code breaks on \<open>rv == 0\<close>; a negative \<open>rv\<close> would be the length of a
  \<open>memcpy\<close> in \<open>put\<close> and never comes back (\<open>put_len\<close> below).
\<close>

function put_write_loop ::
  "'w iobuffer \<Rightarrow> byte list \<Rightarrow> 'w \<Rightarrow> 'w iobuffer \<times> byte list \<times> 'w" where
  "put_write_loop b data w =
     (if data = [] then (b, data, w)
      else
        let (b1, w1) = (if gfarm_iobuffer_full b
                        then let (b', _, w') = gfarm_iobuffer_write b None w in (b', w')
                        else (b, w));
            (b2, rv) = gfarm_iobuffer_put b1 data
        in if rv \<le> 0 then (b2, data, w1)
           else put_write_loop b2 (drop (nat rv) data) w1)"
  by pat_completeness auto
termination
  by (relation "measure (\<lambda>(b, data, w). length data)") auto

declare put_write_loop.simps [simp del]

definition gfarm_iobuffer_put_write ::
  "'w iobuffer \<Rightarrow> byte list \<Rightarrow> 'w \<Rightarrow> 'w iobuffer \<times> int \<times> 'w" where
  "gfarm_iobuffer_put_write b data w =
     (let (b1, residual, w1) = put_write_loop b data w;
          (b2, w2) = (if gfarm_iobuffer_full b1
                      then let (b', _, w') = gfarm_iobuffer_write b1 None w1 in (b', w')
                      else (b1, w1))
      in (b2, int (length data) - int (length residual), w2))"

text \<open>The refill at the top of the two read loops; \<open>just\<close> bounds it by the residual.\<close>

definition iobuffer_refill :: "'w iobuffer \<Rightarrow> int \<Rightarrow> bool \<Rightarrow> 'w \<Rightarrow> 'w iobuffer \<times> 'w" where
  "iobuffer_refill b residual just w =
     (if gfarm_iobuffer_empty b
      then let (b', _, w') = gfarm_iobuffer_read b (if just then Some residual else None) w
           in (b', w')
      else (b, w))"

lemma purge_residual:
  "gfarm_iobuffer_purge b (Some r) w = (b', Some r', rv, w') \<Longrightarrow> r' = r - rv \<and> 0 \<le> rv"
  by (auto simp: gfarm_iobuffer_purge_def gfarm_iobuffer_empty_def
      gfarm_iobuffer_avail_length_def Let_def split: if_splits prod.splits)

function purge_read_loop ::
  "'w iobuffer \<Rightarrow> int \<Rightarrow> bool \<Rightarrow> 'w \<Rightarrow> 'w iobuffer \<times> int \<times> 'w" where
  "purge_read_loop b residual just w =
     (if residual \<le> 0 then (b, residual, w)
      else
        let (b1, w1) = iobuffer_refill b residual just w;
            (b2, residualp, rv, w2) = gfarm_iobuffer_purge b1 (Some residual) w1
        in if rv = 0 then (b2, residual, w2)
           else purge_read_loop b2 (residual - rv) just w2)"
  by pat_completeness auto
termination
proof (relation "measure (\<lambda>(b, r, j, w). nat r)", goal_cases)
  case (2 b r j w x b1 w1 y b2 z rp u rv w2)
  then show ?case
    by (auto simp: gfarm_iobuffer_purge_def gfarm_iobuffer_empty_def
        gfarm_iobuffer_avail_length_def Let_def split: if_splits prod.splits)
qed simp

declare purge_read_loop.simps [simp del]

definition gfarm_iobuffer_purge_read_x ::
  "'w iobuffer \<Rightarrow> int \<Rightarrow> bool \<Rightarrow> 'w \<Rightarrow> 'w iobuffer \<times> int \<times> 'w" where
  "gfarm_iobuffer_purge_read_x b len just w =
     (let (b', residual, w') = purge_read_loop b len just w in (b', len - residual, w'))"

text \<open>The bytes \<open>get_read_x\<close> has stored at \<open>data\<close>; the C result is their number.\<close>

function gfarm_iobuffer_get_read_x ::
  "'w iobuffer \<Rightarrow> int \<Rightarrow> bool \<Rightarrow> 'w \<Rightarrow> 'w iobuffer \<times> byte list \<times> 'w" where
  "gfarm_iobuffer_get_read_x b residual just w =
     (if residual \<le> 0 then (b, [], w)
      else
        let (b1, w1) = iobuffer_refill b residual just w;
            (b2, ds, w2) = gfarm_iobuffer_get b1 residual w1
        in if ds = [] then (b2, [], w2)
           else let (b3, ds', w3) =
                      gfarm_iobuffer_get_read_x b2 (residual - int (length ds)) just w2
                in (b3, ds @ ds', w3))"
  by pat_completeness auto
termination
  by (relation "measure (\<lambda>(b, r, j, w). nat r)") auto

declare gfarm_iobuffer_get_read_x.simps [simp del]

definition gfarm_iobuffer_get_read_just ::
  "'w iobuffer \<Rightarrow> int \<Rightarrow> 'w \<Rightarrow> 'w iobuffer \<times> byte list \<times> 'w" where
  "gfarm_iobuffer_get_read_just b len w = gfarm_iobuffer_get_read_x b len True w"

definition gfarm_iobuffer_get_read ::
  "'w iobuffer \<Rightarrow> int \<Rightarrow> 'w \<Rightarrow> 'w iobuffer \<times> byte list \<times> 'w" where
  "gfarm_iobuffer_get_read b len w = gfarm_iobuffer_get_read_x b len False w"

definition gfarm_iobuffer_get_read_partial_x ::
  "'w iobuffer \<Rightarrow> int \<Rightarrow> bool \<Rightarrow> 'w \<Rightarrow> 'w iobuffer \<times> byte list \<times> 'w" where
  "gfarm_iobuffer_get_read_partial_x b len just w =
     (let (b1, w1) = iobuffer_refill b len just w in gfarm_iobuffer_get b1 len w1)"

definition gfarm_iobuffer_get_read_partial_just ::
  "'w iobuffer \<Rightarrow> int \<Rightarrow> 'w \<Rightarrow> 'w iobuffer \<times> byte list \<times> 'w" where
  "gfarm_iobuffer_get_read_partial_just b len w =
     gfarm_iobuffer_get_read_partial_x b len True w"

definition gfarm_iobuffer_get_read_partial ::
  "'w iobuffer \<Rightarrow> int \<Rightarrow> 'w \<Rightarrow> 'w iobuffer \<times> byte list \<times> 'w" where
  "gfarm_iobuffer_get_read_partial b len w =
     gfarm_iobuffer_get_read_partial_x b len False w"

end
