(* ===== verification/Iobuffer_Spec.thy ===== *)
theory Iobuffer_Spec
  imports Iobuffer
begin

text \<open>
  What \<open>iobuffer.c\<close> promises: a buffer is a queue of bytes (\<open>iob_content\<close>) of
  bounded length, \<open>put\<close> and \<open>read\<close> append to it, \<open>get\<close>, \<open>purge\<close> and \<open>write\<close>
  take from its front, and no operation leaves the bounds of the memory block.
  The locales state what the hooks promise in return (a source of bytes, a sink of
  bytes), and what the loops over them then do.
\<close>

subsection \<open>Invariant and abstraction\<close>

definition iob_ok :: "'w iobuffer \<Rightarrow> bool" where
  "iob_ok b \<longleftrightarrow> 0 < ib_bufsize b \<and> 0 \<le> ib_head b \<and> ib_head b \<le> ib_tail b
     \<and> ib_tail b \<le> ib_bufsize b"

definition iob_content :: "'w iobuffer \<Rightarrow> byte list" where
  "iob_content b = mem_read (ib_buffer b) (ib_head b) (ib_tail b - ib_head b)"

text \<open>The part of the struct that the data operations never touch.\<close>

definition iob_frame :: "'w iobuffer \<Rightarrow>
    int \<times> 'w read_hook \<times> nat \<times> int \<times> 'w write_hook \<times> nat \<times> int \<times> 'w close_hook" where
  "iob_frame b = (ib_bufsize b, ib_read_func b, ib_read_cookie b, ib_read_fd b,
     ib_write_func b, ib_write_cookie b, ib_write_fd b, ib_write_close_func b)"

lemmas iob_simps = gfarm_iobuffer_empty_def gfarm_iobuffer_full_def
  gfarm_iobuffer_avail_length_def gfarm_iobuffer_set_error_def Let_def

lemma length_iob_content: "iob_ok b \<Longrightarrow> int (length (iob_content b)) = ib_tail b - ib_head b"
  by (simp add: iob_content_def iob_ok_def)

lemma empty_iff_content: "gfarm_iobuffer_empty b \<longleftrightarrow> iob_content b = []"
  by (simp add: iob_simps iob_content_def)

lemma full_iff_content:
  "iob_ok b \<Longrightarrow> gfarm_iobuffer_full b \<longleftrightarrow> int (length (iob_content b)) = ib_bufsize b"
  by (auto simp: iob_simps iob_ok_def length_iob_content)

lemma frame_fields:
  "iob_frame b' = iob_frame b \<Longrightarrow> ib_bufsize b' = ib_bufsize b \<and>
     ib_read_func b' = ib_read_func b \<and> ib_read_cookie b' = ib_read_cookie b \<and>
     ib_read_fd b' = ib_read_fd b \<and> ib_write_func b' = ib_write_func b \<and>
     ib_write_cookie b' = ib_write_cookie b \<and> ib_write_fd b' = ib_write_fd b \<and>
     ib_write_close_func b' = ib_write_close_func b"
  by (simp add: iob_frame_def)

text \<open>An update of bookkeeping fields leaves invariant, content and frame alone.\<close>

lemma iob_flag_updates [simp]:
  "iob_ok (b\<lparr>ib_error := e\<rparr>) = iob_ok b"
  "iob_ok (b\<lparr>ib_read_eof := r\<rparr>) = iob_ok b"
  "iob_ok (b\<lparr>ib_write_eof := r\<rparr>) = iob_ok b"
  "iob_content (b\<lparr>ib_error := e\<rparr>) = iob_content b"
  "iob_content (b\<lparr>ib_read_eof := r\<rparr>) = iob_content b"
  "iob_content (b\<lparr>ib_write_eof := r\<rparr>) = iob_content b"
  "iob_frame (b\<lparr>ib_error := e\<rparr>) = iob_frame b"
  "iob_frame (b\<lparr>ib_read_eof := r\<rparr>) = iob_frame b"
  "iob_frame (b\<lparr>ib_write_eof := r\<rparr>) = iob_frame b"
  "iob_frame (b\<lparr>ib_buffer := m\<rparr>) = iob_frame b"
  "iob_frame (b\<lparr>ib_head := h\<rparr>) = iob_frame b"
  "iob_frame (b\<lparr>ib_tail := t\<rparr>) = iob_frame b"
  by (simp_all add: iob_ok_def iob_content_def iob_frame_def)

subsection \<open>The building blocks\<close>

lemma move_front_spec:
  assumes "iob_ok b"
  shows "iob_ok (iobuffer_move_front b)"
    and "iob_content (iobuffer_move_front b) = iob_content b"
    and "iob_frame (iobuffer_move_front b) = iob_frame b"
  using assms
  by (auto simp: iobuffer_move_front_def iob_ok_def iob_content_def iob_simps
      mem_simps)

text \<open>Storing bytes behind the tail, as \<open>read\<close> and \<open>put\<close> do.\<close>

lemma store_spec:
  assumes "iob_ok b" and "ib_tail b + int (length bs) \<le> ib_bufsize b"
  defines "b' \<equiv> b\<lparr>ib_buffer := mem_write (ib_buffer b) (ib_tail b) bs,
                     ib_tail := ib_tail b + int (length bs)\<rparr>"
  shows "iob_ok b'" and "iob_content b' = iob_content b @ bs" and "iob_frame b' = iob_frame b"
  using assms
  by (auto simp: iob_ok_def iob_content_def intro!: mem_read_write_append)

lemma advance_spec:
  assumes "iob_ok b" and "0 \<le> n" and "n \<le> ib_tail b - ib_head b"
  shows "iob_ok (iobuffer_advance b n)"
    and "iob_content (iobuffer_advance b n) = drop (nat n) (iob_content b)"
    and "iob_frame (iobuffer_advance b n) = iob_frame b"
  using assms
  by (auto simp: iobuffer_advance_def iob_ok_def iob_content_def iob_simps drop_mem_read
      algebra_simps)

lemma advance_flags [simp]:
  "ib_read_eof (iobuffer_advance b n) = ib_read_eof b"
  "ib_write_eof (iobuffer_advance b n) = ib_write_eof b"
  "ib_error (iobuffer_advance b n) = ib_error b"
  by (simp_all add: iobuffer_advance_def iob_simps)

lemma on_empty_spec:
  assumes "iobuffer_on_empty b w = (b', w')"
  shows "iob_ok b' = iob_ok b" and "iob_content b' = iob_content b"
    and "iob_frame b' = iob_frame b" and "ib_error b' = ib_error b"
    and "ib_read_eof b' = ib_read_eof b"
    and "ib_write_eof b' \<longleftrightarrow> ib_write_eof b \<or> ib_read_eof b"
  using assms
  by (auto simp: iobuffer_on_empty_def gfarm_iobuffer_write_close_def split: if_splits)

subsection \<open>The operations on the queue\<close>

lemma put_spec:
  assumes ok: "iob_ok b" and put: "gfarm_iobuffer_put b data = (b', n)"
  shows "iob_ok b'" and "iob_content b' = iob_content b @ take (nat n) data"
    and "iob_frame b' = iob_frame b"
    and "n = min (int (length data)) (ib_bufsize b - int (length (iob_content b)))"
    and "ib_error b' = ib_error b"
proof -
  let ?space = "ib_head b + (ib_bufsize b - ib_tail b)"
  let ?b1 = "if int (length data) > ib_bufsize b - ib_tail b \<and> ib_head b > 0
             then iobuffer_move_front b else b"
  have b1: "iob_ok ?b1" "iob_content ?b1 = iob_content b" "iob_frame ?b1 = iob_frame b"
    "ib_error ?b1 = ib_error b"
    using move_front_spec [OF ok] ok by (auto simp: iobuffer_move_front_def)
  have room: "int (length data) > 0 \<Longrightarrow>
      ib_tail ?b1 + min (int (length data)) ?space \<le> ib_bufsize ?b1"
    using ok by (auto simp: iobuffer_move_front_def iob_ok_def)
  have len: "int (length (iob_content b)) = ib_tail b - ib_head b"
    by (rule length_iob_content [OF ok])
  consider "data = []" | "data \<noteq> []" "gfarm_iobuffer_full b"
    | "data \<noteq> []" "\<not> gfarm_iobuffer_full b" by blast
  then have "iob_ok b' \<and> iob_content b' = iob_content b @ take (nat n) data
     \<and> iob_frame b' = iob_frame b \<and> ib_error b' = ib_error b
     \<and> n = min (int (length data)) (ib_bufsize b - int (length (iob_content b)))"
  proof cases
    case 1
    with put ok len show ?thesis by (auto simp: gfarm_iobuffer_put_def Let_def iob_ok_def)
  next
    case 2
    with put ok full_iff_content [OF ok] show ?thesis
      by (auto simp: gfarm_iobuffer_put_def Let_def iob_ok_def)
  next
    case 3
    let ?n = "min (int (length data)) ?space"
    have n: "0 \<le> ?n" using ok by (simp add: iob_ok_def)
    have "b' = ?b1\<lparr>ib_buffer := mem_write (ib_buffer ?b1) (ib_tail ?b1) (take (nat ?n) data),
                    ib_tail := ib_tail ?b1 + int (length (take (nat ?n) data))\<rparr>"
      and "n = ?n"
      using put 3 n by (auto simp: gfarm_iobuffer_put_def Let_def min_def split: if_splits)
    moreover have "ib_tail ?b1 + int (length (take (nat ?n) data)) \<le> ib_bufsize ?b1"
      using room 3 n by auto
    ultimately show ?thesis
      using store_spec [OF b1(1), of "take (nat ?n) data"] b1 len by (auto simp: algebra_simps)
  qed
  then show "iob_ok b'" and "iob_content b' = iob_content b @ take (nat n) data"
    and "iob_frame b' = iob_frame b"
    and "n = min (int (length data)) (ib_bufsize b - int (length (iob_content b)))"
    and "ib_error b' = ib_error b"
    by blast+
qed

lemma get_spec:
  assumes ok: "iob_ok b" and get: "gfarm_iobuffer_get b len w = (b', ds, w')"
  shows "iob_ok b'" and "iob_content b = ds @ iob_content b'" and "iob_frame b' = iob_frame b"
    and "ds = take (nat len) (iob_content b)" and "ib_error b' = ib_error b"
    and "ib_read_eof b' = ib_read_eof b"
    and "iob_content b \<noteq> [] \<Longrightarrow> w' = w"
proof -
  have "iob_ok b' \<and> iob_content b' = drop (nat len) (iob_content b) \<and> iob_frame b' = iob_frame b
    \<and> ds = take (nat len) (iob_content b) \<and> ib_error b' = ib_error b
    \<and> ib_read_eof b' = ib_read_eof b \<and> (iob_content b \<noteq> [] \<longrightarrow> w' = w)"
  proof (cases "gfarm_iobuffer_empty b")
    case True
    then have "iob_content b = []" by (simp add: empty_iff_content)
    with True get ok on_empty_spec [of b w] show ?thesis
      by (auto simp: gfarm_iobuffer_get_def split: prod.splits)
  next
    case False
    then have ne: "iob_content b \<noteq> []" by (simp add: empty_iff_content)
    let ?n = "min len (ib_tail b - ib_head b)"
    show ?thesis
    proof (cases "len \<le> 0")
      case True
      with False get ok show ?thesis by (auto simp: gfarm_iobuffer_get_def)
    next
      case pos: False
      have b': "b' = iobuffer_advance b ?n" "ds = mem_read (ib_buffer b) (ib_head b) ?n" "w' = w"
        using get False pos by (auto simp: gfarm_iobuffer_get_def iob_simps min_def)
      have n: "0 \<le> ?n" "?n \<le> ib_tail b - ib_head b" using ok pos by (auto simp: iob_ok_def)
      have "ds = take (nat len) (iob_content b)"
        using b' pos by (simp add: iob_content_def take_mem_read)
      moreover have "drop (nat ?n) (iob_content b) = drop (nat len) (iob_content b)"
        using length_iob_content [OF ok] by (auto simp: min_def)
      ultimately show ?thesis using b' advance_spec [OF ok n] by simp
    qed
  qed
  then show "iob_ok b'" and "iob_content b = ds @ iob_content b'" and "iob_frame b' = iob_frame b"
    and "ds = take (nat len) (iob_content b)" and "ib_error b' = ib_error b"
    and "ib_read_eof b' = ib_read_eof b"
    and "iob_content b \<noteq> [] \<Longrightarrow> w' = w"
    by auto
qed

lemma purge_spec:
  assumes ok: "iob_ok b" and purge: "gfarm_iobuffer_purge b (Some r) w = (b', r', n, w')"
  shows "iob_ok b'" and "iob_content b' = drop (nat n) (iob_content b)"
    and "iob_frame b' = iob_frame b"
    and "n = max 0 (min r (int (length (iob_content b))))" and "r' = Some (r - n)"
    and "ib_error b' = ib_error b" and "ib_read_eof b' = ib_read_eof b"
    and "iob_content b \<noteq> [] \<Longrightarrow> w' = w"
proof -
  have "iob_ok b' \<and> iob_content b' = drop (nat n) (iob_content b) \<and> iob_frame b' = iob_frame b
    \<and> n = max 0 (min r (int (length (iob_content b)))) \<and> r' = Some (r - n)
    \<and> ib_error b' = ib_error b \<and> ib_read_eof b' = ib_read_eof b
    \<and> (iob_content b \<noteq> [] \<longrightarrow> w' = w)"
  proof (cases "gfarm_iobuffer_empty b")
    case True
    then have "iob_content b = []" by (simp add: empty_iff_content)
    with True purge ok on_empty_spec [of b w] show ?thesis
      by (auto simp: gfarm_iobuffer_purge_def split: prod.splits)
  next
    case False
    note len = length_iob_content [OF ok]
    show ?thesis
    proof (cases "r \<le> 0")
      case True
      with False purge ok show ?thesis by (auto simp: gfarm_iobuffer_purge_def Let_def)
    next
      case pos: False
      let ?n = "min r (ib_tail b - ib_head b)"
      have b': "b' = iobuffer_advance b ?n" "n = ?n" "w' = w" "r' = Some (r - ?n)"
        using purge False pos by (auto simp: gfarm_iobuffer_purge_def iob_simps min_def)
      have n: "0 \<le> ?n" "?n \<le> ib_tail b - ib_head b" using ok pos by (auto simp: iob_ok_def)
      from b' advance_spec [OF ok n] n len show ?thesis by auto
    qed
  qed
  then show "iob_ok b'" and "iob_content b' = drop (nat n) (iob_content b)"
    and "iob_frame b' = iob_frame b"
    and "n = max 0 (min r (int (length (iob_content b))))" and "r' = Some (r - n)"
    and "ib_error b' = ib_error b" and "ib_read_eof b' = ib_read_eof b"
    and "iob_content b \<noteq> [] \<Longrightarrow> w' = w"
    by auto
qed

end
