(* ===== verification/Iobuffer_Stream.thy ===== *)
theory Iobuffer_Stream
  imports Iobuffer_Spec
begin

text \<open>
  The contracts between \<open>iobuffer.c\<close> and the functions it is given: what a
  \<open>read_func\<close> and a \<open>write_func\<close> promise (locales \<open>io_source\<close> and \<open>io_sink\<close> and
  their extensions), and what the buffer's loops make of it. \<open>inp w\<close> are the bytes
  the peer has still to deliver in world \<open>w\<close>, \<open>out w\<close> those already delivered to it.
  The functions of \<open>io_fd.c\<close> keep these contracts (theory \<open>Io_Fd\<close>).
\<close>

subsection \<open>The queue contract\<close>

datatype queue_op = Enq "byte list" | Deq int

text \<open>
  Running a sequence of operations yields the bytes the queue has accepted, the bytes
  it has handed out and the final state.
\<close>

fun queue_run :: "('s \<Rightarrow> byte list \<Rightarrow> 's \<times> int) \<Rightarrow> ('s \<Rightarrow> int \<Rightarrow> 's \<times> byte list) \<Rightarrow>
    queue_op list \<Rightarrow> 's \<Rightarrow> byte list \<times> byte list \<times> 's" where
  "queue_run enq deq [] s = ([], [], s)"
| "queue_run enq deq (Enq bs # ops) s =
     (let (s1, n) = enq s bs; (acc, del, s2) = queue_run enq deq ops s1
      in (take (nat n) bs @ acc, del, s2))"
| "queue_run enq deq (Deq n # ops) s =
     (let (s1, ds) = deq s n; (acc, del, s2) = queue_run enq deq ops s1
      in (acc, ds @ del, s2))"

locale byte_queue =
  fixes enq :: "'s \<Rightarrow> byte list \<Rightarrow> 's \<times> int"
    and deq :: "'s \<Rightarrow> int \<Rightarrow> 's \<times> byte list"
    and cont :: "'s \<Rightarrow> byte list"
    and ok :: "'s \<Rightarrow> bool"
    and cap :: "'s \<Rightarrow> int"
  assumes enq_ok: "ok s \<Longrightarrow> enq s bs = (s', n) \<Longrightarrow> ok s' \<and> cap s' = cap s"
    and enq_cont: "ok s \<Longrightarrow> enq s bs = (s', n) \<Longrightarrow> cont s' = cont s @ take (nat n) bs"
    and deq_ok: "ok s \<Longrightarrow> deq s k = (s', ds) \<Longrightarrow> ok s' \<and> cap s' = cap s"
    and deq_cont: "ok s \<Longrightarrow> deq s k = (s', ds) \<Longrightarrow> cont s = ds @ cont s'"
    and cap_bound: "ok s \<Longrightarrow> int (length (cont s)) \<le> cap s"
begin

lemma fifo:
  "ok s \<Longrightarrow> queue_run enq deq ops s = (acc, del, s') \<Longrightarrow>
     cont s @ acc = del @ cont s' \<and> ok s' \<and> cap s' = cap s"
proof (induction ops arbitrary: s acc del s')
  case Nil
  then show ?case by simp
next
  case (Cons op ops)
  show ?case
  proof (cases op)
    case (Enq bs)
    obtain s1 n where e: "enq s bs = (s1, n)" by fastforce
    obtain acc1 del1 s2 where r: "queue_run enq deq ops s1 = (acc1, del1, s2)"
      by (cases "queue_run enq deq ops s1") auto
    from e Cons.prems(1) have s1: "ok s1" "cap s1 = cap s" "cont s1 = cont s @ take (nat n) bs"
      using enq_ok enq_cont by blast+
    from Cons.IH [OF s1(1) r] s1 e r Enq Cons.prems(2) show ?thesis by auto
  next
    case (Deq k)
    obtain s1 ds where e: "deq s k = (s1, ds)" by fastforce
    obtain acc1 del1 s2 where r: "queue_run enq deq ops s1 = (acc1, del1, s2)"
      by (cases "queue_run enq deq ops s1") auto
    from e Cons.prems(1) have s1: "ok s1" "cap s1 = cap s" "cont s = ds @ cont s1"
      using deq_ok deq_cont by blast+
    from Cons.IH [OF s1(1) r] s1 e r Deq Cons.prems(2) show ?thesis by auto
  qed
qed

lemma bounded:
  "ok s \<Longrightarrow> queue_run enq deq ops s = (acc, del, s') \<Longrightarrow> int (length (cont s')) \<le> cap s"
  using fifo cap_bound by metis

end

text \<open>The buffer with its world is such a queue.\<close>

definition iob_enq :: "'w iobuffer \<times> 'w \<Rightarrow> byte list \<Rightarrow> ('w iobuffer \<times> 'w) \<times> int" where
  "iob_enq s data =
     (case s of (b, w) \<Rightarrow> let (b', n) = gfarm_iobuffer_put b data in ((b', w), n))"

definition iob_deq :: "'w iobuffer \<times> 'w \<Rightarrow> int \<Rightarrow> ('w iobuffer \<times> 'w) \<times> byte list" where
  "iob_deq s len =
     (case s of (b, w) \<Rightarrow> let (b', ds, w') = gfarm_iobuffer_get b len w in ((b', w'), ds))"

interpretation iobq: byte_queue iob_enq iob_deq "\<lambda>s. iob_content (fst s)"
    "\<lambda>s. iob_ok (fst s)" "\<lambda>s. ib_bufsize (fst s)"
proof (unfold_locales, goal_cases)
  case (1 s bs s' n)
  then show ?case
    by (auto simp: iob_enq_def split: prod.splits dest: put_spec(1) frame_fields [OF put_spec(3), rotated])
next
  case (2 s bs s' n)
  then show ?case by (auto simp: iob_enq_def split: prod.splits dest: put_spec(2))
next
  case (3 s k s' ds)
  then show ?case
    by (auto simp: iob_deq_def split: prod.splits dest: get_spec(1) frame_fields [OF get_spec(3), rotated])
next
  case (4 s k s' ds)
  then show ?case by (auto simp: iob_deq_def split: prod.splits dest: get_spec(2))
next
  case (5 s)
  then show ?case using length_iob_content by (fastforce simp: iob_ok_def)
qed

subsection \<open>Sources\<close>

definition close_keeps :: "('w \<Rightarrow> 'a) \<Rightarrow> 'w iobuffer \<Rightarrow> bool" where
  "close_keeps view b \<longleftrightarrow> (\<forall>c fd w. view (ib_write_close_func b c fd w) = view w)"

lemma close_keeps_nop [simp]:
  "ib_write_close_func b = gfarm_iobuffer_write_close_nop \<Longrightarrow> close_keeps view b"
  by (simp add: close_keeps_def gfarm_iobuffer_write_close_nop_def)

lemma close_keeps_frame: "iob_frame b' = iob_frame b \<Longrightarrow> close_keeps view b' = close_keeps view b"
  by (auto dest!: frame_fields simp: close_keeps_def)

lemma get_keeps:
  assumes "close_keeps view b" and "gfarm_iobuffer_get b len w = (b', ds, w')"
  shows "view w' = view w"
  using assms
  by (auto simp: gfarm_iobuffer_get_def iobuffer_on_empty_def gfarm_iobuffer_write_close_def
      close_keeps_def Let_def split: if_splits prod.splits)

lemma purge_keeps:
  assumes "close_keeps view b" and "gfarm_iobuffer_purge b r w = (b', r', n, w')"
  shows "view w' = view w"
  using assms
  by (auto simp: gfarm_iobuffer_purge_def iobuffer_on_empty_def gfarm_iobuffer_write_close_def
      close_keeps_def Let_def split: if_splits prod.splits)

locale io_source =
  fixes rf :: "'w read_hook" and inp :: "'w \<Rightarrow> byte list"
  assumes got: "0 < n \<Longrightarrow> rf c fd n w = (Io_got bs, w') \<Longrightarrow>
      int (length bs) \<le> n \<and> inp w = bs @ inp w' \<and> (bs = [] \<longrightarrow> inp w = [])"
    and failed: "0 < n \<Longrightarrow> rf c fd n w = (Io_err e, w') \<Longrightarrow>
      inp w' = inp w \<and> e \<noteq> GFARM_ERR_NO_ERROR"
begin

lemma read_spec:
  assumes ok: "iob_ok b" and rf: "ib_read_func b = rf"
    and read: "gfarm_iobuffer_read b rp w = (b', rp', w')"
  shows "iob_ok b' \<and> iob_frame b' = iob_frame b
    \<and> (\<exists>bs. iob_content b' = iob_content b @ bs \<and> inp w = bs @ inp w'
          \<and> (\<forall>r. rp = Some r \<longrightarrow> int (length bs) \<le> max 0 r)
          \<and> (bs = [] \<longrightarrow> gfarm_iobuffer_full b \<or> (\<exists>r. rp = Some r \<and> r \<le> 0)
                \<or> inp w = [] \<or> ib_error b' \<noteq> GFARM_ERR_NO_ERROR))"
proof (cases "gfarm_iobuffer_full b")
  case True
  with read ok show ?thesis by (auto simp: gfarm_iobuffer_read_def)
next
  case nfull: False
  let ?space = "ib_head b + (ib_bufsize b - ib_tail b)"
  let ?res = "case rp of None \<Rightarrow> ?space | Some r \<Rightarrow> r"
  let ?b1 = "if ?res > ib_bufsize b - ib_tail b \<and> ib_head b > 0 then iobuffer_move_front b else b"
  have space: "0 < ?space" using ok nfull by (auto simp: iob_ok_def iob_simps)
  show ?thesis
  proof (cases "?res \<le> 0")
    case True
    with space have "\<exists>r. rp = Some r \<and> r \<le> 0" by (cases rp) auto
    with True nfull read ok show ?thesis by (auto simp: gfarm_iobuffer_read_def Let_def)
  next
    case pos: False
    let ?n = "min ?res ?space"
    have n: "0 < ?n" using pos space by simp
    have b1: "iob_ok ?b1" "iob_content ?b1 = iob_content b" "iob_frame ?b1 = iob_frame b"
      using move_front_spec [OF ok] ok by auto
    have room: "ib_tail ?b1 + ?n \<le> ib_bufsize ?b1"
      using ok by (auto simp: iobuffer_move_front_def iob_ok_def)
    obtain rv w1 where h: "rf (ib_read_cookie ?b1) (ib_read_fd ?b1) ?n w = (rv, w1)"
      by fastforce
    have hook: "ib_read_func ?b1 = rf" using rf by (simp add: iobuffer_move_front_def)
    note unf = read [unfolded gfarm_iobuffer_read_def, unfolded if_not_P [OF nfull] Let_def
        if_not_P [OF pos] hook]
    show ?thesis
    proof (cases rv)
      case (Io_err e)
      with unf h have "b' = gfarm_iobuffer_set_error ?b1 e" "w' = w1"
        by (auto simp: min_def split: if_splits)
      with failed [OF n h [unfolded Io_err]] b1 show ?thesis
        by (auto simp: gfarm_iobuffer_set_error_def)
    next
      case (Io_got bs)
      from got [OF n h [unfolded Io_got]]
      have bs: "int (length bs) \<le> ?n" "inp w = bs @ inp w1" "bs = [] \<longrightarrow> inp w = []" by auto
      show ?thesis
      proof (cases "bs = []")
        case True
        with unf h Io_got have "b' = ?b1\<lparr>ib_read_eof := True\<rparr>" "w' = w1"
          by (auto simp: min_def split: if_splits)
        with b1 bs True show ?thesis by auto
      next
        case False
        let ?b2 = "?b1\<lparr>ib_buffer := mem_write (ib_buffer ?b1) (ib_tail ?b1) bs,
                        ib_tail := ib_tail ?b1 + int (length bs)\<rparr>"
        from False unf h Io_got have "b' = ?b2" "w' = w1"
          by (auto simp: min_def split: if_splits)
        moreover have "ib_tail ?b1 + int (length bs) \<le> ib_bufsize ?b1" using room bs(1) by linarith
        ultimately show ?thesis
          using store_spec [OF b1(1), of bs] b1 bs False by auto
      qed
    qed
  qed
qed

lemma refill_spec:
  assumes ok: "iob_ok b" and rf: "ib_read_func b = rf" and r: "0 < r"
    and refill: "iobuffer_refill b r just w = (b', w')"
  shows "iob_ok b' \<and> iob_frame b' = iob_frame b
    \<and> (\<exists>bs. iob_content b' = iob_content b @ bs \<and> inp w = bs @ inp w'
          \<and> (just \<longrightarrow> length (iob_content b') \<le> max (nat r) (length (iob_content b)))
          \<and> (iob_content b' = [] \<longrightarrow> inp w = [] \<or> ib_error b' \<noteq> GFARM_ERR_NO_ERROR))"
proof (cases "gfarm_iobuffer_empty b")
  case False
  with refill ok show ?thesis by (auto simp: iobuffer_refill_def empty_iff_content)
next
  case True
  then have e: "iob_content b = []" by (simp add: empty_iff_content)
  have nf: "\<not> gfarm_iobuffer_full b"
    using full_iff_content [OF ok] e ok by (auto simp: iob_ok_def)
  obtain rp' where "gfarm_iobuffer_read b (if just then Some r else None) w = (b', rp', w')"
    using refill True by (auto simp: iobuffer_refill_def split: prod.splits)
  from read_spec [OF ok rf this] e nf r show ?thesis by (auto split: if_splits)
qed

text \<open>
  Whatever the source does, the bytes delivered are the next bytes of the stream: what
  was buffered, then what the source still holds.
\<close>

lemma get_read_x_prefix:
  "iob_ok b \<Longrightarrow> ib_read_func b = rf \<Longrightarrow> close_keeps inp b \<Longrightarrow>
   gfarm_iobuffer_get_read_x b r just w = (b', ds, w') \<Longrightarrow>
     iob_ok b' \<and> iob_frame b' = iob_frame b
     \<and> iob_content b @ inp w = ds @ iob_content b' @ inp w'
     \<and> int (length ds) \<le> max 0 r
     \<and> (just \<and> iob_content b = [] \<longrightarrow> iob_content b' = [])
     \<and> (int (length ds) < r \<longrightarrow>
          iob_content b' @ inp w' = [] \<or> ib_error b' \<noteq> GFARM_ERR_NO_ERROR)"
proof (induction b r just w arbitrary: b' ds w' rule: gfarm_iobuffer_get_read_x.induct)
  case (1 b r just w)
  note unf = "1.prems"(4) [unfolded gfarm_iobuffer_get_read_x.simps [of b r just w]]
  show ?case
  proof (cases "r \<le> 0")
    case True
    with unf "1.prems"(1) show ?thesis by auto
  next
    case pos: False
    obtain b1 w1 where rf1: "iobuffer_refill b r just w = (b1, w1)" by fastforce
    obtain b2 ds1 w2 where g: "gfarm_iobuffer_get b1 r w1 = (b2, ds1, w2)"
      by (cases "gfarm_iobuffer_get b1 r w1") auto
    from refill_spec [OF "1.prems"(1,2) _ rf1] pos
    obtain bs where b1: "iob_ok b1" "iob_frame b1 = iob_frame b"
      "iob_content b1 = iob_content b @ bs" "inp w = bs @ inp w1"
      "just \<longrightarrow> length (iob_content b1) \<le> max (nat r) (length (iob_content b))"
      "iob_content b1 = [] \<longrightarrow> inp w = [] \<or> ib_error b1 \<noteq> GFARM_ERR_NO_ERROR" by auto
    note b2 = get_spec [OF b1(1) g]
    have keep: "inp w2 = inp w1"
      using get_keeps [OF _ g, of inp] close_keeps_frame [OF b1(2), of inp] "1.prems"(3) by simp
    show ?thesis
    proof (cases "ds1 = []")
      case True
      with unf pos rf1 g have res: "b' = b2" "ds = []" "w' = w2" by auto
      from True b2(4) pos have c1: "iob_content b1 = []" by simp
      then have nil: "iob_content b = []" "inp w = inp w1" using b1(3,4) by auto
      have c2: "iob_content b2 = []" using b2(2) True c1 by simp
      have "inp w = [] \<or> ib_error b2 \<noteq> GFARM_ERR_NO_ERROR"
        using b1(6) c1 b2(5) by simp
      then show ?thesis using res b2(1,3) b1(2) nil c2 keep pos by simp
    next
      case False
      obtain b3 ds2 w3 where
        rec: "gfarm_iobuffer_get_read_x b2 (r - int (length ds1)) just w2 = (b3, ds2, w3)"
        by (cases "gfarm_iobuffer_get_read_x b2 (r - int (length ds1)) just w2") auto
      have fr: "iob_frame b2 = iob_frame b" using b2(3) b1(2) by simp
      have IH: "iob_ok b3 \<and> iob_frame b3 = iob_frame b2
          \<and> iob_content b2 @ inp w2 = ds2 @ iob_content b3 @ inp w3
          \<and> int (length ds2) \<le> max 0 (r - int (length ds1))
          \<and> (just \<and> iob_content b2 = [] \<longrightarrow> iob_content b3 = [])
          \<and> (int (length ds2) < r - int (length ds1) \<longrightarrow>
               iob_content b3 @ inp w3 = [] \<or> ib_error b3 \<noteq> GFARM_ERR_NO_ERROR)"
        using "1.IH" [OF pos rf1 [symmetric] refl g [symmetric] refl refl False b2(1) _ _ rec]
          frame_fields [OF fr] close_keeps_frame [OF fr] "1.prems"(2,3) by auto
      have res: "b' = b3" "ds = ds1 @ ds2" "w' = w3" using unf pos rf1 g rec False by auto
      have len1: "int (length ds1) \<le> r" using b2(4) pos by auto
      have nil: "just \<and> iob_content b = [] \<longrightarrow> iob_content b2 = []"
      proof
        assume "just \<and> iob_content b = []"
        with b1(5) have "length (iob_content b1) \<le> nat r" by simp
        with b2(2,4) show "iob_content b2 = []" by simp
      qed
      have str: "iob_content b @ inp w = ds1 @ iob_content b2 @ inp w2"
        using b1(3,4) b2(2) keep by simp
      have "int (length ds) = int (length ds1) + int (length ds2)" using res by simp
      moreover have "int (length ds2) \<le> r - int (length ds1)" using IH len1 by linarith
      ultimately show ?thesis using IH res fr len1 nil str pos by simp
    qed
  qed
qed

end

text \<open>
  In the worlds in which the source does not fail (\<open>good\<close>), it delivers all it is asked
  for, up to the end of the stream.
\<close>

locale reliable_source = io_source +
  fixes good :: "'a \<Rightarrow> bool"
  assumes delivers: "0 < n \<Longrightarrow> good w \<Longrightarrow> \<exists>bs w'. rf c fd n w = (Io_got bs, w') \<and> good w'"
begin

lemma read_error:
  assumes ok: "iob_ok b" and rf: "ib_read_func b = rf" and good: "good w"
    and read: "gfarm_iobuffer_read b rp w = (b', rp', w')"
  shows "ib_error b' = ib_error b \<and> good w'"
proof -
  let ?space = "ib_head b + (ib_bufsize b - ib_tail b)"
  let ?res = "case rp of None \<Rightarrow> ?space | Some r \<Rightarrow> r"
  let ?b1 = "if ?res > ib_bufsize b - ib_tail b \<and> ib_head b > 0 then iobuffer_move_front b else b"
  let ?n = "if ?res < ?space then ?res else ?space"
  show ?thesis
  proof (cases "gfarm_iobuffer_full b")
    case True
    with read good show ?thesis by (simp add: gfarm_iobuffer_read_def)
  next
    case nfull: False
    show ?thesis
    proof (cases "?res \<le> 0")
      case True
      with read nfull good show ?thesis by (simp add: gfarm_iobuffer_read_def Let_def)
    next
      case pos: False
      have "0 < ?n" using pos nfull ok by (auto simp: iob_simps iob_ok_def)
      then obtain bs w1 where
        h: "rf (ib_read_cookie ?b1) (ib_read_fd ?b1) ?n w = (Io_got bs, w1)" and g: "good w1"
        using delivers good by blast
      have hook: "ib_read_func ?b1 = rf" "ib_error ?b1 = ib_error b"
        using rf by (simp_all add: iobuffer_move_front_def)
      note unf = read [unfolded gfarm_iobuffer_read_def, unfolded if_not_P [OF nfull] Let_def
          if_not_P [OF pos] hook(1) h]
      then show ?thesis using hook(2) g by (cases "bs = []") auto
    qed
  qed
qed

lemma refill_error:
  "iob_ok b \<Longrightarrow> ib_read_func b = rf \<Longrightarrow> good w \<Longrightarrow> iobuffer_refill b r just w = (b', w') \<Longrightarrow>
     ib_error b' = ib_error b \<and> good w'"
  using read_error [of b w] by (auto simp: iobuffer_refill_def split: if_splits prod.splits)

lemma get_read_x_error:
  "iob_ok b \<Longrightarrow> ib_read_func b = rf \<Longrightarrow> good w \<Longrightarrow> close_keeps good b \<Longrightarrow>
   gfarm_iobuffer_get_read_x b r just w = (b', ds, w') \<Longrightarrow> ib_error b' = ib_error b \<and> good w'"
proof (induction b r just w arbitrary: b' ds w' rule: gfarm_iobuffer_get_read_x.induct)
  case (1 b r just w)
  note unf = "1.prems"(5) [unfolded gfarm_iobuffer_get_read_x.simps [of b r just w]]
  show ?case
  proof (cases "r \<le> 0")
    case True
    with unf "1.prems"(3) show ?thesis by auto
  next
    case pos: False
    obtain b1 w1 where rf1: "iobuffer_refill b r just w = (b1, w1)" by fastforce
    obtain b2 ds1 w2 where g: "gfarm_iobuffer_get b1 r w1 = (b2, ds1, w2)"
      by (cases "gfarm_iobuffer_get b1 r w1") auto
    have b1: "iob_ok b1" "iob_frame b1 = iob_frame b" "ib_error b1 = ib_error b" "good w1"
      using refill_spec [OF "1.prems"(1,2) _ rf1] refill_error [OF "1.prems"(1-3) rf1] pos by auto
    note b2 = get_spec [OF b1(1) g]
    have fr: "iob_frame b2 = iob_frame b" using b2(3) b1(2) by simp
    have w2: "good w2"
      using get_keeps [OF _ g, of good] close_keeps_frame [OF b1(2), of good] "1.prems"(4) b1(4)
      by simp
    show ?thesis
    proof (cases "ds1 = []")
      case True
      with unf pos rf1 g have "b' = b2" "w' = w2" by simp_all
      with b1 b2 w2 show ?thesis by simp
    next
      case False
      obtain b3 ds2 w3 where
        rec: "gfarm_iobuffer_get_read_x b2 (r - int (length ds1)) just w2 = (b3, ds2, w3)"
        by (cases "gfarm_iobuffer_get_read_x b2 (r - int (length ds1)) just w2") auto
      have "ib_error b3 = ib_error b2 \<and> good w3"
        using "1.IH" [OF pos rf1 [symmetric] refl g [symmetric] refl refl False b2(1) _ w2 _ rec]
          frame_fields [OF fr] close_keeps_frame [OF fr, of good] "1.prems"(2,4) by simp
      moreover have "b' = b3" "w' = w3" using unf pos rf1 g rec False by simp_all
      ultimately show ?thesis using b1 b2 by simp
    qed
  qed
qed

text \<open>What a read of \<open>r\<close> bytes returns, and what it leaves.\<close>

lemma get_read_x_exact:
  assumes ok: "iob_ok b" and rf: "ib_read_func b = rf" and cl: "close_keeps inp b"
    and g: "good w" "close_keeps good b" and err: "ib_error b = GFARM_ERR_NO_ERROR"
    and get: "gfarm_iobuffer_get_read_x b r just w = (b', ds, w')"
  shows "iob_ok b' \<and> iob_frame b' = iob_frame b \<and> ib_error b' = GFARM_ERR_NO_ERROR \<and> good w'
    \<and> ds = take (nat r) (iob_content b @ inp w)
    \<and> iob_content b' @ inp w' = drop (nat r) (iob_content b @ inp w)
    \<and> (just \<and> iob_content b = [] \<longrightarrow> iob_content b' = [])"
proof -
  note p = get_read_x_prefix [OF ok rf cl get] and e = get_read_x_error [OF ok rf g get]
  let ?s = "iob_content b @ inp w" and ?rest = "iob_content b' @ inp w'"
  have s: "?s = ds @ ?rest" using p by simp
  have "ds = take (nat r) ?s \<and> ?rest = drop (nat r) ?s"
  proof (cases "int (length ds) < r")
    case True
    with p e err have "?rest = []" by simp
    with s True show ?thesis by simp
  next
    case False
    with p have "nat r = length ds" by auto
    with s show ?thesis by simp
  qed
  with p e err show ?thesis by simp
qed

end

subsection \<open>Sinks\<close>

locale io_sink =
  fixes wfn :: "'w write_hook" and out :: "'w \<Rightarrow> byte list"
  assumes took: "data \<noteq> [] \<Longrightarrow> wfn c fd data w = (Io_put k, w') \<Longrightarrow>
      k \<le> length data \<and> out w' = out w @ take k data"
    and refused: "data \<noteq> [] \<Longrightarrow> wfn c fd data w = (Io_fail e, w') \<Longrightarrow>
      out w' = out w \<and> e \<noteq> GFARM_ERR_NO_ERROR"
begin

lemma write_spec:
  assumes ok: "iob_ok b" and wfn: "ib_write_func b = wfn" and cl: "close_keeps out b"
    and wr: "gfarm_iobuffer_write b None w = (b', rp', w')"
  shows "iob_ok b' \<and> iob_frame b' = iob_frame b
    \<and> out w' @ iob_content b' = out w @ iob_content b
    \<and> length (iob_content b') \<le> length (iob_content b)
    \<and> (ib_error b = GFARM_ERR_NO_ERROR \<longrightarrow> ib_error b' \<noteq> GFARM_ERR_NO_ERROR
         \<longrightarrow> iob_content b' = iob_content b)"
proof (cases "gfarm_iobuffer_empty b")
  case True
  then obtain b1 w1 where "iobuffer_on_empty b w = (b1, w1)" "b' = b1" "w' = w1"
    using wr by (auto simp: gfarm_iobuffer_write_def split: prod.splits)
  moreover from this(1) have "out w1 = out w"
    using cl by (auto simp: iobuffer_on_empty_def gfarm_iobuffer_write_close_def close_keeps_def
        split: if_splits)
  ultimately show ?thesis using on_empty_spec [of b w b1 w1] ok by auto
next
  case False
  let ?d = "mem_read (ib_buffer b) (ib_head b) (ib_tail b - ib_head b)"
  have d: "?d = iob_content b" "?d \<noteq> []"
    using False by (simp_all add: iob_content_def iob_simps)
  have pos: "\<not> gfarm_iobuffer_avail_length b \<le> 0" using False by (simp add: iob_simps)
  obtain rv w1 where h: "wfn (ib_write_cookie b) (ib_write_fd b) ?d w = (rv, w1)" by fastforce
  note unf = wr [unfolded gfarm_iobuffer_write_def, unfolded if_not_P [OF False] Let_def
      option.case if_not_P [OF pos] wfn]
  show ?thesis
  proof (cases rv)
    case (Io_fail e)
    with unf h have "b' = gfarm_iobuffer_set_error b e" "w' = w1"
      by (auto simp: gfarm_iobuffer_avail_length_def)
    with refused [OF d(2) h [unfolded Io_fail]] ok show ?thesis
      by (auto simp: gfarm_iobuffer_set_error_def)
  next
    case (Io_put k)
    from took [OF d(2) h [unfolded Io_put]] d
    have k: "k \<le> length (iob_content b)" "out w1 = out w @ take k (iob_content b)" by auto
    from unf h Io_put have res: "b' = (if k > 0 then iobuffer_advance b (int k) else b)" "w' = w1"
      by (auto simp: gfarm_iobuffer_avail_length_def split: if_splits)
    have "int k \<le> ib_tail b - ib_head b" using k(1) length_iob_content [OF ok] by linarith
    with res k ok advance_spec [OF ok, of "int k"] show ?thesis
      by (auto simp: gfarm_iobuffer_avail_length_def)
  qed
qed

text \<open>No byte is lost, repeated or reordered between \<open>put_write\<close>'s caller and the sink.\<close>

lemma put_write_loop_spec:
  "iob_ok b \<Longrightarrow> ib_write_func b = wfn \<Longrightarrow> close_keeps out b \<Longrightarrow>
   put_write_loop b data w = (b', rest, w') \<Longrightarrow>
     iob_ok b' \<and> iob_frame b' = iob_frame b
     \<and> (\<exists>sent. data = sent @ rest \<and> out w' @ iob_content b' = out w @ iob_content b @ sent)"
proof (induction b data w arbitrary: b' rest w' rule: put_write_loop.induct)
  case (1 b data w)
  note unf = "1.prems"(4) [unfolded put_write_loop.simps [of b data w]]
  show ?case
  proof (cases "data = []")
    case True
    with unf "1.prems"(1) show ?thesis by auto
  next
    case False
    let ?step = "if gfarm_iobuffer_full b
        then let (b', _, w') = gfarm_iobuffer_write b None w in (b', w') else (b, w)"
    obtain b1 w1 where s1: "?step = (b1, w1)" by fastforce
    have b1: "iob_ok b1 \<and> iob_frame b1 = iob_frame b
        \<and> out w1 @ iob_content b1 = out w @ iob_content b"
      using s1 "1.prems"(1) write_spec [OF "1.prems"(1,2,3)]
      by (auto split: if_splits prod.splits)
    obtain b2 rv where p: "gfarm_iobuffer_put b1 data = (b2, rv)" by fastforce
    note b2 = put_spec [OF conjunct1 [OF b1] p]
    have fr: "iob_frame b2 = iob_frame b" using b1 b2(3) by simp
    show ?thesis
    proof (cases "rv \<le> 0")
      case True
      with unf False s1 p b1 b2 show ?thesis by auto
    next
      case pos: False
      obtain b3 r3 w3 where rec: "put_write_loop b2 (drop (nat rv) data) w1 = (b3, r3, w3)"
        by (cases "put_write_loop b2 (drop (nat rv) data) w1") auto
      have IH: "iob_ok b3 \<and> iob_frame b3 = iob_frame b2
          \<and> (\<exists>sent. drop (nat rv) data = sent @ r3
               \<and> out w3 @ iob_content b3 = out w1 @ iob_content b2 @ sent)"
        using "1.IH" [OF False s1 [symmetric] refl p [symmetric] refl pos b2(1) _ _ rec]
          frame_fields [OF fr] close_keeps_frame [OF fr] "1.prems"(2,3) by auto
      then obtain sent where sent: "drop (nat rv) data = sent @ r3"
        "out w3 @ iob_content b3 = out w1 @ iob_content b2 @ sent" by auto
      have "data = (take (nat rv) data @ sent) @ r3" using sent(1)
        by (metis append_assoc append_take_drop_id)
      moreover have "out w3 @ iob_content b3
          = out w @ iob_content b @ take (nat rv) data @ sent"
        using sent(2) b2(2) b1 by (metis append_assoc)
      moreover have "b' = b3" "rest = r3" "w' = w3" using unf False s1 p pos rec by auto
      ultimately show ?thesis using IH fr by auto
    qed
  qed
qed

lemma put_write_spec:
  assumes ok: "iob_ok b" and wfn: "ib_write_func b = wfn" and cl: "close_keeps out b"
    and pw: "gfarm_iobuffer_put_write b data w = (b', n, w')"
  shows "iob_ok b' \<and> iob_frame b' = iob_frame b \<and> 0 \<le> n \<and> n \<le> int (length data)
    \<and> out w' @ iob_content b' = out w @ iob_content b @ take (nat n) data"
proof -
  obtain b1 rest w1 where l: "put_write_loop b data w = (b1, rest, w1)"
    by (cases "put_write_loop b data w") auto
  from put_write_loop_spec [OF ok wfn cl l] obtain sent where
    b1: "iob_ok b1" "iob_frame b1 = iob_frame b" "data = sent @ rest"
      "out w1 @ iob_content b1 = out w @ iob_content b @ sent" by auto
  have n: "n = int (length sent)"
    using pw l b1(3) by (auto simp: gfarm_iobuffer_put_write_def split: if_splits prod.splits)
  have b1w: "ib_write_func b1 = wfn" "close_keeps out b1"
    using frame_fields [OF b1(2)] close_keeps_frame [OF b1(2), of out] wfn cl by simp_all
  have last: "iob_ok b' \<and> iob_frame b' = iob_frame b1
      \<and> out w' @ iob_content b' = out w1 @ iob_content b1"
  proof (cases "gfarm_iobuffer_full b1")
    case True
    obtain b2 rp2 w2 where wr: "gfarm_iobuffer_write b1 None w1 = (b2, rp2, w2)"
      by (cases "gfarm_iobuffer_write b1 None w1") auto
    have "b' = b2" "w' = w2"
      using pw l True wr by (simp_all add: gfarm_iobuffer_put_write_def)
    with write_spec [OF b1(1) b1w wr] show ?thesis by simp
  next
    case False
    have "b' = b1" "w' = w1"
      using pw l False by (simp_all add: gfarm_iobuffer_put_write_def)
    with b1(1) show ?thesis by simp
  qed
  with b1 n show ?thesis by simp
qed

end

text \<open>
  A sink that takes at least one byte of what it is offered, or fails: then
  \<open>gfarm_iobuffer_flush_write\<close> returns.
\<close>

locale progress_sink = io_sink +
  assumes progress: "data \<noteq> [] \<Longrightarrow> wfn c fd data w = (Io_put k, w') \<Longrightarrow> 0 < k"
begin

lemma write_progress:
  assumes ok: "iob_ok b" and wfn: "ib_write_func b = wfn"
    and ne: "\<not> gfarm_iobuffer_empty b"
    and wr: "gfarm_iobuffer_write b None w = (b', rp', w')"
  shows "ib_error b' \<noteq> GFARM_ERR_NO_ERROR \<or> length (iob_content b') < length (iob_content b)"
proof -
  let ?d = "mem_read (ib_buffer b) (ib_head b) (ib_tail b - ib_head b)"
  have d: "?d = iob_content b" "?d \<noteq> []"
    using ne by (simp_all add: iob_content_def iob_simps)
  have pos: "\<not> gfarm_iobuffer_avail_length b \<le> 0" using ne by (simp add: iob_simps)
  obtain rv w1 where h: "wfn (ib_write_cookie b) (ib_write_fd b) ?d w = (rv, w1)" by fastforce
  note unf = wr [unfolded gfarm_iobuffer_write_def, unfolded if_not_P [OF ne] Let_def
      option.case if_not_P [OF pos] wfn]
  show ?thesis
  proof (cases rv)
    case (Io_fail e)
    with unf h have "b' = gfarm_iobuffer_set_error b e"
      by (auto simp: gfarm_iobuffer_avail_length_def)
    with refused [OF d(2) h [unfolded Io_fail]] show ?thesis
      by (simp add: gfarm_iobuffer_set_error_def)
  next
    case (Io_put k)
    have k: "0 < k" "k \<le> length ?d"
      using progress [OF d(2) h [unfolded Io_put]] took [OF d(2) h [unfolded Io_put]] by auto
    with unf h Io_put have b': "b' = iobuffer_advance b (int k)"
      by (auto simp: gfarm_iobuffer_avail_length_def split: if_splits)
    have "int k \<le> ib_tail b - ib_head b" using k by simp
    with advance_spec(2) [OF ok, of "int k"] b' k d show ?thesis by simp
  qed
qed

lemma flush_write_returns:
  "iob_ok b \<Longrightarrow> ib_write_func b = wfn \<Longrightarrow> close_keeps out b \<Longrightarrow>
   \<exists>b' w'. gfarm_iobuffer_flush_write b w = Some (b', w')
     \<and> iob_ok b' \<and> iob_frame b' = iob_frame b
     \<and> out w' @ iob_content b' = out w @ iob_content b
     \<and> (ib_error b' = GFARM_ERR_NO_ERROR \<longrightarrow> iob_content b' = [])"
proof (induction "length (iob_content b)" arbitrary: b w rule: less_induct)
  case less
  note unf = gfarm_iobuffer_flush_write.simps [of b w]
  show ?case
  proof (cases "\<not> gfarm_iobuffer_empty b \<and> ib_error b = GFARM_ERR_NO_ERROR")
    case False
    with unf less.prems show ?thesis by (auto simp: empty_iff_content)
  next
    case True
    obtain b1 rp1 w1 where wr: "gfarm_iobuffer_write b None w = (b1, rp1, w1)"
      by (cases "gfarm_iobuffer_write b None w") auto
    have step: "gfarm_iobuffer_flush_write b w = gfarm_iobuffer_flush_write b1 w1"
      using unf True wr by simp
    note b1 = write_spec [OF less.prems wr]
    then have fr: "iob_frame b1 = iob_frame b" by simp
    have b1w: "ib_write_func b1 = wfn" "close_keeps out b1"
      using frame_fields [OF fr] close_keeps_frame [OF fr, of out] less.prems by simp_all
    show ?thesis
    proof (cases "ib_error b1 = GFARM_ERR_NO_ERROR")
      case False
      then have "gfarm_iobuffer_flush_write b1 w1 = Some (b1, w1)"
        using gfarm_iobuffer_flush_write.simps [of b1 w1] by simp
      with step b1 False show ?thesis by auto
    next
      case noerr: True
      with write_progress [OF less.prems(1,2) _ wr] True
      have "length (iob_content b1) < length (iob_content b)" by blast
      from less.hyps [OF this conjunct1 [OF b1] b1w, of w1] step b1
      show ?thesis by auto
    qed
  qed
qed

end

text \<open>In the worlds in which the sink does not fail, everything is delivered.\<close>

locale reliable_sink = progress_sink +
  fixes good :: "'a \<Rightarrow> bool"
  assumes accepts: "data \<noteq> [] \<Longrightarrow> good w \<Longrightarrow> \<exists>k w'. wfn c fd data w = (Io_put k, w') \<and> good w'"
begin

lemma write_no_error:
  assumes ok: "iob_ok b" and wfn: "ib_write_func b = wfn"
    and ne: "\<not> gfarm_iobuffer_empty b" and good: "good w"
    and wr: "gfarm_iobuffer_write b None w = (b', rp', w')"
  shows "ib_error b' = ib_error b \<and> good w' \<and> length (iob_content b') < length (iob_content b)"
proof -
  let ?d = "mem_read (ib_buffer b) (ib_head b) (ib_tail b - ib_head b)"
  have d: "?d = iob_content b" "?d \<noteq> []" using ne by (simp_all add: iob_simps iob_content_def)
  have pos: "\<not> gfarm_iobuffer_avail_length b \<le> 0" using ne by (simp add: iob_simps)
  obtain k w1 where h: "wfn (ib_write_cookie b) (ib_write_fd b) ?d w = (Io_put k, w1)" and g: "good w1"
    using accepts [OF d(2) good] by blast
  have k: "0 < k" "k \<le> length ?d"
    using progress [OF d(2) h] took [OF d(2) h] by auto
  have "b' = iobuffer_advance b (int k)" "w' = w1"
    using wr [unfolded gfarm_iobuffer_write_def, unfolded if_not_P [OF ne] Let_def
        option.case if_not_P [OF pos] wfn] h k
    by (auto simp: gfarm_iobuffer_avail_length_def split: if_splits)
  moreover have "int k \<le> ib_tail b - ib_head b" using k by simp
  ultimately show ?thesis using advance_spec(2) [OF ok, of "int k"] k d g by simp
qed

lemma flush_write_delivers:
  "iob_ok b \<Longrightarrow> ib_write_func b = wfn \<Longrightarrow> close_keeps out b \<Longrightarrow>
   ib_error b = GFARM_ERR_NO_ERROR \<Longrightarrow> good w \<Longrightarrow>
   \<exists>b' w'. gfarm_iobuffer_flush_write b w = Some (b', w')
     \<and> iob_ok b' \<and> iob_frame b' = iob_frame b \<and> ib_error b' = GFARM_ERR_NO_ERROR \<and> good w'
     \<and> iob_content b' = [] \<and> out w' = out w @ iob_content b"
proof (induction "length (iob_content b)" arbitrary: b w rule: less_induct)
  case less
  note unf = gfarm_iobuffer_flush_write.simps [of b w]
  show ?case
  proof (cases "gfarm_iobuffer_empty b")
    case True
    with unf less.prems show ?thesis by (auto simp: empty_iff_content)
  next
    case ne: False
    obtain b1 rp1 w1 where wr: "gfarm_iobuffer_write b None w = (b1, rp1, w1)"
      by (cases "gfarm_iobuffer_write b None w") auto
    have step: "gfarm_iobuffer_flush_write b w = gfarm_iobuffer_flush_write b1 w1"
      using unf ne wr less.prems by simp
    note b1 = write_spec [OF less.prems(1-3) wr]
    then have fr: "iob_frame b1 = iob_frame b" by simp
    have b1w: "ib_write_func b1 = wfn" "close_keeps out b1"
      using frame_fields [OF fr] close_keeps_frame [OF fr, of out] less.prems by simp_all
    note e1 = write_no_error [OF less.prems(1,2) ne less.prems(5) wr]
    then have len: "length (iob_content b1) < length (iob_content b)"
      and err: "ib_error b1 = GFARM_ERR_NO_ERROR" and g: "good w1"
      using less.prems(4) by simp_all
    from less.hyps [OF len conjunct1 [OF b1] b1w err g] step b1
    show ?thesis by auto
  qed
qed

text \<open>The \<open>write\<close> that makes room before a \<open>put\<close>.\<close>

lemma make_room:
  assumes ok: "iob_ok b" and wfn: "ib_write_func b = wfn" and cl: "close_keeps out b"
    and good: "good w"
    and s: "(if gfarm_iobuffer_full b
        then let (b', _, w') = gfarm_iobuffer_write b None w in (b', w') else (b, w)) = (b1, w1)"
  shows "iob_ok b1 \<and> iob_frame b1 = iob_frame b \<and> ib_error b1 = ib_error b \<and> good w1
    \<and> int (length (iob_content b1)) < ib_bufsize b1"
proof (cases "gfarm_iobuffer_full b")
  case False
  with s ok good full_iff_content [OF ok] length_iob_content [OF ok]
  show ?thesis by (auto simp: iob_ok_def)
next
  case full: True
  obtain b2 rp2 w2 where wr: "gfarm_iobuffer_write b None w = (b2, rp2, w2)"
    by (cases "gfarm_iobuffer_write b None w") auto
  with full s have [simp]: "b1 = b2" "w1 = w2" by simp_all
  have len: "int (length (iob_content b)) = ib_bufsize b"
    using full full_iff_content [OF ok] by simp
  have nemp: "\<not> gfarm_iobuffer_empty b"
    using len ok by (auto simp: empty_iff_content iob_ok_def)
  note b2 = write_spec [OF ok wfn cl wr] and e2 = write_no_error [OF ok wfn nemp good wr]
  from b2 have "iob_frame b2 = iob_frame b" by simp
  from frame_fields [OF this] have "ib_bufsize b2 = ib_bufsize b" by simp
  with b2 e2 len show ?thesis by simp
qed

text \<open>\<open>put_write\<close> accepts all of the data.\<close>

lemma put_write_loop_all:
  "iob_ok b \<Longrightarrow> ib_write_func b = wfn \<Longrightarrow> close_keeps out b \<Longrightarrow> good w \<Longrightarrow>
   put_write_loop b data w = (b', rest, w') \<Longrightarrow>
     rest = [] \<and> ib_error b' = ib_error b \<and> good w'"
proof (induction b data w arbitrary: b' rest w' rule: put_write_loop.induct)
  case (1 b data w)
  note unf = "1.prems"(5) [unfolded put_write_loop.simps [of b data w]]
  show ?case
  proof (cases "data = []")
    case True
    with unf "1.prems"(4) show ?thesis by auto
  next
    case ne: False
    let ?step = "if gfarm_iobuffer_full b
        then let (b', _, w') = gfarm_iobuffer_write b None w in (b', w') else (b, w)"
    obtain b1 w1 where s1: "?step = (b1, w1)" by fastforce
    note b1 = make_room [OF "1.prems"(1-4) s1]
    obtain b2 rv where p: "gfarm_iobuffer_put b1 data = (b2, rv)" by fastforce
    note b2 = put_spec [OF conjunct1 [OF b1] p]
    have fr: "iob_frame b2 = iob_frame b" using b1 b2(3) by simp
    have "0 < int (length data)" using ne by simp
    with b2(4) b1 have pos: "\<not> rv \<le> 0" by linarith
    obtain b3 r3 w3 where rec: "put_write_loop b2 (drop (nat rv) data) w1 = (b3, r3, w3)"
      by (cases "put_write_loop b2 (drop (nat rv) data) w1") auto
    have "r3 = [] \<and> ib_error b3 = ib_error b2 \<and> good w3"
      using "1.IH" [OF ne s1 [symmetric] refl p [symmetric] refl pos b2(1) _ _ _ rec] b1
        frame_fields [OF fr] close_keeps_frame [OF fr, of out] "1.prems"(2,3) by simp
    moreover have "b' = b3" "rest = r3" "w' = w3" using unf ne s1 p pos rec by auto
    ultimately show ?thesis using b2(5) b1 by simp
  qed
qed

lemma put_write_all:
  assumes ok: "iob_ok b" and wfn: "ib_write_func b = wfn" and cl: "close_keeps out b"
    and good: "good w"
    and pw: "gfarm_iobuffer_put_write b data w = (b', n, w')"
  shows "n = int (length data) \<and> ib_error b' = ib_error b \<and> good w'
    \<and> iob_ok b' \<and> iob_frame b' = iob_frame b
    \<and> out w' @ iob_content b' = out w @ iob_content b @ data"
proof -
  obtain b1 rest w1 where l: "put_write_loop b data w = (b1, rest, w1)"
    by (cases "put_write_loop b data w") auto
  have l1: "rest = []" "ib_error b1 = ib_error b" "good w1"
    using put_write_loop_all [OF ok wfn cl good l] by auto
  have ok1: "iob_ok b1" and fr: "iob_frame b1 = iob_frame b"
    using put_write_loop_spec [OF ok wfn cl l] by simp_all
  have b1w: "ib_write_func b1 = wfn" "close_keeps out b1"
    using frame_fields [OF fr] close_keeps_frame [OF fr, of out] wfn cl by simp_all
  obtain b2 w2 where s2: "(if gfarm_iobuffer_full b1
      then let (b', _, w') = gfarm_iobuffer_write b1 None w1 in (b', w') else (b1, w1)) = (b2, w2)"
    by fastforce
  have res: "b' = b2" "w' = w2" "n = int (length data)"
    using pw l s2 l1(1) by (simp_all add: gfarm_iobuffer_put_write_def)
  from make_room [OF ok1 b1w l1(3) s2] res l1(2) put_write_spec [OF ok wfn cl pw]
  show ?thesis by simp
qed

end

text \<open>
  Without progress the flush does not return: a \<open>write_func\<close> that keeps answering 0
  keeps \<open>gfarm_iobuffer_flush_write\<close> in its loop.
\<close>

lemma write_zero_stays:
  assumes "\<not> gfarm_iobuffer_empty b" and "\<And>c fd data w. ib_write_func b c fd data w = (Io_put 0, w)"
  shows "gfarm_iobuffer_write b None w = (b, None, w)"
  using assms by (simp add: gfarm_iobuffer_write_def Let_def)

lemma flush_write_zero_only_if_done:
  assumes ret: "gfarm_iobuffer_flush_write b w = Some r"
  shows "(\<forall>c fd data w. ib_write_func b c fd data w = (Io_put 0, w)) \<longrightarrow>
     gfarm_iobuffer_empty b \<or> ib_error b \<noteq> GFARM_ERR_NO_ERROR"
proof (rule gfarm_iobuffer_flush_write.raw_induct [OF _ ret], intro impI)
  fix flush and b :: "'a iobuffer" and w r
  assume IH: "\<And>(b :: 'a iobuffer) w r. flush b w = Some r \<Longrightarrow>
      (\<forall>c fd data w. ib_write_func b c fd data w = (Io_put 0, w)) \<longrightarrow>
      gfarm_iobuffer_empty b \<or> ib_error b \<noteq> GFARM_ERR_NO_ERROR"
    and body: "(if \<not> gfarm_iobuffer_empty b \<and> ib_error b = GFARM_ERR_NO_ERROR
      then (case gfarm_iobuffer_write b None w of (b', _, w') \<Rightarrow> flush b' w')
      else Some (b, w)) = Some r"
    and zero: "\<forall>c fd data w. ib_write_func b c fd data w = (Io_put 0, w)"
  show "gfarm_iobuffer_empty b \<or> ib_error b \<noteq> GFARM_ERR_NO_ERROR"
  proof (rule ccontr)
    assume run: "\<not> ?thesis"
    then have "gfarm_iobuffer_write b None w = (b, None, w)"
      using write_zero_stays [of b w] zero by simp
    with body run have "flush b w = Some r" by simp
    from IH [OF this] zero run show False by simp
  qed
qed

subsection \<open>Properties of the buffer alone\<close>

text \<open>C2: the buffer is a bounded FIFO queue. Whatever sequence of \<open>gfarm_iobuffer_put\<close> and
  \<open>gfarm_iobuffer_get\<close> is run, with any lengths, the bytes handed out followed by the bytes still
  buffered are exactly the bytes buffered at the start followed by the bytes accepted, the
  buffer never holds more than its size, and head and tail stay inside the memory block.\<close>

theorem iobuffer_fifo:
  assumes "iob_ok b" and "queue_run iob_enq iob_deq ops (b, w) = (accepted, delivered, (b', w'))"
  shows "iob_content b @ accepted = delivered @ iob_content b'
    \<and> int (length (iob_content b')) \<le> ib_bufsize b \<and> iob_ok b'"
  using iobq.fifo [of "(b, w)" ops accepted delivered "(b', w')"]
    iobq.bounded [of "(b, w)" ops accepted delivered "(b', w')"] assms by simp

text \<open>The end-of-file protocol of \<open>iobuffer.h\<close>. The dequeue side sees the end as ``writable
  and empty'', which is ``at end of file and the write side not closed''; the next
  \<open>gfarm_iobuffer_get\<close> yields no byte and calls the close hook, once, and afterwards the
  buffer is not writable any more and still at end of file.\<close>

theorem iobuffer_eof_protocol:
  assumes "gfarm_iobuffer_is_writable b" and "gfarm_iobuffer_empty b"
  shows "gfarm_iobuffer_is_eof b \<and> \<not> gfarm_iobuffer_is_write_eof b
    \<and> (\<exists>b'. gfarm_iobuffer_get b len w
          = (b', [], ib_write_close_func b (ib_write_cookie b) (ib_write_fd b) w)
        \<and> gfarm_iobuffer_is_write_eof b' \<and> \<not> gfarm_iobuffer_is_writable b'
        \<and> gfarm_iobuffer_empty b' \<and> gfarm_iobuffer_is_eof b')"
  using assms
  by (simp add: gfarm_iobuffer_is_writable_def gfarm_iobuffer_is_eof_def
      gfarm_iobuffer_is_write_eof_def gfarm_iobuffer_get_def iobuffer_on_empty_def
      gfarm_iobuffer_write_close_def gfarm_iobuffer_empty_def)

text \<open>\<open>gfarm_iobuffer_flush_write\<close> relies on its hook for termination: with a \<open>write_func\<close>
  that answers 0 and makes no progress it does not return while bytes are buffered and no error
  is set.\<close>

theorem flush_write_stuck:
  assumes "\<And>c fd data w. ib_write_func b c fd data w = (Io_put 0, w)"
    and "\<not> gfarm_iobuffer_empty b" and "ib_error b = GFARM_ERR_NO_ERROR"
  shows "gfarm_iobuffer_flush_write b w = None"
  using flush_write_zero_only_if_done [of b w] assms
  by (cases "gfarm_iobuffer_flush_write b w") auto

subsection \<open>Witnesses\<close>

definition sample_iobuffer :: "unit iobuffer" where
  "sample_iobuffer =
     \<lparr>ib_buffer = (\<lambda>i. if i = 1 then 65 else 66), ib_bufsize = 4, ib_head = 1, ib_tail = 3,
      ib_read_func = (\<lambda>_ _ _ w. (Io_got [], w)), ib_read_cookie = 0, ib_read_fd = -1,
      ib_write_func = (\<lambda>_ _ _ w. (Io_put 0, w)), ib_write_cookie = 0, ib_write_fd = -1,
      ib_write_close_func = gfarm_iobuffer_write_close_nop,
      ib_read_eof = True, ib_write_eof = False, ib_error = 0\<rparr>"

theorem iobuffer_fifo_witness:
  "\<exists>accepted delivered b'. queue_run iob_enq iob_deq [Enq [1, 2, 3], Deq 3, Deq 9]
      (sample_iobuffer, ()) = (accepted, delivered, (b', ()))
    \<and> iob_content sample_iobuffer @ accepted = delivered @ iob_content b'"
proof -
  obtain accepted delivered b' where
    r: "queue_run iob_enq iob_deq [Enq [1, 2, 3], Deq 3, Deq 9] (sample_iobuffer, ())
      = (accepted, delivered, (b', ()))"
    by (cases "queue_run iob_enq iob_deq [Enq [1, 2, 3], Deq 3, Deq 9] (sample_iobuffer, ())") auto
  have "iob_ok sample_iobuffer" by (simp add: sample_iobuffer_def iob_ok_def)
  from iobuffer_fifo [OF this r] r show ?thesis by blast
qed

theorem iobuffer_eof_protocol_witness:
  "\<exists>b' w'. gfarm_iobuffer_get (sample_iobuffer\<lparr>ib_head := 3\<rparr>) 5 () = (b', [], w')
     \<and> gfarm_iobuffer_is_write_eof b'"
proof -
  have "gfarm_iobuffer_is_writable (sample_iobuffer\<lparr>ib_head := 3\<rparr>)"
    and "gfarm_iobuffer_empty (sample_iobuffer\<lparr>ib_head := 3\<rparr>)"
    by (simp_all add: sample_iobuffer_def gfarm_iobuffer_is_writable_def gfarm_iobuffer_empty_def)
  from iobuffer_eof_protocol [OF this, of 5 "()"] show ?thesis by blast
qed

theorem flush_write_stuck_witness: "gfarm_iobuffer_flush_write sample_iobuffer () = None"
  by (rule flush_write_stuck)
    (simp_all add: sample_iobuffer_def gfarm_iobuffer_empty_def)

end
