(* ===== verification/Liberror_Tables.thy ===== *)
theory Liberror_Tables
  imports Gfarm_Error
begin

text \<open>
  The tables of \<open>gfarm/liberror.c\<close>: the messages of the two enumerations of
  \<open>Gfarm_Error\<close>, in the order of the enumerators, and the correspondence between
  Unix error numbers and Gfarm error codes. The error numbers are those of Linux, where
  \<open>EAUTH\<close> is undefined and \<open>ETIME\<close> and \<open>EPROTO\<close> are defined.
\<close>

subsection \<open>Unix error numbers\<close>

abbreviation (input) EPERM :: int where "EPERM \<equiv> 1"
abbreviation (input) ENOENT :: int where "ENOENT \<equiv> 2"
abbreviation (input) ESRCH :: int where "ESRCH \<equiv> 3"
abbreviation (input) EINTR :: int where "EINTR \<equiv> 4"
abbreviation (input) EIO :: int where "EIO \<equiv> 5"
abbreviation (input) ENXIO :: int where "ENXIO \<equiv> 6"
abbreviation (input) E2BIG :: int where "E2BIG \<equiv> 7"
abbreviation (input) ENOEXEC :: int where "ENOEXEC \<equiv> 8"
abbreviation (input) EBADF :: int where "EBADF \<equiv> 9"
abbreviation (input) ECHILD :: int where "ECHILD \<equiv> 10"
abbreviation (input) EAGAIN :: int where "EAGAIN \<equiv> 11"
abbreviation (input) ENOMEM :: int where "ENOMEM \<equiv> 12"
abbreviation (input) EACCES :: int where "EACCES \<equiv> 13"
abbreviation (input) EFAULT :: int where "EFAULT \<equiv> 14"
abbreviation (input) ENOTBLK :: int where "ENOTBLK \<equiv> 15"
abbreviation (input) EBUSY :: int where "EBUSY \<equiv> 16"
abbreviation (input) EEXIST :: int where "EEXIST \<equiv> 17"
abbreviation (input) EXDEV :: int where "EXDEV \<equiv> 18"
abbreviation (input) ENODEV :: int where "ENODEV \<equiv> 19"
abbreviation (input) ENOTDIR :: int where "ENOTDIR \<equiv> 20"
abbreviation (input) EISDIR :: int where "EISDIR \<equiv> 21"
abbreviation (input) EINVAL :: int where "EINVAL \<equiv> 22"
abbreviation (input) ENFILE :: int where "ENFILE \<equiv> 23"
abbreviation (input) EMFILE :: int where "EMFILE \<equiv> 24"
abbreviation (input) ENOTTY :: int where "ENOTTY \<equiv> 25"
abbreviation (input) ETXTBSY :: int where "ETXTBSY \<equiv> 26"
abbreviation (input) EFBIG :: int where "EFBIG \<equiv> 27"
abbreviation (input) ENOSPC :: int where "ENOSPC \<equiv> 28"
abbreviation (input) ESPIPE :: int where "ESPIPE \<equiv> 29"
abbreviation (input) EROFS :: int where "EROFS \<equiv> 30"
abbreviation (input) EMLINK :: int where "EMLINK \<equiv> 31"
abbreviation (input) EPIPE :: int where "EPIPE \<equiv> 32"
abbreviation (input) EDOM :: int where "EDOM \<equiv> 33"
abbreviation (input) ERANGE :: int where "ERANGE \<equiv> 34"
abbreviation (input) EDEADLK :: int where "EDEADLK \<equiv> 35"
abbreviation (input) ENAMETOOLONG :: int where "ENAMETOOLONG \<equiv> 36"
abbreviation (input) ENOLCK :: int where "ENOLCK \<equiv> 37"
abbreviation (input) ENOSYS :: int where "ENOSYS \<equiv> 38"
abbreviation (input) ENOTEMPTY :: int where "ENOTEMPTY \<equiv> 39"
abbreviation (input) ELOOP :: int where "ELOOP \<equiv> 40"
abbreviation (input) ENOMSG :: int where "ENOMSG \<equiv> 42"
abbreviation (input) EIDRM :: int where "EIDRM \<equiv> 43"
abbreviation (input) ETIME :: int where "ETIME \<equiv> 62"
abbreviation (input) EPROTO :: int where "EPROTO \<equiv> 71"
abbreviation (input) EOVERFLOW :: int where "EOVERFLOW \<equiv> 75"
abbreviation (input) EILSEQ :: int where "EILSEQ \<equiv> 84"
abbreviation (input) ENOTSOCK :: int where "ENOTSOCK \<equiv> 88"
abbreviation (input) EDESTADDRREQ :: int where "EDESTADDRREQ \<equiv> 89"
abbreviation (input) EMSGSIZE :: int where "EMSGSIZE \<equiv> 90"
abbreviation (input) EPROTOTYPE :: int where "EPROTOTYPE \<equiv> 91"
abbreviation (input) ENOPROTOOPT :: int where "ENOPROTOOPT \<equiv> 92"
abbreviation (input) EPROTONOSUPPORT :: int where "EPROTONOSUPPORT \<equiv> 93"
abbreviation (input) EOPNOTSUPP :: int where "EOPNOTSUPP \<equiv> 95"
abbreviation (input) EAFNOSUPPORT :: int where "EAFNOSUPPORT \<equiv> 97"
abbreviation (input) EADDRINUSE :: int where "EADDRINUSE \<equiv> 98"
abbreviation (input) EADDRNOTAVAIL :: int where "EADDRNOTAVAIL \<equiv> 99"
abbreviation (input) ENETDOWN :: int where "ENETDOWN \<equiv> 100"
abbreviation (input) ENETUNREACH :: int where "ENETUNREACH \<equiv> 101"
abbreviation (input) ECONNABORTED :: int where "ECONNABORTED \<equiv> 103"
abbreviation (input) ECONNRESET :: int where "ECONNRESET \<equiv> 104"
abbreviation (input) ENOBUFS :: int where "ENOBUFS \<equiv> 105"
abbreviation (input) EISCONN :: int where "EISCONN \<equiv> 106"
abbreviation (input) ENOTCONN :: int where "ENOTCONN \<equiv> 107"
abbreviation (input) ETIMEDOUT :: int where "ETIMEDOUT \<equiv> 110"
abbreviation (input) ECONNREFUSED :: int where "ECONNREFUSED \<equiv> 111"
abbreviation (input) EHOSTUNREACH :: int where "EHOSTUNREACH \<equiv> 113"
abbreviation (input) EALREADY :: int where "EALREADY \<equiv> 114"
abbreviation (input) EINPROGRESS :: int where "EINPROGRESS \<equiv> 115"
abbreviation (input) ESTALE :: int where "ESTALE \<equiv> 116"
abbreviation (input) EDQUOT :: int where "EDQUOT \<equiv> 122"

subsection \<open>Messages\<close>

definition errcode_string :: "string list" where
  "errcode_string =
  [''success'',
   ''operation not permitted'',
   ''no such file or directory'',
   ''no such process'',
   ''interrupted system call'',
   ''input/output error'',
   ''device not configured'',
   ''argument list too long'',
   ''exec format error'',
   ''bad file descriptor'',
   ''no child process'',
   ''resource temporarily unavailable'',
   ''no memory'',
   ''permission denied'',
   ''bad address'',
   ''block device required'',
   ''device busy'',
   ''already exists'',
   ''cross device link'',
   ''operation not supported by device'',
   ''not a directory'',
   ''is a directory'',
   ''invalid argument'',
   ''too many open files in system'',
   ''too many open files'',
   ''inappropriate ioctl for device'',
   ''text file busy'',
   ''file too large'',
   ''no space'',
   ''illegal seek'',
   ''read only file system'',
   ''too many links'',
   ''broken pipe'',
   ''numerical argument out of domain'',
   ''result out of range'',
   ''illegal byte sequence'',
   ''resource deadlock avoided'',
   ''file name too long'',
   ''directory not empty'',
   ''no locks available'',
   ''function not implemented'',
   ''operation now in progress'',
   ''operation already in progress'',
   ''socket operation on non socket'',
   ''destination address required'',
   ''message too long'',
   ''protocol wrong type for socket'',
   ''protocol not available'',
   ''protocol not supported'',
   ''operation not supported'',
   ''address family not supported by protocol family'',
   ''address already in use'',
   ''cannot assign requested address'',
   ''network is down'',
   ''network is unreachable'',
   ''connection aborted'',
   ''connection reset by peer'',
   ''no buffer space available'',
   ''socket is already connected'',
   ''socket is not connected'',
   ''operation timed out'',
   ''connection refused'',
   ''no route to host'',
   ''too many levels of symbolic link'',
   ''disk quota exceeded'',
   ''stale file handle'',
   ''identifier removed'',
   ''no message of desired type'',
   ''value too large to be stored in data type'',
   ''authentication error'',
   ''expired'',
   ''protocol error'',
   ''unknown host'',
   ''cannot resolve an IP address into a hostname'',
   ''no such object'',
   ''can'' @ [CHR 0x27] @ ''t open'',
   ''unexpected EOF'',
   ''gfarm URL prefix is missing'',
   ''too many jobs'',
   ''file migrated'',
   ''not a symbolic link'',
   ''is a symbolic link'',
   ''unknown error'',
   ''invalid file replica'',
   ''no such user'',
   ''cannot remove the last replica'',
   ''no such group'',
   ''username is missing in a Gfarm URL'',
   ''hostname is missing in a Gfarm URL'',
   ''port number is missing in a Gfarm URL'',
   ''port number is invalid in a Gfarm URL'']"

definition errmsg_string :: "string list" where
  "errmsg_string =
  [''inconsistent metadata fixed, try again'',
   ''libgfarm internal error: too many error domain'',
   ''unknown keyword'',
   ''unknown authentication method'',
   ''hostname or IP address expected'',
   ''invalid character in hostname'',
   ''invalid character in IP address'',
   ''too big byte value in IP address'',
   ''IP address expected'',
   ''IP address less than 4 bytes'',
   ''too big netmask'',
   ''invalid name record'',
   ''reverse-lookup-name isn'' @ [CHR 0x27] @ ''t resolvable'',
   ''reverse-lookup-name doesn'' @ [CHR 0x27] @ ''t match, possibly forged'',
   ''value isn'' @ [CHR 0x27] @ ''t specified'',
   ''value is empty'',
   ''value isn'' @ [CHR 0x27] @ ''t allowed for boolean'',
   ''invalid character in value'',
   ''unknown parameter'',
   ''getprotobyname(3) failed'',
   ''unknown socket option'',
   ''missing argument'',
   ''too many arguments'',
   ''integer expected'',
   ''floating point number expected'',
   ''invalid character'',
   [CHR 0x22] @ ''enable'' @ [CHR 0x22] @ '' or '' @ [CHR 0x22] @ ''disable'' @ [CHR 0x22] @ '' is expected'',
   ''invalid syslog priority level'',
   ''local user name redefined'',
   ''global user name redefined'',
   ''local group name redefined'',
   ''global group name redefined'',
   ''missing second field (local user)'',
   ''inconsistent configuration, LDAP is specified as metadata backend before'',
   ''inconsistent configuration, PostgreSQL is specified as metadata backend before'',
   ''inconsistent configuration, localfs is specified as metadata backend before'',
   ''unterminated single quote'',
   ''unterminated double quote'',
   ''incomplete escape: '' @ [CHR 0x5C],
   ''missing 1st(auth-command) argument'',
   ''missing 2nd(auth-method) argument'',
   ''missing 3rd(host-spec) argument'',
   ''unknown auth subcommand'',
   ''missing 1st(netparam-option) argument'',
   ''missing 1st(sockopt-option) argument'',
   ''missing <address> argument'',
   ''missing <user map file> argument'',
   ''missing <group map file> argument'',
   ''missing 1st(architecture) argument'',
   ''missing 2nd(host-spec) argument'',
   ''cannot open gfarm2.conf'',
   ''gfp_xdr_send: invalid format character'',
   ''gfp_xdr_recv: invalid format character'',
   ''gfp_xdr_vrpc: missing result in format string'',
   ''gfp_xdr_vrpc: invalid format character'',
   ''gfarm sharedsecret key - invalid expire field'',
   ''gfarm sharedsecret key - invalid key field'',
   ''gfarm sharedsecret key - key file not exist'',
   ''gfarm auth method isn'' @ [CHR 0x27] @ ''t available for the host'',
   ''usable auth-method isn'' @ [CHR 0x27] @ ''t configured'',
   ''gfarm_auth_request_sharedsecret: implementaton error'',
   ''gfarm_auth_request: implementation error'',
   ''gfarm_auth_request_sharedsecret_multiplexed: implementaton error'',
   ''gfarm_auth_request_multiplexed: implementation error'',
   ''gfarm_auth_sharedsecret_md5_response: key mismatch, continue'',
   ''GSI credential initialization failed'',
   ''GSI initialization failed'',
   ''cannot initiate GSI connection'',
   ''cannot acquire client-side GSI credential'',
   ''unknown cred_type'',
   ''GSI delegated credential doesn'' @ [CHR 0x27] @ ''t exist'',
   ''cannot export GSI delegated credential'',
   ''gfsd aborted'',
   ''illegal gfsd descriptor'',
   ''unknown gfsd reply'',
   ''GFS_PROTO_PREAD: protocol error'',
   ''GFS_PROTO_WRITE: protocol error'',
   ''internal error: end of file with gfs_pio'',
   ''gfs_glob(): gfarm library isn'' @ [CHR 0x27] @ ''t properly initialized'',
   ''no filesystem node'',
   ''cred_type is not set, but cred_name is set'',
   ''cred_type is not set, but cred_service is set'',
   ''internal error: missing GSS_C_NO_CREDENTIAL check'',
   ''cred_type is '' @ [CHR 0x22] @ ''no-name'' @ [CHR 0x22] @ '', but cred_name is set'',
   ''cred_type is '' @ [CHR 0x22] @ ''no-name'' @ [CHR 0x22] @ '', but cred_service is set'',
   ''cred_type is '' @ [CHR 0x22] @ ''mechanism-specific'' @ [CHR 0x22] @ '', but cred_name is not set'',
   ''cred_type is '' @ [CHR 0x22] @ ''mechanism-specific'' @ [CHR 0x22] @ '', but cred_service is set'',
   ''cred_type is '' @ [CHR 0x22] @ ''user'' @ [CHR 0x22] @ '', but cred_service is set'',
   ''cred_type is '' @ [CHR 0x22] @ ''self'' @ [CHR 0x22] @ '', but cred_name is set'',
   ''cred_type is '' @ [CHR 0x22] @ ''self'' @ [CHR 0x22] @ '', but cred_service is set'',
   ''cred_type is '' @ [CHR 0x22] @ ''self'' @ [CHR 0x22] @ '', but not initialized as an initiator'',
   ''internal error - invalid cred_type'',
   ''invalid credential configuration'',
   ''hostname expected'',
   ''empty file'']"

lemma length_errcode_string: "int (length errcode_string) = GFARM_ERR_NUMBER"
  by (simp add: errcode_string_def)

lemma length_errmsg_string:
  "int (length errmsg_string) = GFARM_ERRMSG_END - GFARM_ERRMSG_BEGIN"
  by (simp add: errmsg_string_def)

subsection \<open>Unix error numbers and Gfarm codes\<close>

definition gfarm_errno_error_map_table :: "(int \<times> gfarm_error_t) list" where
  "gfarm_errno_error_map_table =
  [(0, GFARM_ERR_NO_ERROR),
   (EPERM, GFARM_ERR_OPERATION_NOT_PERMITTED),
   (ENOENT, GFARM_ERR_NO_SUCH_FILE_OR_DIRECTORY),
   (ESRCH, GFARM_ERR_NO_SUCH_PROCESS),
   (EINTR, GFARM_ERR_INTERRUPTED_SYSTEM_CALL),
   (EIO, GFARM_ERR_INPUT_OUTPUT),
   (ENXIO, GFARM_ERR_DEVICE_NOT_CONFIGURED),
   (E2BIG, GFARM_ERR_ARGUMENT_LIST_TOO_LONG),
   (ENOEXEC, GFARM_ERR_EXEC_FORMAT),
   (EBADF, GFARM_ERR_BAD_FILE_DESCRIPTOR),
   (ECHILD, GFARM_ERR_NO_CHILD_PROCESS),
   (EAGAIN, GFARM_ERR_RESOURCE_TEMPORARILY_UNAVAILABLE),
   (ENOMEM, GFARM_ERR_NO_MEMORY),
   (EACCES, GFARM_ERR_PERMISSION_DENIED),
   (EFAULT, GFARM_ERR_BAD_ADDRESS),
   (ENOTBLK, GFARM_ERR_BLOCK_DEVICE_REQUIRED),
   (EBUSY, GFARM_ERR_DEVICE_BUSY),
   (EEXIST, GFARM_ERR_ALREADY_EXISTS),
   (EXDEV, GFARM_ERR_CROSS_DEVICE_LINK),
   (ENODEV, GFARM_ERR_OPERATION_NOT_SUPPORTED_BY_DEVICE),
   (ENOTDIR, GFARM_ERR_NOT_A_DIRECTORY),
   (EISDIR, GFARM_ERR_IS_A_DIRECTORY),
   (EINVAL, GFARM_ERR_INVALID_ARGUMENT),
   (ENFILE, GFARM_ERR_TOO_MANY_OPEN_FILES_IN_SYSTEM),
   (EMFILE, GFARM_ERR_TOO_MANY_OPEN_FILES),
   (ENOTTY, GFARM_ERR_INAPPROPRIATE_IOCTL_FOR_DEVICE),
   (ETXTBSY, GFARM_ERR_TEXT_FILE_BUSY),
   (EFBIG, GFARM_ERR_FILE_TOO_LARGE),
   (ENOSPC, GFARM_ERR_NO_SPACE),
   (ESPIPE, GFARM_ERR_ILLEGAL_SEEK),
   (EROFS, GFARM_ERR_READ_ONLY_FILE_SYSTEM),
   (EMLINK, GFARM_ERR_TOO_MANY_LINKS),
   (EPIPE, GFARM_ERR_BROKEN_PIPE),
   (EDOM, GFARM_ERR_NUMERICAL_ARGUMENT_OUT_OF_DOMAIN),
   (ERANGE, GFARM_ERR_RESULT_OUT_OF_RANGE),
   (EILSEQ, GFARM_ERR_ILLEGAL_BYTE_SEQUENCE),
   (EDEADLK, GFARM_ERR_RESOURCE_DEADLOCK_AVOIDED),
   (ENAMETOOLONG, GFARM_ERR_FILE_NAME_TOO_LONG),
   (ENOTEMPTY, GFARM_ERR_DIRECTORY_NOT_EMPTY),
   (ENOLCK, GFARM_ERR_NO_LOCKS_AVAILABLE),
   (ENOSYS, GFARM_ERR_FUNCTION_NOT_IMPLEMENTED),
   (EINPROGRESS, GFARM_ERR_OPERATION_NOW_IN_PROGRESS),
   (EALREADY, GFARM_ERR_OPERATION_ALREADY_IN_PROGRESS),
   (ENOTSOCK, GFARM_ERR_SOCKET_OPERATION_ON_NON_SOCKET),
   (EDESTADDRREQ, GFARM_ERR_DESTINATION_ADDRESS_REQUIRED),
   (EMSGSIZE, GFARM_ERR_MESSAGE_TOO_LONG),
   (EPROTOTYPE, GFARM_ERR_PROTOCOL_WRONG_TYPE_FOR_SOCKET),
   (ENOPROTOOPT, GFARM_ERR_PROTOCOL_NOT_AVAILABLE),
   (EPROTONOSUPPORT, GFARM_ERR_PROTOCOL_NOT_SUPPORTED),
   (EOPNOTSUPP, GFARM_ERR_OPERATION_NOT_SUPPORTED),
   (EAFNOSUPPORT, GFARM_ERR_ADDRESS_FAMILY_NOT_SUPPORTED_BY_PROTOCOL_FAMILY),
   (EADDRINUSE, GFARM_ERR_ADDRESS_ALREADY_IN_USE),
   (EADDRNOTAVAIL, GFARM_ERR_CANNOT_ASSIGN_REQUESTED_ADDRESS),
   (ENETDOWN, GFARM_ERR_NETWORK_IS_DOWN),
   (ENETUNREACH, GFARM_ERR_NETWORK_IS_UNREACHABLE),
   (ECONNABORTED, GFARM_ERR_CONNECTION_ABORTED),
   (ECONNRESET, GFARM_ERR_CONNECTION_RESET_BY_PEER),
   (ENOBUFS, GFARM_ERR_NO_BUFFER_SPACE_AVAILABLE),
   (EISCONN, GFARM_ERR_SOCKET_IS_ALREADY_CONNECTED),
   (ENOTCONN, GFARM_ERR_SOCKET_IS_NOT_CONNECTED),
   (ETIMEDOUT, GFARM_ERR_OPERATION_TIMED_OUT),
   (ECONNREFUSED, GFARM_ERR_CONNECTION_REFUSED),
   (EHOSTUNREACH, GFARM_ERR_NO_ROUTE_TO_HOST),
   (ELOOP, GFARM_ERR_TOO_MANY_LEVELS_OF_SYMBOLIC_LINK),
   (EDQUOT, GFARM_ERR_DISK_QUOTA_EXCEEDED),
   (ESTALE, GFARM_ERR_STALE_FILE_HANDLE),
   (EIDRM, GFARM_ERR_IDENTIFIER_REMOVED),
   (ENOMSG, GFARM_ERR_NO_MESSAGE_OF_DESIRED_TYPE),
   (EOVERFLOW, GFARM_ERR_VALUE_TOO_LARGE_TO_BE_STORED_IN_DATA_TYPE),
   (EPERM, GFARM_ERR_AUTHENTICATION),
   (ETIME, GFARM_ERR_EXPIRED),
   (EPROTO, GFARM_ERR_PROTOCOL),
   (EPROTO, GFARM_ERR_UNEXPECTED_EOF),
   (EAGAIN, GFARM_ERR_TOO_MANY_JOBS),
   (EOPNOTSUPP, GFARM_ERR_NOT_A_SYMBOLIC_LINK),
   (EOPNOTSUPP, GFARM_ERR_IS_A_SYMBOLIC_LINK),
   (EPERM, GFARM_ERR_CANNOT_REMOVE_LAST_REPLICA)]"

text \<open>What the comment above the table asks for, and what its first entries decide.\<close>

lemma table_codes:
  "\<forall>(eno, e) \<in> set gfarm_errno_error_map_table.
     0 \<le> eno \<and> eno \<le> EDQUOT \<and> 0 \<le> e \<and> e < GFARM_ERR_NUMBER \<and> e \<noteq> GFARM_ERR_UNKNOWN"
  by (simp add: gfarm_errno_error_map_table_def)

lemma table_zero:
  "\<forall>(eno, e) \<in> set gfarm_errno_error_map_table. e = GFARM_ERR_NO_ERROR \<longleftrightarrow> eno = 0"
  by (simp add: gfarm_errno_error_map_table_def)

lemma table_distinct_codes: "distinct (map snd gfarm_errno_error_map_table)"
  by (simp add: gfarm_errno_error_map_table_def)

end
