(* ===== verification/Liberror.thy ===== *)
theory Liberror
  imports Liberror_Tables Alloc
begin

text \<open>
  \<open>gfarm/liberror.c\<close>: the space of error codes. Codes below \<open>GFARM_ERR_NUMBER\<close> and those
  of \<open>enum gfarm_errmsg\<close> are fixed; from \<open>GFARM_ERR_FOREIGN_BEGIN\<close> upwards
  \<open>gfarm_error_domain_alloc\<close> hands out consecutive intervals (one of them to the Unix
  error numbers), and from \<open>GFARM_ERR_PRIVATE_BEGIN\<close> upwards \<open>gfarm_error_range_alloc\<close>
  registers intervals chosen by the caller.

  The static variables are the record \<open>error_state\<close>; a \<open>struct gfarm_error_domain *\<close>
  is a \<open>domain_ref\<close>: the index in the array, or the number of the registered range counted
  from the first (the C list is linked newest first, and so is \<open>es_ranges\<close>).
  \<open>mal\<close> tells which allocations succeed; \<open>gflog_fatal\<close>, which exits, is \<open>None\<close>.
\<close>

subsection \<open>State\<close>

abbreviation (input) GFARM_ERR_FOREIGN_BEGIN :: int where "GFARM_ERR_FOREIGN_BEGIN \<equiv> 65536"
abbreviation (input) GFARM_ERR_PRIVATE_BEGIN :: int where "GFARM_ERR_PRIVATE_BEGIN \<equiv> 1879048192"
abbreviation (input) MAX_ERROR_DOMAINS :: nat where "MAX_ERROR_DOMAINS \<equiv> 10"

record error_domain =
  ed_offset :: gfarm_error_t
  ed_domerror_min :: int
  ed_domerror_number :: int
  ed_map_to_gfarm :: "gfarm_error_t list option"
  ed_to_message :: "nat \<Rightarrow> int \<Rightarrow> string"
  ed_cookie :: nat

datatype domain_ref = In_array nat | In_ranges nat

record error_state =
  es_domains :: "error_domain list"
  es_ranges :: "error_domain list"
  es_errno_domain :: "domain_ref option"

definition error_state0 :: error_state where
  "error_state0 = \<lparr>es_domains = [], es_ranges = [], es_errno_domain = None\<rparr>"

fun domain_valid :: "error_state \<Rightarrow> domain_ref \<Rightarrow> bool" where
  "domain_valid st (In_array i) \<longleftrightarrow> i < length (es_domains st)"
| "domain_valid st (In_ranges k) \<longleftrightarrow> k < length (es_ranges st)"

fun domain_at :: "error_state \<Rightarrow> domain_ref \<Rightarrow> error_domain" where
  "domain_at st (In_array i) = es_domains st ! i"
| "domain_at st (In_ranges k) = es_ranges st ! (length (es_ranges st) - 1 - k)"

fun domain_put :: "error_state \<Rightarrow> domain_ref \<Rightarrow> error_domain \<Rightarrow> error_state" where
  "domain_put st (In_array i) d = st\<lparr>es_domains := (es_domains st)[i := d]\<rparr>"
| "domain_put st (In_ranges k) d =
     st\<lparr>es_ranges := (es_ranges st)[length (es_ranges st) - 1 - k := d]\<rparr>"

subsection \<open>Allocation of domains and ranges\<close>

definition gfarm_error_domain_alloc ::
  "error_state \<Rightarrow> int \<Rightarrow> int \<Rightarrow> (nat \<Rightarrow> int \<Rightarrow> string) \<Rightarrow> nat
     \<Rightarrow> error_state \<times> gfarm_error_t \<times> domain_ref option" where
  "gfarm_error_domain_alloc st domerror_min domerror_max de_to_m cookie =
     (let n = length (es_domains st)
      in if n \<ge> MAX_ERROR_DOMAINS then (st, GFARM_ERRMSG_TOO_MANY_ERROR_DOMAIN, None)
         else
           let next_error = (if n = 0 then GFARM_ERR_FOREIGN_BEGIN
                             else ed_offset (es_domains st ! (n - 1))
                                    + ed_domerror_number (es_domains st ! (n - 1)))
           in if next_error + domerror_max - domerror_min \<ge> GFARM_ERR_PRIVATE_BEGIN
              then (st, GFARM_ERR_NUMERICAL_ARGUMENT_OUT_OF_DOMAIN, None)
              else
                let new = \<lparr>ed_offset = next_error, ed_domerror_min = domerror_min,
                           ed_domerror_number = domerror_max - domerror_min + 1,
                           ed_map_to_gfarm = None, ed_to_message = de_to_m, ed_cookie = cookie\<rparr>
                in (st\<lparr>es_domains := es_domains st @ [new]\<rparr>, GFARM_ERR_NO_ERROR,
                    Some (In_array n)))"

text \<open>The overlap test of the loop over the existing ranges.\<close>

definition range_overlap_test :: "int \<Rightarrow> int \<Rightarrow> error_domain \<Rightarrow> bool" where
  "range_overlap_test domerror_min domerror_max d \<longleftrightarrow>
     domerror_max \<ge> ed_offset d \<and> domerror_min < ed_offset d + ed_domerror_number d - 1"

definition gfarm_error_range_alloc ::
  "bool \<Rightarrow> error_state \<Rightarrow> int \<Rightarrow> int \<Rightarrow> (nat \<Rightarrow> int \<Rightarrow> string) \<Rightarrow> nat
     \<Rightarrow> error_state \<times> gfarm_error_t \<times> domain_ref option" where
  "gfarm_error_range_alloc malloced st domerror_min domerror_max de_to_m cookie =
     (if domerror_min < GFARM_ERR_PRIVATE_BEGIN \<or> domerror_max < domerror_min
      then (st, GFARM_ERR_NUMERICAL_ARGUMENT_OUT_OF_DOMAIN, None)
      else if list_ex (range_overlap_test domerror_min domerror_max) (es_ranges st)
      then (st, GFARM_ERR_NUMERICAL_ARGUMENT_OUT_OF_DOMAIN, None)
      else if \<not> malloced then (st, GFARM_ERR_NO_MEMORY, None)
      else
        let new = \<lparr>ed_offset = domerror_min, ed_domerror_min = domerror_min,
                   ed_domerror_number = domerror_max - domerror_min + 1,
                   ed_map_to_gfarm = None, ed_to_message = de_to_m, ed_cookie = cookie\<rparr>
        in (st\<lparr>es_ranges := new # es_ranges st\<rparr>, GFARM_ERR_NO_ERROR,
            Some (In_ranges (length (es_ranges st)))))"

subsection \<open>Mapping foreign numbers to codes\<close>

definition domerror_in :: "error_domain \<Rightarrow> int \<Rightarrow> bool" where
  "domerror_in d domerror \<longleftrightarrow>
     \<not> (domerror < ed_domerror_min d \<or> domerror \<ge> ed_domerror_min d + ed_domerror_number d)"

definition gfarm_error_domain_add_map ::
  "(u64 \<Rightarrow> bool) \<Rightarrow> error_domain \<Rightarrow> int \<Rightarrow> gfarm_error_t \<Rightarrow> error_domain \<times> gfarm_error_t" where
  "gfarm_error_domain_add_map mal domain domerror error =
     (if \<not> domerror_in domain domerror
      then (domain, GFARM_ERR_NUMERICAL_ARGUMENT_OUT_OF_DOMAIN)
      else
        let alloced = (case ed_map_to_gfarm domain of
              Some m \<Rightarrow> Some m
            | None \<Rightarrow> if gfarm_malloc_array mal (word_of_int (ed_domerror_number domain)) 4 = None
                      then None
                      else Some (replicate (nat (ed_domerror_number domain)) GFARM_ERR_UNKNOWN))
        in case alloced of
             None \<Rightarrow> (domain, GFARM_ERR_NO_MEMORY)
           | Some m \<Rightarrow>
               (domain\<lparr>ed_map_to_gfarm := Some (m[nat (domerror - ed_domerror_min domain) := error])\<rparr>,
                GFARM_ERR_NO_ERROR))"

definition gfarm_error_domain_map :: "error_domain \<Rightarrow> int \<Rightarrow> gfarm_error_t" where
  "gfarm_error_domain_map domain domerror =
     (if \<not> domerror_in domain domerror then GFARM_ERR_UNKNOWN
      else
        let k = domerror - ed_domerror_min domain
        in case ed_map_to_gfarm domain of
             Some m \<Rightarrow> if m ! nat k \<noteq> GFARM_ERR_UNKNOWN then m ! nat k else ed_offset domain + k
           | None \<Rightarrow> ed_offset domain + k)"

subsection \<open>Messages\<close>

text \<open>The loop over the array: it gives up at the first domain above the code.\<close>

fun domains_search :: "error_domain list \<Rightarrow> gfarm_error_t \<Rightarrow> error_domain option option" where
  "domains_search [] error = None"
| "domains_search (d # ds) error =
     (if error < ed_offset d then Some None
      else if error < ed_offset d + ed_domerror_number d then Some (Some d)
      else domains_search ds error)"

definition gfarm_error_domain_search :: "error_state \<Rightarrow> gfarm_error_t \<Rightarrow> error_domain option" where
  "gfarm_error_domain_search st error =
     (case domains_search (es_domains st) error of
        Some r \<Rightarrow> r
      | None \<Rightarrow> find (\<lambda>d. ed_offset d \<le> error \<and> error < ed_offset d + ed_domerror_number d)
                  (es_ranges st))"

definition gfarm_error_string :: "error_state \<Rightarrow> gfarm_error_t \<Rightarrow> string" where
  "gfarm_error_string st error =
     (if error < 0 then errcode_string ! nat GFARM_ERR_UNKNOWN
      else if error < GFARM_ERR_NUMBER then
        (if error \<ge> int (length errcode_string) then errcode_string ! nat GFARM_ERR_UNKNOWN
         else errcode_string ! nat error)
      else if error < GFARM_ERRMSG_BEGIN then errcode_string ! nat GFARM_ERR_UNKNOWN
      else if error < GFARM_ERRMSG_END then errmsg_string ! nat (error - GFARM_ERRMSG_BEGIN)
      else case gfarm_error_domain_search st error of
             Some d \<Rightarrow> ed_to_message d (ed_cookie d) (ed_domerror_min d + (error - ed_offset d))
           | None \<Rightarrow> errcode_string ! nat GFARM_ERR_UNKNOWN)"

subsection \<open>Unix error numbers\<close>

text \<open>
  \<open>strerror\<close> is the system's, a parameter. \<open>errno_number\<close> is \<open>ERRNO_NUMBER\<close>,
  256 where the system does not say.
\<close>

definition gfarm_errno_to_string :: "(int \<Rightarrow> string) \<Rightarrow> nat \<Rightarrow> int \<Rightarrow> string" where
  "gfarm_errno_to_string strerror cookie eno = strerror eno"

fun errno_register ::
  "(u64 \<Rightarrow> bool) \<Rightarrow> (int \<times> gfarm_error_t) list \<Rightarrow> error_domain \<Rightarrow> error_domain option" where
  "errno_register mal [] d = Some d"
| "errno_register mal ((eno, e) # rest) d =
     (if gfarm_error_domain_map d eno < GFARM_ERR_NUMBER then errno_register mal rest d
      else let (d', r) = gfarm_error_domain_add_map mal d eno e
           in if r \<noteq> GFARM_ERR_NO_ERROR then None else errno_register mal rest d')"

definition gfarm_errno_to_error_initialize ::
  "(u64 \<Rightarrow> bool) \<Rightarrow> (int \<Rightarrow> string) \<Rightarrow> int \<Rightarrow> error_state \<Rightarrow> error_state option" where
  "gfarm_errno_to_error_initialize mal strerror errno_number st =
     (if es_errno_domain st \<noteq> None then Some st
      else case gfarm_error_domain_alloc st 0 errno_number (gfarm_errno_to_string strerror) 0 of
             (st1, e, Some ref) \<Rightarrow>
               (case errno_register mal gfarm_errno_error_map_table (domain_at st1 ref) of
                  None \<Rightarrow> None
                | Some d \<Rightarrow> Some ((domain_put st1 ref d)\<lparr>es_errno_domain := Some ref\<rparr>))
           | (st1, e, None) \<Rightarrow> None)"

text \<open>
  \<open>pthread_once\<close> runs the initialisation at the first call; the function itself
  returns at once when it has run, so that running it at every call is the same.
\<close>

definition gfarm_errno_to_error ::
  "(u64 \<Rightarrow> bool) \<Rightarrow> (int \<Rightarrow> string) \<Rightarrow> int \<Rightarrow> error_state \<Rightarrow> int
     \<Rightarrow> (error_state \<times> gfarm_error_t) option" where
  "gfarm_errno_to_error mal strerror errno_number st eno =
     (case gfarm_errno_to_error_initialize mal strerror errno_number st of
        None \<Rightarrow> None
      | Some st' \<Rightarrow>
          (case es_errno_domain st' of
             None \<Rightarrow> None
           | Some ref \<Rightarrow> Some (st', gfarm_error_domain_map (domain_at st' ref) eno)))"

definition gfarm_error_to_errno_initialize :: "int list" where
  "gfarm_error_to_errno_initialize =
     (let m = fold (\<lambda>(eno, e) m. m[nat e := eno]) gfarm_errno_error_map_table
                (replicate (nat GFARM_ERR_NUMBER) 0)
      in take 1 m @ map (\<lambda>eno. if eno = 0 then EINVAL else eno) (drop 1 m))"

text \<open>A negative code would index in front of the array; callers pass codes.\<close>

definition gfarm_error_to_errno :: "gfarm_error_t \<Rightarrow> int" where
  "gfarm_error_to_errno error =
     (if error < GFARM_ERR_NUMBER then gfarm_error_to_errno_initialize ! nat error else EINVAL)"

end
