(* ===== verification/Liberror_Spec.thy ===== *)
theory Liberror_Spec
  imports Liberror
begin

text \<open>
  What \<open>liberror.c\<close> promises. The domains of the array tile an interval from
  \<open>GFARM_ERR_FOREIGN_BEGIN\<close> upwards (\<open>domains_chained\<close>), so that every code has at most
  one owner and a code that was handed out for a foreign number leads back to the message
  of that number; the Unix error numbers translate to the first entry of the table and
  back. States are those reachable by the operations (\<open>error_reach\<close>).
\<close>

subsection \<open>Invariant\<close>

definition domain_ok :: "error_domain \<Rightarrow> bool" where
  "domain_ok d \<longleftrightarrow> 0 < ed_domerror_number d
     \<and> (\<forall>m. ed_map_to_gfarm d = Some m \<longrightarrow> length m = nat (ed_domerror_number d))"

fun domains_chained :: "int \<Rightarrow> error_domain list \<Rightarrow> bool" where
  "domains_chained off [] \<longleftrightarrow> True"
| "domains_chained off (d # ds) \<longleftrightarrow>
     ed_offset d = off \<and> domain_ok d \<and> off + ed_domerror_number d \<le> GFARM_ERR_PRIVATE_BEGIN
     \<and> domains_chained (off + ed_domerror_number d) ds"

definition range_ok :: "error_domain \<Rightarrow> bool" where
  "range_ok d \<longleftrightarrow> domain_ok d \<and> GFARM_ERR_PRIVATE_BEGIN \<le> ed_offset d
     \<and> ed_offset d = ed_domerror_min d"

definition error_inv :: "error_state \<Rightarrow> bool" where
  "error_inv st \<longleftrightarrow> length (es_domains st) \<le> MAX_ERROR_DOMAINS
     \<and> domains_chained GFARM_ERR_FOREIGN_BEGIN (es_domains st)
     \<and> (\<forall>d \<in> set (es_ranges st). range_ok d)
     \<and> (\<forall>r. es_errno_domain st = Some r \<longrightarrow> domain_valid st r)"

text \<open>What \<open>add_map\<close> leaves alone.\<close>

definition domain_frame :: "error_domain \<Rightarrow> int \<times> int \<times> int \<times> (nat \<Rightarrow> int \<Rightarrow> string) \<times> nat" where
  "domain_frame d = (ed_offset d, ed_domerror_min d, ed_domerror_number d, ed_to_message d, ed_cookie d)"

lemma domain_frame_fields:
  "domain_frame d' = domain_frame d \<Longrightarrow> ed_offset d' = ed_offset d \<and> ed_domerror_min d' = ed_domerror_min d
     \<and> ed_domerror_number d' = ed_domerror_number d \<and> ed_to_message d' = ed_to_message d
     \<and> ed_cookie d' = ed_cookie d"
  by (simp add: domain_frame_def)

inductive error_reach :: "error_state \<Rightarrow> bool" where
  start: "error_reach error_state0"
| domain: "error_reach st \<Longrightarrow> lo \<le> hi \<Longrightarrow>
     gfarm_error_domain_alloc st lo hi msg c = (st', e, r) \<Longrightarrow> error_reach st'"
| range: "error_reach st \<Longrightarrow>
     gfarm_error_range_alloc ok st lo hi msg c = (st', e, r) \<Longrightarrow> error_reach st'"
| add_map: "error_reach st \<Longrightarrow> domain_valid st r \<Longrightarrow>
     gfarm_error_domain_add_map mal (domain_at st r) eno e = (d, e') \<Longrightarrow>
     error_reach (domain_put st r d)"
| errno: "error_reach st \<Longrightarrow> 0 \<le> n \<Longrightarrow>
     gfarm_errno_to_error mal strerror n st eno = Some (st', e) \<Longrightarrow> error_reach st'"

subsection \<open>The tiling\<close>

fun domains_end :: "int \<Rightarrow> error_domain list \<Rightarrow> int" where
  "domains_end off [] = off"
| "domains_end off (d # ds) = domains_end (off + ed_domerror_number d) ds"

lemma domains_end_ge: "domains_chained off ds \<Longrightarrow> off \<le> domains_end off ds"
proof (induction ds arbitrary: off)
  case (Cons d ds)
  from Cons.IH [of "off + ed_domerror_number d"] Cons.prems show ?case
    by (auto simp: domain_ok_def)
qed simp

lemma domains_end_last:
  "domains_chained off ds \<Longrightarrow> ds \<noteq> [] \<Longrightarrow>
     domains_end off ds = ed_offset (ds ! (length ds - 1)) + ed_domerror_number (ds ! (length ds - 1))"
proof (induction ds arbitrary: off)
  case (Cons d ds)
  then show ?case by (cases ds) auto
qed simp

lemma domains_chained_snoc:
  "domains_chained off (ds @ [d]) \<longleftrightarrow> domains_chained off ds \<and> ed_offset d = domains_end off ds
     \<and> domain_ok d \<and> domains_end off ds + ed_domerror_number d \<le> GFARM_ERR_PRIVATE_BEGIN"
  by (induction ds arbitrary: off) auto

lemma domains_chained_update:
  "domains_chained off ds \<Longrightarrow> i < length ds \<Longrightarrow> domain_frame d = domain_frame (ds ! i) \<Longrightarrow>
     domain_ok d \<Longrightarrow> domains_chained off (ds[i := d])"
proof (induction ds arbitrary: off i)
  case (Cons x ds)
  then show ?case by (cases i) (auto dest!: domain_frame_fields)
qed simp

lemma domains_chained_nth:
  "domains_chained off ds \<Longrightarrow> i < length ds \<Longrightarrow>
     domain_ok (ds ! i) \<and> off \<le> ed_offset (ds ! i)
     \<and> ed_offset (ds ! i) + ed_domerror_number (ds ! i) \<le> GFARM_ERR_PRIVATE_BEGIN"
proof (induction ds arbitrary: off i)
  case (Cons x ds)
  show ?case
  proof (cases i)
    case (Suc j)
    with Cons.prems Cons.IH [of "off + ed_domerror_number x" j] show ?thesis
      by (auto simp: domain_ok_def)
  qed (use Cons.prems in auto)
qed simp

text \<open>A code of the array is found in its own domain.\<close>

lemma domains_search_finds:
  "domains_chained off ds \<Longrightarrow> i < length ds \<Longrightarrow> 0 \<le> k \<Longrightarrow> k < ed_domerror_number (ds ! i) \<Longrightarrow>
     domains_search ds (ed_offset (ds ! i) + k) = Some (Some (ds ! i))"
proof (induction ds arbitrary: off i)
  case (Cons x ds)
  show ?case
  proof (cases i)
    case 0
    with Cons.prems show ?thesis by simp
  next
    case (Suc j)
    with Cons.prems domains_chained_nth [of "off + ed_domerror_number x" ds j]
      Cons.IH [of "off + ed_domerror_number x" j]
    show ?thesis by (auto simp: domain_ok_def)
  qed
qed simp

lemma domains_search_above:
  "domains_chained off ds \<Longrightarrow> GFARM_ERR_PRIVATE_BEGIN \<le> c \<Longrightarrow> domains_search ds c = None"
proof (induction ds arbitrary: off)
  case (Cons d ds)
  from Cons.IH [of "off + ed_domerror_number d"] Cons.prems show ?case
    by (auto simp: domain_ok_def)
qed simp

lemma domains_disjoint:
  "domains_chained off ds \<Longrightarrow> i < j \<Longrightarrow> j < length ds \<Longrightarrow>
     ed_offset (ds ! i) + ed_domerror_number (ds ! i) \<le> ed_offset (ds ! j)"
proof (induction ds arbitrary: off i j)
  case (Cons x ds)
  from Cons.prems obtain j' where j: "j = Suc j'" by (cases j) auto
  show ?case
  proof (cases i)
    case 0
    with Cons.prems j domains_chained_nth [of "off + ed_domerror_number x" ds j']
    show ?thesis by auto
  next
    case (Suc i')
    with Cons.prems j Cons.IH [of "off + ed_domerror_number x" i' j'] show ?thesis by auto
  qed
qed simp

subsection \<open>The operations keep the invariant\<close>

lemma domain_alloc_cases:
  assumes al: "gfarm_error_domain_alloc st lo hi msg c = (st', e, r)"
    and ch: "domains_chained GFARM_ERR_FOREIGN_BEGIN (es_domains st)"
  obtains (failed) "st' = st" "e \<noteq> GFARM_ERR_NO_ERROR" "r = None"
  | (added) d where "st' = st\<lparr>es_domains := es_domains st @ [d]\<rparr>" "e = GFARM_ERR_NO_ERROR"
      "r = Some (In_array (length (es_domains st)))" "length (es_domains st) < MAX_ERROR_DOMAINS"
      "ed_offset d = domains_end GFARM_ERR_FOREIGN_BEGIN (es_domains st)"
      "ed_domerror_min d = lo" "ed_domerror_number d = hi - lo + 1" "ed_map_to_gfarm d = None"
      "ed_to_message d = msg" "ed_cookie d = c"
      "ed_offset d + (hi - lo + 1) \<le> GFARM_ERR_PRIVATE_BEGIN"
proof -
  let ?n = "length (es_domains st)"
  obtain nx where nx: "nx = (if ?n = 0 then GFARM_ERR_FOREIGN_BEGIN
    else ed_offset (es_domains st ! (?n - 1)) + ed_domerror_number (es_domains st ! (?n - 1)))"
    by blast
  have nx': "nx = domains_end GFARM_ERR_FOREIGN_BEGIN (es_domains st)"
    using domains_end_last [OF ch] nx by auto
  show thesis
  proof (cases "?n \<ge> MAX_ERROR_DOMAINS \<or> nx + hi - lo \<ge> GFARM_ERR_PRIVATE_BEGIN")
    case True
    with failed al nx show thesis
      by (auto simp: gfarm_error_domain_alloc_def Let_def split: if_splits)
  next
    case False
    from al [unfolded gfarm_error_domain_alloc_def Let_def, folded nx] False nx'
    show thesis by (intro added) auto
  qed
qed

lemma errno_valid_grow:
  "error_inv st \<Longrightarrow> es_errno_domain st = Some r \<Longrightarrow>
     length (es_domains st) \<le> length (es_domains st') \<Longrightarrow>
     length (es_ranges st) \<le> length (es_ranges st') \<Longrightarrow> domain_valid st' r"
  by (cases r) (auto simp: error_inv_def)

lemma domain_alloc_inv:
  assumes inv: "error_inv st" and le: "lo \<le> hi"
    and al: "gfarm_error_domain_alloc st lo hi msg c = (st', e, r)"
  shows "error_inv st'"
proof -
  have ch: "domains_chained GFARM_ERR_FOREIGN_BEGIN (es_domains st)"
    using inv by (simp add: error_inv_def)
  from al ch show ?thesis
  proof (cases rule: domain_alloc_cases)
    case failed
    with inv show ?thesis by simp
  next
    case (added d)
    have "domains_chained GFARM_ERR_FOREIGN_BEGIN (es_domains st @ [d])"
      using ch added le by (simp add: domains_chained_snoc domain_ok_def)
    moreover have "\<forall>r. es_errno_domain st = Some r \<longrightarrow> domain_valid st' r"
      using errno_valid_grow [OF inv, of _ st'] added(1) by simp
    ultimately show ?thesis using inv added by (simp add: error_inv_def)
  qed
qed

lemma range_alloc_inv:
  assumes inv: "error_inv st"
    and al: "gfarm_error_range_alloc ok st lo hi msg c = (st', e, r)"
  shows "error_inv st'"
proof (cases "e = GFARM_ERR_NO_ERROR")
  case False
  then have "st' = st"
    using al by (auto simp: gfarm_error_range_alloc_def Let_def split: if_splits)
  with inv show ?thesis by simp
next
  case True
  then obtain d where st': "st' = st\<lparr>es_ranges := d # es_ranges st\<rparr>"
    and d: "range_ok d"
    using al by (auto simp: gfarm_error_range_alloc_def Let_def domain_ok_def range_ok_def
        split: if_splits)
  have "\<forall>r. es_errno_domain st = Some r \<longrightarrow> domain_valid st' r"
    using errno_valid_grow [OF inv, of _ st'] st' by simp
  with inv st' d show ?thesis by (simp add: error_inv_def)
qed

lemma add_map_spec:
  assumes "gfarm_error_domain_add_map mal d x e = (d', r)" and "domain_ok d"
  shows "domain_frame d' = domain_frame d \<and> domain_ok d'
    \<and> (r = GFARM_ERR_NO_ERROR \<and> domerror_in d x \<or> r \<noteq> GFARM_ERR_NO_ERROR \<and> d' = d)
    \<and> (r = GFARM_ERR_NO_ERROR \<longrightarrow>
         gfarm_error_domain_map d' =
           (gfarm_error_domain_map d)(x := if e \<noteq> GFARM_ERR_UNKNOWN then e
                                          else ed_offset d + (x - ed_domerror_min d)))"
proof (cases "domerror_in d x")
  case False
  with assms show ?thesis by (auto simp: gfarm_error_domain_add_map_def)
next
  case True
  let ?al = "case ed_map_to_gfarm d of
              Some m \<Rightarrow> Some m
            | None \<Rightarrow> if gfarm_malloc_array mal (word_of_int (ed_domerror_number d)) 4 = None
                      then None
                      else Some (replicate (nat (ed_domerror_number d)) GFARM_ERR_UNKNOWN)"
  show ?thesis
  proof (cases ?al)
    case None
    with assms True show ?thesis by (auto simp: gfarm_error_domain_add_map_def)
  next
    case (Some m)
    let ?i = "nat (x - ed_domerror_min d)"
    have len: "length m = nat (ed_domerror_number d)"
      using Some assms(2) by (auto simp: domain_ok_def split: option.splits if_splits)
    have d': "d' = d\<lparr>ed_map_to_gfarm := Some (m[?i := e])\<rparr>" "r = GFARM_ERR_NO_ERROR"
      using assms(1) True Some by (simp_all add: gfarm_error_domain_add_map_def)
    have same: "gfarm_error_domain_map d y
        = (if \<not> domerror_in d y then GFARM_ERR_UNKNOWN
           else let k = y - ed_domerror_min d in
             if m ! nat k \<noteq> GFARM_ERR_UNKNOWN then m ! nat k else ed_offset d + k)" for y
      using Some by (auto simp: gfarm_error_domain_map_def domerror_in_def Let_def
          split: option.splits if_splits)
    have in': "domerror_in d' y = domerror_in d y" for y by (simp add: d' domerror_in_def)
    have "gfarm_error_domain_map d' y
        = ((gfarm_error_domain_map d)(x := if e \<noteq> GFARM_ERR_UNKNOWN then e
                                          else ed_offset d + (x - ed_domerror_min d))) y" for y
    proof (cases "domerror_in d y")
      case False
      with True in' show ?thesis
        by (auto simp: same) (auto simp: gfarm_error_domain_map_def)
    next
      case y: True
      have idx: "nat (y - ed_domerror_min d) < length m" "?i < length m"
        using y True len by (auto simp: domerror_in_def)
      have neq: "nat (y - ed_domerror_min d) \<noteq> ?i" if "y \<noteq> x"
        using that y True by (auto simp: domerror_in_def)
      show ?thesis
        using y in' idx neq unfolding fun_upd_def same
        by (auto simp: gfarm_error_domain_map_def d' Let_def)
    qed
    with d' True len assms(2) show ?thesis
      by (auto simp: domain_frame_def domain_ok_def)
  qed
qed

lemma domain_put_inv:
  assumes inv: "error_inv st" and v: "domain_valid st r"
    and fr: "domain_frame d = domain_frame (domain_at st r)" and ok: "domain_ok d"
  shows "error_inv (domain_put st r d)"
proof -
  have "\<forall>r'. es_errno_domain st = Some r' \<longrightarrow> domain_valid (domain_put st r d) r'"
    using errno_valid_grow [OF inv, of _ "domain_put st r d"] by (cases r) simp_all
  moreover have "es_errno_domain (domain_put st r d) = es_errno_domain st" by (cases r) simp_all
  moreover have "length (es_domains (domain_put st r d)) = length (es_domains st)"
    by (cases r) simp_all
  moreover have "domains_chained GFARM_ERR_FOREIGN_BEGIN (es_domains (domain_put st r d))"
    using inv v fr ok by (cases r) (simp_all add: error_inv_def domains_chained_update)
  moreover have "\<forall>x \<in> set (es_ranges (domain_put st r d)). range_ok x"
  proof (cases r)
    case (In_array i)
    with inv show ?thesis by (simp add: error_inv_def)
  next
    case (In_ranges k)
    let ?i = "length (es_ranges st) - 1 - k"
    have "?i < length (es_ranges st)" using v In_ranges by auto
    then have "range_ok (es_ranges st ! ?i)" using inv by (simp add: error_inv_def)
    then have "range_ok d" using fr ok In_ranges
      by (auto simp: range_ok_def dest!: domain_frame_fields)
    with In_ranges inv set_update_subset_insert [of "es_ranges st" ?i d] show ?thesis
      by (auto simp: error_inv_def)
  qed
  ultimately show ?thesis using inv by (simp add: error_inv_def)
qed

lemma domain_at_ok: "error_inv st \<Longrightarrow> domain_valid st r \<Longrightarrow> domain_ok (domain_at st r)"
  by (cases r) (auto simp: error_inv_def range_ok_def dest: domains_chained_nth)

lemma domain_at_put:
  "domain_valid st r \<Longrightarrow> domain_at (domain_put st r d) r = d"
  by (cases r) auto

subsection \<open>The Unix error numbers\<close>

text \<open>The first entry of the table for a number is the one that is kept.\<close>

lemma errno_register_spec:
  "errno_register mal tab d = Some d' \<Longrightarrow> domain_ok d \<Longrightarrow> GFARM_ERR_NUMBER \<le> ed_offset d \<Longrightarrow>
   \<forall>(x, e) \<in> set tab. e < GFARM_ERR_NUMBER \<and> e \<noteq> GFARM_ERR_UNKNOWN \<Longrightarrow>
     domain_frame d' = domain_frame d \<and> domain_ok d'
     \<and> gfarm_error_domain_map d' x =
         (if gfarm_error_domain_map d x < GFARM_ERR_NUMBER then gfarm_error_domain_map d x
          else case map_of tab x of Some e \<Rightarrow> e | None \<Rightarrow> gfarm_error_domain_map d x)"
proof (induction tab arbitrary: d)
  case (Cons p tab)
  obtain y e where p: "p = (y, e)" by (cases p)
  show ?case
  proof (cases "gfarm_error_domain_map d y < GFARM_ERR_NUMBER")
    case True
    with Cons.prems p have "errno_register mal tab d = Some d'" by simp
    from Cons.IH [OF this Cons.prems(2,3)] Cons.prems(4) True p show ?thesis by auto
  next
    case False
    obtain d1 r where a: "gfarm_error_domain_add_map mal d y e = (d1, r)" by fastforce
    with Cons.prems p False have r: "r = GFARM_ERR_NO_ERROR" and rest: "errno_register mal tab d1 = Some d'"
      by (auto split: if_splits)
    from add_map_spec [OF a Cons.prems(2)] r Cons.prems(4) p
    have d1: "domain_frame d1 = domain_frame d" "domain_ok d1"
      "gfarm_error_domain_map d1 = (gfarm_error_domain_map d)(y := e)" "e < GFARM_ERR_NUMBER" by auto
    from domain_frame_fields [OF d1(1)] Cons.prems(3) have "GFARM_ERR_NUMBER \<le> ed_offset d1" by simp
    note IH = Cons.IH [OF rest d1(2) this]
    have at: "gfarm_error_domain_map d1 z = (if z = y then e else gfarm_error_domain_map d z)" for z
      by (simp add: d1(3))
    show ?thesis
    proof (cases "x = y")
      case True
      with IH Cons.prems(4) p d1(1,4) False show ?thesis by (simp add: at)
    next
      case neq: False
      with IH Cons.prems(4) p d1(1) show ?thesis by (simp add: at split: option.split)
    qed
  qed
qed simp

lemma add_map_succeeds:
  assumes "domerror_in d y" and "gfarm_malloc_array mal (word_of_int (ed_domerror_number d)) 4 \<noteq> None"
  shows "snd (gfarm_error_domain_add_map mal d y e) = GFARM_ERR_NO_ERROR"
  using assms by (auto simp: gfarm_error_domain_add_map_def split: option.splits)

lemma errno_register_total:
  "domain_ok d \<Longrightarrow> \<forall>(y, e) \<in> set tab. domerror_in d y \<Longrightarrow>
   gfarm_malloc_array mal (word_of_int (ed_domerror_number d)) 4 \<noteq> None \<Longrightarrow>
     errno_register mal tab d \<noteq> None"
proof (induction tab arbitrary: d)
  case (Cons p tab)
  obtain y e where p: "p = (y, e)" by (cases p)
  obtain d1 r where a: "gfarm_error_domain_add_map mal d y e = (d1, r)" by fastforce
  have "r = GFARM_ERR_NO_ERROR"
    using add_map_succeeds [of d y mal e] Cons.prems p a by simp
  moreover note add_map_spec [OF a Cons.prems(1)]
  then have d1: "domain_frame d1 = domain_frame d" "domain_ok d1" by auto
  from domain_frame_fields [OF d1(1)] have "domerror_in d1 = domerror_in d"
    and "ed_domerror_number d1 = ed_domerror_number d"
    by (auto simp: domerror_in_def fun_eq_iff)
  then have "errno_register mal tab d1 \<noteq> None"
    using Cons.IH [OF d1(2)] Cons.prems(2,3) by auto
  moreover have "errno_register mal tab d \<noteq> None"
    using Cons.IH [OF Cons.prems(1)] Cons.prems(2,3) by auto
  ultimately show ?case using p a by auto
qed simp

text \<open>What \<open>gfarm_errno_to_error\<close> answers once its domain is registered at \<open>off\<close>.\<close>

definition errno_code :: "gfarm_error_t \<Rightarrow> int \<Rightarrow> int \<Rightarrow> gfarm_error_t" where
  "errno_code off errno_number eno =
     (if 0 \<le> eno \<and> eno \<le> errno_number
      then case map_of gfarm_errno_error_map_table eno of Some e \<Rightarrow> e | None \<Rightarrow> off + eno
      else GFARM_ERR_UNKNOWN)"

lemma table_map_of:
  "map_of gfarm_errno_error_map_table x = Some e \<Longrightarrow>
     0 \<le> x \<and> x \<le> EDQUOT \<and> 0 \<le> e \<and> e < GFARM_ERR_NUMBER \<and> e \<noteq> GFARM_ERR_UNKNOWN
     \<and> (e = GFARM_ERR_NO_ERROR \<longleftrightarrow> x = 0)"
  using map_of_SomeD [of gfarm_errno_error_map_table x e] table_codes table_zero by fastforce

lemma errno_initialize_spec:
  assumes inv: "error_inv st" and n: "0 \<le> n" and fresh: "es_errno_domain st = None"
    and init: "gfarm_errno_to_error_initialize mal strerror n st = Some st'"
  shows "error_inv st' \<and> es_errno_domain st' = Some (In_array (length (es_domains st)))
    \<and> length (es_domains st') = Suc (length (es_domains st)) \<and> es_ranges st' = es_ranges st
    \<and> gfarm_error_domain_map (domain_at st' (In_array (length (es_domains st)))) x
        = errno_code (domains_end GFARM_ERR_FOREIGN_BEGIN (es_domains st)) n x"
proof -
  let ?ref = "In_array (length (es_domains st))"
  have ch: "domains_chained GFARM_ERR_FOREIGN_BEGIN (es_domains st)"
    using inv by (simp add: error_inv_def)
  obtain st1 e r where al:
    "gfarm_error_domain_alloc st 0 n (gfarm_errno_to_string strerror) 0 = (st1, e, r)"
    by (cases "gfarm_error_domain_alloc st 0 n (gfarm_errno_to_string strerror) 0") auto
  from al ch show ?thesis
  proof (cases rule: domain_alloc_cases)
    case failed
    with al init fresh show ?thesis by (simp add: gfarm_errno_to_error_initialize_def)
  next
    case (added d)
    have st1: "error_inv st1" by (rule domain_alloc_inv [OF inv n al])
    have v: "domain_valid st1 ?ref" "domain_at st1 ?ref = d" using added by simp_all
    from al added init fresh v obtain d' where
      reg: "errno_register mal gfarm_errno_error_map_table d = Some d'" and
      st': "st' = (domain_put st1 ?ref d')\<lparr>es_errno_domain := Some ?ref\<rparr>"
      by (auto simp: gfarm_errno_to_error_initialize_def split: option.splits)
    have off: "GFARM_ERR_FOREIGN_BEGIN \<le> ed_offset d"
      using domains_end_ge [OF ch] added(5) by simp
    have dok: "domain_ok d" using domain_at_ok [OF st1 v(1)] v(2) by simp
    note spec = errno_register_spec [OF reg dok, of x]
    have tab: "\<forall>(x, e) \<in> set gfarm_errno_error_map_table. e < GFARM_ERR_NUMBER \<and> e \<noteq> GFARM_ERR_UNKNOWN"
      using table_codes by auto
    have d': "domain_frame d' = domain_frame d" "domain_ok d'" using spec off tab by auto
    have "error_inv (domain_put st1 ?ref d')"
      using domain_put_inv [OF st1 v(1)] v(2) d' by simp
    then have "error_inv st'" using st' v by (auto simp: error_inv_def)
    moreover have "domain_at st' ?ref = d'" using st' added(1) by simp
    moreover have "gfarm_error_domain_map d' x
        = errno_code (domains_end GFARM_ERR_FOREIGN_BEGIN (es_domains st)) n x"
      using spec off tab added table_map_of [of x] n
      by (auto simp: errno_code_def gfarm_error_domain_map_def domerror_in_def split: option.splits)
    ultimately show ?thesis using st' added by simp
  qed
qed

lemma errno_to_error_inv:
  assumes inv: "error_inv st" and n: "0 \<le> n"
    and run: "gfarm_errno_to_error mal strerror n st eno = Some (st', e)"
  shows "error_inv st'"
proof -
  from run have init: "gfarm_errno_to_error_initialize mal strerror n st = Some st'"
    by (auto simp: gfarm_errno_to_error_def split: option.splits)
  show ?thesis
  proof (cases "es_errno_domain st")
    case None
    from errno_initialize_spec [OF inv n None init] show ?thesis by simp
  next
    case (Some r)
    with init inv show ?thesis by (simp add: gfarm_errno_to_error_initialize_def)
  qed
qed

lemma error_reach_inv: "error_reach st \<Longrightarrow> error_inv st"
proof (induction rule: error_reach.induct)
  case start
  show ?case by (simp add: error_inv_def error_state0_def)
next
  case (add_map st r mal eno e d e')
  from add_map_spec [OF add_map.hyps(3)] domain_at_ok [OF add_map.IH add_map.hyps(2)]
  show ?case using domain_put_inv [OF add_map.IH add_map.hyps(2)] by blast
qed (auto intro: domain_alloc_inv range_alloc_inv errno_to_error_inv)

lemma errno_to_error_code:
  assumes inv: "error_inv st" and n: "0 \<le> n" and fresh: "es_errno_domain st = None"
    and run: "gfarm_errno_to_error mal strerror n st eno = Some (st', e)"
  shows "e = errno_code (domains_end GFARM_ERR_FOREIGN_BEGIN (es_domains st)) n eno
    \<and> gfarm_errno_to_error mal strerror n st' eno = Some (st', e)"
proof -
  from run have init: "gfarm_errno_to_error_initialize mal strerror n st = Some st'"
    by (auto simp: gfarm_errno_to_error_def split: option.splits)
  note spec = errno_initialize_spec [OF inv n fresh init, of eno]
  from run init spec
  have e: "e = errno_code (domains_end GFARM_ERR_FOREIGN_BEGIN (es_domains st)) n eno"
    by (simp add: gfarm_errno_to_error_def)
  moreover have "gfarm_errno_to_error_initialize mal strerror n st' = Some st'"
    using spec by (simp add: gfarm_errno_to_error_initialize_def)
  ultimately show ?thesis using spec by (simp add: gfarm_errno_to_error_def)
qed

lemma errno_to_error_total:
  assumes inv: "error_inv st" and n: "EDQUOT \<le> n" and fresh: "es_errno_domain st = None"
    and room: "length (es_domains st) < MAX_ERROR_DOMAINS"
      "domains_end GFARM_ERR_FOREIGN_BEGIN (es_domains st) + n < GFARM_ERR_PRIVATE_BEGIN"
    and mem: "gfarm_malloc_array mal (word_of_int (n + 1)) 4 \<noteq> None"
  shows "\<exists>st' e. gfarm_errno_to_error mal strerror n st eno = Some (st', e)"
proof -
  have ch: "domains_chained GFARM_ERR_FOREIGN_BEGIN (es_domains st)"
    using inv by (simp add: error_inv_def)
  obtain st1 e1 r where al:
    "gfarm_error_domain_alloc st 0 n (gfarm_errno_to_string strerror) 0 = (st1, e1, r)"
    by (cases "gfarm_error_domain_alloc st 0 n (gfarm_errno_to_string strerror) 0") auto
  from al ch show ?thesis
  proof (cases rule: domain_alloc_cases)
    case failed
    with al room ch show ?thesis
      using domains_end_last [OF ch]
      by (auto simp: gfarm_error_domain_alloc_def Let_def split: if_splits)
  next
    case (added d)
    have at: "domain_at st1 (In_array (length (es_domains st))) = d" using added(1) by simp
    have "domain_ok d" using added n by (simp add: domain_ok_def)
    moreover have "\<forall>(y, e) \<in> set gfarm_errno_error_map_table. domerror_in d y"
      using table_codes added n by (auto simp: domerror_in_def)
    ultimately obtain d' where
      "errno_register mal gfarm_errno_error_map_table d = Some d'"
      using errno_register_total [of d gfarm_errno_error_map_table mal] mem added by auto
    with al added at fresh show ?thesis
      by (simp add: gfarm_errno_to_error_def gfarm_errno_to_error_initialize_def)
  qed
qed

lemma error_to_errno_table:
  "list_all (\<lambda>(eno, e). gfarm_error_to_errno e = eno) gfarm_errno_error_map_table"
  by code_simp

lemma error_to_errno_of:
  "map_of gfarm_errno_error_map_table eno = Some e \<Longrightarrow> gfarm_error_to_errno e = eno"
  using error_to_errno_table map_of_SomeD [of gfarm_errno_error_map_table eno e]
  by (auto simp: list_all_iff)

subsection \<open>Properties\<close>

text \<open>C3: a code that a domain of the array hands out for an unmapped foreign number is
  owned by that domain alone: \<open>gfarm_error_string\<close> finds the domain again and asks it for the
  message of exactly that foreign number, whatever other domains and ranges have been
  registered.\<close>

theorem foreign_code_message:
  assumes "error_reach st" and "i < length (es_domains st)"
    and "domerror_in (es_domains st ! i) eno"
    and "gfarm_error_domain_map (es_domains st ! i) eno
           = ed_offset (es_domains st ! i) + (eno - ed_domerror_min (es_domains st ! i))"
  shows "gfarm_error_string st (gfarm_error_domain_map (es_domains st ! i) eno)
           = ed_to_message (es_domains st ! i) (ed_cookie (es_domains st ! i)) eno"
proof -
  let ?d = "es_domains st ! i" and ?k = "eno - ed_domerror_min (es_domains st ! i)"
  have ch: "domains_chained GFARM_ERR_FOREIGN_BEGIN (es_domains st)"
    using error_reach_inv [OF assms(1)] by (simp add: error_inv_def)
  have k: "0 \<le> ?k" "?k < ed_domerror_number ?d" using assms(3) by (auto simp: domerror_in_def)
  have "gfarm_error_domain_search st (ed_offset ?d + ?k) = Some ?d"
    using domains_search_finds [OF ch assms(2) k] by (simp add: gfarm_error_domain_search_def)
  moreover have "GFARM_ERR_FOREIGN_BEGIN \<le> ed_offset ?d"
    using domains_chained_nth [OF ch assms(2)] by simp
  ultimately show ?thesis using assms(4) k by (simp add: gfarm_error_string_def)
qed

text \<open>The code intervals of two domains never share a code, and all of them lie between
  \<open>GFARM_ERR_FOREIGN_BEGIN\<close> and \<open>GFARM_ERR_PRIVATE_BEGIN\<close>, so that they never collide with
  the fixed codes or the private ranges.\<close>

theorem foreign_codes_disjoint:
  assumes "error_reach st" and "i < j" and "j < length (es_domains st)"
  shows "GFARM_ERR_FOREIGN_BEGIN \<le> ed_offset (es_domains st ! i)
    \<and> ed_offset (es_domains st ! i) + ed_domerror_number (es_domains st ! i)
        \<le> ed_offset (es_domains st ! j)
    \<and> ed_offset (es_domains st ! j) + ed_domerror_number (es_domains st ! j)
        \<le> GFARM_ERR_PRIVATE_BEGIN
    \<and> (\<forall>d \<in> set (es_ranges st). GFARM_ERR_PRIVATE_BEGIN \<le> ed_offset d)"
proof -
  have inv: "error_inv st" by (rule error_reach_inv [OF assms(1)])
  then have ch: "domains_chained GFARM_ERR_FOREIGN_BEGIN (es_domains st)"
    by (simp add: error_inv_def)
  have "\<forall>d \<in> set (es_ranges st). GFARM_ERR_PRIVATE_BEGIN \<le> ed_offset d"
    using inv by (auto simp: error_inv_def range_ok_def)
  with domains_disjoint [OF ch assms(2,3)] domains_chained_nth [OF ch, of i]
    domains_chained_nth [OF ch assms(3)] assms(2,3)
  show ?thesis by simp
qed

text \<open>C4: a Unix error number of the table is translated to a Gfarm code below
  \<open>GFARM_ERR_NUMBER\<close> that \<open>gfarm_error_to_errno\<close> translates back to the same number; the
  answer is the same at every later call; and success is the code of 0 only.\<close>

theorem errno_roundtrip:
  assumes "error_reach st" and "es_errno_domain st = None" and "EDQUOT \<le> n"
    and "gfarm_errno_to_error mal strerror n st eno = Some (st', e)"
    and "eno \<in> fst ` set gfarm_errno_error_map_table"
  shows "gfarm_error_to_errno e = eno \<and> 0 \<le> e \<and> e < GFARM_ERR_NUMBER
    \<and> (e = GFARM_ERR_NO_ERROR \<longleftrightarrow> eno = 0)
    \<and> gfarm_errno_to_error mal strerror n st' eno = Some (st', e)"
proof -
  have n: "0 \<le> n" using assms(3) by simp
  note code = errno_to_error_code [OF error_reach_inv [OF assms(1)] n assms(2,4)]
  from assms(5) obtain e0 where m: "map_of gfarm_errno_error_map_table eno = Some e0"
    by (metis map_of_eq_None_iff not_Some_eq)
  note table_map_of [OF m]
  moreover from this assms(3) m code have "e = e0" by (simp add: errno_code_def)
  ultimately show ?thesis using code error_to_errno_of [OF m] by simp
qed

text \<open>The overlap test of \<open>gfarm_error_range_alloc\<close> is one too narrow: a new range that
  begins at the last code of an existing range is accepted, and from then on the message of
  that code is the new range's.\<close>

theorem range_alloc_overlap_accepted:
  assumes "error_inv st" and "es_ranges st = [d]"
    and "lo = ed_offset d + ed_domerror_number d - 1" and "lo \<le> hi"
  shows "\<exists>st'. gfarm_error_range_alloc True st lo hi msg c
        = (st', GFARM_ERR_NO_ERROR, Some (In_ranges 1))
      \<and> gfarm_error_string st lo = ed_to_message d (ed_cookie d) lo
      \<and> gfarm_error_string st' lo = msg c lo"
proof -
  have d: "range_ok d" using assms(1,2) by (simp add: error_inv_def)
  then have lo: "GFARM_ERR_PRIVATE_BEGIN \<le> lo" using assms(3) by (simp add: range_ok_def domain_ok_def)
  have ch: "domains_chained GFARM_ERR_FOREIGN_BEGIN (es_domains st)"
    using assms(1) by (simp add: error_inv_def)
  have none: "domains_search (es_domains st) lo = None"
    by (rule domains_search_above [OF ch lo])
  let ?new = "\<lparr>ed_offset = lo, ed_domerror_min = lo, ed_domerror_number = hi - lo + 1,
    ed_map_to_gfarm = None, ed_to_message = msg, ed_cookie = c\<rparr>"
  let ?st' = "st\<lparr>es_ranges := [?new, d]\<rparr>"
  have "gfarm_error_range_alloc True st lo hi msg c
      = (?st', GFARM_ERR_NO_ERROR, Some (In_ranges 1))"
    using assms lo by (simp add: gfarm_error_range_alloc_def range_overlap_test_def)
  moreover have "gfarm_error_string st lo = ed_to_message d (ed_cookie d) lo"
  proof -
    have "gfarm_error_domain_search st lo = Some d"
      using none assms(2,3) d
      by (simp add: gfarm_error_domain_search_def range_ok_def domain_ok_def)
    moreover have "ed_domerror_min d + (lo - ed_offset d) = lo" using d by (simp add: range_ok_def)
    ultimately show ?thesis using lo by (simp add: gfarm_error_string_def)
  qed
  moreover have "gfarm_error_string ?st' lo = msg c lo"
    using none assms(4) lo by (simp add: gfarm_error_string_def gfarm_error_domain_search_def)
  ultimately show ?thesis by blast
qed


subsection \<open>Witnesses\<close>

definition sample_errors :: error_state where
  "sample_errors =
     (let (st1, _, _) = gfarm_error_domain_alloc error_state0 1 5 (\<lambda>_ _. ''ldap'') 0;
          (st2, _, _) = gfarm_error_domain_alloc st1 10 19 (\<lambda>_ _. ''gsi'') 0;
          (st3, _, _) = gfarm_error_range_alloc True st2 1879048192 1879048200 (\<lambda>_ _. ''pg'') 0
      in st3)"

lemma sample_errors_reach: "error_reach sample_errors"
proof -
  let ?a1 = "gfarm_error_domain_alloc error_state0 1 5 (\<lambda>_ _. ''ldap'') 0"
  let ?a2 = "gfarm_error_domain_alloc (fst ?a1) 10 19 (\<lambda>_ _. ''gsi'') 0"
  let ?a3 = "gfarm_error_range_alloc True (fst ?a2) 1879048192 1879048200 (\<lambda>_ _. ''pg'') 0"
  have 1: "error_reach (fst ?a1)"
    by (rule error_reach.domain [OF error_reach.start, of 1 5 _ _ _ "fst (snd ?a1)" "snd (snd ?a1)"])
      simp_all
  have 2: "error_reach (fst ?a2)"
    by (rule error_reach.domain [OF 1, of 10 19 _ _ _ "fst (snd ?a2)" "snd (snd ?a2)"]) simp_all
  have "error_reach (fst ?a3)"
    by (rule error_reach.range [OF 2, of True 1879048192 1879048200 _ _ _ "fst (snd ?a3)"
          "snd (snd ?a3)"]) simp
  then show ?thesis by (simp add: sample_errors_def split_def)
qed

lemma sample_errors_eq:
  "sample_errors = \<lparr>es_domains =
     [\<lparr>ed_offset = 65536, ed_domerror_min = 1, ed_domerror_number = 5, ed_map_to_gfarm = None,
       ed_to_message = \<lambda>_ _. ''ldap'', ed_cookie = 0\<rparr>,
      \<lparr>ed_offset = 65541, ed_domerror_min = 10, ed_domerror_number = 10, ed_map_to_gfarm = None,
       ed_to_message = \<lambda>_ _. ''gsi'', ed_cookie = 0\<rparr>],
     es_ranges =
     [\<lparr>ed_offset = 1879048192, ed_domerror_min = 1879048192, ed_domerror_number = 9,
       ed_map_to_gfarm = None, ed_to_message = \<lambda>_ _. ''pg'', ed_cookie = 0\<rparr>],
     es_errno_domain = None\<rparr>"
  by (simp add: sample_errors_def gfarm_error_domain_alloc_def gfarm_error_range_alloc_def
      error_state0_def Let_def)

theorem foreign_code_message_witness:
  "gfarm_error_string sample_errors (gfarm_error_domain_map (es_domains sample_errors ! 1) 12) = ''gsi''"
proof -
  have "gfarm_error_string sample_errors (gfarm_error_domain_map (es_domains sample_errors ! 1) 12)
      = ed_to_message (es_domains sample_errors ! 1) (ed_cookie (es_domains sample_errors ! 1)) 12"
    by (rule foreign_code_message [OF sample_errors_reach])
      (simp_all add: sample_errors_eq domerror_in_def gfarm_error_domain_map_def)
  then show ?thesis by (simp add: sample_errors_eq)
qed

theorem foreign_codes_disjoint_witness:
  "ed_offset (es_domains sample_errors ! 0) + ed_domerror_number (es_domains sample_errors ! 0)
     \<le> ed_offset (es_domains sample_errors ! 1)"
  using foreign_codes_disjoint [OF sample_errors_reach, of 0 1] by (simp add: sample_errors_eq)

theorem errno_roundtrip_witness:
  "\<exists>st' e. gfarm_errno_to_error (\<lambda>_. True) (\<lambda>_. ''message'') 256 sample_errors ENOENT = Some (st', e)
     \<and> gfarm_error_to_errno e = ENOENT"
proof -
  have m: "gfarm_malloc_array (\<lambda>_. True) (word_of_int (256 + 1)) 4 \<noteq> None"
    by (simp add: gfarm_malloc_array_def gfarm_size_mul_def Let_def)
  obtain st' e where
    run: "gfarm_errno_to_error (\<lambda>_. True) (\<lambda>_. ''message'') 256 sample_errors ENOENT = Some (st', e)"
    using errno_to_error_total [OF error_reach_inv [OF sample_errors_reach] _ _ _ _ m]
    by (fastforce simp: sample_errors_eq)
  have "ENOENT \<in> fst ` set gfarm_errno_error_map_table"
    by (simp add: gfarm_errno_error_map_table_def)
  with errno_roundtrip [OF sample_errors_reach _ _ run] run show ?thesis
    by (simp add: sample_errors_eq)
qed

theorem range_alloc_overlap_accepted_witness:
  "\<exists>st'. gfarm_error_range_alloc True sample_errors 1879048200 1879048210 (\<lambda>_ _. ''new'') 0
        = (st', GFARM_ERR_NO_ERROR, Some (In_ranges 1))
      \<and> gfarm_error_string sample_errors 1879048200 = ''pg''
      \<and> gfarm_error_string st' 1879048200 = ''new''"
  using range_alloc_overlap_accepted [OF error_reach_inv [OF sample_errors_reach],
      of "es_ranges sample_errors ! 0" 1879048200 1879048210 "\<lambda>_ _. ''new''" 0]
  by (simp add: sample_errors_eq)

end
