(* ===== verification/Io_Fd.thy ===== *)
theory Io_Fd
  imports Iobuffer_Stream Liberror_Spec
begin

text \<open>
  \<open>gfarm/io_fd.c\<close>: the functions behind the hooks of a buffer, over \<open>read\<close>(2) and \<open>send\<close>(2).

  The system calls are those of POSIX. The world is one connection: the bytes the peer
  has still to deliver (\<open>fw_in\<close>, followed by its end of file), the bytes it has been given
  (\<open>fw_out\<close>), and a script of what the coming system calls will do: \<open>Sys_move k\<close> transfers at
  most \<open>k + 1\<close> bytes (a short transfer), \<open>Sys_fail k\<close> is -1 with \<open>errno\<close> = \<open>k + 1\<close>; when the script
  is used up, calls transfer all they can. So a script describes every finite pattern of
  interruptions, refusals and short transfers, and \<open>EINTR\<close> and \<open>EAGAIN\<close> cannot go on forever.
  \<open>poll\<close>(2) returns when the descriptor is ready; the code ignores what it returns.
\<close>

subsection \<open>System calls\<close>

datatype sys_event = Sys_move nat | Sys_fail nat

record fd_world =
  fw_in :: "byte list"
  fw_out :: "byte list"
  fw_rd :: "sys_event list"
  fw_wr :: "sys_event list"
  fw_close :: "nat option"

definition sys_read :: "int \<Rightarrow> int \<Rightarrow> fd_world \<Rightarrow> (int + byte list) \<times> fd_world" where
  "sys_read fd n w =
     (case fw_rd w of
        Sys_fail k # evs \<Rightarrow> (Inl (int k + 1), w\<lparr>fw_rd := evs\<rparr>)
      | Sys_move k # evs \<Rightarrow>
          (Inr (take (min (Suc k) (nat n)) (fw_in w)),
           w\<lparr>fw_in := drop (min (Suc k) (nat n)) (fw_in w), fw_rd := evs\<rparr>)
      | [] \<Rightarrow> (Inr (take (nat n) (fw_in w)), w\<lparr>fw_in := drop (nat n) (fw_in w)\<rparr>))"

definition sys_send :: "int \<Rightarrow> byte list \<Rightarrow> fd_world \<Rightarrow> (int + nat) \<times> fd_world" where
  "sys_send fd data w =
     (case fw_wr w of
        Sys_fail k # evs \<Rightarrow> (Inl (int k + 1), w\<lparr>fw_wr := evs\<rparr>)
      | Sys_move k # evs \<Rightarrow>
          (Inr (min (Suc k) (length data)),
           w\<lparr>fw_out := fw_out w @ take (Suc k) data, fw_wr := evs\<rparr>)
      | [] \<Rightarrow> (Inr (length data), w\<lparr>fw_out := fw_out w @ data\<rparr>))"

text \<open>
  \<open>gfarm_send_no_sigpipe\<close> of \<open>gfutil/send_no_sigpipe.c\<close>: with \<open>MSG_NOSIGNAL\<close> it is \<open>send\<close>.
\<close>

definition gfarm_send_no_sigpipe :: "int \<Rightarrow> byte list \<Rightarrow> fd_world \<Rightarrow> (int + nat) \<times> fd_world" where
  "gfarm_send_no_sigpipe fd data w = sys_send fd data w"

text \<open>
  \<open>gfarm_errno_to_error\<close> once the first domain, registered for \<open>ERRNO_NUMBER\<close> = 256, is that of
  the Unix error numbers (\<open>Liberror_Spec.errno_to_error_code\<close>).
\<close>

definition errno_error :: "int \<Rightarrow> gfarm_error_t" where
  "errno_error eno = errno_code GFARM_ERR_FOREIGN_BEGIN 256 eno"

lemma errno_error_nonzero: "0 < eno \<Longrightarrow> errno_error eno \<noteq> GFARM_ERR_NO_ERROR"
  using table_map_of [of eno] by (auto simp: errno_error_def errno_code_def split: option.splits)

lemma errno_error_is_liberror:
  assumes "error_inv st" and "es_domains st = []" and "es_errno_domain st = None"
    and "gfarm_errno_to_error mal strerror 256 st eno = Some (st', e)"
  shows "e = errno_error eno"
  using errno_to_error_code [OF assms(1) _ assms(3,4)] assms(2) by (simp add: errno_error_def)

subsection \<open>Nonblocking operations\<close>

definition gfarm_iobuffer_nonblocking_read_fd_op :: "fd_world read_hook" where
  "gfarm_iobuffer_nonblocking_read_fd_op cookie fd n w =
     (case sys_read fd n w of
        (Inl errno, w') \<Rightarrow> (Io_err (errno_error errno), w')
      | (Inr bs, w') \<Rightarrow> (Io_got bs, w'))"

definition gfarm_iobuffer_nonblocking_write_socket_op :: "fd_world write_hook" where
  "gfarm_iobuffer_nonblocking_write_socket_op cookie fd data w =
     (case gfarm_send_no_sigpipe fd data w of
        (Inl errno, w') \<Rightarrow> (Io_fail (errno_error errno), w')
      | (Inr k, w') \<Rightarrow> (Io_put k, w'))"

text \<open>\<open>write\<close>(2) on the connection moves bytes as \<open>send\<close> does.\<close>

definition gfarm_iobuffer_nonblocking_write_fd_op :: "fd_world write_hook" where
  "gfarm_iobuffer_nonblocking_write_fd_op cookie fd data w =
     (case sys_send fd data w of
        (Inl errno, w') \<Rightarrow> (Io_fail (errno_error errno), w')
      | (Inr k, w') \<Rightarrow> (Io_put k, w'))"

definition gfarm_iobuffer_set_nonblocking_write_fd :: "fd_world iobuffer \<Rightarrow> int \<Rightarrow> fd_world iobuffer" where
  "gfarm_iobuffer_set_nonblocking_write_fd b fd =
     gfarm_iobuffer_set_write b gfarm_iobuffer_nonblocking_write_fd_op 0 fd"

definition gfarm_iobuffer_set_nonblocking_read_fd :: "fd_world iobuffer \<Rightarrow> int \<Rightarrow> fd_world iobuffer" where
  "gfarm_iobuffer_set_nonblocking_read_fd b fd =
     gfarm_iobuffer_set_read b gfarm_iobuffer_nonblocking_read_fd_op 0 fd"

definition gfp_iobuffer_close_fd_op :: "nat \<Rightarrow> int \<Rightarrow> fd_world \<Rightarrow> gfarm_error_t \<times> fd_world" where
  "gfp_iobuffer_close_fd_op cookie fd w =
     (case fw_close w of
        Some k \<Rightarrow> (errno_error (int k + 1), w)
      | None \<Rightarrow> (GFARM_ERR_NO_ERROR, w))"

definition gfp_iobuffer_export_credential_fd_op :: "nat \<Rightarrow> fd_world \<Rightarrow> gfarm_error_t \<times> fd_world" where
  "gfp_iobuffer_export_credential_fd_op cookie w = (GFARM_ERR_NO_ERROR, w)"

definition gfp_iobuffer_delete_credential_fd_op ::
  "nat \<Rightarrow> int \<Rightarrow> fd_world \<Rightarrow> gfarm_error_t \<times> fd_world" where
  "gfp_iobuffer_delete_credential_fd_op cookie sighandler w = (GFARM_ERR_NO_ERROR, w)"

definition gfp_iobuffer_env_for_credential_fd_op :: "nat \<Rightarrow> string option" where
  "gfp_iobuffer_env_for_credential_fd_op cookie = None"

subsection \<open>Blocking operations\<close>

function gfarm_iobuffer_blocking_read_fd_op :: "fd_world read_hook" where
  "gfarm_iobuffer_blocking_read_fd_op cookie fd n w =
     (case sys_read fd n w of
        (Inl errno, w') \<Rightarrow>
          if errno = EINTR then gfarm_iobuffer_blocking_read_fd_op cookie fd n w'
          else if errno = EAGAIN then gfarm_iobuffer_blocking_read_fd_op cookie fd n w'
          else (Io_err (errno_error errno), w')
      | (Inr bs, w') \<Rightarrow> (Io_got bs, w'))"
  by pat_completeness auto
termination
  by (relation "measure (\<lambda>(c, fd, n, w). length (fw_rd w))")
    (auto simp: sys_read_def split: list.splits sys_event.splits)

function gfarm_iobuffer_blocking_write_socket_op :: "fd_world write_hook" where
  "gfarm_iobuffer_blocking_write_socket_op cookie fd data w =
     (case gfarm_send_no_sigpipe fd data w of
        (Inl errno, w') \<Rightarrow>
          if errno = EINTR then gfarm_iobuffer_blocking_write_socket_op cookie fd data w'
          else if errno = EAGAIN then gfarm_iobuffer_blocking_write_socket_op cookie fd data w'
          else (Io_fail (errno_error errno), w')
      | (Inr k, w') \<Rightarrow> (Io_put k, w'))"
  by pat_completeness auto
termination
  by (relation "measure (\<lambda>(c, fd, data, w). length (fw_wr w))")
    (auto simp: gfarm_send_no_sigpipe_def sys_send_def split: list.splits sys_event.splits)

declare gfarm_iobuffer_blocking_read_fd_op.simps [simp del]
  gfarm_iobuffer_blocking_write_socket_op.simps [simp del]

subsection \<open>The contracts\<close>

lemma sys_read_Inr:
  "0 < n \<Longrightarrow> sys_read fd n w = (Inr bs, w') \<Longrightarrow>
     int (length bs) \<le> n \<and> fw_in w = bs @ fw_in w' \<and> (bs = [] \<longrightarrow> fw_in w = [])"
  by (auto simp: sys_read_def split: list.splits sys_event.splits)

lemma sys_read_Inl:
  "sys_read fd n w = (Inl e, w') \<Longrightarrow> fw_in w' = fw_in w \<and> 0 < e"
  by (auto simp: sys_read_def split: list.splits sys_event.splits)

lemma send_Inr:
  "data \<noteq> [] \<Longrightarrow> gfarm_send_no_sigpipe fd data w = (Inr k, w') \<Longrightarrow>
     0 < k \<and> k \<le> length data \<and> fw_out w' = fw_out w @ take k data"
  by (auto simp: min_def gfarm_send_no_sigpipe_def sys_send_def split: list.splits sys_event.splits)

lemma send_Inl:
  "gfarm_send_no_sigpipe fd data w = (Inl e, w') \<Longrightarrow> fw_out w' = fw_out w \<and> 0 < e"
  by (auto simp: gfarm_send_no_sigpipe_def sys_send_def split: list.splits sys_event.splits)

lemma blocking_read_spec:
  "0 < n \<Longrightarrow> gfarm_iobuffer_blocking_read_fd_op c fd n w = (rv, w') \<Longrightarrow>
     (case rv of
        Io_got bs \<Rightarrow> int (length bs) \<le> n \<and> fw_in w = bs @ fw_in w' \<and> (bs = [] \<longrightarrow> fw_in w = [])
      | Io_err e \<Rightarrow> fw_in w' = fw_in w \<and> e \<noteq> GFARM_ERR_NO_ERROR)"
proof (induction c fd n w rule: gfarm_iobuffer_blocking_read_fd_op.induct)
  case (1 c fd n w)
  note unf = "1.prems"(2) [unfolded gfarm_iobuffer_blocking_read_fd_op.simps [of c fd n w]]
  obtain r w1 where s: "sys_read fd n w = (r, w1)" by fastforce
  show ?case
  proof (cases r)
    case (Inl e)
    note in1 = sys_read_Inl [OF s [unfolded Inl]]
    show ?thesis
    proof (cases "e = EINTR \<or> e = EAGAIN")
      case True
      with unf s Inl have "gfarm_iobuffer_blocking_read_fd_op c fd n w1 = (rv, w')" by auto
      with "1.IH" [OF s [symmetric] Inl] "1.prems"(1) True in1 show ?thesis
        by (auto split: io_in.splits)
    next
      case False
      with unf s Inl in1 errno_error_nonzero show ?thesis by auto
    qed
  next
    case (Inr bs)
    with unf s sys_read_Inr [OF "1.prems"(1) s [unfolded Inr]] show ?thesis by auto
  qed
qed

lemma blocking_write_spec:
  "data \<noteq> [] \<Longrightarrow> gfarm_iobuffer_blocking_write_socket_op c fd data w = (rv, w') \<Longrightarrow>
     (case rv of
        Io_put k \<Rightarrow> 0 < k \<and> k \<le> length data \<and> fw_out w' = fw_out w @ take k data
      | Io_fail e \<Rightarrow> fw_out w' = fw_out w \<and> e \<noteq> GFARM_ERR_NO_ERROR)"
proof (induction c fd data w rule: gfarm_iobuffer_blocking_write_socket_op.induct)
  case (1 c fd data w)
  note unf = "1.prems"(2) [unfolded gfarm_iobuffer_blocking_write_socket_op.simps [of c fd data w]]
  obtain r w1 where s: "gfarm_send_no_sigpipe fd data w = (r, w1)" by fastforce
  show ?case
  proof (cases r)
    case (Inl e)
    note out1 = send_Inl [OF s [unfolded Inl]]
    show ?thesis
    proof (cases "e = EINTR \<or> e = EAGAIN")
      case True
      with unf s Inl have "gfarm_iobuffer_blocking_write_socket_op c fd data w1 = (rv, w')" by auto
      with "1.IH" [OF s [symmetric] Inl] "1.prems"(1) True out1 show ?thesis
        by (auto split: io_out.splits)
    next
      case False
      with unf s Inl out1 errno_error_nonzero show ?thesis by auto
    qed
  next
    case (Inr k)
    with unf s send_Inr [OF "1.prems"(1) s [unfolded Inr]] show ?thesis by auto
  qed
qed

text \<open>The worlds in which nothing but interruptions happens.\<close>

definition transient :: "sys_event \<Rightarrow> bool" where
  "transient ev \<longleftrightarrow> (case ev of Sys_move k \<Rightarrow> True
     | Sys_fail k \<Rightarrow> int k + 1 = EINTR \<or> int k + 1 = EAGAIN)"

definition fd_calm :: "fd_world \<Rightarrow> bool" where
  "fd_calm w \<longleftrightarrow> list_all transient (fw_rd w) \<and> list_all transient (fw_wr w)"

lemma blocking_read_calm:
  "fd_calm w \<Longrightarrow> \<exists>bs w'. gfarm_iobuffer_blocking_read_fd_op c fd n w = (Io_got bs, w') \<and> fd_calm w'"
proof (induction c fd n w rule: gfarm_iobuffer_blocking_read_fd_op.induct)
  case (1 c fd n w)
  note simps = gfarm_iobuffer_blocking_read_fd_op.simps [of c fd n w]
  obtain r w1 where s: "sys_read fd n w = (r, w1)" by fastforce
  have w1: "fd_calm w1" and r: "\<And>e. r = Inl e \<Longrightarrow> e = EINTR \<or> e = EAGAIN"
    using s "1.prems"
    by (auto simp: sys_read_def fd_calm_def transient_def split: list.splits sys_event.splits)
  show ?case
  proof (cases r)
    case (Inl e)
    with "1.IH" [OF s [symmetric] Inl] r [OF Inl] w1 s show ?thesis by (auto simp: simps)
  next
    case (Inr bs)
    with s w1 show ?thesis by (simp add: simps)
  qed
qed

lemma blocking_write_calm:
  "fd_calm w \<Longrightarrow> \<exists>k w'. gfarm_iobuffer_blocking_write_socket_op c fd data w = (Io_put k, w') \<and> fd_calm w'"
proof (induction c fd data w rule: gfarm_iobuffer_blocking_write_socket_op.induct)
  case (1 c fd data w)
  note simps = gfarm_iobuffer_blocking_write_socket_op.simps [of c fd data w]
  obtain r w1 where s: "gfarm_send_no_sigpipe fd data w = (r, w1)" by fastforce
  have w1: "fd_calm w1" and r: "\<And>e. r = Inl e \<Longrightarrow> e = EINTR \<or> e = EAGAIN"
    using s "1.prems"
    by (auto simp: gfarm_send_no_sigpipe_def sys_send_def fd_calm_def transient_def
        split: list.splits sys_event.splits)
  show ?case
  proof (cases r)
    case (Inl e)
    with "1.IH" [OF s [symmetric] Inl] r [OF Inl] w1 s show ?thesis by (auto simp: simps)
  next
    case (Inr k)
    with s w1 show ?thesis by (simp add: simps)
  qed
qed

interpretation nbr: io_source gfarm_iobuffer_nonblocking_read_fd_op fw_in
proof (unfold_locales, goal_cases)
  case (1 n c fd w bs w')
  then show ?case using sys_read_Inr [of n fd w]
    by (auto simp: gfarm_iobuffer_nonblocking_read_fd_op_def split: prod.splits sum.splits)
next
  case (2 n c fd w e w')
  then show ?case using sys_read_Inl [of fd n w] errno_error_nonzero
    by (fastforce simp: gfarm_iobuffer_nonblocking_read_fd_op_def split: prod.splits sum.splits)
qed

interpretation nbw: progress_sink gfarm_iobuffer_nonblocking_write_socket_op fw_out
proof (unfold_locales, goal_cases)
  case (1 data c fd w k w')
  then show ?case using send_Inr [of data fd w]
    by (auto simp: gfarm_iobuffer_nonblocking_write_socket_op_def split: prod.splits sum.splits)
next
  case (2 data c fd w e w')
  then show ?case using send_Inl [of fd data w] errno_error_nonzero
    by (fastforce simp: gfarm_iobuffer_nonblocking_write_socket_op_def split: prod.splits sum.splits)
next
  case (3 data c fd w k w')
  then show ?case using send_Inr [of data fd w]
    by (auto simp: gfarm_iobuffer_nonblocking_write_socket_op_def split: prod.splits sum.splits)
qed

interpretation bkr: reliable_source gfarm_iobuffer_blocking_read_fd_op fw_in fd_calm
proof (unfold_locales, goal_cases)
  case (1 n c fd w bs w')
  then show ?case using blocking_read_spec [of n c fd w "Io_got bs" w'] by auto
next
  case (2 n c fd w e w')
  then show ?case using blocking_read_spec [of n c fd w "Io_err e" w'] by simp
next
  case (3 n w c fd)
  then show ?case using blocking_read_calm by blast
qed

interpretation bkw: reliable_sink gfarm_iobuffer_blocking_write_socket_op fw_out fd_calm
proof (unfold_locales, goal_cases)
  case (1 data c fd w k w')
  then show ?case using blocking_write_spec [of data c fd w "Io_put k" w'] by simp
next
  case (2 data c fd w e w')
  then show ?case using blocking_write_spec [of data c fd w "Io_fail e" w'] by simp
next
  case (3 data c fd w k w')
  then show ?case using blocking_write_spec [of data c fd w "Io_put k" w'] by simp
next
  case (4 data w c fd)
  then show ?case using blocking_write_calm by blast
qed

subsection \<open>Properties\<close>

text \<open>A blocking read through the buffer delivers exactly the next \<open>r\<close> bytes of the stream
  (what was buffered, then what the peer sends), fewer only at the end of the stream, whatever
  the pattern of short reads, \<open>EINTR\<close> and \<open>EAGAIN\<close>; nothing is skipped; and with \<open>just\<close> set it
  takes nothing from the descriptor beyond the request.\<close>

theorem blocking_read_exact:
  assumes "iob_ok b" and "ib_read_func b = gfarm_iobuffer_blocking_read_fd_op"
    and "ib_write_close_func b = gfarm_iobuffer_write_close_nop"
    and "ib_error b = GFARM_ERR_NO_ERROR" and "fd_calm w"
    and "gfarm_iobuffer_get_read_x b r just w = (b', ds, w')"
  shows "ds = take (nat r) (iob_content b @ fw_in w)
    \<and> iob_content b' @ fw_in w' = drop (nat r) (iob_content b @ fw_in w)
    \<and> ib_error b' = GFARM_ERR_NO_ERROR
    \<and> (just \<and> iob_content b = [] \<longrightarrow> iob_content b' = [])"
  using bkr.get_read_x_exact [OF assms(1,2) _ assms(5) _ assms(4,6)] assms(3) by simp

text \<open>C5: \<open>gfarm_iobuffer_flush_write\<close> on a blocking socket always returns, and no byte is lost or
  repeated: what the peer has received followed by what is still buffered is what it was
  before, and if no error has been recorded, nothing is left in the buffer.\<close>

theorem flush_write_no_loss:
  assumes "iob_ok b" and "ib_write_func b = gfarm_iobuffer_blocking_write_socket_op"
    and "ib_write_close_func b = gfarm_iobuffer_write_close_nop"
  shows "\<exists>b' w'. gfarm_iobuffer_flush_write b w = Some (b', w')
     \<and> fw_out w' @ iob_content b' = fw_out w @ iob_content b
     \<and> (ib_error b' = GFARM_ERR_NO_ERROR \<longrightarrow> iob_content b' = [])"
  using bkw.flush_write_returns [OF assms(1,2)] assms(3) by fastforce

text \<open>Writing through the buffer and flushing delivers all of the data to the peer, in order and
  once, when the system calls only interrupt or transfer short.\<close>

theorem put_write_flush_delivers:
  assumes "iob_ok b" and "ib_write_func b = gfarm_iobuffer_blocking_write_socket_op"
    and "ib_write_close_func b = gfarm_iobuffer_write_close_nop"
    and "ib_error b = GFARM_ERR_NO_ERROR" and "fd_calm w"
    and "gfarm_iobuffer_put_write b data w = (b1, n, w1)"
  shows "n = int (length data)
    \<and> (\<exists>b2 w2. gfarm_iobuffer_flush_write b1 w1 = Some (b2, w2)
         \<and> fw_out w2 = fw_out w @ iob_content b @ data \<and> iob_content b2 = []
         \<and> ib_error b2 = GFARM_ERR_NO_ERROR)"
proof -
  note p = bkw.put_write_all [OF assms(1,2) _ assms(5,6)]
  then have p: "n = int (length data)" "ib_error b1 = ib_error b" "fd_calm w1" "iob_ok b1"
    "iob_frame b1 = iob_frame b" "fw_out w1 @ iob_content b1 = fw_out w @ iob_content b @ data"
    using assms(3) by simp_all
  from frame_fields [OF p(5)] assms(2,3)
  have "ib_write_func b1 = gfarm_iobuffer_blocking_write_socket_op" "close_keeps fw_out b1"
    by simp_all
  from bkw.flush_write_delivers [OF p(4) this _ p(3)] p assms(4) show ?thesis by fastforce
qed

subsection \<open>Witnesses\<close>

definition sample_world :: fd_world where
  "sample_world = \<lparr>fw_in = [1, 2, 3], fw_out = [],
     fw_rd = [Sys_fail 3, Sys_move 0, Sys_fail 10], fw_wr = [Sys_fail 10, Sys_move 1], fw_close = None\<rparr>"

definition sample_fd_iobuffer :: "fd_world iobuffer" where
  "sample_fd_iobuffer =
     \<lparr>ib_buffer = (\<lambda>i. 7), ib_bufsize = 2, ib_head = 0, ib_tail = 1,
      ib_read_func = gfarm_iobuffer_blocking_read_fd_op, ib_read_cookie = 0, ib_read_fd = 5,
      ib_write_func = gfarm_iobuffer_blocking_write_socket_op, ib_write_cookie = 0,
      ib_write_fd = 5, ib_write_close_func = gfarm_iobuffer_write_close_nop,
      ib_read_eof = False, ib_write_eof = False, ib_error = 0\<rparr>"

lemma sample_fd_ok: "iob_ok sample_fd_iobuffer" "fd_calm sample_world"
  "iob_content sample_fd_iobuffer = [7]"
  by (simp_all add: sample_fd_iobuffer_def iob_ok_def sample_world_def fd_calm_def transient_def
      iob_content_def)

theorem blocking_read_exact_witness:
  "\<exists>b' w'. gfarm_iobuffer_get_read_x sample_fd_iobuffer 3 True sample_world = (b', [7, 1, 2], w')"
proof -
  obtain b' ds w' where
    r: "gfarm_iobuffer_get_read_x sample_fd_iobuffer 3 True sample_world = (b', ds, w')"
    by (cases "gfarm_iobuffer_get_read_x sample_fd_iobuffer 3 True sample_world") auto
  have "ds = [7, 1, 2]"
    using blocking_read_exact [OF sample_fd_ok(1) _ _ _ sample_fd_ok(2) r]
    by (simp add: sample_fd_ok(3)) (simp add: sample_fd_iobuffer_def sample_world_def)
  with r show ?thesis by blast
qed

theorem flush_write_no_loss_witness:
  "\<exists>b' w'. gfarm_iobuffer_flush_write sample_fd_iobuffer sample_world = Some (b', w')
     \<and> fw_out w' @ iob_content b' = [7]"
proof -
  have "\<exists>b' w'. gfarm_iobuffer_flush_write sample_fd_iobuffer sample_world = Some (b', w')
     \<and> fw_out w' @ iob_content b' = fw_out sample_world @ iob_content sample_fd_iobuffer
     \<and> (ib_error b' = GFARM_ERR_NO_ERROR \<longrightarrow> iob_content b' = [])"
    by (rule flush_write_no_loss [OF sample_fd_ok(1)]) (simp_all add: sample_fd_iobuffer_def)
  then show ?thesis by (auto simp: sample_fd_ok(3) sample_world_def)
qed

theorem put_write_flush_delivers_witness:
  "\<exists>b1 w1 b2 w2. gfarm_iobuffer_put_write sample_fd_iobuffer [8, 9, 10] sample_world = (b1, 3, w1)
     \<and> gfarm_iobuffer_flush_write b1 w1 = Some (b2, w2) \<and> fw_out w2 = [7, 8, 9, 10]"
proof -
  obtain b1 n w1 where
    r: "gfarm_iobuffer_put_write sample_fd_iobuffer [8, 9, 10] sample_world = (b1, n, w1)"
    by (cases "gfarm_iobuffer_put_write sample_fd_iobuffer [8, 9, 10] sample_world") auto
  have "n = int (length [8 :: byte, 9, 10])
    \<and> (\<exists>b2 w2. gfarm_iobuffer_flush_write b1 w1 = Some (b2, w2)
         \<and> fw_out w2 = fw_out sample_world @ iob_content sample_fd_iobuffer @ [8, 9, 10]
         \<and> iob_content b2 = [] \<and> ib_error b2 = GFARM_ERR_NO_ERROR)"
    by (rule put_write_flush_delivers [OF sample_fd_ok(1) _ _ _ sample_fd_ok(2) r])
      (simp_all add: sample_fd_iobuffer_def)
  with r show ?thesis by (auto simp: sample_fd_ok(3) sample_world_def)
qed

end
