(* ===== verification/Gfp_Xdr.thy ===== *)
theory Gfp_Xdr
  imports Byte_Order Io_Fd
begin

text \<open>
  \<open>gfarm/gfp_xdr.c\<close>: typed messages over a pair of buffers. A format string says which
  values a message holds; \<open>gfp_xdr_vsend\<close> takes them from a \<open>va_list\<close>, \<open>gfp_xdr_vrecv\<close>
  stores them through the pointers of one.

  A \<open>va_list\<close> of values is a list of \<open>xdr_arg\<close>; a pointer to characters is the block of
  memory from there on. The pointers \<open>gfp_xdr_vrecv\<close> stores through are not
  modelled, but the list of the values stored (\<open>xdr_val\<close>, in the order of the format);
  of its arguments only the buffer sizes of format character \<open>b\<close> remain. \<open>None\<close> is the result of
  a call that does not return or whose behaviour is undefined: an argument that does not fit
  the format, a read outside a block, a flush that never ends, \<open>abort\<close>.
\<close>

subsection \<open>Connections\<close>

record 'w iobuffer_ops =
  op_close :: "nat \<Rightarrow> int \<Rightarrow> 'w \<Rightarrow> gfarm_error_t \<times> 'w"
  op_export_credential :: "nat \<Rightarrow> 'w \<Rightarrow> gfarm_error_t \<times> 'w"
  op_delete_credential :: "nat \<Rightarrow> int \<Rightarrow> 'w \<Rightarrow> gfarm_error_t \<times> 'w"
  op_env_for_credential :: "nat \<Rightarrow> string option"
  op_nonblocking_read :: "'w read_hook"
  op_nonblocking_write :: "'w write_hook"
  op_blocking_read :: "'w read_hook"
  op_blocking_write :: "'w write_hook"

record 'w gfp_xdr =
  recvbuffer :: "'w iobuffer"
  sendbuffer :: "'w iobuffer"
  iob_ops :: "'w iobuffer_ops"
  xdr_cookie :: nat
  xdr_fd :: int

abbreviation (input) GFP_XDR_BUFSIZE :: int where "GFP_XDR_BUFSIZE \<equiv> 16384"

definition gfp_xdr_set :: "'w gfp_xdr \<Rightarrow> 'w iobuffer_ops \<Rightarrow> nat \<Rightarrow> int \<Rightarrow> 'w gfp_xdr" where
  "gfp_xdr_set conn ops cookie fd =
     conn\<lparr>iob_ops := ops, xdr_cookie := cookie, xdr_fd := fd,
          recvbuffer := gfarm_iobuffer_set_read (recvbuffer conn) (op_blocking_read ops) cookie fd,
          sendbuffer := gfarm_iobuffer_set_write (sendbuffer conn) (op_blocking_write ops) cookie fd\<rparr>"

text \<open>
  \<open>malc\<close>, \<open>malr\<close> and \<open>mals\<close> are the outcomes of the three struct allocations, \<open>m0\<close>, \<open>rf0\<close> and \<open>wf0\<close>
  what the fresh buffers hold (see \<open>gfarm_iobuffer_alloc\<close>).
\<close>

definition gfp_xdr_new ::
  "bool \<Rightarrow> bool \<Rightarrow> bool \<Rightarrow> (u64 \<Rightarrow> bool) \<Rightarrow> mem \<Rightarrow> 'w read_hook \<Rightarrow> 'w write_hook
     \<Rightarrow> 'w iobuffer_ops \<Rightarrow> nat \<Rightarrow> int \<Rightarrow> gfarm_error_t + 'w gfp_xdr" where
  "gfp_xdr_new malc malr mals mal m0 rf0 wf0 ops cookie fd =
     (if \<not> malc then Inl GFARM_ERR_NO_MEMORY
      else case gfarm_iobuffer_alloc malr mal m0 rf0 wf0 GFP_XDR_BUFSIZE of
        None \<Rightarrow> Inl GFARM_ERR_NO_MEMORY
      | Some rb \<Rightarrow>
          (case gfarm_iobuffer_alloc mals mal m0 rf0 wf0 GFP_XDR_BUFSIZE of
             None \<Rightarrow> Inl GFARM_ERR_NO_MEMORY
           | Some sb \<Rightarrow>
               Inr (gfp_xdr_set \<lparr>recvbuffer = rb, sendbuffer = sb, iob_ops = ops,
                                 xdr_cookie = cookie, xdr_fd = fd\<rparr> ops cookie fd)))"

definition gfp_xdr_flush :: "'w gfp_xdr \<Rightarrow> 'w \<Rightarrow> ('w gfp_xdr \<times> gfarm_error_t \<times> 'w) option" where
  "gfp_xdr_flush conn w =
     (case gfarm_iobuffer_flush_write (sendbuffer conn) w of
        None \<Rightarrow> None
      | Some (b, w') \<Rightarrow> Some (conn\<lparr>sendbuffer := b\<rparr>, gfarm_iobuffer_get_error b, w'))"

text \<open>\<open>e_save\<close> keeps the error of the flush, but it is the close's \<open>e\<close> that is returned.\<close>

definition gfp_xdr_free :: "'w gfp_xdr \<Rightarrow> 'w \<Rightarrow> (gfarm_error_t \<times> 'w) option" where
  "gfp_xdr_free conn w =
     (case gfp_xdr_flush conn w of
        None \<Rightarrow> None
      | Some (conn1, e_save, w1) \<Rightarrow>
          let (e, w2) = op_close (iob_ops conn) (xdr_cookie conn) (xdr_fd conn) w1;
              e_save' = (if e_save = GFARM_ERR_NO_ERROR then e else e_save)
          in Some (e, w2))"

definition gfp_xdr_cookie :: "'w gfp_xdr \<Rightarrow> nat" where
  "gfp_xdr_cookie conn = xdr_cookie conn"

definition gfp_xdr_fd :: "'w gfp_xdr \<Rightarrow> int" where
  "gfp_xdr_fd conn = xdr_fd conn"

definition gfp_xdr_export_credential :: "'w gfp_xdr \<Rightarrow> 'w \<Rightarrow> gfarm_error_t \<times> 'w" where
  "gfp_xdr_export_credential conn w = op_export_credential (iob_ops conn) (xdr_cookie conn) w"

definition gfp_xdr_delete_credential :: "'w gfp_xdr \<Rightarrow> int \<Rightarrow> 'w \<Rightarrow> gfarm_error_t \<times> 'w" where
  "gfp_xdr_delete_credential conn sighandler w =
     op_delete_credential (iob_ops conn) (xdr_cookie conn) sighandler w"

definition gfp_xdr_env_for_credential :: "'w gfp_xdr \<Rightarrow> string option" where
  "gfp_xdr_env_for_credential conn = op_env_for_credential (iob_ops conn) (xdr_cookie conn)"

definition gfarm_iobuffer_set_nonblocking_read_xxx ::
  "'w iobuffer \<Rightarrow> 'w gfp_xdr \<Rightarrow> 'w iobuffer" where
  "gfarm_iobuffer_set_nonblocking_read_xxx b conn =
     gfarm_iobuffer_set_read b (op_nonblocking_read (iob_ops conn)) (xdr_cookie conn) (xdr_fd conn)"

definition gfarm_iobuffer_set_nonblocking_write_xxx ::
  "'w iobuffer \<Rightarrow> 'w gfp_xdr \<Rightarrow> 'w iobuffer" where
  "gfarm_iobuffer_set_nonblocking_write_xxx b conn =
     gfarm_iobuffer_set_write b (op_nonblocking_write (iob_ops conn)) (xdr_cookie conn) (xdr_fd conn)"

definition gfp_xdr_recv_is_ready :: "'w gfp_xdr \<Rightarrow> bool" where
  "gfp_xdr_recv_is_ready conn \<longleftrightarrow>
     \<not> gfarm_iobuffer_empty (recvbuffer conn) \<or> gfarm_iobuffer_is_eof (recvbuffer conn)"

definition gfp_xdr_purge ::
  "'w gfp_xdr \<Rightarrow> bool \<Rightarrow> int \<Rightarrow> 'w \<Rightarrow> 'w gfp_xdr \<times> gfarm_error_t \<times> 'w" where
  "gfp_xdr_purge conn just len w =
     (let (b, n, w') = gfarm_iobuffer_purge_read_x (recvbuffer conn) len just w
      in (conn\<lparr>recvbuffer := b\<rparr>,
          if n \<noteq> len then GFARM_ERR_UNEXPECTED_EOF else GFARM_ERR_NO_ERROR, w'))"

subsection \<open>Sending\<close>

datatype xdr_arg =
    Arg_int int
  | Arg_int64 u64
  | Arg_size u64
  | Arg_ptr "byte list"
  | Arg_double u64

text \<open>
  What one format character passes to \<open>gfarm_iobuffer_put_write\<close>: the chunks of its calls,
  and the arguments left. \<open>n\<close> is a \<open>gfarm_int32_t\<close>, so a length is truncated to 32 bits, and
  a negative one copies nothing. \<open>strlen\<close> counts up to the first 0 of the block.
\<close>

definition int32_chunk :: "u32 \<Rightarrow> byte list" where
  "int32_chunk i = bytes_of 4 (htonl i)"

definition block_chunk :: "u32 \<Rightarrow> byte list \<Rightarrow> byte list option" where
  "block_chunk n s = (if sint n \<le> int (length s) then Some (take (nat (sint n)) s) else None)"

fun xdr_chunks :: "char \<Rightarrow> xdr_arg list \<Rightarrow> (byte list list \<times> xdr_arg list) option" where
  "xdr_chunks f args =
     (if f = CHR ''c'' then
        (case args of Arg_int x # rest \<Rightarrow> Some ([[word_of_int x]], rest) | _ \<Rightarrow> None)
      else if f = CHR ''h'' then
        (case args of Arg_int x # rest \<Rightarrow> Some ([bytes_of 2 (htons (word_of_int x))], rest) | _ \<Rightarrow> None)
      else if f = CHR ''i'' then
        (case args of Arg_int x # rest \<Rightarrow> Some ([int32_chunk (word_of_int x)], rest) | _ \<Rightarrow> None)
      else if f = CHR ''l'' then
        (case args of
           Arg_int64 x # rest \<Rightarrow>
             let lv0 = htonl (ucast (drop_bit 32 x)); lv1 = htonl (ucast x)
             in Some ([bytes_of 4 lv0 @ bytes_of 4 lv1], rest)
         | _ \<Rightarrow> None)
      else if f = CHR ''s'' then
        (case args of
           Arg_ptr s # rest \<Rightarrow>
             if 0 \<in> set s then
               let n = word_of_nat (length (takeWhile (\<lambda>b. b \<noteq> 0) s))
               in (case block_chunk n s of
                     None \<Rightarrow> None | Some bs \<Rightarrow> Some ([int32_chunk n, bs], rest))
             else None
         | _ \<Rightarrow> None)
      else if f = CHR ''S'' then
        (case args of
           Arg_ptr s # Arg_size z # rest \<Rightarrow>
             (case block_chunk (ucast z) s of
                None \<Rightarrow> None | Some bs \<Rightarrow> Some ([int32_chunk (ucast z), bs], rest))
         | _ \<Rightarrow> None)
      else if f = CHR ''b'' then
        (case args of
           Arg_size z # Arg_ptr s # rest \<Rightarrow>
             (case block_chunk (ucast z) s of
                None \<Rightarrow> None | Some bs \<Rightarrow> Some ([int32_chunk (ucast z), bs], rest))
         | _ \<Rightarrow> None)
      else if f = CHR ''f'' then
        (case args of Arg_double d # rest \<Rightarrow> Some ([swab (bytes_of 8 d)], rest) | _ \<Rightarrow> None)
      else None)"

declare xdr_chunks.simps [simp del]

fun put_chunks :: "'w iobuffer \<Rightarrow> byte list list \<Rightarrow> 'w \<Rightarrow> 'w iobuffer \<times> 'w" where
  "put_chunks b [] w = (b, w)"
| "put_chunks b (c # cs) w =
     (let (b', _, w') = gfarm_iobuffer_put_write b c w in put_chunks b' cs w')"

abbreviation send_formats :: string where "send_formats \<equiv> ''chilsSbf''"

text \<open>\<open>vsend\<close> returns the rest of the format (\<open>*formatp\<close>) and the arguments left (\<open>*app\<close>).\<close>

fun gfp_xdr_vsend ::
  "'w gfp_xdr \<Rightarrow> string \<Rightarrow> xdr_arg list \<Rightarrow> 'w
     \<Rightarrow> ('w gfp_xdr \<times> gfarm_error_t \<times> string \<times> xdr_arg list \<times> 'w) option" where
  "gfp_xdr_vsend conn [] args w =
     Some (conn, gfarm_iobuffer_get_error (sendbuffer conn), [], args, w)"
| "gfp_xdr_vsend conn (f # fmt) args w =
     (if f \<notin> set send_formats
      then Some (conn, gfarm_iobuffer_get_error (sendbuffer conn), f # fmt, args, w)
      else case xdr_chunks f args of
             None \<Rightarrow> None
           | Some (chunks, args') \<Rightarrow>
               let (b, w') = put_chunks (sendbuffer conn) chunks w
               in gfp_xdr_vsend (conn\<lparr>sendbuffer := b\<rparr>) fmt args' w')"

definition gfp_xdr_send ::
  "'w gfp_xdr \<Rightarrow> string \<Rightarrow> xdr_arg list \<Rightarrow> 'w \<Rightarrow> ('w gfp_xdr \<times> gfarm_error_t \<times> 'w) option" where
  "gfp_xdr_send conn fmt args w =
     (case gfp_xdr_vsend conn fmt args w of
        None \<Rightarrow> None
      | Some (conn', e, fmt', args', w') \<Rightarrow>
          Some (conn',
                if e \<noteq> GFARM_ERR_NO_ERROR then e
                else if fmt' \<noteq> [] then GFARM_ERRMSG_GFP_XDR_SEND_INVALID_FORMAT_CHARACTER
                else GFARM_ERR_NO_ERROR, w'))"

subsection \<open>Receiving\<close>

text \<open>
  A value stored for the caller. A string or block is \<open>Val_null\<close> when \<open>malloc\<close> has failed (the
  pointer is \<open>NULL\<close>) and \<open>Val_unset\<close> when the pointer has not been stored at all, because
  \<open>overflow\<close> was set.
\<close>

datatype xdr_val =
    Val_int8 byte
  | Val_int16 u16
  | Val_int32 u32
  | Val_int64 u64
  | Val_str "byte list"
  | Val_null
  | Val_unset
  | Val_size u64
  | Val_block "byte list"
  | Val_double u64

definition recv_bytes ::
  "'w gfp_xdr \<Rightarrow> bool \<Rightarrow> int \<Rightarrow> 'w \<Rightarrow> 'w gfp_xdr \<times> byte list \<times> 'w" where
  "recv_bytes conn just n w =
     (let (b, ds, w') = gfarm_iobuffer_get_read_x (recvbuffer conn) n just w
      in (conn\<lparr>recvbuffer := b\<rparr>, ds, w'))"

text \<open>The 32-bit length in front of a string or block, \<open>None\<close> when it did not arrive.\<close>

definition recv_int32 ::
  "'w gfp_xdr \<Rightarrow> bool \<Rightarrow> 'w \<Rightarrow> 'w gfp_xdr \<times> u32 option \<times> 'w" where
  "recv_int32 conn just w =
     (let (conn', ds, w') = recv_bytes conn just 4 w
      in (conn', if length ds \<noteq> 4 then None else Some (ntohl (of_bytes ds)), w'))"

text \<open>The allocated block of \<open>s\<close> and \<open>B\<close>: \<open>Inl v\<close> when it is not filled, \<open>Inr\<close> its size.\<close>

definition xdr_malloc ::
  "(u64 \<Rightarrow> bool) \<Rightarrow> bool \<Rightarrow> u32 \<Rightarrow> bool \<times> (xdr_val + int)" where
  "xdr_malloc mal overflow i =
     (let (overflow', size) = gfarm_size_add overflow (scast i) 1
      in (overflow',
          if overflow' then Inl Val_unset
          else if gfarm_malloc_array mal size 1 = None then Inl Val_null
          else Inr (sint i)))"

text \<open>
  One format character: the new connection, whether the loop goes on (\<open>False\<close>: the early
  return at the end of file), \<open>overflow\<close>, the values stored, the sizes left, the world.
\<close>

type_synonym 'w recv_state = "'w gfp_xdr \<times> bool \<times> bool \<times> xdr_val list \<times> u64 list \<times> 'w"

definition recv_string ::
  "(u64 \<Rightarrow> bool) \<Rightarrow> (byte list \<Rightarrow> xdr_val) \<Rightarrow> 'w gfp_xdr \<Rightarrow> bool \<Rightarrow> bool \<Rightarrow> u32 \<Rightarrow> u64 list \<Rightarrow> 'w
     \<Rightarrow> 'w recv_state" where
  "recv_string mal mk conn just overflow i szs w =
     (case xdr_malloc mal overflow i of
        (overflow', Inl v) \<Rightarrow> (conn, True, overflow', [v], szs, w)
      | (overflow', Inr n) \<Rightarrow>
          let (conn', ds, w') = recv_bytes conn just n w
          in (conn', int (length ds) = n, overflow', [mk ds], szs, w'))"

definition recv_block ::
  "'w gfp_xdr \<Rightarrow> bool \<Rightarrow> bool \<Rightarrow> u32 \<Rightarrow> u64 \<Rightarrow> u64 list \<Rightarrow> 'w \<Rightarrow> 'w recv_state" where
  "recv_block conn just overflow i sz szs w =
     (let i64 = scast i :: u64
      in if i64 \<le> sz
         then let (conn', ds, w') = recv_bytes conn just (sint i) w
              in (conn', int (length ds) = sint i, overflow, [Val_size i64, Val_block ds], szs, w')
         else
           let (conn1, ds, w1) = recv_bytes conn just (sint (ucast sz :: u32)) w
           in if word_of_nat (length ds) \<noteq> sz
              then (conn1, False, overflow, [Val_size i64, Val_block ds], szs, w1)
              else
                let (b, n, w2) = gfarm_iobuffer_purge_read_x (recvbuffer conn1)
                                   (sint (ucast (i64 - sz) :: u32)) just w1
                in (conn1\<lparr>recvbuffer := b\<rparr>, word_of_int n = i64 - sz, overflow,
                    [Val_size i64, Val_block ds], szs, w2))"

definition recv_fixed ::
  "'w gfp_xdr \<Rightarrow> bool \<Rightarrow> bool \<Rightarrow> int \<Rightarrow> (byte list \<Rightarrow> xdr_val) \<Rightarrow> u64 list \<Rightarrow> 'w \<Rightarrow> 'w recv_state" where
  "recv_fixed conn just overflow n mk szs w =
     (let (conn', ds, w') = recv_bytes conn just n w
      in if int (length ds) \<noteq> n then (conn', False, overflow, [], szs, w')
         else (conn', True, overflow, [mk ds], szs, w'))"

definition int64_value :: "byte list \<Rightarrow> u64" where
  "int64_value ds =
     (let lv0 = ntohl (of_bytes (take 4 ds)); lv1 = ntohl (of_bytes (drop 4 ds))
      in or (push_bit 32 (ucast lv0)) (ucast lv1))"

abbreviation recv_formats :: string where "recv_formats \<equiv> ''chilsbBf''"

definition recv_one ::
  "(u64 \<Rightarrow> bool) \<Rightarrow> 'w gfp_xdr \<Rightarrow> bool \<Rightarrow> bool \<Rightarrow> char \<Rightarrow> u64 list \<Rightarrow> 'w \<Rightarrow> 'w recv_state option" where
  "recv_one mal conn just overflow f szs w =
     (if f = CHR ''c'' then
        Some (recv_fixed conn just overflow 1 (\<lambda>ds. Val_int8 (hd ds)) szs w)
      else if f = CHR ''h'' then
        Some (recv_fixed conn just overflow 2 (\<lambda>ds. Val_int16 (ntohs (of_bytes ds))) szs w)
      else if f = CHR ''i'' then
        Some (recv_fixed conn just overflow 4 (\<lambda>ds. Val_int32 (ntohl (of_bytes ds))) szs w)
      else if f = CHR ''l'' then
        Some (recv_fixed conn just overflow 8 (\<lambda>ds. Val_int64 (int64_value ds)) szs w)
      else if f = CHR ''f'' then
        Some (recv_fixed conn just overflow 8 (\<lambda>ds. Val_double (of_bytes (swab ds))) szs w)
      else if f = CHR ''s'' then
        (case recv_int32 conn just w of
           (conn', None, w') \<Rightarrow> Some (conn', False, overflow, [], szs, w')
         | (conn', Some i, w') \<Rightarrow> Some (recv_string mal Val_str conn' just overflow i szs w'))
      else if f = CHR ''B'' then
        (case recv_int32 conn just w of
           (conn', None, w') \<Rightarrow> Some (conn', False, overflow, [], szs, w')
         | (conn', Some i, w') \<Rightarrow>
             (case recv_string mal Val_block conn' just overflow i szs w' of
                (c, go, ov, vals, szs', w'') \<Rightarrow> Some (c, go, ov, Val_size (scast i) # vals, szs', w'')))
      else if f = CHR ''b'' then
        (case szs of
           [] \<Rightarrow> None
         | sz # szs' \<Rightarrow>
             (case recv_int32 conn just w of
                (conn', None, w') \<Rightarrow> Some (conn', False, overflow, [], szs', w')
              | (conn', Some i, w') \<Rightarrow> Some (recv_block conn' just overflow i sz szs' w')))
      else None)"

text \<open>The loop: \<open>None\<close> in the place of the rest of the format is the return with \<open>*eofp\<close> = 1.\<close>

fun vrecv_loop ::
  "(u64 \<Rightarrow> bool) \<Rightarrow> 'w gfp_xdr \<Rightarrow> bool \<Rightarrow> bool \<Rightarrow> string \<Rightarrow> u64 list \<Rightarrow> 'w
     \<Rightarrow> ('w gfp_xdr \<times> string option \<times> xdr_val list \<times> u64 list \<times> 'w) option" where
  "vrecv_loop mal conn just overflow [] szs w = Some (conn, Some [], [], szs, w)"
| "vrecv_loop mal conn just overflow (f # fmt) szs w =
     (if f \<notin> set recv_formats then Some (conn, Some (f # fmt), [], szs, w)
      else case recv_one mal conn just overflow f szs w of
             None \<Rightarrow> None
           | Some (conn', go, overflow', vals, szs', w') \<Rightarrow>
               if \<not> go then Some (conn', None, vals, szs', w')
               else (case vrecv_loop mal conn' just overflow' fmt szs' w' of
                       None \<Rightarrow> None
                     | Some (conn'', end, vals', szs'', w'') \<Rightarrow>
                         Some (conn'', end, vals @ vals', szs'', w'')))"

record 'w recv_result =
  rr_conn :: "'w gfp_xdr"
  rr_error :: gfarm_error_t
  rr_eof :: bool
  rr_format :: string
  rr_vals :: "xdr_val list"
  rr_sizes :: "u64 list"
  rr_world :: 'w

definition gfp_xdr_vrecv ::
  "(u64 \<Rightarrow> bool) \<Rightarrow> 'w gfp_xdr \<Rightarrow> bool \<Rightarrow> string \<Rightarrow> u64 list \<Rightarrow> 'w \<Rightarrow> 'w recv_result option" where
  "gfp_xdr_vrecv mal conn just fmt szs w =
     (case vrecv_loop mal conn just False fmt szs w of
        None \<Rightarrow> None
      | Some (conn', None, vals, szs', w') \<Rightarrow>
          Some \<lparr>rr_conn = conn', rr_error = GFARM_ERR_NO_ERROR, rr_eof = True, rr_format = fmt,
                rr_vals = vals, rr_sizes = szs', rr_world = w'\<rparr>
      | Some (conn', Some fmt', vals, szs', w') \<Rightarrow>
          Some \<lparr>rr_conn = conn', rr_error = gfarm_iobuffer_get_error (recvbuffer conn'),
                rr_eof = False, rr_format = fmt', rr_vals = vals, rr_sizes = szs',
                rr_world = w'\<rparr>)"

definition gfp_xdr_recv ::
  "(u64 \<Rightarrow> bool) \<Rightarrow> 'w gfp_xdr \<Rightarrow> bool \<Rightarrow> string \<Rightarrow> u64 list \<Rightarrow> 'w \<Rightarrow> 'w recv_result option" where
  "gfp_xdr_recv mal conn just fmt szs w =
     (case gfp_xdr_vrecv mal conn just fmt szs w of
        None \<Rightarrow> None
      | Some r \<Rightarrow>
          Some (r\<lparr>rr_error :=
            if rr_error r \<noteq> GFARM_ERR_NO_ERROR then rr_error r
            else if rr_eof r then GFARM_ERR_NO_ERROR
            else if rr_format r \<noteq> [] then GFARM_ERRMSG_GFP_XDR_RECV_INVALID_FORMAT_CHARACTER
            else GFARM_ERR_NO_ERROR\<rparr>))"

subsection \<open>Remote procedure calls\<close>

definition gfp_xdr_vrpc_request ::
  "'w gfp_xdr \<Rightarrow> int \<Rightarrow> string \<Rightarrow> xdr_arg list \<Rightarrow> 'w
     \<Rightarrow> ('w gfp_xdr \<times> gfarm_error_t \<times> string \<times> xdr_arg list \<times> 'w) option" where
  "gfp_xdr_vrpc_request conn command fmt args w =
     (case gfp_xdr_send conn ''i'' [Arg_int command] w of
        None \<Rightarrow> None
      | Some (conn1, e, w1) \<Rightarrow>
          if e \<noteq> GFARM_ERR_NO_ERROR then Some (conn1, e, fmt, args, w1)
          else gfp_xdr_vsend conn1 fmt args w1)"

text \<open>The result: the error of the call, the error number the peer has sent, the values.\<close>

record 'w rpc_result =
  rpc_conn :: "'w gfp_xdr"
  rpc_error :: gfarm_error_t
  rpc_errcode :: "u32 option"
  rpc_vals :: "xdr_val list"
  rpc_world :: 'w

definition gfp_xdr_vrpc_result ::
  "(u64 \<Rightarrow> bool) \<Rightarrow> 'w gfp_xdr \<Rightarrow> bool \<Rightarrow> string \<Rightarrow> u64 list \<Rightarrow> 'w \<Rightarrow> 'w rpc_result option" where
  "gfp_xdr_vrpc_result mal conn just fmt szs w =
     (case gfp_xdr_recv mal conn just ''i'' [] w of
        None \<Rightarrow> None
      | Some r \<Rightarrow>
          let errcode = (case rr_vals r of [Val_int32 x] \<Rightarrow> Some x | _ \<Rightarrow> None);
              ret = (\<lambda>e. Some \<lparr>rpc_conn = rr_conn r, rpc_error = e, rpc_errcode = errcode,
                                rpc_vals = [], rpc_world = rr_world r\<rparr>)
          in if rr_error r \<noteq> GFARM_ERR_NO_ERROR then ret (rr_error r)
             else if rr_eof r then ret GFARM_ERR_UNEXPECTED_EOF
             else if errcode \<noteq> Some 0 then ret GFARM_ERR_NO_ERROR
             else
               (case gfp_xdr_vrecv mal (rr_conn r) just fmt szs (rr_world r) of
                  None \<Rightarrow> None
                | Some q \<Rightarrow>
                    Some \<lparr>rpc_conn = rr_conn q,
                          rpc_error = (if rr_error q \<noteq> GFARM_ERR_NO_ERROR then rr_error q
                                       else if rr_eof q then GFARM_ERR_UNEXPECTED_EOF
                                       else if rr_format q \<noteq> []
                                       then GFARM_ERRMSG_GFP_XDR_VRPC_INVALID_FORMAT_CHARACTER
                                       else GFARM_ERR_NO_ERROR),
                          rpc_errcode = errcode, rpc_vals = rr_vals q, rpc_world = rr_world q\<rparr>))"

text \<open>
  One call: the format is that of the request, a slash, that of the result. Without the
  slash the program is aborted, after the request has gone out.
\<close>

definition gfp_xdr_vrpc ::
  "(u64 \<Rightarrow> bool) \<Rightarrow> 'w gfp_xdr \<Rightarrow> bool \<Rightarrow> int \<Rightarrow> string \<Rightarrow> xdr_arg list \<Rightarrow> u64 list \<Rightarrow> 'w
     \<Rightarrow> 'w rpc_result option" where
  "gfp_xdr_vrpc mal conn just command fmt args szs w =
     (case gfp_xdr_vrpc_request conn command fmt args w of
        None \<Rightarrow> None
      | Some (conn1, e1, fmt1, args1, w1) \<Rightarrow>
          (case (if e1 = GFARM_ERR_NO_ERROR then gfp_xdr_flush conn1 w1
                 else Some (conn1, e1, w1)) of
             None \<Rightarrow> None
           | Some (conn2, e2, w2) \<Rightarrow>
               if e2 \<noteq> GFARM_ERR_NO_ERROR
               then Some \<lparr>rpc_conn = conn2, rpc_error = e2, rpc_errcode = None,
                          rpc_vals = [], rpc_world = w2\<rparr>
               else (case fmt1 of
                       [] \<Rightarrow> None
                     | f # fmt2 \<Rightarrow>
                         if f \<noteq> CHR ''/'' then None
                         else gfp_xdr_vrpc_result mal conn2 just fmt2 szs w2)))"

subsection \<open>The low level interfaces\<close>

definition gfp_xdr_recv_partial ::
  "'w gfp_xdr \<Rightarrow> bool \<Rightarrow> int \<Rightarrow> 'w \<Rightarrow> 'w gfp_xdr \<times> byte list \<times> 'w" where
  "gfp_xdr_recv_partial conn just len w =
     (let (b, ds, w') = gfarm_iobuffer_get_read_partial_x (recvbuffer conn) len just w
      in (conn\<lparr>recvbuffer := b\<rparr>, ds, w'))"

definition gfp_xdr_recv_get_error :: "'w gfp_xdr \<Rightarrow> gfarm_error_t" where
  "gfp_xdr_recv_get_error conn = gfarm_iobuffer_get_error (recvbuffer conn)"

definition gfp_xdr_read_direct ::
  "'w gfp_xdr \<Rightarrow> int \<Rightarrow> 'w \<Rightarrow> 'w gfp_xdr \<times> gfarm_error_t \<times> byte list \<times> 'w" where
  "gfp_xdr_read_direct conn len w =
     (case op_blocking_read (iob_ops conn) (xdr_cookie conn) (xdr_fd conn) len w of
        (Io_err e, w') \<Rightarrow>
          let b = gfarm_iobuffer_set_error (recvbuffer conn) e
          in (conn\<lparr>recvbuffer := b\<rparr>, gfarm_iobuffer_get_error b, [], w')
      | (Io_got bs, w') \<Rightarrow> (conn, GFARM_ERR_NO_ERROR, bs, w'))"

definition gfp_xdr_write_direct ::
  "'w gfp_xdr \<Rightarrow> byte list \<Rightarrow> 'w \<Rightarrow> 'w gfp_xdr \<times> gfarm_error_t \<times> int \<times> 'w" where
  "gfp_xdr_write_direct conn data w =
     (case op_blocking_write (iob_ops conn) (xdr_cookie conn) (xdr_fd conn) data w of
        (Io_fail e, w') \<Rightarrow>
          let b = gfarm_iobuffer_set_error (sendbuffer conn) e
          in (conn\<lparr>sendbuffer := b\<rparr>, gfarm_iobuffer_get_error b, 0, w')
      | (Io_put k, w') \<Rightarrow> (conn, GFARM_ERR_NO_ERROR, int k, w'))"

subsection \<open>Connections over sockets (\<open>io_fd.c\<close>)\<close>

definition gfp_xdr_socket_iobuffer_ops :: "fd_world iobuffer_ops" where
  "gfp_xdr_socket_iobuffer_ops =
     \<lparr>op_close = gfp_iobuffer_close_fd_op,
      op_export_credential = gfp_iobuffer_export_credential_fd_op,
      op_delete_credential = gfp_iobuffer_delete_credential_fd_op,
      op_env_for_credential = gfp_iobuffer_env_for_credential_fd_op,
      op_nonblocking_read = gfarm_iobuffer_nonblocking_read_fd_op,
      op_nonblocking_write = gfarm_iobuffer_nonblocking_write_socket_op,
      op_blocking_read = gfarm_iobuffer_blocking_read_fd_op,
      op_blocking_write = gfarm_iobuffer_blocking_write_socket_op\<rparr>"

definition gfp_xdr_new_socket ::
  "bool \<Rightarrow> bool \<Rightarrow> bool \<Rightarrow> (u64 \<Rightarrow> bool) \<Rightarrow> mem \<Rightarrow> fd_world read_hook \<Rightarrow> fd_world write_hook
     \<Rightarrow> int \<Rightarrow> gfarm_error_t + fd_world gfp_xdr" where
  "gfp_xdr_new_socket malc malr mals mal m0 rf0 wf0 fd =
     gfp_xdr_new malc malr mals mal m0 rf0 wf0 gfp_xdr_socket_iobuffer_ops 0 fd"

definition gfp_xdr_set_socket ::
  "fd_world gfp_xdr \<Rightarrow> int \<Rightarrow> fd_world gfp_xdr \<times> gfarm_error_t" where
  "gfp_xdr_set_socket conn fd =
     (gfp_xdr_set conn gfp_xdr_socket_iobuffer_ops 0 fd, GFARM_ERR_NO_ERROR)"

end
