(* ===== verification/Gfp_Xdr_Spec.thy ===== *)
theory Gfp_Xdr_Spec
  imports Gfp_Xdr
begin

text \<open>
  What \<open>gfp_xdr.c\<close> promises: a message is a sequence of bytes determined by the format and the
  arguments (\<open>xdr_encode\<close>), \<open>gfp_xdr_send\<close> appends it to the outgoing stream, and
  \<open>gfp_xdr_recv\<close> on a stream that begins with it yields the values (\<open>xdr_decoded\<close>) and leaves the
  rest of the stream, so that the two ends stay in step. The lemmas hold for every
  reliable sink and source; the properties are those of the socket operations.
\<close>

subsection \<open>Messages\<close>

fun xdr_encode :: "string \<Rightarrow> xdr_arg list \<Rightarrow> byte list option" where
  "xdr_encode [] args = (if args = [] then Some [] else None)"
| "xdr_encode (f # fmt) args =
     (case xdr_chunks f args of
        None \<Rightarrow> None
      | Some (chunks, args') \<Rightarrow> map_option (\<lambda>bs. concat chunks @ bs) (xdr_encode fmt args'))"

lemma xdr_chunks_format: "xdr_chunks f args = Some r \<Longrightarrow> f \<in> set send_formats"
  by (auto simp: xdr_chunks.simps split: if_splits)

subsection \<open>Sending\<close>

definition sender_ok :: "'w write_hook \<Rightarrow> ('w \<Rightarrow> byte list) \<Rightarrow> 'w gfp_xdr \<Rightarrow> bool" where
  "sender_ok wfn out conn \<longleftrightarrow> iob_ok (sendbuffer conn) \<and> ib_write_func (sendbuffer conn) = wfn
     \<and> close_keeps out (sendbuffer conn) \<and> ib_error (sendbuffer conn) = GFARM_ERR_NO_ERROR"

definition sent :: "('w \<Rightarrow> byte list) \<Rightarrow> 'w gfp_xdr \<Rightarrow> 'w \<Rightarrow> byte list" where
  "sent out conn w = out w @ iob_content (sendbuffer conn)"

context reliable_sink
begin

lemma put_chunks_all:
  "iob_ok b \<Longrightarrow> ib_write_func b = wfn \<Longrightarrow> close_keeps out b \<Longrightarrow> good w \<Longrightarrow>
   put_chunks b cs w = (b', w') \<Longrightarrow>
     iob_ok b' \<and> iob_frame b' = iob_frame b \<and> ib_error b' = ib_error b \<and> good w'
     \<and> out w' @ iob_content b' = out w @ iob_content b @ concat cs"
proof (induction cs arbitrary: b w)
  case (Cons c cs)
  obtain b1 n w1 where p: "gfarm_iobuffer_put_write b c w = (b1, n, w1)"
    by (cases "gfarm_iobuffer_put_write b c w") auto
  note b1 = put_write_all [OF Cons.prems(1-4) p]
  then have fr: "iob_frame b1 = iob_frame b" by simp
  have "ib_write_func b1 = wfn" "close_keeps out b1"
    using frame_fields [OF fr] close_keeps_frame [OF fr, of out] Cons.prems(2,3) by simp_all
  from Cons.IH [OF _ this, of w1] b1 Cons.prems(5) p show ?case by simp
qed simp

lemma vsend_delivers:
  "xdr_encode fmt args = Some bs \<Longrightarrow> sender_ok wfn out conn \<Longrightarrow> good w \<Longrightarrow>
   \<exists>conn' w'. gfp_xdr_vsend conn fmt args w = Some (conn', GFARM_ERR_NO_ERROR, [], [], w')
     \<and> sender_ok wfn out conn' \<and> good w' \<and> recvbuffer conn' = recvbuffer conn
     \<and> sent out conn' w' = sent out conn w @ bs"
proof (induction fmt arbitrary: args bs conn w)
  case Nil
  then show ?case by (auto simp: sender_ok_def gfarm_iobuffer_get_error_def split: if_splits)
next
  case (Cons f fmt)
  from Cons.prems(1) obtain cs args' bs' where
    ch: "xdr_chunks f args = Some (cs, args')" and en: "xdr_encode fmt args' = Some bs'"
    and bs: "bs = concat cs @ bs'" by (auto split: option.splits)
  obtain b w1 where p: "put_chunks (sendbuffer conn) cs w = (b, w1)" by fastforce
  have b: "iob_ok b \<and> iob_frame b = iob_frame (sendbuffer conn)
      \<and> ib_error b = ib_error (sendbuffer conn) \<and> good w1
      \<and> out w1 @ iob_content b = out w @ iob_content (sendbuffer conn) @ concat cs"
    using put_chunks_all [OF _ _ _ Cons.prems(3) p] Cons.prems(2) by (simp add: sender_ok_def)
  then have fr: "iob_frame b = iob_frame (sendbuffer conn)" by simp
  let ?c = "conn\<lparr>sendbuffer := b\<rparr>"
  have "sender_ok wfn out ?c"
    using b frame_fields [OF fr] close_keeps_frame [OF fr, of out] Cons.prems(2)
    by (simp add: sender_ok_def)
  moreover have "sent out ?c w1 = sent out conn w @ concat cs" using b by (simp add: sent_def)
  moreover have "f \<in> set send_formats" by (rule xdr_chunks_format [OF ch])
  then have "gfp_xdr_vsend conn (f # fmt) args w = gfp_xdr_vsend ?c fmt args' w1"
    using ch p by simp
  ultimately show ?case using Cons.IH [OF en, of ?c w1] b bs by fastforce
qed

lemma send_delivers:
  assumes "xdr_encode fmt args = Some bs" and "sender_ok wfn out conn" and "good w"
  shows "\<exists>conn' w'. gfp_xdr_send conn fmt args w = Some (conn', GFARM_ERR_NO_ERROR, w')
     \<and> sender_ok wfn out conn' \<and> good w' \<and> recvbuffer conn' = recvbuffer conn
     \<and> sent out conn' w' = sent out conn w @ bs"
  using vsend_delivers [OF assms] by (fastforce simp: gfp_xdr_send_def)

lemma flush_delivers:
  assumes "sender_ok wfn out conn" and "good w"
  shows "\<exists>conn' w'. gfp_xdr_flush conn w = Some (conn', GFARM_ERR_NO_ERROR, w')
     \<and> sender_ok wfn out conn' \<and> good w' \<and> recvbuffer conn' = recvbuffer conn
     \<and> iob_content (sendbuffer conn') = [] \<and> out w' = sent out conn w"
proof -
  have ok: "iob_ok (sendbuffer conn)" "ib_write_func (sendbuffer conn) = wfn"
    "close_keeps out (sendbuffer conn)" "ib_error (sendbuffer conn) = GFARM_ERR_NO_ERROR"
    using assms(1) by (simp_all add: sender_ok_def)
  from flush_write_delivers [OF ok assms(2)] obtain b w' where
    f: "gfarm_iobuffer_flush_write (sendbuffer conn) w = Some (b, w')" and
    b: "iob_ok b" "iob_frame b = iob_frame (sendbuffer conn)" "ib_error b = GFARM_ERR_NO_ERROR"
      "good w'" "iob_content b = []" "out w' = out w @ iob_content (sendbuffer conn)" by blast
  have "sender_ok wfn out (conn\<lparr>sendbuffer := b\<rparr>)"
    using b frame_fields [OF b(2)] close_keeps_frame [OF b(2), of out] ok
    by (simp add: sender_ok_def)
  with f b show ?thesis by (simp add: gfp_xdr_flush_def gfarm_iobuffer_get_error_def sent_def)
qed

end

subsection \<open>Receiving\<close>

definition receiver_ok ::
  "'w read_hook \<Rightarrow> ('w \<Rightarrow> byte list) \<Rightarrow> ('w \<Rightarrow> bool) \<Rightarrow> 'w gfp_xdr \<Rightarrow> 'w \<Rightarrow> bool" where
  "receiver_ok rf inp good conn w \<longleftrightarrow> iob_ok (recvbuffer conn) \<and> ib_read_func (recvbuffer conn) = rf
     \<and> close_keeps inp (recvbuffer conn) \<and> close_keeps good (recvbuffer conn) \<and> good w
     \<and> ib_error (recvbuffer conn) = GFARM_ERR_NO_ERROR"

definition stream :: "('w \<Rightarrow> byte list) \<Rightarrow> 'w gfp_xdr \<Rightarrow> 'w \<Rightarrow> byte list" where
  "stream inp conn w = iob_content (recvbuffer conn) @ inp w"

text \<open>Purging is getting and throwing away.\<close>

lemma purge_as_get:
  assumes "iob_ok b" and "0 < r"
  shows "gfarm_iobuffer_purge b (Some r) w =
    (case gfarm_iobuffer_get b r w of
       (b', ds, w') \<Rightarrow> (b', Some (r - int (length ds)), int (length ds), w'))"
  using assms
  by (auto simp: gfarm_iobuffer_purge_def gfarm_iobuffer_get_def gfarm_iobuffer_avail_length_def
      gfarm_iobuffer_empty_def iob_ok_def Let_def split: prod.splits)

context io_source
begin

lemma purge_read_as_get_read:
  "iob_ok b \<Longrightarrow> ib_read_func b = rf \<Longrightarrow>
   purge_read_loop b r just w =
     (case gfarm_iobuffer_get_read_x b r just w of
        (b', ds, w') \<Rightarrow> (b', r - int (length ds), w'))"
proof (induction b r just w rule: gfarm_iobuffer_get_read_x.induct)
  case (1 b r just w)
  note simps = purge_read_loop.simps [of b r just w] gfarm_iobuffer_get_read_x.simps [of b r just w]
  show ?case
  proof (cases "r \<le> 0")
    case True
    then show ?thesis by (simp add: simps)
  next
    case pos: False
    obtain b1 w1 where rf1: "iobuffer_refill b r just w = (b1, w1)" by fastforce
    obtain b2 ds1 w2 where g: "gfarm_iobuffer_get b1 r w1 = (b2, ds1, w2)"
      by (cases "gfarm_iobuffer_get b1 r w1") auto
    have b1: "iob_ok b1" "iob_frame b1 = iob_frame b"
      using refill_spec [OF "1.prems" _ rf1] pos by auto
    have p: "gfarm_iobuffer_purge b1 (Some r) w1
        = (b2, Some (r - int (length ds1)), int (length ds1), w2)"
      using purge_as_get [OF b1(1), of r w1] pos g by simp
    show ?thesis
    proof (cases "ds1 = []")
      case True
      with pos rf1 g p show ?thesis by (simp add: simps)
    next
      case False
      have "iob_frame b2 = iob_frame b" using get_spec(3) [OF b1(1) g] b1(2) by simp
      from frame_fields [OF this] "1.prems"(2) have rf2: "ib_read_func b2 = rf" by simp
      note IH = "1.IH" [OF pos rf1 [symmetric] refl g [symmetric] refl refl False
          get_spec(1) [OF b1(1) g] rf2]
      from pos rf1 g p False IH show ?thesis
        by (simp add: simps split: prod.split)
    qed
  qed
qed

end

context reliable_source
begin

lemma recv_bytes_spec:
  assumes ok: "receiver_ok rf inp good conn w"
    and r: "recv_bytes conn just n w = (conn', ds, w')"
  shows "receiver_ok rf inp good conn' w' \<and> ds = take (nat n) (stream inp conn w)
    \<and> stream inp conn' w' = drop (nat n) (stream inp conn w) \<and> sendbuffer conn' = sendbuffer conn"
proof -
  obtain b where g: "gfarm_iobuffer_get_read_x (recvbuffer conn) n just w = (b, ds, w')"
    and c: "conn' = conn\<lparr>recvbuffer := b\<rparr>" using r by (auto simp: recv_bytes_def split: prod.splits)
  note o = ok [unfolded receiver_ok_def]
  have e: "iob_ok b \<and> iob_frame b = iob_frame (recvbuffer conn)
      \<and> ib_error b = GFARM_ERR_NO_ERROR \<and> good w'
      \<and> ds = take (nat n) (stream inp conn w)
      \<and> iob_content b @ inp w' = drop (nat n) (stream inp conn w)"
    using get_read_x_exact [OF _ _ _ _ _ _ g] o by (simp add: stream_def)
  then have fr: "iob_frame b = iob_frame (recvbuffer conn)" by simp
  show ?thesis
    using e c o frame_fields [OF fr] close_keeps_frame [OF fr, of inp] close_keeps_frame [OF fr, of good]
    by (simp add: receiver_ok_def stream_def)
qed

lemma recv_purge_spec:
  assumes ok: "receiver_ok rf inp good conn w" and n: "0 \<le> n"
    and r: "gfarm_iobuffer_purge_read_x (recvbuffer conn) n just w = (b, k, w')"
  shows "receiver_ok rf inp good (conn\<lparr>recvbuffer := b\<rparr>) w'
    \<and> k = min n (int (length (stream inp conn w)))
    \<and> stream inp (conn\<lparr>recvbuffer := b\<rparr>) w' = drop (nat n) (stream inp conn w)"
proof -
  note o = ok [unfolded receiver_ok_def]
  obtain b' ds w'' where
    g: "gfarm_iobuffer_get_read_x (recvbuffer conn) n just w = (b', ds, w'')"
    by (cases "gfarm_iobuffer_get_read_x (recvbuffer conn) n just w") auto
  have "purge_read_loop (recvbuffer conn) n just w = (b', n - int (length ds), w'')"
    using purge_read_as_get_read [of "recvbuffer conn" n just w] o g by simp
  with r have eq: "b = b'" "k = int (length ds)" "w' = w''"
    by (simp_all add: gfarm_iobuffer_purge_read_x_def)
  have "recv_bytes conn just n w = (conn\<lparr>recvbuffer := b'\<rparr>, ds, w'')"
    by (simp add: recv_bytes_def g)
  from recv_bytes_spec [OF ok this] eq n show ?thesis by (auto simp: min_def)
qed

end

subsection \<open>Lengths\<close>

lemma sint_of_nat32: "n < 2 ^ 31 \<Longrightarrow> sint (word_of_nat n :: u32) = int n"
  by (simp add: sint_uint unsigned_of_nat take_bit_nat_eq_self signed_take_bit_int_eq_self_iff
      take_bit_int_eq_self flip: of_nat_take_bit)

lemma ucast_of_nat: "(ucast (z :: u64) :: u32) = word_of_nat (unat z)"
  by (simp add: of_nat_unat)

lemma scast_of_nat: "n < 2 ^ 31 \<Longrightarrow> (scast (word_of_nat n :: u32) :: u64) = word_of_nat n"
  using sint_of_nat32 [of n] by (metis of_int_of_nat_eq of_int_sint)

lemma block_chunk_of_nat:
  "n < 2 ^ 31 \<Longrightarrow> n \<le> length s \<Longrightarrow> block_chunk (word_of_nat n) s = Some (take n s)"
  by (simp add: block_chunk_def sint_of_nat32)

subsection \<open>Decoding what was encoded\<close>

text \<open>
  The values a receiver gets for a sender's arguments: what one format character takes from
  the arguments and from the sizes of the receiver's blocks. \<open>None\<close> where the two ends do not
  fit: lengths from 2^31 on, which the 32-bit length field cannot carry, or a missing size.
\<close>

definition xdr_value ::
  "char \<Rightarrow> xdr_arg list \<Rightarrow> u64 list \<Rightarrow> (xdr_val list \<times> xdr_arg list \<times> u64 list) option" where
  "xdr_value f args szs =
     (case args of
        Arg_int x # rest \<Rightarrow>
          if f = CHR ''c'' then Some ([Val_int8 (word_of_int x)], rest, szs)
          else if f = CHR ''h'' then Some ([Val_int16 (word_of_int x)], rest, szs)
          else if f = CHR ''i'' then Some ([Val_int32 (word_of_int x)], rest, szs)
          else None
      | Arg_int64 x # rest \<Rightarrow>
          if f = CHR ''l'' then Some ([Val_int64 x], rest, szs) else None
      | Arg_double d # rest \<Rightarrow>
          if f = CHR ''f'' then Some ([Val_double d], rest, szs) else None
      | Arg_ptr s # rest \<Rightarrow>
          if f = CHR ''s'' then
            (let t = takeWhile (\<lambda>b. b \<noteq> 0) s
             in if 0 \<in> set s \<and> length t < 2 ^ 31 then Some ([Val_str t], rest, szs) else None)
          else if f = CHR ''S'' then
            (case rest of
               Arg_size z # rest' \<Rightarrow>
                 if unat z \<le> length s \<and> unat z < 2 ^ 31
                 then Some ([Val_str (take (unat z) s)], rest', szs) else None
             | _ \<Rightarrow> None)
          else None
      | Arg_size z # rest \<Rightarrow>
          (case (rest, szs) of
             (Arg_ptr s # rest', sz # szs') \<Rightarrow>
               if f = CHR ''b'' \<and> unat z \<le> length s \<and> unat z < 2 ^ 31 \<and> unat sz < 2 ^ 31
               then Some ([Val_size z, Val_block (take (min (unat z) (unat sz)) s)], rest', szs')
               else None
           | _ \<Rightarrow> None)
      | [] \<Rightarrow> None)"

fun xdr_decoded :: "string \<Rightarrow> xdr_arg list \<Rightarrow> u64 list \<Rightarrow> xdr_val list option" where
  "xdr_decoded [] args szs = (if args = [] \<and> szs = [] then Some [] else None)"
| "xdr_decoded (f # fmt) args szs =
     (case xdr_value f args szs of
        None \<Rightarrow> None
      | Some (vals, args', szs') \<Rightarrow> map_option (\<lambda>vs. vals @ vs) (xdr_decoded fmt args' szs'))"

text \<open>The receiver's format for a message: a counted string \<open>S\<close> is received as a string.\<close>

definition recv_char :: "char \<Rightarrow> char" where
  "recv_char f = (if f = CHR ''S'' then CHR ''s'' else f)"

definition malloc_generous :: "(u64 \<Rightarrow> bool) \<Rightarrow> bool" where
  "malloc_generous mal \<longleftrightarrow> (\<forall>n. unat n \<le> 2 ^ 31 \<longrightarrow> mal n)"

lemma xdr_malloc_ok:
  assumes "malloc_generous mal" and "n < 2 ^ 31"
  shows "xdr_malloc mal False (word_of_nat n) = (False, Inr (int n))"
proof -
  let ?i = "word_of_nat n :: u64"
  have u: "unat ?i = n" using assms(2) by (simp add: unsigned_of_nat take_bit_nat_eq_self)
  have "\<not> fst (gfarm_size_add False ?i 1)" using u assms(2) by (simp add: size_add_overflow_iff)
  moreover have "snd (gfarm_size_add False ?i 1) = ?i + 1" by (simp add: gfarm_size_add_def Let_def)
  ultimately have a: "gfarm_size_add False ?i 1 = (False, ?i + 1)" by (cases "gfarm_size_add False ?i 1") auto
  have "unat (?i + 1) = n + 1" using u assms(2) by (simp add: unat_word_ariths)
  then have "mal (?i + 1)" using assms by (simp add: malloc_generous_def)
  then have "gfarm_malloc_array mal (?i + 1) 1 = Some (?i + 1)"
    by (simp add: gfarm_malloc_array_def gfarm_size_mul_def Let_def)
  with a assms(2) show ?thesis by (simp add: xdr_malloc_def scast_of_nat sint_of_nat32)
qed

context reliable_source
begin

lemma recv_fixed_spec:
  assumes "receiver_ok rf inp good conn w" and "stream inp conn w = bs @ rest"
    and "n = int (length bs)"
  shows "\<exists>conn' w'. recv_fixed conn just ov n mk szs w = (conn', True, ov, [mk bs], szs, w')
    \<and> receiver_ok rf inp good conn' w' \<and> stream inp conn' w' = rest"
proof -
  obtain conn' ds w' where r: "recv_bytes conn just n w = (conn', ds, w')"
    by (cases "recv_bytes conn just n w") auto
  from recv_bytes_spec [OF assms(1) r] assms(2,3) r show ?thesis by (simp add: recv_fixed_def)
qed

lemma recv_int32_spec:
  assumes "receiver_ok rf inp good conn w" and "stream inp conn w = int32_chunk i @ rest"
  shows "\<exists>conn' w'. recv_int32 conn just w = (conn', Some i, w')
    \<and> receiver_ok rf inp good conn' w' \<and> stream inp conn' w' = rest"
proof -
  obtain conn' ds w' where r: "recv_bytes conn just 4 w = (conn', ds, w')"
    by (cases "recv_bytes conn just 4 w") auto
  from recv_bytes_spec [OF assms(1) r] assms(2) r show ?thesis
    by (simp add: recv_int32_def int32_chunk_def of_bytes_of)
qed

lemma recv_string_spec:
  assumes "receiver_ok rf inp good conn w" and "stream inp conn w = bs @ rest"
    and "length bs < 2 ^ 31" and "malloc_generous mal"
  shows "\<exists>conn' w'. recv_string mal mk conn just False (word_of_nat (length bs)) szs w
      = (conn', True, False, [mk bs], szs, w')
    \<and> receiver_ok rf inp good conn' w' \<and> stream inp conn' w' = rest"
proof -
  obtain conn' ds w' where r: "recv_bytes conn just (int (length bs)) w = (conn', ds, w')"
    by (cases "recv_bytes conn just (int (length bs)) w") auto
  from recv_bytes_spec [OF assms(1) r] assms(2) r xdr_malloc_ok [OF assms(4,3)]
  show ?thesis by (simp add: recv_string_def)
qed

lemma recv_block_spec:
  assumes ok: "receiver_ok rf inp good conn w" and str: "stream inp conn w = bs @ rest"
    and z: "length bs < 2 ^ 31" and sz: "unat (sz :: u64) < 2 ^ 31"
  shows "\<exists>conn' w'. recv_block conn just ov (word_of_nat (length bs)) sz szs w
      = (conn', True, ov, [Val_size (word_of_nat (length bs)),
                           Val_block (take (unat sz) bs)], szs, w')
    \<and> receiver_ok rf inp good conn' w' \<and> stream inp conn' w' = rest"
proof -
  let ?n = "length bs"
  let ?i = "word_of_nat ?n :: u64"
  have i: "(scast (word_of_nat ?n :: u32) :: u64) = ?i" using z by (rule scast_of_nat)
  have ui: "unat ?i = ?n" using z by (simp add: unsigned_of_nat take_bit_nat_eq_self)
  show ?thesis
  proof (cases "?i \<le> sz")
    case True
    then have le: "?n \<le> unat sz" using ui by (simp add: word_le_nat_alt)
    obtain conn' ds w' where r: "recv_bytes conn just (int ?n) w = (conn', ds, w')"
      by (cases "recv_bytes conn just (int ?n) w") auto
    note c = recv_bytes_spec [OF ok r]
    then have ds: "ds = bs" "stream inp conn' w' = rest" using str by simp_all
    have "recv_block conn just ov (word_of_nat ?n) sz szs w
      = (conn', True, ov, [Val_size ?i, Val_block ds], szs, w')"
      unfolding recv_block_def Let_def i if_P [OF True] sint_of_nat32 [OF z] r prod.case
      using ds(1) by simp
    moreover have "ds = take (unat sz) bs" using ds(1) le by simp
    ultimately show ?thesis using c ds(2) by blast
  next
    case False
    then have lt: "unat sz < ?n" using ui by (simp add: word_le_nat_alt)
    have ssz: "sint (ucast sz :: u32) = int (unat sz)"
      unfolding ucast_of_nat by (rule sint_of_nat32 [OF sz])
    have dif: "?i - sz = word_of_nat (?n - unat sz)"
      using lt by (simp add: of_nat_diff)
    have sdif: "sint (ucast (?i - sz) :: u32) = int (?n - unat sz)"
    proof -
      have small: "?n - unat sz < 2 ^ 31" using z by linarith
      have "unat (?i - sz) = ?n - unat sz"
        unfolding dif using small by (simp add: unsigned_of_nat take_bit_nat_eq_self)
      then show ?thesis unfolding ucast_of_nat by (simp only: sint_of_nat32 [OF small])
    qed
    obtain conn1 ds w1 where r: "recv_bytes conn just (int (unat sz)) w = (conn1, ds, w1)"
      by (cases "recv_bytes conn just (int (unat sz)) w") auto
    note c1 = recv_bytes_spec [OF ok r]
    then have ds: "ds = take (unat sz) bs" "stream inp conn1 w1 = drop (unat sz) bs @ rest"
      using str lt by simp_all
    then have lds: "word_of_nat (length ds) = sz" using lt by simp
    obtain b k w2 where
      p: "gfarm_iobuffer_purge_read_x (recvbuffer conn1) (int (?n - unat sz)) just w1 = (b, k, w2)"
      by (cases "gfarm_iobuffer_purge_read_x (recvbuffer conn1) (int (?n - unat sz)) just w1") auto
    have "receiver_ok rf inp good conn1 w1" using c1 by simp
    note c2 = recv_purge_spec [OF this of_nat_0_le_iff p, unfolded nat_int]
    obtain m where m: "unat sz = m" by blast
    have k: "k = int (?n - unat sz)" "stream inp (conn1\<lparr>recvbuffer := b\<rparr>) w2 = rest"
      "receiver_ok rf inp good (conn1\<lparr>recvbuffer := b\<rparr>) w2"
      using c2 ds(2) lt unfolding m by simp_all
    have eq: "word_of_int k = ?i - sz" using k(1) dif by simp
    have "recv_block conn just ov (word_of_nat ?n) sz szs w
      = (conn1\<lparr>recvbuffer := b\<rparr>, True, ov, [Val_size ?i, Val_block ds], szs, w2)"
      unfolding recv_block_def Let_def i if_not_P [OF False] ssz r prod.case sdif p
      using lds eq by simp
    then show ?thesis using k(2,3) unfolding ds(1) by blast
  qed
qed

lemma recv_counted_string:
  assumes "receiver_ok rf inp good conn w" and "malloc_generous mal" and "length bs < 2 ^ 31"
    and "stream inp conn w = int32_chunk (word_of_nat (length bs)) @ bs @ rest"
  shows "\<exists>conn' w'. recv_one mal conn just False (CHR ''s'') szs w
      = Some (conn', True, False, [Val_str bs], szs, w')
    \<and> receiver_ok rf inp good conn' w' \<and> stream inp conn' w' = rest"
proof -
  obtain c1 w1 where i: "recv_int32 conn just w = (c1, Some (word_of_nat (length bs)), w1)"
    and c1: "receiver_ok rf inp good c1 w1" "stream inp c1 w1 = bs @ rest"
    using recv_int32_spec [OF assms(1,4)] by blast
  from recv_string_spec [OF c1 assms(3,2)] i show ?thesis by (simp add: recv_one_def)
qed

lemma recv_counted_block:
  assumes "receiver_ok rf inp good conn w" and "length bs < 2 ^ 31" and "unat sz < 2 ^ 31"
    and "stream inp conn w = int32_chunk (word_of_nat (length bs)) @ bs @ rest"
  shows "\<exists>conn' w'. recv_one mal conn just False (CHR ''b'') (sz # szs) w
      = Some (conn', True, False, [Val_size (word_of_nat (length bs)), Val_block (take (unat sz) bs)],
              szs, w')
    \<and> receiver_ok rf inp good conn' w' \<and> stream inp conn' w' = rest"
proof -
  obtain c1 w1 where i: "recv_int32 conn just w = (c1, Some (word_of_nat (length bs)), w1)"
    and c1: "receiver_ok rf inp good c1 w1" "stream inp c1 w1 = bs @ rest"
    using recv_int32_spec [OF assms(1,4)] by blast
  have "recv_one mal conn just False (CHR ''b'') (sz # szs) w
      = Some (recv_block c1 just False (word_of_nat (length bs)) sz szs w1)"
    unfolding recv_one_def using i by simp
  with recv_block_spec [OF c1 assms(2,3), of just False szs] show ?thesis by metis
qed

lemma recv_one_spec:
  assumes ch: "xdr_chunks f args = Some (cs, args')"
    and val: "xdr_value f args szs = Some (vals, args'', szs')"
    and ok: "receiver_ok rf inp good conn w" and str: "stream inp conn w = concat cs @ rest"
    and mal: "malloc_generous mal"
  shows "args'' = args' \<and> (\<exists>conn' w'. recv_one mal conn just False (recv_char f) szs w
      = Some (conn', True, False, vals, szs', w')
    \<and> receiver_ok rf inp good conn' w' \<and> stream inp conn' w' = rest)"
proof -
  obtain a r where args: "args = a # r" using val by (cases args) (auto simp: xdr_value_def)
  show ?thesis
  proof (cases a)
    case (Arg_int x)
    with val args consider "f = CHR ''c''" | "f = CHR ''h''" | "f = CHR ''i''"
      by (auto simp: xdr_value_def split: if_splits)
    then show ?thesis
    proof cases
      case c: 1
      then have "cs = [[word_of_int x]]" "args' = r" "args'' = r" "szs' = szs"
        "vals = [Val_int8 (word_of_int x)]"
        using ch val args Arg_int by (auto simp: xdr_chunks.simps xdr_value_def)
      with c str recv_fixed_spec [OF ok, of "[word_of_int x]" rest 1 just False
          "\<lambda>ds. Val_int8 (hd ds)" szs] show ?thesis
        by (simp add: recv_one_def recv_char_def)
    next
      case h: 2
      let ?bs = "bytes_of 2 (htons (word_of_int x))"
      from h have "cs = [?bs]" "args' = r" "args'' = r" "szs' = szs"
        "vals = [Val_int16 (word_of_int x)]"
        using ch val args Arg_int by (auto simp: xdr_chunks.simps xdr_value_def)
      with h str recv_fixed_spec [OF ok, of ?bs rest 2 just False
          "\<lambda>ds. Val_int16 (ntohs (of_bytes ds))" szs]
      show ?thesis by (simp add: recv_one_def recv_char_def of_bytes_of)
    next
      case i: 3
      let ?bs = "bytes_of 4 (htonl (word_of_int x))"
      from i have "cs = [?bs]" "args' = r" "args'' = r" "szs' = szs"
        "vals = [Val_int32 (word_of_int x)]"
        using ch val args Arg_int by (auto simp: xdr_chunks.simps xdr_value_def int32_chunk_def)
      with i str recv_fixed_spec [OF ok, of ?bs rest 4 just False
          "\<lambda>ds. Val_int32 (ntohl (of_bytes ds))" szs]
      show ?thesis by (simp add: recv_one_def recv_char_def of_bytes_of)
    qed
  next
    case (Arg_int64 x)
    let ?bs = "bytes_of 4 (htonl (ucast (drop_bit 32 x))) @ bytes_of 4 (htonl (ucast x))"
    from Arg_int64 val args have l: "f = CHR ''l''" by (auto simp: xdr_value_def split: if_splits)
    then have e: "cs = [?bs]" "args' = r" "args'' = r" "szs' = szs" "vals = [Val_int64 x]"
      using ch val args Arg_int64 by (auto simp: xdr_chunks.simps xdr_value_def Let_def)
    have "int64_value ?bs = x" by (simp add: int64_value_def of_bytes_of halves_join)
    with l str e recv_fixed_spec [OF ok, of ?bs rest 8 just False "\<lambda>ds. Val_int64 (int64_value ds)" szs]
    show ?thesis by (simp add: recv_one_def recv_char_def)
  next
    case (Arg_double d)
    let ?bs = "swab (bytes_of 8 d)"
    from Arg_double val args have l: "f = CHR ''f''" by (auto simp: xdr_value_def split: if_splits)
    then have e: "cs = [?bs]" "args' = r" "args'' = r" "szs' = szs" "vals = [Val_double d]"
      using ch val args Arg_double by (auto simp: xdr_chunks.simps xdr_value_def)
    with l str recv_fixed_spec [OF ok, of ?bs rest 8 just False
        "\<lambda>ds. Val_double (of_bytes (swab ds))" szs]
    show ?thesis by (simp add: recv_one_def recv_char_def of_bytes_of)
  next
    case (Arg_size z)
    with val args obtain s r' sz where b: "f = CHR ''b''" "r = Arg_ptr s # r'" "szs = sz # szs'"
      "unat z \<le> length s" "unat z < 2 ^ 31" "unat sz < 2 ^ 31" "args'' = r'"
      "vals = [Val_size z, Val_block (take (min (unat z) (unat sz)) s)]"
      by (auto simp: xdr_value_def split: list.splits xdr_arg.splits if_splits)
    let ?bs = "take (unat z) s"
    have len: "length ?bs = unat z" using b(4) by simp
    have bc: "block_chunk (ucast z) s = Some ?bs"
      unfolding ucast_of_nat by (rule block_chunk_of_nat [OF b(5,4)])
    have ch': "cs = [int32_chunk (ucast z), ?bs]" "args' = r'"
      using ch args Arg_size b(1,2) bc by (auto simp: xdr_chunks.simps)
    have z: "word_of_nat (length ?bs) = z" unfolding len by simp
    have tk: "take (min (unat z) (unat sz)) s = take (unat sz) ?bs" by (simp add: min.commute)
    have lt: "length ?bs < 2 ^ 31" using len b(5) by simp
    have "stream inp conn w = int32_chunk (word_of_nat (length ?bs)) @ ?bs @ rest"
      unfolding len ucast_of_nat [symmetric] using str ch'(1) by simp
    from recv_counted_block [OF ok lt b(6) this, of mal just szs'] b(1,3,7,8) ch'(2)
    show ?thesis unfolding z tk recv_char_def by simp
  next
    case (Arg_ptr s)
    with val args consider (S) z r' where "f = CHR ''S''" "r = Arg_size z # r'" "unat z \<le> length s"
        "unat z < 2 ^ 31" "vals = [Val_str (take (unat z) s)]" "args'' = r'" "szs' = szs"
      | (s) "f = CHR ''s''" "0 \<in> set s" "length (takeWhile (\<lambda>b. b \<noteq> 0) s) < 2 ^ 31"
        "vals = [Val_str (takeWhile (\<lambda>b. b \<noteq> 0) s)]" "args'' = r" "szs' = szs"
      by (auto simp: xdr_value_def Let_def split: list.splits xdr_arg.splits if_splits)
    then show ?thesis
    proof cases
      case S
      let ?bs = "take (unat z) s"
      have len: "length ?bs = unat z" using S(3) by simp
      have bc: "block_chunk (ucast z) s = Some ?bs"
        unfolding ucast_of_nat by (rule block_chunk_of_nat [OF S(4,3)])
      have ch': "cs = [int32_chunk (ucast z), ?bs]" "args' = r'"
        using ch args Arg_ptr S(1,2) bc by (auto simp: xdr_chunks.simps)
      have lt: "length ?bs < 2 ^ 31" using len S(4) by simp
      have "stream inp conn w = int32_chunk (word_of_nat (length ?bs)) @ ?bs @ rest"
        unfolding len ucast_of_nat [symmetric] using str ch'(1) by simp
      from recv_counted_string [OF ok mal lt this, of just szs] S(1,5-7) ch'(2)
      show ?thesis by (simp add: recv_char_def)
    next
      case s
      let ?bs = "takeWhile (\<lambda>b. b \<noteq> 0) s"
      have tk: "take (length ?bs) s = ?bs" by (simp add: takeWhile_eq_take [symmetric])
      have bc: "block_chunk (word_of_nat (length ?bs)) s = Some ?bs"
        using block_chunk_of_nat [OF s(3), of s] length_takeWhile_le [of _ s] by (simp add: tk)
      have ch': "cs = [int32_chunk (word_of_nat (length ?bs)), ?bs]" "args' = r"
        using ch args Arg_ptr s(1,2) bc by (auto simp: xdr_chunks.simps Let_def)
      have "stream inp conn w = int32_chunk (word_of_nat (length ?bs)) @ ?bs @ rest"
        using str ch'(1) by simp
      from recv_counted_string [OF ok mal s(3) this, of just szs] s(1,4-6) ch'(2)
      show ?thesis by (simp add: recv_char_def)
    qed
  qed
qed

lemma vrecv_loop_spec:
  "xdr_encode fmt args = Some bs \<Longrightarrow> xdr_decoded fmt args szs = Some vals \<Longrightarrow>
   receiver_ok rf inp good conn w \<Longrightarrow> stream inp conn w = bs @ rest \<Longrightarrow> malloc_generous mal \<Longrightarrow>
   \<exists>conn' w'. vrecv_loop mal conn just False (map recv_char fmt) szs w
       = Some (conn', Some [], vals, [], w')
     \<and> receiver_ok rf inp good conn' w' \<and> stream inp conn' w' = rest"
proof (induction fmt arbitrary: args bs szs vals conn w)
  case Nil
  then show ?case by (auto split: if_splits)
next
  case (Cons f fmt)
  from Cons.prems(1) obtain cs args' bs' where
    ch: "xdr_chunks f args = Some (cs, args')" and en: "xdr_encode fmt args' = Some bs'"
    and bs: "bs = concat cs @ bs'" by (auto split: option.splits)
  from Cons.prems(2) obtain v args'' szs' vs where
    val: "xdr_value f args szs = Some (v, args'', szs')"
    and de: "xdr_decoded fmt args'' szs' = Some vs" and vals: "vals = v @ vs"
    by (auto split: option.splits)
  have "stream inp conn w = concat cs @ bs' @ rest" using Cons.prems(4) bs by simp
  from recv_one_spec [OF ch val Cons.prems(3) this Cons.prems(5), of just]
  obtain c1 w1 where a: "args'' = args'"
    and r: "recv_one mal conn just False (recv_char f) szs w = Some (c1, True, False, v, szs', w1)"
    and c1: "receiver_ok rf inp good c1 w1" "stream inp c1 w1 = bs' @ rest" by blast
  from Cons.IH [OF en de [unfolded a] c1 Cons.prems(5)] obtain c2 w2 where
    l: "vrecv_loop mal c1 just False (map recv_char fmt) szs' w1 = Some (c2, Some [], vs, [], w2)"
    and c2: "receiver_ok rf inp good c2 w2" "stream inp c2 w2 = rest" by blast
  have "recv_char f \<in> set recv_formats"
    using xdr_chunks_format [OF ch] by (auto simp: recv_char_def)
  with r l vals have "vrecv_loop mal conn just False (map recv_char (f # fmt)) szs w
      = Some (c2, Some [], vals, [], w2)" by simp
  with c2 show ?case by blast
qed

lemma vrecv_spec:
  assumes "xdr_encode fmt args = Some bs" and "xdr_decoded fmt args szs = Some vals"
    and "receiver_ok rf inp good conn w" and "stream inp conn w = bs @ rest"
    and "malloc_generous mal"
  shows "\<exists>r. gfp_xdr_vrecv mal conn just (map recv_char fmt) szs w = Some r
     \<and> rr_error r = GFARM_ERR_NO_ERROR \<and> \<not> rr_eof r \<and> rr_format r = [] \<and> rr_vals r = vals
     \<and> receiver_ok rf inp good (rr_conn r) (rr_world r)
     \<and> stream inp (rr_conn r) (rr_world r) = rest"
proof -
  from vrecv_loop_spec [OF assms, of just] obtain c1 w1 where
    l: "vrecv_loop mal conn just False (map recv_char fmt) szs w = Some (c1, Some [], vals, [], w1)"
    and c1: "receiver_ok rf inp good c1 w1" "stream inp c1 w1 = rest" by blast
  moreover have "ib_error (recvbuffer c1) = GFARM_ERR_NO_ERROR"
    using c1(1) by (simp add: receiver_ok_def)
  ultimately show ?thesis
    by (simp add: gfp_xdr_vrecv_def gfarm_iobuffer_get_error_def)
qed

lemma recv_spec:
  assumes "xdr_encode fmt args = Some bs" and "xdr_decoded fmt args szs = Some vals"
    and "receiver_ok rf inp good conn w" and "stream inp conn w = bs @ rest"
    and "malloc_generous mal"
  shows "\<exists>r. gfp_xdr_recv mal conn just (map recv_char fmt) szs w = Some r
     \<and> rr_error r = GFARM_ERR_NO_ERROR \<and> \<not> rr_eof r \<and> rr_format r = [] \<and> rr_vals r = vals
     \<and> receiver_ok rf inp good (rr_conn r) (rr_world r)
     \<and> stream inp (rr_conn r) (rr_world r) = rest"
  using vrecv_spec [OF assms, of just] by (fastforce simp: gfp_xdr_recv_def)

text \<open>The reply of a remote procedure call, by its error number.\<close>

lemma vrpc_head:
  assumes "receiver_ok rf inp good conn w" and "malloc_generous mal"
    and "stream inp conn w = int32_chunk x @ rest"
  shows "\<exists>r. gfp_xdr_recv mal conn just ''i'' [] w = Some r
     \<and> rr_error r = GFARM_ERR_NO_ERROR \<and> \<not> rr_eof r \<and> rr_vals r = [Val_int32 x]
     \<and> receiver_ok rf inp good (rr_conn r) (rr_world r)
     \<and> stream inp (rr_conn r) (rr_world r) = rest"
proof -
  have "xdr_encode ''i'' [Arg_int (sint x)] = Some (int32_chunk x)"
    by (simp add: xdr_chunks.simps)
  moreover have "xdr_decoded ''i'' [Arg_int (sint x)] [] = Some [Val_int32 x]"
    by (simp add: xdr_value_def)
  ultimately show ?thesis
    using recv_spec [OF _ _ assms(1,3,2), of "''i''" "[Arg_int (sint x)]" "[]"
        "[Val_int32 x]" just]
    by (auto simp: recv_char_def)
qed

lemma vrpc_result_ok:
  assumes "receiver_ok rf inp good conn w" and "malloc_generous mal"
    and "xdr_encode fmt args = Some bs" and "xdr_decoded fmt args szs = Some vals"
    and "stream inp conn w = int32_chunk 0 @ bs @ later"
  shows "\<exists>r. gfp_xdr_vrpc_result mal conn just (map recv_char fmt) szs w = Some r
    \<and> rpc_error r = GFARM_ERR_NO_ERROR \<and> rpc_errcode r = Some 0 \<and> rpc_vals r = vals
    \<and> receiver_ok rf inp good (rpc_conn r) (rpc_world r)
    \<and> stream inp (rpc_conn r) (rpc_world r) = later"
proof -
  from vrpc_head [OF assms(1,2,5)] obtain r where
    r: "gfp_xdr_recv mal conn just ''i'' [] w = Some r" "rr_error r = GFARM_ERR_NO_ERROR"
      "\<not> rr_eof r" "rr_vals r = [Val_int32 0]" "receiver_ok rf inp good (rr_conn r) (rr_world r)"
      "stream inp (rr_conn r) (rr_world r) = bs @ later" by blast
  from vrecv_spec [OF assms(3,4) r(5,6) assms(2), of just] r(1-4) show ?thesis
    by (auto simp: gfp_xdr_vrpc_result_def)
qed

lemma vrpc_result_code:
  assumes "receiver_ok rf inp good conn w" and "malloc_generous mal" and "x \<noteq> 0"
    and "stream inp conn w = int32_chunk x @ later"
  shows "\<exists>r. gfp_xdr_vrpc_result mal conn just fmt szs w = Some r
    \<and> rpc_error r = GFARM_ERR_NO_ERROR \<and> rpc_errcode r = Some x \<and> rpc_vals r = []
    \<and> receiver_ok rf inp good (rpc_conn r) (rpc_world r)
    \<and> stream inp (rpc_conn r) (rpc_world r) = later"
  using vrpc_head [OF assms(1,2,4), of just] assms(3) by (auto simp: gfp_xdr_vrpc_result_def)

lemma vrpc_result_eof:
  assumes "receiver_ok rf inp good conn w" and "length (stream inp conn w) < 4"
  shows "\<exists>r. gfp_xdr_vrpc_result mal conn just fmt szs w = Some r
    \<and> rpc_error r = GFARM_ERR_UNEXPECTED_EOF \<and> receiver_ok rf inp good (rpc_conn r) (rpc_world r)"
proof -
  obtain c ds w' where rb: "recv_bytes conn just 4 w = (c, ds, w')"
    by (cases "recv_bytes conn just 4 w") auto
  have "receiver_ok rf inp good c w'" "length ds \<noteq> 4"
    using recv_bytes_spec [OF assms(1) rb] assms(2) by auto
  with rb show ?thesis
    by (simp add: gfp_xdr_vrpc_result_def gfp_xdr_recv_def gfp_xdr_vrecv_def recv_one_def
        recv_fixed_def)
qed

end

subsection \<open>Sockets\<close>

abbreviation socket_sender :: "fd_world gfp_xdr \<Rightarrow> bool" where
  "socket_sender \<equiv> sender_ok gfarm_iobuffer_blocking_write_socket_op fw_out"

abbreviation socket_receiver :: "fd_world gfp_xdr \<Rightarrow> fd_world \<Rightarrow> bool" where
  "socket_receiver \<equiv> receiver_ok gfarm_iobuffer_blocking_read_fd_op fw_in fd_calm"

lemma iobuffer_alloc_some:
  "gfarm_iobuffer_alloc malb mal m0 rf0 wf0 n = Some b \<Longrightarrow> 0 < n \<Longrightarrow>
     iob_ok b \<and> iob_content b = [] \<and> ib_error b = GFARM_ERR_NO_ERROR
     \<and> ib_write_close_func b = gfarm_iobuffer_write_close_nop"
  by (auto simp: gfarm_iobuffer_alloc_def iob_ok_def iob_content_def split: if_splits option.splits)

lemma new_socket_ok:
  assumes "gfp_xdr_new_socket malc malr mals mal m0 rf0 wf0 fd = Inr conn"
  shows "socket_sender conn \<and> sent fw_out conn w = fw_out w
    \<and> (fd_calm w \<longrightarrow> socket_receiver conn w) \<and> stream fw_in conn w = fw_in w"
proof -
  obtain rb sb where rb: "gfarm_iobuffer_alloc malr mal m0 rf0 wf0 GFP_XDR_BUFSIZE = Some rb"
    and sb: "gfarm_iobuffer_alloc mals mal m0 rf0 wf0 GFP_XDR_BUFSIZE = Some sb"
    and c: "conn = gfp_xdr_set \<lparr>recvbuffer = rb, sendbuffer = sb,
      iob_ops = gfp_xdr_socket_iobuffer_ops, xdr_cookie = 0, xdr_fd = fd\<rparr>
      gfp_xdr_socket_iobuffer_ops 0 fd"
    using assms by (auto simp: gfp_xdr_new_socket_def gfp_xdr_new_def split: if_splits option.splits)
  note r = iobuffer_alloc_some [OF rb] and s = iobuffer_alloc_some [OF sb]
  have "iob_content (sb\<lparr>ib_write_func := f, ib_write_cookie := k, ib_write_fd := d\<rparr>) = iob_content sb"
    and "iob_ok (sb\<lparr>ib_write_func := f, ib_write_cookie := k, ib_write_fd := d\<rparr>) = iob_ok sb"
    and "iob_content (rb\<lparr>ib_read_func := g, ib_read_cookie := k, ib_read_fd := d\<rparr>) = iob_content rb"
    and "iob_ok (rb\<lparr>ib_read_func := g, ib_read_cookie := k, ib_read_fd := d\<rparr>) = iob_ok rb" for f g k d
    by (simp_all add: iob_content_def iob_ok_def)
  with r s c show ?thesis
    by (simp add: sender_ok_def receiver_ok_def sent_def stream_def gfp_xdr_set_def
        gfarm_iobuffer_set_write_def gfarm_iobuffer_set_read_def gfp_xdr_socket_iobuffer_ops_def)
qed

subsection \<open>Properties\<close>

text \<open>C6: messages cross the connection unchanged. When one end sends a message and flushes, and the
  other end's stream begins with the bytes the first has delivered, then receiving with the
  same format yields the values sent (blocks cut to the receiver's sizes), reports neither error
  nor end of file, and leaves exactly what comes after the message.\<close>

theorem xdr_end_to_end:
  assumes "socket_sender cs" and "fd_calm ws" and "sent fw_out cs ws = []"
    and "xdr_encode fmt args = Some bs" and "xdr_decoded fmt args szs = Some vals"
    and "gfp_xdr_send cs fmt args ws = Some (cs1, e1, ws1)"
    and "gfp_xdr_flush cs1 ws1 = Some (cs2, e2, ws2)"
    and "socket_receiver cr wr" and "stream fw_in cr wr = fw_out ws2 @ later"
    and "malloc_generous mal"
  shows "e1 = GFARM_ERR_NO_ERROR \<and> e2 = GFARM_ERR_NO_ERROR
    \<and> (\<exists>r. gfp_xdr_recv mal cr just (map recv_char fmt) szs wr = Some r
         \<and> rr_error r = GFARM_ERR_NO_ERROR \<and> \<not> rr_eof r \<and> rr_vals r = vals
         \<and> stream fw_in (rr_conn r) (rr_world r) = later)"
proof -
  from bkw.send_delivers [OF assms(4,1,2)] assms(6) have
    s: "e1 = GFARM_ERR_NO_ERROR" "socket_sender cs1" "fd_calm ws1"
      "sent fw_out cs1 ws1 = sent fw_out cs ws @ bs" by auto
  from bkw.flush_delivers [OF s(2,3)] assms(7) have
    f: "e2 = GFARM_ERR_NO_ERROR" "fw_out ws2 = sent fw_out cs1 ws1" by auto
  from f(2) s(4) assms(3,9) have "stream fw_in cr wr = bs @ later" by simp
  from bkr.recv_spec [OF assms(4,5,8) this assms(10), of just] s(1) f(1) show ?thesis by blast
qed

text \<open>The reply of a remote procedure call. A reply that begins with error number 0 and a message
  of the format yields its values; one with another error number yields that number and
  consumes nothing more; and when the stream ends before the error number is complete, the result
  is \<open>GFARM_ERR_UNEXPECTED_EOF\<close>.\<close>

theorem vrpc_result_replies:
  assumes "socket_receiver conn w" and "malloc_generous mal"
    and "xdr_encode fmt args = Some bs" and "xdr_decoded fmt args szs = Some vals"
  shows "(stream fw_in conn w = int32_chunk 0 @ bs @ later \<longrightarrow>
       (\<exists>r. gfp_xdr_vrpc_result mal conn just (map recv_char fmt) szs w = Some r
          \<and> rpc_error r = GFARM_ERR_NO_ERROR \<and> rpc_errcode r = Some 0 \<and> rpc_vals r = vals
          \<and> stream fw_in (rpc_conn r) (rpc_world r) = later))
    \<and> (\<forall>x. x \<noteq> 0 \<longrightarrow> stream fw_in conn w = int32_chunk x @ later \<longrightarrow>
       (\<exists>r. gfp_xdr_vrpc_result mal conn just (map recv_char fmt) szs w = Some r
          \<and> rpc_error r = GFARM_ERR_NO_ERROR \<and> rpc_errcode r = Some x \<and> rpc_vals r = []
          \<and> stream fw_in (rpc_conn r) (rpc_world r) = later))
    \<and> (length (stream fw_in conn w) < 4 \<longrightarrow>
       (\<exists>r. gfp_xdr_vrpc_result mal conn just (map recv_char fmt) szs w = Some r
          \<and> rpc_error r = GFARM_ERR_UNEXPECTED_EOF))"
proof (intro conjI allI impI)
  fix x :: u32
  assume "x \<noteq> 0" and "stream fw_in conn w = int32_chunk x @ later"
  from bkr.vrpc_result_code [OF assms(1,2) this]
  show "\<exists>r. gfp_xdr_vrpc_result mal conn just (map recv_char fmt) szs w = Some r
    \<and> rpc_error r = GFARM_ERR_NO_ERROR \<and> rpc_errcode r = Some x \<and> rpc_vals r = []
    \<and> stream fw_in (rpc_conn r) (rpc_world r) = later" by blast
qed (use bkr.vrpc_result_ok [OF assms] bkr.vrpc_result_eof [OF assms(1)] in blast)+

text \<open>A length of -1 from the peer makes \<open>gfp_xdr_recv\<close> report success without having stored the
  string: the size overflows, the pointer is left as it was, and neither an error nor the end of
  file is reported.\<close>

theorem recv_string_length_overflow:
  assumes "socket_receiver conn w" and "stream fw_in conn w = int32_chunk (-1) @ later"
  shows "\<exists>r. gfp_xdr_recv mal conn just ''s'' [] w = Some r
    \<and> rr_error r = GFARM_ERR_NO_ERROR \<and> \<not> rr_eof r \<and> rr_vals r = [Val_unset]
    \<and> stream fw_in (rr_conn r) (rr_world r) = later"
proof -
  from bkr.recv_int32_spec [OF assms, of just] obtain c w' where
    i: "recv_int32 conn just w = (c, Some (-1), w')" "socket_receiver c w'"
      "stream fw_in c w' = later" by blast
  have "xdr_malloc mal False (-1) = (True, Inl Val_unset)"
    by (simp add: xdr_malloc_def gfarm_size_add_def word_gt_0)
  with i show ?thesis
    by (simp add: gfp_xdr_recv_def gfp_xdr_vrecv_def recv_one_def recv_string_def
        gfarm_iobuffer_get_error_def receiver_ok_def)
qed

text \<open>\<open>gfp_xdr_free\<close> forgets the error of its flush: when the socket refuses the bytes that are
  still buffered, none of them reaches the peer, and yet, as the close succeeds, the result is
  success.\<close>

theorem xdr_free_loses_flush_error:
  assumes "socket_sender conn" and "iob_ops conn = gfp_xdr_socket_iobuffer_ops"
    and "iob_content (sendbuffer conn) \<noteq> []"
    and "fw_wr w = Sys_fail k # evs" and "\<not> transient (Sys_fail k)" and "fw_close w = None"
  shows "\<exists>w'. gfp_xdr_free conn w = Some (GFARM_ERR_NO_ERROR, w') \<and> fw_out w' = fw_out w"
proof -
  let ?b = "sendbuffer conn" and ?e = "errno_error (int k + 1)" and ?w = "w\<lparr>fw_wr := evs\<rparr>"
  have b: "\<not> gfarm_iobuffer_empty ?b" "ib_error ?b = GFARM_ERR_NO_ERROR"
    "ib_write_func ?b = gfarm_iobuffer_blocking_write_socket_op"
    using assms(1,3) by (simp_all add: empty_iff_content sender_ok_def)
  have hook: "gfarm_iobuffer_blocking_write_socket_op c fd data w = (Io_fail ?e, ?w)" for c fd data
    using assms(4,5)
    by (simp add: gfarm_iobuffer_blocking_write_socket_op.simps [of c fd data w]
        gfarm_send_no_sigpipe_def sys_send_def transient_def)
  have avail: "\<not> gfarm_iobuffer_avail_length ?b \<le> 0" using b(1) by (simp add: iob_simps)
  have "gfarm_iobuffer_write ?b None w = (gfarm_iobuffer_set_error ?b ?e, None, ?w)"
    using b avail hook by (simp add: gfarm_iobuffer_write_def Let_def)
  moreover have "?e \<noteq> GFARM_ERR_NO_ERROR" by (rule errno_error_nonzero) simp
  ultimately have "gfarm_iobuffer_flush_write ?b w = Some (gfarm_iobuffer_set_error ?b ?e, ?w)"
    using b gfarm_iobuffer_flush_write.simps [of ?b w]
      gfarm_iobuffer_flush_write.simps [of "gfarm_iobuffer_set_error ?b ?e" ?w]
    by (simp add: gfarm_iobuffer_set_error_def)
  then show ?thesis
    using assms(2,6)
    by (simp add: gfp_xdr_free_def gfp_xdr_flush_def gfp_xdr_socket_iobuffer_ops_def
        gfp_iobuffer_close_fd_op_def)
qed

subsection \<open>Witnesses\<close>

definition sample_conn :: "fd_world gfp_xdr" where
  "sample_conn =
     (case gfp_xdr_new_socket True True True (\<lambda>_. True) (\<lambda>_. 0) (\<lambda>_ _ _ w. (Io_got [], w))
             (\<lambda>_ _ _ w. (Io_put 0, w)) 3 of Inr c \<Rightarrow> c)"

lemma sample_conn_new:
  "gfp_xdr_new_socket True True True (\<lambda>_. True) (\<lambda>_. 0) (\<lambda>_ _ _ w. (Io_got [], w))
     (\<lambda>_ _ _ w. (Io_put 0, w)) 3 = Inr sample_conn"
  by (simp add: sample_conn_def gfp_xdr_new_socket_def gfp_xdr_new_def gfarm_iobuffer_alloc_def
      gfarm_malloc_array_def gfarm_size_mul_def Let_def)

lemmas sample_conn_ok = new_socket_ok [OF sample_conn_new]

definition peer_world :: "byte list \<Rightarrow> fd_world" where
  "peer_world bs = \<lparr>fw_in = bs, fw_out = [], fw_rd = [Sys_fail 3, Sys_move 0, Sys_fail 10],
     fw_wr = [Sys_fail 10, Sys_move 1], fw_close = None\<rparr>"

lemma peer_world_calm: "fd_calm (peer_world bs)"
  by (simp add: peer_world_def fd_calm_def transient_def)

definition sample_args :: "xdr_arg list" where
  "sample_args = [Arg_int 7, Arg_ptr [104, 105, 0], Arg_size 3, Arg_ptr [1, 2, 3]]"

lemma sample_message:
  "\<exists>bs. xdr_encode ''isb'' sample_args = Some bs"
  "xdr_decoded ''isb'' sample_args [2]
     = Some [Val_int32 7, Val_str [104, 105], Val_size 3, Val_block [1, 2]]"
  by (simp_all add: sample_args_def xdr_chunks.simps block_chunk_def xdr_value_def)

theorem xdr_end_to_end_witness:
  "\<exists>cs1 ws1 cs2 ws2 r. gfp_xdr_send sample_conn ''isb'' sample_args (peer_world [])
       = Some (cs1, GFARM_ERR_NO_ERROR, ws1)
     \<and> gfp_xdr_flush cs1 ws1 = Some (cs2, GFARM_ERR_NO_ERROR, ws2)
     \<and> gfp_xdr_recv (\<lambda>_. True) sample_conn False ''isb'' [2] (peer_world (fw_out ws2 @ [9])) = Some r
     \<and> rr_vals r = [Val_int32 7, Val_str [104, 105], Val_size 3, Val_block [1, 2]]
     \<and> stream fw_in (rr_conn r) (rr_world r) = [9]"
proof -
  obtain bs where en: "xdr_encode ''isb'' sample_args = Some bs" using sample_message(1) by blast
  have cs: "socket_sender sample_conn" "sent fw_out sample_conn (peer_world []) = []"
    using sample_conn_ok by (simp_all add: peer_world_def)
  from bkw.send_delivers [OF en cs(1) peer_world_calm] obtain cs1 ws1 where
    s: "gfp_xdr_send sample_conn ''isb'' sample_args (peer_world []) = Some (cs1, GFARM_ERR_NO_ERROR, ws1)"
      "socket_sender cs1" "fd_calm ws1" by blast
  from bkw.flush_delivers [OF s(2,3)] obtain cs2 ws2 where
    f: "gfp_xdr_flush cs1 ws1 = Some (cs2, GFARM_ERR_NO_ERROR, ws2)" by blast
  have cr: "socket_receiver sample_conn (peer_world (fw_out ws2 @ [9]))"
    "stream fw_in sample_conn (peer_world (fw_out ws2 @ [9])) = fw_out ws2 @ [9]"
    using sample_conn_ok peer_world_calm by (simp_all add: peer_world_def)
  have "malloc_generous (\<lambda>_. True)" by (simp add: malloc_generous_def)
  from xdr_end_to_end [OF cs(1) peer_world_calm cs(2) en sample_message(2) s(1) f cr this, of False]
  show ?thesis using s(1) f by (simp add: recv_char_def) blast
qed

theorem vrpc_result_replies_witness:
  "\<exists>r. gfp_xdr_vrpc_result (\<lambda>_. True) sample_conn False ''isb'' [2] (peer_world []) = Some r
     \<and> rpc_error r = GFARM_ERR_UNEXPECTED_EOF"
proof -
  obtain bs where en: "xdr_encode ''isb'' sample_args = Some bs" using sample_message(1) by blast
  have cr: "socket_receiver sample_conn (peer_world [])" "stream fw_in sample_conn (peer_world []) = []"
    using sample_conn_ok peer_world_calm by (simp_all add: peer_world_def)
  have "malloc_generous (\<lambda>_. True)" by (simp add: malloc_generous_def)
  from vrpc_result_replies [OF cr(1) this en sample_message(2), of "[]" False] cr(2)
  show ?thesis by (simp add: recv_char_def)
qed

theorem recv_string_length_overflow_witness:
  "\<exists>r. gfp_xdr_recv (\<lambda>_. True) sample_conn False ''s'' [] (peer_world (int32_chunk (-1) @ [65])) = Some r
     \<and> rr_error r = GFARM_ERR_NO_ERROR \<and> \<not> rr_eof r \<and> rr_vals r = [Val_unset]"
proof -
  have cr: "socket_receiver sample_conn (peer_world (int32_chunk (-1) @ [65]))"
    "stream fw_in sample_conn (peer_world (int32_chunk (-1) @ [65])) = int32_chunk (-1) @ [65]"
    using sample_conn_ok peer_world_calm by (simp_all add: peer_world_def)
  from recv_string_length_overflow [OF cr, of "\<lambda>_. True" False] show ?thesis by blast
qed

theorem xdr_free_loses_flush_error_witness:
  "\<exists>conn w'. iob_content (sendbuffer conn) = [42]
     \<and> gfp_xdr_free conn ((peer_world [])\<lparr>fw_wr := [Sys_fail 31]\<rparr>) = Some (GFARM_ERR_NO_ERROR, w')
     \<and> fw_out w' = []"
proof -
  let ?b = "(sendbuffer sample_conn)\<lparr>ib_buffer := \<lambda>_. 42, ib_head := 0, ib_tail := 1\<rparr>"
  let ?conn = "sample_conn\<lparr>sendbuffer := ?b\<rparr>"
  let ?w = "(peer_world [])\<lparr>fw_wr := [Sys_fail 31]\<rparr>"
  have "ib_bufsize (sendbuffer sample_conn) = 16384"
    and ops: "iob_ops sample_conn = gfp_xdr_socket_iobuffer_ops"
    by (simp_all add: sample_conn_def gfp_xdr_new_socket_def gfp_xdr_new_def gfp_xdr_set_def
        gfarm_iobuffer_alloc_def gfarm_malloc_array_def gfarm_size_mul_def Let_def
        gfarm_iobuffer_set_write_def)
  moreover have "socket_sender sample_conn" using sample_conn_ok by simp
  ultimately have "socket_sender ?conn" by (auto simp: sender_ok_def iob_ok_def close_keeps_def)
  moreover have c: "iob_content (sendbuffer ?conn) = [42]" by (simp add: iob_content_def)
  ultimately have "\<exists>w'. gfp_xdr_free ?conn ?w = Some (GFARM_ERR_NO_ERROR, w') \<and> fw_out w' = fw_out ?w"
    by (intro xdr_free_loses_flush_error [of ?conn ?w 31 "[]"])
      (use ops in \<open>simp_all add: transient_def peer_world_def\<close>)
  moreover have "fw_out ?w = []" by (simp add: peer_world_def)
  ultimately show ?thesis using c by metis
qed

end
