(* ===== verification/Hash_Table.thy ===== *)
theory Hash_Table
  imports Alloc
begin

unbundle bit_operations_syntax

text \<open>
  \<open>gfutil/hash.c\<close> and \<open>gfutil/hash_strptr.c\<close>: chained hash tables. The library hands keys
  around as untyped memory and a length; here a table is generic in the type \<open>'k\<close> of its keys,
  with the two functions \<open>hash\<close> and \<open>equal\<close> it was created with, and in the type \<open>'d\<close> of the data
  blocks, which the caller fills in.

  A pointer to an entry is its position: the bucket and the place in the chain. The \<open>pp\<close>
  of the code, a pointer to the link that leads to the entry, is the same position, and \<open>*pp\<close>
  is \<open>NULL\<close> when the place is the length of the chain.
\<close>

subsection \<open>Hash functions and key comparisons\<close>

definition hash_step :: "u32 \<Rightarrow> byte \<Rightarrow> u32" where
  "hash_step h c =
     (let hash = push_bit 4 h + ucast c;
          g = hash AND 0xf0000000
      in if g \<noteq> 0 then (hash XOR drop_bit 24 g) XOR g else hash)"

definition gfarm_hash_default :: "byte list \<Rightarrow> int" where
  "gfarm_hash_default key = sint (foldl hash_step 0 key)"

text \<open>\<open>tolower\<close> of the C locale.\<close>

definition tolower :: "byte \<Rightarrow> byte" where
  "tolower c = (if 65 \<le> c \<and> c \<le> 90 then c + 32 else c)"

definition gfarm_hash_casefold :: "byte list \<Rightarrow> int" where
  "gfarm_hash_casefold key = sint (foldl (\<lambda>h c. hash_step h (tolower c)) 0 key)"

definition gfarm_hash_key_equal_default :: "byte list \<Rightarrow> byte list \<Rightarrow> bool" where
  "gfarm_hash_key_equal_default key1 key2 \<longleftrightarrow> length key1 = length key2 \<and> key1 = key2"

fun casefold_bytes_equal :: "byte list \<Rightarrow> byte list \<Rightarrow> bool" where
  "casefold_bytes_equal (a # as) (b # bs) =
     (if tolower a \<noteq> tolower b then False else casefold_bytes_equal as bs)"
| "casefold_bytes_equal _ _ = True"

definition gfarm_hash_key_equal_casefold :: "byte list \<Rightarrow> byte list \<Rightarrow> bool" where
  "gfarm_hash_key_equal_casefold key1 key2 \<longleftrightarrow>
     (if length key1 \<noteq> length key2 then False else casefold_bytes_equal key1 key2)"

text \<open>
  The keys of \<open>hash_strptr.c\<close> are pointers to C strings: the bytes before the
  terminating 0, whose first byte is that 0 when the string is empty.
\<close>

definition c_first :: "byte list \<Rightarrow> byte" where
  "c_first s = (case s of [] \<Rightarrow> 0 | c # _ \<Rightarrow> c)"

definition gfarm_hash_strptr :: "byte list \<Rightarrow> int" where
  "gfarm_hash_strptr str = gfarm_hash_default str"

definition gfarm_hash_key_equal_strptr :: "byte list \<Rightarrow> byte list \<Rightarrow> bool" where
  "gfarm_hash_key_equal_strptr str1 str2 \<longleftrightarrow>
     (if c_first str1 \<noteq> c_first str2 then False
      else if length str1 \<noteq> length str2 then False
      else gfarm_hash_key_equal_default str1 str2)"

definition gfarm_hash_casefold_strptr :: "byte list \<Rightarrow> int" where
  "gfarm_hash_casefold_strptr str = gfarm_hash_casefold str"

definition gfarm_hash_key_equal_casefold_strptr :: "byte list \<Rightarrow> byte list \<Rightarrow> bool" where
  "gfarm_hash_key_equal_casefold_strptr str1 str2 \<longleftrightarrow>
     (if tolower (c_first str1) \<noteq> tolower (c_first str2) then False
      else if length str1 \<noteq> length str2 then False
      else gfarm_hash_key_equal_casefold str1 str2)"

subsection \<open>Tables\<close>

record ('k, 'd) hash_entry =
  he_key :: 'k
  he_key_length :: int
  he_data :: 'd
  he_data_length :: int

record ('k, 'd) hash_table =
  table_size :: int
  ht_hash :: "'k \<Rightarrow> int"
  ht_equal :: "'k \<Rightarrow> 'k \<Rightarrow> bool"
  buckets :: "('k, 'd) hash_entry list list"

type_synonym hash_pos = "nat \<times> nat"

text \<open>\<open>sizeof(struct gfarm_hash_table)\<close> is 32 and that of a pointer 8 (LP64).\<close>

definition gfarm_hash_table_alloc ::
  "(u64 \<Rightarrow> bool) \<Rightarrow> int \<Rightarrow> ('k \<Rightarrow> int) \<Rightarrow> ('k \<Rightarrow> 'k \<Rightarrow> bool) \<Rightarrow> ('k, 'd) hash_table option" where
  "gfarm_hash_table_alloc mal sz hash equal =
     (let (overflow1, product) = gfarm_size_mul False 8 (word_of_int (sz - 1));
          (overflow, alloc_size) = gfarm_size_add overflow1 32 product
      in if overflow then None
         else if \<not> mal alloc_size then None
         else Some \<lparr>table_size = sz, ht_hash = hash, ht_equal = equal,
                    buckets = replicate (nat sz) []\<rparr>)"

definition hash_chain :: "('k, 'd) hash_table \<Rightarrow> nat \<Rightarrow> ('k, 'd) hash_entry list" where
  "hash_chain tab b = buckets tab ! b"

definition hash_at :: "('k, 'd) hash_table \<Rightarrow> hash_pos \<Rightarrow> ('k, 'd) hash_entry option" where
  "hash_at tab pos =
     (if snd pos < length (hash_chain tab (fst pos)) then Some (hash_chain tab (fst pos) ! snd pos)
      else None)"

fun gfarm_hash_lookup_internal_search ::
  "('k \<Rightarrow> 'k \<Rightarrow> bool) \<Rightarrow> ('k, 'd) hash_entry list \<Rightarrow> 'k \<Rightarrow> nat" where
  "gfarm_hash_lookup_internal_search equal [] key = 0"
| "gfarm_hash_lookup_internal_search equal (p # ps) key =
     (if equal (he_key p) key then 0 else Suc (gfarm_hash_lookup_internal_search equal ps key))"

text \<open>
  \<open>HASH_BUCKET\<close>: C's remainder. A negative hash would index in front of the array; no
  hash function of the library yields one.
\<close>

definition HASH_BUCKET :: "('k, 'd) hash_table \<Rightarrow> 'k \<Rightarrow> nat" where
  "HASH_BUCKET tab key = nat (cmod (ht_hash tab key) (table_size tab))"

definition GFARM_HASH_LOOKUP_INTERNAL :: "('k, 'd) hash_table \<Rightarrow> 'k \<Rightarrow> hash_pos" where
  "GFARM_HASH_LOOKUP_INTERNAL tab key =
     (let b = HASH_BUCKET tab key
      in (b, gfarm_hash_lookup_internal_search (ht_equal tab) (hash_chain tab b) key))"

definition gfarm_hash_lookup :: "('k, 'd) hash_table \<Rightarrow> 'k \<Rightarrow> hash_pos option" where
  "gfarm_hash_lookup tab key =
     (let pp = GFARM_HASH_LOOKUP_INTERNAL tab key
      in if hash_at tab pp = None then None else Some pp)"

definition ALIGN :: "u64 \<Rightarrow> u64" where
  "ALIGN p = (p + 15) AND NOT 15"

text \<open>A new entry is appended to its chain; its data block is uninitialised, \<open>d0\<close>.\<close>

definition gfarm_hash_enter ::
  "(u64 \<Rightarrow> bool) \<Rightarrow> 'd \<Rightarrow> ('k, 'd) hash_table \<Rightarrow> 'k \<Rightarrow> int \<Rightarrow> int
     \<Rightarrow> ('k, 'd) hash_table \<times> hash_pos option \<times> bool" where
  "gfarm_hash_enter mal d0 tab key keylen datalen =
     (let pp = GFARM_HASH_LOOKUP_INTERNAL tab key
      in if hash_at tab pp \<noteq> None then (tab, Some pp, False)
         else
           let (overflow1, size1) = gfarm_size_add False (ALIGN 16) (ALIGN (word_of_int keylen));
               (overflow, hash_entry_size) = gfarm_size_add overflow1 size1 (word_of_int datalen)
           in if overflow then (tab, None, False)
              else if \<not> mal hash_entry_size then (tab, None, False)
              else
                let p = \<lparr>he_key = key, he_key_length = keylen, he_data = d0,
                         he_data_length = datalen\<rparr>
                in (tab\<lparr>buckets := (buckets tab)[fst pp := hash_chain tab (fst pp) @ [p]]\<rparr>,
                    Some pp, True))"

text \<open>\<open>*pp = p->next\<close>.\<close>

definition hash_unlink :: "('k, 'd) hash_table \<Rightarrow> hash_pos \<Rightarrow> ('k, 'd) hash_table" where
  "hash_unlink tab pp =
     tab\<lparr>buckets := (buckets tab)[fst pp :=
           take (snd pp) (hash_chain tab (fst pp)) @ drop (Suc (snd pp)) (hash_chain tab (fst pp))]\<rparr>"

definition gfarm_hash_purge ::
  "('k, 'd) hash_table \<Rightarrow> 'k \<Rightarrow> ('k, 'd) hash_table \<times> bool" where
  "gfarm_hash_purge tab key =
     (let pp = GFARM_HASH_LOOKUP_INTERNAL tab key
      in if hash_at tab pp = None then (tab, False) else (hash_unlink tab pp, True))"

definition gfarm_hash_entry_key :: "('k, 'd) hash_entry \<Rightarrow> 'k" where
  "gfarm_hash_entry_key entry = he_key entry"

definition gfarm_hash_entry_key_length :: "('k, 'd) hash_entry \<Rightarrow> int" where
  "gfarm_hash_entry_key_length entry = he_key_length entry"

definition gfarm_hash_entry_data :: "('k, 'd) hash_entry \<Rightarrow> 'd" where
  "gfarm_hash_entry_data entry = he_data entry"

definition gfarm_hash_entry_data_length :: "('k, 'd) hash_entry \<Rightarrow> int" where
  "gfarm_hash_entry_data_length entry = he_data_length entry"

text \<open>A store through the pointer that \<open>gfarm_hash_entry_data\<close> returns.\<close>

definition hash_store :: "('k, 'd) hash_table \<Rightarrow> hash_pos \<Rightarrow> 'd \<Rightarrow> ('k, 'd) hash_table" where
  "hash_store tab pos d =
     tab\<lparr>buckets := (buckets tab)[fst pos :=
           (hash_chain tab (fst pos))[snd pos := (hash_chain tab (fst pos) ! snd pos)\<lparr>he_data := d\<rparr>]]\<rparr>"

subsection \<open>Iterators\<close>

record hash_iterator =
  bucket_index :: int
  it_pp :: hash_pos

text \<open>\<open>valid_entry\<close> moves the iterator to the next entry, if it does not stand on one.\<close>

function gfarm_hash_iterator_valid_entry ::
  "('k, 'd) hash_table \<Rightarrow> hash_iterator \<Rightarrow> bool \<times> hash_iterator" where
  "gfarm_hash_iterator_valid_entry tab it =
     (if bucket_index it \<ge> table_size tab then (False, it)
      else if hash_at tab (it_pp it) \<noteq> None then (True, it)
      else
        let it1 = it\<lparr>bucket_index := bucket_index it + 1\<rparr>
        in if bucket_index it1 \<ge> table_size tab then (False, it1)
           else gfarm_hash_iterator_valid_entry tab (it1\<lparr>it_pp := (nat (bucket_index it1), 0)\<rparr>))"
  by pat_completeness auto
termination
  by (relation "measure (\<lambda>(tab, it). nat (table_size tab - bucket_index it))") auto

declare gfarm_hash_iterator_valid_entry.simps [simp del]

definition gfarm_hash_iterator_begin :: "('k, 'd) hash_table \<Rightarrow> hash_iterator" where
  "gfarm_hash_iterator_begin tab = \<lparr>bucket_index = 0, it_pp = (0, 0)\<rparr>"

definition gfarm_hash_iterator_next :: "('k, 'd) hash_table \<Rightarrow> hash_iterator \<Rightarrow> hash_iterator" where
  "gfarm_hash_iterator_next tab it =
     (if hash_at tab (it_pp it) = None then it\<lparr>bucket_index := bucket_index it + 1\<rparr>
      else it\<lparr>it_pp := (fst (it_pp it), Suc (snd (it_pp it)))\<rparr>)"

definition gfarm_hash_iterator_is_end ::
  "('k, 'd) hash_table \<Rightarrow> hash_iterator \<Rightarrow> bool \<times> hash_iterator" where
  "gfarm_hash_iterator_is_end tab it =
     (let (valid, it') = gfarm_hash_iterator_valid_entry tab it in (\<not> valid, it'))"

definition gfarm_hash_iterator_access ::
  "('k, 'd) hash_table \<Rightarrow> hash_iterator \<Rightarrow> ('k, 'd) hash_entry option \<times> hash_iterator" where
  "gfarm_hash_iterator_access tab it =
     (let (valid, it') = gfarm_hash_iterator_valid_entry tab it
      in (if valid then hash_at tab (it_pp it') else None, it'))"

definition gfarm_hash_iterator_lookup ::
  "('k, 'd) hash_table \<Rightarrow> 'k \<Rightarrow> bool \<times> hash_iterator" where
  "gfarm_hash_iterator_lookup tab key =
     (let it = \<lparr>bucket_index = int (HASH_BUCKET tab key), it_pp = GFARM_HASH_LOOKUP_INTERNAL tab key\<rparr>
      in (hash_at tab (it_pp it) \<noteq> None, it))"

definition gfarm_hash_iterator_purge ::
  "('k, 'd) hash_table \<Rightarrow> hash_iterator \<Rightarrow> ('k, 'd) hash_table \<times> hash_iterator \<times> bool" where
  "gfarm_hash_iterator_purge tab it =
     (let (valid, it') = gfarm_hash_iterator_valid_entry tab it
      in if valid then (hash_unlink tab (it_pp it'), it', True) else (tab, it', False))"

text \<open>
  The loop that callers write over an iterator,
  \<open>for (begin; !is_end; next) { p = access; ... }\<close>, collecting what it visits.
\<close>

partial_function (option) hash_iterate ::
  "('k, 'd) hash_table \<Rightarrow> hash_iterator \<Rightarrow> ('k, 'd) hash_entry list
     \<Rightarrow> ('k, 'd) hash_entry list option" where
  "hash_iterate tab it visited =
     (let (at_end, it1) = gfarm_hash_iterator_is_end tab it
      in if at_end then Some visited
         else let (p, it2) = gfarm_hash_iterator_access tab it1
              in hash_iterate tab (gfarm_hash_iterator_next tab it2)
                   (visited @ (case p of None \<Rightarrow> [] | Some e \<Rightarrow> [e])))"

end
