(* ===== verification/Hash_Table_Spec.thy ===== *)
theory Hash_Table_Spec
  imports Hash_Table
begin

text \<open>
  What the hash tables promise: for a hash function and a comparison that fit each other
  (locale \<open>hash_keys\<close>), a table is a finite map up to the comparison (locale \<open>dictionary\<close>), entries
  that are not touched stay where they are, and an iteration visits every entry once.
\<close>

subsection \<open>Contracts\<close>

datatype ('k, 'd) map_op = Put 'k 'd | Del 'k

text \<open>The map that a sequence of operations leaves, as a function.\<close>

fun map_spec :: "('k \<Rightarrow> 'k \<Rightarrow> bool) \<Rightarrow> ('k, 'd) map_op \<Rightarrow> ('k \<Rightarrow> 'd option) \<Rightarrow> 'k \<Rightarrow> 'd option" where
  "map_spec eq (Put k d) f = (\<lambda>k'. if eq k k' then Some d else f k')"
| "map_spec eq (Del k) f = (\<lambda>k'. if eq k k' then None else f k')"

fun map_step :: "('s \<Rightarrow> 'k \<Rightarrow> 'd \<Rightarrow> 's) \<Rightarrow> ('s \<Rightarrow> 'k \<Rightarrow> 's) \<Rightarrow> ('k, 'd) map_op \<Rightarrow> 's \<Rightarrow> 's" where
  "map_step put del (Put k d) s = put s k d"
| "map_step put del (Del k) s = del s k"

locale dictionary =
  fixes lookup :: "'s \<Rightarrow> 'k \<Rightarrow> 'd option"
    and put :: "'s \<Rightarrow> 'k \<Rightarrow> 'd \<Rightarrow> 's"
    and del :: "'s \<Rightarrow> 'k \<Rightarrow> 's"
    and ok :: "'s \<Rightarrow> bool"
    and eq :: "'k \<Rightarrow> 'k \<Rightarrow> bool"
  assumes put_ok: "ok s \<Longrightarrow> ok (put s k d)"
    and del_ok: "ok s \<Longrightarrow> ok (del s k)"
    and lookup_put: "ok s \<Longrightarrow> lookup (put s k d) k' = (if eq k k' then Some d else lookup s k')"
    and lookup_del: "ok s \<Longrightarrow> lookup (del s k) k' = (if eq k k' then None else lookup s k')"
begin

lemma step_refines:
  "ok s \<Longrightarrow> ok (map_step put del op s) \<and> lookup (map_step put del op s) = map_spec eq op (lookup s)"
  by (cases op) (auto simp: put_ok del_ok lookup_put lookup_del)

lemma run_refines:
  "ok s \<Longrightarrow> ok (fold (map_step put del) ops s)
     \<and> lookup (fold (map_step put del) ops s) = fold (map_spec eq) ops (lookup s)"
  by (induction ops arbitrary: s) (simp_all add: step_refines)

end

locale hash_keys =
  fixes hash :: "'k \<Rightarrow> int" and equal :: "'k \<Rightarrow> 'k \<Rightarrow> bool"
  assumes equal_refl: "equal k k"
    and equal_sym: "equal k k' \<Longrightarrow> equal k' k"
    and equal_trans: "equal k k' \<Longrightarrow> equal k' k'' \<Longrightarrow> equal k k''"
    and hash_equal: "equal k k' \<Longrightarrow> hash k = hash k'"

subsection \<open>Chains\<close>

lemma find_append:
  "find P (xs @ ys) = (case find P xs of None \<Rightarrow> find P ys | Some x \<Rightarrow> Some x)"
  by (induction xs) auto

lemma search_le: "gfarm_hash_lookup_internal_search eq ps key \<le> length ps"
  by (induction ps) simp_all

lemma search_found_iff:
  "gfarm_hash_lookup_internal_search eq ps key < length ps \<longleftrightarrow> (\<exists>e \<in> set ps. eq (he_key e) key)"
  by (induction ps) auto

lemma search_find:
  "find (\<lambda>e. eq (he_key e) key) ps =
     (let k = gfarm_hash_lookup_internal_search eq ps key
      in if k < length ps then Some (ps ! k) else None)"
  by (induction ps) (auto simp: Let_def)

lemma search_before:
  "k < gfarm_hash_lookup_internal_search eq ps key \<Longrightarrow> \<not> eq (he_key (ps ! k)) key"
  by (induction ps arbitrary: k) (auto simp: nth_Cons split: nat.splits if_splits)

lemma search_snoc:
  "\<forall>x \<in> set ps. \<not> eq (he_key x) key \<Longrightarrow> eq (he_key q) key \<Longrightarrow>
     gfarm_hash_lookup_internal_search eq (ps @ [q]) key
       = gfarm_hash_lookup_internal_search eq ps key"
  by (induction ps) auto

definition hash_find :: "('k, 'd) hash_table \<Rightarrow> 'k \<Rightarrow> 'd option" where
  "hash_find tab key =
     (case gfarm_hash_lookup tab key of
        None \<Rightarrow> None
      | Some pos \<Rightarrow> map_option gfarm_hash_entry_data (hash_at tab pos))"

lemma hash_find_chain:
  "hash_find tab key = map_option he_data
     (find (\<lambda>e. ht_equal tab (he_key e) key) (hash_chain tab (HASH_BUCKET tab key)))"
  by (simp add: hash_find_def gfarm_hash_lookup_def GFARM_HASH_LOOKUP_INTERNAL_def hash_at_def
      search_find Let_def gfarm_hash_entry_data_def)

lemma hash_at_lookup:
  "hash_at tab (GFARM_HASH_LOOKUP_INTERNAL tab key)
     = find (\<lambda>e. ht_equal tab (he_key e) key) (hash_chain tab (HASH_BUCKET tab key))"
  by (simp add: GFARM_HASH_LOOKUP_INTERNAL_def hash_at_def search_find Let_def)

text \<open>No two entries of a chain have equal keys.\<close>

definition chain_distinct :: "('k \<Rightarrow> 'k \<Rightarrow> bool) \<Rightarrow> ('k, 'd) hash_entry list \<Rightarrow> bool" where
  "chain_distinct eq ps \<longleftrightarrow> sorted_wrt (\<lambda>e f. \<not> eq (he_key e) (he_key f)) ps"

definition table_ok :: "('k \<Rightarrow> int) \<Rightarrow> ('k \<Rightarrow> 'k \<Rightarrow> bool) \<Rightarrow> ('k, 'd) hash_table \<Rightarrow> bool" where
  "table_ok hash equal tab \<longleftrightarrow> 0 < table_size tab \<and> int (length (buckets tab)) = table_size tab
     \<and> ht_hash tab = hash \<and> ht_equal tab = equal
     \<and> (\<forall>b < length (buckets tab). chain_distinct equal (hash_chain tab b)
          \<and> (\<forall>e \<in> set (hash_chain tab b). HASH_BUCKET tab (he_key e) = b))"

lemma chain_of_update [simp]:
  "b < length (buckets tab) \<Longrightarrow>
     hash_chain (tab\<lparr>buckets := (buckets tab)[b := ps]\<rparr>) b' = (if b' = b then ps else hash_chain tab b')"
  by (simp add: hash_chain_def nth_list_update)

lemma bucket_of_update [simp]:
  "HASH_BUCKET (tab\<lparr>buckets := bs\<rparr>) key = HASH_BUCKET tab key"
  by (simp add: HASH_BUCKET_def)

lemma unlink_chain:
  "fst pos < length (buckets tab) \<Longrightarrow> hash_chain (hash_unlink tab pos) b =
     (if b = fst pos then take (snd pos) (hash_chain tab b) @ drop (Suc (snd pos)) (hash_chain tab b)
      else hash_chain tab b)"
  by (simp add: hash_unlink_def)

lemma unlink_fields [simp]:
  "ht_equal (hash_unlink tab pos) = ht_equal tab" "ht_hash (hash_unlink tab pos) = ht_hash tab"
  "table_size (hash_unlink tab pos) = table_size tab"
  "length (buckets (hash_unlink tab pos)) = length (buckets tab)"
  "HASH_BUCKET (hash_unlink tab pos) key = HASH_BUCKET tab key"
  by (simp_all add: hash_unlink_def HASH_BUCKET_def)

subsection \<open>Size of an entry\<close>

text \<open>For lengths that are non-negative C integers the size of an entry does not overflow.\<close>

definition hash_len_ok :: "int \<Rightarrow> bool" where
  "hash_len_ok n \<longleftrightarrow> 0 \<le> n \<and> n < 2 ^ 31"

lemma unat_of_len: "hash_len_ok n \<Longrightarrow> unat (word_of_int n :: u64) = nat n"
  by (simp add: hash_len_ok_def unat_eq_nat_uint uint_word_of_int)

lemma nat_len: "hash_len_ok n \<Longrightarrow> nat n < 2 ^ 31"
  by (simp add: hash_len_ok_def nat_less_iff)

lemma ALIGN_le: "hash_len_ok n \<Longrightarrow> unat (ALIGN (word_of_int n)) \<le> nat n + 15"
proof -
  assume ok: "hash_len_ok n"
  have "nat n < 2 ^ 31" using ok by (rule nat_len)
  then have "unat (word_of_int n + 15 :: u64) = nat n + 15"
    using unat_of_len [OF ok] by (simp add: unat_word_ariths)
  moreover have "(word_of_int n + 15 :: u64) AND NOT 15 \<le> word_of_int n + 15"
    by (rule word_and_le2)
  ultimately show ?thesis by (simp add: ALIGN_def word_le_nat_alt)
qed

definition hash_entry_size :: "int \<Rightarrow> int \<Rightarrow> u64" where
  "hash_entry_size keylen datalen = ALIGN 16 + ALIGN (word_of_int keylen) + word_of_int datalen"

lemma entry_size_no_overflow:
  assumes "hash_len_ok keylen" and "hash_len_ok datalen"
  shows "gfarm_size_add False (ALIGN 16) (ALIGN (word_of_int keylen))
      = (False, ALIGN 16 + ALIGN (word_of_int keylen))"
    and "gfarm_size_add False (ALIGN 16 + ALIGN (word_of_int keylen)) (word_of_int datalen)
      = (False, hash_entry_size keylen datalen)"
proof -
  let ?k = "ALIGN (word_of_int keylen)" and ?d = "word_of_int datalen :: u64"
  have a: "unat (ALIGN 16) = 16" by (simp add: ALIGN_def)
  have k: "unat ?k \<le> 2 ^ 31 + 15"
    using ALIGN_le [OF assms(1)] nat_len [OF assms(1)] by linarith
  have d: "unat ?d < 2 ^ 31" using unat_of_len [OF assms(2)] nat_len [OF assms(2)] by simp
  have "\<not> fst (gfarm_size_add False (ALIGN 16) ?k)" using a k by (simp add: size_add_overflow_iff)
  then show "gfarm_size_add False (ALIGN 16) ?k = (False, ALIGN 16 + ?k)"
    by (simp add: gfarm_size_add_def Let_def split: if_splits)
  have "unat (ALIGN 16 + ?k) = 16 + unat ?k" using a k by (simp add: unat_word_ariths)
  then have "\<not> fst (gfarm_size_add False (ALIGN 16 + ?k) ?d)"
    using k d by (simp add: size_add_overflow_iff)
  then show "gfarm_size_add False (ALIGN 16 + ?k) ?d = (False, hash_entry_size keylen datalen)"
    by (simp add: gfarm_size_add_def hash_entry_size_def Let_def split: if_splits)
qed

lemma enter_cases:
  assumes "hash_len_ok keylen" and "hash_len_ok datalen"
  shows "gfarm_hash_enter mal d0 tab key keylen datalen =
    (let pp = GFARM_HASH_LOOKUP_INTERNAL tab key
     in if hash_at tab pp \<noteq> None then (tab, Some pp, False)
        else if \<not> mal (hash_entry_size keylen datalen) then (tab, None, False)
        else (tab\<lparr>buckets := (buckets tab)[fst pp := hash_chain tab (fst pp) @
                 [\<lparr>he_key = key, he_key_length = keylen, he_data = d0, he_data_length = datalen\<rparr>]]\<rparr>,
              Some pp, True))"
  by (simp add: gfarm_hash_enter_def entry_size_no_overflow [OF assms] Let_def)

subsection \<open>Tables as maps\<close>

lemma search_cong:
  "map he_key ps = map he_key qs \<Longrightarrow>
     gfarm_hash_lookup_internal_search eq ps key = gfarm_hash_lookup_internal_search eq qs key"
proof (induction ps arbitrary: qs)
  case (Cons p ps)
  then show ?case by (cases qs) auto
qed auto

lemma find_remove:
  "k < length ps \<Longrightarrow> \<not> P (ps ! k) \<Longrightarrow> find P (take k ps @ drop (Suc k) ps) = find P ps"
proof (induction ps arbitrary: k)
  case (Cons p ps)
  then show ?case by (cases k) auto
qed simp

lemma chain_distinct_remove:
  assumes "chain_distinct eq ps"
  shows "chain_distinct eq (take k ps @ drop (Suc k) ps)"
proof (cases "k < length ps")
  case True
  then have "ps = take k ps @ ps ! k # drop (Suc k) ps" by (rule id_take_nth_drop)
  with assms have "sorted_wrt (\<lambda>e f. \<not> eq (he_key e) (he_key f)) (take k ps @ ps ! k # drop (Suc k) ps)"
    by (simp add: chain_distinct_def)
  then show ?thesis by (auto simp: chain_distinct_def sorted_wrt_append)
qed (use assms in simp)

lemma chain_distinct_cong:
  "map he_key ps = map he_key qs \<Longrightarrow> chain_distinct eq ps = chain_distinct eq qs"
  using sorted_wrt_map [of "\<lambda>a b. \<not> eq a b" he_key ps] sorted_wrt_map [of "\<lambda>a b. \<not> eq a b" he_key qs]
  by (simp add: chain_distinct_def)

lemma table_ok_update:
  assumes "table_ok hash equal tab" and "b < length (buckets tab)" and "chain_distinct equal ps"
    and "\<And>e. e \<in> set ps \<Longrightarrow> HASH_BUCKET tab (he_key e) = b"
  shows "table_ok hash equal (tab\<lparr>buckets := (buckets tab)[b := ps]\<rparr>)"
  unfolding table_ok_def
proof (intro conjI allI impI)
  fix c
  assume c: "c < length (buckets (tab\<lparr>buckets := (buckets tab)[b := ps]\<rparr>))"
  show "chain_distinct equal (hash_chain (tab\<lparr>buckets := (buckets tab)[b := ps]\<rparr>) c)"
    using assms(1-3) c by (simp add: table_ok_def)
  show "\<forall>e \<in> set (hash_chain (tab\<lparr>buckets := (buckets tab)[b := ps]\<rparr>) c).
      HASH_BUCKET (tab\<lparr>buckets := (buckets tab)[b := ps]\<rparr>) (he_key e) = c"
    using assms(1,2,4) c by (simp add: table_ok_def)
qed (use assms(1) in \<open>simp_all add: table_ok_def\<close>)

context hash_keys
begin

lemma bucket_less: "table_ok hash equal tab \<Longrightarrow> HASH_BUCKET tab key < length (buckets tab)"
  using cmod_less [of "table_size tab" "hash key"] by (auto simp: table_ok_def HASH_BUCKET_def)

lemma bucket_equal: "table_ok hash equal tab \<Longrightarrow> equal k k' \<Longrightarrow> HASH_BUCKET tab k = HASH_BUCKET tab k'"
  by (simp add: table_ok_def HASH_BUCKET_def hash_equal)

lemma equal_subst: "equal k k' \<Longrightarrow> equal x k = equal x k'"
  using equal_sym equal_trans by blast

lemma hash_find_cong:
  "table_ok hash equal tab \<Longrightarrow> equal k k' \<Longrightarrow> hash_find tab k = hash_find tab k'"
  using bucket_equal [of tab k k'] equal_subst [of k k'] by (simp add: hash_find_chain table_ok_def)

lemma lookup_cong:
  fixes tab :: "('k, 'd) hash_table"
  assumes ok: "table_ok hash equal tab" and eq: "equal k k'"
  shows "gfarm_hash_lookup tab k = gfarm_hash_lookup tab k'"
proof -
  have "gfarm_hash_lookup_internal_search equal ps k = gfarm_hash_lookup_internal_search equal ps k'"
    for ps :: "('k, 'd) hash_entry list" using eq equal_subst by (induction ps) auto
  then show ?thesis using ok bucket_equal [OF ok eq]
    by (simp add: gfarm_hash_lookup_def GFARM_HASH_LOOKUP_INTERNAL_def table_ok_def Let_def)
qed

lemma lookup_entry:
  assumes "table_ok hash equal tab" and "gfarm_hash_lookup tab key = Some pos"
  shows "\<exists>e. hash_at tab pos = Some e \<and> equal (he_key e) key \<and> hash_find tab key = Some (he_data e)"
proof -
  have pos: "pos = GFARM_HASH_LOOKUP_INTERNAL tab key" "hash_at tab pos \<noteq> None"
    using assms(2) by (auto simp: gfarm_hash_lookup_def Let_def split: if_splits)
  then obtain e where e: "hash_at tab pos = Some e" by blast
  then have f: "find (\<lambda>e. ht_equal tab (he_key e) key) (hash_chain tab (HASH_BUCKET tab key)) = Some e"
    using pos(1) hash_at_lookup [of tab key] by simp
  then have "equal (he_key e) key" using assms(1) by (auto simp: find_Some_iff table_ok_def)
  with e f show ?thesis by (simp add: hash_find_chain)
qed

lemma search_same_iff:
  assumes "gfarm_hash_lookup_internal_search equal ps k < length ps"
  shows "gfarm_hash_lookup_internal_search equal ps k'
      = gfarm_hash_lookup_internal_search equal ps k \<longleftrightarrow> equal k k'"
proof
  assume "equal k k'"
  then show "gfarm_hash_lookup_internal_search equal ps k'
      = gfarm_hash_lookup_internal_search equal ps k"
    by (induction ps) (simp_all add: equal_subst)
next
  let ?i = "gfarm_hash_lookup_internal_search equal ps k"
  have found: "equal (he_key (ps ! gfarm_hash_lookup_internal_search equal ps x)) x"
    if "gfarm_hash_lookup_internal_search equal ps x < length ps" for x
    using that by (induction ps) auto
  assume "gfarm_hash_lookup_internal_search equal ps k' = ?i"
  with found [of k'] found [of k] assms have "equal (he_key (ps ! ?i)) k'" "equal (he_key (ps ! ?i)) k"
    by simp_all
  then show "equal k k'" using equal_sym equal_trans by blast
qed

text \<open>Entering a key: the map grows by it, unless it is there already or memory runs out.\<close>

lemma enter_spec:
  assumes ok: "table_ok hash equal tab" and len: "hash_len_ok keylen" "hash_len_ok datalen"
    and enter: "gfarm_hash_enter mal d0 tab key keylen datalen = (tab', pos, created)"
  shows "table_ok hash equal tab'
    \<and> (pos = None \<longrightarrow> tab' = tab \<and> \<not> created \<and> gfarm_hash_lookup tab key = None
         \<and> \<not> mal (hash_entry_size keylen datalen))
    \<and> (pos \<noteq> None \<longrightarrow> gfarm_hash_lookup tab' key = pos
         \<and> (created \<longleftrightarrow> gfarm_hash_lookup tab key = None)
         \<and> hash_find tab' = (if created then (\<lambda>k'. if equal key k' then Some d0 else hash_find tab k')
                              else hash_find tab))"
proof -
  let ?b = "HASH_BUCKET tab key" and ?pp = "GFARM_HASH_LOOKUP_INTERNAL tab key"
  let ?ch = "hash_chain tab ?b"
  let ?new = "\<lparr>he_key = key, he_key_length = keylen, he_data = d0, he_data_length = datalen\<rparr>"
  note e = enter [unfolded enter_cases [OF len] Let_def]
  have fst: "fst ?pp = ?b" by (simp add: GFARM_HASH_LOOKUP_INTERNAL_def Let_def)
  have b: "?b < length (buckets tab)" by (rule bucket_less [OF ok])
  have eq: "ht_equal tab = equal" using ok by (simp add: table_ok_def)
  show ?thesis
  proof (cases "hash_at tab ?pp = None")
    case False
    with e ok show ?thesis by (auto simp: gfarm_hash_lookup_def Let_def)
  next
    case none: True
    then have nf: "\<forall>x \<in> set ?ch. \<not> equal (he_key x) key"
      by (simp add: hash_at_lookup eq find_None_iff)
    show ?thesis
    proof (cases "mal (hash_entry_size keylen datalen)")
      case False
      with e none ok show ?thesis by (auto simp: gfarm_hash_lookup_def Let_def)
    next
      case True
      let ?t = "tab\<lparr>buckets := (buckets tab)[?b := ?ch @ [?new]]\<rparr>"
      have r: "tab' = ?t" "pos = Some ?pp" "created"
        using e none True by (simp_all add: fst)
      have "chain_distinct equal (?ch @ [?new])"
        using ok b nf by (auto simp: table_ok_def chain_distinct_def sorted_wrt_append)
      then have ok': "table_ok hash equal ?t"
        using ok b by (intro table_ok_update) (auto simp: table_ok_def)
      have "gfarm_hash_lookup_internal_search equal (?ch @ [?new]) key
          = gfarm_hash_lookup_internal_search equal ?ch key"
        using nf by (simp add: search_snoc equal_refl)
      then have pp: "GFARM_HASH_LOOKUP_INTERNAL ?t key = ?pp"
        using b eq by (simp add: GFARM_HASH_LOOKUP_INTERNAL_def Let_def)
      have "find (\<lambda>x. equal (he_key x) key) ?ch = None" using nf by (simp add: find_None_iff)
      then have "find (\<lambda>x. equal (he_key x) key) (?ch @ [?new]) = Some ?new"
        by (simp add: find_append equal_refl)
      then have "hash_at ?t ?pp = Some ?new"
        using hash_at_lookup [of ?t key] b eq pp by simp
      then have "gfarm_hash_lookup ?t key = Some ?pp" using pp by (simp add: gfarm_hash_lookup_def Let_def)
      moreover have "gfarm_hash_lookup tab key = None" using none by (simp add: gfarm_hash_lookup_def Let_def)
      moreover have "hash_find ?t k' = (if equal key k' then Some d0 else hash_find tab k')" for k'
      proof (cases "equal key k'")
        case True
        have "find (\<lambda>x. equal (he_key x) k') ?ch = None"
          using nf equal_subst [OF True] by (simp add: find_None_iff)
        with True bucket_equal [OF ok True] b eq show ?thesis
          by (simp add: hash_find_chain find_append)
      next
        case False
        with b eq show ?thesis
          by (cases "find (\<lambda>x. equal (he_key x) k') (hash_chain tab (HASH_BUCKET tab k'))")
            (auto simp: hash_find_chain find_append)
      qed
      ultimately show ?thesis using r ok' by auto
    qed
  qed
qed

text \<open>Storing through the pointer to an entry.\<close>

lemma store_find:
  assumes ok: "table_ok hash equal tab" and pos: "gfarm_hash_lookup tab key = Some pos"
  shows "table_ok hash equal (hash_store tab pos d)
    \<and> hash_find (hash_store tab pos d) = (\<lambda>k'. if equal key k' then Some d else hash_find tab k')"
proof -
  let ?b = "HASH_BUCKET tab key"
  let ?ch = "hash_chain tab ?b"
  let ?i = "gfarm_hash_lookup_internal_search equal ?ch key"
  let ?ch' = "?ch[?i := (?ch ! ?i)\<lparr>he_data := d\<rparr>]"
  let ?t = "hash_store tab pos d"
  have eq: "ht_equal tab = equal" using ok by (simp add: table_ok_def)
  have b: "?b < length (buckets tab)" by (rule bucket_less [OF ok])
  have p: "pos = (?b, ?i)" and i: "?i < length ?ch"
    using pos eq by (auto simp: gfarm_hash_lookup_def GFARM_HASH_LOOKUP_INTERNAL_def hash_at_def
        Let_def split: if_splits)
  have keys: "map he_key ?ch' = map he_key ?ch" using i
    by (intro nth_equalityI) (auto simp: nth_list_update)
  have t: "?t = tab\<lparr>buckets := (buckets tab)[?b := ?ch']\<rparr>" using p by (simp add: hash_store_def)
  have "chain_distinct equal ?ch'"
    using ok b chain_distinct_cong [OF keys] by (simp add: table_ok_def)
  moreover have "HASH_BUCKET tab (he_key x) = ?b" if "x \<in> set ?ch'" for x
  proof -
    have "he_key x \<in> set (map he_key ?ch')" unfolding set_map by (rule imageI [OF that])
    then have "he_key x \<in> set (map he_key ?ch)" unfolding keys .
    then obtain y where y: "y \<in> set ?ch" "he_key x = he_key y" unfolding set_map by blast
    have "\<forall>e \<in> set ?ch. HASH_BUCKET tab (he_key e) = ?b" using ok b by (simp add: table_ok_def)
    with y show ?thesis by simp
  qed
  ultimately have "table_ok hash equal ?t" unfolding t by (intro table_ok_update [OF ok b])
  moreover have "hash_find ?t k' = (if equal key k' then Some d else hash_find tab k')" for k'
  proof (cases "HASH_BUCKET tab k' = ?b")
    case False
    then have "\<not> equal key k'" using bucket_equal [OF ok] by metis
    with False b eq t show ?thesis by (simp add: hash_find_chain)
  next
    case True
    have s: "gfarm_hash_lookup_internal_search equal ?ch' k'
        = gfarm_hash_lookup_internal_search equal ?ch k'" by (rule search_cong [OF keys])
    show ?thesis
      using True b eq t i search_same_iff [OF i, of k']
      by (auto simp: hash_find_chain search_find s Let_def nth_list_update)
  qed
  ultimately show ?thesis by auto
qed

lemma table_purge_spec:
  assumes ok: "table_ok hash equal tab" and purge: "gfarm_hash_purge tab key = (tab', purged)"
  shows "table_ok hash equal tab' \<and> (purged \<longleftrightarrow> gfarm_hash_lookup tab key \<noteq> None)
    \<and> hash_find tab' = (\<lambda>k'. if equal key k' then None else hash_find tab k')"
proof -
  let ?b = "HASH_BUCKET tab key" and ?pp = "GFARM_HASH_LOOKUP_INTERNAL tab key"
  let ?ch = "hash_chain tab ?b"
  let ?i = "gfarm_hash_lookup_internal_search equal ?ch key"
  have eq: "ht_equal tab = equal" using ok by (simp add: table_ok_def)
  have b: "?b < length (buckets tab)" by (rule bucket_less [OF ok])
  have pp: "?pp = (?b, ?i)" using eq by (simp add: GFARM_HASH_LOOKUP_INTERNAL_def Let_def)
  show ?thesis
  proof (cases "hash_at tab ?pp = None")
    case True
    have "hash_find tab k' = None" if "equal key k'" for k'
      using True hash_at_lookup [of tab key] bucket_equal [OF ok that] eq equal_subst [OF that]
      by (simp add: hash_find_chain)
    with True purge ok show ?thesis
      by (auto simp: gfarm_hash_purge_def gfarm_hash_lookup_def Let_def)
  next
    case False
    then have i: "?i < length ?ch" using pp by (auto simp: hash_at_def split: if_splits)
    let ?ch' = "take ?i ?ch @ drop (Suc ?i) ?ch"
    let ?t = "hash_unlink tab ?pp"
    have r: "tab' = ?t" "purged" "gfarm_hash_lookup tab key \<noteq> None"
      using False purge by (auto simp: gfarm_hash_purge_def gfarm_hash_lookup_def Let_def)
    have chain: "hash_chain ?t c = (if c = ?b then ?ch' else hash_chain tab c)" for c
      using unlink_chain [of ?pp tab c] b pp by simp
    have dist: "chain_distinct equal ?ch" using ok b by (simp add: table_ok_def)
    have "chain_distinct equal ?ch'" by (rule chain_distinct_remove [OF dist])
    moreover have "set ?ch' \<subseteq> set ?ch"
      using set_take_subset [of ?i ?ch] set_drop_subset [of "Suc ?i" ?ch] by auto
    moreover have "\<forall>e \<in> set ?ch. HASH_BUCKET tab (he_key e) = ?b" using ok b by (simp add: table_ok_def)
    ultimately have ok': "table_ok hash equal ?t"
      unfolding hash_unlink_def pp fst_conv snd_conv by (intro table_ok_update [OF ok b]) blast+
    have at: "equal (he_key (?ch ! ?i)) key"
      using search_find [of equal key ?ch] i by (auto simp: Let_def find_Some_iff split: if_splits)
    have "hash_find ?t k' = (if equal key k' then None else hash_find tab k')" for k'
    proof (cases "HASH_BUCKET tab k' = ?b")
      case False
      then have "\<not> equal key k'" using bucket_equal [OF ok] by metis
      with False eq show ?thesis by (simp add: hash_find_chain chain)
    next
      case True
      show ?thesis
      proof (cases "equal key k'")
        case k: True
        have "\<not> equal (he_key x) k'" if "x \<in> set ?ch'" for x
        proof
          assume "equal (he_key x) k'"
          then have x: "equal (he_key x) (he_key (?ch ! ?i))" "equal (he_key (?ch ! ?i)) (he_key x)"
            using k at equal_sym equal_trans by blast+
          from dist id_take_nth_drop [OF i]
          have "sorted_wrt (\<lambda>e f. \<not> equal (he_key e) (he_key f))
              (take ?i ?ch @ ?ch ! ?i # drop (Suc ?i) ?ch)" by (simp add: chain_distinct_def)
          with that x show False by (auto simp: sorted_wrt_append)
        qed
        then have "find (\<lambda>x. equal (he_key x) k') ?ch' = None"
          unfolding find_None_iff by blast
        with True k eq show ?thesis by (simp add: hash_find_chain chain)
      next
        case nk: False
        have "\<not> equal (he_key (?ch ! ?i)) k'" using nk at equal_sym equal_trans by blast
        then have "find (\<lambda>x. equal (he_key x) k') ?ch' = find (\<lambda>x. equal (he_key x) k') ?ch"
          by (rule find_remove [OF i])
        with True nk eq show ?thesis by (simp add: hash_find_chain chain)
      qed
    qed
    with r ok' show ?thesis by auto
  qed
qed

end

text \<open>
  The table as a dictionary, with the sizes of its blocks and an allocator that never
  refuses: entering a key and storing its data.
\<close>

definition hash_put ::
  "int \<Rightarrow> int \<Rightarrow> 'd \<Rightarrow> ('k, 'd) hash_table \<Rightarrow> 'k \<Rightarrow> 'd \<Rightarrow> ('k, 'd) hash_table" where
  "hash_put keylen datalen d0 tab key d =
     (case gfarm_hash_enter (\<lambda>_. True) d0 tab key keylen datalen of
        (tab', Some pos, created) \<Rightarrow> hash_store tab' pos d
      | (tab', None, created) \<Rightarrow> tab')"

definition hash_del :: "('k, 'd) hash_table \<Rightarrow> 'k \<Rightarrow> ('k, 'd) hash_table" where
  "hash_del tab key = fst (gfarm_hash_purge tab key)"

lemma hash_len_ok_8 [simp]: "hash_len_ok 8" by (simp add: hash_len_ok_def)

sublocale hash_keys \<subseteq> dictionary hash_find "hash_put 8 8 d0" hash_del "table_ok hash equal" equal
proof (unfold_locales, goal_cases)
  case (1 tab key d)
  obtain tab' pos created where e: "gfarm_hash_enter (\<lambda>_. True) d0 tab key 8 8 = (tab', pos, created)"
    by (cases "gfarm_hash_enter (\<lambda>_. True) d0 tab key 8 8") auto
  note en = enter_spec [OF 1 hash_len_ok_8 hash_len_ok_8 e]
  then have "table_ok hash equal tab'" by simp
  from en store_find [OF this, of key _ d] e show ?case by (cases pos) (auto simp: hash_put_def)
next
  case (2 tab key)
  show ?case using table_purge_spec [OF 2] by (simp add: hash_del_def) (metis prod.collapse)
next
  case (3 tab key d key')
  obtain tab' pos created where e: "gfarm_hash_enter (\<lambda>_. True) d0 tab key 8 8 = (tab', pos, created)"
    by (cases "gfarm_hash_enter (\<lambda>_. True) d0 tab key 8 8") auto
  note en = enter_spec [OF 3 hash_len_ok_8 hash_len_ok_8 e]
  then have ok: "table_ok hash equal tab'" by simp
  from en obtain p where p: "pos = Some p" by (cases pos) auto
  from en p have "gfarm_hash_lookup tab' key = Some p" by simp
  from store_find [OF ok this, of d] en p e show ?case by (auto simp: hash_put_def split: if_splits)
next
  case (4 tab key key')
  show ?case using table_purge_spec [OF 4] by (simp add: hash_del_def) (metis prod.collapse)
qed

subsection \<open>The hash functions of the library\<close>

lemma hash_top_mask: "(0xf0000000 :: u32) = NOT (mask 28)"
  by (simp add: mask_eq_exp_minus_1)

lemma hash_step_bound: "bit (hash_step h c) n \<Longrightarrow> n < 28"
proof (rule ccontr)
  assume b: "bit (hash_step h c) n" and "\<not> n < 28"
  then have n: "28 \<le> n" "n < 32" using bit_imp_le_length [OF b] by simp_all
  obtain x where x: "x = push_bit 4 h + ucast c" by blast
  have "hash_step h c = (if x AND NOT (mask 28) \<noteq> 0
      then (x XOR drop_bit 24 (x AND NOT (mask 28))) XOR (x AND NOT (mask 28)) else x)"
    by (simp add: hash_step_def hash_top_mask Let_def x)
  moreover have "bit (x AND NOT (mask 28)) n = bit x n" using n by (simp add: bit_simps)
  moreover have "\<not> bit (drop_bit 24 (x AND NOT (mask 28))) n"
    using n bit_imp_le_length [of x "24 + n"] by (auto simp: bit_simps)
  ultimately show False using b by (auto simp: bit_xor_iff split: if_splits)
qed

lemma foldl_hash_bound: "bit (foldl hash_step 0 key) n \<Longrightarrow> n < 28"
  by (cases key rule: rev_cases) (auto dest: hash_step_bound)

lemma foldl_hash_small: "uint (foldl hash_step 0 key) < 2 ^ 28"
proof -
  have "uint (foldl hash_step 0 key) = take_bit 28 (uint (foldl hash_step 0 key))"
    by (rule bit_eqI) (auto simp: bit_take_bit_iff bit_uint_iff dest: foldl_hash_bound)
  then show ?thesis by (metis take_bit_int_less_exp)
qed

lemma hash_default_range: "0 \<le> gfarm_hash_default key \<and> gfarm_hash_default key < 2 ^ 28"
proof -
  let ?h = "foldl hash_step 0 key"
  have "- (2 ^ 31) \<le> uint ?h" by (rule order_trans [of _ 0]) simp_all
  then have "sint ?h = uint ?h"
    using foldl_hash_small [of key] by (simp add: sint_uint signed_take_bit_int_eq_self_iff)
  then show ?thesis using foldl_hash_small [of key] by (simp add: gfarm_hash_default_def)
qed

lemma hash_casefold_default: "gfarm_hash_casefold key = gfarm_hash_default (map tolower key)"
  by (simp add: gfarm_hash_casefold_def gfarm_hash_default_def foldl_map)

lemma casefold_bytes_equal_iff:
  "length xs = length ys \<Longrightarrow> casefold_bytes_equal xs ys \<longleftrightarrow> map tolower xs = map tolower ys"
  by (induction xs ys rule: list_induct2) auto

lemma key_equal_casefold_iff:
  "gfarm_hash_key_equal_casefold xs ys \<longleftrightarrow> map tolower xs = map tolower ys"
  by (auto simp: gfarm_hash_key_equal_casefold_def casefold_bytes_equal_iff dest: map_eq_imp_length_eq)

lemma key_equal_default_iff: "gfarm_hash_key_equal_default xs ys \<longleftrightarrow> xs = ys"
  by (auto simp: gfarm_hash_key_equal_default_def)

text \<open>The short cuts of \<open>hash_strptr.c\<close> do not change the comparison.\<close>

lemma key_equal_strptr_iff: "gfarm_hash_key_equal_strptr xs ys \<longleftrightarrow> xs = ys"
  by (auto simp: gfarm_hash_key_equal_strptr_def key_equal_default_iff)

lemma key_equal_casefold_strptr_iff:
  "gfarm_hash_key_equal_casefold_strptr xs ys \<longleftrightarrow> map tolower xs = map tolower ys"
proof -
  have "tolower (c_first xs) = tolower (c_first ys)" if "map tolower xs = map tolower ys"
    using that by (cases xs; cases ys) (auto simp: c_first_def)
  moreover have "length xs = length ys" if "map tolower xs = map tolower ys"
    using that by (rule map_eq_imp_length_eq)
  ultimately show ?thesis
    by (auto simp: gfarm_hash_key_equal_casefold_strptr_def key_equal_casefold_iff)
qed

interpretation hk_default: hash_keys gfarm_hash_default gfarm_hash_key_equal_default
  by unfold_locales (auto simp: key_equal_default_iff hash_default_range)

interpretation hk_casefold: hash_keys gfarm_hash_casefold gfarm_hash_key_equal_casefold
  by unfold_locales (auto simp: key_equal_casefold_iff hash_casefold_default hash_default_range)

interpretation hk_strptr: hash_keys gfarm_hash_strptr gfarm_hash_key_equal_strptr
  by unfold_locales (auto simp: key_equal_strptr_iff gfarm_hash_strptr_def hash_default_range)

interpretation hk_casefold_strptr:
  hash_keys gfarm_hash_casefold_strptr gfarm_hash_key_equal_casefold_strptr
  by unfold_locales (auto simp: key_equal_casefold_strptr_iff gfarm_hash_casefold_strptr_def
      hash_casefold_default hash_default_range)

subsection \<open>Iteration\<close>

text \<open>What an iterator has still to visit, when it stands inside the bucket it counts.\<close>

definition it_standing :: "('k, 'd) hash_table \<Rightarrow> hash_iterator \<Rightarrow> bool" where
  "it_standing tab it \<longleftrightarrow> table_size tab = int (length (buckets tab))
     \<and> bucket_index it = int (fst (it_pp it)) \<and> fst (it_pp it) < length (buckets tab)
     \<and> snd (it_pp it) \<le> length (hash_chain tab (fst (it_pp it)))"

definition it_rest :: "('k, 'd) hash_table \<Rightarrow> hash_iterator \<Rightarrow> ('k, 'd) hash_entry list" where
  "it_rest tab it = drop (snd (it_pp it)) (hash_chain tab (fst (it_pp it)))
     @ concat (drop (Suc (fst (it_pp it))) (buckets tab))"

lemma valid_entry_spec:
  "it_standing tab it \<Longrightarrow> gfarm_hash_iterator_valid_entry tab it = (v, it') \<Longrightarrow>
     (if it_rest tab it = [] then \<not> v
      else v \<and> it_standing tab it' \<and> it_rest tab it' = it_rest tab it
           \<and> hash_at tab (it_pp it') = Some (hd (it_rest tab it)))"
proof (induction tab it arbitrary: v it' rule: gfarm_hash_iterator_valid_entry.induct)
  case (1 tab it)
  obtain b k where pp: "it_pp it = (b, k)" by fastforce
  note st = "1.prems"(1) [unfolded it_standing_def pp fst_conv snd_conv]
  note unf = "1.prems"(2) [unfolded gfarm_hash_iterator_valid_entry.simps [of tab it]]
  have lt: "\<not> bucket_index it \<ge> table_size tab" using st by simp
  show ?case
  proof (cases "hash_at tab (it_pp it) = None")
    case False
    then have k: "k < length (hash_chain tab b)" by (auto simp: hash_at_def pp split: if_splits)
    have "v" "it' = it" using unf lt False by auto
    moreover have "it_rest tab it \<noteq> []" "hd (it_rest tab it) = hash_chain tab b ! k"
      using k by (simp_all add: it_rest_def pp hd_drop_conv_nth)
    moreover have "hash_at tab (it_pp it) = Some (hash_chain tab b ! k)" using k by (simp add: hash_at_def pp)
    ultimately show ?thesis using "1.prems"(1) by simp
  next
    case True
    then have k: "k = length (hash_chain tab b)" using st by (auto simp: hash_at_def pp split: if_splits)
    show ?thesis
    proof (cases "Suc b < length (buckets tab)")
      case False
      then have "\<not> v" using unf lt True st by (auto split: if_splits)
      moreover have "it_rest tab it = []" using False k by (simp add: it_rest_def pp)
      ultimately show ?thesis by simp
    next
      case next_b: True
      let ?it1 = "it\<lparr>bucket_index := bucket_index it + 1\<rparr>"
      let ?it2 = "?it1\<lparr>it_pp := (nat (bucket_index ?it1), 0)\<rparr>"
      have nlt: "\<not> bucket_index ?it1 \<ge> table_size tab" using next_b st by simp
      have step: "gfarm_hash_iterator_valid_entry tab ?it2 = (v, it')"
        using unf lt True nlt by simp
      have pp2: "it_pp ?it2 = (Suc b, 0)" using st by simp
      have st2: "it_standing tab ?it2" using st next_b by (simp add: it_standing_def)
      have "it_rest tab ?it2 = it_rest tab it"
        using k next_b pp2 by (simp add: it_rest_def pp hash_chain_def flip: Cons_nth_drop_Suc)
      with "1.IH" [OF lt _ refl nlt st2 step] True show ?thesis by simp
    qed
  qed
qed

lemma iterate_rest:
  "it_standing tab it \<Longrightarrow> hash_iterate tab it visited = Some (visited @ it_rest tab it)"
proof (induction "length (it_rest tab it)" arbitrary: it visited rule: less_induct)
  case less
  obtain v it1 where v: "gfarm_hash_iterator_valid_entry tab it = (v, it1)" by fastforce
  note spec = valid_entry_spec [OF less.prems v]
  note unf = hash_iterate.simps [of tab it visited]
  show ?case
  proof (cases "it_rest tab it = []")
    case True
    with spec v show ?thesis by (simp add: unf gfarm_hash_iterator_is_end_def)
  next
    case False
    with spec have v: "v" "it_standing tab it1" "it_rest tab it1 = it_rest tab it"
      and at: "hash_at tab (it_pp it1) = Some (hd (it_rest tab it))" by simp_all
    obtain v2 it2 where v2: "gfarm_hash_iterator_valid_entry tab it1 = (v2, it2)" by fastforce
    from valid_entry_spec [OF v(2) v2] v(3) False
    have v2': "v2" "it_standing tab it2" "it_rest tab it2 = it_rest tab it"
      and at2: "hash_at tab (it_pp it2) = Some (hd (it_rest tab it))" by simp_all
    let ?nx = "gfarm_hash_iterator_next tab it2"
    obtain b k where pp: "it_pp it2 = (b, k)" by fastforce
    have k: "k < length (hash_chain tab b)" using at2 pp by (auto simp: hash_at_def split: if_splits)
    have nx: "it_standing tab ?nx" "it_rest tab ?nx = tl (it_rest tab it2)"
      using v2'(2) at2 k pp
      by (auto simp: gfarm_hash_iterator_next_def it_standing_def it_rest_def tl_drop drop_Suc tl_append2
          simp flip: drop_Suc)
    have "length (it_rest tab ?nx) < length (it_rest tab it)" using nx(2) v2'(3) False by simp
    from less.hyps [OF this nx(1)] nx(2) v2'(3) False at2 v2' v v2 \<open>gfarm_hash_iterator_valid_entry tab it = (v, it1)\<close>
    show ?thesis
      by (simp add: unf gfarm_hash_iterator_is_end_def gfarm_hash_iterator_access_def)
  qed
qed

lemma table_alloc_ok:
  assumes "gfarm_hash_table_alloc mal n hash equal = Some tab" and "0 < n"
  shows "table_ok hash equal tab \<and> hash_find tab = (\<lambda>_. None)"
proof -
  have tab: "tab = \<lparr>table_size = n, ht_hash = hash, ht_equal = equal, buckets = replicate (nat n) []\<rparr>"
    using assms(1) by (auto simp: gfarm_hash_table_alloc_def Let_def split: if_splits prod.splits)
  have "hash_chain tab b = []" if "b < nat n" for b using that by (simp add: hash_chain_def tab)
  then have ok: "table_ok hash equal tab"
    using assms(2) by (simp add: table_ok_def tab chain_distinct_def)
  have "HASH_BUCKET tab k < nat n" for k
    using assms(2) cmod_less [of n "hash k"] by (simp add: HASH_BUCKET_def tab)
  then have "hash_chain tab (HASH_BUCKET tab k) = []" for k by (simp add: hash_chain_def tab)
  then have "hash_find tab = (\<lambda>_. None)" by (simp add: hash_find_chain fun_eq_iff)
  with ok show ?thesis by blast
qed

subsection \<open>Properties\<close>

text \<open>The hash functions of the library always yield a number from 0 to 2^28 - 1, so that the
  bucket computed by C's remainder is inside the array; and keys that compare equal have the same
  hash, with and without case folding.\<close>

theorem hash_functions_safe:
  "0 \<le> gfarm_hash_default k \<and> gfarm_hash_default k < 2 ^ 28
   \<and> 0 \<le> gfarm_hash_casefold k \<and> gfarm_hash_casefold k < 2 ^ 28
   \<and> (gfarm_hash_key_equal_casefold_strptr k k' \<longrightarrow>
        gfarm_hash_casefold_strptr k = gfarm_hash_casefold_strptr k')
   \<and> (gfarm_hash_key_equal_strptr k k' \<longleftrightarrow> k = k')"
  using hash_default_range [of k] hash_default_range [of "map tolower k"]
  by (simp add: hash_casefold_default key_equal_casefold_strptr_iff
      gfarm_hash_casefold_strptr_def key_equal_strptr_iff)

theorem hash_functions_safe_witness:
  "gfarm_hash_casefold_strptr [0x48, 0x4F] = gfarm_hash_casefold_strptr [0x68, 0x6F]"
proof -
  have "gfarm_hash_key_equal_casefold_strptr [0x48, 0x4F] [0x68, 0x6F]" by code_simp
  with hash_functions_safe [of "[0x48, 0x4F]" "[0x68, 0x6F]"] show ?thesis by blast
qed

text \<open>C7: a table of string keys is a map. After any sequence of entries (with their data stored)
  and purges, starting from a new table, looking a key up gives what the sequence says: the data
  stored last under an equal key, unless that was purged since; where equal means equal strings, or
  equal up to case for the case-folding functions.\<close>

theorem hash_table_is_map:
  assumes "0 < n"
    and "gfarm_hash_table_alloc mal n gfarm_hash_strptr gfarm_hash_key_equal_strptr = Some tab"
    and "gfarm_hash_table_alloc mal n gfarm_hash_casefold_strptr
           gfarm_hash_key_equal_casefold_strptr = Some tabc"
  shows "hash_find (fold (map_step (hash_put 8 8 d0) hash_del) ops tab)
      = fold (map_spec (=)) ops (\<lambda>_. None)
    \<and> hash_find (fold (map_step (hash_put 8 8 d0) hash_del) ops tabc)
      = fold (map_spec (\<lambda>k k'. map tolower k = map tolower k')) ops (\<lambda>_. None)"
proof -
  note t = table_alloc_ok [OF assms(2,1)] and tc = table_alloc_ok [OF assms(3,1)]
  have "gfarm_hash_key_equal_strptr = (=)" by (simp add: fun_eq_iff key_equal_strptr_iff)
  moreover have "gfarm_hash_key_equal_casefold_strptr = (\<lambda>k k'. map tolower k = map tolower k')"
    by (simp add: fun_eq_iff key_equal_casefold_strptr_iff)
  ultimately show ?thesis
    using hk_strptr.run_refines [OF conjunct1 [OF t], of d0 ops]
      hk_casefold_strptr.run_refines [OF conjunct1 [OF tc], of d0 ops] t tc by simp
qed

text \<open>\<open>gfarm_hash_enter\<close> on every path. It fails only for lack of memory, and then leaves the
  table as it is; otherwise it yields the entry that a lookup of the key finds from then on, creates it
  exactly when there was none, and changes nothing for keys that are not equal.\<close>

theorem hash_enter_outcomes:
  assumes "table_ok gfarm_hash_strptr gfarm_hash_key_equal_strptr tab" and "hash_len_ok datalen"
    and "gfarm_hash_enter mal d0 tab key 8 datalen = (tab', pos, created)"
  shows "table_ok gfarm_hash_strptr gfarm_hash_key_equal_strptr tab'
    \<and> (pos = None \<longrightarrow> tab' = tab \<and> gfarm_hash_lookup tab key = None \<and> \<not> mal (hash_entry_size 8 datalen))
    \<and> (pos \<noteq> None \<longrightarrow> gfarm_hash_lookup tab' key = pos
         \<and> (created \<longleftrightarrow> gfarm_hash_lookup tab key = None)
         \<and> hash_find tab' = (if created then (hash_find tab)(key := Some d0) else hash_find tab))"
proof -
  have "(\<lambda>k'. if gfarm_hash_key_equal_strptr key k' then Some d0 else hash_find tab k')
      = (hash_find tab)(key := Some d0)"
    by (auto simp: fun_eq_iff key_equal_strptr_iff)
  with hk_strptr.enter_spec [OF assms(1) hash_len_ok_8 assms(2,3)] show ?thesis by simp
qed

text \<open>The loop \<open>for (begin; !is_end; next)\<close> ends and visits every entry of the table exactly once,
  in the order of the buckets and of the chains.\<close>

theorem hash_iteration_complete:
  assumes "table_ok hash equal tab"
  shows "hash_iterate tab (gfarm_hash_iterator_begin tab) [] = Some (concat (buckets tab))"
proof -
  let ?it = "gfarm_hash_iterator_begin tab"
  have n: "0 < length (buckets tab)" "table_size tab = int (length (buckets tab))"
    using assms by (auto simp: table_ok_def)
  then have "it_standing tab ?it" by (simp add: it_standing_def gfarm_hash_iterator_begin_def)
  moreover have "it_rest tab ?it = concat (buckets tab)"
    using n(1) by (cases "buckets tab") (simp_all add: it_rest_def gfarm_hash_iterator_begin_def hash_chain_def)
  ultimately show ?thesis using iterate_rest [of tab ?it "[]"] by simp
qed

subsection \<open>Witnesses\<close>

definition sample_table :: "(byte list, int) hash_table" where
  "sample_table =
     (case gfarm_hash_table_alloc (\<lambda>_. True) 3 gfarm_hash_strptr gfarm_hash_key_equal_strptr of
        Some tab \<Rightarrow> tab)"

lemma sample_table_alloc:
  "gfarm_hash_table_alloc (\<lambda>_. True) 3 gfarm_hash_strptr gfarm_hash_key_equal_strptr
     = Some sample_table"
  by (simp add: sample_table_def gfarm_hash_table_alloc_def gfarm_size_mul_def gfarm_size_add_def Let_def)

lemma sample_table_ok: "table_ok gfarm_hash_strptr gfarm_hash_key_equal_strptr sample_table"
  using table_alloc_ok [OF sample_table_alloc] by simp

theorem hash_table_is_map_witness:
  "\<exists>tabc. gfarm_hash_table_alloc (\<lambda>_. True) 3 gfarm_hash_casefold_strptr
       gfarm_hash_key_equal_casefold_strptr = Some tabc
     \<and> hash_find (fold (map_step (hash_put 8 8 0) hash_del) [Put [97] 1, Put [65] (2 :: int)] sample_table) [97]
         = Some 1
     \<and> hash_find (fold (map_step (hash_put 8 8 0) hash_del) [Put [97] 1, Put [65] (2 :: int)] tabc) [97]
         = Some 2"
proof -
  obtain tabc :: "(byte list, int) hash_table" where
    c: "gfarm_hash_table_alloc (\<lambda>_. True) 3 gfarm_hash_casefold_strptr
      gfarm_hash_key_equal_casefold_strptr = Some tabc"
    by (simp add: gfarm_hash_table_alloc_def gfarm_size_mul_def gfarm_size_add_def Let_def)
  from hash_table_is_map [OF _ sample_table_alloc c, of 0 "[Put [97] 1, Put [65] 2]"] c
  show ?thesis by (simp add: tolower_def)
qed

theorem hash_enter_outcomes_witness:
  "\<exists>tab' pos. gfarm_hash_enter (\<lambda>_. True) 5 sample_table [104, 105] 8 4 = (tab', Some pos, True)
     \<and> hash_find tab' [104, 105] = Some 5"
proof -
  have "hash_find sample_table [104, 105] = None"
    using table_alloc_ok [OF sample_table_alloc] by simp
  then have none: "gfarm_hash_lookup sample_table [104, 105] = None"
    by (simp add: hash_find_def gfarm_hash_lookup_def Let_def split: option.splits if_splits)
  obtain tab' pos created where
    e: "gfarm_hash_enter (\<lambda>_. True) 5 sample_table [104, 105] 8 4 = (tab', pos, created)"
    by (cases "gfarm_hash_enter (\<lambda>_. True) 5 sample_table [104, 105] 8 4") auto
  have "hash_len_ok 4" by (simp add: hash_len_ok_def)
  from hash_enter_outcomes [OF sample_table_ok this e] none e show ?thesis by (cases pos) auto
qed

theorem hash_iteration_complete_witness:
  "hash_iterate sample_table (gfarm_hash_iterator_begin sample_table) []
     = Some (concat (buckets sample_table))"
  by (rule hash_iteration_complete [OF sample_table_ok])

end
