(* ===== verification/Id_Table.thy ===== *)
theory Id_Table
  imports Alloc
begin

text \<open>
  \<open>gfutil/id_table.c\<close>: the table that hands out small integers for objects. The index is an array
  sorted by identifier with a hole in the middle (a gap buffer): entries below \<open>hole_start\<close>, the
  head, have identifiers below the next one to be given out, entries from \<open>hole_end\<close> on, the tail,
  have greater ones. A freed entry keeps its place with a null data pointer until it is compacted away.

  Data cells are numbered in the order in which they were allocated, so that a pointer is its number;
  the list of free cells, which the code threads through the cells themselves, is a list. Indices are
  \<open>nat\<close>; identifiers and the two counters of free entries are \<open>int\<close>. An undefined action of the C code
  (a read behind the index, a null pointer, an overflow of \<open>int\<close>) is \<open>None\<close>.
\<close>

record id_index =
  ix_data :: "nat option"
  ix_id :: int

record id_table =
  entry_size :: u64
  id_base :: int
  id_next :: int
  id_limit :: int
  idx_delta :: int
  hole_start :: nat
  hole_end :: nat
  idxsize :: nat
  head_free :: int
  tail_free :: int
  index :: "id_index list"
  free_data :: "nat list"
  chunks :: "nat list"

definition ix_null :: "id_index \<Rightarrow> bool" where
  "ix_null e \<longleftrightarrow> ix_data e = None"

abbreviation ix_used :: "id_index \<Rightarrow> bool" where
  "ix_used e \<equiv> \<not> ix_null e"

definition ALIGN_CEIL_BY :: "u64 \<Rightarrow> u64 \<Rightarrow> u64" where
  "ALIGN_CEIL_BY p alignment = and (p + alignment - 1) (not (alignment - 1))"

text \<open>\<open>sizeof(struct gfarm_id_free_data)\<close> is 8, a power of 2. \<open>ok\<close> says whether memory was granted.\<close>

definition gfarm_id_table_alloc :: "bool \<Rightarrow> u64 \<Rightarrow> id_table option" where
  "gfarm_id_table_alloc ok ops_entry_size =
     (if \<not> ok then None
      else Some
        \<lparr>entry_size = (if ops_entry_size = 0 then 8 else ALIGN_CEIL_BY ops_entry_size 8),
         id_base = 1, id_next = 1, id_limit = 1000000000, idx_delta = 10,
         hole_start = 0, hole_end = 0, idxsize = 0, head_free = 0, tail_free = 0,
         index = [], free_data = [], chunks = []\<rparr>)"

text \<open>The calls of the user's \<open>id_free\<close> that \<open>gfarm_id_table_free\<close> makes, in their order.\<close>

definition gfarm_id_table_free :: "id_table \<Rightarrow> (int \<times> nat option) list" where
  "gfarm_id_table_free tab =
     map (\<lambda>i. (ix_id (index tab ! i), ix_data (index tab ! i)))
       ([0..<hole_start tab] @ [hole_end tab..<idxsize tab])"

definition gfarm_id_table_set_base :: "id_table \<Rightarrow> int \<Rightarrow> id_table" where
  "gfarm_id_table_set_base tab base = tab\<lparr>id_base := base\<rparr>"

definition gfarm_id_table_set_limit :: "id_table \<Rightarrow> int \<Rightarrow> id_table" where
  "gfarm_id_table_set_limit tab limit = tab\<lparr>id_limit := limit\<rparr>"

definition gfarm_id_table_set_initial_size :: "id_table \<Rightarrow> int \<Rightarrow> id_table" where
  "gfarm_id_table_set_initial_size tab sz = tab\<lparr>idx_delta := sz\<rparr>"

subsection \<open>Compaction\<close>

text \<open>The scans \<open>for (; i < n; i++) if (P(xs[i])) break;\<close>
  and \<open>while (i > lo) { --i; if (P(xs[i])) { ++i; break; } }\<close>.\<close>

function scan_up :: "('a \<Rightarrow> bool) \<Rightarrow> 'a list \<Rightarrow> nat \<Rightarrow> nat \<Rightarrow> nat" where
  "scan_up P xs i n = (if i < n \<and> \<not> P (xs ! i) then scan_up P xs (Suc i) n else i)"
  by pat_completeness auto
termination by (relation "measure (\<lambda>(P, xs, i, n). n - i)") auto

fun scan_down :: "('a \<Rightarrow> bool) \<Rightarrow> 'a list \<Rightarrow> nat \<Rightarrow> nat \<Rightarrow> nat" where
  "scan_down P xs 0 lo = 0"
| "scan_down P xs (Suc i) lo =
     (if lo < Suc i \<and> \<not> P (xs ! i) then scan_down P xs i lo else Suc i)"

declare scan_up.simps [simp del]

definition memmove :: "'a list \<Rightarrow> nat \<Rightarrow> nat \<Rightarrow> nat \<Rightarrow> 'a list" where
  "memmove xs dst src n = take dst xs @ take n (drop src xs) @ drop (dst + n) xs"

lemma scan_up_le: "i \<le> n \<Longrightarrow> scan_up P xs i n \<le> n"
  by (induction P xs i n rule: scan_up.induct) (subst scan_up.simps, auto)

lemma scan_up_ge: "i \<le> scan_up P xs i n"
  by (induction P xs i n rule: scan_up.induct) (subst scan_up.simps, auto)

lemma scan_down_le: "scan_down P xs i lo \<le> i"
  by (induction P xs i lo rule: scan_down.induct) auto

lemma scan_progress:
  "i < n \<Longrightarrow> i < scan_up (\<lambda>e. \<not> P e) xs (scan_up P xs i n) n"
proof (cases "P (xs ! i)")
  case True
  then show "i < n \<Longrightarrow> ?thesis"
    using scan_up_ge [of "Suc i" "\<lambda>e. \<not> P e" xs n]
    by (simp add: scan_up.simps [of P xs i n] scan_up.simps [of "\<lambda>e. \<not> P e" xs i n])
next
  case False
  then show "i < n \<Longrightarrow> ?thesis"
    using scan_up_ge [of "Suc i" P xs n] scan_up_ge [of "scan_up P xs (Suc i) n" "\<lambda>e. \<not> P e" xs n]
    by (simp add: scan_up.simps [of P xs i n])
qed

lemma scan_down_progress:
  "lo < i \<Longrightarrow> scan_down (\<lambda>e. \<not> P e) xs (scan_down P xs i lo) lo < i"
  using scan_down_le [of P xs "i - 1" lo] scan_down_le [of "\<lambda>e. \<not> P e" xs "scan_down P xs (i - 1) lo" lo]
    scan_down_le [of "\<lambda>e. \<not> P e" xs "i - 1" lo]
  by (cases i) (auto simp: less_Suc_eq_le)

function compact_head_loop :: "id_index list \<Rightarrow> nat \<Rightarrow> nat \<Rightarrow> nat \<Rightarrow> id_index list \<times> nat" where
  "compact_head_loop xs i space n =
     (if i < n then
        let avail = scan_up ix_used xs i n;
            i' = scan_up ix_null xs avail n;
            avail_len = i' - avail
        in compact_head_loop (memmove xs space avail avail_len) i' (space + avail_len) n
      else (xs, space))"
  by pat_completeness auto
termination
  using scan_progress [where P = ix_used]
  by (relation "measure (\<lambda>(xs, i, space, n). n - i)") (auto simp: diff_less_mono2)

declare compact_head_loop.simps [simp del]

definition gfarm_id_compaction_from_head_force :: "id_table \<Rightarrow> bool \<times> id_table" where
  "gfarm_id_compaction_from_head_force tab =
     (let i = scan_up ix_null (index tab) 0 (hole_start tab)
      in if i \<ge> hole_start tab then (False, tab\<lparr>head_free := 0\<rparr>)
         else
           let (xs, space) = compact_head_loop (index tab) (Suc i) i (hole_start tab)
           in (True, tab\<lparr>index := xs, hole_start := space, head_free := 0\<rparr>))"

function compact_tail_loop :: "id_index list \<Rightarrow> nat \<Rightarrow> nat \<Rightarrow> nat \<Rightarrow> id_index list \<times> nat" where
  "compact_tail_loop xs i space lo =
     (if lo < i then
        let room = scan_down ix_used xs i lo;
            i' = scan_down ix_null xs room lo;
            avail_len = room - i';
            space' = space - avail_len
        in compact_tail_loop (memmove xs (space' + 1) i' avail_len) i' space' lo
      else (xs, space))"
  by pat_completeness auto
termination
  using scan_down_progress [where P = ix_used]
  by (relation "measure (\<lambda>(xs, i, space, lo). i)") auto

declare compact_tail_loop.simps [simp del]

text \<open>
  The first loop ends at the last null entry, or at \<open>hole_end\<close>; the test after it reads that
  place, which is behind the index when \<open>hole_end\<close> is \<open>idxsize\<close>.
\<close>

definition gfarm_id_compaction_from_tail_force :: "id_table \<Rightarrow> (bool \<times> id_table) option" where
  "gfarm_id_compaction_from_tail_force tab =
     (let j = scan_down ix_null (index tab) (idxsize tab) (hole_end tab);
          i = (if j > hole_end tab then j - 1 else j)
      in if i \<ge> idxsize tab then None
         else if i < hole_end tab \<or> ix_used (index tab ! i) then Some (False, tab\<lparr>tail_free := 0\<rparr>)
         else
           let (xs, space) = compact_tail_loop (index tab) i i (hole_end tab)
           in Some (True, tab\<lparr>index := xs, hole_end := space + 1, tail_free := 0\<rparr>))"

definition gfarm_id_compaction_from_head :: "id_table \<Rightarrow> bool \<times> id_table" where
  "gfarm_id_compaction_from_head tab =
     (if head_free tab \<le> 0 then (False, tab) else gfarm_id_compaction_from_head_force tab)"

definition gfarm_id_compaction_from_tail :: "id_table \<Rightarrow> (bool \<times> id_table) option" where
  "gfarm_id_compaction_from_tail tab =
     (if tail_free tab \<le> 0 then Some (False, tab) else gfarm_id_compaction_from_tail_force tab)"

function gfarm_id_shrink_head :: "id_table \<Rightarrow> id_table" where
  "gfarm_id_shrink_head tab =
     (if hole_start tab > 0 then
        if ix_used (index tab ! (hole_start tab - 1)) then tab
        else gfarm_id_shrink_head
               (tab\<lparr>hole_start := hole_start tab - 1, head_free := head_free tab - 1\<rparr>)
      else tab)"
  by pat_completeness auto
termination by (relation "measure hole_start") auto

function gfarm_id_shrink_tail :: "id_table \<Rightarrow> id_table" where
  "gfarm_id_shrink_tail tab =
     (if hole_end tab < idxsize tab then
        if ix_used (index tab ! hole_end tab) then tab
        else gfarm_id_shrink_tail
               (tab\<lparr>hole_end := hole_end tab + 1, tail_free := tail_free tab - 1\<rparr>)
      else tab)"
  by pat_completeness auto
termination by (relation "measure (\<lambda>tab. idxsize tab - hole_end tab)") auto

declare gfarm_id_shrink_head.simps [simp del] gfarm_id_shrink_tail.simps [simp del]

subsection \<open>Binary search\<close>

text \<open>A pointer to an entry is its place in the index.\<close>

function gfarm_id_bsearch :: "id_table \<Rightarrow> nat \<Rightarrow> nat \<Rightarrow> int \<Rightarrow> nat option" where
  "gfarm_id_bsearch tab head tail ident =
     (if head < tail then
        let mid = (head + tail) div 2
        in if ix_id (index tab ! mid) = ident then Some mid
           else if ix_id (index tab ! mid) > ident then gfarm_id_bsearch tab head mid ident
           else gfarm_id_bsearch tab (mid + 1) tail ident
      else None)"
  by pat_completeness auto
termination by (relation "measure (\<lambda>(tab, head, tail, ident). tail - head)") auto

function bsearch_next_loop :: "id_index list \<Rightarrow> nat \<Rightarrow> nat \<Rightarrow> nat \<Rightarrow> int \<Rightarrow> nat" where
  "bsearch_next_loop xs head tail tail_save ident =
     (if head < tail then
        let mid = (head + tail) div 2
        in if ix_id (xs ! mid) = ident then mid
           else if ix_id (xs ! mid) > ident then bsearch_next_loop xs head mid tail_save ident
           else bsearch_next_loop xs (mid + 1) tail tail_save ident
      else if head \<ge> tail_save \<or> ix_id (xs ! head) > ident then head
      else head + 1)"
  by pat_completeness auto
termination by (relation "measure (\<lambda>(xs, head, tail, tail_save, ident). tail - head)") auto

declare gfarm_id_bsearch.simps [simp del] bsearch_next_loop.simps [simp del]

definition gfarm_id_bsearch_next :: "id_table \<Rightarrow> nat \<Rightarrow> nat \<Rightarrow> int \<Rightarrow> nat" where
  "gfarm_id_bsearch_next tab head tail ident = bsearch_next_loop (index tab) head tail tail ident"

subsection \<open>Where the next identifier comes from\<close>

text \<open>The end of both branches of \<open>gfarm_id_rewind\<close>: the counters are recalculated by compaction.\<close>

definition compact_both :: "id_table \<Rightarrow> id_table option" where
  "compact_both tab =
     map_option snd (gfarm_id_compaction_from_tail_force
       (snd (gfarm_id_compaction_from_head_force tab)))"

text \<open>The second half of \<open>gfarm_id_rewind\<close>: the search of the tail from \<open>id\<close> on.\<close>

definition rewind_tail :: "id_table \<Rightarrow> int \<Rightarrow> id_table option" where
  "rewind_tail tab ident =
     (if hole_end tab < idxsize tab \<and> ix_id (index tab ! hole_end tab) \<le> ident then
        let i = scan_up ix_null (index tab)
                  (gfarm_id_bsearch_next tab (hole_end tab) (idxsize tab) ident) (idxsize tab)
        in if i < idxsize tab then
             let n = i - hole_end tab
             in compact_both
                  (tab\<lparr>id_next := ix_id (index tab ! i),
                       index := memmove (index tab) (hole_start tab) (hole_end tab) n,
                       hole_start := hole_start tab + n, hole_end := hole_end tab + (n + 1)\<rparr>)
           else Some (tab\<lparr>id_next := id_limit tab\<rparr>)
      else Some (tab\<lparr>id_next := ident\<rparr>))"

definition gfarm_id_rewind :: "id_table \<Rightarrow> id_table option" where
  "gfarm_id_rewind tab =
     (if hole_start tab > 0 \<and> ix_id (index tab ! (hole_start tab - 1)) \<ge> id_base tab then
        let i = scan_up ix_null (index tab)
                  (gfarm_id_bsearch_next tab 0 (hole_start tab) (id_base tab)) (hole_start tab)
        in if i < hole_start tab then
             let n = hole_start tab - 1 - i
             in compact_both
                  (tab\<lparr>id_next := ix_id (index tab ! i),
                       index := memmove (index tab) (hole_end tab - n) (hole_start tab - n) n,
                       hole_start := hole_start tab - (n + 1), hole_end := hole_end tab - n\<rparr>)
           else rewind_tail tab (ix_id (index tab ! (hole_start tab - 1)) + 1)
      else rewind_tail tab (id_base tab))"

text \<open>The loop over the entries that follow without a gap.\<close>

function next_loop :: "id_index list \<Rightarrow> nat \<Rightarrow> int \<Rightarrow> nat \<Rightarrow> nat \<times> int" where
  "next_loop xs i ident n =
     (if i < n then
        if ix_id (xs ! i) > ident \<or> ix_null (xs ! i) then (i, ident)
        else next_loop xs (Suc i) (ident + 1) n
      else (i, ident))"
  by pat_completeness auto
termination by (relation "measure (\<lambda>(xs, i, ident, n). n - i)") auto

declare next_loop.simps [simp del]

definition gfarm_id_adjust_next :: "id_table \<Rightarrow> id_table option" where
  "gfarm_id_adjust_next tab =
     (if id_next tab \<ge> id_limit tab then gfarm_id_rewind tab
      else if hole_end tab \<ge> idxsize tab \<or> id_next tab < ix_id (index tab ! hole_end tab) then Some tab
      else
        let (i, ident) = next_loop (index tab) (hole_end tab + 1) (id_next tab + 1) (idxsize tab)
        in if ident \<ge> id_limit tab then gfarm_id_rewind tab
           else
             let n = i - hole_end tab
             in Some (gfarm_id_shrink_tail (gfarm_id_shrink_head
                  (tab\<lparr>id_next := ident,
                       index := memmove (index tab) (hole_start tab) (hole_end tab) n,
                       hole_start := hole_start tab + n, hole_end := hole_end tab + n\<rparr>))))"

subsection \<open>Allocation, lookup, release\<close>

text \<open>
  More cells and a larger hole. \<open>mal\<close> and \<open>rea\<close> say whether memory is granted, \<open>junk\<close> is what the
  new part of the index holds. The cells of the new chunk are threaded in ascending order in front of
  the free list. The size of the chunk must not wrap around and \<open>idxsize\<close> must stay an \<open>int\<close>.
\<close>

definition id_table_extend ::
  "(u64 \<Rightarrow> bool) \<Rightarrow> (u64 \<Rightarrow> bool) \<Rightarrow> id_index \<Rightarrow> id_table \<Rightarrow> (bool \<times> id_table) option" where
  "id_table_extend mal rea junk tab =
     (let data_size = 16 + word_of_int (idx_delta tab) * entry_size tab;
          delta = nat (idx_delta tab);
          newsize = idxsize tab + delta
      in if \<not> mal data_size then Some (False, tab)
         else if \<not> rea (word_of_int (int (idxsize tab) + idx_delta tab) * 16) then Some (False, tab)
         else if idx_delta tab \<le> 0 \<or> uint data_size \<noteq> 16 + idx_delta tab * uint (entry_size tab)
             \<or> int newsize > 2147483647 then None
         else Some (True, tab
           \<lparr>chunks := idxsize tab # chunks tab,
            free_data := [idxsize tab..<newsize] @ free_data tab,
            index := memmove (index tab @ replicate delta junk) (hole_end tab + delta) (hole_end tab)
                       (idxsize tab - hole_end tab),
            hole_end := hole_end tab + delta,
            idxsize := newsize,
            idx_delta := (if int (newsize div 2) > idx_delta tab then int (newsize div 2)
                          else idx_delta tab)\<rparr>))"

text \<open>Room for one more entry: a hole, the result of a compaction, or more memory. The flag is false
  when memory is refused.\<close>

definition id_table_room ::
  "(u64 \<Rightarrow> bool) \<Rightarrow> (u64 \<Rightarrow> bool) \<Rightarrow> id_index \<Rightarrow> id_table \<Rightarrow> (bool \<times> id_table) option" where
  "id_table_room mal rea junk tab =
     (if hole_start tab < hole_end tab then Some (True, tab)
      else
        let (done1, tab1) = gfarm_id_compaction_from_head tab
        in if done1 then Some (True, tab1)
           else case gfarm_id_compaction_from_tail tab1 of
                  None \<Rightarrow> None
                | Some (done2, tab2) \<Rightarrow>
                    if done2 then Some (True, tab2) else id_table_extend mal rea junk tab2)"

text \<open>The new entry, before \<open>gfarm_id_adjust_next\<close>.\<close>

definition id_place :: "id_table \<Rightarrow> id_table option" where
  "id_place tab =
     (case free_data tab of
        [] \<Rightarrow> None
      | p # ps \<Rightarrow> Some (tab
          \<lparr>index := (index tab)[hole_start tab := \<lparr>ix_data = Some p, ix_id = id_next tab\<rparr>],
           hole_start := hole_start tab + 1, id_next := id_next tab + 1, free_data := ps\<rparr>))"

text \<open>
  The result is read through the pointer \<open>entry\<close> after the adjustment, that is at the place
  \<open>hole_start\<close> had before, whatever is there then.
\<close>

definition gfarm_id_alloc ::
  "(u64 \<Rightarrow> bool) \<Rightarrow> (u64 \<Rightarrow> bool) \<Rightarrow> id_index \<Rightarrow> id_table
     \<Rightarrow> (id_table \<times> (nat option \<times> int) option) option" where
  "gfarm_id_alloc mal rea junk tab0 =
     (case (if id_next tab0 \<ge> id_limit tab0 then gfarm_id_rewind tab0 else Some tab0) of
        None \<Rightarrow> None
      | Some tab1 \<Rightarrow>
          if id_next tab1 \<ge> id_limit tab1 then Some (tab1, None)
          else
            case id_table_room mal rea junk tab1 of
              None \<Rightarrow> None
            | Some (room, tab2) \<Rightarrow>
                if \<not> room then Some (tab2, None)
                else
                  case id_place tab2 of
                    None \<Rightarrow> None
                  | Some tab3 \<Rightarrow>
                      case gfarm_id_adjust_next tab3 of
                        None \<Rightarrow> None
                      | Some tab4 \<Rightarrow>
                          let entry = index tab4 ! hole_start tab2
                          in Some (tab4, Some (ix_data entry, ix_id entry)))"

definition gfarm_id_lookup :: "id_table \<Rightarrow> int \<Rightarrow> nat option" where
  "gfarm_id_lookup tab ident =
     (case gfarm_id_bsearch tab 0 (hole_start tab) ident of
        Some entry \<Rightarrow> ix_data (index tab ! entry)
      | None \<Rightarrow>
          (case gfarm_id_bsearch tab (hole_end tab) (idxsize tab) ident of
             Some entry \<Rightarrow> ix_data (index tab ! entry)
           | None \<Rightarrow> None))"

text \<open>\<open>entry->data = NULL\<close>, and the cell goes to the front of the free list.\<close>

definition id_clear :: "id_table \<Rightarrow> nat \<Rightarrow> nat \<Rightarrow> id_table" where
  "id_clear tab entry data =
     tab\<lparr>index := (index tab)[entry := (index tab ! entry)\<lparr>ix_data := None\<rparr>],
         free_data := data # free_data tab\<rparr>"

definition gfarm_id_free :: "id_table \<Rightarrow> int \<Rightarrow> id_table \<times> bool" where
  "gfarm_id_free tab ident =
     (case gfarm_id_bsearch tab 0 (hole_start tab) ident of
        Some entry \<Rightarrow>
          (case ix_data (index tab ! entry) of
             None \<Rightarrow> (tab, False)
           | Some data \<Rightarrow>
               let tab1 = (id_clear tab entry data)\<lparr>head_free := head_free tab + 1\<rparr>
               in if entry < hole_start tab - 1 then (tab1, True)
                  else (gfarm_id_shrink_head (tab1\<lparr>hole_start := hole_start tab1 - 1,
                          head_free := head_free tab1 - 1\<rparr>), True))
      | None \<Rightarrow>
          (case gfarm_id_bsearch tab (hole_end tab) (idxsize tab) ident of
             Some entry \<Rightarrow>
               (case ix_data (index tab ! entry) of
                  None \<Rightarrow> (tab, False)
                | Some data \<Rightarrow>
                    let tab1 = (id_clear tab entry data)\<lparr>tail_free := tail_free tab + 1\<rparr>
                    in if entry > hole_end tab then (tab1, True)
                       else (gfarm_id_shrink_tail (tab1\<lparr>hole_end := hole_end tab1 + 1,
                               tail_free := tail_free tab1 - 1\<rparr>), True))
           | None \<Rightarrow> (tab, False)))"

end
