(* ===== verification/Id_Table_Spec.thy ===== *)
theory Id_Table_Spec
  imports Id_Table
begin

text \<open>
  What the identifier table promises: the two parts of the index around the hole as lists
  (\<open>views\<close>), the live pairs of identifier and cell (\<open>pairs\<close>), which no internal reorganisation
  changes, the invariant of the reachable states, and the allocator's contract as a locale.
\<close>

subsection \<open>Scans and compaction on lists\<close>

lemma scan_up_takeWhile:
  "i \<le> n \<Longrightarrow> n \<le> length xs \<Longrightarrow>
     scan_up P xs i n = i + length (takeWhile (\<lambda>x. \<not> P x) (drop i (take n xs)))"
proof (induction P xs i n rule: scan_up.induct)
  case (1 P xs i n)
  show ?case
  proof (cases "i < n")
    case True
    then have "drop i (take n xs) = xs ! i # drop (Suc i) (take n xs)"
      using 1(3) Cons_nth_drop_Suc [of i "take n xs"] by simp
    then show ?thesis using 1 True by (subst scan_up.simps) simp
  next
    case False
    then show ?thesis by (subst scan_up.simps) simp
  qed
qed

lemma scan_down_takeWhile:
  "lo \<le> i \<Longrightarrow> i \<le> length xs \<Longrightarrow>
     scan_down P xs i lo = i - length (takeWhile (\<lambda>x. \<not> P x) (rev (drop lo (take i xs))))"
proof (induction P xs i lo rule: scan_down.induct)
  case (2 P xs i lo)
  show ?case
  proof (cases "lo < Suc i")
    case True
    then have "rev (drop lo (take (Suc i) xs)) = xs ! i # rev (drop lo (take i xs))"
      using 2(3) by (simp add: take_Suc_conv_app_nth)
    then show ?thesis using 2 True by simp
  next
    case False
    with 2(2) have "lo = Suc i" by simp
    then show ?thesis by simp
  qed
qed simp

lemma length_memmove [simp]:
  "dst + n \<le> length xs \<Longrightarrow> src + n \<le> length xs \<Longrightarrow> length (memmove xs dst src n) = length xs"
  by (simp add: memmove_def)

lemma filter_takeWhile: "filter P (takeWhile P xs) = takeWhile P xs"
  by (induction xs) auto

lemma filter_dropWhile_not: "filter P (dropWhile (\<lambda>x. \<not> P x) xs) = filter P xs"
  by (induction xs) auto

lemma filter_run:
  "filter P xs = takeWhile P (dropWhile (\<lambda>x. \<not> P x) xs)
     @ filter P (dropWhile P (dropWhile (\<lambda>x. \<not> P x) xs))"
  using filter_append [of P "takeWhile P (dropWhile (\<lambda>x. \<not> P x) xs)"
      "dropWhile P (dropWhile (\<lambda>x. \<not> P x) xs)"]
  by (simp add: filter_takeWhile filter_dropWhile_not)

text \<open>The segment that a run of nulls and the run of used entries behind it make up.\<close>

lemma scan_run:
  fixes xs :: "id_index list"
  assumes "i < n" and "n \<le> length xs"
  obtains avail i' where "avail = scan_up ix_used xs i n" and "i' = scan_up ix_null xs avail n"
    and "i \<le> avail" and "avail \<le> i'" and "i < i'" and "i' \<le> n"
    and "filter ix_used (drop i (take n xs)) = take (i' - avail) (drop avail xs)
           @ filter ix_used (drop i' (take n xs))"
proof -
  let ?seg = "drop i (take n xs)"
  obtain a b where a: "a = scan_up ix_used xs i n" and b: "b = scan_up ix_null xs a n" by blast
  have le: "i \<le> a" "a \<le> b" "i < b" "b \<le> n"
    using a b assms scan_up_ge [of i ix_used xs n] scan_up_le [of i n ix_used xs]
      scan_up_ge [of a ix_null xs n] scan_up_le [of a n ix_null xs] scan_progress [of i n ix_used xs]
    by auto
  have da: "drop a (take n xs) = dropWhile ix_null ?seg"
    using a scan_up_takeWhile [of i n xs ix_used] assms
    by (simp add: dropWhile_eq_drop add.commute)
  have ba: "b - a = length (takeWhile ix_used (dropWhile ix_null ?seg))"
    using b scan_up_takeWhile [of a n xs ix_null] le assms da by simp
  have db: "drop b (take n xs) = dropWhile ix_used (dropWhile ix_null ?seg)"
  proof -
    have "drop b (take n xs) = drop (b - a) (drop a (take n xs))" using le by simp
    also have "\<dots> = dropWhile ix_used (dropWhile ix_null ?seg)"
      unfolding da by (simp add: ba dropWhile_eq_drop)
    finally show ?thesis .
  qed
  have "take (b - a) (drop a xs) = take (b - a) (drop a (take n xs))"
    using le by (simp add: take_drop)
  also have "\<dots> = takeWhile ix_used (dropWhile ix_null ?seg)"
    unfolding da by (simp add: ba takeWhile_eq_take [symmetric])
  finally have run: "take (b - a) (drop a xs) = takeWhile ix_used (dropWhile ix_null ?seg)" .
  show ?thesis
    by (rule that [OF a b le]) (use filter_run [of ix_used ?seg] in \<open>simp add: run db\<close>)
qed

lemma compact_head_loop_spec:
  "compact_head_loop xs i space n = (ys, sp) \<Longrightarrow> space < i \<Longrightarrow> i \<le> n \<Longrightarrow> n \<le> length xs \<Longrightarrow>
     length ys = length xs \<and> drop n ys = drop n xs
     \<and> sp = space + length (filter ix_used (drop i (take n xs)))
     \<and> take sp ys = take space xs @ filter ix_used (drop i (take n xs))"
proof (induction xs i space n arbitrary: ys sp rule: compact_head_loop.induct)
  case (1 xs i space n)
  note unf = compact_head_loop.simps [of xs i space n]
  show ?case
  proof (cases "i < n")
    case False
    with 1 show ?thesis by (simp add: unf)
  next
    case True
    obtain avail i' where a: "avail = scan_up ix_used xs i n" and i': "i' = scan_up ix_null xs avail n"
      and le: "i \<le> avail" "avail \<le> i'" "i < i'" "i' \<le> n"
      and flt: "filter ix_used (drop i (take n xs)) = take (i' - avail) (drop avail xs)
           @ filter ix_used (drop i' (take n xs))"
      by (rule scan_run [OF True \<open>n \<le> length xs\<close>])
    obtain len where len: "len = i' - avail" by blast
    let ?xs = "memmove xs space avail len"
    have loop: "compact_head_loop ?xs i' (space + len) n = (ys, sp)"
      using 1(2) True by (simp add: unf Let_def a i' len)
    have run: "length (take len (drop avail xs)) = len" using le len 1(5) by simp
    have l: "length ?xs = length xs" using le len 1(3,5) by (simp add: memmove_def)
    have dr: "drop k ?xs = drop k xs" if "space + len \<le> k" for k
      using that le len 1(3,5) by (simp add: memmove_def)
    have tk: "take (space + len) ?xs = take space xs @ take len (drop avail xs)"
      using le len 1(3,5) by (simp add: memmove_def)
    have seg: "drop i' (take n ?xs) = drop i' (take n xs)"
      using dr [of i'] le len 1(3) by (simp add: drop_take)
    have ih: "length ys = length ?xs \<and> drop n ys = drop n ?xs
        \<and> sp = space + len + length (filter ix_used (drop i' (take n ?xs)))
        \<and> take sp ys = take (space + len) ?xs @ filter ix_used (drop i' (take n ?xs))"
      by (rule 1(1) [OF True a i' len loop]) (use le len 1(3,5) l in simp_all)
    have "drop n ?xs = drop n xs" using dr [of n] le len 1(3) by simp
    moreover have "length (filter ix_used (drop i (take n xs)))
        = len + length (filter ix_used (drop i' (take n xs)))"
      using flt run len by simp
    moreover have "take sp ys = take space xs @ filter ix_used (drop i (take n xs))"
      using conjunct2 [OF conjunct2 [OF conjunct2 [OF ih]]] tk seg flt len by simp
    ultimately show ?thesis using ih l seg by simp
  qed
qed

lemma scan_down_ge: "lo \<le> i \<Longrightarrow> lo \<le> scan_down P xs i lo"
  by (induction P xs i lo rule: scan_down.induct) auto

lemma seg_split:
  assumes "lo \<le> k" and "k \<le> i" and "i \<le> length xs"
  shows "drop lo (take i xs) = drop lo (take k xs) @ take (i - k) (drop k xs)"
proof -
  have "take i xs = take k xs @ take (i - k) (drop k xs)"
    using take_add [of k "i - k" xs] assms by simp
  then show ?thesis using assms by simp
qed

lemma scan_run_down:
  fixes xs :: "id_index list"
  assumes "lo < i" and "i \<le> length xs"
  obtains room i' where "room = scan_down ix_used xs i lo" and "i' = scan_down ix_null xs room lo"
    and "room \<le> i" and "i' \<le> room" and "i' < i" and "lo \<le> i'"
    and "filter ix_used (drop lo (take i xs)) =
           filter ix_used (drop lo (take i' xs)) @ take (room - i') (drop i' xs)"
proof -
  let ?seg = "rev (drop lo (take i xs))"
  let ?mid = "dropWhile ix_null ?seg"
  obtain a b where a: "a = scan_down ix_used xs i lo" and b: "b = scan_down ix_null xs a lo" by blast
  have le: "a \<le> i" "b \<le> a" "b < i" "lo \<le> b"
    using a b assms scan_down_le [of ix_used xs i lo] scan_down_le [of ix_null xs a lo]
      scan_down_ge [of lo i ix_used xs] scan_down_ge [of lo a ix_null xs]
      scan_down_progress [of lo i ix_used xs]
    by auto
  have tail: "rev (drop lo (take k xs)) = drop (i - k) ?seg" if "lo \<le> k" "k \<le> i" for k
    using seg_split [OF that assms(2)] that assms by simp
  have ia: "i - a = length (takeWhile ix_null ?seg)"
    using a scan_down_takeWhile [of lo i xs ix_used] le assms
      length_takeWhile_le [of ix_null ?seg] by simp
  have da: "rev (drop lo (take a xs)) = ?mid"
    using tail [of a] le ia by (simp add: dropWhile_eq_drop)
  have "length (takeWhile ix_used ?mid) \<le> a"
    using length_takeWhile_le [of ix_used ?mid] arg_cong [OF da, of length] le assms by simp
  then have ab: "a - b = length (takeWhile ix_used ?mid)"
    using b scan_down_takeWhile [of lo a xs ix_null] le assms da by simp
  have db: "rev (drop lo (take b xs)) = dropWhile ix_used ?mid"
  proof -
    have "rev (drop lo (take b xs)) = drop (a - b) (drop (i - a) ?seg)"
      using tail [of b] le by simp
    also have "drop (i - a) ?seg = ?mid" using ia by (simp add: dropWhile_eq_drop)
    finally show ?thesis by (simp add: ab dropWhile_eq_drop)
  qed
  have "drop lo (take a xs) = drop lo (take b xs) @ take (a - b) (drop b xs)"
    by (rule seg_split) (use le assms in simp_all)
  then have "?mid = rev (take (a - b) (drop b xs)) @ dropWhile ix_used ?mid"
    using da db by (metis rev_append)
  then have run: "rev (take (a - b) (drop b xs)) = takeWhile ix_used ?mid"
    by (metis append_same_eq takeWhile_dropWhile_id)
  have "rev (filter ix_used (drop lo (take i xs)))
      = rev (take (a - b) (drop b xs)) @ rev (filter ix_used (drop lo (take b xs)))"
    using filter_run [of ix_used ?seg] by (simp add: run db rev_filter [symmetric] flip: db)
  then have "filter ix_used (drop lo (take i xs))
      = filter ix_used (drop lo (take b xs)) @ take (a - b) (drop b xs)"
    by (metis rev_append rev_rev_ident)
  then show ?thesis by (rule that [OF a b le])
qed

lemma compact_tail_loop_spec:
  "compact_tail_loop xs i space lo = (ys, sp) \<Longrightarrow> lo \<le> i \<Longrightarrow> i \<le> space \<Longrightarrow> space < length xs \<Longrightarrow>
     length ys = length xs \<and> take lo ys = take lo xs
     \<and> sp + length (filter ix_used (drop lo (take i xs))) = space
     \<and> drop (Suc sp) ys = filter ix_used (drop lo (take i xs)) @ drop (Suc space) xs"
proof (induction xs i space lo arbitrary: ys sp rule: compact_tail_loop.induct)
  case (1 xs i space lo)
  note unf = compact_tail_loop.simps [of xs i space lo]
  show ?case
  proof (cases "lo < i")
    case False
    with 1 show ?thesis by (simp add: unf)
  next
    case True
    obtain room i' where a: "room = scan_down ix_used xs i lo"
      and i': "i' = scan_down ix_null xs room lo"
      and le: "room \<le> i" "i' \<le> room" "i' < i" "lo \<le> i'"
      and flt: "filter ix_used (drop lo (take i xs)) =
           filter ix_used (drop lo (take i' xs)) @ take (room - i') (drop i' xs)"
      by (rule scan_run_down [of lo i xs]) (use True 1(4,5) in simp_all)
    obtain len sp' where len: "len = room - i'" and sp': "sp' = space - len" by blast
    let ?xs = "memmove xs (sp' + 1) i' len"
    have loop: "compact_tail_loop ?xs i' sp' lo = (ys, sp)"
      using 1(2) True by (simp add: unf Let_def a i' len sp')
    have b: "i' \<le> sp'" "sp' + len = space" using le len sp' 1(4) by simp_all
    have run: "length (take len (drop i' xs)) = len" using le len 1(4,5) by simp
    have l: "length ?xs = length xs" using le len b 1(4,5) by (simp add: memmove_def)
    have tk: "take k ?xs = take k xs" if "k \<le> sp'" for k
      using that b 1(5) by (simp add: memmove_def)
    have dr: "drop (Suc sp') ?xs = take len (drop i' xs) @ drop (Suc space) xs"
      using le len b 1(4,5) by (simp add: memmove_def)
    have ih: "length ys = length ?xs \<and> take lo ys = take lo ?xs
        \<and> sp + length (filter ix_used (drop lo (take i' ?xs))) = sp'
        \<and> drop (Suc sp) ys = filter ix_used (drop lo (take i' ?xs)) @ drop (Suc sp') ?xs"
      by (rule 1(1) [OF True a i' len sp' loop]) (use le b 1(5) l in simp_all)
    have seg: "take i' ?xs = take i' xs" "take lo ?xs = take lo xs" using tk le b by simp_all
    have "drop (Suc sp) ys = filter ix_used (drop lo (take i xs)) @ drop (Suc space) xs"
      using conjunct2 [OF conjunct2 [OF conjunct2 [OF ih]]] dr seg flt len by simp
    moreover have "sp + length (filter ix_used (drop lo (take i xs))) = space"
      using ih flt run b len seg by simp
    ultimately show ?thesis using ih l seg by simp
  qed
qed

subsection \<open>The two parts of the index\<close>

definition views :: "id_table \<Rightarrow> id_index list \<Rightarrow> id_index list \<Rightarrow> bool" where
  "views tab hs ts \<longleftrightarrow> take (hole_start tab) (index tab) = hs \<and> drop (hole_end tab) (index tab) = ts
     \<and> hole_start tab \<le> hole_end tab \<and> hole_end tab \<le> idxsize tab
     \<and> idxsize tab = length (index tab)"

lemma views_lengths:
  "views tab hs ts \<Longrightarrow> length hs = hole_start tab \<and> length ts = idxsize tab - hole_end tab"
  by (auto simp: views_def)

lemma views_nth:
  assumes "views tab hs ts"
  shows "i < length hs \<Longrightarrow> index tab ! i = hs ! i"
    and "j < length ts \<Longrightarrow> index tab ! (hole_end tab + j) = ts ! j"
  using assms by (auto simp: views_def)

lemma views_tail_nonempty: "views tab hs ts \<Longrightarrow> hole_end tab < idxsize tab \<longleftrightarrow> ts \<noteq> []"
  by (auto simp: views_def)

definition nulls :: "id_index list \<Rightarrow> int" where
  "nulls es = int (length (filter ix_null es))"

lemma nulls_simps [simp]:
  "nulls [] = 0" "nulls (e # es) = (if ix_null e then 1 else 0) + nulls es"
  "nulls (xs @ ys) = nulls xs + nulls ys"
  by (simp_all add: nulls_def)

lemma nulls_used [simp]: "nulls (filter ix_used es) = 0"
  by (simp add: nulls_def)

text \<open>The live pairs of identifier and cell.\<close>

fun pairs :: "id_index list \<Rightarrow> (int \<times> nat) list" where
  "pairs [] = []"
| "pairs (e # es) = (case ix_data e of None \<Rightarrow> pairs es | Some p \<Rightarrow> (ix_id e, p) # pairs es)"

lemma pairs_append [simp]: "pairs (xs @ ys) = pairs xs @ pairs ys"
  by (induction xs) (auto split: option.split)

lemma pairs_used [simp]: "pairs (filter ix_used es) = pairs es"
  by (induction es) (auto simp: ix_null_def split: option.split)

lemma pairs_null: "ix_null e \<Longrightarrow> pairs (e # es) = pairs es"
  by (simp add: ix_null_def)

text \<open>What a reorganisation of the index keeps.\<close>

definition same_env :: "id_table \<Rightarrow> id_table \<Rightarrow> bool" where
  "same_env tab tab' \<longleftrightarrow> entry_size tab' = entry_size tab \<and> id_base tab' = id_base tab
     \<and> id_limit tab' = id_limit tab \<and> idx_delta tab' = idx_delta tab \<and> idxsize tab' = idxsize tab
     \<and> free_data tab' = free_data tab \<and> chunks tab' = chunks tab"

lemma same_env_refl [simp]: "same_env tab tab"
  by (simp add: same_env_def)

lemma same_env_trans: "same_env a b \<Longrightarrow> same_env b c \<Longrightarrow> same_env a c"
  by (simp add: same_env_def)

lemma head_force_spec:
  assumes v: "views tab hs ts" and r: "gfarm_id_compaction_from_head_force tab = (done, tab')"
  shows "views tab' (filter ix_used hs) ts \<and> head_free tab' = 0 \<and> tail_free tab' = tail_free tab
    \<and> id_next tab' = id_next tab \<and> same_env tab tab' \<and> (done \<longleftrightarrow> filter ix_used hs \<noteq> hs)"
proof -
  note len = views_lengths [OF v]
  obtain i where i: "i = scan_up ix_null (index tab) 0 (hole_start tab)" by blast
  have i_tw: "i = length (takeWhile ix_used hs)"
    using i v scan_up_takeWhile [of 0 "hole_start tab" "index tab" ix_null] by (simp add: views_def)
  have tw: "take i hs = takeWhile ix_used hs"
    unfolding i_tw by (rule takeWhile_eq_take [symmetric])
  show ?thesis
  proof (cases "i \<ge> hole_start tab")
    case True
    then have "takeWhile ix_used hs = hs"
      using tw len by simp
    then have "filter ix_used hs = hs" by (metis filter_takeWhile)
    then show ?thesis using r True i v
      by (auto simp: gfarm_id_compaction_from_head_force_def views_def same_env_def)
  next
    case False
    obtain ys sp where loop: "compact_head_loop (index tab) (Suc i) i (hole_start tab) = (ys, sp)"
      by fastforce
    from compact_head_loop_spec [OF this] False v
    have l: "length ys = length (index tab)"
      and dr: "drop (hole_start tab) ys = drop (hole_start tab) (index tab)"
      and sp: "sp = i + length (filter ix_used (drop (Suc i) hs))"
      and tk: "take sp ys = take i hs @ filter ix_used (drop (Suc i) hs)"
      by (auto simp: views_def min_def)
    have null: "ix_null (hs ! i)"
      using i_tw False len nth_length_takeWhile [of ix_used hs] by simp
    have "hs = take i hs @ hs ! i # drop (Suc i) hs" using False len by (simp add: id_take_nth_drop)
    moreover note tw
    moreover have "filter ix_used (take i hs @ hs ! i # drop (Suc i) hs)
        = filter ix_used (take i hs) @ filter ix_used (drop (Suc i) hs)" using null by simp
    ultimately have flt: "filter ix_used hs = take i hs @ filter ix_used (drop (Suc i) hs)"
      using filter_takeWhile [of ix_used hs] by simp
    have spl: "sp \<le> hole_start tab"
      using sp len False length_filter_le [of ix_used "drop (Suc i) hs"] by simp
    have "drop (hole_end tab) ys = ts"
    proof -
      have "drop (hole_end tab) ys = drop (hole_end tab - hole_start tab) (drop (hole_start tab) ys)"
        using v by (simp add: views_def)
      then show ?thesis using dr v by (simp add: views_def)
    qed
    moreover have "filter ix_used hs \<noteq> hs"
      using null False len nth_mem [of i hs] by (auto simp: filter_id_conv)
    moreover have "tab' = tab\<lparr>index := ys, hole_start := sp, head_free := 0\<rparr>" "done"
      using r False i loop by (simp_all add: gfarm_id_compaction_from_head_force_def)
    ultimately show ?thesis using v tk flt spl l
      by (simp add: views_def same_env_def)
  qed
qed

lemma tail_force_empty:
  "views tab hs [] \<Longrightarrow> gfarm_id_compaction_from_tail_force tab = None"
  using scan_down_ge [of "hole_end tab" "idxsize tab" ix_null "index tab"]
    scan_down_le [of ix_null "index tab" "idxsize tab" "hole_end tab"]
  by (simp add: gfarm_id_compaction_from_tail_force_def Let_def views_def)

lemma tail_force_spec:
  assumes v: "views tab hs ts" and ts: "ts \<noteq> []"
  shows "\<exists>done tab'. gfarm_id_compaction_from_tail_force tab = Some (done, tab')
    \<and> views tab' hs (filter ix_used ts) \<and> tail_free tab' = 0 \<and> head_free tab' = head_free tab
    \<and> id_next tab' = id_next tab \<and> same_env tab tab' \<and> (done \<longleftrightarrow> filter ix_used ts \<noteq> ts)"
proof -
  note len = views_lengths [OF v]
  have lt: "hole_end tab < idxsize tab" using v ts by (simp add: views_tail_nonempty)
  obtain j where j: "j = scan_down ix_null (index tab) (idxsize tab) (hole_end tab)" by blast
  have j_tw: "j = idxsize tab - length (takeWhile ix_used (rev ts))"
    using j v scan_down_takeWhile [of "hole_end tab" "idxsize tab" "index tab" ix_null]
    by (simp add: views_def)
  have tw_le: "length (takeWhile ix_used (rev ts)) \<le> length ts"
    using length_takeWhile_le [of ix_used "rev ts"] by simp
  show ?thesis
  proof (cases "j > hole_end tab")
    case False
    then have "length (takeWhile ix_used (rev ts)) = length (rev ts)" using j_tw tw_le len lt by simp
    then have "take (length (rev ts)) (rev ts) = takeWhile ix_used (rev ts)"
      using takeWhile_eq_take [of ix_used "rev ts"] by argo
    then have "\<forall>e \<in> set (rev ts). ix_used e" using set_takeWhileD [of _ ix_used "rev ts"] by auto
    then have all: "\<forall>e \<in> set ts. ix_used e" by simp
    then have flt: "filter ix_used ts = ts" by (simp add: filter_id_conv)
    have "ix_used (index tab ! hole_end tab)"
      using all ts views_nth(2) [OF v, of 0] nth_mem [of 0 ts] by simp
    moreover have "j = hole_end tab"
      using False j scan_down_ge [of "hole_end tab" "idxsize tab" ix_null "index tab"] lt by simp
    ultimately have "gfarm_id_compaction_from_tail_force tab = Some (False, tab\<lparr>tail_free := 0\<rparr>)"
      using lt j by (simp add: gfarm_id_compaction_from_tail_force_def)
    then show ?thesis using v flt by (auto simp: views_def same_env_def)
  next
    case True
    obtain k where k: "j = Suc k" using True by (cases j) auto
    have k_le: "hole_end tab \<le> k" "k < idxsize tab" using True k j_tw lt by simp_all
    obtain a where a: "k = hole_end tab + a" using k_le le_Suc_ex by blast
    have a_lt: "a < length ts" using a k_le len by simp
    have lw: "length (takeWhile ix_used (rev ts)) = length ts - Suc a"
      using j_tw k a len k_le tw_le by simp
    then have "ix_null (rev ts ! (length ts - Suc a))"
      using nth_length_takeWhile [of ix_used "rev ts"] a_lt by simp
    then have null: "ix_null (ts ! a)" using a_lt by (simp add: rev_nth)
    have "take (length ts - Suc a) (rev ts) = takeWhile ix_used (rev ts)"
      unfolding lw [symmetric] by (rule takeWhile_eq_take [symmetric])
    then have "rev (drop (Suc a) ts) = takeWhile ix_used (rev ts)" using a_lt by (simp add: rev_drop)
    then have "filter ix_used (rev (drop (Suc a) ts)) = rev (drop (Suc a) ts)"
      by (simp add: filter_takeWhile)
    then have used: "filter ix_used (drop (Suc a) ts) = drop (Suc a) ts"
      by (simp flip: rev_filter)
    have "ts = take a ts @ ts ! a # drop (Suc a) ts" using a_lt by (simp add: id_take_nth_drop)
    moreover have "filter ix_used (take a ts @ ts ! a # drop (Suc a) ts)
        = filter ix_used (take a ts) @ drop (Suc a) ts" using null used by simp
    ultimately have flt: "filter ix_used ts = filter ix_used (take a ts) @ drop (Suc a) ts" by simp
    obtain ys sp where loop: "compact_tail_loop (index tab) k k (hole_end tab) = (ys, sp)" by fastforce
    have seg: "drop (hole_end tab) (take k (index tab)) = take a ts"
      using a v by (simp add: views_def drop_take)
    have rest: "drop (Suc k) (index tab) = drop (Suc a) ts" using a v by (auto simp: views_def add.commute)
    from compact_tail_loop_spec [OF loop] k_le v seg rest flt
    have l: "length ys = length (index tab)" and tk: "take (hole_end tab) ys = take (hole_end tab) (index tab)"
      and sp: "sp + length (filter ix_used (take a ts)) = k" and dr: "drop (Suc sp) ys = filter ix_used ts"
      by (simp_all add: views_def)
    have sp_ge: "hole_end tab \<le> sp" using sp a length_filter_le [of ix_used "take a ts"] a_lt by simp
    have sd: "scan_down ix_null (index tab) (idxsize tab) (hole_end tab) = Suc k" using j k by simp
    have "ix_null (index tab ! k)" using null views_nth(2) [OF v a_lt] a by simp
    then have r: "gfarm_id_compaction_from_tail_force tab
        = Some (True, tab\<lparr>index := ys, hole_end := sp + 1, tail_free := 0\<rparr>)"
      using k_le loop by (simp add: gfarm_id_compaction_from_tail_force_def Let_def sd)
    have "take (hole_start tab) ys = take (hole_start tab) (take (hole_end tab) ys)"
      using v by (simp add: views_def min_def)
    also have "\<dots> = hs" using tk v by (simp add: views_def min_def)
    finally have "take (hole_start tab) ys = hs" .
    moreover have "filter ix_used ts \<noteq> ts" using null a_lt nth_mem [of a ts] by (auto simp: filter_id_conv)
    ultimately show ?thesis using r l dr sp sp_ge k_le v
      by (auto simp: views_def same_env_def)
  qed
qed

definition strip_nulls :: "id_index list \<Rightarrow> id_index list" where
  "strip_nulls hs = rev (dropWhile ix_null (rev hs))"

lemma strip_nulls_simps [simp]:
  "strip_nulls [] = []" "strip_nulls (hs @ [e]) = (if ix_null e then strip_nulls hs else hs @ [e])"
  by (simp_all add: strip_nulls_def)

lemma shrink_head_spec:
  "views tab hs ts \<Longrightarrow> views (gfarm_id_shrink_head tab) (strip_nulls hs) ts
     \<and> head_free (gfarm_id_shrink_head tab) - nulls (strip_nulls hs) = head_free tab - nulls hs
     \<and> tail_free (gfarm_id_shrink_head tab) = tail_free tab
     \<and> id_next (gfarm_id_shrink_head tab) = id_next tab
     \<and> same_env tab (gfarm_id_shrink_head tab)"
proof (induction hs arbitrary: tab rule: rev_induct)
  case Nil
  then have "hole_start tab = 0" using views_lengths [OF Nil] by simp
  with Nil show ?case by (subst (1 2 3 4 5) gfarm_id_shrink_head.simps) simp
next
  case (snoc e hs)
  note len = views_lengths [OF snoc.prems]
  let ?tab = "tab\<lparr>hole_start := hole_start tab - 1, head_free := head_free tab - 1\<rparr>"
  have e: "index tab ! (hole_start tab - 1) = e"
    using views_nth(1) [OF snoc.prems, of "length hs"] len by (simp flip: len)
  have pos: "0 < hole_start tab" using len by (simp flip: len)
  note unf = gfarm_id_shrink_head.simps [of tab]
  show ?case
  proof (cases "ix_null e")
    case False
    with snoc.prems e pos show ?thesis by (simp add: unf)
  next
    case True
    have "take (hole_start tab - 1) (index tab) = take (length hs) (take (hole_start tab) (index tab))"
      using len by (simp flip: len)
    also have "\<dots> = hs" using snoc.prems by (simp add: views_def)
    finally have "take (hole_start tab - 1) (index tab) = hs" .
    then have "views ?tab hs ts" using snoc.prems len by (auto simp: views_def)
    from snoc.IH [OF this] True e pos show ?thesis
      by (simp add: unf same_env_def)
  qed
qed

lemma shrink_tail_spec:
  "views tab hs ts \<Longrightarrow> views (gfarm_id_shrink_tail tab) hs (dropWhile ix_null ts)
     \<and> tail_free (gfarm_id_shrink_tail tab) - nulls (dropWhile ix_null ts) = tail_free tab - nulls ts
     \<and> head_free (gfarm_id_shrink_tail tab) = head_free tab
     \<and> id_next (gfarm_id_shrink_tail tab) = id_next tab
     \<and> same_env tab (gfarm_id_shrink_tail tab)"
proof (induction ts arbitrary: tab)
  case Nil
  then have "\<not> hole_end tab < idxsize tab" by (simp add: views_tail_nonempty)
  with Nil show ?case by (subst (1 2 3 4 5) gfarm_id_shrink_tail.simps) simp
next
  case (Cons e ts)
  let ?tab = "tab\<lparr>hole_end := hole_end tab + 1, tail_free := tail_free tab - 1\<rparr>"
  have e: "index tab ! hole_end tab = e" using views_nth(2) [OF Cons.prems, of 0] by simp
  have lt: "hole_end tab < idxsize tab" using Cons.prems by (simp add: views_tail_nonempty)
  note unf = gfarm_id_shrink_tail.simps [of tab]
  show ?case
  proof (cases "ix_null e")
    case False
    with Cons.prems e lt show ?thesis by (simp add: unf)
  next
    case True
    have "drop (Suc (hole_end tab)) (index tab) = tl (drop (hole_end tab) (index tab))"
      by (simp add: drop_Suc tl_drop)
    also have "\<dots> = ts" using Cons.prems by (simp add: views_def)
    finally have "drop (Suc (hole_end tab)) (index tab) = ts" .
    then have "views ?tab hs ts" using Cons.prems lt by (simp add: views_def)
    from Cons.IH [OF this] True e lt show ?thesis
      by (simp add: unf same_env_def)
  qed
qed

lemma compact_both_spec:
  assumes v: "views tab hs ts" and r: "compact_both tab = Some tab'"
  shows "ts \<noteq> [] \<and> views tab' (filter ix_used hs) (filter ix_used ts)
    \<and> head_free tab' = 0 \<and> tail_free tab' = 0 \<and> id_next tab' = id_next tab \<and> same_env tab tab'"
proof -
  obtain d1 tab1 where h: "gfarm_id_compaction_from_head_force tab = (d1, tab1)" by fastforce
  note hs = head_force_spec [OF v h]
  then have v1: "views tab1 (filter ix_used hs) ts" by simp
  have ne: "ts \<noteq> []"
    using tail_force_empty [of tab1 "filter ix_used hs"] v1 r h by (auto simp: compact_both_def)
  from tail_force_spec [OF v1 ne] hs r h ne show ?thesis
    by (auto simp: compact_both_def intro: same_env_trans)
qed

subsection \<open>The invariant\<close>

definition ids_sorted :: "id_index list \<Rightarrow> bool" where
  "ids_sorted es \<longleftrightarrow> sorted_wrt (\<lambda>a b. ix_id a < ix_id b) es"

lemma ids_sorted_append:
  "ids_sorted (xs @ ys) \<longleftrightarrow> ids_sorted xs \<and> ids_sorted ys
     \<and> (\<forall>a \<in> set xs. \<forall>b \<in> set ys. ix_id a < ix_id b)"
  by (simp add: ids_sorted_def sorted_wrt_append)

lemma ids_sorted_Cons:
  "ids_sorted (e # es) \<longleftrightarrow> (\<forall>b \<in> set es. ix_id e < ix_id b) \<and> ids_sorted es"
  by (simp add: ids_sorted_def)

lemma ids_sorted_Nil [simp]: "ids_sorted []"
  by (simp add: ids_sorted_def)

lemma ids_sorted_filter: "ids_sorted es \<Longrightarrow> ids_sorted (filter P es)"
  by (simp add: ids_sorted_def sorted_wrt_filter)

text \<open>Sorted, counters exact, and no freed entry at the edges of the hole.\<close>

definition id_shape :: "id_table \<Rightarrow> id_index list \<Rightarrow> id_index list \<Rightarrow> bool" where
  "id_shape tab hs ts \<longleftrightarrow> views tab hs ts \<and> ids_sorted (hs @ ts)
     \<and> head_free tab = nulls hs \<and> tail_free tab = nulls ts
     \<and> (hs \<noteq> [] \<longrightarrow> ix_used (last hs)) \<and> (ts \<noteq> [] \<longrightarrow> ix_used (hd ts))"

definition id_placed :: "int \<Rightarrow> id_index list \<Rightarrow> id_index list \<Rightarrow> bool" where
  "id_placed nxt hs ts \<longleftrightarrow> (\<forall>e \<in> set hs. ix_id e < nxt) \<and> (\<forall>e \<in> set ts. nxt < ix_id e)"

lemma used_edges:
  "filter ix_used es \<noteq> [] \<Longrightarrow> ix_used (last (filter ix_used es)) \<and> ix_used (hd (filter ix_used es))"
  using last_in_set [of "filter ix_used es"] hd_in_set [of "filter ix_used es"] by auto

text \<open>A free entry is taken out of the index and the rest is compacted around it.\<close>

lemma compact_around:
  assumes v: "views tab as bs" and "ids_sorted (as @ e # bs)" and "ix_null e"
    and "id_next tab = ix_id e" and r: "compact_both tab = Some tab'"
  shows "\<exists>hs ts. id_shape tab' hs ts \<and> pairs (hs @ ts) = pairs (as @ e # bs) \<and> same_env tab tab'
    \<and> id_placed (id_next tab') hs ts"
proof (intro exI conjI)
  note c = compact_both_spec [OF v r]
  show "id_shape tab' (filter ix_used as) (filter ix_used bs)"
    using c assms(2) used_edges [of as] used_edges [of bs]
    by (auto simp: id_shape_def ids_sorted_append ids_sorted_Cons ids_sorted_filter)
  show "pairs (filter ix_used as @ filter ix_used bs) = pairs (as @ e # bs)"
    using assms(3) pairs_null [of e bs] by (simp del: pairs.simps)
  show "same_env tab tab'" using c by simp
  show "id_placed (id_next tab') (filter ix_used as) (filter ix_used bs)"
    using c assms(2,4) by (simp add: id_placed_def ids_sorted_append ids_sorted_Cons)
qed

lemma bsearch_next_bounds:
  "head \<le> tail \<Longrightarrow> tail \<le> save \<Longrightarrow> head \<le> bsearch_next_loop xs head tail save ident
     \<and> bsearch_next_loop xs head tail save ident \<le> save"
proof (induction xs head tail save ident rule: bsearch_next_loop.induct)
  case (1 xs head tail save ident)
  show ?case
  proof (cases "head < tail")
    case True
    then have "head \<le> (head + tail) div 2" "(head + tail) div 2 < tail" by simp_all
    with 1 True show ?thesis
      by (subst (1 2) bsearch_next_loop.simps) (auto simp: Let_def)
  next
    case False
    with 1 show ?thesis by (subst (1 2) bsearch_next_loop.simps) auto
  qed
qed

lemma split_at:
  "i < length xs \<Longrightarrow> xs = take i xs @ xs ! i # drop (Suc i) xs"
  by (simp add: id_take_nth_drop)

lemma scan_up_hit:
  "scan_up P xs i n < n \<Longrightarrow> P (xs ! scan_up P xs i n)"
  by (induction P xs i n rule: scan_up.induct) (subst (asm) (2) scan_up.simps, subst scan_up.simps, auto)

lemma rewind_tail_spec:
  assumes s: "id_shape tab hs ts" and lt: "\<forall>e \<in> set hs. ix_id e < ident"
    and r: "rewind_tail tab ident = Some tab'"
  shows "\<exists>hs' ts'. id_shape tab' hs' ts' \<and> pairs (hs' @ ts') = pairs (hs @ ts) \<and> same_env tab tab'
    \<and> (id_next tab' < id_limit tab' \<longrightarrow> id_placed (id_next tab') hs' ts')"
proof -
  have v: "views tab hs ts" using s by (simp add: id_shape_def)
  note len = views_lengths [OF v]
  have shape: "id_shape (tab\<lparr>id_next := n\<rparr>) hs ts" for n
    using s by (simp add: id_shape_def views_def)
  show ?thesis
  proof (cases "hole_end tab < idxsize tab \<and> ix_id (index tab ! hole_end tab) \<le> ident")
    case False
    then have "\<forall>e \<in> set ts. ident < ix_id e"
    proof (cases "ts = []")
      case ne: False
      then have "hole_end tab < idxsize tab" using v by (simp add: views_tail_nonempty)
      with False have "ident < ix_id (ts ! 0)" using views_nth(2) [OF v, of 0] ne by simp
      moreover have "ids_sorted ts" using s by (simp add: id_shape_def ids_sorted_append)
      ultimately show ?thesis using ne by (cases ts) (auto simp: ids_sorted_Cons)
    qed simp
    moreover have "tab' = tab\<lparr>id_next := ident\<rparr>" using r False by (simp add: rewind_tail_def)
    ultimately show ?thesis using lt shape
      by (intro exI [of _ hs] exI [of _ ts]) (simp add: id_placed_def same_env_def)
  next
    case True
    obtain i0 where i0: "i0 = gfarm_id_bsearch_next tab (hole_end tab) (idxsize tab) ident" by blast
    obtain i where i: "i = scan_up ix_null (index tab) i0 (idxsize tab)" by blast
    show ?thesis
    proof (cases "i < idxsize tab")
      case False
      then have "tab' = tab\<lparr>id_next := id_limit tab\<rparr>" using r True i i0 by (simp add: rewind_tail_def)
      then show ?thesis using shape
        by (intro exI [of _ hs] exI [of _ ts]) (simp add: same_env_def)
    next
      case hit: True
      have "hole_end tab \<le> i0"
        using i0 bsearch_next_bounds [of "hole_end tab" "idxsize tab" "idxsize tab"] True
        by (simp add: gfarm_id_bsearch_next_def)
      with i have ge: "hole_end tab \<le> i" using scan_up_ge [of i0 ix_null "index tab" "idxsize tab"] by simp
      obtain n where n: "n = i - hole_end tab" by blast
      have nlt: "n < length ts" using n ge hit len by simp
      have e: "index tab ! i = ts ! n" using views_nth(2) [OF v nlt] n ge by simp
      have null: "ix_null (ts ! n)"
        using scan_up_hit [of ix_null "index tab" i0 "idxsize tab"] hit i e by simp
      let ?tab = "tab\<lparr>id_next := ix_id (index tab ! i),
        index := memmove (index tab) (hole_start tab) (hole_end tab) n,
        hole_start := hole_start tab + n, hole_end := hole_end tab + (n + 1)\<rparr>"
      have r': "compact_both ?tab = Some tab'" using r True hit i i0 n by (simp add: rewind_tail_def Let_def)
      have v': "views ?tab (hs @ take n ts) (drop (Suc n) ts)"
        using v n ge hit by (auto simp: views_def memmove_def)
      have spl: "hs @ ts = (hs @ take n ts) @ ts ! n # drop (Suc n) ts" using split_at [OF nlt] by simp
      have "ids_sorted ((hs @ take n ts) @ ts ! n # drop (Suc n) ts)"
        using s unfolding spl [symmetric] by (simp add: id_shape_def)
      from compact_around [OF v' this null _ r'] e show ?thesis
        unfolding spl by (auto simp: same_env_def)
    qed
  qed
qed

lemma rewind_spec:
  assumes s: "id_shape tab hs ts" and r: "gfarm_id_rewind tab = Some tab'"
  shows "\<exists>hs' ts'. id_shape tab' hs' ts' \<and> pairs (hs' @ ts') = pairs (hs @ ts) \<and> same_env tab tab'
    \<and> (id_next tab' < id_limit tab' \<longrightarrow> id_placed (id_next tab') hs' ts')"
proof -
  have v: "views tab hs ts" and srt: "ids_sorted hs" using s by (simp_all add: id_shape_def ids_sorted_append)
  note len = views_lengths [OF v]
  have below: "\<forall>e \<in> set hs. ix_id e \<le> ix_id (index tab ! (hole_start tab - 1))" if "hole_start tab > 0"
  proof -
    from that len obtain as l where hs: "hs = as @ [l]" by (cases hs rule: rev_cases) auto
    have "index tab ! (hole_start tab - 1) = l"
      using views_nth(1) [OF v, of "length as"] len hs by (simp flip: len)
    with srt hs show ?thesis by (auto simp: ids_sorted_append)
  qed
  show ?thesis
  proof (cases "hole_start tab > 0 \<and> ix_id (index tab ! (hole_start tab - 1)) \<ge> id_base tab")
    case False
    have "\<forall>e \<in> set hs. ix_id e < id_base tab"
    proof (cases "hole_start tab > 0")
      case True
      with False below show ?thesis by fastforce
    next
      case empty: False
      then show ?thesis using len by simp
    qed
    moreover have "rewind_tail tab (id_base tab) = Some tab'"
      using r unfolding gfarm_id_rewind_def if_not_P [OF False] .
    ultimately show ?thesis by (rule rewind_tail_spec [OF s])
  next
    case True
    obtain i0 where i0: "i0 = gfarm_id_bsearch_next tab 0 (hole_start tab) (id_base tab)" by blast
    obtain i where i: "i = scan_up ix_null (index tab) i0 (hole_start tab)" by blast
    show ?thesis
    proof (cases "i < hole_start tab")
      case False
      have "\<forall>e \<in> set hs. ix_id e < ix_id (index tab ! (hole_start tab - 1)) + 1"
        using below True by fastforce
      moreover have "rewind_tail tab (ix_id (index tab ! (hole_start tab - 1)) + 1) = Some tab'"
        using r True False i i0 by (simp add: gfarm_id_rewind_def)
      ultimately show ?thesis by (rule rewind_tail_spec [OF s])
    next
      case hit: True
      obtain n where n: "n = hole_start tab - 1 - i" by blast
      have ilt: "i < length hs" using hit len by simp
      have e: "index tab ! i = hs ! i" using views_nth(1) [OF v ilt] .
      have null: "ix_null (hs ! i)"
        using scan_up_hit [of ix_null "index tab" i0 "hole_start tab"] hit i e by simp
      let ?tab = "tab\<lparr>id_next := ix_id (index tab ! i),
        index := memmove (index tab) (hole_end tab - n) (hole_start tab - n) n,
        hole_start := hole_start tab - (n + 1), hole_end := hole_end tab - n\<rparr>"
      have r': "compact_both ?tab = Some tab'"
        using r True hit i i0 n by (simp add: gfarm_id_rewind_def Let_def)
      have nh: "hole_start tab - n = Suc i" "hole_start tab - (n + 1) = i" using n hit by simp_all
      have seg: "take n (drop (Suc i) (index tab)) = drop (Suc i) hs"
        using v n hit by (auto simp: views_def drop_take)
      have mv: "index ?tab = take (hole_end tab - n) (index tab) @ drop (Suc i) hs @ ts"
        using v n hit seg nh by (simp add: memmove_def views_def)
      have "hole_start tab \<le> hole_end tab" "hole_end tab \<le> length (index tab)"
        using v by (simp_all add: views_def)
      then have le: "i \<le> hole_end tab - n" "hole_end tab - n \<le> length (index tab)"
        using n hit by linarith+
      have "take i (index ?tab) = take i hs"
        using v le hit unfolding mv by (auto simp: views_def min_def)
      moreover have "drop (hole_end tab - n) (index ?tab) = drop (Suc i) hs @ ts"
        using le unfolding mv by simp
      moreover have "length (index ?tab) = length (index tab)"
        using \<open>hole_start tab \<le> hole_end tab\<close> \<open>hole_end tab \<le> length (index tab)\<close> n hit by simp
      ultimately have v': "views ?tab (take i hs) (drop (Suc i) hs @ ts)"
        using v le nh unfolding views_def by simp
      have spl: "hs @ ts = take i hs @ hs ! i # (drop (Suc i) hs @ ts)" using split_at [OF ilt] by simp
      have "ids_sorted (take i hs @ hs ! i # (drop (Suc i) hs @ ts))"
        using s unfolding spl [symmetric] by (simp add: id_shape_def)
      from compact_around [OF v' this null _ r'] e show ?thesis
        unfolding spl by (auto simp: same_env_def)
    qed
  qed
qed

lemma next_loop_spec:
  assumes "next_loop (pre @ ts) (length pre + i) ident (length pre + length ts) = (k, ident')"
    and "i \<le> length ts"
  shows "\<exists>j. k = length pre + j \<and> i \<le> j \<and> j \<le> length ts \<and> ident' = ident + int (j - i)
    \<and> (\<forall>l. i \<le> l \<and> l < j \<longrightarrow> ix_used (ts ! l) \<and> ix_id (ts ! l) \<le> ident + int (l - i))
    \<and> (j < length ts \<longrightarrow> ix_null (ts ! j) \<or> ident' < ix_id (ts ! j))"
  using assms
proof (induction "length ts - i" arbitrary: i ident)
  case 0
  then show ?case by (subst (asm) next_loop.simps) (intro exI [of _ i], auto)
next
  case (Suc n)
  note unf = next_loop.simps [of "pre @ ts" "length pre + i"]
  have lt: "i < length ts" using Suc.hyps(2) by simp
  have nth: "(pre @ ts) ! (length pre + i) = ts ! i" by simp
  show ?case
  proof (cases "ix_id (ts ! i) > ident \<or> ix_null (ts ! i)")
    case True
    with Suc.prems lt nth show ?thesis
      unfolding unf by (intro exI [of _ i]) auto
  next
    case False
    have "next_loop (pre @ ts) (length pre + Suc i) (ident + 1) (length pre + length ts) = (k, ident')"
      using Suc.prems(1) False lt nth unfolding unf by simp
    moreover have "n = length ts - Suc i" "Suc i \<le> length ts" using Suc.hyps(2) lt by simp_all
    ultimately obtain j where j: "k = length pre + j" "Suc i \<le> j"
      "j \<le> length ts" "ident' = ident + 1 + int (j - Suc i)"
      "\<forall>l. Suc i \<le> l \<and> l < j \<longrightarrow> ix_used (ts ! l) \<and> ix_id (ts ! l) \<le> ident + 1 + int (l - Suc i)"
      "j < length ts \<longrightarrow> ix_null (ts ! j) \<or> ident' < ix_id (ts ! j)"
      using Suc.hyps(1) [of "Suc i" "ident + 1"] by blast
    show ?thesis
    proof (intro exI [of _ j] conjI allI impI)
      fix l assume l: "i \<le> l \<and> l < j"
      show "ix_used (ts ! l)" using l j(5) False by (cases "l = i") auto
      show "ix_id (ts ! l) \<le> ident + int (l - i)"
        using l j(5) [rule_format, of l] False by (cases "l = i") auto
    qed (use j in auto)
  qed
qed

lemma pairs_dropWhile [simp]: "pairs (dropWhile ix_null es) = pairs es"
  by (induction es) (auto simp: ix_null_def)

lemma dropWhile_null_hd: "dropWhile ix_null es \<noteq> [] \<Longrightarrow> ix_used (hd (dropWhile ix_null es))"
  by (rule hd_dropWhile)

lemma ids_sorted_dropWhile: "ids_sorted (xs @ ys) \<Longrightarrow> ids_sorted (xs @ dropWhile P ys)"
  using set_dropWhileD [of _ P ys] dropWhile_eq_drop [of P ys]
  by (auto simp: ids_sorted_append) (simp add: ids_sorted_def sorted_wrt_drop)

lemma ids_sorted_distance:
  "ids_sorted ts \<Longrightarrow> j < length ts \<Longrightarrow> ix_id (ts ! 0) + int j \<le> ix_id (ts ! j)"
proof (induction j)
  case (Suc j)
  then have "ix_id (ts ! j) < ix_id (ts ! Suc j)"
    using sorted_wrt_nth_less [of "\<lambda>a b. ix_id a < ix_id b" ts j "Suc j"]
    by (simp add: ids_sorted_def)
  with Suc show ?case by simp
qed simp

lemma adjust_next_spec:
  assumes s: "id_shape tab hs ts" and lt: "\<forall>e \<in> set hs. ix_id e < id_next tab"
    and ge: "\<forall>e \<in> set ts. id_next tab \<le> ix_id e"
  shows "(gfarm_id_adjust_next tab = gfarm_id_rewind tab \<and> id_limit tab \<le> id_next tab + int (length ts))
    \<or> (\<exists>tab' moved ts'. gfarm_id_adjust_next tab = Some tab' \<and> id_shape tab' (hs @ moved) ts'
         \<and> pairs ((hs @ moved) @ ts') = pairs (hs @ ts) \<and> same_env tab tab'
         \<and> id_placed (id_next tab') (hs @ moved) ts' \<and> id_next tab \<le> id_next tab')"
proof -
  have v: "views tab hs ts" and srt: "ids_sorted (hs @ ts)" using s by (simp_all add: id_shape_def)
  note len = views_lengths [OF v]
  note unf = gfarm_id_adjust_next_def [of tab]
  show ?thesis
  proof (cases "id_next tab \<ge> id_limit tab")
    case True
    then show ?thesis by (simp add: unf)
  next
    case small: False
    show ?thesis
    proof (cases "hole_end tab \<ge> idxsize tab \<or> id_next tab < ix_id (index tab ! hole_end tab)")
      case True
      have "\<forall>e \<in> set ts. id_next tab < ix_id e"
      proof (cases ts)
        case (Cons t rest)
        then have "hole_end tab < idxsize tab" using v by (simp add: views_tail_nonempty)
        with True have "id_next tab < ix_id t" using views_nth(2) [OF v, of 0] Cons by simp
        with srt Cons show ?thesis by (auto simp: ids_sorted_append ids_sorted_Cons)
      qed simp
      moreover have "gfarm_id_adjust_next tab = Some tab" using small True by (simp add: unf)
      ultimately show ?thesis using s lt
        by (intro disjI2 exI [of _ tab] exI [of _ "[]"] exI [of _ ts]) (simp add: id_placed_def)
    next
      case False
      then have ne: "ts \<noteq> []" using v by (simp flip: views_tail_nonempty add: not_le)
      have "id_next tab \<le> ix_id (ts ! 0)" using ge ne nth_mem [of 0 ts] by simp
      moreover have "ix_id (ts ! 0) \<le> id_next tab" using False views_nth(2) [OF v, of 0] ne by simp
      ultimately have hd: "ix_id (ts ! 0) = id_next tab" by simp
      obtain pre where pre: "pre = take (hole_end tab) (index tab)" by blast
      have split: "index tab = pre @ ts" "length pre = hole_end tab" "idxsize tab = length pre + length ts"
        using v pre by (auto simp: views_def)
      obtain k ident where loop: "next_loop (index tab) (hole_end tab + 1) (id_next tab + 1) (idxsize tab)
          = (k, ident)" by fastforce
      obtain j where j: "k = hole_end tab + j" "1 \<le> j" "j \<le> length ts" "ident = id_next tab + int j"
        "\<And>l. 1 \<le> l \<Longrightarrow> l < j \<Longrightarrow> ix_used (ts ! l) \<and> ix_id (ts ! l) \<le> id_next tab + int l"
        "j < length ts \<longrightarrow> ix_null (ts ! j) \<or> ident < ix_id (ts ! j)"
        using next_loop_spec [of pre ts 1 "id_next tab + 1" k ident] loop split ne
        by (auto simp: Suc_le_eq)
      show ?thesis
      proof (cases "ident \<ge> id_limit tab")
        case True
        then have "id_limit tab \<le> id_next tab + int (length ts)" using j(3,4) by simp
        moreover have "gfarm_id_adjust_next tab = gfarm_id_rewind tab"
          using small False loop True by (simp add: unf)
        ultimately show ?thesis by blast
      next
        case below: False
        let ?mv = "tab\<lparr>id_next := ident,
          index := memmove (index tab) (hole_start tab) (hole_end tab) j,
          hole_start := hole_start tab + j, hole_end := hole_end tab + j\<rparr>"
        obtain tab1 tab2 where t1: "tab1 = gfarm_id_shrink_head ?mv" and t2: "tab2 = gfarm_id_shrink_tail tab1"
          by blast
        have run: "gfarm_id_adjust_next tab = Some tab2"
          using small False loop below j(1) t1 t2 by (simp add: unf)
        have vm: "views ?mv (hs @ take j ts) (drop j ts)"
          using v j(3) len by (auto simp: views_def memmove_def add.commute)
        have used: "ix_used (ts ! l)" if "l < j" for l
          using that j(5) [of l] s ne hd_conv_nth [of ts] by (cases "l = 0") (auto simp: id_shape_def)
        then have used_all: "\<forall>e \<in> set (take j ts). ix_used e" by (auto simp: in_set_conv_nth)
        have tk: "take j ts \<noteq> []" "last (take j ts) \<in> set (take j ts)"
          using j(2) ne last_in_set [of "take j ts"] by auto
        have strip: "strip_nulls (hs @ take j ts) = hs @ take j ts"
          using tk used_all strip_nulls_simps(2) [of "hs @ butlast (take j ts)" "last (take j ts)"]
          by simp
        note sh = shrink_head_spec [OF vm, folded t1, unfolded strip]
        then have v1: "views tab1 (hs @ take j ts) (drop j ts)" by simp
        note st = shrink_tail_spec [OF v1, folded t2]
        have nulls0: "nulls (take j ts) = 0" using used_all by (auto simp: nulls_def filter_empty_conv)
        have nulls_ts: "nulls ts = nulls (drop j ts)"
          using nulls_simps(3) [of "take j ts" "drop j ts"] nulls0 by simp
        have srt': "ids_sorted ((hs @ take j ts) @ drop j ts)" using srt by simp
        have "id_shape tab2 (hs @ take j ts) (dropWhile ix_null (drop j ts))"
          using sh st s nulls0 nulls_ts ids_sorted_dropWhile [OF srt', of ix_null] tk used_all
            dropWhile_null_hd [of "drop j ts"]
          by (auto simp: id_shape_def)
        moreover have "pairs ((hs @ take j ts) @ dropWhile ix_null (drop j ts)) = pairs (hs @ ts)"
          using pairs_append [of "take j ts" "drop j ts"] by simp
        moreover have "same_env tab tab2" using sh st by (simp add: same_env_def)
        moreover have nxt: "id_next tab2 = ident" using sh st by simp
        moreover have "id_placed ident (hs @ take j ts) (dropWhile ix_null (drop j ts))"
          unfolding id_placed_def
        proof (intro conjI ballI)
          fix e assume "e \<in> set (hs @ take j ts)"
          then consider "e \<in> set hs" | l where "l < j" "e = ts ! l" by (auto simp: in_set_conv_nth)
          then show "ix_id e < ident"
          proof cases
            case 2
            then show ?thesis using hd j(2,4) j(5) [of l] by (cases "l = 0") auto
          qed (use lt j(2,4) in fastforce)
        next
          fix e assume e: "e \<in> set (dropWhile ix_null (drop j ts))"
          then have jl: "j < length ts" by (cases "j < length ts") auto
          have dr: "drop j ts = ts ! j # drop (Suc j) ts" using jl by (simp add: Cons_nth_drop_Suc)
          have sd: "ids_sorted (ts ! j # drop (Suc j) ts)"
            using srt dr by (simp add: ids_sorted_append) (simp add: ids_sorted_def sorted_wrt_drop flip: dr)
          have "ident \<le> ix_id (ts ! j)"
            using ids_sorted_distance [OF _ jl] srt hd j(4) by (simp add: ids_sorted_append)
          then show "ident < ix_id e"
            using e dr sd j(6) jl set_dropWhileD [of e ix_null "drop (Suc j) ts"]
            by (fastforce simp: ids_sorted_Cons split: if_splits)
        qed
        ultimately show ?thesis using run j(4)
          by (intro disjI2 exI [of _ tab2] exI [of _ "take j ts"] exI [of _ "dropWhile ix_null (drop j ts)"])
            simp
      qed
    qed
  qed
qed

subsection \<open>Lookup\<close>

definition heads :: "id_table \<Rightarrow> id_index list" where
  "heads tab = take (hole_start tab) (index tab)"

definition tails :: "id_table \<Rightarrow> id_index list" where
  "tails tab = drop (hole_end tab) (index tab)"

lemma views_heads_tails: "views tab hs ts \<Longrightarrow> heads tab = hs \<and> tails tab = ts"
  by (simp add: views_def heads_def tails_def)

text \<open>The map from identifiers to cells that the table stands for.\<close>

definition id_map :: "id_table \<Rightarrow> int \<Rightarrow> nat option" where
  "id_map tab = map_of (pairs (heads tab @ tails tab))"

lemma pairs_keys: "fst ` set (pairs es) \<subseteq> ix_id ` set es"
  by (induction es) (auto split: option.splits)

lemma map_of_pairs_None: "\<forall>e \<in> set es. ix_id e \<noteq> i \<Longrightarrow> map_of (pairs es) i = None"
  using pairs_keys [of es] by (force simp: map_of_eq_None_iff)

lemma map_of_pairs_nth:
  "ids_sorted es \<Longrightarrow> k < length es \<Longrightarrow> map_of (pairs es) (ix_id (es ! k)) = ix_data (es ! k)"
proof (induction es arbitrary: k)
  case (Cons e es)
  show ?case
  proof (cases k)
    case 0
    have "map_of (pairs es) (ix_id e) = None"
      by (rule map_of_pairs_None) (use Cons.prems in \<open>auto simp: ids_sorted_Cons\<close>)
    with 0 show ?thesis by (simp split: option.split)
  next
    case (Suc l)
    with Cons.prems have "ix_id e < ix_id (es ! l)" by (auto simp: ids_sorted_Cons)
    then have "ix_id (es ! l) \<noteq> ix_id e" by simp
    then show ?thesis using Suc Cons.IH [of l] Cons.prems
      by (simp add: ids_sorted_Cons split: option.split)
  qed
qed simp

lemma bsearch_sound:
  "gfarm_id_bsearch tab head tail ident = Some k \<Longrightarrow>
     head \<le> k \<and> k < tail \<and> ix_id (index tab ! k) = ident"
proof (induction tab head tail ident rule: gfarm_id_bsearch.induct)
  case (1 tab head tail ident)
  note unf = gfarm_id_bsearch.simps [of tab head tail ident]
  show ?case
  proof (cases "head < tail")
    case True
    then have mid: "head \<le> (head + tail) div 2" "(head + tail) div 2 < tail" by simp_all
    obtain m where m: "m = (head + tail) div 2" by blast
    consider "ix_id (index tab ! m) = ident" | "ix_id (index tab ! m) > ident"
      | "ix_id (index tab ! m) < ident" by linarith
    then show ?thesis
    proof cases
      case 1
      then show ?thesis using "1.prems" True mid m by (simp add: unf Let_def)
    next
      case 2
      then show ?thesis
        using "1.IH"(1) [OF True m] "1.prems" True mid m by (simp add: unf Let_def)
    next
      case 3
      then show ?thesis
        using "1.IH"(2) [OF True m] "1.prems" True mid m by (simp add: unf Let_def)
    qed
  next
    case False
    with "1.prems" show ?thesis by (simp add: unf)
  qed
qed

lemma bsearch_complete:
  "gfarm_id_bsearch tab head tail ident = None \<Longrightarrow>
     (\<And>a b. head \<le> a \<Longrightarrow> a < b \<Longrightarrow> b < tail \<Longrightarrow> ix_id (index tab ! a) < ix_id (index tab ! b)) \<Longrightarrow>
     head \<le> k \<Longrightarrow> k < tail \<Longrightarrow> ix_id (index tab ! k) \<noteq> ident"
proof (induction tab head tail ident arbitrary: k rule: gfarm_id_bsearch.induct)
  case (1 tab head tail ident)
  note unf = gfarm_id_bsearch.simps [of tab head tail ident]
  have lt: "head < tail" using "1.prems" by simp
  obtain m where m: "m = (head + tail) div 2" by blast
  then have mid: "head \<le> m" "m < tail" using lt by simp_all
  have ne: "ix_id (index tab ! m) \<noteq> ident" using "1.prems"(1) lt m by (auto simp: unf Let_def)
  show ?case
  proof (cases "ix_id (index tab ! m) > ident")
    case True
    then have none: "gfarm_id_bsearch tab head m ident = None"
      using "1.prems"(1) lt m ne by (simp add: unf Let_def)
    show ?thesis
    proof (cases "k < m")
      case below: True
      show ?thesis
        by (rule "1.IH"(1) [OF lt m ne True none])
          (use "1.prems" mid below in \<open>auto intro: "1.prems"(2)\<close>)
    next
      case False
      then show ?thesis using "1.prems"(2) [of m k] "1.prems"(4) mid True by (cases "k = m") auto
    qed
  next
    case False
    then have none: "gfarm_id_bsearch tab (m + 1) tail ident = None"
      using "1.prems"(1) lt m ne by (simp add: unf Let_def)
    show ?thesis
    proof (cases "m < k")
      case above: True
      show ?thesis
        by (rule "1.IH"(2) [OF lt m ne False none])
          (use "1.prems" mid above in \<open>auto intro: "1.prems"(2)\<close>)
    next
      case le: False
      then show ?thesis using "1.prems"(2) [of k m] "1.prems"(3) mid ne False by (cases "k = m") auto
    qed
  qed
qed

text \<open>The two searches of lookup and release: the places of the entry in its part, or nowhere.\<close>

lemma bsearch_parts:
  assumes v: "views tab hs ts" and srt: "ids_sorted (hs @ ts)"
  shows "case gfarm_id_bsearch tab 0 (hole_start tab) ident of
      Some k \<Rightarrow> k < length hs \<and> ix_id (hs ! k) = ident
    | None \<Rightarrow> (\<forall>e \<in> set hs. ix_id e \<noteq> ident)"
    and "case gfarm_id_bsearch tab (hole_end tab) (idxsize tab) ident of
      Some k \<Rightarrow> hole_end tab \<le> k \<and> k - hole_end tab < length ts \<and> ix_id (ts ! (k - hole_end tab)) = ident
    | None \<Rightarrow> (\<forall>e \<in> set ts. ix_id e \<noteq> ident)"
proof -
  note len = views_lengths [OF v] and nth = views_nth [OF v]
  have sh: "ids_sorted hs" and st: "ids_sorted ts" using srt by (simp_all add: ids_sorted_append)
  note less = sorted_wrt_nth_less [where P = "\<lambda>a b. ix_id a < ix_id b"]
  have oh: "ix_id (index tab ! a) < ix_id (index tab ! b)" if "a < b" "b < hole_start tab" for a b
    using that less [of hs a b] sh nth(1) [of a] nth(1) [of b] len by (simp add: ids_sorted_def)
  have ot: "ix_id (index tab ! a) < ix_id (index tab ! b)"
    if "hole_end tab \<le> a" "a < b" "b < idxsize tab" for a b
    using that less [of ts "a - hole_end tab" "b - hole_end tab"] st nth(2) [of "a - hole_end tab"]
      nth(2) [of "b - hole_end tab"] len by (simp add: ids_sorted_def)
  show "case gfarm_id_bsearch tab 0 (hole_start tab) ident of
      Some k \<Rightarrow> k < length hs \<and> ix_id (hs ! k) = ident
    | None \<Rightarrow> (\<forall>e \<in> set hs. ix_id e \<noteq> ident)"
  proof (cases "gfarm_id_bsearch tab 0 (hole_start tab) ident")
    case None
    have "ix_id (hs ! k) \<noteq> ident" if "k < length hs" for k
      using bsearch_complete [OF None oh, of k] that nth(1) [of k] len by simp
    with None show ?thesis by (simp add: all_set_conv_all_nth)
  next
    case (Some k)
    with bsearch_sound [OF Some] nth(1) [of k] len show ?thesis by simp
  qed
  show "case gfarm_id_bsearch tab (hole_end tab) (idxsize tab) ident of
      Some k \<Rightarrow> hole_end tab \<le> k \<and> k - hole_end tab < length ts \<and> ix_id (ts ! (k - hole_end tab)) = ident
    | None \<Rightarrow> (\<forall>e \<in> set ts. ix_id e \<noteq> ident)"
  proof (cases "gfarm_id_bsearch tab (hole_end tab) (idxsize tab) ident")
    case None
    have "ix_id (ts ! k) \<noteq> ident" if "k < length ts" for k
      using bsearch_complete [OF None ot, of "hole_end tab + k"] that nth(2) [of k] len by simp
    with None show ?thesis by (simp add: all_set_conv_all_nth)
  next
    case (Some k)
    with bsearch_sound [OF Some] nth(2) [of "k - hole_end tab"] len show ?thesis by auto
  qed
qed

subsection \<open>The invariant of the reachable tables\<close>

text \<open>Every cell is on the free list or belongs to exactly one live identifier.\<close>

definition id_cells :: "id_table \<Rightarrow> (int \<times> nat) list \<Rightarrow> bool" where
  "id_cells tab ps \<longleftrightarrow> distinct (free_data tab @ map snd ps)
     \<and> set (free_data tab @ map snd ps) = {..<idxsize tab}"

definition id_ok :: "id_table \<Rightarrow> id_index list \<Rightarrow> id_index list \<Rightarrow> bool" where
  "id_ok tab hs ts \<longleftrightarrow> id_shape tab hs ts \<and> id_cells tab (pairs (hs @ ts))
     \<and> (id_next tab < id_limit tab \<longrightarrow> id_placed (id_next tab) hs ts)"

definition id_wf :: "id_table \<Rightarrow> bool" where
  "id_wf tab \<longleftrightarrow> id_ok tab (heads tab) (tails tab)"

lemma id_ok_wf: "id_ok tab hs ts \<Longrightarrow> id_wf tab \<and> heads tab = hs \<and> tails tab = ts"
  using views_heads_tails [of tab hs ts] by (auto simp: id_wf_def id_ok_def id_shape_def)

lemma id_ok_map: "id_ok tab hs ts \<Longrightarrow> id_map tab = map_of (pairs (hs @ ts))"
  using id_ok_wf [of tab hs ts] by (simp add: id_map_def)

lemma pairs_distinct: "ids_sorted es \<Longrightarrow> distinct (map fst (pairs es))"
proof (induction es)
  case (Cons e es)
  then have "ix_id e \<notin> fst ` set (pairs es)" using pairs_keys [of es] by (force simp: ids_sorted_Cons)
  with Cons show ?case by (simp add: ids_sorted_Cons split: option.split)
qed simp

lemma id_cells_env: "same_env tab tab' \<Longrightarrow> id_cells tab' ps = id_cells tab ps"
  by (simp add: id_cells_def same_env_def)

lemma lookup_id_map: "id_ok tab hs ts \<Longrightarrow> gfarm_id_lookup tab ident = id_map tab ident"
proof -
  assume ok: "id_ok tab hs ts"
  then have v: "views tab hs ts" and srt: "ids_sorted (hs @ ts)" by (simp_all add: id_ok_def id_shape_def)
  note b = bsearch_parts [OF v srt, of ident] and nth = views_nth [OF v]
  have m: "map_of (pairs (hs @ ts)) (ix_id ((hs @ ts) ! k)) = ix_data ((hs @ ts) ! k)"
    if "k < length (hs @ ts)" for k by (rule map_of_pairs_nth [OF srt that])
  show ?thesis
  proof (cases "gfarm_id_bsearch tab 0 (hole_start tab) ident")
    case (Some k)
    with b(1) m [of k] nth(1) [of k] show ?thesis
      by (simp add: gfarm_id_lookup_def id_ok_map [OF ok] nth_append del: pairs_append)
  next
    case none: None
    show ?thesis
    proof (cases "gfarm_id_bsearch tab (hole_end tab) (idxsize tab) ident")
      case (Some k)
      obtain l where l: "k = hole_end tab + l" "l < length ts" "ix_id (ts ! l) = ident"
        using b(2) Some by (intro that [of "k - hole_end tab"]) auto
      with none Some m [of "length hs + l"] nth(2) [of l] show ?thesis
        by (simp add: gfarm_id_lookup_def id_ok_map [OF ok] del: pairs_append)
    next
      case None
      with none b have "map_of (pairs (hs @ ts)) ident = None"
        by (intro map_of_pairs_None) auto
      with none None show ?thesis by (simp add: gfarm_id_lookup_def id_ok_map [OF ok] del: pairs_append)
    qed
  qed
qed

subsection \<open>Release\<close>

lemma pairs_strip [simp]: "pairs (strip_nulls es) = pairs es"
  by (induction es rule: rev_induct) (auto simp: ix_null_def)

lemma strip_last: "strip_nulls es \<noteq> [] \<Longrightarrow> ix_used (last (strip_nulls es))"
  by (induction es rule: rev_induct) auto

lemma strip_used: "ix_used (last es) \<Longrightarrow> strip_nulls es = es"
  by (cases es rule: rev_cases) auto

lemma ids_sorted_strip: "ids_sorted (es @ ys) \<Longrightarrow> ids_sorted (strip_nulls es @ ys)"
  by (induction es rule: rev_induct) (auto simp: ids_sorted_append ids_sorted_Cons)

lemma set_strip: "set (strip_nulls es) \<subseteq> set es"
  by (induction es rule: rev_induct) auto

text \<open>One entry of a sorted index loses its cell.\<close>

abbreviation cleared :: "id_index \<Rightarrow> id_index" where
  "cleared e \<equiv> e\<lparr>ix_data := None\<rparr>"

lemma pairs_clear:
  assumes "ids_sorted (xs @ e # ys)" and "ix_data e = Some p"
  shows "map_of (pairs (xs @ cleared e # ys)) = (map_of (pairs (xs @ e # ys)))(ix_id e := None)"
    and "pairs (xs @ e # ys) = pairs xs @ (ix_id e, p) # pairs ys"
    and "pairs (xs @ cleared e # ys) = pairs xs @ pairs ys"
proof -
  have "distinct (map fst (pairs xs @ (ix_id e, p) # pairs ys))"
    using pairs_distinct [OF assms(1)] assms(2) by simp
  then show "map_of (pairs (xs @ cleared e # ys)) = (map_of (pairs (xs @ e # ys)))(ix_id e := None)"
    using assms(2) by (auto simp: fun_eq_iff map_add_def map_of_eq_None_iff split: option.split)
      (metis fst_conv image_eqI map_of_SomeD)+
qed (use assms(2) in simp_all)

lemma split_entry:
  assumes "k < length es"
  obtains xs ys where "es = xs @ es ! k # ys" and "length xs = k"
    and "es[k := x] = xs @ x # ys"
  using that [of "take k es" "drop (Suc k) es"] split_at [OF assms] assms
  by (simp add: upd_conv_take_nth_drop)

lemma placed_clear:
  "id_placed n (xs @ e # ys) ts \<Longrightarrow> id_placed n (strip_nulls (xs @ cleared e # ys)) ts"
  "id_placed n hs (xs @ e # ys) \<Longrightarrow> id_placed n hs (dropWhile ix_null (xs @ cleared e # ys))"
  using set_strip [of "xs @ cleared e # ys"] set_dropWhileD [of _ ix_null "xs @ cleared e # ys"]
  by (fastforce simp: id_placed_def)+

lemma sorted_clear: "ids_sorted (xs @ cleared e # ys) = ids_sorted (xs @ e # ys)"
  by (auto simp: ids_sorted_append ids_sorted_Cons)

text \<open>What releasing an entry of the head, or of the tail, leaves: the cleared part without the nulls
  at the edge of the hole.\<close>

lemma free_head_spec:
  assumes s: "id_shape tab hs ts" and k: "k < length hs" and d: "ix_data (hs ! k) = Some p"
  shows "\<exists>tab'. (let tab1 = (id_clear tab k p)\<lparr>head_free := head_free tab + 1\<rparr>
       in if k < hole_start tab - 1 then (tab1, True)
          else (gfarm_id_shrink_head (tab1\<lparr>hole_start := hole_start tab1 - 1,
                  head_free := head_free tab1 - 1\<rparr>), True)) = (tab', True)
    \<and> id_shape tab' (strip_nulls (hs[k := cleared (hs ! k)])) ts
    \<and> id_next tab' = id_next tab \<and> same_env (tab\<lparr>free_data := p # free_data tab\<rparr>) tab'"
proof -
  have v: "views tab hs ts" using s by (simp add: id_shape_def)
  note len = views_lengths [OF v]
  obtain xs ys where spl: "hs = xs @ hs ! k # ys" "length xs = k" "hs[k := cleared (hs ! k)] = xs @ cleared (hs ! k) # ys"
    by (rule split_entry [OF k])
  let ?hs = "hs[k := cleared (hs ! k)]"
  obtain tab1 where t1: "tab1 = (id_clear tab k p)\<lparr>head_free := head_free tab + 1\<rparr>" by blast
  have v1: "views tab1 ?hs ts"
    using v k len views_nth(1) [OF v k] unfolding t1
    by (auto simp: views_def id_clear_def take_update_swap)
  note unf = gfarm_id_shrink_head.simps [of tab1]
  have h1: "hole_start tab1 = hole_start tab" by (simp add: t1 id_clear_def)
  have res: "(if k < hole_start tab - 1 then (tab1, True)
      else (gfarm_id_shrink_head (tab1\<lparr>hole_start := hole_start tab1 - 1,
                  head_free := head_free tab1 - 1\<rparr>), True)) = (gfarm_id_shrink_head tab1, True)"
  proof (cases "k < hole_start tab - 1")
    case True
    then have "index tab1 ! (hole_start tab1 - 1) = hs ! (length hs - 1)"
      using views_nth(1) [OF v1, of "hole_start tab - 1"] len h1 by simp
    moreover have "ix_used (hs ! (length hs - 1))" using s k by (auto simp: id_shape_def last_conv_nth)
    ultimately show ?thesis using True by (simp add: unf)
  next
    case False
    then have "k = hole_start tab - 1" "0 < hole_start tab" using k len by simp_all
    then show ?thesis using views_nth(1) [OF v1, of k] k h1 by (simp add: unf ix_null_def)
  qed
  have n1: "nulls ?hs = nulls hs + 1" unfolding spl(3) using arg_cong [OF spl(1), of nulls] d
    by (simp add: ix_null_def)
  note sh = shrink_head_spec [OF v1]
  have "id_shape (gfarm_id_shrink_head tab1) (strip_nulls ?hs) ts"
  proof -
    have "ids_sorted (xs @ cleared (hs ! k) # (ys @ ts))"
      using s spl(1) by (simp add: id_shape_def sorted_clear) (metis append.assoc append_Cons)
    then have "ids_sorted (?hs @ ts)" unfolding spl(3) by simp
    then show ?thesis using sh s n1 strip_last [of ?hs]
      by (simp add: id_shape_def ids_sorted_strip t1 id_clear_def)
  qed
  then show ?thesis using res sh unfolding t1 [symmetric] Let_def
    by (intro exI [of _ "gfarm_id_shrink_head tab1"]) (simp add: same_env_def t1 id_clear_def)
qed

lemma free_tail_spec:
  assumes s: "id_shape tab hs ts" and k: "k < length ts" and d: "ix_data (ts ! k) = Some p"
  shows "\<exists>tab'. (let tab1 = (id_clear tab (hole_end tab + k) p)\<lparr>tail_free := tail_free tab + 1\<rparr>
       in if hole_end tab + k > hole_end tab then (tab1, True)
          else (gfarm_id_shrink_tail (tab1\<lparr>hole_end := hole_end tab1 + 1,
                  tail_free := tail_free tab1 - 1\<rparr>), True)) = (tab', True)
    \<and> id_shape tab' hs (dropWhile ix_null (ts[k := cleared (ts ! k)]))
    \<and> id_next tab' = id_next tab \<and> same_env (tab\<lparr>free_data := p # free_data tab\<rparr>) tab'"
proof -
  have v: "views tab hs ts" using s by (simp add: id_shape_def)
  note len = views_lengths [OF v]
  obtain xs ys where spl: "ts = xs @ ts ! k # ys" "length xs = k" "ts[k := cleared (ts ! k)] = xs @ cleared (ts ! k) # ys"
    by (rule split_entry [OF k])
  let ?ts = "ts[k := cleared (ts ! k)]"
  obtain tab1 where t1: "tab1 = (id_clear tab (hole_end tab + k) p)\<lparr>tail_free := tail_free tab + 1\<rparr>" by blast
  have v1: "views tab1 hs ?ts"
    using v k len views_nth(2) [OF v k] unfolding t1
    by (auto simp: views_def id_clear_def drop_update_swap)
  note unf = gfarm_id_shrink_tail.simps [of tab1]
  have h1: "hole_end tab1 = hole_end tab" "idxsize tab1 = idxsize tab" by (simp_all add: t1 id_clear_def)
  have lt: "hole_end tab < idxsize tab" using k len by simp
  have res: "(if hole_end tab + k > hole_end tab then (tab1, True)
      else (gfarm_id_shrink_tail (tab1\<lparr>hole_end := hole_end tab1 + 1,
                  tail_free := tail_free tab1 - 1\<rparr>), True)) = (gfarm_id_shrink_tail tab1, True)"
  proof (cases "k = 0")
    case False
    then have "index tab1 ! hole_end tab1 = ts ! 0"
      using views_nth(2) [OF v1, of 0] k h1 by (cases "ts = []") simp_all
    moreover have "ix_used (ts ! 0)" using s k by (auto simp: id_shape_def hd_conv_nth)
    ultimately show ?thesis using False by (simp add: unf)
  next
    case True
    then show ?thesis using views_nth(2) [OF v1, of 0] k h1 lt by (simp add: unf ix_null_def)
  qed
  have n1: "nulls ?ts = nulls ts + 1" unfolding spl(3) using arg_cong [OF spl(1), of nulls] d
    by (simp add: ix_null_def)
  note sh = shrink_tail_spec [OF v1]
  have "id_shape (gfarm_id_shrink_tail tab1) hs (dropWhile ix_null ?ts)"
  proof -
    have "ids_sorted ((hs @ xs) @ cleared (ts ! k) # ys)"
      using s spl(1) by (simp only: sorted_clear) (simp add: id_shape_def)
    then have "ids_sorted (hs @ ?ts)" unfolding spl(3) by simp
    then show ?thesis using sh s n1 dropWhile_null_hd [of ?ts]
      by (simp add: id_shape_def ids_sorted_dropWhile t1 id_clear_def)
  qed
  then show ?thesis using res sh unfolding t1 [symmetric] Let_def
    by (intro exI [of _ "gfarm_id_shrink_tail tab1"]) (simp add: same_env_def t1 id_clear_def)
qed

lemma cells_release:
  assumes "id_cells tab (ps @ (i, p) # qs)" and "same_env (tab\<lparr>free_data := p # free_data tab\<rparr>) tab'"
  shows "id_cells tab' (ps @ qs)"
  using assms by (auto simp: id_cells_def same_env_def)

lemma free_spec:
  assumes ok: "id_ok tab hs ts" and r: "gfarm_id_free tab ident = (tab', b)"
  shows "\<exists>hs' ts'. id_ok tab' hs' ts' \<and> id_map tab' = (id_map tab)(ident := None)
    \<and> (b \<longleftrightarrow> id_map tab ident \<noteq> None)
    \<and> same_env (tab\<lparr>free_data := (case id_map tab ident of None \<Rightarrow> free_data tab
         | Some p \<Rightarrow> p # free_data tab)\<rparr>) tab' \<and> id_next tab' = id_next tab"
proof -
  have s: "id_shape tab hs ts" and v: "views tab hs ts" and srt: "ids_sorted (hs @ ts)"
    using ok by (simp_all add: id_ok_def id_shape_def)
  note bs = bsearch_parts [OF v srt, of ident] and nth = views_nth [OF v]
  have m: "map_of (pairs (hs @ ts)) (ix_id ((hs @ ts) ! k)) = ix_data ((hs @ ts) ! k)"
    if "k < length (hs @ ts)" for k by (rule map_of_pairs_nth [OF srt that])
  have absent: ?thesis if "tab' = tab" "\<not> b" "id_map tab ident = None"
    using ok that fun_upd_triv [of "id_map tab" ident]
    by (intro exI [of _ hs] exI [of _ ts]) (simp add: same_env_def)
  show ?thesis
  proof (cases "gfarm_id_bsearch tab 0 (hole_start tab) ident")
    case (Some k)
    with bs(1) have k: "k < length hs" "ix_id (hs ! k) = ident" by simp_all
    have im: "id_map tab ident = ix_data (hs ! k)"
      using m [of k] k by (simp add: id_ok_map [OF ok] nth_append del: pairs_append)
    show ?thesis
    proof (cases "ix_data (hs ! k)")
      case None
      then show ?thesis using absent r Some im k nth(1) [of k] by (simp add: gfarm_id_free_def)
    next
      case d: (Some p)
      from free_head_spec [OF s k(1) d] obtain tab2
        where run: "gfarm_id_free tab ident = (tab2, True)"
          and sh: "id_shape tab2 (strip_nulls (hs[k := cleared (hs ! k)])) ts"
          and nx: "id_next tab2 = id_next tab"
          and env: "same_env (tab\<lparr>free_data := p # free_data tab\<rparr>) tab2"
        using Some d k nth(1) [of k] by (fastforce simp: gfarm_id_free_def)
      have t: "tab' = tab2" "b" using run r by simp_all
      obtain xs ys where spl: "hs = xs @ hs ! k # ys" "hs[k := cleared (hs ! k)] = xs @ cleared (hs ! k) # ys"
        using split_entry [OF k(1)] by metis
      obtain e where e: "hs ! k = e" by blast
      note spl' = spl [unfolded e]
      have "ids_sorted (xs @ e # (ys @ ts))" using srt spl'(1) by simp
      note pc = pairs_clear [OF this d [unfolded e]]
      have fin: "pairs (strip_nulls (hs[k := cleared (hs ! k)]) @ ts) = pairs (xs @ cleared e # (ys @ ts))"
        unfolding e spl'(2) by simp
      have full: "pairs (hs @ ts) = pairs (xs @ e # (ys @ ts))" using spl'(1) by simp
      have ok': "id_ok tab' (strip_nulls (hs[k := cleared (hs ! k)])) ts"
        unfolding id_ok_def fin
      proof (intro conjI impI)
        show "id_cells tab' (pairs (xs @ cleared e # (ys @ ts)))"
          using cells_release [OF _ env] ok t unfolding id_ok_def full pc(2) pc(3) by blast
        show "id_placed (id_next tab') (strip_nulls (hs[k := cleared (hs ! k)])) ts" if "id_next tab' < id_limit tab'"
        proof -
          have "id_placed (id_next tab) hs ts" using ok that t nx env by (simp add: id_ok_def same_env_def)
          then have "id_placed (id_next tab) (xs @ e # ys) ts" by (simp flip: spl'(1))
          from placed_clear(1) [OF this] show ?thesis unfolding e spl'(2) using t nx by simp
        qed
      qed (use sh t in simp)
      have "id_map tab' = (id_map tab)(ident := None)"
        unfolding id_ok_map [OF ok'] id_ok_map [OF ok] fin full pc(1) using k(2) e by simp
      with ok' im d t nx env show ?thesis by auto
    qed
  next
    case none: None
    show ?thesis
    proof (cases "gfarm_id_bsearch tab (hole_end tab) (idxsize tab) ident")
      case None
      with none bs have "id_map tab ident = None"
        unfolding id_ok_map [OF ok] by (intro map_of_pairs_None) auto
      then show ?thesis using absent r none None by (simp add: gfarm_id_free_def)
    next
      case (Some k')
      with bs(2) obtain k where k': "k' = hole_end tab + k" and k: "k < length ts" "ix_id (ts ! k) = ident"
        using Some by (intro that [of "k' - hole_end tab"]) auto
      have im: "id_map tab ident = ix_data (ts ! k)"
        using m [of "length hs + k"] k by (simp add: id_ok_map [OF ok] del: pairs_append)
      show ?thesis
      proof (cases "ix_data (ts ! k)")
        case None
        then show ?thesis using absent r none Some im k k' nth(2) [of k] by (simp add: gfarm_id_free_def)
      next
        case d: (Some p)
        from free_tail_spec [OF s k(1) d] obtain tab2
          where run: "gfarm_id_free tab ident = (tab2, True)"
            and sh: "id_shape tab2 hs (dropWhile ix_null (ts[k := cleared (ts ! k)]))"
            and nx: "id_next tab2 = id_next tab"
            and env: "same_env (tab\<lparr>free_data := p # free_data tab\<rparr>) tab2"
          using Some none d k k' nth(2) [of k] by (fastforce simp: gfarm_id_free_def)
        have t: "tab' = tab2" "b" using run r by simp_all
        obtain xs ys where spl: "ts = xs @ ts ! k # ys" "ts[k := cleared (ts ! k)] = xs @ cleared (ts ! k) # ys"
          using split_entry [OF k(1)] by metis
        obtain e where e: "ts ! k = e" by blast
        note spl' = spl [unfolded e]
        have "ids_sorted ((hs @ xs) @ e # ys)" using srt spl'(1) by simp
        note pc = pairs_clear [OF this d [unfolded e]]
        have fin: "pairs (hs @ dropWhile ix_null (ts[k := cleared (ts ! k)])) = pairs ((hs @ xs) @ cleared e # ys)"
          unfolding e spl'(2) by simp
        have full: "pairs (hs @ ts) = pairs ((hs @ xs) @ e # ys)" using spl'(1) by simp
        have ok': "id_ok tab' hs (dropWhile ix_null (ts[k := cleared (ts ! k)]))"
          unfolding id_ok_def fin
        proof (intro conjI impI)
          show "id_cells tab' (pairs ((hs @ xs) @ cleared e # ys))"
            using cells_release [OF _ env] ok t unfolding id_ok_def full pc(2) pc(3) by blast
          show "id_placed (id_next tab') hs (dropWhile ix_null (ts[k := cleared (ts ! k)]))"
            if "id_next tab' < id_limit tab'"
          proof -
            have "id_placed (id_next tab) hs ts" using ok that t nx env by (simp add: id_ok_def same_env_def)
            then have "id_placed (id_next tab) hs (xs @ e # ys)" by (simp flip: spl'(1))
            from placed_clear(2) [OF this] show ?thesis unfolding e spl'(2) using t nx by simp
          qed
        qed (use sh t in simp)
        have "id_map tab' = (id_map tab)(ident := None)"
          unfolding id_ok_map [OF ok'] id_ok_map [OF ok] fin full pc(1) using k(2) e by simp
        with ok' im d t nx env show ?thesis by auto
      qed
    qed
  qed
qed

end
