(* ===== verification/Id_Table_Reach.thy ===== *)
theory Id_Table_Reach
  imports Id_Table_Spec
begin

text \<open>
  Allocation from the identifier table, the contract of an allocator of handles (locale
  \<open>handle_table\<close>), the states that any use of the table reaches, and what goes wrong when the
  identifiers wrap around.
\<close>

subsection \<open>Room for one more entry\<close>

lemma pairs_length: "length (pairs es) \<le> length es"
  by (induction es) (auto split: option.split)

lemma filter_shorter: "filter P es \<noteq> es \<Longrightarrow> length (filter P es) < length es"
  by (metis filter_True length_filter_less)

lemma shape_compact_head:
  assumes s: "id_shape tab hs ts" and r: "gfarm_id_compaction_from_head tab = (d, tab')"
  shows "\<exists>hs'. id_shape tab' hs' ts \<and> pairs (hs' @ ts) = pairs (hs @ ts) \<and> set hs' \<subseteq> set hs
    \<and> same_env tab tab' \<and> id_next tab' = id_next tab \<and> (d \<longrightarrow> hole_start tab' < hole_end tab')"
proof (cases "head_free tab \<le> 0")
  case True
  with r s show ?thesis by (intro exI [of _ hs]) (simp add: gfarm_id_compaction_from_head_def)
next
  case False
  have v: "views tab hs ts" using s by (simp add: id_shape_def)
  from False r have "gfarm_id_compaction_from_head_force tab = (d, tab')"
    by (simp add: gfarm_id_compaction_from_head_def)
  note h = head_force_spec [OF v this]
  have "id_shape tab' (filter ix_used hs) ts"
    using h s used_edges [of hs] by (auto simp: id_shape_def ids_sorted_append ids_sorted_filter)
  moreover have "hole_start tab' < hole_end tab'" if d
    using h that filter_shorter [of ix_used hs] v views_lengths [of tab' "filter ix_used hs" ts]
      views_lengths [OF v] by (auto simp: views_def same_env_def)
  ultimately show ?thesis using h by (intro exI [of _ "filter ix_used hs"]) auto
qed

lemma shape_compact_tail:
  assumes s: "id_shape tab hs ts" and r: "gfarm_id_compaction_from_tail tab = Some (d, tab')"
  shows "\<exists>ts'. id_shape tab' hs ts' \<and> pairs (hs @ ts') = pairs (hs @ ts) \<and> set ts' \<subseteq> set ts
    \<and> length ts' \<le> length ts
    \<and> same_env tab tab' \<and> id_next tab' = id_next tab \<and> (d \<longrightarrow> hole_start tab' < hole_end tab')"
proof (cases "tail_free tab \<le> 0")
  case True
  with r s show ?thesis by (intro exI [of _ ts]) (simp add: gfarm_id_compaction_from_tail_def)
next
  case False
  have v: "views tab hs ts" using s by (simp add: id_shape_def)
  have ne: "ts \<noteq> []" using False s by (auto simp: id_shape_def)
  from False r have f: "gfarm_id_compaction_from_tail_force tab = Some (d, tab')"
    by (simp add: gfarm_id_compaction_from_tail_def)
  from tail_force_spec [OF v ne] f
  have h: "views tab' hs (filter ix_used ts)" "tail_free tab' = 0" "head_free tab' = head_free tab"
    "id_next tab' = id_next tab" "same_env tab tab'" "d \<longleftrightarrow> filter ix_used ts \<noteq> ts" by auto
  have "id_shape tab' hs (filter ix_used ts)"
    using h s used_edges [of ts] by (auto simp: id_shape_def ids_sorted_append ids_sorted_filter)
  moreover have "hole_start tab' < hole_end tab'" if d
    using h that filter_shorter [of ix_used ts] v views_lengths [OF h(1)]
      views_lengths [OF v] by (auto simp: views_def same_env_def)
  ultimately show ?thesis using h
    by (intro exI [of _ "filter ix_used ts"]) auto
qed

lemma compact_tail_defined:
  "id_shape tab hs ts \<Longrightarrow> gfarm_id_compaction_from_tail tab \<noteq> None"
proof -
  assume s: "id_shape tab hs ts"
  then have v: "views tab hs ts" by (simp add: id_shape_def)
  show ?thesis
  proof (cases "ts = []")
    case True
    with s show ?thesis by (simp add: gfarm_id_compaction_from_tail_def id_shape_def)
  next
    case False
    from tail_force_spec [OF v False] show ?thesis by (auto simp: gfarm_id_compaction_from_tail_def)
  qed
qed

lemma id_ok_shrink:
  assumes "id_ok tab hs ts" and "id_shape tab' hs' ts'" and "pairs (hs' @ ts') = pairs (hs @ ts)"
    and "set hs' \<subseteq> set hs" and "set ts' \<subseteq> set ts" and "same_env tab tab'" and "id_next tab' = id_next tab"
  shows "id_ok tab' hs' ts'"
  using assms id_cells_env [OF assms(6)]
  by (auto simp: id_ok_def id_placed_def same_env_def simp del: pairs_append)

lemma extend_spec:
  assumes ok: "id_ok tab hs ts" and r: "id_table_extend mal rea junk tab = Some (got, tab')"
  shows "id_ok tab' hs ts \<and> id_next tab' = id_next tab \<and> id_limit tab' = id_limit tab
    \<and> (got \<longrightarrow> hole_start tab' < hole_end tab')"
proof (cases got)
  case False
  with r have "tab' = tab" by (auto simp: id_table_extend_def Let_def split: if_splits)
  with ok False show ?thesis by simp
next
  case True
  have v: "views tab hs ts" using ok by (simp add: id_ok_def id_shape_def)
  obtain d where d: "d = nat (idx_delta tab)" by blast
  have pos: "0 < d" and tab': "tab' = tab
      \<lparr>chunks := idxsize tab # chunks tab,
       free_data := [idxsize tab..<idxsize tab + d] @ free_data tab,
       index := memmove (index tab @ replicate d junk) (hole_end tab + d) (hole_end tab)
                  (idxsize tab - hole_end tab),
       hole_end := hole_end tab + d, idxsize := idxsize tab + d,
       idx_delta := (if int ((idxsize tab + d) div 2) > idx_delta tab
                     then int ((idxsize tab + d) div 2) else idx_delta tab)\<rparr>"
    using r True d by (auto simp: id_table_extend_def Let_def split: if_splits)
  have v': "views tab' hs ts"
    using v unfolding tab' by (auto simp: views_def memmove_def)
  have "id_cells tab' (pairs (hs @ ts))"
    using ok unfolding id_ok_def id_cells_def tab' by (auto simp del: pairs_append)
  then show ?thesis using ok v' pos v
    by (auto simp: id_ok_def id_shape_def tab' views_def simp del: pairs_append)
qed

lemma room_spec:
  assumes ok: "id_ok tab hs ts" and r: "id_table_room mal rea junk tab = Some (got, tab')"
  shows "\<exists>hs' ts'. id_ok tab' hs' ts' \<and> pairs (hs' @ ts') = pairs (hs @ ts) \<and> length ts' \<le> length ts
    \<and> id_next tab' = id_next tab \<and> id_limit tab' = id_limit tab
    \<and> (got \<longrightarrow> hole_start tab' < hole_end tab')"
proof (cases "hole_start tab < hole_end tab")
  case True
  with r ok show ?thesis by (intro exI [of _ hs] exI [of _ ts]) (simp add: id_table_room_def)
next
  case False
  have s: "id_shape tab hs ts" using ok by (simp add: id_ok_def)
  obtain d1 tab1 where c1: "gfarm_id_compaction_from_head tab = (d1, tab1)" by fastforce
  obtain hs1 where h: "id_shape tab1 hs1 ts" "pairs (hs1 @ ts) = pairs (hs @ ts)" "set hs1 \<subseteq> set hs"
    "same_env tab tab1" "id_next tab1 = id_next tab" "d1 \<longrightarrow> hole_start tab1 < hole_end tab1"
    using shape_compact_head [OF s c1] by blast
  have ok1: "id_ok tab1 hs1 ts" by (rule id_ok_shrink [OF ok h(1-3) subset_refl h(4,5)])
  have l1: "id_limit tab1 = id_limit tab" using h(4) by (simp add: same_env_def)
  show ?thesis
  proof (cases d1)
    case True
    with r False c1 have "got" "tab' = tab1" by (simp_all add: id_table_room_def)
    with ok1 h l1 True show ?thesis by (intro exI [of _ hs1] exI [of _ ts]) simp
  next
    case nd1: False
    obtain d2 tab2 where c2: "gfarm_id_compaction_from_tail tab1 = Some (d2, tab2)"
      using compact_tail_defined [OF h(1)] by (metis option.exhaust surj_pair)
    obtain ts2 where t: "id_shape tab2 hs1 ts2" "pairs (hs1 @ ts2) = pairs (hs1 @ ts)" "set ts2 \<subseteq> set ts"
      "length ts2 \<le> length ts" "same_env tab1 tab2" "id_next tab2 = id_next tab1"
      "d2 \<longrightarrow> hole_start tab2 < hole_end tab2"
      using shape_compact_tail [OF h(1) c2] by blast
    have ok2: "id_ok tab2 hs1 ts2" by (rule id_ok_shrink [OF ok1 t(1,2) subset_refl t(3,5,6)])
    have l2: "id_limit tab2 = id_limit tab" using t(5) l1 by (simp add: same_env_def)
    have p2: "pairs (hs1 @ ts2) = pairs (hs @ ts)" using t(2) h(2) by argo
    show ?thesis
    proof (cases d2)
      case True
      with r False c1 nd1 c2 have "got" "tab' = tab2" by (simp_all add: id_table_room_def)
      with ok2 t h l2 p2 True show ?thesis by (intro exI [of _ hs1] exI [of _ ts2]) simp
    next
      case nd2: False
      with r False c1 nd1 c2 have "id_table_extend mal rea junk tab2 = Some (got, tab')"
        by (simp add: id_table_room_def)
      note e = extend_spec [OF ok2 this]
      with t h l2 p2 show ?thesis by (intro exI [of _ hs1] exI [of _ ts2]) simp
    qed
  qed
qed

lemma place_spec:
  assumes ok: "id_ok tab hs ts" and lt: "id_next tab < id_limit tab" and hole: "hole_start tab < hole_end tab"
  obtains p tab' where "id_place tab = Some tab'" and "id_shape tab' (hs @ [\<lparr>ix_data = Some p, ix_id = id_next tab\<rparr>]) ts"
    and "id_cells tab' (pairs ((hs @ [\<lparr>ix_data = Some p, ix_id = id_next tab\<rparr>]) @ ts))"
    and "p \<notin> snd ` set (pairs (hs @ ts))" and "id_next tab' = id_next tab + 1"
    and "id_limit tab' = id_limit tab" and "id_placed (id_next tab) hs ts"
proof -
  have s: "id_shape tab hs ts" and v: "views tab hs ts" and c: "id_cells tab (pairs (hs @ ts))"
    and pl: "id_placed (id_next tab) hs ts"
    using ok lt by (simp_all add: id_ok_def id_shape_def)
  note len = views_lengths [OF v]
  have "length (free_data tab @ map snd (pairs (hs @ ts))) = idxsize tab"
    using c distinct_card [of "free_data tab @ map snd (pairs (hs @ ts))"] by (simp add: id_cells_def)
  moreover have "hole_end tab \<le> idxsize tab" using v by (simp add: views_def)
  then have "length (pairs (hs @ ts)) < idxsize tab"
    using pairs_length [of "hs @ ts"] len hole by simp
  ultimately obtain p ps where f: "free_data tab = p # ps" by (cases "free_data tab") auto
  let ?e = "\<lparr>ix_data = Some p, ix_id = id_next tab\<rparr>"
  let ?tab = "tab\<lparr>index := (index tab)[hole_start tab := ?e],
    hole_start := hole_start tab + 1, id_next := id_next tab + 1, free_data := ps\<rparr>"
  have v': "views ?tab (hs @ [?e]) ts"
    using v hole by (auto simp: views_def take_Suc_conv_app_nth)
  have "ids_sorted ((hs @ [?e]) @ ts)"
    using s pl by (auto simp: id_shape_def id_placed_def ids_sorted_append ids_sorted_Cons)
  then have sh: "id_shape ?tab (hs @ [?e]) ts" using s v' by (simp add: id_shape_def ix_null_def)
  have "id_cells ?tab (pairs ((hs @ [?e]) @ ts))" "p \<notin> snd ` set (pairs (hs @ ts))"
    using c f by (auto simp: id_cells_def)
  with sh pl f show ?thesis by (intro that [of ?tab p]) (simp_all add: id_place_def)
qed

subsection \<open>Allocation\<close>

lemma placed_absent:
  "id_placed n hs ts \<Longrightarrow> map_of (pairs (hs @ ts)) n = None"
  by (rule map_of_pairs_None) (auto simp: id_placed_def)

lemma pairs_insert:
  assumes "id_placed n hs ts"
  shows "map_of (pairs ((hs @ [\<lparr>ix_data = Some p, ix_id = n\<rparr>]) @ ts))
    = (map_of (pairs (hs @ ts)))(n \<mapsto> p)"
proof -
  have "map_of (pairs hs) n = None" by (rule map_of_pairs_None) (use assms in \<open>auto simp: id_placed_def\<close>)
  moreover have "map_of (pairs ts) n = None" by (rule map_of_pairs_None) (use assms in \<open>auto simp: id_placed_def\<close>)
  ultimately show ?thesis by (auto simp: fun_eq_iff map_add_def split: option.split)
qed

lemma alloc_spec:
  assumes ok: "id_ok tab hs ts" and r: "gfarm_id_alloc mal rea junk tab = Some (tab', res)"
  shows "id_wf tab' \<and> id_limit tab' = id_limit tab
    \<and> (res = None \<longrightarrow> id_map tab' = id_map tab)
    \<and> (res \<noteq> None \<longrightarrow> (\<exists>p i. id_map tab i = None \<and> p \<notin> ran (id_map tab) \<and> i < id_limit tab
         \<and> id_map tab' = (id_map tab)(i \<mapsto> p)
         \<and> (id_next tab + 1 + int (length ts) < id_limit tab \<longrightarrow>
              res = Some (Some p, i) \<and> i = id_next tab \<and> i < id_next tab')))"
proof -
  obtain tab1 where t1: "(if id_next tab \<ge> id_limit tab then gfarm_id_rewind tab else Some tab) = Some tab1"
    using r by (auto simp: gfarm_id_alloc_def split: option.splits)
  obtain hs1 ts1 where ok1: "id_ok tab1 hs1 ts1" and p1: "pairs (hs1 @ ts1) = pairs (hs @ ts)"
    and l1: "id_limit tab1 = id_limit tab"
    and n1: "id_next tab < id_limit tab \<Longrightarrow> tab1 = tab \<and> ts1 = ts"
  proof (cases "id_next tab \<ge> id_limit tab")
    case True
    with t1 have rw: "gfarm_id_rewind tab = Some tab1" by simp
    have s: "id_shape tab hs ts" using ok by (simp add: id_ok_def)
    from rewind_spec [OF s rw] obtain hs1 ts1 where h: "id_shape tab1 hs1 ts1"
      "pairs (hs1 @ ts1) = pairs (hs @ ts)" "same_env tab tab1"
      "id_next tab1 < id_limit tab1 \<longrightarrow> id_placed (id_next tab1) hs1 ts1" by blast
    have "id_ok tab1 hs1 ts1" using ok h id_cells_env [OF h(3)] by (simp add: id_ok_def)
    with h True show ?thesis by (intro that [of hs1 ts1]) (auto simp: same_env_def)
  next
    case False
    with t1 ok show ?thesis by (intro that [of hs ts]) auto
  qed
  have m1: "id_map tab1 = id_map tab" by (simp only: id_ok_map [OF ok1] id_ok_map [OF ok] p1)
  show ?thesis
  proof (cases "id_next tab1 \<ge> id_limit tab1")
    case True
    with r t1 have "tab' = tab1" "res = None" by (simp_all add: gfarm_id_alloc_def)
    with ok1 m1 l1 id_ok_wf [OF ok1] show ?thesis by simp
  next
    case lt: False
    obtain room tab2 where rm: "id_table_room mal rea junk tab1 = Some (room, tab2)"
      using r t1 lt by (auto simp: gfarm_id_alloc_def split: option.splits)
    from room_spec [OF ok1 rm] obtain hs2 ts2 where ok2: "id_ok tab2 hs2 ts2"
      and p2: "pairs (hs2 @ ts2) = pairs (hs1 @ ts1)" and lts: "length ts2 \<le> length ts1"
      and n2: "id_next tab2 = id_next tab1" and l2: "id_limit tab2 = id_limit tab1"
      and hole: "room \<longrightarrow> hole_start tab2 < hole_end tab2" by blast
    have m2: "id_map tab2 = id_map tab" using m1 by (simp only: id_ok_map [OF ok2] id_ok_map [OF ok1] p2)
    show ?thesis
    proof (cases room)
      case False
      with r t1 lt rm have "tab' = tab2" "res = None" by (simp_all add: gfarm_id_alloc_def)
      with m2 l1 l2 id_ok_wf [OF ok2] show ?thesis by simp
    next
      case True
      obtain p tab3 where pl: "id_place tab2 = Some tab3"
        and sh3: "id_shape tab3 (hs2 @ [\<lparr>ix_data = Some p, ix_id = id_next tab2\<rparr>]) ts2"
        and c3: "id_cells tab3 (pairs ((hs2 @ [\<lparr>ix_data = Some p, ix_id = id_next tab2\<rparr>]) @ ts2))"
        and fresh: "p \<notin> snd ` set (pairs (hs2 @ ts2))" and n3: "id_next tab3 = id_next tab2 + 1"
        and l3: "id_limit tab3 = id_limit tab2" and pld: "id_placed (id_next tab2) hs2 ts2"
        by (rule place_spec [OF ok2]) (use lt hole True n2 l2 in simp_all)
      let ?e = "\<lparr>ix_data = Some p, ix_id = id_next tab2\<rparr>"
      obtain tab4 where t4: "gfarm_id_adjust_next tab3 = Some tab4"
        and res: "tab' = tab4" "res = Some (ix_data (index tab4 ! hole_start tab2), ix_id (index tab4 ! hole_start tab2))"
        using r t1 lt rm True pl by (auto simp: gfarm_id_alloc_def Let_def split: option.splits)
      have below: "\<forall>e \<in> set (hs2 @ [?e]). ix_id e < id_next tab3"
        and above: "\<forall>e \<in> set ts2. id_next tab3 \<le> ix_id e"
        using pld n3 by (auto simp: id_placed_def)
      have hs2l: "hole_start tab2 = length hs2"
        using ok2 views_lengths [of tab2 hs2 ts2] by (simp add: id_ok_def id_shape_def)
      have new: "id_map tab (id_next tab2) = None" "p \<notin> ran (id_map tab)"
        using placed_absent [OF pld] fresh m2 map_of_SomeD [of "pairs (hs2 @ ts2)"]
        by (auto simp: id_ok_map [OF ok2] ran_def simp del: pairs_append) force
      have ilim: "id_next tab2 < id_limit tab" using lt n2 l1 by simp
      obtain hs4 ts4 where sh4: "id_shape tab4 hs4 ts4" and p4: "pairs (hs4 @ ts4) = pairs ((hs2 @ [?e]) @ ts2)"
        and e4: "same_env tab3 tab4" and pl4: "id_next tab4 < id_limit tab4 \<longrightarrow> id_placed (id_next tab4) hs4 ts4"
        and nowrap: "id_next tab3 + int (length ts2) < id_limit tab3 \<longrightarrow>
          index tab4 ! length hs2 = ?e \<and> id_next tab3 \<le> id_next tab4"
      proof -
        from adjust_next_spec [OF sh3 below above] consider
          (wrap) "gfarm_id_adjust_next tab3 = gfarm_id_rewind tab3"
            "id_limit tab3 \<le> id_next tab3 + int (length ts2)"
        | (direct) tab5 moved ts5 where "gfarm_id_adjust_next tab3 = Some tab5"
            "id_shape tab5 ((hs2 @ [?e]) @ moved) ts5"
            "pairs (((hs2 @ [?e]) @ moved) @ ts5) = pairs ((hs2 @ [?e]) @ ts2)" "same_env tab3 tab5"
            "id_placed (id_next tab5) ((hs2 @ [?e]) @ moved) ts5" "id_next tab3 \<le> id_next tab5"
          by blast
        then show ?thesis
        proof cases
          case wrap
          with t4 have "gfarm_id_rewind tab3 = Some tab4" by simp
          from rewind_spec [OF sh3 this] wrap(2) show ?thesis by (auto intro: that)
        next
          case direct
          then have "tab5 = tab4" using t4 by simp
          moreover have "index tab5 ! length hs2 = ?e"
            using direct(2) views_nth(1) [of tab5 "(hs2 @ [?e]) @ moved" ts5 "length hs2"]
            by (simp add: id_shape_def nth_append)
          ultimately show ?thesis using direct by (intro that [of "(hs2 @ [?e]) @ moved" ts5]) auto
        qed
      qed
      have ok4: "id_ok tab4 hs4 ts4"
        using sh4 c3 pl4 id_cells_env [OF e4] p4 by (simp add: id_ok_def del: pairs_append)
      have m4: "id_map tab4 = (id_map tab)(id_next tab2 \<mapsto> p)"
        unfolding id_ok_map [OF ok4] p4 pairs_insert [OF pld] m2 [symmetric] id_ok_map [OF ok2] ..
      have lim: "id_limit tab4 = id_limit tab" using e4 l1 l2 l3 by (simp add: same_env_def)
      have "res = Some (Some p, id_next tab2) \<and> id_next tab2 = id_next tab \<and> id_next tab2 < id_next tab'"
        if h: "id_next tab + 1 + int (length ts) < id_limit tab"
      proof -
        from h n1 have "tab1 = tab" "ts1 = ts" by simp_all
        with h lts n2 n3 l2 l3 have "id_next tab3 + int (length ts2) < id_limit tab3" by simp
        with nowrap res hs2l n2 n3 \<open>tab1 = tab\<close> show ?thesis by simp
      qed
      with id_ok_wf [OF ok4] m4 new lim res ilim show ?thesis
        by (intro conjI impI exI [of _ p] exI [of _ "id_next tab2"]) auto
    qed
  qed
qed

text \<open>Away from the limit an allocation is defined, whatever memory is granted.\<close>

definition id_can_alloc :: "id_table \<Rightarrow> bool" where
  "id_can_alloc tab \<longleftrightarrow> id_next tab + 1 + int (length (tails tab)) < id_limit tab"

definition id_can_extend :: "id_table \<Rightarrow> bool" where
  "id_can_extend tab \<longleftrightarrow> 0 < idx_delta tab \<and> int (idxsize tab) + idx_delta tab \<le> 2147483647
     \<and> uint (entry_size tab) < 2 ^ 32"



subsection \<open>Tables of handles\<close>

datatype handle_op = Obtain | Release int

text \<open>A run of a client that remembers what it was given; \<open>None\<close> when it allocates in a state where
  the table does not promise anything.\<close>

fun run_handles ::
  "('s \<Rightarrow> bool) \<Rightarrow> ('s \<Rightarrow> 's \<times> (int \<times> nat) option) \<Rightarrow> ('s \<Rightarrow> int \<Rightarrow> 's) \<Rightarrow> handle_op list
     \<Rightarrow> 's \<Rightarrow> (int \<Rightarrow> nat option) \<Rightarrow> ('s \<times> (int \<Rightarrow> nat option)) option" where
  "run_handles can alloc release [] s m = Some (s, m)"
| "run_handles can alloc release (Obtain # ops) s m =
     (if \<not> can s then None
      else case alloc s of
             (s', None) \<Rightarrow> run_handles can alloc release ops s' m
           | (s', Some (i, p)) \<Rightarrow> run_handles can alloc release ops s' (m(i \<mapsto> p)))"
| "run_handles can alloc release (Release i # ops) s m =
     run_handles can alloc release ops (release s i) (m(i := None))"

locale handle_table =
  fixes ok :: "'s \<Rightarrow> bool" and live :: "'s \<Rightarrow> int \<Rightarrow> nat option" and can :: "'s \<Rightarrow> bool"
    and alloc :: "'s \<Rightarrow> 's \<times> (int \<times> nat) option" and release :: "'s \<Rightarrow> int \<Rightarrow> 's"
  assumes alloc_fresh: "ok s \<Longrightarrow> can s \<Longrightarrow> alloc s = (s', Some (i, p)) \<Longrightarrow>
      ok s' \<and> live s i = None \<and> p \<notin> ran (live s) \<and> live s' = (live s)(i \<mapsto> p)"
    and alloc_fails: "ok s \<Longrightarrow> can s \<Longrightarrow> alloc s = (s', None) \<Longrightarrow> ok s' \<and> live s' = live s"
    and release_exact: "ok s \<Longrightarrow> ok (release s i) \<and> live (release s i) = (live s)(i := None)"
begin

lemma inj_insert: "inj_on m (dom m) \<Longrightarrow> p \<notin> ran m \<Longrightarrow> inj_on (m(i \<mapsto> p)) (dom (m(i \<mapsto> p)))"
  by (auto simp: inj_on_def ran_def)

lemma inj_remove: "inj_on m (dom m) \<Longrightarrow> inj_on (m(i := None)) (dom (m(i := None)))"
  by (auto simp: inj_on_def)

text \<open>The table always agrees with what the client was told, and distinct live handles have
  distinct objects.\<close>

lemma handles_exact:
  "run_handles can alloc release ops s m = Some (s', m') \<Longrightarrow> ok s \<Longrightarrow> live s = m \<Longrightarrow> inj_on m (dom m) \<Longrightarrow>
     ok s' \<and> live s' = m' \<and> inj_on m' (dom m')"
proof (induction ops arbitrary: s m)
  case (Cons op ops)
  show ?case
  proof (cases op)
    case (Release i)
    have "ok (release s i)" "live (release s i) = m(i := None)"
      using release_exact [OF Cons.prems(2), of i] Cons.prems(3) by simp_all
    moreover have "run_handles can alloc release ops (release s i) (m(i := None)) = Some (s', m')"
      using Cons.prems(1) Release by simp
    ultimately show ?thesis using Cons.IH inj_remove [OF Cons.prems(4)] by blast
  next
    case Obtain
    obtain s1 r where a: "alloc s = (s1, r)" by fastforce
    have can: "can s" using Cons.prems(1) Obtain by (auto split: if_splits)
    show ?thesis
    proof (cases r)
      case None
      with Cons Obtain a can alloc_fails [of s s1] show ?thesis by simp
    next
      case (Some ip)
      obtain i p where ip: "ip = (i, p)" by fastforce
      from alloc_fresh [OF Cons.prems(2) can, of s1 i p] a Some ip Cons.prems(3)
      have f: "ok s1" "p \<notin> ran m" "live s1 = m(i \<mapsto> p)" by simp_all
      have "run_handles can alloc release ops s1 (m(i \<mapsto> p)) = Some (s', m')"
        using Cons.prems(1) Obtain a Some ip can by simp
      from Cons.IH [OF this f(1,3) inj_insert [OF Cons.prems(4) f(2)]] show ?thesis .
    qed
  qed
qed simp

end

text \<open>The library's table is one.\<close>

definition id_obtain ::
  "(u64 \<Rightarrow> bool) \<Rightarrow> (u64 \<Rightarrow> bool) \<Rightarrow> id_index \<Rightarrow> id_table \<Rightarrow> id_table \<times> (int \<times> nat) option" where
  "id_obtain mal rea junk tab =
     (case gfarm_id_alloc mal rea junk tab of
        Some (tab', Some (Some p, i)) \<Rightarrow> (tab', Some (i, p))
      | Some (tab', _) \<Rightarrow> (tab', None)
      | None \<Rightarrow> (tab, None))"

definition id_release :: "id_table \<Rightarrow> int \<Rightarrow> id_table" where
  "id_release tab i = fst (gfarm_id_free tab i)"

interpretation idt: handle_table id_wf id_map id_can_alloc "id_obtain mal rea junk" id_release
  for mal rea junk
proof unfold_locales
  fix s s' :: id_table and i p
  assume wf: "id_wf s" and can: "id_can_alloc s"
  then have ok: "id_ok s (heads s) (tails s)" by (simp add: id_wf_def)
  {
    assume o: "id_obtain mal rea junk s = (s', Some (i, p))"
    then have "gfarm_id_alloc mal rea junk s = Some (s', Some (Some p, i))"
      by (auto simp: id_obtain_def split: option.splits)
    from alloc_spec [OF ok this] can
    show "id_wf s' \<and> id_map s i = None \<and> p \<notin> ran (id_map s) \<and> id_map s' = (id_map s)(i \<mapsto> p)"
      by (auto simp: id_can_alloc_def)
  next
    assume o: "id_obtain mal rea junk s = (s', None)"
    show "id_wf s' \<and> id_map s' = id_map s"
    proof (cases "gfarm_id_alloc mal rea junk s")
      case None
      with o wf show ?thesis by (simp add: id_obtain_def)
    next
      case (Some r)
      obtain t res where r: "r = (t, res)" by fastforce
      from alloc_spec [OF ok, of mal rea junk t res] Some r can o show ?thesis
        by (auto simp: id_obtain_def id_can_alloc_def split: option.splits)
    qed
  }
next
  fix s :: id_table and i
  assume "id_wf s"
  then have ok: "id_ok s (heads s) (tails s)" by (simp add: id_wf_def)
  obtain s' b where f: "gfarm_id_free s i = (s', b)" by fastforce
  from free_spec [OF ok f] f show "id_wf (id_release s i) \<and> id_map (id_release s i) = (id_map s)(i := None)"
    using id_ok_wf by (auto simp: id_release_def)
qed

subsection \<open>Reachable tables\<close>

definition id_new :: "u64 \<Rightarrow> int \<Rightarrow> int \<Rightarrow> int \<Rightarrow> id_table" where
  "id_new sz base limit delta =
     (case gfarm_id_table_alloc True sz of
        Some tab \<Rightarrow> gfarm_id_table_set_initial_size
          (gfarm_id_table_set_limit (gfarm_id_table_set_base tab base) limit) delta)"

inductive id_reach :: "id_table \<Rightarrow> bool" where
  start: "id_reach (id_new sz base limit delta)"
| alloc: "id_reach tab \<Longrightarrow> gfarm_id_alloc mal rea junk tab = Some (tab', res) \<Longrightarrow> id_reach tab'"
| free: "id_reach tab \<Longrightarrow> gfarm_id_free tab i = (tab', b) \<Longrightarrow> id_reach tab'"

lemma id_new_wf: "id_wf (id_new sz base limit delta) \<and> id_map (id_new sz base limit delta) = (\<lambda>_. None)"
proof -
  have "id_ok (id_new sz base limit delta) [] []"
    by (simp add: id_ok_def id_shape_def views_def id_cells_def id_placed_def id_new_def
        gfarm_id_table_alloc_def gfarm_id_table_set_base_def gfarm_id_table_set_limit_def
        gfarm_id_table_set_initial_size_def lessThan_0)
  from id_ok_wf [OF this] id_ok_map [OF this] show ?thesis by simp
qed

lemma reach_wf: "id_reach tab \<Longrightarrow> id_wf tab"
proof (induction rule: id_reach.induct)
  case (alloc tab mal rea junk tab' res)
  then show ?case using alloc_spec [of tab "heads tab" "tails tab"] by (simp add: id_wf_def)
next
  case (free tab i tab' b)
  then have "id_ok tab (heads tab) (tails tab)" by (simp add: id_wf_def)
  from free_spec [OF this free(2)] obtain hs' ts' where "id_ok tab' hs' ts'" by blast
  from id_ok_wf [OF this] show ?case by simp
qed (simp add: id_new_wf)

lemma wf_lookup: "id_wf tab \<Longrightarrow> gfarm_id_lookup tab = id_map tab"
  by (rule ext) (simp add: id_wf_def lookup_id_map)

lemma distinct_snd: "distinct (map snd ps) \<Longrightarrow> (i, p) \<in> set ps \<Longrightarrow> (j, p) \<in> set ps \<Longrightarrow> i = j"
  using inj_onD [of snd "set ps" "(i, p)" "(j, p)"] by (simp add: distinct_map)

lemma wf_cells:
  assumes "id_wf tab"
  shows "gfarm_id_lookup tab i = Some p \<Longrightarrow> p \<notin> set (free_data tab) \<and> p < idxsize tab"
    and "gfarm_id_lookup tab i = Some p \<Longrightarrow> gfarm_id_lookup tab j = Some p \<Longrightarrow> i = j"
    and "p < idxsize tab \<Longrightarrow> p \<notin> set (free_data tab) \<Longrightarrow> \<exists>i. gfarm_id_lookup tab i = Some p"
proof -
  let ?ps = "pairs (heads tab @ tails tab)"
  have c: "id_cells tab ?ps" and srt: "ids_sorted (heads tab @ tails tab)"
    using assms by (simp_all add: id_wf_def id_ok_def id_shape_def)
  have l: "gfarm_id_lookup tab i = Some p \<longleftrightarrow> (i, p) \<in> set ?ps" for i p
    using pairs_distinct [OF srt] by (simp add: wf_lookup [OF assms] id_map_def map_of_eq_Some_iff del: pairs_append)
  have snd: "snd ` set ?ps \<union> set (free_data tab) = {..<idxsize tab}"
    and dis: "distinct (map snd ?ps)" "set (free_data tab) \<inter> snd ` set ?ps = {}"
    using c by (auto simp: id_cells_def simp del: pairs_append)
  show "p \<notin> set (free_data tab) \<and> p < idxsize tab" if "gfarm_id_lookup tab i = Some p"
    using that snd dis(2) by (force simp: l simp del: pairs_append)
  show "i = j" if "gfarm_id_lookup tab i = Some p" "gfarm_id_lookup tab j = Some p"
    using that distinct_snd [OF dis(1)] unfolding l by blast
  show "\<exists>i. gfarm_id_lookup tab i = Some p" if "p < idxsize tab" "p \<notin> set (free_data tab)"
  proof -
    have "p \<in> snd ` set ?ps" using that snd by blast
    then show ?thesis unfolding l by auto
  qed
qed

subsection \<open>Properties\<close>

text \<open>C8: in every state that configuration, allocations and releases reach, also after the
  identifiers have wrapped around, the index is sorted with exact counters (\<open>id_wf\<close>); no two live identifiers
  share a cell, and every cell of the table is on the free list or belongs to a live identifier, never
  both.\<close>

theorem id_table_invariant:
  assumes "id_reach tab"
  shows "id_wf tab
    \<and> (gfarm_id_lookup tab i = Some p \<and> gfarm_id_lookup tab j = Some p \<longrightarrow> i = j)
    \<and> (p < idxsize tab \<longrightarrow> (p \<in> set (free_data tab) \<longleftrightarrow> (\<forall>i. gfarm_id_lookup tab i \<noteq> Some p)))"
  using reach_wf [OF assms] wf_cells [OF reach_wf [OF assms]] by blast


text \<open>A release succeeds exactly for a live identifier, makes it and nothing else free, and puts
  its cell on the free list.\<close>

theorem id_free_exact:
  assumes "id_reach tab" and "gfarm_id_free tab i = (tab', b)"
  shows "(b \<longleftrightarrow> gfarm_id_lookup tab i \<noteq> None)
    \<and> gfarm_id_lookup tab' = (gfarm_id_lookup tab)(i := None)
    \<and> (\<forall>p. gfarm_id_lookup tab i = Some p \<longrightarrow> free_data tab' = p # free_data tab)"
proof -
  have wf: "id_wf tab" using assms(1) by (rule reach_wf)
  then have ok: "id_ok tab (heads tab) (tails tab)" by (simp add: id_wf_def)
  have wf': "id_wf tab'" using id_reach.free [OF assms] by (rule reach_wf)
  from free_spec [OF ok assms(2)] show ?thesis
    by (auto simp: wf_lookup [OF wf] wf_lookup [OF wf'] same_env_def split: option.splits)
qed

text \<open>A client that only remembers what it was given, and allocates only away from the limit of the
  identifiers, always agrees with the table: what it holds is what a lookup finds, and distinct
  identifiers it holds have distinct objects.\<close>

theorem id_handles_exact:
  assumes "run_handles id_can_alloc (id_obtain mal rea junk) id_release ops
      (id_new sz base limit delta) (\<lambda>_. None) = Some (tab, held)"
  shows "gfarm_id_lookup tab = held \<and> inj_on held (dom held)"
  using idt.handles_exact [OF assms] id_new_wf [of sz base limit delta] wf_lookup [of tab] by simp

definition no_junk :: id_index where
  "no_junk = \<lparr>ix_data = None, ix_id = 0\<rparr>"

definition id_step :: "id_table option \<Rightarrow> handle_op \<Rightarrow> id_table option" where
  "id_step t op =
     (case t of
        None \<Rightarrow> None
      | Some tab \<Rightarrow>
          (case op of
             Obtain \<Rightarrow> map_option fst (gfarm_id_alloc (\<lambda>_. True) (\<lambda>_. True) no_junk tab)
           | Release i \<Rightarrow> Some (id_release tab i)))"

definition id_run :: "handle_op list \<Rightarrow> id_table \<Rightarrow> id_table option" where
  "id_run ops tab = foldl id_step (Some tab) ops"

lemma run_reach: "id_run ops tab = Some tab' \<Longrightarrow> id_reach tab \<Longrightarrow> id_reach tab'"
proof (induction ops arbitrary: tab' rule: rev_induct)
  case (snoc op ops)
  then obtain tab1 where t1: "id_run ops tab = Some tab1" and st: "id_step (Some tab1) op = Some tab'"
    by (cases "id_run ops tab") (simp_all add: id_run_def id_step_def)
  have "id_reach tab1" using snoc.IH [OF t1 snoc.prems(2)] .
  then show ?case using st
    by (cases op) (auto simp: id_step_def id_release_def intro: id_reach.alloc id_reach.free [OF _ surjective_pairing])
qed (simp add: id_run_def)


text \<open>\<open>gfarm_id_table_set_base\<close> has no effect on the identifiers of a new table: whatever the base,
  the first one is 1, because \<open>id_next\<close> keeps its initial value.\<close>

theorem id_base_ignored:
  assumes "1 < limit - 1" and "gfarm_id_alloc (\<lambda>_. True) (\<lambda>_. True) junk (id_new 8 base limit 10) = Some (tab, Some (d, i))"
  shows "i = 1"
proof -
  let ?new = "id_new 8 base limit 10"
  have "tails ?new = []" "id_next ?new = 1" "id_limit ?new = limit"
    by (simp_all add: tails_def id_new_def gfarm_id_table_alloc_def gfarm_id_table_set_base_def
        gfarm_id_table_set_limit_def gfarm_id_table_set_initial_size_def)
  moreover have "id_ok ?new (heads ?new) (tails ?new)"
    using id_new_wf [of 8 base limit 10] by (simp add: id_wf_def)
  from alloc_spec [OF this assms(2)] have
    "id_next ?new + 1 + int (length (tails ?new)) < id_limit ?new \<longrightarrow> i = id_next ?new" by auto
  ultimately show ?thesis using assms(1) by simp
qed

subsection \<open>Witnesses\<close>

lemma sample_run: "(case id_run [Obtain, Obtain, Obtain, Release 2] (id_new 8 1 1000 10) of
    Some tab \<Rightarrow> gfarm_id_lookup tab 3 = Some 2 \<and> gfarm_id_lookup tab 2 = None \<and> gfarm_id_lookup tab 1 = Some 0
      \<and> id_can_alloc tab \<and> id_can_extend tab \<and> id_next tab = 4 \<and> idxsize tab = 10
  | None \<Rightarrow> False)"
  by code_simp

lemma sample_table:
  obtains tab where "id_reach tab" "gfarm_id_lookup tab 3 = Some 2" "gfarm_id_lookup tab 2 = None"
    "gfarm_id_lookup tab 1 = Some 0" "id_can_alloc tab" "id_can_extend tab" "id_next tab = 4" "idxsize tab = 10"
proof -
  obtain tab where t: "id_run [Obtain, Obtain, Obtain, Release 2] (id_new 8 1 1000 10) = Some tab"
    using sample_run by (auto split: option.splits)
  from run_reach [OF t id_reach.start] sample_run [unfolded t] show ?thesis by (intro that [of tab]) simp_all
qed

theorem id_table_invariant_witness:
  "\<exists>tab. gfarm_id_lookup tab 3 = Some 2 \<and> id_wf tab \<and> (\<forall>j. gfarm_id_lookup tab j = Some 2 \<longrightarrow> j = 3)
     \<and> 2 \<notin> set (free_data tab)"
proof -
  obtain tab where t: "id_reach tab" "gfarm_id_lookup tab 3 = Some 2" "idxsize tab = 10" by (rule sample_table)
  have "\<forall>j. gfarm_id_lookup tab j = Some 2 \<longrightarrow> j = 3"
    using id_table_invariant [OF t(1), of _ 2 3] t(2) by blast
  moreover have "id_wf tab" and "2 \<notin> set (free_data tab)"
    using id_table_invariant [OF t(1), of 3 2 3] t(2,3) by auto
  ultimately show ?thesis using t(2) by blast
qed


theorem id_free_exact_witness:
  "\<exists>tab tab'. gfarm_id_lookup tab 3 = Some 2 \<and> gfarm_id_free tab 3 = (tab', True)
     \<and> gfarm_id_lookup tab' 3 = None \<and> gfarm_id_lookup tab' 1 = Some 0"
proof -
  obtain tab where t: "id_reach tab" "gfarm_id_lookup tab 3 = Some 2" "gfarm_id_lookup tab 1 = Some 0"
    by (rule sample_table)
  obtain tab' b where f: "gfarm_id_free tab 3 = (tab', b)" by fastforce
  from id_free_exact [OF t(1) f] f t show ?thesis by auto
qed

theorem id_handles_exact_witness:
  "\<exists>tab held. run_handles id_can_alloc (id_obtain (\<lambda>_. True) (\<lambda>_. True) no_junk) id_release
      [Obtain, Obtain, Release 1, Obtain] (id_new 8 1 1000 10) (\<lambda>_. None) = Some (tab, held)
    \<and> held 3 = Some 0 \<and> gfarm_id_lookup tab = held \<and> inj_on held (dom held)"
proof -
  have "case run_handles id_can_alloc (id_obtain (\<lambda>_. True) (\<lambda>_. True) no_junk) id_release
      [Obtain, Obtain, Release 1, Obtain] (id_new 8 1 1000 10) (\<lambda>_. None) of
      None \<Rightarrow> False | Some (tab, held) \<Rightarrow> held 3 = Some 0" by code_simp
  then obtain tab held where r: "run_handles id_can_alloc (id_obtain (\<lambda>_. True) (\<lambda>_. True) no_junk) id_release
      [Obtain, Obtain, Release 1, Obtain] (id_new 8 1 1000 10) (\<lambda>_. None) = Some (tab, held)"
    and "held 3 = Some 0" by (auto split: option.splits)
  with id_handles_exact [OF r] show ?thesis by blast
qed

theorem id_base_ignored_witness:
  "\<exists>tab d. gfarm_id_alloc (\<lambda>_. True) (\<lambda>_. True) no_junk (id_new 8 100 1000 10) = Some (tab, Some (d, 1))"
proof -
  have "case gfarm_id_alloc (\<lambda>_. True) (\<lambda>_. True) no_junk (id_new 8 100 1000 10) of
      Some (tab, Some (d, i)) \<Rightarrow> True | _ \<Rightarrow> False" by code_simp
  then obtain tab d i where
    a: "gfarm_id_alloc (\<lambda>_. True) (\<lambda>_. True) no_junk (id_new 8 100 1000 10) = Some (tab, Some (d, i))"
    by (auto split: option.splits)
  from id_base_ignored [OF _ a] a show ?thesis by auto
qed

end
