(* ===== verification/C_Strings.thy ===== *)
theory C_Strings
  imports Gfarm_Error
begin

text \<open>
  What the configuration code uses of \<open>ctype.h\<close>, \<open>string.h\<close> and \<open>stdlib.h\<close>, in the C locale. A C string
  is the list of its characters before the terminating 0; a pointer into it is the rest of the string
  from there on, so that \<open>*p == '\0'\<close> is \<open>p = []\<close>.
\<close>

subsection \<open>ctype.h and string.h\<close>

definition code :: "char \<Rightarrow> int" where
  "code c = int (of_char c)"

definition isdigit :: "char \<Rightarrow> bool" where
  "isdigit c \<longleftrightarrow> 48 \<le> code c \<and> code c \<le> 57"

definition isupper :: "char \<Rightarrow> bool" where
  "isupper c \<longleftrightarrow> 65 \<le> code c \<and> code c \<le> 90"

definition islower :: "char \<Rightarrow> bool" where
  "islower c \<longleftrightarrow> 97 \<le> code c \<and> code c \<le> 122"

definition isalnum :: "char \<Rightarrow> bool" where
  "isalnum c \<longleftrightarrow> isdigit c \<or> isupper c \<or> islower c"

definition isspace :: "char \<Rightarrow> bool" where
  "isspace c \<longleftrightarrow> code c = 32 \<or> (9 \<le> code c \<and> code c \<le> 13)"

definition to_lower :: "char \<Rightarrow> char" where
  "to_lower c = (if isupper c then char_of (of_char c + 32 :: nat) else c)"

text \<open>\<open>strcasecmp(s, t) == 0\<close>.\<close>

definition strcaseeq :: "string \<Rightarrow> string \<Rightarrow> bool" where
  "strcaseeq s t \<longleftrightarrow> map to_lower s = map to_lower t"

subsection \<open>strtoul and strtol\<close>

text \<open>The value of a digit, in the bases up to 16; 36 for what is no digit.\<close>

definition digit_value :: "char \<Rightarrow> int" where
  "digit_value c =
     (if isdigit c then code c - 48
      else if 97 \<le> code c \<and> code c \<le> 102 then code c - 87
      else if 65 \<le> code c \<and> code c \<le> 70 then code c - 55
      else 36)"

definition digits_value :: "int \<Rightarrow> string \<Rightarrow> int" where
  "digits_value base ds = foldl (\<lambda>v c. v * base + digit_value c) 0 ds"

text \<open>White space, then a sign.\<close>

definition number_sign :: "string \<Rightarrow> bool \<times> string" where
  "number_sign s =
     (case dropWhile isspace s of
        [] \<Rightarrow> (False, [])
      | c # r \<Rightarrow> if c = CHR ''-'' then (True, r) else if c = CHR ''+'' then (False, r) else (False, c # r))"

definition in_base :: "int \<Rightarrow> char \<Rightarrow> bool" where
  "in_base base c \<longleftrightarrow> digit_value c < base"

text \<open>
  \<open>strtoul(s, &ep, 10)\<close> on a 64-bit \<open>long\<close>: the value and \<open>*ep\<close>, or \<open>None\<close> when there is no number, where
  \<open>ep\<close> is \<open>s\<close>. A value that does not fit is \<open>ULONG_MAX\<close>; a minus sign negates modulo 2^64.
\<close>

definition strtoul :: "string \<Rightarrow> (int \<times> string) option" where
  "strtoul s =
     (let (neg, r) = number_sign s;
          ds = takeWhile (in_base 10) r;
          v = digits_value 10 ds
      in if ds = [] then None
         else Some (if v \<ge> 2 ^ 64 then 2 ^ 64 - 1 else if neg then (- v) mod 2 ^ 64 else v,
                    dropWhile (in_base 10) r))"

text \<open>
  \<open>strtol(s, &ep, 0)\<close>: a prefix \<open>0x\<close> before a hexadecimal digit or \<open>0\<close> tells the base. A value that does not
  fit is \<open>LONG_MAX\<close> or \<open>LONG_MIN\<close> and sets \<open>errno\<close> to \<open>ERANGE\<close>, which the second component says.
\<close>

definition number_base :: "string \<Rightarrow> int \<times> string" where
  "number_base r =
     (case r of
        z # x # h # t \<Rightarrow>
          if z = CHR ''0'' \<and> (x = CHR ''x'' \<or> x = CHR ''X'') \<and> in_base 16 h then (16, h # t)
          else if z = CHR ''0'' then (8, r) else (10, r)
      | z # t \<Rightarrow> if z = CHR ''0'' then (8, r) else (10, r)
      | [] \<Rightarrow> (10, r))"

definition strtol0 :: "string \<Rightarrow> int \<times> bool \<times> string" where
  "strtol0 s =
     (let (neg, r0) = number_sign s;
          (base, r) = number_base r0;
          ds = takeWhile (in_base base) r;
          v = (if neg then - digits_value base ds else digits_value base ds)
      in if ds = [] then (0, False, s)
         else (max (- (2 ^ 63)) (min (2 ^ 63 - 1) v), v < - (2 ^ 63) \<or> 2 ^ 63 - 1 < v,
               dropWhile (in_base base) r))"

subsection \<open>Decimal numbers\<close>

text \<open>What the conversion \<open>%d\<close> of \<open>printf\<close> writes for a number that is not negative.\<close>

definition digit_char :: "nat \<Rightarrow> char" where
  "digit_char d = char_of (48 + d)"

fun dec_digits :: "nat \<Rightarrow> string" where
  "dec_digits n = (if n < 10 then [digit_char n] else dec_digits (n div 10) @ [digit_char (n mod 10)])"

declare dec_digits.simps [simp del]

definition dec :: "int \<Rightarrow> string" where
  "dec i = (if i < 0 then CHR ''-'' # dec_digits (nat (- i)) else dec_digits (nat i))"

lemma code_digit_char: "d < 10 \<Longrightarrow> code (digit_char d) = 48 + int d"
  by (simp add: code_def digit_char_def)

lemma digit_char_value [simp]: "d < 10 \<Longrightarrow> digit_value (digit_char d) = int d"
  by (simp add: digit_value_def isdigit_def code_digit_char)

lemma digit_char_isdigit: "d < 10 \<Longrightarrow> isdigit (digit_char d)"
  by (simp add: isdigit_def code_digit_char)

lemma dec_digits_isdigit: "c \<in> set (dec_digits n) \<Longrightarrow> isdigit c"
proof (induction n rule: dec_digits.induct)
  case (1 n)
  then show ?case by (subst (asm) (2) dec_digits.simps) (auto split: if_splits intro: digit_char_isdigit)
qed

lemma dec_digits_nonempty [simp]: "dec_digits n \<noteq> []"
  by (subst dec_digits.simps) simp

lemma dec_digits_value: "digits_value 10 (dec_digits n) = int n"
proof (induction n rule: dec_digits.induct)
  case (1 n)
  show ?case
  proof (cases "n < 10")
    case True
    then show ?thesis by (subst dec_digits.simps) (simp add: digits_value_def)
  next
    case False
    with 1 show ?thesis by (subst dec_digits.simps) (simp add: digits_value_def zmod_int zdiv_int)
  qed
qed

lemma isdigit_in_base: "isdigit c \<Longrightarrow> in_base 10 c"
  by (simp add: in_base_def digit_value_def isdigit_def)

lemma in_base_10_iff: "in_base 10 c \<longleftrightarrow> isdigit c"
  by (auto simp: in_base_def digit_value_def isdigit_def)

lemma isdigit_not: "isdigit c \<Longrightarrow> \<not> isspace c \<and> c \<noteq> CHR ''-'' \<and> c \<noteq> CHR ''+'' \<and> c \<noteq> CHR ''.'' \<and> c \<noteq> CHR ''/''"
  by (auto simp: isdigit_def isspace_def code_def)

text \<open>A number that was printed is read back, up to what follows it.\<close>

lemma strtoul_dec_digits:
  assumes "int n < 2 ^ 64" and "rest = [] \<or> \<not> isdigit (hd rest)"
  shows "strtoul (dec_digits n @ rest) = Some (int n, rest)"
proof -
  obtain c cs where ds: "dec_digits n = c # cs" by (cases "dec_digits n") auto
  have all: "\<forall>x \<in> set (dec_digits n). in_base 10 x"
    using dec_digits_isdigit in_base_10_iff by blast
  have c: "\<not> isspace c" "c \<noteq> CHR ''-''" "c \<noteq> CHR ''+''"
    using isdigit_not [of c] dec_digits_isdigit [of c n] ds by simp_all
  then have sign: "number_sign (dec_digits n @ rest) = (False, dec_digits n @ rest)"
    by (simp add: number_sign_def ds)
  have "takeWhile (in_base 10) (dec_digits n @ rest) = dec_digits n"
    and "dropWhile (in_base 10) (dec_digits n @ rest) = rest"
    using all assms(2) by (cases rest; simp add: in_base_10_iff takeWhile_append2 dropWhile_append2)+
  with sign assms(1) show ?thesis by (simp add: strtoul_def dec_digits_value)
qed

end
