(* ===== verification/Hostspec.thy ===== *)
theory Hostspec
  imports C_Strings Byte_Order
begin

unbundle bit_operations_syntax

text \<open>
  \<open>gfarm/hostspec.c\<close>: patterns for hosts (any host, a name or a domain, an IPv4 address with a
  mask), their syntax and their matching. A \<open>struct in_addr\<close> is the 32-bit word as it lies in memory of a
  little-endian host, so that its bytes are the four numbers of the address in order.
\<close>

datatype hostspec = GFHS_ANY | GFHS_NAME string | GFHS_AF_INET4 u32 u32

datatype sockaddr = AF_UNIX | AF_INET u32 | AF_OTHER int

text \<open>\<open>ok\<close> says whether \<open>malloc\<close> grants the memory.\<close>

definition gfarm_hostspec_any_new :: "bool \<Rightarrow> gfarm_error_t \<times> hostspec option" where
  "gfarm_hostspec_any_new ok =
     (if \<not> ok then (GFARM_ERR_NO_MEMORY, None) else (GFARM_ERR_NO_ERROR, Some GFHS_ANY))"

definition gfarm_hostspec_name_new :: "bool \<Rightarrow> string \<Rightarrow> gfarm_error_t \<times> hostspec option" where
  "gfarm_hostspec_name_new ok name =
     (if \<not> ok then (GFARM_ERR_NO_MEMORY, None) else (GFARM_ERR_NO_ERROR, Some (GFHS_NAME name)))"

definition gfarm_hostspec_af_inet4_new :: "bool \<Rightarrow> u32 \<Rightarrow> u32 \<Rightarrow> gfarm_error_t \<times> hostspec option" where
  "gfarm_hostspec_af_inet4_new ok addr netmask =
     (if \<not> ok then (GFARM_ERR_NO_MEMORY, None) else (GFARM_ERR_NO_ERROR, Some (GFHS_AF_INET4 addr netmask)))"

subsection \<open>Addresses in dot notation\<close>

text \<open>
  The loop over the three remaining numbers: the error, \<open>ep\<close> and the address so far.
\<close>

fun in4addr_loop :: "nat \<Rightarrow> string \<Rightarrow> u32 \<Rightarrow> gfarm_error_t \<times> string \<times> u32" where
  "in4addr_loop 0 ep addr = (GFARM_ERR_NO_ERROR, ep, addr)"
| "in4addr_loop (Suc n) ep addr =
     (if ep = [] \<or> hd ep \<noteq> CHR ''.'' then (GFARM_ERRMSG_IP_ADDRESS_TOO_SHORT, ep, addr)
      else
        let s = tl ep
        in case strtoul s of
             None \<Rightarrow> (GFARM_ERRMSG_INVALID_CHAR_IN_IP, s, addr)
           | Some (byte, ep') \<Rightarrow>
               if byte \<ge> 256 then (GFARM_ERRMSG_TOO_BIG_BYTE_IN_IP, s, addr)
               else in4addr_loop n ep' (push_bit 8 addr OR word_of_int byte))"

text \<open>The error, \<open>*endptr\<close>, which is stored in any case, and the address.\<close>

definition gfarm_string_to_in4addr :: "string \<Rightarrow> gfarm_error_t \<times> string \<times> u32 option" where
  "gfarm_string_to_in4addr s =
     (case strtoul s of
        None \<Rightarrow>
          (if s = [] then GFARM_ERRMSG_IP_ADDRESS_EXPECTED else GFARM_ERRMSG_INVALID_CHAR_IN_IP, s, None)
      | Some (byte, ep) \<Rightarrow>
          if byte \<ge> 256 then (GFARM_ERRMSG_TOO_BIG_BYTE_IN_IP, s, None)
          else
            let (e, ep', addr) = in4addr_loop 3 ep (word_of_int byte)
            in if e \<noteq> GFARM_ERR_NO_ERROR then (e, ep', None)
               else (GFARM_ERR_NO_ERROR, ep', Some (htonl addr)))"

definition gfarm_sockaddr_to_string :: "sockaddr \<Rightarrow> nat \<Rightarrow> string" where
  "gfarm_sockaddr_to_string addr len =
     take (len - 1)
       (case addr of
          AF_INET s_addr \<Rightarrow>
            let a = (\<lambda>i. dec (uint (bytes_of 4 s_addr ! i)))
            in a 0 @ ''.'' @ a 1 @ ''.'' @ a 2 @ ''.'' @ a 3
        | AF_UNIX \<Rightarrow> ''unknown address family '' @ dec 1
        | AF_OTHER family \<Rightarrow> ''unknown address family '' @ dec family)"

subsection \<open>Specifications\<close>

definition IS_DNS_LABEL_CHAR :: "char \<Rightarrow> bool" where
  "IS_DNS_LABEL_CHAR c \<longleftrightarrow> isalnum c \<or> c = CHR ''-''"

definition gfarm_is_string_upper_case :: "string \<Rightarrow> bool" where
  "gfarm_is_string_upper_case s \<longleftrightarrow> list_all isupper s"

text \<open>\<open>~((1 << n) - 1)\<close> on 32 bits, as two's complement arithmetic gives it.\<close>

definition netmask_of_length :: "int \<Rightarrow> u32" where
  "netmask_of_length masklen =
     (if masklen = 0 then 0 else htonl (NOT (push_bit (nat (32 - masklen)) 1 - 1)))"

text \<open>The test of a single character, also of the terminating 0.\<close>

definition bad_char_at :: "string \<Rightarrow> bool" where
  "bad_char_at ep \<longleftrightarrow> (case ep of [] \<Rightarrow> True | c # _ \<Rightarrow> \<not> IS_DNS_LABEL_CHAR c \<and> c \<noteq> CHR ''.'')"

text \<open>What \<open>gfarm_hostspec_parse\<close> does once the name is not an address.\<close>

definition hostspec_parse_name :: "bool \<Rightarrow> string \<Rightarrow> string \<Rightarrow> gfarm_error_t \<times> hostspec option" where
  "hostspec_parse_name ok name end1p =
     (if name = [] then (GFARM_ERRMSG_HOSTNAME_OR_IP_EXPECTED, None)
      else if bad_char_at end1p then (GFARM_ERRMSG_INVALID_CHAR_IN_HOSTNAME, None)
      else if gfarm_is_string_upper_case name then (GFARM_ERRMSG_UNKNOWN_KEYWORD, None)
      else gfarm_hostspec_name_new ok name)"

text \<open>What it does with the text behind the slash; \<open>None\<close> when that is neither a length nor a mask.\<close>

definition hostspec_parse_mask ::
  "bool \<Rightarrow> u32 \<Rightarrow> string \<Rightarrow> (gfarm_error_t \<times> hostspec option) option" where
  "hostspec_parse_mask ok addr rest =
     (case (if rest \<noteq> [] \<and> isdigit (hd rest) then strtoul rest else None) of
        Some (masklen, []) \<Rightarrow>
          Some (if masklen > 32 then (GFARM_ERRMSG_TOO_BIG_NETMASK, None)
                else gfarm_hostspec_af_inet4_new ok addr (netmask_of_length masklen))
      | _ \<Rightarrow>
          (case gfarm_string_to_in4addr rest of
             (e, end2p, Some netmask) \<Rightarrow>
               if e = GFARM_ERR_NO_ERROR \<and> end2p = [] then
                 Some (gfarm_hostspec_af_inet4_new ok addr netmask)
               else None
           | _ \<Rightarrow> None))"

definition gfarm_hostspec_parse :: "bool \<Rightarrow> string \<Rightarrow> gfarm_error_t \<times> hostspec option" where
  "gfarm_hostspec_parse ok name =
     (if name = ''*'' \<or> name = ''ALL'' then gfarm_hostspec_any_new ok
      else
        case gfarm_string_to_in4addr name of
          (e, end1p, Some addr) \<Rightarrow>
            if end1p = [] then gfarm_hostspec_af_inet4_new ok addr (NOT 0)
            else (case (if hd end1p = CHR ''/'' then hostspec_parse_mask ok addr (tl end1p) else None) of
                    Some r \<Rightarrow> r
                  | None \<Rightarrow>
                      if bad_char_at end1p then (GFARM_ERRMSG_INVALID_CHAR_IN_IP, None)
                      else hostspec_parse_name ok name end1p)
        | (e, end1p, None) \<Rightarrow> hostspec_parse_name ok name end1p)"

subsection \<open>Matching\<close>

definition gfarm_host_is_in_domain :: "string \<Rightarrow> string \<Rightarrow> bool" where
  "gfarm_host_is_in_domain hostname domainname =
     (let hlen = length hostname; dlen = length domainname
      in if hlen < dlen then False
         else if hlen = dlen then strcaseeq hostname domainname
         else if dlen = 0 then True
         else if hlen = dlen + 1 then False
         else hostname ! (hlen - (dlen + 1)) = CHR ''.''
              \<and> strcaseeq (drop (hlen - dlen) hostname) domainname)"

fun gfarm_hostspec_match :: "hostspec \<Rightarrow> string option \<Rightarrow> sockaddr option \<Rightarrow> bool" where
  "gfarm_hostspec_match GFHS_ANY name addr = True"
| "gfarm_hostspec_match (GFHS_NAME spec) name addr =
     (case name of
        None \<Rightarrow> False
      | Some n \<Rightarrow>
          if spec \<noteq> [] \<and> hd spec = CHR ''.'' then gfarm_host_is_in_domain n (tl spec)
          else strcaseeq n spec)"
| "gfarm_hostspec_match (GFHS_AF_INET4 spec netmask) name addr =
     (case addr of
        None \<Rightarrow> False
      | Some AF_UNIX \<Rightarrow> True
      | Some (AF_INET s_addr) \<Rightarrow> s_addr AND netmask = spec
      | Some (AF_OTHER _) \<Rightarrow> False)"

text \<open>
  \<open>gfarm_sockaddr_to_name\<close>: \<open>getnameinfo\<close> answers the name of an address, \<open>getaddrinfo\<close> the
  addresses of a name in the family of the given address; both are parameters. Addresses of
  another family are skipped, and only those of \<open>AF_INET\<close> are compared.
\<close>

fun addrinfo_search :: "bool \<Rightarrow> string \<Rightarrow> sockaddr \<Rightarrow> sockaddr list \<Rightarrow> gfarm_error_t \<times> string option" where
  "addrinfo_search ok name addr [] = (GFARM_ERRMSG_REVERSE_LOOKUP_NAME_DOES_NOT_MATCH, None)"
| "addrinfo_search ok name addr (res # rest) =
     (case (res, addr) of
        (AF_INET sin1, AF_INET sin2) \<Rightarrow>
          if sin1 = sin2 then
            (if \<not> ok then (GFARM_ERR_NO_MEMORY, None) else (GFARM_ERR_NO_ERROR, Some name))
          else addrinfo_search ok name addr rest
      | _ \<Rightarrow> addrinfo_search ok name addr rest)"

definition gfarm_sockaddr_to_name ::
  "(sockaddr \<Rightarrow> string option) \<Rightarrow> (string \<Rightarrow> sockaddr \<Rightarrow> sockaddr list option) \<Rightarrow> bool \<Rightarrow> sockaddr
     \<Rightarrow> gfarm_error_t \<times> string option" where
  "gfarm_sockaddr_to_name getnameinfo getaddrinfo ok addr =
     (case getnameinfo addr of
        None \<Rightarrow> (GFARM_ERR_CANNOT_RESOLVE_AN_IP_ADDRESS_INTO_A_HOSTNAME, None)
      | Some name \<Rightarrow>
          (case getaddrinfo name addr of
             None \<Rightarrow> (GFARM_ERRMSG_REVERSE_LOOKUP_NAME_IS_NOT_RESOLVABLE, None)
           | Some res0 \<Rightarrow> addrinfo_search ok name addr res0))"

text \<open>The dot notation of an address, as \<open>inet_ntoa\<close> writes it.\<close>

definition dotted :: "u32 \<Rightarrow> string" where
  "dotted a = (let d = (\<lambda>i. dec_digits (unat (bytes_of 4 a ! i))) in d 0 @ ''.'' @ d 1 @ ''.'' @ d 2 @ ''.'' @ d 3)"

end
