(* ===== verification/Hostspec_Spec.thy ===== *)
theory Hostspec_Spec
  imports Hostspec
begin

unbundle bit_operations_syntax

text \<open>
  What host specifications mean: printing and parsing of addresses, prefix matching with a mask,
  domains, and the texts that the parser lets pass.
\<close>

subsection \<open>Addresses\<close>

lemma byte_less: "uint (b :: byte) < 256" "unat b < 256"
  using unsigned_less [of b, where 'a = int] unsigned_less [of b, where 'a = nat] by simp_all

lemma dec_byte: "dec (uint (b :: byte)) = dec_digits (unat b)"
  unfolding dec_def unat_eq_nat_uint by simp

lemma dec_digits_short: "n < 1000 \<Longrightarrow> length (dec_digits n) \<le> 3"
proof -
  have one: "n < 10 \<Longrightarrow> length (dec_digits n) = 1" for n by (subst dec_digits.simps) simp
  have two: "n < 100 \<Longrightarrow> length (dec_digits n) \<le> 2" for n
    using one [of n] one [of "n div 10"] dec_digits.simps [of n] by (cases "n < 10") simp_all
  show "n < 1000 \<Longrightarrow> length (dec_digits n) \<le> 3"
    using two [of n] two [of "n div 10"] dec_digits.simps [of n] by (cases "n < 10") simp_all
qed

lemma dotted_short: "length (dotted a) \<le> 15"
proof -
  have "length (dec_digits (unat (bytes_of 4 a ! i))) \<le> 3" for i
    using dec_digits_short [of "unat (bytes_of 4 a ! i)"] byte_less(2) [of "bytes_of 4 a ! i"] by simp
  from this [of 0] this [of 1] this [of 2] this [of 3] show ?thesis by (simp add: dotted_def)
qed

lemma sockaddr_to_string_inet:
  "16 \<le> len \<Longrightarrow> gfarm_sockaddr_to_string (AF_INET a) len = dotted a"
  using dotted_short [of a] by (simp add: gfarm_sockaddr_to_string_def dotted_def dec_byte Let_def)

lemma four_bytes: "length bs = 4 \<Longrightarrow> bs = [bs ! 0, bs ! 1, bs ! 2, bs ! 3]"
  by (cases bs rule: list.exhaust; simp; rename_tac b1; case_tac b1; simp)
    (auto simp: numeral_eq_Suc length_Suc_conv)

lemma strtoul_byte:
  "rest = [] \<or> \<not> isdigit (hd rest) \<Longrightarrow> strtoul (dec_digits (unat (b :: byte)) @ rest) = Some (uint b, rest)"
  using strtoul_dec_digits [of "unat b" rest] byte_less [of b] by simp

lemma word_of_byte: "word_of_int (uint (b :: byte)) = (ucast b :: u32)"
  by (rule ucast_eq [symmetric])

lemma string_to_in4addr_dotted:
  assumes "rest = [] \<or> \<not> isdigit (hd rest)"
  shows "gfarm_string_to_in4addr (dotted a @ rest) = (GFARM_ERR_NO_ERROR, rest, Some a)"
proof -
  obtain b0 b1 b2 b3 where bs: "bytes_of 4 a = [b0, b1, b2, b3]"
    using four_bytes [of "bytes_of 4 a"] by simp
  let ?w = "push_bit 8 (push_bit 8 (push_bit 8 (ucast b0) OR ucast b1) OR ucast b2) OR ucast b3 :: u32"
  have dot: "\<not> isdigit (hd (CHR ''.'' # x))" for x by (simp add: isdigit_def code_def)
  have eq: "?w = of_bytes [b3, b2, b1, b0]"
    by (simp add: or.commute)
  have len: "length [b3, b2, b1, b0] = 4" by simp
  have "bytes_of 4 ?w = [b3, b2, b1, b0]"
    unfolding eq by (rule bytes_of_of [of "[b3, b2, b1, b0]", where 'a = 32, unfolded len]) simp
  then have "htonl ?w = of_bytes (bytes_of 4 a)" by (simp add: htonl_def bs)
  then have w: "htonl ?w = a" by (simp add: of_bytes_of)
  show ?thesis
    using assms w byte_less dot
    by (simp add: gfarm_string_to_in4addr_def dotted_def bs strtoul_byte word_of_byte
        numeral_3_eq_3 not_le)
qed

subsection \<open>Masks\<close>

lemma of_bytes_and:
  "length xs = length ys \<Longrightarrow> of_bytes (map2 (\<lambda>x y. x AND y) xs ys) = (of_bytes xs AND of_bytes ys :: u32)"
proof (induction xs ys rule: list_induct2)
  case (Cons x xs y ys)
  have small: "bit (ucast b :: u32) n \<Longrightarrow> n < 8" for b :: byte and n
    by (auto simp: bit_simps dest: bit_imp_le_length)
  show ?case
    by (rule bit_word_eqI) (auto simp: Cons bit_simps dest: bit_imp_le_length)
qed simp

lemma bytes_of_and: "bytes_of n (x AND y) = map2 (\<lambda>a b. a AND b) (bytes_of n x) (bytes_of n (y :: u32))"
  by (induction n arbitrary: x y) (simp_all add: drop_bit_and unsigned_and_eq)

lemma ntohl_and: "ntohl (x AND y) = ntohl x AND ntohl y"
  unfolding ntohl_def by (simp add: bytes_of_and of_bytes_and [symmetric] rev_map zip_rev)

lemma htonl_ntohl [simp]: "htonl (ntohl w) = w"
  using ntohl_htonl by (simp add: htonl_def ntohl_def)

lemma netmask_bits:
  assumes "0 \<le> n" and "n \<le> 32"
  shows "bit (ntohl (netmask_of_length n)) i \<longleftrightarrow> nat (32 - n) \<le> i \<and> i < 32"
proof (cases "n = 0")
  case True
  moreover have "ntohl 0 = 0" by code_simp
  ultimately show ?thesis by (simp add: netmask_of_length_def)
next
  case False
  have "push_bit (nat (32 - n)) 1 - 1 = (mask (nat (32 - n)) :: u32)"
    by (simp add: mask_eq_exp_minus_1 push_bit_eq_mult)
  then show ?thesis using False by (simp add: netmask_of_length_def bit_simps) auto
qed

text \<open>An address agrees with the specification \<open>a/n\<close>.\<close>

lemma netmask_match:
  assumes "0 \<le> n" and "n \<le> 32"
  shows "p AND netmask_of_length n = a \<longleftrightarrow>
    drop_bit (nat (32 - n)) (ntohl p) = drop_bit (nat (32 - n)) (ntohl a) \<and> take_bit (nat (32 - n)) (ntohl a) = 0"
    (is "_ \<longleftrightarrow> ?hi \<and> ?lo")
proof -
  let ?k = "nat (32 - n)"
  let ?m = "ntohl (netmask_of_length n)"
  have "p AND netmask_of_length n = a \<longleftrightarrow> ntohl (p AND netmask_of_length n) = ntohl a"
    by (metis htonl_ntohl)
  also have "\<dots> \<longleftrightarrow> ntohl p AND ?m = ntohl a" by (simp add: ntohl_and)
  also have "\<dots> \<longleftrightarrow> (\<forall>i < 32. bit (ntohl p) i \<and> ?k \<le> i \<longleftrightarrow> bit (ntohl a) i)"
    by (auto simp: bit_eq_iff bit_and_iff netmask_bits [OF assms])
  also have "\<dots> \<longleftrightarrow> ?hi \<and> ?lo"
  proof
    have bound: "bit (ntohl x) i \<Longrightarrow> i < 32" for x i using bit_imp_le_length [of "ntohl x" i] by simp
    assume b: "\<forall>i < 32. bit (ntohl p) i \<and> ?k \<le> i \<longleftrightarrow> bit (ntohl a) i"
    show "?hi \<and> ?lo"
    proof
      show ?hi by (rule bit_word_eqI) (simp add: bit_drop_bit_eq, metis b bound le_add1)
      show ?lo by (rule bit_word_eqI) (use b in \<open>auto simp: bit_take_bit_iff\<close>)
    qed
  next
    assume h: "?hi \<and> ?lo"
    show "\<forall>i < 32. bit (ntohl p) i \<and> ?k \<le> i \<longleftrightarrow> bit (ntohl a) i"
    proof (intro allI impI)
      fix i :: nat assume "i < 32"
      show "bit (ntohl p) i \<and> ?k \<le> i \<longleftrightarrow> bit (ntohl a) i"
      proof (cases "?k \<le> i")
        case True
        have "bit (drop_bit ?k (ntohl p)) (i - ?k) = bit (drop_bit ?k (ntohl a)) (i - ?k)" using h by simp
        with True show ?thesis by (simp add: bit_drop_bit_eq)
      next
        case False
        have "\<not> bit (take_bit ?k (ntohl a)) i" using h by simp
        with False \<open>i < 32\<close> show ?thesis by (simp add: bit_take_bit_iff)
      qed
    qed
  qed
  finally show ?thesis .
qed

subsection \<open>Domains\<close>

lemma to_lower_dot: "to_lower c = CHR ''.'' \<longleftrightarrow> c = CHR ''.''"
proof (cases "isupper c")
  case True
  then have "97 \<le> (of_char c + 32 :: nat)" "(of_char c + 32 :: nat) < 256"
    by (simp_all add: isupper_def code_def)
  then have "of_char (to_lower c) \<noteq> (46 :: nat)" using True by (simp add: to_lower_def)
  moreover have "c \<noteq> CHR ''.''" using True by (auto simp: isupper_def code_def)
  ultimately show ?thesis by auto
qed (simp add: to_lower_def)

lemma host_is_in_domain_iff:
  assumes "d \<noteq> []"
  shows "gfarm_host_is_in_domain h d \<longleftrightarrow> map to_lower h = map to_lower d
    \<or> (\<exists>p. p \<noteq> [] \<and> map to_lower h = p @ ''.'' @ map to_lower d)" (is "_ = ?spec")
proof -
  consider "length h < length d" | "length h = length d" | "length h = length d + 1"
    | k where "length h = length d + Suc k" "0 < k"
    by (metis Suc_eq_plus1 add.commute gr0I less_imp_Suc_add linorder_less_linear add_Suc_right add_0_right)
  then show ?thesis
  proof cases
    case 1
    moreover have "\<not> ?spec"
    proof
      assume ?spec
      then have "length (map to_lower h) \<ge> length d" by (auto dest: arg_cong [where f = length])
      with 1 show False by simp
    qed
    ultimately show ?thesis by (simp add: gfarm_host_is_in_domain_def)
  next
    case 2
    moreover have "map to_lower h \<noteq> p @ ''.'' @ map to_lower d" for p
      using 2 by (auto dest: arg_cong [where f = length])
    ultimately show ?thesis by (simp add: gfarm_host_is_in_domain_def strcaseeq_def)
  next
    case 3
    moreover have "\<not> ?spec" using 3 by (auto dest: arg_cong [where f = length])
    ultimately show ?thesis using assms by (simp add: gfarm_host_is_in_domain_def)
  next
    case (4 k)
    have spl: "h = take k h @ h ! k # drop (Suc k) h" using 4 by (simp add: id_take_nth_drop)
    have idx: "length h - (length d + 1) = k" "length h - length d = Suc k" using 4 by simp_all
    have "gfarm_host_is_in_domain h d \<longleftrightarrow> h ! k = CHR ''.'' \<and> strcaseeq (drop (Suc k) h) d"
      using 4 assms idx by (simp add: gfarm_host_is_in_domain_def Let_def)
    also have "\<dots> \<longleftrightarrow> map to_lower h = map to_lower (take k h) @ ''.'' @ map to_lower d"
    proof -
      have "map to_lower h = map to_lower (take k h) @ to_lower (h ! k) # map to_lower (drop (Suc k) h)"
        using arg_cong [OF spl, of "map to_lower"] by simp
      then show ?thesis by (simp add: strcaseeq_def to_lower_dot)
    qed
    also have "\<dots> \<longleftrightarrow> ?spec"
    proof
      assume "map to_lower h = map to_lower (take k h) @ ''.'' @ map to_lower d"
      moreover have "map to_lower (take k h) \<noteq> []" using 4 by auto
      ultimately show ?spec by blast
    next
      assume ?spec
      moreover have "map to_lower h \<noteq> map to_lower d" using 4 by (auto dest: arg_cong [where f = length])
      ultimately obtain p where p: "map to_lower h = p @ ''.'' @ map to_lower d" by blast
      then have "length p = k" using 4 by (auto dest: arg_cong [where f = length])
      then have "p = map to_lower (take k h)" using p by (metis append_eq_conv_conj take_map)
      with p show "map to_lower h = map to_lower (take k h) @ ''.'' @ map to_lower d" by simp
    qed
    finally show ?thesis .
  qed
qed

subsection \<open>Parsing\<close>

lemma dotted_first: obtains c r where "dotted a = c # r" "isdigit c"
proof -
  obtain c r where c: "dec_digits (unat (bytes_of 4 a ! 0)) = c # r"
    by (cases "dec_digits (unat (bytes_of 4 a ! 0))") auto
  then have "isdigit c" using dec_digits_isdigit [of c "unat (bytes_of 4 a ! 0)"] by simp
  with c show ?thesis by (intro that [of c]) (simp_all add: dotted_def)
qed

lemma dotted_not_keyword: "dotted a @ rest \<noteq> ''*''" "dotted a @ rest \<noteq> ''ALL''"
  by (rule dotted_first [of a]; auto simp: isdigit_def code_def)+

lemma parse_plain_address:
  "gfarm_hostspec_parse ok (dotted a) = gfarm_hostspec_af_inet4_new ok a (NOT 0)"
  using string_to_in4addr_dotted [of "[]" a] dotted_not_keyword [of a "[]"]
  by (simp add: gfarm_hostspec_parse_def)

lemma parse_address_length:
  assumes "n \<le> 32"
  shows "gfarm_hostspec_parse ok (dotted a @ ''/'' @ dec_digits n)
    = gfarm_hostspec_af_inet4_new ok a (netmask_of_length (int n))"
proof -
  have "\<not> isdigit (CHR ''/'')" by (simp add: isdigit_def code_def)
  then have ip: "gfarm_string_to_in4addr (dotted a @ ''/'' @ dec_digits n)
      = (GFARM_ERR_NO_ERROR, ''/'' @ dec_digits n, Some a)"
    by (intro string_to_in4addr_dotted) simp
  have num: "strtoul (dec_digits n) = Some (int n, [])"
    using strtoul_dec_digits [of n "[]"] assms by simp
  have "isdigit (hd (dec_digits n))" by (intro dec_digits_isdigit [of _ n]) simp
  with num assms have "hostspec_parse_mask ok a (dec_digits n)
      = Some (gfarm_hostspec_af_inet4_new ok a (netmask_of_length (int n)))"
    by (simp add: hostspec_parse_mask_def)
  with ip dotted_not_keyword [of a "''/'' @ dec_digits n"] show ?thesis
    by (simp add: gfarm_hostspec_parse_def)
qed

lemma letter_no_number:
  "islower c \<Longrightarrow> strtoul (c # rest) = None"
  by (auto simp: strtoul_def number_sign_def islower_def isspace_def code_def in_base_10_iff isdigit_def Let_def)

subsection \<open>Properties\<close>

text \<open>An address that \<open>gfarm_sockaddr_to_string\<close> prints into a buffer of \<open>GFARM_SOCKADDR_STRLEN\<close> is read back by
  \<open>gfarm_string_to_in4addr\<close>, whatever follows it except a digit; and a specification of the printed
  address matches that address and no other.\<close>

theorem in4addr_roundtrip:
  assumes "rest = [] \<or> \<not> isdigit (hd rest)"
  shows "gfarm_string_to_in4addr (gfarm_sockaddr_to_string (AF_INET a) 42 @ rest)
      = (GFARM_ERR_NO_ERROR, rest, Some a)
    \<and> (\<exists>spec. gfarm_hostspec_parse True (gfarm_sockaddr_to_string (AF_INET a) 42) = (GFARM_ERR_NO_ERROR, Some spec)
         \<and> (\<forall>name p. gfarm_hostspec_match spec name (Some (AF_INET p)) \<longleftrightarrow> p = a))"
  using string_to_in4addr_dotted [OF assms, of a]
  by (simp add: sockaddr_to_string_inet parse_plain_address gfarm_hostspec_af_inet4_new_def)

text \<open>C11: a specification with a prefix length \<open>n\<close> matches exactly the addresses whose first \<open>n\<close> bits are those of
  the address given, provided the other bits of the given address are zero; when one of them is
  set, it matches no address at all.\<close>

theorem netmask_spec_match:
  assumes "n \<le> 32"
  shows "\<exists>spec. gfarm_hostspec_parse True (gfarm_sockaddr_to_string (AF_INET a) 42 @ ''/'' @ dec (int n))
      = (GFARM_ERR_NO_ERROR, Some spec)
    \<and> (\<forall>name p. gfarm_hostspec_match spec name (Some (AF_INET p)) \<longleftrightarrow>
          take_bit (32 - n) (ntohl a) = 0 \<and> drop_bit (32 - n) (ntohl p) = drop_bit (32 - n) (ntohl a))"
proof -
  have k: "nat (32 - int n) = 32 - n" by simp
  have "dec (int n) = dec_digits n" by (simp add: dec_def)
  then show ?thesis
    using parse_address_length [OF assms, of True a] netmask_match [of "int n" _ a] assms
    by (auto simp: sockaddr_to_string_inet gfarm_hostspec_af_inet4_new_def k)
qed

text \<open>C12: a host is in a domain, up to case, exactly when its name is the domain or ends with a dot and the domain
  after at least one more character; a specification that begins with a dot matches the names in the
  domain behind the dot, any other name only itself, and neither matches without a name.\<close>

theorem domain_spec_match:
  assumes "d \<noteq> []"
  shows "(gfarm_host_is_in_domain h d \<longleftrightarrow> map to_lower h = map to_lower d
           \<or> (\<exists>p. p \<noteq> [] \<and> map to_lower h = p @ ''.'' @ map to_lower d))
    \<and> gfarm_hostspec_match (GFHS_NAME (CHR ''.'' # d)) (Some h) addr = gfarm_host_is_in_domain h d
    \<and> (hd d \<noteq> CHR ''.'' \<longrightarrow>
         gfarm_hostspec_match (GFHS_NAME d) (Some h) addr = (map to_lower h = map to_lower d))
    \<and> \<not> gfarm_hostspec_match (GFHS_NAME d) None addr"
  using host_is_in_domain_iff [OF assms, of h] assms by (simp add: strcaseeq_def)

text \<open>The parser lets more pass than the dot notation and host names: white space and signs before the
  numbers of an address are skipped, and a negative number counts modulo 2^64; and any text at all that begins with
  a small letter is accepted as a name, since only its first character is looked at.\<close>

theorem hostspec_lenient:
  assumes "islower c"
  shows "gfarm_hostspec_parse True (c # rest) = (GFARM_ERR_NO_ERROR, Some (GFHS_NAME (c # rest)))
    \<and> gfarm_string_to_in4addr '' +1. 2.-18446744073709551613.-0'' = gfarm_string_to_in4addr ''1.2.3.0''
    \<and> gfarm_string_to_in4addr ''1.2.3.0'' = (GFARM_ERR_NO_ERROR, [], Some (htonl 0x01020300))"
proof (intro conjI)
  have "c \<noteq> CHR ''*''" "c \<noteq> CHR ''A''" "\<not> isupper c" using assms by (auto simp: islower_def isupper_def code_def)
  then show "gfarm_hostspec_parse True (c # rest) = (GFARM_ERR_NO_ERROR, Some (GFHS_NAME (c # rest)))"
    using letter_no_number [OF assms, of rest] assms
    by (simp add: gfarm_hostspec_parse_def gfarm_string_to_in4addr_def hostspec_parse_name_def bad_char_at_def
        IS_DNS_LABEL_CHAR_def isalnum_def gfarm_is_string_upper_case_def gfarm_hostspec_name_new_def)
qed code_simp+

subsection \<open>Witnesses\<close>

theorem in4addr_roundtrip_witness:
  "gfarm_string_to_in4addr (gfarm_sockaddr_to_string (AF_INET 0x0100007f) 42 @ ''/8'')
     = (GFARM_ERR_NO_ERROR, ''/8'', Some 0x0100007f)"
proof -
  have "''/8'' = [] \<or> \<not> isdigit (hd ''/8'')" by (simp add: isdigit_def code_def)
  from in4addr_roundtrip [OF this, of "0x0100007f"] show ?thesis by simp
qed

theorem netmask_spec_match_witness:
  "\<exists>spec. gfarm_hostspec_parse True (gfarm_sockaddr_to_string (AF_INET (htonl 0x0a000000)) 42 @ ''/'' @ dec 8)
      = (GFARM_ERR_NO_ERROR, Some spec)
    \<and> gfarm_hostspec_match spec None (Some (AF_INET (htonl 0x0a010203)))"
proof -
  have bits: "take_bit (32 - 8) (0x0a000000 :: u32) = 0"
    "drop_bit (32 - 8) (0x0a010203 :: u32) = drop_bit (32 - 8) 0x0a000000" by code_simp+
  obtain spec where s: "gfarm_hostspec_parse True (gfarm_sockaddr_to_string (AF_INET (htonl 0x0a000000)) 42 @ ''/'' @ dec (int 8))
      = (GFARM_ERR_NO_ERROR, Some spec)"
    "\<And>name p. gfarm_hostspec_match spec name (Some (AF_INET p)) \<longleftrightarrow>
        take_bit (32 - 8) (ntohl (htonl 0x0a000000)) = 0
        \<and> drop_bit (32 - 8) (ntohl p) = drop_bit (32 - 8) (ntohl (htonl 0x0a000000))"
    using netmask_spec_match [of 8 "htonl 0x0a000000"] by auto
  have "gfarm_hostspec_match spec None (Some (AF_INET (htonl 0x0a010203)))"
    unfolding s(2) using bits by (simp only: ntohl_htonl)
  with s(1) show ?thesis by (intro exI [of _ spec]) simp
qed

theorem domain_spec_match_witness:
  "gfarm_hostspec_match (GFHS_NAME ''.example.org'') (Some ''WWW.Example.ORG'') None"
proof -
  have "map to_lower ''WWW.Example.ORG'' = ''www'' @ ''.'' @ map to_lower ''example.org''" by code_simp
  then have "\<exists>p. p \<noteq> [] \<and> map to_lower ''WWW.Example.ORG'' = p @ ''.'' @ map to_lower ''example.org''"
    by (intro exI [of _ "''www''"]) simp
  with domain_spec_match [of "''example.org''" "''WWW.Example.ORG''" None] show ?thesis by simp
qed

theorem hostspec_lenient_witness:
  "gfarm_hostspec_parse True ''no such host!'' = (GFARM_ERR_NO_ERROR, Some (GFHS_NAME ''no such host!''))"
proof -
  have "islower (CHR ''n'')" by (simp add: islower_def code_def)
  from hostspec_lenient [OF this, of "''o such host!''"] show ?thesis by simp
qed

end
