(* ===== verification/Param.thy ===== *)
theory Param
  imports Hostspec Io_Fd
begin

unbundle bit_operations_syntax

text \<open>
  \<open>gfarm/param.c\<close> and \<open>gfarm/sockopt.c\<close>: parameters that the configuration gives per host. A table of
  parameter types names them; each configuration line appends an entry to a list, and a
  lookup takes the first entry whose host specification matches. A list with its \<open>last\<close> pointer is a
  list. A null host specification that is matched against, a failed \<open>assert\<close> and an undefined shift
  are \<open>None\<close>.
\<close>

record 'x param_type =
  pt_name :: string
  pt_boolean :: bool
  pt_extension :: 'x

record param_config =
  param_type_index :: int
  pc_value :: int
  pc_hostspec :: "hostspec option"

subsection \<open>Reading a parameter\<close>

text \<open>The value for the type whose name is the part of the text before \<open>=\<close>.\<close>

definition param_value :: "'x param_type \<Rightarrow> string \<Rightarrow> nat \<Rightarrow> gfarm_error_t \<times> int option" where
  "param_value type config namelen =
     (if length config = namelen then
        (if \<not> pt_boolean type then (GFARM_ERRMSG_VALUE_IS_NOT_SPECIFIED, None)
         else (GFARM_ERR_NO_ERROR, Some 1))
      else if pt_boolean type then (GFARM_ERRMSG_VALUE_IS_NOT_ALLOWED_FOR_BOOLEAN, None)
      else if drop (namelen + 1) config = [] then (GFARM_ERRMSG_VALUE_IS_EMPTY, None)
      else
        let (value, out_of_range, ep) = strtol0 (drop (namelen + 1) config)
        in if out_of_range then (errno_error ERANGE, None)
           else if ep \<noteq> [] then (GFARM_ERRMSG_INVALID_CHAR_IN_VALUE, None)
           else (GFARM_ERR_NO_ERROR, Some value))"

fun param_parse_loop ::
  "'x param_type list \<Rightarrow> nat \<Rightarrow> string \<Rightarrow> nat \<Rightarrow> gfarm_error_t \<times> (nat \<times> int) option" where
  "param_parse_loop [] i config namelen = (GFARM_ERR_NO_SUCH_OBJECT, None)"
| "param_parse_loop (type # types) i config namelen =
     (if length (pt_name type) \<noteq> namelen \<or> take namelen config \<noteq> pt_name type
      then param_parse_loop types (Suc i) config namelen
      else case param_value type config namelen of
             (e, None) \<Rightarrow> (e, None)
           | (e, Some value) \<Rightarrow> (e, Some (i, value)))"

definition gfarm_param_config_parse_long ::
  "'x param_type list \<Rightarrow> string \<Rightarrow> gfarm_error_t \<times> (nat \<times> int) option" where
  "gfarm_param_config_parse_long type_table config =
     param_parse_loop type_table 0 config (length (takeWhile (\<lambda>c. c \<noteq> CHR ''='') config))"

definition gfarm_param_config_add_long ::
  "bool \<Rightarrow> param_config list \<Rightarrow> int \<Rightarrow> int \<Rightarrow> hostspec option \<Rightarrow> gfarm_error_t \<times> param_config list" where
  "gfarm_param_config_add_long ok list index value hsp =
     (if \<not> ok then (GFARM_ERR_NO_MEMORY, list)
      else (GFARM_ERR_NO_ERROR,
            list @ [\<lparr>param_type_index = index, pc_value = value, pc_hostspec = hsp\<rparr>]))"

subsection \<open>Applying parameters\<close>

text \<open>\<open>1 << i\<close>, an \<open>int\<close>, converted to \<open>long\<close>; the shift by more than 31 is undefined.\<close>

definition done_bit :: "int \<Rightarrow> u64" where
  "done_bit i = scast (push_bit (nat i) 1 :: u32)"

text \<open>
  The entries are handed to \<open>f\<close>, which has a state, the first of every parameter only; the first
  error is kept. \<open>match\<close> says which entries take part.
\<close>

fun param_apply_loop ::
  "(param_config \<Rightarrow> bool option) \<Rightarrow> ('s \<Rightarrow> int \<Rightarrow> int \<Rightarrow> gfarm_error_t \<times> 's) \<Rightarrow> param_config list
     \<Rightarrow> u64 \<Rightarrow> gfarm_error_t \<Rightarrow> 's \<Rightarrow> (gfarm_error_t \<times> 's) option" where
  "param_apply_loop match f [] done e_save s = Some (e_save, s)"
| "param_apply_loop match f (p # ps) done e_save s =
     (case match p of
        None \<Rightarrow> None
      | Some False \<Rightarrow> param_apply_loop match f ps done e_save s
      | Some True \<Rightarrow>
          if param_type_index p < 0 \<or> param_type_index p \<ge> 64 then None
          else if param_type_index p \<ge> 32 then None
          else if done AND done_bit (param_type_index p) \<noteq> 0 then param_apply_loop match f ps done e_save s
          else
            let (e, s') = f s (param_type_index p) (pc_value p)
            in param_apply_loop match f ps (done OR done_bit (param_type_index p))
                 (if e \<noteq> GFARM_ERR_NO_ERROR \<and> e_save = GFARM_ERR_NO_ERROR then e else e_save) s')"

definition config_matches :: "string option \<Rightarrow> sockaddr option \<Rightarrow> param_config \<Rightarrow> bool option" where
  "config_matches name addr p =
     (case pc_hostspec p of None \<Rightarrow> None | Some hs \<Rightarrow> Some (gfarm_hostspec_match hs name addr))"

definition gfarm_param_apply_long_by_name_addr ::
  "param_config list \<Rightarrow> string option \<Rightarrow> sockaddr option
     \<Rightarrow> ('s \<Rightarrow> int \<Rightarrow> int \<Rightarrow> gfarm_error_t \<times> 's) \<Rightarrow> 's \<Rightarrow> (gfarm_error_t \<times> 's) option" where
  "gfarm_param_apply_long_by_name_addr list name addr f closure =
     param_apply_loop (config_matches name addr) f list 0 GFARM_ERR_NO_ERROR closure"

definition gfarm_param_apply_long ::
  "param_config list \<Rightarrow> ('s \<Rightarrow> int \<Rightarrow> int \<Rightarrow> gfarm_error_t \<times> 's) \<Rightarrow> 's \<Rightarrow> (gfarm_error_t \<times> 's) option" where
  "gfarm_param_apply_long list f closure =
     param_apply_loop (\<lambda>_. Some True) f list 0 GFARM_ERR_NO_ERROR closure"

subsection \<open>Looking a parameter up\<close>

fun gfarm_param_get_long_by_name_addr ::
  "param_config list \<Rightarrow> int \<Rightarrow> string option \<Rightarrow> sockaddr option \<Rightarrow> (gfarm_error_t \<times> int option) option" where
  "gfarm_param_get_long_by_name_addr [] index name addr = Some (GFARM_ERR_NO_SUCH_OBJECT, None)"
| "gfarm_param_get_long_by_name_addr (p # ps) index name addr =
     (if param_type_index p \<noteq> index then gfarm_param_get_long_by_name_addr ps index name addr
      else case config_matches name addr p of
             None \<Rightarrow> None
           | Some m \<Rightarrow>
               if m then Some (GFARM_ERR_NO_ERROR, Some (pc_value p))
               else gfarm_param_get_long_by_name_addr ps index name addr)"

fun gfarm_param_get_long :: "param_config list \<Rightarrow> int \<Rightarrow> gfarm_error_t \<times> int option" where
  "gfarm_param_get_long [] index = (GFARM_ERR_NO_SUCH_OBJECT, None)"
| "gfarm_param_get_long (p # ps) index =
     (if param_type_index p = index then (GFARM_ERR_NO_ERROR, Some (pc_value p))
      else gfarm_param_get_long ps index)"

subsection \<open>Network parameters\<close>

record netparam_info =
  np_minimum :: int
  np_maximum :: int
  np_default_value :: int
  np_list :: "param_config list"

definition netparam :: "int \<Rightarrow> int \<Rightarrow> int \<Rightarrow> netparam_info" where
  "netparam lo hi def = \<lparr>np_minimum = lo, np_maximum = hi, np_default_value = def, np_list = []\<rparr>"

text \<open>The eight variables \<open>gfarm_netparam_*\<close>, in the order of the type table; the extension of a type is its place.\<close>

definition gfarm_netparams :: "netparam_info list" where
  "gfarm_netparams =
     [netparam 1 1000 1,
      netparam 0 2147483647 0,
      netparam 0 2147483647 0,
      netparam 0 2147483647 4096,
      netparam 0 2147483647 0,
      netparam 0 2147483647 0,
      netparam 0 1 0,
      netparam 0 1 0]"

definition gfarm_netparam_type_table :: "nat param_type list" where
  "gfarm_netparam_type_table =
     [\<lparr>pt_name = ''parallel_streams'', pt_boolean = False, pt_extension = 0\<rparr>,
      \<lparr>pt_name = ''stripe_unit_size'', pt_boolean = False, pt_extension = 1\<rparr>,
      \<lparr>pt_name = ''rate_limit'', pt_boolean = False, pt_extension = 2\<rparr>,
      \<lparr>pt_name = ''file_read_size'', pt_boolean = False, pt_extension = 3\<rparr>,
      \<lparr>pt_name = ''sync_rate'', pt_boolean = False, pt_extension = 4\<rparr>,
      \<lparr>pt_name = ''file_sync_stripe'', pt_boolean = False, pt_extension = 5\<rparr>,
      \<lparr>pt_name = ''send_stripe_sync'', pt_boolean = False, pt_extension = 6\<rparr>,
      \<lparr>pt_name = ''recv_stripe_sync'', pt_boolean = False, pt_extension = 7\<rparr>]"

definition gfarm_netparam_config_add_long ::
  "bool \<Rightarrow> netparam_info list \<Rightarrow> string \<Rightarrow> hostspec option \<Rightarrow> gfarm_error_t \<times> netparam_info list" where
  "gfarm_netparam_config_add_long ok infos config hsp =
     (case gfarm_param_config_parse_long gfarm_netparam_type_table config of
        (e, None) \<Rightarrow>
          (if e = GFARM_ERR_NO_SUCH_OBJECT then GFARM_ERRMSG_UNKNOWN_PARAMETER else e, infos)
      | (e, Some (i, value)) \<Rightarrow>
          let x = pt_extension (gfarm_netparam_type_table ! i);
              info = infos ! x
          in if value < np_minimum info \<or> np_maximum info < value
             then (GFARM_ERR_NUMERICAL_ARGUMENT_OUT_OF_DOMAIN, infos)
             else
               let (e', list) = gfarm_param_config_add_long ok (np_list info) 0 value hsp
               in (e', infos[x := info\<lparr>np_list := list\<rparr>]))"

definition gfarm_netparam_config_get_long ::
  "netparam_info \<Rightarrow> string option \<Rightarrow> sockaddr option \<Rightarrow> (gfarm_error_t \<times> int option) option" where
  "gfarm_netparam_config_get_long info name addr =
     (case gfarm_param_get_long_by_name_addr (np_list info) 0 name addr of
        None \<Rightarrow> None
      | Some (e, value) \<Rightarrow>
          Some (if e = GFARM_ERR_NO_SUCH_OBJECT then (GFARM_ERR_NO_ERROR, Some (np_default_value info))
                else if e \<noteq> GFARM_ERR_NO_ERROR then (e, None)
                else (GFARM_ERR_NO_ERROR, value)))"

end
