(* ===== verification/Sockopt.thy ===== *)
theory Sockopt
  imports Param
begin

text \<open>
  \<open>gfarm/sockopt.c\<close>: the socket options that the configuration asks for, one list for the
  connections to a host and one for listening sockets. The option numbers are those of Linux;
  \<open>getprotobyname\<close> and \<open>setsockopt\<close> are parameters. A \<open>gflog_fatal\<close> is \<open>None\<close>.
\<close>

record sockopt_info =
  so_proto :: "string option"
  so_level :: int
  so_option :: int

abbreviation (input) SOL_SOCKET :: int where "SOL_SOCKET \<equiv> 1"
abbreviation (input) SO_DEBUG :: int where "SO_DEBUG \<equiv> 1"
abbreviation (input) SO_SNDBUF :: int where "SO_SNDBUF \<equiv> 7"
abbreviation (input) SO_RCVBUF :: int where "SO_RCVBUF \<equiv> 8"
abbreviation (input) SO_KEEPALIVE :: int where "SO_KEEPALIVE \<equiv> 9"
abbreviation (input) TCP_NODELAY :: int where "TCP_NODELAY \<equiv> 1"

definition gfarm_sockopt_type_table :: "sockopt_info param_type list" where
  "gfarm_sockopt_type_table =
     [\<lparr>pt_name = ''debug'', pt_boolean = True,
       pt_extension = \<lparr>so_proto = None, so_level = SOL_SOCKET, so_option = SO_DEBUG\<rparr>\<rparr>,
      \<lparr>pt_name = ''keepalive'', pt_boolean = True,
       pt_extension = \<lparr>so_proto = None, so_level = SOL_SOCKET, so_option = SO_KEEPALIVE\<rparr>\<rparr>,
      \<lparr>pt_name = ''sndbuf'', pt_boolean = False,
       pt_extension = \<lparr>so_proto = None, so_level = SOL_SOCKET, so_option = SO_SNDBUF\<rparr>\<rparr>,
      \<lparr>pt_name = ''rcvbuf'', pt_boolean = False,
       pt_extension = \<lparr>so_proto = None, so_level = SOL_SOCKET, so_option = SO_RCVBUF\<rparr>\<rparr>,
      \<lparr>pt_name = ''tcp_nodelay'', pt_boolean = True,
       pt_extension = \<lparr>so_proto = Some ''tcp'', so_level = 0, so_option = TCP_NODELAY\<rparr>\<rparr>]"

record sockopt_state =
  so_table :: "sockopt_info param_type list"
  so_initialized :: bool
  so_config_list :: "param_config list"
  so_listener_list :: "param_config list"

definition sockopt_state0 :: sockopt_state where
  "sockopt_state0 = \<lparr>so_table = gfarm_sockopt_type_table, so_initialized = False,
     so_config_list = [], so_listener_list = []\<rparr>"

fun sockopt_initialize ::
  "(string \<Rightarrow> int option) \<Rightarrow> sockopt_info param_type list \<Rightarrow> sockopt_info param_type list option" where
  "sockopt_initialize getprotobyname [] = Some []"
| "sockopt_initialize getprotobyname (type # types) =
     (case (case so_proto (pt_extension type) of
              None \<Rightarrow> Some type
            | Some proto \<Rightarrow>
                (case getprotobyname proto of
                   None \<Rightarrow> None
                 | Some p_proto \<Rightarrow>
                     Some (type\<lparr>pt_extension := (pt_extension type)\<lparr>so_level := p_proto\<rparr>\<rparr>))) of
        None \<Rightarrow> None
      | Some type' \<Rightarrow> map_option (\<lambda>types'. type' # types') (sockopt_initialize getprotobyname types))"

text \<open>\<open>pthread_once\<close> runs the initialisation at the first call.\<close>

definition gfarm_sockopt_initialize ::
  "(string \<Rightarrow> int option) \<Rightarrow> sockopt_state \<Rightarrow> sockopt_state option" where
  "gfarm_sockopt_initialize getprotobyname st =
     (if so_initialized st then Some st
      else map_option (\<lambda>types. st\<lparr>so_table := types, so_initialized := True\<rparr>)
             (sockopt_initialize getprotobyname (so_table st)))"

text \<open>The entry that a configuration text appends to the list it is for.\<close>

definition gfarm_sockopt_config_add_internal ::
  "(string \<Rightarrow> int option) \<Rightarrow> bool \<Rightarrow> sockopt_state \<Rightarrow> param_config list \<Rightarrow> string \<Rightarrow> hostspec option
     \<Rightarrow> (gfarm_error_t \<times> sockopt_state \<times> param_config list) option" where
  "gfarm_sockopt_config_add_internal getprotobyname ok st list config hsp =
     (case gfarm_sockopt_initialize getprotobyname st of
        None \<Rightarrow> None
      | Some st' \<Rightarrow>
          Some (case gfarm_param_config_parse_long (so_table st') config of
                  (e, None) \<Rightarrow>
                    (if e = GFARM_ERR_NO_SUCH_OBJECT then GFARM_ERRMSG_UNKNOWN_SOCKET_OPTION else e, st', list)
                | (e, Some (i, value)) \<Rightarrow>
                    let (e', list') = gfarm_param_config_add_long ok list (int i) value hsp
                    in (e', st', list')))"

definition gfarm_sockopt_config_add ::
  "(string \<Rightarrow> int option) \<Rightarrow> bool \<Rightarrow> sockopt_state \<Rightarrow> string \<Rightarrow> hostspec
     \<Rightarrow> (gfarm_error_t \<times> sockopt_state) option" where
  "gfarm_sockopt_config_add getprotobyname ok st option hsp =
     map_option (\<lambda>(e, st', list). (e, st'\<lparr>so_config_list := list\<rparr>))
       (gfarm_sockopt_config_add_internal getprotobyname ok st (so_config_list st) option (Some hsp))"

definition gfarm_sockopt_listener_config_add ::
  "(string \<Rightarrow> int option) \<Rightarrow> bool \<Rightarrow> sockopt_state \<Rightarrow> string \<Rightarrow> (gfarm_error_t \<times> sockopt_state) option" where
  "gfarm_sockopt_listener_config_add getprotobyname ok st option =
     map_option (\<lambda>(e, st', list). (e, st'\<lparr>so_listener_list := list\<rparr>))
       (gfarm_sockopt_config_add_internal getprotobyname ok st (so_listener_list st) option None)"

text \<open>
  \<open>setsockopt\<close> has a state of its own; it answers \<open>None\<close> for success or the value of \<open>errno\<close>. The value is
  converted to \<open>int\<close>.
\<close>

definition gfarm_sockopt_set ::
  "('w \<Rightarrow> int \<Rightarrow> int \<Rightarrow> int \<Rightarrow> int \<Rightarrow> int option \<times> 'w) \<Rightarrow> sockopt_info param_type list \<Rightarrow> int
     \<Rightarrow> 'w \<Rightarrow> int \<Rightarrow> int \<Rightarrow> gfarm_error_t \<times> 'w" where
  "gfarm_sockopt_set setsockopt table fd w index value =
     (let info = pt_extension (table ! nat index)
      in case setsockopt w fd (so_level info) (so_option info) (as_int32 value) of
           (None, w') \<Rightarrow> (GFARM_ERR_NO_ERROR, w')
         | (Some errno, w') \<Rightarrow> (errno_error errno, w'))"

definition gfarm_sockopt_apply_by_name_addr ::
  "('w \<Rightarrow> int \<Rightarrow> int \<Rightarrow> int \<Rightarrow> int \<Rightarrow> int option \<times> 'w) \<Rightarrow> sockopt_state \<Rightarrow> int \<Rightarrow> string option
     \<Rightarrow> sockaddr option \<Rightarrow> 'w \<Rightarrow> (gfarm_error_t \<times> 'w) option" where
  "gfarm_sockopt_apply_by_name_addr setsockopt st fd name addr w =
     gfarm_param_apply_long_by_name_addr (so_config_list st) name addr
       (gfarm_sockopt_set setsockopt (so_table st) fd) w"

definition gfarm_sockopt_apply_listener ::
  "('w \<Rightarrow> int \<Rightarrow> int \<Rightarrow> int \<Rightarrow> int \<Rightarrow> int option \<times> 'w) \<Rightarrow> sockopt_state \<Rightarrow> int \<Rightarrow> 'w
     \<Rightarrow> (gfarm_error_t \<times> 'w) option" where
  "gfarm_sockopt_apply_listener setsockopt st fd w =
     gfarm_param_apply_long (so_listener_list st) (gfarm_sockopt_set setsockopt (so_table st) fd) w"

end
