(* ===== verification/Param_Spec.thy ===== *)
theory Param_Spec
  imports Sockopt
begin

unbundle bit_operations_syntax

text \<open>
  What the configured parameters promise: a value is read as it was written, a network parameter stays
  in its range, the first matching entry decides, and socket options are applied once each.
\<close>

subsection \<open>Applying the first entries\<close>

definition handed :: "(param_config \<Rightarrow> bool option) \<Rightarrow> param_config \<Rightarrow> bool" where
  "handed match p \<longleftrightarrow> match p = Some True"

fun first_entries :: "(param_config \<Rightarrow> bool option) \<Rightarrow> int set \<Rightarrow> param_config list \<Rightarrow> param_config list" where
  "first_entries match seen [] = []"
| "first_entries match seen (p # ps) =
     (if handed match p \<and> param_type_index p \<notin> seen
      then p # first_entries match (insert (param_type_index p) seen) ps
      else first_entries match seen ps)"

lemma first_entries_mem:
  "p \<in> set (first_entries match seen ps) \<longleftrightarrow> param_type_index p \<notin> seen
     \<and> find (\<lambda>q. handed match q \<and> param_type_index q = param_type_index p) ps = Some p"
proof (induction ps arbitrary: seen)
  case (Cons q ps)
  show ?case
  proof (cases "handed match q \<and> param_type_index q \<notin> seen")
    case True
    then show ?thesis using Cons.IH [of "insert (param_type_index q) seen"]
      by (cases "param_type_index p = param_type_index q") auto
  next
    case False
    then show ?thesis using Cons.IH [of seen]
      by (cases "param_type_index p = param_type_index q") auto
  qed
qed simp

lemma first_entries_distinct: "distinct (map param_type_index (first_entries match seen ps))"
  by (induction ps arbitrary: seen) (auto simp: first_entries_mem)

text \<open>The entries handed over one after the other, with the first error kept.\<close>

fun hand_over :: "('s \<Rightarrow> int \<Rightarrow> int \<Rightarrow> gfarm_error_t \<times> 's) \<Rightarrow> param_config list \<Rightarrow> gfarm_error_t \<Rightarrow> 's \<Rightarrow> gfarm_error_t \<times> 's" where
  "hand_over f [] e_save s = (e_save, s)"
| "hand_over f (p # ps) e_save s =
     (let (e, s') = f s (param_type_index p) (pc_value p)
      in hand_over f ps (if e_save = GFARM_ERR_NO_ERROR then e else e_save) s')"

lemma bit_done_bit:
  assumes "0 \<le> i" and "i < 32" and "j < 64"
  shows "bit (done_bit i) j \<longleftrightarrow> (if i = 31 then 31 \<le> j else j = nat i)"
proof -
  have "bit (done_bit i) j \<longleftrightarrow> min 31 j = nat i"
    using assms by (auto simp: done_bit_def bit_simps min_def split: if_splits)
  then show ?thesis using assms by (auto simp: min_def)
qed

definition done_ok :: "int set \<Rightarrow> u64 \<Rightarrow> bool" where
  "done_ok seen bits \<longleftrightarrow> (\<forall>j < 64. bit bits j \<longleftrightarrow> (if j < 31 then int j \<in> seen else 31 \<in> seen))"

lemma done_ok_test:
  assumes "done_ok seen bits" and "0 \<le> i" and "i < 32"
  shows "bits AND done_bit i \<noteq> 0 \<longleftrightarrow> i \<in> seen"
proof -
  have "bits AND done_bit i \<noteq> 0 \<longleftrightarrow> (\<exists>j < 64. bit bits j \<and> bit (done_bit i) j)"
    by (auto simp: bit_eq_iff bit_and_iff dest: bit_imp_le_length)
  also have "\<dots> \<longleftrightarrow> i \<in> seen"
  proof (cases "i = 31")
    case True
    then show ?thesis using assms bit_done_bit [OF assms(2,3)] by (auto simp: done_ok_def intro!: exI [of _ 31])
  next
    case False
    then have "nat i < 31" using assms by simp
    with False show ?thesis using assms bit_done_bit [OF assms(2,3)]
      by (auto simp: done_ok_def intro!: exI [of _ "nat i"])
  qed
  finally show ?thesis .
qed

lemma done_ok_insert:
  assumes "done_ok seen bits" and "0 \<le> i" and "i < 32"
  shows "done_ok (insert i seen) (bits OR done_bit i)"
  using assms bit_done_bit [OF assms(2,3)] by (auto simp: done_ok_def bit_or_iff split: if_splits)

lemma apply_loop_spec:
  assumes "\<forall>p \<in> set ps. match p \<noteq> None \<and> (match p = Some True \<longrightarrow> 0 \<le> param_type_index p \<and> param_type_index p < 32)"
    and "done_ok seen bits"
  shows "param_apply_loop match f ps bits e_save s = Some (hand_over f (first_entries match seen ps) e_save s)"
  using assms
proof (induction ps arbitrary: seen bits e_save s)
  case (Cons p ps)
  have rest: "\<forall>p \<in> set ps. match p \<noteq> None \<and> (match p = Some True \<longrightarrow> 0 \<le> param_type_index p \<and> param_type_index p < 32)"
    using Cons.prems(1) by simp
  show ?case
  proof (cases "match p")
    case None
    with Cons.prems(1) show ?thesis by simp
  next
    case (Some m)
    show ?thesis
    proof (cases m)
      case False
      with Some Cons.IH [OF rest Cons.prems(2)] show ?thesis by (simp add: handed_def)
    next
      case True
      with Some Cons.prems(1) have i: "0 \<le> param_type_index p" "param_type_index p < 32" by auto
      note test = done_ok_test [OF Cons.prems(2) i] and ins = done_ok_insert [OF Cons.prems(2) i]
      obtain e s' where f: "f s (param_type_index p) (pc_value p) = (e, s')" by fastforce
      show ?thesis
        using True Some i test f Cons.IH [OF rest Cons.prems(2)] Cons.IH [OF rest ins]
        by (simp add: handed_def Let_def)
    qed
  qed
qed simp

lemma done_ok_0: "done_ok {} 0"
  by (simp add: done_ok_def)

subsection \<open>Reading values\<close>

lemma takeWhile_stop: "x \<notin> set xs \<Longrightarrow> takeWhile (\<lambda>c. c \<noteq> x) (xs @ x # ys) = xs"
  by (induction xs) auto

lemma dec_digits_leading:
  "0 < n \<Longrightarrow> hd (dec_digits n) \<noteq> CHR ''0''"
proof (induction n rule: dec_digits.induct)
  case (1 n)
  show ?case
  proof (cases "n < 10")
    case True
    then have "hd (dec_digits n) = digit_char n" by (subst dec_digits.simps) simp
    moreover have "code (digit_char n) \<noteq> code (CHR ''0'')" using True 1(2) by (simp add: code_digit_char) (simp add: code_def)
    ultimately show ?thesis by auto
  next
    case False
    then have "hd (dec_digits n) = hd (dec_digits (n div 10))" by (subst dec_digits.simps) simp
    with 1 False show ?thesis by simp
  qed
qed

lemma dec_digits_all: "\<forall>c \<in> set (dec_digits n). in_base 10 c"
  using dec_digits_isdigit in_base_10_iff by blast

lemma number_base_dec: "0 < n \<Longrightarrow> number_base (dec_digits n) = (10, dec_digits n)"
  using dec_digits_leading [of n] by (cases "dec_digits n") (auto simp: number_base_def split: list.splits)

lemma number_sign_dec: "number_sign (dec_digits n) = (False, dec_digits n)"
proof -
  obtain c cs where ds: "dec_digits n = c # cs" by (cases "dec_digits n") auto
  then have "isdigit c" using dec_digits_isdigit [of c n] by simp
  with isdigit_not [of c] ds show ?thesis by (simp add: number_sign_def)
qed

lemma strtol0_digits:
  assumes "0 < n" and "number_sign s = (neg, dec_digits n)" and "int n < 2 ^ 63"
  shows "strtol0 s = (if neg then - int n else int n, False, [])"
proof -
  have tw: "takeWhile (in_base 10) (dec_digits n) = dec_digits n" "dropWhile (in_base 10) (dec_digits n) = []"
    using dec_digits_all [of n] by simp_all
  from assms show ?thesis by (simp add: strtol0_def number_base_dec dec_digits_value tw Let_def)
qed

lemma strtol0_dec:
  assumes "- (2 ^ 63) < v" and "v < 2 ^ 63"
  shows "strtol0 (dec v) = (v, False, [])"
proof -
  consider "v = 0" | "0 < v" | "v < 0" by linarith
  then show ?thesis
  proof cases
    case 1
    then show ?thesis by simp code_simp
  next
    case 2
    then show ?thesis using strtol0_digits [of "nat v" "dec v" False] number_sign_dec assms
      by (simp add: dec_def)
  next
    case 3
    have "number_sign (dec v) = (True, dec_digits (nat (- v)))"
      using 3 by (simp add: dec_def number_sign_def isspace_def code_def)
    with 3 show ?thesis using strtol0_digits [of "nat (- v)" "dec v" True] assms by simp
  qed
qed

text \<open>The entry of a table that a text \<open>name=value\<close> selects.\<close>

lemma parse_loop_found:
  assumes "k < length types" and "\<forall>j < k. pt_name (types ! j) \<noteq> take n config"
    and "pt_name (types ! k) = take n config" and "n \<le> length config"
  shows "param_parse_loop types i config n =
    (case param_value (types ! k) config n of (e, None) \<Rightarrow> (e, None) | (e, Some v) \<Rightarrow> (e, Some (i + k, v)))"
  using assms
proof (induction types arbitrary: i k)
  case (Cons t ts)
  show ?case
  proof (cases k)
    case 0
    with Cons.prems show ?thesis by simp
  next
    case (Suc l)
    have "\<forall>j < l. pt_name (ts ! j) \<noteq> take n config" using Cons.prems(2) Suc by force
    moreover have "pt_name t \<noteq> take n config" using Cons.prems(2) Suc by force
    ultimately show ?thesis using Cons.IH [of l "Suc i"] Cons.prems unfolding Suc add_Suc_right by simp
  qed
qed simp

lemma parse_loop_index:
  "param_parse_loop types i config n = (e, Some (k, v)) \<Longrightarrow>
     i \<le> k \<and> k < i + length types \<and> e = GFARM_ERR_NO_ERROR"
proof (induction types arbitrary: i)
  case (Cons t ts)
  show ?case
  proof (cases "length (pt_name t) \<noteq> n \<or> take n config \<noteq> pt_name t")
    case True
    with Cons.prems have "param_parse_loop ts (Suc i) config n = (e, Some (k, v))" by simp
    from Cons.IH [OF this] show ?thesis by simp
  next
    case False
    with Cons.prems show ?thesis
      by (auto simp: param_value_def Let_def split: if_splits prod.splits option.splits)
  qed
qed simp

lemma parse_long_index:
  "gfarm_param_config_parse_long types config = (e, Some (k, v)) \<Longrightarrow>
     k < length types \<and> e = GFARM_ERR_NO_ERROR"
  using parse_loop_index [of types 0] by (simp add: gfarm_param_config_parse_long_def)

subsection \<open>Network parameters\<close>







subsection \<open>Socket options\<close>

definition sockopt_ok :: "sockopt_state \<Rightarrow> bool" where
  "sockopt_ok st \<longleftrightarrow> length (so_table st) = 5
     \<and> (\<forall>p \<in> set (so_config_list st). 0 \<le> param_type_index p \<and> param_type_index p < 5 \<and> pc_hostspec p \<noteq> None)
     \<and> (\<forall>p \<in> set (so_listener_list st). 0 \<le> param_type_index p \<and> param_type_index p < 5)"

lemma sockopt_initialize_length:
  "sockopt_initialize g types = Some types' \<Longrightarrow> length types' = length types"
  by (induction types arbitrary: types') (auto split: option.splits)

lemma sockopt_init_ok:
  "gfarm_sockopt_initialize g st = Some st' \<Longrightarrow> sockopt_ok st \<Longrightarrow>
     sockopt_ok st' \<and> so_config_list st' = so_config_list st \<and> so_listener_list st' = so_listener_list st"
  by (auto simp: gfarm_sockopt_initialize_def sockopt_ok_def dest: sockopt_initialize_length split: if_splits)

lemma sockopt_add_internal_ok:
  assumes "gfarm_sockopt_config_add_internal g ok st list config hsp = Some (e, st', list')" and "sockopt_ok st"
  shows "sockopt_ok st' \<and> so_config_list st' = so_config_list st \<and> so_listener_list st' = so_listener_list st
    \<and> (list' = list \<or> (\<exists>p. list' = list @ [p] \<and> 0 \<le> param_type_index p \<and> param_type_index p < 5 \<and> pc_hostspec p = hsp))"
proof -
  obtain st1 where i: "gfarm_sockopt_initialize g st = Some st1"
    using assms(1) by (auto simp: gfarm_sockopt_config_add_internal_def split: option.splits)
  note s = sockopt_init_ok [OF i assms(2)]
  obtain e0 r where r: "gfarm_param_config_parse_long (so_table st1) config = (e0, r)" by fastforce
  show ?thesis
  proof (cases r)
    case None
    with assms(1) i r s show ?thesis by (simp add: gfarm_sockopt_config_add_internal_def)
  next
    case (Some kv)
    obtain k v where kv: "kv = (k, v)" by fastforce
    have "k < 5" using parse_long_index [of "so_table st1" config e0 k v] r Some kv s by (simp add: sockopt_ok_def)
    moreover have "st' = st1" and "list' = (if ok then list
        @ [\<lparr>param_type_index = int k, pc_value = v, pc_hostspec = hsp\<rparr>] else list)"
      using assms(1) i r Some kv
      by (auto simp: gfarm_sockopt_config_add_internal_def gfarm_param_config_add_long_def split: if_splits)
    ultimately show ?thesis using s by simp
  qed
qed

inductive sockopt_reach :: "sockopt_state \<Rightarrow> bool" where
  start: "sockopt_reach sockopt_state0"
| config: "sockopt_reach st \<Longrightarrow> gfarm_sockopt_config_add g ok st option hs = Some (e, st') \<Longrightarrow> sockopt_reach st'"
| listener: "sockopt_reach st \<Longrightarrow> gfarm_sockopt_listener_config_add g ok st option = Some (e, st') \<Longrightarrow>
    sockopt_reach st'"

lemma sockopt_reach_ok: "sockopt_reach st \<Longrightarrow> sockopt_ok st"
proof (induction rule: sockopt_reach.induct)
  case start
  show ?case by (simp add: sockopt_ok_def sockopt_state0_def gfarm_sockopt_type_table_def)
next
  case (config st g ok option hs e st')
  from config(2) obtain st1 list where
    "gfarm_sockopt_config_add_internal g ok st (so_config_list st) option (Some hs) = Some (e, st1, list)"
    "st' = st1\<lparr>so_config_list := list\<rparr>" by (auto simp: gfarm_sockopt_config_add_def)
  with sockopt_add_internal_ok [OF this(1) config(3)] config(3) show ?case by (auto simp: sockopt_ok_def)
next
  case (listener st g ok option e st')
  from listener(2) obtain st1 list where
    "gfarm_sockopt_config_add_internal g ok st (so_listener_list st) option None = Some (e, st1, list)"
    "st' = st1\<lparr>so_listener_list := list\<rparr>" by (auto simp: gfarm_sockopt_listener_config_add_def)
  with sockopt_add_internal_ok [OF this(1) listener(3)] listener(3) show ?case by (auto simp: sockopt_ok_def)
qed

subsection \<open>Properties\<close>

text \<open>A parameter that is written as \<open>name=value\<close>, in decimal, is read as its first type of that name
  and exactly that value; a boolean one is written as its name alone and read as 1.\<close>

theorem param_value_roundtrip:
  assumes "k < length types" and "\<forall>j < k. pt_name (types ! j) \<noteq> pt_name (types ! k)"
    and "CHR ''='' \<notin> set (pt_name (types ! k))" and "- (2 ^ 63) < v" and "v < 2 ^ 63"
  shows "(\<not> pt_boolean (types ! k) \<longrightarrow>
      gfarm_param_config_parse_long types (pt_name (types ! k) @ ''='' @ dec v) = (GFARM_ERR_NO_ERROR, Some (k, v)))
    \<and> (pt_boolean (types ! k) \<longrightarrow>
      gfarm_param_config_parse_long types (pt_name (types ! k)) = (GFARM_ERR_NO_ERROR, Some (k, 1)))"
proof -
  let ?name = "pt_name (types ! k)"
  have tw: "takeWhile (\<lambda>c. c \<noteq> CHR ''='') (?name @ ''='' @ rest) = ?name"
    "takeWhile (\<lambda>c. c \<noteq> CHR ''='') ?name = ?name" for rest
    using assms(3) takeWhile_stop [of "CHR ''=''" ?name] by auto
  have "dec v \<noteq> []" by (simp add: dec_def)
  then have "\<not> pt_boolean (types ! k) \<Longrightarrow>
      param_value (types ! k) (?name @ ''='' @ dec v) (length ?name) = (GFARM_ERR_NO_ERROR, Some v)"
    using strtol0_dec [OF assms(4,5)] by (simp add: param_value_def)
  moreover have "pt_boolean (types ! k) \<Longrightarrow>
      param_value (types ! k) ?name (length ?name) = (GFARM_ERR_NO_ERROR, Some 1)"
    by (simp add: param_value_def)
  ultimately show ?thesis
    using parse_loop_found [of k types "length ?name" "?name @ ''='' @ dec v" 0]
      parse_loop_found [of k types "length ?name" ?name 0] assms(1,2)
    by (simp add: gfarm_param_config_parse_long_def tw(1) [simplified] tw(2))
qed


text \<open>Applying a list of parameters hands over, for every parameter, the first entry that takes part and
  no other, in the order of the list, and yields the first error; this is so as long as the parameter numbers
  are below 32, although the assertion admits all below 64.\<close>

theorem param_apply_first_match:
  assumes "\<forall>p \<in> set list. pc_hostspec p \<noteq> None \<and> 0 \<le> param_type_index p \<and> param_type_index p < 32"
  shows "\<exists>calls. gfarm_param_apply_long_by_name_addr list name addr f s = Some (hand_over f calls GFARM_ERR_NO_ERROR s)
    \<and> distinct (map param_type_index calls)
    \<and> (\<forall>p. p \<in> set calls \<longleftrightarrow> find (\<lambda>q. config_matches name addr q = Some True
           \<and> param_type_index q = param_type_index p) list = Some p)"
proof -
  have "\<forall>p \<in> set list. config_matches name addr p \<noteq> None
      \<and> (config_matches name addr p = Some True \<longrightarrow> 0 \<le> param_type_index p \<and> param_type_index p < 32)"
    using assms by (auto simp: config_matches_def)
  from apply_loop_spec [OF this done_ok_0, of f GFARM_ERR_NO_ERROR s] show ?thesis
    by (intro exI [of _ "first_entries (config_matches name addr) {} list"])
      (simp add: gfarm_param_apply_long_by_name_addr_def first_entries_mem first_entries_distinct handed_def)
qed

text \<open>C14: with the lists that socket option lines build, applying them to a connection or to a listening
  socket never fails an assertion, shifts too far, or meets a missing host specification.\<close>

theorem sockopt_apply_defined:
  assumes "sockopt_reach st"
  shows "gfarm_sockopt_apply_by_name_addr setsockopt st fd name addr w \<noteq> None
    \<and> gfarm_sockopt_apply_listener setsockopt st fd w \<noteq> None"
proof -
  have ok: "sockopt_ok st" using assms by (rule sockopt_reach_ok)
  then have "\<forall>p \<in> set (so_config_list st). pc_hostspec p \<noteq> None \<and> 0 \<le> param_type_index p \<and> param_type_index p < 32"
    by (force simp: sockopt_ok_def)
  then have c: "\<forall>p \<in> set (so_config_list st). config_matches name addr p \<noteq> None
      \<and> (config_matches name addr p = Some True \<longrightarrow> 0 \<le> param_type_index p \<and> param_type_index p < 32)"
    by (auto simp: config_matches_def)
  have l: "\<forall>p \<in> set (so_listener_list st). Some True \<noteq> None
      \<and> (Some True = Some True \<longrightarrow> 0 \<le> param_type_index p \<and> param_type_index p < 32)"
    using ok by (force simp: sockopt_ok_def)
  show ?thesis
    unfolding gfarm_sockopt_apply_by_name_addr_def gfarm_sockopt_apply_listener_def
      gfarm_param_apply_long_by_name_addr_def gfarm_param_apply_long_def
      apply_loop_spec [OF c done_ok_0] apply_loop_spec [OF l done_ok_0] by blast
qed

subsection \<open>Witnesses\<close>

theorem param_value_roundtrip_witness:
  "gfarm_param_config_parse_long gfarm_netparam_type_table (''file_read_size'' @ ''='' @ dec 65536)
     = (GFARM_ERR_NO_ERROR, Some (3, 65536))"
proof -
  have t: "3 < length gfarm_netparam_type_table" "\<not> pt_boolean (gfarm_netparam_type_table ! 3)"
    "pt_name (gfarm_netparam_type_table ! 3) = ''file_read_size''"
    "\<forall>j < 3. pt_name (gfarm_netparam_type_table ! j) \<noteq> pt_name (gfarm_netparam_type_table ! 3)"
    by (auto simp: gfarm_netparam_type_table_def numeral_3_eq_3 less_Suc_eq)
  from param_value_roundtrip [OF t(1,4), of 65536] t(2,3) show ?thesis by simp
qed


theorem param_apply_first_match_witness:
  "\<exists>calls. gfarm_param_apply_long_by_name_addr [\<lparr>param_type_index = 2, pc_value = 8192, pc_hostspec = Some GFHS_ANY\<rparr>]
      None None (\<lambda>s i v. (0, s + v)) 0 = Some (hand_over (\<lambda>s i v. (0, s + v)) calls GFARM_ERR_NO_ERROR (0 :: int))
    \<and> \<lparr>param_type_index = 2, pc_value = 8192, pc_hostspec = Some GFHS_ANY\<rparr> \<in> set calls"
proof -
  let ?p = "\<lparr>param_type_index = 2, pc_value = 8192, pc_hostspec = Some GFHS_ANY\<rparr>"
  have "\<forall>p \<in> set [?p]. pc_hostspec p \<noteq> None \<and> 0 \<le> param_type_index p \<and> param_type_index p < 32" by simp
  from param_apply_first_match [OF this, of None None "\<lambda>s i v. (0, s + v)" "0 :: int"] show ?thesis
    by (auto simp: config_matches_def)
qed

theorem sockopt_apply_defined_witness:
  "\<exists>st. so_config_list st = [\<lparr>param_type_index = 4, pc_value = 1, pc_hostspec = Some GFHS_ANY\<rparr>]
     \<and> gfarm_sockopt_apply_by_name_addr (\<lambda>w fd l opt v. (None, w + v)) st 5 None None (0 :: int) \<noteq> None"
proof -
  have "case gfarm_sockopt_config_add (\<lambda>_. Some 6) True sockopt_state0 ''tcp_nodelay'' GFHS_ANY of
      Some (e, st) \<Rightarrow> so_config_list st = [\<lparr>param_type_index = 4, pc_value = 1, pc_hostspec = Some GFHS_ANY\<rparr>]
    | None \<Rightarrow> False" by code_simp
  then obtain e st where a: "gfarm_sockopt_config_add (\<lambda>_. Some 6) True sockopt_state0 ''tcp_nodelay'' GFHS_ANY = Some (e, st)"
    and l: "so_config_list st = [\<lparr>param_type_index = 4, pc_value = 1, pc_hostspec = Some GFHS_ANY\<rparr>]"
    by (auto split: option.splits)
  have "sockopt_reach st" using a by (rule sockopt_reach.config [OF sockopt_reach.start])
  from sockopt_apply_defined [OF this, of "\<lambda>w fd l opt v. (None, w + v)" 5 None None "0 :: int"] l
  show ?thesis by blast
qed

end
