(* ===== verification/Conn_Hash.thy ===== *)
theory Conn_Hash
  imports Hash_Table_Spec Gfarm_Error
begin

text \<open>
  \<open>gfarm/conn_hash.c\<close>: hash tables of connections, whose keys are a host name (compared
  without case), a port and a user name. Strings are the bytes in front of the
  terminating 0.

  A pointer to an entry is the key the entry holds: it does not change while the entry is in the
  table, and no other entry has an equal key. \<open>None\<close> is a call whose behaviour is undefined,
  because the sum of \<open>gfp_conn_hash_index\<close> overflows an \<open>int\<close> or is negative, which indexes in
  front of the table.
\<close>

record gfp_conn_hash_id =
  id_hostname :: "byte list"
  id_port :: int
  id_username :: "byte list"

definition gfp_conn_hash_index :: "gfp_conn_hash_id \<Rightarrow> int" where
  "gfp_conn_hash_index key =
     gfarm_hash_casefold (id_hostname key) + id_port key * 3
       + gfarm_hash_default (id_username key) * 5"

text \<open>\<open>strcasecmp\<close> in the C locale.\<close>

definition strcasecmp_equal :: "byte list \<Rightarrow> byte list \<Rightarrow> bool" where
  "strcasecmp_equal s1 s2 \<longleftrightarrow> map tolower s1 = map tolower s2"

definition gfp_conn_hash_equal :: "gfp_conn_hash_id \<Rightarrow> gfp_conn_hash_id \<Rightarrow> bool" where
  "gfp_conn_hash_equal id1 id2 \<longleftrightarrow>
     strcasecmp_equal (id_hostname id1) (id_hostname id2) \<and> id_port id1 = id_port id2
     \<and> id_username id1 = id_username id2"

definition conn_index_defined :: "gfp_conn_hash_id \<Rightarrow> bool" where
  "conn_index_defined key \<longleftrightarrow> 0 \<le> gfp_conn_hash_index key \<and> gfp_conn_hash_index key < 2 ^ 31"

type_synonym 'd conn_table = "(gfp_conn_hash_id, 'd) hash_table"

definition conn_entry ::
  "'d conn_table \<Rightarrow> gfp_conn_hash_id \<Rightarrow> (gfp_conn_hash_id, 'd) hash_entry option" where
  "conn_entry tab key = Option.bind (gfarm_hash_lookup tab key) (hash_at tab)"

definition gfp_conn_hash_hostname :: "gfp_conn_hash_id \<Rightarrow> byte list" where
  "gfp_conn_hash_hostname entry = id_hostname entry"

definition gfp_conn_hash_username :: "gfp_conn_hash_id \<Rightarrow> byte list" where
  "gfp_conn_hash_username entry = id_username entry"

definition gfp_conn_hash_port :: "gfp_conn_hash_id \<Rightarrow> int" where
  "gfp_conn_hash_port entry = id_port entry"

definition gfp_conn_hash_table_init ::
  "(u64 \<Rightarrow> bool) \<Rightarrow> 'd conn_table option \<Rightarrow> int \<Rightarrow> 'd conn_table option \<times> gfarm_error_t" where
  "gfp_conn_hash_table_init mal hashtabp hashtabsize =
     (case gfarm_hash_table_alloc mal hashtabsize gfp_conn_hash_index gfp_conn_hash_equal of
        None \<Rightarrow> (hashtabp, GFARM_ERR_NO_MEMORY)
      | Some hashtab \<Rightarrow> (Some hashtab, GFARM_ERR_NO_ERROR))"

text \<open>\<open>sizeof(struct gfp_conn_hash_id)\<close> is 24 (LP64).\<close>

abbreviation (input) sizeof_conn_hash_id :: int where "sizeof_conn_hash_id \<equiv> 24"

text \<open>The table is created by the first call that uses it.\<close>

definition conn_hash_ensure ::
  "(u64 \<Rightarrow> bool) \<Rightarrow> 'd conn_table option \<Rightarrow> int \<Rightarrow> 'd conn_table option \<times> gfarm_error_t" where
  "conn_hash_ensure mal hashtabp hashtabsize =
     (if hashtabp = None then gfp_conn_hash_table_init mal hashtabp hashtabsize
      else (hashtabp, GFARM_ERR_NO_ERROR))"

text \<open>
  \<open>duph\<close> and \<open>dupu\<close> are the outcomes of the two \<open>strdup\<close>s. The copies have the same bytes,
  so storing them in the key of the new entry does not change the key.
\<close>

definition gfp_conn_hash_enter ::
  "(u64 \<Rightarrow> bool) \<Rightarrow> bool \<Rightarrow> bool \<Rightarrow> 'd \<Rightarrow> 'd conn_table option \<Rightarrow> int \<Rightarrow> int
     \<Rightarrow> byte list \<Rightarrow> int \<Rightarrow> byte list
     \<Rightarrow> ('d conn_table option \<times> (gfarm_error_t + gfp_conn_hash_id \<times> bool)) option" where
  "gfp_conn_hash_enter mal duph dupu d0 hashtabp hashtabsize entrysize hostname port username =
     (case conn_hash_ensure mal hashtabp hashtabsize of
        (None, e) \<Rightarrow> Some (None, Inl e)
      | (Some tab, e) \<Rightarrow>
          let key = \<lparr>id_hostname = hostname, id_port = port, id_username = username\<rparr>
          in if \<not> conn_index_defined key then None
             else (case gfarm_hash_enter mal d0 tab key sizeof_conn_hash_id entrysize of
                     (tab1, None, created) \<Rightarrow> Some (Some tab1, Inl GFARM_ERR_NO_MEMORY)
                   | (tab1, Some pos, created) \<Rightarrow>
                       if created \<and> (\<not> duph \<or> \<not> dupu)
                       then Some (Some (fst (gfarm_hash_purge tab1 key)), Inl GFARM_ERR_NO_MEMORY)
                       else (case hash_at tab1 pos of
                               None \<Rightarrow> None
                             | Some entry \<Rightarrow>
                                 Some (Some tab1, Inr (gfarm_hash_entry_key entry, created)))))"

definition gfp_conn_hash_lookup ::
  "(u64 \<Rightarrow> bool) \<Rightarrow> 'd conn_table option \<Rightarrow> int \<Rightarrow> byte list \<Rightarrow> int \<Rightarrow> byte list
     \<Rightarrow> ('d conn_table option \<times> (gfarm_error_t + gfp_conn_hash_id)) option" where
  "gfp_conn_hash_lookup mal hashtabp hashtabsize hostname port username =
     (case conn_hash_ensure mal hashtabp hashtabsize of
        (None, e) \<Rightarrow> Some (None, Inl e)
      | (Some tab, e) \<Rightarrow>
          let key = \<lparr>id_hostname = hostname, id_port = port, id_username = username\<rparr>
          in if \<not> conn_index_defined key then None
             else (case conn_entry tab key of
                     None \<Rightarrow> Some (Some tab, Inl GFARM_ERR_NO_SUCH_OBJECT)
                   | Some entry \<Rightarrow> Some (Some tab, Inr (gfarm_hash_entry_key entry))))"

definition gfp_conn_hash_purge :: "'d conn_table \<Rightarrow> gfp_conn_hash_id \<Rightarrow> 'd conn_table" where
  "gfp_conn_hash_purge hashtab entry = fst (gfarm_hash_purge hashtab entry)"

definition gfp_conn_hash_iterator_purge ::
  "'d conn_table \<Rightarrow> hash_iterator \<Rightarrow> 'd conn_table \<times> hash_iterator" where
  "gfp_conn_hash_iterator_purge hashtab it =
     (let (tab', it', purged) = gfarm_hash_iterator_purge hashtab it in (tab', it'))"

subsection \<open>Keys\<close>

lemma conn_index_bound:
  assumes "0 \<le> id_port key" and "id_port key \<le> 65535"
  shows "conn_index_defined key"
  using assms hash_default_range [of "map tolower (id_hostname key)"]
    hash_default_range [of "id_username key"]
  by (simp add: conn_index_defined_def gfp_conn_hash_index_def hash_casefold_default)

interpretation hk_conn: hash_keys gfp_conn_hash_index gfp_conn_hash_equal
  by unfold_locales
    (auto simp: gfp_conn_hash_equal_def strcasecmp_equal_def gfp_conn_hash_index_def
      hash_casefold_default)

abbreviation conn_table_ok :: "'d conn_table \<Rightarrow> bool" where
  "conn_table_ok \<equiv> table_ok gfp_conn_hash_index gfp_conn_hash_equal"

lemma hash_find_entry: "hash_find tab key = map_option he_data (conn_entry tab key)"
proof -
  have "gfarm_hash_entry_data = (he_data :: ('k, 'd) hash_entry \<Rightarrow> 'd)" for x :: 'k and y :: 'd
    by (simp add: fun_eq_iff gfarm_hash_entry_data_def)
  then show ?thesis
    by (cases "gfarm_hash_lookup tab key")
      (simp_all add: hash_find_def conn_entry_def gfarm_hash_entry_data_def [abs_def])
qed

end
