(* ===== verification/Lru_Cache.thy ===== *)
theory Lru_Cache
  imports Gfarm_Prelude
begin

text \<open>
  \<open>gfutil/lru_cache.c\<close>: reference-counted entries on a doubly linked circular list, the most
  recently used one first. The entries are embedded in the objects that are cached, so the
  list works on pointers: an address is a number, \<open>lru_heap\<close> is what the entries at the
  addresses hold, and address 0 is the \<open>list_head\<close> inside the cache itself. \<open>NULL\<close> is \<open>None\<close>, and a
  function whose result is \<open>None\<close> has followed \<open>NULL\<close>, or has failed an assertion or called \<open>abort\<close>.
\<close>

subsection \<open>The operations\<close>

record lru_entry =
  le_next :: "nat option"
  le_prev :: "nat option"
  le_acquired :: int

record lru_cache =
  lru_heap :: "nat \<Rightarrow> lru_entry"
  free_cached_entries :: int

abbreviation list_head :: nat where "list_head \<equiv> 0"

definition set_next :: "nat \<Rightarrow> nat option \<Rightarrow> lru_cache \<Rightarrow> lru_cache" where
  "set_next p q c = c\<lparr>lru_heap := (lru_heap c)(p := (lru_heap c p)\<lparr>le_next := q\<rparr>)\<rparr>"

definition set_prev :: "nat \<Rightarrow> nat option \<Rightarrow> lru_cache \<Rightarrow> lru_cache" where
  "set_prev p q c = c\<lparr>lru_heap := (lru_heap c)(p := (lru_heap c p)\<lparr>le_prev := q\<rparr>)\<rparr>"

definition set_acquired :: "nat \<Rightarrow> int \<Rightarrow> lru_cache \<Rightarrow> lru_cache" where
  "set_acquired p n c = c\<lparr>lru_heap := (lru_heap c)(p := (lru_heap c p)\<lparr>le_acquired := n\<rparr>)\<rparr>"

text \<open>\<open>GFARM_LRU_CACHE_INITIALIZER\<close>: the head points at itself.\<close>

definition GFARM_LRU_CACHE_INITIALIZER :: "(nat \<Rightarrow> lru_entry) \<Rightarrow> lru_cache" where
  "GFARM_LRU_CACHE_INITIALIZER h =
     \<lparr>lru_heap = h(list_head := \<lparr>le_next = Some list_head, le_prev = Some list_head,
                                 le_acquired = 0\<rparr>),
      free_cached_entries = 0\<rparr>"

definition gfarm_lru_cache_link_entry :: "lru_cache \<Rightarrow> nat \<Rightarrow> lru_cache option" where
  "gfarm_lru_cache_link_entry c entry =
     (let c1 = set_next entry (le_next (lru_heap c list_head)) c;
          c2 = set_prev entry (Some list_head) c1
      in case le_next (lru_heap c2 list_head) of
           None \<Rightarrow> None
         | Some n \<Rightarrow> Some (set_next list_head (Some entry) (set_prev n (Some entry) c2)))"

definition gfarm_lru_cache_unlink_entry :: "lru_cache \<Rightarrow> nat \<Rightarrow> lru_cache option" where
  "gfarm_lru_cache_unlink_entry c entry =
     (case le_next (lru_heap c entry) of
        None \<Rightarrow> None
      | Some n \<Rightarrow>
          let c1 = set_prev n (le_prev (lru_heap c entry)) c
          in (case le_prev (lru_heap c1 entry) of
                None \<Rightarrow> None
              | Some p \<Rightarrow> Some (set_next p (le_next (lru_heap c1 entry)) c1)))"

definition gfarm_lru_cache_access_entry :: "lru_cache \<Rightarrow> nat \<Rightarrow> lru_cache option" where
  "gfarm_lru_cache_access_entry c entry =
     (case gfarm_lru_cache_unlink_entry c entry of
        None \<Rightarrow> None
      | Some c' \<Rightarrow> gfarm_lru_cache_link_entry c' entry)"

definition gfarm_lru_cache_add_entry :: "lru_cache \<Rightarrow> nat \<Rightarrow> lru_cache option" where
  "gfarm_lru_cache_add_entry c entry = gfarm_lru_cache_link_entry (set_acquired entry 1 c) entry"

definition gfarm_lru_cache_purge_entry :: "lru_cache \<Rightarrow> nat \<Rightarrow> lru_cache option" where
  "gfarm_lru_cache_purge_entry c entry =
     (case gfarm_lru_cache_unlink_entry c entry of
        None \<Rightarrow> None
      | Some c' \<Rightarrow> Some (set_prev entry None (set_next entry None c')))"

definition gfarm_lru_init_uncached_entry :: "lru_cache \<Rightarrow> nat \<Rightarrow> lru_cache" where
  "gfarm_lru_init_uncached_entry c entry =
     set_prev entry None (set_next entry None (set_acquired entry 1 c))"

definition gfarm_lru_cache_addref_entry :: "lru_cache \<Rightarrow> nat \<Rightarrow> lru_cache option" where
  "gfarm_lru_cache_addref_entry c entry =
     (let e = lru_heap c entry
      in if le_acquired e = 0 \<and> (le_prev e = None \<or> le_next e = None) then None
         else
           let c1 = (if le_acquired e = 0
                     then c\<lparr>free_cached_entries := free_cached_entries c - 1\<rparr> else c)
           in gfarm_lru_cache_access_entry
                (set_acquired entry (le_acquired (lru_heap c1 entry) + 1) c1) entry)"

definition gfarm_lru_cache_delref_entry :: "lru_cache \<Rightarrow> nat \<Rightarrow> (lru_cache \<times> bool) option" where
  "gfarm_lru_cache_delref_entry c entry =
     (let c1 = set_acquired entry (le_acquired (lru_heap c entry) - 1) c;
          e = lru_heap c1 entry
      in if le_acquired e \<le> 0
         then if le_acquired e < 0 then None
              else Some (if le_prev e \<noteq> None
                         then c1\<lparr>free_cached_entries := free_cached_entries c1 + 1\<rparr> else c1, True)
         else Some (c1, False))"

text \<open>
  The collection walks from the tail. \<open>dispose\<close> is the callback, with the state \<open>'s\<close> it
  works on; it does not touch the list.
\<close>

partial_function (option) lru_gc_loop ::
  "int \<Rightarrow> (nat \<Rightarrow> 's \<Rightarrow> 's) \<Rightarrow> nat option \<Rightarrow> lru_cache \<Rightarrow> 's \<Rightarrow> (lru_cache \<times> 's) option" where
  "lru_gc_loop free_target dispose entry c s =
     (if \<not> free_cached_entries c > free_target then Some (c, s)
      else case entry of
        None \<Rightarrow> None
      | Some p \<Rightarrow>
          (let prev = le_prev (lru_heap c p)
           in if p = list_head then None
              else if le_acquired (lru_heap c p) \<le> 0
              then (case gfarm_lru_cache_purge_entry c p of
                      None \<Rightarrow> None
                    | Some c1 \<Rightarrow>
                        lru_gc_loop free_target dispose prev
                          (c1\<lparr>free_cached_entries := free_cached_entries c1 - 1\<rparr>) (dispose p s))
              else lru_gc_loop free_target dispose prev c s))"

definition gfarm_lru_cache_gc ::
  "lru_cache \<Rightarrow> int \<Rightarrow> (nat \<Rightarrow> 's \<Rightarrow> 's) \<Rightarrow> 's \<Rightarrow> (lru_cache \<times> 's) option" where
  "gfarm_lru_cache_gc c free_target dispose s =
     lru_gc_loop free_target dispose (le_prev (lru_heap c list_head)) c s"

end
