(* ===== verification/Conn_Cache.thy ===== *)
theory Conn_Cache
  imports Conn_Hash Lru_Cache
begin

text \<open>
  \<open>gfarm/conn_cache.c\<close>: the cache of connections to servers. A connection is found by host, port
  and user in a hash table, is counted while it is used, and is kept when it is given back, up
  to a number of idle ones. A connection that has failed is purged: it leaves the table
  and the list, and is disposed when its last user gives it back.

  \<open>struct gfp_cached_connection\<close> begins with its \<open>struct gfarm_lru_entry\<close>, so the two have one
  address; \<open>cconns\<close> has the other fields of the structs at the addresses, and \<open>allocated\<close> the
  addresses \<open>malloc\<close> has given out and not got back. The callback \<open>dispose\<close> closes the connection it gets,
  in the world \<open>'w\<close>; as \<open>conn_cache.h\<close> requires, it frees the \<open>gfp_cached_connection\<close> too, which
  is written out here. \<open>None\<close> is undefined behaviour, a failed assertion or \<open>abort\<close>.
\<close>

record 'c cached_connection =
  cc_hash_entry :: "gfp_conn_hash_id option"
  cc_data :: "'c option"

record 'c conn_cache =
  lru_list :: lru_cache
  hashtab :: "nat conn_table option"
  cconns :: "nat \<Rightarrow> 'c cached_connection"
  allocated :: "nat set"
  cc_table_size :: int
  num_cache :: int

definition gfp_is_cached_connection :: "'c conn_cache \<Rightarrow> nat \<Rightarrow> bool" where
  "gfp_is_cached_connection cache connection \<longleftrightarrow> cc_hash_entry (cconns cache connection) \<noteq> None"

definition gfp_cached_connection_get_data :: "'c conn_cache \<Rightarrow> nat \<Rightarrow> 'c option" where
  "gfp_cached_connection_get_data cache connection = cc_data (cconns cache connection)"

definition gfp_cached_connection_set_data :: "'c conn_cache \<Rightarrow> nat \<Rightarrow> 'c option \<Rightarrow> 'c conn_cache" where
  "gfp_cached_connection_set_data cache connection p =
     cache\<lparr>cconns := (cconns cache)(connection := (cconns cache connection)\<lparr>cc_data := p\<rparr>)\<rparr>"

definition set_hash_entry :: "'c conn_cache \<Rightarrow> nat \<Rightarrow> gfp_conn_hash_id option \<Rightarrow> 'c conn_cache" where
  "set_hash_entry cache connection entry =
     cache\<lparr>cconns := (cconns cache)(connection := (cconns cache connection)\<lparr>cc_hash_entry := entry\<rparr>)\<rparr>"

definition gfp_cached_connection_hostname :: "'c conn_cache \<Rightarrow> nat \<Rightarrow> byte list option" where
  "gfp_cached_connection_hostname cache connection =
     map_option gfp_conn_hash_hostname (cc_hash_entry (cconns cache connection))"

definition gfp_cached_connection_username :: "'c conn_cache \<Rightarrow> nat \<Rightarrow> byte list option" where
  "gfp_cached_connection_username cache connection =
     map_option gfp_conn_hash_username (cc_hash_entry (cconns cache connection))"

definition gfp_cached_connection_port :: "'c conn_cache \<Rightarrow> nat \<Rightarrow> int option" where
  "gfp_cached_connection_port cache connection =
     map_option gfp_conn_hash_port (cc_hash_entry (cconns cache connection))"

text \<open>\<open>malp\<close> is what \<open>malloc\<close> returns for the struct: an address, or \<open>None\<close>.\<close>

definition gfp_uncached_connection_new ::
  "nat option \<Rightarrow> 'c conn_cache \<Rightarrow> 'c conn_cache \<times> (gfarm_error_t + nat)" where
  "gfp_uncached_connection_new malp cache =
     (case malp of
        None \<Rightarrow> (cache, Inl GFARM_ERR_NO_MEMORY)
      | Some p \<Rightarrow>
          (cache\<lparr>allocated := insert p (allocated cache),
                 cconns := (cconns cache)(p := \<lparr>cc_hash_entry = None, cc_data = None\<rparr>),
                 lru_list := gfarm_lru_init_uncached_entry (lru_list cache) p\<rparr>, Inr p))"

definition gfp_uncached_connection_dispose :: "'c conn_cache \<Rightarrow> nat \<Rightarrow> 'c conn_cache" where
  "gfp_uncached_connection_dispose cache connection =
     cache\<lparr>allocated := allocated cache - {connection}\<rparr>"

definition gfp_cached_connection_purge_from_cache ::
  "'c conn_cache \<Rightarrow> nat \<Rightarrow> 'c conn_cache option" where
  "gfp_cached_connection_purge_from_cache cache connection =
     (case cc_hash_entry (cconns cache connection) of
        None \<Rightarrow> Some cache
      | Some entry \<Rightarrow>
          (case (gfarm_lru_cache_purge_entry (lru_list cache) connection, hashtab cache) of
             (Some l, Some tab) \<Rightarrow>
               Some (set_hash_entry (cache\<lparr>lru_list := l, hashtab := Some (gfp_conn_hash_purge tab entry)\<rparr>)
                       connection None)
           | _ \<Rightarrow> None))"

text \<open>The store through \<open>gfarm_hash_entry_data(entry)\<close>.\<close>

definition conn_store :: "'d conn_table \<Rightarrow> gfp_conn_hash_id \<Rightarrow> 'd \<Rightarrow> 'd conn_table" where
  "conn_store tab entry d =
     (case gfarm_hash_lookup tab entry of None \<Rightarrow> tab | Some pos \<Rightarrow> hash_store tab pos d)"

text \<open>\<open>sizeof(connection)\<close> is that of a pointer; the new data block has no value yet.\<close>

abbreviation (input) sizeof_pointer :: int where "sizeof_pointer \<equiv> 8"

definition gfp_uncached_connection_enter_cache ::
  "(u64 \<Rightarrow> bool) \<Rightarrow> bool \<Rightarrow> bool \<Rightarrow> byte list \<Rightarrow> 'c conn_cache \<Rightarrow> nat \<Rightarrow> byte list \<Rightarrow> int
     \<Rightarrow> ('c conn_cache \<times> gfarm_error_t) option" where
  "gfp_uncached_connection_enter_cache mal duph dupu username cache connection hostname port =
     (if gfp_is_cached_connection cache connection then None
      else case gfp_conn_hash_enter mal duph dupu 0 (hashtab cache) (cc_table_size cache)
                  sizeof_pointer hostname port username of
        None \<Rightarrow> None
      | Some (t, Inl e) \<Rightarrow> Some (cache\<lparr>hashtab := t\<rparr>, e)
      | Some (t, Inr (entry, created)) \<Rightarrow>
          if \<not> created then Some (cache\<lparr>hashtab := t\<rparr>, GFARM_ERR_ALREADY_EXISTS)
          else (case gfarm_lru_cache_link_entry (lru_list cache) connection of
                  None \<Rightarrow> None
                | Some l \<Rightarrow>
                    Some (set_hash_entry
                            (cache\<lparr>hashtab := map_option (\<lambda>tab. conn_store tab entry connection) t,
                                   lru_list := l\<rparr>) connection (Some entry),
                          GFARM_ERR_NO_ERROR)))"

definition gfp_cached_connection_used :: "'c conn_cache \<Rightarrow> nat \<Rightarrow> 'c conn_cache option" where
  "gfp_cached_connection_used cache connection =
     (if \<not> gfp_is_cached_connection cache connection then Some cache
      else map_option (\<lambda>l. cache\<lparr>lru_list := l\<rparr>)
             (gfarm_lru_cache_access_entry (lru_list cache) connection))"

text \<open>The callback of the collection; its state is the cache (but for the list) and the world.\<close>

definition gfp_cached_connection_gc_entry ::
  "('c option \<Rightarrow> 'w \<Rightarrow> 'w) \<Rightarrow> nat \<Rightarrow> ('c conn_cache \<times> 'w) option \<Rightarrow> ('c conn_cache \<times> 'w) option" where
  "gfp_cached_connection_gc_entry dispose connection closure =
     (case closure of
        None \<Rightarrow> None
      | Some (cache, w) \<Rightarrow>
          (case (cc_hash_entry (cconns cache connection), hashtab cache) of
             (Some entry, Some tab) \<Rightarrow>
               Some (gfp_uncached_connection_dispose
                       (cache\<lparr>hashtab := Some (gfp_conn_hash_purge tab entry)\<rparr>) connection,
                     dispose (cc_data (cconns cache connection)) w)
           | _ \<Rightarrow> None))"

definition gfp_cached_connection_gc_internal ::
  "('c option \<Rightarrow> 'w \<Rightarrow> 'w) \<Rightarrow> 'c conn_cache \<Rightarrow> int \<Rightarrow> 'w \<Rightarrow> ('c conn_cache \<times> 'w) option" where
  "gfp_cached_connection_gc_internal dispose cache free_target w =
     (case gfarm_lru_cache_gc (lru_list cache) free_target
             (gfp_cached_connection_gc_entry dispose) (Some (cache, w)) of
        Some (l, Some (cache', w')) \<Rightarrow> Some (cache'\<lparr>lru_list := l\<rparr>, w')
      | _ \<Rightarrow> None)"

definition gfp_cached_connection_gc_all ::
  "('c option \<Rightarrow> 'w \<Rightarrow> 'w) \<Rightarrow> 'c conn_cache \<Rightarrow> 'w \<Rightarrow> ('c conn_cache \<times> 'w) option" where
  "gfp_cached_connection_gc_all dispose cache w = gfp_cached_connection_gc_internal dispose cache 0 w"

definition gfp_cached_connection_acquire ::
  "(u64 \<Rightarrow> bool) \<Rightarrow> bool \<Rightarrow> bool \<Rightarrow> nat option \<Rightarrow> byte list \<Rightarrow> 'c conn_cache \<Rightarrow> byte list \<Rightarrow> int
     \<Rightarrow> ('c conn_cache \<times> (gfarm_error_t + nat \<times> bool)) option" where
  "gfp_cached_connection_acquire mal duph dupu malp username cache canonical_hostname port =
     (case gfp_conn_hash_enter mal duph dupu 0 (hashtab cache) (cc_table_size cache)
             sizeof_pointer canonical_hostname port username of
        None \<Rightarrow> None
      | Some (t, Inl e) \<Rightarrow> Some (cache\<lparr>hashtab := t\<rparr>, Inl e)
      | Some (t, Inr (entry, False)) \<Rightarrow>
          (case Option.bind t (\<lambda>tab. conn_entry tab entry) of
             None \<Rightarrow> None
           | Some he \<Rightarrow>
               let connection = gfarm_hash_entry_data he
               in map_option
                    (\<lambda>l. (cache\<lparr>hashtab := t, lru_list := l\<rparr>, Inr (connection, False)))
                    (gfarm_lru_cache_addref_entry (lru_list cache) connection))
      | Some (t, Inr (entry, True)) \<Rightarrow>
          (case malp of
             None \<Rightarrow>
               Some (cache\<lparr>hashtab := map_option (\<lambda>tab. gfp_conn_hash_purge tab entry) t\<rparr>,
                     Inl GFARM_ERR_NO_MEMORY)
           | Some connection \<Rightarrow>
               (case gfarm_lru_cache_add_entry (lru_list cache) connection of
                  None \<Rightarrow> None
                | Some l \<Rightarrow>
                    Some (cache\<lparr>hashtab := map_option (\<lambda>tab. conn_store tab entry connection) t,
                                lru_list := l, allocated := insert connection (allocated cache),
                                cconns := (cconns cache)(connection :=
                                  \<lparr>cc_hash_entry = Some entry, cc_data = None\<rparr>)\<rparr>,
                          Inr (connection, True)))))"

definition gfp_cached_or_uncached_connection_free ::
  "('c option \<Rightarrow> 'w \<Rightarrow> 'w) \<Rightarrow> 'c conn_cache \<Rightarrow> nat \<Rightarrow> 'w \<Rightarrow> ('c conn_cache \<times> 'w) option" where
  "gfp_cached_or_uncached_connection_free dispose cache connection w =
     (case gfarm_lru_cache_delref_entry (lru_list cache) connection of
        None \<Rightarrow> None
      | Some (l, False) \<Rightarrow> Some (cache\<lparr>lru_list := l\<rparr>, w)
      | Some (l, True) \<Rightarrow>
          let cache1 = cache\<lparr>lru_list := l\<rparr>
          in if \<not> gfp_is_cached_connection cache1 connection
             then Some (gfp_uncached_connection_dispose cache1 connection,
                        dispose (cc_data (cconns cache1 connection)) w)
             else gfp_cached_connection_gc_internal dispose cache1 (num_cache cache1) w)"

text \<open>The loop of \<open>terminate\<close>, over the entries of the hash table.\<close>

partial_function (option) conn_terminate_loop ::
  "('c option \<Rightarrow> 'w \<Rightarrow> 'w) \<Rightarrow> 'c conn_cache \<Rightarrow> nat conn_table \<Rightarrow> hash_iterator \<Rightarrow> 'w
     \<Rightarrow> ('c conn_cache \<times> 'w) option" where
  "conn_terminate_loop dispose cache tab it w =
     (let (at_end, it1) = gfarm_hash_iterator_is_end tab it
      in if at_end then Some (cache\<lparr>hashtab := None\<rparr>, w)
         else (case gfarm_hash_iterator_access tab it1 of
                 (None, it2) \<Rightarrow> None
               | (Some entry, it2) \<Rightarrow>
                   let connection = gfarm_hash_entry_data entry
                   in (case gfarm_lru_cache_purge_entry (lru_list cache) connection of
                         None \<Rightarrow> None
                       | Some l \<Rightarrow>
                           let (tab1, it3) = gfp_conn_hash_iterator_purge tab it2
                           in conn_terminate_loop dispose
                                (gfp_uncached_connection_dispose (cache\<lparr>lru_list := l\<rparr>) connection)
                                tab1 it3 (dispose (cc_data (cconns cache connection)) w))))"

definition gfp_cached_connection_terminate ::
  "('c option \<Rightarrow> 'w \<Rightarrow> 'w) \<Rightarrow> 'c conn_cache \<Rightarrow> 'w \<Rightarrow> ('c conn_cache \<times> 'w) option" where
  "gfp_cached_connection_terminate dispose cache w =
     (if hashtab cache = None then Some (cache, w)
      else case gfp_cached_connection_gc_all dispose cache w of
             None \<Rightarrow> None
           | Some (cache1, w1) \<Rightarrow>
               (case hashtab cache1 of
                  None \<Rightarrow> None
                | Some tab \<Rightarrow>
                    conn_terminate_loop dispose cache1 tab (gfarm_hash_iterator_begin tab) w1))"

text \<open>\<open>GFP_CONN_CACHE_INITIALIZER\<close>: an empty list and no table yet.\<close>

definition GFP_CONN_CACHE_INITIALIZER ::
  "(nat \<Rightarrow> lru_entry) \<Rightarrow> (nat \<Rightarrow> 'c cached_connection) \<Rightarrow> int \<Rightarrow> int \<Rightarrow> 'c conn_cache" where
  "GFP_CONN_CACHE_INITIALIZER h cs tabsize num =
     \<lparr>lru_list = GFARM_LRU_CACHE_INITIALIZER h, hashtab = None, cconns = cs, allocated = {},
      cc_table_size = tabsize, num_cache = num\<rparr>"

end
