(* ===== verification/Linked_Ring.thy ===== *)
theory Linked_Ring
  imports Main
begin

text \<open>
  Doubly linked lists in a store, as \<open>gfutil/lru_cache.c\<close> and \<open>gfutil/gfevent.c\<close> keep them: circular, with a
  header. An address is a number, \<open>nxt\<close> and \<open>prv\<close> say what the pointers at an address hold, \<open>None\<close> being \<open>NULL\<close>.
\<close>

text \<open>\<open>ring nxt prv p xs q\<close>: from \<open>p\<close>, whose own back pointer is not looked at, the addresses \<open>xs\<close> follow in
  both directions, and then \<open>q\<close>.\<close>

fun ring :: "('a \<Rightarrow> 'a option) \<Rightarrow> ('a \<Rightarrow> 'a option) \<Rightarrow> 'a \<Rightarrow> 'a list \<Rightarrow> 'a \<Rightarrow> bool" where
  "ring nxt prv p [] q \<longleftrightarrow> nxt p = Some q \<and> prv q = Some p"
| "ring nxt prv p (x # xs) q \<longleftrightarrow> nxt p = Some x \<and> prv x = Some p \<and> ring nxt prv x xs q"

lemma ring_append: "ring nxt prv p (xs @ x # ys) q \<longleftrightarrow> ring nxt prv p xs x \<and> ring nxt prv x ys q"
  by (induction xs arbitrary: p) auto

lemma ring_first: "ring nxt prv p xs q \<Longrightarrow> nxt p = Some (hd (xs @ [q]))"
  by (cases xs) auto

lemma ring_last: "ring nxt prv p xs q \<Longrightarrow> prv q = Some (last (p # xs))"
  by (induction xs arbitrary: p) auto

lemma ring_cong:
  "ring nxt prv p xs q \<Longrightarrow> (\<And>x. x \<in> set (p # xs) \<Longrightarrow> nxt' x = nxt x) \<Longrightarrow>
     (\<And>x. x \<in> set (xs @ [q]) \<Longrightarrow> prv' x = prv x) \<Longrightarrow> ring nxt' prv' p xs q"
  by (induction xs arbitrary: p) auto

lemma ring_remove:
  assumes "ring nxt prv p as x" and "ring nxt prv x bs q" and "distinct (p # as @ x # bs)"
    and "q \<notin> set (as @ x # bs)"
    and "\<And>y. y \<noteq> x \<Longrightarrow> nxt' y = (if y = last (p # as) then Some (hd (bs @ [q])) else nxt y)"
    and "\<And>y. y \<noteq> x \<Longrightarrow> prv' y = (if y = hd (bs @ [q]) then Some (last (p # as)) else prv y)"
  shows "ring nxt' prv' p (as @ bs) q"
  using assms
proof (induction as arbitrary: p)
  case Nil
  show ?case
  proof (cases bs)
    case Nil
    with Nil.prems show ?thesis by auto
  next
    case (Cons b bs')
    have "ring nxt' prv' b bs' q"
    proof (rule ring_cong [where nxt = nxt and prv = prv])
      fix y
      show "nxt' y = nxt y" if y: "y \<in> set (b # bs')"
      proof -
        have "y \<noteq> x" "y \<noteq> p" using y Nil.prems(3) Cons by auto
        then show ?thesis using Nil.prems(5) by simp
      qed
      show "prv' y = prv y" if y: "y \<in> set (bs' @ [q])"
      proof -
        have "y \<noteq> x" "y \<noteq> b" using y Nil.prems(3,4) Cons by auto
        then show ?thesis using Nil.prems(6) Cons by simp
      qed
    qed (use Nil.prems Cons in simp)
    with Nil.prems Cons show ?thesis by auto
  qed
next
  case (Cons a as)
  have "ring nxt' prv' a (as @ bs) q"
  proof (rule Cons.IH)
    fix y assume "y \<noteq> x"
    with Cons.prems(5,6) show
      "nxt' y = (if y = last (a # as) then Some (hd (bs @ [q])) else nxt y)"
      "prv' y = (if y = hd (bs @ [q]) then Some (last (a # as)) else prv y)"
      by simp_all
  qed (use Cons.prems in auto)
  moreover have "hd (bs @ [q]) \<noteq> a" using Cons.prems(3,4) by (cases bs) auto
  moreover have "last (a # as) \<noteq> p" using Cons.prems(3) last_in_set [of "a # as"] by auto
  ultimately show ?case using Cons.prems by auto
qed

lemma ring_insert:
  assumes "ring nxt prv p (as @ bs) q" and "x \<notin> set (p # as @ bs @ [q])" and "distinct (p # as @ bs)"
    and "q \<notin> set (as @ bs)"
    and "\<And>y. nxt' y = (if y = last (p # as) then Some x else if y = x then Some (hd (bs @ [q])) else nxt y)"
    and "\<And>y. prv' y = (if y = hd (bs @ [q]) then Some x else if y = x then Some (last (p # as)) else prv y)"
  shows "ring nxt' prv' p (as @ x # bs) q"
  using assms
proof (induction as arbitrary: p)
  case Nil
  show ?case
  proof (cases bs)
    case Nil
    with Nil.prems show ?thesis by simp
  next
    case (Cons b bs')
    have "ring nxt' prv' b bs' q"
    proof (rule ring_cong [where nxt = nxt and prv = prv])
      fix y
      show "nxt' y = nxt y" if y: "y \<in> set (b # bs')"
      proof -
        have "y \<noteq> x" "y \<noteq> p" using y Nil.prems(2,3) Cons by auto
        then show ?thesis using Nil.prems(5) by simp
      qed
      show "prv' y = prv y" if y: "y \<in> set (bs' @ [q])"
      proof -
        have "y \<noteq> x" "y \<noteq> b" using y Nil.prems(2-4) Cons by auto
        then show ?thesis using Nil.prems(6) Cons by simp
      qed
    qed (use Nil.prems Cons in simp)
    moreover have "nxt' p = Some x" "nxt' x = Some b" "prv' x = Some p" "prv' b = Some x"
      using Nil.prems(2,5,6) Cons by simp_all
    ultimately show ?thesis unfolding Cons append_Nil ring.simps by blast
  qed
next
  case (Cons a as)
  have "ring nxt' prv' a (as @ x # bs) q"
  proof (rule Cons.IH)
    fix y
    show "nxt' y = (if y = last (a # as) then Some x else if y = x then Some (hd (bs @ [q])) else nxt y)"
      using Cons.prems(5) by simp
    show "prv' y = (if y = hd (bs @ [q]) then Some x else if y = x then Some (last (a # as)) else prv y)"
      using Cons.prems(6) by simp
  qed (use Cons.prems in auto)
  moreover have "hd (bs @ [q]) \<noteq> a" using Cons.prems(3,4) by (cases bs) auto
  moreover have "last (a # as) \<noteq> p" using Cons.prems(3) last_in_set [of "a # as"] by auto
  moreover have "x \<noteq> a" "x \<noteq> p" using Cons.prems(2) by auto
  ultimately have "nxt' p = Some a" "prv' a = Some p" using Cons.prems(1) Cons.prems(5) [of p] Cons.prems(6) [of a] by auto
  with \<open>ring nxt' prv' a (as @ x # bs) q\<close> show ?case by simp
qed

end
