(* ===== verification/Lru_Cache_Spec.thy ===== *)
theory Lru_Cache_Spec
  imports Lru_Cache Linked_Ring
begin

text \<open>
  What the LRU cache promises. The entries on the doubly linked list are a list of addresses
  (\<open>lru_rep\<close>), each operation moves, adds or takes away one address of it, and the counter is the
  number of entries without a user. On top of that, an abstract cache (an order, reference
  counts, and the entries that were purged while in use) and the proof that any sequence of
  permitted operations on the pointers does what the abstract one says.
\<close>

subsection \<open>The list in the store\<close>

text \<open>\<open>dll h p xs q\<close>: from \<open>p\<close> the entries \<open>xs\<close> follow in both directions, and then \<open>q\<close>.\<close>

abbreviation dll :: "(nat \<Rightarrow> lru_entry) \<Rightarrow> nat \<Rightarrow> nat list \<Rightarrow> nat \<Rightarrow> bool" where
  "dll h \<equiv> ring (\<lambda>p. le_next (h p)) (\<lambda>p. le_prev (h p))"

definition free_of :: "lru_cache \<Rightarrow> nat list \<Rightarrow> nat list" where
  "free_of c xs = filter (\<lambda>x. le_acquired (lru_heap c x) = 0) xs"

text \<open>
  \<open>lru_rep c xs\<close>: the cache holds the entries \<open>xs\<close>, most recently used first, with
  nonnegative counts, and counts the free ones among them.
\<close>

definition lru_rep :: "lru_cache \<Rightarrow> nat list \<Rightarrow> bool" where
  "lru_rep c xs \<longleftrightarrow> distinct (list_head # xs) \<and> dll (lru_heap c) list_head xs list_head
     \<and> (\<forall>x \<in> set xs. 0 \<le> le_acquired (lru_heap c x))
     \<and> free_cached_entries c = int (length (free_of c xs))"

lemmas dll_append = ring_append [where nxt = "\<lambda>p. le_next (h p)" and prv = "\<lambda>p. le_prev (h p)" for h :: "nat \<Rightarrow> lru_entry"]
lemmas dll_first = ring_first [where nxt = "\<lambda>p. le_next (h p)" and prv = "\<lambda>p. le_prev (h p)" for h :: "nat \<Rightarrow> lru_entry"]
lemmas dll_last = ring_last [where nxt = "\<lambda>p. le_next (h p)" and prv = "\<lambda>p. le_prev (h p)" for h :: "nat \<Rightarrow> lru_entry"]
lemmas dll_cong = ring_cong [where nxt = "\<lambda>p. le_next (h p)" and prv = "\<lambda>p. le_prev (h p)"
    and nxt' = "\<lambda>p. le_next (h' p)" and prv' = "\<lambda>p. le_prev (h' p)" for h h' :: "nat \<Rightarrow> lru_entry"]
lemmas dll_remove = ring_remove [where nxt = "\<lambda>p. le_next (h p)" and prv = "\<lambda>p. le_prev (h p)"
    and nxt' = "\<lambda>p. le_next (h' p)" and prv' = "\<lambda>p. le_prev (h' p)" for h h' :: "nat \<Rightarrow> lru_entry"]
lemmas dll_insert = ring_insert [where nxt = "\<lambda>p. le_next (h p)" and prv = "\<lambda>p. le_prev (h p)" and as = "[]"
    and nxt' = "\<lambda>p. le_next (h' p)" and prv' = "\<lambda>p. le_prev (h' p)" for h h' :: "nat \<Rightarrow> lru_entry", unfolded append_Nil last_ConsL [OF refl]]

subsection \<open>Linking and unlinking\<close>

lemma set_fields [simp]:
  "lru_heap (set_next p q c) y = (lru_heap c y)\<lparr>le_next := (if y = p then q else le_next (lru_heap c y))\<rparr>"
  "lru_heap (set_prev p q c) y = (lru_heap c y)\<lparr>le_prev := (if y = p then q else le_prev (lru_heap c y))\<rparr>"
  "lru_heap (set_acquired p n c) y
     = (lru_heap c y)\<lparr>le_acquired := (if y = p then n else le_acquired (lru_heap c y))\<rparr>"
  "free_cached_entries (set_next p q c) = free_cached_entries c"
  "free_cached_entries (set_prev p q c) = free_cached_entries c"
  "free_cached_entries (set_acquired p n c) = free_cached_entries c"
  by (simp_all add: set_next_def set_prev_def set_acquired_def)

text \<open>Unlinking a linked entry.\<close>

lemma unlink_spec:
  assumes "distinct (list_head # as @ x # bs)"
    and "dll (lru_heap c) list_head (as @ x # bs) list_head"
  shows "\<exists>c'. gfarm_lru_cache_unlink_entry c x = Some c'
     \<and> dll (lru_heap c') list_head (as @ bs) list_head
     \<and> (\<forall>y. le_acquired (lru_heap c' y) = le_acquired (lru_heap c y))
     \<and> (\<forall>y. y \<notin> set (list_head # as @ bs) \<longrightarrow> lru_heap c' y = lru_heap c y)
     \<and> free_cached_entries c' = free_cached_entries c"
proof -
  let ?n = "hd (bs @ [list_head])" and ?p = "last (list_head # as)"
  from assms(2) have d: "dll (lru_heap c) list_head as x" "dll (lru_heap c) x bs list_head"
    by (simp_all add: dll_append)
  have n: "le_next (lru_heap c x) = Some ?n" by (rule dll_first [OF d(2)])
  have p: "le_prev (lru_heap c x) = Some ?p" by (rule dll_last [OF d(1)])
  have "?n \<noteq> x" using assms(1) by (cases bs) auto
  have "?p \<noteq> x" using assms(1) last_in_set [of "list_head # as"] by auto
  let ?c1 = "set_prev ?n (Some ?p) c"
  let ?c' = "set_next ?p (Some ?n) ?c1"
  have u: "gfarm_lru_cache_unlink_entry c x = Some ?c'"
    using n p \<open>?n \<noteq> x\<close> \<open>?p \<noteq> x\<close> by (simp add: gfarm_lru_cache_unlink_entry_def Let_def)
  have "dll (lru_heap ?c') list_head (as @ bs) list_head"
    by (rule dll_remove [OF d]) (use assms(1) in auto)
  moreover have "\<forall>y. y \<notin> set (list_head # as @ bs) \<longrightarrow> lru_heap ?c' y = lru_heap c y"
    using last_in_set [of "list_head # as"] by (cases bs) auto
  ultimately show ?thesis using u by simp
qed

lemma link_spec:
  assumes "distinct (list_head # x # xs)" and "dll (lru_heap c) list_head xs list_head"
  shows "\<exists>c'. gfarm_lru_cache_link_entry c x = Some c'
     \<and> dll (lru_heap c') list_head (x # xs) list_head
     \<and> (\<forall>y. le_acquired (lru_heap c' y) = le_acquired (lru_heap c y))
     \<and> (\<forall>y. y \<notin> set (list_head # x # xs) \<longrightarrow> lru_heap c' y = lru_heap c y)
     \<and> free_cached_entries c' = free_cached_entries c"
proof -
  let ?n = "hd (xs @ [list_head])"
  have n: "le_next (lru_heap c list_head) = Some ?n" by (rule dll_first [OF assms(2)])
  let ?c2 = "set_prev x (Some list_head) (set_next x (Some ?n) c)"
  let ?c' = "set_next list_head (Some x) (set_prev ?n (Some x) ?c2)"
  have "?n \<noteq> x" using assms(1) by (cases xs) auto
  have u: "gfarm_lru_cache_link_entry c x = Some ?c'"
    using n assms(1) by (simp add: gfarm_lru_cache_link_entry_def Let_def)
  have "dll (lru_heap ?c') list_head (x # xs) list_head"
    by (rule dll_insert [OF assms(2)]) (use assms(1) \<open>?n \<noteq> x\<close> in auto)
  moreover have "\<forall>y. y \<notin> set (list_head # x # xs) \<longrightarrow> lru_heap ?c' y = lru_heap c y"
    by (cases xs) auto
  ultimately show ?thesis using u by simp
qed

subsection \<open>What the operations do to the list\<close>

definition refs :: "lru_cache \<Rightarrow> nat \<Rightarrow> int" where
  "refs c x = le_acquired (lru_heap c x)"

lemma free_of_refs: "free_of c xs = filter (\<lambda>x. refs c x = 0) xs"
  by (simp add: free_of_def refs_def)

text \<open>\<open>same_outside\<close>: entries that are not on the list are left alone.\<close>

definition same_outside :: "nat list \<Rightarrow> lru_cache \<Rightarrow> lru_cache \<Rightarrow> bool" where
  "same_outside xs c c' \<longleftrightarrow> (\<forall>y. y \<notin> set (list_head # xs) \<longrightarrow> lru_heap c' y = lru_heap c y)"

lemma lru_repI:
  "distinct (list_head # xs) \<Longrightarrow> dll (lru_heap c) list_head xs list_head \<Longrightarrow>
     (\<And>x. x \<in> set xs \<Longrightarrow> 0 \<le> refs c x) \<Longrightarrow>
     free_cached_entries c = int (length (filter (\<lambda>x. refs c x = 0) xs)) \<Longrightarrow> lru_rep c xs"
  by (simp add: lru_rep_def free_of_refs refs_def)

lemma lru_repD:
  assumes "lru_rep c xs"
  shows "distinct (list_head # xs)" and "dll (lru_heap c) list_head xs list_head"
    and "x \<in> set xs \<Longrightarrow> 0 \<le> refs c x"
    and "free_cached_entries c = int (length (filter (\<lambda>x. refs c x = 0) xs))"
  using assms by (simp_all add: lru_rep_def free_of_refs refs_def)

lemma remove1_split: "distinct (as @ x # bs) \<Longrightarrow> remove1 x (as @ x # bs) = as @ bs"
  by (simp add: remove1_append)

lemma length_filter_remove1:
  "x \<in> set xs \<Longrightarrow> distinct xs \<Longrightarrow>
     length (filter P xs) = length (filter P (remove1 x xs)) + (if P x then 1 else 0)"
  by (induction xs) auto

lemma filter_upd:
  "x \<notin> set xs \<Longrightarrow> filter (\<lambda>y. (f(x := v)) y = 0) xs = filter (\<lambda>y. f y = 0) xs"
  by (rule filter_cong) auto

lemma init_rep: "lru_rep (GFARM_LRU_CACHE_INITIALIZER h) []"
  by (simp add: GFARM_LRU_CACHE_INITIALIZER_def lru_rep_def free_of_def)

lemma refs_set_acquired [simp]: "refs (set_acquired x n c) = (refs c)(x := n)"
  by (simp add: refs_def fun_eq_iff)

lemma refs_count [simp]: "refs (c\<lparr>free_cached_entries := n\<rparr>) = refs c"
  by (simp add: refs_def fun_eq_iff)

lemma dll_set_acquired [simp]:
  "dll (lru_heap (set_acquired x n c)) p xs q = dll (lru_heap c) p xs q"
  by (induction xs arbitrary: p) simp_all

lemma access_spec:
  assumes "distinct (list_head # xs)" and "dll (lru_heap c) list_head xs list_head"
    and "x \<in> set xs"
  shows "\<exists>c'. gfarm_lru_cache_access_entry c x = Some c'
     \<and> dll (lru_heap c') list_head (x # remove1 x xs) list_head
     \<and> refs c' = refs c \<and> same_outside xs c c' \<and> free_cached_entries c' = free_cached_entries c"
proof -
  obtain as bs where xs: "xs = as @ x # bs" using split_list [OF assms(3)] by blast
  have d: "distinct (list_head # as @ x # bs)" using assms(1) xs by simp
  from unlink_spec [OF d] assms(2) xs obtain c1 where
    1: "gfarm_lru_cache_unlink_entry c x = Some c1" "dll (lru_heap c1) list_head (as @ bs) list_head"
      "\<forall>y. le_acquired (lru_heap c1 y) = le_acquired (lru_heap c y)"
      "\<forall>y. y \<notin> set (list_head # as @ bs) \<longrightarrow> lru_heap c1 y = lru_heap c y"
      "free_cached_entries c1 = free_cached_entries c" by blast
  have "distinct (list_head # x # as @ bs)" using d by auto
  from link_spec [OF this 1(2)] obtain c2 where
    2: "gfarm_lru_cache_link_entry c1 x = Some c2" "dll (lru_heap c2) list_head (x # as @ bs) list_head"
      "\<forall>y. le_acquired (lru_heap c2 y) = le_acquired (lru_heap c1 y)"
      "\<forall>y. y \<notin> set (list_head # x # as @ bs) \<longrightarrow> lru_heap c2 y = lru_heap c1 y"
      "free_cached_entries c2 = free_cached_entries c1" by blast
  have "remove1 x xs = as @ bs" using d xs by (simp add: remove1_append)
  moreover have "refs c2 = refs c" using 1(3) 2(3) by (simp add: refs_def fun_eq_iff)
  moreover have "same_outside xs c c2" using 1(4) 2(4) xs by (simp add: same_outside_def)
  ultimately show ?thesis using 1 2 by (simp add: gfarm_lru_cache_access_entry_def)
qed

lemma used_rep:
  assumes "lru_rep c xs" and "x \<in> set xs"
  shows "\<exists>c'. gfarm_lru_cache_access_entry c x = Some c' \<and> lru_rep c' (x # remove1 x xs)
     \<and> refs c' = refs c \<and> same_outside xs c c'"
proof -
  note r = lru_repD [OF assms(1)]
  from access_spec [OF r(1,2) assms(2)] obtain c' where
    c: "gfarm_lru_cache_access_entry c x = Some c'"
      "dll (lru_heap c') list_head (x # remove1 x xs) list_head" "refs c' = refs c"
      "same_outside xs c c'" "free_cached_entries c' = free_cached_entries c" by blast
  have d: "distinct xs" using r(1) by simp
  have "x \<noteq> list_head" using r(1) assms(2) by (metis distinct.simps(2))
  have "lru_rep c' (x # remove1 x xs)"
  proof (rule lru_repI [OF _ c(2)])
    show "distinct (list_head # x # remove1 x xs)"
      using r(1) \<open>x \<noteq> list_head\<close> by (auto dest: notin_set_remove1)
    show "0 \<le> refs c' y" if "y \<in> set (x # remove1 x xs)" for y
      using that assms(2) c(3) r(3) set_remove1_subset [of x xs] by auto
    show "free_cached_entries c' = int (length (filter (\<lambda>y. refs c' y = 0) (x # remove1 x xs)))"
      using c(3,5) r(4) length_filter_remove1 [OF assms(2) d, of "\<lambda>y. refs c y = 0"] by simp
  qed
  with c show ?thesis by blast
qed

lemma add_rep:
  assumes "lru_rep c xs" and "x \<notin> set (list_head # xs)"
  shows "\<exists>c'. gfarm_lru_cache_add_entry c x = Some c' \<and> lru_rep c' (x # xs)
     \<and> refs c' = (refs c)(x := 1) \<and> same_outside (x # xs) c c'"
proof -
  note r = lru_repD [OF assms(1)]
  have d: "distinct (list_head # x # xs)" using r(1) assms(2) by auto
  from link_spec [OF d, of "set_acquired x 1 c"] r(2) obtain c' where
    c: "gfarm_lru_cache_link_entry (set_acquired x 1 c) x = Some c'"
      "dll (lru_heap c') list_head (x # xs) list_head"
      "\<forall>y. le_acquired (lru_heap c' y) = le_acquired (lru_heap (set_acquired x 1 c) y)"
      "\<forall>y. y \<notin> set (list_head # x # xs) \<longrightarrow> lru_heap c' y = lru_heap (set_acquired x 1 c) y"
      "free_cached_entries c' = free_cached_entries c" by auto
  have refs: "refs c' = (refs c)(x := 1)" using c(3) by (simp add: refs_def fun_eq_iff)
  have "lru_rep c' (x # xs)"
  proof (rule lru_repI [OF d c(2)])
    show "0 \<le> refs c' y" if "y \<in> set (x # xs)" for y using that refs r(3) by auto
    show "free_cached_entries c' = int (length (filter (\<lambda>y. refs c' y = 0) (x # xs)))"
      using assms(2) c(5) r(4) filter_upd [of x xs "refs c" 1] by (simp add: refs)
  qed
  moreover have "same_outside (x # xs) c c'" using c(4) by (simp add: same_outside_def)
  ultimately show ?thesis using c(1) refs by (simp add: gfarm_lru_cache_add_entry_def)
qed

lemma addref_rep:
  assumes "lru_rep c xs" and "x \<in> set xs"
  shows "\<exists>c'. gfarm_lru_cache_addref_entry c x = Some c' \<and> lru_rep c' (x # remove1 x xs)
     \<and> refs c' = (refs c)(x := refs c x + 1) \<and> same_outside xs c c'"
proof -
  note r = lru_repD [OF assms(1)]
  let ?c1 = "if refs c x = 0 then c\<lparr>free_cached_entries := free_cached_entries c - 1\<rparr> else c"
  let ?c2 = "set_acquired x (refs c x + 1) ?c1"
  obtain as bs where xs: "xs = as @ x # bs" using split_list [OF assms(2)] by blast
  have "dll (lru_heap c) list_head as x" "dll (lru_heap c) x bs list_head"
    using r(2) unfolding xs by (simp_all add: dll_append)
  from dll_first [OF this(2)] dll_last [OF this(1)]
  have "le_next (lru_heap c x) \<noteq> None" "le_prev (lru_heap c x) \<noteq> None" by simp_all
  then have run: "gfarm_lru_cache_addref_entry c x = gfarm_lru_cache_access_entry ?c2 x"
    by (auto simp: gfarm_lru_cache_addref_entry_def refs_def Let_def)
  have h: "lru_heap ?c1 = lru_heap c" by simp
  have refs2: "refs ?c2 = (refs c)(x := refs c x + 1)" by (simp add: refs_def fun_eq_iff)
  have "lru_rep ?c2 xs"
  proof (rule lru_repI [OF r(1)])
    show "dll (lru_heap ?c2) list_head xs list_head" using r(2) by simp
    show "0 \<le> refs ?c2 y" if "y \<in> set xs" for y using r(3) [OF that] refs2 by auto
    have d: "distinct xs" using r(1) by simp
    have same: "filter (\<lambda>y. ((refs c)(x := refs c x + 1)) y = 0) (remove1 x xs)
        = filter (\<lambda>y. refs c y = 0) (remove1 x xs)"
      by (rule filter_upd) (use d in simp)
    show "free_cached_entries ?c2 = int (length (filter (\<lambda>y. refs ?c2 y = 0) xs))"
      using r(3) [OF assms(2)] r(4) length_filter_remove1 [OF assms(2) d, of "\<lambda>y. refs c y = 0"]
        length_filter_remove1 [OF assms(2) d, of "\<lambda>y. ((refs c)(x := refs c x + 1)) y = 0"]
      unfolding refs2 same by simp
  qed
  from used_rep [OF this assms(2)] obtain c' where
    "gfarm_lru_cache_access_entry ?c2 x = Some c'" "lru_rep c' (x # remove1 x xs)"
    "refs c' = refs ?c2" "same_outside xs ?c2 c'" by blast
  moreover have "same_outside xs c c'"
    using calculation(4) assms(2) by (auto simp: same_outside_def)
  ultimately show ?thesis using run refs2 by simp
qed

lemma delref_rep:
  assumes "lru_rep c xs" and "x \<in> set xs" and "0 < refs c x"
  shows "\<exists>c'. gfarm_lru_cache_delref_entry c x = Some (c', refs c x = 1) \<and> lru_rep c' xs
     \<and> refs c' = (refs c)(x := refs c x - 1) \<and> same_outside xs c c'"
proof -
  note r = lru_repD [OF assms(1)]
  obtain as bs where xs: "xs = as @ x # bs" using split_list [OF assms(2)] by blast
  have p: "le_prev (lru_heap c x) \<noteq> None"
    using r(2) xs dll_last by (fastforce simp: dll_append)
  let ?c1 = "set_acquired x (refs c x - 1) c"
  let ?c2 = "if refs c x = 1 then ?c1\<lparr>free_cached_entries := free_cached_entries c + 1\<rparr> else ?c1"
  have run: "gfarm_lru_cache_delref_entry c x = Some (?c2, refs c x = 1)"
    using assms(3) p by (simp add: gfarm_lru_cache_delref_entry_def refs_def Let_def)
  have refs2: "refs ?c2 = (refs c)(x := refs c x - 1)" by (simp add: refs_def fun_eq_iff)
  have "lru_rep ?c2 xs"
  proof (rule lru_repI [OF r(1)])
    show "dll (lru_heap ?c2) list_head xs list_head" using r(2) by simp
    show "0 \<le> refs ?c2 y" if "y \<in> set xs" for y using r(3) [OF that] assms(3) refs2 by auto
    have d: "distinct xs" using r(1) by simp
    have same: "filter (\<lambda>y. ((refs c)(x := refs c x - 1)) y = 0) (remove1 x xs)
        = filter (\<lambda>y. refs c y = 0) (remove1 x xs)"
      by (rule filter_upd) (use d in simp)
    show "free_cached_entries ?c2 = int (length (filter (\<lambda>y. refs ?c2 y = 0) xs))"
      using assms(3) r(4) length_filter_remove1 [OF assms(2) d, of "\<lambda>y. refs c y = 0"]
        length_filter_remove1 [OF assms(2) d, of "\<lambda>y. ((refs c)(x := refs c x - 1)) y = 0"]
      unfolding refs2 same by simp
  qed
  moreover have "same_outside xs c ?c2" using assms(2) by (auto simp: same_outside_def)
  ultimately show ?thesis using run refs2 by blast
qed

text \<open>An entry that was purged is not counted when its last user lets it go.\<close>

lemma delref_purged:
  assumes "lru_rep c xs" and "x \<notin> set (list_head # xs)" and "0 < refs c x"
    and "le_prev (lru_heap c x) = None"
  shows "gfarm_lru_cache_delref_entry c x
      = Some (set_acquired x (refs c x - 1) c, refs c x = 1)
    \<and> lru_rep (set_acquired x (refs c x - 1) c) xs"
proof
  note r = lru_repD [OF assms(1)]
  show "gfarm_lru_cache_delref_entry c x = Some (set_acquired x (refs c x - 1) c, refs c x = 1)"
    using assms(3,4) by (simp add: gfarm_lru_cache_delref_entry_def refs_def Let_def)
  show "lru_rep (set_acquired x (refs c x - 1) c) xs"
  proof (rule lru_repI [OF r(1)])
    show "0 \<le> refs (set_acquired x (refs c x - 1) c) y" if "y \<in> set xs" for y
      using r(3) [OF that] assms(2) that by auto
    show "free_cached_entries (set_acquired x (refs c x - 1) c)
        = int (length (filter (\<lambda>y. refs (set_acquired x (refs c x - 1) c) y = 0) xs))"
      using r(4) assms(2) filter_upd [of x xs "refs c"] by simp
  qed (use r(2) in simp)
qed

lemma purge_dll:
  assumes "distinct (list_head # xs)" and "dll (lru_heap c) list_head xs list_head" and "x \<in> set xs"
  shows "\<exists>c'. gfarm_lru_cache_purge_entry c x = Some c'
     \<and> dll (lru_heap c') list_head (remove1 x xs) list_head
     \<and> refs c' = refs c \<and> same_outside xs c c' \<and> le_prev (lru_heap c' x) = None
     \<and> free_cached_entries c' = free_cached_entries c"
proof -
  obtain as bs where xs: "xs = as @ x # bs" using split_list [OF assms(3)] by blast
  have d: "distinct (list_head # as @ x # bs)" using assms(1) xs by simp
  from unlink_spec [OF d] assms(2) xs obtain c1 where
    1: "gfarm_lru_cache_unlink_entry c x = Some c1" "dll (lru_heap c1) list_head (as @ bs) list_head"
      "\<forall>y. le_acquired (lru_heap c1 y) = le_acquired (lru_heap c y)"
      "\<forall>y. y \<notin> set (list_head # as @ bs) \<longrightarrow> lru_heap c1 y = lru_heap c y"
      "free_cached_entries c1 = free_cached_entries c" by blast
  let ?c2 = "set_prev x None (set_next x None c1)"
  have "remove1 x xs = as @ bs" using d xs by (simp add: remove1_append)
  moreover have "dll (lru_heap ?c2) list_head (as @ bs) list_head"
    by (rule dll_cong [OF 1(2)]) (use d in auto)
  moreover have "refs ?c2 = refs c" using 1(3) by (simp add: refs_def fun_eq_iff)
  moreover have "same_outside xs c ?c2" using 1(4) xs by (simp add: same_outside_def)
  ultimately show ?thesis using 1 by (simp add: gfarm_lru_cache_purge_entry_def)
qed

lemma purge_rep:
  assumes "lru_rep c xs" and "x \<in> set xs" and "0 < refs c x"
  shows "\<exists>c'. gfarm_lru_cache_purge_entry c x = Some c' \<and> lru_rep c' (remove1 x xs)
     \<and> refs c' = refs c \<and> same_outside xs c c' \<and> le_prev (lru_heap c' x) = None"
proof -
  note r = lru_repD [OF assms(1)]
  from purge_dll [OF r(1,2) assms(2)] obtain c' where
    c: "gfarm_lru_cache_purge_entry c x = Some c'"
      "dll (lru_heap c') list_head (remove1 x xs) list_head"
      "refs c' = refs c" "same_outside xs c c'" "le_prev (lru_heap c' x) = None"
      "free_cached_entries c' = free_cached_entries c" by blast
  have d: "distinct xs" using r(1) by simp
  have "lru_rep c' (remove1 x xs)"
  proof (rule lru_repI [OF _ c(2)])
    show "distinct (list_head # remove1 x xs)" using r(1) by (auto dest: notin_set_remove1)
    show "0 \<le> refs c' y" if "y \<in> set (remove1 x xs)" for y
      using that c(3) r(3) set_remove1_subset [of x xs] by auto
    show "free_cached_entries c' = int (length (filter (\<lambda>y. refs c' y = 0) (remove1 x xs)))"
      using c(3,6) r(4) assms(3) length_filter_remove1 [OF assms(2) d, of "\<lambda>y. refs c y = 0"] by simp
  qed
  with c show ?thesis by blast
qed

subsection \<open>Collection\<close>

definition victims :: "int \<Rightarrow> (nat \<Rightarrow> int) \<Rightarrow> nat list \<Rightarrow> nat list" where
  "victims n f xs = take (nat n) (rev (filter (\<lambda>x. f x = 0) xs))"

lemma victims_snoc:
  "victims n f (xs @ [x]) =
     (if f x = 0 then if 0 < n then x # victims (n - 1) f xs else [] else victims n f xs)"
  by (auto simp: victims_def nat_diff_distrib' take_Cons' not_less)

lemma victims_subset: "set (victims n f xs) \<subseteq> set xs"
  by (auto simp: victims_def dest: in_set_takeD)

lemma lru_gc_loop_spec:
  assumes "distinct (list_head # as @ kept)"
    and "dll (lru_heap c) list_head (as @ kept) list_head"
    and "\<forall>y \<in> set as. 0 \<le> refs c y" and "\<forall>y \<in> set kept. 0 < refs c y"
    and "free_cached_entries c = int (length (filter (\<lambda>x. refs c x = 0) as))"
    and "0 \<le> t"
  shows "\<exists>c'. lru_gc_loop t dispose (Some (last (list_head # as))) c s
        = Some (c', fold dispose (victims (free_cached_entries c - t) (refs c) as) s)
     \<and> lru_rep c' (filter (\<lambda>y. y \<notin> set (victims (free_cached_entries c - t) (refs c) as)) as @ kept)
     \<and> refs c' = refs c \<and> same_outside (as @ kept) c c'
     \<and> (\<forall>y \<in> set (victims (free_cached_entries c - t) (refs c) as). le_prev (lru_heap c' y) = None)"
  using assms
proof (induction as arbitrary: kept c s rule: rev_induct)
  case Nil
  have "lru_rep c kept"
    by (rule lru_repI) (use Nil.prems in \<open>auto simp: filter_empty_conv\<close>)
  with Nil.prems(5,6) show ?case
    by (simp add: lru_gc_loop.simps victims_def same_outside_def)
next
  case (snoc x as)
  let ?n = "free_cached_entries c - t"
  have x: "x \<noteq> list_head" "x \<notin> set as" "x \<notin> set kept"
    using snoc.prems(1) by (auto simp del: neq0_conv)
  have kept0: "filter (\<lambda>y. refs c y = 0) kept = []" using snoc.prems(4) by (auto simp: filter_empty_conv)
  show ?case
  proof (cases "0 < ?n")
    case False
    have "lru_rep c ((as @ [x]) @ kept)"
      by (rule lru_repI [OF snoc.prems(1,2)]) (use snoc.prems(3-5) kept0 in auto)
    with False show ?thesis
      by (simp add: lru_gc_loop.simps victims_def same_outside_def)
  next
    case True
    have d: "dll (lru_heap c) list_head as x" using snoc.prems(2) by (simp add: dll_append)
    have prev: "le_prev (lru_heap c x) = Some (last (list_head # as))" by (rule dll_last [OF d])
    show ?thesis
    proof (cases "refs c x = 0")
      case free: True
      have mem: "x \<in> set ((as @ [x]) @ kept)" by simp
      from purge_dll [OF snoc.prems(1,2) mem] obtain c1 where
        c1: "gfarm_lru_cache_purge_entry c x = Some c1"
          "dll (lru_heap c1) list_head (remove1 x ((as @ [x]) @ kept)) list_head"
          "refs c1 = refs c" "same_outside ((as @ [x]) @ kept) c c1"
          "le_prev (lru_heap c1 x) = None" "free_cached_entries c1 = free_cached_entries c" by blast
      have rem: "remove1 x ((as @ [x]) @ kept) = as @ kept" using x by (simp add: remove1_append)
      let ?c2 = "c1\<lparr>free_cached_entries := free_cached_entries c1 - 1\<rparr>"
      have refs2: "refs ?c2 = refs c" using c1(3) by (simp add: refs_def fun_eq_iff)
      have "\<exists>c'. lru_gc_loop t dispose (Some (last (list_head # as))) ?c2 (dispose x s)
            = Some (c', fold dispose (victims (free_cached_entries ?c2 - t) (refs ?c2) as) (dispose x s))
          \<and> lru_rep c' (filter (\<lambda>y. y \<notin> set (victims (free_cached_entries ?c2 - t) (refs ?c2) as)) as @ kept)
          \<and> refs c' = refs ?c2 \<and> same_outside (as @ kept) ?c2 c'
          \<and> (\<forall>y \<in> set (victims (free_cached_entries ?c2 - t) (refs ?c2) as). le_prev (lru_heap c' y) = None)"
      proof (rule snoc.IH)
        show "dll (lru_heap ?c2) list_head (as @ kept) list_head" using c1(2) rem by simp
        show "free_cached_entries ?c2 = int (length (filter (\<lambda>x. refs ?c2 x = 0) as))"
          using snoc.prems(5) free by (simp add: c1(3,6))
      qed (use snoc.prems refs2 in \<open>auto simp del: neq0_conv\<close>)
      then obtain c' where c': "lru_gc_loop t dispose (Some (last (list_head # as))) ?c2 (dispose x s)
            = Some (c', fold dispose (victims (?n - 1) (refs c) as) (dispose x s))"
          "lru_rep c' (filter (\<lambda>y. y \<notin> set (victims (?n - 1) (refs c) as)) as @ kept)"
          "refs c' = refs c" "same_outside (as @ kept) ?c2 c'"
          "\<forall>y \<in> set (victims (?n - 1) (refs c) as). le_prev (lru_heap c' y) = None"
        unfolding refs2 by (auto simp: c1(6) algebra_simps)
      have vic: "victims ?n (refs c) (as @ [x]) = x # victims (?n - 1) (refs c) as"
        using free True by (simp add: victims_snoc)
      have loop: "lru_gc_loop t dispose (Some (last (list_head # as @ [x]))) c s
          = lru_gc_loop t dispose (Some (last (list_head # as))) ?c2 (dispose x s)"
        using True free x(1) c1(1) prev by (subst lru_gc_loop.simps) (simp add: refs_def)
      have flt: "filter (\<lambda>y. y \<notin> set (x # victims (?n - 1) (refs c) as)) (as @ [x])
          = filter (\<lambda>y. y \<notin> set (victims (?n - 1) (refs c) as)) as"
        using x(2) by (auto intro: filter_cong)
      have "le_prev (lru_heap c' x) = None"
        using c'(4) c1(5) x by (auto simp: same_outside_def)
      moreover have "same_outside ((as @ [x]) @ kept) c c'"
        using c'(4) c1(4) by (auto simp: same_outside_def)
      ultimately show ?thesis using c' unfolding vic loop flt by simp
    next
      case busy: False
      have "\<exists>c'. lru_gc_loop t dispose (Some (last (list_head # as))) c s
            = Some (c', fold dispose (victims (free_cached_entries c - t) (refs c) as) s)
          \<and> lru_rep c' (filter (\<lambda>y. y \<notin> set (victims (free_cached_entries c - t) (refs c) as)) as @ x # kept)
          \<and> refs c' = refs c \<and> same_outside (as @ x # kept) c c'
          \<and> (\<forall>y \<in> set (victims (free_cached_entries c - t) (refs c) as). le_prev (lru_heap c' y) = None)"
        by (rule snoc.IH) (use snoc.prems busy in \<open>auto simp del: neq0_conv\<close>)
      moreover have "lru_gc_loop t dispose (Some (last (list_head # as @ [x]))) c s
          = lru_gc_loop t dispose (Some (last (list_head # as))) c s"
        using True busy x(1) prev snoc.prems(3) by (subst lru_gc_loop.simps) (auto simp: refs_def)
      moreover have "x \<notin> set (victims ?n (refs c) as)" using x(2) victims_subset [of ?n "refs c" as] by blast
      ultimately show ?thesis using busy by (simp add: victims_snoc)
    qed
  qed
qed

lemma gc_rep:
  assumes "lru_rep c xs" and "0 \<le> t"
  defines "vs \<equiv> victims (free_cached_entries c - t) (refs c) xs"
  shows "\<exists>c'. gfarm_lru_cache_gc c t dispose s = Some (c', fold dispose vs s)
     \<and> lru_rep c' (filter (\<lambda>y. y \<notin> set vs) xs)
     \<and> refs c' = refs c \<and> same_outside xs c c' \<and> (\<forall>y \<in> set vs. le_prev (lru_heap c' y) = None)"
proof -
  note r = lru_repD [OF assms(1)]
  have "le_prev (lru_heap c list_head) = Some (last (list_head # xs))" by (rule dll_last [OF r(2)])
  with lru_gc_loop_spec [of xs "[]" c t dispose s] r assms(2) show ?thesis
    by (simp add: gfarm_lru_cache_gc_def vs_def)
qed

subsection \<open>The cache as an abstract object\<close>

datatype lru_op =
    Lru_add nat
  | Lru_addref nat
  | Lru_delref nat
  | Lru_used nat
  | Lru_purge nat
  | Lru_gc int

text \<open>The order of use, the users of each entry, and the entries purged while somebody uses them.\<close>

record lru_spec =
  ls_order :: "nat list"
  ls_count :: "nat \<Rightarrow> int"
  ls_purged :: "nat list"

text \<open>
  How the library uses the cache: an entry is added once, looked up while it is cached, given
  back by who holds it, and purged by who holds it.
\<close>

fun lru_legal :: "lru_op \<Rightarrow> lru_spec \<Rightarrow> bool" where
  "lru_legal (Lru_add x) s \<longleftrightarrow> x \<noteq> list_head \<and> x \<notin> set (ls_order s) \<and> x \<notin> set (ls_purged s)"
| "lru_legal (Lru_addref x) s \<longleftrightarrow> x \<in> set (ls_order s)"
| "lru_legal (Lru_delref x) s \<longleftrightarrow>
     (x \<in> set (ls_order s) \<or> x \<in> set (ls_purged s)) \<and> 0 < ls_count s x"
| "lru_legal (Lru_used x) s \<longleftrightarrow> x \<in> set (ls_order s)"
| "lru_legal (Lru_purge x) s \<longleftrightarrow> x \<in> set (ls_order s) \<and> 0 < ls_count s x"
| "lru_legal (Lru_gc t) s \<longleftrightarrow> 0 \<le> t"

text \<open>What is reported: the entry whose last user has gone, or the entries that are collected.\<close>

fun lru_spec_step :: "lru_op \<Rightarrow> lru_spec \<Rightarrow> lru_spec \<times> nat list" where
  "lru_spec_step (Lru_add x) s =
     (s\<lparr>ls_order := x # ls_order s, ls_count := (ls_count s)(x := 1)\<rparr>, [])"
| "lru_spec_step (Lru_addref x) s =
     (s\<lparr>ls_order := x # remove1 x (ls_order s), ls_count := (ls_count s)(x := ls_count s x + 1)\<rparr>, [])"
| "lru_spec_step (Lru_delref x) s =
     (s\<lparr>ls_count := (ls_count s)(x := ls_count s x - 1),
        ls_purged := (if ls_count s x = 1 then remove1 x (ls_purged s) else ls_purged s)\<rparr>,
      if ls_count s x = 1 then [x] else [])"
| "lru_spec_step (Lru_used x) s = (s\<lparr>ls_order := x # remove1 x (ls_order s)\<rparr>, [])"
| "lru_spec_step (Lru_purge x) s =
     (s\<lparr>ls_order := remove1 x (ls_order s), ls_purged := x # ls_purged s\<rparr>, [])"
| "lru_spec_step (Lru_gc t) s =
     (let vs = victims (int (length (filter (\<lambda>x. ls_count s x = 0) (ls_order s))) - t)
                 (ls_count s) (ls_order s)
      in (s\<lparr>ls_order := filter (\<lambda>x. x \<notin> set vs) (ls_order s)\<rparr>, vs))"

fun lru_step :: "lru_op \<Rightarrow> lru_cache \<Rightarrow> (lru_cache \<times> nat list) option" where
  "lru_step (Lru_add x) c = map_option (\<lambda>c'. (c', [])) (gfarm_lru_cache_add_entry c x)"
| "lru_step (Lru_addref x) c = map_option (\<lambda>c'. (c', [])) (gfarm_lru_cache_addref_entry c x)"
| "lru_step (Lru_delref x) c =
     map_option (\<lambda>(c', released). (c', if released then [x] else []))
       (gfarm_lru_cache_delref_entry c x)"
| "lru_step (Lru_used x) c = map_option (\<lambda>c'. (c', [])) (gfarm_lru_cache_access_entry c x)"
| "lru_step (Lru_purge x) c = map_option (\<lambda>c'. (c', [])) (gfarm_lru_cache_purge_entry c x)"
| "lru_step (Lru_gc t) c = gfarm_lru_cache_gc c t (\<lambda>p disposed. disposed @ [p]) []"

fun lru_run :: "lru_op list \<Rightarrow> lru_cache \<Rightarrow> (lru_cache \<times> nat list list) option" where
  "lru_run [] c = Some (c, [])"
| "lru_run (op # ops) c =
     (case lru_step op c of
        None \<Rightarrow> None
      | Some (c', out) \<Rightarrow> map_option (\<lambda>(c'', outs). (c'', out # outs)) (lru_run ops c'))"

fun lru_spec_run :: "lru_op list \<Rightarrow> lru_spec \<Rightarrow> lru_spec \<times> nat list list" where
  "lru_spec_run [] s = (s, [])"
| "lru_spec_run (op # ops) s =
     (let (s', out) = lru_spec_step op s; (s'', outs) = lru_spec_run ops s' in (s'', out # outs))"

fun lru_legal_run :: "lru_op list \<Rightarrow> lru_spec \<Rightarrow> bool" where
  "lru_legal_run [] s \<longleftrightarrow> True"
| "lru_legal_run (op # ops) s \<longleftrightarrow> lru_legal op s \<and> lru_legal_run ops (fst (lru_spec_step op s))"

definition lru_spec_init :: lru_spec where
  "lru_spec_init = \<lparr>ls_order = [], ls_count = (\<lambda>_. 0), ls_purged = []\<rparr>"

definition lru_simulates :: "lru_cache \<Rightarrow> lru_spec \<Rightarrow> bool" where
  "lru_simulates c s \<longleftrightarrow> lru_rep c (ls_order s) \<and> distinct (ls_purged s)
     \<and> (\<forall>x \<in> set (ls_order s). refs c x = ls_count s x)
     \<and> (\<forall>x \<in> set (ls_purged s). x \<noteq> list_head \<and> x \<notin> set (ls_order s)
          \<and> le_prev (lru_heap c x) = None \<and> refs c x = ls_count s x \<and> 0 < ls_count s x)"

lemma same_outside_refs:
  "same_outside xs c c' \<Longrightarrow> y \<notin> set (list_head # xs) \<Longrightarrow>
     refs c' y = refs c y \<and> le_prev (lru_heap c' y) = le_prev (lru_heap c y)"
  by (simp add: same_outside_def refs_def)

lemma fold_snoc: "fold (\<lambda>p ps. ps @ [p]) vs ps = ps @ vs"
  by (induction vs arbitrary: ps) simp_all

lemma victims_cong: "(\<And>x. x \<in> set xs \<Longrightarrow> f x = g x) \<Longrightarrow> victims n f xs = victims n g xs"
  by (simp add: victims_def cong: filter_cong)

text \<open>The simulation after an operation, when the purged entries are as before.\<close>

lemma simulatesI:
  assumes sim: "lru_simulates c s" and rep: "lru_rep c' (ls_order s')"
    and "ls_purged s' = ls_purged s" and "same_outside xs c c'"
    and "set (ls_order s') \<subseteq> set xs" and "\<forall>z \<in> set (ls_purged s). z \<notin> set xs"
    and "\<And>x. x \<in> set (ls_order s') \<Longrightarrow> refs c' x = ls_count s' x"
    and "\<And>z. z \<in> set (ls_purged s) \<Longrightarrow> ls_count s' z = ls_count s z"
  shows "lru_simulates c' s'"
proof -
  have "z \<noteq> list_head \<and> z \<notin> set (ls_order s') \<and> le_prev (lru_heap c' z) = None
      \<and> refs c' z = ls_count s' z \<and> 0 < ls_count s' z" if z: "z \<in> set (ls_purged s)" for z
  proof -
    have zs: "z \<noteq> list_head" "le_prev (lru_heap c z) = None" "refs c z = ls_count s z"
      "0 < ls_count s z" using sim z by (simp_all add: lru_simulates_def)
    have out: "z \<notin> set (list_head # xs)" using assms(6) z zs(1) by simp
    note same = same_outside_refs [OF assms(4) out]
    show ?thesis using zs same out assms(5) assms(8) [OF z] by (auto simp del: neq0_conv)
  qed
  then show ?thesis using assms by (simp add: lru_simulates_def)
qed

lemma lru_step_simulates:
  assumes sim: "lru_simulates c s" and legal: "lru_legal op s"
  shows "\<exists>c'. lru_step op c = Some (c', snd (lru_spec_step op s))
     \<and> lru_simulates c' (fst (lru_spec_step op s))"
proof -
  have rep: "lru_rep c (ls_order s)" using sim by (simp add: lru_simulates_def)
  note r = lru_repD [OF rep]
  have cnt: "refs c x = ls_count s x" if "x \<in> set (ls_order s)" for x
    using sim that by (simp add: lru_simulates_def)
  have purged: "z \<noteq> list_head" "z \<notin> set (ls_order s)" "le_prev (lru_heap c z) = None"
    "refs c z = ls_count s z" "0 < ls_count s z" if "z \<in> set (ls_purged s)" for z
    using sim that by (simp_all add: lru_simulates_def)
  have order: "set (remove1 x (ls_order s)) \<subseteq> set (ls_order s)" for x by (rule set_remove1_subset)
  show ?thesis
  proof (cases op)
    case (Lru_add x)
    with legal have x: "x \<notin> set (list_head # ls_order s)" "x \<notin> set (ls_purged s)"
      by (simp_all del: neq0_conv)
    from add_rep [OF rep x(1)] obtain c' where
      c': "gfarm_lru_cache_add_entry c x = Some c'" "lru_rep c' (x # ls_order s)"
        "refs c' = (refs c)(x := 1)" "same_outside (x # ls_order s) c c'" by blast
    have "lru_simulates c' (fst (lru_spec_step op s))"
      by (rule simulatesI [OF sim _ _ c'(4)]) (use Lru_add c' x cnt purged(2) in auto)
    with c'(1) Lru_add show ?thesis by simp
  next
    case (Lru_addref x)
    with legal have x: "x \<in> set (ls_order s)" by simp
    from addref_rep [OF rep x] obtain c' where
      c': "gfarm_lru_cache_addref_entry c x = Some c'" "lru_rep c' (x # remove1 x (ls_order s))"
        "refs c' = (refs c)(x := refs c x + 1)" "same_outside (ls_order s) c c'" by blast
    have "lru_simulates c' (fst (lru_spec_step op s))"
      by (rule simulatesI [OF sim _ _ c'(4)])
        (use Lru_addref c' x cnt purged(2) order [of x] in \<open>auto simp: subset_iff\<close>)
    with c'(1) Lru_addref show ?thesis by simp
  next
    case (Lru_delref x)
    show ?thesis
    proof (cases "x \<in> set (ls_order s)")
      case True
      with legal Lru_delref cnt have pos: "0 < refs c x" by simp
      have np: "x \<notin> set (ls_purged s)" using True purged(2) by blast
      from delref_rep [OF rep True pos] obtain c' where
        c': "gfarm_lru_cache_delref_entry c x = Some (c', refs c x = 1)" "lru_rep c' (ls_order s)"
          "refs c' = (refs c)(x := refs c x - 1)" "same_outside (ls_order s) c c'" by blast
      have "lru_simulates c' (fst (lru_spec_step op s))"
        by (rule simulatesI [OF sim _ _ c'(4)])
          (use Lru_delref c' True np cnt purged(2) in \<open>auto simp: remove1_idem\<close>)
      with c'(1) Lru_delref cnt [OF True] show ?thesis by simp
    next
      case False
      with legal Lru_delref have z: "x \<in> set (ls_purged s)" by simp
      note p = purged [OF z]
      have out: "x \<notin> set (list_head # ls_order s)" using p(1,2) by simp
      have pos: "0 < refs c x" using p(4,5) by simp
      note d = delref_purged [OF rep out pos p(3)]
      let ?c' = "set_acquired x (refs c x - 1) c"
      have dp: "distinct (ls_purged s)" using sim by (simp add: lru_simulates_def)
      have "lru_simulates ?c' (fst (lru_spec_step op s))"
        using Lru_delref d cnt purged p False dp
        by (auto simp: lru_simulates_def simp del: neq0_conv)
      with d Lru_delref p(4) show ?thesis by simp
    qed
  next
    case (Lru_used x)
    with legal have x: "x \<in> set (ls_order s)" by simp
    from used_rep [OF rep x] obtain c' where
      c': "gfarm_lru_cache_access_entry c x = Some c'" "lru_rep c' (x # remove1 x (ls_order s))"
        "refs c' = refs c" "same_outside (ls_order s) c c'" by blast
    have "lru_simulates c' (fst (lru_spec_step op s))"
      by (rule simulatesI [OF sim _ _ c'(4)])
        (use Lru_used c' x cnt purged(2) order [of x] in \<open>auto simp: subset_iff\<close>)
    with c'(1) Lru_used show ?thesis by simp
  next
    case (Lru_purge x)
    with legal have x: "x \<in> set (ls_order s)" "0 < ls_count s x" by simp_all
    have "0 < refs c x" using x cnt by simp
    from purge_rep [OF rep x(1) this] obtain c' where
      c': "gfarm_lru_cache_purge_entry c x = Some c'" "lru_rep c' (remove1 x (ls_order s))"
        "refs c' = refs c" "same_outside (ls_order s) c c'" "le_prev (lru_heap c' x) = None" by blast
    have xh: "x \<noteq> list_head" using r(1) x(1) by (metis distinct.simps(2))
    have old: "lru_simulates c' (s\<lparr>ls_order := remove1 x (ls_order s)\<rparr>)"
      by (rule simulatesI [OF sim _ _ c'(4)])
        (use c' cnt purged(2) order [of x] in \<open>auto simp: subset_iff\<close>)
    have "x \<notin> set (remove1 x (ls_order s))" using r(1) by simp
    moreover have "x \<notin> set (ls_purged s)" using x(1) purged(2) by blast
    ultimately have "lru_simulates c' (fst (lru_spec_step op s))"
      using old Lru_purge c'(3,5) xh x cnt by (simp add: lru_simulates_def)
    with c'(1) Lru_purge show ?thesis by simp
  next
    case (Lru_gc t)
    with legal have t: "0 \<le> t" by simp
    let ?n = "int (length (filter (\<lambda>x. ls_count s x = 0) (ls_order s))) - t"
    let ?vs = "victims ?n (ls_count s) (ls_order s)"
    have "filter (\<lambda>x. refs c x = 0) (ls_order s) = filter (\<lambda>x. ls_count s x = 0) (ls_order s)"
      by (rule filter_cong) (simp_all add: cnt)
    then have vs: "victims (free_cached_entries c - t) (refs c) (ls_order s) = ?vs"
      using r(4) victims_cong [of "ls_order s" "refs c" "ls_count s"] cnt by simp
    from gc_rep [OF rep t, of "\<lambda>p ps. ps @ [p]" "[]"] obtain c' where
      c': "gfarm_lru_cache_gc c t (\<lambda>p ps. ps @ [p]) [] = Some (c', fold (\<lambda>p ps. ps @ [p]) ?vs [])"
        "lru_rep c' (filter (\<lambda>y. y \<notin> set ?vs) (ls_order s))"
        "refs c' = refs c" "same_outside (ls_order s) c c'" unfolding vs by blast
    have "lru_simulates c' (fst (lru_spec_step op s))"
      by (rule simulatesI [OF sim _ _ c'(4)])
        (use Lru_gc c' cnt purged(2) in \<open>auto simp: Let_def\<close>)
    with c'(1) Lru_gc show ?thesis by (simp add: fold_snoc Let_def)
  qed
qed

lemma lru_run_simulates:
  assumes "lru_simulates c s" and "lru_legal_run ops s"
  shows "\<exists>c'. lru_run ops c = Some (c', snd (lru_spec_run ops s))
     \<and> lru_simulates c' (fst (lru_spec_run ops s))"
  using assms
proof (induction ops arbitrary: c s)
  case (Cons op ops)
  then have "lru_legal op s" by simp
  from lru_step_simulates [OF Cons.prems(1) this] obtain c1 where
    1: "lru_step op c = Some (c1, snd (lru_spec_step op s))"
      "lru_simulates c1 (fst (lru_spec_step op s))" by blast
  have "lru_legal_run ops (fst (lru_spec_step op s))" using Cons.prems(2) by simp
  from Cons.IH [OF 1(2) this] 1(1) show ?case by (auto simp: Let_def split: prod.splits)
qed simp

text \<open>C15: the doubly linked list and the counter implement the cache. Any sequence of permitted
  operations on a new cache, whatever the entries' memory held, runs without following a null
  pointer, failing an assertion or aborting, reports what the abstract cache reports (which entry
  lost its last user, which were collected: the least recently used free ones, as many as exceed
  the target), and leaves the entries in the abstract order with the abstract counts and an
  exact number of free entries.\<close>

theorem lru_cache_refines:
  assumes "lru_legal_run ops lru_spec_init"
  shows "\<exists>c'. lru_run ops (GFARM_LRU_CACHE_INITIALIZER h) = Some (c', snd (lru_spec_run ops lru_spec_init))
     \<and> lru_rep c' (ls_order (fst (lru_spec_run ops lru_spec_init)))
     \<and> (\<forall>x \<in> set (ls_order (fst (lru_spec_run ops lru_spec_init))).
          le_acquired (lru_heap c' x) = ls_count (fst (lru_spec_run ops lru_spec_init)) x)"
proof -
  have "lru_simulates (GFARM_LRU_CACHE_INITIALIZER h) lru_spec_init"
    by (simp add: lru_simulates_def lru_spec_init_def init_rep)
  from lru_run_simulates [OF this assms] show ?thesis
    by (auto simp: lru_simulates_def refs_def)
qed

theorem lru_cache_refines_witness:
  "\<exists>c'. lru_run [Lru_add 3, Lru_add 5, Lru_add 7, Lru_delref 3, Lru_addref 3, Lru_delref 5,
                 Lru_delref 3, Lru_purge 7, Lru_delref 7, Lru_gc 1]
          (GFARM_LRU_CACHE_INITIALIZER (\<lambda>_. \<lparr>le_next = None, le_prev = None, le_acquired = 0\<rparr>))
        = Some (c', [[], [], [], [3], [], [5], [3], [], [7], [5]])
     \<and> lru_rep c' [3]"
proof -
  let ?ops = "[Lru_add 3, Lru_add 5, Lru_add 7, Lru_delref 3, Lru_addref 3, Lru_delref 5,
               Lru_delref 3, Lru_purge 7, Lru_delref 7, Lru_gc 1]"
  have "lru_legal_run ?ops lru_spec_init" by code_simp
  moreover have "snd (lru_spec_run ?ops lru_spec_init) = [[], [], [], [3], [], [5], [3], [], [7], [5]]"
    by code_simp
  moreover have "ls_order (fst (lru_spec_run ?ops lru_spec_init)) = [3]" by code_simp
  ultimately show ?thesis using lru_cache_refines [of ?ops] by metis
qed

end
