(* ===== verification/Conn_Cache_Spec.thy ===== *)
theory Conn_Cache_Spec
  imports Conn_Cache Lru_Cache_Spec
begin

text \<open>
  What the connection cache promises. \<open>cache_inv\<close> ties the three structures together: the
  connections on the LRU list are those the hash table finds, each under the key it was acquired
  with, and a connection that is allocated but not cached is in use. Each operation keeps the
  invariant, and the theorems say what a client sees.
\<close>

subsection \<open>Tables that need not exist yet\<close>

definition conn_find :: "'d conn_table option \<Rightarrow> gfp_conn_hash_id \<Rightarrow> 'd option" where
  "conn_find t key = (case t of None \<Rightarrow> None | Some tab \<Rightarrow> hash_find tab key)"

definition table_opt_ok :: "'d conn_table option \<Rightarrow> bool" where
  "table_opt_ok t \<longleftrightarrow> (case t of None \<Rightarrow> True | Some tab \<Rightarrow> conn_table_ok tab)"

lemma conn_find_simps [simp]:
  "conn_find None = (\<lambda>_. None)" "conn_find (Some tab) = hash_find tab"
  by (simp_all add: conn_find_def fun_eq_iff)

lemma table_opt_simps [simp]:
  "table_opt_ok None" "table_opt_ok (Some tab) \<longleftrightarrow> conn_table_ok tab"
  by (simp_all add: table_opt_ok_def)

lemma ensure_spec:
  assumes "table_opt_ok t" and "0 < n" and "conn_hash_ensure mal t n = (t', e)"
  shows "table_opt_ok t' \<and> conn_find t' = conn_find t \<and> (t' = None \<longrightarrow> e = GFARM_ERR_NO_MEMORY)
    \<and> (t \<noteq> None \<longrightarrow> t' = t)"
proof (cases t)
  case None
  show ?thesis
  proof (cases "gfarm_hash_table_alloc mal n gfp_conn_hash_index gfp_conn_hash_equal :: 'a conn_table option")
    case (Some tab)
    then have "t' = Some tab"
      using None assms(3) by (simp add: conn_hash_ensure_def gfp_conn_hash_table_init_def)
    with table_alloc_ok [OF Some assms(2)] None show ?thesis by simp
  qed (use None assms(3) in \<open>auto simp: conn_hash_ensure_def gfp_conn_hash_table_init_def\<close>)
qed (use assms in \<open>auto simp: conn_hash_ensure_def\<close>)

lemma table_alloc_succeeds:
  assumes "0 < n" and "n < 2 ^ 31" and "\<forall>x. mal x"
  shows "gfarm_hash_table_alloc mal n hash equal \<noteq> None"
proof -
  define m where "m = (word_of_int (n - 1) :: u64)"
  have "hash_len_ok (n - 1)" using assms(1,2) by (simp add: hash_len_ok_def)
  then have n: "unat m < 2 ^ 31" using unat_of_len nat_len unfolding m_def by metis
  have "\<not> fst (gfarm_size_mul False 8 m)" using n by (simp add: size_mul_overflow_iff)
  then have mul: "gfarm_size_mul False 8 m = (False, 8 * m)"
    by (simp add: gfarm_size_mul_def Let_def split: if_splits)
  have "unat (8 * m) = 8 * unat m" using n by (simp add: unat_word_ariths)
  then have "\<not> fst (gfarm_size_add False 32 (8 * m))"
    using n by (simp add: size_add_overflow_iff)
  then have "gfarm_size_add False 32 (8 * m) = (False, 32 + 8 * m)"
    by (simp add: gfarm_size_add_def Let_def split: if_splits)
  with mul assms(3) show ?thesis by (simp add: gfarm_hash_table_alloc_def m_def)
qed

lemma len_ok [simp]: "hash_len_ok 24" "hash_len_ok 8"
  by (simp_all add: hash_len_ok_def)

text \<open>Entering a key: what is found afterwards, in each case.\<close>

lemma conn_enter_spec:
  fixes t :: "'d conn_table option" and hostname username :: "byte list" and port :: int
  assumes ok: "table_opt_ok t" and n: "0 < n" "n < 2 ^ 31" and port: "0 \<le> port" "port \<le> 65535"
  defines "key \<equiv> \<lparr>id_hostname = hostname, id_port = port, id_username = username\<rparr>"
  shows "\<exists>t' r. gfp_conn_hash_enter mal duph dupu d0 t n 8 hostname port username = Some (t', r)
    \<and> table_opt_ok t'
    \<and> (case r of
         Inl e \<Rightarrow> e = GFARM_ERR_NO_MEMORY \<and> conn_find t' = conn_find t \<and> conn_find t key = None
       | Inr (k', created) \<Rightarrow>
           t' \<noteq> None \<and> gfp_conn_hash_equal k' key \<and> (created \<longleftrightarrow> conn_find t key = None)
           \<and> conn_find t' = (if created then (\<lambda>k. if gfp_conn_hash_equal key k then Some d0
                                               else conn_find t k) else conn_find t))
    \<and> ((\<forall>m. mal m) \<and> duph \<and> dupu \<or> conn_find t key \<noteq> None \<longrightarrow> (\<exists>k' c. r = Inr (k', c)))"
proof -
  obtain t1 e where ens: "conn_hash_ensure mal t n = (t1, e)" by (cases "conn_hash_ensure mal t n")
  note es = ensure_spec [OF ok n(1) ens]
  have idx: "conn_index_defined key" by (rule conn_index_bound) (use port in \<open>simp_all add: key_def\<close>)
  show ?thesis
  proof (cases t1)
    case None
    have "t = None" using es None by (cases t) auto
    moreover have "gfarm_hash_table_alloc mal n gfp_conn_hash_index gfp_conn_hash_equal
        = (None :: 'd conn_table option)"
      using ens None \<open>t = None\<close>
      by (auto simp: conn_hash_ensure_def gfp_conn_hash_table_init_def split: option.splits)
    then have "\<not> (\<forall>m. mal m)" using table_alloc_succeeds [OF n, of mal] by blast
    ultimately show ?thesis using ens None es by (simp add: gfp_conn_hash_enter_def)
  next
    case (Some tab)
    have tok: "conn_table_ok tab" using es Some by simp
    have ft: "hash_find tab = conn_find t" using es Some by simp
    obtain tab1 pos created where en: "gfarm_hash_enter mal d0 tab key 24 8 = (tab1, pos, created)"
      by (cases "gfarm_hash_enter mal d0 tab key 24 8") auto
    note sp = hk_conn.enter_spec [OF tok len_ok en]
    have found: "gfarm_hash_lookup tab key = None \<longleftrightarrow> conn_find t key = None"
    proof (cases "gfarm_hash_lookup tab key")
      case None
      then have "hash_find tab key = None" by (simp add: hash_find_def)
      with None ft show ?thesis by simp
    next
      case (Some p)
      with hk_conn.lookup_entry [OF tok Some] ft show ?thesis by auto
    qed
    have run: "gfp_conn_hash_enter mal duph dupu d0 t n 8 hostname port username =
        (case (tab1, pos, created) of
           (tab1, None, created) \<Rightarrow> Some (Some tab1, Inl GFARM_ERR_NO_MEMORY)
         | (tab1, Some pos, created) \<Rightarrow>
             if created \<and> (\<not> duph \<or> \<not> dupu)
             then Some (Some (fst (gfarm_hash_purge tab1 key)), Inl GFARM_ERR_NO_MEMORY)
             else (case hash_at tab1 pos of
                     None \<Rightarrow> None
                   | Some entry \<Rightarrow> Some (Some tab1, Inr (gfarm_hash_entry_key entry, created))))"
      using ens Some idx by (simp add: gfp_conn_hash_enter_def key_def [symmetric] en)
    have tok1: "conn_table_ok tab1" using sp by simp
    show ?thesis
    proof (cases pos)
      case None
      with sp have "tab1 = tab" "gfarm_hash_lookup tab key = None" "\<not> mal (hash_entry_size 24 8)" by simp_all
      with run None tok ft found show ?thesis by auto
    next
      case pos: (Some p)
      from sp pos have l: "gfarm_hash_lookup tab1 key = Some p"
        and cr: "created \<longleftrightarrow> conn_find t key = None"
        and f1: "hash_find tab1 = (if created then (\<lambda>k'. if gfp_conn_hash_equal key k' then Some d0
                                   else hash_find tab k') else hash_find tab)"
        by (simp_all add: found)
      show ?thesis
      proof (cases "created \<and> (\<not> duph \<or> \<not> dupu)")
        case True
        obtain tab2 b where pu: "gfarm_hash_purge tab1 key = (tab2, b)"
          by (cases "gfarm_hash_purge tab1 key")
        note ps = hk_conn.table_purge_spec [OF tok1 pu]
        have "hash_find tab2 k = hash_find tab k" for k
        proof (cases "gfp_conn_hash_equal key k")
          case True
          with hk_conn.hash_find_cong [OF tok True] cr ft ps \<open>created \<and> _\<close> show ?thesis by simp
        next
          case False
          with ps f1 \<open>created \<and> _\<close> show ?thesis by simp
        qed
        then have "hash_find tab2 = conn_find t" using ft by (simp add: fun_eq_iff)
        with True run pos pu ps cr show ?thesis by auto
      next
        case False
        obtain en where "hash_at tab1 p = Some en" "gfp_conn_hash_equal (he_key en) key"
          using hk_conn.lookup_entry [OF tok1 l] by blast
        with False run pos tok1 cr f1 ft show ?thesis
          by (auto simp: gfarm_hash_entry_key_def)
      qed
    qed
  qed
qed

subsection \<open>The table and the connections\<close>

text \<open>
  \<open>table_matches t cs X\<close>: the table finds exactly the connections of \<open>X\<close>, each by the keys equal
  to the one it remembers.
\<close>

definition table_matches ::
  "nat conn_table option \<Rightarrow> (nat \<Rightarrow> 'c cached_connection) \<Rightarrow> nat set \<Rightarrow> bool" where
  "table_matches t cs X \<longleftrightarrow> table_opt_ok t \<and> (\<forall>p \<in> X. cc_hash_entry (cs p) \<noteq> None)
     \<and> (\<forall>k p. conn_find t k = Some p \<longleftrightarrow>
          p \<in> X \<and> (\<exists>k'. cc_hash_entry (cs p) = Some k' \<and> gfp_conn_hash_equal k' k))"

lemma conn_equal_refl [simp]: "gfp_conn_hash_equal k k"
  by (rule hk_conn.equal_refl)

lemma matches_finds:
  "table_matches t cs X \<Longrightarrow> p \<in> X \<Longrightarrow> cc_hash_entry (cs p) = Some k \<Longrightarrow> conn_find t k = Some p"
  by (simp add: table_matches_def)

lemma matches_iff:
  "table_matches t cs X \<Longrightarrow> conn_find t k = Some p \<longleftrightarrow>
     p \<in> X \<and> (\<exists>k'. cc_hash_entry (cs p) = Some k' \<and> gfp_conn_hash_equal k' k)"
  by (simp add: table_matches_def)

lemma matches_table:
  assumes "table_matches t cs X" and "p \<in> X"
  shows "\<exists>tab k. t = Some tab \<and> conn_table_ok tab \<and> cc_hash_entry (cs p) = Some k"
proof -
  obtain k where k: "cc_hash_entry (cs p) = Some k" using assms by (auto simp: table_matches_def)
  with matches_finds [OF assms] have "t \<noteq> None" by (cases t) auto
  with assms(1) k show ?thesis by (auto simp: table_matches_def)
qed

lemma matches_cong:
  "table_matches t cs X \<Longrightarrow> (\<And>p. p \<in> X \<Longrightarrow> cc_hash_entry (cs' p) = cc_hash_entry (cs p)) \<Longrightarrow>
     table_matches t cs' X"
  by (auto simp: table_matches_def)

lemma matches_remove_key:
  assumes m: "table_matches (Some tab) cs X" and p: "p \<in> X" "cc_hash_entry (cs p) = Some k"
    and key: "gfp_conn_hash_equal k key"
    and cs': "\<And>q. q \<in> X \<Longrightarrow> q \<noteq> p \<Longrightarrow> cc_hash_entry (cs' q) = cc_hash_entry (cs q)"
  shows "table_matches (Some (gfp_conn_hash_purge tab key)) cs' (X - {p})"
proof -
  have ok: "conn_table_ok tab" using m by (simp add: table_matches_def)
  have find: "hash_find tab k' = Some q \<longleftrightarrow>
      q \<in> X \<and> (\<exists>k''. cc_hash_entry (cs q) = Some k'' \<and> gfp_conn_hash_equal k'' k')" for k' q
    using m by (simp add: table_matches_def)
  obtain tab' b where pu: "gfarm_hash_purge tab key = (tab', b)" by (cases "gfarm_hash_purge tab key")
  note sp = hk_conn.table_purge_spec [OF ok pu]
  have "gfp_conn_hash_equal key k' \<longleftrightarrow> gfp_conn_hash_equal k k'" for k'
    using key hk_conn.equal_sym hk_conn.equal_trans by blast
  then have eq: "gfp_conn_hash_equal key k' \<longleftrightarrow> hash_find tab k' = Some p" for k'
    using find [of k' p] p by simp
  have "hash_find tab' k' = Some q \<longleftrightarrow> q \<in> X - {p}
      \<and> (\<exists>k''. cc_hash_entry (cs' q) = Some k'' \<and> gfp_conn_hash_equal k'' k')" for k' q
    using sp eq [of k'] find [of k' q] cs' [of q] by (cases "q = p") auto
  moreover have "\<forall>q \<in> X - {p}. cc_hash_entry (cs' q) \<noteq> None"
    using m cs' by (simp add: table_matches_def)
  ultimately show ?thesis using sp pu by (simp add: table_matches_def gfp_conn_hash_purge_def)
qed

lemmas matches_remove = matches_remove_key [OF _ _ _ conn_equal_refl]

text \<open>A key that was entered without an entry before, and the store of the connection there.\<close>

lemma store_find_conn:
  assumes ok: "conn_table_ok tab" and "hash_find tab k \<noteq> None"
  shows "conn_table_ok (conn_store tab k d)
    \<and> hash_find (conn_store tab k d) = (\<lambda>k'. if gfp_conn_hash_equal k k' then Some d else hash_find tab k')"
proof (cases "gfarm_hash_lookup tab k")
  case None
  with assms(2) show ?thesis by (simp add: hash_find_def)
next
  case (Some pos)
  with hk_conn.store_find [OF ok Some, of d] show ?thesis by (simp add: conn_store_def)
qed

lemma matches_insert:
  assumes m: "table_matches t cs X" and ok: "conn_table_ok tab"
    and new: "conn_find t key = None" and ke: "gfp_conn_hash_equal k key"
    and find: "hash_find tab = (\<lambda>k'. if gfp_conn_hash_equal key k' then Some d0 else conn_find t k')"
    and p: "p \<notin> X" "cc_hash_entry (cs' p) = Some k"
    and cs': "\<And>q. q \<in> X \<Longrightarrow> cc_hash_entry (cs' q) = cc_hash_entry (cs q)"
  shows "table_matches (Some (conn_store tab k p)) cs' (insert p X)"
proof -
  have kk: "gfp_conn_hash_equal key k' \<longleftrightarrow> gfp_conn_hash_equal k k'" for k'
    using ke hk_conn.equal_sym hk_conn.equal_trans by blast
  have "hash_find tab k \<noteq> None" by (simp add: find kk)
  note st = store_find_conn [OF ok this, of p]
  have none: "conn_find t k' = None" if "gfp_conn_hash_equal k k'" for k'
  proof (rule ccontr)
    assume "conn_find t k' \<noteq> None"
    then obtain q where "conn_find t k' = Some q" by blast
    then obtain k'' where q: "q \<in> X" "cc_hash_entry (cs q) = Some k''" "gfp_conn_hash_equal k'' k'"
      using m by (auto simp: table_matches_def)
    have "gfp_conn_hash_equal k'' key"
      using q(3) that ke hk_conn.equal_sym hk_conn.equal_trans by blast
    then have "conn_find t key = Some q" using m q(1,2) by (auto simp: table_matches_def)
    with new show False by simp
  qed
  have "hash_find (conn_store tab k p) k' = Some q \<longleftrightarrow> q \<in> insert p X
      \<and> (\<exists>k''. cc_hash_entry (cs' q) = Some k'' \<and> gfp_conn_hash_equal k'' k')" for k' q
  proof (cases "gfp_conn_hash_equal k k'")
    case True
    have "\<not> (q \<in> X \<and> (\<exists>k''. cc_hash_entry (cs' q) = Some k'' \<and> gfp_conn_hash_equal k'' k'))"
      using none [OF True] matches_iff [OF m, of k' q] cs' [of q] by auto
    with True st p show ?thesis by auto
  next
    case False
    then have "hash_find (conn_store tab k p) k' = conn_find t k'" using st by (simp add: find kk)
    moreover have "conn_find t k' = Some q \<longleftrightarrow>
        q \<in> X \<and> (\<exists>k''. cc_hash_entry (cs q) = Some k'' \<and> gfp_conn_hash_equal k'' k')"
      using m by (simp add: table_matches_def)
    ultimately show ?thesis using False p cs' [of q] by auto
  qed
  moreover have "\<forall>q \<in> insert p X. cc_hash_entry (cs' q) \<noteq> None"
    using m p cs' by (simp add: table_matches_def)
  ultimately show ?thesis using st by (simp add: table_matches_def)
qed

subsection \<open>The invariant\<close>

definition cache_inv :: "'c conn_cache \<Rightarrow> nat list \<Rightarrow> bool" where
  "cache_inv cache xs \<longleftrightarrow> lru_rep (lru_list cache) xs
     \<and> table_matches (hashtab cache) (cconns cache) (set xs)
     \<and> 0 < cc_table_size cache \<and> cc_table_size cache < 2 ^ 31 \<and> 0 \<le> num_cache cache
     \<and> set xs \<subseteq> allocated cache \<and> list_head \<notin> allocated cache
     \<and> (\<forall>p \<in> allocated cache - set xs. cc_hash_entry (cconns cache p) = None
          \<and> le_prev (lru_heap (lru_list cache) p) = None \<and> 0 < refs (lru_list cache) p)"

lemma cached_iff:
  "cache_inv cache xs \<Longrightarrow> p \<in> allocated cache \<Longrightarrow>
     gfp_is_cached_connection cache p \<longleftrightarrow> p \<in> set xs"
  by (cases "p \<in> set xs") (simp_all add: cache_inv_def gfp_is_cached_connection_def table_matches_def)

lemma cache_invD:
  assumes "cache_inv cache xs"
  shows "lru_rep (lru_list cache) xs" "table_matches (hashtab cache) (cconns cache) (set xs)"
    "0 < cc_table_size cache" "cc_table_size cache < 2 ^ 31" "0 \<le> num_cache cache"
    "set xs \<subseteq> allocated cache" "list_head \<notin> allocated cache"
    "distinct xs"
    "p \<in> allocated cache \<Longrightarrow> p \<notin> set xs \<Longrightarrow> cc_hash_entry (cconns cache p) = None
       \<and> le_prev (lru_heap (lru_list cache) p) = None \<and> 0 < refs (lru_list cache) p"
  using assms lru_repD(1) [of "lru_list cache" xs] by (auto simp: cache_inv_def)

lemma not_linked:
  assumes "cache_inv cache xs" and "p \<in> allocated cache" and "p \<notin> set xs"
  shows "p \<notin> set (list_head # xs)"
proof -
  have "p \<noteq> list_head" using cache_invD(7) [OF assms(1)] assms(2) by metis
  with assms(3) show ?thesis by simp
qed

text \<open>The invariant after a change of the list: the other connections are as before.\<close>

lemma cache_inv_intro:
  assumes inv: "cache_inv cache xs" and "lru_rep l ys" and "same_outside zs (lru_list cache) l"
    and "table_matches t cs (set ys)" and "set ys \<subseteq> A" and "list_head \<notin> A"
    and "cc_table_size cache' = cc_table_size cache" "num_cache cache' = num_cache cache"
    and "lru_list cache' = l" "hashtab cache' = t" "cconns cache' = cs" "allocated cache' = A"
    and other: "\<And>p. p \<in> A \<Longrightarrow> p \<notin> set ys \<Longrightarrow>
      (cc_hash_entry (cs p) = None \<and> le_prev (lru_heap l p) = None \<and> 0 < refs l p)
      \<or> (p \<in> allocated cache \<and> p \<notin> set xs \<and> p \<notin> set zs \<and> cs p = cconns cache p)"
  shows "cache_inv cache' ys"
proof -
  have "cc_hash_entry (cs p) = None \<and> le_prev (lru_heap l p) = None \<and> 0 < refs l p"
    if p: "p \<in> A" "p \<notin> set ys" for p
  proof (rule disjE [OF other [OF p]], assumption)
    assume o: "p \<in> allocated cache \<and> p \<notin> set xs \<and> p \<notin> set zs \<and> cs p = cconns cache p"
    then have "p \<notin> set (list_head # zs)" using not_linked [OF inv, of p] by simp
    with same_outside_refs [OF assms(3) this] cache_invD(9) [OF inv, of p] o show ?thesis by simp
  qed
  then show ?thesis using assms cache_invD(3-5) [OF inv] by (simp add: cache_inv_def)
qed

lemma purge_from_cache_spec:
  assumes inv: "cache_inv cache xs" and p: "p \<in> allocated cache" "0 < refs (lru_list cache) p"
  shows "\<exists>cache'. gfp_cached_connection_purge_from_cache cache p = Some cache'
    \<and> cache_inv cache' (remove1 p xs) \<and> allocated cache' = allocated cache
    \<and> refs (lru_list cache') = refs (lru_list cache)
    \<and> (\<forall>q. cc_data (cconns cache' q) = cc_data (cconns cache q))"
proof (cases "p \<in> set xs")
  case False
  with cache_invD(9) [OF inv p(1)] inv show ?thesis
    by (simp add: gfp_cached_connection_purge_from_cache_def remove1_idem)
next
  case True
  note d = cache_invD [OF inv]
  obtain tab k where tab: "hashtab cache = Some tab" "cc_hash_entry (cconns cache p) = Some k"
    using matches_table [OF d(2) True] by blast
  from purge_rep [OF d(1) True p(2)] obtain l where
    l: "gfarm_lru_cache_purge_entry (lru_list cache) p = Some l" "lru_rep l (remove1 p xs)"
      "refs l = refs (lru_list cache)" "same_outside xs (lru_list cache) l"
      "le_prev (lru_heap l p) = None" by blast
  let ?c = "set_hash_entry (cache\<lparr>lru_list := l, hashtab := Some (gfp_conn_hash_purge tab k)\<rparr>) p None"
  have set: "set (remove1 p xs) = set xs - {p}" using d(8) by (rule set_remove1_eq)
  have "table_matches (Some (gfp_conn_hash_purge tab k)) (cconns ?c) (set xs - {p})"
    by (rule matches_remove [OF d(2) [unfolded tab(1)] True tab(2)]) (simp add: set_hash_entry_def)
  then have m: "table_matches (hashtab ?c) (cconns ?c) (set (remove1 p xs))"
    using set by (simp add: set_hash_entry_def)
  have "cache_inv ?c (remove1 p xs)"
    by (rule cache_inv_intro [OF inv l(2,4) m, where A = "allocated cache"])
      (use d(6,7) l(3,5) p set in \<open>auto simp: set_hash_entry_def\<close>)
  with l tab show ?thesis by (auto simp: gfp_cached_connection_purge_from_cache_def set_hash_entry_def)
qed

lemma set_data_inv:
  assumes inv: "cache_inv cache xs"
  shows "cache_inv (gfp_cached_connection_set_data cache p d) xs"
  using inv matches_cong [OF cache_invD(2) [OF inv], of "cconns (gfp_cached_connection_set_data cache p d)"]
  by (auto simp: cache_inv_def gfp_cached_connection_set_data_def)

lemma used_spec:
  assumes inv: "cache_inv cache xs" and p: "p \<in> allocated cache"
  shows "\<exists>cache'. gfp_cached_connection_used cache p = Some cache'
    \<and> cache_inv cache' (if p \<in> set xs then p # remove1 p xs else xs)
    \<and> allocated cache' = allocated cache \<and> cconns cache' = cconns cache
    \<and> refs (lru_list cache') = refs (lru_list cache)"
proof (cases "p \<in> set xs")
  case False
  with cached_iff [OF inv p] inv show ?thesis by (simp add: gfp_cached_connection_used_def)
next
  case True
  note d = cache_invD [OF inv]
  from used_rep [OF d(1) True] obtain l where
    l: "gfarm_lru_cache_access_entry (lru_list cache) p = Some l" "lru_rep l (p # remove1 p xs)"
      "refs l = refs (lru_list cache)" "same_outside xs (lru_list cache) l" by blast
  have set: "set (p # remove1 p xs) = set xs" using True d(8) by (auto simp: set_remove1_eq)
  have "cache_inv (cache\<lparr>lru_list := l\<rparr>) (p # remove1 p xs)"
    by (rule cache_inv_intro [OF inv l(2,4), where t = "hashtab cache" and cs = "cconns cache"
          and A = "allocated cache"]) (use d(2,6,7) in \<open>simp_all only: set\<close>, simp_all)
  with l True cached_iff [OF inv p] show ?thesis by (auto simp: gfp_cached_connection_used_def)
qed

subsection \<open>Disposal of idle connections\<close>

text \<open>\<open>dispose_all\<close>: what the callback does to the world, for these connections in this order.\<close>

definition dispose_all ::
  "('c option \<Rightarrow> 'w \<Rightarrow> 'w) \<Rightarrow> (nat \<Rightarrow> 'c cached_connection) \<Rightarrow> nat list \<Rightarrow> 'w \<Rightarrow> 'w" where
  "dispose_all dispose cs vs w = fold (\<lambda>p. dispose (cc_data (cs p))) vs w"

lemma gc_fold:
  assumes "table_matches (hashtab cache) (cconns cache) X" and "distinct vs" and "set vs \<subseteq> X"
  shows "\<exists>t. fold (gfp_cached_connection_gc_entry dispose) vs (Some (cache, w))
      = Some (cache\<lparr>hashtab := t, allocated := allocated cache - set vs\<rparr>,
              dispose_all dispose (cconns cache) vs w)
    \<and> table_matches t (cconns cache) (X - set vs) \<and> (hashtab cache \<noteq> None \<longrightarrow> t \<noteq> None)"
  using assms
proof (induction vs arbitrary: cache X w)
  case Nil
  then show ?case by (intro exI [of _ "hashtab cache"]) (simp add: dispose_all_def)
next
  case (Cons v vs)
  then have v: "v \<in> X" by simp
  obtain tab k where tab: "hashtab cache = Some tab" "cc_hash_entry (cconns cache v) = Some k"
    using matches_table [OF Cons.prems(1) v] by blast
  let ?c = "gfp_uncached_connection_dispose (cache\<lparr>hashtab := Some (gfp_conn_hash_purge tab k)\<rparr>) v"
  have step: "gfp_cached_connection_gc_entry dispose v (Some (cache, w))
      = Some (?c, dispose (cc_data (cconns cache v)) w)"
    using tab by (simp add: gfp_cached_connection_gc_entry_def)
  have m: "table_matches (hashtab ?c) (cconns ?c) (X - {v})"
    using matches_remove [OF Cons.prems(1) [unfolded tab(1)] v tab(2), of "cconns cache"]
    by (simp add: gfp_uncached_connection_dispose_def)
  obtain t where t: "fold (gfp_cached_connection_gc_entry dispose) vs
        (Some (?c, dispose (cc_data (cconns cache v)) w))
      = Some (?c\<lparr>hashtab := t, allocated := allocated ?c - set vs\<rparr>,
              dispose_all dispose (cconns ?c) vs (dispose (cc_data (cconns cache v)) w))"
    "table_matches t (cconns ?c) (X - {v} - set vs)" "hashtab ?c \<noteq> None \<longrightarrow> t \<noteq> None"
    using Cons.IH [OF m, of "dispose (cc_data (cconns cache v)) w"] Cons.prems(2,3) by auto
  have sets: "A - {v} - set vs = A - insert v (set vs)" for A by auto
  have "?c\<lparr>hashtab := t, allocated := allocated ?c - set vs\<rparr>
      = cache\<lparr>hashtab := t, allocated := allocated cache - insert v (set vs)\<rparr>"
    by (simp add: gfp_uncached_connection_dispose_def sets)
  moreover have "cconns ?c = cconns cache" by (simp add: gfp_uncached_connection_dispose_def)
  moreover have "dispose_all dispose (cconns cache) vs (dispose (cc_data (cconns cache v)) w)
      = dispose_all dispose (cconns cache) (v # vs) w" by (simp add: dispose_all_def)
  ultimately have "fold (gfp_cached_connection_gc_entry dispose) (v # vs) (Some (cache, w))
      = Some (cache\<lparr>hashtab := t, allocated := allocated cache - set (v # vs)\<rparr>,
              dispose_all dispose (cconns cache) (v # vs) w)"
    and "table_matches t (cconns cache) (X - set (v # vs))"
    using t step sets by simp_all
  moreover have "t \<noteq> None" using t(3) by (simp add: gfp_uncached_connection_dispose_def)
  ultimately show ?case by blast
qed

text \<open>The idle connections that a collection down to \<open>t\<close> takes: the least recently used ones.\<close>

definition idle :: "'c conn_cache \<Rightarrow> nat list \<Rightarrow> nat list" where
  "idle cache xs = filter (\<lambda>p. refs (lru_list cache) p = 0) xs"

definition collected :: "'c conn_cache \<Rightarrow> nat list \<Rightarrow> int \<Rightarrow> nat list" where
  "collected cache xs t = take (nat (int (length (idle cache xs)) - t)) (rev (idle cache xs))"

lemma victims_collected:
  "lru_rep (lru_list cache) xs \<Longrightarrow>
     victims (free_cached_entries (lru_list cache) - t) (refs (lru_list cache)) xs = collected cache xs t"
  using lru_repD(4) [of "lru_list cache" xs] by (simp add: victims_def collected_def idle_def)

lemma collected_facts:
  assumes "distinct xs"
  shows "set (collected cache xs t) \<subseteq> set (idle cache xs)" "distinct (collected cache xs t)"
    "set (idle cache xs) \<subseteq> set xs"
  using assms by (auto simp: collected_def idle_def dest: in_set_takeD)

lemma gc_spec:
  assumes inv: "cache_inv cache xs" and t: "0 \<le> t"
  defines "vs \<equiv> collected cache xs t"
  shows "\<exists>cache'. gfp_cached_connection_gc_internal dispose cache t w
      = Some (cache', dispose_all dispose (cconns cache) vs w)
    \<and> cache_inv cache' (filter (\<lambda>p. p \<notin> set vs) xs)
    \<and> allocated cache' = allocated cache - set vs \<and> cconns cache' = cconns cache
    \<and> refs (lru_list cache') = refs (lru_list cache)
    \<and> (hashtab cache \<noteq> None \<longrightarrow> hashtab cache' \<noteq> None)"
proof -
  note d = cache_invD [OF inv]
  note cf = collected_facts(1,2) [OF d(8), of cache t, folded vs_def]
  have sub: "set vs \<subseteq> set xs" using cf(1) collected_facts(3) [OF d(8), of cache] by blast
  from gc_rep [OF d(1) t, of "gfp_cached_connection_gc_entry dispose" "Some (cache, w)"] obtain l where
    l: "gfarm_lru_cache_gc (lru_list cache) t (gfp_cached_connection_gc_entry dispose) (Some (cache, w))
        = Some (l, fold (gfp_cached_connection_gc_entry dispose) vs (Some (cache, w)))"
      "lru_rep l (filter (\<lambda>y. y \<notin> set vs) xs)" "refs l = refs (lru_list cache)"
      "same_outside xs (lru_list cache) l"
    unfolding vs_def victims_collected [OF d(1)] by blast
  from gc_fold [OF d(2) cf(2) sub, of dispose w] obtain tb where
    f: "fold (gfp_cached_connection_gc_entry dispose) vs (Some (cache, w))
        = Some (cache\<lparr>hashtab := tb, allocated := allocated cache - set vs\<rparr>,
                dispose_all dispose (cconns cache) vs w)"
      "table_matches tb (cconns cache) (set xs - set vs)" "hashtab cache \<noteq> None \<longrightarrow> tb \<noteq> None" by blast
  let ?c = "cache\<lparr>hashtab := tb, allocated := allocated cache - set vs, lru_list := l\<rparr>"
  have set: "set (filter (\<lambda>y. y \<notin> set vs) xs) = set xs - set vs" by auto
  have "cache_inv ?c (filter (\<lambda>y. y \<notin> set vs) xs)"
    by (rule cache_inv_intro [OF inv l(2,4), where t = tb and cs = "cconns cache"
          and A = "allocated cache - set vs"]) (use f(2) set d(6,7) in auto)
  with l(1,3) f(1,3) show ?thesis by (auto simp: gfp_cached_connection_gc_internal_def)
qed

subsection \<open>Giving a connection back\<close>

lemma conn_free_spec:
  fixes dispose :: "'c option \<Rightarrow> 'w \<Rightarrow> 'w"
  assumes inv: "cache_inv cache xs" and p: "p \<in> allocated cache" "0 < refs (lru_list cache) p"
  defines "cache1 \<equiv> cache\<lparr>lru_list := set_acquired p (refs (lru_list cache) p - 1) (lru_list cache)\<rparr>"
  defines "vs \<equiv> (if refs (lru_list cache) p = 1
                  then if p \<in> set xs then collected cache1 xs (num_cache cache) else [p] else [])"
  shows "\<exists>cache'. gfp_cached_or_uncached_connection_free dispose cache p w
      = Some (cache', dispose_all dispose (cconns cache) vs w)
    \<and> cache_inv cache' (filter (\<lambda>q. q \<notin> set vs) xs)
    \<and> allocated cache' = allocated cache - set vs \<and> cconns cache' = cconns cache
    \<and> refs (lru_list cache') = (refs (lru_list cache))(p := refs (lru_list cache) p - 1)"
proof (cases "p \<in> set xs")
  case True
  note d = cache_invD [OF inv]
  from delref_rep [OF d(1) True p(2)] obtain l where
    l: "gfarm_lru_cache_delref_entry (lru_list cache) p = Some (l, refs (lru_list cache) p = 1)"
      "lru_rep l xs" "refs l = (refs (lru_list cache))(p := refs (lru_list cache) p - 1)"
      "same_outside xs (lru_list cache) l" by blast
  have inv1: "cache_inv (cache\<lparr>lru_list := l\<rparr>) xs"
    by (rule cache_inv_intro [OF inv l(2,4) d(2), where A = "allocated cache"])
      (use d(6,7) in simp_all)
  show ?thesis
  proof (cases "refs (lru_list cache) p = 1")
    case last: True
    have "idle (cache\<lparr>lru_list := l\<rparr>) xs = idle cache1 xs"
      by (simp add: idle_def cache1_def l(3))
    then have vs: "vs = collected (cache\<lparr>lru_list := l\<rparr>) xs (num_cache cache)"
      using last True by (simp add: vs_def collected_def)
    have "gfp_is_cached_connection (cache\<lparr>lru_list := l\<rparr>) p"
      using cached_iff [OF inv1, of p] True p(1) by simp
    then have run: "gfp_cached_or_uncached_connection_free dispose cache p w
        = gfp_cached_connection_gc_internal dispose (cache\<lparr>lru_list := l\<rparr>) (num_cache cache) w"
      using l(1) last by (simp add: gfp_cached_or_uncached_connection_free_def)
    from gc_spec [OF inv1 d(5), of dispose w, folded vs] show ?thesis
      using run l(3) by auto
  next
    case False
    with l inv1 show ?thesis
      by (simp add: gfp_cached_or_uncached_connection_free_def vs_def dispose_all_def)
  qed
next
  case False
  note d = cache_invD [OF inv]
  note z = d(9) [OF p(1) False]
  let ?l = "set_acquired p (refs (lru_list cache) p - 1) (lru_list cache)"
  have dr: "gfarm_lru_cache_delref_entry (lru_list cache) p = Some (?l, refs (lru_list cache) p = 1)"
    "lru_rep ?l xs"
    using delref_purged [OF d(1) not_linked [OF inv p(1) False] p(2)] z by simp_all
  have same: "same_outside [p] (lru_list cache) ?l" by (simp add: same_outside_def)
  have vs: "vs = (if refs (lru_list cache) p = 1 then [p] else [])"
    using False by (simp add: vs_def)
  have flt: "filter (\<lambda>q. q \<notin> set vs) xs = xs" using False vs by (auto simp: filter_id_conv)
  let ?c = "cache\<lparr>lru_list := ?l, allocated := allocated cache - set vs\<rparr>"
  have "cache_inv ?c xs"
    by (rule cache_inv_intro [OF inv dr(2) same d(2), where A = "allocated cache - set vs"])
      (use d(6,7) False vs z p(2) in auto)
  moreover have "gfp_cached_or_uncached_connection_free dispose cache p w
      = Some (?c, dispose_all dispose (cconns cache) vs w)"
    using dr(1) z vs
    by (simp add: gfp_cached_or_uncached_connection_free_def gfp_is_cached_connection_def
        gfp_uncached_connection_dispose_def dispose_all_def)
  ultimately show ?thesis using flt by (intro exI [of _ ?c]) simp
qed

text \<open>New connections, outside of the cache.\<close>

lemma init_uncached_rep:
  assumes "lru_rep l xs" and "p \<notin> set (list_head # xs)"
  shows "lru_rep (gfarm_lru_init_uncached_entry l p) xs
    \<and> refs (gfarm_lru_init_uncached_entry l p) = (refs l)(p := 1)
    \<and> le_prev (lru_heap (gfarm_lru_init_uncached_entry l p) p) = None
    \<and> same_outside [p] l (gfarm_lru_init_uncached_entry l p)"
proof -
  note r = lru_repD [OF assms(1)]
  let ?l = "gfarm_lru_init_uncached_entry l p"
  have refs: "refs ?l = (refs l)(p := 1)"
    by (simp add: gfarm_lru_init_uncached_entry_def refs_def fun_eq_iff)
  have "lru_rep ?l xs"
  proof (rule lru_repI [OF r(1)])
    show "dll (lru_heap ?l) list_head xs list_head"
      by (rule dll_cong [OF r(2)]) (use assms(2) in \<open>auto simp: gfarm_lru_init_uncached_entry_def\<close>)
    show "0 \<le> refs ?l x" if "x \<in> set xs" for x using r(3) [OF that] refs by simp
    show "free_cached_entries ?l = int (length (filter (\<lambda>x. refs ?l x = 0) xs))"
      using r(4) assms(2) filter_upd [of p xs "refs l" 1] unfolding refs
      by (simp add: gfarm_lru_init_uncached_entry_def)
  qed
  with refs show ?thesis by (simp add: gfarm_lru_init_uncached_entry_def same_outside_def)
qed

lemma new_spec:
  assumes inv: "cache_inv cache xs" and p: "p \<noteq> list_head" "p \<notin> allocated cache"
  shows "\<exists>cache'. gfp_uncached_connection_new (Some p) cache = (cache', Inr p)
    \<and> cache_inv cache' xs \<and> allocated cache' = insert p (allocated cache)
    \<and> refs (lru_list cache') = (refs (lru_list cache))(p := 1)"
proof -
  note d = cache_invD [OF inv]
  have out: "p \<notin> set (list_head # xs)" using p d(6) by auto
  note i = init_uncached_rep [OF d(1) out]
  obtain c r where new: "gfp_uncached_connection_new (Some p) cache = (c, r)"
    by (cases "gfp_uncached_connection_new (Some p) cache")
  have c: "c = cache\<lparr>allocated := insert p (allocated cache),
      cconns := (cconns cache)(p := \<lparr>cc_hash_entry = None, cc_data = None\<rparr>),
      lru_list := gfarm_lru_init_uncached_entry (lru_list cache) p\<rparr>" "r = Inr p"
    using new by (simp_all add: gfp_uncached_connection_new_def)
  have m: "table_matches (hashtab cache)
      ((cconns cache)(p := \<lparr>cc_hash_entry = None, cc_data = None\<rparr>)) (set xs)"
    by (rule matches_cong [OF d(2)]) (use out in auto)
  have "cache_inv c xs"
    by (rule cache_inv_intro [OF inv conjunct1 [OF i] _ m, where zs = "[p]" and A = "insert p (allocated cache)"])
      (use i c d(6,7) p out in \<open>auto simp del: neq0_conv\<close>)
  with new c i show ?thesis by simp
qed

subsection \<open>Acquiring a connection\<close>

lemma matches_find_cong:
  "table_matches t cs X \<Longrightarrow> table_opt_ok t' \<Longrightarrow> conn_find t' = conn_find t \<Longrightarrow> table_matches t' cs X"
  by (simp add: table_matches_def)

lemma inv_table_change:
  assumes inv: "cache_inv cache xs" and "table_opt_ok t" and "conn_find t = conn_find (hashtab cache)"
  shows "cache_inv (cache\<lparr>hashtab := t\<rparr>) xs"
  using inv matches_find_cong [OF cache_invD(2) [OF inv] assms(2,3)] by (simp add: cache_inv_def)

text \<open>The table when the entry that was just created is purged again, for want of memory.\<close>

lemma purge_created:
  assumes ok: "conn_table_ok tab" and "table_opt_ok t" and new: "conn_find t key = None"
    and find: "hash_find tab = (\<lambda>k. if gfp_conn_hash_equal key k then Some d0 else conn_find t k)"
    and ke: "gfp_conn_hash_equal k key"
  shows "conn_table_ok (gfp_conn_hash_purge tab k) \<and> hash_find (gfp_conn_hash_purge tab k) = conn_find t"
proof -
  obtain tab' b where pu: "gfarm_hash_purge tab k = (tab', b)" by (cases "gfarm_hash_purge tab k")
  note sp = hk_conn.table_purge_spec [OF ok pu]
  have kk: "gfp_conn_hash_equal k k' \<longleftrightarrow> gfp_conn_hash_equal key k'" for k'
    using ke hk_conn.equal_sym hk_conn.equal_trans by blast
  have none: "conn_find t k' = None" if "gfp_conn_hash_equal key k'" for k'
  proof (cases t)
    case (Some a)
    with assms(2) have "conn_table_ok a" by simp
    from hk_conn.hash_find_cong [OF this that] new Some show ?thesis by simp
  qed simp
  have "hash_find tab' k' = conn_find t k'" for k'
    using sp find none [of k'] by (simp add: kk)
  with sp pu show ?thesis by (simp add: gfp_conn_hash_purge_def fun_eq_iff)
qed

lemma acquire_spec:
  fixes cache :: "'c conn_cache" and hostname username :: "byte list" and port :: int
  assumes inv: "cache_inv cache xs" and port: "0 \<le> port" "port \<le> 65535"
    and malp: "\<And>p. malp = Some p \<Longrightarrow> p \<noteq> list_head \<and> p \<notin> allocated cache"
  defines "key \<equiv> \<lparr>id_hostname = hostname, id_port = port, id_username = username\<rparr>"
  shows "\<exists>cache' r. gfp_cached_connection_acquire mal duph dupu malp username cache hostname port
      = Some (cache', r)
    \<and> (case r of
         Inl e \<Rightarrow> e = GFARM_ERR_NO_MEMORY \<and> cache_inv cache' xs \<and> allocated cache' = allocated cache
           \<and> cconns cache' = cconns cache \<and> lru_list cache' = lru_list cache
           \<and> conn_find (hashtab cache) key = None
       | Inr (p, False) \<Rightarrow> conn_find (hashtab cache) key = Some p
           \<and> cache_inv cache' (p # remove1 p xs) \<and> allocated cache' = allocated cache
           \<and> cconns cache' = cconns cache
           \<and> refs (lru_list cache') = (refs (lru_list cache))(p := refs (lru_list cache) p + 1)
       | Inr (p, True) \<Rightarrow> conn_find (hashtab cache) key = None \<and> malp = Some p
           \<and> cache_inv cache' (p # xs) \<and> allocated cache' = insert p (allocated cache)
           \<and> refs (lru_list cache') = (refs (lru_list cache))(p := 1)
           \<and> cconns cache' = (cconns cache)(p := cconns cache' p) \<and> cc_data (cconns cache' p) = None
           \<and> (\<exists>k. cc_hash_entry (cconns cache' p) = Some k \<and> gfp_conn_hash_equal k key))
    \<and> ((\<forall>m. mal m) \<and> duph \<and> dupu \<and> malp \<noteq> None \<or> conn_find (hashtab cache) key \<noteq> None \<longrightarrow>
        (\<exists>p c. r = Inr (p, c)))"
proof -
  note d = cache_invD [OF inv]
  have tok: "table_opt_ok (hashtab cache)" using d(2) by (simp add: table_matches_def)
  note run = gfp_cached_connection_acquire_def [of mal duph dupu malp username cache hostname port]
  obtain t r where en: "gfp_conn_hash_enter mal duph dupu 0 (hashtab cache) (cc_table_size cache)
        8 hostname port username = Some (t, r)"
    and t: "table_opt_ok t"
    and res: "case r of
         Inl e \<Rightarrow> e = GFARM_ERR_NO_MEMORY \<and> conn_find t = conn_find (hashtab cache)
           \<and> conn_find (hashtab cache) key = None
       | Inr (k', created) \<Rightarrow>
           t \<noteq> None \<and> gfp_conn_hash_equal k' key \<and> (created \<longleftrightarrow> conn_find (hashtab cache) key = None)
           \<and> conn_find t = (if created then (\<lambda>k. if gfp_conn_hash_equal key k then Some 0
                                            else conn_find (hashtab cache) k)
                           else conn_find (hashtab cache))"
    and good: "(\<forall>m. mal m) \<and> duph \<and> dupu \<or> conn_find (hashtab cache) key \<noteq> None \<longrightarrow>
        (\<exists>k' c. r = Inr (k', c))"
    using conn_enter_spec [OF tok d(3,4) port, of mal duph dupu "0 :: nat" hostname username,
        folded key_def] by blast
  show ?thesis
  proof (cases r)
    case (Inl e)
    with res inv_table_change [OF inv t] good show ?thesis by (auto simp: run en)
  next
    case (Inr kc)
    obtain k created where kc: "kc = (k, created)" by (cases kc)
    from Inr kc res obtain tab where tab: "t = Some tab" by auto
    from Inr kc res have k: "gfp_conn_hash_equal k key"
      and cr: "created \<longleftrightarrow> conn_find (hashtab cache) key = None" by simp_all
    have ok: "conn_table_ok tab" using t tab by simp
    show ?thesis
    proof (cases created)
      case False
      have find: "conn_find t = conn_find (hashtab cache)" using Inr kc res False by simp
      from False cr obtain q where q: "conn_find (hashtab cache) key = Some q" by auto
      with matches_iff [OF d(2)] have qx: "q \<in> set xs" by blast
      have "hash_find tab k = Some q"
        using hk_conn.hash_find_cong [OF ok k] find q tab by simp
      then obtain he where he: "conn_entry tab k = Some he" "he_data he = q"
        by (auto simp: hash_find_entry)
      from addref_rep [OF d(1) qx] obtain l where
        l: "gfarm_lru_cache_addref_entry (lru_list cache) q = Some l" "lru_rep l (q # remove1 q xs)"
          "refs l = (refs (lru_list cache))(q := refs (lru_list cache) q + 1)"
          "same_outside xs (lru_list cache) l" by blast
      have set: "set (q # remove1 q xs) = set xs" using qx d(8) by (auto simp: set_remove1_eq)
      have m: "table_matches t (cconns cache) (set (q # remove1 q xs))"
        unfolding set by (rule matches_find_cong [OF d(2) t find])
      have "cache_inv (cache\<lparr>hashtab := t, lru_list := l\<rparr>) (q # remove1 q xs)"
        by (rule cache_inv_intro [OF inv l(2,4) m, where A = "allocated cache"])
          (use d(6,7) in \<open>simp_all only: set\<close>, simp_all)
      moreover have "gfp_cached_connection_acquire mal duph dupu malp username cache hostname port
          = Some (cache\<lparr>hashtab := t, lru_list := l\<rparr>, Inr (q, False))"
        using Inr kc False tab he l(1) by (simp add: run en gfarm_hash_entry_data_def)
      ultimately show ?thesis using q l(3) by (simp add: ex_bool_eq)
    next
      case True
      have new: "conn_find (hashtab cache) key = None" using True cr by simp
      have find: "hash_find tab = (\<lambda>k. if gfp_conn_hash_equal key k then Some 0
            else conn_find (hashtab cache) k)"
        using Inr kc res True tab by simp
      show ?thesis
      proof (cases malp)
        case None
        note pc = purge_created [OF ok tok new find k]
        have "cache_inv (cache\<lparr>hashtab := Some (gfp_conn_hash_purge tab k)\<rparr>) xs"
          by (rule inv_table_change [OF inv]) (use pc in simp_all)
        moreover have "gfp_cached_connection_acquire mal duph dupu malp username cache hostname port
            = Some (cache\<lparr>hashtab := Some (gfp_conn_hash_purge tab k)\<rparr>, Inl GFARM_ERR_NO_MEMORY)"
          unfolding run using Inr kc True tab None by (simp add: en)
        ultimately show ?thesis using None new by simp
      next
        case (Some p)
        note p = malp [OF Some]
        have out: "p \<notin> set (list_head # xs)" using p d(6) by auto
        from add_rep [OF d(1) out] obtain l where
          l: "gfarm_lru_cache_add_entry (lru_list cache) p = Some l" "lru_rep l (p # xs)"
            "refs l = (refs (lru_list cache))(p := 1)" "same_outside (p # xs) (lru_list cache) l"
          by blast
        let ?cs = "(cconns cache)(p := \<lparr>cc_hash_entry = Some k, cc_data = None\<rparr>)"
        have "table_matches (Some (conn_store tab k p)) ?cs (insert p (set xs))"
          by (rule matches_insert [OF d(2) ok new k find]) (use out in auto)
        then have m: "table_matches (Some (conn_store tab k p)) ?cs (set (p # xs))" by simp
        have "cache_inv (cache\<lparr>hashtab := Some (conn_store tab k p), lru_list := l,
            allocated := insert p (allocated cache), cconns := ?cs\<rparr>) (p # xs)"
          by (rule cache_inv_intro [OF inv l(2,4) m, where A = "insert p (allocated cache)"])
            (use d(6,7) p in auto)
        moreover have "gfp_cached_connection_acquire mal duph dupu malp username cache hostname port
            = Some (cache\<lparr>hashtab := Some (conn_store tab k p), lru_list := l,
                allocated := insert p (allocated cache), cconns := ?cs\<rparr>, Inr (p, True))"
          unfolding run using Inr kc True tab Some l(1) by (simp add: en)
        ultimately show ?thesis using new Some l(3) k by (simp add: ex_bool_eq)
      qed
    qed
  qed
qed

lemma enter_cache_spec:
  fixes cache :: "'c conn_cache" and hostname username :: "byte list" and port :: int
  assumes inv: "cache_inv cache xs" and port: "0 \<le> port" "port \<le> 65535"
    and p: "p \<in> allocated cache" "p \<notin> set xs"
  shows "\<exists>cache' e. gfp_uncached_connection_enter_cache mal duph dupu username cache p hostname port
      = Some (cache', e)
    \<and> cache_inv cache' (if e = GFARM_ERR_NO_ERROR then p # xs else xs)
    \<and> allocated cache' = allocated cache \<and> refs (lru_list cache') = refs (lru_list cache)"
proof -
  note d = cache_invD [OF inv]
  define key where "key = \<lparr>id_hostname = hostname, id_port = port, id_username = username\<rparr>"
  have tok: "table_opt_ok (hashtab cache)" using d(2) by (simp add: table_matches_def)
  note run = gfp_uncached_connection_enter_cache_def [of mal duph dupu username cache p hostname port]
  have unc: "\<not> gfp_is_cached_connection cache p" using cached_iff [OF inv p(1)] p(2) by simp
  obtain t r where en: "gfp_conn_hash_enter mal duph dupu 0 (hashtab cache) (cc_table_size cache)
        8 hostname port username = Some (t, r)"
    and t: "table_opt_ok t"
    and res: "case r of
         Inl e \<Rightarrow> e = GFARM_ERR_NO_MEMORY \<and> conn_find t = conn_find (hashtab cache)
           \<and> conn_find (hashtab cache) key = None
       | Inr (k', created) \<Rightarrow>
           t \<noteq> None \<and> gfp_conn_hash_equal k' key \<and> (created \<longleftrightarrow> conn_find (hashtab cache) key = None)
           \<and> conn_find t = (if created then (\<lambda>k. if gfp_conn_hash_equal key k then Some 0
                                            else conn_find (hashtab cache) k)
                           else conn_find (hashtab cache))"
    using conn_enter_spec [OF tok d(3,4) port, of mal duph dupu "0 :: nat" hostname username,
        folded key_def] by blast
  show ?thesis
  proof (cases r)
    case (Inl e)
    with res inv_table_change [OF inv t] unc show ?thesis by (auto simp: run en)
  next
    case (Inr kc)
    obtain k created where kc: "kc = (k, created)" by (cases kc)
    from Inr kc res obtain tab where tab: "t = Some tab" by auto
    show ?thesis
    proof (cases created)
      case False
      with Inr kc res have "conn_find t = conn_find (hashtab cache)" by simp
      from inv_table_change [OF inv t this] Inr kc False unc show ?thesis by (simp add: run en)
    next
      case True
      have ok: "conn_table_ok tab" using t tab by simp
      have k: "gfp_conn_hash_equal k key" and new: "conn_find (hashtab cache) key = None"
        and find: "hash_find tab = (\<lambda>k. if gfp_conn_hash_equal key k then Some 0
            else conn_find (hashtab cache) k)"
        using Inr kc res True tab by simp_all
      note z = d(9) [OF p]
      have dist: "distinct (list_head # p # xs)"
        using not_linked [OF inv p] lru_repD(1) [OF d(1)] by auto
      from link_spec [OF dist lru_repD(2) [OF d(1)]] obtain l where
        l: "gfarm_lru_cache_link_entry (lru_list cache) p = Some l"
          "dll (lru_heap l) list_head (p # xs) list_head"
          "\<forall>y. le_acquired (lru_heap l y) = le_acquired (lru_heap (lru_list cache) y)"
          "\<forall>y. y \<notin> set (list_head # p # xs) \<longrightarrow> lru_heap l y = lru_heap (lru_list cache) y"
          "free_cached_entries l = free_cached_entries (lru_list cache)" by blast
      have refs: "refs l = refs (lru_list cache)" using l(3) by (simp add: refs_def fun_eq_iff)
      have rep: "lru_rep l (p # xs)"
      proof (rule lru_repI [OF dist l(2)])
        show "0 \<le> refs l y" if "y \<in> set (p # xs)" for y
          using that lru_repD(3) [OF d(1), of y] z refs by auto
        show "free_cached_entries l = int (length (filter (\<lambda>y. refs l y = 0) (p # xs)))"
          using lru_repD(4) [OF d(1)] l(5) z refs by simp
      qed
      have same: "same_outside (p # xs) (lru_list cache) l" using l(4) by (simp add: same_outside_def)
      let ?c = "set_hash_entry (cache\<lparr>hashtab := Some (conn_store tab k p), lru_list := l\<rparr>) p (Some k)"
      have "table_matches (Some (conn_store tab k p)) (cconns ?c) (insert p (set xs))"
        by (rule matches_insert [OF d(2) ok new k find p(2)])
          (use p(2) in \<open>auto simp: set_hash_entry_def\<close>)
      then have m: "table_matches (hashtab ?c) (cconns ?c) (set (p # xs))"
        by (simp add: set_hash_entry_def)
      have "cache_inv ?c (p # xs)"
        by (rule cache_inv_intro [OF inv rep same m, where A = "allocated cache"])
          (use d(6,7) p in \<open>auto simp: set_hash_entry_def\<close>)
      moreover have "gfp_uncached_connection_enter_cache mal duph dupu username cache p hostname port
          = Some (?c, GFARM_ERR_NO_ERROR)"
        using Inr kc True tab l(1) unc by (simp add: run en)
      ultimately show ?thesis using refs by (simp add: set_hash_entry_def)
    qed
  qed
qed

subsection \<open>Termination of the cache\<close>

text \<open>The iterator of \<open>terminate\<close> stands at the head of a chain, and the chains before it are empty.\<close>

definition at_front :: "'d conn_table \<Rightarrow> hash_iterator \<Rightarrow> bool" where
  "at_front tab it \<longleftrightarrow> it_standing tab it \<and> snd (it_pp it) = 0
     \<and> (\<forall>b < fst (it_pp it). hash_chain tab b = [])"

lemma front_valid:
  "at_front tab it \<Longrightarrow> gfarm_hash_iterator_valid_entry tab it = (v, it') \<Longrightarrow> v \<Longrightarrow> at_front tab it'"
proof (induction tab it arbitrary: v it' rule: gfarm_hash_iterator_valid_entry.induct)
  case (1 tab it)
  note st = "1.prems"(1) [unfolded at_front_def it_standing_def]
  note unf = "1.prems"(2) [unfolded gfarm_hash_iterator_valid_entry.simps [of tab it]]
  have lt: "\<not> bucket_index it \<ge> table_size tab" using st by simp
  show ?case
  proof (cases "hash_at tab (it_pp it) = None")
    case False
    with unf lt "1.prems"(1) show ?thesis by auto
  next
    case True
    then have e: "hash_chain tab (fst (it_pp it)) = []"
      using st by (auto simp: hash_at_def split: if_splits)
    let ?it1 = "it\<lparr>bucket_index := bucket_index it + 1\<rparr>"
    let ?it2 = "?it1\<lparr>it_pp := (nat (bucket_index ?it1), 0)\<rparr>"
    have n: "\<not> bucket_index ?it1 \<ge> table_size tab" using unf lt True "1.prems"(3) by (auto split: if_splits)
    then have step: "gfarm_hash_iterator_valid_entry tab ?it2 = (v, it')" using unf lt True by simp
    have "nat (bucket_index ?it1) = Suc (fst (it_pp it))" using st by simp
    then have "at_front tab ?it2"
      using st n e by (auto simp: at_front_def it_standing_def less_Suc_eq)
    from "1.IH" [OF lt _ refl n this step "1.prems"(3)] True show ?thesis by simp
  qed
qed

lemma front_rest_empty:
  assumes ok: "conn_table_ok tab" and "at_front tab it" and "it_rest tab it = []"
  shows "hash_find tab k = None"
proof -
  have "hash_chain tab b = []" if b: "b < length (buckets tab)" for b
  proof (cases "b < fst (it_pp it)")
    case True
    with assms(2) show ?thesis by (simp add: at_front_def)
  next
    case False
    have rest: "hash_chain tab (fst (it_pp it)) = []"
      "\<forall>ps \<in> set (drop (Suc (fst (it_pp it))) (buckets tab)). ps = []"
      using assms(2,3) by (simp_all add: at_front_def it_rest_def)
    show ?thesis
    proof (cases "b = fst (it_pp it)")
      case False
      with \<open>\<not> b < fst (it_pp it)\<close> have "Suc (fst (it_pp it)) \<le> b" by simp
      then have "drop (Suc (fst (it_pp it))) (buckets tab) ! (b - Suc (fst (it_pp it))) = buckets tab ! b"
        and "b - Suc (fst (it_pp it)) < length (drop (Suc (fst (it_pp it))) (buckets tab))"
        using b by simp_all
      then have "buckets tab ! b \<in> set (drop (Suc (fst (it_pp it))) (buckets tab))" by (metis nth_mem)
      with rest(2) show ?thesis by (simp add: hash_chain_def)
    qed (use rest in simp)
  qed
  then show ?thesis using hk_conn.bucket_less [OF ok, of k] by (simp add: hash_find_chain)
qed

text \<open>One round: the entry at the head of the chain is found by its own key, and is purged.\<close>

lemma front_purge:
  assumes ok: "conn_table_ok tab" and front: "at_front tab it" and at: "hash_at tab (it_pp it) = Some e"
  shows "hash_find tab (he_key e) = Some (he_data e)
    \<and> gfp_conn_hash_iterator_purge tab it = (gfp_conn_hash_purge tab (he_key e), it)
    \<and> at_front (gfp_conn_hash_purge tab (he_key e)) it"
proof -
  obtain b where b: "it_pp it = (b, 0)" using front by (cases "it_pp it") (simp add: at_front_def)
  have st: "b < length (buckets tab)" using front b by (simp add: at_front_def it_standing_def)
  obtain ps where ch: "hash_chain tab b = e # ps"
    using at b by (cases "hash_chain tab b") (auto simp: hash_at_def split: if_splits)
  have bk: "HASH_BUCKET tab (he_key e) = b" and eq: "ht_equal tab = gfp_conn_hash_equal"
    using ok st ch by (auto simp: table_ok_def)
  have look: "GFARM_HASH_LOOKUP_INTERNAL tab (he_key e) = (b, 0)"
    using ch by (simp add: GFARM_HASH_LOOKUP_INTERNAL_def bk eq)
  have find: "hash_find tab (he_key e) = Some (he_data e)"
    using ch by (simp add: hash_find_chain bk eq)
  have pu: "gfp_conn_hash_purge tab (he_key e) = hash_unlink tab (b, 0)"
    using at b by (simp add: gfp_conn_hash_purge_def gfarm_hash_purge_def look)
  have "gfarm_hash_iterator_valid_entry tab it = (True, it)"
    using at front
    by (subst gfarm_hash_iterator_valid_entry.simps) (simp add: at_front_def it_standing_def)
  then have "gfp_conn_hash_iterator_purge tab it = (hash_unlink tab (b, 0), it)"
    using b by (simp add: gfp_conn_hash_iterator_purge_def gfarm_hash_iterator_purge_def)
  moreover have "at_front (hash_unlink tab (b, 0)) it"
    using front b st unlink_chain [of "(b, 0)" tab]
    by (simp add: at_front_def it_standing_def)
  ultimately show ?thesis using find pu by simp
qed

lemma terminate_loop_spec:
  assumes "cache_inv (cache\<lparr>hashtab := Some tab\<rparr>) xs" and "at_front tab it"
    and "\<forall>p \<in> set xs. 0 < refs (lru_list cache) p"
  shows "\<exists>cache' vs. conn_terminate_loop dispose cache tab it w
      = Some (cache', dispose_all dispose (cconns cache) vs w)
    \<and> distinct vs \<and> set vs = set xs \<and> cache_inv cache' [] \<and> hashtab cache' = None
    \<and> allocated cache' = allocated cache - set xs \<and> cconns cache' = cconns cache
    \<and> refs (lru_list cache') = refs (lru_list cache)"
  using assms
proof (induction "length xs" arbitrary: cache tab it xs w)
  case 0
  then have xs: "xs = []" by simp
  note d = cache_invD [OF "0.prems"(1)]
  have ok: "conn_table_ok tab" using d(2) by (simp add: table_matches_def)
  have none: "hash_find tab k = None" for k
    using matches_iff [OF d(2), of k] xs by (cases "hash_find tab k") auto
  obtain v it1 where v: "gfarm_hash_iterator_valid_entry tab it = (v, it1)" by fastforce
  have "\<not> v"
  proof
    assume "v"
    note f1 = front_valid [OF "0.prems"(2) v \<open>v\<close>]
    have "it_standing tab it" using "0.prems"(2) by (simp add: at_front_def)
    from valid_entry_spec [OF this v] \<open>v\<close> obtain e where "hash_at tab (it_pp it1) = Some e"
      by (auto split: if_splits)
    from front_purge [OF ok f1 this] none show False by simp
  qed
  then have "conn_terminate_loop dispose cache tab it w = Some (cache\<lparr>hashtab := None\<rparr>, w)"
    using v by (simp add: conn_terminate_loop.simps gfarm_hash_iterator_is_end_def)
  moreover have "cache_inv (cache\<lparr>hashtab := None\<rparr>) []"
    using "0.prems"(1) xs by (auto simp: cache_inv_def table_matches_def)
  ultimately show ?case using xs by (intro exI [of _ "cache\<lparr>hashtab := None\<rparr>"] exI [of _ "[]"])
      (simp add: dispose_all_def)
next
  case (Suc n)
  let ?c0 = "cache\<lparr>hashtab := Some tab\<rparr>"
  note inv = Suc.prems(1)
  note d = cache_invD [OF inv]
  have ok: "conn_table_ok tab" using d(2) by (simp add: table_matches_def)
  have st: "it_standing tab it" using Suc.prems(2) by (simp add: at_front_def)
  obtain v it1 where v: "gfarm_hash_iterator_valid_entry tab it = (v, it1)" by fastforce
  have ne: "it_rest tab it \<noteq> []"
  proof
    assume "it_rest tab it = []"
    note none = front_rest_empty [OF ok Suc.prems(2) this]
    obtain p where p: "p \<in> set xs" using Suc.hyps(2) by (cases xs) auto
    from matches_table [OF d(2) this] obtain k where "cc_hash_entry (cconns ?c0 p) = Some k" by auto
    from matches_finds [OF d(2) p this] none show False by simp
  qed
  with valid_entry_spec [OF st v] have v1: "v" "it_standing tab it1" "it_rest tab it1 = it_rest tab it"
    by simp_all
  note f1 = front_valid [OF Suc.prems(2) v v1(1)]
  obtain v2 it2 where v2: "gfarm_hash_iterator_valid_entry tab it1 = (v2, it2)" by fastforce
  from valid_entry_spec [OF v1(2) v2] ne v1(3) obtain e where
    e: "v2" "hash_at tab (it_pp it2) = Some e" by auto
  note f2 = front_valid [OF f1 v2 e(1)]
  note fp = front_purge [OF ok f2 e(2)]
  let ?p = "he_data e"
  from fp matches_iff [OF d(2), of "he_key e" ?p] obtain k where
    p: "?p \<in> set xs" "cc_hash_entry (cconns cache ?p) = Some k" "gfp_conn_hash_equal k (he_key e)"
    by auto
  have pos: "0 < refs (lru_list ?c0) ?p" using Suc.prems(3) p(1) by simp
  from purge_rep [OF d(1) p(1) pos] obtain l where
    l: "gfarm_lru_cache_purge_entry (lru_list cache) ?p = Some l" "lru_rep l (remove1 ?p xs)"
      "refs l = refs (lru_list cache)" "same_outside xs (lru_list cache) l"
      "le_prev (lru_heap l ?p) = None" by auto
  let ?tab = "gfp_conn_hash_purge tab (he_key e)"
  let ?c = "gfp_uncached_connection_dispose (cache\<lparr>lru_list := l\<rparr>) ?p"
  have set: "set (remove1 ?p xs) = set xs - {?p}" using d(8) by (rule set_remove1_eq)
  have "table_matches (Some ?tab) (cconns cache) (set xs - {?p})"
    by (rule matches_remove_key [where cs = "cconns cache", OF _ p]) (use d(2) in simp_all)
  then have m: "table_matches (Some ?tab) (cconns cache) (set (remove1 ?p xs))" using set by simp
  have inv': "cache_inv (?c\<lparr>hashtab := Some ?tab\<rparr>) (remove1 ?p xs)"
    by (rule cache_inv_intro [OF inv l(2) _ m, where zs = xs and A = "allocated cache - {?p}"])
      (use l(4) d(6,7) set in \<open>auto simp: gfp_uncached_connection_dispose_def\<close>)
  have len: "n = length (remove1 ?p xs)" using Suc.hyps(2) p(1) by (simp add: length_remove1)
  have busy: "\<forall>q \<in> set (remove1 ?p xs). 0 < refs (lru_list ?c) q"
    using Suc.prems(3) set l(3) by (simp add: gfp_uncached_connection_dispose_def)
  let ?w = "dispose (cc_data (cconns cache ?p)) w"
  from Suc.hyps(1) [OF len inv' conjunct2 [OF conjunct2 [OF fp]] busy, of ?w] obtain cache' vs where
    r: "conn_terminate_loop dispose ?c ?tab it2 ?w = Some (cache', dispose_all dispose (cconns ?c) vs ?w)"
      "distinct vs" "set vs = set (remove1 ?p xs)" "cache_inv cache' []" "hashtab cache' = None"
      "allocated cache' = allocated ?c - set (remove1 ?p xs)" "cconns cache' = cconns ?c"
      "refs (lru_list cache') = refs (lru_list ?c)" by blast
  have "conn_terminate_loop dispose cache tab it w = conn_terminate_loop dispose ?c ?tab it2 ?w"
    using v v1(1) v2 e l(1) conjunct1 [OF conjunct2 [OF fp]]
    by (subst conn_terminate_loop.simps)
      (simp add: Let_def gfarm_hash_iterator_is_end_def gfarm_hash_iterator_access_def gfarm_hash_entry_data_def)
  moreover have "dispose_all dispose (cconns ?c) vs ?w = dispose_all dispose (cconns cache) (?p # vs) w"
    by (simp add: dispose_all_def gfp_uncached_connection_dispose_def)
  moreover have "distinct (?p # vs)" "set (?p # vs) = set xs" using r(2,3) set p(1) by auto
  moreover have "allocated cache' = allocated cache - set xs"
    using r(6) set p(1) by (auto simp: gfp_uncached_connection_dispose_def)
  ultimately show ?case using r l(3)
    by (intro exI [of _ cache'] exI [of _ "?p # vs"]) (simp add: gfp_uncached_connection_dispose_def)
qed

lemma begin_front: "conn_table_ok tab \<Longrightarrow> at_front tab (gfarm_hash_iterator_begin tab)"
  by (auto simp: at_front_def it_standing_def gfarm_hash_iterator_begin_def table_ok_def)

lemma terminate_spec:
  assumes inv: "cache_inv cache xs"
  shows "\<exists>cache' vs. gfp_cached_connection_terminate dispose cache w
      = Some (cache', dispose_all dispose (cconns cache) (collected cache xs 0 @ vs) w)
    \<and> distinct (collected cache xs 0 @ vs) \<and> set (collected cache xs 0 @ vs) = set xs
    \<and> cache_inv cache' [] \<and> hashtab cache' = None
    \<and> allocated cache' = allocated cache - set xs \<and> cconns cache' = cconns cache
    \<and> refs (lru_list cache') = refs (lru_list cache)"
proof (cases "hashtab cache")
  case None
  note d = cache_invD [OF inv]
  have "xs = []"
  proof (cases xs)
    case (Cons p ps)
    with matches_table [OF d(2), of p] None show ?thesis by simp
  qed
  with None inv show ?thesis
    by (intro exI [of _ cache] exI [of _ "[]"])
      (simp add: gfp_cached_connection_terminate_def collected_def idle_def dispose_all_def)
next
  case (Some tab0)
  note d = cache_invD [OF inv]
  let ?vs = "collected cache xs 0" and ?ys = "filter (\<lambda>p. p \<notin> set (collected cache xs 0)) xs"
  have vs: "?vs = rev (idle cache xs)" by (simp add: collected_def)
  obtain c1 where c1: "gfp_cached_connection_gc_internal dispose cache 0 w
      = Some (c1, dispose_all dispose (cconns cache) ?vs w)" "cache_inv c1 ?ys"
    "allocated c1 = allocated cache - set ?vs" "cconns c1 = cconns cache"
    "refs (lru_list c1) = refs (lru_list cache)" "hashtab c1 \<noteq> None"
    using gc_spec [OF inv, of 0 dispose w] Some by auto
  then obtain tab where tab: "hashtab c1 = Some tab" by blast
  have same: "c1\<lparr>hashtab := Some tab\<rparr> = c1" using tab by simp
  have ok: "conn_table_ok tab" using cache_invD(2) [OF c1(2)] tab by (simp add: table_matches_def)
  have idle: "set ?vs = {p \<in> set xs. refs (lru_list cache) p = 0}" by (auto simp: vs idle_def)
  have busy: "\<forall>p \<in> set ?ys. 0 < refs (lru_list c1) p"
    using c1(5) idle lru_repD(3) [OF d(1)] by force
  from terminate_loop_spec [where cache = c1 and tab = tab and xs = ?ys, unfolded same, OF c1(2) begin_front [OF ok] busy,
      of dispose "dispose_all dispose (cconns cache) ?vs w"] obtain c2 zs where
    c2: "conn_terminate_loop dispose c1 tab (gfarm_hash_iterator_begin tab)
        (dispose_all dispose (cconns cache) ?vs w)
        = Some (c2, dispose_all dispose (cconns c1) zs (dispose_all dispose (cconns cache) ?vs w))"
      "distinct zs" "set zs = set ?ys" "cache_inv c2 []" "hashtab c2 = None"
      "allocated c2 = allocated c1 - set ?ys" "cconns c2 = cconns c1"
      "refs (lru_list c2) = refs (lru_list c1)" by blast
  have "gfp_cached_connection_terminate dispose cache w
      = Some (c2, dispose_all dispose (cconns cache) (?vs @ zs) w)"
    using Some c1(1,4) tab c2(1)
    by (simp add: gfp_cached_connection_terminate_def gfp_cached_connection_gc_all_def dispose_all_def)
  moreover have "distinct (?vs @ zs)" "set (?vs @ zs) = set xs"
    using c2(2,3) collected_facts(2) [OF d(8), of cache 0] idle by auto
  moreover have "allocated c2 = allocated cache - set xs" using c2(3,6) c1(3) idle by auto
  ultimately show ?thesis using c2 c1 by (intro exI [of _ c2] exI [of _ zs]) simp
qed

subsection \<open>Every use of the cache\<close>

text \<open>
  The calls a client makes, with the outcomes of the allocations inside: \<open>mem\<close> for those of the
  hash table, \<open>duph\<close> and \<open>dupu\<close> for the copies of the strings, and the address for the struct.
\<close>

datatype 'c conn_op =
    Conn_new "nat option"
  | Conn_acquire bool bool bool "nat option" "byte list" "byte list" int
  | Conn_enter bool bool bool "byte list" nat "byte list" int
  | Conn_set_data nat "'c option"
  | Conn_used nat
  | Conn_purge nat
  | Conn_free nat
  | Conn_gc_all
  | Conn_terminate

definition in_use :: "'c conn_cache \<Rightarrow> nat \<Rightarrow> bool" where
  "in_use cache p \<longleftrightarrow> p \<in> allocated cache \<and> 0 < le_acquired (lru_heap (lru_list cache) p)"

definition fresh_address :: "nat option \<Rightarrow> 'c conn_cache \<Rightarrow> bool" where
  "fresh_address malp cache \<longleftrightarrow>
     (case malp of None \<Rightarrow> True | Some p \<Rightarrow> p \<noteq> list_head \<and> p \<notin> allocated cache)"

fun conn_legal :: "'c conn_op \<Rightarrow> 'c conn_cache \<Rightarrow> bool" where
  "conn_legal (Conn_new malp) cache \<longleftrightarrow> fresh_address malp cache"
| "conn_legal (Conn_acquire mem duph dupu malp user host port) cache \<longleftrightarrow>
     0 \<le> port \<and> port \<le> 65535 \<and> fresh_address malp cache"
| "conn_legal (Conn_enter mem duph dupu user p host port) cache \<longleftrightarrow>
     0 \<le> port \<and> port \<le> 65535 \<and> in_use cache p \<and> \<not> gfp_is_cached_connection cache p"
| "conn_legal (Conn_set_data p d) cache \<longleftrightarrow> in_use cache p"
| "conn_legal (Conn_used p) cache \<longleftrightarrow> in_use cache p"
| "conn_legal (Conn_purge p) cache \<longleftrightarrow> in_use cache p"
| "conn_legal (Conn_free p) cache \<longleftrightarrow> in_use cache p"
| "conn_legal Conn_gc_all cache \<longleftrightarrow> True"
| "conn_legal Conn_terminate cache \<longleftrightarrow> True"

fun conn_step ::
  "('c option \<Rightarrow> 'w \<Rightarrow> 'w) \<Rightarrow> 'c conn_op \<Rightarrow> 'c conn_cache \<times> 'w \<Rightarrow> ('c conn_cache \<times> 'w) option" where
  "conn_step dispose (Conn_new malp) (cache, w) =
     Some (fst (gfp_uncached_connection_new malp cache), w)"
| "conn_step dispose (Conn_acquire mem duph dupu malp user host port) (cache, w) =
     map_option (\<lambda>(c, _). (c, w))
       (gfp_cached_connection_acquire (\<lambda>_. mem) duph dupu malp user cache host port)"
| "conn_step dispose (Conn_enter mem duph dupu user p host port) (cache, w) =
     map_option (\<lambda>(c, _). (c, w))
       (gfp_uncached_connection_enter_cache (\<lambda>_. mem) duph dupu user cache p host port)"
| "conn_step dispose (Conn_set_data p d) (cache, w) =
     Some (gfp_cached_connection_set_data cache p d, w)"
| "conn_step dispose (Conn_used p) (cache, w) =
     map_option (\<lambda>c. (c, w)) (gfp_cached_connection_used cache p)"
| "conn_step dispose (Conn_purge p) (cache, w) =
     map_option (\<lambda>c. (c, w)) (gfp_cached_connection_purge_from_cache cache p)"
| "conn_step dispose (Conn_free p) (cache, w) =
     gfp_cached_or_uncached_connection_free dispose cache p w"
| "conn_step dispose Conn_gc_all (cache, w) = gfp_cached_connection_gc_all dispose cache w"
| "conn_step dispose Conn_terminate (cache, w) = gfp_cached_connection_terminate dispose cache w"

inductive conn_reach ::
  "('c option \<Rightarrow> 'w \<Rightarrow> 'w) \<Rightarrow> 'c conn_cache \<times> 'w \<Rightarrow> 'c conn_cache \<times> 'w \<Rightarrow> bool"
  for dispose and init where
  reach_init: "conn_reach dispose init init"
| reach_step: "conn_reach dispose init (cache, w) \<Longrightarrow> conn_legal op cache \<Longrightarrow>
    conn_step dispose op (cache, w) = Some s \<Longrightarrow> conn_reach dispose init s"

text \<open>What a step may do to the connections in use.\<close>

definition keeps_in_use :: "'c conn_op \<Rightarrow> 'c conn_cache \<Rightarrow> 'c conn_cache \<Rightarrow> bool" where
  "keeps_in_use op cache cache' \<longleftrightarrow>
     (\<forall>p. in_use cache p \<and> op \<noteq> Conn_free p \<and> op \<noteq> Conn_terminate \<longrightarrow> in_use cache' p)"

lemma in_use_refs: "in_use cache p \<longleftrightarrow> p \<in> allocated cache \<and> 0 < refs (lru_list cache) p"
  by (simp add: in_use_def refs_def)

lemma conn_step_spec:
  assumes inv: "cache_inv cache xs" and legal: "conn_legal op cache"
  shows "\<exists>cache' w' ys. conn_step dispose op (cache, w) = Some (cache', w') \<and> cache_inv cache' ys
    \<and> keeps_in_use op cache cache'"
proof (cases op)
  case (Conn_new malp)
  show ?thesis
  proof (cases malp)
    case None
    with Conn_new inv show ?thesis
      by (auto simp: gfp_uncached_connection_new_def keeps_in_use_def)
  next
    case (Some p)
    with Conn_new legal have "p \<noteq> list_head" "p \<notin> allocated cache" by (simp_all add: fresh_address_def)
    from new_spec [OF inv this] Some Conn_new show ?thesis
      by (auto simp: keeps_in_use_def in_use_refs)
  qed
next
  case (Conn_acquire mem duph dupu malp user host port)
  with legal have port: "0 \<le> port" "port \<le> 65535"
    and fresh: "\<And>p. malp = Some p \<Longrightarrow> p \<noteq> list_head \<and> p \<notin> allocated cache"
    by (simp_all add: fresh_address_def)
  obtain cache' r where a: "gfp_cached_connection_acquire (\<lambda>_. mem) duph dupu malp user cache host port
      = Some (cache', r)"
    and r: "case r of
         Inl e \<Rightarrow> e = GFARM_ERR_NO_MEMORY \<and> cache_inv cache' xs \<and> allocated cache' = allocated cache
           \<and> cconns cache' = cconns cache \<and> lru_list cache' = lru_list cache
           \<and> conn_find (hashtab cache) \<lparr>id_hostname = host, id_port = port, id_username = user\<rparr> = None
       | Inr (p, False) \<Rightarrow>
           conn_find (hashtab cache) \<lparr>id_hostname = host, id_port = port, id_username = user\<rparr> = Some p
           \<and> cache_inv cache' (p # remove1 p xs) \<and> allocated cache' = allocated cache
           \<and> cconns cache' = cconns cache
           \<and> refs (lru_list cache') = (refs (lru_list cache))(p := refs (lru_list cache) p + 1)
       | Inr (p, True) \<Rightarrow>
           conn_find (hashtab cache) \<lparr>id_hostname = host, id_port = port, id_username = user\<rparr> = None
           \<and> malp = Some p
           \<and> cache_inv cache' (p # xs) \<and> allocated cache' = insert p (allocated cache)
           \<and> refs (lru_list cache') = (refs (lru_list cache))(p := 1)
           \<and> cconns cache' = (cconns cache)(p := cconns cache' p) \<and> cc_data (cconns cache' p) = None
           \<and> (\<exists>k. cc_hash_entry (cconns cache' p) = Some k
                \<and> gfp_conn_hash_equal k \<lparr>id_hostname = host, id_port = port, id_username = user\<rparr>)"
    using acquire_spec [where mal = "\<lambda>_. mem" and malp = malp and duph = duph and dupu = dupu
        and username = user and hostname = host, OF inv port fresh] by blast
  have "(\<exists>ys. cache_inv cache' ys) \<and> keeps_in_use op cache cache'"
    using r by (auto simp: keeps_in_use_def in_use_refs split: sum.splits prod.splits bool.splits)
  with a Conn_acquire show ?thesis by auto
next
  case (Conn_enter mem duph dupu user p host port)
  with legal have pre: "0 \<le> port" "port \<le> 65535" "p \<in> allocated cache" "p \<notin> set xs"
    using cached_iff [OF inv, of p] by (simp_all add: in_use_def)
  from enter_cache_spec [OF inv pre, of "\<lambda>_. mem" duph dupu user host] Conn_enter show ?thesis
    by (auto simp: keeps_in_use_def in_use_refs)
next
  case (Conn_set_data p d)
  with set_data_inv [OF inv, of p d] show ?thesis
    by (auto simp: keeps_in_use_def in_use_def gfp_cached_connection_set_data_def)
next
  case (Conn_used p)
  with legal have "p \<in> allocated cache" by (simp add: in_use_def)
  from used_spec [OF inv this] Conn_used show ?thesis
    by (auto simp: keeps_in_use_def in_use_refs)
next
  case (Conn_purge p)
  with legal have "p \<in> allocated cache" "0 < refs (lru_list cache) p" by (simp_all add: in_use_refs)
  from purge_from_cache_spec [OF inv this] Conn_purge show ?thesis
    by (auto simp: keeps_in_use_def in_use_refs)
next
  case (Conn_free p)
  with legal have p: "p \<in> allocated cache" "0 < refs (lru_list cache) p" by (simp_all add: in_use_refs)
  let ?c1 = "cache\<lparr>lru_list := set_acquired p (refs (lru_list cache) p - 1) (lru_list cache)\<rparr>"
  have "set (collected ?c1 xs (num_cache cache)) \<subseteq> {q. refs (lru_list ?c1) q = 0}"
    using collected_facts(1) [OF cache_invD(8) [OF inv], of ?c1 "num_cache cache"]
    by (auto simp: idle_def)
  then have "q \<notin> set (collected ?c1 xs (num_cache cache))" if "in_use cache q" "q \<noteq> p" for q
    using that by (auto simp: in_use_refs)
  with conn_free_spec [OF inv p, of dispose w] Conn_free show ?thesis
    by (auto simp: keeps_in_use_def in_use_refs split: if_splits)
next
  case Conn_gc_all
  have "q \<notin> set (collected cache xs 0)" if "in_use cache q" for q
    using that collected_facts(1) [OF cache_invD(8) [OF inv], of cache 0]
    by (auto simp: in_use_refs idle_def)
  with gc_spec [OF inv, of 0 dispose w] Conn_gc_all show ?thesis
    by (auto simp: keeps_in_use_def in_use_refs gfp_cached_connection_gc_all_def)
next
  case Conn_terminate
  from terminate_spec [OF inv, of dispose w] show ?thesis
    unfolding Conn_terminate by (auto simp: keeps_in_use_def)
qed

lemma init_inv:
  assumes "0 < n" and "n < 2 ^ 31" and "0 \<le> num"
  shows "cache_inv (GFP_CONN_CACHE_INITIALIZER h cs n num) []"
  using assms init_rep [of h]
  by (simp add: cache_inv_def GFP_CONN_CACHE_INITIALIZER_def table_matches_def)

lemma reach_inv:
  assumes "conn_reach dispose (GFP_CONN_CACHE_INITIALIZER h cs n num, w0) s"
    and "0 < n" and "n < 2 ^ 31" and "0 \<le> num"
  shows "\<exists>xs. cache_inv (fst s) xs"
  using assms(1)
proof (induction rule: conn_reach.induct)
  case reach_init
  with init_inv [OF assms(2-4)] show ?case by auto
next
  case (reach_step cache w op s)
  then obtain xs where "cache_inv cache xs" by auto
  from conn_step_spec [OF this reach_step.hyps(2), of dispose w] reach_step.hyps(3) show ?case by auto
qed

text \<open>What a client sees of the two main calls.\<close>

lemma acquire_outcome:
  fixes host user :: "byte list" and port :: int
  assumes inv: "cache_inv cache xs"
    and legal: "conn_legal (Conn_acquire mem duph dupu malp user host port) cache"
  defines "cached_for \<equiv> (\<lambda>c p. p \<in> allocated c \<and> (\<exists>k. cc_hash_entry (cconns c p) = Some k
      \<and> gfp_conn_hash_equal k \<lparr>id_hostname = host, id_port = port, id_username = user\<rparr>))"
  shows "\<exists>cache' r. gfp_cached_connection_acquire (\<lambda>_. mem) duph dupu malp user cache host port
      = Some (cache', r)
    \<and> (case r of
         Inr (p, False) \<Rightarrow> cached_for cache p
           \<and> le_acquired (lru_heap (lru_list cache') p) = le_acquired (lru_heap (lru_list cache) p) + 1
       | Inr (p, True) \<Rightarrow> \<not> (\<exists>q. cached_for cache q) \<and> malp = Some p \<and> cached_for cache' p
           \<and> le_acquired (lru_heap (lru_list cache') p) = 1
           \<and> gfp_cached_connection_get_data cache' p = None
       | Inl e \<Rightarrow> e = GFARM_ERR_NO_MEMORY \<and> \<not> (\<exists>q. cached_for cache q))
    \<and> (mem \<and> duph \<and> dupu \<and> malp \<noteq> None \<or> (\<exists>q. cached_for cache q) \<longrightarrow> (\<exists>p created. r = Inr (p, created)))"
proof -
  note d = cache_invD [OF inv]
  let ?key = "\<lparr>id_hostname = host, id_port = port, id_username = user\<rparr>"
  have found: "conn_find (hashtab cache) ?key = Some q \<longleftrightarrow> cached_for cache q" for q
    using matches_iff [OF d(2), of ?key q] d(6) d(9) [of q] by (auto simp: cached_for_def)
  then have none: "conn_find (hashtab cache) ?key = None \<longleftrightarrow> \<not> (\<exists>q. cached_for cache q)"
    by (cases "conn_find (hashtab cache) ?key") auto
  from legal have port: "0 \<le> port" "port \<le> 65535"
    and fresh: "\<And>p. malp = Some p \<Longrightarrow> p \<noteq> list_head \<and> p \<notin> allocated cache"
    by (simp_all add: fresh_address_def)
  obtain cache' r where a: "gfp_cached_connection_acquire (\<lambda>_. mem) duph dupu malp user cache host port
      = Some (cache', r)"
    and r: "case r of
         Inl e \<Rightarrow> e = GFARM_ERR_NO_MEMORY \<and> cache_inv cache' xs \<and> allocated cache' = allocated cache
           \<and> cconns cache' = cconns cache \<and> lru_list cache' = lru_list cache
           \<and> conn_find (hashtab cache) ?key = None
       | Inr (p, False) \<Rightarrow> conn_find (hashtab cache) ?key = Some p
           \<and> cache_inv cache' (p # remove1 p xs) \<and> allocated cache' = allocated cache
           \<and> cconns cache' = cconns cache
           \<and> refs (lru_list cache') = (refs (lru_list cache))(p := refs (lru_list cache) p + 1)
       | Inr (p, True) \<Rightarrow> conn_find (hashtab cache) ?key = None \<and> malp = Some p
           \<and> cache_inv cache' (p # xs) \<and> allocated cache' = insert p (allocated cache)
           \<and> refs (lru_list cache') = (refs (lru_list cache))(p := 1)
           \<and> cconns cache' = (cconns cache)(p := cconns cache' p) \<and> cc_data (cconns cache' p) = None
           \<and> (\<exists>k. cc_hash_entry (cconns cache' p) = Some k \<and> gfp_conn_hash_equal k ?key)"
    and good: "mem \<and> duph \<and> dupu \<and> malp \<noteq> None \<or> conn_find (hashtab cache) ?key \<noteq> None \<longrightarrow>
        (\<exists>p c. r = Inr (p, c))"
    using acquire_spec [where mal = "\<lambda>_. mem" and malp = malp and duph = duph and dupu = dupu
        and username = user and hostname = host, OF inv port fresh] by auto
  have "case r of
         Inr (p, False) \<Rightarrow> cached_for cache p
           \<and> le_acquired (lru_heap (lru_list cache') p) = le_acquired (lru_heap (lru_list cache) p) + 1
       | Inr (p, True) \<Rightarrow> \<not> (\<exists>q. cached_for cache q) \<and> malp = Some p \<and> cached_for cache' p
           \<and> le_acquired (lru_heap (lru_list cache') p) = 1
           \<and> gfp_cached_connection_get_data cache' p = None
       | Inl e \<Rightarrow> e = GFARM_ERR_NO_MEMORY \<and> \<not> (\<exists>q. cached_for cache q)"
  proof (cases r)
    case (Inl e)
    with r none show ?thesis by simp
  next
    case (Inr pc)
    obtain p created where pc: "pc = (p, created)" by (cases pc)
    show ?thesis
    proof (cases created)
      case True
      with Inr pc r have "conn_find (hashtab cache) ?key = None" "malp = Some p"
        "allocated cache' = insert p (allocated cache)"
        "refs (lru_list cache') = (refs (lru_list cache))(p := 1)" "cc_data (cconns cache' p) = None"
        "\<exists>k. cc_hash_entry (cconns cache' p) = Some k \<and> gfp_conn_hash_equal k ?key"
        by simp_all
      then show ?thesis using Inr pc True none
        by (simp add: refs_def fun_eq_iff cached_for_def gfp_cached_connection_get_data_def)
    next
      case False
      with Inr pc r found show ?thesis by (simp add: refs_def fun_eq_iff)
    qed
  qed
  note parts = a this good [unfolded none not_not]
  show ?thesis by (rule exI [of _ cache'], rule exI [of _ r], intro conjI) (rule parts)+
qed


subsection \<open>Properties\<close>

text \<open>C16: no use of the cache goes wrong. In every state that calls of the module can lead to,
  whatever allocations fail, each call a client may make (with a connection it holds, and a port
  number from 0 to 65535) returns: it follows no null pointer, fails no assertion and does not
  abort; and no call but the holder's own last one, or the termination of the whole cache, takes a
  connection in use away from its users.\<close>

theorem conn_cache_safe:
  assumes "conn_reach dispose (GFP_CONN_CACHE_INITIALIZER h cs n num, w0) (cache, w)"
    and "0 < n" and "n < 2 ^ 31" and "0 \<le> num" and "conn_legal op cache"
  shows "\<exists>cache' w'. conn_step dispose op (cache, w) = Some (cache', w')
    \<and> (\<forall>p. in_use cache p \<and> op \<noteq> Conn_free p \<and> op \<noteq> Conn_terminate \<longrightarrow> in_use cache' p)"
proof -
  from reach_inv [OF assms(1-4)] obtain xs where "cache_inv cache xs" by auto
  from conn_step_spec [OF this assms(5), of dispose w] show ?thesis
    unfolding keeps_in_use_def by blast
qed

text \<open>C17: connections are shared. To acquire a connection for a host, port and user gives the
  connection that is cached for them (the host up to case), with one more user, and otherwise a new
  one with one user and no data, cached for them from then on, unless memory runs out.\<close>

theorem conn_acquire_shares:
  assumes "conn_reach dispose (GFP_CONN_CACHE_INITIALIZER h cs n num, w0) (cache, w)"
    and "0 < n" and "n < 2 ^ 31" and "0 \<le> num"
    and "conn_legal (Conn_acquire mem duph dupu malp user host port) cache"
  defines "cached_for \<equiv> (\<lambda>c p. p \<in> allocated c \<and> (\<exists>k. cc_hash_entry (cconns c p) = Some k
      \<and> gfp_conn_hash_equal k \<lparr>id_hostname = host, id_port = port, id_username = user\<rparr>))"
  shows "\<exists>cache' r. gfp_cached_connection_acquire (\<lambda>_. mem) duph dupu malp user cache host port
      = Some (cache', r)
    \<and> (case r of
         Inr (p, False) \<Rightarrow> cached_for cache p
           \<and> le_acquired (lru_heap (lru_list cache') p) = le_acquired (lru_heap (lru_list cache) p) + 1
       | Inr (p, True) \<Rightarrow> \<not> (\<exists>q. cached_for cache q) \<and> malp = Some p \<and> cached_for cache' p
           \<and> le_acquired (lru_heap (lru_list cache') p) = 1
           \<and> gfp_cached_connection_get_data cache' p = None
       | Inl e \<Rightarrow> e = GFARM_ERR_NO_MEMORY \<and> \<not> (\<exists>q. cached_for cache q))
    \<and> (mem \<and> duph \<and> dupu \<and> malp \<noteq> None \<or> (\<exists>q. cached_for cache q) \<longrightarrow> (\<exists>p created. r = Inr (p, created)))"
proof -
  from reach_inv [OF assms(1-4)] obtain xs where "cache_inv cache xs" by auto
  from acquire_outcome [OF this assms(5)] show ?thesis unfolding cached_for_def .
qed


subsection \<open>Sample runs\<close>

text \<open>A new cache of at most one idle connection, and a connection to \<open>ab\<close>, port 601, for user \<open>u\<close>.\<close>

definition sample_init :: "nat conn_cache" where
  "sample_init = GFP_CONN_CACHE_INITIALIZER
     (\<lambda>_. \<lparr>le_next = None, le_prev = None, le_acquired = 0\<rparr>)
     (\<lambda>_. \<lparr>cc_hash_entry = None, cc_data = None\<rparr>) 31 1"

definition log_dispose :: "nat option \<Rightarrow> nat option list \<Rightarrow> nat option list" where
  "log_dispose d closed = closed @ [d]"

definition sample_cache :: "nat conn_cache" where
  "sample_cache = fst (the (gfp_cached_connection_acquire (\<lambda>_. True) True True (Some 5) [0x75]
     sample_init [0x61, 0x62] 601))"

lemma sample_facts:
  "gfp_cached_connection_acquire (\<lambda>_. True) True True (Some 5) [0x75] sample_init [0x61, 0x62] 601
     = Some (sample_cache, Inr (5, True))"
  "allocated sample_cache = {5}" "refs (lru_list sample_cache) 5 = 1"
  "\<exists>k. cc_hash_entry (cconns sample_cache 5) = Some k
     \<and> gfp_conn_hash_equal k \<lparr>id_hostname = [0x61, 0x62], id_port = 601, id_username = [0x75]\<rparr>"
proof -
  have inv: "cache_inv sample_init []" by (simp add: sample_init_def init_inv)
  have empty: "hashtab sample_init = None" "allocated sample_init = {}"
    by (simp_all add: sample_init_def GFP_CONN_CACHE_INITIALIZER_def)
  note sp = acquire_spec [where port = 601 and mal = "\<lambda>_. True" and malp = "Some 5"
    and duph = True and dupu = True and username = "[0x75]" and hostname = "[0x61, 0x62]", OF inv]
  obtain c r where a: "gfp_cached_connection_acquire (\<lambda>_. True) True True (Some 5) [0x75] sample_init
      [0x61, 0x62] 601 = Some (c, r)"
    and r: "\<exists>p. r = Inr (p, True) \<and> p = 5 \<and> allocated c = insert p (allocated sample_init)
        \<and> refs (lru_list c) p = 1 \<and> (\<exists>k. cc_hash_entry (cconns c p) = Some k
        \<and> gfp_conn_hash_equal k \<lparr>id_hostname = [0x61, 0x62], id_port = 601, id_username = [0x75]\<rparr>)"
    using sp empty by (fastforce split: sum.splits prod.splits bool.splits)
  then have "sample_cache = c" by (simp add: sample_cache_def)
  with a r empty show
    "gfp_cached_connection_acquire (\<lambda>_. True) True True (Some 5) [0x75] sample_init [0x61, 0x62] 601
       = Some (sample_cache, Inr (5, True))"
    "allocated sample_cache = {5}" "refs (lru_list sample_cache) 5 = 1"
    "\<exists>k. cc_hash_entry (cconns sample_cache 5) = Some k
       \<and> gfp_conn_hash_equal k \<lparr>id_hostname = [0x61, 0x62], id_port = 601, id_username = [0x75]\<rparr>"
    by auto
qed

lemma sample_legal:
  "conn_legal (Conn_purge 5) sample_cache" "conn_legal (Conn_free 5) sample_cache"
  "conn_legal (Conn_acquire True True True (Some 6) [0x75] [0x41, 0x62] 601) sample_cache"
  "gfp_is_cached_connection sample_cache 5"
  using sample_facts(2-4)
  by (auto simp: in_use_refs fresh_address_def gfp_is_cached_connection_def)

lemma sample_reach: "conn_reach log_dispose (sample_init, []) (sample_cache, [])"
proof (rule reach_step [OF reach_init])
  show "conn_legal (Conn_acquire True True True (Some 5) [0x75] [0x61, 0x62] 601) sample_init"
    by (simp add: sample_init_def GFP_CONN_CACHE_INITIALIZER_def fresh_address_def)
  show "conn_step log_dispose (Conn_acquire True True True (Some 5) [0x75] [0x61, 0x62] 601)
      (sample_init, []) = Some (sample_cache, [])"
    using sample_facts(1) by simp
qed

theorem conn_cache_safe_witness:
  "\<exists>cache' w'. conn_step log_dispose (Conn_purge 5) (sample_cache, []) = Some (cache', w')
     \<and> in_use cache' 5"
proof -
  have "in_use sample_cache 5" using sample_legal(1) by simp
  then show ?thesis
    using conn_cache_safe [OF sample_reach [unfolded sample_init_def] _ _ _ sample_legal(1)] by auto
qed

theorem conn_acquire_shares_witness:
  "\<exists>cache'. gfp_cached_connection_acquire (\<lambda>_. True) True True (Some 6) [0x75] sample_cache
       [0x41, 0x62] 601 = Some (cache', Inr (5, False))"
proof -
  let ?ab = "\<lparr>id_hostname = [0x61, 0x62], id_port = 601, id_username = [0x75]\<rparr>"
    and ?Ab = "\<lparr>id_hostname = [0x41, 0x62], id_port = 601, id_username = [0x75]\<rparr>"
  have "gfp_conn_hash_equal ?ab ?Ab" by code_simp
  then have shared: "\<exists>q. q \<in> allocated sample_cache \<and> (\<exists>k. cc_hash_entry (cconns sample_cache q) = Some k
      \<and> gfp_conn_hash_equal k ?Ab)"
    using sample_facts(2,4) hk_conn.equal_trans [of _ ?ab ?Ab] by (intro exI [of _ 5]) auto
  from conn_acquire_shares [OF sample_reach [unfolded sample_init_def] _ _ _ sample_legal(3)]
  obtain cache' r where a: "gfp_cached_connection_acquire (\<lambda>_. True) True True (Some 6) [0x75]
        sample_cache [0x41, 0x62] 601 = Some (cache', r)"
    and r: "case r of
       Inr (p, False) \<Rightarrow> p \<in> allocated sample_cache | Inr (p, True) \<Rightarrow> False | Inl e \<Rightarrow> False"
    using shared by (fastforce split: sum.splits prod.splits bool.splits)
  have "r = Inr (5, False)"
    using r sample_facts(2) by (auto split: sum.splits prod.splits bool.splits)
  with a show ?thesis by blast
qed


end
