(* ===== verification/Calls.thy ===== *)
theory Calls
  imports Gfarm_Error
begin

text \<open>
  Functions that may fail and act on a state. A function that returns a \<open>gfarm_error_t\<close> and stores
  results yields \<open>Inr\<close> the results for \<open>GFARM_ERR_NO_ERROR\<close> and \<open>Inl\<close> the error otherwise; what a failed
  call has stored is not modelled. \<open>None\<close> is a call that does not return or is undefined. Functions take
  the state last, and \<open>call_bind\<close> is the idiom \<open>if ((e = f(...)) != GFARM_ERR_NO_ERROR) return (e);\<close> of the
  code.
\<close>

type_synonym ('s, 'a) state_call = "'s \<Rightarrow> ((gfarm_error_t + 'a) \<times> 's) option"

definition call_return :: "'a \<Rightarrow> ('s, 'a) state_call" where
  "call_return v s = Some (Inr v, s)"

definition call_fail :: "gfarm_error_t \<Rightarrow> ('s, 'a) state_call" where
  "call_fail e s = Some (Inl e, s)"

definition call_undefined :: "('s, 'a) state_call" where
  "call_undefined s = None"

definition call_bind :: "('s, 'a) state_call \<Rightarrow> ('a \<Rightarrow> ('s, 'b) state_call) \<Rightarrow> ('s, 'b) state_call" where
  "call_bind f g s =
     (case f s of
        None \<Rightarrow> None
      | Some (Inl e, s') \<Rightarrow> Some (Inl e, s')
      | Some (Inr v, s') \<Rightarrow> g v s')"

text \<open>\<open>errors[i] = f(...)\<close>: the outcome is stored and the function goes on.\<close>

definition call_try :: "('s, 'a) state_call \<Rightarrow> ('s, gfarm_error_t + 'a) state_call" where
  "call_try f s = (case f s of None \<Rightarrow> None | Some (r, s') \<Rightarrow> Some (Inr r, s'))"

text \<open>\<open>for (i = 0; i < n; i++)\<close> over entries that are filled, and over ones that are given.\<close>

primrec call_repeat :: "nat \<Rightarrow> ('s, 'a) state_call \<Rightarrow> ('s, 'a list) state_call" where
  "call_repeat 0 f = call_return []"
| "call_repeat (Suc n) f =
     call_bind f (\<lambda>x. call_bind (call_repeat n f) (\<lambda>xs. call_return (x # xs)))"

primrec call_each :: "('a \<Rightarrow> ('s, unit) state_call) \<Rightarrow> 'a list \<Rightarrow> ('s, unit) state_call" where
  "call_each f [] = call_return ()"
| "call_each f (x # xs) = call_bind (f x) (\<lambda>_. call_each f xs)"

end
