(* ===== verification/Gfm_Rpc.thy ===== *)
theory Gfm_Rpc
  imports Gfp_Xdr Conn_Cache Calls
begin

text \<open>
  \<open>gfarm/gfm_client.c\<close>, the ground its calls stand on: connections to the metadata server, kept
  in a connection cache, and remote procedure calls over them.

  The static \<open>gfm_server_cache\<close> is part of the state, next to the world \<open>'w\<close> that the buffers of the
  connections read and write. A \<open>struct gfm_connection\<close> is the data of one cache entry, and
  either points to the other, so a pointer \<open>gfm_server\<close> is the address of the entry.
\<close>

subsection \<open>State\<close>

record 'w gfm_connection =
  gfm_conn :: "'w gfp_xdr"
  gfm_auth_method :: int
  gfm_pid :: u64
  gfm_pid_key :: "byte list"

record 'w gfm_state =
  gfm_server_cache :: "'w gfm_connection conn_cache"
  gfm_world :: 'w

type_synonym ('w, 'a) gfm_call = "('w gfm_state, 'a) state_call"

text \<open>The struct behind a pointer, and a store through \<open>gfm_server->conn\<close>.\<close>

definition gfm_server_at :: "'w gfm_state \<Rightarrow> nat \<Rightarrow> 'w gfm_connection option" where
  "gfm_server_at s gfm_server = gfp_cached_connection_get_data (gfm_server_cache s) gfm_server"

definition gfm_store :: "nat \<Rightarrow> 'w gfm_connection \<Rightarrow> 'w gfm_state \<Rightarrow> 'w gfm_state" where
  "gfm_store gfm_server g s =
     s\<lparr>gfm_server_cache := gfp_cached_connection_set_data (gfm_server_cache s) gfm_server (Some g)\<rparr>"

definition gfm_store_conn :: "nat \<Rightarrow> 'w gfp_xdr \<Rightarrow> 'w \<Rightarrow> 'w gfm_state \<Rightarrow> 'w gfm_state" where
  "gfm_store_conn gfm_server conn w s =
     (case gfm_server_at s gfm_server of
        None \<Rightarrow> s
      | Some g \<Rightarrow> (gfm_store gfm_server (g\<lparr>gfm_conn := conn\<rparr>) s)\<lparr>gfm_world := w\<rparr>)"

subsection \<open>Connections\<close>

definition IS_CONNECTION_ERROR :: "gfarm_error_t \<Rightarrow> bool" where
  "IS_CONNECTION_ERROR e \<longleftrightarrow>
     e = GFARM_ERR_BROKEN_PIPE \<or> e = GFARM_ERR_UNEXPECTED_EOF \<or>
     e = GFARM_ERR_PROTOCOL \<or>
     e = GFARM_ERR_NETWORK_IS_DOWN \<or>
     e = GFARM_ERR_NETWORK_IS_UNREACHABLE \<or>
     e = GFARM_ERR_CONNECTION_ABORTED \<or>
     e = GFARM_ERR_CONNECTION_RESET_BY_PEER \<or>
     e = GFARM_ERR_SOCKET_IS_NOT_CONNECTED \<or>
     e = GFARM_ERR_OPERATION_TIMED_OUT \<or>
     e = GFARM_ERR_CONNECTION_REFUSED \<or>
     e = GFARM_ERR_NO_ROUTE_TO_HOST"

definition gfm_client_is_connection_error :: "gfarm_error_t \<Rightarrow> bool" where
  "gfm_client_is_connection_error e = IS_CONNECTION_ERROR e"

definition gfm_client_connection_conn :: "'w gfm_state \<Rightarrow> nat \<Rightarrow> 'w gfp_xdr option" where
  "gfm_client_connection_conn s gfm_server = map_option gfm_conn (gfm_server_at s gfm_server)"

definition gfm_client_connection_fd :: "'w gfm_state \<Rightarrow> nat \<Rightarrow> int option" where
  "gfm_client_connection_fd s gfm_server =
     map_option (\<lambda>g. gfp_xdr_fd (gfm_conn g)) (gfm_server_at s gfm_server)"

definition gfm_client_connection_auth_method :: "'w gfm_state \<Rightarrow> nat \<Rightarrow> int option" where
  "gfm_client_connection_auth_method s gfm_server =
     map_option gfm_auth_method (gfm_server_at s gfm_server)"

definition gfm_client_is_connection_valid :: "'w gfm_state \<Rightarrow> nat \<Rightarrow> bool" where
  "gfm_client_is_connection_valid s gfm_server =
     gfp_is_cached_connection (gfm_server_cache s) gfm_server"

text \<open>A failed \<open>assert\<close> is \<open>None\<close>, as is a connection without the name.\<close>

definition gfm_client_hostname :: "'w gfm_state \<Rightarrow> nat \<Rightarrow> byte list option" where
  "gfm_client_hostname s gfm_server =
     (if \<not> gfm_client_is_connection_valid s gfm_server then None
      else gfp_cached_connection_hostname (gfm_server_cache s) gfm_server)"

definition gfm_client_username :: "'w gfm_state \<Rightarrow> nat \<Rightarrow> byte list option" where
  "gfm_client_username s gfm_server =
     (if \<not> gfm_client_is_connection_valid s gfm_server then None
      else gfp_cached_connection_username (gfm_server_cache s) gfm_server)"

definition gfm_client_port :: "'w gfm_state \<Rightarrow> nat \<Rightarrow> int option" where
  "gfm_client_port s gfm_server =
     (if \<not> gfm_client_is_connection_valid s gfm_server then None
      else gfp_cached_connection_port (gfm_server_cache s) gfm_server)"

abbreviation (input) GFM_PROTO_PROCESS_KEY_TYPE_SHAREDSECRET :: int where
  "GFM_PROTO_PROCESS_KEY_TYPE_SHAREDSECRET \<equiv> 1"

abbreviation (input) GFM_PROTO_PROCESS_KEY_LEN_SHAREDSECRET :: u64 where
  "GFM_PROTO_PROCESS_KEY_LEN_SHAREDSECRET \<equiv> 32"

text \<open>The results are the key type, the key, its length and the process identifier.\<close>

definition gfm_client_process_get :: "nat \<Rightarrow> ('w, int \<times> byte list \<times> u64 \<times> u64) gfm_call" where
  "gfm_client_process_get gfm_server s =
     (case gfm_server_at s gfm_server of
        None \<Rightarrow> None
      | Some g \<Rightarrow>
          if gfm_pid g = 0 then call_fail GFARM_ERR_NO_SUCH_OBJECT s
          else call_return (GFM_PROTO_PROCESS_KEY_TYPE_SHAREDSECRET, gfm_pid_key g,
                           GFM_PROTO_PROCESS_KEY_LEN_SHAREDSECRET, gfm_pid g) s)"

definition gfm_client_purge_from_cache :: "nat \<Rightarrow> 'w gfm_state \<Rightarrow> 'w gfm_state option" where
  "gfm_client_purge_from_cache gfm_server s =
     map_option (\<lambda>c. s\<lparr>gfm_server_cache := c\<rparr>)
       (gfp_cached_connection_purge_from_cache (gfm_server_cache s) gfm_server)"

definition gfm_client_connection_used :: "nat \<Rightarrow> 'w gfm_state \<Rightarrow> 'w gfm_state option" where
  "gfm_client_connection_used gfm_server s =
     map_option (\<lambda>c. s\<lparr>gfm_server_cache := c\<rparr>)
       (gfp_cached_connection_used (gfm_server_cache s) gfm_server)"

definition gfm_cached_connection_had_connection_error :: "'w gfm_state \<Rightarrow> nat \<Rightarrow> bool" where
  "gfm_cached_connection_had_connection_error s gfm_server \<longleftrightarrow>
     \<not> gfp_is_cached_connection (gfm_server_cache s) gfm_server"

text \<open>
  The callback that closes a connection. Its world is \<open>None\<close> once a \<open>gfp_xdr_free\<close> has not returned;
  the error of \<open>gfp_xdr_free\<close> is dropped by the cache. Freeing the cache entry is part
  of the model of the cache.
\<close>

definition gfm_client_connection_dispose :: "'w gfm_connection option \<Rightarrow> 'w option \<Rightarrow> 'w option" where
  "gfm_client_connection_dispose connection_data w =
     (case (connection_data, w) of
        (Some g, Some w0) \<Rightarrow> map_option snd (gfp_xdr_free (gfm_conn g) w0)
      | _ \<Rightarrow> None)"

definition gfm_disposing ::
  "('w gfm_connection conn_cache \<Rightarrow> 'w option \<Rightarrow> ('w gfm_connection conn_cache \<times> 'w option) option)
     \<Rightarrow> 'w gfm_state \<Rightarrow> 'w gfm_state option" where
  "gfm_disposing f s =
     (case f (gfm_server_cache s) (Some (gfm_world s)) of
        Some (c, Some w) \<Rightarrow> Some \<lparr>gfm_server_cache = c, gfm_world = w\<rparr>
      | _ \<Rightarrow> None)"

definition gfm_client_connection_gc :: "'w gfm_state \<Rightarrow> 'w gfm_state option" where
  "gfm_client_connection_gc s =
     gfm_disposing (gfp_cached_connection_gc_all gfm_client_connection_dispose) s"

definition gfm_client_connection_free :: "nat \<Rightarrow> 'w gfm_state \<Rightarrow> 'w gfm_state option" where
  "gfm_client_connection_free gfm_server s =
     gfm_disposing (\<lambda>c. gfp_cached_or_uncached_connection_free gfm_client_connection_dispose c gfm_server) s"

definition gfm_client_terminate :: "'w gfm_state \<Rightarrow> 'w gfm_state option" where
  "gfm_client_terminate s =
     gfm_disposing (gfp_cached_connection_terminate gfm_client_connection_dispose) s"

subsection \<open>Remote procedure calls\<close>

text \<open>\<open>if (IS_CONNECTION_ERROR(e)) gfm_client_purge_from_cache(gfm_server);\<close>\<close>

definition gfm_purge_on_error :: "nat \<Rightarrow> gfarm_error_t \<Rightarrow> 'w gfm_state \<Rightarrow> 'w gfm_state option" where
  "gfm_purge_on_error gfm_server e s =
     (if IS_CONNECTION_ERROR e then gfm_client_purge_from_cache gfm_server s else Some s)"

definition gfm_outcome :: "nat \<Rightarrow> gfarm_error_t \<Rightarrow> 'a \<Rightarrow> ('w, 'a) gfm_call" where
  "gfm_outcome gfm_server e v s =
     (case gfm_purge_on_error gfm_server e s of
        None \<Rightarrow> None
      | Some s' \<Rightarrow> if e \<noteq> GFARM_ERR_NO_ERROR then call_fail e s' else call_return v s')"

definition gfm_client_rpc_request ::
  "nat \<Rightarrow> int \<Rightarrow> string \<Rightarrow> xdr_arg list \<Rightarrow> ('w, unit) gfm_call" where
  "gfm_client_rpc_request gfm_server command format args s =
     (case gfm_server_at s gfm_server of
        None \<Rightarrow> None
      | Some g \<Rightarrow>
          (case gfp_xdr_vrpc_request (gfm_conn g) command format args (gfm_world s) of
             None \<Rightarrow> None
           | Some (conn, e, _, _, w) \<Rightarrow>
               gfm_outcome gfm_server e () (gfm_store_conn gfm_server conn w s)))"

text \<open>
  The end of both calls below. The error number is an \<open>int\<close> and is returned as it is; it does not
  make the connection leave the cache. It has a value whenever \<open>e\<close> is success.
\<close>

definition gfm_rpc_end :: "nat \<Rightarrow> 'w rpc_result \<Rightarrow> ('w, xdr_val list) gfm_call" where
  "gfm_rpc_end gfm_server r s =
     call_bind (gfm_outcome gfm_server (rpc_error r) ())
       (\<lambda>_. case rpc_errcode r of
              None \<Rightarrow> call_undefined
            | Some errcode \<Rightarrow>
                if sint errcode \<noteq> 0 then call_fail (sint errcode) else call_return (rpc_vals r))
       (gfm_store_conn gfm_server (rpc_conn r) (rpc_world r) s)"

text \<open>\<open>mal\<close> says which allocations for received strings succeed, \<open>szs\<close> are the sizes in the arguments.\<close>

definition gfm_client_rpc_result ::
  "(u64 \<Rightarrow> bool) \<Rightarrow> nat \<Rightarrow> bool \<Rightarrow> string \<Rightarrow> u64 list \<Rightarrow> ('w, xdr_val list) gfm_call" where
  "gfm_client_rpc_result mal gfm_server just format szs s =
     (case gfm_client_connection_used gfm_server s of
        None \<Rightarrow> None
      | Some s1 \<Rightarrow>
          (case gfm_server_at s1 gfm_server of
             None \<Rightarrow> None
           | Some g \<Rightarrow>
               (case gfp_xdr_flush (gfm_conn g) (gfm_world s1) of
                  None \<Rightarrow> None
                | Some (conn, e, w) \<Rightarrow>
                    call_bind (gfm_outcome gfm_server e ())
                      (\<lambda>_ s2. case gfp_xdr_vrpc_result mal conn just format szs (gfm_world s2) of
                                None \<Rightarrow> None
                              | Some r \<Rightarrow> gfm_rpc_end gfm_server r s2)
                      (gfm_store_conn gfm_server conn w s1))))"

definition gfm_client_rpc ::
  "(u64 \<Rightarrow> bool) \<Rightarrow> nat \<Rightarrow> bool \<Rightarrow> int \<Rightarrow> string \<Rightarrow> xdr_arg list \<Rightarrow> u64 list
     \<Rightarrow> ('w, xdr_val list) gfm_call" where
  "gfm_client_rpc mal gfm_server just command format args szs s =
     (case gfm_client_connection_used gfm_server s of
        None \<Rightarrow> None
      | Some s1 \<Rightarrow>
          (case gfm_server_at s1 gfm_server of
             None \<Rightarrow> None
           | Some g \<Rightarrow>
               (case gfp_xdr_vrpc mal (gfm_conn g) just command format args szs (gfm_world s1) of
                  None \<Rightarrow> None
                | Some r \<Rightarrow> gfm_rpc_end gfm_server r s1)))"

text \<open>
  The values that follow a request or a reply, sent and received one by one. The end of the file
  is \<open>GFARM_ERR_PROTOCOL\<close> for the caller, but the connection has been examined before that.
  \<open>gfm_recv_raw\<close> has the error, the \<open>eof\<close> flag and what has been stored.
\<close>

definition gfm_send_string :: "nat \<Rightarrow> byte list \<Rightarrow> ('w, unit) gfm_call" where
  "gfm_send_string gfm_server str s =
     (case gfm_server_at s gfm_server of
        None \<Rightarrow> None
      | Some g \<Rightarrow>
          (case gfp_xdr_send (gfm_conn g) ''s'' [Arg_ptr str] (gfm_world s) of
             None \<Rightarrow> None
           | Some (conn, e, w) \<Rightarrow>
               gfm_outcome gfm_server e () (gfm_store_conn gfm_server conn w s)))"

definition gfm_recv_raw ::
  "(u64 \<Rightarrow> bool) \<Rightarrow> nat \<Rightarrow> string \<Rightarrow> u64 list \<Rightarrow> 'w gfm_state
     \<Rightarrow> (gfarm_error_t \<times> bool \<times> xdr_val list \<times> 'w gfm_state) option" where
  "gfm_recv_raw mal gfm_server format szs s =
     (case gfm_server_at s gfm_server of
        None \<Rightarrow> None
      | Some g \<Rightarrow>
          (case gfp_xdr_recv mal (gfm_conn g) False format szs (gfm_world s) of
             None \<Rightarrow> None
           | Some r \<Rightarrow>
               map_option (\<lambda>s'. (rr_error r, rr_eof r, rr_vals r, s'))
                 (gfm_purge_on_error gfm_server (rr_error r)
                   (gfm_store_conn gfm_server (rr_conn r) (rr_world r) s))))"

definition gfm_recv :: "(u64 \<Rightarrow> bool) \<Rightarrow> nat \<Rightarrow> string \<Rightarrow> u64 list \<Rightarrow> ('w, xdr_val list) gfm_call" where
  "gfm_recv mal gfm_server format szs s =
     (case gfm_recv_raw mal gfm_server format szs s of
        None \<Rightarrow> None
      | Some (e, eof, vals, s') \<Rightarrow>
          if e \<noteq> GFARM_ERR_NO_ERROR then call_fail e s'
          else if eof then call_fail GFARM_ERR_PROTOCOL s'
          else call_return vals s')"

text \<open>\<open>n\<close> strings of an array that has \<open>strs\<close>, sent in order; reading past them is undefined.\<close>

definition gfm_send_strings :: "nat \<Rightarrow> int \<Rightarrow> byte list list \<Rightarrow> ('w, unit) gfm_call" where
  "gfm_send_strings gfm_server n strs =
     (if int (length strs) < n then call_undefined
      else call_each (gfm_send_string gfm_server) (take (nat n) strs))"

text \<open>\<open>GFARM_MALLOC_ARRAY\<close> for \<open>n\<close> elements of \<open>size\<close> bytes; \<open>n\<close> is converted to \<open>size_t\<close>.\<close>

definition gfm_malloc_array :: "(u64 \<Rightarrow> bool) \<Rightarrow> int \<Rightarrow> u64 \<Rightarrow> ('w, unit) gfm_call" where
  "gfm_malloc_array mal n sz =
     (if gfarm_malloc_array mal (word_of_int n) sz = None then call_fail GFARM_ERR_NO_MEMORY
      else call_return ())"

text \<open>The \<open>gfarm_int32_t\<close> in front of an array.\<close>

definition gfm_count :: "xdr_val list \<Rightarrow> int option" where
  "gfm_count vals = (case vals of [Val_int32 n] \<Rightarrow> Some (sint n) | _ \<Rightarrow> None)"

definition gfm_with_count :: "(int \<Rightarrow> ('w, 'a) gfm_call) \<Rightarrow> xdr_val list \<Rightarrow> ('w, 'a) gfm_call" where
  "gfm_with_count f vals =
     (case gfm_count vals of None \<Rightarrow> call_undefined | Some n \<Rightarrow> f n)"

end
