(* ===== verification/Gfm_Proto.thy ===== *)
theory Gfm_Proto
  imports Gfm_Rpc
begin

text \<open>
  \<open>gfarm/gfm_proto.h\<close>: the numbers of the commands of the metadata protocol that the client
  uses, the positions of the constants in \<open>enum gfm_proto_command\<close>, where every group has 16.
\<close>

abbreviation (input) GFM_PROTO_HOST_INFO_GET_ALL :: int where "GFM_PROTO_HOST_INFO_GET_ALL \<equiv> 0"
abbreviation (input) GFM_PROTO_HOST_INFO_GET_BY_ARCHITECTURE :: int where "GFM_PROTO_HOST_INFO_GET_BY_ARCHITECTURE \<equiv> 1"
abbreviation (input) GFM_PROTO_HOST_INFO_GET_BY_NAMES :: int where "GFM_PROTO_HOST_INFO_GET_BY_NAMES \<equiv> 2"
abbreviation (input) GFM_PROTO_HOST_INFO_GET_BY_NAMEALIASES :: int where "GFM_PROTO_HOST_INFO_GET_BY_NAMEALIASES \<equiv> 3"
abbreviation (input) GFM_PROTO_HOST_INFO_SET :: int where "GFM_PROTO_HOST_INFO_SET \<equiv> 4"
abbreviation (input) GFM_PROTO_HOST_INFO_MODIFY :: int where "GFM_PROTO_HOST_INFO_MODIFY \<equiv> 5"
abbreviation (input) GFM_PROTO_HOST_INFO_REMOVE :: int where "GFM_PROTO_HOST_INFO_REMOVE \<equiv> 6"
abbreviation (input) GFM_PROTO_USER_INFO_GET_ALL :: int where "GFM_PROTO_USER_INFO_GET_ALL \<equiv> 16"
abbreviation (input) GFM_PROTO_USER_INFO_GET_BY_NAMES :: int where "GFM_PROTO_USER_INFO_GET_BY_NAMES \<equiv> 17"
abbreviation (input) GFM_PROTO_USER_INFO_SET :: int where "GFM_PROTO_USER_INFO_SET \<equiv> 18"
abbreviation (input) GFM_PROTO_USER_INFO_MODIFY :: int where "GFM_PROTO_USER_INFO_MODIFY \<equiv> 19"
abbreviation (input) GFM_PROTO_USER_INFO_REMOVE :: int where "GFM_PROTO_USER_INFO_REMOVE \<equiv> 20"
abbreviation (input) GFM_PROTO_USER_INFO_GET_BY_GSI_DN :: int where "GFM_PROTO_USER_INFO_GET_BY_GSI_DN \<equiv> 21"
abbreviation (input) GFM_PROTO_GROUP_INFO_GET_ALL :: int where "GFM_PROTO_GROUP_INFO_GET_ALL \<equiv> 32"
abbreviation (input) GFM_PROTO_GROUP_INFO_GET_BY_NAMES :: int where "GFM_PROTO_GROUP_INFO_GET_BY_NAMES \<equiv> 33"
abbreviation (input) GFM_PROTO_GROUP_INFO_SET :: int where "GFM_PROTO_GROUP_INFO_SET \<equiv> 34"
abbreviation (input) GFM_PROTO_GROUP_INFO_MODIFY :: int where "GFM_PROTO_GROUP_INFO_MODIFY \<equiv> 35"
abbreviation (input) GFM_PROTO_GROUP_INFO_REMOVE :: int where "GFM_PROTO_GROUP_INFO_REMOVE \<equiv> 36"
abbreviation (input) GFM_PROTO_GROUP_INFO_ADD_USERS :: int where "GFM_PROTO_GROUP_INFO_ADD_USERS \<equiv> 37"
abbreviation (input) GFM_PROTO_GROUP_INFO_REMOVE_USERS :: int where "GFM_PROTO_GROUP_INFO_REMOVE_USERS \<equiv> 38"
abbreviation (input) GFM_PROTO_GROUP_NAMES_GET_BY_USERS :: int where "GFM_PROTO_GROUP_NAMES_GET_BY_USERS \<equiv> 39"
abbreviation (input) GFM_PROTO_QUOTA_USER_GET :: int where "GFM_PROTO_QUOTA_USER_GET \<equiv> 48"
abbreviation (input) GFM_PROTO_QUOTA_USER_SET :: int where "GFM_PROTO_QUOTA_USER_SET \<equiv> 49"
abbreviation (input) GFM_PROTO_QUOTA_GROUP_GET :: int where "GFM_PROTO_QUOTA_GROUP_GET \<equiv> 50"
abbreviation (input) GFM_PROTO_QUOTA_GROUP_SET :: int where "GFM_PROTO_QUOTA_GROUP_SET \<equiv> 51"
abbreviation (input) GFM_PROTO_QUOTA_CHECK :: int where "GFM_PROTO_QUOTA_CHECK \<equiv> 52"
abbreviation (input) GFM_PROTO_COMPOUND_BEGIN :: int where "GFM_PROTO_COMPOUND_BEGIN \<equiv> 64"
abbreviation (input) GFM_PROTO_COMPOUND_END :: int where "GFM_PROTO_COMPOUND_END \<equiv> 65"
abbreviation (input) GFM_PROTO_COMPOUND_ON_ERROR :: int where "GFM_PROTO_COMPOUND_ON_ERROR \<equiv> 66"
abbreviation (input) GFM_PROTO_PUT_FD :: int where "GFM_PROTO_PUT_FD \<equiv> 67"
abbreviation (input) GFM_PROTO_GET_FD :: int where "GFM_PROTO_GET_FD \<equiv> 68"
abbreviation (input) GFM_PROTO_SAVE_FD :: int where "GFM_PROTO_SAVE_FD \<equiv> 69"
abbreviation (input) GFM_PROTO_RESTORE_FD :: int where "GFM_PROTO_RESTORE_FD \<equiv> 70"
abbreviation (input) GFM_PROTO_BEQUEATH_FD :: int where "GFM_PROTO_BEQUEATH_FD \<equiv> 71"
abbreviation (input) GFM_PROTO_INHERIT_FD :: int where "GFM_PROTO_INHERIT_FD \<equiv> 72"
abbreviation (input) GFM_PROTO_OPEN_ROOT :: int where "GFM_PROTO_OPEN_ROOT \<equiv> 80"
abbreviation (input) GFM_PROTO_OPEN_PARENT :: int where "GFM_PROTO_OPEN_PARENT \<equiv> 81"
abbreviation (input) GFM_PROTO_OPEN :: int where "GFM_PROTO_OPEN \<equiv> 82"
abbreviation (input) GFM_PROTO_CREATE :: int where "GFM_PROTO_CREATE \<equiv> 83"
abbreviation (input) GFM_PROTO_CLOSE :: int where "GFM_PROTO_CLOSE \<equiv> 84"
abbreviation (input) GFM_PROTO_VERIFY_TYPE :: int where "GFM_PROTO_VERIFY_TYPE \<equiv> 85"
abbreviation (input) GFM_PROTO_VERIFY_TYPE_NOT :: int where "GFM_PROTO_VERIFY_TYPE_NOT \<equiv> 86"
abbreviation (input) GFM_PROTO_FSTAT :: int where "GFM_PROTO_FSTAT \<equiv> 96"
abbreviation (input) GFM_PROTO_FUTIMES :: int where "GFM_PROTO_FUTIMES \<equiv> 97"
abbreviation (input) GFM_PROTO_FCHMOD :: int where "GFM_PROTO_FCHMOD \<equiv> 98"
abbreviation (input) GFM_PROTO_FCHOWN :: int where "GFM_PROTO_FCHOWN \<equiv> 99"
abbreviation (input) GFM_PROTO_CKSUM_GET :: int where "GFM_PROTO_CKSUM_GET \<equiv> 100"
abbreviation (input) GFM_PROTO_CKSUM_SET :: int where "GFM_PROTO_CKSUM_SET \<equiv> 101"
abbreviation (input) GFM_PROTO_SCHEDULE_FILE :: int where "GFM_PROTO_SCHEDULE_FILE \<equiv> 102"
abbreviation (input) GFM_PROTO_SCHEDULE_FILE_WITH_PROGRAM :: int where "GFM_PROTO_SCHEDULE_FILE_WITH_PROGRAM \<equiv> 103"
abbreviation (input) GFM_PROTO_REMOVE :: int where "GFM_PROTO_REMOVE \<equiv> 112"
abbreviation (input) GFM_PROTO_RENAME :: int where "GFM_PROTO_RENAME \<equiv> 113"
abbreviation (input) GFM_PROTO_FLINK :: int where "GFM_PROTO_FLINK \<equiv> 114"
abbreviation (input) GFM_PROTO_MKDIR :: int where "GFM_PROTO_MKDIR \<equiv> 115"
abbreviation (input) GFM_PROTO_SYMLINK :: int where "GFM_PROTO_SYMLINK \<equiv> 116"
abbreviation (input) GFM_PROTO_READLINK :: int where "GFM_PROTO_READLINK \<equiv> 117"
abbreviation (input) GFM_PROTO_GETDIRPATH :: int where "GFM_PROTO_GETDIRPATH \<equiv> 118"
abbreviation (input) GFM_PROTO_GETDIRENTS :: int where "GFM_PROTO_GETDIRENTS \<equiv> 119"
abbreviation (input) GFM_PROTO_SEEK :: int where "GFM_PROTO_SEEK \<equiv> 120"
abbreviation (input) GFM_PROTO_GETDIRENTSPLUS :: int where "GFM_PROTO_GETDIRENTSPLUS \<equiv> 121"
abbreviation (input) GFM_PROTO_REOPEN :: int where "GFM_PROTO_REOPEN \<equiv> 128"
abbreviation (input) GFM_PROTO_CLOSE_READ :: int where "GFM_PROTO_CLOSE_READ \<equiv> 129"
abbreviation (input) GFM_PROTO_CLOSE_WRITE :: int where "GFM_PROTO_CLOSE_WRITE \<equiv> 130"
abbreviation (input) GFM_PROTO_LOCK :: int where "GFM_PROTO_LOCK \<equiv> 131"
abbreviation (input) GFM_PROTO_TRYLOCK :: int where "GFM_PROTO_TRYLOCK \<equiv> 132"
abbreviation (input) GFM_PROTO_UNLOCK :: int where "GFM_PROTO_UNLOCK \<equiv> 133"
abbreviation (input) GFM_PROTO_LOCK_INFO :: int where "GFM_PROTO_LOCK_INFO \<equiv> 134"
abbreviation (input) GFM_PROTO_SWITCH_BACK_CHANNEL :: int where "GFM_PROTO_SWITCH_BACK_CHANNEL \<equiv> 135"
abbreviation (input) GFM_PROTO_HOSTNAME_SET :: int where "GFM_PROTO_HOSTNAME_SET \<equiv> 176"
abbreviation (input) GFM_PROTO_SCHEDULE_HOST_DOMAIN :: int where "GFM_PROTO_SCHEDULE_HOST_DOMAIN \<equiv> 177"
abbreviation (input) GFM_PROTO_STATFS :: int where "GFM_PROTO_STATFS \<equiv> 178"
abbreviation (input) GFM_PROTO_REPLICA_LIST_BY_NAME :: int where "GFM_PROTO_REPLICA_LIST_BY_NAME \<equiv> 192"
abbreviation (input) GFM_PROTO_REPLICA_LIST_BY_HOST :: int where "GFM_PROTO_REPLICA_LIST_BY_HOST \<equiv> 193"
abbreviation (input) GFM_PROTO_REPLICA_REMOVE_BY_HOST :: int where "GFM_PROTO_REPLICA_REMOVE_BY_HOST \<equiv> 194"
abbreviation (input) GFM_PROTO_REPLICA_REMOVE_BY_FILE :: int where "GFM_PROTO_REPLICA_REMOVE_BY_FILE \<equiv> 195"
abbreviation (input) GFM_PROTO_REPLICA_ADDING :: int where "GFM_PROTO_REPLICA_ADDING \<equiv> 208"
abbreviation (input) GFM_PROTO_REPLICA_ADDED :: int where "GFM_PROTO_REPLICA_ADDED \<equiv> 209"
abbreviation (input) GFM_PROTO_REPLICA_REMOVE :: int where "GFM_PROTO_REPLICA_REMOVE \<equiv> 210"
abbreviation (input) GFM_PROTO_REPLICA_ADD :: int where "GFM_PROTO_REPLICA_ADD \<equiv> 211"
abbreviation (input) GFM_PROTO_REPLICA_ADDED2 :: int where "GFM_PROTO_REPLICA_ADDED2 \<equiv> 212"
abbreviation (input) GFM_PROTO_PROCESS_ALLOC :: int where "GFM_PROTO_PROCESS_ALLOC \<equiv> 224"
abbreviation (input) GFM_PROTO_PROCESS_ALLOC_CHILD :: int where "GFM_PROTO_PROCESS_ALLOC_CHILD \<equiv> 225"
abbreviation (input) GFM_PROTO_PROCESS_FREE :: int where "GFM_PROTO_PROCESS_FREE \<equiv> 226"
abbreviation (input) GFM_PROTO_PROCESS_SET :: int where "GFM_PROTO_PROCESS_SET \<equiv> 227"
abbreviation (input) GFM_PROTO_XATTR_SET :: int where "GFM_PROTO_XATTR_SET \<equiv> 256"
abbreviation (input) GFM_PROTO_XMLATTR_SET :: int where "GFM_PROTO_XMLATTR_SET \<equiv> 257"
abbreviation (input) GFM_PROTO_XATTR_GET :: int where "GFM_PROTO_XATTR_GET \<equiv> 258"
abbreviation (input) GFM_PROTO_XMLATTR_GET :: int where "GFM_PROTO_XMLATTR_GET \<equiv> 259"
abbreviation (input) GFM_PROTO_XATTR_REMOVE :: int where "GFM_PROTO_XATTR_REMOVE \<equiv> 260"
abbreviation (input) GFM_PROTO_XMLATTR_REMOVE :: int where "GFM_PROTO_XMLATTR_REMOVE \<equiv> 261"
abbreviation (input) GFM_PROTO_XATTR_LIST :: int where "GFM_PROTO_XATTR_LIST \<equiv> 262"
abbreviation (input) GFM_PROTO_XMLATTR_LIST :: int where "GFM_PROTO_XMLATTR_LIST \<equiv> 263"
abbreviation (input) GFM_PROTO_XMLATTR_FIND :: int where "GFM_PROTO_XMLATTR_FIND \<equiv> 264"

end
