(* ===== verification/Gfm_Fs.thy ===== *)
theory Gfm_Fs
  imports Gfm_Proto
begin

text \<open>
  \<open>gfarm/gfm_client.c\<close>: the calls about files, directories, attributes, replicas and processes. Most
  come in pairs: \<open>_request\<close> sends the command with its arguments, \<open>_result\<close> receives
  the answer, so that several requests of one compound go out before the first result is
  awaited. Strings are blocks of memory, results the values in the order of the format.
\<close>

subsection \<open>Compound requests and descriptors\<close>

definition gfm_client_compound_begin_request :: "nat \<Rightarrow> ('w, unit) gfm_call" where
  "gfm_client_compound_begin_request gfm_server =
     gfm_client_rpc_request gfm_server GFM_PROTO_COMPOUND_BEGIN '''' []"

definition gfm_client_compound_begin_result ::
  "(u64 \<Rightarrow> bool) \<Rightarrow> nat \<Rightarrow> ('w, xdr_val list) gfm_call" where
  "gfm_client_compound_begin_result mal gfm_server =
     gfm_client_rpc_result mal gfm_server False '''' []"

definition gfm_client_compound_end_request :: "nat \<Rightarrow> ('w, unit) gfm_call" where
  "gfm_client_compound_end_request gfm_server =
     gfm_client_rpc_request gfm_server GFM_PROTO_COMPOUND_END '''' []"

definition gfm_client_compound_end_result ::
  "(u64 \<Rightarrow> bool) \<Rightarrow> nat \<Rightarrow> ('w, xdr_val list) gfm_call" where
  "gfm_client_compound_end_result mal gfm_server =
     gfm_client_rpc_result mal gfm_server False '''' []"

definition gfm_client_compound_on_error_request :: "nat \<Rightarrow> int \<Rightarrow> ('w, unit) gfm_call" where
  "gfm_client_compound_on_error_request gfm_server err =
     gfm_client_rpc_request gfm_server GFM_PROTO_COMPOUND_ON_ERROR ''i'' [Arg_int err]"

definition gfm_client_compound_on_error_result ::
  "(u64 \<Rightarrow> bool) \<Rightarrow> nat \<Rightarrow> ('w, xdr_val list) gfm_call" where
  "gfm_client_compound_on_error_result mal gfm_server =
     gfm_client_rpc_result mal gfm_server False '''' []"

definition gfm_client_get_fd_request :: "nat \<Rightarrow> ('w, unit) gfm_call" where
  "gfm_client_get_fd_request gfm_server =
     gfm_client_rpc_request gfm_server GFM_PROTO_GET_FD '''' []"

definition gfm_client_get_fd_result ::
  "(u64 \<Rightarrow> bool) \<Rightarrow> nat \<Rightarrow> ('w, xdr_val list) gfm_call" where
  "gfm_client_get_fd_result mal gfm_server = gfm_client_rpc_result mal gfm_server False ''i'' []"

definition gfm_client_put_fd_request :: "nat \<Rightarrow> int \<Rightarrow> ('w, unit) gfm_call" where
  "gfm_client_put_fd_request gfm_server fd =
     gfm_client_rpc_request gfm_server GFM_PROTO_PUT_FD ''i'' [Arg_int fd]"

definition gfm_client_put_fd_result ::
  "(u64 \<Rightarrow> bool) \<Rightarrow> nat \<Rightarrow> ('w, xdr_val list) gfm_call" where
  "gfm_client_put_fd_result mal gfm_server = gfm_client_rpc_result mal gfm_server False '''' []"

definition gfm_client_save_fd_request :: "nat \<Rightarrow> ('w, unit) gfm_call" where
  "gfm_client_save_fd_request gfm_server =
     gfm_client_rpc_request gfm_server GFM_PROTO_SAVE_FD '''' []"

definition gfm_client_save_fd_result ::
  "(u64 \<Rightarrow> bool) \<Rightarrow> nat \<Rightarrow> ('w, xdr_val list) gfm_call" where
  "gfm_client_save_fd_result mal gfm_server = gfm_client_rpc_result mal gfm_server False '''' []"

definition gfm_client_restore_fd_request :: "nat \<Rightarrow> ('w, unit) gfm_call" where
  "gfm_client_restore_fd_request gfm_server =
     gfm_client_rpc_request gfm_server GFM_PROTO_RESTORE_FD '''' []"

definition gfm_client_restore_fd_result ::
  "(u64 \<Rightarrow> bool) \<Rightarrow> nat \<Rightarrow> ('w, xdr_val list) gfm_call" where
  "gfm_client_restore_fd_result mal gfm_server = gfm_client_rpc_result mal gfm_server False '''' []"

subsection \<open>Opening and closing\<close>

definition gfm_client_create_request :: "nat \<Rightarrow> byte list \<Rightarrow> int \<Rightarrow> int \<Rightarrow> ('w, unit) gfm_call" where
  "gfm_client_create_request gfm_server name flags mode =
     gfm_client_rpc_request gfm_server GFM_PROTO_CREATE ''sii''
       [Arg_ptr name, Arg_int flags, Arg_int mode]"

definition gfm_client_create_result ::
  "(u64 \<Rightarrow> bool) \<Rightarrow> nat \<Rightarrow> ('w, xdr_val list) gfm_call" where
  "gfm_client_create_result mal gfm_server = gfm_client_rpc_result mal gfm_server False ''lli'' []"

definition gfm_client_open_request :: "nat \<Rightarrow> byte list \<Rightarrow> u64 \<Rightarrow> int \<Rightarrow> ('w, unit) gfm_call" where
  "gfm_client_open_request gfm_server name namelen flags =
     gfm_client_rpc_request gfm_server GFM_PROTO_OPEN ''Si''
       [Arg_ptr name, Arg_size namelen, Arg_int flags]"

definition gfm_client_open_result ::
  "(u64 \<Rightarrow> bool) \<Rightarrow> nat \<Rightarrow> ('w, xdr_val list) gfm_call" where
  "gfm_client_open_result mal gfm_server = gfm_client_rpc_result mal gfm_server False ''lli'' []"

definition gfm_client_open_root_request :: "nat \<Rightarrow> int \<Rightarrow> ('w, unit) gfm_call" where
  "gfm_client_open_root_request gfm_server flags =
     gfm_client_rpc_request gfm_server GFM_PROTO_OPEN_ROOT ''i'' [Arg_int flags]"

definition gfm_client_open_root_result ::
  "(u64 \<Rightarrow> bool) \<Rightarrow> nat \<Rightarrow> ('w, xdr_val list) gfm_call" where
  "gfm_client_open_root_result mal gfm_server = gfm_client_rpc_result mal gfm_server False '''' []"

definition gfm_client_open_parernt_request :: "nat \<Rightarrow> int \<Rightarrow> ('w, unit) gfm_call" where
  "gfm_client_open_parernt_request gfm_server flags =
     gfm_client_rpc_request gfm_server GFM_PROTO_OPEN_PARENT ''i'' [Arg_int flags]"

definition gfm_client_open_parent_result ::
  "(u64 \<Rightarrow> bool) \<Rightarrow> nat \<Rightarrow> ('w, xdr_val list) gfm_call" where
  "gfm_client_open_parent_result mal gfm_server =
     gfm_client_rpc_result mal gfm_server False '''' []"

definition gfm_client_close_request :: "nat \<Rightarrow> ('w, unit) gfm_call" where
  "gfm_client_close_request gfm_server = gfm_client_rpc_request gfm_server GFM_PROTO_CLOSE '''' []"

definition gfm_client_close_result ::
  "(u64 \<Rightarrow> bool) \<Rightarrow> nat \<Rightarrow> ('w, xdr_val list) gfm_call" where
  "gfm_client_close_result mal gfm_server = gfm_client_rpc_result mal gfm_server False '''' []"

definition gfm_client_verify_type_request :: "nat \<Rightarrow> int \<Rightarrow> ('w, unit) gfm_call" where
  "gfm_client_verify_type_request gfm_server type =
     gfm_client_rpc_request gfm_server GFM_PROTO_VERIFY_TYPE ''i'' [Arg_int type]"

definition gfm_client_verify_type_result ::
  "(u64 \<Rightarrow> bool) \<Rightarrow> nat \<Rightarrow> ('w, xdr_val list) gfm_call" where
  "gfm_client_verify_type_result mal gfm_server =
     gfm_client_rpc_result mal gfm_server False '''' []"

definition gfm_client_verify_type_not_request :: "nat \<Rightarrow> int \<Rightarrow> ('w, unit) gfm_call" where
  "gfm_client_verify_type_not_request gfm_server type =
     gfm_client_rpc_request gfm_server GFM_PROTO_VERIFY_TYPE_NOT ''i'' [Arg_int type]"

definition gfm_client_verify_type_not_result ::
  "(u64 \<Rightarrow> bool) \<Rightarrow> nat \<Rightarrow> ('w, xdr_val list) gfm_call" where
  "gfm_client_verify_type_not_result mal gfm_server =
     gfm_client_rpc_result mal gfm_server False '''' []"

definition gfm_client_bequeath_fd_request :: "nat \<Rightarrow> ('w, unit) gfm_call" where
  "gfm_client_bequeath_fd_request gfm_server =
     gfm_client_rpc_request gfm_server GFM_PROTO_BEQUEATH_FD '''' []"

definition gfm_client_bequeath_fd_result ::
  "(u64 \<Rightarrow> bool) \<Rightarrow> nat \<Rightarrow> ('w, xdr_val list) gfm_call" where
  "gfm_client_bequeath_fd_result mal gfm_server =
     gfm_client_rpc_result mal gfm_server False '''' []"

definition gfm_client_inherit_fd_request :: "nat \<Rightarrow> int \<Rightarrow> ('w, unit) gfm_call" where
  "gfm_client_inherit_fd_request gfm_server fd =
     gfm_client_rpc_request gfm_server GFM_PROTO_INHERIT_FD ''i'' [Arg_int fd]"

definition gfm_client_inherit_fd_result ::
  "(u64 \<Rightarrow> bool) \<Rightarrow> nat \<Rightarrow> ('w, xdr_val list) gfm_call" where
  "gfm_client_inherit_fd_result mal gfm_server = gfm_client_rpc_result mal gfm_server False '''' []"

subsection \<open>Attributes\<close>

text \<open>The fields of \<open>struct gfs_stat\<close> in the order of the format; 14 values on success.\<close>

definition gfm_client_fstat_request :: "nat \<Rightarrow> ('w, unit) gfm_call" where
  "gfm_client_fstat_request gfm_server = gfm_client_rpc_request gfm_server GFM_PROTO_FSTAT '''' []"

definition gfm_client_fstat_result ::
  "(u64 \<Rightarrow> bool) \<Rightarrow> nat \<Rightarrow> ('w, xdr_val list) gfm_call" where
  "gfm_client_fstat_result mal gfm_server =
     gfm_client_rpc_result mal gfm_server False ''llilsslllilili'' []"

definition gfm_client_futimes_request :: "nat \<Rightarrow> u64 \<Rightarrow> int \<Rightarrow> u64 \<Rightarrow> int \<Rightarrow> ('w, unit) gfm_call" where
  "gfm_client_futimes_request gfm_server atime_sec atime_nsec mtime_sec mtime_nsec =
     gfm_client_rpc_request gfm_server GFM_PROTO_FUTIMES ''lili''
       [Arg_int64 atime_sec, Arg_int atime_nsec, Arg_int64 mtime_sec, Arg_int mtime_nsec]"

definition gfm_client_futimes_result ::
  "(u64 \<Rightarrow> bool) \<Rightarrow> nat \<Rightarrow> ('w, xdr_val list) gfm_call" where
  "gfm_client_futimes_result mal gfm_server = gfm_client_rpc_result mal gfm_server False '''' []"

definition gfm_client_fchmod_request :: "nat \<Rightarrow> int \<Rightarrow> ('w, unit) gfm_call" where
  "gfm_client_fchmod_request gfm_server mode =
     gfm_client_rpc_request gfm_server GFM_PROTO_FCHMOD ''i'' [Arg_int mode]"

definition gfm_client_fchmod_result ::
  "(u64 \<Rightarrow> bool) \<Rightarrow> nat \<Rightarrow> ('w, xdr_val list) gfm_call" where
  "gfm_client_fchmod_result mal gfm_server = gfm_client_rpc_result mal gfm_server False '''' []"

text \<open>\<open>user == NULL ? "" : user\<close>; the empty string is a single 0.\<close>

definition string_or_empty :: "byte list option \<Rightarrow> byte list" where
  "string_or_empty s = (case s of None \<Rightarrow> [0] | Some str \<Rightarrow> str)"

definition gfm_client_fchown_request :: "nat \<Rightarrow> byte list option \<Rightarrow> byte list option \<Rightarrow> ('w, unit) gfm_call" where
  "gfm_client_fchown_request gfm_server user grp =
     gfm_client_rpc_request gfm_server GFM_PROTO_FCHOWN ''ss''
       [Arg_ptr (string_or_empty user), Arg_ptr (string_or_empty grp)]"

definition gfm_client_fchown_result ::
  "(u64 \<Rightarrow> bool) \<Rightarrow> nat \<Rightarrow> ('w, xdr_val list) gfm_call" where
  "gfm_client_fchown_result mal gfm_server = gfm_client_rpc_result mal gfm_server False '''' []"

definition gfm_client_cksum_get_request :: "nat \<Rightarrow> ('w, unit) gfm_call" where
  "gfm_client_cksum_get_request gfm_server =
     gfm_client_rpc_request gfm_server GFM_PROTO_CKSUM_GET '''' []"

definition gfm_client_cksum_get_result ::
  "(u64 \<Rightarrow> bool) \<Rightarrow> nat \<Rightarrow> u64 \<Rightarrow> ('w, xdr_val list) gfm_call" where
  "gfm_client_cksum_get_result mal gfm_server bufsize =
     gfm_client_rpc_result mal gfm_server False ''sbi'' [bufsize]"

definition gfm_client_cksum_set_request :: "nat \<Rightarrow> byte list \<Rightarrow> u64 \<Rightarrow> byte list \<Rightarrow> int \<Rightarrow> u64 \<Rightarrow> int \<Rightarrow> ('w, unit) gfm_call" where
  "gfm_client_cksum_set_request gfm_server cksum_type cksum_len cksum flags mtime_sec mtime_nsec =
     gfm_client_rpc_request gfm_server GFM_PROTO_CKSUM_SET ''sbili''
       [Arg_ptr cksum_type, Arg_size cksum_len, Arg_ptr cksum, Arg_int flags, Arg_int64 mtime_sec, Arg_int mtime_nsec]"

definition gfm_client_cksum_set_result ::
  "(u64 \<Rightarrow> bool) \<Rightarrow> nat \<Rightarrow> ('w, xdr_val list) gfm_call" where
  "gfm_client_cksum_set_result mal gfm_server = gfm_client_rpc_result mal gfm_server False '''' []"

subsection \<open>Scheduling\<close>

text \<open>
  An entry is the list of the values of its format; \<open>loadavg\<close> stays the number received, without
  the division by \<open>GFM_PROTO_LOADAVG_FSCALE\<close> = 2048 in \<open>float\<close>.
\<close>

definition gfm_client_get_schedule_result ::
  "(u64 \<Rightarrow> bool) \<Rightarrow> nat \<Rightarrow> ('w, int \<times> xdr_val list list) gfm_call" where
  "gfm_client_get_schedule_result mal gfm_server =
     call_bind (gfm_client_rpc_result mal gfm_server False ''i'' [])
       (gfm_with_count (\<lambda>nhosts.
          call_bind (gfm_malloc_array mal nhosts 64)
            (\<lambda>_. call_bind (call_repeat (nat nhosts) (gfm_recv mal gfm_server ''siiillllii'' []))
                    (\<lambda>infos. call_return (nhosts, infos)))))"

definition gfm_client_schedule_file_request :: "nat \<Rightarrow> byte list \<Rightarrow> ('w, unit) gfm_call" where
  "gfm_client_schedule_file_request gfm_server domain =
     gfm_client_rpc_request gfm_server GFM_PROTO_SCHEDULE_FILE ''s'' [Arg_ptr domain]"

definition gfm_client_schedule_file_result ::
  "(u64 \<Rightarrow> bool) \<Rightarrow> nat \<Rightarrow> ('w, int \<times> xdr_val list list) gfm_call" where
  "gfm_client_schedule_file_result mal gfm_server = gfm_client_get_schedule_result mal gfm_server"

definition gfm_client_schedule_file_with_program_request :: "nat \<Rightarrow> byte list \<Rightarrow> ('w, unit) gfm_call" where
  "gfm_client_schedule_file_with_program_request gfm_server domain =
     gfm_client_rpc_request gfm_server GFM_PROTO_SCHEDULE_FILE_WITH_PROGRAM ''s'' [Arg_ptr domain]"

definition gfm_client_schedule_file_with_program_result ::
  "(u64 \<Rightarrow> bool) \<Rightarrow> nat \<Rightarrow> ('w, int \<times> xdr_val list list) gfm_call" where
  "gfm_client_schedule_file_with_program_result mal gfm_server = gfm_client_get_schedule_result mal gfm_server"

definition gfm_client_schedule_host_domain ::
  "(u64 \<Rightarrow> bool) \<Rightarrow> nat \<Rightarrow> byte list \<Rightarrow> ('w, int \<times> xdr_val list list) gfm_call" where
  "gfm_client_schedule_host_domain mal gfm_server domain =
     call_bind (gfm_client_rpc_request gfm_server GFM_PROTO_SCHEDULE_HOST_DOMAIN ''s'' [Arg_ptr domain])
       (\<lambda>_. gfm_client_get_schedule_result mal gfm_server)"

definition gfm_client_statfs :: "(u64 \<Rightarrow> bool) \<Rightarrow> nat \<Rightarrow> ('w, xdr_val list) gfm_call" where
  "gfm_client_statfs mal gfm_server =
     gfm_client_rpc mal gfm_server False GFM_PROTO_STATFS ''/lll'' [] []"

subsection \<open>Directories\<close>

definition gfm_client_remove_request :: "nat \<Rightarrow> byte list \<Rightarrow> ('w, unit) gfm_call" where
  "gfm_client_remove_request gfm_server name =
     gfm_client_rpc_request gfm_server GFM_PROTO_REMOVE ''s'' [Arg_ptr name]"

definition gfm_client_remove_result ::
  "(u64 \<Rightarrow> bool) \<Rightarrow> nat \<Rightarrow> ('w, xdr_val list) gfm_call" where
  "gfm_client_remove_result mal gfm_server = gfm_client_rpc_result mal gfm_server False '''' []"

definition gfm_client_rename_request :: "nat \<Rightarrow> byte list \<Rightarrow> byte list \<Rightarrow> ('w, unit) gfm_call" where
  "gfm_client_rename_request gfm_server src_name target_name =
     gfm_client_rpc_request gfm_server GFM_PROTO_RENAME ''ss''
       [Arg_ptr src_name, Arg_ptr target_name]"

definition gfm_client_rename_result ::
  "(u64 \<Rightarrow> bool) \<Rightarrow> nat \<Rightarrow> ('w, xdr_val list) gfm_call" where
  "gfm_client_rename_result mal gfm_server = gfm_client_rpc_result mal gfm_server False '''' []"

definition gfm_client_flink_request :: "nat \<Rightarrow> byte list \<Rightarrow> ('w, unit) gfm_call" where
  "gfm_client_flink_request gfm_server target_name =
     gfm_client_rpc_request gfm_server GFM_PROTO_FLINK ''s'' [Arg_ptr target_name]"

definition gfm_client_flink_result ::
  "(u64 \<Rightarrow> bool) \<Rightarrow> nat \<Rightarrow> ('w, xdr_val list) gfm_call" where
  "gfm_client_flink_result mal gfm_server = gfm_client_rpc_result mal gfm_server False '''' []"

definition gfm_client_mkdir_request :: "nat \<Rightarrow> byte list \<Rightarrow> int \<Rightarrow> ('w, unit) gfm_call" where
  "gfm_client_mkdir_request gfm_server target_name mode =
     gfm_client_rpc_request gfm_server GFM_PROTO_MKDIR ''si'' [Arg_ptr target_name, Arg_int mode]"

definition gfm_client_mkdir_result ::
  "(u64 \<Rightarrow> bool) \<Rightarrow> nat \<Rightarrow> ('w, xdr_val list) gfm_call" where
  "gfm_client_mkdir_result mal gfm_server = gfm_client_rpc_result mal gfm_server False '''' []"

definition gfm_client_symlink_request :: "nat \<Rightarrow> byte list \<Rightarrow> byte list \<Rightarrow> ('w, unit) gfm_call" where
  "gfm_client_symlink_request gfm_server target_path link_name =
     gfm_client_rpc_request gfm_server GFM_PROTO_SYMLINK ''ss''
       [Arg_ptr target_path, Arg_ptr link_name]"

definition gfm_client_symlink_result ::
  "(u64 \<Rightarrow> bool) \<Rightarrow> nat \<Rightarrow> ('w, xdr_val list) gfm_call" where
  "gfm_client_symlink_result mal gfm_server = gfm_client_rpc_result mal gfm_server False '''' []"

definition gfm_client_readlink_request :: "nat \<Rightarrow> ('w, unit) gfm_call" where
  "gfm_client_readlink_request gfm_server =
     gfm_client_rpc_request gfm_server GFM_PROTO_READLINK '''' []"

definition gfm_client_readlink_result ::
  "(u64 \<Rightarrow> bool) \<Rightarrow> nat \<Rightarrow> ('w, xdr_val list) gfm_call" where
  "gfm_client_readlink_result mal gfm_server = gfm_client_rpc_result mal gfm_server False ''s'' []"

definition gfm_client_getdirpath_request :: "nat \<Rightarrow> ('w, unit) gfm_call" where
  "gfm_client_getdirpath_request gfm_server =
     gfm_client_rpc_request gfm_server GFM_PROTO_GETDIRPATH '''' []"

definition gfm_client_getdirpath_result ::
  "(u64 \<Rightarrow> bool) \<Rightarrow> nat \<Rightarrow> ('w, xdr_val list) gfm_call" where
  "gfm_client_getdirpath_result mal gfm_server =
     gfm_client_rpc_result mal gfm_server False ''s'' []"

definition gfm_client_getdirents_request :: "nat \<Rightarrow> int \<Rightarrow> ('w, unit) gfm_call" where
  "gfm_client_getdirents_request gfm_server n_entries =
     gfm_client_rpc_request gfm_server GFM_PROTO_GETDIRENTS ''i'' [Arg_int n_entries]"

text \<open>
  \<open>struct gfs_dirent\<close> of 272 bytes with 256 for the name. The name received fills at most 255
  bytes; \<open>sz\<close>, its length as the server gave it, is cut to that, and the name ends with a 0.
  The number of entries is the server's: it is not compared with the room in \<open>dirents\<close>, which is
  taken to be enough.
\<close>

record gfs_dirent =
  d_fileno :: u64
  d_reclen :: u16
  d_type :: byte
  d_namlen :: byte
  d_name :: "byte list"

abbreviation (input) GFS_MAXNAMLEN :: u64 where "GFS_MAXNAMLEN \<equiv> 255"
abbreviation (input) GFS_DT_UNKNOWN :: byte where "GFS_DT_UNKNOWN \<equiv> 0"
abbreviation (input) GFS_DT_DIR :: byte where "GFS_DT_DIR \<equiv> 4"
abbreviation (input) GFS_DT_REG :: byte where "GFS_DT_REG \<equiv> 8"
abbreviation (input) GFS_DT_LNK :: byte where "GFS_DT_LNK \<equiv> 10"

definition gfs_dirent_of :: "u64 \<Rightarrow> byte list \<Rightarrow> byte \<Rightarrow> u64 \<Rightarrow> gfs_dirent" where
  "gfs_dirent_of sz0 name type fileno =
     (let sz = (if GFS_MAXNAMLEN \<le> sz0 then GFS_MAXNAMLEN else sz0)
      in \<lparr>d_fileno = fileno, d_reclen = ucast (272 - 256 + sz), d_type = type, d_namlen = ucast sz,
          d_name = take (unat sz) name @ [0]\<rparr>)"

definition gfm_client_getdirents_result ::
  "(u64 \<Rightarrow> bool) \<Rightarrow> nat \<Rightarrow> ('w, int \<times> gfs_dirent list) gfm_call" where
  "gfm_client_getdirents_result mal gfm_server =
     call_bind (gfm_client_rpc_result mal gfm_server False ''i'' [])
       (gfm_with_count (\<lambda>n.
          call_bind (call_repeat (nat n)
              (call_bind (gfm_recv mal gfm_server ''bil'' [GFS_MAXNAMLEN])
                 (\<lambda>vals. case vals of
                    [Val_size sz, Val_block name, Val_int32 type, Val_int64 fileno] \<Rightarrow>
                      call_return (gfs_dirent_of sz name (ucast type) fileno)
                  | _ \<Rightarrow> call_undefined)))
            (\<lambda>dirents. call_return (n, dirents))))"

definition gfm_client_getdirentsplus_request :: "nat \<Rightarrow> int \<Rightarrow> ('w, unit) gfm_call" where
  "gfm_client_getdirentsplus_request gfm_server n_entries =
     gfm_client_rpc_request gfm_server GFM_PROTO_GETDIRENTSPLUS ''i'' [Arg_int n_entries]"

text \<open>\<open>gfs_mode_to_type\<close> of \<open>gfs_pio_misc.c\<close>. The file type bits are \<open>0xF000\<close>.\<close>

definition gfs_mode_to_type :: "u32 \<Rightarrow> byte" where
  "gfs_mode_to_type mode =
     (if and mode 0xF000 = 0x4000 then GFS_DT_DIR
      else if and mode 0xF000 = 0x8000 then GFS_DT_REG
      else if and mode 0xF000 = 0xA000 then GFS_DT_LNK
      else GFS_DT_UNKNOWN)"

text \<open>The 14 values of a \<open>struct gfs_stat\<close> come after the name; the third is \<open>st_mode\<close>.\<close>

definition gfm_client_getdirentsplus_result ::
  "(u64 \<Rightarrow> bool) \<Rightarrow> nat \<Rightarrow> ('w, int \<times> (gfs_dirent \<times> xdr_val list) list) gfm_call" where
  "gfm_client_getdirentsplus_result mal gfm_server =
     call_bind (gfm_client_rpc_result mal gfm_server False ''i'' [])
       (gfm_with_count (\<lambda>n.
          call_bind (call_repeat (nat n)
              (call_bind (gfm_recv mal gfm_server ''bllilsslllilili'' [GFS_MAXNAMLEN])
                 (\<lambda>vals. case vals of
                    Val_size sz # Val_block name # Val_int64 ino # Val_int64 gen # Val_int32 mode # st \<Rightarrow>
                      call_return (gfs_dirent_of sz name (gfs_mode_to_type mode) ino,
                                  Val_int64 ino # Val_int64 gen # Val_int32 mode # st)
                  | _ \<Rightarrow> call_undefined)))
            (\<lambda>entries. call_return (n, entries))))"

definition gfm_client_seek_request :: "nat \<Rightarrow> u64 \<Rightarrow> int \<Rightarrow> ('w, unit) gfm_call" where
  "gfm_client_seek_request gfm_server offset whence =
     gfm_client_rpc_request gfm_server GFM_PROTO_SEEK ''li'' [Arg_int64 offset, Arg_int whence]"

definition gfm_client_seek_result ::
  "(u64 \<Rightarrow> bool) \<Rightarrow> nat \<Rightarrow> ('w, xdr_val list) gfm_call" where
  "gfm_client_seek_result mal gfm_server = gfm_client_rpc_result mal gfm_server False ''l'' []"

subsection \<open>Extended attributes\<close>

definition gfm_client_setxattr_request ::
  "nat \<Rightarrow> bool \<Rightarrow> byte list \<Rightarrow> u64 \<Rightarrow> byte list \<Rightarrow> int \<Rightarrow> ('w, unit) gfm_call" where
  "gfm_client_setxattr_request gfm_server xmlMode name sz val flags =
     gfm_client_rpc_request gfm_server
       (if xmlMode then GFM_PROTO_XMLATTR_SET else GFM_PROTO_XATTR_SET) ''sbi''
       [Arg_ptr name, Arg_size sz, Arg_ptr val, Arg_int flags]"

definition gfm_client_setxattr_result ::
  "(u64 \<Rightarrow> bool) \<Rightarrow> nat \<Rightarrow> ('w, xdr_val list) gfm_call" where
  "gfm_client_setxattr_result mal gfm_server = gfm_client_rpc_result mal gfm_server False '''' []"

definition gfm_client_getxattr_request ::
  "nat \<Rightarrow> bool \<Rightarrow> byte list \<Rightarrow> ('w, unit) gfm_call" where
  "gfm_client_getxattr_request gfm_server xmlMode name =
     gfm_client_rpc_request gfm_server
       (if xmlMode then GFM_PROTO_XMLATTR_GET else GFM_PROTO_XATTR_GET) ''s''
       [Arg_ptr name]"

text \<open>In XML mode the final 0 is dropped from the size, also when the size is 0.\<close>

definition gfm_client_getxattr_result ::
  "(u64 \<Rightarrow> bool) \<Rightarrow> nat \<Rightarrow> bool \<Rightarrow> ('w, u64 \<times> xdr_val) gfm_call" where
  "gfm_client_getxattr_result mal gfm_server xmlMode =
     call_bind (gfm_client_rpc_result mal gfm_server False ''B'' [])
       (\<lambda>vals. case vals of
          [Val_size sz, v] \<Rightarrow> call_return (if xmlMode then sz - 1 else sz, v)
        | _ \<Rightarrow> call_undefined)"

definition gfm_client_listxattr_request ::
  "nat \<Rightarrow> bool \<Rightarrow> ('w, unit) gfm_call" where
  "gfm_client_listxattr_request gfm_server xmlMode =
     gfm_client_rpc_request gfm_server
       (if xmlMode then GFM_PROTO_XMLATTR_LIST else GFM_PROTO_XATTR_LIST) ''''
       []"

definition gfm_client_listxattr_result ::
  "(u64 \<Rightarrow> bool) \<Rightarrow> nat \<Rightarrow> ('w, xdr_val list) gfm_call" where
  "gfm_client_listxattr_result mal gfm_server = gfm_client_rpc_result mal gfm_server False ''B'' []"

definition gfm_client_removexattr_request ::
  "nat \<Rightarrow> bool \<Rightarrow> byte list \<Rightarrow> ('w, unit) gfm_call" where
  "gfm_client_removexattr_request gfm_server xmlMode name =
     gfm_client_rpc_request gfm_server
       (if xmlMode then GFM_PROTO_XMLATTR_REMOVE else GFM_PROTO_XATTR_REMOVE) ''s''
       [Arg_ptr name]"

definition gfm_client_removexattr_result ::
  "(u64 \<Rightarrow> bool) \<Rightarrow> nat \<Rightarrow> ('w, xdr_val list) gfm_call" where
  "gfm_client_removexattr_result mal gfm_server =
     gfm_client_rpc_result mal gfm_server False '''' []"

text \<open>
  The search for attributes goes on where it stopped: the cookie is the last entry received.
  \<open>found_eof\<close> and \<open>nvalid\<close> are fields of the reply, \<open>entries\<close> the values of path and name.
  A \<open>NULL\<close> path in the last entry makes \<open>strdup\<close> undefined; \<open>dupp\<close> and \<open>dupa\<close> are the outcomes of the
  two calls of \<open>strdup\<close>. The context is the caller's and keeps what is stored on errors too.
\<close>

record gfs_xmlattr_ctx =
  xc_expr :: "byte list"
  xc_depth :: int
  xc_cookie_path :: "byte list option"
  xc_cookie_attrname :: "byte list option"
  xc_nalloc :: int
  xc_nvalid :: int
  xc_entries :: "xdr_val list list"
  xc_eof :: int

definition gfm_client_findxmlattr_request :: "nat \<Rightarrow> gfs_xmlattr_ctx \<Rightarrow> ('w, unit) gfm_call" where
  "gfm_client_findxmlattr_request gfm_server ctx =
     (case (xc_cookie_path ctx, xc_cookie_attrname ctx) of
        (None, _) \<Rightarrow>
          gfm_client_rpc_request gfm_server GFM_PROTO_XMLATTR_FIND ''siiss''
            [Arg_ptr (xc_expr ctx), Arg_int (xc_depth ctx), Arg_int (xc_nalloc ctx),
             Arg_ptr [0], Arg_ptr [0]]
      | (Some path, Some attrname) \<Rightarrow>
          gfm_client_rpc_request gfm_server GFM_PROTO_XMLATTR_FIND ''siiss''
            [Arg_ptr (xc_expr ctx), Arg_int (xc_depth ctx), Arg_int (xc_nalloc ctx),
             Arg_ptr path, Arg_ptr attrname]
      | (Some _, None) \<Rightarrow> call_undefined)"

definition gfm_found_strdup :: "bool \<Rightarrow> xdr_val \<Rightarrow> byte list option option" where
  "gfm_found_strdup dup v =
     (case v of Val_str str \<Rightarrow> Some (if dup then Some (str @ [0]) else None) | _ \<Rightarrow> None)"

definition gfm_found_cookie ::
  "bool \<Rightarrow> bool \<Rightarrow> gfs_xmlattr_ctx \<Rightarrow> ('w, gfarm_error_t \<times> gfs_xmlattr_ctx) gfm_call" where
  "gfm_found_cookie dupp dupa ctx =
     (if xc_eof ctx = 0 \<and> 0 < xc_nvalid ctx then
        (case last (xc_entries ctx) of
           [path, attrname] \<Rightarrow>
             (case (gfm_found_strdup dupp path, gfm_found_strdup dupa attrname) of
                (Some p, Some a) \<Rightarrow>
                  call_return (if p = None \<or> a = None then GFARM_ERR_NO_MEMORY else GFARM_ERR_NO_ERROR,
                              ctx\<lparr>xc_cookie_path := p, xc_cookie_attrname := a\<rparr>)
              | _ \<Rightarrow> call_undefined)
         | _ \<Rightarrow> call_undefined)
      else call_return (GFARM_ERR_NO_ERROR, ctx))"

definition gfm_client_findxmlattr_result ::
  "(u64 \<Rightarrow> bool) \<Rightarrow> bool \<Rightarrow> bool \<Rightarrow> nat \<Rightarrow> gfs_xmlattr_ctx
     \<Rightarrow> ('w, gfarm_error_t \<times> gfs_xmlattr_ctx) gfm_call" where
  "gfm_client_findxmlattr_result mal dupp dupa gfm_server ctx =
     call_bind (gfm_client_rpc_result mal gfm_server False ''ii'' [])
       (\<lambda>vals. case vals of
          [Val_int32 eof, Val_int32 nvalid] \<Rightarrow>
            let ctx1 = ctx\<lparr>xc_eof := sint eof, xc_nvalid := sint nvalid\<rparr>
            in if xc_nalloc ctx < sint nvalid then call_return (GFARM_ERR_UNKNOWN, ctx1)
               else call_bind (call_try (call_repeat (nat (sint nvalid)) (gfm_recv mal gfm_server ''ss'' [])))
                      (\<lambda>r. case r of
                             Inl e \<Rightarrow> call_return (e, ctx1)
                           | Inr es \<Rightarrow> gfm_found_cookie dupp dupa (ctx1\<lparr>xc_entries := es\<rparr>))
        | _ \<Rightarrow> call_undefined)"

subsection \<open>Calls of the file system daemon\<close>

definition gfm_client_reopen_request :: "nat \<Rightarrow> ('w, unit) gfm_call" where
  "gfm_client_reopen_request gfm_server =
     gfm_client_rpc_request gfm_server GFM_PROTO_REOPEN '''' []"

definition gfm_client_reopen_result ::
  "(u64 \<Rightarrow> bool) \<Rightarrow> nat \<Rightarrow> ('w, xdr_val list) gfm_call" where
  "gfm_client_reopen_result mal gfm_server =
     gfm_client_rpc_result mal gfm_server False ''lliii'' []"

definition gfm_client_close_read_request :: "nat \<Rightarrow> u64 \<Rightarrow> int \<Rightarrow> ('w, unit) gfm_call" where
  "gfm_client_close_read_request gfm_server atime_sec atime_nsec =
     gfm_client_rpc_request gfm_server GFM_PROTO_CLOSE_READ ''li''
       [Arg_int64 atime_sec, Arg_int atime_nsec]"

definition gfm_client_close_read_result ::
  "(u64 \<Rightarrow> bool) \<Rightarrow> nat \<Rightarrow> ('w, xdr_val list) gfm_call" where
  "gfm_client_close_read_result mal gfm_server = gfm_client_rpc_result mal gfm_server False '''' []"

definition gfm_client_close_write_request :: "nat \<Rightarrow> u64 \<Rightarrow> u64 \<Rightarrow> int \<Rightarrow> u64 \<Rightarrow> int \<Rightarrow> ('w, unit) gfm_call" where
  "gfm_client_close_write_request gfm_server sz atime_sec atime_nsec mtime_sec mtime_nsec =
     gfm_client_rpc_request gfm_server GFM_PROTO_CLOSE_WRITE ''llili''
       [Arg_int64 sz, Arg_int64 atime_sec, Arg_int atime_nsec, Arg_int64 mtime_sec, Arg_int mtime_nsec]"

definition gfm_client_close_write_result ::
  "(u64 \<Rightarrow> bool) \<Rightarrow> nat \<Rightarrow> ('w, xdr_val list) gfm_call" where
  "gfm_client_close_write_result mal gfm_server =
     gfm_client_rpc_result mal gfm_server False '''' []"

definition gfm_client_lock_request :: "nat \<Rightarrow> u64 \<Rightarrow> u64 \<Rightarrow> int \<Rightarrow> int \<Rightarrow> ('w, unit) gfm_call" where
  "gfm_client_lock_request gfm_server start len type whence =
     gfm_client_rpc_request gfm_server GFM_PROTO_LOCK ''llii''
       [Arg_int64 start, Arg_int64 len, Arg_int type, Arg_int whence]"

definition gfm_client_lock_result ::
  "(u64 \<Rightarrow> bool) \<Rightarrow> nat \<Rightarrow> ('w, xdr_val list) gfm_call" where
  "gfm_client_lock_result mal gfm_server = gfm_client_rpc_result mal gfm_server False '''' []"

definition gfm_client_trylock_request :: "nat \<Rightarrow> u64 \<Rightarrow> u64 \<Rightarrow> int \<Rightarrow> int \<Rightarrow> ('w, unit) gfm_call" where
  "gfm_client_trylock_request gfm_server start len type whence =
     gfm_client_rpc_request gfm_server GFM_PROTO_TRYLOCK ''llii''
       [Arg_int64 start, Arg_int64 len, Arg_int type, Arg_int whence]"

definition gfm_client_trylock_result ::
  "(u64 \<Rightarrow> bool) \<Rightarrow> nat \<Rightarrow> ('w, xdr_val list) gfm_call" where
  "gfm_client_trylock_result mal gfm_server = gfm_client_rpc_result mal gfm_server False '''' []"

definition gfm_client_unlock_request :: "nat \<Rightarrow> u64 \<Rightarrow> u64 \<Rightarrow> int \<Rightarrow> int \<Rightarrow> ('w, unit) gfm_call" where
  "gfm_client_unlock_request gfm_server start len type whence =
     gfm_client_rpc_request gfm_server GFM_PROTO_UNLOCK ''llii''
       [Arg_int64 start, Arg_int64 len, Arg_int type, Arg_int whence]"

definition gfm_client_unlock_result ::
  "(u64 \<Rightarrow> bool) \<Rightarrow> nat \<Rightarrow> ('w, xdr_val list) gfm_call" where
  "gfm_client_unlock_result mal gfm_server = gfm_client_rpc_result mal gfm_server False '''' []"

definition gfm_client_lock_info_request :: "nat \<Rightarrow> u64 \<Rightarrow> u64 \<Rightarrow> int \<Rightarrow> int \<Rightarrow> ('w, unit) gfm_call" where
  "gfm_client_lock_info_request gfm_server start len type whence =
     gfm_client_rpc_request gfm_server GFM_PROTO_LOCK_INFO ''llii''
       [Arg_int64 start, Arg_int64 len, Arg_int type, Arg_int whence]"

definition gfm_client_lock_info_result ::
  "(u64 \<Rightarrow> bool) \<Rightarrow> nat \<Rightarrow> ('w, xdr_val list) gfm_call" where
  "gfm_client_lock_info_result mal gfm_server =
     gfm_client_rpc_result mal gfm_server False ''llisl'' []"

definition gfm_client_switch_back_channel :: "(u64 \<Rightarrow> bool) \<Rightarrow> nat \<Rightarrow> ('w, xdr_val list) gfm_call" where
  "gfm_client_switch_back_channel mal gfm_server =
     gfm_client_rpc mal gfm_server False GFM_PROTO_SWITCH_BACK_CHANNEL ''/'' [] []"

subsection \<open>Calls that are not implemented\<close>

definition gfm_client_glob :: "nat \<Rightarrow> ('w, unit) gfm_call" where
  "gfm_client_glob gfm_server = call_fail GFARM_ERR_FUNCTION_NOT_IMPLEMENTED"

definition gfm_client_schedule :: "nat \<Rightarrow> ('w, unit) gfm_call" where
  "gfm_client_schedule gfm_server = call_fail GFARM_ERR_FUNCTION_NOT_IMPLEMENTED"

definition gfm_client_pio_open :: "nat \<Rightarrow> ('w, unit) gfm_call" where
  "gfm_client_pio_open gfm_server = call_fail GFARM_ERR_FUNCTION_NOT_IMPLEMENTED"

definition gfm_client_pio_set_paths :: "nat \<Rightarrow> ('w, unit) gfm_call" where
  "gfm_client_pio_set_paths gfm_server = call_fail GFARM_ERR_FUNCTION_NOT_IMPLEMENTED"

definition gfm_client_pio_close :: "nat \<Rightarrow> ('w, unit) gfm_call" where
  "gfm_client_pio_close gfm_server = call_fail GFARM_ERR_FUNCTION_NOT_IMPLEMENTED"

definition gfm_client_pio_visit :: "nat \<Rightarrow> ('w, unit) gfm_call" where
  "gfm_client_pio_visit gfm_server = call_fail GFARM_ERR_FUNCTION_NOT_IMPLEMENTED"

subsection \<open>Replicas\<close>

definition gfm_client_hostname_set ::
  "(u64 \<Rightarrow> bool) \<Rightarrow> nat \<Rightarrow> byte list \<Rightarrow> ('w, xdr_val list) gfm_call" where
  "gfm_client_hostname_set mal gfm_server hostname =
     gfm_client_rpc mal gfm_server False GFM_PROTO_HOSTNAME_SET ''s/'' [Arg_ptr hostname] []"

definition gfm_client_replica_list_by_name_request :: "nat \<Rightarrow> ('w, unit) gfm_call" where
  "gfm_client_replica_list_by_name_request gfm_server =
     gfm_client_rpc_request gfm_server GFM_PROTO_REPLICA_LIST_BY_NAME '''' []"

text \<open>
  The array of names comes from \<open>malloc\<close>. When entry \<open>i\<close> does not arrive, the code frees
  \<open>hosts[i]\<close> down to \<open>hosts[0]\<close>: that is undefined unless \<open>gfp_xdr_recv\<close> has stored a pointer (or
  \<open>NULL\<close>) in \<open>hosts[i]\<close> before it failed, and also if it has left out an earlier one.
\<close>

definition freeable :: "xdr_val list \<Rightarrow> bool" where
  "freeable vals \<longleftrightarrow> (\<exists>v. vals = [v] \<and> v \<noteq> Val_unset)"

fun gfm_recv_hosts ::
  "(u64 \<Rightarrow> bool) \<Rightarrow> nat \<Rightarrow> nat \<Rightarrow> bool \<Rightarrow> ('w, xdr_val list list) gfm_call" where
  "gfm_recv_hosts mal gfm_server 0 stored s = call_return [] s"
| "gfm_recv_hosts mal gfm_server (Suc n) stored s =
     (case gfm_recv_raw mal gfm_server ''s'' [] s of
        None \<Rightarrow> None
      | Some (e, eof, vals, s') \<Rightarrow>
          if e \<noteq> GFARM_ERR_NO_ERROR \<or> eof then
            (if stored \<and> freeable vals
             then call_fail (if e = GFARM_ERR_NO_ERROR then GFARM_ERR_PROTOCOL else e) s'
             else None)
          else call_bind (gfm_recv_hosts mal gfm_server n (stored \<and> freeable vals))
                 (\<lambda>vs. call_return (vals # vs)) s')"

definition gfm_client_replica_list_by_name_result ::
  "(u64 \<Rightarrow> bool) \<Rightarrow> nat \<Rightarrow> ('w, int \<times> xdr_val list list) gfm_call" where
  "gfm_client_replica_list_by_name_result mal gfm_server =
     call_bind (gfm_client_rpc_result mal gfm_server False ''i'' [])
       (gfm_with_count (\<lambda>n.
          call_bind (gfm_malloc_array mal n 8)
            (\<lambda>_. call_bind (gfm_recv_hosts mal gfm_server (nat n) True)
                    (\<lambda>hosts. call_return (n, hosts)))))"

definition gfm_client_replica_list_by_host_request :: "nat \<Rightarrow> byte list \<Rightarrow> int \<Rightarrow> ('w, unit) gfm_call" where
  "gfm_client_replica_list_by_host_request gfm_server host port =
     gfm_client_rpc_request gfm_server GFM_PROTO_REPLICA_LIST_BY_HOST ''si''
       [Arg_ptr host, Arg_int port]"

definition gfm_client_replica_list_by_host_result ::
  "(u64 \<Rightarrow> bool) \<Rightarrow> nat \<Rightarrow> ('w, int \<times> xdr_val list list) gfm_call" where
  "gfm_client_replica_list_by_host_result mal gfm_server =
     call_bind (gfm_client_rpc_result mal gfm_server False ''i'' [])
       (gfm_with_count (\<lambda>n.
          call_bind (gfm_malloc_array mal n 8)
            (\<lambda>_. call_bind (call_repeat (nat n) (gfm_recv mal gfm_server ''l'' []))
                    (\<lambda>inodes. call_return (n, inodes)))))"

definition gfm_client_replica_remove_by_host_request :: "nat \<Rightarrow> byte list \<Rightarrow> int \<Rightarrow> ('w, unit) gfm_call" where
  "gfm_client_replica_remove_by_host_request gfm_server host port =
     gfm_client_rpc_request gfm_server GFM_PROTO_REPLICA_REMOVE_BY_HOST ''si''
       [Arg_ptr host, Arg_int port]"

definition gfm_client_replica_remove_by_host_result ::
  "(u64 \<Rightarrow> bool) \<Rightarrow> nat \<Rightarrow> ('w, xdr_val list) gfm_call" where
  "gfm_client_replica_remove_by_host_result mal gfm_server =
     gfm_client_rpc_result mal gfm_server False '''' []"

definition gfm_client_replica_remove_by_file_request :: "nat \<Rightarrow> byte list \<Rightarrow> ('w, unit) gfm_call" where
  "gfm_client_replica_remove_by_file_request gfm_server host =
     gfm_client_rpc_request gfm_server GFM_PROTO_REPLICA_REMOVE_BY_FILE ''s'' [Arg_ptr host]"

definition gfm_client_replica_remove_by_file_result ::
  "(u64 \<Rightarrow> bool) \<Rightarrow> nat \<Rightarrow> ('w, xdr_val list) gfm_call" where
  "gfm_client_replica_remove_by_file_result mal gfm_server =
     gfm_client_rpc_result mal gfm_server False '''' []"

definition gfm_client_replica_adding_request :: "nat \<Rightarrow> byte list \<Rightarrow> ('w, unit) gfm_call" where
  "gfm_client_replica_adding_request gfm_server src_host =
     gfm_client_rpc_request gfm_server GFM_PROTO_REPLICA_ADDING ''s'' [Arg_ptr src_host]"

definition gfm_client_replica_adding_result ::
  "(u64 \<Rightarrow> bool) \<Rightarrow> nat \<Rightarrow> ('w, xdr_val list) gfm_call" where
  "gfm_client_replica_adding_result mal gfm_server =
     gfm_client_rpc_result mal gfm_server False ''llli'' []"

definition gfm_client_replica_added_request :: "nat \<Rightarrow> int \<Rightarrow> u64 \<Rightarrow> int \<Rightarrow> ('w, unit) gfm_call" where
  "gfm_client_replica_added_request gfm_server flags mtime_sec mtime_nsec =
     gfm_client_rpc_request gfm_server GFM_PROTO_REPLICA_ADDED ''ili''
       [Arg_int flags, Arg_int64 mtime_sec, Arg_int mtime_nsec]"

definition gfm_client_replica_added2_request :: "nat \<Rightarrow> int \<Rightarrow> u64 \<Rightarrow> int \<Rightarrow> u64 \<Rightarrow> ('w, unit) gfm_call" where
  "gfm_client_replica_added2_request gfm_server flags mtime_sec mtime_nsec sz =
     gfm_client_rpc_request gfm_server GFM_PROTO_REPLICA_ADDED2 ''ilil''
       [Arg_int flags, Arg_int64 mtime_sec, Arg_int mtime_nsec, Arg_int64 sz]"

definition gfm_client_replica_added_result ::
  "(u64 \<Rightarrow> bool) \<Rightarrow> nat \<Rightarrow> ('w, xdr_val list) gfm_call" where
  "gfm_client_replica_added_result mal gfm_server =
     gfm_client_rpc_result mal gfm_server False '''' []"

definition gfm_client_replica_remove_request :: "nat \<Rightarrow> u64 \<Rightarrow> u64 \<Rightarrow> ('w, unit) gfm_call" where
  "gfm_client_replica_remove_request gfm_server inum gen =
     gfm_client_rpc_request gfm_server GFM_PROTO_REPLICA_REMOVE ''ll''
       [Arg_int64 inum, Arg_int64 gen]"

definition gfm_client_replica_remove_result ::
  "(u64 \<Rightarrow> bool) \<Rightarrow> nat \<Rightarrow> ('w, xdr_val list) gfm_call" where
  "gfm_client_replica_remove_result mal gfm_server =
     gfm_client_rpc_result mal gfm_server False '''' []"

definition gfm_client_replica_add_request :: "nat \<Rightarrow> u64 \<Rightarrow> u64 \<Rightarrow> u64 \<Rightarrow> ('w, unit) gfm_call" where
  "gfm_client_replica_add_request gfm_server inum gen sz =
     gfm_client_rpc_request gfm_server GFM_PROTO_REPLICA_ADD ''lll''
       [Arg_int64 inum, Arg_int64 gen, Arg_int64 sz]"

definition gfm_client_replica_add_result ::
  "(u64 \<Rightarrow> bool) \<Rightarrow> nat \<Rightarrow> ('w, xdr_val list) gfm_call" where
  "gfm_client_replica_add_result mal gfm_server =
     gfm_client_rpc_result mal gfm_server False '''' []"

subsection \<open>Processes\<close>

definition gfm_client_process_alloc ::
  "(u64 \<Rightarrow> bool) \<Rightarrow> nat \<Rightarrow> int \<Rightarrow> byte list \<Rightarrow> u64 \<Rightarrow> ('w, xdr_val list) gfm_call" where
  "gfm_client_process_alloc mal gfm_server keytype sharedkey sharedkey_size =
     gfm_client_rpc mal gfm_server False GFM_PROTO_PROCESS_ALLOC ''ib/l''
       [Arg_int keytype, Arg_size sharedkey_size, Arg_ptr sharedkey] []"

definition gfm_client_process_alloc_child ::
  "(u64 \<Rightarrow> bool) \<Rightarrow> nat \<Rightarrow> int \<Rightarrow> byte list \<Rightarrow> u64 \<Rightarrow> u64 \<Rightarrow> int \<Rightarrow> byte list \<Rightarrow> u64
     \<Rightarrow> ('w, xdr_val list) gfm_call" where
  "gfm_client_process_alloc_child mal gfm_server parent_keytype parent_sharedkey
       parent_sharedkey_size parent_pid keytype sharedkey sharedkey_size =
     gfm_client_rpc mal gfm_server False GFM_PROTO_PROCESS_ALLOC_CHILD ''iblib/l''
       [Arg_int parent_keytype, Arg_size parent_sharedkey_size, Arg_ptr parent_sharedkey,
        Arg_int64 parent_pid, Arg_int keytype, Arg_size sharedkey_size, Arg_ptr sharedkey] []"

definition gfm_client_process_free :: "(u64 \<Rightarrow> bool) \<Rightarrow> nat \<Rightarrow> ('w, xdr_val list) gfm_call" where
  "gfm_client_process_free mal gfm_server =
     gfm_client_rpc mal gfm_server False GFM_PROTO_PROCESS_FREE '''' [] []"

text \<open>\<open>memcpy\<close> reads \<open>sharedkey_size\<close> = 32 bytes of the key.\<close>

definition gfm_client_process_set ::
  "(u64 \<Rightarrow> bool) \<Rightarrow> nat \<Rightarrow> int \<Rightarrow> byte list \<Rightarrow> u64 \<Rightarrow> u64 \<Rightarrow> ('w, unit) gfm_call" where
  "gfm_client_process_set mal gfm_server keytype sharedkey sharedkey_size pid =
     (if keytype \<noteq> GFM_PROTO_PROCESS_KEY_TYPE_SHAREDSECRET \<or>
         sharedkey_size \<noteq> GFM_PROTO_PROCESS_KEY_LEN_SHAREDSECRET
      then call_fail GFARM_ERR_INVALID_ARGUMENT
      else call_bind (gfm_client_rpc mal gfm_server False GFM_PROTO_PROCESS_SET ''ibl/''
                       [Arg_int keytype, Arg_size sharedkey_size, Arg_ptr sharedkey, Arg_int64 pid] [])
             (\<lambda>_ s. case gfm_server_at s gfm_server of
                None \<Rightarrow> None
              | Some g \<Rightarrow>
                  call_return () (gfm_store gfm_server
                    (g\<lparr>gfm_pid_key := take (unat sharedkey_size) sharedkey, gfm_pid := pid\<rparr>) s)))"

subsection \<open>Compound requests on one descriptor\<close>

text \<open>
  The four requests go out before the first result is awaited. \<open>request_op\<close> and \<open>result_op\<close> are the
  callbacks with their closure; \<open>cleanup_op\<close> undoes what \<open>result_op\<close> has obtained when the end
  of the compound fails. The messages that are logged are left out.
\<close>

definition gfm_client_compound_fd_op ::
  "(u64 \<Rightarrow> bool) \<Rightarrow> nat \<Rightarrow> int \<Rightarrow> ('w, unit) gfm_call \<Rightarrow> ('w, 'a) gfm_call
     \<Rightarrow> ('a \<Rightarrow> 'w gfm_state \<Rightarrow> 'w gfm_state) option \<Rightarrow> ('w, 'a) gfm_call" where
  "gfm_client_compound_fd_op mal gfm_server fd request_op result_op cleanup_op =
     call_bind (gfm_client_compound_begin_request gfm_server)
       (\<lambda>_. call_bind (gfm_client_put_fd_request gfm_server fd)
       (\<lambda>_. call_bind request_op
       (\<lambda>_. call_bind (gfm_client_compound_end_request gfm_server)
       (\<lambda>_. call_bind (gfm_client_compound_begin_result mal gfm_server)
       (\<lambda>_. call_bind (gfm_client_put_fd_result mal gfm_server)
       (\<lambda>_. call_bind result_op
       (\<lambda>v. call_bind (call_try (gfm_client_compound_end_result mal gfm_server))
       (\<lambda>r s. case r of
                Inl e \<Rightarrow> call_fail e (case cleanup_op of None \<Rightarrow> s | Some cleanup \<Rightarrow> cleanup v s)
              | Inr _ \<Rightarrow> call_return v s))))))))"

end
