(* ===== verification/Gfm_Connect.thy ===== *)
theory Gfm_Connect
  imports Gfm_Fs
begin

text \<open>
  \<open>gfarm/gfm_client.c\<close>: opening connections to the metadata server. The resolver, the system calls
  on sockets, the configured socket options, \<open>gfarm_bind_source_ip\<close> and the authentication are
  parameters, the fields of \<open>gfm_net\<close>: each acts on the world and says what it returned. An
  address and a canonical name are blocks of memory.
\<close>

record gfm_net =
  net_getaddrinfo :: "byte list \<Rightarrow> int \<Rightarrow> fd_world \<Rightarrow> (byte list \<times> byte list) option \<times> fd_world"
  net_socket :: "fd_world \<Rightarrow> (int + int) \<times> fd_world"
  net_sockopt_apply :: "int \<Rightarrow> byte list \<Rightarrow> byte list \<Rightarrow> fd_world \<Rightarrow> fd_world"
  net_bind_source_ip :: "int \<Rightarrow> byte list \<Rightarrow> fd_world \<Rightarrow> gfarm_error_t \<times> fd_world"
  net_connect :: "int \<Rightarrow> byte list \<Rightarrow> fd_world \<Rightarrow> int option \<times> fd_world"
  net_close :: "int \<Rightarrow> fd_world \<Rightarrow> fd_world"
  net_auth_request :: "fd_world gfp_xdr \<Rightarrow> byte list \<Rightarrow> byte list \<Rightarrow> fd_world
      \<Rightarrow> fd_world gfp_xdr \<times> gfarm_error_t \<times> int \<times> fd_world"

abbreviation (input) ENFILE :: int where "ENFILE \<equiv> 23"
abbreviation (input) EMFILE :: int where "EMFILE \<equiv> 24"

text \<open>When no descriptor is left, the idle connections are closed and the call is made again.\<close>

definition gfm_socket :: "gfm_net \<Rightarrow> (fd_world, int) gfm_call" where
  "gfm_socket net s =
     (let (r, w) = net_socket net (gfm_world s); s1 = s\<lparr>gfm_world := w\<rparr>
      in (case r of
            Inr sock \<Rightarrow> call_return sock s1
          | Inl eno \<Rightarrow>
              if eno = ENFILE \<or> eno = EMFILE then
                (case gfm_client_connection_gc s1 of
                   None \<Rightarrow> None
                 | Some s2 \<Rightarrow>
                     let (r', w') = net_socket net (gfm_world s2); s3 = s2\<lparr>gfm_world := w'\<rparr>
                     in (case r' of Inr sock \<Rightarrow> call_return sock s3
                         | Inl eno' \<Rightarrow> call_fail (errno_error eno') s3))
              else call_fail (errno_error eno) s1))"

definition gfm_closing :: "gfm_net \<Rightarrow> int \<Rightarrow> gfarm_error_t \<Rightarrow> fd_world gfm_state
    \<Rightarrow> ((gfarm_error_t + 'a) \<times> fd_world gfm_state) option" where
  "gfm_closing net sock e s = call_fail e (s\<lparr>gfm_world := net_close net sock (gfm_world s)\<rparr>)"

text \<open>
  What follows the connection: \<open>malg\<close> is the outcome of the allocation of the struct, \<open>new_xdr\<close> is
  \<open>gfp_xdr_new_socket\<close> with the outcomes of its own, \<open>key\<close> what the fresh struct holds in \<open>pid_key\<close>.
\<close>

definition gfm_authenticate ::
  "gfm_net \<Rightarrow> bool \<Rightarrow> (int \<Rightarrow> gfarm_error_t + fd_world gfp_xdr) \<Rightarrow> byte list \<Rightarrow> nat
     \<Rightarrow> int \<Rightarrow> byte list \<Rightarrow> byte list \<Rightarrow> (fd_world, unit) gfm_call" where
  "gfm_authenticate net malg new_xdr key cache_entry sock ai_canonname ai_addr s =
     (if \<not> malg then gfm_closing net sock GFARM_ERR_NO_MEMORY s
      else case new_xdr sock of
        Inl e \<Rightarrow> gfm_closing net sock e s
      | Inr conn \<Rightarrow>
          let (conn', e, method, w) = net_auth_request net conn ai_canonname ai_addr (gfm_world s);
              s' = s\<lparr>gfm_world := w\<rparr>
          in if e \<noteq> GFARM_ERR_NO_ERROR
             then (case gfp_xdr_free conn' w of
                     None \<Rightarrow> None
                   | Some (_, w') \<Rightarrow> call_fail e (s'\<lparr>gfm_world := w'\<rparr>))
             else call_return ()
                    (gfm_store cache_entry
                       \<lparr>gfm_conn = conn', gfm_auth_method = method, gfm_pid = 0, gfm_pid_key = key\<rparr> s'))"

definition gfm_client_connection0 ::
  "gfm_net \<Rightarrow> bool \<Rightarrow> (int \<Rightarrow> gfarm_error_t + fd_world gfp_xdr) \<Rightarrow> byte list \<Rightarrow> byte list \<Rightarrow> int \<Rightarrow> nat
     \<Rightarrow> byte list option \<Rightarrow> (fd_world, unit) gfm_call" where
  "gfm_client_connection0 net malg new_xdr key hostname port cache_entry source_ip s =
     (case net_getaddrinfo net hostname port (gfm_world s) of
        (None, w) \<Rightarrow> call_fail GFARM_ERR_UNKNOWN_HOST (s\<lparr>gfm_world := w\<rparr>)
      | (Some (ai_canonname, ai_addr), w) \<Rightarrow>
          call_bind (gfm_socket net)
            (\<lambda>sock s1.
               let w1 = net_sockopt_apply net sock ai_canonname ai_addr (gfm_world s1);
                   (e, w2) = (case source_ip of
                                None \<Rightarrow> (GFARM_ERR_NO_ERROR, w1)
                              | Some ip \<Rightarrow> net_bind_source_ip net sock ip w1)
               in if e \<noteq> GFARM_ERR_NO_ERROR then gfm_closing net sock e (s1\<lparr>gfm_world := w2\<rparr>)
                  else (case net_connect net sock ai_addr w2 of
                          (Some eno, w3) \<Rightarrow>
                            gfm_closing net sock (errno_error eno) (s1\<lparr>gfm_world := w3\<rparr>)
                        | (None, w3) \<Rightarrow>
                            gfm_authenticate net malg new_xdr key cache_entry sock ai_canonname ai_addr
                              (s1\<lparr>gfm_world := w3\<rparr>)))
            (s\<lparr>gfm_world := w\<rparr>))"

text \<open>
  The loop of \<open>gfm_client_connection_acquire\<close>: as long as the attempt ends with a connection
  error, it is repeated after a pause that doubles from one second to 512. \<open>connect\<close> is
  \<open>gfm_client_connection0\<close> with its arguments, \<open>pause\<close> is \<open>sleep\<close>.
\<close>

partial_function (option) gfm_connect_retry ::
  "('w, unit) gfm_call \<Rightarrow> (u32 \<Rightarrow> 'w \<Rightarrow> 'w) \<Rightarrow> u32 \<Rightarrow> gfarm_error_t + unit \<Rightarrow> 'w gfm_state
     \<Rightarrow> ((gfarm_error_t + unit) \<times> 'w gfm_state) option" where
  "gfm_connect_retry connect pause sleep_interval r s =
     (case r of
        Inr _ \<Rightarrow> Some (r, s)
      | Inl e \<Rightarrow>
          if \<not> IS_CONNECTION_ERROR e then Some (r, s)
          else (case connect (s\<lparr>gfm_world := pause sleep_interval (gfm_world s)\<rparr>) of
                  None \<Rightarrow> None
                | Some (r', s') \<Rightarrow>
                    if sleep_interval < 512
                    then gfm_connect_retry connect pause (sleep_interval * 2) r' s'
                    else Some (r', s')))"

text \<open>
  \<open>acquire\<close> is \<open>gfp_cached_connection_acquire\<close> with the outcomes of its allocations, \<open>user\<close> the
  global name of the user, which is part of the key.
\<close>

definition gfm_client_connection_acquire ::
  "(u64 \<Rightarrow> bool) \<Rightarrow> bool \<Rightarrow> bool \<Rightarrow> nat option \<Rightarrow> byte list \<Rightarrow> (nat \<Rightarrow> ('w, unit) gfm_call)
     \<Rightarrow> (u32 \<Rightarrow> 'w \<Rightarrow> 'w) \<Rightarrow> byte list \<Rightarrow> int \<Rightarrow> ('w, nat) gfm_call" where
  "gfm_client_connection_acquire mal duph dupu malp user connect pause hostname port s =
     (case gfp_cached_connection_acquire mal duph dupu malp user (gfm_server_cache s) hostname port of
        None \<Rightarrow> None
      | Some (c, Inl e) \<Rightarrow> call_fail e (s\<lparr>gfm_server_cache := c\<rparr>)
      | Some (c, Inr (cache_entry, created)) \<Rightarrow>
          let s1 = s\<lparr>gfm_server_cache := c\<rparr>
          in if \<not> created then call_return cache_entry s1
             else (case connect cache_entry s1 of
                     None \<Rightarrow> None
                   | Some (r0, s2) \<Rightarrow>
                       (case gfm_connect_retry (connect cache_entry) pause 1 r0 s2 of
                          None \<Rightarrow> None
                        | Some (Inr _, s3) \<Rightarrow> call_return cache_entry s3
                        | Some (Inl e, s3) \<Rightarrow>
                            (case gfp_cached_connection_purge_from_cache (gfm_server_cache s3) cache_entry of
                               None \<Rightarrow> None
                             | Some c' \<Rightarrow>
                                 call_fail e (s3\<lparr>gfm_server_cache :=
                                   gfp_uncached_connection_dispose c' cache_entry\<rparr>)))))"

text \<open>
  With a process on the server as well: \<open>acquire\<close> is \<open>gfm_client_connection_acquire\<close> for the host
  and port, \<open>key\<close> the 32 random bytes of \<open>gfarm_auth_random\<close>.
\<close>

definition gfm_client_connection_and_process_acquire ::
  "(u64 \<Rightarrow> bool) \<Rightarrow> byte list \<Rightarrow> ('w, nat) gfm_call \<Rightarrow> ('w, nat) gfm_call" where
  "gfm_client_connection_and_process_acquire mal key acquire =
     call_bind acquire
       (\<lambda>gfm_server s. case gfm_server_at s gfm_server of
          None \<Rightarrow> None
        | Some g \<Rightarrow>
            if gfm_pid g \<noteq> 0 then call_return gfm_server s
            else call_bind
              (call_try (gfm_client_process_alloc mal gfm_server GFM_PROTO_PROCESS_KEY_TYPE_SHAREDSECRET
                          key GFM_PROTO_PROCESS_KEY_LEN_SHAREDSECRET))
              (\<lambda>r s1. case r of
                 Inl e \<Rightarrow> map_option (\<lambda>s2. (Inl e, s2)) (gfm_client_connection_free gfm_server s1)
               | Inr [Val_int64 pid] \<Rightarrow>
                   (case gfm_server_at s1 gfm_server of
                      None \<Rightarrow> None
                    | Some g1 \<Rightarrow>
                        call_return gfm_server (gfm_store gfm_server (g1\<lparr>gfm_pid := pid\<rparr>) s1))
               | Inr _ \<Rightarrow> None)
              (gfm_store gfm_server (g\<lparr>gfm_pid_key := key\<rparr>) s))"

text \<open>\<open>malp\<close> is the address \<open>malloc\<close> gives for the entry.\<close>

definition gfm_client_connect ::
  "nat option \<Rightarrow> (nat \<Rightarrow> ('w, unit) gfm_call) \<Rightarrow> ('w, nat) gfm_call" where
  "gfm_client_connect malp connect s =
     (case gfp_uncached_connection_new malp (gfm_server_cache s) of
        (c, Inl e) \<Rightarrow> call_fail e (s\<lparr>gfm_server_cache := c\<rparr>)
      | (c, Inr cache_entry) \<Rightarrow>
          (case connect cache_entry (s\<lparr>gfm_server_cache := c\<rparr>) of
             None \<Rightarrow> None
           | Some (Inr _, s1) \<Rightarrow> call_return cache_entry s1
           | Some (Inl e, s1) \<Rightarrow>
               call_fail e (s1\<lparr>gfm_server_cache :=
                 gfp_uncached_connection_dispose (gfm_server_cache s1) cache_entry\<rparr>)))"

end
