(* ===== verification/Gfm_Metadata.thy ===== *)
theory Gfm_Metadata
  imports Gfm_Proto
begin

text \<open>
  \<open>gfarm/gfm_client.c\<close>: the calls about hosts, users, groups and quotas. A string is the block of
  memory it begins in. An element of a received array is the list of the values
  stored in its fields, in the order of the format; \<open>sizeof\<close> is that of LP64.
\<close>

subsection \<open>Hosts\<close>

record gfarm_host_info =
  hi_hostname :: "byte list"
  hi_port :: int
  hi_architecture :: "byte list"
  hi_ncpu :: int
  hi_flags :: int

text \<open>\<open>naliases\<close> is received and dropped; \<open>nhostaliases\<close> = 0 and \<open>hostaliases\<close> = \<open>NULL\<close> are set.\<close>

definition gfm_host_fields :: "xdr_val list \<Rightarrow> xdr_val list" where
  "gfm_host_fields vals = take 5 vals @ [Val_int32 0, Val_null]"

definition gfm_client_get_nhosts ::
  "(u64 \<Rightarrow> bool) \<Rightarrow> nat \<Rightarrow> int \<Rightarrow> ('w, xdr_val list list) gfm_call" where
  "gfm_client_get_nhosts mal gfm_server nhosts =
     call_repeat (nat nhosts)
       (call_bind (gfm_recv mal gfm_server ''ssiiii'' []) (\<lambda>vals. call_return (gfm_host_fields vals)))"

definition gfm_client_host_info_send_common ::
  "(u64 \<Rightarrow> bool) \<Rightarrow> nat \<Rightarrow> int \<Rightarrow> gfarm_host_info \<Rightarrow> ('w, xdr_val list) gfm_call" where
  "gfm_client_host_info_send_common mal gfm_server op host =
     gfm_client_rpc mal gfm_server False op ''ssiii/''
       [Arg_ptr (hi_hostname host), Arg_ptr (hi_architecture host),
        Arg_int (hi_ncpu host), Arg_int (hi_port host), Arg_int (hi_flags host)] []"

definition gfm_client_host_info_get_all ::
  "(u64 \<Rightarrow> bool) \<Rightarrow> nat \<Rightarrow> ('w, int \<times> xdr_val list list) gfm_call" where
  "gfm_client_host_info_get_all mal gfm_server =
     call_bind (gfm_client_rpc mal gfm_server False GFM_PROTO_HOST_INFO_GET_ALL ''/i'' [] [])
       (gfm_with_count (\<lambda>nhosts.
          call_bind (gfm_malloc_array mal nhosts 40)
            (\<lambda>_. call_bind (gfm_client_get_nhosts mal gfm_server nhosts)
                    (\<lambda>hosts. call_return (nhosts, hosts)))))"

text \<open>Only \<open>*nhostsp\<close> is stored; the hosts are not received.\<close>

definition gfm_client_host_info_get_by_architecture ::
  "(u64 \<Rightarrow> bool) \<Rightarrow> nat \<Rightarrow> byte list \<Rightarrow> ('w, int) gfm_call" where
  "gfm_client_host_info_get_by_architecture mal gfm_server architecture =
     call_bind (gfm_client_rpc mal gfm_server False GFM_PROTO_HOST_INFO_GET_BY_ARCHITECTURE ''s/i''
                 [Arg_ptr architecture] [])
       (gfm_with_count call_return)"

text \<open>
  What the calls for many names share: the number and the names go out, and for each name a
  result comes, with the entry when it is success. Entry \<open>i\<close> of the list is \<open>errors[i]\<close> or the
  element stored.
\<close>

definition gfm_by_names ::
  "(u64 \<Rightarrow> bool) \<Rightarrow> nat \<Rightarrow> int \<Rightarrow> int \<Rightarrow> byte list list \<Rightarrow> ('w, 'a) gfm_call
     \<Rightarrow> ('w, (gfarm_error_t + 'a) list) gfm_call" where
  "gfm_by_names mal gfm_server op n names get =
     call_bind (gfm_client_rpc_request gfm_server op ''i'' [Arg_int n])
       (\<lambda>_. call_bind (gfm_send_strings gfm_server n names)
         (\<lambda>_. call_bind (gfm_client_rpc_result mal gfm_server False '''' [])
           (\<lambda>_. call_repeat (nat n)
                   (call_try (call_bind (gfm_client_rpc_result mal gfm_server False '''' [])
                               (\<lambda>_. get))))))"

definition gfm_client_host_info_get_by_names_common ::
  "(u64 \<Rightarrow> bool) \<Rightarrow> nat \<Rightarrow> int \<Rightarrow> int \<Rightarrow> byte list list
     \<Rightarrow> ('w, (gfarm_error_t + xdr_val list list) list) gfm_call" where
  "gfm_client_host_info_get_by_names_common mal gfm_server op nhosts names =
     gfm_by_names mal gfm_server op nhosts names (gfm_client_get_nhosts mal gfm_server 1)"

definition gfm_client_host_info_get_by_names ::
  "(u64 \<Rightarrow> bool) \<Rightarrow> nat \<Rightarrow> int \<Rightarrow> byte list list
     \<Rightarrow> ('w, (gfarm_error_t + xdr_val list list) list) gfm_call" where
  "gfm_client_host_info_get_by_names mal gfm_server nhosts names =
     gfm_client_host_info_get_by_names_common mal gfm_server GFM_PROTO_HOST_INFO_GET_BY_NAMES nhosts names"

definition gfm_client_host_info_get_by_namealiases ::
  "(u64 \<Rightarrow> bool) \<Rightarrow> nat \<Rightarrow> int \<Rightarrow> byte list list
     \<Rightarrow> ('w, (gfarm_error_t + xdr_val list list) list) gfm_call" where
  "gfm_client_host_info_get_by_namealiases mal gfm_server nhosts names =
     gfm_client_host_info_get_by_names_common mal gfm_server GFM_PROTO_HOST_INFO_GET_BY_NAMEALIASES
       nhosts names"

definition gfm_client_host_info_set ::
  "(u64 \<Rightarrow> bool) \<Rightarrow> nat \<Rightarrow> gfarm_host_info \<Rightarrow> ('w, xdr_val list) gfm_call" where
  "gfm_client_host_info_set mal gfm_server host =
     gfm_client_host_info_send_common mal gfm_server GFM_PROTO_HOST_INFO_SET host"

definition gfm_client_host_info_modify ::
  "(u64 \<Rightarrow> bool) \<Rightarrow> nat \<Rightarrow> gfarm_host_info \<Rightarrow> ('w, xdr_val list) gfm_call" where
  "gfm_client_host_info_modify mal gfm_server host =
     gfm_client_host_info_send_common mal gfm_server GFM_PROTO_HOST_INFO_MODIFY host"

definition gfm_client_host_info_remove ::
  "(u64 \<Rightarrow> bool) \<Rightarrow> nat \<Rightarrow> byte list \<Rightarrow> ('w, xdr_val list) gfm_call" where
  "gfm_client_host_info_remove mal gfm_server hostname =
     gfm_client_rpc mal gfm_server False GFM_PROTO_HOST_INFO_REMOVE ''s/'' [Arg_ptr hostname] []"

subsection \<open>Users\<close>

record gfarm_user_info =
  ui_username :: "byte list"
  ui_realname :: "byte list"
  ui_homedir :: "byte list"
  ui_gsi_dn :: "byte list"

definition get_nusers :: "(u64 \<Rightarrow> bool) \<Rightarrow> nat \<Rightarrow> int \<Rightarrow> ('w, xdr_val list list) gfm_call" where
  "get_nusers mal gfm_server nusers = call_repeat (nat nusers) (gfm_recv mal gfm_server ''ssss'' [])"

definition gfm_client_user_info_send_common ::
  "(u64 \<Rightarrow> bool) \<Rightarrow> nat \<Rightarrow> int \<Rightarrow> gfarm_user_info \<Rightarrow> ('w, xdr_val list) gfm_call" where
  "gfm_client_user_info_send_common mal gfm_server op user =
     gfm_client_rpc mal gfm_server False op ''ssss/''
       [Arg_ptr (ui_username user), Arg_ptr (ui_realname user), Arg_ptr (ui_homedir user),
        Arg_ptr (ui_gsi_dn user)] []"

definition gfm_client_user_info_get_all ::
  "(u64 \<Rightarrow> bool) \<Rightarrow> nat \<Rightarrow> ('w, int \<times> xdr_val list list) gfm_call" where
  "gfm_client_user_info_get_all mal gfm_server =
     call_bind (gfm_client_rpc mal gfm_server False GFM_PROTO_USER_INFO_GET_ALL ''/i'' [] [])
       (gfm_with_count (\<lambda>nusers.
          call_bind (gfm_malloc_array mal nusers 32)
            (\<lambda>_. call_bind (get_nusers mal gfm_server nusers)
                    (\<lambda>users. call_return (nusers, users)))))"

definition gfm_client_user_info_get_by_names ::
  "(u64 \<Rightarrow> bool) \<Rightarrow> nat \<Rightarrow> int \<Rightarrow> byte list list
     \<Rightarrow> ('w, (gfarm_error_t + xdr_val list list) list) gfm_call" where
  "gfm_client_user_info_get_by_names mal gfm_server nusers names =
     gfm_by_names mal gfm_server GFM_PROTO_USER_INFO_GET_BY_NAMES nusers names
       (get_nusers mal gfm_server 1)"

definition gfm_client_user_info_get_by_gsi_dn ::
  "(u64 \<Rightarrow> bool) \<Rightarrow> nat \<Rightarrow> byte list \<Rightarrow> ('w, xdr_val list) gfm_call" where
  "gfm_client_user_info_get_by_gsi_dn mal gfm_server gsi_dn =
     gfm_client_rpc mal gfm_server False GFM_PROTO_USER_INFO_GET_BY_GSI_DN ''s/ssss'' [Arg_ptr gsi_dn] []"

definition gfm_client_user_info_set ::
  "(u64 \<Rightarrow> bool) \<Rightarrow> nat \<Rightarrow> gfarm_user_info \<Rightarrow> ('w, xdr_val list) gfm_call" where
  "gfm_client_user_info_set mal gfm_server user =
     gfm_client_user_info_send_common mal gfm_server GFM_PROTO_USER_INFO_SET user"

definition gfm_client_user_info_modify ::
  "(u64 \<Rightarrow> bool) \<Rightarrow> nat \<Rightarrow> gfarm_user_info \<Rightarrow> ('w, xdr_val list) gfm_call" where
  "gfm_client_user_info_modify mal gfm_server user =
     gfm_client_user_info_send_common mal gfm_server GFM_PROTO_USER_INFO_MODIFY user"

definition gfm_client_user_info_remove ::
  "(u64 \<Rightarrow> bool) \<Rightarrow> nat \<Rightarrow> byte list \<Rightarrow> ('w, xdr_val list) gfm_call" where
  "gfm_client_user_info_remove mal gfm_server username =
     gfm_client_rpc mal gfm_server False GFM_PROTO_USER_INFO_REMOVE ''s/'' [Arg_ptr username] []"

subsection \<open>Groups\<close>

record gfarm_group_info =
  gi_groupname :: "byte list"
  gi_nusers :: int
  gi_usernames :: "byte list list"

text \<open>A received group: the values of name and number, and those of the names of its users.\<close>

definition gfm_get_group :: "(u64 \<Rightarrow> bool) \<Rightarrow> nat \<Rightarrow> ('w, xdr_val list \<times> xdr_val list list) gfm_call" where
  "gfm_get_group mal gfm_server =
     call_bind (gfm_recv mal gfm_server ''si'' [])
       (\<lambda>vals. gfm_with_count (\<lambda>nusers.
          call_bind (gfm_malloc_array mal nusers 8)
            (\<lambda>_. call_bind (call_repeat (nat nusers) (gfm_recv mal gfm_server ''s'' []))
                    (\<lambda>usernames. call_return (vals, usernames)))) (drop 1 vals))"

definition get_ngroups ::
  "(u64 \<Rightarrow> bool) \<Rightarrow> nat \<Rightarrow> int \<Rightarrow> ('w, (xdr_val list \<times> xdr_val list list) list) gfm_call" where
  "get_ngroups mal gfm_server ngroups = call_repeat (nat ngroups) (gfm_get_group mal gfm_server)"

definition gfm_client_group_info_send_common ::
  "(u64 \<Rightarrow> bool) \<Rightarrow> nat \<Rightarrow> int \<Rightarrow> gfarm_group_info \<Rightarrow> ('w, xdr_val list) gfm_call" where
  "gfm_client_group_info_send_common mal gfm_server op grp =
     call_bind (gfm_client_rpc_request gfm_server op ''si''
                 [Arg_ptr (gi_groupname grp), Arg_int (gi_nusers grp)])
       (\<lambda>_. call_bind (gfm_send_strings gfm_server (gi_nusers grp) (gi_usernames grp))
         (\<lambda>_. gfm_client_rpc_result mal gfm_server False '''' []))"

definition gfm_client_group_info_get_all ::
  "(u64 \<Rightarrow> bool) \<Rightarrow> nat \<Rightarrow> ('w, int \<times> (xdr_val list \<times> xdr_val list list) list) gfm_call" where
  "gfm_client_group_info_get_all mal gfm_server =
     call_bind (gfm_client_rpc mal gfm_server False GFM_PROTO_GROUP_INFO_GET_ALL ''/i'' [] [])
       (gfm_with_count (\<lambda>ngroups.
          call_bind (gfm_malloc_array mal ngroups 24)
            (\<lambda>_. call_bind (get_ngroups mal gfm_server ngroups)
                    (\<lambda>groups. call_return (ngroups, groups)))))"

definition gfm_client_group_info_get_by_names ::
  "(u64 \<Rightarrow> bool) \<Rightarrow> nat \<Rightarrow> int \<Rightarrow> byte list list
     \<Rightarrow> ('w, (gfarm_error_t + (xdr_val list \<times> xdr_val list list) list) list) gfm_call" where
  "gfm_client_group_info_get_by_names mal gfm_server ngroups group_names =
     gfm_by_names mal gfm_server GFM_PROTO_GROUP_INFO_GET_BY_NAMES ngroups group_names
       (get_ngroups mal gfm_server 1)"

definition gfm_client_group_info_set ::
  "(u64 \<Rightarrow> bool) \<Rightarrow> nat \<Rightarrow> gfarm_group_info \<Rightarrow> ('w, xdr_val list) gfm_call" where
  "gfm_client_group_info_set mal gfm_server grp =
     gfm_client_group_info_send_common mal gfm_server GFM_PROTO_GROUP_INFO_SET grp"

definition gfm_client_group_info_modify ::
  "(u64 \<Rightarrow> bool) \<Rightarrow> nat \<Rightarrow> gfarm_group_info \<Rightarrow> ('w, xdr_val list) gfm_call" where
  "gfm_client_group_info_modify mal gfm_server grp =
     gfm_client_group_info_send_common mal gfm_server GFM_PROTO_GROUP_INFO_MODIFY grp"

definition gfm_client_group_info_remove ::
  "(u64 \<Rightarrow> bool) \<Rightarrow> nat \<Rightarrow> byte list \<Rightarrow> ('w, xdr_val list) gfm_call" where
  "gfm_client_group_info_remove mal gfm_server groupname =
     gfm_client_rpc mal gfm_server False GFM_PROTO_GROUP_INFO_REMOVE ''s/'' [Arg_ptr groupname] []"

definition gfm_client_group_info_users_op_common ::
  "(u64 \<Rightarrow> bool) \<Rightarrow> nat \<Rightarrow> int \<Rightarrow> byte list \<Rightarrow> int \<Rightarrow> byte list list
     \<Rightarrow> ('w, (gfarm_error_t + xdr_val list) list) gfm_call" where
  "gfm_client_group_info_users_op_common mal gfm_server op groupname nusers usernames =
     call_bind (gfm_client_rpc_request gfm_server op ''si'' [Arg_ptr groupname, Arg_int nusers])
       (\<lambda>_. call_bind (gfm_send_strings gfm_server nusers usernames)
         (\<lambda>_. call_bind (gfm_client_rpc_result mal gfm_server False '''' [])
           (\<lambda>_. call_repeat (nat nusers)
                   (call_try (gfm_client_rpc_result mal gfm_server False '''' [])))))"

definition gfm_client_group_info_add_users ::
  "(u64 \<Rightarrow> bool) \<Rightarrow> nat \<Rightarrow> byte list \<Rightarrow> int \<Rightarrow> byte list list
     \<Rightarrow> ('w, (gfarm_error_t + xdr_val list) list) gfm_call" where
  "gfm_client_group_info_add_users mal gfm_server groupname nusers usernames =
     gfm_client_group_info_users_op_common mal gfm_server GFM_PROTO_GROUP_INFO_ADD_USERS groupname
       nusers usernames"

definition gfm_client_group_info_remove_users ::
  "(u64 \<Rightarrow> bool) \<Rightarrow> nat \<Rightarrow> byte list \<Rightarrow> int \<Rightarrow> byte list list
     \<Rightarrow> ('w, (gfarm_error_t + xdr_val list) list) gfm_call" where
  "gfm_client_group_info_remove_users mal gfm_server groupname nusers usernames =
     gfm_client_group_info_users_op_common mal gfm_server GFM_PROTO_GROUP_INFO_REMOVE_USERS groupname
       nusers usernames"

text \<open>
  The groups of several users. Every answer is stored through \<open>assignments->\<close>, so in the first
  element of the array, whatever the user: \<open>gn_ngroups\<close> with the names received for it, or
  \<open>None\<close> for the \<open>NULL\<close> of a failed allocation. After an error the names stay those
  received before it.
\<close>

record gfarm_group_names =
  gn_ngroups :: int
  gn_groupnames :: "xdr_val list list option"

fun gfm_recv_prefix ::
  "(u64 \<Rightarrow> bool) \<Rightarrow> nat \<Rightarrow> nat \<Rightarrow> ('w, gfarm_error_t \<times> xdr_val list list) gfm_call" where
  "gfm_recv_prefix mal gfm_server 0 = call_return (GFARM_ERR_NO_ERROR, [])"
| "gfm_recv_prefix mal gfm_server (Suc n) =
     call_bind (call_try (gfm_recv mal gfm_server ''s'' []))
       (\<lambda>r. case r of
              Inl e \<Rightarrow> call_return (e, [])
            | Inr v \<Rightarrow>
                call_bind (gfm_recv_prefix mal gfm_server n) (\<lambda>(e, vs). call_return (e, v # vs)))"

definition gfm_group_names_answer ::
  "(u64 \<Rightarrow> bool) \<Rightarrow> nat \<Rightarrow> gfarm_group_names \<Rightarrow> ('w, gfarm_error_t \<times> gfarm_group_names) gfm_call" where
  "gfm_group_names_answer mal gfm_server assignments =
     call_bind (call_try (gfm_client_rpc_result mal gfm_server False ''i'' []))
       (\<lambda>r. case r of
              Inl e \<Rightarrow> call_return (e, assignments)
            | Inr vals \<Rightarrow> gfm_with_count (\<lambda>ngroups.
                if gfarm_malloc_array mal (word_of_int ngroups) 8 = None
                then call_return (GFARM_ERR_NO_MEMORY, \<lparr>gn_ngroups = ngroups, gn_groupnames = None\<rparr>)
                else call_bind (gfm_recv_prefix mal gfm_server (nat ngroups))
                       (\<lambda>(e, names). call_return
                          (e, \<lparr>gn_ngroups = ngroups, gn_groupnames = Some names\<rparr>))) vals)"

fun gfm_group_names_loop ::
  "(u64 \<Rightarrow> bool) \<Rightarrow> nat \<Rightarrow> nat \<Rightarrow> gfarm_group_names
     \<Rightarrow> ('w, gfarm_error_t list \<times> gfarm_group_names) gfm_call" where
  "gfm_group_names_loop mal gfm_server 0 assignments = call_return ([], assignments)"
| "gfm_group_names_loop mal gfm_server (Suc n) assignments =
     call_bind (gfm_group_names_answer mal gfm_server assignments)
       (\<lambda>(e, a). call_bind (gfm_group_names_loop mal gfm_server n a)
          (\<lambda>(es, a'). call_return (e # es, a')))"

definition gfm_client_group_names_get_by_users ::
  "(u64 \<Rightarrow> bool) \<Rightarrow> nat \<Rightarrow> int \<Rightarrow> byte list list \<Rightarrow> gfarm_group_names
     \<Rightarrow> ('w, gfarm_error_t list \<times> gfarm_group_names) gfm_call" where
  "gfm_client_group_names_get_by_users mal gfm_server nusers usernames assignments =
     call_bind (gfm_client_rpc_request gfm_server GFM_PROTO_GROUP_NAMES_GET_BY_USERS ''i'' [Arg_int nusers])
       (\<lambda>_. call_bind (gfm_send_strings gfm_server nusers usernames)
         (\<lambda>_. call_bind (gfm_client_rpc_result mal gfm_server False '''' [])
           (\<lambda>_. gfm_group_names_loop mal gfm_server (nat nusers) assignments)))"

subsection \<open>Quotas\<close>

record gfarm_quota_set_info =
  qs_name :: "byte list"
  qs_grace_period :: u64
  qs_space_soft :: u64
  qs_space_hard :: u64
  qs_num_soft :: u64
  qs_num_hard :: u64
  qs_phy_space_soft :: u64
  qs_phy_space_hard :: u64
  qs_phy_num_soft :: u64
  qs_phy_num_hard :: u64

definition gfm_client_quota_get_common ::
  "(u64 \<Rightarrow> bool) \<Rightarrow> nat \<Rightarrow> int \<Rightarrow> byte list \<Rightarrow> ('w, xdr_val list) gfm_call" where
  "gfm_client_quota_get_common mal gfm_server proto name =
     gfm_client_rpc mal gfm_server False proto ''s/slllllllllllllllll'' [Arg_ptr name] []"

definition gfm_client_quota_set_common ::
  "(u64 \<Rightarrow> bool) \<Rightarrow> nat \<Rightarrow> int \<Rightarrow> gfarm_quota_set_info \<Rightarrow> ('w, xdr_val list) gfm_call" where
  "gfm_client_quota_set_common mal gfm_server proto qi =
     gfm_client_rpc mal gfm_server False proto ''slllllllll/''
       [Arg_ptr (qs_name qi), Arg_int64 (qs_grace_period qi),
        Arg_int64 (qs_space_soft qi), Arg_int64 (qs_space_hard qi),
        Arg_int64 (qs_num_soft qi), Arg_int64 (qs_num_hard qi),
        Arg_int64 (qs_phy_space_soft qi), Arg_int64 (qs_phy_space_hard qi),
        Arg_int64 (qs_phy_num_soft qi), Arg_int64 (qs_phy_num_hard qi)] []"

definition gfm_client_quota_user_get ::
  "(u64 \<Rightarrow> bool) \<Rightarrow> nat \<Rightarrow> byte list \<Rightarrow> ('w, xdr_val list) gfm_call" where
  "gfm_client_quota_user_get mal gfm_server name =
     gfm_client_quota_get_common mal gfm_server GFM_PROTO_QUOTA_USER_GET name"

definition gfm_client_quota_user_set ::
  "(u64 \<Rightarrow> bool) \<Rightarrow> nat \<Rightarrow> gfarm_quota_set_info \<Rightarrow> ('w, xdr_val list) gfm_call" where
  "gfm_client_quota_user_set mal gfm_server qi =
     gfm_client_quota_set_common mal gfm_server GFM_PROTO_QUOTA_USER_SET qi"

definition gfm_client_quota_group_get ::
  "(u64 \<Rightarrow> bool) \<Rightarrow> nat \<Rightarrow> byte list \<Rightarrow> ('w, xdr_val list) gfm_call" where
  "gfm_client_quota_group_get mal gfm_server name =
     gfm_client_quota_get_common mal gfm_server GFM_PROTO_QUOTA_GROUP_GET name"

definition gfm_client_quota_group_set ::
  "(u64 \<Rightarrow> bool) \<Rightarrow> nat \<Rightarrow> gfarm_quota_set_info \<Rightarrow> ('w, xdr_val list) gfm_call" where
  "gfm_client_quota_group_set mal gfm_server qi =
     gfm_client_quota_set_common mal gfm_server GFM_PROTO_QUOTA_GROUP_SET qi"

definition gfm_client_quota_check :: "(u64 \<Rightarrow> bool) \<Rightarrow> nat \<Rightarrow> ('w, xdr_val list) gfm_call" where
  "gfm_client_quota_check mal gfm_server =
     gfm_client_rpc mal gfm_server False GFM_PROTO_QUOTA_CHECK ''/'' [] []"

end
