(* ===== verification/Xdr_Duplex.thy ===== *)
theory Xdr_Duplex
  imports Gfp_Xdr_Spec
begin

text \<open>
  One connection used in both directions. What the peer is to receive and what it has sent
  are independent: sending leaves the incoming stream alone, receiving leaves the outgoing one
  and the send buffer alone. \<open>xdr_ready\<close> is kept by both, so calls can be put one after the other.
\<close>

lemma blocking_read_out:
  "gfarm_iobuffer_blocking_read_fd_op c fd n w = (r, w') \<Longrightarrow> fw_out w' = fw_out w"
proof (induction c fd n w rule: gfarm_iobuffer_blocking_read_fd_op.induct)
  case (1 c fd n w)
  note unf = gfarm_iobuffer_blocking_read_fd_op.simps [of c fd n w]
  obtain q w1 where s: "sys_read fd n w = (q, w1)" by fastforce
  then have "fw_out w1 = fw_out w"
    by (auto simp: sys_read_def split: list.splits sys_event.splits)
  with s "1.IH" [OF s [symmetric]] "1.prems" show ?case
    by (auto simp: unf split: sum.splits if_splits)
qed

lemma blocking_write_in:
  "gfarm_iobuffer_blocking_write_socket_op c fd data w = (r, w') \<Longrightarrow> fw_in w' = fw_in w"
proof (induction c fd data w rule: gfarm_iobuffer_blocking_write_socket_op.induct)
  case (1 c fd data w)
  note unf = gfarm_iobuffer_blocking_write_socket_op.simps [of c fd data w]
  obtain q w1 where s: "gfarm_send_no_sigpipe fd data w = (q, w1)" by fastforce
  then have "fw_in w1 = fw_in w"
    by (auto simp: gfarm_send_no_sigpipe_def sys_send_def split: list.splits sys_event.splits)
  with s "1.IH" [OF s [symmetric]] "1.prems" show ?case
    by (auto simp: unf split: sum.splits if_splits)
qed

interpretation bkwi: reliable_sink gfarm_iobuffer_blocking_write_socket_op fw_out
    "\<lambda>w. fd_calm w \<and> fw_in w = inp" for inp
proof (unfold_locales, goal_cases)
  case (1 data w c fd)
  then obtain k w' where w': "gfarm_iobuffer_blocking_write_socket_op c fd data w = (Io_put k, w')"
    "fd_calm w'" using blocking_write_calm by blast
  with 1 blocking_write_in [OF this(1)] show ?case by auto
qed

interpretation bkro: reliable_source gfarm_iobuffer_blocking_read_fd_op fw_in
    "\<lambda>w. fd_calm w \<and> fw_out w = out" for out
proof (unfold_locales, goal_cases)
  case (1 n w c fd)
  then obtain bs w' where w': "gfarm_iobuffer_blocking_read_fd_op c fd n w = (Io_got bs, w')"
    "fd_calm w'" using blocking_read_calm by blast
  with 1 blocking_read_out [OF this(1)] show ?case by auto
qed

subsection \<open>What receiving leaves alone\<close>

named_theorems close_func \<open>operations that keep the close hook of a buffer\<close>

lemma read_close_func [close_func]:
  "gfarm_iobuffer_read b r w = (b', r', w') \<Longrightarrow> ib_write_close_func b' = ib_write_close_func b"
  by (auto simp: gfarm_iobuffer_read_def iobuffer_move_front_def gfarm_iobuffer_set_error_def Let_def
      split: if_splits prod.splits io_in.splits)

lemma refill_close_func [close_func]:
  "iobuffer_refill b r just w = (b', w') \<Longrightarrow> ib_write_close_func b' = ib_write_close_func b"
  by (auto simp: iobuffer_refill_def split: if_splits prod.splits dest: close_func)

lemma advance_close_func [simp]: "ib_write_close_func (iobuffer_advance b n) = ib_write_close_func b"
  by (simp add: iobuffer_advance_def Let_def)

lemma get_close_func [close_func]:
  "gfarm_iobuffer_get b n w = (b', ds, w') \<Longrightarrow> ib_write_close_func b' = ib_write_close_func b"
  by (auto simp: gfarm_iobuffer_get_def iobuffer_on_empty_def gfarm_iobuffer_write_close_def Let_def
      split: if_splits prod.splits)

lemma get_read_close_func [close_func]:
  "gfarm_iobuffer_get_read_x b n just w = (b', ds, w') \<Longrightarrow>
     ib_write_close_func b' = ib_write_close_func b"
proof (induction b n just w arbitrary: b' ds w' rule: gfarm_iobuffer_get_read_x.induct)
  case (1 b n just w)
  note unf = gfarm_iobuffer_get_read_x.simps [of b n just w]
  show ?case
  proof (cases "n \<le> 0")
    case False
    obtain b1 w1 b2 ds1 w2 where
      1: "iobuffer_refill b n just w = (b1, w1)" "gfarm_iobuffer_get b1 n w1 = (b2, ds1, w2)"
      by (metis prod_cases3 surj_pair)
    obtain b3 ds2 w3 where
      3: "gfarm_iobuffer_get_read_x b2 (n - int (length ds1)) just w2 = (b3, ds2, w3)"
      by (metis prod_cases3)
    have e: "ib_write_close_func b2 = ib_write_close_func b"
      using close_func(2) [OF 1(1)] close_func(3) [OF 1(2)] by simp
    show ?thesis
    proof (cases "ds1 = []")
      case True
      with "1.prems" False 1 e show ?thesis by (simp add: unf)
    next
      case ne: False
      have "ib_write_close_func b3 = ib_write_close_func b2"
        using "1.IH" [OF False 1(1) [symmetric] refl 1(2) [symmetric] refl refl ne 3] by simp
      with "1.prems" False 1 3 e ne show ?thesis by (simp add: unf)
    qed
  qed (use "1.prems" in \<open>simp add: unf\<close>)
qed

lemma purge_close_func [close_func]:
  "gfarm_iobuffer_purge b r w = (b', r', n, w') \<Longrightarrow> ib_write_close_func b' = ib_write_close_func b"
  by (auto simp: gfarm_iobuffer_purge_def iobuffer_on_empty_def gfarm_iobuffer_write_close_def Let_def
      split: if_splits prod.splits)

lemma purge_loop_close_func [close_func]:
  "purge_read_loop b n just w = (b', r, w') \<Longrightarrow> ib_write_close_func b' = ib_write_close_func b"
proof (induction b n just w arbitrary: b' r w' rule: purge_read_loop.induct)
  case (1 b n just w)
  note unf = purge_read_loop.simps [of b n just w]
  show ?case
  proof (cases "n \<le> 0")
    case False
    obtain b1 w1 b2 r2 k w2 where
      1: "iobuffer_refill b n just w = (b1, w1)" "gfarm_iobuffer_purge b1 (Some n) w1 = (b2, r2, k, w2)"
      by (metis prod_cases4 surj_pair)
    have e: "ib_write_close_func b2 = ib_write_close_func b"
      using refill_close_func [OF 1(1)] purge_close_func [OF 1(2)] by simp
    show ?thesis
    proof (cases "k = 0")
      case True
      with "1.prems" False 1 e show ?thesis by (simp add: unf)
    next
      case ne: False
      have "purge_read_loop b2 (n - k) just w2 = (b', r, w')"
        using "1.prems" False 1 ne by (simp add: unf)
      from "1.IH" [OF False 1(1) [symmetric] refl 1(2) [symmetric] refl refl refl ne this] e
      show ?thesis by simp
    qed
  qed (use "1.prems" in \<open>simp add: unf\<close>)
qed

text \<open>Everything that receives is made of these two.\<close>

definition only_receives :: "'w gfp_xdr \<Rightarrow> 'w gfp_xdr \<Rightarrow> bool" where
  "only_receives conn conn' \<longleftrightarrow> sendbuffer conn' = sendbuffer conn
     \<and> ib_write_close_func (recvbuffer conn') = ib_write_close_func (recvbuffer conn)"

lemma only_receives_refl [simp]: "only_receives conn conn"
  by (simp add: only_receives_def)

lemma only_receives_trans: "only_receives a b \<Longrightarrow> only_receives b c \<Longrightarrow> only_receives a c"
  by (simp add: only_receives_def)

lemma recv_bytes_only: "recv_bytes conn just n w = (conn', ds, w') \<Longrightarrow> only_receives conn conn'"
  by (auto simp: recv_bytes_def only_receives_def split: prod.splits dest: get_read_close_func)

lemma recv_int32_only: "recv_int32 conn just w = (conn', i, w') \<Longrightarrow> only_receives conn conn'"
  by (auto simp: recv_int32_def split: prod.splits dest: recv_bytes_only)

lemma recv_fixed_only:
  "recv_fixed conn just ov n mk szs w = (conn', go, ov', vals, szs', w') \<Longrightarrow> only_receives conn conn'"
  by (auto simp: recv_fixed_def split: prod.splits if_splits dest: recv_bytes_only)

lemma recv_string_only:
  "recv_string mal mk conn just ov i szs w = (conn', go, ov', vals, szs', w') \<Longrightarrow>
     only_receives conn conn'"
  by (auto simp: recv_string_def split: prod.splits sum.splits dest: recv_bytes_only)

lemma recv_block_only:
  "recv_block conn just ov i sz szs w = (conn', go, ov', vals, szs', w') \<Longrightarrow> only_receives conn conn'"
  by (auto simp: recv_block_def gfarm_iobuffer_purge_read_x_def Let_def only_receives_def
      split: prod.splits if_splits dest!: recv_bytes_only dest: purge_loop_close_func)

lemma recv_one_only:
  "recv_one mal conn just ov f szs w = Some (conn', go, ov', vals, szs', w') \<Longrightarrow>
     only_receives conn conn'"
  unfolding recv_one_def
  by (auto split: if_splits prod.splits option.splits list.splits
      dest!: recv_fixed_only recv_int32_only recv_string_only recv_block_only
      intro: only_receives_trans)

lemma vrecv_loop_only:
  "vrecv_loop mal conn just ov fmt szs w = Some (conn', left, vals, szs', w') \<Longrightarrow>
     only_receives conn conn'"
proof (induction mal conn just ov fmt szs w arbitrary: conn' left vals szs' w' rule: vrecv_loop.induct)
  case (2 mal conn just ov f fmt szs w)
  then show ?case
    by (auto split: if_splits option.splits prod.splits dest!: recv_one_only
        intro: only_receives_trans)
qed simp

lemma vrecv_only: "gfp_xdr_vrecv mal conn just fmt szs w = Some r \<Longrightarrow> only_receives conn (rr_conn r)"
  by (auto simp: gfp_xdr_vrecv_def split: option.splits prod.splits dest: vrecv_loop_only)

lemma recv_only: "gfp_xdr_recv mal conn just fmt szs w = Some r \<Longrightarrow> only_receives conn (rr_conn r)"
  by (auto simp: gfp_xdr_recv_def split: option.splits dest!: vrecv_only)

lemma vrpc_result_only:
  "gfp_xdr_vrpc_result mal conn just fmt szs w = Some r \<Longrightarrow> only_receives conn (rpc_conn r)"
  by (auto simp: gfp_xdr_vrpc_result_def Let_def split: option.splits if_splits
      dest!: recv_only vrecv_only intro: only_receives_trans)


subsection \<open>Connections ready for a call\<close>

definition xdr_ready :: "fd_world gfp_xdr \<Rightarrow> fd_world \<Rightarrow> bool" where
  "xdr_ready conn w \<longleftrightarrow> socket_sender conn \<and> socket_receiver conn w
     \<and> ib_write_close_func (recvbuffer conn) = gfarm_iobuffer_write_close_nop"

abbreviation to_peer :: "fd_world gfp_xdr \<Rightarrow> fd_world \<Rightarrow> byte list" where
  "to_peer \<equiv> sent fw_out"

abbreviation from_peer :: "fd_world gfp_xdr \<Rightarrow> fd_world \<Rightarrow> byte list" where
  "from_peer \<equiv> stream fw_in"

lemma ready_sent:
  assumes "xdr_ready conn w" and "socket_sender conn'" and "fd_calm w'" and "fw_in w' = fw_in w"
    and "recvbuffer conn' = recvbuffer conn"
  shows "xdr_ready conn' w' \<and> from_peer conn' w' = from_peer conn w"
  using assms by (simp add: xdr_ready_def receiver_ok_def stream_def)

lemma vsend_ready:
  assumes "xdr_ready conn w" and "xdr_encode fmt args = Some bs"
  shows "\<exists>conn' w'. gfp_xdr_vsend conn fmt args w = Some (conn', GFARM_ERR_NO_ERROR, [], [], w')
    \<and> xdr_ready conn' w' \<and> to_peer conn' w' = to_peer conn w @ bs
    \<and> from_peer conn' w' = from_peer conn w"
proof -
  have "socket_sender conn" "fd_calm w \<and> fw_in w = fw_in w"
    using assms(1) by (simp_all add: xdr_ready_def receiver_ok_def)
  from bkwi.vsend_delivers [OF assms(2) this] ready_sent [OF assms(1)] show ?thesis by blast
qed

lemma send_ready:
  assumes "xdr_ready conn w" and "xdr_encode fmt args = Some bs"
  shows "\<exists>conn' w'. gfp_xdr_send conn fmt args w = Some (conn', GFARM_ERR_NO_ERROR, w')
    \<and> xdr_ready conn' w' \<and> to_peer conn' w' = to_peer conn w @ bs
    \<and> from_peer conn' w' = from_peer conn w"
  using vsend_ready [OF assms] by (fastforce simp: gfp_xdr_send_def)

lemma flush_ready:
  assumes "xdr_ready conn w"
  shows "\<exists>conn' w'. gfp_xdr_flush conn w = Some (conn', GFARM_ERR_NO_ERROR, w')
    \<and> xdr_ready conn' w' \<and> to_peer conn' w' = to_peer conn w \<and> fw_out w' = to_peer conn w
    \<and> from_peer conn' w' = from_peer conn w"
proof -
  have "socket_sender conn" "fd_calm w \<and> fw_in w = fw_in w"
    using assms(1) by (simp_all add: xdr_ready_def receiver_ok_def)
  from bkwi.flush_delivers [OF this] obtain conn' w' where
    r: "gfp_xdr_flush conn w = Some (conn', GFARM_ERR_NO_ERROR, w')" "socket_sender conn'" "fd_calm w'"
      "fw_in w' = fw_in w" "recvbuffer conn' = recvbuffer conn" "iob_content (sendbuffer conn') = []"
      "fw_out w' = to_peer conn w" by blast
  then have "to_peer conn' w' = to_peer conn w" by (simp add: sent_def)
  with r ready_sent [OF assms r(2-5)] show ?thesis by blast
qed

text \<open>A request: the number of the command, then the arguments.\<close>

definition command_bytes :: "int \<Rightarrow> byte list" where
  "command_bytes command = int32_chunk (word_of_int command)"

lemma vrpc_request_ready:
  assumes "xdr_ready conn w" and "xdr_encode fmt args = Some bs"
  shows "\<exists>conn' w'. gfp_xdr_vrpc_request conn command fmt args w
      = Some (conn', GFARM_ERR_NO_ERROR, [], [], w')
    \<and> xdr_ready conn' w' \<and> to_peer conn' w' = to_peer conn w @ command_bytes command @ bs
    \<and> from_peer conn' w' = from_peer conn w"
proof -
  have "xdr_encode ''i'' [Arg_int command] = Some (command_bytes command)"
    by (simp add: xdr_chunks.simps command_bytes_def)
  from send_ready [OF assms(1) this] obtain conn1 w1 where
    1: "gfp_xdr_send conn ''i'' [Arg_int command] w = Some (conn1, GFARM_ERR_NO_ERROR, w1)"
      "xdr_ready conn1 w1" "to_peer conn1 w1 = to_peer conn w @ command_bytes command"
      "from_peer conn1 w1 = from_peer conn w" by blast
  with vsend_ready [OF 1(2) assms(2)] show ?thesis by (fastforce simp: gfp_xdr_vrpc_request_def)
qed

text \<open>One call in one step: the format of the request, a slash, that of the result.\<close>

lemma vsend_slash:
  "xdr_encode fmt args = Some bs \<Longrightarrow>
   gfp_xdr_vsend conn (fmt @ CHR ''/'' # rest) args w =
     map_option (\<lambda>(c, e, _, _, w'). (c, e, CHR ''/'' # rest, [], w')) (gfp_xdr_vsend conn fmt args w)"
proof (induction fmt arbitrary: args bs conn w)
  case (Cons f fmt)
  then obtain chunks args' bs' where "xdr_chunks f args = Some (chunks, args')"
    "xdr_encode fmt args' = Some bs'" by (auto split: option.splits)
  with Cons.IH [of args' bs'] xdr_chunks_format [of f args] show ?case
    by (auto split: prod.splits)
qed (simp split: if_splits)

lemma ready_receiver:
  "xdr_ready conn w \<Longrightarrow> receiver_ok gfarm_iobuffer_blocking_read_fd_op fw_in
     (\<lambda>w'. fd_calm w' \<and> fw_out w' = fw_out w) conn w"
  by (simp add: xdr_ready_def receiver_ok_def)

lemma ready_received:
  assumes "xdr_ready conn w" and "only_receives conn conn'"
    and "receiver_ok gfarm_iobuffer_blocking_read_fd_op fw_in
      (\<lambda>w'. fd_calm w' \<and> fw_out w' = fw_out w) conn' w'"
  shows "xdr_ready conn' w' \<and> to_peer conn' w' = to_peer conn w \<and> fw_out w' = fw_out w"
  using assms by (simp add: xdr_ready_def receiver_ok_def sender_ok_def only_receives_def sent_def)

lemma recv_ready:
  assumes "xdr_ready conn w" and "malloc_generous mal"
    and "xdr_encode fmt args = Some bs" and "xdr_decoded fmt args szs = Some vals"
    and "from_peer conn w = bs @ later"
  shows "\<exists>r. gfp_xdr_recv mal conn just (map recv_char fmt) szs w = Some r
    \<and> rr_error r = GFARM_ERR_NO_ERROR \<and> \<not> rr_eof r \<and> rr_vals r = vals
    \<and> xdr_ready (rr_conn r) (rr_world r) \<and> to_peer (rr_conn r) (rr_world r) = to_peer conn w
    \<and> fw_out (rr_world r) = fw_out w
    \<and> from_peer (rr_conn r) (rr_world r) = later"
  using bkro.recv_spec [OF assms(3,4) ready_receiver [OF assms(1)] assms(5,2), of just]
    ready_received [OF assms(1) recv_only] by blast

text \<open>A reply: the error number, and after 0 the results.\<close>

lemma vrpc_reply_ready:
  assumes "xdr_ready conn w" and "malloc_generous mal"
    and "xdr_encode fmt args = Some bs" and "xdr_decoded fmt args szs = Some vals"
    and "from_peer conn w = int32_chunk x @ (if x = 0 then bs @ later else later)"
  shows "\<exists>r. gfp_xdr_vrpc_result mal conn just (map recv_char fmt) szs w = Some r
    \<and> rpc_error r = GFARM_ERR_NO_ERROR \<and> rpc_errcode r = Some x
    \<and> rpc_vals r = (if x = 0 then vals else [])
    \<and> xdr_ready (rpc_conn r) (rpc_world r) \<and> to_peer (rpc_conn r) (rpc_world r) = to_peer conn w
    \<and> fw_out (rpc_world r) = fw_out w
    \<and> from_peer (rpc_conn r) (rpc_world r) = later"
proof (cases "x = 0")
  case True
  with assms(5) have "from_peer conn w = int32_chunk 0 @ bs @ later" by simp
  from bkro.vrpc_result_ok [OF ready_receiver [OF assms(1)] assms(2-4) this, of just] True
    ready_received [OF assms(1) vrpc_result_only] show ?thesis by (simp (no_asm_simp)) blast
next
  case False
  with assms(5) have "from_peer conn w = int32_chunk x @ later" by simp
  from bkro.vrpc_result_code [OF ready_receiver [OF assms(1)] assms(2) False this, of just
      "map recv_char fmt" szs] False
    ready_received [OF assms(1) vrpc_result_only] show ?thesis by (simp (no_asm_simp)) blast
qed

lemma vrpc_eof_ready:
  assumes "xdr_ready conn w" and "length (from_peer conn w) < 4"
  shows "\<exists>r. gfp_xdr_vrpc_result mal conn just fmt szs w = Some r
    \<and> rpc_error r = GFARM_ERR_UNEXPECTED_EOF"
  using bkro.vrpc_result_eof [OF ready_receiver [OF assms(1)] assms(2)] by blast

lemma new_socket_ready:
  assumes "gfp_xdr_new_socket malc malr mals mal m0 rf0 wf0 fd = Inr conn" and "fd_calm w"
  shows "xdr_ready conn w \<and> to_peer conn w = fw_out w \<and> from_peer conn w = fw_in w"
proof -
  have "ib_write_close_func (recvbuffer conn) = gfarm_iobuffer_write_close_nop"
    using assms(1)
    by (auto simp: gfp_xdr_new_socket_def gfp_xdr_new_def gfp_xdr_set_def gfarm_iobuffer_set_read_def
        dest!: iobuffer_alloc_some split: if_splits option.splits)
  with new_socket_ok [OF assms(1), of w] assms(2) show ?thesis by (simp add: xdr_ready_def)
qed


lemma vrpc_ready:
  assumes "xdr_ready conn w" and "malloc_generous mal" and "xdr_encode fmt args = Some req"
    and "xdr_encode rfmt rargs = Some bs" and "xdr_decoded rfmt rargs szs = Some vals"
    and "from_peer conn w = int32_chunk x @ (if x = 0 then bs @ later else later)"
  shows "\<exists>r. gfp_xdr_vrpc mal conn just command (fmt @ CHR ''/'' # map recv_char rfmt) args szs w = Some r
    \<and> rpc_error r = GFARM_ERR_NO_ERROR \<and> rpc_errcode r = Some x
    \<and> rpc_vals r = (if x = 0 then vals else [])
    \<and> xdr_ready (rpc_conn r) (rpc_world r)
    \<and> to_peer (rpc_conn r) (rpc_world r) = to_peer conn w @ command_bytes command @ req
    \<and> fw_out (rpc_world r) = to_peer conn w @ command_bytes command @ req
    \<and> from_peer (rpc_conn r) (rpc_world r) = later"
proof -
  from vrpc_request_ready [OF assms(1,3)] obtain c1 w1 where
    1: "gfp_xdr_vrpc_request conn command fmt args w = Some (c1, GFARM_ERR_NO_ERROR, [], [], w1)"
      "xdr_ready c1 w1" "to_peer c1 w1 = to_peer conn w @ command_bytes command @ req"
      "from_peer c1 w1 = from_peer conn w" by blast
  have q: "gfp_xdr_vrpc_request conn command (fmt @ CHR ''/'' # map recv_char rfmt) args w
      = Some (c1, GFARM_ERR_NO_ERROR, CHR ''/'' # map recv_char rfmt, [], w1)"
    using 1(1)
    by (auto simp: gfp_xdr_vrpc_request_def vsend_slash [OF assms(3)] split: option.splits if_splits)
  from flush_ready [OF 1(2)] obtain c2 w2 where
    2: "gfp_xdr_flush c1 w1 = Some (c2, GFARM_ERR_NO_ERROR, w2)" "xdr_ready c2 w2"
      "to_peer c2 w2 = to_peer c1 w1" "fw_out w2 = to_peer c1 w1" "from_peer c2 w2 = from_peer c1 w1"
    by blast
  have "from_peer c2 w2 = int32_chunk x @ (if x = 0 then bs @ later else later)"
    using 1(4) 2(5) assms(6) by simp
  from vrpc_reply_ready [OF 2(2) assms(2,4,5) this, of just] q 2 1(3) show ?thesis
    by (simp add: gfp_xdr_vrpc_def)
qed

lemma vrpc_eof:
  assumes "xdr_ready conn w" and "xdr_encode fmt args = Some req" and "length (from_peer conn w) < 4"
  shows "\<exists>r. gfp_xdr_vrpc mal conn just command (fmt @ CHR ''/'' # rfmt) args szs w = Some r
    \<and> rpc_error r = GFARM_ERR_UNEXPECTED_EOF"
proof -
  from vrpc_request_ready [OF assms(1,2)] obtain c1 w1 where
    1: "gfp_xdr_vrpc_request conn command fmt args w = Some (c1, GFARM_ERR_NO_ERROR, [], [], w1)"
      "xdr_ready c1 w1" "from_peer c1 w1 = from_peer conn w" by blast
  have q: "gfp_xdr_vrpc_request conn command (fmt @ CHR ''/'' # rfmt) args w
      = Some (c1, GFARM_ERR_NO_ERROR, CHR ''/'' # rfmt, [], w1)"
    using 1(1)
    by (auto simp: gfp_xdr_vrpc_request_def vsend_slash [OF assms(2)] split: option.splits if_splits)
  from flush_ready [OF 1(2)] obtain c2 w2 where
    2: "gfp_xdr_flush c1 w1 = Some (c2, GFARM_ERR_NO_ERROR, w2)" "xdr_ready c2 w2"
      "from_peer c2 w2 = from_peer c1 w1" by blast
  then have "length (from_peer c2 w2) < 4" using 1(3) assms(3) by simp
  from vrpc_eof_ready [OF 2(2) this, of mal just rfmt szs] q 2(1) show ?thesis
    by (simp add: gfp_xdr_vrpc_def)
qed

text \<open>The end of the stream in front of a value: no error, but the flag.\<close>

lemma recv_eof:
  assumes "xdr_ready conn w" and "f \<in> {CHR ''s'', CHR ''i''}" and "length (from_peer conn w) < 4"
  shows "\<exists>r. gfp_xdr_recv mal conn just (f # fmt) szs w = Some r
    \<and> rr_error r = GFARM_ERR_NO_ERROR \<and> rr_eof r \<and> rr_vals r = []"
proof -
  obtain c ds w' where rb: "recv_bytes conn just 4 w = (c, ds, w')"
    by (cases "recv_bytes conn just 4 w") auto
  have "length ds \<noteq> 4"
    using bkro.recv_bytes_spec [OF ready_receiver [OF assms(1)] rb] assms(3) by auto
  with rb assms(2) show ?thesis
    by (auto simp: gfp_xdr_recv_def gfp_xdr_vrecv_def recv_one_def recv_fixed_def recv_int32_def)
qed

end
