(* ===== verification/Gfm_Spec.thy ===== *)
theory Gfm_Spec
  imports Gfm_Connect Gfm_Metadata Xdr_Duplex Conn_Cache_Spec
begin

text \<open>
  What a call of the metadata client does: \<open>gfm_ready\<close> says that the cache is sound, the connection
  is in use and its buffers are in order; the calls keep it, append their request to what the
  server will get, take their reply from what the server has sent, and touch
  nothing else (\<open>gfm_same\<close>).
\<close>

subsection \<open>A cache with one entry\<close>

lemma one_entry:
  "\<exists>(c :: 'c conn_cache) ys. cache_inv c ys \<and> in_use c 5 \<and> (\<exists>k. cc_hash_entry (cconns c 5) = Some k)"
proof -
  define c0 :: "'c conn_cache" where
    "c0 = GFP_CONN_CACHE_INITIALIZER (\<lambda>_. \<lparr>le_next = None, le_prev = None, le_acquired = 0\<rparr>)
       (\<lambda>_. \<lparr>cc_hash_entry = None, cc_data = None\<rparr>) 31 8"
  let ?op = "Conn_acquire True True True (Some 5) [0x75] [0x68] 601 :: 'c conn_op"
  have inv: "cache_inv c0 []" unfolding c0_def by (rule init_inv) simp_all
  have alloc: "allocated c0 = {}" by (simp add: c0_def GFP_CONN_CACHE_INITIALIZER_def)
  have legal: "conn_legal ?op c0" using alloc by (simp add: fresh_address_def)
  from acquire_outcome [OF inv legal] obtain c1 q created where
    a0: "gfp_cached_connection_acquire (\<lambda>_. True) True True (Some 5) [0x75] c0 [0x68] 601
        = Some (c1, Inr (q, created))"
    and a1: "created \<Longrightarrow> q = 5 \<and> q \<in> allocated c1 \<and> (\<exists>k. cc_hash_entry (cconns c1 q) = Some k)
        \<and> le_acquired (lru_heap (lru_list c1) q) = 1" and a2: "\<not> created \<Longrightarrow> q \<in> allocated c0"
    by (fastforce split: bool.splits)
  have a: "gfp_cached_connection_acquire (\<lambda>_. True) True True (Some 5) [0x75] c0 [0x68] 601
        = Some (c1, Inr (5, True))" "5 \<in> allocated c1" "\<exists>k. cc_hash_entry (cconns c1 5) = Some k"
      "le_acquired (lru_heap (lru_list c1) 5) = 1"
    using a0 a1 a2 alloc by auto
  from conn_step_spec [OF inv legal, of "\<lambda>_ w. w" "()"] a(1) obtain ys where
    "cache_inv c1 ys" by auto
  with a(2-4) show ?thesis by (auto simp: in_use_def)
qed

subsection \<open>Ready connections\<close>

definition gfm_ready :: "nat \<Rightarrow> fd_world gfm_state \<Rightarrow> bool" where
  "gfm_ready p s \<longleftrightarrow> (\<exists>xs. cache_inv (gfm_server_cache s) xs) \<and> in_use (gfm_server_cache s) p
     \<and> (\<exists>g. gfm_server_at s p = Some g \<and> xdr_ready (gfm_conn g) (gfm_world s))"

definition gfm_outgoing :: "nat \<Rightarrow> fd_world gfm_state \<Rightarrow> byte list" where
  "gfm_outgoing p s =
     (case gfm_server_at s p of None \<Rightarrow> [] | Some g \<Rightarrow> to_peer (gfm_conn g) (gfm_world s))"

definition gfm_incoming :: "nat \<Rightarrow> fd_world gfm_state \<Rightarrow> byte list" where
  "gfm_incoming p s =
     (case gfm_server_at s p of None \<Rightarrow> [] | Some g \<Rightarrow> from_peer (gfm_conn g) (gfm_world s))"

definition gfm_same :: "nat \<Rightarrow> 'w gfm_state \<Rightarrow> 'w gfm_state \<Rightarrow> bool" where
  "gfm_same p s s' \<longleftrightarrow>
     (let c = gfm_server_cache s; c' = gfm_server_cache s'
      in allocated c' = allocated c \<and> refs (lru_list c') = refs (lru_list c)
         \<and> (\<forall>q. cc_hash_entry (cconns c' q) = cc_hash_entry (cconns c q))
         \<and> (\<forall>q. q \<noteq> p \<longrightarrow> cc_data (cconns c' q) = cc_data (cconns c q)))"

lemma gfm_same_refl [simp]: "gfm_same p s s"
  by (simp add: gfm_same_def)

lemma gfm_same_trans [trans]: "gfm_same p a b \<Longrightarrow> gfm_same p b c \<Longrightarrow> gfm_same p a c"
  by (simp add: gfm_same_def Let_def)

lemma gfm_same_in_use: "gfm_same p s s' \<Longrightarrow> in_use (gfm_server_cache s') q = in_use (gfm_server_cache s) q"
  by (simp add: gfm_same_def Let_def in_use_refs)

lemma gfm_ready_conn:
  assumes "gfm_ready p s"
  obtains g where "gfm_server_at s p = Some g" "xdr_ready (gfm_conn g) (gfm_world s)"
    "gfm_outgoing p s = to_peer (gfm_conn g) (gfm_world s)"
    "gfm_incoming p s = from_peer (gfm_conn g) (gfm_world s)"
  using assms by (auto simp: gfm_ready_def gfm_outgoing_def gfm_incoming_def)

text \<open>Storing the connection back after an operation on its buffers.\<close>

lemma store_conn_ready:
  assumes "gfm_ready p s" and "gfm_server_at s p = Some g" and "xdr_ready conn w"
  defines "s' \<equiv> gfm_store_conn p conn w s"
  shows "gfm_ready p s'" and "gfm_same p s s'" and "gfm_server_at s' p = Some (g\<lparr>gfm_conn := conn\<rparr>)"
    and "gfm_world s' = w" and "gfm_outgoing p s' = to_peer conn w"
    and "gfm_incoming p s' = from_peer conn w"
proof -
  let ?g = "g\<lparr>gfm_conn := conn\<rparr>"
  obtain xs where inv: "cache_inv (gfm_server_cache s) xs" using assms(1) by (auto simp: gfm_ready_def)
  have s': "gfm_server_cache s' = gfp_cached_connection_set_data (gfm_server_cache s) p (Some ?g)"
    "gfm_world s' = w"
    using assms(2) by (simp_all add: s'_def gfm_store_conn_def gfm_store_def)
  then show at: "gfm_server_at s' p = Some ?g" and w: "gfm_world s' = w"
    by (simp_all add: gfm_server_at_def gfp_cached_connection_get_data_def gfp_cached_connection_set_data_def)
  show same: "gfm_same p s s'"
    using s' by (simp add: gfm_same_def gfp_cached_connection_set_data_def)
  have "in_use (gfm_server_cache s') p"
    using gfm_same_in_use [OF same] assms(1) by (simp add: gfm_ready_def)
  with set_data_inv [OF inv, of p "Some ?g"] s' at w assms(3) show "gfm_ready p s'"
    by (auto simp: gfm_ready_def)
  show "gfm_outgoing p s' = to_peer conn w" "gfm_incoming p s' = from_peer conn w"
    using at w by (simp_all add: gfm_outgoing_def gfm_incoming_def)
qed

lemma used_ready:
  assumes "gfm_ready p s"
  shows "\<exists>s'. gfm_client_connection_used p s = Some s' \<and> gfm_ready p s' \<and> gfm_same p s s'
    \<and> gfm_server_at s' p = gfm_server_at s p \<and> gfm_world s' = gfm_world s"
proof -
  obtain xs g where inv: "cache_inv (gfm_server_cache s) xs" and p: "p \<in> allocated (gfm_server_cache s)"
    and g: "gfm_server_at s p = Some g" "xdr_ready (gfm_conn g) (gfm_world s)"
    using assms by (auto simp: gfm_ready_def in_use_def)
  from used_spec [OF inv p] obtain c where
    c: "gfp_cached_connection_used (gfm_server_cache s) p = Some c"
      "cache_inv c (if p \<in> set xs then p # remove1 p xs else xs)" "allocated c = allocated (gfm_server_cache s)"
      "cconns c = cconns (gfm_server_cache s)" "refs (lru_list c) = refs (lru_list (gfm_server_cache s))"
    by blast
  let ?s = "s\<lparr>gfm_server_cache := c\<rparr>"
  have same: "gfm_same p s ?s" using c by (simp add: gfm_same_def)
  moreover have at: "gfm_server_at ?s p = gfm_server_at s p"
    using c by (simp add: gfm_server_at_def gfp_cached_connection_get_data_def)
  moreover have "gfm_ready p ?s"
    using c(2) gfm_same_in_use [OF same] at g assms by (auto simp: gfm_ready_def)
  ultimately show ?thesis using c(1) by (auto simp: gfm_client_connection_used_def)
qed

lemma outcome_ok [simp]: "gfm_outcome p GFARM_ERR_NO_ERROR v s = Some (Inr v, s)"
  by (simp add: gfm_outcome_def gfm_purge_on_error_def IS_CONNECTION_ERROR_def call_return_def)

subsection \<open>Requests\<close>

lemma gfm_request_ready:
  assumes "gfm_ready p s" and "xdr_encode fmt args = Some bs"
  shows "\<exists>s'. gfm_client_rpc_request p command fmt args s = Some (Inr (), s') \<and> gfm_ready p s'
    \<and> gfm_same p s s' \<and> gfm_outgoing p s' = gfm_outgoing p s @ command_bytes command @ bs
    \<and> gfm_incoming p s' = gfm_incoming p s"
proof -
  from gfm_ready_conn [OF assms(1)] obtain g where
    g: "gfm_server_at s p = Some g" "xdr_ready (gfm_conn g) (gfm_world s)"
      "gfm_outgoing p s = to_peer (gfm_conn g) (gfm_world s)"
      "gfm_incoming p s = from_peer (gfm_conn g) (gfm_world s)" by blast
  from vrpc_request_ready [OF g(2) assms(2)] obtain conn w where
    r: "gfp_xdr_vrpc_request (gfm_conn g) command fmt args (gfm_world s)
        = Some (conn, GFARM_ERR_NO_ERROR, [], [], w)" "xdr_ready conn w"
      "to_peer conn w = to_peer (gfm_conn g) (gfm_world s) @ command_bytes command @ bs"
      "from_peer conn w = from_peer (gfm_conn g) (gfm_world s)" by blast
  note st = store_conn_ready [OF assms(1) g(1) r(2)]
  have "gfm_client_rpc_request p command fmt args s = Some (Inr (), gfm_store_conn p conn w s)"
    using g(1) r(1) by (simp add: gfm_client_rpc_request_def)
  with st r(3,4) g(3,4) show ?thesis by auto
qed

lemma gfm_send_string_ready:
  assumes "gfm_ready p s" and "xdr_encode ''s'' [Arg_ptr str] = Some bs"
  shows "\<exists>s'. gfm_send_string p str s = Some (Inr (), s') \<and> gfm_ready p s'
    \<and> gfm_same p s s' \<and> gfm_outgoing p s' = gfm_outgoing p s @ bs
    \<and> gfm_incoming p s' = gfm_incoming p s"
proof -
  from gfm_ready_conn [OF assms(1)] obtain g where
    g: "gfm_server_at s p = Some g" "xdr_ready (gfm_conn g) (gfm_world s)"
      "gfm_outgoing p s = to_peer (gfm_conn g) (gfm_world s)"
      "gfm_incoming p s = from_peer (gfm_conn g) (gfm_world s)" by blast
  from send_ready [OF g(2) assms(2)] obtain conn w where
    r: "gfp_xdr_send (gfm_conn g) ''s'' [Arg_ptr str] (gfm_world s) = Some (conn, GFARM_ERR_NO_ERROR, w)"
      "xdr_ready conn w" "to_peer conn w = to_peer (gfm_conn g) (gfm_world s) @ bs"
      "from_peer conn w = from_peer (gfm_conn g) (gfm_world s)" by blast
  note st = store_conn_ready [OF assms(1) g(1) r(2)]
  have "gfm_send_string p str s = Some (Inr (), gfm_store_conn p conn w s)"
    using g(1) r(1) by (simp add: gfm_send_string_def)
  with st r(3,4) g(3,4) show ?thesis by auto
qed

subsection \<open>Replies\<close>

lemma sint_eq_0: "sint (x :: u32) = 0 \<longleftrightarrow> x = 0"
  by (simp add: signed_eq_0_iff)

lemma rpc_end_ready:
  assumes "gfm_ready p s" and "xdr_ready (rpc_conn r) (rpc_world r)"
    and "rpc_error r = GFARM_ERR_NO_ERROR" and "rpc_errcode r = Some x"
    and "rpc_vals r = (if x = 0 then vals else [])"
  shows "\<exists>s'. gfm_rpc_end p r s = Some (if x = 0 then Inr vals else Inl (sint x), s') \<and> gfm_ready p s'
    \<and> gfm_same p s s' \<and> gfm_outgoing p s' = to_peer (rpc_conn r) (rpc_world r)
    \<and> gfm_incoming p s' = from_peer (rpc_conn r) (rpc_world r) \<and> gfm_world s' = rpc_world r"
proof -
  from gfm_ready_conn [OF assms(1)] obtain g where g: "gfm_server_at s p = Some g" by blast
  note st = store_conn_ready [OF assms(1) g assms(2)]
  have "gfm_rpc_end p r s = Some (if x = 0 then Inr vals else Inl (sint x),
      gfm_store_conn p (rpc_conn r) (rpc_world r) s)"
    using assms(3-5)
    by (simp add: gfm_rpc_end_def call_bind_def call_fail_def call_return_def sint_eq_0)
  with st show ?thesis by auto
qed

text \<open>The reply for error number \<open>x\<close>: the number, and the results after 0.\<close>

definition reply_bytes :: "u32 \<Rightarrow> byte list \<Rightarrow> byte list" where
  "reply_bytes x bs = int32_chunk x @ (if x = 0 then bs else [])"

lemma reply_split:
  "reply_bytes x bs @ later = int32_chunk x @ (if x = 0 then bs @ later else later)"
  by (simp add: reply_bytes_def)

lemma gfm_result_ready:
  assumes "gfm_ready p s" and "malloc_generous mal"
    and "xdr_encode fmt args = Some bs" and "xdr_decoded fmt args szs = Some vals"
    and "gfm_incoming p s = reply_bytes x bs @ later"
  shows "\<exists>s'. gfm_client_rpc_result mal p just (map recv_char fmt) szs s
      = Some (if x = 0 then Inr vals else Inl (sint x), s') \<and> gfm_ready p s'
    \<and> gfm_same p s s' \<and> gfm_outgoing p s' = gfm_outgoing p s
    \<and> fw_out (gfm_world s') = gfm_outgoing p s \<and> gfm_incoming p s' = later"
proof -
  from gfm_ready_conn [OF assms(1)] obtain g where
    g: "gfm_server_at s p = Some g" "xdr_ready (gfm_conn g) (gfm_world s)"
      "gfm_outgoing p s = to_peer (gfm_conn g) (gfm_world s)"
      "gfm_incoming p s = from_peer (gfm_conn g) (gfm_world s)" by blast
  from used_ready [OF assms(1)] obtain s1 where
    1: "gfm_client_connection_used p s = Some s1" "gfm_ready p s1" "gfm_same p s s1"
      "gfm_server_at s1 p = Some g" "gfm_world s1 = gfm_world s" using g(1) by auto
  from flush_ready [OF g(2)] obtain c2 w2 where
    2: "gfp_xdr_flush (gfm_conn g) (gfm_world s) = Some (c2, GFARM_ERR_NO_ERROR, w2)" "xdr_ready c2 w2"
      "to_peer c2 w2 = gfm_outgoing p s" "fw_out w2 = gfm_outgoing p s"
      "from_peer c2 w2 = gfm_incoming p s" using g(3,4) by auto
  let ?s2 = "gfm_store_conn p c2 w2 s1"
  note st = store_conn_ready [OF 1(2,4) 2(2)]
  from 2(5) assms(5) have inc: "from_peer c2 w2 = int32_chunk x @ (if x = 0 then bs @ later else later)"
    by (simp add: reply_split)
  from vrpc_reply_ready [OF 2(2) assms(2-4) inc, of just] obtain r where
    r: "gfp_xdr_vrpc_result mal c2 just (map recv_char fmt) szs w2 = Some r"
      "rpc_error r = GFARM_ERR_NO_ERROR" "rpc_errcode r = Some x"
      "rpc_vals r = (if x = 0 then vals else [])" "xdr_ready (rpc_conn r) (rpc_world r)"
      "to_peer (rpc_conn r) (rpc_world r) = to_peer c2 w2" "fw_out (rpc_world r) = fw_out w2"
      "from_peer (rpc_conn r) (rpc_world r) = later" by blast
  from rpc_end_ready [OF st(1) r(5,2,3,4)] obtain s' where
    e: "gfm_rpc_end p r ?s2 = Some (if x = 0 then Inr vals else Inl (sint x), s')" "gfm_ready p s'"
      "gfm_same p ?s2 s'" "gfm_outgoing p s' = to_peer (rpc_conn r) (rpc_world r)"
      "gfm_incoming p s' = from_peer (rpc_conn r) (rpc_world r)" "gfm_world s' = rpc_world r" by blast
  have run: "gfm_client_rpc_result mal p just (map recv_char fmt) szs s = gfm_rpc_end p r ?s2"
    using 1(1,4,5) 2(1) r(1) st(4) by (simp add: gfm_client_rpc_result_def call_bind_def)
  have same: "gfm_same p s s'" using gfm_same_trans [OF 1(3) gfm_same_trans [OF st(2) e(3)]] .
  show ?thesis unfolding run
    using e(1,2,4-6) r(6-8) 2(3,4) same by (intro exI [of _ s']) simp
qed

lemma gfm_rpc_ready:
  assumes "gfm_ready p s" and "malloc_generous mal" and "xdr_encode fmt args = Some req"
    and "xdr_encode rfmt rargs = Some bs" and "xdr_decoded rfmt rargs szs = Some vals"
    and "gfm_incoming p s = reply_bytes x bs @ later"
  shows "\<exists>s'. gfm_client_rpc mal p just command (fmt @ CHR ''/'' # map recv_char rfmt) args szs s
      = Some (if x = 0 then Inr vals else Inl (sint x), s') \<and> gfm_ready p s'
    \<and> gfm_same p s s' \<and> gfm_outgoing p s' = gfm_outgoing p s @ command_bytes command @ req
    \<and> fw_out (gfm_world s') = gfm_outgoing p s' \<and> gfm_incoming p s' = later"
proof -
  from gfm_ready_conn [OF assms(1)] obtain g where
    g: "gfm_server_at s p = Some g" "xdr_ready (gfm_conn g) (gfm_world s)"
      "gfm_outgoing p s = to_peer (gfm_conn g) (gfm_world s)"
      "gfm_incoming p s = from_peer (gfm_conn g) (gfm_world s)" by blast
  from used_ready [OF assms(1)] obtain s1 where
    1: "gfm_client_connection_used p s = Some s1" "gfm_ready p s1" "gfm_same p s s1"
      "gfm_server_at s1 p = Some g" "gfm_world s1 = gfm_world s" using g(1) by auto
  have inc: "from_peer (gfm_conn g) (gfm_world s) = int32_chunk x @ (if x = 0 then bs @ later else later)"
    using g(4) assms(6) by (simp add: reply_split)
  from vrpc_ready [OF g(2) assms(2-5) inc, of just command] obtain r where
    r: "gfp_xdr_vrpc mal (gfm_conn g) just command (fmt @ CHR ''/'' # map recv_char rfmt) args szs
          (gfm_world s) = Some r" "rpc_error r = GFARM_ERR_NO_ERROR" "rpc_errcode r = Some x"
      "rpc_vals r = (if x = 0 then vals else [])" "xdr_ready (rpc_conn r) (rpc_world r)"
      "to_peer (rpc_conn r) (rpc_world r) = gfm_outgoing p s @ command_bytes command @ req"
      "fw_out (rpc_world r) = gfm_outgoing p s @ command_bytes command @ req"
      "from_peer (rpc_conn r) (rpc_world r) = later" using g(3) by auto
  have run: "gfm_client_rpc mal p just command (fmt @ CHR ''/'' # map recv_char rfmt) args szs s
      = gfm_rpc_end p r s1"
    using 1(1,4,5) r(1) by (simp add: gfm_client_rpc_def)
  from rpc_end_ready [OF 1(2) r(5,2,3,4)] obtain s' where
    e: "gfm_rpc_end p r s1 = Some (if x = 0 then Inr vals else Inl (sint x), s')" "gfm_ready p s'"
      "gfm_same p s1 s'" "gfm_outgoing p s' = to_peer (rpc_conn r) (rpc_world r)"
      "gfm_incoming p s' = from_peer (rpc_conn r) (rpc_world r)" "gfm_world s' = rpc_world r" by blast
  show ?thesis unfolding run
    using e(1,2,4-6) r(6-8) gfm_same_trans [OF 1(3) e(3)] by (intro exI [of _ s']) simp
qed

end
