(* ===== verification/Gfm_Requests.thy ===== *)
theory Gfm_Requests
  imports Gfm_Spec
begin

text \<open>
  The requests of \<open>Gfm_Fs\<close> as messages: \<open>gfm_protocol call command format args\<close> relates a call of the
  client to the message the protocol has for it, provided that the strings and blocks are what
  the function expects. The format is determined by the command (\<open>gfm_formats\<close>, the table
  a server dispatches on), and no two different messages begin with the same bytes.
\<close>

subsection \<open>The protocol\<close>

text \<open>A C string of less than \<open>2^31\<close> characters; a block that has the size given for it.\<close>

definition c_string :: "byte list \<Rightarrow> bool" where
  "c_string s \<longleftrightarrow> 0 \<in> set s \<and> length (takeWhile (\<lambda>b. b \<noteq> 0) s) < 2 ^ 31"

definition sized :: "u64 \<Rightarrow> byte list \<Rightarrow> bool" where
  "sized z s \<longleftrightarrow> unat z \<le> length s \<and> unat z < 2 ^ 31"

inductive gfm_protocol ::
  "(nat \<Rightarrow> ('w, unit) gfm_call) \<Rightarrow> int \<Rightarrow> string \<Rightarrow> xdr_arg list \<Rightarrow> bool" where
  "gfm_protocol (\<lambda>p. gfm_client_compound_begin_request p)
     GFM_PROTO_COMPOUND_BEGIN '''' []"
| "gfm_protocol (\<lambda>p. gfm_client_compound_end_request p)
     GFM_PROTO_COMPOUND_END '''' []"
| "gfm_protocol (\<lambda>p. gfm_client_compound_on_error_request p err)
     GFM_PROTO_COMPOUND_ON_ERROR ''i'' [Arg_int err]"
| "gfm_protocol (\<lambda>p. gfm_client_get_fd_request p)
     GFM_PROTO_GET_FD '''' []"
| "gfm_protocol (\<lambda>p. gfm_client_put_fd_request p fd)
     GFM_PROTO_PUT_FD ''i'' [Arg_int fd]"
| "gfm_protocol (\<lambda>p. gfm_client_save_fd_request p)
     GFM_PROTO_SAVE_FD '''' []"
| "gfm_protocol (\<lambda>p. gfm_client_restore_fd_request p)
     GFM_PROTO_RESTORE_FD '''' []"
| "c_string name \<Longrightarrow> 
     gfm_protocol (\<lambda>p. gfm_client_create_request p name flags mode)
     GFM_PROTO_CREATE ''sii'' [Arg_ptr name, Arg_int flags, Arg_int mode]"
| "sized namelen name \<Longrightarrow> 
     gfm_protocol (\<lambda>p. gfm_client_open_request p name namelen flags)
     GFM_PROTO_OPEN ''Si'' [Arg_ptr name, Arg_size namelen, Arg_int flags]"
| "gfm_protocol (\<lambda>p. gfm_client_open_root_request p flags)
     GFM_PROTO_OPEN_ROOT ''i'' [Arg_int flags]"
| "gfm_protocol (\<lambda>p. gfm_client_open_parernt_request p flags)
     GFM_PROTO_OPEN_PARENT ''i'' [Arg_int flags]"
| "gfm_protocol (\<lambda>p. gfm_client_close_request p)
     GFM_PROTO_CLOSE '''' []"
| "gfm_protocol (\<lambda>p. gfm_client_verify_type_request p type)
     GFM_PROTO_VERIFY_TYPE ''i'' [Arg_int type]"
| "gfm_protocol (\<lambda>p. gfm_client_verify_type_not_request p type)
     GFM_PROTO_VERIFY_TYPE_NOT ''i'' [Arg_int type]"
| "gfm_protocol (\<lambda>p. gfm_client_bequeath_fd_request p)
     GFM_PROTO_BEQUEATH_FD '''' []"
| "gfm_protocol (\<lambda>p. gfm_client_inherit_fd_request p fd)
     GFM_PROTO_INHERIT_FD ''i'' [Arg_int fd]"
| "gfm_protocol (\<lambda>p. gfm_client_fstat_request p)
     GFM_PROTO_FSTAT '''' []"
| "gfm_protocol (\<lambda>p. gfm_client_futimes_request p atime_sec atime_nsec mtime_sec mtime_nsec)
     GFM_PROTO_FUTIMES ''lili'' [Arg_int64 atime_sec, Arg_int atime_nsec, Arg_int64 mtime_sec, Arg_int mtime_nsec]"
| "gfm_protocol (\<lambda>p. gfm_client_fchmod_request p mode)
     GFM_PROTO_FCHMOD ''i'' [Arg_int mode]"
| "c_string (string_or_empty user) \<Longrightarrow> c_string (string_or_empty grp) \<Longrightarrow> 
     gfm_protocol (\<lambda>p. gfm_client_fchown_request p user grp)
     GFM_PROTO_FCHOWN ''ss'' [Arg_ptr (string_or_empty user), Arg_ptr (string_or_empty grp)]"
| "gfm_protocol (\<lambda>p. gfm_client_cksum_get_request p)
     GFM_PROTO_CKSUM_GET '''' []"
| "c_string cksum_type \<Longrightarrow> sized cksum_len cksum \<Longrightarrow> 
     gfm_protocol (\<lambda>p. gfm_client_cksum_set_request p cksum_type cksum_len cksum flags mtime_sec mtime_nsec)
     GFM_PROTO_CKSUM_SET ''sbili'' [Arg_ptr cksum_type, Arg_size cksum_len, Arg_ptr cksum, Arg_int flags, Arg_int64 mtime_sec, Arg_int mtime_nsec]"
| "c_string domain \<Longrightarrow> 
     gfm_protocol (\<lambda>p. gfm_client_schedule_file_request p domain)
     GFM_PROTO_SCHEDULE_FILE ''s'' [Arg_ptr domain]"
| "c_string domain \<Longrightarrow> 
     gfm_protocol (\<lambda>p. gfm_client_schedule_file_with_program_request p domain)
     GFM_PROTO_SCHEDULE_FILE_WITH_PROGRAM ''s'' [Arg_ptr domain]"
| "c_string name \<Longrightarrow> 
     gfm_protocol (\<lambda>p. gfm_client_remove_request p name)
     GFM_PROTO_REMOVE ''s'' [Arg_ptr name]"
| "c_string src_name \<Longrightarrow> c_string target_name \<Longrightarrow> 
     gfm_protocol (\<lambda>p. gfm_client_rename_request p src_name target_name)
     GFM_PROTO_RENAME ''ss'' [Arg_ptr src_name, Arg_ptr target_name]"
| "c_string target_name \<Longrightarrow> 
     gfm_protocol (\<lambda>p. gfm_client_flink_request p target_name)
     GFM_PROTO_FLINK ''s'' [Arg_ptr target_name]"
| "c_string target_name \<Longrightarrow> 
     gfm_protocol (\<lambda>p. gfm_client_mkdir_request p target_name mode)
     GFM_PROTO_MKDIR ''si'' [Arg_ptr target_name, Arg_int mode]"
| "c_string target_path \<Longrightarrow> c_string link_name \<Longrightarrow> 
     gfm_protocol (\<lambda>p. gfm_client_symlink_request p target_path link_name)
     GFM_PROTO_SYMLINK ''ss'' [Arg_ptr target_path, Arg_ptr link_name]"
| "gfm_protocol (\<lambda>p. gfm_client_readlink_request p)
     GFM_PROTO_READLINK '''' []"
| "gfm_protocol (\<lambda>p. gfm_client_getdirpath_request p)
     GFM_PROTO_GETDIRPATH '''' []"
| "gfm_protocol (\<lambda>p. gfm_client_getdirents_request p n_entries)
     GFM_PROTO_GETDIRENTS ''i'' [Arg_int n_entries]"
| "gfm_protocol (\<lambda>p. gfm_client_getdirentsplus_request p n_entries)
     GFM_PROTO_GETDIRENTSPLUS ''i'' [Arg_int n_entries]"
| "gfm_protocol (\<lambda>p. gfm_client_seek_request p offset whence)
     GFM_PROTO_SEEK ''li'' [Arg_int64 offset, Arg_int whence]"
| "c_string name \<Longrightarrow> sized sz val \<Longrightarrow> 
     gfm_protocol (\<lambda>p. gfm_client_setxattr_request p xmlMode name sz val flags)
     (if xmlMode then GFM_PROTO_XMLATTR_SET else GFM_PROTO_XATTR_SET) ''sbi'' [Arg_ptr name, Arg_size sz, Arg_ptr val, Arg_int flags]"
| "c_string name \<Longrightarrow> 
     gfm_protocol (\<lambda>p. gfm_client_getxattr_request p xmlMode name)
     (if xmlMode then GFM_PROTO_XMLATTR_GET else GFM_PROTO_XATTR_GET) ''s'' [Arg_ptr name]"
| "gfm_protocol (\<lambda>p. gfm_client_listxattr_request p xmlMode)
     (if xmlMode then GFM_PROTO_XMLATTR_LIST else GFM_PROTO_XATTR_LIST) '''' []"
| "c_string name \<Longrightarrow> 
     gfm_protocol (\<lambda>p. gfm_client_removexattr_request p xmlMode name)
     (if xmlMode then GFM_PROTO_XMLATTR_REMOVE else GFM_PROTO_XATTR_REMOVE) ''s'' [Arg_ptr name]"
| "gfm_protocol (\<lambda>p. gfm_client_reopen_request p)
     GFM_PROTO_REOPEN '''' []"
| "gfm_protocol (\<lambda>p. gfm_client_close_read_request p atime_sec atime_nsec)
     GFM_PROTO_CLOSE_READ ''li'' [Arg_int64 atime_sec, Arg_int atime_nsec]"
| "gfm_protocol (\<lambda>p. gfm_client_close_write_request p sz atime_sec atime_nsec mtime_sec mtime_nsec)
     GFM_PROTO_CLOSE_WRITE ''llili'' [Arg_int64 sz, Arg_int64 atime_sec, Arg_int atime_nsec, Arg_int64 mtime_sec, Arg_int mtime_nsec]"
| "gfm_protocol (\<lambda>p. gfm_client_lock_request p start len type whence)
     GFM_PROTO_LOCK ''llii'' [Arg_int64 start, Arg_int64 len, Arg_int type, Arg_int whence]"
| "gfm_protocol (\<lambda>p. gfm_client_trylock_request p start len type whence)
     GFM_PROTO_TRYLOCK ''llii'' [Arg_int64 start, Arg_int64 len, Arg_int type, Arg_int whence]"
| "gfm_protocol (\<lambda>p. gfm_client_unlock_request p start len type whence)
     GFM_PROTO_UNLOCK ''llii'' [Arg_int64 start, Arg_int64 len, Arg_int type, Arg_int whence]"
| "gfm_protocol (\<lambda>p. gfm_client_lock_info_request p start len type whence)
     GFM_PROTO_LOCK_INFO ''llii'' [Arg_int64 start, Arg_int64 len, Arg_int type, Arg_int whence]"
| "gfm_protocol (\<lambda>p. gfm_client_replica_list_by_name_request p)
     GFM_PROTO_REPLICA_LIST_BY_NAME '''' []"
| "c_string host \<Longrightarrow> 
     gfm_protocol (\<lambda>p. gfm_client_replica_list_by_host_request p host port)
     GFM_PROTO_REPLICA_LIST_BY_HOST ''si'' [Arg_ptr host, Arg_int port]"
| "c_string host \<Longrightarrow> 
     gfm_protocol (\<lambda>p. gfm_client_replica_remove_by_host_request p host port)
     GFM_PROTO_REPLICA_REMOVE_BY_HOST ''si'' [Arg_ptr host, Arg_int port]"
| "c_string host \<Longrightarrow> 
     gfm_protocol (\<lambda>p. gfm_client_replica_remove_by_file_request p host)
     GFM_PROTO_REPLICA_REMOVE_BY_FILE ''s'' [Arg_ptr host]"
| "c_string src_host \<Longrightarrow> 
     gfm_protocol (\<lambda>p. gfm_client_replica_adding_request p src_host)
     GFM_PROTO_REPLICA_ADDING ''s'' [Arg_ptr src_host]"
| "gfm_protocol (\<lambda>p. gfm_client_replica_added_request p flags mtime_sec mtime_nsec)
     GFM_PROTO_REPLICA_ADDED ''ili'' [Arg_int flags, Arg_int64 mtime_sec, Arg_int mtime_nsec]"
| "gfm_protocol (\<lambda>p. gfm_client_replica_added2_request p flags mtime_sec mtime_nsec sz)
     GFM_PROTO_REPLICA_ADDED2 ''ilil'' [Arg_int flags, Arg_int64 mtime_sec, Arg_int mtime_nsec, Arg_int64 sz]"
| "gfm_protocol (\<lambda>p. gfm_client_replica_remove_request p inum gen)
     GFM_PROTO_REPLICA_REMOVE ''ll'' [Arg_int64 inum, Arg_int64 gen]"
| "gfm_protocol (\<lambda>p. gfm_client_replica_add_request p inum gen sz)
     GFM_PROTO_REPLICA_ADD ''lll'' [Arg_int64 inum, Arg_int64 gen, Arg_int64 sz]"
| "c_string (xc_expr ctx) \<Longrightarrow> xc_cookie_path ctx = None \<Longrightarrow>
     gfm_protocol (\<lambda>p. gfm_client_findxmlattr_request p ctx) GFM_PROTO_XMLATTR_FIND ''siiss''
     [Arg_ptr (xc_expr ctx), Arg_int (xc_depth ctx), Arg_int (xc_nalloc ctx), Arg_ptr [0], Arg_ptr [0]]"
| "c_string (xc_expr ctx) \<Longrightarrow> xc_cookie_path ctx = Some path \<Longrightarrow> c_string path \<Longrightarrow>
     xc_cookie_attrname ctx = Some attrname \<Longrightarrow> c_string attrname \<Longrightarrow>
     gfm_protocol (\<lambda>p. gfm_client_findxmlattr_request p ctx) GFM_PROTO_XMLATTR_FIND ''siiss''
     [Arg_ptr (xc_expr ctx), Arg_int (xc_depth ctx), Arg_int (xc_nalloc ctx), Arg_ptr path,
      Arg_ptr attrname]"

definition gfm_formats :: "(int \<times> string) list" where
  "gfm_formats =
    [(GFM_PROTO_COMPOUND_BEGIN, ''''), (GFM_PROTO_COMPOUND_END, ''''),
     (GFM_PROTO_COMPOUND_ON_ERROR, ''i''), (GFM_PROTO_GET_FD, ''''), (GFM_PROTO_PUT_FD, ''i''),
     (GFM_PROTO_SAVE_FD, ''''), (GFM_PROTO_RESTORE_FD, ''''), (GFM_PROTO_CREATE, ''sii''),
     (GFM_PROTO_OPEN, ''Si''), (GFM_PROTO_OPEN_ROOT, ''i''), (GFM_PROTO_OPEN_PARENT, ''i''),
     (GFM_PROTO_CLOSE, ''''), (GFM_PROTO_VERIFY_TYPE, ''i''), (GFM_PROTO_VERIFY_TYPE_NOT, ''i''),
     (GFM_PROTO_BEQUEATH_FD, ''''), (GFM_PROTO_INHERIT_FD, ''i''), (GFM_PROTO_FSTAT, ''''),
     (GFM_PROTO_FUTIMES, ''lili''), (GFM_PROTO_FCHMOD, ''i''), (GFM_PROTO_FCHOWN, ''ss''),
     (GFM_PROTO_CKSUM_GET, ''''), (GFM_PROTO_CKSUM_SET, ''sbili''),
     (GFM_PROTO_SCHEDULE_FILE, ''s''), (GFM_PROTO_SCHEDULE_FILE_WITH_PROGRAM, ''s''),
     (GFM_PROTO_REMOVE, ''s''), (GFM_PROTO_RENAME, ''ss''), (GFM_PROTO_FLINK, ''s''),
     (GFM_PROTO_MKDIR, ''si''), (GFM_PROTO_SYMLINK, ''ss''), (GFM_PROTO_READLINK, ''''),
     (GFM_PROTO_GETDIRPATH, ''''), (GFM_PROTO_GETDIRENTS, ''i''),
     (GFM_PROTO_GETDIRENTSPLUS, ''i''), (GFM_PROTO_SEEK, ''li''),
     (GFM_PROTO_XMLATTR_SET, ''sbi''), (GFM_PROTO_XATTR_SET, ''sbi''),
     (GFM_PROTO_XMLATTR_GET, ''s''), (GFM_PROTO_XATTR_GET, ''s''),
     (GFM_PROTO_XMLATTR_LIST, ''''), (GFM_PROTO_XATTR_LIST, ''''),
     (GFM_PROTO_XMLATTR_REMOVE, ''s''), (GFM_PROTO_XATTR_REMOVE, ''s''),
     (GFM_PROTO_REOPEN, ''''), (GFM_PROTO_CLOSE_READ, ''li''),
     (GFM_PROTO_CLOSE_WRITE, ''llili''), (GFM_PROTO_LOCK, ''llii''),
     (GFM_PROTO_TRYLOCK, ''llii''), (GFM_PROTO_UNLOCK, ''llii''),
     (GFM_PROTO_LOCK_INFO, ''llii''), (GFM_PROTO_REPLICA_LIST_BY_NAME, ''''),
     (GFM_PROTO_REPLICA_LIST_BY_HOST, ''si''), (GFM_PROTO_REPLICA_REMOVE_BY_HOST, ''si''),
     (GFM_PROTO_REPLICA_REMOVE_BY_FILE, ''s''), (GFM_PROTO_REPLICA_ADDING, ''s''),
     (GFM_PROTO_REPLICA_ADDED, ''ili''), (GFM_PROTO_REPLICA_ADDED2, ''ilil''),
     (GFM_PROTO_REPLICA_REMOVE, ''ll''), (GFM_PROTO_REPLICA_ADD, ''lll''),
     (GFM_PROTO_XMLATTR_FIND, ''siiss'')]"

subsection \<open>Messages that fit their format\<close>

definition fits :: "string \<Rightarrow> xdr_arg list \<Rightarrow> u64 list \<Rightarrow> bool" where
  "fits fmt args szs \<longleftrightarrow> xdr_encode fmt args \<noteq> None \<and> xdr_decoded fmt args szs \<noteq> None"

lemma fits_Nil [simp]: "fits [] [] []"
  by (simp add: fits_def)

lemma fits_i [simp]: "fits (CHR ''i'' # fmt) (Arg_int x # args) szs = fits fmt args szs"
  by (auto simp: fits_def xdr_chunks.simps xdr_value_def)

lemma fits_l [simp]: "fits (CHR ''l'' # fmt) (Arg_int64 x # args) szs = fits fmt args szs"
  by (auto simp: fits_def xdr_chunks.simps xdr_value_def)

lemma length_take_while: "length (takeWhile P xs) \<le> length xs"
  by (induction xs) auto

lemma fits_s [simp]:
  "c_string s \<Longrightarrow> fits (CHR ''s'' # fmt) (Arg_ptr s # args) szs = fits fmt args szs"
  by (auto simp: fits_def xdr_chunks.simps xdr_value_def c_string_def block_chunk_of_nat
      length_take_while)

lemma sized_chunk: "sized z s \<Longrightarrow> block_chunk (ucast z) s \<noteq> None"
  using block_chunk_of_nat [of "unat z" s] by (simp only: sized_def ucast_of_nat) auto

lemma fits_S [simp]:
  "sized z s \<Longrightarrow> fits (CHR ''S'' # fmt) (Arg_ptr s # Arg_size z # args) szs = fits fmt args szs"
  using sized_chunk [of z s]
  by (auto simp: fits_def xdr_chunks.simps xdr_value_def sized_def split: option.splits)

lemma fits_b [simp]:
  "sized z s \<Longrightarrow> unat sz < 2 ^ 31 \<Longrightarrow>
     fits (CHR ''b'' # fmt) (Arg_size z # Arg_ptr s # args) (sz # szs) = fits fmt args szs"
  using sized_chunk [of z s]
  by (auto simp: fits_def xdr_chunks.simps xdr_value_def sized_def split: option.splits)

text \<open>Sizes of a receiver that takes every block whole.\<close>

definition block_sizes :: "string \<Rightarrow> u64 list" where
  "block_sizes fmt = map (\<lambda>_. 0x7FFFFFFF) (filter (\<lambda>c. c = CHR ''b'') fmt)"

lemma block_sizes_simps [simp]:
  "block_sizes [] = []"
  "block_sizes (c # fmt) = (if c = CHR ''b'' then 0x7FFFFFFF # block_sizes fmt else block_sizes fmt)"
  by (simp_all add: block_sizes_def)

lemma c_string_empty [simp]: "c_string [0]"
  by (simp add: c_string_def)

lemma message_fits: "gfm_protocol call command fmt args \<Longrightarrow> fits fmt args (block_sizes fmt)"
  by (induction rule: gfm_protocol.induct) simp_all

lemma message_format:
  "gfm_protocol call command fmt args \<Longrightarrow>
     map_of gfm_formats command = Some fmt \<and> 0 \<le> command \<and> command < 2 ^ 31"
  by (induction rule: gfm_protocol.induct) (simp_all add: gfm_formats_def)

lemmas gfm_request_defs =
  gfm_client_compound_begin_request_def gfm_client_compound_end_request_def
  gfm_client_compound_on_error_request_def gfm_client_get_fd_request_def
  gfm_client_put_fd_request_def gfm_client_save_fd_request_def gfm_client_restore_fd_request_def
  gfm_client_create_request_def gfm_client_open_request_def gfm_client_open_root_request_def
  gfm_client_open_parernt_request_def gfm_client_close_request_def
  gfm_client_verify_type_request_def gfm_client_verify_type_not_request_def
  gfm_client_bequeath_fd_request_def gfm_client_inherit_fd_request_def
  gfm_client_fstat_request_def gfm_client_futimes_request_def gfm_client_fchmod_request_def
  gfm_client_fchown_request_def gfm_client_cksum_get_request_def gfm_client_cksum_set_request_def
  gfm_client_schedule_file_request_def gfm_client_schedule_file_with_program_request_def
  gfm_client_remove_request_def gfm_client_rename_request_def gfm_client_flink_request_def
  gfm_client_mkdir_request_def gfm_client_symlink_request_def gfm_client_readlink_request_def
  gfm_client_getdirpath_request_def gfm_client_getdirents_request_def
  gfm_client_getdirentsplus_request_def gfm_client_seek_request_def
  gfm_client_setxattr_request_def gfm_client_getxattr_request_def
  gfm_client_listxattr_request_def gfm_client_removexattr_request_def
  gfm_client_reopen_request_def gfm_client_close_read_request_def
  gfm_client_close_write_request_def gfm_client_lock_request_def gfm_client_trylock_request_def
  gfm_client_unlock_request_def gfm_client_lock_info_request_def
  gfm_client_replica_list_by_name_request_def gfm_client_replica_list_by_host_request_def
  gfm_client_replica_remove_by_host_request_def gfm_client_replica_remove_by_file_request_def
  gfm_client_replica_adding_request_def gfm_client_replica_added_request_def
  gfm_client_replica_added2_request_def gfm_client_replica_remove_request_def
  gfm_client_replica_add_request_def gfm_client_findxmlattr_request_def

lemma protocol_call:
  "gfm_protocol call command fmt args \<Longrightarrow> call p = gfm_client_rpc_request p command fmt args"
  by (induction rule: gfm_protocol.induct) (simp_all add: gfm_request_defs)

subsection \<open>Messages told apart\<close>

text \<open>Receiving is a function of the bytes, so two messages of one format that begin alike agree.\<close>

lemma encode_determines:
  assumes "xdr_encode fmt args = Some bs" and "xdr_decoded fmt args szs = Some vals"
    and "xdr_encode fmt args' = Some bs'" and "xdr_decoded fmt args' szs = Some vals'"
    and "bs @ later = bs' @ later'"
  shows "vals = vals' \<and> later = later'"
proof -
  let ?w = "peer_world (bs @ later)"
  have r: "socket_receiver sample_conn ?w" "stream fw_in sample_conn ?w = bs @ later"
    using sample_conn_ok peer_world_calm by (simp_all add: peer_world_def)
  have r': "stream fw_in sample_conn ?w = bs' @ later'" using r(2) assms(5) by simp
  have mal: "malloc_generous (\<lambda>_. True)" by (simp add: malloc_generous_def)
  from bkr.recv_spec [OF assms(1,2) r mal, of False] bkr.recv_spec [OF assms(3,4) r(1) r' mal, of False]
  show ?thesis by auto
qed

lemma command_determines:
  assumes "command_bytes c @ later = command_bytes c' @ later'"
    and "0 \<le> c" "c < 2 ^ 31" "0 \<le> c'" "c' < 2 ^ 31"
  shows "c = c' \<and> later = later'"
proof -
  have en: "xdr_encode ''i'' [Arg_int x] = Some (command_bytes x)" for x
    by (simp add: xdr_chunks.simps command_bytes_def)
  have de: "xdr_decoded ''i'' [Arg_int x] [] = Some [Val_int32 (word_of_int x)]" for x
    by (simp add: xdr_value_def)
  from encode_determines [OF en de en de assms(1)] have
    w: "(word_of_int c :: u32) = word_of_int c'" "later = later'" by simp_all
  have "sint (word_of_int x :: u32) = x" if "0 \<le> x" "x < 2 ^ 31" for x
    using that by (simp add: signed_of_int signed_take_bit_int_eq_self)
  with w assms(2-5) show ?thesis by metis
qed

text \<open>The bytes of a message, and what a server makes of them after the command.\<close>

definition gfm_wire :: "int \<Rightarrow> string \<Rightarrow> xdr_arg list \<Rightarrow> byte list" where
  "gfm_wire command fmt args =
     command_bytes command @ (case xdr_encode fmt args of None \<Rightarrow> [] | Some bs \<Rightarrow> bs)"

definition gfm_values :: "string \<Rightarrow> xdr_arg list \<Rightarrow> xdr_val list option" where
  "gfm_values fmt args = xdr_decoded fmt args (block_sizes fmt)"

lemma wire_determines:
  assumes "gfm_protocol f c fmt args" and "gfm_protocol f' c' fmt' args'"
    and "gfm_wire c fmt args @ later = gfm_wire c' fmt' args' @ later'"
  shows "c = c' \<and> fmt = fmt' \<and> gfm_values fmt args = gfm_values fmt' args' \<and> later = later'"
proof -
  note f = message_format [OF assms(1)] and f' = message_format [OF assms(2)]
  obtain bs vals bs' vals' where
    e: "xdr_encode fmt args = Some bs" "xdr_decoded fmt args (block_sizes fmt) = Some vals"
      "xdr_encode fmt' args' = Some bs'" "xdr_decoded fmt' args' (block_sizes fmt') = Some vals'"
    using message_fits [OF assms(1)] message_fits [OF assms(2)] by (auto simp: fits_def)
  from assms(3) e have "command_bytes c @ bs @ later = command_bytes c' @ bs' @ later'"
    by (simp add: gfm_wire_def)
  from command_determines [OF this] f f' have c: "c = c'" "bs @ later = bs' @ later'" by auto
  with f f' have "fmt = fmt'" by simp
  with encode_determines [OF e(1,2) _ _ c(2)] e c show ?thesis by (simp add: gfm_values_def)
qed

lemma protocol_ready:
  assumes "gfm_ready p s" and "gfm_protocol call command fmt args"
  shows "\<exists>s'. call p s = Some (Inr (), s') \<and> gfm_ready p s' \<and> gfm_same p s s'
    \<and> gfm_outgoing p s' = gfm_outgoing p s @ gfm_wire command fmt args
    \<and> gfm_incoming p s' = gfm_incoming p s"
proof -
  obtain bs where e: "xdr_encode fmt args = Some bs"
    using message_fits [OF assms(2)] by (auto simp: fits_def)
  from gfm_request_ready [OF assms(1) e, of command] show ?thesis
    unfolding protocol_call [OF assms(2)] using e by (simp add: gfm_wire_def)
qed

end
