(* ===== verification/Gfm_Exchange.thy ===== *)
theory Gfm_Exchange
  imports Gfm_Requests
begin

text \<open>
  Whole calls of the metadata client: a remote procedure call and what it does to the cache when
  the server has gone, a compound request on a descriptor, the repeated attempts to connect, and
  calls that go wrong.
\<close>

subsection \<open>Connections that fail\<close>

lemma store_conn_any:
  assumes "cache_inv (gfm_server_cache s) xs" and "gfm_server_at s p = Some g"
  shows "cache_inv (gfm_server_cache (gfm_store_conn p conn w s)) xs"
    and "gfm_same p s (gfm_store_conn p conn w s)"
  using set_data_inv [OF assms(1), of p "Some (g\<lparr>gfm_conn := conn\<rparr>)"] assms(2)
  by (simp_all add: gfm_store_conn_def gfm_store_def gfm_same_def gfp_cached_connection_set_data_def)

lemma gfm_same_valid:
  "gfm_same p s s' \<Longrightarrow> gfm_client_is_connection_valid s' q = gfm_client_is_connection_valid s q"
  by (simp add: gfm_same_def Let_def gfm_client_is_connection_valid_def gfp_is_cached_connection_def)

text \<open>What a connection error does: the connection leaves the cache, but is still in use.\<close>

definition gfm_lost :: "nat \<Rightarrow> 'w gfm_state \<Rightarrow> 'w gfm_state \<Rightarrow> bool" where
  "gfm_lost p s s' \<longleftrightarrow> \<not> gfm_client_is_connection_valid s' p \<and> in_use (gfm_server_cache s') p
     \<and> (\<exists>ys. cache_inv (gfm_server_cache s') ys)
     \<and> allocated (gfm_server_cache s') = allocated (gfm_server_cache s)
     \<and> refs (lru_list (gfm_server_cache s')) = refs (lru_list (gfm_server_cache s))
     \<and> (\<forall>q \<in> allocated (gfm_server_cache s). q \<noteq> p \<longrightarrow>
          gfm_client_is_connection_valid s' q = gfm_client_is_connection_valid s q)"

lemma purge_lost:
  assumes inv: "cache_inv (gfm_server_cache s) xs" and p: "in_use (gfm_server_cache s) p"
  shows "\<exists>s'. gfm_client_purge_from_cache p s = Some s' \<and> gfm_lost p s s'"
proof -
  have pa: "p \<in> allocated (gfm_server_cache s)" "0 < refs (lru_list (gfm_server_cache s)) p"
    using p by (simp_all add: in_use_refs)
  from purge_from_cache_spec [OF inv pa] obtain c where
    c: "gfp_cached_connection_purge_from_cache (gfm_server_cache s) p = Some c"
      "cache_inv c (remove1 p xs)" "allocated c = allocated (gfm_server_cache s)"
      "refs (lru_list c) = refs (lru_list (gfm_server_cache s))" by blast
  have "p \<notin> set (remove1 p xs)" using cache_invD(8) [OF inv] by simp
  moreover have "q \<in> set (remove1 p xs) \<longleftrightarrow> q \<in> set xs" if "q \<noteq> p" for q
    using that cache_invD(8) [OF inv] by simp
  ultimately have "gfm_lost p s (s\<lparr>gfm_server_cache := c\<rparr>)"
    using c p cached_iff [OF inv] cached_iff [OF c(2)]
    by (auto simp: gfm_lost_def gfm_client_is_connection_valid_def in_use_refs)
  with c(1) show ?thesis by (auto simp: gfm_client_purge_from_cache_def)
qed

lemma gfm_lost_same: "gfm_same p a b \<Longrightarrow> gfm_lost p b c \<Longrightarrow> gfm_lost p a c"
  unfolding gfm_lost_def using gfm_same_valid [of p a b]
  by (auto simp: gfm_same_def Let_def)

lemma rpc_end_lost:
  assumes "cache_inv (gfm_server_cache s) xs" and "in_use (gfm_server_cache s) p"
    and "gfm_server_at s p = Some g" and "rpc_error r = e" and "IS_CONNECTION_ERROR e"
  shows "\<exists>s'. gfm_rpc_end p r s = Some (Inl e, s') \<and> gfm_lost p s s'"
proof -
  let ?s = "gfm_store_conn p (rpc_conn r) (rpc_world r) s"
  note st = store_conn_any [OF assms(1,3), of "rpc_conn r" "rpc_world r"]
  have "in_use (gfm_server_cache ?s) p" using gfm_same_in_use [OF st(2)] assms(2) by simp
  from purge_lost [OF st(1) this] obtain s' where
    s': "gfm_client_purge_from_cache p ?s = Some s'" "gfm_lost p ?s s'" by blast
  have "e \<noteq> GFARM_ERR_NO_ERROR" using assms(5) by (auto simp: IS_CONNECTION_ERROR_def)
  with s' assms(4,5) gfm_lost_same [OF st(2) s'(2)] show ?thesis
    by (simp add: gfm_rpc_end_def call_bind_def gfm_outcome_def gfm_purge_on_error_def call_fail_def)
qed

lemma eof_is_connection_error [simp]: "IS_CONNECTION_ERROR GFARM_ERR_UNEXPECTED_EOF"
  by (simp add: IS_CONNECTION_ERROR_def)

lemma gfm_rpc_lost:
  assumes "gfm_ready p s" and "xdr_encode fmt args = Some req" and "length (gfm_incoming p s) < 4"
  shows "\<exists>s'. gfm_client_rpc mal p just command (fmt @ CHR ''/'' # rfmt) args szs s
      = Some (Inl GFARM_ERR_UNEXPECTED_EOF, s') \<and> gfm_lost p s s'"
proof -
  from gfm_ready_conn [OF assms(1)] obtain g where
    g: "gfm_server_at s p = Some g" "xdr_ready (gfm_conn g) (gfm_world s)"
      "gfm_incoming p s = from_peer (gfm_conn g) (gfm_world s)" by blast
  from used_ready [OF assms(1)] obtain s1 where
    1: "gfm_client_connection_used p s = Some s1" "gfm_ready p s1" "gfm_same p s s1"
      "gfm_server_at s1 p = Some g" "gfm_world s1 = gfm_world s" using g(1) by auto
  from vrpc_eof [OF g(2) assms(2)] g(3) assms(3) obtain r where
    r: "gfp_xdr_vrpc mal (gfm_conn g) just command (fmt @ CHR ''/'' # rfmt) args szs (gfm_world s) = Some r"
      "rpc_error r = GFARM_ERR_UNEXPECTED_EOF" by metis
  obtain xs where "cache_inv (gfm_server_cache s1) xs" "in_use (gfm_server_cache s1) p"
    using 1(2) by (auto simp: gfm_ready_def)
  from rpc_end_lost [OF this 1(4) r(2)] obtain s' where
    e: "gfm_rpc_end p r s1 = Some (Inl GFARM_ERR_UNEXPECTED_EOF, s')" "gfm_lost p s1 s'" by auto
  have "gfm_client_rpc mal p just command (fmt @ CHR ''/'' # rfmt) args szs s = gfm_rpc_end p r s1"
    using 1(1,4,5) r(1) by (simp add: gfm_client_rpc_def)
  with e(1) gfm_lost_same [OF 1(3) e(2)] show ?thesis by auto
qed

subsection \<open>A state to start from\<close>

lemma ready_state:
  "\<exists>s. gfm_ready 5 s \<and> gfm_client_is_connection_valid s 5 \<and> gfm_incoming 5 s = bs
     \<and> gfm_outgoing 5 s = []"
proof -
  obtain c1 :: "fd_world gfm_connection conn_cache" and ys where i1: "cache_inv c1 ys" "in_use c1 5"
    "\<exists>k. cc_hash_entry (cconns c1 5) = Some k"
    using one_entry by blast
  define s where "s = \<lparr>gfm_server_cache = gfp_cached_connection_set_data c1 5
      (Some \<lparr>gfm_conn = sample_conn, gfm_auth_method = 0, gfm_pid = 0, gfm_pid_key = []\<rparr>),
      gfm_world = peer_world bs\<rparr>"
  have at: "gfm_server_at s 5 = Some \<lparr>gfm_conn = sample_conn, gfm_auth_method = 0, gfm_pid = 0, gfm_pid_key = []\<rparr>"
    by (simp add: s_def gfm_server_at_def gfp_cached_connection_get_data_def gfp_cached_connection_set_data_def)
  note x = new_socket_ready [OF sample_conn_new peer_world_calm, of bs]
  have "gfm_ready 5 s"
    using set_data_inv [OF i1(1)] at x i1(2)
    by (auto simp: gfm_ready_def s_def in_use_def gfp_cached_connection_set_data_def)
  moreover have "gfm_client_is_connection_valid s 5"
    using i1(3) by (auto simp: s_def gfm_client_is_connection_valid_def gfp_is_cached_connection_def
        gfp_cached_connection_set_data_def)
  moreover have "gfm_incoming 5 s = bs" "gfm_outgoing 5 s = []"
    using at x by (simp_all add: gfm_incoming_def gfm_outgoing_def s_def peer_world_def)
  ultimately show ?thesis by blast
qed

subsection \<open>Compound requests\<close>

text \<open>The replies to the four requests of a compound: none follow the first error number.\<close>

definition compound_replies :: "u32 \<Rightarrow> u32 \<Rightarrow> u32 \<Rightarrow> u32 \<Rightarrow> byte list \<Rightarrow> byte list" where
  "compound_replies b f x e bs =
     reply_bytes b [] @ (if b \<noteq> 0 then [] else
     reply_bytes f [] @ (if f \<noteq> 0 then [] else
     reply_bytes x bs @ (if x \<noteq> 0 then [] else reply_bytes e [])))"

definition first_error :: "u32 list \<Rightarrow> u32" where
  "first_error xs = (case filter (\<lambda>x. x \<noteq> 0) xs of [] \<Rightarrow> 0 | x # _ \<Rightarrow> x)"

lemma bind_ok: "f s = Some (Inr v, s') \<Longrightarrow> call_bind f g s = g v s'"
  by (simp add: call_bind_def)

lemma bind_error: "f s = Some (Inl e, s') \<Longrightarrow> call_bind f g s = Some (Inl e, s')"
  by (simp add: call_bind_def)

text \<open>A result without values, in front of any continuation.\<close>

lemma plain_result:
  assumes "gfm_ready p s" and "malloc_generous mal" and "gfm_incoming p s = reply_bytes x [] @ later"
  shows "\<exists>s'. gfm_client_rpc_result mal p just '''' [] s = Some (if x = 0 then Inr [] else Inl (sint x), s')
    \<and> gfm_ready p s' \<and> gfm_same p s s' \<and> gfm_outgoing p s' = gfm_outgoing p s
    \<and> fw_out (gfm_world s') = gfm_outgoing p s \<and> gfm_incoming p s' = later"
  using gfm_result_ready [OF assms(1,2) _ _ assms(3), of "[]" "[]" "[]" "[]" just] by simp

definition compound_outcome ::
  "u32 list \<Rightarrow> 'a \<Rightarrow> ('a \<Rightarrow> 'w gfm_state \<Rightarrow> 'w gfm_state) option \<Rightarrow> 'w gfm_state
     \<Rightarrow> (gfarm_error_t + 'a) \<times> 'w gfm_state" where
  "compound_outcome xs v cleanup_op s =
     (if first_error xs = 0 then (Inr v, s)
      else (Inl (sint (first_error xs)),
            if first_error (butlast xs) = 0
            then (case cleanup_op of None \<Rightarrow> s | Some cleanup \<Rightarrow> cleanup v s) else s))"

lemma compound_results:
  assumes "gfm_ready p s" and "malloc_generous mal"
    and "xdr_encode rfmt rargs = Some bs" and "xdr_decoded rfmt rargs szs = Some vals"
    and "gfm_incoming p s = compound_replies b f x e bs @ later"
  shows "\<exists>s'. call_bind (gfm_client_compound_begin_result mal p)
       (\<lambda>_. call_bind (gfm_client_put_fd_result mal p)
       (\<lambda>_. call_bind (gfm_client_rpc_result mal p just (map recv_char rfmt) szs)
       (\<lambda>v. call_bind (call_try (gfm_client_compound_end_result mal p))
       (\<lambda>r s. case r of
                Inl e \<Rightarrow> call_fail e (case cleanup_op of None \<Rightarrow> s | Some cleanup \<Rightarrow> cleanup v s)
              | Inr _ \<Rightarrow> call_return v s)))) s
     = Some (compound_outcome [b, f, x, e] vals cleanup_op s')
    \<and> gfm_ready p s' \<and> gfm_same p s s' \<and> gfm_outgoing p s' = gfm_outgoing p s
    \<and> fw_out (gfm_world s') = gfm_outgoing p s \<and> gfm_incoming p s' = later"
proof -
  note defs = gfm_client_compound_begin_result_def gfm_client_put_fd_result_def
    gfm_client_compound_end_result_def
  show ?thesis
  proof (cases "b = 0")
    case False
    then have i: "gfm_incoming p s = reply_bytes b [] @ later"
      using assms(5) by (simp add: compound_replies_def)
    from plain_result [OF assms(1,2) i, of False] False obtain s1 where
      1: "gfm_client_rpc_result mal p False '''' [] s = Some (Inl (sint b), s1)" "gfm_ready p s1"
        "gfm_same p s s1" "gfm_outgoing p s1 = gfm_outgoing p s"
        "fw_out (gfm_world s1) = gfm_outgoing p s" "gfm_incoming p s1 = later" by auto
    then show ?thesis using False
      by (intro exI [of _ s1]) (simp add: defs call_bind_def 1(1) compound_outcome_def first_error_def)
  next
    case b: True
    then have i: "gfm_incoming p s = reply_bytes 0 [] @ reply_bytes f [] @ (if f \<noteq> 0 then later else
        reply_bytes x bs @ (if x \<noteq> 0 then later else reply_bytes e [] @ later))"
      using assms(5) by (simp add: compound_replies_def)
    from plain_result [OF assms(1,2) i, of False] obtain s1 where
      1: "gfm_client_rpc_result mal p False '''' [] s = Some (Inr [], s1)" "gfm_ready p s1" "gfm_same p s s1"
        "gfm_outgoing p s1 = gfm_outgoing p s"
        "gfm_incoming p s1 = reply_bytes f [] @ (if f \<noteq> 0 then later else
          reply_bytes x bs @ (if x \<noteq> 0 then later else reply_bytes e [] @ later))" by auto
    from plain_result [OF 1(2) assms(2) 1(5), of False] obtain s2 where
      2: "gfm_client_rpc_result mal p False '''' [] s1 = Some (if f = 0 then Inr [] else Inl (sint f), s2)"
        "gfm_ready p s2" "gfm_same p s1 s2" "gfm_outgoing p s2 = gfm_outgoing p s"
        "fw_out (gfm_world s2) = gfm_outgoing p s"
        "gfm_incoming p s2 = (if f \<noteq> 0 then later else
          reply_bytes x bs @ (if x \<noteq> 0 then later else reply_bytes e [] @ later))" using 1(4) by auto
    show ?thesis
    proof (cases "f = 0")
      case False
      with 2(1) have e2: "gfm_client_rpc_result mal p False '''' [] s1 = Some (Inl (sint f), s2)" by simp
      show ?thesis using False 2 b gfm_same_trans [OF 1(3) 2(3)]
        by (intro exI [of _ s2]) (simp add: defs call_bind_def 1(1) e2
            compound_outcome_def first_error_def)
    next
      case f: True
      with 2(6) have i3: "gfm_incoming p s2 = reply_bytes x bs @ (if x \<noteq> 0 then later else reply_bytes e [] @ later)"
        by simp
      from gfm_result_ready [OF 2(2) assms(2-4) i3, of just] 2(4) obtain s3 where
        3: "gfm_client_rpc_result mal p just (map recv_char rfmt) szs s2
            = Some (if x = 0 then Inr vals else Inl (sint x), s3)"
          "gfm_ready p s3" "gfm_same p s2 s3" "gfm_outgoing p s3 = gfm_outgoing p s"
          "fw_out (gfm_world s3) = gfm_outgoing p s"
          "gfm_incoming p s3 = (if x \<noteq> 0 then later else reply_bytes e [] @ later)" by auto
      note same3 = gfm_same_trans [OF gfm_same_trans [OF 1(3) 2(3)] 3(3)]
      have r2: "gfm_client_rpc_result mal p False '''' [] s1 = Some (Inr [], s2)" using 2(1) f by simp
      show ?thesis
      proof (cases "x = 0")
        case False
        with 3(1) have e3: "gfm_client_rpc_result mal p just (map recv_char rfmt) szs s2
            = Some (Inl (sint x), s3)" by simp
        show ?thesis using False 3 b f same3
          by (intro exI [of _ s3]) (simp add: defs call_bind_def 1(1) r2 e3
              compound_outcome_def first_error_def)
      next
        case x: True
        with 3(6) have i4: "gfm_incoming p s3 = reply_bytes e [] @ later" by simp
        from plain_result [OF 3(2) assms(2) i4, of False] 3(4) obtain s4 where
          4: "gfm_client_rpc_result mal p False '''' [] s3 = Some (if e = 0 then Inr [] else Inl (sint e), s4)"
            "gfm_ready p s4" "gfm_same p s3 s4" "gfm_outgoing p s4 = gfm_outgoing p s"
            "fw_out (gfm_world s4) = gfm_outgoing p s" "gfm_incoming p s4 = later" by auto
        have r3: "gfm_client_rpc_result mal p just (map recv_char rfmt) szs s2 = Some (Inr vals, s3)"
          using 3(1) x by simp
        have "call_try (gfm_client_rpc_result mal p False '''' []) s3
            = Some (Inr (if e = 0 then Inr [] else Inl (sint e)), s4)"
          using 4(1) by (simp add: call_try_def)
        from this 4 b f x gfm_same_trans [OF same3 4(3)] show ?thesis
          by (intro exI [of _ s4])
            (simp add: defs call_bind_def 1(1) r2 r3 compound_outcome_def
              first_error_def call_fail_def call_return_def)
      qed
    qed
  qed
qed

subsection \<open>Repeated attempts to connect\<close>

text \<open>The specification: one attempt after each of the pauses, until one does not fail that way.\<close>

fun gfm_retries ::
  "('w, unit) gfm_call \<Rightarrow> (u32 \<Rightarrow> 'w \<Rightarrow> 'w) \<Rightarrow> u32 list \<Rightarrow> gfarm_error_t + unit \<Rightarrow> 'w gfm_state
     \<Rightarrow> ((gfarm_error_t + unit) \<times> 'w gfm_state) option" where
  "gfm_retries connect pause [] r s = Some (r, s)"
| "gfm_retries connect pause (i # is) r s =
     (if \<exists>e. r = Inl e \<and> IS_CONNECTION_ERROR e
      then (case connect (s\<lparr>gfm_world := pause i (gfm_world s)\<rparr>) of
              None \<Rightarrow> None
            | Some (r', s') \<Rightarrow> gfm_retries connect pause is r' s')
      else Some (r, s))"

lemma retry_last:
  "\<not> i < 512 \<Longrightarrow> gfm_connect_retry connect pause i = gfm_retries connect pause [i]"
  by (intro ext, subst gfm_connect_retry.simps) (auto split: sum.splits option.splits)

lemma retry_step:
  assumes "i < 512" and "gfm_connect_retry connect pause (i * 2) = gfm_retries connect pause is"
  shows "gfm_connect_retry connect pause i = gfm_retries connect pause (i # is)"
  by (intro ext, subst gfm_connect_retry.simps) (use assms in \<open>auto split: sum.splits option.splits\<close>)

lemma connect_retry:
  "gfm_connect_retry connect pause 1
     = gfm_retries connect pause [1, 2, 4, 8, 16, 32, 64, 128, 256, 512]"
proof -
  let ?R = "gfm_connect_retry connect pause" and ?S = "gfm_retries connect pause"
  have r512: "?R 512 = ?S [512]" by (rule retry_last) simp
  have r256: "?R 256 = ?S [256, 512]" by (rule retry_step) (simp_all add: r512)
  have r128: "?R 128 = ?S [128, 256, 512]" by (rule retry_step) (simp_all add: r256)
  have r64: "?R 64 = ?S [64, 128, 256, 512]" by (rule retry_step) (simp_all add: r128)
  have r32: "?R 32 = ?S [32, 64, 128, 256, 512]" by (rule retry_step) (simp_all add: r64)
  have r16: "?R 16 = ?S [16, 32, 64, 128, 256, 512]" by (rule retry_step) (simp_all add: r32)
  have r8: "?R 8 = ?S [8, 16, 32, 64, 128, 256, 512]" by (rule retry_step) (simp_all add: r16)
  have r4: "?R 4 = ?S [4, 8, 16, 32, 64, 128, 256, 512]" by (rule retry_step) (simp_all add: r8)
  have r2: "?R 2 = ?S [2, 4, 8, 16, 32, 64, 128, 256, 512]" by (rule retry_step) (simp_all add: r4)
  show ?thesis by (rule retry_step) (simp_all add: r2)
qed

lemma retries_return:
  assumes "\<And>s. connect s \<noteq> None"
  shows "gfm_retries connect pause is r s \<noteq> None"
proof (induction "is" arbitrary: r s)
  case (Cons i "is")
  obtain r' s' where "connect (s\<lparr>gfm_world := pause i (gfm_world s)\<rparr>) = Some (r', s')"
    using assms by (metis not_None_eq surj_pair)
  with Cons show ?case by simp
qed simp

subsection \<open>Calls that go wrong\<close>

lemma recv_raw_eof:
  assumes "gfm_ready p s" and "f \<in> {CHR ''s'', CHR ''i''}" and "length (gfm_incoming p s) < 4"
  shows "\<exists>s'. gfm_recv_raw mal p (f # fmt) szs s = Some (GFARM_ERR_NO_ERROR, True, [], s')
    \<and> gfm_same p s s'"
proof -
  from gfm_ready_conn [OF assms(1)] obtain g where
    g: "gfm_server_at s p = Some g" "xdr_ready (gfm_conn g) (gfm_world s)"
      "gfm_incoming p s = from_peer (gfm_conn g) (gfm_world s)" by blast
  obtain xs where inv: "cache_inv (gfm_server_cache s) xs" using assms(1) by (auto simp: gfm_ready_def)
  from recv_eof [OF g(2) assms(2)] g(3) assms(3) obtain r where
    r: "gfp_xdr_recv mal (gfm_conn g) False (f # fmt) szs (gfm_world s) = Some r"
      "rr_error r = GFARM_ERR_NO_ERROR" "rr_eof r" "rr_vals r = []" by metis
  with g(1) store_conn_any(2) [OF inv g(1), of "rr_conn r" "rr_world r"] show ?thesis
    by (auto simp: gfm_recv_raw_def gfm_purge_on_error_def IS_CONNECTION_ERROR_def)
qed

lemma nhosts_eof:
  assumes "gfm_ready p s" and "0 < n" and "length (gfm_incoming p s) < 4"
  shows "\<exists>s'. gfm_client_get_nhosts mal p n s = Some (Inl GFARM_ERR_PROTOCOL, s') \<and> gfm_same p s s'"
proof -
  obtain k where "nat n = Suc k" using assms(2) by (cases "nat n") auto
  moreover from recv_raw_eof [OF assms(1) _ assms(3), of "CHR ''s''"] obtain s' where
    "gfm_recv_raw mal p ''ssiiii'' [] s = Some (GFARM_ERR_NO_ERROR, True, [], s')" "gfm_same p s s'"
    by blast
  ultimately show ?thesis
    by (simp add: gfm_client_get_nhosts_def call_bind_def gfm_recv_def call_fail_def)
qed

lemma process_free_aborts:
  assumes "gfm_ready p s"
  shows "gfm_client_process_free mal p s = None"
proof -
  from gfm_ready_conn [OF assms] obtain g where
    g: "gfm_server_at s p = Some g" "xdr_ready (gfm_conn g) (gfm_world s)" by blast
  from used_ready [OF assms] obtain s1 where
    1: "gfm_client_connection_used p s = Some s1" "gfm_server_at s1 p = Some g"
      "gfm_world s1 = gfm_world s" using g(1) by auto
  from vrpc_request_ready [OF g(2), of "[]" "[]" "[]" GFM_PROTO_PROCESS_FREE] obtain c w where
    2: "gfp_xdr_vrpc_request (gfm_conn g) GFM_PROTO_PROCESS_FREE [] [] (gfm_world s)
      = Some (c, GFARM_ERR_NO_ERROR, [], [], w)" "xdr_ready c w" by auto
  from flush_ready [OF 2(2)] obtain c' w' where "gfp_xdr_flush c w = Some (c', GFARM_ERR_NO_ERROR, w')"
    by blast
  with 1 2(1) show ?thesis
    by (simp add: gfm_client_process_free_def gfm_client_rpc_def gfp_xdr_vrpc_def)
qed

lemma replica_list_undefined:
  assumes "gfm_ready p s" and "malloc_generous mal"
    and "gfm_incoming p s = reply_bytes 0 (int32_chunk 1) @ later" and "length later < 4"
  shows "gfm_client_replica_list_by_name_result mal p s = None"
proof -
  have "xdr_encode ''i'' [Arg_int 1] = Some (int32_chunk 1)" by (simp add: xdr_chunks.simps)
  moreover have "xdr_decoded ''i'' [Arg_int 1] [] = Some [Val_int32 1]" by (simp add: xdr_value_def)
  ultimately obtain s1 where
    1: "gfm_client_rpc_result mal p False ''i'' [] s = Some (Inr [Val_int32 1], s1)" "gfm_ready p s1"
      "gfm_incoming p s1 = later"
    using gfm_result_ready [OF assms(1,2) _ _ assms(3), of "''i''" "[Arg_int 1]" "[]" "[Val_int32 1]" False]
    by (auto simp: recv_char_def)
  from recv_raw_eof [OF 1(2), of "CHR ''s''" mal "[]" "[]"] 1(3) assms(4) obtain s2 where
    2: "gfm_recv_raw mal p ''s'' [] s1 = Some (GFARM_ERR_NO_ERROR, True, [], s2)" by auto
  have "mal 8" using assms(2) by (simp add: malloc_generous_def)
  then obtain y where "gfarm_malloc_array mal 1 8 = Some y"
    by (simp add: gfarm_malloc_array_def gfarm_size_mul_def)
  with 1(1) 2 show ?thesis
    by (simp add: gfm_client_replica_list_by_name_result_def call_bind_def gfm_with_count_def gfm_count_def
        gfm_malloc_array_def call_return_def freeable_def)
qed

subsection \<open>Properties\<close>

text \<open>C19: a remote procedure call of the metadata client. The server gets exactly the command and the
  arguments behind what was sent before; an error number in its reply is the result, 0 gives the
  values of the reply, and what comes after the reply stays for the next call, while the cache
  keeps every connection. When the server has closed the connection instead, the
  result is \<open>GFARM_ERR_UNEXPECTED_EOF\<close>, this connection leaves the cache, so that nobody is given
  it again, but stays allocated for its users, and no other connection is touched.\<close>

theorem gfm_rpc_exchange:
  assumes "gfm_ready p s" and "malloc_generous mal" and "xdr_encode fmt args = Some req"
    and "xdr_encode rfmt rargs = Some bs" and "xdr_decoded rfmt rargs szs = Some vals"
  defines "format \<equiv> fmt @ ''/'' @ map recv_char rfmt"
  shows "(gfm_incoming p s = reply_bytes x bs @ later \<longrightarrow>
       (\<exists>s'. gfm_client_rpc mal p just command format args szs s
            = Some (if x = 0 then Inr vals else Inl (sint x), s') \<and> gfm_ready p s'
          \<and> fw_out (gfm_world s') = gfm_outgoing p s @ command_bytes command @ req
          \<and> gfm_incoming p s' = later
          \<and> (\<forall>q. gfm_client_is_connection_valid s' q = gfm_client_is_connection_valid s q)))
    \<and> (length (gfm_incoming p s) < 4 \<longrightarrow>
       (\<exists>s'. gfm_client_rpc mal p just command format args szs s
            = Some (Inl GFARM_ERR_UNEXPECTED_EOF, s')
          \<and> \<not> gfm_client_is_connection_valid s' p \<and> in_use (gfm_server_cache s') p
          \<and> (\<forall>q \<in> allocated (gfm_server_cache s). q \<noteq> p \<longrightarrow>
               gfm_client_is_connection_valid s' q = gfm_client_is_connection_valid s q)))"
proof (intro conjI impI)
  assume "gfm_incoming p s = reply_bytes x bs @ later"
  from gfm_rpc_ready [OF assms(1-5) this, of just command] obtain s' where
    "gfm_client_rpc mal p just command format args szs s = Some (if x = 0 then Inr vals else Inl (sint x), s')"
    "gfm_ready p s'" "gfm_same p s s'" "gfm_outgoing p s' = gfm_outgoing p s @ command_bytes command @ req"
    "fw_out (gfm_world s') = gfm_outgoing p s'" "gfm_incoming p s' = later"
    unfolding format_def by auto
  then show "\<exists>s'. gfm_client_rpc mal p just command format args szs s
        = Some (if x = 0 then Inr vals else Inl (sint x), s') \<and> gfm_ready p s'
      \<and> fw_out (gfm_world s') = gfm_outgoing p s @ command_bytes command @ req
      \<and> gfm_incoming p s' = later
      \<and> (\<forall>q. gfm_client_is_connection_valid s' q = gfm_client_is_connection_valid s q)"
    using gfm_same_valid [of p s s'] by (intro exI [of _ s']) (simp (no_asm_simp))
next
  assume "length (gfm_incoming p s) < 4"
  from gfm_rpc_lost [OF assms(1,3) this, of mal just command "map recv_char rfmt" szs] show
    "\<exists>s'. gfm_client_rpc mal p just command format args szs s = Some (Inl GFARM_ERR_UNEXPECTED_EOF, s')
      \<and> \<not> gfm_client_is_connection_valid s' p \<and> in_use (gfm_server_cache s') p
      \<and> (\<forall>q \<in> allocated (gfm_server_cache s). q \<noteq> p \<longrightarrow>
           gfm_client_is_connection_valid s' q = gfm_client_is_connection_valid s q)"
    unfolding format_def gfm_lost_def by auto
qed

text \<open>C20: every request of the client is a message of the protocol. For arguments that are strings and
  blocks as the functions expect them, it succeeds on a ready connection, never meets an argument
  of the wrong type, and puts exactly its message behind what was to be sent; and
  no message can be taken for another one, whatever follows them: messages that begin with
  the same bytes have the same command, the same format and the same values.\<close>

theorem gfm_requests_typed:
  assumes "gfm_ready p s" and "gfm_protocol call command fmt args"
  shows "(\<exists>s'. call p s = Some (Inr (), s') \<and> gfm_ready p s'
      \<and> gfm_outgoing p s' = gfm_outgoing p s @ gfm_wire command fmt args
      \<and> gfm_incoming p s' = gfm_incoming p s)
    \<and> (\<forall>call' command' fmt' args' later later'.
         gfm_protocol (call' :: nat \<Rightarrow> (fd_world, unit) gfm_call) command' fmt' args' \<longrightarrow>
         gfm_wire command fmt args @ later = gfm_wire command' fmt' args' @ later' \<longrightarrow>
         command = command' \<and> fmt = fmt' \<and> gfm_values fmt args = gfm_values fmt' args' \<and> later = later')"
  using protocol_ready [OF assms] wire_determines [OF assms(2)] by blast

text \<open>C21: an operation on a descriptor as one compound. The four requests go out in order, in front of
  any reply; the results are those of the replies, the first error number that the server gives is
  the result and ends the compound, what it has sent after that stays unread, and
  \<open>cleanup_op\<close> runs exactly when the operation has succeeded and the end of the compound has not.\<close>

theorem gfm_compound_exchange:
  assumes "gfm_ready p s" and "malloc_generous mal" and "xdr_encode fmt args = Some req"
    and "xdr_encode rfmt rargs = Some bs" and "xdr_decoded rfmt rargs szs = Some vals"
    and "gfm_incoming p s = compound_replies b f x e bs @ later"
  shows "\<exists>s'. gfm_client_compound_fd_op mal p fd (gfm_client_rpc_request p command fmt args)
        (gfm_client_rpc_result mal p just (map recv_char rfmt) szs) cleanup_op s
      = Some (compound_outcome [b, f, x, e] vals cleanup_op s')
    \<and> fw_out (gfm_world s') = gfm_outgoing p s @ command_bytes GFM_PROTO_COMPOUND_BEGIN
        @ command_bytes GFM_PROTO_PUT_FD @ int32_chunk (word_of_int fd)
        @ command_bytes command @ req @ command_bytes GFM_PROTO_COMPOUND_END
    \<and> gfm_incoming p s' = later \<and> gfm_ready p s'"
proof -
  have nil: "xdr_encode [] [] = Some []" by simp
  have i: "xdr_encode ''i'' [Arg_int fd] = Some (int32_chunk (word_of_int fd))"
    by (simp add: xdr_chunks.simps)
  from gfm_request_ready [OF assms(1) nil, of GFM_PROTO_COMPOUND_BEGIN] obtain s1 where
    1: "gfm_client_compound_begin_request p s = Some (Inr (), s1)" "gfm_ready p s1"
      "gfm_outgoing p s1 = gfm_outgoing p s @ command_bytes GFM_PROTO_COMPOUND_BEGIN"
      "gfm_incoming p s1 = gfm_incoming p s" by (auto simp: gfm_client_compound_begin_request_def)
  from gfm_request_ready [OF 1(2) i, of GFM_PROTO_PUT_FD] obtain s2 where
    2: "gfm_client_put_fd_request p fd s1 = Some (Inr (), s2)" "gfm_ready p s2"
      "gfm_outgoing p s2 = gfm_outgoing p s1 @ command_bytes GFM_PROTO_PUT_FD @ int32_chunk (word_of_int fd)"
      "gfm_incoming p s2 = gfm_incoming p s1" by (auto simp: gfm_client_put_fd_request_def)
  from gfm_request_ready [OF 2(2) assms(3), of command] obtain s3 where
    3: "gfm_client_rpc_request p command fmt args s2 = Some (Inr (), s3)" "gfm_ready p s3"
      "gfm_outgoing p s3 = gfm_outgoing p s2 @ command_bytes command @ req"
      "gfm_incoming p s3 = gfm_incoming p s2" by blast
  from gfm_request_ready [OF 3(2) nil, of GFM_PROTO_COMPOUND_END] obtain s4 where
    4: "gfm_client_compound_end_request p s3 = Some (Inr (), s4)" "gfm_ready p s4"
      "gfm_outgoing p s4 = gfm_outgoing p s3 @ command_bytes GFM_PROTO_COMPOUND_END"
      "gfm_incoming p s4 = gfm_incoming p s3" by (auto simp: gfm_client_compound_end_request_def)
  have "gfm_incoming p s4 = compound_replies b f x e bs @ later"
    using assms(6) 1(4) 2(4) 3(4) 4(4) by simp
  from compound_results [OF 4(2) assms(2,4,5) this, of just cleanup_op] obtain s' where
    r: "call_bind (gfm_client_compound_begin_result mal p)
       (\<lambda>_. call_bind (gfm_client_put_fd_result mal p)
       (\<lambda>_. call_bind (gfm_client_rpc_result mal p just (map recv_char rfmt) szs)
       (\<lambda>v. call_bind (call_try (gfm_client_compound_end_result mal p))
       (\<lambda>r s. case r of
                Inl e \<Rightarrow> call_fail e (case cleanup_op of None \<Rightarrow> s | Some cleanup \<Rightarrow> cleanup v s)
              | Inr _ \<Rightarrow> call_return v s)))) s4
     = Some (compound_outcome [b, f, x, e] vals cleanup_op s')"
    "gfm_ready p s'" "fw_out (gfm_world s') = gfm_outgoing p s4" "gfm_incoming p s' = later" by blast
  have "gfm_client_compound_fd_op mal p fd (gfm_client_rpc_request p command fmt args)
        (gfm_client_rpc_result mal p just (map recv_char rfmt) szs) cleanup_op s
      = Some (compound_outcome [b, f, x, e] vals cleanup_op s')"
    unfolding gfm_client_compound_fd_op_def
    by (simp only: bind_ok [where f = "gfm_client_compound_begin_request p", OF 1(1)]
        bind_ok [where f = "gfm_client_put_fd_request p fd", OF 2(1)]
        bind_ok [where f = "gfm_client_rpc_request p command fmt args", OF 3(1)]
        bind_ok [where f = "gfm_client_compound_end_request p", OF 4(1)] r(1))
  with r(2-4) 1(3) 2(3) 3(3) 4(3) show ?thesis by (intro exI [of _ s']) simp
qed

text \<open>C22: acquiring a connection gives up. The attempts after a connection error are exactly those
  after pauses of 1, 2, 4, up to 512 seconds, so at most eleven altogether, and as long as each
  attempt returns, so does the loop.\<close>

theorem gfm_retry_bounded:
  "gfm_connect_retry connect pause 1 r s
      = gfm_retries connect pause [1, 2, 4, 8, 16, 32, 64, 128, 256, 512] r s
    \<and> ((\<forall>s. connect s \<noteq> None) \<longrightarrow> gfm_connect_retry connect pause 1 r s \<noteq> None)"
  using retries_return [of connect] by (simp add: connect_retry del: gfm_retries.simps)

text \<open>C23: three calls do not do what they should. \<open>gfm_client_process_free\<close> aborts the program on a
  sound connection, since its format has no slash; when the server closes the connection in front of
  a host, the result is a connection error, but the connection stays in the cache and
  will be handed out again; and when it closes it in front of the first name of a replica list, the
  client frees a pointer that was never set.\<close>

theorem gfm_client_faults:
  assumes "gfm_ready p s"
  shows "gfm_client_process_free mal p s = None
    \<and> (0 < n \<and> length (gfm_incoming p s) < 4 \<and> gfm_client_is_connection_valid s p \<longrightarrow>
        (\<exists>s'. gfm_client_get_nhosts mal p n s = Some (Inl GFARM_ERR_PROTOCOL, s')
           \<and> gfm_client_is_connection_error GFARM_ERR_PROTOCOL \<and> gfm_client_is_connection_valid s' p))
    \<and> (malloc_generous mal \<and> length later < 4
        \<and> gfm_incoming p s = reply_bytes 0 (int32_chunk 1) @ later \<longrightarrow>
        gfm_client_replica_list_by_name_result mal p s = None)"
proof (intro conjI impI)
  show "gfm_client_process_free mal p s = None" by (rule process_free_aborts [OF assms])
next
  assume n: "0 < n \<and> length (gfm_incoming p s) < 4 \<and> gfm_client_is_connection_valid s p"
  from n nhosts_eof [OF assms, of n mal] obtain s' where
    "gfm_client_get_nhosts mal p n s = Some (Inl GFARM_ERR_PROTOCOL, s')" "gfm_same p s s'" by blast
  with n gfm_same_valid [of p s s' p]
  show "\<exists>s'. gfm_client_get_nhosts mal p n s = Some (Inl GFARM_ERR_PROTOCOL, s')
      \<and> gfm_client_is_connection_error GFARM_ERR_PROTOCOL \<and> gfm_client_is_connection_valid s' p"
    by (simp add: gfm_client_is_connection_error_def IS_CONNECTION_ERROR_def)
next
  assume "malloc_generous mal \<and> length later < 4
    \<and> gfm_incoming p s = reply_bytes 0 (int32_chunk 1) @ later"
  then show "gfm_client_replica_list_by_name_result mal p s = None"
    using replica_list_undefined [OF assms] by blast
qed

subsection \<open>Witnesses\<close>

lemma generous [simp]: "malloc_generous (\<lambda>_. True)"
  by (simp add: malloc_generous_def)

lemma encode_int [simp]: "xdr_encode ''i'' [Arg_int x] = Some (int32_chunk (word_of_int x))"
  by (simp add: xdr_chunks.simps)

theorem gfm_rpc_exchange_witness:
  "\<exists>s s'. gfm_client_is_connection_valid s 5
     \<and> gfm_client_rpc (\<lambda>_. True) 5 False 7 ''i/'' [Arg_int 3] [] s = Some (Inl 2, s')
     \<and> fw_out (gfm_world s') = command_bytes 7 @ int32_chunk 3 \<and> gfm_incoming 5 s' = [9]"
proof -
  obtain s where s: "gfm_ready 5 s" "gfm_client_is_connection_valid s 5"
    "gfm_incoming 5 s = reply_bytes 2 [] @ [9]" "gfm_outgoing 5 s = []"
    using ready_state by blast
  from gfm_rpc_exchange [OF s(1) generous encode_int, of "[]" "[]" "[]" "[]" "[]" 2 "[9]" False 7 3] s(3,4)
  obtain s' where "gfm_client_rpc (\<lambda>_. True) 5 False 7 ''i/'' [Arg_int 3] [] s = Some (Inl 2, s')"
    "fw_out (gfm_world s') = command_bytes 7 @ int32_chunk 3" "gfm_incoming 5 s' = [9]"
    by auto
  with s(2) show ?thesis by blast
qed

theorem gfm_compound_exchange_witness:
  "\<exists>s s'. gfm_client_compound_fd_op (\<lambda>_. True) 5 4 (gfm_client_rpc_request 5 96 [] [])
        (gfm_client_rpc_result (\<lambda>_. True) 5 False [] []) None s = Some ((Inl 2, s') :: _ \<times> fd_world gfm_state)
     \<and> gfm_incoming 5 s' = [9]"
proof -
  obtain s where s: "gfm_ready 5 s" "gfm_incoming 5 s = compound_replies 0 0 2 0 [] @ [9]"
    using ready_state by blast
  have "compound_outcome [0, 0, 2, 0] ([] :: xdr_val list) None t = (Inl 2, t)" for t :: "fd_world gfm_state"
    by (simp add: compound_outcome_def first_error_def)
  with gfm_compound_exchange [OF s(1) generous _ _ _ s(2), of "[]" "[]" "[]" "[]" "[]" "[]" "[]" 4 96 False None]
  show ?thesis by auto
qed

theorem gfm_retry_bounded_witness:
  "gfm_connect_retry (call_fail GFARM_ERR_BROKEN_PIPE) (\<lambda>i w. w + unat i) 1 (Inl GFARM_ERR_BROKEN_PIPE)
      \<lparr>gfm_server_cache = GFP_CONN_CACHE_INITIALIZER
          (\<lambda>_. \<lparr>le_next = None, le_prev = None, le_acquired = 0\<rparr>)
          (\<lambda>_. \<lparr>cc_hash_entry = None, cc_data = None\<rparr>) 31 8, gfm_world = 0 :: nat\<rparr>
    = Some (Inl GFARM_ERR_BROKEN_PIPE,
        \<lparr>gfm_server_cache = GFP_CONN_CACHE_INITIALIZER
          (\<lambda>_. \<lparr>le_next = None, le_prev = None, le_acquired = 0\<rparr>)
          (\<lambda>_. \<lparr>cc_hash_entry = None, cc_data = None\<rparr>) 31 8, gfm_world = 1023\<rparr>)"
proof -
  have e: "IS_CONNECTION_ERROR GFARM_ERR_BROKEN_PIPE" by (simp add: IS_CONNECTION_ERROR_def)
  show ?thesis
    unfolding conjunct1 [OF gfm_retry_bounded] by (simp add: e call_fail_def)
qed

theorem gfm_client_faults_witness:
  "\<exists>s. gfm_client_process_free (\<lambda>_. True) 5 s = None
     \<and> (\<exists>s'. gfm_client_get_nhosts (\<lambda>_. True) 5 3 s = Some (Inl GFARM_ERR_PROTOCOL, s')
           \<and> gfm_client_is_connection_valid (s' :: fd_world gfm_state) 5)"
proof -
  obtain s where s: "gfm_ready 5 s" "gfm_client_is_connection_valid s 5" "gfm_incoming 5 s = []"
    using ready_state by blast
  from gfm_client_faults [OF s(1), of "\<lambda>_. True" 3 "[]"] s(2,3) show ?thesis by auto
qed

theorem gfm_requests_typed_witness:
  "\<exists>s s'. gfm_client_mkdir_request 5 [0x61, 0] 7 s = Some (Inr (), s')
     \<and> gfm_outgoing 5 s' = gfm_wire GFM_PROTO_MKDIR ''si'' [Arg_ptr [0x61, 0], Arg_int 7]"
proof -
  obtain s where s: "gfm_ready 5 s" "gfm_outgoing 5 s = []" using ready_state by blast
  have "c_string [0x61, 0]" by (simp add: c_string_def)
  then have "gfm_protocol (\<lambda>p. gfm_client_mkdir_request p [0x61, 0] 7) GFM_PROTO_MKDIR ''si''
      [Arg_ptr [0x61, 0], Arg_int 7 :: xdr_arg]" by (rule gfm_protocol.intros)
  from gfm_requests_typed [OF s(1) this] s(2) show ?thesis by auto
qed

end
