(* ===== verification/Gfs_Pio.thy ===== *)
theory Gfs_Pio
  imports Io_Fd
begin

text \<open>
  \<open>gfarm/gfs_pio.c\<close> and \<open>gfs_pio.h\<close>: buffered access to an open file, in the manner of \<open>stdio\<close>.

  \<open>struct gfs_file\<close> is the record \<open>gfs_file\<close>; the flag bits of \<open>mode\<close> are boolean fields, the
  other flags a word as in C. \<open>view_context\<close> is \<open>None\<close> for \<open>NULL\<close>, and \<open>'v\<close> is what a view keeps
  there. The functions of the view (\<open>struct gfs_pio_ops\<close>) are a record of their own: the code has one
  view, so \<open>gf->ops\<close> is not a field. They act on a world \<open>'w\<close>, and \<open>view_close\<close> also on the file
  itself. \<open>set_view\<close> is \<open>gfs_pio_internal_set_view_section(gf, NULL)\<close>, which opens the view.

  An operation takes the file and the world, and yields its outcome with both, or \<open>None\<close> when an
  assertion fails or it does not return. The outcome of a \<open>gfarm_error_t\<close> function is \<open>Inl\<close> the error or
  \<open>Inr\<close> what it stores. \<open>gfarm_off_t\<close> and \<open>int\<close> are unbounded, except where a sum is
  compared. The timers of \<open>gfs_profile\<close> are left out.
\<close>

subsection \<open>State\<close>

abbreviation (input) GFARM_FILE_RDONLY :: u32 where "GFARM_FILE_RDONLY \<equiv> 0"
abbreviation (input) GFARM_FILE_WRONLY :: u32 where "GFARM_FILE_WRONLY \<equiv> 1"
abbreviation (input) GFARM_FILE_RDWR :: u32 where "GFARM_FILE_RDWR \<equiv> 2"
abbreviation (input) GFARM_FILE_ACCMODE :: u32 where "GFARM_FILE_ACCMODE \<equiv> 3"
abbreviation (input) GFARM_FILE_UNBUFFERED :: u32 where "GFARM_FILE_UNBUFFERED \<equiv> 0x10000000"

abbreviation (input) GFARM_SEEK_SET :: int where "GFARM_SEEK_SET \<equiv> 0"
abbreviation (input) GFARM_SEEK_CUR :: int where "GFARM_SEEK_CUR \<equiv> 1"
abbreviation (input) GFARM_SEEK_END :: int where "GFARM_SEEK_END \<equiv> 2"

abbreviation (input) GFS_DT_DIR :: int where "GFS_DT_DIR \<equiv> 4"
abbreviation (input) GFS_DT_REG :: int where "GFS_DT_REG \<equiv> 8"
abbreviation (input) GFS_DT_LNK :: int where "GFS_DT_LNK \<equiv> 10"

abbreviation (input) GFS_PROTO_FSYNC_WITHOUT_METADATA :: int where
  "GFS_PROTO_FSYNC_WITHOUT_METADATA \<equiv> 0"
abbreviation (input) GFS_PROTO_FSYNC_WITH_METADATA :: int where
  "GFS_PROTO_FSYNC_WITH_METADATA \<equiv> 1"

abbreviation (input) GFS_FILE_BUFSIZE :: int where "GFS_FILE_BUFSIZE \<equiv> 1048568"

record 'v gfs_file =
  gf_view_context :: "'v option"
  gf_gfm_server :: nat
  gf_fd :: int
  gf_mode_read :: bool
  gf_mode_write :: bool
  gf_calc_digest :: bool
  gf_buffer_dirty :: bool
  gf_open_flags :: u32
  gf_error :: gfarm_error_t
  gf_io_offset :: int
  gf_buffer :: mem
  gf_p :: int
  gf_length :: int
  gf_offset :: int

type_synonym ('v, 'w, 'a) pio_call = "'v gfs_file \<Rightarrow> 'w \<Rightarrow> ('a \<times> 'v gfs_file \<times> 'w) option"
type_synonym ('v, 'w, 'a) pio_res = "('v, 'w, gfarm_error_t + 'a) pio_call"

text \<open>
  \<open>view_pread\<close> yields the bytes it has stored in the buffer, \<open>view_pwrite\<close> the number it has taken;
  \<open>'st\<close> is the \<open>struct gfs_stat\<close> that \<open>view_fstat\<close> fills in.
\<close>

record ('v, 'w, 'st) gfs_pio_ops =
  view_close :: "('v, 'w, unit) pio_res"
  view_fd :: "'v gfs_file \<Rightarrow> int"
  view_pread :: "'v gfs_file \<Rightarrow> int \<Rightarrow> int \<Rightarrow> 'w \<Rightarrow> ((gfarm_error_t + byte list) \<times> 'w) option"
  view_pwrite :: "'v gfs_file \<Rightarrow> byte list \<Rightarrow> int \<Rightarrow> 'w \<Rightarrow> ((gfarm_error_t + int) \<times> 'w) option"
  view_ftruncate :: "'v gfs_file \<Rightarrow> int \<Rightarrow> 'w \<Rightarrow> ((gfarm_error_t + unit) \<times> 'w) option"
  view_fsync :: "'v gfs_file \<Rightarrow> int \<Rightarrow> 'w \<Rightarrow> ((gfarm_error_t + unit) \<times> 'w) option"
  view_fstat :: "'v gfs_file \<Rightarrow> 'st \<Rightarrow> 'w \<Rightarrow> ((gfarm_error_t + 'st) \<times> 'w) option"
  set_view :: "('v, 'w, unit) pio_res"

definition pio_return :: "'a \<Rightarrow> ('v, 'w, 'a) pio_res" where
  "pio_return v gf w = Some (Inr v, gf, w)"

definition pio_fail :: "gfarm_error_t \<Rightarrow> ('v, 'w, 'a) pio_res" where
  "pio_fail e gf w = Some (Inl e, gf, w)"

text \<open>\<open>e = f(...); if (e != GFARM_ERR_NO_ERROR) return (e);\<close>\<close>

definition pio_bind :: "('v, 'w, 'a) pio_res \<Rightarrow> ('a \<Rightarrow> ('v, 'w, 'b) pio_res) \<Rightarrow> ('v, 'w, 'b) pio_res" where
  "pio_bind f g gf w =
     (case f gf w of
        None \<Rightarrow> None
      | Some (Inl e, gf', w') \<Rightarrow> Some (Inl e, gf', w')
      | Some (Inr v, gf', w') \<Rightarrow> g v gf' w')"

text \<open>A \<open>gfarm_error_t\<close> that is passed on.\<close>

definition pio_status :: "gfarm_error_t \<Rightarrow> ('v, 'w, unit) pio_res" where
  "pio_status e = (if e = GFARM_ERR_NO_ERROR then pio_return () else pio_fail e)"

definition error_of :: "gfarm_error_t + 'a \<Rightarrow> gfarm_error_t" where
  "error_of r = (case r of Inl e \<Rightarrow> e | Inr _ \<Rightarrow> GFARM_ERR_NO_ERROR)"

subsection \<open>Errors and the view\<close>

definition gfs_pio_eof :: "'v gfs_file \<Rightarrow> bool" where
  "gfs_pio_eof gf \<longleftrightarrow> gf_error gf = GFARM_ERRMSG_GFS_PIO_IS_EOF"

definition GFS_PIO_ERROR :: "'v gfs_file \<Rightarrow> gfarm_error_t" where
  "GFS_PIO_ERROR gf =
     (if gf_error gf \<noteq> GFARM_ERRMSG_GFS_PIO_IS_EOF then gf_error gf else GFARM_ERR_NO_ERROR)"

definition gfs_pio_error :: "'v gfs_file \<Rightarrow> gfarm_error_t" where
  "gfs_pio_error gf = GFS_PIO_ERROR gf"

definition gfs_pio_clearerr :: "'v gfs_file \<Rightarrow> 'v gfs_file" where
  "gfs_pio_clearerr gf = gf\<lparr>gf_error := GFARM_ERR_NO_ERROR\<rparr>"

definition gfs_pio_is_view_set :: "'v gfs_file \<Rightarrow> bool" where
  "gfs_pio_is_view_set gf \<longleftrightarrow> gf_view_context gf \<noteq> None"

definition gfs_pio_check_view_default :: "('v, 'w, 'st) gfs_pio_ops \<Rightarrow> ('v, 'w, unit) pio_res" where
  "gfs_pio_check_view_default ops gf w =
     (if GFS_PIO_ERROR gf \<noteq> GFARM_ERR_NO_ERROR then Some (Inl (GFS_PIO_ERROR gf), gf, w)
      else if \<not> gfs_pio_is_view_set gf then set_view ops gf w
      else Some (Inr (), gf, w))"

definition gfs_pio_metadb :: "'v gfs_file \<Rightarrow> nat" where
  "gfs_pio_metadb gf = gf_gfm_server gf"

definition gfs_pio_fileno :: "'v gfs_file option \<Rightarrow> int" where
  "gfs_pio_fileno gf = (case gf of None \<Rightarrow> -1 | Some f \<Rightarrow> gf_fd f)"

definition gfs_pio_purge :: "'v gfs_file \<Rightarrow> 'v gfs_file" where
  "gfs_pio_purge gf = gf\<lparr>gf_offset := gf_offset gf + gf_p gf, gf_p := 0, gf_length := 0\<rparr>"

definition CHECK_WRITABLE :: "('v, 'w, unit) pio_res" where
  "CHECK_WRITABLE gf w =
     (if \<not> gf_mode_write gf then Some (Inl (errno_error EBADF), gf, w)
      else if gf_error gf = GFARM_ERRMSG_GFS_PIO_IS_EOF
      then Some (Inr (), gf\<lparr>gf_error := GFARM_ERR_NO_ERROR\<rparr>, w)
      else Some (Inr (), gf, w))"

text \<open>The test that \<open>CHECK_READABLE\<close> and \<open>CHECK_READABLE_EOF\<close> share, and the former.\<close>

definition write_only :: "'v gfs_file \<Rightarrow> bool" where
  "write_only gf \<longleftrightarrow> and (gf_open_flags gf) GFARM_FILE_ACCMODE = GFARM_FILE_WRONLY"

definition CHECK_READABLE :: "('v, 'w, unit) pio_res" where
  "CHECK_READABLE gf w =
     (if write_only gf then Some (Inl (errno_error EBADF), gf, w) else Some (Inr (), gf, w))"

definition unbuffered :: "'v gfs_file \<Rightarrow> bool" where
  "unbuffered gf \<longleftrightarrow> and (gf_open_flags gf) GFARM_FILE_UNBUFFERED \<noteq> 0"

subsection \<open>Moving buffers\<close>

text \<open>
  The loop of \<open>do_write\<close>: the outcome is the error with the number of bytes written, which
  is stored even if there was an error. A view that takes no bytes is asked again.
\<close>

partial_function (option) do_write_loop ::
  "('v, 'w, 'st) gfs_pio_ops \<Rightarrow> byte list \<Rightarrow> int \<Rightarrow> ('v, 'w, gfarm_error_t \<times> int) pio_call" where
  "do_write_loop ops buffer written gf w =
     (if \<not> written < int (length buffer) then Some ((GFARM_ERR_NO_ERROR, written), gf, w)
      else case view_pwrite ops gf (drop (nat written) buffer) (gf_io_offset gf) w of
        None \<Rightarrow> None
      | Some (Inl e, w') \<Rightarrow> Some ((e, written), gf\<lparr>gf_error := e\<rparr>, w')
      | Some (Inr len, w') \<Rightarrow>
          do_write_loop ops buffer (written + len)
            (gf\<lparr>gf_io_offset := gf_io_offset gf + len\<rparr>) w')"

definition do_write ::
  "('v, 'w, 'st) gfs_pio_ops \<Rightarrow> byte list \<Rightarrow> ('v, 'w, gfarm_error_t \<times> int) pio_call" where
  "do_write ops buffer gf w =
     (if length buffer = 0 then Some ((GFARM_ERR_NO_ERROR, 0), gf, w)
      else do_write_loop ops buffer 0
             (if gf_io_offset gf \<noteq> gf_offset gf
              then gf\<lparr>gf_calc_digest := False, gf_io_offset := gf_offset gf\<rparr>
              else gf) w)"

definition gfs_pio_flush :: "('v, 'w, 'st) gfs_pio_ops \<Rightarrow> ('v, 'w, unit) pio_res" where
  "gfs_pio_flush ops =
     pio_bind (gfs_pio_check_view_default ops) (\<lambda>_.
     pio_bind CHECK_WRITABLE (\<lambda>_.
     pio_bind (\<lambda>gf w.
         if gf_buffer_dirty gf then
           (case do_write ops (mem_read (gf_buffer gf) 0 (gf_length gf)) gf w of
              None \<Rightarrow> None
            | Some ((e, _), gf', w') \<Rightarrow>
                if e \<noteq> GFARM_ERR_NO_ERROR then Some (Inl e, gf', w')
                else Some (Inr (), gf'\<lparr>gf_buffer_dirty := False\<rparr>, w'))
         else Some (Inr (), gf, w)) (\<lambda>_ gf w.
     Some (Inr (), if gf_p gf \<ge> gf_length gf then gfs_pio_purge gf else gf, w))))"

definition gfs_pio_fillbuf :: "('v, 'w, 'st) gfs_pio_ops \<Rightarrow> int \<Rightarrow> ('v, 'w, unit) pio_res" where
  "gfs_pio_fillbuf ops n =
     pio_bind CHECK_READABLE (\<lambda>_ gf w.
       if gf_error gf \<noteq> GFARM_ERR_NO_ERROR then pio_status (GFS_PIO_ERROR gf) gf w
       else if gf_p gf < gf_length gf then Some (Inr (), gf, w)
       else
         pio_bind
           (\<lambda>gf w. if gf_buffer_dirty gf then gfs_pio_flush ops gf w
                   else Some (Inr (), gfs_pio_purge gf, w))
           (\<lambda>_ gf w.
              if gf_io_offset gf \<noteq> gf_offset gf then None
              else case view_pread ops gf n (gf_io_offset gf) w of
                None \<Rightarrow> None
              | Some (Inl e, w') \<Rightarrow> Some (Inl e, gf\<lparr>gf_error := e\<rparr>, w')
              | Some (Inr bs, w') \<Rightarrow>
                  Some (Inr (),
                    gf\<lparr>gf_buffer := mem_write (gf_buffer gf) 0 bs, gf_length := int (length bs),
                       gf_io_offset := gf_io_offset gf + int (length bs),
                       gf_error := if bs = [] then GFARM_ERRMSG_GFS_PIO_IS_EOF else gf_error gf\<rparr>,
                    w'))
           gf w)"

subsection \<open>Setting and dropping the view\<close>

definition gfs_pio_set_view_default :: "('v, 'w, 'st) gfs_pio_ops \<Rightarrow> ('v, 'w, unit) pio_res" where
  "gfs_pio_set_view_default ops gf w =
     (case (if \<not> gfs_pio_is_view_set gf then Some (GFARM_ERR_NO_ERROR, gf, w)
            else
              (case (if gf_mode_write gf then gfs_pio_flush ops gf w else Some (Inr (), gf, w)) of
                 None \<Rightarrow> None
               | Some (r, gf1, w1) \<Rightarrow>
                   (case view_close ops gf1 w1 of
                      None \<Rightarrow> None
                    | Some (r', gf2, w2) \<Rightarrow>
                        Some (if error_of r = GFARM_ERR_NO_ERROR then error_of r' else error_of r, gf2, w2)))) of
        None \<Rightarrow> None
      | Some (e_save, gf', w') \<Rightarrow>
          pio_status e_save (gf'\<lparr>gf_view_context := None, gf_error := e_save\<rparr>) w')"

subsection \<open>Opening and closing\<close>

text \<open>
  \<open>ok\<close> says whether both allocations succeed, \<open>m0\<close> what the fresh buffer holds. The file has no view
  yet, so nothing is called.
\<close>

definition gfs_file_alloc :: "bool \<Rightarrow> mem \<Rightarrow> nat \<Rightarrow> int \<Rightarrow> u32 \<Rightarrow> gfarm_error_t + 'v gfs_file" where
  "gfs_file_alloc ok m0 gfm_server fd flags =
     (if \<not> ok then Inl GFARM_ERR_NO_MEMORY
      else
        let acc = and flags GFARM_FILE_ACCMODE
        in Inr \<lparr>gf_view_context = None, gf_gfm_server = gfm_server, gf_fd = fd,
                gf_mode_read = (acc = GFARM_FILE_RDONLY \<or> acc = GFARM_FILE_RDWR),
                gf_mode_write = (acc = GFARM_FILE_WRONLY \<or> acc = GFARM_FILE_RDWR),
                gf_calc_digest = False, gf_buffer_dirty = False,
                gf_open_flags = flags, gf_error = GFARM_ERR_NO_ERROR, gf_io_offset = 0,
                gf_buffer = m0, gf_p = 0, gf_length = 0, gf_offset = 0\<rparr>)"

text \<open>
  What an open file needs of the metadata server: \<open>gfm_close_fd\<close>, \<open>gfm_client_connection_free\<close> and
  \<open>gfs_fstat\<close>. \<open>gfm_create_fd\<close> and \<open>gfm_open_fd\<close>, which yield a connection, a descriptor and the type of
  what was opened, are arguments of \<open>gfs_pio_opened\<close>, the common part of \<open>create\<close> and \<open>open\<close>.
\<close>

record ('v, 'w, 'st) gfs_pio_meta =
  meta_close_fd :: "nat \<Rightarrow> int \<Rightarrow> 'w \<Rightarrow> ((gfarm_error_t + unit) \<times> 'w) option"
  meta_connection_free :: "nat \<Rightarrow> 'w \<Rightarrow> 'w option"
  meta_fstat :: "'v gfs_file \<Rightarrow> 'w \<Rightarrow> ((gfarm_error_t + 'st) \<times> 'w) option"

definition gfs_pio_opened ::
  "('v, 'w, 'st) gfs_pio_meta \<Rightarrow> bool \<Rightarrow> mem \<Rightarrow> u32
     \<Rightarrow> ((gfarm_error_t + nat \<times> int \<times> int) \<times> 'w) option
     \<Rightarrow> ((gfarm_error_t + 'v gfs_file) \<times> 'w) option" where
  "gfs_pio_opened meta ok m0 flags opened =
     (case opened of
        None \<Rightarrow> None
      | Some (Inl e, w) \<Rightarrow> Some (Inl e, w)
      | Some (Inr (gfm_server, fd, type), w) \<Rightarrow>
          let r = (if type \<noteq> GFS_DT_REG then
                     Inl (if type = GFS_DT_DIR then GFARM_ERR_IS_A_DIRECTORY
                          else if type = GFS_DT_LNK then GFARM_ERR_IS_A_SYMBOLIC_LINK
                          else GFARM_ERR_OPERATION_NOT_PERMITTED)
                   else gfs_file_alloc ok m0 gfm_server fd flags)
          in (case r of
                Inr gf \<Rightarrow> Some (Inr gf, w)
              | Inl e \<Rightarrow>
                  (case meta_close_fd meta gfm_server fd w of
                     None \<Rightarrow> None
                   | Some (_, w1) \<Rightarrow>
                       map_option (Pair (Inl e)) (meta_connection_free meta gfm_server w1))))"

definition gfs_pio_create ::
  "('v, 'w, 'st) gfs_pio_meta
     \<Rightarrow> (byte list \<Rightarrow> u32 \<Rightarrow> int \<Rightarrow> 'w \<Rightarrow> ((gfarm_error_t + nat \<times> int \<times> int) \<times> 'w) option)
     \<Rightarrow> bool \<Rightarrow> mem \<Rightarrow> byte list \<Rightarrow> u32 \<Rightarrow> int \<Rightarrow> 'w \<Rightarrow> ((gfarm_error_t + 'v gfs_file) \<times> 'w) option" where
  "gfs_pio_create meta gfm_create_fd ok m0 url flags mode w =
     gfs_pio_opened meta ok m0 flags (gfm_create_fd url flags mode w)"

definition gfs_pio_open ::
  "('v, 'w, 'st) gfs_pio_meta
     \<Rightarrow> (byte list \<Rightarrow> u32 \<Rightarrow> 'w \<Rightarrow> ((gfarm_error_t + nat \<times> int \<times> int) \<times> 'w) option)
     \<Rightarrow> bool \<Rightarrow> mem \<Rightarrow> byte list \<Rightarrow> u32 \<Rightarrow> 'w \<Rightarrow> ((gfarm_error_t + 'v gfs_file) \<times> 'w) option" where
  "gfs_pio_open meta gfm_open_fd ok m0 url flags w =
     gfs_pio_opened meta ok m0 flags (gfm_open_fd url flags w)"

text \<open>The file is freed; the outcome is the first error of the three steps.\<close>

definition gfs_pio_close ::
  "('v, 'w, 'st) gfs_pio_ops \<Rightarrow> ('v, 'w, 'st) gfs_pio_meta \<Rightarrow> 'v gfs_file \<Rightarrow> 'w
     \<Rightarrow> (gfarm_error_t \<times> 'w) option" where
  "gfs_pio_close ops meta gf w =
     (case (if \<not> gfs_pio_is_view_set gf then Some (GFARM_ERR_NO_ERROR, gf, w)
            else
              (case (if gf_mode_write gf then gfs_pio_flush ops gf w else Some (Inr (), gf, w)) of
                 None \<Rightarrow> None
               | Some (r, gf1, w1) \<Rightarrow>
                   (case view_close ops gf1 w1 of
                      None \<Rightarrow> None
                    | Some (r', gf2, w2) \<Rightarrow>
                        Some (if error_of r = GFARM_ERR_NO_ERROR then error_of r' else error_of r, gf2, w2)))) of
        None \<Rightarrow> None
      | Some (e_save, gf', w') \<Rightarrow>
          (case meta_close_fd meta (gf_gfm_server gf') (gfs_pio_fileno (Some gf')) w' of
             None \<Rightarrow> None
           | Some (r, w2) \<Rightarrow>
               map_option (Pair (if e_save = GFARM_ERR_NO_ERROR then error_of r else e_save))
                 (meta_connection_free meta (gf_gfm_server gf') w2)))"

subsection \<open>Positions\<close>

definition gfs_pio_seek ::
  "('v, 'w, 'st) gfs_pio_ops \<Rightarrow> int \<Rightarrow> int \<Rightarrow> ('v, 'w, int) pio_res" where
  "gfs_pio_seek ops offset whence =
     pio_bind (gfs_pio_check_view_default ops) (\<lambda>_ gf w.
       let gf = (if gf_error gf = GFARM_ERRMSG_GFS_PIO_IS_EOF
                 then gf\<lparr>gf_error := GFARM_ERR_NO_ERROR\<rparr> else gf);
           fail = (\<lambda>e. Some (Inl e, gf\<lparr>gf_error := e\<rparr>, w));
           where_to = (if whence = GFARM_SEEK_SET then Inr offset
                       else if whence = GFARM_SEEK_CUR then Inr (offset + gf_offset gf + gf_p gf)
                       else if whence = GFARM_SEEK_END then Inl GFARM_ERR_FUNCTION_NOT_IMPLEMENTED
                       else Inl GFARM_ERR_INVALID_ARGUMENT)
       in (case where_to of
             Inl e \<Rightarrow> fail e
           | Inr pos \<Rightarrow>
               if pos < 0 then fail GFARM_ERR_INVALID_ARGUMENT
               else if gf_offset gf \<le> pos \<and> pos \<le> gf_offset gf + gf_length gf
               then Some (Inr pos, gf\<lparr>gf_p := pos - gf_offset gf\<rparr>, w)
               else
                 (case (let gf = gf\<lparr>gf_calc_digest := False\<rparr>
                        in if gf_buffer_dirty gf then gfs_pio_flush ops gf w
                           else Some (Inr (), gf, w)) of
                    None \<Rightarrow> None
                  | Some (Inl e, gf', w') \<Rightarrow> Some (Inl e, gf'\<lparr>gf_error := e\<rparr>, w')
                  | Some (Inr _, gf', w') \<Rightarrow>
                      Some (Inr pos,
                        (gfs_pio_purge (gf'\<lparr>gf_error := GFARM_ERR_NO_ERROR\<rparr>))
                          \<lparr>gf_offset := pos, gf_io_offset := pos\<rparr>, w'))))"

definition gfs_pio_truncate :: "('v, 'w, 'st) gfs_pio_ops \<Rightarrow> int \<Rightarrow> ('v, 'w, unit) pio_res" where
  "gfs_pio_truncate ops len =
     pio_bind (gfs_pio_check_view_default ops) (\<lambda>_.
     pio_bind CHECK_WRITABLE (\<lambda>_.
     pio_bind (\<lambda>gf w.
         let gf = gf\<lparr>gf_calc_digest := False\<rparr>
         in if gf_buffer_dirty gf then gfs_pio_flush ops gf w else Some (Inr (), gf, w)) (\<lambda>_ gf w.
     let gf = gfs_pio_purge (gf\<lparr>gf_error := GFARM_ERR_NO_ERROR\<rparr>)
     in (case view_ftruncate ops gf len w of
           None \<Rightarrow> None
         | Some (Inl e, w') \<Rightarrow> Some (Inl e, gf\<lparr>gf_error := e\<rparr>, w')
         | Some (Inr _, w') \<Rightarrow> Some (Inr (), gf, w')))))"

subsection \<open>Reading and writing\<close>

text \<open>The loop of \<open>gfs_pio_read\<close>: the outcome is the last error and the bytes copied.\<close>

partial_function (option) gfs_pio_read_loop ::
  "('v, 'w, 'st) gfs_pio_ops \<Rightarrow> int \<Rightarrow> byte list \<Rightarrow> ('v, 'w, gfarm_error_t \<times> byte list) pio_call" where
  "gfs_pio_read_loop ops sz got gf w =
     (if \<not> 0 < sz then Some ((GFARM_ERR_NO_ERROR, got), gf, w)
      else case gfs_pio_fillbuf ops
                  (if unbuffered gf \<and> sz < GFS_FILE_BUFSIZE then sz else GFS_FILE_BUFSIZE) gf w of
        None \<Rightarrow> None
      | Some (Inl e, gf', w') \<Rightarrow> Some ((e, got), gf', w')
      | Some (Inr _, gf', w') \<Rightarrow>
          if gf_error gf' \<noteq> GFARM_ERR_NO_ERROR then Some ((GFARM_ERR_NO_ERROR, got), gf', w')
          else
            let len = (if gf_length gf' - gf_p gf' > sz then sz else gf_length gf' - gf_p gf')
            in gfs_pio_read_loop ops (sz - len)
                 (got @ mem_read (gf_buffer gf') (gf_p gf') len) (gf'\<lparr>gf_p := gf_p gf' + len\<rparr>) w')"

definition gfs_pio_read :: "('v, 'w, 'st) gfs_pio_ops \<Rightarrow> int \<Rightarrow> ('v, 'w, byte list) pio_res" where
  "gfs_pio_read ops sz =
     pio_bind (gfs_pio_check_view_default ops) (\<lambda>_.
     pio_bind CHECK_READABLE (\<lambda>_ gf w.
       (case gfs_pio_read_loop ops sz [] gf w of
          None \<Rightarrow> None
        | Some ((e, got), gf', w') \<Rightarrow>
            if e \<noteq> GFARM_ERR_NO_ERROR \<and> got = [] then Some (Inl e, gf', w')
            else Some (Inr got, if unbuffered gf' then gfs_pio_purge gf' else gf', w'))))"

text \<open>
  What \<open>write\<close> and \<open>putc\<close> do with bytes that fit into the buffer: store them at \<open>p\<close>, and flush if
  the file is unbuffered or the buffer full.
\<close>

definition pio_store :: "byte list \<Rightarrow> 'v gfs_file \<Rightarrow> 'v gfs_file" where
  "pio_store data gf =
     (let p' = gf_p gf + int (length data)
      in gf\<lparr>gf_buffer_dirty := True, gf_buffer := mem_write (gf_buffer gf) (gf_p gf) data,
            gf_p := p', gf_length := if p' > gf_length gf then p' else gf_length gf\<rparr>)"

definition pio_store_flush :: "('v, 'w, 'st) gfs_pio_ops \<Rightarrow> byte list \<Rightarrow> ('v, 'w, unit) pio_res" where
  "pio_store_flush ops data gf w =
     (let gf = pio_store data gf
      in if unbuffered gf \<or> gf_p gf \<ge> GFS_FILE_BUFSIZE then
           (case gfs_pio_flush ops gf w of
              None \<Rightarrow> None
            | Some (r, gf', w') \<Rightarrow> Some (r, if unbuffered gf' then gfs_pio_purge gf' else gf', w'))
         else Some (Inr (), gf, w))"

text \<open>
  \<open>size\<close> is the length of \<open>data\<close>; \<open>size + gf->p\<close> is an \<open>int\<close>. The result is the number of
  bytes taken.
\<close>

definition gfs_pio_write :: "('v, 'w, 'st) gfs_pio_ops \<Rightarrow> byte list \<Rightarrow> ('v, 'w, int) pio_res" where
  "gfs_pio_write ops data =
     (let size = int (length data)
      in pio_bind (gfs_pio_check_view_default ops) (\<lambda>_.
         pio_bind CHECK_WRITABLE (\<lambda>_.
         pio_bind (\<lambda>gf w.
             if as_int32 (size + gf_p gf) > GFS_FILE_BUFSIZE
             then gfs_pio_flush ops (gf\<lparr>gf_length := gf_p gf\<rparr>) w
             else Some (Inr (), gf, w)) (\<lambda>_ gf w.
         if size \<ge> GFS_FILE_BUFSIZE then
           (if gf_p gf \<noteq> 0 then None
            else case do_write ops data (gf\<lparr>gf_length := 0, gf_buffer_dirty := False\<rparr>) w of
              None \<Rightarrow> None
            | Some ((e, written), gf', w') \<Rightarrow>
                if e \<noteq> GFARM_ERR_NO_ERROR \<and> written = 0 then Some (Inl e, gf', w')
                else Some (Inr written, gf'\<lparr>gf_offset := gf_offset gf' + written\<rparr>, w'))
         else map_option (\<lambda>(r, s). (map_sum id (\<lambda>_. size) r, s)) (pio_store_flush ops data gf w)))))"

definition sync_internal :: "('v, 'w, 'st) gfs_pio_ops \<Rightarrow> int \<Rightarrow> ('v, 'w, unit) pio_res" where
  "sync_internal ops operation =
     pio_bind (gfs_pio_flush ops) (\<lambda>_ gf w.
       (case view_fsync ops gf operation w of
          None \<Rightarrow> None
        | Some (Inl e, w') \<Rightarrow> Some (Inl e, gf\<lparr>gf_error := e\<rparr>, w')
        | Some (Inr _, w') \<Rightarrow> Some (Inr (), gf, w')))"

definition gfs_pio_sync :: "('v, 'w, 'st) gfs_pio_ops \<Rightarrow> ('v, 'w, unit) pio_res" where
  "gfs_pio_sync ops = sync_internal ops GFS_PROTO_FSYNC_WITH_METADATA"

definition gfs_pio_datasync :: "('v, 'w, 'st) gfs_pio_ops \<Rightarrow> ('v, 'w, unit) pio_res" where
  "gfs_pio_datasync ops = sync_internal ops GFS_PROTO_FSYNC_WITHOUT_METADATA"

subsection \<open>Characters\<close>

text \<open>A character, or \<open>None\<close> for \<open>EOF\<close>.\<close>

definition gfs_pio_getc :: "('v, 'w, 'st) gfs_pio_ops \<Rightarrow> ('v, 'w, byte option) pio_call" where
  "gfs_pio_getc ops gf w =
     (case gfs_pio_check_view_default ops gf w of
        None \<Rightarrow> None
      | Some (Inl e, gf', w') \<Rightarrow> Some (None, gf'\<lparr>gf_error := e\<rparr>, w')
      | Some (Inr _, gf, w) \<Rightarrow>
          if write_only gf then Some (None, gf, w)
          else
            (case (if gf_p gf \<ge> gf_length gf
                   then gfs_pio_fillbuf ops (if unbuffered gf then 1 else GFS_FILE_BUFSIZE) gf w
                   else Some (Inr (), gf, w)) of
               None \<Rightarrow> None
             | Some (Inl e, gf', w') \<Rightarrow> Some (None, gf', w')
             | Some (Inr _, gf', w') \<Rightarrow>
                 if gf_p gf \<ge> gf_length gf \<and> gf_error gf' \<noteq> GFARM_ERR_NO_ERROR
                 then Some (None, gf', w')
                 else
                   let c = gf_buffer gf' (gf_p gf'); gf'' = gf'\<lparr>gf_p := gf_p gf' + 1\<rparr>
                   in Some (Some c, if unbuffered gf'' then gfs_pio_purge gf'' else gf'', w')))"

definition gfs_pio_ungetc ::
  "('v, 'w, 'st) gfs_pio_ops \<Rightarrow> byte option \<Rightarrow> ('v, 'w, byte option) pio_call" where
  "gfs_pio_ungetc ops c gf w =
     (case gfs_pio_check_view_default ops gf w of
        None \<Rightarrow> None
      | Some (Inl e, gf', w') \<Rightarrow> Some (None, gf'\<lparr>gf_error := e\<rparr>, w')
      | Some (Inr _, gf, w) \<Rightarrow>
          if write_only gf then Some (None, gf, w)
          else
            (case c of
               None \<Rightarrow> Some (None, gf, w)
             | Some b \<Rightarrow>
                 if gf_p gf = 0 then Some (None, gf\<lparr>gf_error := GFARM_ERR_NO_SPACE\<rparr>, w)
                 else Some (Some b,
                        gf\<lparr>gf_p := gf_p gf - 1, gf_buffer := (gf_buffer gf)(gf_p gf - 1 := b)\<rparr>, w)))"

text \<open>
  The first \<open>gfs_pio_flush\<close> stores its error in a variable of an inner block that shadows the one
  returned.
\<close>

definition gfs_pio_putc :: "('v, 'w, 'st) gfs_pio_ops \<Rightarrow> byte \<Rightarrow> ('v, 'w, unit) pio_res" where
  "gfs_pio_putc ops c =
     pio_bind (gfs_pio_check_view_default ops) (\<lambda>_.
     pio_bind CHECK_WRITABLE (\<lambda>_ gf w.
       (case (if gf_p gf \<ge> GFS_FILE_BUFSIZE then gfs_pio_flush ops gf w else Some (Inr (), gf, w)) of
          None \<Rightarrow> None
        | Some (Inl e, gf', w') \<Rightarrow> Some (Inr (), gf', w')
        | Some (Inr _, gf', w') \<Rightarrow> pio_store_flush ops [c] gf' w')))"

subsection \<open>Strings and lines\<close>

text \<open>
  A C string that is given is the list of its bytes before the \<open>'\0'\<close>, and what a function stores
  in \<open>s\<close> is the list in front of the \<open>'\0'\<close> it appends.
\<close>

primrec gfs_pio_puts_loop :: "('v, 'w, 'st) gfs_pio_ops \<Rightarrow> byte list \<Rightarrow> ('v, 'w, unit) pio_res" where
  "gfs_pio_puts_loop ops [] = pio_return ()"
| "gfs_pio_puts_loop ops (c # s) = pio_bind (gfs_pio_putc ops c) (\<lambda>_. gfs_pio_puts_loop ops s)"

definition gfs_pio_puts :: "('v, 'w, 'st) gfs_pio_ops \<Rightarrow> byte list \<Rightarrow> ('v, 'w, unit) pio_res" where
  "gfs_pio_puts ops s =
     pio_bind (gfs_pio_check_view_default ops) (\<lambda>_.
     pio_bind CHECK_WRITABLE (\<lambda>_. gfs_pio_puts_loop ops s))"

abbreviation (input) newline :: byte where "newline \<equiv> 10"

primrec gfs_pio_gets_loop :: "('v, 'w, 'st) gfs_pio_ops \<Rightarrow> nat \<Rightarrow> ('v, 'w, byte list) pio_call" where
  "gfs_pio_gets_loop ops 0 gf w = Some ([], gf, w)"
| "gfs_pio_gets_loop ops (Suc n) gf w =
     (case gfs_pio_getc ops gf w of
        None \<Rightarrow> None
      | Some (None, gf', w') \<Rightarrow> Some ([], gf', w')
      | Some (Some c, gf', w') \<Rightarrow>
          if c = newline then Some ([c], gf', w')
          else map_option (\<lambda>(s, r). (c # s, r)) (gfs_pio_gets_loop ops n gf' w'))"

definition gfs_pio_gets :: "('v, 'w, 'st) gfs_pio_ops \<Rightarrow> nat \<Rightarrow> ('v, 'w, byte list) pio_res" where
  "gfs_pio_gets ops n =
     pio_bind (gfs_pio_check_view_default ops) (\<lambda>_.
     pio_bind CHECK_READABLE (\<lambda>_ gf w.
       if n \<le> 1 then Some (Inl GFARM_ERR_INVALID_ARGUMENT, gf\<lparr>gf_error := GFARM_ERR_INVALID_ARGUMENT\<rparr>, w)
       else map_option (\<lambda>(s, r). (Inr s, r)) (gfs_pio_gets_loop ops (n - 1) gf w)))"

text \<open>The last character read, \<open>None\<close> for \<open>EOF\<close>, is needed afterwards; it starts as \<open>EOF\<close>.\<close>

primrec gfs_pio_getline_loop ::
  "('v, 'w, 'st) gfs_pio_ops \<Rightarrow> nat \<Rightarrow> byte option \<Rightarrow> ('v, 'w, byte list \<times> byte option) pio_call" where
  "gfs_pio_getline_loop ops 0 lastc gf w = Some (([], lastc), gf, w)"
| "gfs_pio_getline_loop ops (Suc n) lastc gf w =
     (case gfs_pio_getc ops gf w of
        None \<Rightarrow> None
      | Some (None, gf', w') \<Rightarrow> Some (([], None), gf', w')
      | Some (Some c, gf', w') \<Rightarrow>
          if c = newline then Some (([], Some c), gf', w')
          else map_option (\<lambda>((s, lastc'), r). ((c # s, lastc'), r))
                 (gfs_pio_getline_loop ops n (Some c) gf' w'))"

text \<open>The results are the line without its newline and \<open>*eofp\<close>.\<close>

definition gfs_pio_getline ::
  "('v, 'w, 'st) gfs_pio_ops \<Rightarrow> nat \<Rightarrow> ('v, 'w, byte list \<times> bool) pio_res" where
  "gfs_pio_getline ops n =
     pio_bind (gfs_pio_check_view_default ops) (\<lambda>_.
     pio_bind CHECK_READABLE (\<lambda>_ gf w.
       if n \<le> 1 then Some (Inl GFARM_ERR_INVALID_ARGUMENT, gf\<lparr>gf_error := GFARM_ERR_INVALID_ARGUMENT\<rparr>, w)
       else
         (case gfs_pio_getline_loop ops (n - 1) None gf w of
            None \<Rightarrow> None
          | Some ((s, lastc), gf', w') \<Rightarrow>
              if s = [] \<and> lastc = None then
                pio_bind (pio_status (GFS_PIO_ERROR gf')) (\<lambda>_. pio_return ([], True)) gf' w'
              else Some (Inr (s, False), gf', w'))))"

definition gfs_pio_putline :: "('v, 'w, 'st) gfs_pio_ops \<Rightarrow> byte list \<Rightarrow> ('v, 'w, unit) pio_res" where
  "gfs_pio_putline ops s =
     pio_bind (gfs_pio_check_view_default ops) (\<lambda>_.
     pio_bind CHECK_WRITABLE (\<lambda>_.
     pio_bind (gfs_pio_puts ops s) (\<lambda>_. gfs_pio_putc ops newline)))"

subsection \<open>Lines and records of any length\<close>

text \<open>
  The line buffer of \<open>readline\<close> and \<open>readdelim\<close>: \<open>lb_buf\<close> is its memory, \<open>lb_size\<close> the bytes
  allocated, \<open>lb_len\<close> those stored, \<open>lb_overflow\<close> the flag given to \<open>gfarm_size_add\<close>. \<open>mal\<close> says
  which requests \<open>realloc\<close> grants.
\<close>

record line_buffer =
  lb_buf :: mem
  lb_size :: u64
  lb_len :: u64
  lb_overflow :: bool

text \<open>The block \<open>if (size <= len) { ... }\<close>, which doubles the size; \<open>None\<close> for \<open>GFARM_ERR_NO_MEMORY\<close>.\<close>

definition line_room :: "(u64 \<Rightarrow> bool) \<Rightarrow> line_buffer \<Rightarrow> line_buffer option" where
  "line_room mal b =
     (if lb_size b \<le> lb_len b then
        let (overflow, alloc_size) = gfarm_size_add (lb_overflow b) (lb_size b) (lb_size b)
        in if overflow \<or> gfarm_realloc_array mal alloc_size 1 = None then None
           else Some (b\<lparr>lb_size := lb_size b + lb_size b, lb_overflow := overflow\<rparr>)
      else Some b)"

definition line_put :: "byte \<Rightarrow> line_buffer \<Rightarrow> line_buffer" where
  "line_put c b = b\<lparr>lb_buf := (lb_buf b)(uint (lb_len b) := c), lb_len := lb_len b + 1\<rparr>"

text \<open>
  The initial allocation: \<open>bufp\<close> is \<open>None\<close> for \<open>NULL\<close>, and then \<open>m0\<close> is what the memory granted holds.
\<close>

abbreviation (input) ALLOC_SIZE_INIT :: u64 where "ALLOC_SIZE_INIT \<equiv> 220"

definition line_start :: "(u64 \<Rightarrow> bool) \<Rightarrow> mem \<Rightarrow> bool \<Rightarrow> mem option \<Rightarrow> u64 \<Rightarrow> line_buffer option" where
  "line_start mal m0 overflow bufp sizep =
     (let m = (case bufp of None \<Rightarrow> m0 | Some m \<Rightarrow> m)
      in if bufp = None \<or> sizep \<le> 1 then
           let sz = (if sizep \<le> 1 then ALLOC_SIZE_INIT else sizep)
           in if gfarm_realloc_array mal sz 1 = None then None
              else Some \<lparr>lb_buf = m, lb_size = sz, lb_len = 0, lb_overflow = overflow\<rparr>
         else Some \<lparr>lb_buf = m, lb_size = sizep, lb_len = 0, lb_overflow = overflow\<rparr>)"

text \<open>
  The outcome of a loop: the buffer, and whether memory was granted. The outcome of a function: the error,
  or \<open>*lenp\<close>; with \<open>*bufp\<close> and \<open>*sizep\<close>.
\<close>

partial_function (option) gfs_pio_readline_loop ::
  "('v, 'w, 'st) gfs_pio_ops \<Rightarrow> (u64 \<Rightarrow> bool) \<Rightarrow> line_buffer \<Rightarrow> ('v, 'w, bool \<times> line_buffer) pio_call" where
  "gfs_pio_readline_loop ops mal b gf w =
     (case gfs_pio_getc ops gf w of
        None \<Rightarrow> None
      | Some (None, gf', w') \<Rightarrow> Some ((True, b), gf', w')
      | Some (Some c, gf', w') \<Rightarrow>
          (case line_room mal b of
             None \<Rightarrow> Some ((False, b), gf', w')
           | Some b' \<Rightarrow>
               if c = newline then Some ((True, line_put c b'), gf', w')
               else gfs_pio_readline_loop ops mal (line_put c b') gf' w'))"

type_synonym line_result = "(gfarm_error_t + u64) \<times> mem option \<times> u64"

text \<open>What follows the loop in both functions.\<close>

definition line_finish :: "(u64 \<Rightarrow> bool) \<Rightarrow> bool \<times> line_buffer \<Rightarrow> line_result" where
  "line_finish mal r =
     (case r of
        (False, b) \<Rightarrow> (Inl GFARM_ERR_NO_MEMORY, Some (lb_buf b), lb_size b)
      | (True, b) \<Rightarrow>
          (case line_room mal b of
             None \<Rightarrow> (Inl GFARM_ERR_NO_MEMORY, Some (lb_buf b), lb_size b)
           | Some b' \<Rightarrow>
               (Inr (lb_len b'), Some ((lb_buf b')(uint (lb_len b') := 0)), lb_size b')))"

definition gfs_pio_readline ::
  "('v, 'w, 'st) gfs_pio_ops \<Rightarrow> (u64 \<Rightarrow> bool) \<Rightarrow> mem \<Rightarrow> mem option \<Rightarrow> u64 \<Rightarrow> ('v, 'w, line_result) pio_call" where
  "gfs_pio_readline ops mal m0 bufp sizep gf w =
     (case pio_bind (gfs_pio_check_view_default ops) (\<lambda>_. CHECK_READABLE) gf w of
        None \<Rightarrow> None
      | Some (Inl e, gf, w) \<Rightarrow> Some ((Inl e, bufp, sizep), gf, w)
      | Some (Inr _, gf, w) \<Rightarrow>
          (case line_start mal m0 False bufp sizep of
             None \<Rightarrow> Some ((Inl GFARM_ERR_NO_MEMORY, bufp, sizep), gf, w)
           | Some b \<Rightarrow>
               map_option (\<lambda>(r, s). (line_finish mal r, s)) (gfs_pio_readline_loop ops mal b gf w)))"

text \<open>
  \<open>gfs_pio_readdelim\<close>: \<open>delim\<close> is \<open>None\<close> for \<open>NULL\<close>, and empty for empty lines. \<open>overflow0\<close> is
  what the uninitialised variable \<open>overflow\<close> holds. \<open>ends_delim\<close> is the test with \<open>delimtail\<close>, which is a
  \<open>char\<close> (signed), while the character read is not, and \<open>memcmp\<close>.
\<close>

definition ends_delim :: "byte list \<Rightarrow> byte \<Rightarrow> line_buffer \<Rightarrow> bool" where
  "ends_delim delim c b \<longleftrightarrow>
     length delim \<le> unat (lb_len b) \<and> uint c = sint (last delim)
     \<and> mem_read (lb_buf b) (uint (lb_len b) - int (length delim)) (int (length delim)) = delim"

partial_function (option) empty_lines_loop ::
  "('v, 'w, 'st) gfs_pio_ops \<Rightarrow> (u64 \<Rightarrow> bool) \<Rightarrow> line_buffer \<Rightarrow> ('v, 'w, bool \<times> line_buffer) pio_call" where
  "empty_lines_loop ops mal b gf w =
     (case gfs_pio_getc ops gf w of
        None \<Rightarrow> None
      | Some (None, gf', w') \<Rightarrow> Some ((True, b), gf', w')
      | Some (Some c, gf', w') \<Rightarrow>
          if c \<noteq> newline then
            (case gfs_pio_ungetc ops (Some c) gf' w' of
               None \<Rightarrow> None
             | Some (_, gf'', w'') \<Rightarrow> Some ((True, b), gf'', w''))
          else
            (case line_room mal b of
               None \<Rightarrow> Some ((False, b), gf', w')
             | Some b' \<Rightarrow> empty_lines_loop ops mal (line_put c b') gf' w'))"

partial_function (option) gfs_pio_readdelim_loop ::
  "('v, 'w, 'st) gfs_pio_ops \<Rightarrow> (u64 \<Rightarrow> bool) \<Rightarrow> byte list option \<Rightarrow> line_buffer
     \<Rightarrow> ('v, 'w, bool \<times> line_buffer) pio_call" where
  "gfs_pio_readdelim_loop ops mal delim b gf w =
     (case gfs_pio_getc ops gf w of
        None \<Rightarrow> None
      | Some (None, gf', w') \<Rightarrow> Some ((True, b), gf', w')
      | Some (Some c, gf', w') \<Rightarrow>
          (case line_room mal b of
             None \<Rightarrow> Some ((False, b), gf', w')
           | Some b' \<Rightarrow>
               (case delim of
                  None \<Rightarrow> gfs_pio_readdelim_loop ops mal delim (line_put c b') gf' w'
                | Some d \<Rightarrow>
                    if ends_delim (if d = [] then [newline, newline] else d) c (line_put c b')
                    then (if d = [] then empty_lines_loop ops mal (line_put c b') gf' w'
                          else Some ((True, line_put c b'), gf', w'))
                    else gfs_pio_readdelim_loop ops mal delim (line_put c b') gf' w')))"

definition gfs_pio_readdelim ::
  "('v, 'w, 'st) gfs_pio_ops \<Rightarrow> (u64 \<Rightarrow> bool) \<Rightarrow> mem \<Rightarrow> bool \<Rightarrow> mem option \<Rightarrow> u64 \<Rightarrow> byte list option
     \<Rightarrow> ('v, 'w, line_result) pio_call" where
  "gfs_pio_readdelim ops mal m0 overflow0 bufp sizep delim gf w =
     (case pio_bind (gfs_pio_check_view_default ops) (\<lambda>_. CHECK_READABLE) gf w of
        None \<Rightarrow> None
      | Some (Inl e, gf, w) \<Rightarrow> Some ((Inl e, bufp, sizep), gf, w)
      | Some (Inr _, gf, w) \<Rightarrow>
          (case line_start mal m0 overflow0 bufp sizep of
             None \<Rightarrow> Some ((Inl GFARM_ERR_NO_MEMORY, bufp, sizep), gf, w)
           | Some b \<Rightarrow>
               map_option (\<lambda>(r, s). (line_finish mal r, s)) (gfs_pio_readdelim_loop ops mal delim b gf w)))"

subsection \<open>Status\<close>

definition gfs_pio_stat ::
  "('v, 'w, 'st) gfs_pio_ops \<Rightarrow> ('v, 'w, 'st) gfs_pio_meta \<Rightarrow> ('v, 'w, 'st) pio_res" where
  "gfs_pio_stat ops meta gf w =
     (case meta_fstat meta gf w of
        None \<Rightarrow> None
      | Some (Inl e, w') \<Rightarrow> Some (Inl e, gf, w')
      | Some (Inr st, w') \<Rightarrow>
          if \<not> gfs_pio_is_view_set gf then Some (Inr st, gf, w')
          else
            (case view_fstat ops gf st w' of
               None \<Rightarrow> None
             | Some (Inl e, w'') \<Rightarrow> Some (Inl e, gf\<lparr>gf_error := e\<rparr>, w'')
             | Some (Inr st', w'') \<Rightarrow> Some (Inr st', gf, w'')))"

end
