(* ===== verification/Plain_File.thy ===== *)
theory Plain_File
  imports Gfarm_Prelude
begin

text \<open>
  The contents of a file as a list of bytes, with what \<open>pwrite\<close> and \<open>ftruncate\<close> make of them: a
  write behind the end fills the gap with zeros, and a write of no bytes does nothing. Everything is
  proved byte by byte, with \<open>file_byte\<close>.
\<close>

definition file_put :: "byte list \<Rightarrow> nat \<Rightarrow> byte list \<Rightarrow> byte list" where
  "file_put c off bs =
     (if bs = [] then c
      else take off c @ replicate (off - length c) 0 @ bs @ drop (off + length bs) c)"

definition file_truncate :: "byte list \<Rightarrow> nat \<Rightarrow> byte list" where
  "file_truncate c n = take n c @ replicate (n - length c) 0"

definition file_byte :: "byte list \<Rightarrow> nat \<Rightarrow> byte" where
  "file_byte c i = (if i < length c then c ! i else 0)"

lemma file_put_Nil [simp]: "file_put c off [] = c"
  by (simp add: file_put_def)

lemma length_file_put:
  "length (file_put c off bs) = (if bs = [] then length c else max (length c) (off + length bs))"
  by (simp add: file_put_def max_def min_def)

lemma file_byte_put:
  "file_byte (file_put c off bs) i =
     (if off \<le> i \<and> i < off + length bs then bs ! (i - off) else file_byte c i)"
  by (cases "bs = []")
    (auto simp: file_byte_def file_put_def nth_append min_def not_less nth_Cons' less_diff_conv2)

lemma length_file_truncate [simp]: "length (file_truncate c n) = n"
  by (simp add: file_truncate_def)

lemma file_byte_truncate: "file_byte (file_truncate c n) i = (if i < n then file_byte c i else 0)"
  by (auto simp: file_byte_def file_truncate_def nth_append)

lemma file_eqI:
  assumes "length c = length d" and "\<And>i. i < length d \<Longrightarrow> file_byte c i = file_byte d i"
  shows "c = d"
  using assms by (intro nth_equalityI) (auto simp: file_byte_def)

text \<open>Writing one part after the other, and writing over what has been written.\<close>

lemma file_put_append: "file_put (file_put c off a) (off + length a) b = file_put c off (a @ b)"
  by (rule file_eqI) (auto simp: length_file_put file_byte_put nth_append)

lemma file_put_absorb:
  "length a \<le> length b \<Longrightarrow> file_put (file_put c off a) off b = file_put c off b"
  by (rule file_eqI) (auto simp: length_file_put file_byte_put)

lemma file_put_take_drop:
  "file_put (file_put c off (take n bs)) (off + n) (take k (drop n bs)) = file_put c off (take (n + k) bs)"
proof (cases "n \<le> length bs")
  case True
  then show ?thesis
    using file_put_append [of c off "take n bs" "take k (drop n bs)"] by (simp add: take_add)
qed simp

lemma file_put_inside:
  assumes "p \<le> length a"
  shows "file_put (file_put c off a) (off + p) bs = file_put c off (take p a @ bs @ drop (p + length bs) a)"
proof (cases "bs = []")
  case False
  with assms show ?thesis
    by (intro file_eqI) (auto simp: length_file_put file_byte_put nth_append min_def)
qed simp

lemma file_put_slice: "file_put c off (take n (drop off c)) = c"
proof (cases "take n (drop off c) = []")
  case False
  then have "off < length c" by auto
  have "file_byte (file_put c off (take n (drop off c))) i = file_byte c i" for i
    unfolding file_byte_put using \<open>off < length c\<close> by (auto simp: file_byte_def)
  then show ?thesis
    using \<open>off < length c\<close> by (intro file_eqI) (auto simp: length_file_put)
qed (simp only: file_put_Nil)

text \<open>What a reader sees behind a position in or at the end of what has been written.\<close>

lemma drop_file_put:
  assumes "p \<le> length a" and "p < length a \<or> a = [] \<or> off + p \<le> length c"
  shows "drop (off + p) (file_put c off a) = drop p a @ drop (off + length a) c"
proof (cases "a = []")
  case False
  with assms show ?thesis by (auto simp: file_put_def min_def)
qed (use assms in simp)

lemma drop_file_put_end:
  "drop (off + length a) (file_put c off a) = drop (off + length a) c"
  by (cases "a = []") (auto simp: file_put_def)

lemma drop_file_put_in:
  "p < length a \<Longrightarrow> drop (off + p) (file_put c off a) = drop p a @ drop (off + length a) c"
  by (rule drop_file_put) auto

lemma take_drop_file_put:
  assumes "p + n \<le> length a"
  shows "take n (drop (off + p) (file_put c off a)) = take n (drop p a)"
proof (cases "n = 0")
  case False
  with assms have "p < length a" by simp
  then show ?thesis using assms by (simp add: drop_file_put_in)
qed simp

text \<open>Two contents that agree in front of a position, whatever their lengths.\<close>

definition same_upto :: "nat \<Rightarrow> byte list \<Rightarrow> byte list \<Rightarrow> bool" where
  "same_upto n c d \<longleftrightarrow> (\<forall>i < n. file_byte c i = file_byte d i)"

lemma same_upto_refl [simp]: "same_upto n c c"
  by (simp add: same_upto_def)

lemma same_upto_put: "same_upto n c d \<Longrightarrow> n \<le> off \<Longrightarrow> same_upto n (file_put c off bs) d"
  by (auto simp: same_upto_def file_byte_put)

lemma same_upto_put_both:
  "same_upto off c d \<Longrightarrow> same_upto (off + length bs) (file_put c off bs) (file_put d off bs)"
  by (auto simp: same_upto_def file_byte_put)

text \<open>Bytes that a write covers need not have been written before.\<close>

lemma same_upto_take: "same_upto (off + p) (file_put c off (take p a)) (file_put c off a)"
  by (auto simp: same_upto_def file_byte_put)

lemma file_put_covered:
  assumes "p \<le> length a" and "length a \<le> p + length bs"
  shows "file_put (file_put c off (take p a)) (off + p) bs = file_put (file_put c off a) (off + p) bs"
proof -
  have "file_put (file_put c off (take p a)) (off + p) bs = file_put c off (take p a @ bs)"
    using file_put_append [of c off "take p a" bs] assms(1) by simp
  then show ?thesis using file_put_inside [OF assms(1)] assms(2) by simp
qed

end
