(* ===== verification/Gfs_Pio_Spec.thy ===== *)
theory Gfs_Pio_Spec
  imports Gfs_Pio Plain_File
begin

text \<open>
  What buffered access to a file promises. The contract of a view is the locale \<open>file_view\<close>: it reads
  and writes a plain file, possibly in part, and may fail. Over any such view an open file is
  a plain file with a position (\<open>pio_file\<close>, \<open>pio_pos\<close>): the bytes in the buffer lie over
  those of the view.
\<close>

subsection \<open>The contract of a view\<close>

definition view_error :: "gfarm_error_t \<Rightarrow> bool" where
  "view_error e \<longleftrightarrow> e \<noteq> GFARM_ERR_NO_ERROR \<and> e \<noteq> GFARM_ERRMSG_GFS_PIO_IS_EOF"

definition view_got :: "byte list \<Rightarrow> int \<Rightarrow> int \<Rightarrow> gfarm_error_t + byte list \<Rightarrow> bool" where
  "view_got c n off r =
     (case r of
        Inl e \<Rightarrow> view_error e
      | Inr bs \<Rightarrow> int (length bs) \<le> n \<and> bs = take (length bs) (drop (nat off) c)
                  \<and> (bs = [] \<longrightarrow> int (length c) \<le> off))"

definition view_put :: "byte list \<Rightarrow> byte list \<Rightarrow> int \<Rightarrow> gfarm_error_t + int \<Rightarrow> byte list \<Rightarrow> bool" where
  "view_put c bs off r c' =
     (case r of
        Inl e \<Rightarrow> view_error e \<and> c' = c
      | Inr k \<Rightarrow> 0 < k \<and> k \<le> int (length bs) \<and> c' = file_put c (nat off) (take (nat k) bs))"

locale file_view =
  fixes ops :: "('v, 'w, 'st) gfs_pio_ops"
    and content :: "'v \<Rightarrow> 'w \<Rightarrow> byte list"
    and ready :: "'v \<Rightarrow> 'w \<Rightarrow> bool"
  assumes pread: "gf_view_context gf = Some v \<Longrightarrow> ready v w \<Longrightarrow> \<not> gf_calc_digest gf \<Longrightarrow>
      0 < n \<Longrightarrow> n \<le> GFS_FILE_BUFSIZE \<Longrightarrow> 0 \<le> off \<Longrightarrow>
      \<exists>r w'. view_pread ops gf n off w = Some (r, w') \<and> ready v w' \<and> content v w' = content v w
        \<and> view_got (content v w) n off r"
    and pwrite: "gf_view_context gf = Some v \<Longrightarrow> ready v w \<Longrightarrow> \<not> gf_calc_digest gf \<Longrightarrow>
      bs \<noteq> [] \<Longrightarrow> 0 \<le> off \<Longrightarrow>
      \<exists>r w'. view_pwrite ops gf bs off w = Some (r, w') \<and> ready v w'
        \<and> view_put (content v w) bs off r (content v w')"
    and ftruncate: "gf_view_context gf = Some v \<Longrightarrow> ready v w \<Longrightarrow> 0 \<le> n \<Longrightarrow>
      \<exists>r w'. view_ftruncate ops gf n w = Some (r, w') \<and> ready v w'
        \<and> (case r of Inl e \<Rightarrow> view_error e \<and> content v w' = content v w
                   | Inr _ \<Rightarrow> content v w' = file_truncate (content v w) (nat n))"
    and fsync: "gf_view_context gf = Some v \<Longrightarrow> ready v w \<Longrightarrow>
      operation = GFS_PROTO_FSYNC_WITHOUT_METADATA \<or> operation = GFS_PROTO_FSYNC_WITH_METADATA \<Longrightarrow>
      \<exists>r w'. view_fsync ops gf operation w = Some (r, w') \<and> ready v w' \<and> content v w' = content v w
        \<and> (case r of Inl e \<Rightarrow> view_error e | Inr _ \<Rightarrow> True)"

subsection \<open>The open file as a plain file\<close>

definition pio_data :: "'v gfs_file \<Rightarrow> byte list" where
  "pio_data gf = mem_read (gf_buffer gf) 0 (gf_length gf)"

definition pio_file :: "('v \<Rightarrow> 'w \<Rightarrow> byte list) \<Rightarrow> 'v \<Rightarrow> 'v gfs_file \<Rightarrow> 'w \<Rightarrow> byte list" where
  "pio_file content v gf w = file_put (content v w) (nat (gf_offset gf)) (pio_data gf)"

definition pio_pos :: "'v gfs_file \<Rightarrow> nat" where
  "pio_pos gf = nat (gf_offset gf + gf_p gf)"

text \<open>
  The invariant of a buffered file whose view is set. \<open>pio_wf\<close> is the part that holds even inside the
  operations; \<open>pio_inv\<close> adds what the figure in \<open>gfs_pio.h\<close> says of \<open>io_offset\<close>.
\<close>

definition pio_wf ::
  "('v \<Rightarrow> 'w \<Rightarrow> byte list) \<Rightarrow> ('v \<Rightarrow> 'w \<Rightarrow> bool) \<Rightarrow> 'v \<Rightarrow> 'v gfs_file \<Rightarrow> 'w \<Rightarrow> bool" where
  "pio_wf content ready v gf w \<longleftrightarrow>
     gf_view_context gf = Some v \<and> ready v w \<and> \<not> gf_calc_digest gf \<and> \<not> unbuffered gf
     \<and> 0 \<le> gf_p gf \<and> gf_p gf \<le> gf_length gf \<and> gf_length gf \<le> GFS_FILE_BUFSIZE \<and> 0 \<le> gf_offset gf
     \<and> (gf_buffer_dirty gf \<longrightarrow> gf_mode_write gf)
     \<and> (\<not> gf_buffer_dirty gf \<longrightarrow>
          pio_data gf = take (nat (gf_length gf)) (drop (nat (gf_offset gf)) (content v w)))
     \<and> (gf_error gf = GFARM_ERRMSG_GFS_PIO_IS_EOF \<longrightarrow>
          \<not> gf_buffer_dirty gf \<and> gf_p gf = gf_length gf \<and> length (content v w) \<le> pio_pos gf)"

definition pio_synced :: "'v gfs_file \<Rightarrow> bool" where
  "pio_synced gf \<longleftrightarrow>
     (\<not> gf_buffer_dirty gf \<or> gf_length gf = 0 \<longrightarrow> gf_io_offset gf = gf_offset gf + gf_length gf)"

definition pio_inv ::
  "('v \<Rightarrow> 'w \<Rightarrow> byte list) \<Rightarrow> ('v \<Rightarrow> 'w \<Rightarrow> bool) \<Rightarrow> 'v \<Rightarrow> 'v gfs_file \<Rightarrow> 'w \<Rightarrow> bool" where
  "pio_inv content ready v gf w \<longleftrightarrow>
     pio_wf content ready v gf w
     \<and> pio_synced gf"

text \<open>What no operation changes.\<close>

definition pio_frame :: "'v gfs_file \<Rightarrow> nat \<times> int \<times> bool \<times> bool \<times> u32" where
  "pio_frame gf = (gf_gfm_server gf, gf_fd gf, gf_mode_read gf, gf_mode_write gf, gf_open_flags gf)"

lemma length_pio_data [simp]: "length (pio_data gf) = nat (gf_length gf)"
  by (simp add: pio_data_def)

lemma unbuffered_frame: "pio_frame gf' = pio_frame gf \<Longrightarrow> unbuffered gf' = unbuffered gf"
  by (simp add: pio_frame_def unbuffered_def)

lemma write_only_frame: "pio_frame gf' = pio_frame gf \<Longrightarrow> write_only gf' = write_only gf"
  by (simp add: pio_frame_def write_only_def)

text \<open>Without unwritten bytes the plain file is that of the view.\<close>

lemma pio_file_clean:
  "pio_wf content ready v gf w \<Longrightarrow> \<not> gf_buffer_dirty gf \<Longrightarrow> pio_file content v gf w = content v w"
  by (simp add: pio_wf_def pio_file_def file_put_slice)

lemma pio_file_empty: "gf_length gf = 0 \<Longrightarrow> pio_file content v gf w = content v w"
  by (simp add: pio_file_def pio_data_def)

text \<open>What a reader finds in the buffer and behind it.\<close>

lemma pio_pos_nat: "pio_wf content ready v gf w \<Longrightarrow> pio_pos gf = nat (gf_offset gf) + nat (gf_p gf)"
  by (simp add: pio_wf_def pio_pos_def nat_add_distrib)

lemma pio_buffered_bytes:
  assumes "pio_wf content ready v gf w" and "0 \<le> n" and "gf_p gf + n \<le> gf_length gf"
  shows "mem_read (gf_buffer gf) (gf_p gf) n = take (nat n) (drop (pio_pos gf) (pio_file content v gf w))"
proof -
  have p: "0 \<le> gf_p gf" using assms(1) by (simp add: pio_wf_def)
  have "take (nat n) (drop (pio_pos gf) (pio_file content v gf w)) = take (nat n) (drop (nat (gf_p gf)) (pio_data gf))"
    unfolding pio_pos_nat [OF assms(1)] pio_file_def
    using assms p by (intro take_drop_file_put) (simp add: nat_add_distrib [symmetric])
  also have "\<dots> = mem_read (gf_buffer gf) (gf_p gf) n"
    using assms p by (simp add: pio_data_def drop_mem_read take_mem_read)
  finally show ?thesis by simp
qed

lemma pio_behind_buffer:
  assumes "pio_wf content ready v gf w" and "gf_p gf = gf_length gf"
  shows "drop (pio_pos gf) (pio_file content v gf w) = drop (pio_pos gf) (content v w)"
  unfolding pio_pos_nat [OF assms(1)] pio_file_def
  using drop_file_put_end [of "nat (gf_offset gf)" "pio_data gf" "content v w"] assms(2) by simp

text \<open>Forgetting an error changes nothing else.\<close>

lemma clearerr_simps [simp]:
  "pio_file content v (gfs_pio_clearerr gf) w = pio_file content v gf w"
  "pio_pos (gfs_pio_clearerr gf) = pio_pos gf" "pio_frame (gfs_pio_clearerr gf) = pio_frame gf"
  "pio_synced (gfs_pio_clearerr gf) = pio_synced gf" "pio_data (gfs_pio_clearerr gf) = pio_data gf"
  by (simp_all add: gfs_pio_clearerr_def pio_file_def pio_pos_def pio_frame_def pio_synced_def pio_data_def)

lemma clearerr_fields [simp]:
  "gf_view_context (gfs_pio_clearerr gf) = gf_view_context gf"
  "gf_mode_write (gfs_pio_clearerr gf) = gf_mode_write gf"
  "gf_open_flags (gfs_pio_clearerr gf) = gf_open_flags gf"
  "gf_calc_digest (gfs_pio_clearerr gf) = gf_calc_digest gf"
  "gf_buffer_dirty (gfs_pio_clearerr gf) = gf_buffer_dirty gf"
  "gf_io_offset (gfs_pio_clearerr gf) = gf_io_offset gf"
  "gf_buffer (gfs_pio_clearerr gf) = gf_buffer gf"
  "gf_p (gfs_pio_clearerr gf) = gf_p gf" "gf_length (gfs_pio_clearerr gf) = gf_length gf"
  "gf_offset (gfs_pio_clearerr gf) = gf_offset gf"
  "gf_error (gfs_pio_clearerr gf) = GFARM_ERR_NO_ERROR"
  by (simp_all add: gfs_pio_clearerr_def)

lemma purge_fields [simp]:
  "gf_view_context (gfs_pio_purge gf) = gf_view_context gf"
  "gf_mode_write (gfs_pio_purge gf) = gf_mode_write gf"
  "gf_open_flags (gfs_pio_purge gf) = gf_open_flags gf"
  "gf_calc_digest (gfs_pio_purge gf) = gf_calc_digest gf"
  "gf_buffer_dirty (gfs_pio_purge gf) = gf_buffer_dirty gf"
  "gf_io_offset (gfs_pio_purge gf) = gf_io_offset gf"
  "gf_buffer (gfs_pio_purge gf) = gf_buffer gf"
  "gf_p (gfs_pio_purge gf) = 0" "gf_length (gfs_pio_purge gf) = 0"
  "gf_offset (gfs_pio_purge gf) = gf_offset gf + gf_p gf" "gf_error (gfs_pio_purge gf) = gf_error gf"
  by (simp_all add: gfs_pio_purge_def)

lemma pio_wf_clearerr [simp]: "pio_wf content ready v gf w \<Longrightarrow> pio_wf content ready v (gfs_pio_clearerr gf) w"
  by (simp add: pio_wf_def gfs_pio_clearerr_def pio_data_def unbuffered_def)

lemma clearerr_id: "gf_error gf = GFARM_ERR_NO_ERROR \<Longrightarrow> gfs_pio_clearerr gf = gf"
  by (cases gf) (simp add: gfs_pio_clearerr_def)

lemma no_error_iff:
  "GFS_PIO_ERROR gf = GFARM_ERR_NO_ERROR \<longleftrightarrow>
     gf_error gf = GFARM_ERR_NO_ERROR \<or> gf_error gf = GFARM_ERRMSG_GFS_PIO_IS_EOF"
  by (auto simp: GFS_PIO_ERROR_def)

lemma check_view_ok:
  "gf_view_context gf = Some v \<Longrightarrow> GFS_PIO_ERROR gf = GFARM_ERR_NO_ERROR \<Longrightarrow>
     gfs_pio_check_view_default ops gf w = Some (Inr (), gf, w)"
  by (simp add: gfs_pio_check_view_default_def gfs_pio_is_view_set_def)

lemma check_view_error:
  "GFS_PIO_ERROR gf \<noteq> GFARM_ERR_NO_ERROR \<Longrightarrow>
     gfs_pio_check_view_default ops gf w = Some (Inl (gf_error gf), gf, w)"
  by (simp add: gfs_pio_check_view_default_def GFS_PIO_ERROR_def split: if_splits)

lemma check_writable:
  "GFS_PIO_ERROR gf = GFARM_ERR_NO_ERROR \<Longrightarrow>
     CHECK_WRITABLE gf w =
       (if gf_mode_write gf then Some (Inr (), gfs_pio_clearerr gf, w)
        else Some (Inl (errno_error EBADF), gf, w))"
  by (auto simp: CHECK_WRITABLE_def no_error_iff clearerr_id gfs_pio_clearerr_def)

lemma EBADF_error: "errno_error EBADF \<noteq> GFARM_ERR_NO_ERROR"
  by (rule errno_error_nonzero) simp

lemma purge_simps [simp]:
  "pio_pos (gfs_pio_purge gf) = pio_pos gf" "pio_frame (gfs_pio_purge gf) = pio_frame gf"
  by (simp_all add: gfs_pio_purge_def pio_pos_def pio_frame_def)

lemma pio_wf_purge:
  "pio_wf content ready v gf w \<Longrightarrow> \<not> gf_buffer_dirty gf \<Longrightarrow> gf_p gf = gf_length gf \<Longrightarrow>
     pio_wf content ready v (gfs_pio_purge gf) w
     \<and> pio_file content v (gfs_pio_purge gf) w = pio_file content v gf w"
  by (auto simp: pio_file_clean pio_file_empty gfs_pio_purge_def pio_wf_def pio_data_def pio_pos_def unbuffered_def)

subsection \<open>Writing the buffer out\<close>

lemma do_write_Nil: "do_write ops [] gf w = Some ((GFARM_ERR_NO_ERROR, 0), gf, w)"
  by (simp add: do_write_def)

context file_view
begin

lemma do_write_loop_spec:
  assumes "gf_view_context gf = Some v" and "ready v w" and "\<not> gf_calc_digest gf" and "0 \<le> off"
    and "0 \<le> written" and "written \<le> int (length bs)" and "gf_io_offset gf = off + written"
    and "content v w = file_put c (nat off) (take (nat written) bs)"
  shows "\<exists>e written' w'. do_write_loop ops bs written gf w = Some ((e, written'),
             gf\<lparr>gf_io_offset := off + written',
                gf_error := if e = GFARM_ERR_NO_ERROR then gf_error gf else e\<rparr>, w')
           \<and> written \<le> written' \<and> written' \<le> int (length bs) \<and> ready v w'
           \<and> content v w' = file_put c (nat off) (take (nat written') bs)
           \<and> (if e = GFARM_ERR_NO_ERROR then written' = int (length bs) else view_error e)"
  using assms
proof (induction "nat (int (length bs) - written)" arbitrary: gf w written rule: less_induct)
  case less
  note unf = do_write_loop.simps [of ops bs written gf w]
  show ?case
  proof (cases "written < int (length bs)")
    case False
    then have eq: "written = int (length bs)" using less.prems(6) by simp
    have same: "gf\<lparr>gf_io_offset := off + int (length bs)\<rparr> = gf"
      using less.prems(7) eq by (cases gf) simp
    show ?thesis using less.prems False
      by - (rule exI [of _ "GFARM_ERR_NO_ERROR"], rule exI [of _ written], rule exI [of _ w], simp add: unf [unfolded eq] eq same)
  next
    case True
    let ?rest = "drop (nat written) bs"
    have rest: "?rest \<noteq> []" "0 \<le> gf_io_offset gf" using True less.prems by auto
    obtain r w' where put: "view_pwrite ops gf ?rest (gf_io_offset gf) w = Some (r, w')" "ready v w'"
      "view_put (content v w) ?rest (gf_io_offset gf) r (content v w')"
      using pwrite [OF less.prems(1,2,3) rest] by blast
    show ?thesis
    proof (cases r)
      case (Inl e)
      have "gf\<lparr>gf_error := e\<rparr> = gf\<lparr>gf_io_offset := off + written, gf_error := e\<rparr>"
        using less.prems(7) by (cases gf) simp
      then show ?thesis
        using put less.prems True Inl
        by - (rule exI [of _ e], rule exI [of _ written], rule exI [of _ w'], simp add: unf view_put_def view_error_def)
    next
      case (Inr k)
      let ?gf = "gf\<lparr>gf_io_offset := gf_io_offset gf + k\<rparr>"
      have k: "0 < k" "k \<le> int (length bs) - written"
        and c': "content v w' = file_put (content v w) (nat (off + written)) (take (nat k) ?rest)"
        using put(3) Inr less.prems True by (auto simp: view_put_def)
      have "nat (off + written) = nat off + nat written" using less.prems by (simp add: nat_add_distrib)
      then have "content v w' = file_put c (nat off) (take (nat written + nat k) bs)"
        using c' less.prems(8) by (simp add: file_put_take_drop)
      then have c'': "content v w' = file_put c (nat off) (take (nat (written + k)) bs)"
        using less.prems k by (simp add: nat_add_distrib)
      have "nat (int (length bs) - (written + k)) < nat (int (length bs) - written)"
        using k True by simp
      from less.hyps [OF this, of ?gf w'] obtain e written' w'' where
        "do_write_loop ops bs (written + k) ?gf w' = Some ((e, written'),
             ?gf\<lparr>gf_io_offset := off + written',
                gf_error := if e = GFARM_ERR_NO_ERROR then gf_error ?gf else e\<rparr>, w'')"
        "written + k \<le> written'" "written' \<le> int (length bs)" "ready v w''"
        "content v w'' = file_put c (nat off) (take (nat written') bs)"
        "if e = GFARM_ERR_NO_ERROR then written' = int (length bs) else view_error e"
        using less.prems k put(2) c'' by auto
      then show ?thesis
        using True put(1) Inr k
        by - (rule exI [of _ e], rule exI [of _ written'], rule exI [of _ w''], simp add: unf)
    qed
  qed
qed

lemma do_write_spec:
  assumes "gf_view_context gf = Some v" and "ready v w" and "\<not> gf_calc_digest gf" and "0 \<le> gf_offset gf"
  shows "\<exists>e written io w'. do_write ops bs gf w = Some ((e, written),
             gf\<lparr>gf_io_offset := io,
                gf_error := if e = GFARM_ERR_NO_ERROR then gf_error gf else e\<rparr>, w')
           \<and> 0 \<le> written \<and> written \<le> int (length bs) \<and> ready v w'
           \<and> (bs \<noteq> [] \<longrightarrow> io = gf_offset gf + written)
           \<and> content v w' = file_put (content v w) (nat (gf_offset gf)) (take (nat written) bs)
           \<and> (if e = GFARM_ERR_NO_ERROR then written = int (length bs) else view_error e)"
proof (cases "bs = []")
  case True
  have "gf\<lparr>gf_io_offset := gf_io_offset gf, gf_error := gf_error gf\<rparr> = gf" by (cases gf) simp
  then show ?thesis
    using True assms
    by - (rule exI [of _ "GFARM_ERR_NO_ERROR"], rule exI [of _ 0], rule exI [of _ "gf_io_offset gf"],
        rule exI [of _ w], simp add: do_write_def)
next
  case False
  let ?gf = "if gf_io_offset gf \<noteq> gf_offset gf
              then gf\<lparr>gf_calc_digest := False, gf_io_offset := gf_offset gf\<rparr> else gf"
  have gf: "?gf\<lparr>gf_io_offset := io, gf_error := e\<rparr> = gf\<lparr>gf_io_offset := io, gf_error := e\<rparr>" for io e
    using assms(3) by (cases gf) simp
  have err: "gf_error ?gf = gf_error gf" by simp
  have "\<exists>e written w'. do_write_loop ops bs 0 ?gf w = Some ((e, written),
             ?gf\<lparr>gf_io_offset := gf_offset gf + written,
                gf_error := if e = GFARM_ERR_NO_ERROR then gf_error ?gf else e\<rparr>, w')
           \<and> 0 \<le> written \<and> written \<le> int (length bs) \<and> ready v w'
           \<and> content v w' = file_put (content v w) (nat (gf_offset gf)) (take (nat written) bs)
           \<and> (if e = GFARM_ERR_NO_ERROR then written = int (length bs) else view_error e)"
    using assms by (intro do_write_loop_spec) auto
  then show ?thesis
    unfolding gf err do_write_def using False by auto
qed

text \<open>
  Flushing keeps the plain file and the position, even when it fails halfway. Afterwards nothing is
  unwritten; a buffer that has been read to its end is empty.
\<close>

definition flushed :: "'v gfs_file \<Rightarrow> gfarm_error_t + unit \<Rightarrow> 'v gfs_file \<Rightarrow> bool" where
  "flushed gf r gf' \<longleftrightarrow>
     (case r of
        Inl e \<Rightarrow> view_error e \<and> gf_error gf' = e \<and> gf_buffer_dirty gf \<and> gf_buffer_dirty gf' \<and> gf_length gf \<noteq> 0
          \<and> gf_p gf' = gf_p gf \<and> gf_length gf' = gf_length gf \<and> gf_offset gf' = gf_offset gf
      | Inr _ \<Rightarrow> \<not> gf_buffer_dirty gf' \<and> gf_error gf' = GFARM_ERR_NO_ERROR
          \<and> (if gf_p gf = gf_length gf then gf_p gf' = 0 \<and> gf_length gf' = 0
             else gf_p gf' = gf_p gf \<and> gf_length gf' = gf_length gf \<and> gf_offset gf' = gf_offset gf)
          \<and> (gf_buffer_dirty gf \<and> gf_length gf \<noteq> 0 \<or> pio_synced gf \<longrightarrow> pio_synced gf'))"

lemma flush_spec:
  assumes wf: "pio_wf content ready v gf w" and ok: "GFS_PIO_ERROR gf = GFARM_ERR_NO_ERROR"
    and wr: "gf_mode_write gf"
  shows "\<exists>r gf' w'. gfs_pio_flush ops gf w = Some (r, gf', w')
     \<and> pio_wf content ready v gf' w' \<and> pio_frame gf' = pio_frame gf
     \<and> pio_file content v gf' w' = pio_file content v gf w \<and> pio_pos gf' = pio_pos gf
     \<and> flushed gf r gf'"
proof -
  let ?g = "gfs_pio_clearerr gf"
  note W = wf [unfolded pio_wf_def]
  have g: "pio_wf content ready v ?g w" using wf by simp
  have head: "gfs_pio_flush ops gf w =
      pio_bind (\<lambda>gf w.
         if gf_buffer_dirty gf then
           (case do_write ops (mem_read (gf_buffer gf) 0 (gf_length gf)) gf w of
              None \<Rightarrow> None
            | Some ((e, _), gf', w') \<Rightarrow>
                if e \<noteq> GFARM_ERR_NO_ERROR then Some (Inl e, gf', w')
                else Some (Inr (), gf'\<lparr>gf_buffer_dirty := False\<rparr>, w'))
         else Some (Inr (), gf, w)) (\<lambda>_ gf w.
     Some (Inr (), if gf_p gf \<ge> gf_length gf then gfs_pio_purge gf else gf, w)) ?g w"
    using W ok wr by (simp add: gfs_pio_flush_def pio_bind_def check_view_ok check_writable)
  show ?thesis
  proof (cases "gf_buffer_dirty gf")
    case False
    let ?gf' = "if gf_p ?g \<ge> gf_length ?g then gfs_pio_purge ?g else ?g"
    have run: "gfs_pio_flush ops gf w = Some (Inr (), ?gf', w)"
      using False unfolding head by (simp add: pio_bind_def)
    have "pio_wf content ready v ?gf' w \<and> pio_file content v ?gf' w = pio_file content v gf w"
      using pio_wf_purge [OF g] g False W by auto
    moreover have "flushed gf (Inr ()) ?gf'"
      using False W by (auto simp: flushed_def pio_synced_def)
    ultimately show ?thesis using run by (auto intro!: exI [of _ "Inr ()"])
  next
    case dirty: True
    let ?bs = "pio_data gf"
    have pre: "gf_view_context ?g = Some v" "\<not> gf_calc_digest ?g" "0 \<le> gf_offset ?g"
      using g by (simp_all add: pio_wf_def)
    obtain e written io w' where wrt: "do_write ops ?bs ?g w = Some ((e, written),
             ?g\<lparr>gf_io_offset := io, gf_error := if e = GFARM_ERR_NO_ERROR then gf_error ?g else e\<rparr>, w')"
      and wn: "0 \<le> written" "written \<le> int (length ?bs)" and rd: "ready v w'"
      and io: "?bs \<noteq> [] \<longrightarrow> io = gf_offset ?g + written"
      and c': "content v w' = file_put (content v w) (nat (gf_offset ?g)) (take (nat written) ?bs)"
      and fin: "if e = GFARM_ERR_NO_ERROR then written = int (length ?bs) else view_error e"
      using do_write_spec [OF pre(1) _ pre(2,3), of w "pio_data gf"] W by blast
    have data: "mem_read (gf_buffer ?g) 0 (gf_length ?g) = ?bs"
      by (simp add: pio_data_def gfs_pio_clearerr_def)
    have off: "gf_offset ?g = gf_offset gf" "gf_buffer_dirty ?g" using dirty by (simp_all add: gfs_pio_clearerr_def)
    have keep: "file_put (content v w') (nat (gf_offset gf)) ?bs = pio_file content v gf w"
      using c' wn unfolding pio_file_def off by (simp add: file_put_absorb)
    show ?thesis
    proof (cases "e = GFARM_ERR_NO_ERROR")
      case False
      let ?gf' = "gf\<lparr>gf_io_offset := io, gf_error := e\<rparr>"
      have ve: "view_error e" using fin False by simp
      have "?bs \<noteq> []"
      proof
        assume "?bs = []"
        from wrt [unfolded this] False show False by (simp add: do_write_Nil)
      qed
      then have len: "gf_length gf \<noteq> 0" by (auto simp: pio_data_def)
      have run: "gfs_pio_flush ops gf w = Some (Inl e, ?gf', w')"
        using False wrt data off unfolding head by (simp add: pio_bind_def gfs_pio_clearerr_def)
      have "pio_wf content ready v ?gf' w'"
        using W dirty rd ve by (simp add: pio_wf_def unbuffered_def view_error_def)
      moreover have "pio_file content v ?gf' w' = pio_file content v gf w"
        using keep by (simp add: pio_file_def pio_data_def)
      moreover have "flushed gf (Inl e) ?gf'" using ve dirty len by (simp add: flushed_def)
      ultimately show ?thesis using run by (auto simp: pio_frame_def pio_pos_def)
    next
      case True
      let ?m = "gf\<lparr>gf_io_offset := io, gf_error := GFARM_ERR_NO_ERROR, gf_buffer_dirty := False\<rparr>"
      let ?gf' = "if gf_p ?m \<ge> gf_length ?m then gfs_pio_purge ?m else ?m"
      have all: "take (nat written) ?bs = ?bs" using fin True by simp
      have run: "gfs_pio_flush ops gf w = Some (Inr (), ?gf', w')"
        using True wrt data off unfolding head by (simp add: pio_bind_def gfs_pio_clearerr_def)
      have "take (nat (gf_length gf)) (drop (nat (gf_offset gf)) (content v w')) = ?bs"
        using take_drop_file_put [of 0 "length ?bs" ?bs "nat (gf_offset gf)" "content v w"]
        unfolding c' off all by simp
      then have m: "pio_wf content ready v ?m w'"
        using W rd by (simp add: pio_wf_def unbuffered_def pio_data_def)
      have fm: "pio_file content v ?m w' = pio_file content v gf w"
        using keep by (simp add: pio_file_def pio_data_def)
      have "pio_wf content ready v ?gf' w' \<and> pio_file content v ?gf' w' = pio_file content v gf w"
        using pio_wf_purge [OF m] m fm W by auto
      moreover have "flushed gf (Inr ()) ?gf'"
      proof -
        have "gf_length gf \<noteq> 0 \<Longrightarrow> io = gf_offset gf + gf_length gf"
          using io fin True off W by (auto simp: pio_data_def)
        moreover have "io = gf_io_offset gf" if "gf_length gf = 0"
        proof -
          have nil: "?bs = []" using that by (simp add: pio_data_def)
          from wrt [unfolded nil] have "?g = ?g\<lparr>gf_io_offset := io, gf_error := GFARM_ERR_NO_ERROR\<rparr>"
            using True by (simp add: do_write_Nil)
          then have "gf_io_offset ?g = gf_io_offset (?g\<lparr>gf_io_offset := io, gf_error := GFARM_ERR_NO_ERROR\<rparr>)"
            by (rule arg_cong)
          then show ?thesis by simp
        qed
        ultimately show ?thesis using W by (auto simp: flushed_def gfs_pio_purge_def pio_synced_def)
      qed
      moreover have "pio_frame ?gf' = pio_frame gf" "pio_pos ?gf' = pio_pos gf"
        by (simp_all add: pio_frame_def pio_pos_def gfs_pio_purge_def)
      ultimately show ?thesis using run by (intro exI conjI) auto
    qed
  qed
qed

subsection \<open>Reading\<close>

text \<open>
  Moving inside the buffer, which is what reading, writing and seeking have in common.
\<close>

lemma pio_inv_move:
  assumes "pio_inv content ready v gf w" and "gf_error gf = GFARM_ERR_NO_ERROR"
    and "0 \<le> q" and "q \<le> gf_length gf"
  shows "pio_inv content ready v (gf\<lparr>gf_p := q\<rparr>) w"
    and "pio_file content v (gf\<lparr>gf_p := q\<rparr>) w = pio_file content v gf w"
    and "pio_frame (gf\<lparr>gf_p := q\<rparr>) = pio_frame gf"
  using assms by (simp_all add: pio_inv_def pio_wf_def pio_synced_def pio_file_def pio_data_def
      unbuffered_def pio_frame_def)

text \<open>Filling the empty buffer of a file without unwritten bytes.\<close>

lemma fill_spec:
  assumes inv: "pio_inv content ready v gf w" and clean: "\<not> gf_buffer_dirty gf"
    and empty: "gf_p gf = 0" "gf_length gf = 0" and err: "gf_error gf = GFARM_ERR_NO_ERROR"
    and n: "0 < n" "n \<le> GFS_FILE_BUFSIZE"
  obtains r w' where "view_pread ops gf n (gf_io_offset gf) w = Some (r, w')"
    and "gf_io_offset gf = gf_offset gf"
    and "\<And>e. r = Inl e \<Longrightarrow> view_error e \<and> pio_inv content ready v (gf\<lparr>gf_error := e\<rparr>) w'
       \<and> pio_file content v (gf\<lparr>gf_error := e\<rparr>) w' = pio_file content v gf w"
    and "\<And>bs gf'. r = Inr bs \<Longrightarrow>
       gf' = gf\<lparr>gf_buffer := mem_write (gf_buffer gf) 0 bs, gf_length := int (length bs),
                gf_io_offset := gf_io_offset gf + int (length bs),
                gf_error := if bs = [] then GFARM_ERRMSG_GFS_PIO_IS_EOF else gf_error gf\<rparr> \<Longrightarrow>
       pio_inv content ready v gf' w' \<and> pio_file content v gf' w' = pio_file content v gf w
       \<and> pio_frame gf' = pio_frame gf \<and> pio_pos gf' = pio_pos gf
       \<and> (if bs = [] then gf_error gf' = GFARM_ERRMSG_GFS_PIO_IS_EOF
                        \<and> length (pio_file content v gf w) \<le> pio_pos gf
          else gf_error gf' = GFARM_ERR_NO_ERROR \<and> gf_p gf' < gf_length gf')"
proof -
  note W = inv [unfolded pio_inv_def pio_wf_def pio_synced_def]
  have io: "gf_io_offset gf = gf_offset gf" using W clean empty by simp
  then have io0: "0 \<le> gf_io_offset gf" using W by simp
  have v: "gf_view_context gf = Some v" "ready v w" "\<not> gf_calc_digest gf" using W by auto
  obtain r w' where rd: "view_pread ops gf n (gf_io_offset gf) w = Some (r, w')"
    "ready v w'" "content v w' = content v w" "view_got (content v w) n (gf_io_offset gf) r"
    using pread [OF v n io0] by blast
  show thesis
  proof (rule that [OF rd(1) io])
    fix e assume "r = Inl e"
    then show "view_error e \<and> pio_inv content ready v (gf\<lparr>gf_error := e\<rparr>) w'
       \<and> pio_file content v (gf\<lparr>gf_error := e\<rparr>) w' = pio_file content v gf w"
      using W clean rd by (auto simp: view_got_def view_error_def pio_inv_def pio_wf_def pio_synced_def
          pio_file_def pio_data_def unbuffered_def)
  next
    fix bs gf'
    assume r: "r = Inr bs"
      and gf': "gf' = gf\<lparr>gf_buffer := mem_write (gf_buffer gf) 0 bs, gf_length := int (length bs),
                gf_io_offset := gf_io_offset gf + int (length bs),
                gf_error := if bs = [] then GFARM_ERRMSG_GFS_PIO_IS_EOF else gf_error gf\<rparr>"
    have bs: "int (length bs) \<le> n" "bs = take (length bs) (drop (nat (gf_offset gf)) (content v w))"
      "bs = [] \<longrightarrow> int (length (content v w)) \<le> gf_offset gf"
      using rd(4) r io by (auto simp: view_got_def)
    have data: "pio_data gf' = bs" by (simp add: pio_data_def gf' mem_read_write_same)
    have wf': "pio_wf content ready v gf' w'"
      using W clean empty rd n err bs data by (auto simp: gf' pio_wf_def unbuffered_def pio_pos_def)
    have "pio_file content v gf' w' = content v w" "pio_file content v gf w = content v w"
      using pio_file_clean [OF wf'] pio_file_empty [OF empty(2), of content v w] clean rd(3) by (simp_all add: gf')
    then show "pio_inv content ready v gf' w' \<and> pio_file content v gf' w' = pio_file content v gf w
       \<and> pio_frame gf' = pio_frame gf \<and> pio_pos gf' = pio_pos gf
       \<and> (if bs = [] then gf_error gf' = GFARM_ERRMSG_GFS_PIO_IS_EOF
                        \<and> length (pio_file content v gf w) \<le> pio_pos gf
          else gf_error gf' = GFARM_ERR_NO_ERROR \<and> gf_p gf' < gf_length gf')"
      using wf' io bs(3) W empty err
      by (auto simp: pio_inv_def pio_synced_def gf' pio_frame_def pio_pos_def)
  qed
qed

lemma fillbuf_spec:
  assumes inv: "pio_inv content ready v gf w" and ok: "GFS_PIO_ERROR gf = GFARM_ERR_NO_ERROR"
    and rd: "\<not> write_only gf" and n: "0 < n" "n \<le> GFS_FILE_BUFSIZE"
  shows "\<exists>r gf' w'. gfs_pio_fillbuf ops n gf w = Some (r, gf', w')
     \<and> pio_inv content ready v gf' w' \<and> pio_frame gf' = pio_frame gf
     \<and> pio_file content v gf' w' = pio_file content v gf w \<and> pio_pos gf' = pio_pos gf
     \<and> (case r of
          Inl e \<Rightarrow> view_error e \<and> gf_error gf' = e
        | Inr _ \<Rightarrow>
            if gf_error gf' = GFARM_ERR_NO_ERROR then gf_p gf' < gf_length gf'
            else gf_error gf' = GFARM_ERRMSG_GFS_PIO_IS_EOF
                 \<and> length (pio_file content v gf w) \<le> pio_pos gf)"
proof -
  note I = inv [unfolded pio_inv_def]
  note W = conjunct1 [OF I, unfolded pio_wf_def]
  note run = gfs_pio_fillbuf_def pio_bind_def CHECK_READABLE_def
  consider (eof) "gf_error gf = GFARM_ERRMSG_GFS_PIO_IS_EOF"
    | (rest) "gf_error gf = GFARM_ERR_NO_ERROR" "gf_p gf < gf_length gf"
    | (fill) "gf_error gf = GFARM_ERR_NO_ERROR" "gf_p gf = gf_length gf"
    using ok W by (fastforce simp: no_error_iff)
  then show ?thesis
  proof cases
    case eof
    then show ?thesis
      using rd inv W pio_file_clean [OF conjunct1 [OF I]]
      by (simp add: run pio_status_def pio_return_def GFS_PIO_ERROR_def)
  next
    case rest
    then show ?thesis using rd inv by (simp add: run)
  next
    case fill
    let ?prep = "if gf_buffer_dirty gf then gfs_pio_flush ops gf w else Some (Inr (), gfs_pio_purge gf, w)"
    obtain r1 g w1 where prep: "?prep = Some (r1, g, w1)"
      and g: "pio_inv content ready v g w1" "pio_frame g = pio_frame gf"
        "pio_file content v g w1 = pio_file content v gf w" "pio_pos g = pio_pos gf"
      and r1: "case r1 of Inl e \<Rightarrow> view_error e \<and> gf_error g = e
        | Inr _ \<Rightarrow> \<not> gf_buffer_dirty g \<and> gf_p g = 0 \<and> gf_length g = 0 \<and> gf_error g = GFARM_ERR_NO_ERROR"
    proof (cases "gf_buffer_dirty gf")
      case False
      then have "pio_wf content ready v (gfs_pio_purge gf) w
          \<and> pio_file content v (gfs_pio_purge gf) w = pio_file content v gf w"
        using I fill by (intro pio_wf_purge) auto
      then have "pio_inv content ready v (gfs_pio_purge gf) w"
        using I False fill by (simp add: pio_inv_def pio_synced_def)
      then show ?thesis
        using False fill \<open>pio_wf content ready v (gfs_pio_purge gf) w \<and> _\<close>
        by (intro that [of "Inr ()" "gfs_pio_purge gf" w]) auto
    next
      case True
      then have "gf_mode_write gf" using W by simp
      from flush_spec [OF conjunct1 [OF I] ok this] obtain r g w1 where
        "gfs_pio_flush ops gf w = Some (r, g, w1)" "pio_wf content ready v g w1"
        "pio_frame g = pio_frame gf" "pio_file content v g w1 = pio_file content v gf w"
        "pio_pos g = pio_pos gf" "flushed gf r g" by blast
      then show ?thesis
        using True fill I
        by (intro that [of r g w1]) (auto simp: pio_inv_def flushed_def pio_synced_def split: sum.splits)
    qed
    have head: "gfs_pio_fillbuf ops n gf w =
        (case r1 of Inl e \<Rightarrow> Some (Inl e, g, w1)
         | Inr _ \<Rightarrow>
             if gf_io_offset g \<noteq> gf_offset g then None
              else case view_pread ops g n (gf_io_offset g) w1 of
                None \<Rightarrow> None
              | Some (Inl e, w') \<Rightarrow> Some (Inl e, g\<lparr>gf_error := e\<rparr>, w')
              | Some (Inr bs, w') \<Rightarrow>
                  Some (Inr (),
                    g\<lparr>gf_buffer := mem_write (gf_buffer g) 0 bs, gf_length := int (length bs),
                       gf_io_offset := gf_io_offset g + int (length bs),
                       gf_error := if bs = [] then GFARM_ERRMSG_GFS_PIO_IS_EOF else gf_error g\<rparr>,
                    w'))"
      using rd fill prep by (simp add: run split: sum.split)
    show ?thesis
    proof (cases r1)
      case (Inl e)
      then show ?thesis using head g r1 by auto
    next
      case (Inr u)
      then have e: "\<not> gf_buffer_dirty g" "gf_p g = 0" "gf_length g = 0" "gf_error g = GFARM_ERR_NO_ERROR"
        using r1 by auto
      obtain r w' where rp: "view_pread ops g n (gf_io_offset g) w1 = Some (r, w')"
        "gf_io_offset g = gf_offset g"
        and bad: "\<And>e. r = Inl e \<Longrightarrow> view_error e \<and> pio_inv content ready v (g\<lparr>gf_error := e\<rparr>) w'
           \<and> pio_file content v (g\<lparr>gf_error := e\<rparr>) w' = pio_file content v g w1"
        and good: "\<And>bs gf'. r = Inr bs \<Longrightarrow>
           gf' = g\<lparr>gf_buffer := mem_write (gf_buffer g) 0 bs, gf_length := int (length bs),
                gf_io_offset := gf_io_offset g + int (length bs),
                gf_error := if bs = [] then GFARM_ERRMSG_GFS_PIO_IS_EOF else gf_error g\<rparr> \<Longrightarrow>
           pio_inv content ready v gf' w' \<and> pio_file content v gf' w' = pio_file content v g w1
           \<and> pio_frame gf' = pio_frame g \<and> pio_pos gf' = pio_pos g
           \<and> (if bs = [] then gf_error gf' = GFARM_ERRMSG_GFS_PIO_IS_EOF
                        \<and> length (pio_file content v g w1) \<le> pio_pos g
              else gf_error gf' = GFARM_ERR_NO_ERROR \<and> gf_p gf' < gf_length gf')"
        using fill_spec [OF g(1) e n] by blast
      show ?thesis
      proof (cases r)
        case (Inl e)
        have "pio_frame (g\<lparr>gf_error := e\<rparr>) = pio_frame g" "pio_pos (g\<lparr>gf_error := e\<rparr>) = pio_pos g"
          by (simp_all add: pio_frame_def pio_pos_def)
        then show ?thesis using head Inr Inl rp bad [OF Inl] g by simp
      next
        case (Inr bs)
        from good [OF Inr refl] show ?thesis
          using head \<open>r1 = Inr u\<close> Inr rp g by (auto split: if_splits)
      qed
    qed
  qed
qed

lemma read_loop_spec:
  assumes "pio_inv content ready v gf w" and "GFS_PIO_ERROR gf = GFARM_ERR_NO_ERROR"
    and "\<not> write_only gf"
  shows "\<exists>e more gf' w'. gfs_pio_read_loop ops sz got gf w = Some ((e, got @ more), gf', w')
     \<and> pio_inv content ready v gf' w' \<and> pio_frame gf' = pio_frame gf
     \<and> pio_file content v gf' w' = pio_file content v gf w
     \<and> more = take (length more) (drop (pio_pos gf) (pio_file content v gf w))
     \<and> pio_pos gf' = pio_pos gf + length more \<and> length more \<le> nat sz
     \<and> (if e = GFARM_ERR_NO_ERROR
        then GFS_PIO_ERROR gf' = GFARM_ERR_NO_ERROR
             \<and> more = take (nat sz) (drop (pio_pos gf) (pio_file content v gf w))
        else view_error e \<and> gf_error gf' = e)"
  using assms
proof (induction "nat sz" arbitrary: sz got gf w rule: less_induct)
  case less
  note unf = gfs_pio_read_loop.simps [of ops sz got gf w]
  show ?case
  proof (cases "0 < sz")
    case False
    then show ?thesis using less.prems
      by - (rule exI [of _ "GFARM_ERR_NO_ERROR"], rule exI [of _ "[]"], rule exI [of _ gf],
          rule exI [of _ w], simp add: unf)
  next
    case True
    have nb: "\<not> unbuffered gf" using less.prems(1) by (simp add: pio_inv_def pio_wf_def)
    obtain r g w1 where fill: "gfs_pio_fillbuf ops GFS_FILE_BUFSIZE gf w = Some (r, g, w1)"
      and g: "pio_inv content ready v g w1" "pio_frame g = pio_frame gf"
        "pio_file content v g w1 = pio_file content v gf w" "pio_pos g = pio_pos gf"
      and r: "case r of Inl e \<Rightarrow> view_error e \<and> gf_error g = e
        | Inr _ \<Rightarrow> if gf_error g = GFARM_ERR_NO_ERROR then gf_p g < gf_length g
            else gf_error g = GFARM_ERRMSG_GFS_PIO_IS_EOF
                 \<and> length (pio_file content v gf w) \<le> pio_pos gf"
      using fillbuf_spec [OF less.prems, of GFS_FILE_BUFSIZE] by auto
    show ?thesis
    proof (cases r)
      case (Inl e)
      then show ?thesis using fill g r True nb
        by - (rule exI [of _ e], rule exI [of _ "[]"], rule exI [of _ g], rule exI [of _ w1],
            simp add: unf view_error_def)
    next
      case (Inr u)
      show ?thesis
      proof (cases "gf_error g = GFARM_ERR_NO_ERROR")
        case False
        then show ?thesis using fill g r True nb Inr
          by - (rule exI [of _ "GFARM_ERR_NO_ERROR"], rule exI [of _ "[]"], rule exI [of _ g],
              rule exI [of _ w1], simp add: unf GFS_PIO_ERROR_def)
      next
        case ok: True
        define len where "len = (if gf_length g - gf_p g > sz then sz else gf_length g - gf_p g)"
        let ?chunk = "mem_read (gf_buffer g) (gf_p g) len" and ?h = "g\<lparr>gf_p := gf_p g + len\<rparr>"
        have wf: "pio_wf content ready v g w1" using g(1) by (simp add: pio_inv_def)
        then have p0: "0 \<le> gf_p g" by (simp add: pio_wf_def)
        have len: "0 < len" "len \<le> sz" "gf_p g + len \<le> gf_length g"
          using r Inr ok True by (auto simp: len_def)
        have chunk: "?chunk = take (nat len) (drop (pio_pos gf) (pio_file content v gf w))"
          using pio_buffered_bytes [OF wf _ len(3)] len g by simp
        have h: "pio_inv content ready v ?h w1" "pio_file content v ?h w1 = pio_file content v gf w"
          "pio_frame ?h = pio_frame gf"
          using pio_inv_move [OF g(1) ok, of "gf_p g + len"] p0 len g by simp_all
        have pos: "pio_pos ?h = pio_pos gf + nat len"
          using g(4) p0 wf len by (simp add: pio_pos_def pio_wf_def nat_add_distrib)
        have step: "gfs_pio_read_loop ops sz got gf w =
            gfs_pio_read_loop ops (sz - len) (got @ ?chunk) ?h w1"
          unfolding unf len_def using True nb fill Inr ok by (simp add: Let_def)
        have "nat (sz - len) < nat sz" using len True by simp
        moreover have "GFS_PIO_ERROR ?h = GFARM_ERR_NO_ERROR" using ok by (simp add: GFS_PIO_ERROR_def)
        moreover have "\<not> write_only ?h" using less.prems(3) write_only_frame [OF h(3)] by simp
        ultimately obtain e more gf' w' where
          IH: "gfs_pio_read_loop ops (sz - len) (got @ ?chunk) ?h w1 = Some ((e, (got @ ?chunk) @ more), gf', w')"
          "pio_inv content ready v gf' w'" "pio_frame gf' = pio_frame ?h"
          "pio_file content v gf' w' = pio_file content v ?h w1"
          "more = take (length more) (drop (pio_pos ?h) (pio_file content v ?h w1))"
          "pio_pos gf' = pio_pos ?h + length more" "length more \<le> nat (sz - len)"
          "if e = GFARM_ERR_NO_ERROR
            then GFS_PIO_ERROR gf' = GFARM_ERR_NO_ERROR
              \<and> more = take (nat (sz - len)) (drop (pio_pos ?h) (pio_file content v ?h w1))
            else view_error e \<and> gf_error gf' = e"
          using less.hyps [of "sz - len" ?h w1 "got @ ?chunk"] h(1) by blast
        have nat: "nat sz = nat len + nat (sz - len)" using len by simp
        define all where "all = ?chunk @ more"
        have all: "all = take (nat len + length more) (drop (pio_pos gf) (pio_file content v gf w))"
          using IH(5) by (simp only: all_def chunk pos h(2) take_add drop_drop) (simp add: add.commute)
        have lall: "length all = nat len + length more" by (simp add: all_def)
        show ?thesis
        proof (intro exI conjI)
          show "gfs_pio_read_loop ops sz got gf w = Some ((e, got @ all), gf', w')"
            using step IH(1) by (simp add: all_def)
          show "all = take (length all) (drop (pio_pos gf) (pio_file content v gf w))"
            using all unfolding lall .
          show "length all \<le> nat sz" "pio_pos gf' = pio_pos gf + length all"
            using IH(6,7) pos nat lall by simp_all
          have "e = GFARM_ERR_NO_ERROR \<Longrightarrow> all = take (nat sz) (drop (pio_pos gf) (pio_file content v gf w))"
            using IH(8) by (simp only: if_True all_def chunk pos h(2) nat take_add drop_drop) (simp add: add.commute)
          then show "if e = GFARM_ERR_NO_ERROR then GFS_PIO_ERROR gf' = GFARM_ERR_NO_ERROR
              \<and> all = take (nat sz) (drop (pio_pos gf) (pio_file content v gf w))
            else view_error e \<and> gf_error gf' = e" using IH(8) by presburger
        qed (use IH(2,3,4) h in simp_all)
      qed
    qed
  qed
qed

lemma read_spec:
  assumes inv: "pio_inv content ready v gf w" and ok: "GFS_PIO_ERROR gf = GFARM_ERR_NO_ERROR"
    and rd: "\<not> write_only gf"
  shows "\<exists>r gf' w'. gfs_pio_read ops sz gf w = Some (r, gf', w')
     \<and> pio_inv content ready v gf' w' \<and> pio_frame gf' = pio_frame gf
     \<and> pio_file content v gf' w' = pio_file content v gf w
     \<and> (case r of
          Inl e \<Rightarrow> view_error e \<and> gf_error gf' = e \<and> pio_pos gf' = pio_pos gf
        | Inr bs \<Rightarrow> pio_pos gf' = pio_pos gf + length bs \<and> length bs \<le> nat sz
            \<and> bs = take (length bs) (drop (pio_pos gf) (pio_file content v gf w))
            \<and> (GFS_PIO_ERROR gf' = GFARM_ERR_NO_ERROR \<longrightarrow>
                 bs = take (nat sz) (drop (pio_pos gf) (pio_file content v gf w))))"
proof -
  have v: "gf_view_context gf = Some v" using inv by (simp add: pio_inv_def pio_wf_def)
  obtain e got gf' w' where L: "gfs_pio_read_loop ops sz [] gf w = Some ((e, got), gf', w')"
     "pio_inv content ready v gf' w'" "pio_frame gf' = pio_frame gf"
     "pio_file content v gf' w' = pio_file content v gf w"
     "got = take (length got) (drop (pio_pos gf) (pio_file content v gf w))"
     "pio_pos gf' = pio_pos gf + length got" "length got \<le> nat sz"
     "if e = GFARM_ERR_NO_ERROR
        then GFS_PIO_ERROR gf' = GFARM_ERR_NO_ERROR
             \<and> got = take (nat sz) (drop (pio_pos gf) (pio_file content v gf w))
        else view_error e \<and> gf_error gf' = e"
    using read_loop_spec [OF inv ok rd, of sz "[]"] by (metis append_Nil)
  have "\<not> unbuffered gf'" using L(2) by (simp add: pio_inv_def pio_wf_def)
  moreover have "gfs_pio_read ops sz gf w =
      (if e \<noteq> GFARM_ERR_NO_ERROR \<and> got = [] then Some (Inl e, gf', w')
       else Some (Inr got, if unbuffered gf' then gfs_pio_purge gf' else gf', w'))"
    using L(1) rd by (simp add: gfs_pio_read_def pio_bind_def check_view_ok [OF v ok] CHECK_READABLE_def)
  ultimately show ?thesis
    using L by (auto simp: GFS_PIO_ERROR_def view_error_def split: if_splits)
qed

text \<open>A character is the next byte of the file; \<open>EOF\<close> without an error is its end.\<close>

lemma getc_spec:
  assumes inv: "pio_inv content ready v gf w" and ok: "GFS_PIO_ERROR gf = GFARM_ERR_NO_ERROR"
    and rd: "\<not> write_only gf"
  shows "\<exists>c gf' w'. gfs_pio_getc ops gf w = Some (c, gf', w')
     \<and> pio_inv content ready v gf' w' \<and> pio_frame gf' = pio_frame gf
     \<and> pio_file content v gf' w' = pio_file content v gf w
     \<and> (case c of
          None \<Rightarrow> pio_pos gf' = pio_pos gf
            \<and> (GFS_PIO_ERROR gf' = GFARM_ERR_NO_ERROR \<longrightarrow> length (pio_file content v gf w) \<le> pio_pos gf)
        | Some b \<Rightarrow> GFS_PIO_ERROR gf' = GFARM_ERR_NO_ERROR \<and> pio_pos gf' = pio_pos gf + 1
            \<and> pio_pos gf < length (pio_file content v gf w) \<and> b = pio_file content v gf w ! pio_pos gf)"
proof -
  have v: "gf_view_context gf = Some v" and nb: "\<not> unbuffered gf"
    and pl: "gf_p gf \<le> gf_length gf"
    using inv by (simp_all add: pio_inv_def pio_wf_def)
  let ?fill = "if gf_p gf \<ge> gf_length gf
     then gfs_pio_fillbuf ops GFS_FILE_BUFSIZE gf w else Some (Inr (), gf, w)"
  obtain r g w1 where fill: "?fill = Some (r, g, w1)"
    and g: "pio_inv content ready v g w1" "pio_frame g = pio_frame gf"
        "pio_file content v g w1 = pio_file content v gf w" "pio_pos g = pio_pos gf"
      and r: "case r of Inl e \<Rightarrow> view_error e \<and> gf_error g = e
        | Inr _ \<Rightarrow> if gf_error g = GFARM_ERR_NO_ERROR then gf_p g < gf_length g
            else gf_p gf \<ge> gf_length gf \<and> gf_error g = GFARM_ERRMSG_GFS_PIO_IS_EOF
                 \<and> length (pio_file content v gf w) \<le> pio_pos gf"
  proof (cases "gf_p gf \<ge> gf_length gf")
    case True
    then show ?thesis using fillbuf_spec [OF inv ok rd, of GFS_FILE_BUFSIZE] that
      by (auto split: if_splits sum.splits)
  next
    case False
    then have "gf_error gf = GFARM_ERR_NO_ERROR"
      using ok inv by (auto simp: no_error_iff pio_inv_def pio_wf_def)
    then show ?thesis using False inv by (intro that [of "Inr ()" gf w]) auto
  qed
  have run: "gfs_pio_getc ops gf w =
      (case r of
         Inl e \<Rightarrow> Some (None, g, w1)
       | Inr _ \<Rightarrow>
           if gf_p gf \<ge> gf_length gf \<and> gf_error g \<noteq> GFARM_ERR_NO_ERROR then Some (None, g, w1)
           else
             let c = gf_buffer g (gf_p g); gf'' = g\<lparr>gf_p := gf_p g + 1\<rparr>
             in Some (Some c, if unbuffered gf'' then gfs_pio_purge gf'' else gf'', w1))"
    using fill rd nb by (auto simp: gfs_pio_getc_def check_view_ok [OF v ok] split: sum.split if_splits)
  show ?thesis
  proof (cases r)
    case (Inl e)
    then show ?thesis using run g r by (auto simp: GFS_PIO_ERROR_def view_error_def)
  next
    case (Inr u)
    show ?thesis
    proof (cases "gf_error g = GFARM_ERR_NO_ERROR")
      case False
      then show ?thesis using run g r Inr by auto
    next
      case ok': True
      let ?h = "g\<lparr>gf_p := gf_p g + 1\<rparr>"
      have lt: "gf_p g < gf_length g" using r Inr ok' by simp
      have wf: "pio_wf content ready v g w1" using g(1) by (simp add: pio_inv_def)
      then have p0: "0 \<le> gf_p g" "0 \<le> gf_offset g" by (simp_all add: pio_wf_def)
      have h: "pio_inv content ready v ?h w1" "pio_file content v ?h w1 = pio_file content v gf w"
          "pio_frame ?h = pio_frame gf"
        using pio_inv_move [OF g(1) ok', of "gf_p g + 1"] p0 lt g by simp_all
      have "\<not> unbuffered ?h" using h(1) by (simp add: pio_inv_def pio_wf_def)
      then have res: "gfs_pio_getc ops gf w = Some (Some (gf_buffer g (gf_p g)), ?h, w1)"
        using run Inr ok' by (simp add: Let_def)
      have "[gf_buffer g (gf_p g)] = take 1 (drop (pio_pos gf) (pio_file content v gf w))"
        using pio_buffered_bytes [OF wf, of 1] lt g by simp
      then have "pio_pos gf < length (pio_file content v gf w)
          \<and> gf_buffer g (gf_p g) = pio_file content v gf w ! pio_pos gf"
        by (cases "pio_pos gf < length (pio_file content v gf w)") (auto simp: Cons_nth_drop_Suc [symmetric])
      moreover have "pio_pos ?h = pio_pos gf + 1"
        using g(4) p0 by (simp add: pio_pos_def nat_add_distrib)
      moreover have "GFS_PIO_ERROR ?h = GFARM_ERR_NO_ERROR" using ok' by (simp add: GFS_PIO_ERROR_def)
      ultimately show ?thesis using res h by auto
    qed
  qed
qed

end

subsection \<open>Writing\<close>

text \<open>Storing bytes at the position in the buffer.\<close>

lemma pio_data_store:
  assumes "0 \<le> gf_p gf" and "gf_p gf \<le> gf_length gf"
  shows "pio_data (pio_store data gf) =
     take (nat (gf_p gf)) (pio_data gf) @ data @ drop (nat (gf_p gf) + length data) (pio_data gf)"
proof -
  obtain q where q: "gf_p gf = int q" using assms(1) nonneg_int_cases by metis
  have diff: "nat (int i - int j) = i - j" for i j by (simp add: nat_diff_distrib')
  obtain n where n: "gf_length gf = int n" using assms nonneg_int_cases order_trans by metis
  have core: "mem_read (mem_write m (int q) data) 0 (int (max n (q + length data))) =
      take q (mem_read m 0 (int n)) @ data @ drop (q + length data) (mem_read m 0 (int n))" for m
    using assms q n
    by (intro nth_equalityI) (auto simp: nth_append mem_write_def not_less mem_read_def max_def drop_map drop_upt diff
          split: if_splits)
  have len: "int (max n (q + length data)) =
      (if int q + int (length data) > int n then int q + int (length data) else int n)"
    by (simp add: max_def)
  show ?thesis using core [of "gf_buffer gf", unfolded len] q n
    by (simp add: pio_data_def pio_store_def Let_def cong: if_cong split del: if_split)
qed

lemma pio_store_spec:
  assumes wf: "pio_wf content ready v gf w" and wr: "gf_mode_write gf"
    and err: "gf_error gf = GFARM_ERR_NO_ERROR"
    and fits: "gf_p gf + int (length data) \<le> GFS_FILE_BUFSIZE"
  shows "pio_wf content ready v (pio_store data gf) w"
    and "pio_file content v (pio_store data gf) w = file_put (pio_file content v gf w) (pio_pos gf) data"
    and "pio_pos (pio_store data gf) = pio_pos gf + length data"
    and "pio_frame (pio_store data gf) = pio_frame gf"
    and "pio_synced gf \<or> data \<noteq> [] \<Longrightarrow> pio_synced (pio_store data gf)"
proof -
  have p: "0 \<le> gf_p gf" "gf_p gf \<le> gf_length gf" "0 \<le> gf_offset gf"
    using wf by (simp_all add: pio_wf_def)
  show "pio_wf content ready v (pio_store data gf) w"
    using assms by (simp add: pio_wf_def pio_store_def Let_def unbuffered_def)
  have off: "gf_offset (pio_store data gf) = gf_offset gf" by (simp add: pio_store_def Let_def)
  show "pio_file content v (pio_store data gf) w = file_put (pio_file content v gf w) (pio_pos gf) data"
    unfolding pio_file_def off pio_pos_nat [OF wf] pio_data_store [OF p(1,2)]
    using p by (subst file_put_inside) simp_all
  show "pio_pos (pio_store data gf) = pio_pos gf + length data"
    using p by (simp add: pio_pos_def pio_store_def Let_def nat_add_distrib add.assoc [symmetric])
  show "pio_frame (pio_store data gf) = pio_frame gf"
    by (simp add: pio_store_def Let_def pio_frame_def)
  show "pio_synced gf \<or> data \<noteq> [] \<Longrightarrow> pio_synced (pio_store data gf)"
    using p by (cases data) (auto simp: pio_store_def Let_def pio_synced_def)
qed

text \<open>
  What a write promises. Without an error all bytes are at the position; with one that is only recorded in the file,
  a part of them is; an error that is returned has spared what is in front of the position.
\<close>

definition wrote :: "byte list \<Rightarrow> nat \<Rightarrow> byte list \<Rightarrow> gfarm_error_t + int \<Rightarrow> 'v gfs_file \<Rightarrow> byte list \<Rightarrow> bool" where
  "wrote F pos data r gf' F' \<longleftrightarrow>
     (case r of
        Inl e \<Rightarrow> view_error e \<and> gf_error gf' = e \<and> same_upto pos F' F
      | Inr k \<Rightarrow> 0 \<le> k \<and> k \<le> int (length data) \<and> pio_pos gf' = pos + nat k
          \<and> (if GFS_PIO_ERROR gf' = GFARM_ERR_NO_ERROR
             then k = int (length data) \<and> F' = file_put F pos data
             else same_upto (pos + nat k) F' (file_put F pos (take (nat k) data))))"

text \<open>
  What is so after room has been made for the data: the file \<open>G\<close> may lack bytes of \<open>F\<close> that the data covers.
\<close>

definition room_made :: "byte list \<Rightarrow> nat \<Rightarrow> byte list \<Rightarrow> gfarm_error_t + unit \<Rightarrow> 'v gfs_file \<Rightarrow> byte list \<Rightarrow> bool" where
  "room_made F pos data r g G \<longleftrightarrow>
     (case r of
        Inl e \<Rightarrow> pio_synced g \<and> wrote F pos data (Inl e) g G
      | Inr _ \<Rightarrow> gf_error g = GFARM_ERR_NO_ERROR \<and> pio_pos g = pos
          \<and> gf_p g + int (length data) \<le> max GFS_FILE_BUFSIZE (int (length data))
          \<and> (pio_synced g \<or> data \<noteq> [])
          \<and> same_upto pos G F \<and> file_put G pos data = file_put F pos data)"

lemma room_made_put:
  assumes "room_made F pos data (Inr u) g G"
  shows "same_upto (pos + k) (file_put G pos (take k data)) (file_put F pos (take k data))"
proof (cases "k \<le> length data")
  case True
  then show ?thesis using assms same_upto_put_both [of pos G F "take k data"] by (simp add: room_made_def)
next
  case False
  then show ?thesis using assms by (simp add: room_made_def)
qed

lemma room_made_wrote:
  assumes "room_made F pos data (Inr u) g G" and "wrote G pos data r gf' F'"
  shows "wrote F pos data r gf' F'"
  using assms room_made_put [OF assms(1)]
  by (auto simp: wrote_def room_made_def same_upto_def split: sum.splits)

context file_view
begin

text \<open>The common end of \<open>write\<close> and \<open>putc\<close>: store, and flush a full buffer.\<close>

lemma store_flush_spec:
  assumes wf: "pio_wf content ready v gf w" and wr: "gf_mode_write gf"
    and err: "gf_error gf = GFARM_ERR_NO_ERROR"
    and fits: "gf_p gf + int (length data) \<le> GFS_FILE_BUFSIZE"
    and syn: "pio_synced gf \<or> data \<noteq> []"
  shows "\<exists>r gf' w'. pio_store_flush ops data gf w = Some (r, gf', w')
     \<and> pio_inv content ready v gf' w' \<and> pio_frame gf' = pio_frame gf
     \<and> pio_file content v gf' w' = file_put (pio_file content v gf w) (pio_pos gf) data
     \<and> pio_pos gf' = pio_pos gf + length data
     \<and> (case r of Inl e \<Rightarrow> view_error e \<and> gf_error gf' = e | Inr _ \<Rightarrow> gf_error gf' = GFARM_ERR_NO_ERROR)"
proof -
  define h where "h = pio_store data gf"
  note S = pio_store_spec [OF wf wr err fits, folded h_def]
  note run = pio_store_flush_def [of ops data gf w, folded h_def, unfolded Let_def, folded h_def]
  have nb: "\<not> unbuffered h" using S(1) by (simp add: pio_wf_def)
  have he: "gf_error h = GFARM_ERR_NO_ERROR" "gf_mode_write h" "gf_buffer_dirty h"
    using err wr by (simp_all add: h_def pio_store_def Let_def)
  show ?thesis
  proof (cases "gf_p h \<ge> GFS_FILE_BUFSIZE")
    case False
    then show ?thesis using S syn nb he by (simp add: run pio_inv_def)
  next
    case True
    have "GFS_PIO_ERROR h = GFARM_ERR_NO_ERROR" using he by (simp add: GFS_PIO_ERROR_def)
    from flush_spec [OF S(1) this he(2)] obtain r gf' w' where F:
      "gfs_pio_flush ops h w = Some (r, gf', w')" "pio_wf content ready v gf' w'"
      "pio_frame gf' = pio_frame h" "pio_file content v gf' w' = pio_file content v h w"
      "pio_pos gf' = pio_pos h" "flushed h r gf'" by blast
    have "\<not> unbuffered gf'" "gf_length h \<noteq> 0" using F(2) S(1) True by (auto simp: pio_wf_def)
    then show ?thesis
      using F S True nb he
      by (auto simp: run pio_inv_def flushed_def pio_synced_def split: sum.splits)
  qed
qed

text \<open>The way past the buffer, which holds nothing that the data does not cover.\<close>

lemma direct_spec:
  assumes wf: "pio_wf content ready v gf w" and wr: "gf_mode_write gf"
    and err: "gf_error gf = GFARM_ERR_NO_ERROR" and p: "gf_p gf = 0"
    and covered: "gf_length gf \<le> int (length data)" and ne: "data \<noteq> []"
  shows "\<exists>r gf' w'.
     (case do_write ops data (gf\<lparr>gf_length := 0, gf_buffer_dirty := False\<rparr>) w of
        None \<Rightarrow> None
      | Some ((e, written), gf', w') \<Rightarrow>
          if e \<noteq> GFARM_ERR_NO_ERROR \<and> written = 0 then Some (Inl e, gf', w')
          else Some (Inr written, gf'\<lparr>gf_offset := gf_offset gf' + written\<rparr>, w')) = Some (r, gf', w')
     \<and> pio_inv content ready v gf' w' \<and> pio_frame gf' = pio_frame gf
     \<and> wrote (pio_file content v gf w) (pio_pos gf) data r gf' (pio_file content v gf' w')"
proof -
  let ?g = "gf\<lparr>gf_length := 0, gf_buffer_dirty := False\<rparr>"
  note W = wf [unfolded pio_wf_def]
  have g: "gf_view_context ?g = Some v" "ready v w" "\<not> gf_calc_digest ?g" "0 \<le> gf_offset ?g"
    using W by auto
  obtain e written io w' where wrt: "do_write ops data ?g w = Some ((e, written),
             ?g\<lparr>gf_io_offset := io, gf_error := if e = GFARM_ERR_NO_ERROR then gf_error ?g else e\<rparr>, w')"
    and wn: "0 \<le> written" "written \<le> int (length data)" and rd: "ready v w'"
    and io: "io = gf_offset ?g + written"
    and c': "content v w' = file_put (content v w) (nat (gf_offset ?g)) (take (nat written) data)"
    and fin: "if e = GFARM_ERR_NO_ERROR then written = int (length data) else view_error e"
    using do_write_spec [OF g, of data] ne by blast
  let ?gf' = "gf\<lparr>gf_length := 0, gf_buffer_dirty := False, gf_io_offset := io, gf_error := e,
                 gf_offset := gf_offset gf + written\<rparr>"
  let ?r = "if e \<noteq> GFARM_ERR_NO_ERROR \<and> written = 0 then Inl e else Inr written"
  have gf0: "gf_offset gf + 0 = gf_offset gf" by simp
  have pos: "pio_pos gf = nat (gf_offset gf)" using p by (simp add: pio_pos_def)
  have run: "(case do_write ops data ?g w of
        None \<Rightarrow> None
      | Some ((e, written), gf', w') \<Rightarrow>
          if e \<noteq> GFARM_ERR_NO_ERROR \<and> written = 0 then Some (Inl e, gf', w')
          else Some (Inr written, gf'\<lparr>gf_offset := gf_offset gf' + written\<rparr>, w')) = Some (?r, ?gf', w')"
    using wrt err by (cases gf) auto
  have wf': "pio_wf content ready v ?gf' w'"
    using W rd wn p err fin by (auto simp: pio_wf_def unbuffered_def view_error_def pio_data_def split: if_splits)
  have inv': "pio_inv content ready v ?gf' w'"
    using wf' io by (simp add: pio_inv_def pio_synced_def)
  have F': "pio_file content v ?gf' w' = file_put (content v w) (pio_pos gf) (take (nat written) data)"
    using c' pos by (simp add: pio_file_def pio_data_def)
  have before: "same_upto (pio_pos gf) (content v w) (pio_file content v gf w)"
    using same_upto_take [of "pio_pos gf" 0 "content v w" "pio_data gf"] pos by (simp add: pio_file_def)
  have whole: "file_put (content v w) (pio_pos gf) data = file_put (pio_file content v gf w) (pio_pos gf) data"
    using file_put_covered [of 0 "pio_data gf" data "content v w" "pio_pos gf"] covered pos
    by (simp add: pio_file_def)
  have "wrote (pio_file content v gf w) (pio_pos gf) data ?r ?gf' (pio_file content v ?gf' w')"
  proof (cases "e = GFARM_ERR_NO_ERROR")
    case True
    then show ?thesis
      using fin F' whole W p by (simp add: wrote_def GFS_PIO_ERROR_def pio_pos_def nat_add_distrib)
  next
    case False
    have "same_upto (pio_pos gf + nat written) (pio_file content v ?gf' w')
        (file_put (pio_file content v gf w) (pio_pos gf) (take (nat written) data))"
      using same_upto_put_both [OF before, of "take (nat written) data"] F' wn by simp
    then show ?thesis
      using False fin F' wn W p before
      by (auto simp: wrote_def GFS_PIO_ERROR_def view_error_def pio_pos_def nat_add_distrib)
  qed
  then show ?thesis using run inv' by (auto simp: pio_frame_def)
qed

text \<open>Room for the data: the buffer is flushed, without its bytes from the position on, when they do not fit.\<close>

lemma pio_room_spec:
  assumes inv: "pio_inv content ready v gf w" and err: "gf_error gf = GFARM_ERR_NO_ERROR"
    and wr: "gf_mode_write gf" and big: "int (length data) \<le> 2147483647 - GFS_FILE_BUFSIZE"
  shows "\<exists>r g w1.
     (if as_int32 (int (length data) + gf_p gf) > GFS_FILE_BUFSIZE
      then gfs_pio_flush ops (gf\<lparr>gf_length := gf_p gf\<rparr>) w else Some (Inr (), gf, w)) = Some (r, g, w1)
     \<and> pio_frame g = pio_frame gf
     \<and> pio_wf content ready v g w1
     \<and> room_made (pio_file content v gf w) (pio_pos gf) data r g (pio_file content v g w1)"
proof -
  note I = inv [unfolded pio_inv_def]
  note W = conjunct1 [OF I, unfolded pio_wf_def]
  have sum: "as_int32 (int (length data) + gf_p gf) = int (length data) + gf_p gf"
    using big W by simp
  show ?thesis
  proof (cases "int (length data) + gf_p gf > GFS_FILE_BUFSIZE")
    case False
    then show ?thesis using I err unfolding sum by (simp add: room_made_def add.commute)
  next
    case True
    let ?g0 = "gf\<lparr>gf_length := gf_p gf\<rparr>" and ?a = "pio_data gf" and ?p = "nat (gf_p gf)"
    let ?off = "nat (gf_offset gf)"
    have data0: "pio_data ?g0 = take ?p ?a" using W by (simp add: pio_data_def take_mem_read min_def)
    have wf0: "pio_wf content ready v ?g0 w"
      using W err data0 by (auto simp: pio_wf_def unbuffered_def min_def)
    have F: "pio_file content v gf w = file_put (content v w) ?off ?a"
      and F0: "pio_file content v ?g0 w = file_put (content v w) ?off (take ?p ?a)"
      by (simp_all add: pio_file_def data0)
    have pos: "pio_pos gf = ?off + ?p" "pio_pos ?g0 = ?off + ?p"
      using W by (simp_all add: pio_pos_def nat_add_distrib)
    have ok0: "GFS_PIO_ERROR ?g0 = GFARM_ERR_NO_ERROR" using err by (simp add: GFS_PIO_ERROR_def)
    obtain r g w1 where fl: "gfs_pio_flush ops ?g0 w = Some (r, g, w1)" "pio_wf content ready v g w1"
      "pio_frame g = pio_frame ?g0" "pio_file content v g w1 = pio_file content v ?g0 w"
      "pio_pos g = pio_pos ?g0" "flushed ?g0 r g"
      using flush_spec [OF wf0 ok0] wr by auto
    have before: "same_upto (pio_pos gf) (pio_file content v g w1) (pio_file content v gf w)"
      unfolding fl(4) F F0 pos by (rule same_upto_take)
    have "?p \<le> length ?a" "length ?a \<le> ?p + length data" using W True by auto
    from file_put_covered [OF this] have whole: "file_put (pio_file content v g w1) (pio_pos gf) data
              = file_put (pio_file content v gf w) (pio_pos gf) data"
      unfolding fl(4) F F0 pos .
    have ne: "data \<noteq> []" using True W by auto
    have frame: "pio_frame g = pio_frame gf" using fl(3) by (simp add: pio_frame_def)
    show ?thesis
    proof (cases r)
      case (Inl e)
      then show ?thesis
        using fl(1,2,6) frame before True sum
        by (auto simp: flushed_def wrote_def room_made_def pio_synced_def)
    next
      case (Inr u)
      then have "gf_error g = GFARM_ERR_NO_ERROR" "gf_p g = 0" using fl(6) by (auto simp: flushed_def)
      then show ?thesis
        using fl(1,2,5) Inr frame before whole ne True sum pos by (auto simp: room_made_def)
    qed
  qed
qed

lemma write_spec:
  assumes inv: "pio_inv content ready v gf w" and ok: "GFS_PIO_ERROR gf = GFARM_ERR_NO_ERROR"
    and wr: "gf_mode_write gf" and big: "int (length data) \<le> 2147483647 - GFS_FILE_BUFSIZE"
  shows "\<exists>r gf' w'. gfs_pio_write ops data gf w = Some (r, gf', w')
     \<and> pio_inv content ready v gf' w' \<and> pio_frame gf' = pio_frame gf
     \<and> wrote (pio_file content v gf w) (pio_pos gf) data r gf' (pio_file content v gf' w')"
proof -
  let ?c = "gfs_pio_clearerr gf" and ?n = "int (length data)"
  have v: "gf_view_context gf = Some v" using inv by (simp add: pio_inv_def pio_wf_def)
  have c: "pio_inv content ready v ?c w" using inv by (simp add: pio_inv_def)
  obtain r g w1 where prep: "(if as_int32 (?n + gf_p ?c) > GFS_FILE_BUFSIZE
      then gfs_pio_flush ops (?c\<lparr>gf_length := gf_p ?c\<rparr>) w else Some (Inr (), ?c, w)) = Some (r, g, w1)"
    and fr: "pio_frame g = pio_frame gf"
    and wf: "pio_wf content ready v g w1"
    and r: "room_made (pio_file content v gf w) (pio_pos gf) data r g (pio_file content v g w1)"
    using pio_room_spec [OF c _ _ big] wr by (auto simp only: clearerr_fields clearerr_simps)
  have run: "gfs_pio_write ops data gf w =
      (case r of
         Inl e \<Rightarrow> Some (Inl e, g, w1)
       | Inr _ \<Rightarrow>
           if ?n \<ge> GFS_FILE_BUFSIZE then
             (if gf_p g \<noteq> 0 then None
              else case do_write ops data (g\<lparr>gf_length := 0, gf_buffer_dirty := False\<rparr>) w1 of
                None \<Rightarrow> None
              | Some ((e, written), gf', w') \<Rightarrow>
                  if e \<noteq> GFARM_ERR_NO_ERROR \<and> written = 0 then Some (Inl e, gf', w')
                  else Some (Inr written, gf'\<lparr>gf_offset := gf_offset gf' + written\<rparr>, w'))
           else map_option (\<lambda>(r, s). (map_sum id (\<lambda>_. ?n) r, s))
             (pio_store_flush ops data g w1))"
    using prep wr
    by (cases r) (simp_all add: gfs_pio_write_def pio_bind_def check_view_ok [OF v ok] check_writable [OF ok] Let_def
        cong: if_cong)
  show ?thesis
  proof (cases r)
    case (Inl e)
    then show ?thesis using run r wf fr by (simp add: room_made_def pio_inv_def)
  next
    case (Inr u)
    note R = r [unfolded Inr room_made_def sum.case(2)]
    have ge: "gf_error g = GFARM_ERR_NO_ERROR" and gp: "pio_pos g = pio_pos gf"
      and whole: "file_put (pio_file content v g w1) (pio_pos gf) data
              = file_put (pio_file content v gf w) (pio_pos gf) data" using R by auto
    have wr': "gf_mode_write g" using fr wr by (simp add: pio_frame_def)
    show ?thesis
    proof (cases "?n \<ge> GFS_FILE_BUFSIZE")
      case True
      have p0: "gf_p g = 0" using R True wf by (auto simp: pio_wf_def)
      have "gf_length g \<le> ?n" "data \<noteq> []" using wf True by (auto simp: pio_wf_def)
      from direct_spec [OF wf wr' ge p0 this] obtain r' gf' w' where D:
        "(case do_write ops data (g\<lparr>gf_length := 0, gf_buffer_dirty := False\<rparr>) w1 of
            None \<Rightarrow> None
          | Some ((e, written), gf', w') \<Rightarrow>
              if e \<noteq> GFARM_ERR_NO_ERROR \<and> written = 0 then Some (Inl e, gf', w')
              else Some (Inr written, gf'\<lparr>gf_offset := gf_offset gf' + written\<rparr>, w')) = Some (r', gf', w')"
        "pio_inv content ready v gf' w'" "pio_frame gf' = pio_frame g"
        "wrote (pio_file content v g w1) (pio_pos g) data r' gf' (pio_file content v gf' w')" by blast
      have "wrote (pio_file content v gf w) (pio_pos gf) data r' gf' (pio_file content v gf' w')"
        using room_made_wrote [OF r [unfolded Inr]] D(4) unfolding gp by blast
      then show ?thesis using run Inr True p0 D(1,2,3) fr by auto
    next
      case False
      have fits: "gf_p g + int (length data) \<le> GFS_FILE_BUFSIZE" using R False by auto
      have "pio_synced g \<or> data \<noteq> []" using R by auto
      from store_flush_spec [OF wf wr' ge fits this] obtain r' gf' w' where D:
        "(pio_store_flush ops data g w1) = Some (r', gf', w')"
        "pio_inv content ready v gf' w'" "pio_frame gf' = pio_frame g"
        "pio_file content v gf' w' = file_put (pio_file content v g w1) (pio_pos g) data"
        "pio_pos gf' = pio_pos g + length data"
        "case r' of Inl e \<Rightarrow> view_error e \<and> gf_error gf' = e | Inr _ \<Rightarrow> gf_error gf' = GFARM_ERR_NO_ERROR" by blast
      have res: "gfs_pio_write ops data gf w = Some (map_sum id (\<lambda>_. ?n) r', gf', w')"
        using run Inr False D(1) by simp
      have "wrote (pio_file content v gf w) (pio_pos gf) data (map_sum id (\<lambda>_. ?n) r') gf' (pio_file content v gf' w')"
        using D(4,5,6) unfolding gp whole
        by (auto simp: wrote_def same_upto_put GFS_PIO_ERROR_def split: sum.splits)
      then show ?thesis using res D(2,3) fr by auto
    qed
  qed
qed

end

end
