(* ===== verification/Gfs_Pio_File.thy ===== *)
theory Gfs_Pio_File
  imports Gfs_Pio_Spec
begin

text \<open>
  The remaining operations of an open file, and the promise for any sequence of them: an open file is
  a plain file with a position. What the operations do when the rules of the figure in
  \<open>gfs_pio.h\<close> are broken is at the end.
\<close>

subsection \<open>Characters, positions, synchronisation\<close>

definition seek_target :: "int \<Rightarrow> int \<Rightarrow> nat \<Rightarrow> int option" where
  "seek_target offset whence pos =
     (if whence = GFARM_SEEK_SET then Some offset
      else if whence = GFARM_SEEK_CUR then Some (int pos + offset) else None)"

lemma calc_digest_off: "\<not> gf_calc_digest gf \<Longrightarrow> gf\<lparr>gf_calc_digest := False\<rparr> = gf"
  by (cases gf) simp

text \<open>Emptying the buffer at another position of a file without unwritten bytes.\<close>

lemma pio_inv_reposition:
  assumes wf: "pio_wf content ready v gf w" and clean: "\<not> gf_buffer_dirty gf" and q: "0 \<le> q"
  defines "g \<equiv> (gfs_pio_purge (gf\<lparr>gf_error := GFARM_ERR_NO_ERROR\<rparr>))\<lparr>gf_offset := q, gf_io_offset := q\<rparr>"
  shows "pio_inv content ready v g w" and "pio_file content v g w = pio_file content v gf w"
    and "pio_frame g = pio_frame gf" and "pio_pos g = nat q" and "gf_error g = GFARM_ERR_NO_ERROR"
proof -
  show wf': "pio_inv content ready v g w"
    using wf clean q by (simp add: g_def pio_inv_def pio_wf_def pio_synced_def gfs_pio_purge_def pio_data_def unbuffered_def)
  have "pio_file content v g w = content v w"
    using wf' clean pio_file_clean [of content ready v g w] by (simp add: pio_inv_def g_def)
  then show "pio_file content v g w = pio_file content v gf w"
    using pio_file_clean [OF wf clean] by simp
qed (simp_all add: g_def pio_frame_def pio_pos_def gfs_pio_purge_def)

text \<open>The assertion of \<open>fillbuf\<close>: a file without unwritten bytes is read at the offset of its buffer.\<close>

lemma read_aborts:
  assumes "gf_view_context gf = Some vc" and "gf_error gf = GFARM_ERR_NO_ERROR" and "\<not> write_only gf"
    and "\<not> gf_buffer_dirty gf" and "gf_p gf = 0" and "gf_length gf = 0"
    and "gf_io_offset gf \<noteq> gf_offset gf" and "0 < sz"
  shows "gfs_pio_read ops sz gf w = None"
  using assms
  by (simp add: gfs_pio_read_def pio_bind_def gfs_pio_check_view_default_def GFS_PIO_ERROR_def
      gfs_pio_is_view_set_def CHECK_READABLE_def gfs_pio_read_loop.simps gfs_pio_fillbuf_def gfs_pio_purge_def)

context file_view
begin

lemma putc_spec:
  assumes inv: "pio_inv content ready v gf w" and ok: "GFS_PIO_ERROR gf = GFARM_ERR_NO_ERROR"
    and wr: "gf_mode_write gf"
  shows "\<exists>r gf' w'. gfs_pio_putc ops c gf w = Some (r, gf', w')
     \<and> pio_inv content ready v gf' w' \<and> pio_frame gf' = pio_frame gf
     \<and> same_upto (pio_pos gf) (pio_file content v gf' w') (pio_file content v gf w)
     \<and> (GFS_PIO_ERROR gf' = GFARM_ERR_NO_ERROR \<longrightarrow> r = Inr ()
          \<and> pio_file content v gf' w' = file_put (pio_file content v gf w) (pio_pos gf) [c]
          \<and> pio_pos gf' = pio_pos gf + 1)
     \<and> (case r of Inl e \<Rightarrow> view_error e \<and> gf_error gf' = e | Inr _ \<Rightarrow> True)"
proof -
  let ?c = "gfs_pio_clearerr gf"
  have v: "gf_view_context gf = Some v" using inv by (simp add: pio_inv_def pio_wf_def)
  have cw: "pio_wf content ready v ?c w" and cs: "pio_synced ?c" using inv by (simp_all add: pio_inv_def)
  have okc: "GFS_PIO_ERROR ?c = GFARM_ERR_NO_ERROR" "gf_mode_write ?c"
    using wr by (simp_all add: GFS_PIO_ERROR_def)
  have p: "gf_p ?c \<le> GFS_FILE_BUFSIZE" "gf_p ?c \<le> gf_length ?c" "gf_length ?c \<le> GFS_FILE_BUFSIZE"
    using cw by (auto simp: pio_wf_def)
  obtain r g w1 where prep: "(if gf_p ?c \<ge> GFS_FILE_BUFSIZE then gfs_pio_flush ops ?c w else Some (Inr (), ?c, w)) = Some (r, g, w1)"
    and g: "pio_wf content ready v g w1" "pio_frame g = pio_frame gf"
      "pio_file content v g w1 = pio_file content v gf w" "pio_pos g = pio_pos gf"
    and r: "case r of Inl e \<Rightarrow> view_error e \<and> gf_error g = e \<and> pio_synced g
      | Inr _ \<Rightarrow> gf_error g = GFARM_ERR_NO_ERROR \<and> gf_p g < GFS_FILE_BUFSIZE"
  proof (cases "gf_p ?c \<ge> GFS_FILE_BUFSIZE")
    case False
    then show ?thesis using cw by (intro that [of "Inr ()" ?c w]) auto
  next
    case True
    with p have full: "gf_p ?c = gf_length ?c" by simp
    from flush_spec [OF cw okc] obtain r g w1 where "gfs_pio_flush ops ?c w = Some (r, g, w1)"
      "pio_wf content ready v g w1" "pio_frame g = pio_frame ?c"
      "pio_file content v g w1 = pio_file content v ?c w" "pio_pos g = pio_pos ?c" "flushed ?c r g" by blast
    then show ?thesis using True full
      by (intro that [of r g w1]) (auto simp: flushed_def pio_synced_def split: sum.splits)
  qed
  have run: "gfs_pio_putc ops c gf w =
      (case r of Inl e \<Rightarrow> Some (Inr (), g, w1) | Inr _ \<Rightarrow> pio_store_flush ops [c] g w1)"
    using prep wr by (cases r) (simp_all add: gfs_pio_putc_def pio_bind_def check_view_ok [OF v ok] check_writable [OF ok])
  show ?thesis
  proof (cases r)
    case (Inl e)
    then show ?thesis using run g r by (simp add: pio_inv_def GFS_PIO_ERROR_def view_error_def)
  next
    case (Inr u)
    have wr': "gf_mode_write g" using g(2) wr by (simp add: pio_frame_def)
    have ge: "gf_error g = GFARM_ERR_NO_ERROR" and fits: "gf_p g + int (length [c]) \<le> GFS_FILE_BUFSIZE"
      using r Inr by auto
    from store_flush_spec [OF g(1) wr' ge fits] obtain r' gf' w' where D:
      "pio_store_flush ops [c] g w1 = Some (r', gf', w')" "pio_inv content ready v gf' w'"
      "pio_frame gf' = pio_frame g" "pio_file content v gf' w' = file_put (pio_file content v g w1) (pio_pos g) [c]"
      "pio_pos gf' = pio_pos g + length [c]"
      "case r' of Inl e \<Rightarrow> view_error e \<and> gf_error gf' = e | Inr _ \<Rightarrow> gf_error gf' = GFARM_ERR_NO_ERROR"
      by auto
    then show ?thesis using run Inr g
      by (auto simp: same_upto_put GFS_PIO_ERROR_def view_error_def split: sum.splits)
  qed
qed

lemma seek_spec:
  assumes inv: "pio_inv content ready v gf w" and ok: "GFS_PIO_ERROR gf = GFARM_ERR_NO_ERROR"
  shows "\<exists>r gf' w'. gfs_pio_seek ops offset whence gf w = Some (r, gf', w')
     \<and> pio_inv content ready v gf' w' \<and> pio_frame gf' = pio_frame gf
     \<and> pio_file content v gf' w' = pio_file content v gf w
     \<and> (case r of
          Inl e \<Rightarrow> view_error e \<and> gf_error gf' = e \<and> pio_pos gf' = pio_pos gf
        | Inr q \<Rightarrow> seek_target offset whence (pio_pos gf) = Some q \<and> 0 \<le> q \<and> pio_pos gf' = nat q
                   \<and> gf_error gf' = GFARM_ERR_NO_ERROR)"
proof -
  let ?c = "gfs_pio_clearerr gf"
  have v: "gf_view_context gf = Some v" using inv by (simp add: pio_inv_def pio_wf_def)
  have ci: "pio_inv content ready v ?c w" using inv by (simp add: pio_inv_def)
  then have cw: "pio_wf content ready v ?c w" by (simp add: pio_inv_def)
  have clr: "(if gf_error gf = GFARM_ERRMSG_GFS_PIO_IS_EOF then gf\<lparr>gf_error := GFARM_ERR_NO_ERROR\<rparr> else gf) = ?c"
    using ok by (auto simp: no_error_iff clearerr_id gfs_pio_clearerr_def)
  have dig: "?c\<lparr>gf_calc_digest := False\<rparr> = ?c" using cw by (intro calc_digest_off) (simp add: pio_wf_def)
  have nonneg: "0 \<le> gf_offset gf" "0 \<le> gf_p gf" using inv by (simp_all add: pio_inv_def pio_wf_def)
  define target where "target = (if whence = GFARM_SEEK_SET then Inr offset
                       else if whence = GFARM_SEEK_CUR then Inr (offset + gf_offset ?c + gf_p ?c)
                       else if whence = GFARM_SEEK_END then Inl GFARM_ERR_FUNCTION_NOT_IMPLEMENTED
                       else Inl GFARM_ERR_INVALID_ARGUMENT)"
  have tgt: "target = Inr q \<Longrightarrow> seek_target offset whence (pio_pos gf) = Some q"
    "target = Inl e \<Longrightarrow> view_error e" for q e
    using nonneg by (auto simp: target_def seek_target_def pio_pos_def view_error_def split: if_splits)
  have run: "gfs_pio_seek ops offset whence gf w =
     (case target of
        Inl e \<Rightarrow> Some (Inl e, ?c\<lparr>gf_error := e\<rparr>, w)
      | Inr pos \<Rightarrow>
          if pos < 0 then Some (Inl GFARM_ERR_INVALID_ARGUMENT, ?c\<lparr>gf_error := GFARM_ERR_INVALID_ARGUMENT\<rparr>, w)
          else if gf_offset ?c \<le> pos \<and> pos \<le> gf_offset ?c + gf_length ?c
          then Some (Inr pos, ?c\<lparr>gf_p := pos - gf_offset ?c\<rparr>, w)
          else
            (case (if gf_buffer_dirty ?c then gfs_pio_flush ops ?c w else Some (Inr (), ?c, w)) of
               None \<Rightarrow> None
             | Some (Inl e, gf', w') \<Rightarrow> Some (Inl e, gf'\<lparr>gf_error := e\<rparr>, w')
             | Some (Inr _, gf', w') \<Rightarrow>
                 Some (Inr pos, (gfs_pio_purge (gf'\<lparr>gf_error := GFARM_ERR_NO_ERROR\<rparr>))
                          \<lparr>gf_offset := pos, gf_io_offset := pos\<rparr>, w')))"
    by (simp only: gfs_pio_seek_def pio_bind_def check_view_ok [OF v ok] option.case sum.case prod.case Let_def
        clr dig target_def)
  have bad: "pio_inv content ready v (?c\<lparr>gf_error := e\<rparr>) w \<and> pio_frame (?c\<lparr>gf_error := e\<rparr>) = pio_frame gf
      \<and> pio_file content v (?c\<lparr>gf_error := e\<rparr>) w = pio_file content v gf w
      \<and> pio_pos (?c\<lparr>gf_error := e\<rparr>) = pio_pos gf" if "view_error e" for e
    using that inv
    by (simp add: gfs_pio_clearerr_def pio_inv_def pio_wf_def pio_synced_def pio_data_def pio_file_def
        pio_frame_def pio_pos_def unbuffered_def view_error_def)
  show ?thesis
  proof (cases target)
    case (Inl e)
    then show ?thesis using run bad [of e] tgt(2) [of e] by simp
  next
    case (Inr q)
    consider (neg) "q < 0" | (inside) "0 \<le> q" "gf_offset ?c \<le> q \<and> q \<le> gf_offset ?c + gf_length ?c"
      | (outside) "0 \<le> q" "\<not> (gf_offset ?c \<le> q \<and> q \<le> gf_offset ?c + gf_length ?c)" by linarith
    then show ?thesis
    proof cases
      case neg
      have "view_error GFARM_ERR_INVALID_ARGUMENT" by (simp add: view_error_def)
      then show ?thesis using run neg Inr bad by simp
    next
      case inside
      have "pio_pos (?c\<lparr>gf_p := q - gf_offset ?c\<rparr>) = nat q" by (simp add: pio_pos_def)
      then show ?thesis
        using run inside Inr tgt(1) [OF Inr] pio_inv_move [OF ci, of "q - gf_offset ?c"] by simp
    next
      case outside
      let ?prep = "if gf_buffer_dirty ?c then gfs_pio_flush ops ?c w else Some (Inr (), ?c, w)"
      obtain r g w1 where prep: "?prep = Some (r, g, w1)"
        and g: "pio_wf content ready v g w1" "pio_frame g = pio_frame gf"
          "pio_file content v g w1 = pio_file content v gf w" "pio_pos g = pio_pos gf"
        and r: "case r of Inl e \<Rightarrow> view_error e \<and> gf_error g = e \<and> pio_synced g | Inr _ \<Rightarrow> \<not> gf_buffer_dirty g"
      proof (cases "gf_buffer_dirty ?c")
        case False
        then show ?thesis using cw by (intro that [of "Inr ()" ?c w]) auto
      next
        case True
        then have "GFS_PIO_ERROR ?c = GFARM_ERR_NO_ERROR" "gf_mode_write ?c"
          using cw by (simp_all add: GFS_PIO_ERROR_def pio_wf_def)
        from flush_spec [OF cw this] obtain r g w1 where "gfs_pio_flush ops ?c w = Some (r, g, w1)"
          "pio_wf content ready v g w1" "pio_frame g = pio_frame ?c"
          "pio_file content v g w1 = pio_file content v ?c w" "pio_pos g = pio_pos ?c" "flushed ?c r g" by blast
        then show ?thesis using True
          by (intro that [of r g w1]) (auto simp: flushed_def pio_synced_def split: sum.splits)
      qed
      have nn: "\<not> q < 0" using outside(1) by simp
      have run': "gfs_pio_seek ops offset whence gf w =
          (case r of Inl e \<Rightarrow> Some (Inl e, g\<lparr>gf_error := e\<rparr>, w1)
           | Inr _ \<Rightarrow> Some (Inr q, (gfs_pio_purge (g\<lparr>gf_error := GFARM_ERR_NO_ERROR\<rparr>))
                          \<lparr>gf_offset := q, gf_io_offset := q\<rparr>, w1))"
        unfolding run Inr sum.case if_not_P [OF nn] if_not_P [OF outside(2)] prep option.case prod.case
        by (cases r) simp_all
      show ?thesis
      proof (cases r)
        case (Inl e)
        have "g\<lparr>gf_error := e\<rparr> = g" using r Inl by (cases g) simp
        then show ?thesis using run' Inl g r by (simp add: pio_inv_def)
      next
        case (Inr u)
        then show ?thesis
          using run' outside(1) g r tgt(1) [OF \<open>target = Inr q\<close>] pio_inv_reposition [OF g(1) _ outside(1)]
          by simp
      qed
    qed
  qed
qed

lemma flush_ok:
  assumes "pio_inv content ready v gf w" and "GFS_PIO_ERROR gf = GFARM_ERR_NO_ERROR" and "gf_mode_write gf"
  shows "\<exists>r gf' w'. gfs_pio_flush ops gf w = Some (r, gf', w')
     \<and> pio_inv content ready v gf' w' \<and> pio_frame gf' = pio_frame gf
     \<and> pio_file content v gf' w' = pio_file content v gf w \<and> pio_pos gf' = pio_pos gf
     \<and> (case r of Inl e \<Rightarrow> view_error e \<and> gf_error gf' = e
                | Inr _ \<Rightarrow> gf_error gf' = GFARM_ERR_NO_ERROR \<and> \<not> gf_buffer_dirty gf')"
proof -
  have wf: "pio_wf content ready v gf w" using assms(1) by (simp add: pio_inv_def)
  from flush_spec [OF wf assms(2,3)] obtain r gf' w' where "gfs_pio_flush ops gf w = Some (r, gf', w')"
    "pio_wf content ready v gf' w'" "pio_frame gf' = pio_frame gf"
    "pio_file content v gf' w' = pio_file content v gf w" "pio_pos gf' = pio_pos gf" "flushed gf r gf'" by blast
  then show ?thesis using assms(1)
    by (auto simp: pio_inv_def flushed_def pio_synced_def split: sum.splits)
qed

lemma sync_spec:
  assumes inv: "pio_inv content ready v gf w" and ok: "GFS_PIO_ERROR gf = GFARM_ERR_NO_ERROR"
    and wr: "gf_mode_write gf"
    and operation: "operation = GFS_PROTO_FSYNC_WITHOUT_METADATA \<or> operation = GFS_PROTO_FSYNC_WITH_METADATA"
  shows "\<exists>r gf' w'. sync_internal ops operation gf w = Some (r, gf', w')
     \<and> pio_inv content ready v gf' w' \<and> pio_frame gf' = pio_frame gf
     \<and> pio_file content v gf' w' = pio_file content v gf w \<and> pio_pos gf' = pio_pos gf
     \<and> (case r of Inl e \<Rightarrow> view_error e \<and> gf_error gf' = e
                | Inr _ \<Rightarrow> gf_error gf' = GFARM_ERR_NO_ERROR \<and> \<not> gf_buffer_dirty gf')"
proof -
  from flush_ok [OF inv ok wr] obtain r g w1 where F: "gfs_pio_flush ops gf w = Some (r, g, w1)"
    "pio_inv content ready v g w1" "pio_frame g = pio_frame gf"
    "pio_file content v g w1 = pio_file content v gf w" "pio_pos g = pio_pos gf"
    "case r of Inl e \<Rightarrow> view_error e \<and> gf_error g = e
             | Inr _ \<Rightarrow> gf_error g = GFARM_ERR_NO_ERROR \<and> \<not> gf_buffer_dirty g" by blast
  show ?thesis
  proof (cases r)
    case (Inl e)
    then show ?thesis using F by (simp add: sync_internal_def pio_bind_def)
  next
    case (Inr u)
    have "gf_view_context g = Some v" "ready v w1" using F(2) by (simp_all add: pio_inv_def pio_wf_def)
    from fsync [OF this operation] obtain r2 w2 where S: "view_fsync ops g operation w1 = Some (r2, w2)"
      "ready v w2" "content v w2 = content v w1" "case r2 of Inl e \<Rightarrow> view_error e | Inr _ \<Rightarrow> True" by blast
    have keep: "pio_inv content ready v g w2" "pio_file content v g w2 = pio_file content v g w1"
      using F(2) S by (simp_all add: pio_inv_def pio_wf_def pio_file_def)
    have err: "view_error e \<Longrightarrow> pio_inv content ready v (g\<lparr>gf_error := e\<rparr>) w2
        \<and> pio_file content v (g\<lparr>gf_error := e\<rparr>) w2 = pio_file content v g w1
        \<and> pio_frame (g\<lparr>gf_error := e\<rparr>) = pio_frame g \<and> pio_pos (g\<lparr>gf_error := e\<rparr>) = pio_pos g" for e
      using keep by (simp add: pio_inv_def pio_wf_def pio_synced_def pio_data_def pio_file_def pio_frame_def
          pio_pos_def unbuffered_def view_error_def)
    show ?thesis
      using F Inr S keep err
      by (cases r2) (simp_all add: sync_internal_def pio_bind_def)
  qed
qed

text \<open>Truncation needs a buffer that has been read or written to its end.\<close>

lemma truncate_spec:
  assumes inv: "pio_inv content ready v gf w" and ok: "GFS_PIO_ERROR gf = GFARM_ERR_NO_ERROR"
    and wr: "gf_mode_write gf" and used: "gf_p gf = gf_length gf" and n: "0 \<le> n"
  shows "\<exists>r gf' w'. gfs_pio_truncate ops n gf w = Some (r, gf', w')
     \<and> pio_inv content ready v gf' w' \<and> pio_frame gf' = pio_frame gf \<and> pio_pos gf' = pio_pos gf
     \<and> (case r of
          Inl e \<Rightarrow> view_error e \<and> gf_error gf' = e \<and> pio_file content v gf' w' = pio_file content v gf w
        | Inr _ \<Rightarrow> gf_error gf' = GFARM_ERR_NO_ERROR
                   \<and> pio_file content v gf' w' = file_truncate (pio_file content v gf w) (nat n))"
proof -
  let ?c = "gfs_pio_clearerr gf"
  have v: "gf_view_context gf = Some v" using inv by (simp add: pio_inv_def pio_wf_def)
  have ci: "pio_inv content ready v ?c w" using inv by (simp add: pio_inv_def)
  then have cw: "pio_wf content ready v ?c w" by (simp add: pio_inv_def)
  have dig: "?c\<lparr>gf_calc_digest := False\<rparr> = ?c" using cw by (intro calc_digest_off) (simp add: pio_wf_def)
  let ?prep = "if gf_buffer_dirty ?c then gfs_pio_flush ops ?c w else Some (Inr (), ?c, w)"
  obtain r g w1 where prep: "?prep = Some (r, g, w1)"
    and g: "pio_inv content ready v g w1" "pio_frame g = pio_frame gf"
      "pio_file content v g w1 = pio_file content v gf w" "pio_pos g = pio_pos gf"
    and r: "case r of Inl e \<Rightarrow> view_error e \<and> gf_error g = e
      | Inr _ \<Rightarrow> \<not> gf_buffer_dirty g \<and> gf_error g = GFARM_ERR_NO_ERROR \<and> gf_p g = gf_length g"
  proof (cases "gf_buffer_dirty ?c")
    case False
    then show ?thesis using ci used by (intro that [of "Inr ()" ?c w]) auto
  next
    case True
    have "GFS_PIO_ERROR ?c = GFARM_ERR_NO_ERROR" "gf_mode_write ?c"
      using wr by (simp_all add: GFS_PIO_ERROR_def)
    from flush_spec [OF cw this] obtain r g w1 where "gfs_pio_flush ops ?c w = Some (r, g, w1)"
      "pio_wf content ready v g w1" "pio_frame g = pio_frame ?c"
      "pio_file content v g w1 = pio_file content v ?c w" "pio_pos g = pio_pos ?c" "flushed ?c r g" by blast
    then show ?thesis using True used ci
      by (intro that [of r g w1]) (auto simp: flushed_def pio_inv_def pio_synced_def split: sum.splits)
  qed
  have run: "gfs_pio_truncate ops n gf w =
      (case r of
         Inl e \<Rightarrow> Some (Inl e, g, w1)
       | Inr _ \<Rightarrow>
           (let gf = gfs_pio_purge (g\<lparr>gf_error := GFARM_ERR_NO_ERROR\<rparr>)
            in (case view_ftruncate ops gf n w1 of
                  None \<Rightarrow> None
                | Some (Inl e, w') \<Rightarrow> Some (Inl e, gf\<lparr>gf_error := e\<rparr>, w')
                | Some (Inr _, w') \<Rightarrow> Some (Inr (), gf, w'))))"
    unfolding gfs_pio_truncate_def pio_bind_def check_view_ok [OF v ok] check_writable [OF ok] if_P [OF wr]
      option.case sum.case prod.case Let_def dig prep
    by (cases r) simp_all
  show ?thesis
  proof (cases r)
    case (Inl e)
    then show ?thesis using run g r by simp
  next
    case (Inr u)
    let ?h = "gfs_pio_purge g"
    have ge: "g\<lparr>gf_error := GFARM_ERR_NO_ERROR\<rparr> = g" using r Inr by (cases g) simp
    have gw: "pio_wf content ready v g w1" using g(1) by (simp add: pio_inv_def)
    have clean: "\<not> gf_buffer_dirty g" and pl: "gf_p g = gf_length g" and e0: "gf_error g = GFARM_ERR_NO_ERROR"
      using r Inr by auto
    have h: "gf_view_context ?h = Some v" "ready v w1" using gw by (simp_all add: pio_wf_def)
    from ftruncate [OF h n] obtain r2 w2 where T: "view_ftruncate ops ?h n w1 = Some (r2, w2)" "ready v w2"
      "case r2 of Inl e \<Rightarrow> view_error e \<and> content v w2 = content v w1
                | Inr _ \<Rightarrow> content v w2 = file_truncate (content v w1) (nat n)" by blast
    have F: "content v w1 = pio_file content v gf w" using pio_file_clean [OF gw clean] g(3) by simp
    have inv': "pio_inv content ready v (?h\<lparr>gf_error := e\<rparr>) w2 \<and> pio_file content v (?h\<lparr>gf_error := e\<rparr>) w2 = content v w2"
      if "view_error e \<or> e = GFARM_ERR_NO_ERROR" for e
      using gw g(1) clean pl T(2) that
      by (auto simp: pio_inv_def pio_wf_def pio_synced_def pio_data_def unbuffered_def view_error_def pio_file_def)
    have e0': "?h\<lparr>gf_error := GFARM_ERR_NO_ERROR\<rparr> = ?h" using e0 by (cases g) (simp add: gfs_pio_purge_def)
    have fr: "pio_frame (?h\<lparr>gf_error := e\<rparr>) = pio_frame ?h" "pio_pos (?h\<lparr>gf_error := e\<rparr>) = pio_pos ?h" for e
      by (simp_all add: pio_frame_def pio_pos_def)
    show ?thesis
    proof (cases r2)
      case (Inl e)
      then show ?thesis
        using run \<open>r = Inr u\<close> T inv' [of e] F g fr ge by simp
    next
      case (Inr x)
      then show ?thesis
        using run \<open>r = Inr u\<close> T inv' [of GFARM_ERR_NO_ERROR, unfolded e0'] F g fr ge e0 by simp
    qed
  qed
qed

text \<open>
  With unread bytes in the buffer \<open>io_offset\<close> is left where the reading had got to, and the next read fails
  its assertion.
\<close>

lemma truncate_unread:
  assumes inv: "pio_inv content ready v gf w" and ok: "gf_error gf = GFARM_ERR_NO_ERROR"
    and wr: "gf_mode_write gf" and part: "gf_p gf < gf_length gf" and n: "0 \<le> n"
  shows "\<exists>r gf' w'. gfs_pio_truncate ops n gf w = Some (r, gf', w')
     \<and> (\<not> write_only gf \<and> r = Inr () \<and> 0 < sz \<longrightarrow> gfs_pio_read ops sz gf' w' = None)"
proof -
  have ok': "GFS_PIO_ERROR gf = GFARM_ERR_NO_ERROR" using ok by (simp add: GFS_PIO_ERROR_def)
  have v: "gf_view_context gf = Some v" and wf: "pio_wf content ready v gf w"
    using inv by (simp_all add: pio_inv_def pio_wf_def)
  have dig: "gf\<lparr>gf_calc_digest := False\<rparr> = gf" using wf by (intro calc_digest_off) (simp add: pio_wf_def)
  let ?prep = "if gf_buffer_dirty gf then gfs_pio_flush ops gf w else Some (Inr (), gf, w)"
  obtain r g w1 where prep: "?prep = Some (r, g, w1)"
    and g: "pio_wf content ready v g w1" "pio_frame g = pio_frame gf"
    and r: "case r of Inl e \<Rightarrow> view_error e
      | Inr _ \<Rightarrow> \<not> gf_buffer_dirty g \<and> gf_error g = GFARM_ERR_NO_ERROR \<and> gf_p g < gf_length g \<and> pio_synced g"
  proof (cases "gf_buffer_dirty gf")
    case False
    then show ?thesis using inv part ok by (intro that [of "Inr ()" gf w]) (auto simp: pio_inv_def)
  next
    case True
    from flush_spec [OF wf ok' wr] obtain r g w1 where "gfs_pio_flush ops gf w = Some (r, g, w1)"
      "pio_wf content ready v g w1" "pio_frame g = pio_frame gf" "flushed gf r g" by blast
    then show ?thesis using True part inv
      by (intro that [of r g w1]) (auto simp: flushed_def pio_inv_def split: sum.splits)
  qed
  let ?h = "gfs_pio_purge g"
  have run: "gfs_pio_truncate ops n gf w =
      (case r of
         Inl e \<Rightarrow> Some (Inl e, g, w1)
       | Inr _ \<Rightarrow>
           (let gf = gfs_pio_purge (g\<lparr>gf_error := GFARM_ERR_NO_ERROR\<rparr>)
            in (case view_ftruncate ops gf n w1 of
                  None \<Rightarrow> None
                | Some (Inl e, w') \<Rightarrow> Some (Inl e, gf\<lparr>gf_error := e\<rparr>, w')
                | Some (Inr _, w') \<Rightarrow> Some (Inr (), gf, w'))))"
    unfolding gfs_pio_truncate_def pio_bind_def check_view_ok [OF v ok'] check_writable [OF ok'] if_P [OF wr]
      option.case sum.case prod.case Let_def clearerr_id [OF ok] dig prep
    by (cases r) simp_all
  show ?thesis
  proof (cases r)
    case (Inl e)
    then show ?thesis using run by simp
  next
    case (Inr u)
    have ge: "g\<lparr>gf_error := GFARM_ERR_NO_ERROR\<rparr> = g" using r Inr by (cases g) simp
    have h: "gf_view_context ?h = Some v" "ready v w1" using g by (simp_all add: pio_wf_def)
    from ftruncate [OF h n] obtain r2 w2 where T: "view_ftruncate ops ?h n w1 = Some (r2, w2)" by blast
    have "\<not> write_only gf \<Longrightarrow> 0 < sz \<Longrightarrow> gfs_pio_read ops sz ?h w2 = None"
      using r Inr h g(2) by (intro read_aborts) (auto simp: pio_synced_def write_only_def pio_frame_def)
    then show ?thesis using run Inr T by (cases r2) (simp_all add: ge Let_def)
  qed
qed

end

subsection \<open>Any sequence of operations\<close>

datatype pio_op =
    Pio_read int
  | Pio_write "byte list"
  | Pio_seek int int
  | Pio_getc
  | Pio_putc byte
  | Pio_flush
  | Pio_sync
  | Pio_datasync

datatype pio_obs =
    Obs_error gfarm_error_t
  | Obs_bytes "byte list"
  | Obs_int int
  | Obs_char "byte option"
  | Obs_done

definition observe :: "('a \<Rightarrow> pio_obs) \<Rightarrow> gfarm_error_t + 'a \<Rightarrow> pio_obs" where
  "observe f r = (case r of Inl e \<Rightarrow> Obs_error e | Inr x \<Rightarrow> f x)"

fun pio_step :: "('v, 'w, 'st) gfs_pio_ops \<Rightarrow> pio_op \<Rightarrow> ('v, 'w, pio_obs) pio_call" where
  "pio_step ops (Pio_read n) gf w = map_option (\<lambda>(r, s). (observe Obs_bytes r, s)) (gfs_pio_read ops n gf w)"
| "pio_step ops (Pio_write bs) gf w = map_option (\<lambda>(r, s). (observe Obs_int r, s)) (gfs_pio_write ops bs gf w)"
| "pio_step ops (Pio_seek off whence) gf w =
     map_option (\<lambda>(r, s). (observe Obs_int r, s)) (gfs_pio_seek ops off whence gf w)"
| "pio_step ops Pio_getc gf w = map_option (\<lambda>(c, s). (Obs_char c, s)) (gfs_pio_getc ops gf w)"
| "pio_step ops (Pio_putc c) gf w = map_option (\<lambda>(r, s). (observe (\<lambda>_. Obs_done) r, s)) (gfs_pio_putc ops c gf w)"
| "pio_step ops Pio_flush gf w = map_option (\<lambda>(r, s). (observe (\<lambda>_. Obs_done) r, s)) (gfs_pio_flush ops gf w)"
| "pio_step ops Pio_sync gf w = map_option (\<lambda>(r, s). (observe (\<lambda>_. Obs_done) r, s)) (gfs_pio_sync ops gf w)"
| "pio_step ops Pio_datasync gf w =
     map_option (\<lambda>(r, s). (observe (\<lambda>_. Obs_done) r, s)) (gfs_pio_datasync ops gf w)"

primrec pio_run :: "('v, 'w, 'st) gfs_pio_ops \<Rightarrow> pio_op list \<Rightarrow> ('v, 'w, pio_obs list) pio_call" where
  "pio_run ops [] gf w = Some ([], gf, w)"
| "pio_run ops (x # xs) gf w =
     (case pio_step ops x gf w of
        None \<Rightarrow> None
      | Some (ob, gf', w') \<Rightarrow> map_option (\<lambda>(obs, s). (ob # obs, s)) (pio_run ops xs gf' w'))"

text \<open>The same operations of a plain file with a position.\<close>

fun file_step :: "pio_op \<Rightarrow> byte list \<times> nat \<Rightarrow> pio_obs \<times> byte list \<times> nat" where
  "file_step (Pio_read n) (c, pos) =
     (let bs = take (nat n) (drop pos c) in (Obs_bytes bs, c, pos + length bs))"
| "file_step (Pio_write bs) (c, pos) = (Obs_int (int (length bs)), file_put c pos bs, pos + length bs)"
| "file_step (Pio_seek off whence) (c, pos) =
     (case seek_target off whence pos of
        Some q \<Rightarrow> (if q < 0 then (Obs_error GFARM_ERR_INVALID_ARGUMENT, c, pos) else (Obs_int q, c, nat q))
      | None \<Rightarrow> (Obs_error GFARM_ERR_INVALID_ARGUMENT, c, pos))"
| "file_step Pio_getc (c, pos) =
     (if pos < length c then (Obs_char (Some (c ! pos)), c, pos + 1) else (Obs_char None, c, pos))"
| "file_step (Pio_putc b) (c, pos) = (Obs_done, file_put c pos [b], pos + 1)"
| "file_step Pio_flush (c, pos) = (Obs_done, c, pos)"
| "file_step Pio_sync (c, pos) = (Obs_done, c, pos)"
| "file_step Pio_datasync (c, pos) = (Obs_done, c, pos)"

primrec file_run :: "pio_op list \<Rightarrow> byte list \<times> nat \<Rightarrow> pio_obs list \<times> byte list \<times> nat" where
  "file_run [] f = ([], f)"
| "file_run (x # xs) f =
     (let (ob, f') = file_step x f; (obs, f'') = file_run xs f' in (ob # obs, f''))"

text \<open>What the mode of the file permits; the sizes are those of an \<open>int\<close>.\<close>

fun pio_allowed :: "'v gfs_file \<Rightarrow> pio_op \<Rightarrow> bool" where
  "pio_allowed gf (Pio_read n) \<longleftrightarrow> \<not> write_only gf"
| "pio_allowed gf (Pio_write bs) \<longleftrightarrow> gf_mode_write gf \<and> int (length bs) \<le> 2147483647 - GFS_FILE_BUFSIZE"
| "pio_allowed gf (Pio_seek off whence) \<longleftrightarrow> True"
| "pio_allowed gf Pio_getc \<longleftrightarrow> \<not> write_only gf"
| "pio_allowed gf (Pio_putc c) \<longleftrightarrow> gf_mode_write gf"
| "pio_allowed gf Pio_flush \<longleftrightarrow> gf_mode_write gf"
| "pio_allowed gf Pio_sync \<longleftrightarrow> gf_mode_write gf"
| "pio_allowed gf Pio_datasync \<longleftrightarrow> gf_mode_write gf"

lemma pio_allowed_frame: "pio_frame gf' = pio_frame gf \<Longrightarrow> pio_allowed gf' x = pio_allowed gf x"
  by (cases x) (auto simp: pio_frame_def write_only_def)

text \<open>After an error nothing happens any more, until it is cleared.\<close>

lemma bind_check_error:
  "GFS_PIO_ERROR gf \<noteq> GFARM_ERR_NO_ERROR \<Longrightarrow>
     pio_bind (gfs_pio_check_view_default ops) f gf w = Some (Inl (gf_error gf), gf, w)"
  by (simp add: pio_bind_def check_view_error)

lemma step_after_error:
  assumes "GFS_PIO_ERROR gf \<noteq> GFARM_ERR_NO_ERROR"
  shows "\<exists>ob. pio_step ops x gf w = Some (ob, gf, w)"
proof -
  have "gf\<lparr>gf_error := gf_error gf\<rparr> = gf" by (cases gf) simp
  then have getc: "gfs_pio_getc ops gf w = Some (None, gf, w)"
    by (simp add: gfs_pio_getc_def check_view_error [OF assms])
  note bind = bind_check_error [OF assms, of ops _ w]
  have stop: "gfs_pio_read ops n gf w = Some (Inl (gf_error gf), gf, w)"
    "gfs_pio_write ops bs gf w = Some (Inl (gf_error gf), gf, w)"
    "gfs_pio_seek ops off whence gf w = Some (Inl (gf_error gf), gf, w)"
    "gfs_pio_putc ops c gf w = Some (Inl (gf_error gf), gf, w)"
    "gfs_pio_flush ops gf w = Some (Inl (gf_error gf), gf, w)" for n bs off whence c
    unfolding gfs_pio_read_def gfs_pio_write_def Let_def gfs_pio_seek_def gfs_pio_putc_def gfs_pio_flush_def
    by (rule bind)+
  have "gfs_pio_sync ops gf w = Some (Inl (gf_error gf), gf, w)"
    "gfs_pio_datasync ops gf w = Some (Inl (gf_error gf), gf, w)"
    by (simp_all add: gfs_pio_sync_def gfs_pio_datasync_def sync_internal_def pio_bind_def [of "gfs_pio_flush ops"] stop)
  then show ?thesis by (cases x) (simp_all add: stop getc)
qed

context file_view
begin

lemma step_spec:
  assumes inv: "pio_inv content ready v gf w" and "pio_allowed gf x"
  shows "\<exists>ob gf' w'. pio_step ops x gf w = Some (ob, gf', w')
     \<and> pio_inv content ready v gf' w' \<and> pio_frame gf' = pio_frame gf
     \<and> (GFS_PIO_ERROR gf' = GFARM_ERR_NO_ERROR \<longrightarrow> GFS_PIO_ERROR gf = GFARM_ERR_NO_ERROR
          \<and> (ob, pio_file content v gf' w', pio_pos gf') = file_step x (pio_file content v gf w, pio_pos gf))"
proof (cases "GFS_PIO_ERROR gf = GFARM_ERR_NO_ERROR")
  case False
  then show ?thesis using step_after_error [OF False, of ops x w] inv by auto
next
  case True
  note ve = GFS_PIO_ERROR_def view_error_def observe_def
  show ?thesis
  proof (cases x)
    case (Pio_read n)
    with assms(2) have "\<not> write_only gf" by simp
    from read_spec [OF inv True this, of n] obtain r g w1 where R: "gfs_pio_read ops n gf w = Some (r, g, w1)"
      "pio_inv content ready v g w1" "pio_frame g = pio_frame gf"
      "pio_file content v g w1 = pio_file content v gf w"
      "case r of
          Inl e \<Rightarrow> view_error e \<and> gf_error g = e \<and> pio_pos g = pio_pos gf
        | Inr bs \<Rightarrow> pio_pos g = pio_pos gf + length bs \<and> length bs \<le> nat n
            \<and> bs = take (length bs) (drop (pio_pos gf) (pio_file content v gf w))
            \<and> (GFS_PIO_ERROR g = GFARM_ERR_NO_ERROR \<longrightarrow>
                 bs = take (nat n) (drop (pio_pos gf) (pio_file content v gf w)))"
      by blast
    show ?thesis using R True by (cases r) (auto simp: Pio_read ve Let_def)
  next
    case (Pio_write bs)
    with assms(2) have "gf_mode_write gf" "int (length bs) \<le> 2147483647 - GFS_FILE_BUFSIZE" by simp_all
    from write_spec [OF inv True this] obtain r g w1 where R: "gfs_pio_write ops bs gf w = Some (r, g, w1)"
      "pio_inv content ready v g w1" "pio_frame g = pio_frame gf"
      "wrote (pio_file content v gf w) (pio_pos gf) bs r g (pio_file content v g w1)"
      by blast
    show ?thesis using R True by (cases r) (auto simp: Pio_write wrote_def ve Let_def)
  next
    case (Pio_seek off whence)
    from seek_spec [OF inv True, of off whence] obtain r g w1 where R: "gfs_pio_seek ops off whence gf w = Some (r, g, w1)"
      "pio_inv content ready v g w1" "pio_frame g = pio_frame gf"
      "pio_file content v g w1 = pio_file content v gf w"
      "case r of
          Inl e \<Rightarrow> view_error e \<and> gf_error g = e \<and> pio_pos g = pio_pos gf
        | Inr q \<Rightarrow> seek_target off whence (pio_pos gf) = Some q \<and> 0 \<le> q \<and> pio_pos g = nat q
                   \<and> gf_error g = GFARM_ERR_NO_ERROR"
      by blast
    show ?thesis using R True by (cases r) (auto simp: Pio_seek ve Let_def)
  next
    case (Pio_getc)
    with assms(2) have "\<not> write_only gf" by simp
    from getc_spec [OF inv True this] obtain r g w1 where R: "gfs_pio_getc ops gf w = Some (r, g, w1)"
      "pio_inv content ready v g w1" "pio_frame g = pio_frame gf"
      "pio_file content v g w1 = pio_file content v gf w"
      "case r of
          None \<Rightarrow> pio_pos g = pio_pos gf
            \<and> (GFS_PIO_ERROR g = GFARM_ERR_NO_ERROR \<longrightarrow> length (pio_file content v gf w) \<le> pio_pos gf)
        | Some b \<Rightarrow> GFS_PIO_ERROR g = GFARM_ERR_NO_ERROR \<and> pio_pos g = pio_pos gf + 1
            \<and> pio_pos gf < length (pio_file content v gf w) \<and> b = pio_file content v gf w ! pio_pos gf"
      by blast
    show ?thesis using R True by (cases r) (auto simp: Pio_getc ve Let_def)
  next
    case (Pio_putc c)
    with assms(2) have "gf_mode_write gf" by simp
    from putc_spec [OF inv True this, of c] obtain r g w1 where R: "gfs_pio_putc ops c gf w = Some (r, g, w1)"
      "pio_inv content ready v g w1" "pio_frame g = pio_frame gf"
      "GFS_PIO_ERROR g = GFARM_ERR_NO_ERROR \<longrightarrow> r = Inr ()
          \<and> pio_file content v g w1 = file_put (pio_file content v gf w) (pio_pos gf) [c]
          \<and> pio_pos g = pio_pos gf + 1"
      by blast
    show ?thesis using R True by (cases r) (auto simp: Pio_putc observe_def Let_def)
  next
    case (Pio_flush)
    with assms(2) have "gf_mode_write gf" by simp
    from flush_ok [OF inv True this] obtain r g w1 where R: "gfs_pio_flush ops gf w = Some (r, g, w1)"
      "pio_inv content ready v g w1" "pio_frame g = pio_frame gf"
      "pio_file content v g w1 = pio_file content v gf w" "pio_pos g = pio_pos gf"
      "case r of Inl e \<Rightarrow> view_error e \<and> gf_error g = e
               | Inr _ \<Rightarrow> gf_error g = GFARM_ERR_NO_ERROR \<and> \<not> gf_buffer_dirty g"
      by blast
    show ?thesis using R True by (cases r) (auto simp: Pio_flush ve Let_def)
  next
    case (Pio_sync)
    with assms(2) have "gf_mode_write gf" by simp
    from sync_spec [OF inv True this, of GFS_PROTO_FSYNC_WITH_METADATA, folded gfs_pio_sync_def] obtain r g w1 where R: "gfs_pio_sync ops gf w = Some (r, g, w1)"
      "pio_inv content ready v g w1" "pio_frame g = pio_frame gf"
      "pio_file content v g w1 = pio_file content v gf w" "pio_pos g = pio_pos gf"
      "case r of Inl e \<Rightarrow> view_error e \<and> gf_error g = e
               | Inr _ \<Rightarrow> gf_error g = GFARM_ERR_NO_ERROR \<and> \<not> gf_buffer_dirty g"
      by blast
    show ?thesis using R True by (cases r) (auto simp: Pio_sync ve Let_def)
  next
    case (Pio_datasync)
    with assms(2) have "gf_mode_write gf" by simp
    from sync_spec [OF inv True this, of GFS_PROTO_FSYNC_WITHOUT_METADATA, folded gfs_pio_datasync_def] obtain r g w1 where R: "gfs_pio_datasync ops gf w = Some (r, g, w1)"
      "pio_inv content ready v g w1" "pio_frame g = pio_frame gf"
      "pio_file content v g w1 = pio_file content v gf w" "pio_pos g = pio_pos gf"
      "case r of Inl e \<Rightarrow> view_error e \<and> gf_error g = e
               | Inr _ \<Rightarrow> gf_error g = GFARM_ERR_NO_ERROR \<and> \<not> gf_buffer_dirty g"
      by blast
    show ?thesis using R True by (cases r) (auto simp: Pio_datasync ve Let_def)
  qed
qed

text \<open>
  Every sequence of permitted operations returns and keeps the invariant; if no error is left at its end, it has
  answered as a plain file does and the open file is that file.
\<close>

lemma run_spec:
  assumes "pio_inv content ready v gf w" and "list_all (pio_allowed gf) xs"
  shows "\<exists>obs gf' w'. pio_run ops xs gf w = Some (obs, gf', w')
     \<and> pio_inv content ready v gf' w' \<and> pio_frame gf' = pio_frame gf
     \<and> (GFS_PIO_ERROR gf' = GFARM_ERR_NO_ERROR \<longrightarrow> GFS_PIO_ERROR gf = GFARM_ERR_NO_ERROR
          \<and> (obs, pio_file content v gf' w', pio_pos gf') = file_run xs (pio_file content v gf w, pio_pos gf))"
  using assms
proof (induction xs arbitrary: gf w)
  case Nil
  then show ?case by simp
next
  case (Cons x xs)
  from step_spec [OF Cons.prems(1), of x] Cons.prems(2) obtain ob g w1 where S:
    "pio_step ops x gf w = Some (ob, g, w1)" "pio_inv content ready v g w1" "pio_frame g = pio_frame gf"
    "GFS_PIO_ERROR g = GFARM_ERR_NO_ERROR \<longrightarrow> GFS_PIO_ERROR gf = GFARM_ERR_NO_ERROR
          \<and> (ob, pio_file content v g w1, pio_pos g) = file_step x (pio_file content v gf w, pio_pos gf)"
    by auto
  have "list_all (pio_allowed g) xs"
    using Cons.prems(2) pio_allowed_frame [OF S(3)] by (simp add: list_all_iff)
  from Cons.IH [OF S(2) this] obtain obs gf' w' where R:
    "pio_run ops xs g w1 = Some (obs, gf', w')" "pio_inv content ready v gf' w'" "pio_frame gf' = pio_frame g"
    "GFS_PIO_ERROR gf' = GFARM_ERR_NO_ERROR \<longrightarrow> GFS_PIO_ERROR g = GFARM_ERR_NO_ERROR
          \<and> (obs, pio_file content v gf' w', pio_pos gf') = file_run xs (pio_file content v g w1, pio_pos g)"
    by blast
  have "GFS_PIO_ERROR gf' = GFARM_ERR_NO_ERROR \<Longrightarrow>
      (ob # obs, pio_file content v gf' w', pio_pos gf') = file_run (x # xs) (pio_file content v gf w, pio_pos gf)"
    using R(4) S(4) by (simp add: Let_def split_def) (metis fst_conv snd_conv)
  then show ?case using S R by auto
qed

end

end
