(* ===== verification/Gfs_Pio_Lines.thy ===== *)
theory Gfs_Pio_Lines
  imports Gfs_Pio_File
begin

text \<open>
  Reading lines: what \<open>gfs_pio_gets\<close>, \<open>gfs_pio_getline\<close> and \<open>gfs_pio_readline\<close> yield is a line of the plain
  file that an open file is, and the growing buffer of \<open>readline\<close> is never written behind its end.
\<close>

subsection \<open>Lines of a text\<close>

definition first_line :: "byte list \<Rightarrow> byte list" where
  "first_line bs = takeWhile (\<lambda>c. c \<noteq> newline) bs @ (if newline \<in> set bs then [newline] else [])"

lemma first_line_Nil [simp]: "first_line [] = []"
  by (simp add: first_line_def)

lemma first_line_Cons:
  "first_line (c # bs) = (if c = newline then [c] else c # first_line bs)"
  by (simp add: first_line_def)

lemma first_line_take: "first_line bs = take (length (first_line bs)) bs"
  by (induction bs) (auto simp: first_line_Cons)

text \<open>What is left of a file at a position, and the step to the next byte.\<close>

lemma rest_Cons: "pos < length F \<Longrightarrow> drop pos F = F ! pos # drop (Suc pos) F"
  by (rule Cons_nth_drop_Suc [symmetric])

text \<open>What a reader of a line has consumed: a part \<open>got\<close> of what was left, all of \<open>want\<close> if there is no error.\<close>

definition consumed ::
  "('v \<Rightarrow> 'w \<Rightarrow> byte list) \<Rightarrow> ('v \<Rightarrow> 'w \<Rightarrow> bool) \<Rightarrow> 'v \<Rightarrow> 'v gfs_file \<Rightarrow> 'w \<Rightarrow> 'v gfs_file \<Rightarrow> 'w \<Rightarrow> byte list \<Rightarrow> byte list \<Rightarrow> bool" where
  "consumed content ready v gf w gf' w' got want \<longleftrightarrow>
     pio_inv content ready v gf' w' \<and> pio_frame gf' = pio_frame gf
     \<and> pio_file content v gf' w' = pio_file content v gf w
     \<and> pio_pos gf' = pio_pos gf + length got
     \<and> got = take (length got) (drop (pio_pos gf) (pio_file content v gf w))
     \<and> (GFS_PIO_ERROR gf' = GFARM_ERR_NO_ERROR \<longrightarrow> got = want)"

context file_view
begin

text \<open>A character read, in the form that the loops need.\<close>

lemma getc_cases:
  assumes inv: "pio_inv content ready v gf w" and ok: "GFS_PIO_ERROR gf = GFARM_ERR_NO_ERROR"
    and rd: "\<not> write_only gf"
  obtains (char) b gf' w' where "gfs_pio_getc ops gf w = Some (Some b, gf', w')"
      and "pio_inv content ready v gf' w'" and "pio_frame gf' = pio_frame gf" and "\<not> write_only gf'"
      and "pio_file content v gf' w' = pio_file content v gf w"
      and "GFS_PIO_ERROR gf' = GFARM_ERR_NO_ERROR" and "pio_pos gf' = Suc (pio_pos gf)"
      and "drop (pio_pos gf) (pio_file content v gf w) = b # drop (pio_pos gf') (pio_file content v gf' w')"
  | (eof) gf' w' where "gfs_pio_getc ops gf w = Some (None, gf', w')"
      and "pio_inv content ready v gf' w'" and "pio_frame gf' = pio_frame gf"
      and "pio_file content v gf' w' = pio_file content v gf w" and "pio_pos gf' = pio_pos gf"
      and "GFS_PIO_ERROR gf' = GFARM_ERR_NO_ERROR \<longrightarrow>
             drop (pio_pos gf) (pio_file content v gf w) = []"
proof -
  from getc_spec [OF inv ok rd] obtain c g w1 where R: "gfs_pio_getc ops gf w = Some (c, g, w1)"
    "pio_inv content ready v g w1" "pio_frame g = pio_frame gf"
    "pio_file content v g w1 = pio_file content v gf w"
    "case c of
       None \<Rightarrow> pio_pos g = pio_pos gf
         \<and> (GFS_PIO_ERROR g = GFARM_ERR_NO_ERROR \<longrightarrow> length (pio_file content v gf w) \<le> pio_pos gf)
     | Some b \<Rightarrow> GFS_PIO_ERROR g = GFARM_ERR_NO_ERROR \<and> pio_pos g = pio_pos gf + 1
         \<and> pio_pos gf < length (pio_file content v gf w) \<and> b = pio_file content v gf w ! pio_pos gf"
    by blast
  show thesis
  proof (cases c)
    case None
    then show ?thesis using R by (intro eof [of g w1]) auto
  next
    case (Some b)
    then have "drop (pio_pos gf) (pio_file content v gf w) = b # drop (Suc (pio_pos gf)) (pio_file content v gf w)"
      using R(5) rest_Cons [of "pio_pos gf" "pio_file content v gf w"] by simp
    then show ?thesis using R rd Some write_only_frame [OF R(3)] by (intro char [of b g w1]) simp_all
  qed
qed

abbreviation (input) rest_of :: "'v \<Rightarrow> 'v gfs_file \<Rightarrow> 'w \<Rightarrow> byte list" where
  "rest_of v gf w \<equiv> drop (pio_pos gf) (pio_file content v gf w)"

lemma consumed_step:
  assumes "pio_file content v g w1 = pio_file content v gf w" and "pio_frame g = pio_frame gf"
    and "pio_pos g = Suc (pio_pos gf)" and "rest_of v gf w = b # rest_of v g w1"
    and "consumed content ready v g w1 gf' w' got want"
  shows "consumed content ready v gf w gf' w' (b # got) (b # want)"
  using assms by (simp add: consumed_def)

lemma gets_loop_spec:
  assumes "pio_inv content ready v gf w" and "GFS_PIO_ERROR gf = GFARM_ERR_NO_ERROR"
    and "\<not> write_only gf"
  shows "\<exists>got gf' w'. gfs_pio_gets_loop ops n gf w = Some (got, gf', w')
     \<and> consumed content ready v gf w gf' w' got (take n (first_line (rest_of v gf w)))"
  using assms
proof (induction n arbitrary: gf w)
  case 0
  then show ?case by (simp add: consumed_def)
next
  case (Suc n)
  show ?case
  proof (cases rule: getc_cases [OF Suc.prems, case_names char eof])
    case (eof g w1)
    then show ?thesis by (simp add: consumed_def)
  next
    case (char b g w1)
    show ?thesis
    proof (cases "b = newline")
      case True
      then show ?thesis using char by (simp add: consumed_def first_line_Cons)
    next
      case False
      from Suc.IH [OF char(2,6,4)] obtain got gf' w' where
        "gfs_pio_gets_loop ops n g w1 = Some (got, gf', w')"
        "consumed content ready v g w1 gf' w' got (take n (first_line (rest_of v g w1)))" by blast
      then show ?thesis
        using char(1,8) False consumed_step [OF char(5,3,7,8)] by (auto simp: first_line_Cons)
    qed
  qed
qed

lemma gets_spec:
  assumes inv: "pio_inv content ready v gf w" and ok: "GFS_PIO_ERROR gf = GFARM_ERR_NO_ERROR"
    and rd: "\<not> write_only gf" and n: "1 < n"
  shows "\<exists>got gf' w'. gfs_pio_gets ops n gf w = Some (Inr got, gf', w')
     \<and> consumed content ready v gf w gf' w' got (take (n - 1) (first_line (rest_of v gf w)))"
proof -
  have v: "gf_view_context gf = Some v" using inv by (simp add: pio_inv_def pio_wf_def)
  from gets_loop_spec [OF inv ok rd, of "n - 1"] show ?thesis
    using n rd by (auto simp: gfs_pio_gets_def pio_bind_def check_view_ok [OF v ok] CHECK_READABLE_def)
qed

lemma getline_loop_spec:
  assumes "pio_inv content ready v gf w" and "GFS_PIO_ERROR gf = GFARM_ERR_NO_ERROR"
    and "\<not> write_only gf"
  shows "\<exists>got last' gf' w'.
     gfs_pio_getline_loop ops n lastc gf w = Some ((takeWhile (\<lambda>c. c \<noteq> newline) got, last'), gf', w')
     \<and> consumed content ready v gf w gf' w' got (take n (first_line (rest_of v gf w)))
     \<and> (got = [] \<longrightarrow> 0 < n \<longrightarrow> last' = None)
     \<and> (got \<noteq> [] \<and> takeWhile (\<lambda>c. c \<noteq> newline) got = [] \<longrightarrow> last' \<noteq> None)"
  using assms
proof (induction n arbitrary: lastc gf w)
  case 0
  then show ?case by (intro exI [of _ "[]"]) (simp add: consumed_def)
next
  case (Suc n)
  show ?case
  proof (cases rule: getc_cases [OF Suc.prems, case_names char eof])
    case (eof g w1)
    then show ?thesis by (intro exI [of _ "[]"]) (simp add: consumed_def)
  next
    case (char b g w1)
    show ?thesis
    proof (cases "b = newline")
      case True
      then show ?thesis using char by (intro exI [of _ "[b]"]) (simp add: consumed_def first_line_Cons)
    next
      case False
      from Suc.IH [OF char(2,6,4), of "Some b"] obtain got last' gf' w' where IH:
        "gfs_pio_getline_loop ops n (Some b) g w1 = Some ((takeWhile (\<lambda>c. c \<noteq> newline) got, last'), gf', w')"
        "consumed content ready v g w1 gf' w' got (take n (first_line (rest_of v g w1)))" by blast
      then show ?thesis
        using char(1,8) False consumed_step [OF char(5,3,7,8) IH(2)]
        by (intro exI [of _ "b # got"]) (simp add: first_line_Cons)
    qed
  qed
qed

lemma getline_spec:
  assumes inv: "pio_inv content ready v gf w" and ok: "GFS_PIO_ERROR gf = GFARM_ERR_NO_ERROR"
    and rd: "\<not> write_only gf" and n: "1 < n"
  shows "\<exists>r got gf' w'. gfs_pio_getline ops n gf w = Some (r, gf', w')
     \<and> consumed content ready v gf w gf' w' got (take (n - 1) (first_line (rest_of v gf w)))
     \<and> (case r of Inl e \<Rightarrow> got = [] \<and> e = GFS_PIO_ERROR gf' \<and> e \<noteq> GFARM_ERR_NO_ERROR
                | Inr (s, eof) \<Rightarrow> s = takeWhile (\<lambda>c. c \<noteq> newline) got \<and> (eof \<longleftrightarrow> got = []))"
proof -
  have v: "gf_view_context gf = Some v" using inv by (simp add: pio_inv_def pio_wf_def)
  from getline_loop_spec [OF inv ok rd, of "n - 1" None] obtain got last' gf' w' where L:
    "gfs_pio_getline_loop ops (n - 1) None gf w = Some ((takeWhile (\<lambda>c. c \<noteq> newline) got, last'), gf', w')"
    "consumed content ready v gf w gf' w' got (take (n - 1) (first_line (rest_of v gf w)))"
    "got = [] \<longrightarrow> 0 < n - 1 \<longrightarrow> last' = None"
    "got \<noteq> [] \<and> takeWhile (\<lambda>c. c \<noteq> newline) got = [] \<longrightarrow> last' \<noteq> None" by (elim exE conjE) (rule that)
  have run: "gfs_pio_getline ops n gf w =
      (if got = [] then pio_bind (pio_status (GFS_PIO_ERROR gf')) (\<lambda>_. pio_return ([], True)) gf' w'
       else Some (Inr (takeWhile (\<lambda>c. c \<noteq> newline) got, False), gf', w'))"
    using n rd L(1,3,4)
    by (auto simp: gfs_pio_getline_def pio_bind_def check_view_ok [OF v ok] CHECK_READABLE_def)
  show ?thesis
  proof (cases "got = [] \<and> GFS_PIO_ERROR gf' \<noteq> GFARM_ERR_NO_ERROR")
    case True
    then show ?thesis using run L(2)
      by (intro exI [of _ "Inl (GFS_PIO_ERROR gf')"] exI [of _ "[]"])
        (simp add: pio_bind_def pio_status_def pio_fail_def)
  next
    case False
    then show ?thesis using run L(2)
      by (intro exI [of _ "Inr (takeWhile (\<lambda>c. c \<noteq> newline) got, got = [])"] exI [of _ got])
        (auto simp: pio_bind_def pio_status_def pio_return_def)
  qed
qed

end

subsection \<open>The growing line buffer\<close>

definition line_bytes :: "line_buffer \<Rightarrow> byte list" where
  "line_bytes b = mem_read (lb_buf b) 0 (uint (lb_len b))"

definition line_ok :: "line_buffer \<Rightarrow> bool" where
  "line_ok b \<longleftrightarrow> 0 < lb_size b \<and> lb_len b \<le> lb_size b \<and> \<not> lb_overflow b"

lemma line_room_spec:
  assumes "line_ok b" and "line_room mal b = Some b'"
  shows "line_ok b'" and "lb_len b' < lb_size b'" and "lb_len b' = lb_len b" and "lb_buf b' = lb_buf b"
    and "line_bytes b' = line_bytes b"
proof -
  have dbl: "lb_size b < lb_size b + lb_size b" if "\<not> lb_size b + lb_size b < lb_size b"
    using that assms(1) by (auto simp: line_ok_def not_less order_less_le)
  show "line_ok b'" "lb_len b' < lb_size b'" "lb_len b' = lb_len b" "lb_buf b' = lb_buf b"
    using assms dbl
    by (auto simp: line_room_def line_ok_def gfarm_size_add_def Let_def not_le split: if_splits
        intro: order_less_le_trans order_less_imp_le)
  then show "line_bytes b' = line_bytes b" by (simp add: line_bytes_def)
qed

lemma line_put_spec:
  assumes "line_ok b" and "lb_len b < lb_size b"
  shows "line_ok (line_put c b)" and "line_bytes (line_put c b) = line_bytes b @ [c]"
    and "unat (lb_len (line_put c b)) = Suc (unat (lb_len b))"
proof -
  have "lb_len b \<noteq> - 1" using assms(2) by (metis word_order.extremum_strict)
  then have "1 + lb_len b \<noteq> 0" by (metis add.commute eq_neg_iff_add_eq_0)
  from unatSuc [OF this] have suc: "unat (lb_len b + 1) = Suc (unat (lb_len b))" by (simp add: add.commute)
  then show "unat (lb_len (line_put c b)) = Suc (unat (lb_len b))" by (simp add: line_put_def)
  show "line_ok (line_put c b)"
    using assms suc by (simp add: line_ok_def line_put_def word_le_nat_alt word_less_nat_alt)
  have ui: "uint (lb_len b + 1) = uint (lb_len b) + 1"
    using suc by (metis of_nat_Suc uint_nat add.commute)
  have "(lb_buf b)(uint (lb_len b) := c) = mem_write (lb_buf b) (uint (lb_len b)) [c]"
    by (rule ext) (auto simp: mem_write_def)
  then show "line_bytes (line_put c b) = line_bytes b @ [c]"
    by (simp add: line_bytes_def line_put_def ui mem_read_write_append)
qed

context file_view
begin

lemma readline_loop_spec:
  assumes "pio_inv content ready v gf w" and "GFS_PIO_ERROR gf = GFARM_ERR_NO_ERROR"
    and "\<not> write_only gf" and "line_ok b"
  shows "\<exists>ok got b' gf' w'. gfs_pio_readline_loop ops mal b gf w = Some ((ok, b'), gf', w') \<and> line_ok b'
     \<and> pio_inv content ready v gf' w' \<and> pio_frame gf' = pio_frame gf
     \<and> pio_file content v gf' w' = pio_file content v gf w
     \<and> (ok \<longrightarrow> line_bytes b' = line_bytes b @ got \<and> unat (lb_len b') = unat (lb_len b) + length got
            \<and> consumed content ready v gf w gf' w' got (first_line (rest_of v gf w)))"
  using assms
proof (induction "length (rest_of v gf w)" arbitrary: gf w b rule: less_induct)
  case less
  note unf = gfs_pio_readline_loop.simps [of ops mal b gf w]
  show ?case
  proof (cases rule: getc_cases [OF less.prems(1,2,3), case_names char eof])
    case (eof g w1)
    then show ?thesis using less.prems(4)
      by (intro exI [of _ True] exI [of _ "[]"] exI [of _ b] exI [of _ g] exI [of _ w1])
        (simp add: unf consumed_def)
  next
    case (char c g w1)
    show ?thesis
    proof (cases "line_room mal b")
      case None
      then show ?thesis using char less.prems(4)
        by (intro exI [of _ False] exI [of _ "[]"] exI [of _ b] exI [of _ g] exI [of _ w1]) (simp add: unf)
    next
      case (Some b1)
      note R = line_room_spec [OF less.prems(4) Some]
      note P = line_put_spec [OF R(1,2), of c]
      show ?thesis
      proof (cases "c = newline")
        case True
        have "consumed content ready v gf w g w1 [c] (first_line (rest_of v gf w))"
          using char True by (simp add: consumed_def first_line_Cons)
        then show ?thesis using char Some True P R
          by (intro exI [of _ True] exI [of _ "[c]"] exI [of _ "line_put c b1"] exI [of _ g] exI [of _ w1])
            (simp add: unf)
      next
        case False
        have "length (rest_of v g w1) < length (rest_of v gf w)" unfolding char(8) by simp
        from less.hyps [OF this char(2,6,4) P(1)] obtain ok got b' gf' w' where IH:
          "gfs_pio_readline_loop ops mal (line_put c b1) g w1 = Some ((ok, b'), gf', w')" "line_ok b'"
          "pio_inv content ready v gf' w'" "pio_frame gf' = pio_frame g"
          "pio_file content v gf' w' = pio_file content v g w1"
          "ok \<longrightarrow> line_bytes b' = line_bytes (line_put c b1) @ got
              \<and> unat (lb_len b') = unat (lb_len (line_put c b1)) + length got
              \<and> consumed content ready v g w1 gf' w' got (first_line (rest_of v g w1))"
          by (elim exE conjE) (rule that)
        have "ok \<Longrightarrow> consumed content ready v gf w gf' w' (c # got) (first_line (rest_of v gf w))"
          using IH(6) consumed_step [OF char(5,3,7,8), of gf' w' got] char(8) False
          by (simp add: first_line_Cons)
        then show ?thesis using char(1,3,5) Some False P R IH
          by (intro exI [of _ ok] exI [of _ "c # got"] exI [of _ b'] exI [of _ gf'] exI [of _ w'])
            (simp add: unf)
      qed
    qed
  qed
qed

text \<open>
  The whole of \<open>readline\<close>: it returns, and on success the line and a \<open>'\0'\<close> are in a buffer of \<open>*sizep\<close>
  bytes. A failure other than \<open>GFARM_ERR_NO_MEMORY\<close> is one that was there before.
\<close>

lemma readline_spec:
  assumes inv: "pio_inv content ready v gf w" and ok: "GFS_PIO_ERROR gf = GFARM_ERR_NO_ERROR"
    and rd: "\<not> write_only gf"
  shows "\<exists>r bufp' sizep' gf' w'. gfs_pio_readline ops mal m0 bufp sizep gf w = Some ((r, bufp', sizep'), gf', w')
     \<and> pio_inv content ready v gf' w' \<and> pio_frame gf' = pio_frame gf
     \<and> pio_file content v gf' w' = pio_file content v gf w
     \<and> (case r of
          Inl e \<Rightarrow> e = GFARM_ERR_NO_MEMORY
        | Inr len \<Rightarrow> len < sizep'
            \<and> (\<exists>m got. bufp' = Some m \<and> length got = unat len \<and> mem_read m 0 (uint len) = got \<and> m (uint len) = 0
                 \<and> consumed content ready v gf w gf' w' got (first_line (rest_of v gf w))))"
proof -
  have v: "gf_view_context gf = Some v" using inv by (simp add: pio_inv_def pio_wf_def)
  have head: "pio_bind (gfs_pio_check_view_default ops) (\<lambda>_. CHECK_READABLE) gf w = Some (Inr (), gf, w)"
    using rd by (simp add: pio_bind_def check_view_ok [OF v ok] CHECK_READABLE_def)
  show ?thesis
  proof (cases "line_start mal m0 False bufp sizep")
    case None
    then show ?thesis using inv by (simp add: gfs_pio_readline_def head)
  next
    case (Some b)
    have one: "0 < sizep" if "\<not> sizep \<le> 1" using that by (simp add: word_le_nat_alt word_less_nat_alt)
    have b: "line_ok b" "lb_len b = 0"
      using Some one by (auto simp: line_start_def Let_def line_ok_def split: if_splits)
    from readline_loop_spec [OF inv ok rd b(1), of mal] obtain fin got b' gf' w' where L:
      "gfs_pio_readline_loop ops mal b gf w = Some ((fin, b'), gf', w')" "line_ok b'"
      "pio_inv content ready v gf' w'" "pio_frame gf' = pio_frame gf"
      "pio_file content v gf' w' = pio_file content v gf w"
      "fin \<longrightarrow> line_bytes b' = line_bytes b @ got \<and> unat (lb_len b') = unat (lb_len b) + length got
            \<and> consumed content ready v gf w gf' w' got (first_line (rest_of v gf w))"
      by (elim exE conjE) (rule that)
    have run: "gfs_pio_readline ops mal m0 bufp sizep gf w = Some (line_finish mal (fin, b'), gf', w')"
      using Some L(1) by (simp add: gfs_pio_readline_def head)
    show ?thesis
    proof (cases fin)
      case False
      then show ?thesis using run L(3,4,5) by (simp add: line_finish_def)
    next
      case True
      show ?thesis
      proof (cases "line_room mal b'")
        case None
        then show ?thesis using run L(3,4,5) True by (simp add: line_finish_def)
      next
        case (Some b2)
        note R = line_room_spec [OF L(2) Some]
        let ?m = "(lb_buf b2)(uint (lb_len b2) := 0)"
        have "line_bytes b = []" using b(2) by (simp add: line_bytes_def)
        then have "line_bytes b2 = got" using L(6) True R by simp
        moreover have "mem_read ?m 0 (uint (lb_len b2)) = mem_read (lb_buf b2) 0 (uint (lb_len b2))"
          by (rule mem_read_cong) simp
        ultimately have "mem_read ?m 0 (uint (lb_len b2)) = got" by (simp add: line_bytes_def)
        then show ?thesis using run L(3,4,5,6) True Some R b(2) by (simp add: line_finish_def)
      qed
    qed
  qed
qed

end

end
