(* ===== verification/Gfs_Pio_Section.thy ===== *)
theory Gfs_Pio_Section
  imports Gfs_Pio_Lines Gfm_Rpc
begin

text \<open>
  The view behind an open file: \<open>gfarm/gfs_pio_section.c\<close> with the two kinds of storage it reads and
  writes, a file of the local host (\<open>gfs_pio_local.c\<close>) and one behind a connection to a file server
  (\<open>gfs_pio_remote.c\<close>). The parts under \<open>#if 0\<close> are not there.

  \<open>vc->ops\<close> is one of the two tables of functions, a \<open>storage\<close>. \<open>vc->md_ctx\<close> is left out: the bit that
  keeps it up to date is set only in code under \<open>#if 0\<close>.

  Local files are those of POSIX: an open descriptor is a file with a position, and a script says which of
  the coming calls fail or transfer only a part, as for sockets in \<open>Io_Fd\<close>. The calls of
  \<open>gfs_client.c\<close> and of the scheduler are parameters, which act on the whole world.
\<close>

subsection \<open>Local files\<close>

record 'n file_world =
  fw_net :: 'n
  fw_files :: "int \<Rightarrow> (byte list \<times> int) option"
  fw_events :: "sys_event list"
  fw_times :: "int \<Rightarrow> int \<times> int"
  fw_pid :: int

text \<open>
  Each call yields \<open>Inl errno\<close> or \<open>Inr\<close> its result. \<open>next_event\<close> takes the next entry of the script: \<open>None\<close> when it
  is used up.
\<close>

definition next_event :: "'n file_world \<Rightarrow> sys_event option \<times> 'n file_world" where
  "next_event w =
     (case fw_events w of [] \<Rightarrow> (None, w) | ev # evs \<Rightarrow> (Some ev, w\<lparr>fw_events := evs\<rparr>))"

definition posix_lseek_set :: "int \<Rightarrow> int \<Rightarrow> 'n file_world \<Rightarrow> (int + int) \<times> 'n file_world" where
  "posix_lseek_set fd offset w =
     (case fw_files w fd of
        None \<Rightarrow> (Inl EBADF, w)
      | Some (c, _) \<Rightarrow>
          if offset < 0 then (Inl EINVAL, w)
          else (Inr offset, w\<lparr>fw_files := (fw_files w)(fd \<mapsto> (c, offset))\<rparr>))"

definition posix_read :: "int \<Rightarrow> int \<Rightarrow> 'n file_world \<Rightarrow> (int + byte list) \<times> 'n file_world" where
  "posix_read fd n w =
     (case fw_files w fd of
        None \<Rightarrow> (Inl EBADF, w)
      | Some (c, pos) \<Rightarrow>
          (case next_event w of
             (Some (Sys_fail k), w') \<Rightarrow> (Inl (int k + 1), w')
           | (ev, w') \<Rightarrow>
               let m = (case ev of Some (Sys_move k) \<Rightarrow> min (Suc k) (nat n) | _ \<Rightarrow> nat n);
                   bs = take m (drop (nat pos) c)
               in (Inr bs, w'\<lparr>fw_files := (fw_files w')(fd \<mapsto> (c, pos + int (length bs)))\<rparr>)))"

definition posix_write :: "int \<Rightarrow> byte list \<Rightarrow> 'n file_world \<Rightarrow> (int + int) \<times> 'n file_world" where
  "posix_write fd data w =
     (case fw_files w fd of
        None \<Rightarrow> (Inl EBADF, w)
      | Some (c, pos) \<Rightarrow>
          (case next_event w of
             (Some (Sys_fail k), w') \<Rightarrow> (Inl (int k + 1), w')
           | (ev, w') \<Rightarrow>
               let bs = (case ev of Some (Sys_move k) \<Rightarrow> take (Suc k) data | _ \<Rightarrow> data)
               in (Inr (int (length bs)),
                   w'\<lparr>fw_files := (fw_files w')(fd \<mapsto> (file_put c (nat pos) bs, pos + int (length bs)))\<rparr>)))"

definition posix_ftruncate :: "int \<Rightarrow> int \<Rightarrow> 'n file_world \<Rightarrow> (int + unit) \<times> 'n file_world" where
  "posix_ftruncate fd n w =
     (case fw_files w fd of
        None \<Rightarrow> (Inl EBADF, w)
      | Some (c, pos) \<Rightarrow>
          if n < 0 then (Inl EINVAL, w)
          else
            (case next_event w of
               (Some (Sys_fail k), w') \<Rightarrow> (Inl (int k + 1), w')
             | (_, w') \<Rightarrow>
                 (Inr (), w'\<lparr>fw_files := (fw_files w')(fd \<mapsto> (file_truncate c (nat n), pos))\<rparr>)))"

text \<open>\<open>fsync\<close> and \<open>fdatasync\<close>, which differ in nothing that is modelled.\<close>

definition posix_fsync :: "int \<Rightarrow> 'n file_world \<Rightarrow> (int + unit) \<times> 'n file_world" where
  "posix_fsync fd w =
     (case fw_files w fd of
        None \<Rightarrow> (Inl EBADF, w)
      | Some _ \<Rightarrow>
          (case next_event w of
             (Some (Sys_fail k), w') \<Rightarrow> (Inl (int k + 1), w')
           | (_, w') \<Rightarrow> (Inr (), w')))"

definition posix_close :: "int \<Rightarrow> 'n file_world \<Rightarrow> (int + unit) \<times> 'n file_world" where
  "posix_close fd w =
     (case fw_files w fd of
        None \<Rightarrow> (Inl EBADF, w)
      | Some _ \<Rightarrow>
          (case next_event w of
             (Some (Sys_fail k), w') \<Rightarrow> (Inl (int k + 1), w'\<lparr>fw_files := (fw_files w')(fd := None)\<rparr>)
           | (_, w') \<Rightarrow> (Inr (), w'\<lparr>fw_files := (fw_files w')(fd := None)\<rparr>)))"

text \<open>The size and the times of access and modification.\<close>

definition posix_fstat :: "int \<Rightarrow> 'n file_world \<Rightarrow> int + int \<times> int \<times> int" where
  "posix_fstat fd w =
     (case fw_files w fd of
        None \<Rightarrow> Inl EBADF
      | Some (c, _) \<Rightarrow> Inr (int (length c), fw_times w fd))"

text \<open>\<open>gfarm_errno_to_error(errno)\<close> on the way out.\<close>

definition of_errno :: "(int + 'a) \<times> 'w \<Rightarrow> ((gfarm_error_t + 'a) \<times> 'w) option" where
  "of_errno r = (case r of (Inl eno, w) \<Rightarrow> Some (Inl (errno_error eno), w) | (Inr x, w) \<Rightarrow> Some (Inr x, w))"

subsection \<open>The context of a section and the client of the file servers\<close>

datatype storage = Local_storage | Remote_storage

record section_context =
  sc_ops :: storage
  sc_storage_context :: nat
  sc_fd :: int
  sc_pid :: int

text \<open>The part of \<open>struct gfs_stat\<close> that storage fills in.\<close>

record storage_stat =
  st_size :: int
  st_atimespec :: "int \<times> int"
  st_mtimespec :: "int \<times> int"

type_synonym ('w, 'a) client_call = "'w \<Rightarrow> ((gfarm_error_t + 'a) \<times> 'w) option"

record 'w gfs_client =
  client_acquire_by_host :: "nat \<Rightarrow> byte list \<Rightarrow> int \<Rightarrow> ('w, nat) client_call"
  client_pid :: "nat \<Rightarrow> 'w \<Rightarrow> int"
  client_process_set :: "nat \<Rightarrow> nat \<Rightarrow> ('w, unit) client_call"
  client_is_local :: "nat \<Rightarrow> 'w \<Rightarrow> bool"
  client_is_connection_error :: "gfarm_error_t \<Rightarrow> bool"
  client_connection_free :: "nat \<Rightarrow> 'w \<Rightarrow> 'w option"
  client_open :: "nat \<Rightarrow> int \<Rightarrow> ('w, unit) client_call"
  client_open_local :: "nat \<Rightarrow> int \<Rightarrow> ('w, int) client_call"
  client_close :: "nat \<Rightarrow> int \<Rightarrow> ('w, unit) client_call"
  client_pread :: "nat \<Rightarrow> int \<Rightarrow> int \<Rightarrow> int \<Rightarrow> ('w, byte list) client_call"
  client_pwrite :: "nat \<Rightarrow> int \<Rightarrow> byte list \<Rightarrow> int \<Rightarrow> ('w, int) client_call"
  client_ftruncate :: "nat \<Rightarrow> int \<Rightarrow> int \<Rightarrow> ('w, unit) client_call"
  client_fsync :: "nat \<Rightarrow> int \<Rightarrow> int \<Rightarrow> ('w, unit) client_call"
  client_fstat :: "nat \<Rightarrow> int \<Rightarrow> ('w, storage_stat) client_call"

subsection \<open>Local storage\<close>

definition gfs_pio_local_storage_close ::
  "'n file_world gfs_client \<Rightarrow> section_context \<Rightarrow> section_context gfs_file \<Rightarrow> ('n file_world, unit) client_call" where
  "gfs_pio_local_storage_close cl vc gf w =
     (case posix_close (sc_fd vc) w of
        (r, w1) \<Rightarrow>
          let e = (case r of Inl eno \<Rightarrow> errno_error eno | Inr _ \<Rightarrow> GFARM_ERR_NO_ERROR)
          in if sc_pid vc \<noteq> fw_pid w1 then Some (if e = GFARM_ERR_NO_ERROR then Inr () else Inl e, w1)
             else
               (case client_close cl (sc_storage_context vc) (gf_fd gf) w1 of
                  None \<Rightarrow> None
                | Some (r2, w2) \<Rightarrow>
                    map_option (Pair (if e \<noteq> GFARM_ERR_NO_ERROR then Inl e else r2))
                      (client_connection_free cl (sc_storage_context vc) w2)))"

definition gfs_pio_local_storage_pwrite ::
  "section_context \<Rightarrow> section_context gfs_file \<Rightarrow> byte list \<Rightarrow> int \<Rightarrow> ('n file_world, int) client_call" where
  "gfs_pio_local_storage_pwrite vc gf buffer offset w =
     (case posix_lseek_set (sc_fd vc) offset w of
        (Inl eno, w1) \<Rightarrow> of_errno (Inl eno, w1)
      | (Inr _, w1) \<Rightarrow> of_errno (posix_write (sc_fd vc) buffer w1))"

definition gfs_pio_local_storage_pread ::
  "section_context \<Rightarrow> section_context gfs_file \<Rightarrow> int \<Rightarrow> int \<Rightarrow> ('n file_world, byte list) client_call" where
  "gfs_pio_local_storage_pread vc gf sz offset w =
     (case posix_lseek_set (sc_fd vc) offset w of
        (Inl eno, w1) \<Rightarrow> of_errno (Inl eno, w1)
      | (Inr _, w1) \<Rightarrow> of_errno (posix_read (sc_fd vc) sz w1))"

definition gfs_pio_local_storage_ftruncate ::
  "section_context \<Rightarrow> section_context gfs_file \<Rightarrow> int \<Rightarrow> ('n file_world, unit) client_call" where
  "gfs_pio_local_storage_ftruncate vc gf len w = of_errno (posix_ftruncate (sc_fd vc) len w)"

definition gfs_pio_local_storage_fsync ::
  "section_context \<Rightarrow> section_context gfs_file \<Rightarrow> int \<Rightarrow> ('n file_world, unit) client_call" where
  "gfs_pio_local_storage_fsync vc gf operation w =
     (if operation = GFS_PROTO_FSYNC_WITHOUT_METADATA \<or> operation = GFS_PROTO_FSYNC_WITH_METADATA
      then of_errno (posix_fsync (sc_fd vc) w)
      else Some (Inl GFARM_ERR_INVALID_ARGUMENT, w))"

definition gfs_pio_local_storage_fstat ::
  "section_context \<Rightarrow> section_context gfs_file \<Rightarrow> storage_stat \<Rightarrow> ('n file_world, storage_stat) client_call" where
  "gfs_pio_local_storage_fstat vc gf st w =
     (case posix_fstat (sc_fd vc) w of
        Inl eno \<Rightarrow> Some (Inl (errno_error eno), w)
      | Inr (sz, atime, mtime) \<Rightarrow>
          Some (Inr (st\<lparr>st_size := sz, st_atimespec := (atime, 0), st_mtimespec := (mtime, 0)\<rparr>), w))"

definition gfs_pio_local_storage_fd :: "section_context \<Rightarrow> int" where
  "gfs_pio_local_storage_fd vc = sc_fd vc"

subsection \<open>Remote storage\<close>

abbreviation (input) GFS_PROTO_MAX_IOSIZE :: nat where "GFS_PROTO_MAX_IOSIZE \<equiv> 1048568"

definition gfs_pio_remote_storage_close ::
  "'n file_world gfs_client \<Rightarrow> section_context \<Rightarrow> section_context gfs_file \<Rightarrow> ('n file_world, unit) client_call" where
  "gfs_pio_remote_storage_close cl vc gf w =
     (if sc_pid vc \<noteq> fw_pid w then Some (Inr (), w)
      else
        (case client_close cl (sc_storage_context vc) (gf_fd gf) w of
           None \<Rightarrow> None
         | Some (r, w1) \<Rightarrow> map_option (Pair r) (client_connection_free cl (sc_storage_context vc) w1)))"

definition gfs_pio_remote_storage_pwrite ::
  "'n file_world gfs_client \<Rightarrow> section_context \<Rightarrow> section_context gfs_file \<Rightarrow> byte list \<Rightarrow> int
     \<Rightarrow> ('n file_world, int) client_call" where
  "gfs_pio_remote_storage_pwrite cl vc gf buffer offset w =
     client_pwrite cl (sc_storage_context vc) (gf_fd gf) (take GFS_PROTO_MAX_IOSIZE buffer) offset w"

definition gfs_pio_remote_storage_pread ::
  "'n file_world gfs_client \<Rightarrow> section_context \<Rightarrow> section_context gfs_file \<Rightarrow> int \<Rightarrow> int
     \<Rightarrow> ('n file_world, byte list) client_call" where
  "gfs_pio_remote_storage_pread cl vc gf sz offset w =
     client_pread cl (sc_storage_context vc) (gf_fd gf) sz offset w"

definition gfs_pio_remote_storage_ftruncate ::
  "'n file_world gfs_client \<Rightarrow> section_context \<Rightarrow> section_context gfs_file \<Rightarrow> int
     \<Rightarrow> ('n file_world, unit) client_call" where
  "gfs_pio_remote_storage_ftruncate cl vc gf len w =
     client_ftruncate cl (sc_storage_context vc) (gf_fd gf) len w"

definition gfs_pio_remote_storage_fsync ::
  "'n file_world gfs_client \<Rightarrow> section_context \<Rightarrow> section_context gfs_file \<Rightarrow> int
     \<Rightarrow> ('n file_world, unit) client_call" where
  "gfs_pio_remote_storage_fsync cl vc gf operation w =
     client_fsync cl (sc_storage_context vc) (gf_fd gf) operation w"

definition gfs_pio_remote_storage_fstat ::
  "'n file_world gfs_client \<Rightarrow> section_context \<Rightarrow> section_context gfs_file \<Rightarrow> storage_stat
     \<Rightarrow> ('n file_world, storage_stat) client_call" where
  "gfs_pio_remote_storage_fstat cl vc gf st w =
     client_fstat cl (sc_storage_context vc) (gf_fd gf) w"

definition gfs_pio_remote_storage_fd :: "section_context \<Rightarrow> int" where
  "gfs_pio_remote_storage_fd vc = -1"

subsection \<open>Opening a section\<close>

text \<open>The context is that of the file, which \<open>malloc\<close> has given; a file without one is undefined.\<close>

definition gfs_pio_open_local_section ::
  "'n file_world gfs_client \<Rightarrow> nat \<Rightarrow> (section_context, 'n file_world, unit) pio_res" where
  "gfs_pio_open_local_section cl gfs_server gf w =
     (case gf_view_context gf of
        None \<Rightarrow> None
      | Some vc \<Rightarrow>
          (case client_open_local cl gfs_server (gf_fd gf) w of
             None \<Rightarrow> None
           | Some (Inl e, w1) \<Rightarrow> Some (Inl e, gf, w1)
           | Some (Inr fd, w1) \<Rightarrow>
               Some (Inr (), gf\<lparr>gf_view_context := Some
                 (vc\<lparr>sc_fd := fd, sc_ops := Local_storage, sc_storage_context := gfs_server,
                     sc_pid := fw_pid w1\<rparr>)\<rparr>, w1)))"

definition gfs_pio_open_remote_section ::
  "'n file_world gfs_client \<Rightarrow> nat \<Rightarrow> (section_context, 'n file_world, unit) pio_res" where
  "gfs_pio_open_remote_section cl gfs_server gf w =
     (case gf_view_context gf of
        None \<Rightarrow> None
      | Some vc \<Rightarrow>
          (case client_open cl gfs_server (gf_fd gf) w of
             None \<Rightarrow> None
           | Some (Inl e, w1) \<Rightarrow> Some (Inl e, gf, w1)
           | Some (Inr _, w1) \<Rightarrow>
               Some (Inr (), gf\<lparr>gf_view_context := Some
                 (vc\<lparr>sc_ops := Remote_storage, sc_storage_context := gfs_server, sc_fd := -1,
                     sc_pid := fw_pid w1\<rparr>)\<rparr>, w1)))"

subsection \<open>The functions of the view\<close>

text \<open>Calls through \<open>vc->ops\<close>.\<close>

definition storage_close ::
  "'n file_world gfs_client \<Rightarrow> section_context gfs_file \<Rightarrow> ('n file_world, unit) client_call" where
  "storage_close cl gf w =
     (case gf_view_context gf of
        None \<Rightarrow> None
      | Some vc \<Rightarrow>
          (case sc_ops vc of
             Local_storage \<Rightarrow> gfs_pio_local_storage_close cl vc gf w
           | Remote_storage \<Rightarrow> gfs_pio_remote_storage_close cl vc gf w))"

definition gfs_pio_view_section_pwrite ::
  "'n file_world gfs_client \<Rightarrow> section_context gfs_file \<Rightarrow> byte list \<Rightarrow> int \<Rightarrow> ('n file_world, int) client_call" where
  "gfs_pio_view_section_pwrite cl gf buffer offset w =
     (case gf_view_context gf of
        None \<Rightarrow> None
      | Some vc \<Rightarrow>
          (case sc_ops vc of
             Local_storage \<Rightarrow> gfs_pio_local_storage_pwrite vc gf buffer offset w
           | Remote_storage \<Rightarrow> gfs_pio_remote_storage_pwrite cl vc gf buffer offset w))"

definition gfs_pio_view_section_pread ::
  "'n file_world gfs_client \<Rightarrow> section_context gfs_file \<Rightarrow> int \<Rightarrow> int \<Rightarrow> ('n file_world, byte list) client_call" where
  "gfs_pio_view_section_pread cl gf sz offset w =
     (case gf_view_context gf of
        None \<Rightarrow> None
      | Some vc \<Rightarrow>
          (case sc_ops vc of
             Local_storage \<Rightarrow> gfs_pio_local_storage_pread vc gf sz offset w
           | Remote_storage \<Rightarrow> gfs_pio_remote_storage_pread cl vc gf sz offset w))"

definition gfs_pio_view_section_ftruncate ::
  "'n file_world gfs_client \<Rightarrow> section_context gfs_file \<Rightarrow> int \<Rightarrow> ('n file_world, unit) client_call" where
  "gfs_pio_view_section_ftruncate cl gf len w =
     (case gf_view_context gf of
        None \<Rightarrow> None
      | Some vc \<Rightarrow>
          (case sc_ops vc of
             Local_storage \<Rightarrow> gfs_pio_local_storage_ftruncate vc gf len w
           | Remote_storage \<Rightarrow> gfs_pio_remote_storage_ftruncate cl vc gf len w))"

definition gfs_pio_view_section_fsync ::
  "'n file_world gfs_client \<Rightarrow> section_context gfs_file \<Rightarrow> int \<Rightarrow> ('n file_world, unit) client_call" where
  "gfs_pio_view_section_fsync cl gf operation w =
     (case gf_view_context gf of
        None \<Rightarrow> None
      | Some vc \<Rightarrow>
          (case sc_ops vc of
             Local_storage \<Rightarrow> gfs_pio_local_storage_fsync vc gf operation w
           | Remote_storage \<Rightarrow> gfs_pio_remote_storage_fsync cl vc gf operation w))"

definition gfs_pio_view_section_fstat ::
  "'n file_world gfs_client \<Rightarrow> section_context gfs_file \<Rightarrow> storage_stat \<Rightarrow> ('n file_world, storage_stat) client_call" where
  "gfs_pio_view_section_fstat cl gf st w =
     (case gf_view_context gf of
        None \<Rightarrow> None
      | Some vc \<Rightarrow>
          (case sc_ops vc of
             Local_storage \<Rightarrow> gfs_pio_local_storage_fstat vc gf st w
           | Remote_storage \<Rightarrow> gfs_pio_remote_storage_fstat cl vc gf st w))"

definition gfs_pio_view_section_fd :: "section_context gfs_file \<Rightarrow> int" where
  "gfs_pio_view_section_fd gf =
     (case gf_view_context gf of
        None \<Rightarrow> -1
      | Some vc \<Rightarrow>
          (case sc_ops vc of
             Local_storage \<Rightarrow> gfs_pio_local_storage_fd vc
           | Remote_storage \<Rightarrow> gfs_pio_remote_storage_fd vc))"

text \<open>
  Closing ends with \<open>gfs_pio_set_view_default\<close> on the file that has no view any more, which clears the error.
\<close>

definition gfs_pio_view_section_close ::
  "'n file_world gfs_client \<Rightarrow> (section_context, 'n file_world, unit) pio_res" where
  "gfs_pio_view_section_close cl gf w =
     (case storage_close cl gf w of
        None \<Rightarrow> None
      | Some (r, w1) \<Rightarrow>
          Some (r, gf\<lparr>gf_view_context := None, gf_error := GFARM_ERR_NO_ERROR\<rparr>, w1))"

text \<open>
  \<open>gfs_pio_view_section_ops\<close>, with the function that opens the view. \<open>section_ops\<close> is the table while the view
  is being opened: nothing opens another one then.
\<close>

definition gfs_pio_view_section_ops ::
  "'n file_world gfs_client \<Rightarrow> (section_context, 'n file_world, unit) pio_res
     \<Rightarrow> (section_context, 'n file_world, storage_stat) gfs_pio_ops" where
  "gfs_pio_view_section_ops cl set_view_section =
     \<lparr>view_close = gfs_pio_view_section_close cl, view_fd = gfs_pio_view_section_fd,
      view_pread = gfs_pio_view_section_pread cl, view_pwrite = gfs_pio_view_section_pwrite cl,
      view_ftruncate = gfs_pio_view_section_ftruncate cl, view_fsync = gfs_pio_view_section_fsync cl,
      view_fstat = gfs_pio_view_section_fstat cl, set_view = set_view_section\<rparr>"

subsection \<open>Choosing a host and connecting\<close>

text \<open>
  What scheduling and the configuration answer; \<open>env_strdup\<close> says whether a string can be copied. A
  \<open>struct gfarm_host_sched_info\<close> is its host and port.
\<close>

type_synonym sched_info = "byte list \<times> int"

record 'w section_env =
  env_schedule_file :: "nat \<Rightarrow> int \<Rightarrow> ('w, sched_info list) client_call"
  env_select_host :: "nat \<Rightarrow> sched_info list \<Rightarrow> bool \<Rightarrow> ('w, sched_info) client_call"
  env_host_cache_reset :: "nat \<Rightarrow> sched_info list \<Rightarrow> 'w \<Rightarrow> 'w"
  env_host_is_local :: "nat \<Rightarrow> byte list \<Rightarrow> 'w \<Rightarrow> bool"
  env_on_demand_replication :: bool
  env_replicate_to_local :: "section_context gfs_file \<Rightarrow> byte list \<Rightarrow> int \<Rightarrow> ('w, unit) client_call"
  env_canonical_self_name :: "nat \<Rightarrow> ('w, sched_info) client_call"
  env_host_port :: "nat \<Rightarrow> byte list \<Rightarrow> ('w, int) client_call"
  env_strdup :: "byte list \<Rightarrow> bool"
  env_sleep :: "int \<Rightarrow> 'w \<Rightarrow> 'w"

definition connect_step ::
  "'n file_world gfs_client \<Rightarrow> nat \<Rightarrow> (section_context, 'n file_world, unit) pio_res" where
  "connect_step cl gfs_server gf w =
     (case (if client_pid cl gfs_server w = 0 then client_process_set cl gfs_server (gf_gfm_server gf) w
            else Some (Inr (), w)) of
        None \<Rightarrow> None
      | Some (Inl e, w1) \<Rightarrow> Some (Inl e, gf, w1)
      | Some (Inr _, w1) \<Rightarrow>
          if client_is_local cl gfs_server w1 then gfs_pio_open_local_section cl gfs_server gf w1
          else gfs_pio_open_remote_section cl gfs_server gf w1)"

text \<open>The loop goes round at most twice: \<open>again\<close> is \<open>++retry <= 1\<close>.\<close>

primrec connect_loop ::
  "'n file_world gfs_client \<Rightarrow> byte list \<Rightarrow> int \<Rightarrow> nat \<Rightarrow> nat \<Rightarrow> (section_context, 'n file_world, unit) pio_res" where
  "connect_loop cl hostname port 0 gfs_server gf w =
     (case connect_step cl gfs_server gf w of
        None \<Rightarrow> None
      | Some (Inr _, gf1, w1) \<Rightarrow> Some (Inr (), gf1, w1)
      | Some (Inl e, gf1, w1) \<Rightarrow>
          map_option (\<lambda>w2. (Inl e, gf1, w2)) (client_connection_free cl gfs_server w1))"
| "connect_loop cl hostname port (Suc again) gfs_server gf w =
     (case connect_step cl gfs_server gf w of
        None \<Rightarrow> None
      | Some (Inr _, gf1, w1) \<Rightarrow> Some (Inr (), gf1, w1)
      | Some (Inl e, gf1, w1) \<Rightarrow>
          (case client_connection_free cl gfs_server w1 of
             None \<Rightarrow> None
           | Some w2 \<Rightarrow>
               if \<not> client_is_connection_error cl e then Some (Inl e, gf1, w2)
               else
                 (case client_acquire_by_host cl (gf_gfm_server gf1) hostname port w2 of
                    None \<Rightarrow> None
                  | Some (Inl _, w3) \<Rightarrow> Some (Inl e, gf1, w3)
                  | Some (Inr gfs_server', w3) \<Rightarrow> connect_loop cl hostname port again gfs_server' gf1 w3)))"

definition connect_and_open ::
  "'n file_world gfs_client \<Rightarrow> byte list \<Rightarrow> int \<Rightarrow> (section_context, 'n file_world, unit) pio_res" where
  "connect_and_open cl hostname port gf w =
     (case client_acquire_by_host cl (gf_gfm_server gf) hostname port w of
        None \<Rightarrow> None
      | Some (Inl e, w1) \<Rightarrow> Some (Inl e, gf, w1)
      | Some (Inr gfs_server, w1) \<Rightarrow> connect_loop cl hostname port 1 gfs_server gf w1)"

definition connect_and_open_with_reconnection ::
  "'n file_world gfs_client \<Rightarrow> byte list \<Rightarrow> int \<Rightarrow> (section_context, 'n file_world, unit) pio_res" where
  "connect_and_open_with_reconnection cl host port gf w =
     (case connect_and_open cl host port gf w of
        None \<Rightarrow> None
      | Some (Inr _, gf1, w1) \<Rightarrow> Some (Inr (), gf1, w1)
      | Some (Inl e, gf1, w1) \<Rightarrow>
          if client_is_connection_error cl e then connect_and_open cl host port gf1 w1
          else Some (Inl e, gf1, w1))"

definition choose_trivial_one :: "'w section_env \<Rightarrow> sched_info \<Rightarrow> gfarm_error_t + sched_info" where
  "choose_trivial_one env info =
     (if env_strdup env (fst info) then Inr info else Inl GFARM_ERR_NO_MEMORY)"

text \<open>On-demand replication, once a host has been selected.\<close>

definition schedule_replication ::
  "'w section_env \<Rightarrow> section_context gfs_file \<Rightarrow> sched_info \<Rightarrow> ('w, sched_info) client_call" where
  "schedule_replication env gf info w =
     (if env_host_is_local env (gf_gfm_server gf) (fst info) w \<or> \<not> env_on_demand_replication env
      then Some (Inr info, w)
      else
        (case env_replicate_to_local env gf (fst info) (snd info) w of
           None \<Rightarrow> None
         | Some (Inr _, w1) \<Rightarrow>
             (case env_canonical_self_name env (gf_gfm_server gf) w1 of
                None \<Rightarrow> None
              | Some (Inl e, w2) \<Rightarrow> None
              | Some (Inr self, w2) \<Rightarrow>
                  Some (if env_strdup env (fst self) then Inr self else Inl GFARM_ERR_NO_MEMORY, w2))
         | Some (Inl e, w1) \<Rightarrow>
             Some (if e = GFARM_ERR_ALREADY_EXISTS \<or> e = GFARM_ERR_UNKNOWN_HOST then Inr info else Inl e, w1)))"

definition gfarm_schedule_file ::
  "'w section_env \<Rightarrow> section_context gfs_file \<Rightarrow> ('w, sched_info) client_call" where
  "gfarm_schedule_file env gf w =
     (case env_schedule_file env (gf_gfm_server gf) (gf_fd gf) w of
        None \<Rightarrow> None
      | Some (Inl e, w1) \<Rightarrow> Some (Inl e, w1)
      | Some (Inr infos, w1) \<Rightarrow>
          (case (if length infos = 1 then Some (choose_trivial_one env (hd infos), w1)
                 else env_select_host env (gf_gfm_server gf) infos (gf_mode_write gf) w1) of
             None \<Rightarrow> None
           | Some (Inl e, w2) \<Rightarrow>
               Some (Inl e, if e = GFARM_ERRMSG_NO_FILESYSTEM_NODE
                            then env_host_cache_reset env (gf_gfm_server gf) infos w2 else w2)
           | Some (Inr info, w2) \<Rightarrow> schedule_replication env gf info w2))"

subsection \<open>Opening the view\<close>

text \<open>
  The loop of \<open>gfs_pio_internal_set_view_section\<close>: \<open>retries\<close> is how often \<open>++retry <= max_retry\<close> will
  still hold, \<open>given\<close> the host and port asked for by the caller, \<open>assigned\<close> the variable
  \<open>host_assigned\<close>. A round first chooses a host, unless one is given.
\<close>

definition reschedulable :: "'n file_world gfs_client \<Rightarrow> gfarm_error_t \<Rightarrow> bool" where
  "reschedulable cl e \<longleftrightarrow> e = GFARM_ERRMSG_NO_FILESYSTEM_NODE \<or> client_is_connection_error cl e"

primrec set_view_loop ::
  "'n file_world gfs_client \<Rightarrow> 'n file_world section_env \<Rightarrow> nat \<Rightarrow> int \<Rightarrow> sched_info option \<Rightarrow> bool
     \<Rightarrow> (section_context, 'n file_world, unit) pio_res" where
  "set_view_loop cl env 0 sleep_interval given assigned gf w =
     (case (case given of Some info \<Rightarrow> Some (Inr info, w) | None \<Rightarrow> gfarm_schedule_file env gf w) of
        None \<Rightarrow> None
      | Some (Inl e, w1) \<Rightarrow> Some (Inl e, gf, w1)
      | Some (Inr (host, port), w1) \<Rightarrow> connect_and_open_with_reconnection cl host port gf w1)"
| "set_view_loop cl env (Suc retries) sleep_interval given assigned gf w =
     (case (case given of Some info \<Rightarrow> Some (Inr info, w) | None \<Rightarrow> gfarm_schedule_file env gf w) of
        None \<Rightarrow> None
      | Some (Inl e, w1) \<Rightarrow>
          if e = GFARM_ERRMSG_NO_FILESYSTEM_NODE \<or> assigned \<and> reschedulable cl e
          then set_view_loop cl env retries (sleep_interval * 2) None assigned gf
                 (env_sleep env sleep_interval w1)
          else Some (Inl e, gf, w1)
      | Some (Inr (host, port), w1) \<Rightarrow>
          (case connect_and_open_with_reconnection cl host port gf w1 of
             None \<Rightarrow> None
           | Some (Inr _, gf2, w2) \<Rightarrow> Some (Inr (), gf2, w2)
           | Some (Inl e, gf2, w2) \<Rightarrow>
               if given = None \<and> reschedulable cl e
               then set_view_loop cl env retries (sleep_interval * 2) None True gf2
                      (env_sleep env sleep_interval w2)
               else Some (Inl e, gf2, w2)))"

text \<open>
  \<open>vc0\<close> is what \<open>malloc\<close> returns for the context, \<open>None\<close> for \<open>NULL\<close>. The calls of
  \<open>gfs_pio_set_view_default\<close> come when no view is being opened, so its own table opens none.
\<close>

definition gfs_pio_internal_set_view_section ::
  "'n file_world gfs_client \<Rightarrow> 'n file_world section_env \<Rightarrow> section_context option \<Rightarrow> byte list option
     \<Rightarrow> (section_context, 'n file_world, unit) pio_res" where
  "gfs_pio_internal_set_view_section cl env vc0 host gf w =
     (let ops = gfs_pio_view_section_ops cl (\<lambda>gf w. None);
          finish = (\<lambda>e gf w. Some (if e = GFARM_ERR_NO_ERROR then Inr () else Inl e, gf\<lparr>gf_error := e\<rparr>, w))
      in (case gfs_pio_set_view_default ops gf w of
            None \<Rightarrow> None
          | Some (Inl e, gf1, w1) \<Rightarrow> finish e gf1 w1
          | Some (Inr _, gf1, w1) \<Rightarrow>
              (case (case host of None \<Rightarrow> Some (Inr None, w1)
                     | Some h \<Rightarrow>
                         map_option (\<lambda>(r, w2). (map_sum id (\<lambda>port. Some (h, port)) r, w2))
                           (env_host_port env (gf_gfm_server gf1) h w1)) of
                 None \<Rightarrow> None
               | Some (Inl e, w2) \<Rightarrow> finish e gf1 w2
               | Some (Inr given, w2) \<Rightarrow>
                   (case vc0 of
                      None \<Rightarrow> finish GFARM_ERR_NO_MEMORY gf1 w2
                    | Some vc \<Rightarrow>
                        (case set_view_loop cl env 7 5 given False (gf1\<lparr>gf_view_context := Some vc\<rparr>) w2 of
                           None \<Rightarrow> None
                         | Some (Inr _, gf3, w3) \<Rightarrow>
                             finish GFARM_ERR_NO_ERROR
                               (gf3\<lparr>gf_p := 0, gf_length := 0, gf_io_offset := 0, gf_offset := 0\<rparr>) w3
                         | Some (Inl e, gf3, w3) \<Rightarrow>
                             (case gfs_pio_set_view_default ops (gf3\<lparr>gf_view_context := None\<rparr>) w3 of
                                None \<Rightarrow> None
                              | Some (_, gf4, w4) \<Rightarrow> finish e gf4 w4))))))"

text \<open>The operations of an open file, with the view of this file.\<close>

definition section_pio_ops ::
  "'n file_world gfs_client \<Rightarrow> 'n file_world section_env \<Rightarrow> section_context option
     \<Rightarrow> (section_context, 'n file_world, storage_stat) gfs_pio_ops" where
  "section_pio_ops cl env vc0 =
     gfs_pio_view_section_ops cl (gfs_pio_internal_set_view_section cl env vc0 None)"

end
