(* ===== verification/Gfs_Pio_Refine.thy ===== *)
theory Gfs_Pio_Refine
  imports Gfs_Pio_Section
begin

text \<open>
  An open file whose section is stored on the local host: its view satisfies the contract \<open>file_view\<close>, so
  what was proved of buffered access holds for it, down to the system calls.
\<close>

subsection \<open>The local view is a view of a plain file\<close>

definition local_content :: "section_context \<Rightarrow> 'n file_world \<Rightarrow> byte list" where
  "local_content vc w = (case fw_files w (sc_fd vc) of None \<Rightarrow> [] | Some (c, _) \<Rightarrow> c)"

definition local_ready :: "section_context \<Rightarrow> 'n file_world \<Rightarrow> bool" where
  "local_ready vc w \<longleftrightarrow> sc_ops vc = Local_storage \<and> fw_files w (sc_fd vc) \<noteq> None"

lemma errno_view_error: "0 < eno \<Longrightarrow> view_error (errno_error eno)"
  using table_map_of [of eno] errno_error_nonzero [of eno]
  by (auto simp: view_error_def errno_error_def errno_code_def split: option.splits)

lemmas section_view_defs = gfs_pio_view_section_ops_def gfs_pio_view_section_pread_def
  gfs_pio_view_section_pwrite_def gfs_pio_view_section_ftruncate_def gfs_pio_view_section_fsync_def
  gfs_pio_local_storage_pread_def gfs_pio_local_storage_pwrite_def gfs_pio_local_storage_ftruncate_def
  gfs_pio_local_storage_fsync_def

lemmas posix_defs = posix_lseek_set_def posix_read_def posix_write_def posix_ftruncate_def posix_fsync_def
  next_event_def of_errno_def Let_def

lemma ready_file:
  "local_ready vc w \<Longrightarrow> \<exists>c pos. fw_files w (sc_fd vc) = Some (c, pos) \<and> local_content vc w = c \<and> sc_ops vc = Local_storage"
  by (auto simp: local_ready_def local_content_def)

text \<open>What a transfer of \<open>m\<close> bytes at most means to the contract.\<close>

lemma view_got_take:
  assumes "0 < m" and "m \<le> nat n" and "0 \<le> off"
  shows "view_got c n off (Inr (take m (drop (nat off) c)))"
  using assms by (auto simp: view_got_def min_def)

lemma view_put_take:
  assumes "0 < m" and "bs \<noteq> []"
  shows "view_put c bs off (Inr (int (length (take m bs)))) (file_put c (nat off) (take m bs))"
  using assms by (auto simp: view_put_def min_def)

text \<open>A script of calls that fail or are short, or no script: the three ways a call can go.\<close>

lemma next_event_cases:
  obtains (done_all) "fw_events w = []"
  | (part) k evs where "fw_events w = Sys_move k # evs"
  | (failed) k evs where "fw_events w = Sys_fail k # evs"
  by (metis list.exhaust sys_event.exhaust)

interpretation local_view: file_view "gfs_pio_view_section_ops cl set_view_section" local_content local_ready
  for cl :: "'n file_world gfs_client" and set_view_section
proof unfold_locales
  fix gf :: "section_context gfs_file" and vc n off and w :: "'n file_world"
  assume v: "gf_view_context gf = Some vc" "local_ready vc w" and n: "(0 :: int) < n" "(0 :: int) \<le> off"
  obtain c pos where f: "fw_files w (sc_fd vc) = Some (c, pos)" "local_content vc w = c" "sc_ops vc = Local_storage"
    using ready_file [OF v(2)] by blast
  show "\<exists>r w'. view_pread (gfs_pio_view_section_ops cl set_view_section) gf n off w = Some (r, w') \<and>
          local_ready vc w' \<and> local_content vc w' = local_content vc w \<and> view_got (local_content vc w) n off r"
  proof (cases rule: next_event_cases [of w])
    case done_all
    then show ?thesis using v f n view_got_take [of "nat n" n off c]
      by (simp add: section_view_defs posix_defs local_ready_def local_content_def)
  next
    case (part k evs)
    then show ?thesis using v f n view_got_take [of "min (Suc k) (nat n)" n off c]
      by (simp add: section_view_defs posix_defs local_ready_def local_content_def)
  next
    case (failed k evs)
    then show ?thesis using v f n errno_view_error [of "int k + 1"]
      by (simp add: section_view_defs posix_defs local_ready_def local_content_def view_got_def)
  qed
next
  fix gf :: "section_context gfs_file" and vc off and bs :: "byte list" and w :: "'n file_world"
  assume v: "gf_view_context gf = Some vc" "local_ready vc w" and n: "bs \<noteq> []" "(0 :: int) \<le> off"
  obtain c pos where f: "fw_files w (sc_fd vc) = Some (c, pos)" "local_content vc w = c" "sc_ops vc = Local_storage"
    using ready_file [OF v(2)] by blast
  show "\<exists>r w'. view_pwrite (gfs_pio_view_section_ops cl set_view_section) gf bs off w = Some (r, w') \<and>
          local_ready vc w' \<and> view_put (local_content vc w) bs off r (local_content vc w')"
  proof (cases rule: next_event_cases [of w])
    case done_all
    then show ?thesis using v f n view_put_take [of "length bs" bs c off]
      by (simp add: section_view_defs posix_defs local_ready_def local_content_def)
  next
    case (part k evs)
    then show ?thesis using v f n view_put_take [of "Suc k" bs c off]
      by (simp add: section_view_defs posix_defs local_ready_def local_content_def)
  next
    case (failed k evs)
    then show ?thesis using v f n errno_view_error [of "int k + 1"]
      by (simp add: section_view_defs posix_defs local_ready_def local_content_def view_put_def)
  qed
next
  fix gf :: "section_context gfs_file" and vc n and w :: "'n file_world"
  assume v: "gf_view_context gf = Some vc" "local_ready vc w" and n: "(0 :: int) \<le> n"
  obtain c pos where f: "fw_files w (sc_fd vc) = Some (c, pos)" "local_content vc w = c" "sc_ops vc = Local_storage"
    using ready_file [OF v(2)] by blast
  show "\<exists>r w'. view_ftruncate (gfs_pio_view_section_ops cl set_view_section) gf n w = Some (r, w') \<and>
          local_ready vc w' \<and> (case r of Inl e \<Rightarrow> view_error e \<and> local_content vc w' = local_content vc w
             | Inr _ \<Rightarrow> local_content vc w' = file_truncate (local_content vc w) (nat n))"
    using v f n errno_view_error [of "int k + 1" for k]
    by (cases rule: next_event_cases [of w])
      (simp_all add: section_view_defs posix_defs local_ready_def local_content_def)
next
  fix gf :: "section_context gfs_file" and vc operation and w :: "'n file_world"
  assume v: "gf_view_context gf = Some vc" "local_ready vc w"
    and n: "operation = GFS_PROTO_FSYNC_WITHOUT_METADATA \<or> operation = GFS_PROTO_FSYNC_WITH_METADATA"
  obtain c pos where f: "fw_files w (sc_fd vc) = Some (c, pos)" "local_content vc w = c" "sc_ops vc = Local_storage"
    using ready_file [OF v(2)] by blast
  show "\<exists>r w'. view_fsync (gfs_pio_view_section_ops cl set_view_section) gf operation w = Some (r, w') \<and>
          local_ready vc w' \<and> local_content vc w' = local_content vc w
          \<and> (case r of Inl e \<Rightarrow> view_error e | Inr _ \<Rightarrow> True)"
    using v f n errno_view_error [of "int k + 1" for k]
    by (cases rule: next_event_cases [of w])
      (auto simp add: section_view_defs posix_defs local_ready_def local_content_def)
qed

subsection \<open>Buffered access to a local section\<close>

lemma section_pio_ops_view: "section_pio_ops cl env vc0 =
    gfs_pio_view_section_ops cl (gfs_pio_internal_set_view_section cl env vc0 None)"
  by (simp add: section_pio_ops_def)

text \<open>A file that has just been opened, once its view is set, satisfies the invariant.\<close>

lemma opened_inv:
  assumes "gfs_file_alloc ok m0 gfm_server fd flags = Inr gf" and "and flags GFARM_FILE_UNBUFFERED = 0"
    and "local_ready vc w"
  shows "pio_inv local_content local_ready vc (gf\<lparr>gf_view_context := Some vc\<rparr>) w"
    and "pio_file local_content vc (gf\<lparr>gf_view_context := Some vc\<rparr>) w = local_content vc w"
    and "pio_pos (gf\<lparr>gf_view_context := Some vc\<rparr>) = 0" and "gf_error gf = GFARM_ERR_NO_ERROR"
    and "gf_open_flags gf = flags"
  using assms
  by (auto simp: gfs_file_alloc_def Let_def pio_inv_def pio_wf_def pio_synced_def unbuffered_def pio_data_def
      pio_file_def pio_pos_def split: if_splits)

text \<open>
  The files the witnesses use: an empty or a small local file on descriptor 3, opened for reading and writing,
  and a script.
\<close>

definition demo_context :: section_context where
  "demo_context = \<lparr>sc_ops = Local_storage, sc_storage_context = 0, sc_fd = 3, sc_pid = 1\<rparr>"

definition demo_world :: "byte list \<Rightarrow> sys_event list \<Rightarrow> unit file_world" where
  "demo_world c evs =
     \<lparr>fw_net = (), fw_files = [3 \<mapsto> (c, 0)], fw_events = evs, fw_times = (\<lambda>_. (0, 0)), fw_pid = 1\<rparr>"

definition demo_file :: "u32 \<Rightarrow> section_context gfs_file" where
  "demo_file flags =
     \<lparr>gf_view_context = Some demo_context, gf_gfm_server = 0, gf_fd = 4, gf_mode_read = True,
      gf_mode_write = True, gf_calc_digest = False, gf_buffer_dirty = False, gf_open_flags = flags,
      gf_error = GFARM_ERR_NO_ERROR, gf_io_offset = 0, gf_buffer = (\<lambda>_. 0), gf_p = 0, gf_length = 0,
      gf_offset = 0\<rparr>"

lemmas demo_defs = demo_context_def demo_world_def demo_file_def











subsection \<open>Where the buffer and its file disagree\<close>

text \<open>Truncating a file changes it as \<open>ftruncate\<close> does and keeps the position when the buffer has been read
  to its end; but when unread bytes are left in it, \<open>io_offset\<close> stays where the reading had got to, and the
  next read of a file that was truncated successfully fails an assertion.\<close>

theorem pio_truncate_then_read:
  fixes w :: "'n file_world"
  assumes inv: "pio_inv local_content local_ready vc gf w" and ok: "gf_error gf = GFARM_ERR_NO_ERROR"
    and wr: "gf_mode_write gf" and n: "0 \<le> n"
  shows "\<exists>r gf' w'. gfs_pio_truncate (section_pio_ops cl env vc0) n gf w = Some (r, gf', w')
     \<and> (gf_p gf = gf_length gf \<longrightarrow>
          pio_inv local_content local_ready vc gf' w' \<and> pio_pos gf' = pio_pos gf
          \<and> (case r of
               Inl e \<Rightarrow> gfs_pio_error gf' = e
                 \<and> pio_file local_content vc gf' w' = pio_file local_content vc gf w
             | Inr _ \<Rightarrow> pio_file local_content vc gf' w' = file_truncate (pio_file local_content vc gf w) (nat n)))
     \<and> (gf_p gf < gf_length gf \<and> \<not> write_only gf \<and> r = Inr () \<and> 0 < sz \<longrightarrow>
          gfs_pio_read (section_pio_ops cl env vc0) sz gf' w' = None)"
proof -
  let ?ops = "gfs_pio_view_section_ops cl (gfs_pio_internal_set_view_section cl env vc0 None)"
  have ok': "GFS_PIO_ERROR gf = GFARM_ERR_NO_ERROR" using ok by (simp add: GFS_PIO_ERROR_def)
  show ?thesis
  proof (cases "gf_p gf = gf_length gf")
    case True
    from local_view.truncate_spec [OF inv ok' wr True n, of cl "gfs_pio_internal_set_view_section cl env vc0 None"]
    obtain r gf' w' where R: "gfs_pio_truncate ?ops n gf w = Some (r, gf', w')"
      "pio_inv local_content local_ready vc gf' w'" "pio_pos gf' = pio_pos gf"
      "case r of
          Inl e \<Rightarrow> view_error e \<and> gf_error gf' = e \<and> pio_file local_content vc gf' w' = pio_file local_content vc gf w
        | Inr _ \<Rightarrow> gf_error gf' = GFARM_ERR_NO_ERROR
                   \<and> pio_file local_content vc gf' w' = file_truncate (pio_file local_content vc gf w) (nat n)"
      by blast
    then show ?thesis unfolding section_pio_ops_view using True
      by (cases r) (simp_all add: gfs_pio_error_def GFS_PIO_ERROR_def view_error_def)
  next
    case False
    then show ?thesis
      unfolding section_pio_ops_view
      using local_view.truncate_unread [OF inv ok wr _ n, of cl "gfs_pio_internal_set_view_section cl env vc0 None" sz] inv
      by (auto simp: pio_inv_def pio_wf_def)
  qed
qed

text \<open>A file of which one of three buffered bytes has been read.\<close>

definition demo_half :: "section_context gfs_file" where
  "demo_half = (demo_file GFARM_FILE_RDWR)\<lparr>gf_buffer := mem_write (\<lambda>_. 0) 0 [1, 2, 3], gf_length := 3, gf_p := 1,
     gf_io_offset := 3\<rparr>"

lemma demo_half_ok:
  "pio_inv local_content local_ready demo_context demo_half (demo_world [1, 2, 3] evs)"
  "gf_error demo_half = GFARM_ERR_NO_ERROR" "gf_mode_write demo_half" "\<not> write_only demo_half"
  "gf_p demo_half < gf_length demo_half"
proof -
  have "mem_read (mem_write (\<lambda>_. 0) 0 [1, 2, 3]) 0 3 = ([1, 2, 3] :: byte list)"
    by (rule mem_read_write_same) simp
  then show "pio_inv local_content local_ready demo_context demo_half (demo_world [1, 2, 3] evs)"
    by (simp add: demo_half_def demo_defs pio_inv_def pio_wf_def pio_synced_def local_ready_def local_content_def
      unbuffered_def pio_data_def)
qed (simp_all add: demo_half_def demo_file_def write_only_def)

theorem pio_truncate_then_read_witness:
  "\<forall>cl env vc0. \<exists>r gf' w'. gfs_pio_truncate (section_pio_ops cl env vc0) 2 demo_half (demo_world [1, 2, 3] []) = Some (r, gf', w')
     \<and> (r = Inr () \<longrightarrow> gfs_pio_read (section_pio_ops cl env vc0) 1 gf' w' = None)"
proof -
  have n: "(0 :: int) \<le> 2" by simp
  show ?thesis
    apply (intro allI)
    subgoal for cl env vc0
      using pio_truncate_then_read [OF demo_half_ok(1) [of "[]"] demo_half_ok(2,3) n, of cl env vc0 1]
        demo_half_ok(4,5) by auto
    done
qed

text \<open>A full buffer on a full disk.\<close>

definition demo_full :: "section_context gfs_file" where
  "demo_full = (demo_file GFARM_FILE_RDWR)\<lparr>gf_buffer_dirty := True, gf_length := GFS_FILE_BUFSIZE, gf_p := GFS_FILE_BUFSIZE\<rparr>"

lemma no_space: "errno_error 28 = GFARM_ERR_NO_SPACE"
  by (simp add: errno_error_def errno_code_def gfarm_errno_error_map_table_def)

lemmas demo_run = gfs_pio_flush_def pio_bind_def gfs_pio_check_view_default_def GFS_PIO_ERROR_def
    gfs_pio_is_view_set_def CHECK_WRITABLE_def CHECK_READABLE_def Let_def demo_file_def do_write_def
    do_write_loop.simps section_pio_ops_def section_view_defs posix_defs demo_context_def demo_world_def
    no_space

lemma demo_full_flush:
  "gfs_pio_flush (section_pio_ops cl env vc0) demo_full (demo_world [] [Sys_fail 27])
     = Some (Inl GFARM_ERR_NO_SPACE, demo_full\<lparr>gf_error := GFARM_ERR_NO_SPACE\<rparr>, (demo_world [] [])\<lparr>fw_files := [3 \<mapsto> ([], 0)]\<rparr>)"
  by (simp add: demo_run demo_full_def)

lemma putc_swallows:
  assumes "gf_view_context gf = Some vc" and "gf_error gf = GFARM_ERR_NO_ERROR" and "gf_mode_write gf"
    and "GFS_FILE_BUFSIZE \<le> gf_p gf" and "gfs_pio_flush ops gf w = Some (Inl e, gf1, w1)"
  shows "gfs_pio_putc ops c gf w = Some (Inr (), gf1, w1)"
  using assms
  by (simp add: gfs_pio_putc_def pio_bind_def gfs_pio_check_view_default_def GFS_PIO_ERROR_def
      gfs_pio_is_view_set_def CHECK_WRITABLE_def)

lemma sint_high_byte: "128 \<le> uint (b :: byte) \<Longrightarrow> sint b < 0"
proof -
  assume "128 \<le> uint b"
  then have "uint b div 128 = 1" using uint_lt2p [of b] by simp
  then show ?thesis by (simp add: sint_uint signed_take_bit_eq_if_negative bit_iff_odd)
qed

lemma delim_never:
  assumes "128 \<le> uint (last d)"
  shows "\<not> ends_delim d c b"
  using sint_high_byte [OF assms] by (auto simp: ends_delim_def dest: order_less_le_trans [of _ 0 "uint c"])

lemma ungetc_stored:
  "\<exists>gf1 w1 gf2 w2 gf3 w3 gf4 w4 gf5 w5.
     gfs_pio_getc (section_pio_ops cl env vc0) (demo_file GFARM_FILE_RDWR) (demo_world [97] []) = Some (Some 97, gf1, w1)
     \<and> gfs_pio_ungetc (section_pio_ops cl env vc0) (Some 120) gf1 w1 = Some (Some 120, gf2, w2)
     \<and> gfs_pio_getc (section_pio_ops cl env vc0) gf2 w2 = Some (Some 120, gf3, w3)
     \<and> gfs_pio_putc (section_pio_ops cl env vc0) 121 gf3 w3 = Some (Inr (), gf4, w4)
     \<and> gfs_pio_flush (section_pio_ops cl env vc0) gf4 w4 = Some (Inr (), gf5, w5)
     \<and> local_content demo_context w5 = [120, 121]"
  by (simp add: demo_run gfs_pio_getc_def gfs_pio_ungetc_def gfs_pio_putc_def gfs_pio_fillbuf_def write_only_def unbuffered_def
    gfs_pio_purge_def pio_store_flush_def pio_store_def local_content_def mem_write_def mem_read_def file_put_def upt_rec)

text \<open>C27: what is lost without a report: a character put when the buffer is full and the flush fails, since the error
  of the flush is kept in a variable of its own and success is returned; and the byte of the file that a character
  pushed back stands for, which the next flush of the buffer overwrites. A delimiter whose last byte is 128 or
  more, since it is compared as a signed character, is never found by \<open>readdelim\<close>.\<close>

theorem pio_silent_losses:
  assumes "gf_view_context gf = Some vc" and "gf_error gf = GFARM_ERR_NO_ERROR" and "gf_mode_write gf"
    and "GFS_FILE_BUFSIZE \<le> gf_p gf" and "gfs_pio_flush ops gf w = Some (Inl e, gf1, w1)"
    and "128 \<le> uint (last d)"
  shows "gfs_pio_putc ops c gf w = Some (Inr (), gf1, w1)
     \<and> \<not> ends_delim d b lb
     \<and> (\<exists>gf1 w1 gf2 w2 gf3 w3 gf4 w4 gf5 w5.
          gfs_pio_getc (section_pio_ops cl env vc0) (demo_file GFARM_FILE_RDWR) (demo_world [97] []) = Some (Some 97, gf1, w1)
        \<and> gfs_pio_ungetc (section_pio_ops cl env vc0) (Some 120) gf1 w1 = Some (Some 120, gf2, w2)
        \<and> gfs_pio_getc (section_pio_ops cl env vc0) gf2 w2 = Some (Some 120, gf3, w3)
        \<and> gfs_pio_putc (section_pio_ops cl env vc0) 121 gf3 w3 = Some (Inr (), gf4, w4)
        \<and> gfs_pio_flush (section_pio_ops cl env vc0) gf4 w4 = Some (Inr (), gf5, w5)
        \<and> local_content demo_context w5 = [120, 121])"
  using putc_swallows [OF assms(1-5)] delim_never [OF assms(6)] ungetc_stored by blast

theorem pio_silent_losses_witness:
  "\<forall>cl env vc0 lb. gfs_pio_putc (section_pio_ops cl env vc0) 99 demo_full (demo_world [] [Sys_fail 27])
     = Some (Inr (), demo_full\<lparr>gf_error := GFARM_ERR_NO_SPACE\<rparr>, (demo_world [] [])\<lparr>fw_files := [3 \<mapsto> ([], 0)]\<rparr>)
   \<and> \<not> ends_delim [44, 200] 200 lb"
proof -
  have "gf_view_context demo_full = Some demo_context" "gf_error demo_full = GFARM_ERR_NO_ERROR"
    "gf_mode_write demo_full" "GFS_FILE_BUFSIZE \<le> gf_p demo_full" "128 \<le> uint (last [44, 200 :: byte])"
    by (simp_all add: demo_full_def demo_file_def)
  note T = this
  show ?thesis
    apply (intro allI)
    subgoal for cl env vc0 lb
      using pio_silent_losses [OF T(1-4) demo_full_flush [of cl env vc0] T(5)] by blast
    done
qed

end
