(* ===== verification/Gfs_Client.thy ===== *)
theory Gfs_Client
  imports Gfm_Rpc Hostspec
begin

text \<open>
  \<open>gfarm/gfs_client.c\<close>: the client of the file servers (\<open>gfsd\<close>). Connections are kept in a cache of
  their own, \<open>gfs_server_cache\<close>, and found by host and port; a pointer to a \<open>struct gfs_connection\<close> is the
  address of its entry, as for the metadata server in \<open>Gfm_Rpc\<close>. A call is a remote procedure call; when it
  ends with a connection error, a hook is called and the connection leaves the cache.

  The hook, \<open>gfarm_schedule_host_cache_clear_auth\<close> when there is one, reads the connection and acts on the
  world. The work area for the execution of commands, \<open>gfs_server->context\<close>, belongs to \<open>Gfs_Command\<close> and
  is declared here because the struct holds it.
\<close>

subsection \<open>State\<close>

datatype command_server_state =
  GFS_COMMAND_SERVER_STATE_NEUTRAL | GFS_COMMAND_SERVER_STATE_OUTPUT
| GFS_COMMAND_SERVER_STATE_EXITED | GFS_COMMAND_SERVER_STATE_ABORTED

datatype command_client_state =
  GFS_COMMAND_CLIENT_STATE_NEUTRAL | GFS_COMMAND_CLIENT_STATE_OUTPUT

record 'w command_context =
  cc_iobuffer :: "int \<Rightarrow> 'w iobuffer"
  cc_server_state :: command_server_state
  cc_server_output_fd :: int
  cc_server_output_residual :: int
  cc_client_state :: command_client_state
  cc_client_output_residual :: int
  cc_pid :: int
  cc_pending_signal :: int

record 'w gfs_connection =
  gfs_conn :: "'w gfp_xdr"
  gfs_hostname :: "byte list"
  gfs_port :: int
  gfs_auth_method :: int
  gfs_is_local :: bool
  gfs_pid :: u64
  gfs_opened :: int
  gfs_context :: "'w command_context option"

text \<open>\<open>self_ips\<close> holds the statics of \<open>sockaddr_is_local\<close>: \<open>None\<close> until they have been asked for.\<close>

record 'w gfs_state =
  gfs_server_cache :: "'w gfs_connection conn_cache"
  gfs_world :: 'w
  gfs_client_hook :: "('w gfs_connection \<Rightarrow> 'w \<Rightarrow> 'w) option"
  self_ips :: "u32 list option"

type_synonym ('w, 'a) gfs_call = "('w gfs_state, 'a) state_call"

definition gfs_server_at :: "'w gfs_state \<Rightarrow> nat \<Rightarrow> 'w gfs_connection option" where
  "gfs_server_at s gfs_server = gfp_cached_connection_get_data (gfs_server_cache s) gfs_server"

definition gfs_store :: "nat \<Rightarrow> 'w gfs_connection \<Rightarrow> 'w gfs_state \<Rightarrow> 'w gfs_state" where
  "gfs_store gfs_server g s =
     s\<lparr>gfs_server_cache := gfp_cached_connection_set_data (gfs_server_cache s) gfs_server (Some g)\<rparr>"

text \<open>The struct behind a pointer is used, and a store through it follows.\<close>

definition gfs_with :: "nat \<Rightarrow> ('w gfs_connection \<Rightarrow> ('w, 'a) gfs_call) \<Rightarrow> ('w, 'a) gfs_call" where
  "gfs_with gfs_server f s = (case gfs_server_at s gfs_server of None \<Rightarrow> None | Some g \<Rightarrow> f g s)"

definition gfs_update :: "nat \<Rightarrow> ('w gfs_connection \<Rightarrow> 'w gfs_connection) \<Rightarrow> ('w, unit) gfs_call" where
  "gfs_update gfs_server f =
     gfs_with gfs_server (\<lambda>g s. call_return () (gfs_store gfs_server (f g) s))"

definition gfs_store_conn :: "nat \<Rightarrow> 'w gfp_xdr \<Rightarrow> 'w \<Rightarrow> 'w gfs_state \<Rightarrow> 'w gfs_state" where
  "gfs_store_conn gfs_server conn w s =
     (case gfs_server_at s gfs_server of
        None \<Rightarrow> s
      | Some g \<Rightarrow> (gfs_store gfs_server (g\<lparr>gfs_conn := conn\<rparr>) s)\<lparr>gfs_world := w\<rparr>)"

subsection \<open>Connections\<close>

definition gfs_client_add_hook_for_connection_error ::
  "('w gfs_connection \<Rightarrow> 'w \<Rightarrow> 'w) option \<Rightarrow> 'w gfs_state \<Rightarrow> 'w gfs_state" where
  "gfs_client_add_hook_for_connection_error hook s = s\<lparr>gfs_client_hook := hook\<rparr>"

definition gfs_client_execute_hook_for_connection_error ::
  "nat \<Rightarrow> 'w gfs_state \<Rightarrow> 'w gfs_state option" where
  "gfs_client_execute_hook_for_connection_error gfs_server s =
     (case gfs_client_hook s of
        None \<Rightarrow> Some s
      | Some hook \<Rightarrow>
          map_option (\<lambda>g. s\<lparr>gfs_world := hook g (gfs_world s)\<rparr>) (gfs_server_at s gfs_server))"

definition gfs_client_is_connection_error :: "gfarm_error_t \<Rightarrow> bool" where
  "gfs_client_is_connection_error e = IS_CONNECTION_ERROR e"

definition gfs_client_connection_fd :: "'w gfs_state \<Rightarrow> nat \<Rightarrow> int option" where
  "gfs_client_connection_fd s gfs_server =
     map_option (\<lambda>g. gfp_xdr_fd (gfs_conn g)) (gfs_server_at s gfs_server)"

definition gfs_client_connection_auth_method :: "'w gfs_state \<Rightarrow> nat \<Rightarrow> int option" where
  "gfs_client_connection_auth_method s gfs_server = map_option gfs_auth_method (gfs_server_at s gfs_server)"

definition gfs_client_hostname :: "'w gfs_state \<Rightarrow> nat \<Rightarrow> byte list option" where
  "gfs_client_hostname s gfs_server = map_option gfs_hostname (gfs_server_at s gfs_server)"

text \<open>The argument is the global user name, which is answered for every connection.\<close>

definition gfs_client_username :: "byte list \<Rightarrow> nat \<Rightarrow> byte list" where
  "gfs_client_username user gfs_server = user"

definition gfs_client_port :: "'w gfs_state \<Rightarrow> nat \<Rightarrow> int option" where
  "gfs_client_port s gfs_server = map_option gfs_port (gfs_server_at s gfs_server)"

definition gfs_client_connection_is_local :: "'w gfs_state \<Rightarrow> nat \<Rightarrow> bool option" where
  "gfs_client_connection_is_local s gfs_server = map_option gfs_is_local (gfs_server_at s gfs_server)"

definition gfs_client_pid :: "'w gfs_state \<Rightarrow> nat \<Rightarrow> u64 option" where
  "gfs_client_pid s gfs_server = map_option gfs_pid (gfs_server_at s gfs_server)"

definition gfs_client_connection_is_cached :: "'w gfs_state \<Rightarrow> nat \<Rightarrow> bool" where
  "gfs_client_connection_is_cached s gfs_server = gfp_is_cached_connection (gfs_server_cache s) gfs_server"

definition gfs_client_purge_from_cache :: "nat \<Rightarrow> 'w gfs_state \<Rightarrow> 'w gfs_state option" where
  "gfs_client_purge_from_cache gfs_server s =
     map_option (\<lambda>c. s\<lparr>gfs_server_cache := c\<rparr>)
       (gfp_cached_connection_purge_from_cache (gfs_server_cache s) gfs_server)"

definition gfs_client_connection_used :: "nat \<Rightarrow> 'w gfs_state \<Rightarrow> 'w gfs_state option" where
  "gfs_client_connection_used gfs_server s =
     map_option (\<lambda>c. s\<lparr>gfs_server_cache := c\<rparr>)
       (gfp_cached_connection_used (gfs_server_cache s) gfs_server)"

text \<open>The callback that closes a connection, as in \<open>Gfm_Rpc\<close>.\<close>

definition gfs_client_connection_dispose :: "'w gfs_connection option \<Rightarrow> 'w option \<Rightarrow> 'w option" where
  "gfs_client_connection_dispose connection_data w =
     (case (connection_data, w) of
        (Some g, Some w0) \<Rightarrow> map_option snd (gfp_xdr_free (gfs_conn g) w0)
      | _ \<Rightarrow> None)"

definition gfs_disposing ::
  "('w gfs_connection conn_cache \<Rightarrow> 'w option \<Rightarrow> ('w gfs_connection conn_cache \<times> 'w option) option)
     \<Rightarrow> 'w gfs_state \<Rightarrow> 'w gfs_state option" where
  "gfs_disposing f s =
     (case f (gfs_server_cache s) (Some (gfs_world s)) of
        Some (c, Some w) \<Rightarrow> Some (s\<lparr>gfs_server_cache := c, gfs_world := w\<rparr>)
      | _ \<Rightarrow> None)"

definition gfs_client_connection_gc :: "'w gfs_state \<Rightarrow> 'w gfs_state option" where
  "gfs_client_connection_gc s = gfs_disposing (gfp_cached_connection_gc_all gfs_client_connection_dispose) s"

definition gfs_client_connection_free :: "nat \<Rightarrow> 'w gfs_state \<Rightarrow> 'w gfs_state option" where
  "gfs_client_connection_free gfs_server s =
     gfs_disposing (\<lambda>c. gfp_cached_or_uncached_connection_free gfs_client_connection_dispose c gfs_server) s"

definition gfs_client_terminate :: "'w gfs_state \<Rightarrow> 'w gfs_state option" where
  "gfs_client_terminate s =
     gfs_disposing (gfp_cached_connection_terminate gfs_client_connection_dispose) s"

subsection \<open>Remote procedure calls\<close>

definition gfs_purge_on_error :: "nat \<Rightarrow> gfarm_error_t \<Rightarrow> 'w gfs_state \<Rightarrow> 'w gfs_state option" where
  "gfs_purge_on_error gfs_server e s =
     (if IS_CONNECTION_ERROR e then
        Option.bind (gfs_client_execute_hook_for_connection_error gfs_server s)
          (gfs_client_purge_from_cache gfs_server)
      else Some s)"

definition gfs_outcome :: "nat \<Rightarrow> gfarm_error_t \<Rightarrow> 'a \<Rightarrow> ('w, 'a) gfs_call" where
  "gfs_outcome gfs_server e v s =
     (case gfs_purge_on_error gfs_server e s of
        None \<Rightarrow> None
      | Some s' \<Rightarrow> if e \<noteq> GFARM_ERR_NO_ERROR then call_fail e s' else call_return v s')"

definition gfs_client_rpc_request ::
  "nat \<Rightarrow> int \<Rightarrow> string \<Rightarrow> xdr_arg list \<Rightarrow> ('w, unit) gfs_call" where
  "gfs_client_rpc_request gfs_server command format args =
     gfs_with gfs_server (\<lambda>g s.
       case gfp_xdr_vrpc_request (gfs_conn g) command format args (gfs_world s) of
         None \<Rightarrow> None
       | Some (conn, e, _, _, w) \<Rightarrow> gfs_outcome gfs_server e () (gfs_store_conn gfs_server conn w s))"

text \<open>\<open>e = gfp_xdr_flush(gfs_server->conn)\<close> and the test of the connection.\<close>

definition gfs_flush :: "nat \<Rightarrow> ('w, unit) gfs_call" where
  "gfs_flush gfs_server =
     gfs_with gfs_server (\<lambda>g s.
       case gfp_xdr_flush (gfs_conn g) (gfs_world s) of
         None \<Rightarrow> None
       | Some (conn, e, w) \<Rightarrow> gfs_outcome gfs_server e () (gfs_store_conn gfs_server conn w s))"

definition gfs_rpc_end :: "nat \<Rightarrow> 'w rpc_result \<Rightarrow> ('w, xdr_val list) gfs_call" where
  "gfs_rpc_end gfs_server r s =
     call_bind (gfs_outcome gfs_server (rpc_error r) ())
       (\<lambda>_. case rpc_errcode r of
              None \<Rightarrow> call_undefined
            | Some errcode \<Rightarrow>
                if sint errcode \<noteq> 0 then call_fail (sint errcode) else call_return (rpc_vals r))
       (gfs_store_conn gfs_server (rpc_conn r) (rpc_world r) s)"

definition gfs_client_rpc_result ::
  "(u64 \<Rightarrow> bool) \<Rightarrow> nat \<Rightarrow> bool \<Rightarrow> string \<Rightarrow> u64 list \<Rightarrow> ('w, xdr_val list) gfs_call" where
  "gfs_client_rpc_result mal gfs_server just format szs s =
     (case gfs_client_connection_used gfs_server s of
        None \<Rightarrow> None
      | Some s1 \<Rightarrow>
          call_bind (gfs_flush gfs_server)
            (\<lambda>_. gfs_with gfs_server (\<lambda>g s2.
               case gfp_xdr_vrpc_result mal (gfs_conn g) just format szs (gfs_world s2) of
                 None \<Rightarrow> None
               | Some r \<Rightarrow> gfs_rpc_end gfs_server r s2)) s1)"

definition gfs_client_rpc ::
  "(u64 \<Rightarrow> bool) \<Rightarrow> nat \<Rightarrow> bool \<Rightarrow> int \<Rightarrow> string \<Rightarrow> xdr_arg list \<Rightarrow> u64 list
     \<Rightarrow> ('w, xdr_val list) gfs_call" where
  "gfs_client_rpc mal gfs_server just command format args szs s =
     (case gfs_client_connection_used gfs_server s of
        None \<Rightarrow> None
      | Some s1 \<Rightarrow>
          gfs_with gfs_server (\<lambda>g s2.
            case gfp_xdr_vrpc mal (gfs_conn g) just command format args szs (gfs_world s2) of
              None \<Rightarrow> None
            | Some r \<Rightarrow> gfs_rpc_end gfs_server r s2) s1)"

end
