(* ===== verification/Gfs_Calls.thy ===== *)
theory Gfs_Calls
  imports Gfs_Client
begin

text \<open>
  \<open>gfarm/gfs_client.c\<close>: the calls of the protocol of the file servers, the passing of a local descriptor,
  and the reception of a replica. The numbers are those of \<open>gfs_proto.h\<close>. A received value list has
  the values in the order of the format.
\<close>

abbreviation (input) GFS_PROTO_PROCESS_SET :: int where "GFS_PROTO_PROCESS_SET \<equiv> 0"
abbreviation (input) GFS_PROTO_OPEN_LOCAL :: int where "GFS_PROTO_OPEN_LOCAL \<equiv> 1"
abbreviation (input) GFS_PROTO_OPEN :: int where "GFS_PROTO_OPEN \<equiv> 2"
abbreviation (input) GFS_PROTO_CLOSE :: int where "GFS_PROTO_CLOSE \<equiv> 3"
abbreviation (input) GFS_PROTO_PREAD :: int where "GFS_PROTO_PREAD \<equiv> 4"
abbreviation (input) GFS_PROTO_PWRITE :: int where "GFS_PROTO_PWRITE \<equiv> 5"
abbreviation (input) GFS_PROTO_FTRUNCATE :: int where "GFS_PROTO_FTRUNCATE \<equiv> 6"
abbreviation (input) GFS_PROTO_FSYNC :: int where "GFS_PROTO_FSYNC \<equiv> 7"
abbreviation (input) GFS_PROTO_FSTAT :: int where "GFS_PROTO_FSTAT \<equiv> 8"
abbreviation (input) GFS_PROTO_CKSUM_SET :: int where "GFS_PROTO_CKSUM_SET \<equiv> 9"
abbreviation (input) GFS_PROTO_LOCK :: int where "GFS_PROTO_LOCK \<equiv> 10"
abbreviation (input) GFS_PROTO_TRYLOCK :: int where "GFS_PROTO_TRYLOCK \<equiv> 11"
abbreviation (input) GFS_PROTO_UNLOCK :: int where "GFS_PROTO_UNLOCK \<equiv> 12"
abbreviation (input) GFS_PROTO_LOCK_INFO :: int where "GFS_PROTO_LOCK_INFO \<equiv> 13"
abbreviation (input) GFS_PROTO_REPLICA_ADD_FROM :: int where "GFS_PROTO_REPLICA_ADD_FROM \<equiv> 15"
abbreviation (input) GFS_PROTO_REPLICA_RECV :: int where "GFS_PROTO_REPLICA_RECV \<equiv> 16"
abbreviation (input) GFS_PROTO_STATFS :: int where "GFS_PROTO_STATFS \<equiv> 17"
abbreviation (input) GFS_PROTO_COMMAND :: int where "GFS_PROTO_COMMAND \<equiv> 18"

abbreviation (input) GFS_PROTO_MAX_IOSIZE :: nat where "GFS_PROTO_MAX_IOSIZE \<equiv> 1048568"
abbreviation (input) GFSD_MAX_PASSING_FD :: nat where "GFSD_MAX_PASSING_FD \<equiv> 5"

subsection \<open>Processes and descriptors\<close>

definition gfs_client_process_set ::
  "(u64 \<Rightarrow> bool) \<Rightarrow> nat \<Rightarrow> int \<Rightarrow> byte list \<Rightarrow> u64 \<Rightarrow> u64 \<Rightarrow> ('w, unit) gfs_call" where
  "gfs_client_process_set mal gfs_server type key sz pid =
     call_bind (gfs_client_rpc mal gfs_server False GFS_PROTO_PROCESS_SET ''ibl/''
                 [Arg_int type, Arg_size sz, Arg_ptr key, Arg_int64 pid] [])
       (\<lambda>_. gfs_update gfs_server (\<lambda>g. g\<lparr>gfs_pid := pid\<rparr>))"

definition gfs_client_open :: "(u64 \<Rightarrow> bool) \<Rightarrow> nat \<Rightarrow> int \<Rightarrow> ('w, unit) gfs_call" where
  "gfs_client_open mal gfs_server fd =
     call_bind (gfs_client_rpc mal gfs_server False GFS_PROTO_OPEN ''i/'' [Arg_int fd] [])
       (\<lambda>_. gfs_update gfs_server (\<lambda>g. g\<lparr>gfs_opened := gfs_opened g + 1\<rparr>))"

text \<open>
  \<open>recvmsg\<close> is the system call: it gets the descriptor, the bytes wanted and how many descriptors, and
  answers an \<open>errno\<close>, or the bytes and the descriptors that came with them, none being the end of the file.
  The loop asks for descriptors only until the first bytes have come. \<open>Inl (-1)\<close> is the end of the file.
\<close>

type_synonym 'w recvmsg = "int \<Rightarrow> nat \<Rightarrow> nat \<Rightarrow> 'w \<Rightarrow> (int + byte list \<times> int list) \<times> 'w"

partial_function (option) receive_message_loop ::
  "'w recvmsg \<Rightarrow> int \<Rightarrow> nat \<Rightarrow> nat \<Rightarrow> byte list \<Rightarrow> int list \<Rightarrow> 'w
     \<Rightarrow> ((int + byte list \<times> int list) \<times> 'w) option" where
  "receive_message_loop recvmsg fd sz fdc buffer fdv w =
     (if sz = 0 then Some (Inr (buffer, fdv), w)
      else case recvmsg fd sz fdc w of
        (Inl errno, w') \<Rightarrow>
          if errno = EINTR then receive_message_loop recvmsg fd sz fdc buffer fdv w'
          else Some (Inl errno, w')
      | (Inr (bs, fds), w') \<Rightarrow>
          if bs = [] then Some (Inl (-1), w')
          else receive_message_loop recvmsg fd (sz - length bs) 0 (buffer @ bs)
                 (if 0 < fdc then fds else fdv) w')"

definition gfarm_fd_receive_message ::
  "'w recvmsg \<Rightarrow> int \<Rightarrow> nat \<Rightarrow> nat \<Rightarrow> 'w \<Rightarrow> ((int + byte list \<times> int list) \<times> 'w) option" where
  "gfarm_fd_receive_message recvmsg fd sz fdc w =
     (if GFSD_MAX_PASSING_FD < fdc then Some (Inl EINVAL, w)
      else receive_message_loop recvmsg fd sz fdc [] [] w)"

text \<open>The rest of the connection's stream is not read ahead (\<open>just\<close>), so the message is next on the socket.\<close>

definition gfs_client_open_local ::
  "(u64 \<Rightarrow> bool) \<Rightarrow> 'w recvmsg \<Rightarrow> nat \<Rightarrow> int \<Rightarrow> ('w, int) gfs_call" where
  "gfs_client_open_local mal recvmsg gfs_server fd =
     gfs_with gfs_server (\<lambda>g0.
       if \<not> gfs_is_local g0 then call_fail GFARM_ERR_OPERATION_NOT_SUPPORTED
       else
         call_bind (gfs_client_rpc mal gfs_server True GFS_PROTO_OPEN_LOCAL ''i/'' [Arg_int fd] [])
           (\<lambda>_. gfs_with gfs_server (\<lambda>g s.
              case gfarm_fd_receive_message recvmsg (gfp_xdr_fd (gfs_conn g)) 1 1 (gfs_world s) of
                None \<Rightarrow> None
              | Some (Inl rv, w) \<Rightarrow>
                  call_fail (if rv = -1 then GFARM_ERR_UNEXPECTED_EOF else errno_error rv) (s\<lparr>gfs_world := w\<rparr>)
              | Some (Inr (_, fdv), w) \<Rightarrow>
                  (case fdv of
                     [local_fd] \<Rightarrow>
                       call_bind (gfs_update gfs_server (\<lambda>g. g\<lparr>gfs_opened := gfs_opened g + 1\<rparr>))
                         (\<lambda>_. call_return local_fd) (s\<lparr>gfs_world := w\<rparr>)
                   | _ \<Rightarrow> None))))"

definition gfs_client_close :: "(u64 \<Rightarrow> bool) \<Rightarrow> nat \<Rightarrow> int \<Rightarrow> ('w, unit) gfs_call" where
  "gfs_client_close mal gfs_server fd =
     call_bind (gfs_client_rpc mal gfs_server False GFS_PROTO_CLOSE ''i/'' [Arg_int fd] [])
       (\<lambda>_. gfs_update gfs_server (\<lambda>g. g\<lparr>gfs_opened := gfs_opened g - 1\<rparr>))"

subsection \<open>Reading and writing\<close>

text \<open>\<open>(int)size\<close> keeps the low 32 bits; the outcome is \<open>*np\<close> and what has been stored.\<close>

definition gfs_client_pread ::
  "(u64 \<Rightarrow> bool) \<Rightarrow> nat \<Rightarrow> int \<Rightarrow> u64 \<Rightarrow> u64 \<Rightarrow> ('w, u64 \<times> byte list) gfs_call" where
  "gfs_client_pread mal gfs_server fd sz off =
     call_bind (gfs_client_rpc mal gfs_server False GFS_PROTO_PREAD ''iil/b''
                 [Arg_int fd, Arg_int (sint (ucast sz :: u32)), Arg_int64 off] [sz])
       (\<lambda>vals. case vals of
          [Val_size n, Val_block bs] \<Rightarrow>
            if sz < n then call_fail GFARM_ERRMSG_GFS_PROTO_PREAD_PROTOCOL else call_return (n, bs)
        | _ \<Rightarrow> call_undefined)"

text \<open>The comparison \<open>n > size\<close> converts the signed \<open>n\<close> to \<open>size_t\<close>.\<close>

definition gfs_client_pwrite ::
  "(u64 \<Rightarrow> bool) \<Rightarrow> nat \<Rightarrow> int \<Rightarrow> byte list \<Rightarrow> u64 \<Rightarrow> u64 \<Rightarrow> ('w, u64) gfs_call" where
  "gfs_client_pwrite mal gfs_server fd buffer sz off =
     call_bind (gfs_client_rpc mal gfs_server False GFS_PROTO_PWRITE ''ibl/i''
                 [Arg_int fd, Arg_size sz, Arg_ptr buffer, Arg_int64 off] [])
       (\<lambda>vals. case vals of
          [Val_int32 n] \<Rightarrow>
            if sz < scast n then call_fail GFARM_ERRMSG_GFS_PROTO_PWRITE_PROTOCOL else call_return (scast n)
        | _ \<Rightarrow> call_undefined)"

text \<open>Calls of which no result is looked at yield the received values, of which there are none.\<close>

definition gfs_client_ftruncate :: "(u64 \<Rightarrow> bool) \<Rightarrow> nat \<Rightarrow> int \<Rightarrow> u64 \<Rightarrow> ('w, xdr_val list) gfs_call" where
  "gfs_client_ftruncate mal gfs_server fd sz =
     gfs_client_rpc mal gfs_server False GFS_PROTO_FTRUNCATE ''il/'' [Arg_int fd, Arg_int64 sz] []"

definition gfs_client_fsync :: "(u64 \<Rightarrow> bool) \<Rightarrow> nat \<Rightarrow> int \<Rightarrow> int \<Rightarrow> ('w, xdr_val list) gfs_call" where
  "gfs_client_fsync mal gfs_server fd op =
     gfs_client_rpc mal gfs_server False GFS_PROTO_FSYNC ''ii/'' [Arg_int fd, Arg_int op] []"

definition gfs_client_fstat :: "(u64 \<Rightarrow> bool) \<Rightarrow> nat \<Rightarrow> int \<Rightarrow> ('w, xdr_val list) gfs_call" where
  "gfs_client_fstat mal gfs_server fd =
     gfs_client_rpc mal gfs_server False GFS_PROTO_FSTAT ''i/llili'' [Arg_int fd] []"

definition gfs_client_cksum_set ::
  "(u64 \<Rightarrow> bool) \<Rightarrow> nat \<Rightarrow> int \<Rightarrow> byte list \<Rightarrow> u64 \<Rightarrow> byte list \<Rightarrow> ('w, xdr_val list) gfs_call" where
  "gfs_client_cksum_set mal gfs_server fd cksum_type len cksum =
     gfs_client_rpc mal gfs_server False GFS_PROTO_CKSUM_SET ''isb/''
       [Arg_int fd, Arg_ptr cksum_type, Arg_size len, Arg_ptr cksum] []"

definition gfs_client_lock ::
  "(u64 \<Rightarrow> bool) \<Rightarrow> nat \<Rightarrow> int \<Rightarrow> u64 \<Rightarrow> u64 \<Rightarrow> int \<Rightarrow> int \<Rightarrow> ('w, xdr_val list) gfs_call" where
  "gfs_client_lock mal gfs_server fd start len type whence =
     gfs_client_rpc mal gfs_server False GFS_PROTO_LOCK ''illii/''
       [Arg_int fd, Arg_int64 start, Arg_int64 len, Arg_int type, Arg_int whence] []"

definition gfs_client_trylock ::
  "(u64 \<Rightarrow> bool) \<Rightarrow> nat \<Rightarrow> int \<Rightarrow> u64 \<Rightarrow> u64 \<Rightarrow> int \<Rightarrow> int \<Rightarrow> ('w, xdr_val list) gfs_call" where
  "gfs_client_trylock mal gfs_server fd start len type whence =
     gfs_client_rpc mal gfs_server False GFS_PROTO_TRYLOCK ''illii/''
       [Arg_int fd, Arg_int64 start, Arg_int64 len, Arg_int type, Arg_int whence] []"

definition gfs_client_unlock ::
  "(u64 \<Rightarrow> bool) \<Rightarrow> nat \<Rightarrow> int \<Rightarrow> u64 \<Rightarrow> u64 \<Rightarrow> int \<Rightarrow> int \<Rightarrow> ('w, xdr_val list) gfs_call" where
  "gfs_client_unlock mal gfs_server fd start len type whence =
     gfs_client_rpc mal gfs_server False GFS_PROTO_UNLOCK ''illii/''
       [Arg_int fd, Arg_int64 start, Arg_int64 len, Arg_int type, Arg_int whence] []"

definition gfs_client_lock_info ::
  "(u64 \<Rightarrow> bool) \<Rightarrow> nat \<Rightarrow> int \<Rightarrow> u64 \<Rightarrow> u64 \<Rightarrow> int \<Rightarrow> int \<Rightarrow> ('w, xdr_val list) gfs_call" where
  "gfs_client_lock_info mal gfs_server fd start len type whence =
     gfs_client_rpc mal gfs_server False GFS_PROTO_LOCK_INFO ''illii/llisl''
       [Arg_int fd, Arg_int64 start, Arg_int64 len, Arg_int type, Arg_int whence] []"

definition gfs_client_replica_add_from ::
  "(u64 \<Rightarrow> bool) \<Rightarrow> nat \<Rightarrow> byte list \<Rightarrow> int \<Rightarrow> int \<Rightarrow> ('w, xdr_val list) gfs_call" where
  "gfs_client_replica_add_from mal gfs_server host port fd =
     gfs_client_rpc mal gfs_server False GFS_PROTO_REPLICA_ADD_FROM ''sii/''
       [Arg_ptr host, Arg_int port, Arg_int fd] []"

definition gfs_client_statfs :: "(u64 \<Rightarrow> bool) \<Rightarrow> nat \<Rightarrow> byte list \<Rightarrow> ('w, xdr_val list) gfs_call" where
  "gfs_client_statfs mal gfs_server path =
     gfs_client_rpc mal gfs_server False GFS_PROTO_STATFS ''s/illllll'' [Arg_ptr path] []"

subsection \<open>Receiving a replica\<close>

text \<open>
  \<open>write(2)\<close> answers an \<open>errno\<close> or how many bytes it has taken. The loop over one part of a replica: the
  outcome is the error to remember, if any.
\<close>

type_synonym 'w sys_write = "int \<Rightarrow> byte list \<Rightarrow> 'w \<Rightarrow> (int + nat) \<times> 'w"

function replica_write :: "'w sys_write \<Rightarrow> int \<Rightarrow> byte list \<Rightarrow> 'w \<Rightarrow> gfarm_error_t option \<times> 'w" where
  "replica_write sys_write local_fd buffer w =
     (if buffer = [] then (None, w)
      else case sys_write local_fd buffer w of
        (Inl errno, w') \<Rightarrow> (Some (errno_error errno), w')
      | (Inr rv, w') \<Rightarrow>
          if rv = 0 then (Some (errno_error ENOSPC), w')
          else replica_write sys_write local_fd (drop rv buffer) w')"
  by pat_completeness auto
termination by (relation "measure (\<lambda>(_, _, bs, _). length bs)") auto

declare replica_write.simps [simp del]

text \<open>
  One message of \<open>size\<close> bytes, in the parts the buffer has: \<open>skip\<close> is set when a write has failed, and then
  the rest is only received. The outcome is the error of the connection with \<open>e_write\<close>. A part that is
  longer than the array \<open>buffer\<close> is undefined.
\<close>

partial_function (option) replica_message ::
  "'w sys_write \<Rightarrow> nat \<Rightarrow> int \<Rightarrow> int \<Rightarrow> bool \<Rightarrow> gfarm_error_t \<Rightarrow> 'w gfs_state
     \<Rightarrow> ((gfarm_error_t \<times> gfarm_error_t) \<times> 'w gfs_state) option" where
  "replica_message sys_write gfs_server local_fd sz skip e_write s =
     (case gfs_server_at s gfs_server of
        None \<Rightarrow> None
      | Some g \<Rightarrow>
          (case gfp_xdr_recv_partial (gfs_conn g) False sz (gfs_world s) of
             (conn, bs, w) \<Rightarrow>
               let e = gfp_xdr_recv_get_error conn
               in (case gfs_purge_on_error gfs_server e (gfs_store_conn gfs_server conn w s) of
                     None \<Rightarrow> None
                   | Some s1 \<Rightarrow>
                       if GFS_PROTO_MAX_IOSIZE < length bs then None
                       else if e \<noteq> GFARM_ERR_NO_ERROR then Some ((e, e_write), s1)
                       else if bs = [] then Some ((GFARM_ERR_PROTOCOL, e_write), s1)
                       else
                         (case (if skip then (None, gfs_world s1)
                                else replica_write sys_write local_fd bs (gfs_world s1)) of
                            (failed, w2) \<Rightarrow>
                              let s2 = s1\<lparr>gfs_world := w2\<rparr>;
                                  skip' = (skip \<or> failed \<noteq> None);
                                  e_write' = (case failed of None \<Rightarrow> e_write | Some ew \<Rightarrow> ew);
                                  sz' = sz - int (length bs)
                              in if 0 < sz'
                                 then replica_message sys_write gfs_server local_fd sz' skip' e_write' s2
                                 else Some ((GFARM_ERR_NO_ERROR, e_write'), s2)))))"

partial_function (option) replica_recv_loop ::
  "(u64 \<Rightarrow> bool) \<Rightarrow> 'w sys_write \<Rightarrow> nat \<Rightarrow> int \<Rightarrow> gfarm_error_t \<Rightarrow> 'w gfs_state
     \<Rightarrow> ((gfarm_error_t \<times> gfarm_error_t) \<times> 'w gfs_state) option" where
  "replica_recv_loop mal sys_write gfs_server local_fd e_write s =
     (case gfs_server_at s gfs_server of
        None \<Rightarrow> None
      | Some g \<Rightarrow>
          (case gfp_xdr_recv mal (gfs_conn g) False ''i'' [] (gfs_world s) of
             None \<Rightarrow> None
           | Some r \<Rightarrow>
               (case gfs_purge_on_error gfs_server (rr_error r)
                       (gfs_store_conn gfs_server (rr_conn r) (rr_world r) s) of
                  None \<Rightarrow> None
                | Some s1 \<Rightarrow>
                    if rr_error r \<noteq> GFARM_ERR_NO_ERROR then Some ((rr_error r, e_write), s1)
                    else if rr_eof r then Some ((GFARM_ERR_PROTOCOL, e_write), s1)
                    else
                      (case rr_vals r of
                         [Val_int32 sz] \<Rightarrow>
                           if sint sz \<le> 0 then Some ((GFARM_ERR_NO_ERROR, e_write), s1)
                           else
                             (case replica_message sys_write gfs_server local_fd (sint sz) False e_write s1 of
                                None \<Rightarrow> None
                              | Some ((e, e_write'), s2) \<Rightarrow>
                                  if e \<noteq> GFARM_ERR_NO_ERROR then Some ((e, e_write'), s2)
                                  else replica_recv_loop mal sys_write gfs_server local_fd e_write' s2)
                       | _ \<Rightarrow> None))))"

definition gfs_client_replica_recv ::
  "(u64 \<Rightarrow> bool) \<Rightarrow> 'w sys_write \<Rightarrow> nat \<Rightarrow> u64 \<Rightarrow> u64 \<Rightarrow> int \<Rightarrow> ('w, unit) gfs_call" where
  "gfs_client_replica_recv mal sys_write gfs_server ino gen local_fd s =
     (case gfs_client_rpc_request gfs_server GFS_PROTO_REPLICA_RECV ''ll'' [Arg_int64 ino, Arg_int64 gen] s of
        None \<Rightarrow> None
      | Some (Inl e, s1) \<Rightarrow> gfs_outcome gfs_server e () s1
      | Some (Inr _, s1) \<Rightarrow>
          call_bind (gfs_flush gfs_server)
            (\<lambda>_ s2. case replica_recv_loop mal sys_write gfs_server local_fd GFARM_ERR_NO_ERROR s2 of
               None \<Rightarrow> None
             | Some ((e, e_write), s3) \<Rightarrow>
                 (case gfs_client_rpc_result mal gfs_server False '''' [] s3 of
                    None \<Rightarrow> None
                  | Some (r, s4) \<Rightarrow>
                      if e \<noteq> GFARM_ERR_NO_ERROR then call_fail e s4
                      else if e_write \<noteq> GFARM_ERR_NO_ERROR then call_fail e_write s4
                      else Some (map_sum id (\<lambda>_. ()) r, s4)))
            s1)"

end
