(* ===== verification/Gfs_Connect.thy ===== *)
theory Gfs_Connect
  imports Gfs_Calls
begin

text \<open>
  \<open>gfarm/gfs_client.c\<close>: opening connections to the file servers. The addresses of this host, the system
  calls on sockets, the configured socket options, waiting for a connection in progress and the
  authentication are parameters, the fields of \<open>gfs_net\<close>, each acting on the world; \<open>fcntl\<close> is left out.
  A \<open>struct sockaddr\<close> is an address with a port. As elsewhere \<open>new_xdr\<close> is \<open>gfp_xdr_new_socket\<close> with the
  outcomes of its allocations.
\<close>

record peer_sockaddr =
  peer_addr :: sockaddr
  peer_port :: int

datatype socket_name = Name_unix string | Name_inet peer_sockaddr

record 'w gfs_net =
  gnet_ip_addresses :: "'w \<Rightarrow> (gfarm_error_t + u32 list) \<times> 'w"
  gnet_socket_unix :: "'w \<Rightarrow> (int + int) \<times> 'w"
  gnet_socket_inet :: "'w \<Rightarrow> (int + int) \<times> 'w"
  gnet_sockopt_apply :: "int \<Rightarrow> byte list \<Rightarrow> peer_sockaddr \<Rightarrow> 'w \<Rightarrow> 'w"
  gnet_bind_source_ip :: "int \<Rightarrow> byte list \<Rightarrow> 'w \<Rightarrow> gfarm_error_t \<times> 'w"
  gnet_connect :: "int \<Rightarrow> socket_name \<Rightarrow> 'w \<Rightarrow> int option \<times> 'w"
  gnet_connect_wait :: "int \<Rightarrow> int \<Rightarrow> 'w \<Rightarrow> gfarm_error_t \<times> 'w"
  gnet_close :: "int \<Rightarrow> 'w \<Rightarrow> 'w"
  gnet_auth_request :: "'w gfp_xdr \<Rightarrow> byte list \<Rightarrow> peer_sockaddr \<Rightarrow> 'w \<Rightarrow> 'w gfp_xdr \<times> gfarm_error_t \<times> int \<times> 'w"

abbreviation (input) GFS_CLIENT_CONNECT_TIMEOUT :: int where "GFS_CLIENT_CONNECT_TIMEOUT \<equiv> 30"
abbreviation (input) ENFILE :: int where "ENFILE \<equiv> 23"
abbreviation (input) EMFILE :: int where "EMFILE \<equiv> 24"
abbreviation (input) EINPROGRESS :: int where "EINPROGRESS \<equiv> 115"

definition sockaddr_is_local :: "'w gfs_net \<Rightarrow> sockaddr \<Rightarrow> 'w gfs_state \<Rightarrow> bool \<times> 'w gfs_state" where
  "sockaddr_is_local net addr s =
     (let (asked_now, ips, s1) =
            (case self_ips s of
               Some ips \<Rightarrow> (GFARM_ERR_NO_ERROR, ips, s)
             | None \<Rightarrow>
                 (case gnet_ip_addresses net (gfs_world s) of
                    (Inl e, w) \<Rightarrow> (e, [], s\<lparr>self_ips := Some [], gfs_world := w\<rparr>)
                  | (Inr ips, w) \<Rightarrow> (GFARM_ERR_NO_ERROR, ips, s\<lparr>self_ips := Some ips, gfs_world := w\<rparr>)))
      in (case addr of
            AF_INET a \<Rightarrow> (asked_now = GFARM_ERR_NO_ERROR \<and> a \<in> set ips, s1)
          | _ \<Rightarrow> (False, s1)))"

text \<open>\<open>snprintf\<close> into \<open>sun_path\<close>, which has 108 bytes with the terminating 0.\<close>

definition local_socket_name :: "u32 \<Rightarrow> int \<Rightarrow> string" where
  "local_socket_name a port =
     take 107 (''/tmp/.gfarm-gfsd'' @ dotted a @ ''-'' @ dec port @ ''/sock'')"

text \<open>When no descriptor is left, the idle connections are closed and the call is made again.\<close>

definition gfs_socket :: "('w \<Rightarrow> (int + int) \<times> 'w) \<Rightarrow> ('w, int) gfs_call" where
  "gfs_socket sock_call s =
     (case sock_call (gfs_world s) of
        (Inr sock, w) \<Rightarrow> call_return sock (s\<lparr>gfs_world := w\<rparr>)
      | (Inl eno, w) \<Rightarrow>
          if eno = ENFILE \<or> eno = EMFILE then
            (case gfs_client_connection_gc (s\<lparr>gfs_world := w\<rparr>) of
               None \<Rightarrow> None
             | Some s2 \<Rightarrow>
                 (case sock_call (gfs_world s2) of
                    (Inr sock, w') \<Rightarrow> call_return sock (s2\<lparr>gfs_world := w'\<rparr>)
                  | (Inl eno', w') \<Rightarrow> call_fail (errno_error eno') (s2\<lparr>gfs_world := w'\<rparr>)))
          else call_fail (errno_error eno) (s\<lparr>gfs_world := w\<rparr>))"

definition gfs_closing :: "'w gfs_net \<Rightarrow> int \<Rightarrow> gfarm_error_t \<Rightarrow> ('w, 'a) gfs_call" where
  "gfs_closing net sock e s = call_fail e (s\<lparr>gfs_world := gnet_close net sock (gfs_world s)\<rparr>)"

text \<open>The socket, or -1 when there is no such socket at the server; a failed assertion is \<open>None\<close>.\<close>

definition gfs_client_connect_unix :: "'w gfs_net \<Rightarrow> peer_sockaddr \<Rightarrow> ('w, int) gfs_call" where
  "gfs_client_connect_unix net peer =
     (case peer_addr peer of
        AF_INET a \<Rightarrow>
          call_bind (gfs_socket (gnet_socket_unix net))
            (\<lambda>sock s.
               case gnet_connect net sock (Name_unix (local_socket_name a (peer_port peer))) (gfs_world s) of
                 (None, w) \<Rightarrow> call_return sock (s\<lparr>gfs_world := w\<rparr>)
               | (Some eno, w) \<Rightarrow>
                   let s' = s\<lparr>gfs_world := gnet_close net sock w\<rparr>
                   in if eno \<noteq> ENOENT then call_fail (errno_error eno) s' else call_return (-1) s')
      | _ \<Rightarrow> call_undefined)"

text \<open>The socket and whether the connection is in progress.\<close>

definition gfs_client_connect_inet ::
  "'w gfs_net \<Rightarrow> byte list \<Rightarrow> peer_sockaddr \<Rightarrow> byte list option \<Rightarrow> ('w, int \<times> bool) gfs_call" where
  "gfs_client_connect_inet net canonical_hostname peer source_ip =
     call_bind (gfs_socket (gnet_socket_inet net))
       (\<lambda>sock s.
          let w1 = gnet_sockopt_apply net sock canonical_hostname peer (gfs_world s);
              (e, w2) = (case source_ip of
                           None \<Rightarrow> (GFARM_ERR_NO_ERROR, w1)
                         | Some ip \<Rightarrow> gnet_bind_source_ip net sock ip w1)
          in if e \<noteq> GFARM_ERR_NO_ERROR then gfs_closing net sock e (s\<lparr>gfs_world := w2\<rparr>)
             else (case gnet_connect net sock (Name_inet peer) w2 of
                     (None, w3) \<Rightarrow> call_return (sock, False) (s\<lparr>gfs_world := w3\<rparr>)
                   | (Some eno, w3) \<Rightarrow>
                       if eno \<noteq> EINPROGRESS then gfs_closing net sock (errno_error eno) (s\<lparr>gfs_world := w3\<rparr>)
                       else call_return (sock, True) (s\<lparr>gfs_world := w3\<rparr>)))"

text \<open>
  The socket of a connection, whether it is in progress and whether it is local: a local server is asked
  through its Unix socket first.
\<close>

definition gfs_client_socket ::
  "'w gfs_net \<Rightarrow> byte list \<Rightarrow> peer_sockaddr \<Rightarrow> byte list option \<Rightarrow> ('w, int \<times> bool \<times> bool) gfs_call" where
  "gfs_client_socket net canonical_hostname peer source_ip s =
     (case sockaddr_is_local net (peer_addr peer) s of
        (is_local, s1) \<Rightarrow>
          call_bind (if is_local then gfs_client_connect_unix net peer else call_return (-1))
            (\<lambda>sock. if sock \<noteq> -1 then call_return (sock, False, is_local)
                    else call_bind (gfs_client_connect_inet net canonical_hostname peer source_ip)
                           (\<lambda>(sock', in_progress). call_return (sock', in_progress, is_local)))
            s1)"

text \<open>
  \<open>malg\<close> and \<open>dup\<close> are the outcomes of the allocation of the struct and of the name; \<open>method0\<close> is what
  the fresh struct holds in \<open>auth_method\<close>. The outcome is whether the connection is in progress.
\<close>

definition gfs_client_connection_alloc ::
  "'w gfs_net \<Rightarrow> bool \<Rightarrow> bool \<Rightarrow> (int \<Rightarrow> gfarm_error_t + 'w gfp_xdr) \<Rightarrow> int \<Rightarrow> byte list \<Rightarrow> peer_sockaddr \<Rightarrow> nat
     \<Rightarrow> byte list option \<Rightarrow> ('w, bool) gfs_call" where
  "gfs_client_connection_alloc net malg dup new_xdr method0 canonical_hostname peer cache_entry source_ip =
     call_bind (gfs_client_socket net canonical_hostname peer source_ip)
       (\<lambda>(sock, in_progress, is_local).
          if \<not> malg then gfs_closing net sock GFARM_ERR_NO_MEMORY
          else case new_xdr sock of
            Inl e \<Rightarrow> gfs_closing net sock e
          | Inr conn \<Rightarrow>
              (\<lambda>s. if \<not> dup then
                     (case gfp_xdr_free conn (gfs_world s) of
                        None \<Rightarrow> None
                      | Some (_, w) \<Rightarrow> call_fail GFARM_ERR_NO_MEMORY (s\<lparr>gfs_world := w\<rparr>))
                   else call_return in_progress
                     (gfs_store cache_entry
                        \<lparr>gfs_conn = conn, gfs_hostname = canonical_hostname, gfs_port = peer_port peer,
                         gfs_auth_method = method0, gfs_is_local = is_local, gfs_pid = 0, gfs_opened = 0,
                         gfs_context = None\<rparr> s)))"

text \<open>When the authentication fails, the struct is freed, which leaves the entry without data.\<close>

definition gfs_client_connection_alloc_and_auth ::
  "'w gfs_net \<Rightarrow> bool \<Rightarrow> bool \<Rightarrow> (int \<Rightarrow> gfarm_error_t + 'w gfp_xdr) \<Rightarrow> int \<Rightarrow> byte list \<Rightarrow> peer_sockaddr \<Rightarrow> nat
     \<Rightarrow> byte list option \<Rightarrow> ('w, unit) gfs_call" where
  "gfs_client_connection_alloc_and_auth net malg dup new_xdr method0 canonical_hostname peer cache_entry source_ip =
     call_bind (gfs_client_connection_alloc net malg dup new_xdr method0 canonical_hostname peer cache_entry source_ip)
       (\<lambda>in_progress. gfs_with cache_entry (\<lambda>g s.
          let (e1, w1) = (if in_progress
                          then gnet_connect_wait net (gfp_xdr_fd (gfs_conn g)) GFS_CLIENT_CONNECT_TIMEOUT (gfs_world s)
                          else (GFARM_ERR_NO_ERROR, gfs_world s));
              (conn, e, method, w2) =
                (if e1 \<noteq> GFARM_ERR_NO_ERROR then (gfs_conn g, e1, gfs_auth_method g, w1)
                 else gnet_auth_request net (gfs_conn g) (gfs_hostname g) peer w1)
          in if e = GFARM_ERR_NO_ERROR
             then call_return () ((gfs_store cache_entry (g\<lparr>gfs_conn := conn, gfs_auth_method := method\<rparr>) s)
                                    \<lparr>gfs_world := w2\<rparr>)
             else (case gfp_xdr_free conn w2 of
                     None \<Rightarrow> None
                   | Some (_, w3) \<Rightarrow>
                       call_fail e (s\<lparr>gfs_world := w3,
                         gfs_server_cache := gfp_cached_connection_set_data (gfs_server_cache s) cache_entry None\<rparr>))))"

text \<open>What follows a new entry in the cache: an entry whose connection cannot be opened is taken out again.\<close>

definition gfs_connect_entry :: "('w, unit) gfs_call \<Rightarrow> nat \<Rightarrow> ('w, nat) gfs_call" where
  "gfs_connect_entry connect cache_entry s =
     (case connect s of
        None \<Rightarrow> None
      | Some (Inr _, s1) \<Rightarrow> call_return cache_entry s1
      | Some (Inl e, s1) \<Rightarrow>
          (case gfp_cached_connection_purge_from_cache (gfs_server_cache s1) cache_entry of
             None \<Rightarrow> None
           | Some c \<Rightarrow> call_fail e (s1\<lparr>gfs_server_cache := gfp_uncached_connection_dispose c cache_entry\<rparr>)))"

text \<open>
  \<open>acquire\<close> is \<open>gfp_cached_connection_acquire\<close> with the outcomes of its allocations, the name of the user and
  the host and port; \<open>connect\<close> is \<open>gfs_client_connection_alloc_and_auth\<close> with its arguments.
\<close>

definition gfs_client_connection_acquire ::
  "('w gfs_connection conn_cache \<Rightarrow> ('w gfs_connection conn_cache \<times> (gfarm_error_t + nat \<times> bool)) option)
     \<Rightarrow> (nat \<Rightarrow> ('w, unit) gfs_call) \<Rightarrow> ('w, nat) gfs_call" where
  "gfs_client_connection_acquire acquire connect s =
     (case acquire (gfs_server_cache s) of
        None \<Rightarrow> None
      | Some (c, Inl e) \<Rightarrow> call_fail e (s\<lparr>gfs_server_cache := c\<rparr>)
      | Some (c, Inr (cache_entry, created)) \<Rightarrow>
          if \<not> created then call_return cache_entry (s\<lparr>gfs_server_cache := c\<rparr>)
          else gfs_connect_entry (connect cache_entry) cache_entry (s\<lparr>gfs_server_cache := c\<rparr>))"

text \<open>The same for a host name, of which the address is asked for only when a connection must be opened.\<close>

definition gfs_client_connection_acquire_by_host ::
  "('w gfs_connection conn_cache \<Rightarrow> ('w gfs_connection conn_cache \<times> (gfarm_error_t + nat \<times> bool)) option)
     \<Rightarrow> ('w, peer_sockaddr) gfs_call \<Rightarrow> (peer_sockaddr \<Rightarrow> nat \<Rightarrow> ('w, unit) gfs_call) \<Rightarrow> ('w, nat) gfs_call" where
  "gfs_client_connection_acquire_by_host acquire host_address_get connect s =
     (case acquire (gfs_server_cache s) of
        None \<Rightarrow> None
      | Some (c, Inl e) \<Rightarrow> call_fail e (s\<lparr>gfs_server_cache := c\<rparr>)
      | Some (c, Inr (cache_entry, created)) \<Rightarrow>
          if \<not> created then call_return cache_entry (s\<lparr>gfs_server_cache := c\<rparr>)
          else gfs_connect_entry (call_bind host_address_get (\<lambda>peer. connect peer cache_entry)) cache_entry
                 (s\<lparr>gfs_server_cache := c\<rparr>))"

text \<open>\<open>malp\<close> is the address \<open>malloc\<close> gives for the entry.\<close>

definition gfs_client_connect :: "nat option \<Rightarrow> (nat \<Rightarrow> ('w, unit) gfs_call) \<Rightarrow> ('w, nat) gfs_call" where
  "gfs_client_connect malp connect s =
     (case gfp_uncached_connection_new malp (gfs_server_cache s) of
        (c, Inl e) \<Rightarrow> call_fail e (s\<lparr>gfs_server_cache := c\<rparr>)
      | (c, Inr cache_entry) \<Rightarrow>
          (case connect cache_entry (s\<lparr>gfs_server_cache := c\<rparr>) of
             None \<Rightarrow> None
           | Some (Inr _, s1) \<Rightarrow> call_return cache_entry s1
           | Some (Inl e, s1) \<Rightarrow>
               call_fail e (s1\<lparr>gfs_server_cache := gfp_uncached_connection_dispose (gfs_server_cache s1) cache_entry\<rparr>)))"

text \<open>A connection that is in the cache already aborts the program.\<close>

definition gfs_client_connection_enter_cache ::
  "(u64 \<Rightarrow> bool) \<Rightarrow> bool \<Rightarrow> bool \<Rightarrow> byte list \<Rightarrow> nat \<Rightarrow> ('w, unit) gfs_call" where
  "gfs_client_connection_enter_cache mal duph dupu user gfs_server =
     gfs_with gfs_server (\<lambda>g s.
       if gfs_client_connection_is_cached s gfs_server then None
       else case gfp_uncached_connection_enter_cache mal duph dupu user (gfs_server_cache s) gfs_server
                   (gfs_hostname g) (gfs_port g) of
         None \<Rightarrow> None
       | Some (c, e) \<Rightarrow>
           Some (if e = GFARM_ERR_NO_ERROR then Inr () else Inl e, s\<lparr>gfs_server_cache := c\<rparr>))"

end
