(* ===== verification/Gfs_Command.thy ===== *)
theory Gfs_Command
  imports Gfs_Connect
begin

text \<open>
  \<open>gfarm/gfs_client.c\<close>: the execution of a command at a file server. The input of the command is read into
  the buffer \<open>FDESC_STDIN\<close> and sent in messages, each announced with its length; its output arrives the
  same way and goes through the buffers \<open>FDESC_STDOUT\<close> and \<open>FDESC_STDERR\<close>. Both directions share the
  connection, and two small state machines say what is next on it.

  The functions here act on the struct behind \<open>gfs_server\<close> and the world; \<open>None\<close> is a missing \<open>context\<close>, or a
  call below that does not return. A \<open>fd_set\<close> is a set of descriptors. \<open>select\<close> answers an \<open>errno\<close> or the
  descriptors it has found, no answer meaning that the time has run out.
\<close>

abbreviation (input) FDESC_STDIN :: int where "FDESC_STDIN \<equiv> 0"
abbreviation (input) FDESC_STDOUT :: int where "FDESC_STDOUT \<equiv> 1"
abbreviation (input) FDESC_STDERR :: int where "FDESC_STDERR \<equiv> 2"

abbreviation (input) GFS_PROTO_COMMAND_EXIT_STATUS :: int where "GFS_PROTO_COMMAND_EXIT_STATUS \<equiv> 0"
abbreviation (input) GFS_PROTO_COMMAND_SEND_SIGNAL :: int where "GFS_PROTO_COMMAND_SEND_SIGNAL \<equiv> 1"
abbreviation (input) GFS_PROTO_COMMAND_FD_INPUT :: int where "GFS_PROTO_COMMAND_FD_INPUT \<equiv> 2"
abbreviation (input) GFS_PROTO_COMMAND_EXITED :: int where "GFS_PROTO_COMMAND_EXITED \<equiv> 0"
abbreviation (input) GFS_PROTO_COMMAND_FD_OUTPUT :: int where "GFS_PROTO_COMMAND_FD_OUTPUT \<equiv> 2"

type_synonym ('w, 'a) command_step = "'w gfs_connection \<Rightarrow> 'w \<Rightarrow> ('a \<times> 'w gfs_connection \<times> 'w) option"

definition cc_update :: "('w command_context \<Rightarrow> 'w command_context) \<Rightarrow> 'w gfs_connection \<Rightarrow> 'w gfs_connection" where
  "cc_update f g = g\<lparr>gfs_context := map_option f (gfs_context g)\<rparr>"

definition cc_set_iobuffer :: "int \<Rightarrow> 'w iobuffer \<Rightarrow> 'w command_context \<Rightarrow> 'w command_context" where
  "cc_set_iobuffer i b cc = cc\<lparr>cc_iobuffer := (cc_iobuffer cc)(i := b)\<rparr>"

definition cc_abort :: "'w command_context \<Rightarrow> 'w command_context" where
  "cc_abort cc = cc\<lparr>cc_server_state := GFS_COMMAND_SERVER_STATE_ABORTED\<rparr>"

subsection \<open>The ends of the streams\<close>

definition gfs_client_command_set_stdin ::
  "'w read_hook \<Rightarrow> nat \<Rightarrow> int \<Rightarrow> 'w gfs_connection \<Rightarrow> 'w gfs_connection" where
  "gfs_client_command_set_stdin rf cookie fd =
     cc_update (\<lambda>cc. cc_set_iobuffer FDESC_STDIN
       (gfarm_iobuffer_set_read (cc_iobuffer cc FDESC_STDIN) rf cookie fd) cc)"

definition gfs_client_command_set_stdout ::
  "'w write_hook \<Rightarrow> 'w close_hook \<Rightarrow> nat \<Rightarrow> int \<Rightarrow> 'w gfs_connection \<Rightarrow> 'w gfs_connection" where
  "gfs_client_command_set_stdout wfn wcf cookie fd =
     cc_update (\<lambda>cc. cc_set_iobuffer FDESC_STDOUT
       (gfarm_iobuffer_set_write_close
         (gfarm_iobuffer_set_write (cc_iobuffer cc FDESC_STDOUT) wfn cookie fd) wcf) cc)"

definition gfs_client_command_set_stderr ::
  "'w write_hook \<Rightarrow> 'w close_hook \<Rightarrow> nat \<Rightarrow> int \<Rightarrow> 'w gfs_connection \<Rightarrow> 'w gfs_connection" where
  "gfs_client_command_set_stderr wfn wcf cookie fd =
     cc_update (\<lambda>cc. cc_set_iobuffer FDESC_STDERR
       (gfarm_iobuffer_set_write_close
         (gfarm_iobuffer_set_write (cc_iobuffer cc FDESC_STDERR) wfn cookie fd) wcf) cc)"

definition gfs_client_command_is_running :: "'w command_context \<Rightarrow> bool" where
  "gfs_client_command_is_running cc \<longleftrightarrow>
     cc_server_state cc \<noteq> GFS_COMMAND_SERVER_STATE_EXITED \<and>
     cc_server_state cc \<noteq> GFS_COMMAND_SERVER_STATE_ABORTED"

definition gfs_client_command_close_stdin :: "'w gfs_connection \<Rightarrow> 'w gfs_connection" where
  "gfs_client_command_close_stdin =
     cc_update (\<lambda>cc. cc_set_iobuffer FDESC_STDIN
       (gfarm_iobuffer_set_read_eof (cc_iobuffer cc FDESC_STDIN)) cc)"

subsection \<open>What to wait for\<close>

record fd_wait =
  fd_readable :: "int set"
  fd_writable :: "int set"
  max_fd :: int

definition FD_SET_readable :: "int \<Rightarrow> fd_wait \<Rightarrow> fd_wait" where
  "FD_SET_readable fd f = f\<lparr>fd_readable := insert fd (fd_readable f), max_fd := max (max_fd f) fd\<rparr>"

definition FD_SET_writable :: "int \<Rightarrow> fd_wait \<Rightarrow> fd_wait" where
  "FD_SET_writable fd f = f\<lparr>fd_writable := insert fd (fd_writable f), max_fd := max (max_fd f) fd\<rparr>"

definition wants_read :: "'w command_context \<Rightarrow> bool" where
  "wants_read cc \<longleftrightarrow>
     cc_server_state cc = GFS_COMMAND_SERVER_STATE_NEUTRAL \<or>
     (cc_server_state cc = GFS_COMMAND_SERVER_STATE_OUTPUT \<and>
      gfarm_iobuffer_is_readable (cc_iobuffer cc (cc_server_output_fd cc)))"

definition wants_write :: "'w command_context \<Rightarrow> bool" where
  "wants_write cc \<longleftrightarrow>
     (cc_client_state cc = GFS_COMMAND_CLIENT_STATE_NEUTRAL \<and>
      (cc_pending_signal cc \<noteq> 0 \<or> gfarm_iobuffer_is_writable (cc_iobuffer cc FDESC_STDIN))) \<or>
     cc_client_state cc = GFS_COMMAND_CLIENT_STATE_OUTPUT"

text \<open>A stream without a descriptor is moved at once through its hook.\<close>

definition fd_set_stdin :: "'w command_context \<Rightarrow> fd_wait \<Rightarrow> 'w \<Rightarrow> 'w command_context \<times> fd_wait \<times> 'w" where
  "fd_set_stdin cc f w =
     (let b = cc_iobuffer cc FDESC_STDIN; fd = gfarm_iobuffer_get_read_fd b
      in if \<not> gfarm_iobuffer_is_readable b then (cc, f, w)
         else if fd < 0
         then let (b', _, w') = gfarm_iobuffer_read b None w in (cc_set_iobuffer FDESC_STDIN b' cc, f, w')
         else (cc, FD_SET_readable fd f, w))"

definition fd_set_output :: "int \<Rightarrow> 'w command_context \<Rightarrow> fd_wait \<Rightarrow> 'w \<Rightarrow> 'w command_context \<times> fd_wait \<times> 'w" where
  "fd_set_output i cc f w =
     (let b = cc_iobuffer cc i; fd = gfarm_iobuffer_get_write_fd b
      in if \<not> gfarm_iobuffer_is_writable b then (cc, f, w)
         else if fd < 0
         then let (b', _, w') = gfarm_iobuffer_write b None w in (cc_set_iobuffer i b' cc, f, w')
         else (cc, FD_SET_writable fd f, w))"

definition gfs_client_command_fd_set ::
  "int \<Rightarrow> 'w command_context \<Rightarrow> fd_wait \<Rightarrow> 'w \<Rightarrow> 'w command_context \<times> fd_wait \<times> 'w" where
  "gfs_client_command_fd_set conn_fd cc f w =
     (let f1 = (if wants_read cc then FD_SET_readable conn_fd f else f);
          f2 = (if wants_write cc then FD_SET_writable conn_fd f1 else f1);
          (cc3, f3, w3) = fd_set_stdin cc f2 w;
          (cc4, f4, w4) = fd_set_output FDESC_STDOUT cc3 f3 w3
      in fd_set_output FDESC_STDERR cc4 f4 w4)"

subsection \<open>Input and output on the descriptors found\<close>

text \<open>An error of the input is treated as its end.\<close>

definition io_stdin :: "'w command_context \<Rightarrow> int set \<Rightarrow> 'w \<Rightarrow> 'w command_context \<times> 'w" where
  "io_stdin cc readable w =
     (let b = cc_iobuffer cc FDESC_STDIN; fd = gfarm_iobuffer_get_read_fd b
      in if 0 \<le> fd \<and> fd \<in> readable then
           let (b1, _, w1) = gfarm_iobuffer_read b None w;
               b2 = (if gfarm_iobuffer_get_error b1 \<noteq> GFARM_ERR_NO_ERROR
                     then gfarm_iobuffer_set_error (gfarm_iobuffer_set_read_eof b1) GFARM_ERR_NO_ERROR
                     else b1)
           in (cc_set_iobuffer FDESC_STDIN b2 cc, w1)
         else (cc, w))"

text \<open>What cannot be written to the output is thrown away.\<close>

definition io_output :: "int \<Rightarrow> 'w command_context \<Rightarrow> int set \<Rightarrow> 'w \<Rightarrow> 'w command_context \<times> 'w" where
  "io_output i cc writable w =
     (let b = cc_iobuffer cc i; fd = gfarm_iobuffer_get_write_fd b
      in if fd < 0 \<or> fd \<notin> writable then (cc, w)
         else
           let (b1, _, w1) = gfarm_iobuffer_write b None w
           in if gfarm_iobuffer_get_error b1 = GFARM_ERR_NO_ERROR then (cc_set_iobuffer i b1 cc, w1)
              else
                let (b2, _, _, w2) = gfarm_iobuffer_purge b1 None w1
                in (cc_set_iobuffer i (gfarm_iobuffer_set_error b2 GFARM_ERR_NO_ERROR) cc, w2))"

text \<open>One message header of the server; the error is that of the call.\<close>

definition io_server_neutral ::
  "(u64 \<Rightarrow> bool) \<Rightarrow> 'w gfp_xdr \<Rightarrow> 'w command_context \<Rightarrow> 'w
     \<Rightarrow> (gfarm_error_t \<times> 'w gfp_xdr \<times> 'w command_context \<times> 'w) option" where
  "io_server_neutral mal conn cc w =
     (case gfp_xdr_recv mal conn True ''i'' [] w of
        None \<Rightarrow> None
      | Some r \<Rightarrow>
          if rr_error r \<noteq> GFARM_ERR_NO_ERROR \<or> rr_eof r
          then Some (if rr_error r = GFARM_ERR_NO_ERROR then GFARM_ERRMSG_GFSD_ABORTED else rr_error r,
                     rr_conn r, cc_abort cc, rr_world r)
          else (case rr_vals r of
            [Val_int32 cmd] \<Rightarrow>
              if sint cmd = GFS_PROTO_COMMAND_EXITED
              then Some (GFARM_ERR_NO_ERROR, rr_conn r,
                         cc\<lparr>cc_server_state := GFS_COMMAND_SERVER_STATE_EXITED\<rparr>, rr_world r)
              else if sint cmd \<noteq> GFS_PROTO_COMMAND_FD_OUTPUT
              then Some (GFARM_ERRMSG_GFSD_REPLY_UNKNOWN, rr_conn r, cc_abort cc, rr_world r)
              else (case gfp_xdr_recv mal (rr_conn r) True ''ii'' [] (rr_world r) of
                None \<Rightarrow> None
              | Some q \<Rightarrow>
                  if rr_error q \<noteq> GFARM_ERR_NO_ERROR \<or> rr_eof q
                  then Some (if rr_error q = GFARM_ERR_NO_ERROR then GFARM_ERRMSG_GFSD_ABORTED else rr_error q,
                             rr_conn q, cc_abort cc, rr_world q)
                  else (case rr_vals q of
                    [Val_int32 fd, Val_int32 len] \<Rightarrow>
                      Some
                        (if sint fd \<noteq> FDESC_STDOUT \<and> sint fd \<noteq> FDESC_STDERR
                         then (GFARM_ERRMSG_GFSD_DESCRIPTOR_ILLEGAL, rr_conn q, cc_abort cc, rr_world q)
                         else if sint len \<le> 0
                         then (GFARM_ERR_NO_ERROR, rr_conn q,
                               cc_set_iobuffer (sint fd)
                                 (gfarm_iobuffer_set_read_eof (cc_iobuffer cc (sint fd))) cc, rr_world q)
                         else (GFARM_ERR_NO_ERROR, rr_conn q,
                               cc\<lparr>cc_server_state := GFS_COMMAND_SERVER_STATE_OUTPUT,
                                  cc_server_output_fd := sint fd,
                                  cc_server_output_residual := sint len\<rparr>, rr_world q))
                  | _ \<Rightarrow> None))
          | _ \<Rightarrow> None))"

text \<open>A part of the output of the command, read from the connection into its buffer.\<close>

definition io_server_output ::
  "'w command_context \<Rightarrow> 'w \<Rightarrow> (gfarm_error_t \<times> 'w command_context \<times> 'w) option" where
  "io_server_output cc w =
     (let i = cc_server_output_fd cc
      in case gfarm_iobuffer_read (cc_iobuffer cc i) (Some (cc_server_output_residual cc)) w of
           (b1, Some residual, w1) \<Rightarrow>
             let cc1 = (cc_set_iobuffer i b1 cc)\<lparr>cc_server_output_residual := residual\<rparr>;
                 cc2 = (if residual = 0 then cc1\<lparr>cc_server_state := GFS_COMMAND_SERVER_STATE_NEUTRAL\<rparr> else cc1);
                 e = gfarm_iobuffer_get_error b1
             in if e \<noteq> GFARM_ERR_NO_ERROR
                then Some (e, cc_abort (cc_set_iobuffer i
                       (gfarm_iobuffer_set_error (gfarm_iobuffer_set_read_eof b1) GFARM_ERR_NO_ERROR) cc2), w1)
                else if gfarm_iobuffer_is_read_eof b1
                then Some (GFARM_ERRMSG_GFSD_ABORTED, cc_abort cc2, w1)
                else Some (GFARM_ERR_NO_ERROR, cc2, w1)
         | _ \<Rightarrow> None)"

definition io_server ::
  "(u64 \<Rightarrow> bool) \<Rightarrow> 'w gfp_xdr \<Rightarrow> 'w command_context \<Rightarrow> 'w
     \<Rightarrow> (gfarm_error_t \<times> 'w gfp_xdr \<times> 'w command_context \<times> 'w) option" where
  "io_server mal conn cc w =
     (case cc_server_state cc of
        GFS_COMMAND_SERVER_STATE_NEUTRAL \<Rightarrow> io_server_neutral mal conn cc w
      | GFS_COMMAND_SERVER_STATE_OUTPUT \<Rightarrow>
          map_option (\<lambda>(e, cc', w'). (e, conn, cc', w')) (io_server_output cc w)
      | _ \<Rightarrow> Some (GFARM_ERR_NO_ERROR, conn, cc, w))"

text \<open>A message of the client, sent and flushed; a failure aborts the command.\<close>

definition io_client_message ::
  "string \<Rightarrow> xdr_arg list \<Rightarrow> ('w command_context \<Rightarrow> 'w command_context) \<Rightarrow> 'w gfp_xdr \<Rightarrow> 'w command_context
     \<Rightarrow> 'w \<Rightarrow> (gfarm_error_t \<times> 'w gfp_xdr \<times> 'w command_context \<times> 'w) option" where
  "io_client_message format args sent conn cc w =
     (case gfp_xdr_send conn format args w of
        None \<Rightarrow> None
      | Some (conn1, e1, w1) \<Rightarrow>
          if e1 \<noteq> GFARM_ERR_NO_ERROR then Some (e1, conn1, cc_abort cc, w1)
          else (case gfp_xdr_flush conn1 w1 of
                  None \<Rightarrow> None
                | Some (conn2, e2, w2) \<Rightarrow>
                    if e2 \<noteq> GFARM_ERR_NO_ERROR then Some (e2, conn2, cc_abort cc, w2)
                    else Some (GFARM_ERR_NO_ERROR, conn2, sent cc, w2)))"

text \<open>\<open>client_output_residual\<close> is set before the message is sent, \<open>client_state\<close> after it.\<close>

definition io_client ::
  "'w gfp_xdr \<Rightarrow> 'w command_context \<Rightarrow> 'w
     \<Rightarrow> (gfarm_error_t \<times> 'w gfp_xdr \<times> 'w command_context \<times> 'w) option" where
  "io_client conn cc w =
     (case cc_client_state cc of
        GFS_COMMAND_CLIENT_STATE_NEUTRAL \<Rightarrow>
          if cc_pending_signal cc \<noteq> 0 then
            io_client_message ''ii'' [Arg_int GFS_PROTO_COMMAND_SEND_SIGNAL, Arg_int (cc_pending_signal cc)]
              (\<lambda>cc. cc) conn cc w
          else if gfarm_iobuffer_is_writable (cc_iobuffer cc FDESC_STDIN) then
            let n = gfarm_iobuffer_avail_length (cc_iobuffer cc FDESC_STDIN)
            in io_client_message ''iii'' [Arg_int GFS_PROTO_COMMAND_FD_INPUT, Arg_int FDESC_STDIN, Arg_int n]
                 (\<lambda>cc. cc\<lparr>cc_client_state := GFS_COMMAND_CLIENT_STATE_OUTPUT\<rparr>)
                 conn (cc\<lparr>cc_client_output_residual := n\<rparr>) w
          else Some (GFARM_ERR_NO_ERROR, conn, cc, w)
      | GFS_COMMAND_CLIENT_STATE_OUTPUT \<Rightarrow>
          (case gfarm_iobuffer_write (cc_iobuffer cc FDESC_STDIN) (Some (cc_client_output_residual cc)) w of
             (b1, Some residual, w1) \<Rightarrow>
               let cc1 = (cc_set_iobuffer FDESC_STDIN b1 cc)\<lparr>cc_client_output_residual := residual\<rparr>;
                   cc2 = (if residual = 0 then cc1\<lparr>cc_client_state := GFS_COMMAND_CLIENT_STATE_NEUTRAL\<rparr> else cc1);
                   e = gfarm_iobuffer_get_error b1
               in if e \<noteq> GFARM_ERR_NO_ERROR
                  then Some (e, conn, cc_abort (cc_set_iobuffer FDESC_STDIN
                               (gfarm_iobuffer_set_error b1 GFARM_ERR_NO_ERROR) cc2), w1)
                  else Some (GFARM_ERR_NO_ERROR, conn, cc2, w1)
           | _ \<Rightarrow> None))"

definition gfs_client_command_io_fd_set ::
  "(u64 \<Rightarrow> bool) \<Rightarrow> int set \<Rightarrow> int set \<Rightarrow> 'w gfp_xdr \<Rightarrow> 'w command_context \<Rightarrow> 'w
     \<Rightarrow> (gfarm_error_t \<times> 'w gfp_xdr \<times> 'w command_context \<times> 'w) option" where
  "gfs_client_command_io_fd_set mal readable writable conn cc w =
     (let conn_fd = gfp_xdr_fd conn;
          (cc1, w1) = io_stdin cc readable w;
          (cc2, w2) = io_output FDESC_STDOUT cc1 writable w1;
          (cc3, w3) = io_output FDESC_STDERR cc2 writable w2
      in case (if conn_fd \<in> readable then io_server mal conn cc3 w3
               else Some (GFARM_ERR_NO_ERROR, conn, cc3, w3)) of
           None \<Rightarrow> None
         | Some (e, conn4, cc4, w4) \<Rightarrow>
             if e \<noteq> GFARM_ERR_NO_ERROR then Some (e, conn4, cc4, w4)
             else if conn_fd \<in> writable \<and> gfs_client_command_is_running cc4 then io_client conn4 cc4 w4
             else Some (GFARM_ERR_NO_ERROR, conn4, cc4, w4))"

subsection \<open>Rounds\<close>

type_synonym 'w select_call = "fd_wait \<Rightarrow> 'w \<Rightarrow> (int + (int set \<times> int set) option) \<times> 'w"

definition gfs_client_command_io ::
  "(u64 \<Rightarrow> bool) \<Rightarrow> 'w select_call \<Rightarrow> ('w, gfarm_error_t) command_step" where
  "gfs_client_command_io mal select g w =
     (case gfs_context g of
        None \<Rightarrow> None
      | Some cc \<Rightarrow>
          if \<not> gfs_client_command_is_running cc then Some (GFARM_ERR_NO_ERROR, g, w)
          else
            (case gfs_client_command_fd_set (gfp_xdr_fd (gfs_conn g)) cc
                    \<lparr>fd_readable = {}, fd_writable = {}, max_fd = -1\<rparr> w of
               (cc1, f, w1) \<Rightarrow>
                 let g1 = g\<lparr>gfs_context := Some cc1\<rparr>
                 in if max_fd f < 0 then Some (GFARM_ERR_NO_ERROR, g1, w1)
                    else (case select f w1 of
                      (Inl errno, w2) \<Rightarrow>
                        Some (if errno \<noteq> EINTR then errno_error errno else GFARM_ERR_NO_ERROR, g1, w2)
                    | (Inr None, w2) \<Rightarrow> Some (GFARM_ERR_NO_ERROR, g1, w2)
                    | (Inr (Some (readable, writable)), w2) \<Rightarrow>
                        map_option (\<lambda>(e, conn, cc2, w3).
                            (e, g1\<lparr>gfs_conn := conn, gfs_context := Some cc2\<rparr>, w3))
                          (gfs_client_command_io_fd_set mal readable writable (gfs_conn g1) cc1 w2))))"

text \<open>The loops below go on as long as the command runs, so they may not end.\<close>

partial_function (option) command_send_stdin_loop ::
  "('w, gfarm_error_t) command_step \<Rightarrow> byte list \<Rightarrow> ('w, byte list) command_step" where
  "command_send_stdin_loop io data g w =
     (if data = [] then Some ([], g, w)
      else case gfs_context g of
        None \<Rightarrow> None
      | Some cc \<Rightarrow>
          if \<not> gfs_client_command_is_running cc then Some (data, g, w)
          else
            (case gfarm_iobuffer_put (cc_iobuffer cc FDESC_STDIN) data of
               (b, rv) \<Rightarrow>
                 (case io (g\<lparr>gfs_context := Some (cc_set_iobuffer FDESC_STDIN b cc)\<rparr>) w of
                    None \<Rightarrow> None
                  | Some (_, g', w') \<Rightarrow> command_send_stdin_loop io (drop (nat rv) data) g' w')))"

definition gfs_client_command_send_stdin ::
  "('w, gfarm_error_t) command_step \<Rightarrow> byte list \<Rightarrow> ('w, int) command_step" where
  "gfs_client_command_send_stdin io data g w =
     map_option (\<lambda>(residual, g', w'). (int (length data) - int (length residual), g', w'))
       (command_send_stdin_loop io data g w)"

partial_function (option) command_signal_loop ::
  "('w, gfarm_error_t) command_step \<Rightarrow> ('w, gfarm_error_t) command_step" where
  "command_signal_loop io g w =
     (case gfs_context g of
        None \<Rightarrow> None
      | Some cc \<Rightarrow>
          if gfs_client_command_is_running cc \<and> cc_pending_signal cc \<noteq> 0 then
            (case io g w of
               None \<Rightarrow> None
             | Some (e, g', w') \<Rightarrow>
                 if e \<noteq> GFARM_ERR_NO_ERROR then Some (e, g', w') else command_signal_loop io g' w')
          else Some (GFARM_ERR_NO_ERROR, g, w))"

abbreviation (input) ESRCH :: int where "ESRCH \<equiv> 3"

definition gfs_client_command_send_signal ::
  "('w, gfarm_error_t) command_step \<Rightarrow> int \<Rightarrow> ('w, gfarm_error_t) command_step" where
  "gfs_client_command_send_signal io sig g w =
     (case command_signal_loop io g w of
        None \<Rightarrow> None
      | Some (e, g1, w1) \<Rightarrow>
          if e \<noteq> GFARM_ERR_NO_ERROR then Some (e, g1, w1)
          else (case gfs_context g1 of
                  None \<Rightarrow> None
                | Some cc \<Rightarrow>
                    if \<not> gfs_client_command_is_running cc then Some (errno_error ESRCH, g1, w1)
                    else io (cc_update (\<lambda>cc. cc\<lparr>cc_pending_signal := sig\<rparr>) g1) w1))"

partial_function (option) command_wait_loop ::
  "('w, gfarm_error_t) command_step \<Rightarrow> gfarm_error_t \<Rightarrow> ('w, gfarm_error_t) command_step" where
  "command_wait_loop io e g w =
     (case gfs_context g of
        None \<Rightarrow> None
      | Some cc \<Rightarrow>
          if gfs_client_command_is_running cc then
            (case io g w of None \<Rightarrow> None | Some (e', g', w') \<Rightarrow> command_wait_loop io e' g' w')
          else Some (e, g, w))"

text \<open>The rest of the output; \<open>select\<close> is asked for writing only, and an error of it ends the loop.\<close>

partial_function (option) command_flush_loop ::
  "'w select_call \<Rightarrow> 'w command_context \<Rightarrow> 'w \<Rightarrow> ('w command_context \<times> 'w) option" where
  "command_flush_loop select cc w =
     (if \<not> (gfarm_iobuffer_is_writable (cc_iobuffer cc FDESC_STDOUT) \<or>
            gfarm_iobuffer_is_writable (cc_iobuffer cc FDESC_STDERR)) then Some (cc, w)
      else
        (case fd_set_output FDESC_STDOUT cc \<lparr>fd_readable = {}, fd_writable = {}, max_fd = -1\<rparr> w of
           (cc1, f1, w1) \<Rightarrow>
             (case fd_set_output FDESC_STDERR cc1 f1 w1 of
                (cc2, f2, w2) \<Rightarrow>
                  if max_fd f2 < 0 then command_flush_loop select cc2 w2
                  else (case select f2 w2 of
                    (Inl errno, w3) \<Rightarrow>
                      if errno \<noteq> EINTR then Some (cc2, w3) else command_flush_loop select cc2 w3
                  | (Inr None, w3) \<Rightarrow> command_flush_loop select cc2 w3
                  | (Inr (Some (_, writable)), w3) \<Rightarrow>
                      (case io_output FDESC_STDOUT cc2 writable w3 of
                         (cc4, w4) \<Rightarrow>
                           (case io_output FDESC_STDERR cc4 writable w4 of
                              (cc5, w5) \<Rightarrow> command_flush_loop select cc5 w5))))))"

subsection \<open>The whole of a command\<close>

text \<open>A function on the struct behind \<open>gfs_server\<close> and the world.\<close>

definition gfs_command_step :: "nat \<Rightarrow> ('w, 'a) command_step \<Rightarrow> ('w, 'a) gfs_call" where
  "gfs_command_step gfs_server step =
     gfs_with gfs_server (\<lambda>g s.
       case step g (gfs_world s) of
         None \<Rightarrow> None
       | Some (v, g', w) \<Rightarrow> call_return v ((gfs_store gfs_server g' s)\<lparr>gfs_world := w\<rparr>))"

text \<open>
  The end of a command: \<open>set_blocking\<close> is the \<open>fcntl\<close> that makes the descriptor blocking again, \<open>Some errno\<close> when
  it fails. The results are the signal, the status and the flag, as they were received.
\<close>

definition command_finish ::
  "('w, gfarm_error_t) command_step \<Rightarrow> 'w select_call \<Rightarrow> (int \<Rightarrow> 'w \<Rightarrow> int option \<times> 'w)
     \<Rightarrow> ('w, gfarm_error_t + unit) command_step" where
  "command_finish io select set_blocking g w =
     (case command_wait_loop io GFARM_ERR_NO_ERROR g w of
        None \<Rightarrow> None
      | Some (_, g1, w1) \<Rightarrow>
          (case gfs_context g1 of
             None \<Rightarrow> None
           | Some cc \<Rightarrow>
               (case command_flush_loop select cc w1 of
                  None \<Rightarrow> None
                | Some (_, w2) \<Rightarrow>
                    let g2 = g1\<lparr>gfs_context := None\<rparr>
                    in (case set_blocking (gfp_xdr_fd (gfs_conn g2)) w2 of
                          (Some errno, w3) \<Rightarrow> Some (Inl (errno_error errno), g2, w3)
                        | (None, w3) \<Rightarrow> Some (Inr (), g2, w3)))))"

definition gfs_client_command_result ::
  "(u64 \<Rightarrow> bool) \<Rightarrow> ('w, gfarm_error_t) command_step \<Rightarrow> 'w select_call \<Rightarrow> (int \<Rightarrow> 'w \<Rightarrow> int option \<times> 'w)
     \<Rightarrow> nat \<Rightarrow> ('w, xdr_val list) gfs_call" where
  "gfs_client_command_result mal io select set_blocking gfs_server =
     call_bind (gfs_command_step gfs_server (command_finish io select set_blocking))
       (\<lambda>r. case r of
          Inl e \<Rightarrow> call_fail e
        | Inr _ \<Rightarrow> gfs_client_rpc mal gfs_server False GFS_PROTO_COMMAND_EXIT_STATUS ''/iii'' [] [])"

text \<open>
  The statics that keep what the environment says of the X window system. \<open>x_name_freed\<close> says that the block
  \<open>xdisplay_name_cache\<close> points to has been freed: to read it is undefined.
\<close>

record x11_cache =
  xdisplay_name_cache :: "byte list option"
  x_name_freed :: bool
  xdisplay_env_cache :: "byte list option"
  xauth_cached :: bool
  xauth_cache :: "byte list option"

abbreviation (input) GFS_CLIENT_COMMAND_FLAG_STDIN_EOF :: u32 where "GFS_CLIENT_COMMAND_FLAG_STDIN_EOF \<equiv> 1"
abbreviation (input) GFS_CLIENT_COMMAND_FLAG_SHELL_COMMAND :: u32 where "GFS_CLIENT_COMMAND_FLAG_SHELL_COMMAND \<equiv> 2"
abbreviation (input) GFS_CLIENT_COMMAND_FLAG_XAUTHCOPY :: u32 where "GFS_CLIENT_COMMAND_FLAG_XAUTHCOPY \<equiv> 0x20"
abbreviation (input) GFS_CLIENT_COMMAND_FLAG_X11MASK :: u32 where "GFS_CLIENT_COMMAND_FLAG_X11MASK \<equiv> 0x30"

abbreviation chars :: "string \<Rightarrow> byte list" where "chars \<equiv> map of_char"

text \<open>
  What this needs of the environment: \<open>DISPLAY\<close>, the name of this host, the outcomes of the allocations, and
  \<open>xauth\<close>, which answers \<open>None\<close> when it cannot be run and else the line it printed, if any.
\<close>

record x11_env =
  env_DISPLAY :: "byte list option"
  env_self_name :: "byte list"
  env_malloc_name :: bool
  env_malloc_env :: bool
  env_malloc_command :: bool
  env_xauth :: "byte list \<Rightarrow> byte list option option"
  env_strdup_line :: bool

definition xdisplay_setup :: "x11_env \<Rightarrow> u32 \<Rightarrow> x11_cache \<Rightarrow> gfarm_error_t \<times> x11_cache" where
  "xdisplay_setup env flags x =
     (case env_DISPLAY env of
        None \<Rightarrow> (GFARM_ERR_NO_ERROR, x)
      | Some dpy \<Rightarrow>
          if xdisplay_name_cache x \<noteq> None \<or> and flags GFS_CLIENT_COMMAND_FLAG_X11MASK = 0
          then (GFARM_ERR_NO_ERROR, x)
          else
            let name = (if take 1 dpy = chars '':'' then env_self_name env @ dpy
                        else if take 5 dpy = chars ''unix:'' then env_self_name env @ drop 4 dpy
                        else dpy)
            in if \<not> env_malloc_name env \<or> \<not> env_malloc_env env then (GFARM_ERR_NO_MEMORY, x)
               else (GFARM_ERR_NO_ERROR,
                     x\<lparr>xdisplay_name_cache := Some name, x_name_freed := False,
                       xdisplay_env_cache := Some (chars ''DISPLAY='' @ name)\<rparr>))"

definition xauth_setup :: "x11_env \<Rightarrow> u32 \<Rightarrow> x11_cache \<Rightarrow> (gfarm_error_t \<times> x11_cache) option" where
  "xauth_setup env flags x =
     (if and flags GFS_CLIENT_COMMAND_FLAG_X11MASK = GFS_CLIENT_COMMAND_FLAG_XAUTHCOPY \<and> \<not> xauth_cached x then
        (case xdisplay_name_cache x of
           None \<Rightarrow> Some (GFARM_ERR_NO_ERROR, x)
         | Some name \<Rightarrow>
             if x_name_freed x then None
             else if \<not> env_malloc_command env then Some (GFARM_ERR_NO_MEMORY, x)
             else (case env_xauth env name of
               None \<Rightarrow> Some (GFARM_ERR_NO_MEMORY, x)
             | Some None \<Rightarrow> Some (GFARM_ERR_NO_ERROR, x\<lparr>xauth_cached := True\<rparr>)
             | Some (Some line) \<Rightarrow>
                 if env_strdup_line env
                 then Some (GFARM_ERR_NO_ERROR, x\<lparr>xauth_cache := Some line, xauth_cached := True\<rparr>)
                 else Some (GFARM_ERR_NO_MEMORY, x\<lparr>xauth_cache := None, x_name_freed := True\<rparr>)))
      else Some (GFARM_ERR_NO_ERROR, x))"

text \<open>Strings sent one after the other, without a test of the connection.\<close>

fun command_send_strings :: "nat \<Rightarrow> byte list list \<Rightarrow> ('w, unit) gfs_call" where
  "command_send_strings gfs_server [] = call_return ()"
| "command_send_strings gfs_server (str # strs) =
     gfs_with gfs_server (\<lambda>g s.
       case gfp_xdr_send (gfs_conn g) ''s'' [Arg_ptr str] (gfs_world s) of
         None \<Rightarrow> None
       | Some (conn, e, w) \<Rightarrow>
           let s1 = gfs_store_conn gfs_server conn w s
           in if e \<noteq> GFARM_ERR_NO_ERROR then call_fail e s1 else command_send_strings gfs_server strs s1)"

text \<open>
  The request and the reply, which is the process identifier. \<open>argv\<close> and \<open>envp\<close> are the arrays, \<open>NULL\<close> being an
  empty one; \<open>x\<close> has the caches after the setup above.
\<close>

definition command_flags :: "bool \<Rightarrow> u32 \<Rightarrow> u32" where
  "command_flags xauth_copy flags =
     or (if and flags GFS_CLIENT_COMMAND_FLAG_SHELL_COMMAND \<noteq> 0 then GFS_CLIENT_COMMAND_FLAG_SHELL_COMMAND else 0)
        (if xauth_copy then GFS_CLIENT_COMMAND_FLAG_XAUTHCOPY else 0)"

definition command_exchange ::
  "(u64 \<Rightarrow> bool) \<Rightarrow> x11_cache \<Rightarrow> byte list \<Rightarrow> byte list list \<Rightarrow> byte list list \<Rightarrow> u32 \<Rightarrow> nat
     \<Rightarrow> ('w, xdr_val list) gfs_call" where
  "command_exchange mal x path argv envp flags gfs_server =
     (let xenv = (if and flags GFS_CLIENT_COMMAND_FLAG_X11MASK \<noteq> 0
                  then (case xdisplay_env_cache x of None \<Rightarrow> [] | Some v \<Rightarrow> [v]) else []);
          xauth = (if and flags GFS_CLIENT_COMMAND_FLAG_X11MASK = GFS_CLIENT_COMMAND_FLAG_XAUTHCOPY
                   then (case xauth_cache x of None \<Rightarrow> [] | Some v \<Rightarrow> [v]) else [])
      in call_bind (gfs_client_rpc_request gfs_server GFS_PROTO_COMMAND ''siii''
                     [Arg_ptr path, Arg_int (int (length argv)), Arg_int (int (length envp + length xenv)),
                      Arg_int (sint (command_flags (xauth \<noteq> []) flags))])
           (\<lambda>_. call_bind (command_send_strings gfs_server (argv @ envp @ xenv @ xauth))
             (\<lambda>_. gfs_client_rpc_result mal gfs_server True ''i'' [])))"

text \<open>
  The work area: \<open>sndbuf\<close> and \<open>rcvbuf\<close> are what \<open>getsockopt\<close> says of the sizes, \<open>alloc\<close> makes a buffer of a
  given size, \<open>None\<close> when there is no memory (which is not tested). \<open>fd_read\<close> and \<open>fd_write\<close> are the hooks
  of \<open>io_fd.c\<close> for the descriptors of this process.
\<close>

definition command_context_init ::
  "(int \<Rightarrow> 'w iobuffer option) \<Rightarrow> int option \<Rightarrow> int option \<Rightarrow> 'w read_hook \<Rightarrow> 'w write_hook \<Rightarrow> u32 \<Rightarrow> int
     \<Rightarrow> 'w gfp_xdr \<Rightarrow> 'w command_context option" where
  "command_context_init alloc sndbuf rcvbuf fd_read fd_write flags pid conn =
     (let size = (\<lambda>opt. case opt of None \<Rightarrow> 0x4000 | Some n \<Rightarrow> n)
      in case (alloc (size sndbuf), alloc (size rcvbuf), alloc (size rcvbuf)) of
           (Some b0, Some b1, Some b2) \<Rightarrow>
             let b0' = gfarm_iobuffer_set_nonblocking_write_xxx
                         (gfarm_iobuffer_set_read b0 fd_read 0 FDESC_STDIN) conn;
                 b1' = gfarm_iobuffer_set_write
                         (gfarm_iobuffer_set_nonblocking_read_xxx b1 conn) fd_write 0 FDESC_STDOUT;
                 b2' = gfarm_iobuffer_set_write
                         (gfarm_iobuffer_set_nonblocking_read_xxx b2 conn) fd_write 0 FDESC_STDERR;
                 b0'' = (if and flags GFS_CLIENT_COMMAND_FLAG_STDIN_EOF \<noteq> 0
                         then gfarm_iobuffer_set_read_eof b0' else b0')
             in Some \<lparr>cc_iobuffer = (\<lambda>i. if i = FDESC_STDIN then b0'' else if i = FDESC_STDOUT then b1' else b2'),
                      cc_server_state = GFS_COMMAND_SERVER_STATE_NEUTRAL, cc_server_output_fd = 0,
                      cc_server_output_residual = 0, cc_client_state = GFS_COMMAND_CLIENT_STATE_NEUTRAL,
                      cc_client_output_residual = 0, cc_pid = pid, cc_pending_signal = 0\<rparr>
         | _ \<Rightarrow> None)"

text \<open>
  \<open>malc\<close> is the outcome of the allocation of the work area, \<open>set_nonblocking\<close> the \<open>fcntl\<close>, \<open>init\<close> the function
  above with its arguments. The outcome is the process identifier.
\<close>

definition gfs_client_command_request ::
  "(u64 \<Rightarrow> bool) \<Rightarrow> bool \<Rightarrow> (int \<Rightarrow> 'w \<Rightarrow> int option \<times> 'w) \<Rightarrow> (u32 \<Rightarrow> int \<Rightarrow> 'w gfp_xdr \<Rightarrow> 'w command_context option)
     \<Rightarrow> x11_env \<Rightarrow> x11_cache \<Rightarrow> byte list \<Rightarrow> byte list list \<Rightarrow> byte list list \<Rightarrow> u32 \<Rightarrow> nat
     \<Rightarrow> 'w gfs_state \<Rightarrow> (((gfarm_error_t + int) \<times> 'w gfs_state) \<times> x11_cache) option" where
  "gfs_client_command_request mal malc set_nonblocking init env x path argv envp flags gfs_server s =
     (case xdisplay_setup env flags x of
        (e1, x1) \<Rightarrow>
          if e1 \<noteq> GFARM_ERR_NO_ERROR then Some ((Inl e1, s), x1)
          else (case xauth_setup env flags x1 of
            None \<Rightarrow> None
          | Some (e2, x2) \<Rightarrow>
              if e2 \<noteq> GFARM_ERR_NO_ERROR then Some ((Inl e2, s), x2)
              else map_option (\<lambda>r. (r, x2))
                (call_bind (command_exchange mal x2 path argv envp flags gfs_server)
                   (\<lambda>vals. case vals of
                      [Val_int32 pid] \<Rightarrow>
                        gfs_with gfs_server (\<lambda>g s.
                          if \<not> malc
                          then call_fail GFARM_ERR_NO_MEMORY (gfs_store gfs_server (g\<lparr>gfs_context := None\<rparr>) s)
                          else (case set_nonblocking (gfp_xdr_fd (gfs_conn g)) (gfs_world s) of
                            (Some errno, w) \<Rightarrow>
                              call_fail (errno_error errno)
                                ((gfs_store gfs_server (g\<lparr>gfs_context := None\<rparr>) s)\<lparr>gfs_world := w\<rparr>)
                          | (None, w) \<Rightarrow>
                              (case init flags (sint pid) (gfs_conn g) of
                                 None \<Rightarrow> None
                               | Some cc \<Rightarrow>
                                   call_return (sint pid)
                                     ((gfs_store gfs_server (g\<lparr>gfs_context := Some cc\<rparr>) s)\<lparr>gfs_world := w\<rparr>))))
                    | _ \<Rightarrow> call_undefined) s)))"

text \<open>The whole: the error is that of the last round, or else that of the end.\<close>

definition gfs_client_command ::
  "('w gfs_state \<Rightarrow> (((gfarm_error_t + int) \<times> 'w gfs_state) \<times> x11_cache) option)
     \<Rightarrow> ('w, gfarm_error_t) command_step \<Rightarrow> ('w, xdr_val list) gfs_call \<Rightarrow> nat
     \<Rightarrow> 'w gfs_state \<Rightarrow> (((gfarm_error_t + xdr_val list) \<times> 'w gfs_state) \<times> x11_cache) option" where
  "gfs_client_command request io command_result gfs_server s =
     (case request s of
        None \<Rightarrow> None
      | Some ((Inl e, s1), x1) \<Rightarrow> Some ((Inl e, s1), x1)
      | Some ((Inr _, s1), x1) \<Rightarrow>
          map_option (\<lambda>r. (r, x1))
            (call_bind (gfs_command_step gfs_server (command_wait_loop io GFARM_ERR_NO_ERROR))
               (\<lambda>e s2. case command_result s2 of
                  None \<Rightarrow> None
                | Some (r, s3) \<Rightarrow> Some (if e \<noteq> GFARM_ERR_NO_ERROR then Inl e else r, s3)) s1))"

end
