(* ===== verification/Gfs_Spec.thy ===== *)
theory Gfs_Spec
  imports Gfs_Command Gfm_Spec
begin

text \<open>
  What the calls of the client of the file servers do on a connection that is ready: its entry is in use in
  a sound cache and its buffers are in order.
\<close>

subsection \<open>Ready connections\<close>

definition gfs_ready :: "nat \<Rightarrow> fd_world gfs_state \<Rightarrow> bool" where
  "gfs_ready p s \<longleftrightarrow> (\<exists>xs. cache_inv (gfs_server_cache s) xs) \<and> in_use (gfs_server_cache s) p
     \<and> (\<exists>g. gfs_server_at s p = Some g \<and> xdr_ready (gfs_conn g) (gfs_world s))"

definition gfs_outgoing :: "nat \<Rightarrow> fd_world gfs_state \<Rightarrow> byte list" where
  "gfs_outgoing p s =
     (case gfs_server_at s p of None \<Rightarrow> [] | Some g \<Rightarrow> to_peer (gfs_conn g) (gfs_world s))"

definition gfs_incoming :: "nat \<Rightarrow> fd_world gfs_state \<Rightarrow> byte list" where
  "gfs_incoming p s =
     (case gfs_server_at s p of None \<Rightarrow> [] | Some g \<Rightarrow> from_peer (gfs_conn g) (gfs_world s))"

lemma gfs_ready_conn:
  assumes "gfs_ready p s"
  obtains g where "gfs_server_at s p = Some g" "xdr_ready (gfs_conn g) (gfs_world s)"
    "gfs_outgoing p s = to_peer (gfs_conn g) (gfs_world s)"
    "gfs_incoming p s = from_peer (gfs_conn g) (gfs_world s)"
  using assms by (auto simp: gfs_ready_def gfs_outgoing_def gfs_incoming_def)

lemma gfs_server_at_store [simp]: "gfs_server_at (gfs_store p g s) p = Some g"
  by (simp add: gfs_server_at_def gfs_store_def gfp_cached_connection_get_data_def gfp_cached_connection_set_data_def)

lemma gfs_server_at_world [simp]: "gfs_server_at (s\<lparr>gfs_world := w\<rparr>) p = gfs_server_at s p"
  by (simp add: gfs_server_at_def)

lemma gfs_store_world [simp]: "gfs_world (gfs_store p g s) = gfs_world s"
  by (simp add: gfs_store_def)

text \<open>A store through the pointer keeps the connection ready, whatever it changes beside the buffers.\<close>

lemma gfs_store_ready:
  assumes "gfs_ready p s" and "xdr_ready (gfs_conn g) w"
  shows "gfs_ready p ((gfs_store p g s)\<lparr>gfs_world := w\<rparr>)"
proof -
  obtain xs where inv: "cache_inv (gfs_server_cache s) xs" "in_use (gfs_server_cache s) p"
    using assms(1) by (auto simp: gfs_ready_def)
  have "in_use (gfp_cached_connection_set_data (gfs_server_cache s) p (Some g)) p"
    using inv(2) by (simp add: in_use_def gfp_cached_connection_set_data_def)
  then show ?thesis using set_data_inv [OF inv(1), of p "Some g"] assms(2)
    by (auto simp: gfs_ready_def gfs_store_def gfs_server_at_def gfp_cached_connection_get_data_def
        gfp_cached_connection_set_data_def)
qed

lemma gfs_used_ready:
  assumes "gfs_ready p s"
  shows "\<exists>s'. gfs_client_connection_used p s = Some s' \<and> gfs_ready p s'
    \<and> gfs_server_at s' p = gfs_server_at s p \<and> gfs_world s' = gfs_world s"
proof -
  obtain xs g where inv: "cache_inv (gfs_server_cache s) xs" and p: "p \<in> allocated (gfs_server_cache s)"
    and g: "gfs_server_at s p = Some g" "xdr_ready (gfs_conn g) (gfs_world s)"
    using assms by (auto simp: gfs_ready_def in_use_def)
  from used_spec [OF inv p] obtain c where
    c: "gfp_cached_connection_used (gfs_server_cache s) p = Some c"
      "cache_inv c (if p \<in> set xs then p # remove1 p xs else xs)" "allocated c = allocated (gfs_server_cache s)"
      "cconns c = cconns (gfs_server_cache s)" "refs (lru_list c) = refs (lru_list (gfs_server_cache s))"
    by blast
  let ?s = "s\<lparr>gfs_server_cache := c\<rparr>"
  have at: "gfs_server_at ?s p = gfs_server_at s p"
    using c by (simp add: gfs_server_at_def gfp_cached_connection_get_data_def)
  moreover have "gfs_ready p ?s"
    using c(2,3,5) at g assms by (auto simp: gfs_ready_def in_use_refs)
  ultimately show ?thesis using c(1) by (auto simp: gfs_client_connection_used_def)
qed

lemma gfs_outcome_ok [simp]: "gfs_outcome p GFARM_ERR_NO_ERROR v s = Some (Inr v, s)"
  by (simp add: gfs_outcome_def gfs_purge_on_error_def IS_CONNECTION_ERROR_def call_return_def)

subsection \<open>Remote procedure calls\<close>

text \<open>
  A call whose reply is there: the request is appended to what the server gets, the reply is taken from what it
  has sent, and nothing of the connection but its buffers changes.
\<close>

lemma gfs_rpc_ready:
  assumes "gfs_ready p s" and "malloc_generous mal" and "xdr_encode fmt args = Some req"
    and "xdr_encode rfmt rargs = Some bs" and "xdr_decoded rfmt rargs szs = Some vals"
    and "gfs_incoming p s = reply_bytes x bs @ later" and "gfs_server_at s p = Some g"
  shows "\<exists>s' conn. gfs_client_rpc mal p just command (fmt @ CHR ''/'' # map recv_char rfmt) args szs s
      = Some (if x = 0 then Inr vals else Inl (sint x), s') \<and> gfs_ready p s'
    \<and> gfs_server_at s' p = Some (g\<lparr>gfs_conn := conn\<rparr>)
    \<and> gfs_outgoing p s' = gfs_outgoing p s @ command_bytes command @ req
    \<and> fw_out (gfs_world s') = gfs_outgoing p s' \<and> gfs_incoming p s' = later"
proof -
  from gfs_ready_conn [OF assms(1)] assms(7) have
    g: "xdr_ready (gfs_conn g) (gfs_world s)" "gfs_outgoing p s = to_peer (gfs_conn g) (gfs_world s)"
      "gfs_incoming p s = from_peer (gfs_conn g) (gfs_world s)" by (metis option.inject)+
  from gfs_used_ready [OF assms(1)] obtain s1 where
    1: "gfs_client_connection_used p s = Some s1" "gfs_ready p s1"
      "gfs_server_at s1 p = Some g" "gfs_world s1 = gfs_world s" using assms(7) by auto
  have inc: "from_peer (gfs_conn g) (gfs_world s) = int32_chunk x @ (if x = 0 then bs @ later else later)"
    using g(3) assms(6) by (simp add: reply_split)
  from vrpc_ready [OF g(1) assms(2-5) inc, of just command] obtain r where
    r: "gfp_xdr_vrpc mal (gfs_conn g) just command (fmt @ CHR ''/'' # map recv_char rfmt) args szs
          (gfs_world s) = Some r" "rpc_error r = GFARM_ERR_NO_ERROR" "rpc_errcode r = Some x"
      "rpc_vals r = (if x = 0 then vals else [])" "xdr_ready (rpc_conn r) (rpc_world r)"
      "to_peer (rpc_conn r) (rpc_world r) = gfs_outgoing p s @ command_bytes command @ req"
      "fw_out (rpc_world r) = gfs_outgoing p s @ command_bytes command @ req"
      "from_peer (rpc_conn r) (rpc_world r) = later" using g(2) by auto
  let ?g = "g\<lparr>gfs_conn := rpc_conn r\<rparr>"
  let ?s = "(gfs_store p ?g s1)\<lparr>gfs_world := rpc_world r\<rparr>"
  have st: "gfs_store_conn p (rpc_conn r) (rpc_world r) s1 = ?s" using 1(3) by (simp add: gfs_store_conn_def)
  have "gfs_rpc_end p r s1 = Some (if x = 0 then Inr vals else Inl (sint x), ?s)"
    using r(2-4) by (simp add: gfs_rpc_end_def st call_bind_def call_fail_def call_return_def sint_eq_0)
  then have run: "gfs_client_rpc mal p just command (fmt @ CHR ''/'' # map recv_char rfmt) args szs s
      = Some (if x = 0 then Inr vals else Inl (sint x), ?s)"
    using 1(1,3,4) r(1) by (simp add: gfs_client_rpc_def gfs_with_def)
  have "gfs_ready p ?s" by (rule gfs_store_ready [OF 1(2)]) (simp add: r(5))
  with run r(6-8) show ?thesis by (auto simp: gfs_outgoing_def gfs_incoming_def)
qed

lemma scast_above:
  assumes "unat (sz :: u64) < 2 ^ 31"
  shows "sz < (scast (n :: u32) :: u64) \<longleftrightarrow> sint n < 0 \<or> int (unat sz) < sint n"
proof -
  have r: "- (2 ^ 31) \<le> sint n" "sint n < 2 ^ 31" using sint_ge [of n] sint_lt [of n] by simp_all
  have u: "uint (scast n :: u64) = sint n mod 2 ^ 64"
    unfolding scast_eq uint_word_of_int by simp
  have "uint (scast n :: u64) = (if sint n < 0 then sint n + 2 ^ 64 else sint n)"
  proof (cases "sint n < 0")
    case True
    have "sint n mod 2 ^ 64 = (sint n + 2 ^ 64) mod 2 ^ 64" by simp
    also have "\<dots> = sint n + 2 ^ 64" by (rule mod_pos_pos_trivial) (use r True in simp_all)
    finally show ?thesis using u True by simp
  next
    case False
    have "sint n mod 2 ^ 64 = sint n" by (rule mod_pos_pos_trivial) (use r False in simp_all)
    then show ?thesis using u False by simp
  qed
  moreover have i: "int (unat sz) = uint sz" by simp
  moreover have "int (unat sz) < int (2 ^ 31)" using assms by (simp only: of_nat_less_iff)
  then have "uint sz < 2 ^ 31" unfolding i by simp
  ultimately show ?thesis unfolding word_less_def using assms r by (auto split: if_splits)
qed

text \<open>C28: reading and writing at a file server. The request goes out with its arguments and data; of the reply,
  a read yields the bytes sent, unless there are more than were asked for, and a write the number accepted,
  unless it is negative or more than was sent; an error number is passed on. In each case the reply is
  consumed and the connection stays ready.\<close>

theorem gfs_transfers:
  assumes ready: "gfs_ready p s" and mal: "malloc_generous mal" and sz: "unat sz < 2 ^ 31"
  shows "(\<forall>x data later. length data < 2 ^ 31
       \<and> gfs_incoming p s = reply_bytes x (int32_chunk (word_of_nat (length data)) @ data) @ later \<longrightarrow>
       (\<exists>s'. gfs_client_pread mal p fd sz off s
           = Some (if x \<noteq> 0 then Inl (sint x)
                   else if unat sz < length data then Inl GFARM_ERRMSG_GFS_PROTO_PREAD_PROTOCOL
                   else Inr (word_of_nat (length data), data), s')
         \<and> gfs_ready p s' \<and> gfs_incoming p s' = later
         \<and> gfs_outgoing p s' = gfs_outgoing p s @ command_bytes GFS_PROTO_PREAD
             @ int32_chunk (word_of_int fd) @ int32_chunk (ucast sz)
             @ bytes_of 4 (htonl (ucast (drop_bit 32 off))) @ bytes_of 4 (htonl (ucast off))))
   \<and> (\<forall>x n later. unat sz \<le> length buffer
       \<and> gfs_incoming p s = reply_bytes x (int32_chunk n) @ later \<longrightarrow>
       (\<exists>s'. gfs_client_pwrite mal p fd buffer sz off s
           = Some (if x \<noteq> 0 then Inl (sint x)
                   else if sint n < 0 \<or> int (unat sz) < sint n then Inl GFARM_ERRMSG_GFS_PROTO_PWRITE_PROTOCOL
                   else Inr (scast n), s')
         \<and> gfs_ready p s' \<and> gfs_incoming p s' = later
         \<and> gfs_outgoing p s' = gfs_outgoing p s @ command_bytes GFS_PROTO_PWRITE
             @ int32_chunk (word_of_int fd) @ int32_chunk (ucast sz) @ take (unat sz) buffer
             @ bytes_of 4 (htonl (ucast (drop_bit 32 off))) @ bytes_of 4 (htonl (ucast off))))"
proof (intro conjI allI impI, goal_cases)
  case (1 x data later)
  obtain g where g: "gfs_server_at s p = Some g" using ready by (auto simp: gfs_ready_def)
  let ?args = "[Arg_int fd, Arg_int (sint (ucast sz :: u32)), Arg_int64 off]"
  let ?bs = "int32_chunk (word_of_nat (length data)) @ data"
  let ?z = "word_of_nat (length data) :: u64"
  have z: "unat ?z = length data" using 1 by (simp add: unsigned_of_nat take_bit_nat_eq_self)
  have e1: "xdr_encode ''iil'' ?args = Some (int32_chunk (word_of_int fd) @ int32_chunk (ucast sz)
      @ bytes_of 4 (htonl (ucast (drop_bit 32 off))) @ bytes_of 4 (htonl (ucast off)))"
    by (simp add: xdr_chunks.simps Let_def)
  have "block_chunk (ucast ?z) data = Some data"
    using block_chunk_of_nat [of "length data" data] 1 z by (simp add: ucast_of_nat)
  then have e2: "xdr_encode ''b'' [Arg_size ?z, Arg_ptr data] = Some ?bs"
    by (simp add: xdr_chunks.simps Let_def ucast_of_nat z)
  have e3: "xdr_decoded ''b'' [Arg_size ?z, Arg_ptr data] [sz]
      = Some [Val_size ?z, Val_block (take (unat sz) data)]"
    using 1 z sz by (simp add: xdr_value_def min_def)
  from gfs_rpc_ready [OF ready mal e1 e2 e3 conjunct2 [OF 1] g, of False GFS_PROTO_PREAD] obtain s' where
    r: "gfs_client_rpc mal p False GFS_PROTO_PREAD ''iil/b'' ?args [sz] s
        = Some (if x = 0 then Inr [Val_size ?z, Val_block (take (unat sz) data)] else Inl (sint x), s')"
      "gfs_ready p s'" "gfs_incoming p s' = later"
      "gfs_outgoing p s' = gfs_outgoing p s @ command_bytes GFS_PROTO_PREAD @ int32_chunk (word_of_int fd)
        @ int32_chunk (ucast sz) @ bytes_of 4 (htonl (ucast (drop_bit 32 off))) @ bytes_of 4 (htonl (ucast off))"
    by (auto simp: recv_char_def)
  have "sz < ?z \<longleftrightarrow> unat sz < length data" by (simp add: word_less_nat_alt z)
  with r show ?case
    by (intro exI [of _ s']) (simp add: gfs_client_pread_def call_bind_def call_return_def call_fail_def)
next
  case (2 x n later)
  obtain g where g: "gfs_server_at s p = Some g" using ready by (auto simp: gfs_ready_def)
  let ?args = "[Arg_int fd, Arg_size sz, Arg_ptr buffer, Arg_int64 off]"
  have "block_chunk (ucast sz) buffer = Some (take (unat sz) buffer)"
    using block_chunk_of_nat [of "unat sz" buffer] 2 sz unfolding ucast_of_nat by blast
  then have e1: "xdr_encode ''ibl'' ?args = Some (int32_chunk (word_of_int fd) @ int32_chunk (ucast sz)
      @ take (unat sz) buffer @ bytes_of 4 (htonl (ucast (drop_bit 32 off))) @ bytes_of 4 (htonl (ucast off)))"
    by (simp add: xdr_chunks.simps Let_def)
  have e2: "xdr_encode ''i'' [Arg_int (sint n)] = Some (int32_chunk n)" by (simp add: xdr_chunks.simps)
  have e3: "xdr_decoded ''i'' [Arg_int (sint n)] [] = Some [Val_int32 n]" by (simp add: xdr_value_def)
  from gfs_rpc_ready [OF ready mal e1 e2 e3 conjunct2 [OF 2] g, of False GFS_PROTO_PWRITE] obtain s' where
    r: "gfs_client_rpc mal p False GFS_PROTO_PWRITE ''ibl/i'' ?args [] s
        = Some (if x = 0 then Inr [Val_int32 n] else Inl (sint x), s')"
      "gfs_ready p s'" "gfs_incoming p s' = later"
      "gfs_outgoing p s' = gfs_outgoing p s @ command_bytes GFS_PROTO_PWRITE @ int32_chunk (word_of_int fd)
        @ int32_chunk (ucast sz) @ take (unat sz) buffer @ bytes_of 4 (htonl (ucast (drop_bit 32 off)))
        @ bytes_of 4 (htonl (ucast off))"
    by (auto simp: recv_char_def)
  have "sz < (scast n :: u64) \<longleftrightarrow> sint n < 0 \<or> int (unat sz) < sint n"
    using scast_above [of sz n] sz by simp
  with r show ?case
    by (intro exI [of _ s']) (simp add: gfs_client_pwrite_def call_bind_def call_return_def call_fail_def)
qed

text \<open>A ready connection on which the peer has sent \<open>bs\<close>.\<close>

lemma gfs_ready_state: "\<exists>s. gfs_ready 5 s \<and> gfs_incoming 5 s = bs \<and> gfs_outgoing 5 s = []"
proof -
  obtain c1 :: "fd_world gfs_connection conn_cache" and ys where i1: "cache_inv c1 ys" "in_use c1 5"
    using one_entry by blast
  define g :: "fd_world gfs_connection" where "g = \<lparr>gfs_conn = sample_conn, gfs_hostname = [0x68], gfs_port = 600,
    gfs_auth_method = 0, gfs_is_local = True, gfs_pid = 0, gfs_opened = 0, gfs_context = None\<rparr>"
  define s where "s = \<lparr>gfs_server_cache = gfp_cached_connection_set_data c1 5 (Some g),
      gfs_world = peer_world bs, gfs_client_hook = None, self_ips = None\<rparr>"
  have at: "gfs_server_at s 5 = Some g"
    by (simp add: s_def gfs_server_at_def gfp_cached_connection_get_data_def gfp_cached_connection_set_data_def)
  note x = new_socket_ready [OF sample_conn_new peer_world_calm, of bs]
  have "gfs_ready 5 s"
    using set_data_inv [OF i1(1)] at x i1(2)
    by (auto simp: gfs_ready_def s_def g_def in_use_def gfp_cached_connection_set_data_def)
  moreover have "gfs_incoming 5 s = bs" "gfs_outgoing 5 s = []"
    using at x by (simp_all add: gfs_incoming_def gfs_outgoing_def s_def g_def peer_world_def)
  ultimately show ?thesis by blast
qed

theorem gfs_transfers_witness:
  "\<exists>s s' (t :: fd_world gfs_state) t'. gfs_client_pread (\<lambda>_. True) 5 7 100 0 s = Some (Inr (2, [104, 105]), s')
     \<and> gfs_incoming 5 s' = [9]
     \<and> gfs_client_pwrite (\<lambda>_. True) 5 7 [1, 2] 2 0 t = Some (Inl GFARM_ERRMSG_GFS_PROTO_PWRITE_PROTOCOL, t')"
proof -
  have mal: "malloc_generous (\<lambda>_. True)" by (simp add: malloc_generous_def)
  obtain s where s: "gfs_ready 5 s"
    "gfs_incoming 5 s = reply_bytes 0 (int32_chunk (word_of_nat (length [104, 105 :: byte])) @ [104, 105]) @ [9]"
    using gfs_ready_state by blast
  obtain t where t: "gfs_ready 5 t" "gfs_incoming 5 t = reply_bytes 0 (int32_chunk 3) @ []"
    using gfs_ready_state by blast
  have sz: "unat (100 :: u64) < 2 ^ 31" "unat (2 :: u64) < 2 ^ 31" by simp_all
  have "\<exists>s'. gfs_client_pread (\<lambda>_. True) 5 7 100 0 s = Some (Inr (2, [104, 105]), s') \<and> gfs_incoming 5 s' = [9]"
    using conjunct1 [OF gfs_transfers [OF s(1) mal sz(1), where fd = 7 and off = 0], rule_format, of "[104, 105]" 0 "[9]"] s(2)
    by auto
  moreover have "\<exists>t'. gfs_client_pwrite (\<lambda>_. True) 5 7 [1, 2] 2 0 t
      = Some (Inl GFARM_ERRMSG_GFS_PROTO_PWRITE_PROTOCOL, t')"
    using conjunct2 [OF gfs_transfers [OF t(1) mal sz(2), where fd = 7 and off = 0 and buffer = "[1, 2]"], rule_format, of 0 3 "[]"] t(2)
    by auto
  ultimately show ?thesis by blast
qed

end
