(* ===== verification/Gfs_Command_Spec.thy ===== *)
theory Gfs_Command_Spec
  imports Gfs_Spec
begin

text \<open>
  What the execution of a command keeps: the buffers and the announced lengths fit, a command that has ended
  stays so; how its input is framed; and what becomes of a signal.
\<close>

subsection \<open>Bounded hooks\<close>

text \<open>A hook moves no more bytes than it was asked for.\<close>

definition hooks_bounded :: "'w iobuffer \<Rightarrow> bool" where
  "hooks_bounded b \<longleftrightarrow>
     (\<forall>c fd n w. case fst (ib_read_func b c fd n w) of Io_got bs \<Rightarrow> 0 < n \<longrightarrow> int (length bs) \<le> n | _ \<Rightarrow> True)
   \<and> (\<forall>c fd data w. case fst (ib_write_func b c fd data w) of Io_put k \<Rightarrow> data \<noteq> [] \<longrightarrow> k \<le> length data | _ \<Rightarrow> True)"

lemma hooks_read:
  assumes "hooks_bounded b" and "0 < n" and "ib_read_func b c fd n w = (Io_got bs, w')"
  shows "int (length bs) \<le> n"
proof -
  have "case fst (ib_read_func b c fd n w) of Io_got bs \<Rightarrow> 0 < n \<longrightarrow> int (length bs) \<le> n | _ \<Rightarrow> True"
    using assms(1) unfolding hooks_bounded_def by (elim conjE allE)
  then show ?thesis using assms(2,3) by simp
qed

lemma hooks_write:
  assumes "hooks_bounded b" and "data \<noteq> []" and "ib_write_func b c fd data w = (Io_put k, w')"
  shows "k \<le> length data"
proof -
  have "case fst (ib_write_func b c fd data w) of Io_put k \<Rightarrow> data \<noteq> [] \<longrightarrow> k \<le> length data | _ \<Rightarrow> True"
    using assms(1) unfolding hooks_bounded_def by (elim conjE allE)
  then show ?thesis using assms(2,3) by simp
qed

lemma hooks_frame: "iob_frame b' = iob_frame b \<Longrightarrow> hooks_bounded b' = hooks_bounded b"
  by (auto dest!: frame_fields simp: hooks_bounded_def)

definition buffer_ok :: "'w iobuffer \<Rightarrow> bool" where
  "buffer_ok b \<longleftrightarrow> iob_ok b \<and> hooks_bounded b"

lemma buffer_okI: "iob_ok b' \<Longrightarrow> iob_frame b' = iob_frame b \<Longrightarrow> buffer_ok b \<Longrightarrow> buffer_ok b'"
  using hooks_frame [of b' b] by (simp add: buffer_ok_def)

lemma buffer_ok_flags [simp]:
  "buffer_ok (gfarm_iobuffer_set_error b e) = buffer_ok b"
  "buffer_ok (gfarm_iobuffer_set_read_eof b) = buffer_ok b"
  "iob_content (gfarm_iobuffer_set_error b e) = iob_content b"
  "iob_content (gfarm_iobuffer_set_read_eof b) = iob_content b"
  by (simp_all add: buffer_ok_def hooks_bounded_def gfarm_iobuffer_set_error_def gfarm_iobuffer_set_read_eof_def)

lemma read_bounded:
  assumes ok: "buffer_ok b" and read: "gfarm_iobuffer_read b rp w = (b', rp', w')"
  shows "\<exists>bs. buffer_ok b' \<and> iob_content b' = iob_content b @ bs
    \<and> rp' = map_option (\<lambda>r. r - int (length bs)) rp \<and> (\<forall>r. rp = Some r \<longrightarrow> int (length bs) \<le> max 0 r)"
proof -
  have iob: "iob_ok b" using ok by (simp add: buffer_ok_def)
  let ?space = "ib_head b + (ib_bufsize b - ib_tail b)"
  let ?res = "case rp of None \<Rightarrow> ?space | Some r \<Rightarrow> r"
  let ?b1 = "if ?res > ib_bufsize b - ib_tail b \<and> ib_head b > 0 then iobuffer_move_front b else b"
  let ?n = "if ?res < ?space then ?res else ?space"
  show ?thesis
  proof (cases "gfarm_iobuffer_full b \<or> ?res \<le> 0")
    case True
    then show ?thesis using read ok
      by (intro exI [of _ "[]"]) (auto simp: gfarm_iobuffer_read_def Let_def option.map_ident split: if_splits)
  next
    case False
    then have nfull: "\<not> gfarm_iobuffer_full b" and pos: "\<not> ?res \<le> 0" by simp_all
    have b1: "iob_ok ?b1" "iob_content ?b1 = iob_content b" "iob_frame ?b1 = iob_frame b"
      using move_front_spec [OF iob] iob by auto
    have hb1: "hooks_bounded ?b1" using hooks_frame [OF b1(3)] ok by (simp add: buffer_ok_def)
    have room: "ib_tail ?b1 + ?n \<le> ib_bufsize ?b1" using iob by (auto simp: iobuffer_move_front_def iob_ok_def)
    have n: "0 < ?n" using iob nfull pos by (auto simp: iob_ok_def iob_simps)
    obtain rv w1 where h: "ib_read_func ?b1 (ib_read_cookie ?b1) (ib_read_fd ?b1) ?n w = (rv, w1)" by fastforce
    note unf = read [unfolded gfarm_iobuffer_read_def, unfolded if_not_P [OF nfull] Let_def if_not_P [OF pos] h prod.case]
    show ?thesis
    proof (cases rv)
      case (Io_err e)
      then have "b' = gfarm_iobuffer_set_error ?b1 e" "rp' = rp" using unf by auto
      then show ?thesis using b1 hb1
        by (intro exI [of _ "[]"]) (simp add: buffer_ok_def option.map_ident gfarm_iobuffer_set_error_def hooks_bounded_def)
    next
      case (Io_got bs)
      have len: "int (length bs) \<le> ?n" using hooks_read [OF hb1 n h [unfolded Io_got]] .
      show ?thesis
      proof (cases "bs = []")
        case True
        then have "b' = ?b1\<lparr>ib_read_eof := True\<rparr>" "rp' = rp" using unf Io_got by auto
        then show ?thesis using b1 hb1
          by (intro exI [of _ "[]"]) (simp add: buffer_ok_def option.map_ident hooks_bounded_def)
      next
        case False
        let ?b2 = "?b1\<lparr>ib_buffer := mem_write (ib_buffer ?b1) (ib_tail ?b1) bs,
                        ib_tail := ib_tail ?b1 + int (length bs)\<rparr>"
        have r: "b' = ?b2" "rp' = map_option (\<lambda>r. r - int (length bs)) rp" using unf Io_got False by auto
        have fits: "ib_tail ?b1 + int (length bs) \<le> ib_bufsize ?b1" using room len by linarith
        note st = store_spec [OF b1(1) fits]
        have "buffer_ok b'" unfolding r(1) using st(1) hb1 hooks_frame [OF st(3)] by (simp only: buffer_ok_def simp_thms)
        moreover have "iob_content b' = iob_content b @ bs" unfolding r(1) using st(2) b1(2) by simp
        moreover have "\<forall>r. rp = Some r \<longrightarrow> int (length bs) \<le> max 0 r" using len by (auto split: if_splits)
        ultimately show ?thesis using r(2) by blast
      qed
    qed
  qed
qed

lemma write_bounded:
  assumes ok: "buffer_ok b" and wr: "gfarm_iobuffer_write b rp w = (b', rp', w')"
  shows "\<exists>k. buffer_ok b' \<and> k \<le> length (iob_content b) \<and> iob_content b' = drop k (iob_content b)
    \<and> rp' = map_option (\<lambda>r. r - int k) rp \<and> (\<forall>r. rp = Some r \<longrightarrow> int k \<le> max 0 r)"
proof -
  have iob: "iob_ok b" using ok by (simp add: buffer_ok_def)
  let ?avail = "gfarm_iobuffer_avail_length b"
  let ?res = "case rp of None \<Rightarrow> ?avail | Some r \<Rightarrow> r"
  let ?n = "if ?res < ?avail then ?res else ?avail"
  show ?thesis
  proof (cases "gfarm_iobuffer_empty b \<or> ?res \<le> 0")
    case True
    have "buffer_ok b' \<and> iob_content b' = iob_content b \<and> rp' = rp"
    proof (cases "gfarm_iobuffer_empty b")
      case True
      then obtain b1 w1 where e: "iobuffer_on_empty b w = (b1, w1)" "b' = b1" "rp' = rp"
        using wr by (auto simp: gfarm_iobuffer_write_def split: prod.splits)
      then show ?thesis using on_empty_spec [OF e(1)] buffer_okI [of b1 b] ok by (simp add: buffer_ok_def)
    next
      case False
      then show ?thesis using \<open>gfarm_iobuffer_empty b \<or> ?res \<le> 0\<close> wr ok
        by (auto simp: gfarm_iobuffer_write_def Let_def split: if_splits)
    qed
    then show ?thesis by (intro exI [of _ 0]) (simp add: option.map_ident)
  next
    case False
    then have ne: "\<not> gfarm_iobuffer_empty b" and pos: "\<not> ?res \<le> 0" by simp_all
    let ?d = "mem_read (ib_buffer b) (ib_head b) ?n"
    have avail: "0 < ?avail" "?avail = int (length (iob_content b))"
      using ne length_iob_content [OF iob] by (simp_all add: iob_simps)
    have n: "0 < ?n" using avail pos by simp
    have d: "?d \<noteq> []" "length ?d = nat ?n" using n by (simp_all add: mem_read_def)
    obtain rv w1 where h: "ib_write_func b (ib_write_cookie b) (ib_write_fd b) ?d w = (rv, w1)" by fastforce
    note unf = wr [unfolded gfarm_iobuffer_write_def, unfolded if_not_P [OF ne] Let_def if_not_P [OF pos] h prod.case]
    have same: ?thesis if "buffer_ok b'" "iob_content b' = iob_content b" "rp' = rp"
      using that by (intro exI [of _ 0]) (simp add: option.map_ident)
    show ?thesis
    proof (cases rv)
      case (Io_fail e)
      then have "b' = gfarm_iobuffer_set_error b e" "rp' = rp" using unf by auto
      then show ?thesis using same ok by simp
    next
      case (Io_put k)
      have k: "k \<le> nat ?n" using hooks_write [of b, OF _ d(1) h [unfolded Io_put]] ok d(2) by (simp add: buffer_ok_def)
      show ?thesis
      proof (cases "k > 0")
        case False
        then have "b' = b" "rp' = rp" using unf Io_put by auto
        then show ?thesis using same ok by simp
      next
        case True
        then have r: "b' = iobuffer_advance b (int k)" "rp' = map_option (\<lambda>r. r - int k) rp" using unf Io_put by auto
        have kn: "int k \<le> ?n" using k n by linarith
        have kl: "int k \<le> ib_tail b - ib_head b"
          using kn by (simp add: gfarm_iobuffer_avail_length_def split: if_splits)
        note ad = advance_spec [OF iob, of "int k"]
        have "buffer_ok b'" unfolding r(1) by (rule buffer_okI [of _ b]) (use ad kl ok in simp_all)
        moreover have "k \<le> length (iob_content b)" using kl length_iob_content [OF iob] by linarith
        moreover have "iob_content b' = drop k (iob_content b)" unfolding r(1) using ad(2) kl by simp
        moreover have "\<forall>r. rp = Some r \<longrightarrow> int k \<le> max 0 r" using kn by (auto split: if_splits)
        ultimately show ?thesis using r(2) by blast
      qed
    qed
  qed
qed

lemma purge_bounded:
  assumes ok: "buffer_ok b" and p: "gfarm_iobuffer_purge b None w = (b', rp', n, w')"
  shows "buffer_ok b'"
proof -
  have iob: "iob_ok b" using ok by (simp add: buffer_ok_def)
  have "iob_ok b' \<and> iob_frame b' = iob_frame b"
    using p iob on_empty_spec [of b w] advance_spec [OF iob, of "gfarm_iobuffer_avail_length b"]
    by (auto simp: gfarm_iobuffer_purge_def Let_def gfarm_iobuffer_avail_length_def gfarm_iobuffer_empty_def iob_ok_def
        split: if_splits prod.splits)
  then show ?thesis using buffer_okI ok by blast
qed

lemma put_bounded:
  assumes ok: "buffer_ok b" and p: "gfarm_iobuffer_put b data = (b', n)"
  shows "buffer_ok b' \<and> iob_content b' = iob_content b @ take (nat n) data"
  using put_spec [OF _ p] buffer_okI [of b' b] ok by (simp add: buffer_ok_def)


subsection \<open>The work area stays in order\<close>

text \<open>A length announced by the server is still owed and goes to an output; one announced to it is there.\<close>

definition cc_ok :: "'w command_context \<Rightarrow> bool" where
  "cc_ok cc \<longleftrightarrow> (\<forall>i \<in> {FDESC_STDIN, FDESC_STDOUT, FDESC_STDERR}. buffer_ok (cc_iobuffer cc i))
   \<and> (cc_server_state cc = GFS_COMMAND_SERVER_STATE_OUTPUT \<longrightarrow>
        cc_server_output_fd cc \<in> {FDESC_STDOUT, FDESC_STDERR} \<and> 0 < cc_server_output_residual cc)
   \<and> (cc_client_state cc = GFS_COMMAND_CLIENT_STATE_OUTPUT \<longrightarrow>
        0 \<le> cc_client_output_residual cc
        \<and> cc_client_output_residual cc \<le> int (length (iob_content (cc_iobuffer cc FDESC_STDIN))))"

text \<open>What every step keeps beside: an end is final, a signal stays, and behind a signal no input leaves.\<close>

definition cc_kept :: "'w command_context \<Rightarrow> 'w command_context \<Rightarrow> bool" where
  "cc_kept cc cc' \<longleftrightarrow>
     (\<not> gfs_client_command_is_running cc \<longrightarrow> cc_server_state cc' = cc_server_state cc)
   \<and> (cc_pending_signal cc \<noteq> 0 \<longrightarrow> cc_pending_signal cc' = cc_pending_signal cc)
   \<and> (cc_pending_signal cc \<noteq> 0 \<and> cc_client_state cc = GFS_COMMAND_CLIENT_STATE_NEUTRAL \<longrightarrow>
        cc_client_state cc' = GFS_COMMAND_CLIENT_STATE_NEUTRAL
        \<and> (\<exists>more. iob_content (cc_iobuffer cc' FDESC_STDIN) = iob_content (cc_iobuffer cc FDESC_STDIN) @ more))"

abbreviation cc_next :: "'w command_context \<Rightarrow> 'w command_context \<Rightarrow> bool" where
  "cc_next cc cc' \<equiv> cc_ok cc' \<and> cc_kept cc cc'"

lemma cc_kept_refl [simp, intro]: "cc_kept cc cc"
  by (simp add: cc_kept_def)

lemma cc_kept_trans: "cc_kept a b \<Longrightarrow> cc_kept b c \<Longrightarrow> cc_kept a c"
  by (auto simp: cc_kept_def gfs_client_command_is_running_def)

lemma cc_buffers:
  assumes "cc_ok cc"
  shows "buffer_ok (cc_iobuffer cc 0)" "buffer_ok (cc_iobuffer cc 1)" "buffer_ok (cc_iobuffer cc 2)"
  using assms by (simp_all add: cc_ok_def)

text \<open>A buffer replaced: the input may only grow here.\<close>

lemma set_iobuffer_next:
  assumes "cc_ok cc" and "buffer_ok b"
    and "i = FDESC_STDIN \<Longrightarrow> \<exists>more. iob_content b = iob_content (cc_iobuffer cc FDESC_STDIN) @ more"
  shows "cc_next cc (cc_set_iobuffer i b cc)"
  using assms by (auto simp: cc_ok_def cc_kept_def cc_set_iobuffer_def)

lemma abort_next:
  assumes "cc_ok cc" and "gfs_client_command_is_running cc"
  shows "cc_next cc (cc_abort cc)"
  using assms by (simp add: cc_ok_def cc_kept_def cc_abort_def)

lemma fd_set_stdin_next:
  assumes ok: "cc_ok cc" and f: "fd_set_stdin cc f w = (cc', f', w')"
  shows "cc_next cc cc' \<and> cc_server_state cc' = cc_server_state cc"
proof -
  obtain b rp w1 where r: "gfarm_iobuffer_read (cc_iobuffer cc 0) None w = (b, rp, w1)" by (metis prod_cases3)
  from read_bounded [OF cc_buffers(1) [OF ok] r] have "cc_next cc (cc_set_iobuffer 0 b cc)"
    using set_iobuffer_next [OF ok] by blast
  then show ?thesis using f ok r by (auto simp: fd_set_stdin_def Let_def cc_set_iobuffer_def split: if_splits)
qed

lemma fd_set_output_next:
  assumes ok: "cc_ok cc" and i: "i = 1 \<or> i = 2" and f: "fd_set_output i cc f w = (cc', f', w')"
  shows "cc_next cc cc' \<and> cc_server_state cc' = cc_server_state cc"
proof -
  obtain b rp w1 where r: "gfarm_iobuffer_write (cc_iobuffer cc i) None w = (b, rp, w1)" by (metis prod_cases3)
  have "buffer_ok (cc_iobuffer cc i)" using cc_buffers [OF ok] i by auto
  from write_bounded [OF this r] have "cc_next cc (cc_set_iobuffer i b cc)"
    using set_iobuffer_next [OF ok] i by auto
  then show ?thesis using f ok r by (auto simp: fd_set_output_def Let_def cc_set_iobuffer_def split: if_splits)
qed

lemma fd_set_next:
  assumes ok: "cc_ok cc" and f: "gfs_client_command_fd_set conn_fd cc f w = (cc', f', w')"
  shows "cc_next cc cc' \<and> cc_server_state cc' = cc_server_state cc"
proof -
  define f2 where "f2 = (let f1 = if wants_read cc then FD_SET_readable conn_fd f else f
    in if wants_write cc then FD_SET_writable conn_fd f1 else f1)"
  obtain cc3 f3 w3 where 3: "fd_set_stdin cc f2 w = (cc3, f3, w3)" by (metis prod_cases3)
  obtain cc4 f4 w4 where 4: "fd_set_output 1 cc3 f3 w3 = (cc4, f4, w4)" by (metis prod_cases3)
  have 5: "fd_set_output 2 cc4 f4 w4 = (cc', f', w')"
    using f 3 4 by (simp add: gfs_client_command_fd_set_def f2_def Let_def)
  note a = fd_set_stdin_next [OF ok 3]
  note b = fd_set_output_next [OF _ _ 4, simplified]
  note c = fd_set_output_next [OF _ _ 5, simplified]
  show ?thesis using a b c cc_kept_trans by metis
qed

lemma io_stdin_next:
  assumes ok: "cc_ok cc" and f: "io_stdin cc readable w = (cc', w')"
  shows "cc_next cc cc' \<and> cc_server_state cc' = cc_server_state cc"
proof -
  obtain b rp w1 where r: "gfarm_iobuffer_read (cc_iobuffer cc 0) None w = (b, rp, w1)" by (metis prod_cases3)
  let ?b = "gfarm_iobuffer_set_error (gfarm_iobuffer_set_read_eof b) GFARM_ERR_NO_ERROR"
  from read_bounded [OF cc_buffers(1) [OF ok] r]
  have "cc_next cc (cc_set_iobuffer 0 b cc)" "cc_next cc (cc_set_iobuffer 0 ?b cc)"
    using set_iobuffer_next [OF ok] by auto
  then show ?thesis using f ok r by (auto simp: io_stdin_def Let_def cc_set_iobuffer_def split: if_splits)
qed

lemma io_output_next:
  assumes ok: "cc_ok cc" and i: "i = 1 \<or> i = 2" and f: "io_output i cc writable w = (cc', w')"
  shows "cc_next cc cc' \<and> cc_server_state cc' = cc_server_state cc"
proof -
  obtain b rp w1 where r: "gfarm_iobuffer_write (cc_iobuffer cc i) None w = (b, rp, w1)" by (metis prod_cases3)
  obtain b2 rp2 n w2 where p: "gfarm_iobuffer_purge b None w1 = (b2, rp2, n, w2)" by (metis prod_cases4)
  have "buffer_ok (cc_iobuffer cc i)" using cc_buffers [OF ok] i by auto
  from write_bounded [OF this r] have b: "buffer_ok b" by blast
  have b2: "buffer_ok (gfarm_iobuffer_set_error b2 GFARM_ERR_NO_ERROR)" using purge_bounded [OF b p] by simp
  have "cc_next cc (cc_set_iobuffer i b cc)"
    "cc_next cc (cc_set_iobuffer i (gfarm_iobuffer_set_error b2 GFARM_ERR_NO_ERROR) cc)"
    using set_iobuffer_next [OF ok b] set_iobuffer_next [OF ok b2] i by auto
  then show ?thesis using f ok r p by (auto simp: io_output_def Let_def cc_set_iobuffer_def split: if_splits)
qed

lemma io_server_neutral_next:
  assumes ok: "cc_ok cc" and st: "cc_server_state cc = GFS_COMMAND_SERVER_STATE_NEUTRAL"
    and f: "io_server_neutral mal conn cc w = Some (e, conn', cc', w')"
  shows "cc_next cc cc'"
proof -
  have run: "gfs_client_command_is_running cc" using st by (simp add: gfs_client_command_is_running_def)
  note ab = abort_next [OF ok run]
  have exited: "cc_next cc (cc\<lparr>cc_server_state := GFS_COMMAND_SERVER_STATE_EXITED\<rparr>)"
    using ok run by (simp add: cc_ok_def cc_kept_def)
  have eof: "cc_next cc (cc_set_iobuffer i (gfarm_iobuffer_set_read_eof (cc_iobuffer cc i)) cc)" if "i = 1 \<or> i = 2" for i
    by (rule set_iobuffer_next [OF ok]) (use cc_buffers [OF ok] that in auto)
  have out: "cc_next cc (cc\<lparr>cc_server_state := GFS_COMMAND_SERVER_STATE_OUTPUT, cc_server_output_fd := i,
      cc_server_output_residual := n\<rparr>)" if "i = 1 \<or> i = 2" "0 < n" for i n
    using ok run that by (auto simp: cc_ok_def cc_kept_def)
  show ?thesis
    using f ab exited eof out unfolding io_server_neutral_def
    by (auto split: option.splits if_splits list.splits xdr_val.splits)
qed

lemma io_server_output_next:
  assumes ok: "cc_ok cc" and st: "cc_server_state cc = GFS_COMMAND_SERVER_STATE_OUTPUT"
    and f: "io_server_output cc w = Some (e, cc', w')"
  shows "cc_next cc cc'"
proof -
  let ?i = "cc_server_output_fd cc" and ?r = "cc_server_output_residual cc"
  have i: "?i = 1 \<or> ?i = 2" and r: "0 < ?r" using ok st by (auto simp: cc_ok_def)
  have b: "buffer_ok (cc_iobuffer cc ?i)" using cc_buffers [OF ok] i by auto
  obtain b1 rp w1 where g: "gfarm_iobuffer_read (cc_iobuffer cc ?i) (Some ?r) w = (b1, rp, w1)"
    by (metis prod_cases3)
  from read_bounded [OF b g] obtain bs :: "byte list" where 1: "buffer_ok b1" "rp = Some (?r - int (length bs))"
    "int (length bs) \<le> ?r" using r by (elim exE conjE) (rule that, auto)
  let ?b2 = "gfarm_iobuffer_set_error (gfarm_iobuffer_set_read_eof b1) GFARM_ERR_NO_ERROR"
  define cc2 where "cc2 = (let cc1 = (cc_set_iobuffer ?i b1 cc)\<lparr>cc_server_output_residual := ?r - int (length bs)\<rparr>
    in if ?r - int (length bs) = 0 then cc1\<lparr>cc_server_state := GFS_COMMAND_SERVER_STATE_NEUTRAL\<rparr> else cc1)"
  have n2: "cc_next cc cc2" "gfs_client_command_is_running cc2"
    using ok 1 i st
    by (auto simp: cc2_def Let_def cc_ok_def cc_kept_def cc_set_iobuffer_def gfs_client_command_is_running_def)
  have b2: "buffer_ok ?b2" using 1(1) by simp
  have n3: "cc_next cc2 (cc_set_iobuffer ?i ?b2 cc2)"
    by (rule set_iobuffer_next [OF conjunct1 [OF n2(1)] b2]) (use i in auto)
  then have "gfs_client_command_is_running (cc_set_iobuffer ?i ?b2 cc2)"
    using n2(2) by (simp add: gfs_client_command_is_running_def cc_set_iobuffer_def)
  then have n4: "cc_next cc (cc_abort (cc_set_iobuffer ?i ?b2 cc2))" "cc_next cc (cc_abort cc2)"
    using abort_next n2 n3 cc_kept_trans by blast+
  show ?thesis
    using f n2(1) n4 unfolding io_server_output_def Let_def g prod.case 1(2) option.case cc2_def [unfolded Let_def, symmetric]
    by (auto split: if_splits)
qed

lemma io_server_next:
  assumes ok: "cc_ok cc" and f: "io_server mal conn cc w = Some (e, conn', cc', w')"
  shows "cc_next cc cc'"
  using f io_server_neutral_next [OF ok] io_server_output_next [OF ok] ok
  by (cases "cc_server_state cc") (auto simp: io_server_def)

lemma io_client_message_next:
  assumes "cc_ok cc" and "gfs_client_command_is_running cc" and "cc_next cc (after cc)"
    and "io_client_message fmt args after conn cc w = Some (e, conn', cc', w')"
  shows "cc_next cc cc'"
  using assms(4,3) abort_next [OF assms(1,2)] unfolding io_client_message_def
  by (auto split: option.splits if_splits)

lemma io_client_next:
  assumes ok: "cc_ok cc" and run: "gfs_client_command_is_running cc"
    and f: "io_client conn cc w = Some (e, conn', cc', w')"
  shows "cc_next cc cc'"
proof (cases "cc_client_state cc")
  case GFS_COMMAND_CLIENT_STATE_NEUTRAL
  let ?n = "gfarm_iobuffer_avail_length (cc_iobuffer cc 0)"
  let ?cc = "cc\<lparr>cc_client_output_residual := ?n\<rparr>"
  have n: "?n = int (length (iob_content (cc_iobuffer cc 0)))"
    using cc_buffers(1) [OF ok] by (simp add: buffer_ok_def length_iob_content iob_simps)
  show ?thesis
  proof (cases "cc_pending_signal cc \<noteq> 0 \<or> \<not> gfarm_iobuffer_is_writable (cc_iobuffer cc 0)")
    case True
    then show ?thesis using f ok io_client_message_next [OF ok run, of "\<lambda>cc. cc"] GFS_COMMAND_CLIENT_STATE_NEUTRAL
      by (auto simp: io_client_def split: if_splits)
  next
    case False
    have 1: "cc_ok ?cc" "gfs_client_command_is_running ?cc" "cc_kept cc ?cc"
      using ok run GFS_COMMAND_CLIENT_STATE_NEUTRAL by (simp_all add: cc_ok_def cc_kept_def gfs_client_command_is_running_def)
    have 2: "cc_next ?cc (?cc\<lparr>cc_client_state := GFS_COMMAND_CLIENT_STATE_OUTPUT\<rparr>)"
      using 1 False n by (auto simp: cc_ok_def cc_kept_def)
    have "cc_next ?cc cc'"
      using f False GFS_COMMAND_CLIENT_STATE_NEUTRAL
      by (intro io_client_message_next [where after = "\<lambda>cc. cc\<lparr>cc_client_state := GFS_COMMAND_CLIENT_STATE_OUTPUT\<rparr>", OF 1(1,2) 2]) (simp add: io_client_def Let_def)
    then show ?thesis using cc_kept_trans [OF 1(3)] by blast
  qed
next
  case GFS_COMMAND_CLIENT_STATE_OUTPUT
  let ?r = "cc_client_output_residual cc" and ?b = "cc_iobuffer cc 0"
  have r: "0 \<le> ?r" "?r \<le> int (length (iob_content ?b))" using ok GFS_COMMAND_CLIENT_STATE_OUTPUT by (simp_all add: cc_ok_def)
  obtain b1 rp w1 where g: "gfarm_iobuffer_write ?b (Some ?r) w = (b1, rp, w1)" by (metis prod_cases3)
  from write_bounded [OF cc_buffers(1) [OF ok] g] obtain k where
    1: "buffer_ok b1" "k \<le> length (iob_content ?b)" "iob_content b1 = drop k (iob_content ?b)"
      "rp = Some (?r - int k)" "int k \<le> ?r" using r by auto
  define cc2 where "cc2 = (let cc1 = (cc_set_iobuffer 0 b1 cc)\<lparr>cc_client_output_residual := ?r - int k\<rparr>
    in if ?r - int k = 0 then cc1\<lparr>cc_client_state := GFS_COMMAND_CLIENT_STATE_NEUTRAL\<rparr> else cc1)"
  have n2: "cc_next cc cc2" "gfs_client_command_is_running cc2"
    using ok 1 r run GFS_COMMAND_CLIENT_STATE_OUTPUT
    by (auto simp: cc2_def Let_def cc_ok_def cc_kept_def cc_set_iobuffer_def gfs_client_command_is_running_def)
  let ?cc3 = "cc_set_iobuffer 0 (gfarm_iobuffer_set_error b1 GFARM_ERR_NO_ERROR) cc2"
  have "cc_ok ?cc3" "cc_kept cc ?cc3" "gfs_client_command_is_running ?cc3"
    using ok 1 r run GFS_COMMAND_CLIENT_STATE_OUTPUT
    by (auto simp: cc2_def Let_def cc_ok_def cc_kept_def cc_set_iobuffer_def gfs_client_command_is_running_def)
  then have n3: "cc_next cc (cc_abort ?cc3)" using abort_next cc_kept_trans by blast
  show ?thesis
    using f n2(1) n3 GFS_COMMAND_CLIENT_STATE_OUTPUT
    unfolding io_client_def GFS_COMMAND_CLIENT_STATE_OUTPUT command_client_state.case g prod.case 1(4) option.case Let_def
      cc2_def [unfolded Let_def, symmetric]
    by (auto split: if_splits)
qed

lemma io_fd_set_next:
  assumes ok: "cc_ok cc"
    and f: "gfs_client_command_io_fd_set mal readable writable conn cc w = Some (e, conn', cc', w')"
  shows "cc_next cc cc'"
proof -
  obtain cc1 w1 where 1: "io_stdin cc readable w = (cc1, w1)" by fastforce
  obtain cc2 w2 where 2: "io_output 1 cc1 writable w1 = (cc2, w2)" by fastforce
  obtain cc3 w3 where 3: "io_output 2 cc2 writable w2 = (cc3, w3)" by fastforce
  note a = io_stdin_next [OF ok 1]
  note b = io_output_next [OF _ _ 2, simplified]
  note c = io_output_next [OF _ _ 3, simplified]
  have n3: "cc_next cc cc3" using a b c cc_kept_trans by metis
  define srv where "srv = (if gfp_xdr_fd conn \<in> readable then io_server mal conn cc3 w3
    else Some (GFARM_ERR_NO_ERROR, conn, cc3, w3))"
  note unf = f [unfolded gfs_client_command_io_fd_set_def Let_def 1 2 3 prod.case srv_def [symmetric]]
  obtain e4 conn4 cc4 w4 where s4: "srv = Some (e4, conn4, cc4, w4)" using unf by (cases srv) auto
  have n4: "cc_next cc cc4"
    using s4 n3 io_server_next [of cc3 mal conn w3 e4 conn4 cc4 w4] cc_kept_trans [of cc cc3 cc4]
    unfolding srv_def by (simp split: if_splits)
  note unf4 = unf [unfolded s4 option.case prod.case]
  show ?thesis
  proof (cases "e4 = GFARM_ERR_NO_ERROR \<and> gfp_xdr_fd conn \<in> writable \<and> gfs_client_command_is_running cc4")
    case True
    then have "io_client conn4 cc4 w4 = Some (e, conn', cc', w')" using unf4 by simp
    then show ?thesis using io_client_next [of cc4] n4 True cc_kept_trans by blast
  next
    case False
    then have "cc' = cc4" using unf4 by (auto split: if_splits)
    then show ?thesis using n4 by simp
  qed
qed

text \<open>The same on the connection, whose work area stays.\<close>

definition command_next :: "'w gfs_connection \<Rightarrow> 'w gfs_connection \<Rightarrow> bool" where
  "command_next g g' \<longleftrightarrow>
     (\<forall>cc. gfs_context g = Some cc \<and> cc_ok cc \<longrightarrow> (\<exists>cc'. gfs_context g' = Some cc' \<and> cc_next cc cc'))"

lemma command_next_refl [simp, intro]: "command_next g g"
  by (simp add: command_next_def)

lemma command_next_trans: "command_next a b \<Longrightarrow> command_next b c \<Longrightarrow> command_next a c"
  unfolding command_next_def using cc_kept_trans by metis

lemma command_io_next:
  assumes "gfs_client_command_io mal select g w = Some (e, g', w')"
  shows "command_next g g'"
  unfolding command_next_def
proof (intro allI impI, elim conjE)
  fix cc
  assume cc: "gfs_context g = Some cc" and ok: "cc_ok cc"
  obtain cc1 f w1 where
    1: "gfs_client_command_fd_set (gfp_xdr_fd (gfs_conn g)) cc \<lparr>fd_readable = {}, fd_writable = {}, max_fd = -1\<rparr> w
      = (cc1, f, w1)" by (metis prod_cases3)
  note n1 = conjunct1 [OF fd_set_next [OF ok 1]]
  have n2: "cc_next cc cc2"
    if "gfs_client_command_io_fd_set mal rs ws (gfs_conn g) cc1 w2 = Some (e2, conn, cc2, w3)"
    for rs ws w2 e2 conn cc2 w3
    using io_fd_set_next [OF conjunct1 [OF n1] that] n1 cc_kept_trans by blast
  show "\<exists>cc'. gfs_context g' = Some cc' \<and> cc_next cc cc'"
    using assms n1 n2 cc ok unfolding gfs_client_command_io_def
    by (auto simp: 1 Let_def split: if_splits prod.splits sum.splits option.splits)
qed

text \<open>A loop keeps what its rounds keep.\<close>

definition rounds_keep :: "('w, 'a) command_step \<Rightarrow> bool" where
  "rounds_keep step \<longleftrightarrow> (\<forall>g w v g' w'. step g w = Some (v, g', w') \<longrightarrow> command_next g g')"

lemma rounds_keepD: "rounds_keep step \<Longrightarrow> step g w = Some (v, g', w') \<Longrightarrow> command_next g g'"
  unfolding rounds_keep_def by blast

lemma command_io_keeps: "rounds_keep (gfs_client_command_io mal select)"
  by (auto simp: rounds_keep_def intro: command_io_next)

lemma put_next:
  assumes "gfs_context g = Some cc" and "gfarm_iobuffer_put (cc_iobuffer cc FDESC_STDIN) data = (b, n)"
  shows "command_next g (g\<lparr>gfs_context := Some (cc_set_iobuffer FDESC_STDIN b cc)\<rparr>)"
  using assms put_bounded [OF cc_buffers(1) assms(2)] set_iobuffer_next [of cc b 0]
  by (auto simp: command_next_def)

lemma send_stdin_loop_next:
  assumes "command_send_stdin_loop io data g w = Some r" and "rounds_keep io"
  shows "command_next g (fst (snd r))"
proof -
  have "rounds_keep io \<longrightarrow> command_next g (fst (snd r))"
  proof (rule command_send_stdin_loop.raw_induct [where P = "\<lambda>i _ g _ r. rounds_keep i \<longrightarrow> command_next g (fst (snd r))",
        OF _ assms(1)], intro impI, goal_cases)
    case (1 loop i d g w r)
    note IH = 1(1) [rule_format, OF _ 1(3)] and body = 1(2) and keep = 1(3)
    show ?case
    proof (cases "gfs_context g")
      case None
      then show ?thesis using body by (auto split: if_splits)
    next
      case (Some cc)
      obtain b n where p: "gfarm_iobuffer_put (cc_iobuffer cc 0) d = (b, n)" by fastforce
      let ?g = "g\<lparr>gfs_context := Some (cc_set_iobuffer 0 b cc)\<rparr>"
      have "command_next g (fst (snd r))"
        if "i ?g w = Some (e, g1, w1)" "loop i (drop (nat n) d) g1 w1 = Some r" for e g1 w1
        using put_next [OF Some p] rounds_keepD [OF keep that(1)] IH [OF that(2)] command_next_trans by blast
      then show ?thesis using body Some p by (auto split: if_splits option.splits)
    qed
  qed
  then show ?thesis using assms(2) by blast
qed

lemma send_stdin_keeps: "rounds_keep io \<Longrightarrow> rounds_keep (gfs_client_command_send_stdin io data)"
  unfolding rounds_keep_def [of "gfs_client_command_send_stdin io data"]
proof (intro allI impI)
  fix g w n g' w'
  assume keep: "rounds_keep io" and "gfs_client_command_send_stdin io data g w = Some (n, g', w')"
  then obtain rest where "command_send_stdin_loop io data g w = Some (rest, g', w')"
    by (auto simp: gfs_client_command_send_stdin_def)
  from send_stdin_loop_next [OF this keep] show "command_next g g'" by simp
qed

lemma wait_loop_next:
  assumes "command_wait_loop io e g w = Some r" and "rounds_keep io"
  shows "command_next g (fst (snd r))"
proof -
  have "rounds_keep io \<longrightarrow> command_next g (fst (snd r))"
  proof (rule command_wait_loop.raw_induct [where P = "\<lambda>i _ g _ r. rounds_keep i \<longrightarrow> command_next g (fst (snd r))",
        OF _ assms(1)], intro impI, goal_cases)
    case (1 loop i e g w r)
    note IH = 1(1) [rule_format, OF _ 1(3)] and body = 1(2) and keep = 1(3)
    have "command_next g (fst (snd r))" if "i g w = Some (e1, g1, w1)" "loop i e1 g1 w1 = Some r" for e1 g1 w1
      using rounds_keepD [OF keep that(1)] IH [OF that(2)] command_next_trans by blast
    then show ?case using body by (auto split: if_splits option.splits)
  qed
  then show ?thesis using assms(2) by blast
qed

text \<open>The loop before a signal ends with an error, or with no signal pending, or with the command gone.\<close>

lemma signal_loop_next:
  assumes "command_signal_loop io g w = Some r" and "rounds_keep io"
  shows "command_next g (fst (snd r)) \<and> (fst r \<noteq> GFARM_ERR_NO_ERROR
    \<or> (\<exists>cc. gfs_context (fst (snd r)) = Some cc \<and> \<not> (gfs_client_command_is_running cc \<and> cc_pending_signal cc \<noteq> 0)))"
proof -
  let ?P = "\<lambda>g r. command_next g (fst (snd r)) \<and> (fst r \<noteq> GFARM_ERR_NO_ERROR
    \<or> (\<exists>cc. gfs_context (fst (snd r)) = Some cc \<and> \<not> (gfs_client_command_is_running cc \<and> cc_pending_signal cc \<noteq> 0)))"
  have "rounds_keep io \<longrightarrow> ?P g r"
  proof (rule command_signal_loop.raw_induct [where P = "\<lambda>i g _ r. rounds_keep i \<longrightarrow> ?P g r",
        OF _ assms(1)], intro impI, goal_cases)
    case (1 loop i g w r)
    note IH = 1(1) [rule_format, OF _ 1(3)] and body = 1(2) and keep = 1(3)
    have "?P g r" if "i g w = Some (e1, g1, w1)" "e1 \<noteq> GFARM_ERR_NO_ERROR" "r = (e1, g1, w1)" for e1 g1 w1
      using rounds_keepD [OF keep that(1)] that by simp
    moreover have "?P g r" if "i g w = Some (e1, g1, w1)" "loop i g1 w1 = Some r" for e1 g1 w1
      using rounds_keepD [OF keep that(1)] IH [OF that(2)] command_next_trans by blast
    ultimately show ?case using body by (auto split: if_splits option.splits)
  qed
  then show ?thesis using assms(2) by blast
qed

lemma pending_next:
  assumes "gfs_context g = Some cc" and "cc_pending_signal cc = 0"
  shows "command_next g (cc_update (\<lambda>cc. cc\<lparr>cc_pending_signal := sig\<rparr>) g)"
  using assms by (auto simp: command_next_def cc_update_def cc_ok_def cc_kept_def)

lemma send_signal_keeps:
  assumes "rounds_keep io"
  shows "rounds_keep (gfs_client_command_send_signal io sig)"
  unfolding rounds_keep_def
proof (intro allI impI)
  fix g w e g' w'
  assume s: "gfs_client_command_send_signal io sig g w = Some (e, g', w')"
  obtain e1 g1 w1 where l: "command_signal_loop io g w = Some (e1, g1, w1)"
    using s by (auto simp: gfs_client_command_send_signal_def split: option.splits)
  note n1 = signal_loop_next [OF l assms, simplified]
  show "command_next g g'"
  proof (cases "e1 \<noteq> GFARM_ERR_NO_ERROR")
    case True
    then show ?thesis using s l n1 by (simp add: gfs_client_command_send_signal_def)
  next
    case False
    then obtain cc where cc: "gfs_context g1 = Some cc"
      "\<not> (gfs_client_command_is_running cc \<and> cc_pending_signal cc \<noteq> 0)" using n1 by blast
    let ?g = "cc_update (\<lambda>cc. cc\<lparr>cc_pending_signal := sig\<rparr>) g1"
    show ?thesis
    proof (cases "gfs_client_command_is_running cc")
      case True
      then have "command_next g1 ?g" using pending_next [OF cc(1)] cc(2) by blast
      moreover have "io ?g w1 = Some (e, g', w')"
        using s l False cc True by (simp add: gfs_client_command_send_signal_def)
      ultimately show ?thesis using n1 rounds_keepD [OF assms] command_next_trans by blast
    next
      case False
      then show ?thesis using s l \<open>\<not> e1 \<noteq> GFARM_ERR_NO_ERROR\<close> cc n1
        by (simp add: gfs_client_command_send_signal_def)
    qed
  qed
qed

subsection \<open>Histories of a command\<close>

text \<open>
  What a program may do with a running command, in any order: rounds, input, the end of the input, signals, waiting
  for the end, and, between these, whatever the world does. Every \<open>select\<close> may answer what it likes.
\<close>

inductive command_reach ::
  "(u64 \<Rightarrow> bool) \<Rightarrow> 'w gfs_connection \<Rightarrow> 'w \<Rightarrow> 'w gfs_connection \<Rightarrow> 'w \<Rightarrow> bool" for mal g w where
  reach_start: "command_reach mal g w g w"
| reach_round: "command_reach mal g w g1 w1 \<Longrightarrow> gfs_client_command_io mal select g1 w1 = Some (e, g2, w2) \<Longrightarrow>
    command_reach mal g w g2 w2"
| reach_input: "command_reach mal g w g1 w1 \<Longrightarrow>
    gfs_client_command_send_stdin (gfs_client_command_io mal select) data g1 w1 = Some (n, g2, w2) \<Longrightarrow>
    command_reach mal g w g2 w2"
| reach_close: "command_reach mal g w g1 w1 \<Longrightarrow> command_reach mal g w (gfs_client_command_close_stdin g1) w1"
| reach_signal: "command_reach mal g w g1 w1 \<Longrightarrow>
    gfs_client_command_send_signal (gfs_client_command_io mal select) sig g1 w1 = Some (e, g2, w2) \<Longrightarrow>
    command_reach mal g w g2 w2"
| reach_wait: "command_reach mal g w g1 w1 \<Longrightarrow>
    command_wait_loop (gfs_client_command_io mal select) e0 g1 w1 = Some (e, g2, w2) \<Longrightarrow>
    command_reach mal g w g2 w2"
| reach_world: "command_reach mal g w g1 w1 \<Longrightarrow> command_reach mal g w g1 w2"

lemma close_stdin_next: "command_next g (gfs_client_command_close_stdin g)"
proof -
  have "cc_next cc (cc_set_iobuffer 0 (gfarm_iobuffer_set_read_eof (cc_iobuffer cc 0)) cc)" if "cc_ok cc" for cc :: "'a command_context"
    by (rule set_iobuffer_next [OF that]) (use cc_buffers [OF that] in auto)
  then show ?thesis by (auto simp: command_next_def gfs_client_command_close_stdin_def cc_update_def)
qed

lemma reach_next: "command_reach mal g w g' w' \<Longrightarrow> command_next g g'"
proof (induction rule: command_reach.induct)
  case (reach_round g1 w1 select e g2 w2)
  show ?case by (rule command_next_trans [OF reach_round.IH command_io_next [OF reach_round.hyps(2)]])
next
  case (reach_input g1 w1 select data n g2 w2)
  show ?case
    by (rule command_next_trans [OF reach_input.IH
          rounds_keepD [OF send_stdin_keeps [OF command_io_keeps] reach_input.hyps(2)]])
next
  case (reach_close g1 w1)
  show ?case by (rule command_next_trans [OF reach_close.IH close_stdin_next])
next
  case (reach_signal g1 w1 select sig e g2 w2)
  show ?case
    by (rule command_next_trans [OF reach_signal.IH
          rounds_keepD [OF send_signal_keeps [OF command_io_keeps] reach_signal.hyps(2)]])
next
  case (reach_wait g1 w1 select e0 e g2 w2)
  show ?case
    using command_next_trans [OF reach_wait.IH wait_loop_next [OF reach_wait.hyps(2) command_io_keeps]] by simp
qed auto

subsection \<open>A fresh command\<close>

lemma hooks_bounded_ops:
  "hooks_bounded (gfarm_iobuffer_set_write (gfarm_iobuffer_set_read b gfarm_iobuffer_nonblocking_read_fd_op k fd)
     gfarm_iobuffer_nonblocking_write_socket_op k' fd')"
  "hooks_bounded (gfarm_iobuffer_set_write (gfarm_iobuffer_set_read b gfarm_iobuffer_nonblocking_read_fd_op k fd)
     gfarm_iobuffer_nonblocking_write_fd_op k' fd')"
proof -
  have r: "case fst (gfarm_iobuffer_nonblocking_read_fd_op c d n w) of Io_got bs \<Rightarrow> 0 < n \<longrightarrow> int (length bs) \<le> n | _ \<Rightarrow> True"
    for c d n w
    using nbr.got [of n c d w] by (cases "gfarm_iobuffer_nonblocking_read_fd_op c d n w") (auto split: io_in.splits)
  have s: "case fst (gfarm_iobuffer_nonblocking_write_socket_op c d data w) of
      Io_put k \<Rightarrow> data \<noteq> [] \<longrightarrow> k \<le> length data | _ \<Rightarrow> True" for c d data w
    using nbw.took [of data c d w] by (cases "gfarm_iobuffer_nonblocking_write_socket_op c d data w") (auto split: io_out.splits)
  have f: "case fst (gfarm_iobuffer_nonblocking_write_fd_op c d data w) of
      Io_put k \<Rightarrow> data \<noteq> [] \<longrightarrow> k \<le> length data | _ \<Rightarrow> True" for c d data w
    by (auto simp: gfarm_iobuffer_nonblocking_write_fd_op_def sys_send_def split: list.splits sys_event.splits)
  show "hooks_bounded (gfarm_iobuffer_set_write (gfarm_iobuffer_set_read b gfarm_iobuffer_nonblocking_read_fd_op k fd)
     gfarm_iobuffer_nonblocking_write_socket_op k' fd')"
    "hooks_bounded (gfarm_iobuffer_set_write (gfarm_iobuffer_set_read b gfarm_iobuffer_nonblocking_read_fd_op k fd)
     gfarm_iobuffer_nonblocking_write_fd_op k' fd')"
    using r s f by (simp_all add: hooks_bounded_def gfarm_iobuffer_set_write_def gfarm_iobuffer_set_read_def)
qed

text \<open>The set-up of a command over a socket, every allocation succeeding; the sizes are positive.\<close>

definition fresh_command ::
  "int option \<Rightarrow> int option \<Rightarrow> u32 \<Rightarrow> int \<Rightarrow> fd_world gfp_xdr \<Rightarrow> fd_world command_context option" where
  "fresh_command sndbuf rcvbuf =
     command_context_init (gfarm_iobuffer_alloc True (\<lambda>_. True) (\<lambda>_. 0) (\<lambda>_ _ _ w. (Io_got [], w)) (\<lambda>_ _ _ w. (Io_put 0, w)))
       sndbuf rcvbuf gfarm_iobuffer_nonblocking_read_fd_op gfarm_iobuffer_nonblocking_write_fd_op"

lemma iobuffer_hooks_only [simp]:
  "iob_content (gfarm_iobuffer_set_read b r k d) = iob_content b"
  "iob_content (gfarm_iobuffer_set_write b v k d) = iob_content b"
  "iob_ok (gfarm_iobuffer_set_read b r k d) = iob_ok b"
  "iob_ok (gfarm_iobuffer_set_write b v k d) = iob_ok b"
  by (simp_all add: iob_content_def iob_ok_def gfarm_iobuffer_set_read_def gfarm_iobuffer_set_write_def)

lemma context_init_buffers:
  assumes "command_context_init alloc sndbuf rcvbuf fd_read fd_write flags pid conn = Some cc"
  shows "\<exists>b0 b1. alloc (case sndbuf of None \<Rightarrow> 0x4000 | Some n \<Rightarrow> n) = Some b0
    \<and> alloc (case rcvbuf of None \<Rightarrow> 0x4000 | Some n \<Rightarrow> n) = Some b1"
proof (cases "alloc (case sndbuf of None \<Rightarrow> 0x4000 | Some n \<Rightarrow> n)")
  case (Some b0)
  then show ?thesis
    using assms by (cases "alloc (case rcvbuf of None \<Rightarrow> 0x4000 | Some n \<Rightarrow> n)") (simp_all add: command_context_init_def Let_def)
qed (use assms in \<open>simp add: command_context_init_def Let_def\<close>)

lemma fresh_command_ok:
  assumes "fresh_command sndbuf rcvbuf flags pid conn = Some cc" and "iob_ops conn = gfp_xdr_socket_iobuffer_ops"
    and "\<forall>n. sndbuf = Some n \<longrightarrow> 0 < n" and "\<forall>n. rcvbuf = Some n \<longrightarrow> 0 < n"
  shows "cc_ok cc \<and> cc_pending_signal cc = 0 \<and> cc_client_state cc = GFS_COMMAND_CLIENT_STATE_NEUTRAL
    \<and> gfs_client_command_is_running cc \<and> iob_content (cc_iobuffer cc FDESC_STDIN) = []
    \<and> ib_write_func (cc_iobuffer cc FDESC_STDIN) = gfarm_iobuffer_nonblocking_write_socket_op
    \<and> ib_write_close_func (cc_iobuffer cc FDESC_STDIN) = gfarm_iobuffer_write_close_nop"
proof -
  let ?alloc = "gfarm_iobuffer_alloc True (\<lambda>_. True) (\<lambda>_. 0) (\<lambda>_ _ _ w. (Io_got [], w)) (\<lambda>_ _ _ w. (Io_put 0, w))
    :: int \<Rightarrow> fd_world iobuffer option"
  let ?size = "\<lambda>opt. case opt of None \<Rightarrow> 0x4000 | Some n \<Rightarrow> n"
  note ini = assms(1) [unfolded fresh_command_def command_context_init_def Let_def]
  obtain b0 b1 where b: "?alloc (?size sndbuf) = Some b0" "?alloc (?size rcvbuf) = Some b1"
    using context_init_buffers [OF assms(1) [unfolded fresh_command_def]] by blast
  have size: "0 < ?size sndbuf" "0 < ?size rcvbuf" using assms(3,4) by (auto split: option.split)
  note s = iobuffer_alloc_some [OF b(1) size(1)] iobuffer_alloc_some [OF b(2) size(2)]
  have swap: "gfarm_iobuffer_set_write (gfarm_iobuffer_set_read b r k d) v k' d'
      = gfarm_iobuffer_set_read (gfarm_iobuffer_set_write b v k' d') r k d" for b :: "fd_world iobuffer" and r k d v k' d'
    by (simp add: gfarm_iobuffer_set_write_def gfarm_iobuffer_set_read_def)
  note ini' = ini [unfolded b option.case prod.case
      gfarm_iobuffer_set_nonblocking_read_xxx_def gfarm_iobuffer_set_nonblocking_write_xxx_def assms(2)]
  show ?thesis
    unfolding ini' [simplified, symmetric]
    using s hooks_bounded_ops
    by (auto simp: cc_ok_def buffer_ok_def gfs_client_command_is_running_def gfp_xdr_socket_iobuffer_ops_def)
      (simp_all add: gfarm_iobuffer_set_write_def gfarm_iobuffer_set_read_def gfarm_iobuffer_set_read_eof_def
        hooks_bounded_def iob_ok_def iob_content_def)
qed

subsection \<open>Properties\<close>

text \<open>C29: in every history of a command, with whatever rounds, input, signals and answers of \<open>select\<close>, the work
  area stays in order: each buffer keeps its bounds, the server owes more of an announced output, for one of
  the two outputs, as long as the client is reading it, and of an announced input no more is owed than the
  buffer has. The end of the command is final.\<close>

theorem command_invariant:
  assumes "fresh_command sndbuf rcvbuf flags pid conn = Some cc" and "iob_ops conn = gfp_xdr_socket_iobuffer_ops"
    and "\<forall>n. sndbuf = Some n \<longrightarrow> 0 < n" and "\<forall>n. rcvbuf = Some n \<longrightarrow> 0 < n"
    and "command_reach mal (g\<lparr>gfs_conn := conn, gfs_context := Some cc\<rparr>) w g1 w1"
    and "command_reach mal g1 w1 g2 w2"
  shows "\<exists>cc1 cc2. gfs_context g1 = Some cc1 \<and> cc_ok cc1 \<and> gfs_context g2 = Some cc2 \<and> cc_ok cc2
    \<and> (\<not> gfs_client_command_is_running cc1 \<longrightarrow> cc_server_state cc2 = cc_server_state cc1)"
proof -
  have "cc_ok cc" using fresh_command_ok [OF assms(1-4)] by simp
  then obtain cc1 where 1: "gfs_context g1 = Some cc1" "cc_ok cc1"
    using reach_next [OF assms(5)] by (auto simp: command_next_def)
  then obtain cc2 where "gfs_context g2 = Some cc2" "cc_ok cc2" "cc_kept cc1 cc2"
    using reach_next [OF assms(6)] by (auto simp: command_next_def)
  with 1 show ?thesis by (auto simp: cc_kept_def)
qed

text \<open>C30: a signal is never taken back from the work area. Once one is pending with no input under way, it is
  pending, with the same number, in every later state; no byte of the input leaves the buffer any more; and
  a second signal is refused with an error however long it waits, if the call returns at all.\<close>

theorem command_signal_stays:
  assumes "command_reach mal g w g1 w1" and "gfs_context g = Some cc" and "cc_ok cc"
    and "cc_pending_signal cc \<noteq> 0" and "cc_client_state cc = GFS_COMMAND_CLIENT_STATE_NEUTRAL"
  shows "(\<exists>cc1 more. gfs_context g1 = Some cc1 \<and> cc_pending_signal cc1 = cc_pending_signal cc
        \<and> iob_content (cc_iobuffer cc1 FDESC_STDIN) = iob_content (cc_iobuffer cc FDESC_STDIN) @ more)
    \<and> (\<forall>select sig e g2 w2. gfs_client_command_send_signal (gfs_client_command_io mal select) sig g1 w1 = Some (e, g2, w2)
         \<longrightarrow> e \<noteq> GFARM_ERR_NO_ERROR)"
proof (intro conjI allI impI)
  obtain cc1 where 1: "gfs_context g1 = Some cc1" "cc_ok cc1" "cc_kept cc cc1"
    using reach_next [OF assms(1)] assms(2,3) by (auto simp: command_next_def)
  then show "\<exists>cc1 more. gfs_context g1 = Some cc1 \<and> cc_pending_signal cc1 = cc_pending_signal cc
      \<and> iob_content (cc_iobuffer cc1 FDESC_STDIN) = iob_content (cc_iobuffer cc FDESC_STDIN) @ more"
    using assms(4,5) by (auto simp: cc_kept_def)
  fix select sig e g2 w2
  assume s: "gfs_client_command_send_signal (gfs_client_command_io mal select) sig g1 w1 = Some (e, g2, w2)"
  obtain e1 g3 w3 where l: "command_signal_loop (gfs_client_command_io mal select) g1 w1 = Some (e1, g3, w3)"
    using s by (auto simp: gfs_client_command_send_signal_def split: option.splits)
  note n = signal_loop_next [OF l command_io_keeps]
  show "e \<noteq> GFARM_ERR_NO_ERROR"
  proof (cases "e1 = GFARM_ERR_NO_ERROR")
    case False
    then show ?thesis using s l by (simp add: gfs_client_command_send_signal_def)
  next
    case True
    obtain cc3 where 3: "gfs_context g3 = Some cc3" "cc_kept cc1 cc3"
      using n 1 by (auto simp: command_next_def)
    then have "cc_pending_signal cc3 \<noteq> 0" using 1(3) assms(4) by (auto simp: cc_kept_def)
    then have "\<not> gfs_client_command_is_running cc3" using n True 3 by auto
    then have "e = errno_error ESRCH" using s l True 3 by (simp add: gfs_client_command_send_signal_def)
    then show ?thesis using errno_error_nonzero [of 3] by simp
  qed
qed

subsection \<open>Witnesses\<close>

lemma sample_command: "\<exists>cc. fresh_command None None 0 7 sample_conn = Some cc"
  by (simp add: fresh_command_def command_context_init_def Let_def gfarm_iobuffer_alloc_def gfarm_malloc_array_def
      gfarm_size_mul_def)

lemma sample_conn_ops: "iob_ops sample_conn = gfp_xdr_socket_iobuffer_ops"
  by (simp add: sample_conn_def gfp_xdr_new_socket_def gfp_xdr_new_def gfarm_iobuffer_alloc_def
      gfarm_malloc_array_def gfarm_size_mul_def Let_def gfp_xdr_set_def)

theorem command_invariant_witness:
  "\<forall>g :: fd_world gfs_connection. \<forall>w. \<exists>cc cc2. fresh_command None None 0 7 sample_conn = Some cc
     \<and> gfs_context (gfs_client_command_close_stdin (g\<lparr>gfs_conn := sample_conn, gfs_context := Some cc\<rparr>)) = Some cc2
     \<and> cc_ok cc2"
proof (intro allI)
  fix g :: "fd_world gfs_connection" and w :: fd_world
  obtain cc where cc: "fresh_command None None 0 7 sample_conn = Some cc" using sample_command by blast
  let ?g = "g\<lparr>gfs_conn := sample_conn, gfs_context := Some cc\<rparr>"
  have r: "command_reach (\<lambda>_. True) ?g w (gfs_client_command_close_stdin ?g) w"
    by (rule reach_close [OF reach_start])
  have "\<exists>cc1 cc2. gfs_context (gfs_client_command_close_stdin ?g) = Some cc1 \<and> cc_ok cc1
      \<and> gfs_context (gfs_client_command_close_stdin ?g) = Some cc2 \<and> cc_ok cc2
      \<and> (\<not> gfs_client_command_is_running cc1 \<longrightarrow> cc_server_state cc2 = cc_server_state cc1)"
    by (rule command_invariant [OF cc sample_conn_ops _ _ r reach_start]) simp_all
  with cc show "\<exists>cc cc2. fresh_command None None 0 7 sample_conn = Some cc
     \<and> gfs_context (gfs_client_command_close_stdin (g\<lparr>gfs_conn := sample_conn, gfs_context := Some cc\<rparr>)) = Some cc2
     \<and> cc_ok cc2" by blast
qed

theorem command_signal_stays_witness:
  "\<forall>(g :: fd_world gfs_connection) w sig select e g2 w2. \<exists>cc. cc_pending_signal cc = 9
     \<and> (gfs_client_command_send_signal (gfs_client_command_io (\<lambda>_. True) select) sig
           (gfs_client_command_close_stdin (g\<lparr>gfs_conn := sample_conn, gfs_context := Some cc\<rparr>)) w = Some (e, g2, w2)
         \<longrightarrow> e \<noteq> GFARM_ERR_NO_ERROR)"
proof (intro allI)
  fix g :: "fd_world gfs_connection" and w w2 :: fd_world and sig e :: int and select g2
  obtain cc where "fresh_command None None 0 7 sample_conn = Some cc" using sample_command by blast
  from fresh_command_ok [OF this sample_conn_ops] have cc: "cc_ok (cc\<lparr>cc_pending_signal := 9\<rparr>)"
    "cc_client_state (cc\<lparr>cc_pending_signal := 9\<rparr>) = GFS_COMMAND_CLIENT_STATE_NEUTRAL" by (simp_all add: cc_ok_def)
  let ?g = "g\<lparr>gfs_conn := sample_conn, gfs_context := Some (cc\<lparr>cc_pending_signal := 9\<rparr>)\<rparr>"
  have r: "command_reach (\<lambda>_. True) ?g w (gfs_client_command_close_stdin ?g) w"
    by (rule reach_close [OF reach_start])
  have "gfs_client_command_send_signal (gfs_client_command_io (\<lambda>_. True) select) sig
      (gfs_client_command_close_stdin ?g) w = Some (e, g2, w2) \<longrightarrow> e \<noteq> GFARM_ERR_NO_ERROR"
    by (intro impI, rule conjunct2 [OF command_signal_stays [OF r _ cc(1) _ cc(2)], rule_format]) simp_all
  then show "\<exists>cc. cc_pending_signal cc = 9
     \<and> (gfs_client_command_send_signal (gfs_client_command_io (\<lambda>_. True) select) sig
           (gfs_client_command_close_stdin (g\<lparr>gfs_conn := sample_conn, gfs_context := Some cc\<rparr>)) w = Some (e, g2, w2)
         \<longrightarrow> e \<noteq> GFARM_ERR_NO_ERROR)"
    by (intro exI [of _ "cc\<lparr>cc_pending_signal := 9\<rparr>"] conjI) simp_all
qed

end
