(* ===== verification/Gfs_Command_Input.thy ===== *)
theory Gfs_Command_Input
  imports Gfs_Command_Spec "HOL-Library.Sublist"
begin

text \<open>
  The input of a command on the wire: every byte that was accepted leaves the client once and in order, in
  messages that say their length.
\<close>

subsection \<open>A part of a buffer written to a socket\<close>

context io_sink
begin

lemma write_part:
  assumes ok: "iob_ok b" and wfn: "ib_write_func b = wfn" and close: "close_keeps out b"
    and wr: "gfarm_iobuffer_write b (Some r) w = (b', rp, w')"
  shows "\<exists>k. iob_ok b' \<and> iob_frame b' = iob_frame b \<and> k \<le> length (iob_content b)
    \<and> iob_content b' = drop k (iob_content b) \<and> out w' = out w @ take k (iob_content b)
    \<and> rp = Some (r - int k) \<and> int k \<le> max 0 r"
proof (cases "gfarm_iobuffer_empty b \<or> r \<le> 0")
  case True
  have "iob_ok b' \<and> iob_frame b' = iob_frame b \<and> iob_content b' = iob_content b \<and> out w' = out w \<and> rp = Some r"
  proof (cases "gfarm_iobuffer_empty b")
    case True
    then obtain b1 w1 where e: "iobuffer_on_empty b w = (b1, w1)" "b' = b1" "w' = w1" "rp = Some r"
      using wr by (auto simp: gfarm_iobuffer_write_def split: prod.splits)
    moreover have "out w1 = out w"
      using e(1) close by (auto simp: iobuffer_on_empty_def gfarm_iobuffer_write_close_def close_keeps_def split: if_splits)
    ultimately show ?thesis using on_empty_spec [OF e(1)] ok by simp
  next
    case False
    then show ?thesis using True wr ok by (auto simp: gfarm_iobuffer_write_def Let_def)
  qed
  then show ?thesis by (intro exI [of _ 0]) simp
next
  case False
  then have ne: "\<not> gfarm_iobuffer_empty b" and pos: "\<not> r \<le> 0" by simp_all
  let ?n = "if r < gfarm_iobuffer_avail_length b then r else gfarm_iobuffer_avail_length b"
  let ?d = "mem_read (ib_buffer b) (ib_head b) ?n"
  have avail: "0 < gfarm_iobuffer_avail_length b" "gfarm_iobuffer_avail_length b = int (length (iob_content b))"
    using ne length_iob_content [OF ok] by (simp_all add: iob_simps)
  have n: "0 < ?n" "?n \<le> r" using avail pos by simp_all
  have d: "?d = take (nat ?n) (iob_content b)" "?d \<noteq> []" "length ?d = nat ?n"
    using n avail by (auto simp: mem_read_def iob_content_def gfarm_iobuffer_avail_length_def take_map min_def)
  obtain rv w1 where h: "wfn (ib_write_cookie b) (ib_write_fd b) ?d w = (rv, w1)" by fastforce
  note unf = wr [unfolded gfarm_iobuffer_write_def, unfolded if_not_P [OF ne] Let_def option.case if_not_P [OF pos] wfn h prod.case]
  show ?thesis
  proof (cases rv)
    case (Io_fail e)
    then show ?thesis using unf refused [OF d(2) h [unfolded Io_fail]] ok
      by (intro exI [of _ 0]) (auto simp: gfarm_iobuffer_set_error_def)
  next
    case (Io_put k)
    from took [OF d(2) h [unfolded Io_put]] d
    have k: "k \<le> nat ?n" "out w1 = out w @ take k (iob_content b)" by (auto simp: min_def)
    have res: "b' = (if k > 0 then iobuffer_advance b (int k) else b)" "w' = w1" "rp = Some (r - int k)"
      using unf Io_put by (auto split: if_splits)
    have kn: "int k \<le> ?n" using k(1) n(1) by linarith
    then have kl: "int k \<le> ib_tail b - ib_head b" "k \<le> length (iob_content b)" "int k \<le> r"
      using avail n(2) by (auto simp: gfarm_iobuffer_avail_length_def split: if_splits)
    then show ?thesis using res k(2) ok advance_spec [OF ok, of "int k"]
      by (intro exI [of _ k]) (auto split: if_splits)
  qed
qed

end

text \<open>Writing leaves what the peer has sent, and the patience of the system calls, alone.\<close>

lemma nonblocking_write_calm:
  assumes "fd_calm w" and "ib_write_func b = gfarm_iobuffer_nonblocking_write_socket_op"
    and "ib_write_close_func b = gfarm_iobuffer_write_close_nop" and "gfarm_iobuffer_write b rp w = (b', rp', w')"
  shows "fd_calm w' \<and> fw_in w' = fw_in w"
proof -
  have "fd_calm w' \<and> fw_in w' = fw_in w" if "sys_send fd data w = (q, w')" for fd data q w'
    using that assms(1) by (auto simp: sys_send_def fd_calm_def split: list.splits sys_event.splits)
  then have hook: "fd_calm w' \<and> fw_in w' = fw_in w"
    if "gfarm_iobuffer_nonblocking_write_socket_op c fd data w = (q, w')" for c fd data q w'
    using that by (fastforce simp: gfarm_iobuffer_nonblocking_write_socket_op_def gfarm_send_no_sigpipe_def
        split: prod.splits sum.splits)
  show ?thesis
    using assms(1,2,4) hook
    by (auto simp: gfarm_iobuffer_write_def iobuffer_on_empty_def gfarm_iobuffer_write_close_def assms(3)
        gfarm_iobuffer_write_close_nop_def Let_def split: if_splits prod.splits io_out.splits)
qed

subsection \<open>Messages of input\<close>

text \<open>An input message: the header with the length, and the bytes.\<close>

definition input_header :: "nat \<Rightarrow> byte list" where
  "input_header n = command_bytes GFS_PROTO_COMMAND_FD_INPUT @ int32_chunk 0 @ int32_chunk (word_of_nat n)"

definition input_message :: "byte list \<Rightarrow> byte list" where
  "input_message bs = input_header (length bs) @ bs"

text \<open>
  Feeding a command: bytes put into its buffer, the end of the input, and the steps of the client's machine on
  the connection; \<open>data\<close> is what the buffer has accepted so far.
\<close>

inductive command_feed ::
  "fd_world gfp_xdr \<Rightarrow> fd_world command_context \<Rightarrow> fd_world \<Rightarrow> byte list \<Rightarrow> fd_world gfp_xdr \<Rightarrow> fd_world command_context
     \<Rightarrow> fd_world \<Rightarrow> bool" for conn cc w where
  feed_start: "command_feed conn cc w [] conn cc w"
| feed_put: "command_feed conn cc w data conn1 cc1 w1 \<Longrightarrow>
    gfarm_iobuffer_put (cc_iobuffer cc1 FDESC_STDIN) new = (b, n) \<Longrightarrow>
    command_feed conn cc w (data @ take (nat n) new) conn1 (cc_set_iobuffer FDESC_STDIN b cc1) w1"
| feed_close: "command_feed conn cc w data conn1 cc1 w1 \<Longrightarrow>
    command_feed conn cc w data conn1
      (cc_set_iobuffer FDESC_STDIN (gfarm_iobuffer_set_read_eof (cc_iobuffer cc1 FDESC_STDIN)) cc1) w1"
| feed_round: "command_feed conn cc w data conn1 cc1 w1 \<Longrightarrow> gfs_client_command_is_running cc1 \<Longrightarrow>
    io_client conn1 cc1 w1 = Some (e, conn2, cc2, w2) \<Longrightarrow> command_feed conn cc w data conn2 cc2 w2"

text \<open>The buffer of the input goes to the socket, and closing it on its end does nothing more.\<close>

definition stdin_ok :: "fd_world command_context \<Rightarrow> bool" where
  "stdin_ok cc \<longleftrightarrow> iob_ok (cc_iobuffer cc FDESC_STDIN)
   \<and> ib_write_func (cc_iobuffer cc FDESC_STDIN) = gfarm_iobuffer_nonblocking_write_socket_op
   \<and> ib_write_close_func (cc_iobuffer cc FDESC_STDIN) = gfarm_iobuffer_write_close_nop
   \<and> cc_pending_signal cc = 0"

abbreviation stdin_content :: "fd_world command_context \<Rightarrow> byte list" where
  "stdin_content cc \<equiv> iob_content (cc_iobuffer cc FDESC_STDIN)"

text \<open>What the wire has got since the beginning: whole messages, and the first part of the one under way.\<close>

definition fed ::
  "byte list \<Rightarrow> byte list \<Rightarrow> fd_world gfp_xdr \<Rightarrow> fd_world command_context \<Rightarrow> fd_world \<Rightarrow> bool" where
  "fed out0 data conn cc w \<longleftrightarrow>
     (case cc_client_state cc of
        GFS_COMMAND_CLIENT_STATE_NEUTRAL \<Rightarrow>
          (\<exists>msgs. to_peer conn w = out0 @ concat (map input_message msgs) \<and> data = concat msgs @ stdin_content cc)
      | GFS_COMMAND_CLIENT_STATE_OUTPUT \<Rightarrow>
          (\<exists>msgs gone rest. to_peer conn w = out0 @ concat (map input_message msgs) @ input_header (length gone + length rest) @ gone
             \<and> data = concat msgs @ gone @ stdin_content cc \<and> prefix rest (stdin_content cc)
             \<and> cc_client_output_residual cc = int (length rest)))"

definition feed_inv ::
  "byte list \<Rightarrow> byte list \<Rightarrow> fd_world gfp_xdr \<Rightarrow> fd_world command_context \<Rightarrow> fd_world \<Rightarrow> bool" where
  "feed_inv out0 data conn cc w \<longleftrightarrow> (gfs_client_command_is_running cc \<longrightarrow>
     xdr_ready conn w \<and> stdin_ok cc \<and> fed out0 data conn cc w
     \<and> (cc_client_state cc = GFS_COMMAND_CLIENT_STATE_OUTPUT \<longrightarrow> iob_content (sendbuffer conn) = []))"

lemma feed_put_inv:
  assumes "feed_inv out0 data conn cc w" and "gfarm_iobuffer_put (cc_iobuffer cc FDESC_STDIN) new = (b, n)"
  shows "feed_inv out0 (data @ take (nat n) new) conn (cc_set_iobuffer FDESC_STDIN b cc) w"
proof (cases "gfs_client_command_is_running cc")
  case True
  then have st: "stdin_ok cc" and fed: "fed out0 data conn cc w" using assms(1) by (simp_all add: feed_inv_def)
  have "iob_ok (cc_iobuffer cc FDESC_STDIN)" using st by (simp add: stdin_ok_def)
  note p = put_spec [OF this assms(2)]
  have b: "stdin_ok (cc_set_iobuffer FDESC_STDIN b cc)"
    using st p(1) frame_fields [OF p(3)] by (simp add: stdin_ok_def cc_set_iobuffer_def)
  have c: "stdin_content (cc_set_iobuffer FDESC_STDIN b cc) = stdin_content cc @ take (nat n) new"
    using p(2) by (simp add: cc_set_iobuffer_def)
  have "fed out0 (data @ take (nat n) new) conn (cc_set_iobuffer FDESC_STDIN b cc) w"
  proof (cases "cc_client_state cc")
    case GFS_COMMAND_CLIENT_STATE_NEUTRAL
    then show ?thesis using fed c by (auto simp: fed_def cc_set_iobuffer_def)
  next
    case GFS_COMMAND_CLIENT_STATE_OUTPUT
    then obtain msgs gone rest where
      "to_peer conn w = out0 @ concat (map input_message msgs) @ input_header (length gone + length rest) @ gone"
      "data = concat msgs @ gone @ stdin_content cc" "prefix rest (stdin_content cc)"
      "cc_client_output_residual cc = int (length rest)" using fed by (auto simp: fed_def)
    then show ?thesis using GFS_COMMAND_CLIENT_STATE_OUTPUT c
      unfolding fed_def c by (simp add: cc_set_iobuffer_def) (metis append.assoc prefix_prefix)
  qed
  then show ?thesis using assms(1) True b by (simp add: feed_inv_def cc_set_iobuffer_def gfs_client_command_is_running_def)
qed (auto simp: feed_inv_def gfs_client_command_is_running_def cc_set_iobuffer_def)

lemma feed_close_inv:
  assumes "feed_inv out0 data conn cc w"
  shows "feed_inv out0 data conn
    (cc_set_iobuffer FDESC_STDIN (gfarm_iobuffer_set_read_eof (cc_iobuffer cc FDESC_STDIN)) cc) w"
  (is "feed_inv _ _ _ ?cc' _")
proof -
  have "iob_content (gfarm_iobuffer_set_read_eof b) = iob_content b" for b :: "fd_world iobuffer" by simp
  then have "fed out0 data conn ?cc' w = fed out0 data conn cc w"
    by (auto simp: fed_def cc_set_iobuffer_def split: command_client_state.split)
  then show ?thesis using assms
    by (simp add: feed_inv_def stdin_ok_def cc_set_iobuffer_def gfs_client_command_is_running_def
        gfarm_iobuffer_set_read_eof_def iob_ok_def)
qed

text \<open>The header is sent and flushed: an input message is under way.\<close>

lemma feed_header:
  assumes inv: "feed_inv out0 data conn cc w" and run: "gfs_client_command_is_running cc"
    and st: "cc_client_state cc = GFS_COMMAND_CLIENT_STATE_NEUTRAL"
    and io: "io_client conn cc w = Some (e, conn', cc', w')"
  shows "feed_inv out0 data conn' cc' w'"
proof -
  have ready: "xdr_ready conn w" and ok: "stdin_ok cc" and fed: "fed out0 data conn cc w"
    using inv run by (simp_all add: feed_inv_def)
  let ?b = "cc_iobuffer cc 0"
  show ?thesis
  proof (cases "gfarm_iobuffer_is_writable ?b")
    case False
    then have "conn' = conn" "cc' = cc" "w' = w" using io st ok by (simp_all add: io_client_def stdin_ok_def)
    then show ?thesis using inv by simp
  next
    case True
    let ?n = "gfarm_iobuffer_avail_length ?b"
    have n: "?n = int (length (stdin_content cc))"
      using ok by (simp add: stdin_ok_def length_iob_content iob_simps)
    have enc: "xdr_encode ''iii'' [Arg_int GFS_PROTO_COMMAND_FD_INPUT, Arg_int FDESC_STDIN, Arg_int ?n]
        = Some (input_header (length (stdin_content cc)))"
      by (simp add: xdr_chunks.simps input_header_def command_bytes_def n)
    from send_ready [OF ready enc] obtain conn1 w1 where
      1: "gfp_xdr_send conn ''iii'' [Arg_int GFS_PROTO_COMMAND_FD_INPUT, Arg_int FDESC_STDIN, Arg_int ?n] w
          = Some (conn1, GFARM_ERR_NO_ERROR, w1)" "xdr_ready conn1 w1"
        "to_peer conn1 w1 = to_peer conn w @ input_header (length (stdin_content cc))" by blast
    from flush_ready [OF 1(2)] obtain conn2 w2 where
      2: "gfp_xdr_flush conn1 w1 = Some (conn2, GFARM_ERR_NO_ERROR, w2)" "xdr_ready conn2 w2"
        "to_peer conn2 w2 = to_peer conn1 w1" "fw_out w2 = to_peer conn1 w1" by blast
    have r: "conn' = conn2" "w' = w2"
      "cc' = cc\<lparr>cc_client_output_residual := ?n, cc_client_state := GFS_COMMAND_CLIENT_STATE_OUTPUT\<rparr>"
      using io st ok True 1(1) 2(1) by (simp_all add: io_client_def stdin_ok_def io_client_message_def Let_def)
    have empty: "iob_content (sendbuffer conn2) = []" using 2(3,4) by (simp add: sent_def)
    obtain msgs where m: "to_peer conn w = out0 @ concat (map input_message msgs)" "data = concat msgs @ stdin_content cc"
      using fed st by (auto simp: fed_def)
    have "fed out0 data conn' cc' w'"
      unfolding fed_def r
      by (simp, rule exI [of _ msgs], rule exI [of _ "[]"], rule exI [of _ "stdin_content cc"]) (simp add: m 1(3) 2(3) n)
    moreover have "stdin_ok cc'" using ok by (simp add: r stdin_ok_def)
    ultimately show ?thesis using 2(2) empty by (simp add: feed_inv_def r)
  qed
qed

text \<open>A part of the message is written; with its last byte the message is complete.\<close>

lemma feed_data:
  assumes inv: "feed_inv out0 data conn cc w" and run: "gfs_client_command_is_running cc"
    and st: "cc_client_state cc = GFS_COMMAND_CLIENT_STATE_OUTPUT"
    and io: "io_client conn cc w = Some (e, conn', cc', w')"
  shows "feed_inv out0 data conn' cc' w'"
proof -
  have ready: "xdr_ready conn w" and ok: "stdin_ok cc" and fed: "fed out0 data conn cc w"
    and empty: "iob_content (sendbuffer conn) = []" using inv run st by (simp_all add: feed_inv_def)
  let ?b = "cc_iobuffer cc 0"
  obtain msgs gone rest where m:
    "to_peer conn w = out0 @ concat (map input_message msgs) @ input_header (length gone + length rest) @ gone"
    "data = concat msgs @ gone @ stdin_content cc" "prefix rest (stdin_content cc)"
    "cc_client_output_residual cc = int (length rest)" using fed st by (auto simp: fed_def)
  obtain b1 rp w1 where g: "gfarm_iobuffer_write ?b (Some (int (length rest))) w = (b1, rp, w1)" by (metis prod_cases3)
  have b: "iob_ok ?b" "ib_write_func ?b = gfarm_iobuffer_nonblocking_write_socket_op"
    "ib_write_close_func ?b = gfarm_iobuffer_write_close_nop" "close_keeps fw_out ?b"
    using ok by (simp_all add: stdin_ok_def)
  from nbw.write_part [OF b(1,2,4) g] obtain k where k: "iob_ok b1" "iob_frame b1 = iob_frame ?b"
    "k \<le> length (stdin_content cc)" "iob_content b1 = drop k (stdin_content cc)"
    "fw_out w1 = fw_out w @ take k (stdin_content cc)" "rp = Some (int (length rest) - int k)" "k \<le> length rest" by auto
  have calm: "fd_calm w1" "fw_in w1 = fw_in w"
    using nonblocking_write_calm [OF _ b(2,3) g] ready by (simp_all add: xdr_ready_def receiver_ok_def)
  have rest: "take k (stdin_content cc) = take k rest" "rest = take k rest @ drop k rest"
    using m(3) k(7) by (auto simp: prefix_def)
  let ?cc1 = "(cc_set_iobuffer 0 b1 cc)\<lparr>cc_client_output_residual := int (length rest) - int k\<rparr>"
  let ?cc2 = "if int (length rest) - int k = 0 then ?cc1\<lparr>cc_client_state := GFS_COMMAND_CLIENT_STATE_NEUTRAL\<rparr> else ?cc1"
  have r: "w' = w1" "conn' = conn"
    "cc' = (if gfarm_iobuffer_get_error b1 \<noteq> GFARM_ERR_NO_ERROR
      then cc_abort (cc_set_iobuffer 0 (gfarm_iobuffer_set_error b1 GFARM_ERR_NO_ERROR) ?cc2) else ?cc2)"
    using io unfolding io_client_def st command_client_state.case m(4) g prod.case k(6) option.case Let_def
    by (auto split: if_splits)
  have out: "to_peer conn w1 = to_peer conn w @ take k rest" using k(5) rest(1) empty by (simp add: sent_def)
  have ready': "xdr_ready conn w1"
    using ready_sent [OF ready _ calm refl] ready by (simp add: xdr_ready_def)
  have ok2: "stdin_ok ?cc2" using ok k(1) frame_fields [OF k(2)] by (simp add: stdin_ok_def cc_set_iobuffer_def)
  have c2: "stdin_content ?cc2 = drop k (stdin_content cc)" by (simp add: cc_set_iobuffer_def k(4))
  have split: "stdin_content cc = take k rest @ drop k (stdin_content cc)"
    using rest(1) append_take_drop_id [of k "stdin_content cc"] by simp
  have fed2: "fed out0 data conn ?cc2 w1"
  proof (cases "k = length rest")
    case True
    then have neutral: "cc_client_state ?cc2 = GFS_COMMAND_CLIENT_STATE_NEUTRAL" by simp
    have "to_peer conn w1 = out0 @ concat (map input_message (msgs @ [gone @ rest]))"
      using out m(1) True by (simp add: input_message_def)
    moreover have "data = concat (msgs @ [gone @ rest]) @ stdin_content ?cc2"
      unfolding c2 using m(2) split True by simp
    ultimately show ?thesis unfolding fed_def neutral command_client_state.case by blast
  next
    case False
    then have busy: "cc_client_state ?cc2 = GFS_COMMAND_CLIENT_STATE_OUTPUT"
      using st k(7) by (auto simp: cc_set_iobuffer_def)
    have "cc_client_output_residual ?cc2 = int (length (drop k rest))"
      using k(7) by (auto simp: cc_set_iobuffer_def)
    moreover have "to_peer conn w1 = out0 @ concat (map input_message msgs)
        @ input_header (length (gone @ take k rest) + length (drop k rest)) @ gone @ take k rest"
      using out m(1) k(7) by simp
    moreover have "data = concat msgs @ (gone @ take k rest) @ stdin_content ?cc2"
      unfolding c2 using m(2) split by simp
    moreover have "prefix (drop k rest) (stdin_content ?cc2)"
      unfolding c2 using m(3) k(7) by (auto simp: prefix_def)
    ultimately show ?thesis unfolding fed_def busy command_client_state.case by blast
  qed
  show ?thesis
  proof (cases "gfarm_iobuffer_get_error b1 \<noteq> GFARM_ERR_NO_ERROR")
    case True
    then show ?thesis by (simp add: feed_inv_def r cc_abort_def gfs_client_command_is_running_def)
  next
    case False
    then have "cc' = ?cc2" using r by simp
    then show ?thesis using r(1,2) fed2 ok2 ready' empty by (simp only: feed_inv_def simp_thms)
  qed
qed

lemma feed_inv_run:
  "command_feed conn cc w data conn' cc' w' \<Longrightarrow> feed_inv out0 [] conn cc w \<Longrightarrow> feed_inv out0 data conn' cc' w'"
proof (induction rule: command_feed.induct)
  case (feed_round data conn1 cc1 w1 e conn2 cc2 w2)
  then show ?case using feed_header feed_data by (cases "cc_client_state cc1") blast+
qed (auto intro: feed_put_inv feed_close_inv)

subsection \<open>Properties\<close>

text \<open>C31: the input of a command on the wire. Whatever is put into a fresh command, with whatever rounds of the
  client's machine between, however short the writes: as long as the command runs, the server has got whole input
  messages, each announced with its length, and the beginning of at most one more; their bytes, followed by
  what is still buffered, are exactly the bytes that were accepted, in order; and of a message under way the
  buffer holds as much as was announced and is not yet sent.\<close>

theorem command_input_framed:
  assumes "fresh_command sndbuf rcvbuf flags pid conn = Some cc" and "iob_ops conn = gfp_xdr_socket_iobuffer_ops"
    and "\<forall>n. sndbuf = Some n \<longrightarrow> 0 < n" and "\<forall>n. rcvbuf = Some n \<longrightarrow> 0 < n" and "xdr_ready conn w"
    and "command_feed conn cc w data conn' cc' w'" and "gfs_client_command_is_running cc'"
  shows "\<exists>msgs gone rest. to_peer conn' w' = to_peer conn w @ concat (map input_message msgs)
        @ (if cc_client_state cc' = GFS_COMMAND_CLIENT_STATE_OUTPUT then input_header (length gone + length rest) @ gone else [])
    \<and> data = concat msgs @ gone @ stdin_content cc' \<and> prefix rest (stdin_content cc')
    \<and> (cc_client_state cc' = GFS_COMMAND_CLIENT_STATE_NEUTRAL \<longrightarrow> gone = [])"
proof -
  have "feed_inv (to_peer conn w) [] conn cc w"
    using fresh_command_ok [OF assms(1-4)] assms(5)
    by (auto simp: feed_inv_def stdin_ok_def cc_ok_def buffer_ok_def fed_def intro!: exI [of _ "[]"])
  from feed_inv_run [OF assms(6) this] assms(7) have fed: "fed (to_peer conn w) data conn' cc' w'"
    by (simp add: feed_inv_def)
  show ?thesis
  proof (cases "cc_client_state cc'")
    case GFS_COMMAND_CLIENT_STATE_NEUTRAL
    with fed obtain msgs where "to_peer conn' w' = to_peer conn w @ concat (map input_message msgs)"
      "data = concat msgs @ stdin_content cc'" by (auto simp: fed_def)
    with GFS_COMMAND_CLIENT_STATE_NEUTRAL show ?thesis
      by (intro exI [of _ msgs] exI [of _ "[]"]) simp
  next
    case GFS_COMMAND_CLIENT_STATE_OUTPUT
    with fed show ?thesis by (auto simp: fed_def)
  qed
qed

subsection \<open>Witness\<close>

theorem command_input_framed_witness:
  "\<exists>cc b msgs gone. fresh_command None None 0 7 sample_conn = Some cc
     \<and> gfarm_iobuffer_put (cc_iobuffer cc FDESC_STDIN) [1, 2, 3] = (b, 3)
     \<and> to_peer sample_conn (peer_world []) = concat (map input_message msgs)
     \<and> [1, 2, 3] = concat msgs @ gone @ iob_content b"
proof -
  obtain cc where cc: "fresh_command None None 0 7 sample_conn = Some cc" using sample_command by blast
  note x = new_socket_ready [OF sample_conn_new peer_world_calm, of "[]"]
  note fresh = fresh_command_ok [OF cc sample_conn_ops]
  have put: "\<exists>b. gfarm_iobuffer_put (cc_iobuffer cc FDESC_STDIN) [1, 2, 3] = (b, 3)"
    using cc by (auto simp: fresh_command_def command_context_init_def Let_def gfarm_iobuffer_alloc_def
        gfarm_malloc_array_def gfarm_size_mul_def gfarm_iobuffer_put_def iob_simps iobuffer_move_front_def
        gfarm_iobuffer_set_nonblocking_write_xxx_def gfarm_iobuffer_set_write_def gfarm_iobuffer_set_read_def)
  then obtain b where b: "gfarm_iobuffer_put (cc_iobuffer cc FDESC_STDIN) [1, 2, 3] = (b, 3)" by blast
  have f: "command_feed sample_conn cc (peer_world []) ([] @ take (nat 3) [1, 2, 3]) sample_conn
      (cc_set_iobuffer FDESC_STDIN b cc) (peer_world [])"
    by (rule feed_put [OF feed_start b])
  have run: "gfs_client_command_is_running (cc_set_iobuffer FDESC_STDIN b cc)"
    "cc_client_state (cc_set_iobuffer FDESC_STDIN b cc) = GFS_COMMAND_CLIENT_STATE_NEUTRAL"
    using fresh by (simp_all add: gfs_client_command_is_running_def cc_set_iobuffer_def)
  have "xdr_ready sample_conn (peer_world [])" "to_peer sample_conn (peer_world []) = []"
    using x by (simp_all add: peer_world_def)
  from command_input_framed [OF cc sample_conn_ops _ _ this(1) f run(1)] run(2) this(2)
  obtain msgs gone where "to_peer sample_conn (peer_world []) = concat (map input_message msgs)"
    "[1, 2, 3] = concat msgs @ gone @ iob_content b" by (auto simp: cc_set_iobuffer_def)
  with cc b show ?thesis by blast
qed

end
