(* ===== verification/Gfevent.thy ===== *)
theory Gfevent
  imports Timeval Alloc "HOL-Library.Monad_Syntax"
begin

text \<open>
  \<open>gfutil/gfevent.c\<close>: events on descriptors and timers, a queue of them, and the loop over \<open>select\<close>(2) that calls
  back. The queue is a doubly linked circular list with a header: addresses are numbers, 0 is the
  header inside the queue, \<open>ev_heap\<close> holds the allocated events. \<open>None\<close> is a \<open>NULL\<close> or freed pointer that was
  followed, a bit set outside a \<open>fd_set\<close>, or a loop that does not end.

  A callback and its closure are one value \<open>'c\<close>; what calling it does to the queue and to the world \<open>'w\<close> is a
  parameter, \<open>callback c events fd time\<close>. \<open>fd_set\<close>s are allocated blocks of bits that grow with the descriptors.
\<close>

subsection \<open>Events\<close>

datatype event_type = GFARM_FD_EVENT | GFARM_TIMER_EVENT

abbreviation (input) GFARM_EVENT_TIMEOUT :: int where "GFARM_EVENT_TIMEOUT \<equiv> 1"
abbreviation (input) GFARM_EVENT_READ :: int where "GFARM_EVENT_READ \<equiv> 2"
abbreviation (input) GFARM_EVENT_WRITE :: int where "GFARM_EVENT_WRITE \<equiv> 4"
abbreviation (input) GFARM_EVENT_EXCEPTION :: int where "GFARM_EVENT_EXCEPTION \<equiv> 8"

record 'c event =
  ev_next :: "nat option"
  ev_prev :: "nat option"
  ev_filter :: int
  ev_closure :: 'c
  ev_timeout :: timeval
  ev_timeout_specified :: bool
  ev_type :: event_type
  ev_fd :: int

text \<open>The three \<open>fd_set\<close>s of a queue, by what is waited for; each is \<open>NULL\<close> until it is needed.\<close>

datatype fd_set_kind = Set_read | Set_write | Set_exception

record fd_bits =
  fb_bytes :: u64
  fb_set :: "int set"

record 'c eventqueue =
  ev_heap :: "nat \<Rightarrow> 'c event option"
  ev_brk :: nat
  q_next :: nat
  q_prev :: nat
  fd_set_size :: int
  fd_set_bytes :: u64
  fd_sets :: "fd_set_kind \<Rightarrow> fd_bits option"

abbreviation event_header :: nat where "event_header \<equiv> 0"

definition has_event :: "int \<Rightarrow> int \<Rightarrow> bool" where
  "has_event filt flag \<longleftrightarrow> and filt flag \<noteq> 0"

text \<open>Addresses are not used again; what \<open>malloc\<close> leaves in the fields that are not set is the first argument.\<close>

definition event_new :: "'c event \<Rightarrow> 'c eventqueue \<Rightarrow> nat \<times> 'c eventqueue" where
  "event_new ev q = (ev_brk q, q\<lparr>ev_heap := (ev_heap q)(ev_brk q := Some ev), ev_brk := ev_brk q + 1\<rparr>)"

definition gfarm_fd_event_alloc ::
  "'c event \<Rightarrow> bool \<Rightarrow> int \<Rightarrow> int \<Rightarrow> 'c \<Rightarrow> 'c eventqueue \<Rightarrow> nat option \<times> 'c eventqueue" where
  "gfarm_fd_event_alloc junk malc filt fd closure q =
     (if \<not> malc then (None, q)
      else
        let (p, q') = event_new (junk\<lparr>ev_next := None, ev_prev := None, ev_type := GFARM_FD_EVENT, ev_filter := filt,
                                      ev_closure := closure, ev_fd := fd\<rparr>) q
        in (Some p, q'))"

definition gfarm_timer_event_alloc ::
  "'c event \<Rightarrow> bool \<Rightarrow> 'c \<Rightarrow> 'c eventqueue \<Rightarrow> nat option \<times> 'c eventqueue" where
  "gfarm_timer_event_alloc junk malc closure q =
     (if \<not> malc then (None, q)
      else
        let (p, q') = event_new (junk\<lparr>ev_next := None, ev_prev := None, ev_type := GFARM_TIMER_EVENT,
                                      ev_filter := GFARM_EVENT_TIMEOUT, ev_closure := closure\<rparr>) q
        in (Some p, q'))"

definition event_update :: "nat \<Rightarrow> ('c event \<Rightarrow> 'c event) \<Rightarrow> 'c eventqueue \<Rightarrow> 'c eventqueue option" where
  "event_update p f q =
     map_option (\<lambda>e. q\<lparr>ev_heap := (ev_heap q)(p := Some (f e))\<rparr>) (ev_heap q p)"

definition gfarm_fd_event_set_callback :: "nat \<Rightarrow> 'c \<Rightarrow> 'c eventqueue \<Rightarrow> 'c eventqueue option" where
  "gfarm_fd_event_set_callback p closure = event_update p (\<lambda>e. e\<lparr>ev_closure := closure\<rparr>)"

definition gfarm_timer_event_set_callback :: "nat \<Rightarrow> 'c \<Rightarrow> 'c eventqueue \<Rightarrow> 'c eventqueue option" where
  "gfarm_timer_event_set_callback p closure = event_update p (\<lambda>e. e\<lparr>ev_closure := closure\<rparr>)"

definition gfarm_event_free :: "nat \<Rightarrow> 'c eventqueue \<Rightarrow> 'c eventqueue" where
  "gfarm_event_free p q = q\<lparr>ev_heap := (ev_heap q)(p := None)\<rparr>"

subsection \<open>The sets of descriptors\<close>

definition gfarm_eventqueue_alloc :: "bool \<Rightarrow> 'c eventqueue option" where
  "gfarm_eventqueue_alloc malc =
     (if malc
      then Some \<lparr>ev_heap = (\<lambda>_. None), ev_brk = 1, q_next = event_header, q_prev = event_header,
                 fd_set_size = 0, fd_set_bytes = 0, fd_sets = (\<lambda>_. None)\<rparr>
      else None)"

text \<open>\<open>True\<close> is success. The bits behind \<open>old_bytes\<close> are cleared.\<close>

definition gfarm_eventqueue_realloc_fd_set ::
  "(u64 \<Rightarrow> bool) \<Rightarrow> u64 \<Rightarrow> u64 \<Rightarrow> fd_set_kind \<Rightarrow> 'c eventqueue \<Rightarrow> bool \<times> 'c eventqueue" where
  "gfarm_eventqueue_realloc_fd_set mal old_bytes new_bytes k q =
     (case fd_sets q k of
        None \<Rightarrow> (True, q)
      | Some b \<Rightarrow>
          if \<not> mal new_bytes then (False, q)
          else (True, q\<lparr>fd_sets := (fd_sets q)(k := Some \<lparr>fb_bytes = new_bytes,
                           fb_set = {fd \<in> fb_set b. fd < 8 * uint old_bytes}\<rparr>)\<rparr>))"

text \<open>The size is doubled until the descriptor is below it; \<open>fd\<close> is converted to \<open>size_t\<close>.\<close>

partial_function (option) fds_size_loop :: "int \<Rightarrow> u64 \<Rightarrow> u64 option" where
  "fds_size_loop fd fds_size =
     (if fds_size \<le> word_of_int fd then fds_size_loop fd (fds_size + fds_size) else Some fds_size)"

abbreviation (input) MIN_FDS_SIZE :: int where "MIN_FDS_SIZE \<equiv> 1024"

definition fds_grow :: "(u64 \<Rightarrow> bool) \<Rightarrow> int \<Rightarrow> 'c eventqueue \<Rightarrow> (bool \<times> 'c eventqueue) option" where
  "fds_grow mal fd q =
     (case fds_size_loop fd (word_of_int (if fd_set_size q > 0 then fd_set_size q else MIN_FDS_SIZE)) of
        None \<Rightarrow> None
      | Some fds_size \<Rightarrow>
          let (o1, n) = gfarm_size_add False fds_size 63;
              (o2, fds_bytes) = gfarm_size_mul o1 (n div 64) 8;
              (o3, size) = gfarm_size_mul o2 fds_bytes 8
          in Some (if o3 then (False, q)
                   else
                     let (r1, q1) = gfarm_eventqueue_realloc_fd_set mal (fd_set_bytes q) fds_bytes Set_read q
                     in if \<not> r1 then (False, q1)
                        else
                          let (r2, q2) = gfarm_eventqueue_realloc_fd_set mal (fd_set_bytes q) fds_bytes Set_write q1
                          in if \<not> r2 then (False, q2)
                             else
                               let (r3, q3) = gfarm_eventqueue_realloc_fd_set mal (fd_set_bytes q) fds_bytes
                                                Set_exception q2
                               in if \<not> r3 then (False, q3)
                                  else (True, q3\<lparr>fd_set_bytes := fds_bytes, fd_set_size := as_int32 (uint size)\<rparr>)))"

definition gfarm_eventqueue_alloc_fd_set ::
  "(u64 \<Rightarrow> bool) \<Rightarrow> int \<Rightarrow> fd_set_kind \<Rightarrow> 'c eventqueue \<Rightarrow> (bool \<times> 'c eventqueue) option" where
  "gfarm_eventqueue_alloc_fd_set mal fd k q =
     (case (if fd \<ge> fd_set_size q then fds_grow mal fd q else Some (True, q)) of
        None \<Rightarrow> None
      | Some (ok, q1) \<Rightarrow>
          Some (if \<not> ok then (False, q1)
                else if fd_sets q1 k \<noteq> None then (True, q1)
                else if \<not> mal (fd_set_bytes q1) then (False, q1)
                else (True, q1\<lparr>fd_sets := (fd_sets q1)(k := Some \<lparr>fb_bytes = fd_set_bytes q1, fb_set = {}\<rparr>)\<rparr>)))"

subsection \<open>Adding and deleting\<close>

abbreviation (input) EV_EINVAL :: int where "EV_EINVAL \<equiv> 22"
abbreviation (input) EV_ENOMEM :: int where "EV_ENOMEM \<equiv> 12"

definition event_set_next :: "nat \<Rightarrow> nat option \<Rightarrow> 'c eventqueue \<Rightarrow> 'c eventqueue option" where
  "event_set_next p n q =
     (if p = event_header then map_option (\<lambda>n. q\<lparr>q_next := n\<rparr>) n
      else event_update p (\<lambda>e. e\<lparr>ev_next := n\<rparr>) q)"

definition event_set_prev :: "nat \<Rightarrow> nat option \<Rightarrow> 'c eventqueue \<Rightarrow> 'c eventqueue option" where
  "event_set_prev p n q =
     (if p = event_header then map_option (\<lambda>n. q\<lparr>q_prev := n\<rparr>) n
      else event_update p (\<lambda>e. e\<lparr>ev_prev := n\<rparr>) q)"

text \<open>The \<open>fd_set\<close>s an event needs, in the order of the code.\<close>

fun event_sets_alloc ::
  "(u64 \<Rightarrow> bool) \<Rightarrow> int \<Rightarrow> int \<Rightarrow> (int \<times> fd_set_kind) list \<Rightarrow> 'c eventqueue \<Rightarrow> (bool \<times> 'c eventqueue) option" where
  "event_sets_alloc mal filt fd [] q = Some (True, q)"
| "event_sets_alloc mal filt fd ((flag, k) # ks) q =
     (if \<not> has_event filt flag then event_sets_alloc mal filt fd ks q
      else case gfarm_eventqueue_alloc_fd_set mal fd k q of
        None \<Rightarrow> None
      | Some (ok, q') \<Rightarrow> if ok then event_sets_alloc mal filt fd ks q' else Some (False, q'))"

definition event_flags :: "(int \<times> fd_set_kind) list" where
  "event_flags = [(GFARM_EVENT_READ, Set_read), (GFARM_EVENT_WRITE, Set_write), (GFARM_EVENT_EXCEPTION, Set_exception)]"

definition event_enqueue :: "nat \<Rightarrow> 'c eventqueue \<Rightarrow> 'c eventqueue option" where
  "event_enqueue p q =
     do { q1 \<leftarrow> event_set_next p (Some event_header) q;
          q2 \<leftarrow> event_set_prev p (Some (q_prev q1)) q1;
          q3 \<leftarrow> event_set_next (q_prev q2) (Some p) q2;
          Some (q3\<lparr>q_prev := p\<rparr>) }"

text \<open>The timeout of an event that is added, absolute; \<open>now\<close> is \<open>gettimeofday\<close>. \<open>None\<close> is \<open>EINVAL\<close>.\<close>

definition event_start ::
  "('w \<Rightarrow> timeval \<times> 'w) \<Rightarrow> timeval option \<Rightarrow> 'c event \<Rightarrow> 'w \<Rightarrow> ('c event \<times> 'w) option" where
  "event_start now timeout e w =
     (case timeout of
        None \<Rightarrow> Some (e\<lparr>ev_timeout_specified := False\<rparr>, w)
      | Some t \<Rightarrow>
          if has_event (ev_filter e) GFARM_EVENT_TIMEOUT
          then (case now w of
                  (n, w') \<Rightarrow> Some (e\<lparr>ev_timeout_specified := True, ev_timeout := gfarm_timeval_add n t\<rparr>, w'))
          else None)"

text \<open>The number is an \<open>errno\<close>, 0 on success.\<close>

definition gfarm_eventqueue_add_event ::
  "(u64 \<Rightarrow> bool) \<Rightarrow> ('w \<Rightarrow> timeval \<times> 'w) \<Rightarrow> nat \<Rightarrow> timeval option \<Rightarrow> 'c eventqueue \<Rightarrow> 'w
     \<Rightarrow> (int \<times> 'c eventqueue \<times> 'w) option" where
  "gfarm_eventqueue_add_event mal now p timeout q w =
     (case ev_heap q p of
        None \<Rightarrow> None
      | Some e \<Rightarrow>
          if ev_next e \<noteq> None \<or> ev_prev e \<noteq> None then Some (EV_EINVAL, q, w)
          else
            (case event_start now timeout e w of
               None \<Rightarrow> Some (EV_EINVAL, q, w)
             | Some (e', w') \<Rightarrow>
                 let q1 = q\<lparr>ev_heap := (ev_heap q)(p := Some e')\<rparr>
                 in (case ev_type e of
                       GFARM_FD_EVENT \<Rightarrow>
                         (case event_sets_alloc mal (ev_filter e) (ev_fd e) event_flags q1 of
                            None \<Rightarrow> None
                          | Some (ok, q2) \<Rightarrow>
                              if \<not> ok then Some (EV_ENOMEM, q2, w')
                              else map_option (\<lambda>q3. (0, q3, w')) (event_enqueue p q2))
                     | GFARM_TIMER_EVENT \<Rightarrow>
                         if timeout = None then Some (EV_EINVAL, q1, w')
                         else map_option (\<lambda>q2. (0, q2, w')) (event_enqueue p q1))))"

definition gfarm_eventqueue_delete_event :: "nat \<Rightarrow> 'c eventqueue \<Rightarrow> (int \<times> 'c eventqueue) option" where
  "gfarm_eventqueue_delete_event p q =
     (case ev_heap q p of
        None \<Rightarrow> None
      | Some e \<Rightarrow>
          (case (ev_next e, ev_prev e) of
             (Some n, Some r) \<Rightarrow>
               do { q1 \<leftarrow> event_set_prev n (Some r) q;
                    q2 \<leftarrow> event_set_next r (Some n) q1;
                    q3 \<leftarrow> event_update p (\<lambda>e. e\<lparr>ev_next := None, ev_prev := None\<rparr>) q2;
                    Some (0, q3) }
           | _ \<Rightarrow> Some (EV_EINVAL, q)))"

subsection \<open>A turn\<close>

text \<open>
  What a turn works with beside the queue. \<open>et_timeout\<close> is \<open>timeout\<close>, \<open>NULL\<close> or \<open>timeout_value\<close>; \<open>et_passed\<close> says which
  of the three pointers given to \<open>select\<close> are not \<open>NULL\<close>.
\<close>

record event_turn =
  et_timeout :: "timeval option"
  et_passed :: "fd_set_kind set"
  et_max_fd :: int

text \<open>\<open>FD_SET\<close> in a set of the queue.\<close>

definition fds_set :: "int \<Rightarrow> fd_set_kind \<Rightarrow> 'c eventqueue \<Rightarrow> 'c eventqueue option" where
  "fds_set fd k q =
     (case fd_sets q k of
        None \<Rightarrow> None
      | Some b \<Rightarrow>
          if 0 \<le> fd \<and> fd < 8 * uint (fb_bytes b)
          then Some (q\<lparr>fd_sets := (fd_sets q)(k := Some (b\<lparr>fb_set := insert fd (fb_set b)\<rparr>))\<rparr>) else None)"

definition fds_isset :: "int \<Rightarrow> fd_set_kind \<Rightarrow> 'c eventqueue \<Rightarrow> bool option" where
  "fds_isset fd k q =
     (case fd_sets q k of
        None \<Rightarrow> None
      | Some b \<Rightarrow> if 0 \<le> fd \<and> fd < 8 * uint (fb_bytes b) then Some (fd \<in> fb_set b) else None)"

text \<open>\<open>memset\<close> of the first \<open>fd_set_bytes\<close> bytes of every set; a set is never smaller.\<close>

definition fds_clear :: "'c eventqueue \<Rightarrow> 'c eventqueue" where
  "fds_clear q = q\<lparr>fd_sets := (\<lambda>k. map_option
     (\<lambda>b. b\<lparr>fb_set := {fd \<in> fb_set b. 8 * uint (fd_set_bytes q) \<le> fd}\<rparr>) (fd_sets q k))\<rparr>"

fun fds_set_flags ::
  "int \<Rightarrow> int \<Rightarrow> (int \<times> fd_set_kind) list \<Rightarrow> event_turn \<Rightarrow> 'c eventqueue \<Rightarrow> (event_turn \<times> 'c eventqueue) option" where
  "fds_set_flags filt fd [] t q = Some (t, q)"
| "fds_set_flags filt fd ((flag, k) # ks) t q =
     (if \<not> has_event filt flag then fds_set_flags filt fd ks t q
      else case fds_set fd k q of
        None \<Rightarrow> None
      | Some q' \<Rightarrow> fds_set_flags filt fd ks (t\<lparr>et_passed := insert k (et_passed t)\<rparr>) q')"

definition turn_prepare_event ::
  "'c event \<Rightarrow> event_turn \<Rightarrow> 'c eventqueue \<Rightarrow> (event_turn \<times> 'c eventqueue) option" where
  "turn_prepare_event e t q =
     (let t1 = (if ev_timeout_specified e
                then (case et_timeout t of
                        None \<Rightarrow> t\<lparr>et_timeout := Some (ev_timeout e)\<rparr>
                      | Some v \<Rightarrow> if gfarm_timeval_cmp (ev_timeout e) v < 0
                                  then t\<lparr>et_timeout := Some (ev_timeout e)\<rparr> else t)
                else t)
      in case ev_type e of
           GFARM_FD_EVENT \<Rightarrow>
             map_option (\<lambda>(t2, q'). (t2\<lparr>et_max_fd := max (et_max_fd t2) (ev_fd e)\<rparr>, q'))
               (fds_set_flags (ev_filter e) (ev_fd e) event_flags t1 q)
         | GFARM_TIMER_EVENT \<Rightarrow> Some (t1, q))"

partial_function (option) turn_prepare_loop ::
  "nat \<Rightarrow> event_turn \<Rightarrow> 'c eventqueue \<Rightarrow> (event_turn \<times> 'c eventqueue) option" where
  "turn_prepare_loop p t q =
     (if p = event_header then Some (t, q)
      else case ev_heap q p of
        None \<Rightarrow> None
      | Some e \<Rightarrow>
          (case turn_prepare_event e t q of
             None \<Rightarrow> None
           | Some (t', q') \<Rightarrow>
               (case ev_next e of None \<Rightarrow> None | Some n \<Rightarrow> turn_prepare_loop n t' q')))"

text \<open>The \<open>timeout\<close> that \<open>select\<close> gets: the absolute time less the present.\<close>

definition turn_timeout :: "timeval option \<Rightarrow> timeval \<Rightarrow> timeval option" where
  "turn_timeout timeout start_time =
     map_option (\<lambda>v. let d = gfarm_timeval_sub v start_time in if tv_sec d < 0 then Timeval 0 0 else d) timeout"

text \<open>
  \<open>select\<close> is given the number of descriptors, the sets passed and the timeout; it answers an \<open>errno\<close> or the sets
  of the descriptors that are ready.
\<close>

type_synonym 'w ev_select =
  "int \<Rightarrow> (fd_set_kind \<Rightarrow> int set option) \<Rightarrow> timeval option \<Rightarrow> 'w \<Rightarrow> (int + (fd_set_kind \<Rightarrow> int set)) \<times> 'w"

definition turn_select ::
  "'w ev_select \<Rightarrow> event_turn \<Rightarrow> timeval option \<Rightarrow> 'c eventqueue \<Rightarrow> 'w \<Rightarrow> (int + 'c eventqueue) \<times> 'w" where
  "turn_select select t timeout q w =
     (case select (et_max_fd t + 1)
             (\<lambda>k. if k \<in> et_passed t then map_option fb_set (fd_sets q k) else None) timeout w of
        (Inl errno, w') \<Rightarrow> (Inl errno, w')
      | (Inr found, w') \<Rightarrow>
          (Inr (q\<lparr>fd_sets := (\<lambda>k. if k \<in> et_passed t
                   then map_option (\<lambda>b. b\<lparr>fb_set := found k\<rparr>) (fd_sets q k) else fd_sets q k)\<rparr>), w'))"

type_synonym ('c, 'w) ev_callback =
  "'c \<Rightarrow> int \<Rightarrow> int \<Rightarrow> timeval \<Rightarrow> 'c eventqueue \<Rightarrow> 'w \<Rightarrow> ('c eventqueue \<times> 'w) option"

fun ready_events ::
  "int \<Rightarrow> int \<Rightarrow> (int \<times> fd_set_kind) list \<Rightarrow> 'c eventqueue \<Rightarrow> int option" where
  "ready_events filt fd [] q = Some 0"
| "ready_events filt fd ((flag, k) # ks) q =
     (case ready_events filt fd ks q of
        None \<Rightarrow> None
      | Some events \<Rightarrow>
          if \<not> has_event filt flag then Some events
          else map_option (\<lambda>b. if b then or events flag else events) (fds_isset fd k q))"

text \<open>The events an entry of the queue is called back for: \<open>None\<close> inside when it is not. A timer's callback has
  neither events nor descriptor; it is given 0.\<close>

definition event_due :: "'c event \<Rightarrow> timeval \<Rightarrow> 'c eventqueue \<Rightarrow> int option option" where
  "event_due e end_time q =
     (case ev_type e of
        GFARM_FD_EVENT \<Rightarrow>
          map_option (\<lambda>events.
              if events \<noteq> 0 then Some events
              else if ev_timeout_specified e \<and> gfarm_timeval_cmp end_time (ev_timeout e) \<ge> 0
              then Some GFARM_EVENT_TIMEOUT else None)
            (ready_events (ev_filter e) (ev_fd e) event_flags q)
      | GFARM_TIMER_EVENT \<Rightarrow>
          Some (if gfarm_timeval_cmp end_time (ev_timeout e) \<ge> 0 then Some 0 else None))"

definition turn_dispatch_event ::
  "('c, 'w) ev_callback \<Rightarrow> timeval \<Rightarrow> nat \<Rightarrow> 'c event \<Rightarrow> 'c eventqueue \<Rightarrow> 'w \<Rightarrow> ('c eventqueue \<times> 'w) option" where
  "turn_dispatch_event callback end_time p e q w =
     (case event_due e end_time q of
        None \<Rightarrow> None
      | Some None \<Rightarrow> Some (q, w)
      | Some (Some events) \<Rightarrow>
          (case gfarm_eventqueue_delete_event p q of
             None \<Rightarrow> None
           | Some (_, q1) \<Rightarrow>
               callback (ev_closure e) events (case ev_type e of GFARM_FD_EVENT \<Rightarrow> ev_fd e | GFARM_TIMER_EVENT \<Rightarrow> 0)
                 end_time q1 w))"

text \<open>The next entry is read before the callback runs.\<close>

partial_function (option) turn_dispatch_loop ::
  "('c, 'w) ev_callback \<Rightarrow> timeval \<Rightarrow> nat \<Rightarrow> 'c eventqueue \<Rightarrow> 'w \<Rightarrow> ('c eventqueue \<times> 'w) option" where
  "turn_dispatch_loop callback end_time p q w =
     (if p = event_header then Some (q, w)
      else case ev_heap q p of
        None \<Rightarrow> None
      | Some e \<Rightarrow>
          (case turn_dispatch_event callback end_time p e q w of
             None \<Rightarrow> None
           | Some (q', w') \<Rightarrow>
               (case ev_next e of None \<Rightarrow> None | Some n \<Rightarrow> turn_dispatch_loop callback end_time n q' w')))"

abbreviation (input) EV_EINTR :: int where "EV_EINTR \<equiv> 4"
abbreviation (input) EV_EAGAIN :: int where "EV_EAGAIN \<equiv> 11"
abbreviation (input) EV_EDEADLK :: int where "EV_EDEADLK \<equiv> 35"
abbreviation (input) EV_ETIMEDOUT :: int where "EV_ETIMEDOUT \<equiv> 110"

definition gfarm_eventqueue_turn ::
  "('c, 'w) ev_callback \<Rightarrow> ('w \<Rightarrow> timeval \<times> 'w) \<Rightarrow> 'w ev_select \<Rightarrow> timeval option \<Rightarrow> 'c eventqueue \<Rightarrow> 'w
     \<Rightarrow> (int \<times> 'c eventqueue \<times> 'w) option" where
  "gfarm_eventqueue_turn callback now select timeo q w =
     (if q_next q = event_header then Some (0, q, w)
      else
        (case turn_prepare_loop (q_next q) \<lparr>et_timeout = timeo, et_passed = {}, et_max_fd = -1\<rparr> (fds_clear q) of
           None \<Rightarrow> None
         | Some (t, q1) \<Rightarrow>
             if et_max_fd t < 0 \<and> et_timeout t = None then Some (EV_EDEADLK, q1, w)
             else
               (case now w of
                  (start_time, w1) \<Rightarrow>
                    (case turn_select select t (turn_timeout (et_timeout t) start_time) q1 w1 of
                       (Inl errno, w2) \<Rightarrow> Some (errno, q1, w2)
                     | (Inr q2, w2) \<Rightarrow>
                         (case now w2 of
                            (end_time, w3) \<Rightarrow>
                              (case turn_dispatch_loop callback end_time (q_next q2) q2 w3 of
                                 None \<Rightarrow> None
                               | Some (q3, w4) \<Rightarrow>
                                   Some (if q_next q3 = event_header then 0 else EV_EAGAIN, q3, w4)))))))"

partial_function (option) eventqueue_loop ::
  "('c eventqueue \<Rightarrow> timeval option \<Rightarrow> 'w \<Rightarrow> (int \<times> 'c eventqueue \<times> 'w) option) \<Rightarrow> ('w \<Rightarrow> timeval \<times> 'w)
     \<Rightarrow> timeval option \<Rightarrow> timeval \<Rightarrow> 'c eventqueue \<Rightarrow> 'w \<Rightarrow> (int \<times> 'c eventqueue \<times> 'w) option" where
  "eventqueue_loop turn now limit t q w =
     (case turn q (map_option (\<lambda>l. gfarm_timeval_sub l t) limit) w of
        None \<Rightarrow> None
      | Some (rv, q1, w1) \<Rightarrow>
          if rv = 0 then Some (0, q1, w1)
          else if rv \<noteq> EV_EAGAIN \<and> rv \<noteq> EV_EINTR then Some (rv, q1, w1)
          else case limit of
            None \<Rightarrow> eventqueue_loop turn now limit t q1 w1
          | Some l \<Rightarrow>
              (case now w1 of
                 (t', w2) \<Rightarrow>
                   if gfarm_timeval_cmp t' l \<ge> 0 then Some (EV_ETIMEDOUT, q1, w2)
                   else eventqueue_loop turn now limit t' q1 w2))"

definition gfarm_eventqueue_loop ::
  "('c, 'w) ev_callback \<Rightarrow> ('w \<Rightarrow> timeval \<times> 'w) \<Rightarrow> 'w ev_select \<Rightarrow> timeval option \<Rightarrow> 'c eventqueue \<Rightarrow> 'w
     \<Rightarrow> (int \<times> 'c eventqueue \<times> 'w) option" where
  "gfarm_eventqueue_loop callback now select timeo q w =
     (let turn = (\<lambda>q timeout w. gfarm_eventqueue_turn callback now select timeout q w)
      in case timeo of
           None \<Rightarrow> eventqueue_loop turn now None (Timeval 0 0) q w
         | Some d \<Rightarrow>
             (case now w of
                (n, w1) \<Rightarrow>
                  let limit = gfarm_timeval_add n d
                  in eventqueue_loop turn now (Some limit) limit q w1))"

end
