(* ===== verification/Gfevent_Spec.thy ===== *)
theory Gfevent_Spec
  imports Gfevent Linked_Ring
begin

text \<open>
  What the event queue promises: its list is a list of addresses (\<open>eq_inv\<close>), kept by adding and deleting events and
  by callbacks that only add; a turn of the loop then returns, calls the events that are due, each once and
  after taking it out, and touches no bit outside its descriptor sets.
\<close>

subsection \<open>The list in the store\<close>

definition ev_nxt :: "'c eventqueue \<Rightarrow> nat \<Rightarrow> nat option" where
  "ev_nxt q p = (if p = event_header then Some (q_next q) else Option.bind (ev_heap q p) ev_next)"

definition ev_prv :: "'c eventqueue \<Rightarrow> nat \<Rightarrow> nat option" where
  "ev_prv q p = (if p = event_header then Some (q_prev q) else Option.bind (ev_heap q p) ev_prev)"

text \<open>What an event is beside its links, and what a queue is beside its events and links.\<close>

definition ev_core :: "'c eventqueue \<Rightarrow> nat \<Rightarrow> 'c event option" where
  "ev_core q p = map_option (\<lambda>e. e\<lparr>ev_next := None, ev_prev := None\<rparr>) (ev_heap q p)"

definition q_rest :: "'c eventqueue \<Rightarrow> nat \<times> int \<times> u64 \<times> (fd_set_kind \<Rightarrow> fd_bits option)" where
  "q_rest q = (ev_brk q, fd_set_size q, fd_set_bytes q, fd_sets q)"

lemma ev_core_heap: "ev_core q p \<noteq> None \<longleftrightarrow> ev_heap q p \<noteq> None"
  by (simp add: ev_core_def)

lemma event_eqI:
  "e\<lparr>ev_next := None, ev_prev := None\<rparr> = e'\<lparr>ev_next := None, ev_prev := None\<rparr> \<Longrightarrow> ev_next e = ev_next e' \<Longrightarrow>
     ev_prev e = ev_prev e' \<Longrightarrow> e = e'" for e e' :: "'c event"
  by (cases e; cases e') simp

lemma heap_of_links:
  "ev_core q' p = ev_core q p \<Longrightarrow> ev_nxt q' p = ev_nxt q p \<Longrightarrow> ev_prv q' p = ev_prv q p \<Longrightarrow> p \<noteq> event_header \<Longrightarrow>
     ev_heap q' p = ev_heap q p"
  by (cases "ev_heap q p"; cases "ev_heap q' p") (auto simp: ev_core_def ev_nxt_def ev_prv_def intro: event_eqI)

lemma set_next_spec:
  assumes "p = event_header \<or> ev_heap q p \<noteq> None"
  shows "\<exists>q'. event_set_next p (Some n) q = Some q' \<and> ev_nxt q' = (ev_nxt q)(p := Some n) \<and> ev_prv q' = ev_prv q
    \<and> ev_core q' = ev_core q \<and> q_rest q' = q_rest q"
  using assms
  by (cases "ev_heap q p")
    (auto simp: event_set_next_def event_update_def ev_nxt_def ev_prv_def ev_core_def q_rest_def fun_eq_iff)

lemma set_prev_spec:
  assumes "p = event_header \<or> ev_heap q p \<noteq> None"
  shows "\<exists>q'. event_set_prev p (Some n) q = Some q' \<and> ev_prv q' = (ev_prv q)(p := Some n) \<and> ev_nxt q' = ev_nxt q
    \<and> ev_core q' = ev_core q \<and> q_rest q' = q_rest q"
  using assms
  by (cases "ev_heap q p")
    (auto simp: event_set_prev_def event_update_def ev_nxt_def ev_prv_def ev_core_def q_rest_def fun_eq_iff)

text \<open>The queue holds the events \<open>xs\<close> in this order, all others are linked nowhere.\<close>

definition eq_rep :: "'c eventqueue \<Rightarrow> nat list \<Rightarrow> bool" where
  "eq_rep q xs \<longleftrightarrow> distinct (event_header # xs) \<and> ring (ev_nxt q) (ev_prv q) event_header xs event_header
     \<and> (\<forall>x \<in> set xs. ev_heap q x \<noteq> None)
     \<and> (\<forall>x. x \<notin> set (event_header # xs) \<longrightarrow> ev_nxt q x = None \<and> ev_prv q x = None)"

lemma eq_rep_empty: "gfarm_eventqueue_alloc malc = Some q \<Longrightarrow> eq_rep q []"
  by (auto simp: gfarm_eventqueue_alloc_def eq_rep_def ev_nxt_def ev_prv_def split: if_splits)

lemma eq_rep_cong:
  "eq_rep q xs \<Longrightarrow> ev_nxt q' = ev_nxt q \<Longrightarrow> ev_prv q' = ev_prv q \<Longrightarrow>
     (\<And>x. ev_heap q' x = None \<longleftrightarrow> ev_heap q x = None) \<Longrightarrow> eq_rep q' xs"
  by (simp add: eq_rep_def)

lemma eq_rep_first: "eq_rep q xs \<Longrightarrow> q_next q = hd (xs @ [event_header])"
  using ring_first [of "ev_nxt q" "ev_prv q" event_header xs event_header] by (simp add: eq_rep_def ev_nxt_def)

lemma eq_rep_last: "eq_rep q xs \<Longrightarrow> q_prev q = last (event_header # xs)"
  using ring_last [of "ev_nxt q" "ev_prv q" event_header xs event_header] by (simp add: eq_rep_def ev_prv_def del: last.simps)

lemma eq_rep_next:
  assumes "eq_rep q (as @ x # bs)"
  shows "\<exists>e. ev_heap q x = Some e \<and> ev_next e = Some (hd (bs @ [event_header])) \<and> ev_prev e = Some (last (event_header # as))"
proof -
  have r: "ring (ev_nxt q) (ev_prv q) event_header as x" "ring (ev_nxt q) (ev_prv q) x bs event_header" "x \<noteq> event_header"
    "ev_heap q x \<noteq> None"
    using assms by (auto simp: eq_rep_def ring_append)
  from ring_first [OF r(2)] ring_last [OF r(1)] r(3,4) show ?thesis
    by (auto simp: ev_nxt_def ev_prv_def simp del: last.simps)
qed

lemma eq_rep_detached:
  assumes "eq_rep q xs" and "x \<notin> set xs" and "ev_heap q x = Some e" and "x \<noteq> event_header"
  shows "ev_next e = None" "ev_prev e = None"
proof -
  have "ev_nxt q x = None \<and> ev_prv q x = None" using assms by (simp add: eq_rep_def)
  then show "ev_next e = None" "ev_prev e = None" using assms(3,4) by (simp_all add: ev_nxt_def ev_prv_def)
qed

lemma enqueue_spec:
  assumes rep: "eq_rep q xs" and p: "p \<notin> set (event_header # xs)" "ev_heap q p \<noteq> None"
  shows "\<exists>q'. event_enqueue p q = Some q' \<and> eq_rep q' (xs @ [p]) \<and> ev_core q' = ev_core q \<and> q_rest q' = q_rest q"
proof -
  have d: "distinct (event_header # xs)" and ring: "ring (ev_nxt q) (ev_prv q) event_header xs event_header"
    and al: "\<forall>x \<in> set xs. ev_heap q x \<noteq> None"
    and out: "\<forall>x. x \<notin> set (event_header # xs) \<longrightarrow> ev_nxt q x = None \<and> ev_prv q x = None"
    using rep by (simp_all add: eq_rep_def)
  let ?l = "last (event_header # xs)"
  obtain q1 where 1: "event_set_next p (Some event_header) q = Some q1" "ev_nxt q1 = (ev_nxt q)(p := Some event_header)"
    "ev_prv q1 = ev_prv q" "ev_core q1 = ev_core q" "q_rest q1 = q_rest q" using set_next_spec p(2) by blast
  have l1: "q_prev q1 = ?l"
    using 1(3) eq_rep_last [OF rep] by (metis ev_prv_def option.inject)
  obtain q2 where 2: "event_set_prev p (Some ?l) q1 = Some q2" "ev_prv q2 = (ev_prv q1)(p := Some ?l)"
    "ev_nxt q2 = ev_nxt q1" "ev_core q2 = ev_core q1" "q_rest q2 = q_rest q1"
    using set_prev_spec [of p q1] 1(4) p(2) ev_core_heap by metis
  have l2: "q_prev q2 = ?l" using 2(2) l1 p(1) by (metis ev_prv_def fun_upd_other list.set_intros(1) option.inject)
  have al2: "?l = event_header \<or> ev_heap q2 ?l \<noteq> None"
    using al 1(4) 2(4) ev_core_heap last_in_set [of "event_header # xs"] by (metis list.distinct(1) set_ConsD)
  obtain q3 where 3: "event_set_next ?l (Some p) q2 = Some q3" "ev_nxt q3 = (ev_nxt q2)(?l := Some p)"
    "ev_prv q3 = ev_prv q2" "ev_core q3 = ev_core q2" "q_rest q3 = q_rest q2"
    using set_next_spec [OF al2] by blast
  let ?q = "q3\<lparr>q_prev := p\<rparr>"
  have run: "event_enqueue p q = Some ?q"
    using 1(1) 2(1) 3(1) l1 l2 by (simp add: event_enqueue_def del: last.simps)
  have n: "ev_nxt ?q = ev_nxt q3" "ev_prv ?q = (ev_prv q3)(event_header := Some p)" "ev_core ?q = ev_core q3"
    "q_rest ?q = q_rest q3"
    by (auto simp: ev_nxt_def ev_prv_def ev_core_def q_rest_def fun_eq_iff)
  have "ring (ev_nxt ?q) (ev_prv ?q) event_header (xs @ [p]) event_header"
    by (rule ring_insert [where nxt = "ev_nxt q" and prv = "ev_prv q"])
      (use d ring p(1) in \<open>auto simp: n 1(2,3) 2(2,3) 3(2,3) simp del: last.simps\<close>)
  moreover have "ev_core ?q = ev_core q" "q_rest ?q = q_rest q" using 1(4,5) 2(4,5) 3(4,5) n(3,4) by simp_all
  moreover have "\<forall>x \<in> set (xs @ [p]). ev_heap ?q x \<noteq> None"
    using al p(2) calculation(2) ev_core_heap by (metis Un_iff empty_iff empty_set set_ConsD set_append)
  moreover have "\<forall>x. x \<notin> set (event_header # xs @ [p]) \<longrightarrow> ev_nxt ?q x = None \<and> ev_prv ?q x = None"
    using out last_in_set [of "event_header # xs"] by (auto simp: n 1(2,3) 2(2,3) 3(2,3) simp del: last.simps)
  ultimately show ?thesis using run d p(1) by (simp add: eq_rep_def)
qed

lemma delete_spec:
  assumes rep: "eq_rep q (as @ p # bs)"
  shows "\<exists>q'. gfarm_eventqueue_delete_event p q = Some (0, q') \<and> eq_rep q' (as @ bs) \<and> ev_core q' = ev_core q
    \<and> q_rest q' = q_rest q"
proof -
  let ?n = "hd (bs @ [event_header])" and ?l = "last (event_header # as)"
  have d: "distinct (event_header # as @ p # bs)"
    and ring: "ring (ev_nxt q) (ev_prv q) event_header as p" "ring (ev_nxt q) (ev_prv q) p bs event_header"
    and al: "\<forall>x \<in> set (as @ p # bs). ev_heap q x \<noteq> None"
    and out: "\<forall>x. x \<notin> set (event_header # as @ p # bs) \<longrightarrow> ev_nxt q x = None \<and> ev_prv q x = None"
    using rep by (simp_all add: eq_rep_def ring_append)
  obtain e where e: "ev_heap q p = Some e" "ev_next e = Some ?n" "ev_prev e = Some ?l" using eq_rep_next [OF rep] by blast
  have n: "?n = event_header \<or> ev_heap q ?n \<noteq> None" using al by (cases bs) auto
  have l: "?l = event_header \<or> ev_heap q ?l \<noteq> None" using al last_in_set [of "event_header # as"] by auto
  have ne: "?n \<noteq> p" "?l \<noteq> p" using d last_in_set [of "event_header # as"] by (cases bs; auto)+
  obtain q1 where 1: "event_set_prev ?n (Some ?l) q = Some q1" "ev_prv q1 = (ev_prv q)(?n := Some ?l)"
    "ev_nxt q1 = ev_nxt q" "ev_core q1 = ev_core q" "q_rest q1 = q_rest q" using set_prev_spec [OF n] by blast
  have "?l = event_header \<or> ev_heap q1 ?l \<noteq> None" using l 1(4) ev_core_heap by metis
  then obtain q2 where 2: "event_set_next ?l (Some ?n) q1 = Some q2" "ev_nxt q2 = (ev_nxt q1)(?l := Some ?n)"
    "ev_prv q2 = ev_prv q1" "ev_core q2 = ev_core q1" "q_rest q2 = q_rest q1" using set_next_spec by blast
  have "ev_heap q2 p \<noteq> None" using e(1) 1(4) 2(4) ev_core_heap by (metis option.distinct(1))
  then obtain e2 where e2: "ev_heap q2 p = Some e2" by blast
  let ?q = "q2\<lparr>ev_heap := (ev_heap q2)(p := Some (e2\<lparr>ev_next := None, ev_prev := None\<rparr>))\<rparr>"
  have p0: "p \<noteq> event_header" using d by auto
  have run: "gfarm_eventqueue_delete_event p q = Some (0, ?q)"
    using e 1(1) 2(1) e2 by (simp add: gfarm_eventqueue_delete_event_def event_update_def del: last.simps)
  have k: "ev_nxt ?q = (ev_nxt q2)(p := None)" "ev_prv ?q = (ev_prv q2)(p := None)" "ev_core ?q = ev_core q2"
    "q_rest ?q = q_rest q2"
    using p0 e2 by (auto simp: ev_nxt_def ev_prv_def ev_core_def q_rest_def fun_eq_iff)
  have "ring (ev_nxt ?q) (ev_prv ?q) event_header (as @ bs) event_header"
    by (rule ring_remove [OF ring]) (use d ne in \<open>auto simp: k 1(2,3) 2(2,3) simp del: last.simps\<close>)
  moreover have core: "ev_core ?q = ev_core q" "q_rest ?q = q_rest q" using 1(4,5) 2(4,5) k(3,4) by simp_all
  moreover have "\<forall>x \<in> set (as @ bs). ev_heap ?q x \<noteq> None" using al core(1) ev_core_heap by (metis Un_iff list.set_intros(2) set_append)
  moreover have "\<forall>x. x \<notin> set (event_header # as @ bs) \<longrightarrow> ev_nxt ?q x = None \<and> ev_prv ?q x = None"
  proof (intro allI impI)
    fix x assume x: "x \<notin> set (event_header # as @ bs)"
    have "x \<noteq> ?l" using x last_in_set [of "event_header # as"] by auto
    moreover have "x \<noteq> ?n" using x by (cases bs) auto
    ultimately show "ev_nxt ?q x = None \<and> ev_prv ?q x = None" using x out by (simp add: k 1(2,3) 2(2,3) del: last.simps)
  qed
  ultimately show ?thesis using run d by (simp add: eq_rep_def)
qed

subsection \<open>The sets of descriptors\<close>

definition fds_ok :: "'c eventqueue \<Rightarrow> bool" where
  "fds_ok q \<longleftrightarrow> fd_set_size q = 8 * uint (fd_set_bytes q) \<and> fd_set_size q \<le> 2 ^ 28
     \<and> (\<forall>k b. fd_sets q k = Some b \<longrightarrow> uint (fd_set_bytes q) \<le> uint (fb_bytes b))"

text \<open>Growing keeps the events, the links and the bits that there were.\<close>

definition fds_grown :: "'c eventqueue \<Rightarrow> 'c eventqueue \<Rightarrow> bool" where
  "fds_grown q q' \<longleftrightarrow> ev_heap q' = ev_heap q \<and> ev_brk q' = ev_brk q \<and> q_next q' = q_next q \<and> q_prev q' = q_prev q
     \<and> fd_set_size q \<le> fd_set_size q'
     \<and> (\<forall>k b. fd_sets q k = Some b \<longrightarrow> (\<exists>b'. fd_sets q' k = Some b'
          \<and> (\<forall>f. f < fd_set_size q \<longrightarrow> (f \<in> fb_set b' \<longleftrightarrow> f \<in> fb_set b))))"

lemma fds_grown_refl [simp]: "fds_grown q q"
  by (simp add: fds_grown_def)

lemma fds_grown_trans:
  assumes "fds_grown a b" and "fds_grown b c"
  shows "fds_grown a c"
proof -
  have "\<exists>z. fd_sets c k = Some z \<and> (\<forall>f. f < fd_set_size a \<longrightarrow> (f \<in> fb_set z \<longleftrightarrow> f \<in> fb_set x))" if k: "fd_sets a k = Some x" for k x
  proof -
    obtain y where y: "fd_sets b k = Some y" "\<forall>f. f < fd_set_size a \<longrightarrow> (f \<in> fb_set y \<longleftrightarrow> f \<in> fb_set x)"
      using assms(1) k unfolding fds_grown_def by blast
    obtain z where z: "fd_sets c k = Some z" "\<forall>f. f < fd_set_size b \<longrightarrow> (f \<in> fb_set z \<longleftrightarrow> f \<in> fb_set y)"
      using assms(2) y(1) unfolding fds_grown_def by blast
    have "fd_set_size a \<le> fd_set_size b" using assms(1) by (simp add: fds_grown_def)
    with y(2) z show ?thesis by (intro exI [of _ z]) auto
  qed
  then show ?thesis using assms unfolding fds_grown_def by (auto intro: order_trans)
qed

lemma realloc_spec:
  assumes "gfarm_eventqueue_realloc_fd_set mal (fd_set_bytes q0) n k q = (ok, q')"
    and "fds_ok q" and "fd_set_bytes q = fd_set_bytes q0" and "uint (fd_set_bytes q) \<le> uint n"
  shows "fds_ok q' \<and> fds_grown q q' \<and> fd_set_bytes q' = fd_set_bytes q \<and> fd_set_size q' = fd_set_size q
    \<and> (ok \<longrightarrow> (\<forall>b. fd_sets q' k = Some b \<longrightarrow> fb_bytes b = n)) \<and> (\<forall>j. j \<noteq> k \<longrightarrow> fd_sets q' j = fd_sets q j)"
  using assms by (auto simp: gfarm_eventqueue_realloc_fd_set_def fds_ok_def fds_grown_def split: option.splits if_splits)

lemma fds_size_loop_spec:
  assumes "0 \<le> fd" and "fd < 2 ^ 26" and "0 < uint (n :: u64)"
  shows "\<exists>m. fds_size_loop fd n = Some m \<and> fd < uint m \<and> uint m \<le> max (uint n) (2 * fd)"
  using assms(3)
proof (induction "nat (fd + 1 - uint n)" arbitrary: n rule: less_induct)
  case less
  have fd: "uint (word_of_int fd :: u64) = fd" using assms(1,2) by (simp add: uint_word_of_int)
  have iff: "n \<le> word_of_int fd \<longleftrightarrow> uint n \<le> fd" by (simp add: word_le_def fd)
  show ?case
  proof (cases "uint n \<le> fd")
    case False
    then have "fds_size_loop fd n = Some n" using iff by (simp add: fds_size_loop.simps [of fd n])
    then show ?thesis using False by auto
  next
    case True
    have two: "uint (n + n) = 2 * uint n" using True assms(2) by (simp add: uint_word_ariths)
    from less.hyps [of "n + n"] True two less.prems obtain m where
      m: "fds_size_loop fd (n + n) = Some m" "fd < uint m" "uint m \<le> max (uint (n + n)) (2 * fd)" by auto
    have "fds_size_loop fd n = Some m" using True iff m(1) by (simp add: fds_size_loop.simps [of fd n])
    then show ?thesis using m two True by auto
  qed
qed

lemma size_mul_8:
  assumes "uint (x * 8) = uint x * 8"
  shows "gfarm_size_mul False x 8 = (False, x * 8)"
proof -
  have "x * 8 div 8 = x" by (rule word_uint_eqI) (simp only: uint_div_distrib assms, simp)
  then show ?thesis by (simp add: gfarm_size_mul_def)
qed

lemma fds_bytes:
  assumes "uint (m :: u64) \<le> 2 ^ 27"
  shows "gfarm_size_add False m 63 = (False, m + 63)"
    and "gfarm_size_mul False ((m + 63) div 64) 8 = (False, (m + 63) div 64 * 8)"
    and "gfarm_size_mul False ((m + 63) div 64 * 8) 8 = (False, (m + 63) div 64 * 8 * 8)"
    and "uint ((m + 63) div 64 * 8) = (uint m + 63) div 64 * 8"
    and "uint ((m + 63) div 64 * 8 * 8) = (uint m + 63) div 64 * 64"
proof -
  have a: "uint (m + 63) = uint m + 63" using assms by (simp add: uint_word_ariths)
  then have d: "uint ((m + 63) div 64) = (uint m + 63) div 64" by (simp add: uint_div_distrib)
  define j where "j = (uint m + 63) div 64"
  have b: "0 \<le> j" "j \<le> 2 ^ 22" using assms uint_ge_0 [of m] by (auto simp add: j_def div_int_pos_iff simp del: uint_ge_0)
  then show c: "uint ((m + 63) div 64 * 8) = (uint m + 63) div 64 * 8"
    unfolding uint_word_ariths d j_def [symmetric] using b by (simp add: mod_pos_pos_trivial)
  show e: "uint ((m + 63) div 64 * 8 * 8) = (uint m + 63) div 64 * 64"
    unfolding uint_word_ariths(3) [of "(m + 63) div 64 * 8"] c j_def [symmetric] using b by (simp add: mod_pos_pos_trivial)
  show "gfarm_size_add False m 63 = (False, m + 63)"
    by (simp add: gfarm_size_add_def word_less_def a)
  show "gfarm_size_mul False ((m + 63) div 64) 8 = (False, (m + 63) div 64 * 8)"
    by (rule size_mul_8) (use c d in simp)
  show "gfarm_size_mul False ((m + 63) div 64 * 8) 8 = (False, (m + 63) div 64 * 8 * 8)"
    by (rule size_mul_8) (use c e in simp)
qed

lemma fds_grow_spec:
  assumes ok: "fds_ok q" and fd: "0 \<le> fd" "fd < 2 ^ 26" "fd_set_size q \<le> fd"
  shows "\<exists>r q'. fds_grow mal fd q = Some (r, q') \<and> fds_ok q' \<and> fds_grown q q' \<and> (r \<longrightarrow> fd < fd_set_size q')"
proof -
  let ?n = "word_of_int (if fd_set_size q > 0 then fd_set_size q else MIN_FDS_SIZE) :: u64"
  have n: "uint ?n = (if fd_set_size q > 0 then fd_set_size q else MIN_FDS_SIZE)"
    using ok by (auto simp: fds_ok_def uint_word_of_int)
  have "0 < uint ?n" unfolding n by simp
  from fds_size_loop_spec [OF fd(1,2) this] obtain m where
    m: "fds_size_loop fd ?n = Some m" "fd < uint m" "uint m \<le> max (uint ?n) (2 * fd)" by blast
  have m27: "uint m \<le> 2 ^ 27" using m(3) fd unfolding n by (auto split: if_splits)
  note sz = fds_bytes [OF m27]
  let ?b = "(m + 63) div 64 * 8"
  define j where "j = (uint m + 63) div 64"
  have j: "uint m \<le> j * 64" "j * 64 \<le> uint m + 63" by (simp_all add: j_def)
  have b: "uint ?b = 8 * j" "uint (?b * 8) = 64 * j" using sz(4,5) by (simp_all add: j_def)
  have old: "uint (fd_set_bytes q) \<le> uint ?b" using ok fd(3) m(2) j b by (simp add: fds_ok_def)
  obtain r1 q1 where 1: "gfarm_eventqueue_realloc_fd_set mal (fd_set_bytes q) ?b Set_read q = (r1, q1)" by fastforce
  obtain r2 q2 where 2: "gfarm_eventqueue_realloc_fd_set mal (fd_set_bytes q) ?b Set_write q1 = (r2, q2)" by fastforce
  obtain r3 q3 where 3: "gfarm_eventqueue_realloc_fd_set mal (fd_set_bytes q) ?b Set_exception q2 = (r3, q3)" by fastforce
  note s1 = realloc_spec [OF 1 ok refl old]
  have s2: "fds_ok q2 \<and> fds_grown q1 q2 \<and> fd_set_bytes q2 = fd_set_bytes q1 \<and> fd_set_size q2 = fd_set_size q1
    \<and> (r2 \<longrightarrow> (\<forall>b. fd_sets q2 Set_write = Some b \<longrightarrow> fb_bytes b = ?b)) \<and> (\<forall>j. j \<noteq> Set_write \<longrightarrow> fd_sets q2 j = fd_sets q1 j)"
    by (rule realloc_spec [OF 2]) (use s1 old in auto)
  have s3: "fds_ok q3 \<and> fds_grown q2 q3 \<and> fd_set_bytes q3 = fd_set_bytes q2 \<and> fd_set_size q3 = fd_set_size q2
    \<and> (r3 \<longrightarrow> (\<forall>b. fd_sets q3 Set_exception = Some b \<longrightarrow> fb_bytes b = ?b))
    \<and> (\<forall>j. j \<noteq> Set_exception \<longrightarrow> fd_sets q3 j = fd_sets q2 j)"
    by (rule realloc_spec [OF 3]) (use s1 s2 old in auto)
  let ?q = "q3\<lparr>fd_set_bytes := ?b, fd_set_size := as_int32 (uint (?b * 8))\<rparr>"
  have run: "fds_grow mal fd q = Some (if \<not> r1 then (False, q1) else if \<not> r2 then (False, q2)
      else if \<not> r3 then (False, q3) else (True, ?q))"
    by (simp add: fds_grow_def m(1) sz(1-3) 1 2 3)
  have size: "as_int32 (uint (?b * 8)) = 64 * j" 
  proof -
    have "0 \<le> 64 * j" using j(1) uint_ge_0 [of m] by linarith
    then show ?thesis unfolding b by (intro as_int32_id) (use j m27 in simp_all)
  qed
  have g1: "fds_grown q q1" using s1 by simp
  have g2: "fds_grown q q2" by (rule fds_grown_trans [OF g1]) (use s2 in simp)
  have g3: "fds_grown q q3" by (rule fds_grown_trans [OF g2]) (use s3 in simp)
  note g = g1 g2 g3
  show ?thesis
  proof (cases "r1 \<and> r2 \<and> r3")
    case False
    then consider "\<not> r1" | "r1" "\<not> r2" | "r1" "r2" "\<not> r3" by blast
    then show ?thesis
    proof cases
      case 1
      then show ?thesis using run s1 g1 by (intro exI [of _ False] exI [of _ q1]) simp
    next
      case 2
      then show ?thesis using run s2 g2 by (intro exI [of _ False] exI [of _ q2]) simp
    next
      case 3
      then show ?thesis using run s3 g3 by (intro exI [of _ False] exI [of _ q3]) simp
    qed
  next
    case True
    have "fb_bytes x = ?b" if "fd_sets q3 k = Some x" for k x
    proof -
      have set3: "fd_sets q3 Set_read = fd_sets q1 Set_read" "fd_sets q3 Set_write = fd_sets q2 Set_write"
        using s2 s3 by simp_all
      have "r1 \<longrightarrow> (\<forall>b. fd_sets q1 Set_read = Some b \<longrightarrow> fb_bytes b = ?b)"
        "r2 \<longrightarrow> (\<forall>b. fd_sets q2 Set_write = Some b \<longrightarrow> fb_bytes b = ?b)"
        "r3 \<longrightarrow> (\<forall>b. fd_sets q3 Set_exception = Some b \<longrightarrow> fb_bytes b = ?b)"
        using s1 s2 s3 by blast+
      then have "k = Set_read \<Longrightarrow> fb_bytes x = ?b" "k = Set_write \<Longrightarrow> fb_bytes x = ?b" "k = Set_exception \<Longrightarrow> fb_bytes x = ?b"
        using that True unfolding set3 [symmetric] by blast+
      then show ?thesis by (cases k) blast+
    qed
    moreover have q: "fd_set_size ?q = 64 * j" "fd_set_bytes ?q = ?b" "fd_sets ?q = fd_sets q3"
      unfolding size [symmetric] by simp_all
    moreover have "j \<le> 2 ^ 22" using j m27 by simp
    ultimately have "fds_ok ?q" using b unfolding fds_ok_def q by simp
    moreover have "fds_grown q3 ?q"
    proof -
      have "fd_set_size q3 = fd_set_size q" using s1 s2 s3 by simp
      then have "fd_set_size q3 \<le> 64 * j" using fd(3) j m(2) by simp
      then show ?thesis unfolding fds_grown_def q by simp
    qed
    moreover have "fd < fd_set_size ?q" using j m(2) unfolding q by simp
    moreover have "fds_grow mal fd q = Some (True, ?q)" using run True by simp
    ultimately show ?thesis using fds_grown_trans [OF g3] by (intro exI [of _ True] exI [of _ ?q]) blast
  qed
qed

lemma alloc_fd_set_spec:
  assumes ok: "fds_ok q" and fd: "0 \<le> fd" "fd < 2 ^ 26"
  shows "\<exists>r q'. gfarm_eventqueue_alloc_fd_set mal fd k q = Some (r, q') \<and> fds_ok q' \<and> fds_grown q q'
    \<and> (r \<longrightarrow> fd < fd_set_size q' \<and> fd_sets q' k \<noteq> None)"
proof -
  have "\<exists>r q'. (if fd \<ge> fd_set_size q then fds_grow mal fd q else Some (True, q)) = Some (r, q')
    \<and> fds_ok q' \<and> fds_grown q q' \<and> (r \<longrightarrow> fd < fd_set_size q')"
    using fds_grow_spec [OF ok fd, of mal] ok by auto
  then obtain r q1 where 1: "(if fd \<ge> fd_set_size q then fds_grow mal fd q else Some (True, q)) = Some (r, q1)"
    "fds_ok q1" "fds_grown q q1" "r \<longrightarrow> fd < fd_set_size q1" by blast
  let ?q2 = "q1\<lparr>fd_sets := (fd_sets q1)(k := Some \<lparr>fb_bytes = fd_set_bytes q1, fb_set = {}\<rparr>)\<rparr>"
  have "fds_ok ?q2" using 1(2) by (auto simp: fds_ok_def)
  moreover have "fds_grown q ?q2" if "fd_sets q1 k = None"
  proof -
    have "fds_grown q1 ?q2" using that by (auto simp: fds_grown_def)
    then show ?thesis using 1(3) fds_grown_trans by blast
  qed
  ultimately show ?thesis using 1 by (auto simp: gfarm_eventqueue_alloc_fd_set_def)
qed

definition watched :: "'c eventqueue \<Rightarrow> 'c event \<Rightarrow> bool" where
  "watched q e \<longleftrightarrow> (case ev_type e of
     GFARM_FD_EVENT \<Rightarrow> 0 \<le> ev_fd e \<and> (\<forall>(flag, k) \<in> set event_flags. has_event (ev_filter e) flag \<longrightarrow>
       fd_sets q k \<noteq> None \<and> ev_fd e < fd_set_size q)
   | GFARM_TIMER_EVENT \<Rightarrow> True)"

lemma watched_grown: "watched q e \<Longrightarrow> fds_grown q q' \<Longrightarrow> watched q' e"
  by (fastforce simp: watched_def fds_grown_def split: event_type.splits)

lemma sets_alloc_spec:
  assumes "fds_ok q" and fd: "0 \<le> fd" "fd < 2 ^ 26"
  shows "\<exists>r q'. event_sets_alloc mal filt fd ks q = Some (r, q') \<and> fds_ok q' \<and> fds_grown q q'
    \<and> (r \<longrightarrow> (\<forall>(flag, k) \<in> set ks. has_event filt flag \<longrightarrow> fd_sets q' k \<noteq> None \<and> fd < fd_set_size q'))"
  using assms(1)
proof (induction ks arbitrary: q)
  case (Cons x ks)
  obtain flag k where x: "x = (flag, k)" by fastforce
  show ?case
  proof (cases "has_event filt flag")
    case False
    then show ?thesis using Cons.IH [OF Cons.prems] by (auto simp: x)
  next
    case True
    from alloc_fd_set_spec [OF Cons.prems fd, of mal k] obtain r1 q1 where
      1: "gfarm_eventqueue_alloc_fd_set mal fd k q = Some (r1, q1)" "fds_ok q1" "fds_grown q q1"
        "r1 \<longrightarrow> fd < fd_set_size q1 \<and> fd_sets q1 k \<noteq> None" by blast
    show ?thesis
    proof (cases r1)
      case False
      then show ?thesis using 1 True by (auto simp: x)
    next
      case r1: True
      from Cons.IH [OF 1(2)] obtain r q2 where
        2: "event_sets_alloc mal filt fd ks q1 = Some (r, q2)" "fds_ok q2" "fds_grown q1 q2"
          "r \<longrightarrow> (\<forall>(flag, k) \<in> set ks. has_event filt flag \<longrightarrow> fd_sets q2 k \<noteq> None \<and> fd < fd_set_size q2)" by blast
      have "fd_sets q2 k \<noteq> None \<and> fd < fd_set_size q2" using 1(4) r1 2(3) by (fastforce simp: fds_grown_def)
      then show ?thesis using 1 2 True r1 fds_grown_trans [OF 1(3) 2(3)] by (auto simp: x)
    qed
  qed
qed (auto intro!: exI [of _ True])

subsection \<open>The invariant of a queue\<close>

definition eq_inv :: "'c eventqueue \<Rightarrow> nat list \<Rightarrow> bool" where
  "eq_inv q xs \<longleftrightarrow> eq_rep q xs \<and> fds_ok q \<and> 0 < ev_brk q \<and> (\<forall>p. ev_heap q p \<noteq> None \<longrightarrow> p < ev_brk q)
     \<and> (\<forall>x \<in> set xs. \<forall>e. ev_heap q x = Some e \<longrightarrow> watched q e)"

lemma eq_inv_empty: "gfarm_eventqueue_alloc malc = Some q \<Longrightarrow> eq_inv q []"
  using eq_rep_empty [of malc q]
  by (auto simp: eq_inv_def gfarm_eventqueue_alloc_def fds_ok_def split: if_splits)

text \<open>What is watched depends on the core of an event only.\<close>

lemma watched_bare: "watched q (e\<lparr>ev_next := n, ev_prev := r\<rparr>) = watched q e"
  by (cases "ev_type e") (simp_all add: watched_def)

lemma watched_core:
  "ev_core q' p = ev_core q p \<Longrightarrow> ev_heap q p = Some e \<Longrightarrow> ev_heap q' p = Some e' \<Longrightarrow> watched q0 e' = watched q0 e"
  using watched_bare [where q = q0 and e = e and n = None and r = None] watched_bare [where q = q0 and e = e' and n = None and r = None] by (simp add: ev_core_def)

lemma watched_rest: "q_rest q' = q_rest q \<Longrightarrow> watched q' e = watched q e"
  by (simp add: q_rest_def watched_def split: event_type.split)

lemma eq_inv_links:
  assumes inv: "eq_inv q xs" and rep: "eq_rep q' ys" and core: "ev_core q' = ev_core q" and rest: "q_rest q' = q_rest q"
    and ys: "\<forall>y \<in> set ys. y \<in> set xs \<or> (\<forall>e. ev_heap q y = Some e \<longrightarrow> watched q e)"
  shows "eq_inv q' ys"
proof -
  have h: "ev_heap q' p \<noteq> None \<longleftrightarrow> ev_heap q p \<noteq> None" for p using core ev_core_heap by metis
  have "watched q' e'" if y: "y \<in> set ys" and e': "ev_heap q' y = Some e'" for y e'
  proof -
    obtain e where e: "ev_heap q y = Some e" using h e' by (metis not_None_eq)
    have "watched q e" using ys y e inv by (auto simp: eq_inv_def)
    then show ?thesis using watched_core [of q' y q e e'] core e e' watched_rest [OF rest] by simp
  qed
  moreover have "fds_ok q' = fds_ok q" "ev_brk q' = ev_brk q" using rest by (simp_all add: fds_ok_def q_rest_def)
  ultimately show ?thesis using inv rep h by (simp add: eq_inv_def)
qed

lemma delete_inv:
  assumes "eq_inv q (as @ p # bs)"
  shows "\<exists>q'. gfarm_eventqueue_delete_event p q = Some (0, q') \<and> eq_inv q' (as @ bs) \<and> ev_core q' = ev_core q
    \<and> q_rest q' = q_rest q"
proof -
  have "eq_rep q (as @ p # bs)" using assms by (simp add: eq_inv_def)
  from delete_spec [OF this] obtain q' where
    q': "gfarm_eventqueue_delete_event p q = Some (0, q')" "eq_rep q' (as @ bs)" "ev_core q' = ev_core q" "q_rest q' = q_rest q"
    by blast
  have "eq_inv q' (as @ bs)" by (rule eq_inv_links [OF assms q'(2-4)]) auto
  with q' show ?thesis by blast
qed

lemma eq_inv_grown:
  assumes "eq_inv q xs" and "fds_ok q'" and g: "fds_grown q q'"
  shows "eq_inv q' xs"
proof -
  have h: "ev_heap q' = ev_heap q" "ev_brk q' = ev_brk q" "q_next q' = q_next q" "q_prev q' = q_prev q"
    using g by (simp_all add: fds_grown_def)
  then have "ev_nxt q' = ev_nxt q" "ev_prv q' = ev_prv q" by (auto simp: ev_nxt_def ev_prv_def fun_eq_iff)
  then have "eq_rep q' xs" using assms(1) h eq_rep_cong [of q xs q'] by (simp add: eq_inv_def)
  then show ?thesis using assms watched_grown [OF _ g] by (simp add: eq_inv_def h)
qed

lemma eq_inv_upd:
  assumes inv: "eq_inv q xs" and p: "p \<notin> set (event_header # xs)" and e: "ev_heap q p = Some e"
    and f: "ev_next f = ev_next e" "ev_prev f = ev_prev e"
  shows "eq_inv (q\<lparr>ev_heap := (ev_heap q)(p := Some f)\<rparr>) xs"
proof -
  let ?q = "q\<lparr>ev_heap := (ev_heap q)(p := Some f)\<rparr>"
  have "ev_nxt ?q = ev_nxt q" "ev_prv ?q = ev_prv q" using e f by (auto simp: ev_nxt_def ev_prv_def fun_eq_iff)
  then have "eq_rep ?q xs" using inv e eq_rep_cong [of q xs ?q] by (simp add: eq_inv_def)
  moreover have "watched ?q e' = watched q e'" for e' by (rule watched_rest) (simp add: q_rest_def)
  moreover have "p < ev_brk q" using inv e by (auto simp: eq_inv_def)
  ultimately show ?thesis using inv p by (auto simp: eq_inv_def fds_ok_def)
qed

text \<open>What a callback may do to the queue: keep the listed events with the bits of the sets, and add others.\<close>

definition eq_kept :: "'c eventqueue \<Rightarrow> nat list \<Rightarrow> 'c eventqueue \<Rightarrow> bool" where
  "eq_kept q xs q' \<longleftrightarrow> (\<forall>x \<in> set xs. ev_core q' x = ev_core q x) \<and> fd_set_size q \<le> fd_set_size q'
     \<and> (\<forall>k b. fd_sets q k = Some b \<longrightarrow> (\<exists>b'. fd_sets q' k = Some b'
          \<and> (\<forall>f. f < fd_set_size q \<longrightarrow> (f \<in> fb_set b' \<longleftrightarrow> f \<in> fb_set b))))"

lemma eq_kept_core:
  "(\<And>x. x \<in> set xs \<Longrightarrow> ev_core q' x = ev_core q x) \<Longrightarrow> fds_grown q1 q2 \<Longrightarrow> q_rest q1 = q_rest q \<Longrightarrow> q_rest q' = q_rest q2 \<Longrightarrow>
     eq_kept q xs q'"
  by (simp add: eq_kept_def fds_grown_def q_rest_def)

definition add_post :: "'c eventqueue \<Rightarrow> nat list \<Rightarrow> nat \<Rightarrow> 'c event \<Rightarrow> int \<Rightarrow> 'c eventqueue \<Rightarrow> bool" where
  "add_post q xs p e r q' \<longleftrightarrow> eq_inv q' (if r = 0 then xs @ [p] else xs) \<and> r \<in> {0, EV_EINVAL, EV_ENOMEM}
     \<and> eq_kept q xs q' \<and> (\<forall>x. x \<noteq> p \<longrightarrow> ev_core q' x = ev_core q x) \<and> ev_brk q' = ev_brk q
     \<and> (\<exists>f. ev_core q' p = Some f \<and> ev_filter f = ev_filter e \<and> ev_closure f = ev_closure e \<and> ev_type f = ev_type e
          \<and> ev_fd f = ev_fd e)"

lemma event_start_keeps:
  assumes "event_start now timeout e w = Some (f, w')"
  shows "ev_next f = ev_next e \<and> ev_prev f = ev_prev e \<and> ev_filter f = ev_filter e \<and> ev_closure f = ev_closure e
    \<and> ev_type f = ev_type e \<and> ev_fd f = ev_fd e"
  using assms by (auto simp: event_start_def split: option.splits prod.splits if_splits)

lemma add_post_core:
  assumes inv: "eq_inv q' (if r = 0 then xs @ [p] else xs)" and r: "r \<in> {0, EV_EINVAL, EV_ENOMEM}"
    and core: "ev_core q' = ev_core (q\<lparr>ev_heap := (ev_heap q)(p := Some f)\<rparr>)" and grown: "fds_grown q1 q2"
    and rest: "q_rest q1 = q_rest q" "q_rest q' = q_rest q2" and p: "p \<notin> set xs"
    and f: "ev_filter f = ev_filter e \<and> ev_closure f = ev_closure e \<and> ev_type f = ev_type e \<and> ev_fd f = ev_fd e"
  shows "add_post q xs p e r q'"
proof -
  have k: "ev_core q' x = ev_core q x" if "x \<noteq> p" for x using that by (simp add: core ev_core_def)
  have "ev_core q' x = ev_core q x" if "x \<in> set xs" for x using k p that by (cases "x = p") auto
  then have "eq_kept q xs q'" by (rule eq_kept_core [OF _ grown rest])
  moreover have "ev_brk q' = ev_brk q" using rest grown by (simp add: q_rest_def fds_grown_def)
  moreover have "ev_core q' p = Some (f\<lparr>ev_next := None, ev_prev := None\<rparr>)" by (simp add: core ev_core_def)
  ultimately show ?thesis using inv r k f by (simp add: add_post_def)
qed

lemma add_inv:
  assumes inv: "eq_inv q xs" and p: "p \<notin> set (event_header # xs)" and e: "ev_heap q p = Some e"
    and fd: "ev_type e = GFARM_FD_EVENT \<Longrightarrow> 0 \<le> ev_fd e \<and> ev_fd e < 2 ^ 26"
  shows "\<exists>r q' w'. gfarm_eventqueue_add_event mal now p timeout q w = Some (r, q', w') \<and> add_post q xs p e r q'"
proof -
  have det: "ev_next e = None" "ev_prev e = None"
    using eq_rep_detached [of q xs p e] inv p e by (auto simp: eq_inv_def)
  note def = gfarm_eventqueue_add_event_def
  have bound: "0 < ev_brk q" using inv by (simp add: eq_inv_def)
  show ?thesis
  proof (cases "event_start now timeout e w")
    case None
    have "add_post q xs p e EV_EINVAL q"
      by (rule add_post_core [where f = e, OF _ _ _ fds_grown_refl refl refl])
        (use inv p e in \<open>auto simp: fun_upd_idem\<close>)
    then show ?thesis using None by (simp add: def e det)
  next
    case (Some fw)
    obtain f w' where f: "event_start now timeout e w = Some (f, w')" using Some by (cases fw) auto
    note keeps = event_start_keeps [OF f]
    let ?q1 = "q\<lparr>ev_heap := (ev_heap q)(p := Some f)\<rparr>"
    have rest1: "q_rest ?q1 = q_rest q" by (simp add: q_rest_def)
    have inv1: "eq_inv ?q1 xs" by (rule eq_inv_upd [OF inv p e]) (use keeps in auto)
    have enq: "\<exists>q3. event_enqueue p q2 = Some q3 \<and> add_post q xs p e 0 q3"
      if g: "fds_grown ?q1 q2" and inv2: "eq_inv q2 xs" and w: "watched q2 f" for q2
    proof -
      have h: "ev_heap q2 = ev_heap ?q1" using g by (simp add: fds_grown_def)
      have "\<exists>q3. event_enqueue p q2 = Some q3 \<and> eq_rep q3 (xs @ [p]) \<and> ev_core q3 = ev_core q2 \<and> q_rest q3 = q_rest q2"
        by (rule enqueue_spec [OF _ p]) (use inv2 h in \<open>simp_all add: eq_inv_def\<close>)
      then obtain q3 where q3: "event_enqueue p q2 = Some q3" "eq_rep q3 (xs @ [p])" "ev_core q3 = ev_core q2"
        "q_rest q3 = q_rest q2" by blast
      have "eq_inv q3 (xs @ [p])" by (rule eq_inv_links [OF inv2 q3(2-4)]) (use w h in auto)
      moreover have "ev_core q3 = ev_core ?q1" using q3(3) h by (simp add: ev_core_def fun_eq_iff)
      ultimately have "add_post q xs p e 0 q3"
        by (intro add_post_core [where f = f, OF _ _ _ g rest1 q3(4)]) (use p keeps in auto)
      then show ?thesis using q3(1) by blast
    qed
    have none: "add_post q xs p e r q2" if "fds_grown ?q1 q2" "eq_inv q2 xs" "r = EV_EINVAL \<or> r = EV_ENOMEM" for q2 r
      by (rule add_post_core [where f = f, OF _ _ _ that(1) rest1 refl])
        (use that p keeps in \<open>auto simp: fds_grown_def ev_core_def fun_eq_iff\<close>)
    show ?thesis
    proof (cases "ev_type e")
      case GFARM_FD_EVENT
      have ok1: "fds_ok ?q1" using inv1 by (simp add: eq_inv_def)
      from sets_alloc_spec [OF ok1, of "ev_fd e" mal "ev_filter e" event_flags] fd GFARM_FD_EVENT obtain ok q2 where
        2: "event_sets_alloc mal (ev_filter e) (ev_fd e) event_flags ?q1 = Some (ok, q2)" "fds_ok q2" "fds_grown ?q1 q2"
          "ok \<longrightarrow> (\<forall>(flag, k) \<in> set event_flags. has_event (ev_filter e) flag \<longrightarrow> fd_sets q2 k \<noteq> None \<and> ev_fd e < fd_set_size q2)"
        by blast
      have inv2: "eq_inv q2 xs" by (rule eq_inv_grown [OF inv1 2(2,3)])
      show ?thesis
      proof (cases ok)
        case False
        have "gfarm_eventqueue_add_event mal now p timeout q w = Some (EV_ENOMEM, q2, w')"
          using False GFARM_FD_EVENT 2(1) by (simp add: def e det f Let_def)
        then show ?thesis using none [OF 2(3) inv2] by blast
      next
        case True
        have "watched q2 f" using 2(4) True fd GFARM_FD_EVENT keeps by (simp add: watched_def)
        from enq [OF 2(3) inv2 this] obtain q3 where q3: "event_enqueue p q2 = Some q3" "add_post q xs p e 0 q3" by blast
        have "gfarm_eventqueue_add_event mal now p timeout q w = Some (0, q3, w')"
          using True GFARM_FD_EVENT 2(1) q3(1) by (simp add: def e det f Let_def)
        then show ?thesis using q3(2) by blast
      qed
    next
      case GFARM_TIMER_EVENT
      show ?thesis
      proof (cases timeout)
        case None
        then have "gfarm_eventqueue_add_event mal now p timeout q w = Some (EV_EINVAL, ?q1, w')"
          using GFARM_TIMER_EVENT f by (simp add: def e det Let_def)
        then show ?thesis using none [OF fds_grown_refl inv1] by blast
      next
        case (Some t)
        have "watched ?q1 f" using GFARM_TIMER_EVENT keeps by (simp add: watched_def)
        from enq [OF fds_grown_refl inv1 this] obtain q3 where q3: "event_enqueue p ?q1 = Some q3" "add_post q xs p e 0 q3"
          by blast
        have "gfarm_eventqueue_add_event mal now p timeout q w = Some (0, q3, w')"
          using Some GFARM_TIMER_EVENT q3(1) f by (simp add: def e det Let_def)
        then show ?thesis using q3(2) by blast
      qed
    qed
  qed
qed

text \<open>The world is looked at for the time only.\<close>

lemma add_world:
  assumes "gfarm_eventqueue_add_event mal now p timeout q w = Some (r, q', w')"
  shows "w' = w \<or> w' = snd (now w)"
  using assms
  by (auto simp: gfarm_eventqueue_add_event_def event_start_def Let_def
      split: option.splits prod.splits if_splits event_type.splits)

text \<open>Allocating and freeing events that are not in the queue.\<close>

lemma eq_inv_new:
  assumes inv: "eq_inv q xs" and e: "ev_next e = None" "ev_prev e = None" and new: "event_new e q = (p, q')"
  shows "eq_inv q' xs \<and> p \<notin> set (event_header # xs) \<and> ev_heap q p = None \<and> ev_heap q' = (ev_heap q)(p := Some e)"
proof -
  have p: "p = ev_brk q" "q' = q\<lparr>ev_heap := (ev_heap q)(ev_brk q := Some e), ev_brk := ev_brk q + 1\<rparr>"
    using new by (auto simp: event_new_def)
  have free: "ev_heap q (ev_brk q) = None" and header: "ev_brk q \<noteq> event_header" using inv by (auto simp: eq_inv_def)
  then have notin: "ev_brk q \<notin> set xs" using inv by (auto simp: eq_inv_def eq_rep_def)
  have "ev_nxt q' = ev_nxt q" "ev_prv q' = ev_prv q" using free e by (auto simp: p(2) ev_nxt_def ev_prv_def fun_eq_iff)
  then have "eq_rep q' xs" using inv notin by (auto simp: eq_inv_def eq_rep_def p(2))
  moreover have "watched q' f = watched q f" for f by (simp add: p(2) watched_def split: event_type.split)
  moreover have "fds_ok q' = fds_ok q" by (simp add: p(2) fds_ok_def)
  ultimately have "eq_inv q' xs" using inv notin by (auto simp: eq_inv_def p(2) less_Suc_eq)
  then show ?thesis using notin header free p by simp
qed

lemma eq_inv_free:
  assumes inv: "eq_inv q xs" and p: "p \<notin> set (event_header # xs)"
  shows "eq_inv (gfarm_event_free p q) xs"
proof -
  let ?q = "gfarm_event_free p q"
  have "ev_nxt q p = None \<and> ev_prv q p = None" using inv p by (simp add: eq_inv_def eq_rep_def)
  then have "ev_nxt ?q = ev_nxt q" "ev_prv ?q = ev_prv q"
    using p by (auto simp: gfarm_event_free_def ev_nxt_def ev_prv_def fun_eq_iff)
  then have "eq_rep ?q xs" using inv p by (auto simp: eq_inv_def eq_rep_def gfarm_event_free_def)
  moreover have "watched ?q f = watched q f" for f by (simp add: gfarm_event_free_def watched_def split: event_type.split)
  moreover have "fds_ok ?q = fds_ok q" by (simp add: gfarm_event_free_def fds_ok_def)
  ultimately show ?thesis using inv p by (auto simp: eq_inv_def gfarm_event_free_def)
qed

end
