(* ===== verification/Gfevent_Turn.thy ===== *)
theory Gfevent_Turn
  imports Gfevent_Spec
begin

text \<open>
  A turn of the event queue over its invariant: what \<open>select\<close> is asked, which events are called back and in
  which order, and, for callbacks that keep a contract (\<open>ev_callbacks\<close>), that a turn returns. The contract is
  needed: two events whose callbacks add them again keep a turn from ever returning.
\<close>

subsection \<open>What is waited for\<close>

definition set_flag :: "fd_set_kind \<Rightarrow> int" where
  "set_flag k = (case k of Set_read \<Rightarrow> GFARM_EVENT_READ | Set_write \<Rightarrow> GFARM_EVENT_WRITE
     | Set_exception \<Rightarrow> GFARM_EVENT_EXCEPTION)"

definition ev_needs :: "'c event \<Rightarrow> fd_set_kind \<Rightarrow> bool" where
  "ev_needs e k \<longleftrightarrow> ev_type e = GFARM_FD_EVENT \<and> has_event (ev_filter e) (set_flag k)"

lemma all_kinds: "(\<forall>k. P k) \<longleftrightarrow> P Set_read \<and> P Set_write \<and> P Set_exception"
  by (metis fd_set_kind.exhaust)

lemma event_flags_map: "event_flags = map (\<lambda>k. (set_flag k, k)) [Set_read, Set_write, Set_exception]"
  by (simp add: event_flags_def set_flag_def)

lemma watched_iff:
  "watched q e \<longleftrightarrow> (ev_type e = GFARM_FD_EVENT \<longrightarrow> 0 \<le> ev_fd e) \<and> (\<forall>k. ev_needs e k \<longrightarrow> fd_sets q k \<noteq> None \<and> ev_fd e < fd_set_size q)"
proof (cases "ev_type e")
  case GFARM_FD_EVENT
  have "(\<forall>(flag, k) \<in> set event_flags. has_event (ev_filter e) flag \<longrightarrow> fd_sets q k \<noteq> None \<and> ev_fd e < fd_set_size q)
    \<longleftrightarrow> (\<forall>k. has_event (ev_filter e) (set_flag k) \<longrightarrow> fd_sets q k \<noteq> None \<and> ev_fd e < fd_set_size q)"
    unfolding event_flags_map all_kinds by simp
  then show ?thesis using GFARM_FD_EVENT by (simp add: watched_def ev_needs_def)
qed (simp add: watched_def ev_needs_def)

text \<open>What an event adds to the turn and to the sets.\<close>

definition sooner :: "'c event \<Rightarrow> timeval option \<Rightarrow> timeval option" where
  "sooner e v = (if ev_timeout_specified e
     then (case v of None \<Rightarrow> Some (ev_timeout e)
           | Some t \<Rightarrow> Some (if gfarm_timeval_cmp (ev_timeout e) t < 0 then ev_timeout e else t))
     else v)"

definition prep_turn :: "'c event \<Rightarrow> event_turn \<Rightarrow> event_turn" where
  "prep_turn e t = \<lparr>et_timeout = sooner e (et_timeout t), et_passed = et_passed t \<union> {k. ev_needs e k},
     et_max_fd = (if ev_type e = GFARM_FD_EVENT then max (et_max_fd t) (ev_fd e) else et_max_fd t)\<rparr>"

definition set_bits :: "int \<Rightarrow> fd_set_kind set \<Rightarrow> 'c eventqueue \<Rightarrow> 'c eventqueue" where
  "set_bits fd K q = q\<lparr>fd_sets := (\<lambda>k. if k \<in> K
     then map_option (\<lambda>b. b\<lparr>fb_set := insert fd (fb_set b)\<rparr>) (fd_sets q k) else fd_sets q k)\<rparr>"

definition prep_sets :: "'c event \<Rightarrow> 'c eventqueue \<Rightarrow> 'c eventqueue" where
  "prep_sets e = set_bits (ev_fd e) {k. ev_needs e k}"

lemma set_bits_same [simp]:
  "ev_heap (set_bits fd K q) = ev_heap q" "ev_brk (set_bits fd K q) = ev_brk q" "q_next (set_bits fd K q) = q_next q"
  "q_prev (set_bits fd K q) = q_prev q" "fd_set_size (set_bits fd K q) = fd_set_size q"
  "fd_set_bytes (set_bits fd K q) = fd_set_bytes q" "fd_sets (set_bits fd K q) k = None \<longleftrightarrow> fd_sets q k = None"
  "map_option fb_bytes (fd_sets (set_bits fd K q) k) = map_option fb_bytes (fd_sets q k)"
  by (auto simp: set_bits_def option.map_comp comp_def)

lemma set_bits_empty [simp]: "set_bits fd {} q = q"
  by (simp add: set_bits_def)

lemma set_bits_insert: "set_bits fd K (set_bits fd {k} q) = set_bits fd (insert k K) q"
proof -
  have "fd_sets (set_bits fd K (set_bits fd {k} q)) = fd_sets (set_bits fd (insert k K) q)"
    by (auto simp: set_bits_def fun_eq_iff option.map_comp comp_def)
  then show ?thesis by (auto intro!: eventqueue.equality)
qed

lemma fds_ok_sets:
  "fds_ok q \<Longrightarrow> fd_set_size q' = fd_set_size q \<Longrightarrow> fd_set_bytes q' = fd_set_bytes q \<Longrightarrow>
     (\<And>k. map_option fb_bytes (fd_sets q' k) = map_option fb_bytes (fd_sets q k)) \<Longrightarrow> fds_ok q'"
  unfolding fds_ok_def by (metis (no_types, lifting) map_option_eq_Some)

lemma fds_set_ok:
  assumes "fds_ok q" and "fd_sets q k \<noteq> None" and "0 \<le> fd" and "fd < fd_set_size q"
  shows "fds_set fd k q = Some (set_bits fd {k} q)"
proof -
  obtain b where b: "fd_sets q k = Some b" using assms(2) by blast
  have "fd < 8 * uint (fb_bytes b)" using assms b by (fastforce simp: fds_ok_def)
  moreover have "(fd_sets q)(k := Some (b\<lparr>fb_set := insert fd (fb_set b)\<rparr>)) = fd_sets (set_bits fd {k} q)"
    by (simp add: set_bits_def b fun_eq_iff)
  ultimately show ?thesis using b assms(3) by (simp add: fds_set_def set_bits_def)
qed

lemma set_flags_spec:
  assumes "fds_ok q" and "0 \<le> fd" and "\<forall>k \<in> set ks. has_event filt (set_flag k) \<longrightarrow> fd_sets q k \<noteq> None \<and> fd < fd_set_size q"
  shows "fds_set_flags filt fd (map (\<lambda>k. (set_flag k, k)) ks) t q
    = Some (t\<lparr>et_passed := et_passed t \<union> {k \<in> set ks. has_event filt (set_flag k)}\<rparr>,
        set_bits fd {k \<in> set ks. has_event filt (set_flag k)} q)"
  using assms(1,3)
proof (induction ks arbitrary: t q)
  case (Cons k ks)
  show ?case
  proof (cases "has_event filt (set_flag k)")
    case False
    then have "{j \<in> set (k # ks). has_event filt (set_flag j)} = {j \<in> set ks. has_event filt (set_flag j)}" by auto
    then show ?thesis using False Cons by simp
  next
    case True
    have set: "{j \<in> set (k # ks). has_event filt (set_flag j)} = insert k {j \<in> set ks. has_event filt (set_flag j)}"
      using True by auto
    have "fds_ok (set_bits fd {k} q)" by (rule fds_ok_sets [OF Cons.prems(1)]) simp_all
    then have "fds_set_flags filt fd (map (\<lambda>k. (set_flag k, k)) ks) (t\<lparr>et_passed := insert k (et_passed t)\<rparr>) (set_bits fd {k} q)
      = Some (t\<lparr>et_passed := insert k (et_passed t) \<union> {j \<in> set ks. has_event filt (set_flag j)}\<rparr>,
          set_bits fd {j \<in> set ks. has_event filt (set_flag j)} (set_bits fd {k} q))"
      by (subst Cons.IH) (use Cons.prems(2) in \<open>unfold set_bits_same, simp_all\<close>)
    then show ?thesis using True fds_set_ok [OF Cons.prems(1) _ assms(2), of k] Cons.prems(2)
      unfolding set by (simp add: set_bits_insert)
  qed
qed simp

lemma prepare_event_spec:
  assumes "fds_ok q" and "watched q e"
  shows "turn_prepare_event e t q = Some (prep_turn e t, prep_sets e q)"
proof (cases "ev_type e")
  case GFARM_FD_EVENT
  have s: "fds_set_flags (ev_filter e) (ev_fd e) event_flags t' q
    = Some (t'\<lparr>et_passed := et_passed t' \<union> {k. has_event (ev_filter e) (set_flag k)}\<rparr>, prep_sets e q)" for t'
  proof -
    have "{k \<in> set [Set_read, Set_write, Set_exception]. P k} = {k. P k}" for P by (auto intro: fd_set_kind.exhaust)
    then show ?thesis
      using set_flags_spec [OF assms(1), of "ev_fd e" "[Set_read, Set_write, Set_exception]" "ev_filter e" t'] assms(2) GFARM_FD_EVENT
      unfolding event_flags_map watched_iff ev_needs_def prep_sets_def by simp
  qed
  show ?thesis using GFARM_FD_EVENT
    by (cases "et_timeout t") (simp_all add: turn_prepare_event_def s prep_turn_def sooner_def ev_needs_def)
next
  case GFARM_TIMER_EVENT
  then show ?thesis
    by (cases "et_timeout t")
      (simp_all add: turn_prepare_event_def prep_turn_def prep_sets_def sooner_def ev_needs_def)
qed

definition events_of :: "'c eventqueue \<Rightarrow> nat list \<Rightarrow> 'c event list" where
  "events_of q xs = map (\<lambda>x. the (ev_heap q x)) xs"

lemma prepare_loop_spec:
  assumes "eq_rep q (as @ bs)" and "fds_ok q'" and "ev_heap q' = ev_heap q"
    and "\<forall>e \<in> set (events_of q bs). watched q' e"
  shows "turn_prepare_loop (hd (bs @ [event_header])) t q'
    = Some (fold prep_turn (events_of q bs) t, fold prep_sets (events_of q bs) q')"
  using assms
proof (induction bs arbitrary: as t q')
  case Nil
  then show ?case by (subst turn_prepare_loop.simps) (simp add: events_of_def)
next
  case (Cons x bs)
  obtain e where e: "ev_heap q x = Some e" "ev_next e = Some (hd (bs @ [event_header]))"
    using eq_rep_next [OF Cons.prems(1)] by blast
  have x: "x \<noteq> event_header" using Cons.prems(1) by (auto simp: eq_rep_def)
  have es: "events_of q (x # bs) = e # events_of q bs" by (simp add: events_of_def e)
  have w: "watched q' e" using Cons.prems(4) by (simp add: es)
  have ok: "fds_ok (prep_sets e q')" by (rule fds_ok_sets [OF Cons.prems(2)]) (simp_all add: prep_sets_def)
  have w': "\<forall>f \<in> set (events_of q bs). watched (prep_sets e q') f"
    using Cons.prems(4) unfolding es watched_iff prep_sets_def set_bits_same by simp
  have IH: "turn_prepare_loop (hd (bs @ [event_header])) (prep_turn e t) (prep_sets e q')
    = Some (fold prep_turn (events_of q bs) (prep_turn e t), fold prep_sets (events_of q bs) (prep_sets e q'))"
    by (rule Cons.IH [of "as @ [x]", OF _ ok _ w']) (use Cons.prems in \<open>simp_all add: prep_sets_def\<close>)
  show ?case
    by (subst turn_prepare_loop.simps)
      (use x e IH prepare_event_spec [OF Cons.prems(2) w, of t] in \<open>simp add: Cons.prems(3) es\<close>)
qed

lemma fold_prep_sets_same [simp]:
  "ev_heap (fold prep_sets es q) = ev_heap q" "ev_brk (fold prep_sets es q) = ev_brk q"
  "q_next (fold prep_sets es q) = q_next q" "q_prev (fold prep_sets es q) = q_prev q"
  "fd_set_size (fold prep_sets es q) = fd_set_size q" "fd_set_bytes (fold prep_sets es q) = fd_set_bytes q"
  by (induction es arbitrary: q) (simp_all add: prep_sets_def)

lemma fold_prep_sets_bits:
  "fd_sets (fold prep_sets es q) k
     = map_option (\<lambda>b. b\<lparr>fb_set := fb_set b \<union> ev_fd ` {e \<in> set es. ev_needs e k}\<rparr>) (fd_sets q k)"
proof (induction es arbitrary: q)
  case Nil
  then show ?case by (cases "fd_sets q k") simp_all
next
  case (Cons e es)
  have "fd_sets (prep_sets e q) k = (if ev_needs e k
    then map_option (\<lambda>b. b\<lparr>fb_set := insert (ev_fd e) (fb_set b)\<rparr>) (fd_sets q k) else fd_sets q k)"
    by (simp add: prep_sets_def set_bits_def)
  moreover have "{f \<in> set (e # es). ev_needs f k}
    = (if ev_needs e k then insert e {f \<in> set es. ev_needs f k} else {f \<in> set es. ev_needs f k})" by auto
  ultimately show ?case using Cons.IH [of "prep_sets e q"]
    by (cases "fd_sets q k") simp_all
qed

lemma fold_prep_turn:
  "et_passed (fold prep_turn es t) = et_passed t \<union> {k. \<exists>e \<in> set es. ev_needs e k}"
  "et_timeout (fold prep_turn es t) = fold sooner es (et_timeout t)"
  "et_max_fd (fold prep_turn es t) = Max (insert (et_max_fd t) (ev_fd ` {e \<in> set es. ev_type e = GFARM_FD_EVENT}))"
proof (induction es arbitrary: t)
  case (Cons e es)
  { case 1 then show ?case using Cons(1) by (auto simp: prep_turn_def) }
  { case 2 then show ?case using Cons(2) by (simp add: prep_turn_def) }
  { case 3
    have s: "{f \<in> set (e # es). ev_type f = GFARM_FD_EVENT} = (if ev_type e = GFARM_FD_EVENT
      then insert e {f \<in> set es. ev_type f = GFARM_FD_EVENT} else {f \<in> set es. ev_type f = GFARM_FD_EVENT})" by auto
    let ?S = "ev_fd ` {f \<in> set es. ev_type f = GFARM_FD_EVENT}"
    have "Max (insert (max a b) S) = Max (insert a (insert b S))" if "finite S" for a b :: int and S
      using that by (cases "S = {}") (simp_all add: max.assoc)
    then show ?case using Cons(3) [of "prep_turn e t"] unfolding s by (simp add: prep_turn_def) }
qed simp_all

text \<open>The timeout is the earliest of those there are, and there is one when there is any.\<close>

definition ev_times :: "'c event list \<Rightarrow> timeval set" where
  "ev_times es = ev_timeout ` {e \<in> set es. ev_timeout_specified e}"

lemma fold_sooner:
  "fold sooner es v = (let S = set_option v \<union> ev_times es in if S = {} then None else Some (Min S))"
proof (induction es arbitrary: v)
  case Nil
  then show ?case by (cases v) (simp_all add: ev_times_def)
next
  case (Cons e es)
  have t: "ev_times (e # es) = (if ev_timeout_specified e then insert (ev_timeout e) (ev_times es) else ev_times es)"
    by (auto simp: ev_times_def)
  have fin: "finite (ev_times es)" by (simp add: ev_times_def)
  show ?case
  proof (cases "ev_timeout_specified e")
    case False
    then show ?thesis using Cons.IH [of v] by (simp add: t sooner_def)
  next
    case True
    have "sooner e v = Some (case v of None \<Rightarrow> ev_timeout e | Some s \<Rightarrow> min (ev_timeout e) s)"
      using True gfarm_timeval_cmp_sign by (cases v) (auto simp: sooner_def min_def)
    then have "fold sooner (e # es) v = Some (Min (insert (case v of None \<Rightarrow> ev_timeout e | Some s \<Rightarrow> min (ev_timeout e) s) (ev_times es)))"
      using Cons.IH by simp
    moreover have "Min (insert (min a b) S) = Min (insert b (insert a S))" if "finite S" for a b :: timeval and S
      using that by (cases "S = {}") (simp_all add: min.assoc min.left_commute min.commute)
    ultimately have "fold sooner (e # es) v = Some (Min (set_option v \<union> insert (ev_timeout e) (ev_times es)))"
      using fin by (cases v) (simp_all add: insert_commute del: Min_insert)
    then show ?thesis using True by (simp add: t Let_def del: fold_simps)
  qed
qed

subsection \<open>A turn, in steps\<close>

definition turn_deadline :: "timeval option \<Rightarrow> 'c event list \<Rightarrow> timeval option" where
  "turn_deadline timeo es = (let S = set_option timeo \<union> ev_times es in if S = {} then None else Some (Min S))"

definition turn_fds :: "'c event list \<Rightarrow> int set" where
  "turn_fds es = ev_fd ` {e \<in> set es. ev_type e = GFARM_FD_EVENT}"

definition turn_watch :: "'c event list \<Rightarrow> fd_set_kind \<Rightarrow> int set" where
  "turn_watch es k = ev_fd ` {e \<in> set es. ev_needs e k}"

text \<open>A turn after the preparation, \<open>q\<close> with its bits set.\<close>

definition turn_rest ::
  "('c, 'w) ev_callback \<Rightarrow> ('w \<Rightarrow> timeval \<times> 'w) \<Rightarrow> 'w ev_select \<Rightarrow> int \<Rightarrow> (fd_set_kind \<Rightarrow> int set option) \<Rightarrow> timeval option
     \<Rightarrow> 'c eventqueue \<Rightarrow> 'w \<Rightarrow> (int \<times> 'c eventqueue \<times> 'w) option" where
  "turn_rest callback now select nfds sets deadline q w =
     (case now w of
        (start_time, w1) \<Rightarrow>
          (case select nfds sets (turn_timeout deadline start_time) w1 of
             (Inl errno, w2) \<Rightarrow> Some (errno, q, w2)
           | (Inr found, w2) \<Rightarrow>
               let q2 = q\<lparr>fd_sets := (\<lambda>k. if sets k \<noteq> None then map_option (\<lambda>b. b\<lparr>fb_set := found k\<rparr>) (fd_sets q k)
                                         else fd_sets q k)\<rparr>
               in (case now w2 of
                     (end_time, w3) \<Rightarrow>
                       (case turn_dispatch_loop callback end_time (q_next q2) q2 w3 of
                          None \<Rightarrow> None
                        | Some (q3, w4) \<Rightarrow> Some (if q_next q3 = event_header then 0 else EV_EAGAIN, q3, w4)))))"

lemma fds_clear_same [simp]:
  "ev_heap (fds_clear q) = ev_heap q" "ev_brk (fds_clear q) = ev_brk q" "q_next (fds_clear q) = q_next q"
  "q_prev (fds_clear q) = q_prev q" "fd_set_size (fds_clear q) = fd_set_size q"
  "fd_set_bytes (fds_clear q) = fd_set_bytes q" "fd_sets (fds_clear q) k = None \<longleftrightarrow> fd_sets q k = None"
  "map_option fb_bytes (fd_sets (fds_clear q) k) = map_option fb_bytes (fd_sets q k)"
  by (auto simp: fds_clear_def option.map_comp comp_def)

lemma eq_inv_sets:
  assumes "eq_inv q xs" and "ev_heap q' = ev_heap q" "ev_brk q' = ev_brk q" "q_next q' = q_next q" "q_prev q' = q_prev q"
    "fd_set_size q' = fd_set_size q" "fd_set_bytes q' = fd_set_bytes q"
    and sets: "\<And>k. map_option fb_bytes (fd_sets q' k) = map_option fb_bytes (fd_sets q k)"
  shows "eq_inv q' xs"
proof -
  have "ev_nxt q' = ev_nxt q" "ev_prv q' = ev_prv q" using assms(2-5) by (auto simp: ev_nxt_def ev_prv_def fun_eq_iff)
  then have "eq_rep q' xs" using assms(1,2) eq_rep_cong [of q xs q'] by (simp add: eq_inv_def)
  moreover have "fds_ok q'" by (rule fds_ok_sets [of q]) (use assms in \<open>simp_all add: eq_inv_def\<close>)
  moreover have "fd_sets q' k = None \<longleftrightarrow> fd_sets q k = None" for k using sets by (metis map_option_is_None)
  ultimately show ?thesis using assms(1-6) by (simp add: eq_inv_def watched_iff)
qed

text \<open>What \<open>select\<close> is given: exactly the descriptors of the queue, as far as the sets reach.\<close>

definition sets_exact :: "'c event list \<Rightarrow> 'c eventqueue \<Rightarrow> (fd_set_kind \<Rightarrow> int set option) \<Rightarrow> bool" where
  "sets_exact es q sets \<longleftrightarrow> (\<forall>k. case sets k of
       None \<Rightarrow> turn_watch es k = {}
     | Some B \<Rightarrow> turn_watch es k \<noteq> {} \<and> fd_sets q k \<noteq> None
         \<and> (\<forall>f. f < fd_set_size q \<longrightarrow> (f \<in> B \<longleftrightarrow> f \<in> turn_watch es k)))
     \<and> (\<forall>k. \<forall>f \<in> turn_watch es k. 0 \<le> f \<and> f < fd_set_size q)"

lemma turn_steps:
  fixes callback now select timeo q w xs
  defines "es \<equiv> events_of q xs"
  assumes inv: "eq_inv q xs" and ne: "xs \<noteq> []"
  shows "\<exists>q1 sets. eq_inv q1 xs \<and> ev_heap q1 = ev_heap q \<and> ev_brk q1 = ev_brk q \<and> fd_set_size q1 = fd_set_size q
    \<and> sets_exact es q1 sets
    \<and> gfarm_eventqueue_turn callback now select timeo q w
      = (if turn_fds es = {} \<and> turn_deadline timeo es = None then Some (EV_EDEADLK, q1, w)
         else turn_rest callback now select (Max (insert (-1) (turn_fds es)) + 1) sets (turn_deadline timeo es) q1 w)"
proof -
  let ?q0 = "fds_clear q" and ?init = "\<lparr>et_timeout = timeo, et_passed = {}, et_max_fd = -1\<rparr>"
  let ?q1 = "fold prep_sets es ?q0" and ?t = "fold prep_turn es ?init"
  have rep: "eq_rep q ([] @ xs)" using inv by (simp add: eq_inv_def)
  have watched: "\<forall>e \<in> set es. watched q e"
    using inv by (force simp: es_def events_of_def eq_inv_def eq_rep_def)
  have inv0: "eq_inv ?q0 xs" by (rule eq_inv_sets [OF inv]) simp_all
  then have ok0: "fds_ok ?q0" by (simp add: eq_inv_def)
  have w0: "\<forall>e \<in> set (events_of q xs). watched ?q0 e" using watched unfolding es_def watched_iff fds_clear_same by simp
  have nextq: "q_next q = hd (xs @ [event_header])" using eq_rep_first [OF rep] by simp
  have first: "q_next q \<noteq> event_header" using rep ne nextq by (cases xs) (auto simp: eq_rep_def)
  have loop: "turn_prepare_loop (q_next q) ?init ?q0 = Some (?t, ?q1)"
    using prepare_loop_spec [OF rep ok0 _ w0, of ?init] by (simp add: nextq es_def)
  have none: "fd_sets ?q1 k = None \<longleftrightarrow> fd_sets q k = None" for k by (simp add: fold_prep_sets_bits)
  have inv1: "eq_inv ?q1 xs"
    by (rule eq_inv_sets [OF inv0]) (simp_all add: fold_prep_sets_bits option.map_comp comp_def)
  define sets where "sets k = (if k \<in> et_passed ?t then map_option fb_set (fd_sets ?q1 k) else None)" for k
  have passed: "k \<in> et_passed ?t \<longleftrightarrow> turn_watch es k \<noteq> {}" for k by (auto simp: fold_prep_turn(1) turn_watch_def)
  have some: "fd_sets q k \<noteq> None" if "turn_watch es k \<noteq> {}" for k
    using that watched by (auto simp: turn_watch_def watched_iff)
  have range: "0 \<le> f \<and> f < fd_set_size q" if "f \<in> turn_watch es k" for k f
    using that watched by (auto simp: turn_watch_def watched_iff ev_needs_def)
  have exact: "sets_exact es ?q1 sets"
    unfolding sets_exact_def
  proof (intro conjI allI ballI)
    fix k
    show "case sets k of None \<Rightarrow> turn_watch es k = {}
      | Some B \<Rightarrow> turn_watch es k \<noteq> {} \<and> fd_sets ?q1 k \<noteq> None
          \<and> (\<forall>f. f < fd_set_size ?q1 \<longrightarrow> (f \<in> B \<longleftrightarrow> f \<in> turn_watch es k))"
    proof (cases "turn_watch es k = {}")
      case True
      then show ?thesis using passed by (simp add: sets_def)
    next
      case False
      from some [OF this] obtain b where b: "fd_sets q k = Some b" by blast
      have "sets k = Some ({f \<in> fb_set b. 8 * uint (fd_set_bytes q) \<le> f} \<union> turn_watch es k)"
        using False b passed [of k] by (simp add: sets_def fold_prep_sets_bits fds_clear_def turn_watch_def)
      moreover have "fd_set_size q = 8 * uint (fd_set_bytes q)" using inv by (simp add: eq_inv_def fds_ok_def)
      ultimately show ?thesis using False b none [of k] by simp
    qed
  qed (use range in auto)
  have max: "et_max_fd ?t = Max (insert (-1) (turn_fds es))" by (simp add: fold_prep_turn(3) turn_fds_def)
  have deadline: "et_timeout ?t = turn_deadline timeo es" by (simp add: fold_prep_turn(2) fold_sooner turn_deadline_def)
  have "finite (turn_fds es)" "\<forall>f \<in> turn_fds es. 0 \<le> f" using watched by (auto simp: turn_fds_def watched_iff)
  then have neg: "et_max_fd ?t < 0 \<longleftrightarrow> turn_fds es = {}"
    unfolding max by (cases "turn_fds es = {}") (auto simp: not_less)
  have "turn_select select ?t to ?q1 w' = (case select (et_max_fd ?t + 1) sets to w' of
      (Inl errno, w') \<Rightarrow> (Inl errno, w')
    | (Inr found, w') \<Rightarrow> (Inr (?q1\<lparr>fd_sets := (\<lambda>k. if sets k \<noteq> None then map_option (\<lambda>b. b\<lparr>fb_set := found k\<rparr>) (fd_sets ?q1 k)
        else fd_sets ?q1 k)\<rparr>), w'))" for to w'
  proof -
    have "(\<lambda>k. if k \<in> et_passed ?t then map_option fb_set (fd_sets ?q1 k) else None) = sets" by (simp add: sets_def fun_eq_iff)
    moreover have "sets k = None \<longleftrightarrow> k \<notin> et_passed ?t" for k using some [of k] passed [of k] none [of k] by (simp add: sets_def)
    ultimately show ?thesis unfolding turn_select_def by (simp only: not_not)
  qed
  then have "gfarm_eventqueue_turn callback now select timeo q w
      = (if turn_fds es = {} \<and> turn_deadline timeo es = None then Some (EV_EDEADLK, ?q1, w)
         else turn_rest callback now select (Max (insert (-1) (turn_fds es)) + 1) sets (turn_deadline timeo es) ?q1 w)"
    using first loop neg
    by (simp add: gfarm_eventqueue_turn_def turn_rest_def deadline max [symmetric] Let_def split: prod.split sum.split)
  with inv1 exact show ?thesis by (intro exI [of _ ?q1] exI [of _ sets]) simp
qed

subsection \<open>Calling back\<close>

definition fd_ready :: "'c eventqueue \<Rightarrow> 'c event \<Rightarrow> fd_set_kind \<Rightarrow> bool" where
  "fd_ready q e k \<longleftrightarrow> ev_needs e k \<and> (case fd_sets q k of None \<Rightarrow> False | Some b \<Rightarrow> ev_fd e \<in> fb_set b)"

definition ready_mask :: "'c eventqueue \<Rightarrow> 'c event \<Rightarrow> int" where
  "ready_mask q e = (if fd_ready q e Set_read then 2 else 0) + (if fd_ready q e Set_write then 4 else 0)
     + (if fd_ready q e Set_exception then 8 else 0)"

text \<open>The events an entry is called back for.\<close>

definition ev_due :: "'c eventqueue \<Rightarrow> timeval \<Rightarrow> 'c event \<Rightarrow> int option" where
  "ev_due q t e = (case ev_type e of
     GFARM_FD_EVENT \<Rightarrow>
       if ready_mask q e \<noteq> 0 then Some (ready_mask q e)
       else if ev_timeout_specified e \<and> ev_timeout e \<le> t then Some GFARM_EVENT_TIMEOUT else None
   | GFARM_TIMER_EVENT \<Rightarrow> if ev_timeout e \<le> t then Some 0 else None)"

lemma isset_spec:
  assumes "fds_ok q" and "watched q e" and "ev_needs e k"
  shows "fds_isset (ev_fd e) k q = Some (fd_ready q e k)"
proof -
  obtain b where b: "fd_sets q k = Some b" using assms(2,3) by (auto simp: watched_iff)
  have "0 \<le> ev_fd e \<and> ev_fd e < 8 * uint (fb_bytes b)"
    using assms b by (fastforce simp: watched_iff ev_needs_def fds_ok_def)
  then show ?thesis using b assms(3) by (simp add: fds_isset_def fd_ready_def)
qed

lemma ready_events_spec:
  assumes "fds_ok q" and "watched q e" and "ev_type e = GFARM_FD_EVENT"
  shows "ready_events (ev_filter e) (ev_fd e) (map (\<lambda>k. (set_flag k, k)) ks) q
    = Some (foldr (\<lambda>k m. if fd_ready q e k then or m (set_flag k) else m) ks 0)"
proof (induction ks)
  case (Cons k ks)
  show ?case
  proof (cases "ev_needs e k")
    case True
    then show ?thesis using Cons isset_spec [OF assms(1,2) True] assms(3) by (simp add: ev_needs_def)
  next
    case False
    then show ?thesis using Cons assms(3) by (simp add: ev_needs_def fd_ready_def)
  qed
qed simp

lemma event_due_spec:
  assumes "fds_ok q" and "watched q e"
  shows "event_due e t q = Some (ev_due q t e)"
proof (cases "ev_type e")
  case GFARM_FD_EVENT
  have "ready_events (ev_filter e) (ev_fd e) event_flags q = Some (ready_mask q e)"
    unfolding event_flags_map ready_events_spec [OF assms GFARM_FD_EVENT] ready_mask_def by (simp add: set_flag_def)
  then show ?thesis using GFARM_FD_EVENT gfarm_timeval_cmp_sign [of t "ev_timeout e"]
    by (auto simp: event_due_def ev_due_def not_less [symmetric])
next
  case GFARM_TIMER_EVENT
  then show ?thesis using gfarm_timeval_cmp_sign [of t "ev_timeout e"]
    by (auto simp: event_due_def ev_due_def not_less [symmetric])
qed

lemma eq_inv_watched: "eq_inv q xs \<Longrightarrow> x \<in> set xs \<Longrightarrow> ev_heap q x = Some e \<Longrightarrow> fds_ok q \<and> watched q e"
  by (simp add: eq_inv_def)

lemma eq_inv_first:
  assumes "eq_inv q xs"
  shows "q_next q = hd (xs @ [event_header])" and "q_next q = event_header \<longleftrightarrow> xs = []"
  using assms eq_rep_first [of q xs] by (cases xs; auto simp: eq_inv_def eq_rep_def)+

text \<open>
  The contract of a client: its callbacks find what they need in \<open>good\<close>, keep the queue, may add events, and
  leave less work, \<open>cost\<close>, than there was.
\<close>

locale ev_client =
  fixes callback :: "('c, 'w) ev_callback"
    and now :: "'w \<Rightarrow> timeval \<times> 'w"
    and select :: "'w ev_select"
    and good :: "'c eventqueue \<Rightarrow> nat list \<Rightarrow> 'w \<Rightarrow> bool"
    and cost :: "'c eventqueue \<Rightarrow> nat list \<Rightarrow> 'w \<Rightarrow> nat"
  assumes called: "eq_inv q (as @ p # bs) \<Longrightarrow> good q (as @ p # bs) w \<Longrightarrow> ev_heap q p = Some e \<Longrightarrow> ev_due q t e = Some events \<Longrightarrow>
      gfarm_eventqueue_delete_event p q = Some (0, q1) \<Longrightarrow>
      \<exists>q' w' ys. callback (ev_closure e) events (case ev_type e of GFARM_FD_EVENT \<Rightarrow> ev_fd e | GFARM_TIMER_EVENT \<Rightarrow> 0) t q1 w
          = Some (q', w')
        \<and> eq_inv q' (as @ bs @ ys) \<and> good q' (as @ bs @ ys) w'
        \<and> cost q' (as @ bs @ ys) w' < cost q (as @ p # bs) w"
    and sets_free: "good q xs w \<Longrightarrow> ev_heap q' = ev_heap q \<Longrightarrow> ev_brk q' = ev_brk q \<Longrightarrow>
      good q' xs w \<and> cost q' xs w = cost q xs w"
    and now_free: "good q xs w \<Longrightarrow> now w = (t, w') \<Longrightarrow> good q xs w' \<and> cost q xs w' = cost q xs w"
    and select_free: "good q xs w \<Longrightarrow> select n sets to w = (r, w') \<Longrightarrow>
      good q xs w' \<and> cost q xs w' = cost q xs w"
begin

lemma dispatch_returns:
  assumes "eq_inv q (as @ bs)" and "good q (as @ bs) w"
  shows "\<exists>q' w' zs. turn_dispatch_loop callback t (hd (bs @ [event_header])) q w = Some (q', w')
    \<and> eq_inv q' zs \<and> good q' zs w' \<and> cost q' zs w' \<le> cost q (as @ bs) w"
  using assms
proof (induction "(cost q (as @ bs) w, length bs)" arbitrary: as bs q w rule: wf_induct_rule [OF wf_lex_prod [OF wf_less_than wf_less_than]])
  case less: 1
  show ?case
  proof (cases bs)
    case Nil
    then show ?thesis using less.prems
      by (subst turn_dispatch_loop.simps) (auto intro!: exI [of _ "as"])
  next
    case (Cons p cs)
    have inv: "eq_inv q (as @ p # cs)" and good: "good q (as @ p # cs) w" using less.prems by (simp_all add: Cons)
    have p: "p \<noteq> event_header" using inv by (auto simp: eq_inv_def eq_rep_def)
    obtain e where e: "ev_heap q p = Some e" "ev_next e = Some (hd (cs @ [event_header]))"
      using eq_rep_next [of q as p cs] inv by (auto simp: eq_inv_def)
    have due: "event_due e t q = Some (ev_due q t e)"
      by (rule event_due_spec) (use eq_inv_watched [OF inv _ e(1)] in simp_all)
    show ?thesis
    proof (cases "ev_due q t e")
      case None
      then have "turn_dispatch_event callback t p e q w = Some (q, w)" by (simp add: turn_dispatch_event_def due)
      then have step: "turn_dispatch_loop callback t (hd (bs @ [event_header])) q w
        = turn_dispatch_loop callback t (hd (cs @ [event_header])) q w"
        by (subst turn_dispatch_loop.simps) (simp add: Cons p e)
      have "\<exists>q' w' zs. turn_dispatch_loop callback t (hd (cs @ [event_header])) q w = Some (q', w')
        \<and> eq_inv q' zs \<and> good q' zs w' \<and> cost q' zs w' \<le> cost q ((as @ [p]) @ cs) w"
        by (rule less.hyps) (use inv good Cons in simp_all)
      then show ?thesis unfolding step using Cons by simp
    next
      case (Some events)
      from delete_inv [OF inv] obtain q1 where q1: "gfarm_eventqueue_delete_event p q = Some (0, q1)" by blast
      from called [OF inv good e(1) Some q1] obtain q2 w2 ys where
        2: "callback (ev_closure e) events (case ev_type e of GFARM_FD_EVENT \<Rightarrow> ev_fd e | GFARM_TIMER_EVENT \<Rightarrow> 0) t q1 w = Some (q2, w2)"
          "eq_inv q2 (as @ cs @ ys)" "good q2 (as @ cs @ ys) w2"
          "cost q2 (as @ cs @ ys) w2 < cost q (as @ p # cs) w" by blast
      have "turn_dispatch_event callback t p e q w = Some (q2, w2)" by (simp add: turn_dispatch_event_def due Some q1 2(1))
      then have step: "turn_dispatch_loop callback t (hd (bs @ [event_header])) q w
        = turn_dispatch_loop callback t (hd (cs @ [event_header])) q2 w2"
        by (subst turn_dispatch_loop.simps) (simp add: Cons p e)
      show ?thesis
      proof (cases cs)
        case Nil
        then have "turn_dispatch_loop callback t (hd (cs @ [event_header])) q2 w2 = Some (q2, w2)"
          by (subst turn_dispatch_loop.simps) simp
        then show ?thesis unfolding step using 2 Nil Cons by (intro exI [of _ q2] exI [of _ w2] exI [of _ "as @ ys"]) simp
      next
        case (Cons c ds)
        have "\<exists>q' w' zs. turn_dispatch_loop callback t (hd ((cs @ ys) @ [event_header])) q2 w2 = Some (q', w')
          \<and> eq_inv q' zs \<and> good q' zs w' \<and> cost q' zs w' \<le> cost q2 (as @ (cs @ ys)) w2"
          by (rule less.hyps) (use 2 \<open>bs = p # cs\<close> in simp_all)
        moreover have "hd ((cs @ ys) @ [event_header]) = hd (cs @ [event_header])" by (simp add: Cons)
        ultimately show ?thesis unfolding step using 2(4) \<open>bs = p # cs\<close> by fastforce
      qed
    qed
  qed
qed

lemma turn_returns:
  assumes inv: "eq_inv q xs" and good: "good q xs w" and errno: "\<forall>n sets to w. fst (select n sets to w) \<noteq> Inl 0"
  shows "\<exists>r q' w' zs. gfarm_eventqueue_turn callback now select timeo q w = Some (r, q', w')
    \<and> eq_inv q' zs \<and> good q' zs w' \<and> cost q' zs w' \<le> cost q xs w \<and> (r = 0 \<longleftrightarrow> zs = [])"
proof (cases "xs = []")
  case True
  then have "gfarm_eventqueue_turn callback now select timeo q w = Some (0, q, w)"
    using eq_inv_first [OF inv] by (simp add: gfarm_eventqueue_turn_def)
  then show ?thesis using True inv good by auto
next
  case False
  from turn_steps [OF inv False, of callback now select timeo w] obtain q1 sets where
    1: "eq_inv q1 xs" "ev_heap q1 = ev_heap q" "ev_brk q1 = ev_brk q" and
    turn: "gfarm_eventqueue_turn callback now select timeo q w
      = (if turn_fds (events_of q xs) = {} \<and> turn_deadline timeo (events_of q xs) = None then Some (EV_EDEADLK, q1, w)
         else turn_rest callback now select (Max (insert (-1) (turn_fds (events_of q xs))) + 1) sets
           (turn_deadline timeo (events_of q xs)) q1 w)" by blast
  let ?n = "Max (insert (-1) (turn_fds (events_of q xs))) + 1" and ?d = "turn_deadline timeo (events_of q xs)"
  have good1: "good q1 xs w" "cost q1 xs w = cost q xs w" using sets_free [OF good 1(2,3)] by simp_all
  show ?thesis
  proof (cases "turn_fds (events_of q xs) = {} \<and> ?d = None")
    case True
    then show ?thesis using turn 1(1) good1 False by auto
  next
    case act: False
    obtain t0 w1 where n1: "now w = (t0, w1)" by fastforce
    obtain r w2 where sel: "select ?n sets (turn_timeout ?d t0) w1 = (r, w2)" by fastforce
    note g1 = now_free [OF good1(1) n1]
    note g2 = select_free [OF conjunct1 [OF g1] sel]
    show ?thesis
    proof (cases r)
      case (Inl errno)
      then have "gfarm_eventqueue_turn callback now select timeo q w = Some (errno, q1, w2)"
        using turn act n1 sel by (simp add: turn_rest_def)
      moreover have "errno \<noteq> 0" using sel Inl errno by (metis fst_conv)
      ultimately show ?thesis using 1(1) g1 g2 Inl False good1(2) by (intro exI [of _ errno] exI [of _ q1] exI [of _ w2] exI [of _ xs]) auto
    next
      case (Inr found)
      let ?q2 = "q1\<lparr>fd_sets := (\<lambda>k. if sets k \<noteq> None then map_option (\<lambda>b. b\<lparr>fb_set := found k\<rparr>) (fd_sets q1 k) else fd_sets q1 k)\<rparr>"
      have inv2: "eq_inv ?q2 xs" by (rule eq_inv_sets [OF 1(1)]) (simp_all add: option.map_comp comp_def)
      obtain t w3 where n3: "now w2 = (t, w3)" by fastforce
      note g3 = now_free [OF conjunct1 [OF g2] n3]
      have good2: "good ?q2 xs w3" "cost ?q2 xs w3 = cost q1 xs w3" using sets_free [OF conjunct1 [OF g3], of ?q2] by simp_all
      with inv2 dispatch_returns [of ?q2 "[]" xs w3 t] obtain q' w' zs where
        d: "turn_dispatch_loop callback t (hd (xs @ [event_header])) ?q2 w3 = Some (q', w')"
          "eq_inv q' zs" "good q' zs w'" "cost q' zs w' \<le> cost ?q2 xs w3" by auto
      have "gfarm_eventqueue_turn callback now select timeo q w
        = Some (if q_next q' = event_header then 0 else EV_EAGAIN, q', w')"
        using turn act n1 sel Inr n3 d(1) eq_inv_first [OF inv2] by (simp add: turn_rest_def)
      moreover have "q_next q' = event_header \<longleftrightarrow> zs = []" using eq_inv_first [OF d(2)] by simp
      moreover have "cost q' zs w' \<le> cost q xs w" using d(4) g1 g2 g3 good1(2) good2(2) by simp
      ultimately show ?thesis using d(2,3) by auto
    qed
  qed
qed

end

text \<open>A client with a clock: each look at it shows a later time.\<close>

locale ev_clock = ev_client +
  fixes clock :: "'w \<Rightarrow> int"
  assumes clock_now: "good q xs w \<Longrightarrow> now w = (t, w') \<Longrightarrow> tv_normalized t \<and> clock w < time_us t \<and> clock w' = time_us t"
    and clock_select: "select n sets to w = (r, w') \<Longrightarrow> clock w \<le> clock w'"
    and clock_called: "callback c events fd t q w = Some (q', w') \<Longrightarrow> clock w \<le> clock w'"
begin

text \<open>The clock never goes back: a bound on it can be added to what the client keeps.\<close>

lemma ev_client_from: "ev_client callback now select (\<lambda>q xs w. good q xs w \<and> k \<le> clock w) cost"
proof
  fix q :: "'a eventqueue" and as p bs w e t events q1
  assume a: "eq_inv q (as @ p # bs)" "good q (as @ p # bs) w \<and> k \<le> clock w" "ev_heap q p = Some e" "ev_due q t e = Some events"
    "gfarm_eventqueue_delete_event p q = Some (0, q1)"
  from called [OF a(1) conjunct1 [OF a(2)] a(3-5)] obtain q' w' ys where
    c: "callback (ev_closure e) events (case ev_type e of GFARM_FD_EVENT \<Rightarrow> ev_fd e | GFARM_TIMER_EVENT \<Rightarrow> 0) t q1 w = Some (q', w')"
      "eq_inv q' (as @ bs @ ys)" "good q' (as @ bs @ ys) w'" "cost q' (as @ bs @ ys) w' < cost q (as @ p # bs) w" by blast
  have "k \<le> clock w'" using clock_called [OF c(1)] a(2) by linarith
  with c show "\<exists>q' w' ys. callback (ev_closure e) events (case ev_type e of GFARM_FD_EVENT \<Rightarrow> ev_fd e | GFARM_TIMER_EVENT \<Rightarrow> 0) t q1 w
      = Some (q', w') \<and> eq_inv q' (as @ bs @ ys) \<and> (good q' (as @ bs @ ys) w' \<and> k \<le> clock w')
      \<and> cost q' (as @ bs @ ys) w' < cost q (as @ p # bs) w" by blast
next
  fix q xs w and q' :: "'a eventqueue"
  assume "good q xs w \<and> k \<le> clock w" "ev_heap q' = ev_heap q" "ev_brk q' = ev_brk q"
  then show "(good q' xs w \<and> k \<le> clock w) \<and> cost q' xs w = cost q xs w" using sets_free by blast
next
  fix q xs w t w'
  assume a: "good q xs w \<and> k \<le> clock w" "now w = (t, w')"
  have "clock w \<le> clock w'" using clock_now [OF conjunct1 [OF a(1)] a(2)] by simp
  then show "(good q xs w' \<and> k \<le> clock w') \<and> cost q xs w' = cost q xs w" using a now_free [OF conjunct1 [OF a(1)] a(2)] by simp
next
  fix q xs w n sets "to" r w'
  assume a: "good q xs w \<and> k \<le> clock w" "select n sets to w = (r, w')"
  show "(good q xs w' \<and> k \<le> clock w') \<and> cost q xs w' = cost q xs w"
    using a clock_select [OF a(2)] select_free [OF conjunct1 [OF a(1)] a(2)] by simp
qed

lemma loop_rounds:
  assumes "eq_inv q xs" and "good q xs w" and l: "tv_normalized l"
    and errno: "\<forall>n sets to w. fst (select n sets to w) \<noteq> Inl 0"
  shows "\<exists>r q' w' zs. eventqueue_loop (\<lambda>q timeout w. gfarm_eventqueue_turn callback now select timeout q w) now (Some l) t q w
      = Some (r, q', w')
    \<and> eq_inv q' zs \<and> good q' zs w' \<and> cost q' zs w' \<le> cost q xs w \<and> (r = 0 \<longleftrightarrow> zs = []) \<and> r \<notin> {EV_EAGAIN, EV_EINTR}"
  using assms(1,2)
proof (induction "nat (time_us l - clock w)" arbitrary: q xs w t rule: less_induct)
  case less
  let ?turn = "\<lambda>q timeout w. gfarm_eventqueue_turn callback now select timeout q w"
  from ev_client.turn_returns [OF ev_client_from [of "clock w"] less.prems(1), of w "Some (gfarm_timeval_sub l t)"] less.prems(2) errno
  obtain r q1 w1 zs where 1: "gfarm_eventqueue_turn callback now select (Some (gfarm_timeval_sub l t)) q w = Some (r, q1, w1)"
    "eq_inv q1 zs" "good q1 zs w1" "clock w \<le> clock w1" "cost q1 zs w1 \<le> cost q xs w" "r = 0 \<longleftrightarrow> zs = []" by auto
  show ?case
  proof (cases "r = 0 \<or> (r \<noteq> EV_EAGAIN \<and> r \<noteq> EV_EINTR)")
    case True
    then have "eventqueue_loop ?turn now (Some l) t q w = Some (r, q1, w1)"
      by (subst eventqueue_loop.simps) (auto simp: 1(1))
    moreover have "r \<notin> {EV_EAGAIN, EV_EINTR}" using True by auto
    ultimately show ?thesis using 1 by blast
  next
    case False
    obtain t' w2 where n: "now w1 = (t', w2)" by fastforce
    note c = clock_now [OF 1(3) n] and f = now_free [OF 1(3) n]
    have cmp: "gfarm_timeval_cmp t' l \<ge> 0 \<longleftrightarrow> time_us l \<le> time_us t'"
      using gfarm_timeval_cmp_sign [of t' l] less_timeval_time_us [of t' l] c l by (simp add: not_less [symmetric])
    show ?thesis
    proof (cases "time_us l \<le> time_us t'")
      case True
      then have "eventqueue_loop ?turn now (Some l) t q w = Some (EV_ETIMEDOUT, q1, w2)"
        using False cmp by (subst eventqueue_loop.simps) (auto simp: 1(1) n)
      moreover have "zs \<noteq> []" using False 1(6) by blast
      ultimately show ?thesis using 1(2,5) f by auto
    next
      case later: False
      then have step: "eventqueue_loop ?turn now (Some l) t q w = eventqueue_loop ?turn now (Some l) t' q1 w2"
        using False cmp by (subst eventqueue_loop.simps) (auto simp: 1(1) n)
      have "nat (time_us l - clock w2) < nat (time_us l - clock w)" using later c 1(4) by simp
      from less.hyps [OF this 1(2) conjunct1 [OF f], of t'] 1(5) f show ?thesis unfolding step by (fastforce intro: order_trans)
    qed
  qed
qed

lemma loop_returns:
  assumes "eq_inv q xs" and "good q xs w" and d: "tv_normalized d"
    and errno: "\<forall>n sets to w. fst (select n sets to w) \<noteq> Inl 0"
  shows "\<exists>r q' w' zs. gfarm_eventqueue_loop callback now select (Some d) q w = Some (r, q', w')
    \<and> eq_inv q' zs \<and> good q' zs w' \<and> cost q' zs w' \<le> cost q xs w \<and> (r = 0 \<longleftrightarrow> zs = []) \<and> r \<notin> {EV_EAGAIN, EV_EINTR}"
proof -
  obtain n w1 where n: "now w = (n, w1)" by fastforce
  have "tv_normalized (gfarm_timeval_add n d)"
    using clock_now [OF assms(2) n] d by (simp add: gfarm_timeval_add_normalized)
  from loop_rounds [OF assms(1) conjunct1 [OF now_free [OF assms(2) n]] this errno, of "gfarm_timeval_add n d"]
    now_free [OF assms(2) n]
  show ?thesis by (simp add: gfarm_eventqueue_loop_def n Let_def)
qed

end

end
