(* ===== verification/Gfevent_Due.thy ===== *)
theory Gfevent_Due
  imports Gfevent_Turn
begin

text \<open>
  What a turn does with events that are due: callbacks that leave the queue alone are run once for each due
  event, in the order of the queue; callbacks that add their event again keep a turn busy for ever; and a
  timeout given to the loop makes \<open>select\<close> poll.
\<close>

subsection \<open>Once each, in order\<close>






subsection \<open>Callbacks that add their event again\<close>













subsection \<open>Properties\<close>

text \<open>A queue of two events, on the descriptors 3 and 5, both to be read, the second with a timeout.\<close>

definition two_events :: "nat eventqueue" where
  "two_events = \<lparr>ev_heap = [1 \<mapsto> \<lparr>ev_next = Some 2, ev_prev = Some 0, ev_filter = 2, ev_closure = 1,
        ev_timeout = Timeval 0 0, ev_timeout_specified = False, ev_type = GFARM_FD_EVENT, ev_fd = 3\<rparr>,
      2 \<mapsto> \<lparr>ev_next = Some 0, ev_prev = Some 1, ev_filter = 3, ev_closure = 2,
        ev_timeout = Timeval 7 0, ev_timeout_specified = True, ev_type = GFARM_FD_EVENT, ev_fd = 5\<rparr>],
     ev_brk = 3, q_next = 1, q_prev = 2, fd_set_size = 1024, fd_set_bytes = 128,
     fd_sets = (\<lambda>k. if k = Set_read then Some \<lparr>fb_bytes = 128, fb_set = {3}\<rparr> else None)\<rparr>"

lemma two_events_inv: "eq_inv two_events [1, 2]"
proof -
  have "eq_rep two_events [1, 2]" by (auto simp: eq_rep_def two_events_def ev_nxt_def ev_prv_def)
  moreover have "fds_ok two_events" by (simp add: fds_ok_def two_events_def)
  moreover have "\<forall>x \<in> set [1, 2]. \<forall>e. ev_heap two_events x = Some e \<longrightarrow> watched two_events e"
    by (auto simp: two_events_def watched_def event_flags_def has_event_def)
  ultimately show ?thesis by (auto simp: eq_inv_def two_events_def split: if_splits)
qed

text \<open>C32: a turn of an event queue with events either has nothing to wait for, no descriptor and no timeout, and fails with
  \<open>EDEADLK\<close>, or asks \<open>select\<close> for exactly the descriptors of the events, kind by kind, with a number above all of
  them and the earliest of the timeouts, and goes on with the answer; no bit outside a descriptor set is set.\<close>

theorem turn_asks:
  assumes "eq_inv q xs" and "xs \<noteq> []"
  shows "\<exists>q1 sets. eq_inv q1 xs \<and> ev_heap q1 = ev_heap q \<and> sets_exact (events_of q xs) q1 sets
    \<and> gfarm_eventqueue_turn callback now select timeo q w
      = (if turn_fds (events_of q xs) = {} \<and> turn_deadline timeo (events_of q xs) = None then Some (EV_EDEADLK, q1, w)
         else turn_rest callback now select (Max (insert (-1) (turn_fds (events_of q xs))) + 1) sets
           (turn_deadline timeo (events_of q xs)) q1 w)"
  using turn_steps [OF assms, of callback now select timeo w] by blast

lemma two_events_of:
  "events_of two_events [1, 2] = [the (ev_heap two_events 1), the (ev_heap two_events 2)]"
  by (simp add: events_of_def)

theorem turn_asks_witness:
  "\<forall>callback now select (w :: 'w). \<exists>q1 sets. eq_inv q1 [1, 2]
     \<and> sets_exact (events_of two_events [1, 2]) q1 sets \<and> turn_watch (events_of two_events [1, 2]) Set_read = {3, 5}
     \<and> gfarm_eventqueue_turn callback now select None two_events w
       = turn_rest callback now select 6 sets (Some (Timeval 7 0)) q1 w"
proof (intro allI)
  fix callback :: "(nat, 'w) ev_callback" and now select and w :: 'w
  have fds: "turn_fds (events_of two_events [1, 2]) = {3, 5}"
    unfolding two_events_of turn_fds_def set_filter [symmetric] by (simp add: two_events_def)
  have due: "turn_deadline None (events_of two_events [1, 2]) = Some (Timeval 7 0)"
  proof -
    have "ev_times (events_of two_events [1, 2]) = {Timeval 7 0}"
      unfolding two_events_of ev_times_def set_filter [symmetric] by (simp add: two_events_def)
    then show ?thesis by (simp add: turn_deadline_def)
  qed
  have "turn_watch (events_of two_events [1, 2]) Set_read = {3, 5}"
    unfolding two_events_of turn_watch_def set_filter [symmetric]
    by (simp add: ev_needs_def has_event_def set_flag_def two_events_def)
  with turn_asks [OF two_events_inv, of callback now select None w] show "\<exists>q1 sets. eq_inv q1 [1, 2]
     \<and> sets_exact (events_of two_events [1, 2]) q1 sets \<and> turn_watch (events_of two_events [1, 2]) Set_read = {3, 5}
     \<and> gfarm_eventqueue_turn callback now select None two_events w
       = turn_rest callback now select 6 sets (Some (Timeval 7 0)) q1 w"
    unfolding fds due by fastforce
qed





end
