(* ===== verification/Gfs_Load.thy ===== *)
theory Gfs_Load
  imports Gfevent Gfs_Connect
begin

text \<open>
  \<open>gfarm/gfs_client.c\<close>: the datagram service of the file servers, the load of a host, and its state machine
  over the event queue: a request is sent when the socket takes it, the answer is awaited for 8 seconds, then
  asked for once more and awaited for 12.

  The socket calls, \<open>close\<close> and \<open>gettimeofday\<close> are parameters acting on the world \<open>'x\<close>. The states
  are in a store, the closure of an event is the callback with the address of its state; the
  continuation of a request, with its closure, is a value \<open>'k\<close>, and running it is a parameter. A double is its
  eight bytes in memory. The host is little-endian.
\<close>

subsection \<open>State\<close>

record gfs_client_load =
  loadavg_1min :: "byte list"
  loadavg_5min :: "byte list"
  loadavg_15min :: "byte list"

datatype load_closure = Get_load_send nat | Get_load_receive nat

record 'k gfs_client_get_load_state =
  gls_writable :: nat
  gls_readable :: nat
  gls_continuation :: "'k option"
  gls_sock :: int
  gls_try :: int
  gls_error :: gfarm_error_t
  gls_load :: gfs_client_load

record ('k, 'x) load_world =
  lw_states :: "nat \<Rightarrow> 'k gfs_client_get_load_state option"
  lw_brk :: nat
  lw_x :: 'x

record 'x load_io =
  lio_socket :: "'x \<Rightarrow> (int + int) \<times> 'x"
  lio_connect :: "int \<Rightarrow> peer_sockaddr \<Rightarrow> 'x \<Rightarrow> int option \<times> 'x"
  lio_write :: "int \<Rightarrow> byte list \<Rightarrow> 'x \<Rightarrow> (int + nat) \<times> 'x"
  lio_sendto :: "int \<Rightarrow> byte list \<Rightarrow> peer_sockaddr \<Rightarrow> 'x \<Rightarrow> (int + nat) \<times> 'x"
  lio_read :: "int \<Rightarrow> nat \<Rightarrow> 'x \<Rightarrow> (int + byte list) \<times> 'x"
  lio_recvfrom :: "int \<Rightarrow> nat \<Rightarrow> 'x \<Rightarrow> (int + byte list \<times> peer_sockaddr) \<times> 'x"
  lio_close :: "int \<Rightarrow> 'x \<Rightarrow> 'x"
  lio_now :: "'x \<Rightarrow> timeval \<times> 'x"


definition load_store :: "nat \<Rightarrow> 'k gfs_client_get_load_state \<Rightarrow> ('k, 'x) load_world \<Rightarrow> ('k, 'x) load_world" where
  "load_store s st w = w\<lparr>lw_states := (lw_states w)(s := Some st)\<rparr>"

text \<open>\<open>gettimeofday\<close> in the world of the states.\<close>

definition load_now :: "'x load_io \<Rightarrow> ('k, 'x) load_world \<Rightarrow> timeval \<times> ('k, 'x) load_world" where
  "load_now io w = (case lio_now io (lw_x w) of (t, x) \<Rightarrow> (t, w\<lparr>lw_x := x\<rparr>))"

subsection \<open>A datagram\<close>

text \<open>Timeouts in milliseconds.\<close>

definition gfs_client_datagram_timeouts :: "int list" where
  "gfs_client_datagram_timeouts = [8000, 12000]"

definition gfs_client_datagram_ntimeouts :: int where
  "gfs_client_datagram_ntimeouts = int (length gfs_client_datagram_timeouts)"

text \<open>The command is an \<open>int\<close>, 0. Without an address the socket is a connected one.\<close>

definition gfs_client_get_load_request ::
  "'x load_io \<Rightarrow> int \<Rightarrow> peer_sockaddr option \<Rightarrow> 'x \<Rightarrow> gfarm_error_t \<times> 'x" where
  "gfs_client_get_load_request io sock server_addr x =
     (let command = replicate 4 (0 :: byte)
      in case (case server_addr of
                 None \<Rightarrow> lio_write io sock command x
               | Some a \<Rightarrow> lio_sendto io sock command a x) of
           (Inl eno, x') \<Rightarrow> (errno_error eno, x')
         | (Inr _, x') \<Rightarrow> (GFARM_ERR_NO_ERROR, x'))"

text \<open>The buffer of 24 bytes holds \<open>junk\<close> before; a datagram may be shorter.\<close>

definition load_of_bytes :: "byte list \<Rightarrow> gfs_client_load" where
  "load_of_bytes b = \<lparr>loadavg_1min = swab (take 8 b), loadavg_5min = swab (take 8 (drop 8 b)),
     loadavg_15min = swab (take 8 (drop 16 b))\<rparr>"

definition gfs_client_get_load_result ::
  "'x load_io \<Rightarrow> byte list \<Rightarrow> int \<Rightarrow> bool \<Rightarrow> 'x \<Rightarrow> (gfarm_error_t + gfs_client_load \<times> peer_sockaddr option) \<times> 'x" where
  "gfs_client_get_load_result io junk sock want_addr x =
     (case (if \<not> want_addr
            then (case lio_read io sock 24 x of (Inl eno, x') \<Rightarrow> (Inl eno, x') | (Inr b, x') \<Rightarrow> (Inr (b, None), x'))
            else (case lio_recvfrom io sock 24 x of
                    (Inl eno, x') \<Rightarrow> (Inl eno, x')
                  | (Inr (b, a), x') \<Rightarrow> (Inr (b, Some a), x'))) of
        (Inl eno, x') \<Rightarrow> (Inl (errno_error eno), x')
      | (Inr (b, a), x') \<Rightarrow> (Inr (load_of_bytes (take 24 b @ drop (length b) junk), a), x'))"

subsection \<open>The state machine\<close>

type_synonym ('k, 'x) load_cont =
  "'k \<Rightarrow> load_closure eventqueue \<Rightarrow> ('k, 'x) load_world \<Rightarrow> (load_closure eventqueue \<times> ('k, 'x) load_world) option"

text \<open>The end of both callbacks: the socket is closed and the continuation run.\<close>

definition load_finish ::
  "'x load_io \<Rightarrow> ('k, 'x) load_cont \<Rightarrow> nat \<Rightarrow> 'k gfs_client_get_load_state \<Rightarrow> load_closure eventqueue \<Rightarrow> ('k, 'x) load_world
     \<Rightarrow> (load_closure eventqueue \<times> ('k, 'x) load_world) option" where
  "load_finish io cont s st q w =
     (let w1 = load_store s (st\<lparr>gls_sock := -1\<rparr>) (w\<lparr>lw_x := lio_close io (gls_sock st) (lw_x w)\<rparr>)
      in case gls_continuation st of None \<Rightarrow> Some (q, w1) | Some k \<Rightarrow> cont k q w1)"

text \<open>\<open>mal\<close> says which descriptor sets can be allocated.\<close>

definition gfs_client_get_load_send ::
  "'x load_io \<Rightarrow> (u64 \<Rightarrow> bool) \<Rightarrow> ('k, 'x) load_cont \<Rightarrow> nat \<Rightarrow> load_closure eventqueue \<Rightarrow> ('k, 'x) load_world
     \<Rightarrow> (load_closure eventqueue \<times> ('k, 'x) load_world) option" where
  "gfs_client_get_load_send io mal cont s q w =
     (case lw_states w s of
        None \<Rightarrow> None
      | Some st \<Rightarrow>
          (case gfs_client_get_load_request io (gls_sock st) None (lw_x w) of
             (e, x) \<Rightarrow>
               let st1 = st\<lparr>gls_error := e\<rparr>; w1 = load_store s st1 (w\<lparr>lw_x := x\<rparr>)
               in if e \<noteq> GFARM_ERR_NO_ERROR then load_finish io cont s st1 q w1
                  else if \<not> (0 \<le> gls_try st \<and> gls_try st < gfs_client_datagram_ntimeouts) then None
                  else
                    let timeout = gfarm_timeval_add_microsec (Timeval 0 0)
                                    (gfs_client_datagram_timeouts ! nat (gls_try st) * 1000)
                    in (case gfarm_eventqueue_add_event mal (load_now io) (gls_readable st) (Some timeout) q w1 of
                          None \<Rightarrow> None
                        | Some (rv, q1, w2) \<Rightarrow>
                            if rv = 0 then Some (q1, w2)
                            else let st2 = st1\<lparr>gls_error := errno_error rv\<rparr>
                                 in load_finish io cont s st2 q1 (load_store s st2 w2))))"

text \<open>A failed assertion is \<open>None\<close>.\<close>

definition gfs_client_get_load_receive ::
  "'x load_io \<Rightarrow> (u64 \<Rightarrow> bool) \<Rightarrow> ('k, 'x) load_cont \<Rightarrow> byte list \<Rightarrow> int \<Rightarrow> nat \<Rightarrow> load_closure eventqueue \<Rightarrow> ('k, 'x) load_world
     \<Rightarrow> (load_closure eventqueue \<times> ('k, 'x) load_world) option" where
  "gfs_client_get_load_receive io mal cont junk events s q w =
     (case lw_states w s of
        None \<Rightarrow> None
      | Some st \<Rightarrow>
          if has_event events GFARM_EVENT_TIMEOUT then
            if events \<noteq> GFARM_EVENT_TIMEOUT then None
            else
              let st1 = st\<lparr>gls_try := gls_try st + 1\<rparr>; w1 = load_store s st1 w
              in if gls_try st1 \<ge> gfs_client_datagram_ntimeouts
                 then load_finish io cont s (st1\<lparr>gls_error := GFARM_ERR_OPERATION_TIMED_OUT\<rparr>) q w1
                 else (case gfarm_eventqueue_add_event mal (load_now io) (gls_writable st) None q w1 of
                         None \<Rightarrow> None
                       | Some (rv, q1, w2) \<Rightarrow>
                           if rv = 0 then Some (q1, w2)
                           else load_finish io cont s (st1\<lparr>gls_error := errno_error rv\<rparr>) q1 w2)
          else if events \<noteq> GFARM_EVENT_READ then None
          else
            (case gfs_client_get_load_result io junk (gls_sock st) False (lw_x w) of
               (Inl e, x) \<Rightarrow> load_finish io cont s (st\<lparr>gls_error := e\<rparr>) q (w\<lparr>lw_x := x\<rparr>)
             | (Inr (load, _), x) \<Rightarrow>
                 load_finish io cont s (st\<lparr>gls_error := GFARM_ERR_NO_ERROR, gls_load := load\<rparr>) q (w\<lparr>lw_x := x\<rparr>)))"

text \<open>The callbacks by closure.\<close>

fun load_callback ::
  "'x load_io \<Rightarrow> (u64 \<Rightarrow> bool) \<Rightarrow> ('k, 'x) load_cont \<Rightarrow> byte list \<Rightarrow> (load_closure, ('k, 'x) load_world) ev_callback" where
  "load_callback io mal cont junk (Get_load_send s) events fd t q w = gfs_client_get_load_send io mal cont s q w"
| "load_callback io mal cont junk (Get_load_receive s) events fd t q w =
     gfs_client_get_load_receive io mal cont junk events s q w"

subsection \<open>Asking and answering\<close>

definition load_closing ::
  "'x load_io \<Rightarrow> int \<Rightarrow> gfarm_error_t \<Rightarrow> load_closure eventqueue \<Rightarrow> ('k, 'x) load_world
     \<Rightarrow> (gfarm_error_t + nat) \<times> load_closure eventqueue \<times> ('k, 'x) load_world" where
  "load_closing io sock e q w = (Inl e, q, w\<lparr>lw_x := lio_close io sock (lw_x w)\<rparr>)"

text \<open>\<open>junk_event\<close> is what \<open>malloc\<close> leaves in the fields of an event that are not set; the three outcomes of
  \<open>malloc\<close> are those of the state, \<open>writable\<close> and \<open>readable\<close>. The result is an error or the state.\<close>

definition gfs_client_get_load_request_multiplexed ::
  "'x load_io \<Rightarrow> (u64 \<Rightarrow> bool) \<Rightarrow> bool \<times> bool \<times> bool \<Rightarrow> load_closure event \<Rightarrow> gfs_client_load \<Rightarrow> peer_sockaddr \<Rightarrow> 'k option
     \<Rightarrow> load_closure eventqueue \<Rightarrow> ('k, 'x) load_world
     \<Rightarrow> ((gfarm_error_t + nat) \<times> load_closure eventqueue \<times> ('k, 'x) load_world) option" where
  "gfs_client_get_load_request_multiplexed io mal mals junk_event junk_load addr continuation q w =
     (case lio_socket io (lw_x w) of
        (Inl eno, x) \<Rightarrow> Some (Inl (errno_error eno), q, w\<lparr>lw_x := x\<rparr>)
      | (Inr sock, x) \<Rightarrow>
          (case lio_connect io sock addr x of
             (Some eno, x1) \<Rightarrow> Some (load_closing io sock (errno_error eno) q (w\<lparr>lw_x := x1\<rparr>))
           | (None, x1) \<Rightarrow>
               let w1 = w\<lparr>lw_x := x1\<rparr>; s = lw_brk w
               in if \<not> fst mals then Some (load_closing io sock GFARM_ERR_NO_MEMORY q w1)
                  else
                    (case gfarm_fd_event_alloc junk_event (fst (snd mals)) GFARM_EVENT_WRITE sock (Get_load_send s) q of
                       (None, q1) \<Rightarrow> Some (load_closing io sock GFARM_ERR_NO_MEMORY q1 w1)
                     | (Some writable, q1) \<Rightarrow>
                         (case gfarm_fd_event_alloc junk_event (snd (snd mals))
                                 (or GFARM_EVENT_READ GFARM_EVENT_TIMEOUT) sock (Get_load_receive s) q1 of
                            (None, q2) \<Rightarrow>
                              Some (load_closing io sock GFARM_ERR_NO_MEMORY (gfarm_event_free writable q2) w1)
                          | (Some readable, q2) \<Rightarrow>
                              (case gfarm_eventqueue_add_event mal (load_now io) writable None q2 w1 of
                                 None \<Rightarrow> None
                               | Some (rv, q3, w2) \<Rightarrow>
                                   if rv \<noteq> 0
                                   then Some (load_closing io sock (errno_error rv)
                                          (gfarm_event_free writable (gfarm_event_free readable q3)) w2)
                                   else
                                     let st = \<lparr>gls_writable = writable, gls_readable = readable,
                                               gls_continuation = continuation, gls_sock = sock, gls_try = 0,
                                               gls_error = GFARM_ERR_NO_ERROR, gls_load = junk_load\<rparr>
                                     in Some (Inr s, q3, load_store s st (w2\<lparr>lw_brk := s + 1\<rparr>)))))))"

definition gfs_client_get_load_result_multiplexed ::
  "'x load_io \<Rightarrow> nat \<Rightarrow> load_closure eventqueue \<Rightarrow> ('k, 'x) load_world
     \<Rightarrow> ((gfarm_error_t + gfs_client_load) \<times> load_closure eventqueue \<times> ('k, 'x) load_world) option" where
  "gfs_client_get_load_result_multiplexed io s q w =
     (case lw_states w s of
        None \<Rightarrow> None
      | Some st \<Rightarrow>
          let w1 = (if gls_sock st \<ge> 0 then w\<lparr>lw_x := lio_close io (gls_sock st) (lw_x w)\<rparr> else w)
          in Some (if gls_error st = GFARM_ERR_NO_ERROR then Inr (gls_load st) else Inl (gls_error st),
                   gfarm_event_free (gls_writable st) (gfarm_event_free (gls_readable st) q),
                   w1\<lparr>lw_states := (lw_states w1)(s := None)\<rparr>))"

end
