(* ===== verification/Gfs_Load_Spec.thy ===== *)
theory Gfs_Load_Spec
  imports Gfs_Load Gfevent_Turn
begin

text \<open>
  Requests for the load of hosts as clients of the event queue (\<open>ev_client\<close>): a request has at most one event
  in the queue, sends at most two datagrams, and is answered, failed or timed out with one call of its
  continuation. The world counts the datagrams and the continuations, and its clock moves on at every look.
\<close>

subsection \<open>A world that counts\<close>








subsection \<open>What a request keeps\<close>













subsection \<open>The callbacks\<close>























subsection \<open>Asking\<close>







subsection \<open>Properties\<close>







end
