(* ===== verification/Lookup.thy ===== *)
theory Lookup
  imports Gfm_Connect C_Strings
begin

text \<open>
  \<open>gfarm/lookup.c\<close>: the server a path is on, walking down a path, and the two ways an operation on a
  path is carried out: \<open>gfm_name_op\<close> for one on the name in the last directory, \<open>gfm_inode_op\<close> for one on what
  the path leads to. All requests of a walk go out before the first result is awaited, so the path is walked
  twice. A path is a C string, a pointer into it the rest of the string.
\<close>

subsection \<open>The server of a path\<close>

text \<open>
  What \<open>gfm_client_connection_and_process_acquire\<close> depends on besides the host and port: the outcomes of
  allocations (functions of the state), the user, the parameters of \<open>Gfm_Connect\<close>, the random key, and the
  configured default server.
\<close>

record lookup_env =
  lk_mal :: "u64 \<Rightarrow> bool"
  lk_duph :: "fd_world gfm_state \<Rightarrow> bool"
  lk_dupu :: "fd_world gfm_state \<Rightarrow> bool"
  lk_malp :: "fd_world gfm_state \<Rightarrow> nat option"
  lk_user :: "byte list"
  lk_net :: gfm_net
  lk_malg :: "fd_world gfm_state \<Rightarrow> bool"
  lk_new_xdr :: "fd_world gfm_state \<Rightarrow> int \<Rightarrow> gfarm_error_t + fd_world gfp_xdr"
  lk_fresh_key :: "byte list"
  lk_pause :: "u32 \<Rightarrow> fd_world \<Rightarrow> fd_world"
  lk_key :: "byte list"
  gfarm_metadb_server_name :: string
  gfarm_metadb_server_port :: int

definition lookup_acquire :: "lookup_env \<Rightarrow> string \<Rightarrow> int \<Rightarrow> (fd_world, nat) gfm_call" where
  "lookup_acquire env hostname port =
     gfm_client_connection_and_process_acquire (lk_mal env) (lk_key env)
       (\<lambda>s. gfm_client_connection_acquire (lk_mal env) (lk_duph env s) (lk_dupu env s) (lk_malp env s)
              (lk_user env)
              (\<lambda>entry s'. gfm_client_connection0 (lk_net env) (lk_malg env s') (lk_new_xdr env s')
                 (lk_fresh_key env) (map of_char hostname) port entry None s')
              (lk_pause env) (map of_char hostname) port s)"

definition url_host_char :: "char \<Rightarrow> bool" where
  "url_host_char c \<longleftrightarrow> isalnum c \<or> c = CHR ''-'' \<or> c = CHR ''.''"

text \<open>
  The results are \<open>*gfm_serverp\<close>, when \<open>gfm_serverp\<close> is not \<open>NULL\<close> (\<open>want\<close>), and the path behind the host
  and port. \<open>memcmp\<close> compares up to the first difference, which is at the end of a shorter path at the latest.
  \<open>GFARM_MALLOC_ARRAY\<close> is not checked: \<open>memcpy\<close> to a null pointer is undefined.
\<close>

definition gfarm_url_parse_metadb ::
  "lookup_env \<Rightarrow> bool \<Rightarrow> string \<Rightarrow> (fd_world, nat option \<times> string) gfm_call" where
  "gfarm_url_parse_metadb env want path =
     (if take 6 path \<noteq> ''gfarm:'' then
        (if \<not> want then call_return (None, path)
         else call_bind (lookup_acquire env (gfarm_metadb_server_name env) (gfarm_metadb_server_port env))
                (\<lambda>gfm_server. call_return (Some gfm_server, path)))
      else let path = drop 6 path in
        if take 2 path \<noteq> ''//'' then call_fail GFARM_ERR_GFARM_URL_HOST_IS_MISSING
        else let path = drop 2 path;
                 host = takeWhile url_host_char path;
                 p = dropWhile url_host_char path
          in if host = [] then call_fail GFARM_ERR_GFARM_URL_HOST_IS_MISSING
             else if take 1 p \<noteq> '':'' then call_fail GFARM_ERR_GFARM_URL_PORT_IS_MISSING
             else if want \<and> gfarm_malloc_array (lk_mal env) (of_nat (length host + 1)) 1 = None
             then call_undefined
             else let p = drop 1 p;
                      (gfm_server_port, ep) = (case strtoul p of None \<Rightarrow> (0, p) | Some r \<Rightarrow> r)
               in if p = [] \<or> (ep \<noteq> [] \<and> hd ep \<noteq> CHR ''/'')
                  then call_fail GFARM_ERR_GFARM_URL_PORT_IS_MISSING
                  else if gfm_server_port = 2 ^ 64 - 1 \<or> gfm_server_port \<le> 0 \<or> 65536 \<le> gfm_server_port
                  then call_fail GFARM_ERR_GFARM_URL_PORT_IS_INVALID
                  else if \<not> want then call_return (None, ep)
                  else call_bind (lookup_acquire env host gfm_server_port)
                         (\<lambda>gfm_server. call_return (Some gfm_server, ep)))"

text \<open>As every caller uses it, with both results.\<close>

definition gfm_url_server :: "lookup_env \<Rightarrow> string \<Rightarrow> (fd_world, nat \<times> string) gfm_call" where
  "gfm_url_server env url =
     call_bind (gfarm_url_parse_metadb env True url)
       (\<lambda>(gfm_serverp, path). case gfm_serverp of
          None \<Rightarrow> call_undefined
        | Some gfm_server \<Rightarrow> call_return (gfm_server, path))"

definition gfm_client_connection_and_process_acquire_by_path ::
  "lookup_env \<Rightarrow> string \<Rightarrow> (fd_world, nat) gfm_call" where
  "gfm_client_connection_and_process_acquire_by_path env path =
     call_bind (gfm_url_server env path) (\<lambda>(gfm_server, _). call_return gfm_server)"

subsection \<open>Walking down a path\<close>

abbreviation (input) GFARM_FILE_LOOKUP :: int where "GFARM_FILE_LOOKUP \<equiv> 3"

abbreviation (input) GFARM_PATH_ROOT :: string where "GFARM_PATH_ROOT \<equiv> ''/''"

text \<open>The bytes from a pointer into a string on, and \<open>strcspn(path, "/")\<close>.\<close>

definition c_bytes :: "string \<Rightarrow> byte list" where
  "c_bytes path = map of_char path @ [0]"

definition strcspn_slash :: "string \<Rightarrow> nat" where
  "strcspn_slash path = length (takeWhile (\<lambda>c. c \<noteq> CHR ''/'') path)"

text \<open>
  The loops of the two walks. \<open>len\<close> is an \<open>int\<close>: a name of \<open>2^31\<close> characters is undefined. The result is
  \<open>*basep\<close>, the name after the last slash, or \<open>"/"\<close> when no name is left.
\<close>

function gfm_lookup_dir_request_loop :: "nat \<Rightarrow> bool \<Rightarrow> string \<Rightarrow> ('w, string) gfm_call" where
  "gfm_lookup_dir_request_loop gfm_server beginning path =
     (let len = strcspn_slash path
      in if 2 ^ 31 \<le> len then call_undefined
         else if drop len path = [] then
           (if beginning then
              (if len = 0 then call_return GFARM_PATH_ROOT
               else call_bind (gfm_client_open_root_request gfm_server GFARM_FILE_LOOKUP)
                      (\<lambda>_. call_return path))
            else call_return path)
         else if len = 0 then gfm_lookup_dir_request_loop gfm_server beginning (drop 1 path)
         else if len = 1 \<and> take 1 path = ''.'' then
           gfm_lookup_dir_request_loop gfm_server beginning (drop 2 path)
         else call_bind (if beginning then gfm_client_open_root_request gfm_server GFARM_FILE_LOOKUP
                         else call_return ())
                (\<lambda>_. call_bind (gfm_client_open_request gfm_server (c_bytes path) (of_nat len) GFARM_FILE_LOOKUP)
                  (\<lambda>_. gfm_lookup_dir_request_loop gfm_server False (drop (len + 1) path))))"
  by pat_completeness auto
termination
  by (relation "measure (\<lambda>(_, _, path). length path)") auto

declare gfm_lookup_dir_request_loop.simps [simp del]

definition gfm_lookup_dir_request :: "nat \<Rightarrow> string \<Rightarrow> ('w, string) gfm_call" where
  "gfm_lookup_dir_request gfm_server path =
     gfm_lookup_dir_request_loop gfm_server True (if take 1 path = ''/'' then drop 1 path else path)"

function gfm_lookup_dir_result_loop ::
  "(u64 \<Rightarrow> bool) \<Rightarrow> nat \<Rightarrow> bool \<Rightarrow> string \<Rightarrow> ('w, string) gfm_call" where
  "gfm_lookup_dir_result_loop mal gfm_server beginning path =
     (let len = strcspn_slash path
      in if 2 ^ 31 \<le> len then call_undefined
         else if drop len path = [] then
           (if beginning then
              (if len = 0 then call_return GFARM_PATH_ROOT
               else call_bind (gfm_client_open_root_result mal gfm_server) (\<lambda>_. call_return path))
            else call_return path)
         else if len = 0 then gfm_lookup_dir_result_loop mal gfm_server beginning (drop 1 path)
         else if len = 1 \<and> take 1 path = ''.'' then
           gfm_lookup_dir_result_loop mal gfm_server beginning (drop 2 path)
         else call_bind (if beginning then call_bind (gfm_client_open_root_result mal gfm_server) (\<lambda>_. call_return ())
                         else call_return ())
                (\<lambda>_. call_bind (gfm_client_open_result mal gfm_server)
                  (\<lambda>_. gfm_lookup_dir_result_loop mal gfm_server False (drop (len + 1) path))))"
  by pat_completeness auto
termination
  by (relation "measure (\<lambda>(_, _, _, path). length path)") auto

declare gfm_lookup_dir_result_loop.simps [simp del]

definition gfm_lookup_dir_result :: "(u64 \<Rightarrow> bool) \<Rightarrow> nat \<Rightarrow> string \<Rightarrow> ('w, string) gfm_call" where
  "gfm_lookup_dir_result mal gfm_server path =
     gfm_lookup_dir_result_loop mal gfm_server True (if take 1 path = ''/'' then drop 1 path else path)"

definition gfm_tmp_lookup_parent_request :: "nat \<Rightarrow> string \<Rightarrow> ('w, string) gfm_call" where
  "gfm_tmp_lookup_parent_request gfm_server path =
     call_bind (gfm_client_compound_begin_request gfm_server)
       (\<lambda>_. gfm_lookup_dir_request gfm_server path)"

definition gfm_tmp_lookup_parent_result ::
  "(u64 \<Rightarrow> bool) \<Rightarrow> nat \<Rightarrow> string \<Rightarrow> ('w, string) gfm_call" where
  "gfm_tmp_lookup_parent_result mal gfm_server path =
     call_bind (gfm_client_compound_begin_result mal gfm_server)
       (\<lambda>_. gfm_lookup_dir_result mal gfm_server path)"

definition gfm_tmp_open_request :: "nat \<Rightarrow> string \<Rightarrow> int \<Rightarrow> ('w, unit) gfm_call" where
  "gfm_tmp_open_request gfm_server path flags =
     call_bind (gfm_tmp_lookup_parent_request gfm_server path)
       (\<lambda>base. if base = GFARM_PATH_ROOT then gfm_client_open_root_request gfm_server flags
               else gfm_client_open_request gfm_server (c_bytes base) (of_nat (length base)) flags)"

text \<open>The type, for callers that ask for it.\<close>

definition gfm_tmp_open_result :: "(u64 \<Rightarrow> bool) \<Rightarrow> nat \<Rightarrow> string \<Rightarrow> ('w, byte) gfm_call" where
  "gfm_tmp_open_result mal gfm_server path =
     call_bind (gfm_tmp_lookup_parent_result mal gfm_server path)
       (\<lambda>base. if base = GFARM_PATH_ROOT
               then call_bind (gfm_client_open_root_result mal gfm_server) (\<lambda>_. call_return GFS_DT_DIR)
               else call_bind (gfm_client_open_result mal gfm_server)
                      (\<lambda>vals. case vals of
                         [Val_int64 inum, Val_int64 gen, Val_int32 mode] \<Rightarrow>
                           call_return (gfs_mode_to_type mode)
                       | _ \<Rightarrow> call_undefined))"

subsection \<open>Operations on a name\<close>

text \<open>
  \<open>request_op\<close>, \<open>result_op\<close> and \<open>success_op\<close> are the callbacks with their closure; what \<open>result_op\<close> stores in
  the closure is its result, and it has not run when the path is the root.
\<close>

definition gfm_name_success_op_connection_free :: "nat \<Rightarrow> 'a \<Rightarrow> ('w, 'a) gfm_call" where
  "gfm_name_success_op_connection_free gfm_server v s =
     map_option (Pair (Inr v)) (gfm_client_connection_free gfm_server s)"

text \<open>\<open>gfm_client_connection_free(gfm_server); return (e);\<close>, after \<open>e_save != GFARM_ERR_NO_ERROR ? e_save : e\<close>.\<close>

definition gfm_give_back :: "nat \<Rightarrow> gfarm_error_t \<Rightarrow> ('w, 'a) gfm_call" where
  "gfm_give_back gfm_server e s = map_option (Pair (Inl e)) (gfm_client_connection_free gfm_server s)"

definition saved_error :: "gfarm_error_t \<Rightarrow> gfarm_error_t \<Rightarrow> gfarm_error_t" where
  "saved_error e_save e = (if e_save \<noteq> GFARM_ERR_NO_ERROR then e_save else e)"

text \<open>The first and the last chain of conditions in the loop; both yield \<open>e_save\<close>.\<close>

definition gfm_name_requests ::
  "gfarm_error_t \<Rightarrow> (nat \<Rightarrow> string \<Rightarrow> ('w, unit) gfm_call) \<Rightarrow> nat \<Rightarrow> string \<Rightarrow> ('w, gfarm_error_t) gfm_call" where
  "gfm_name_requests root_error_code request_op gfm_server path =
     call_bind (gfm_tmp_lookup_parent_request gfm_server path)
       (\<lambda>base. if base = GFARM_PATH_ROOT then call_return root_error_code
               else call_bind (request_op gfm_server base) (\<lambda>_. call_return GFARM_ERR_NO_ERROR))"

definition gfm_name_results ::
  "gfarm_error_t \<Rightarrow> gfarm_error_t \<Rightarrow> (nat \<Rightarrow> ('w, 'a) gfm_call) \<Rightarrow> nat \<Rightarrow> string
     \<Rightarrow> ('w, gfarm_error_t \<times> 'a option) gfm_call" where
  "gfm_name_results root_error_code e_save result_op gfm_server base =
     (if base = GFARM_PATH_ROOT then call_return (root_error_code, None)
      else call_bind (result_op gfm_server) (\<lambda>v. call_return (e_save, Some v)))"

text \<open>One pass of the loop is repeated when a connection error meets the results of the walk, but only once.\<close>

function gfm_name_op_loop ::
  "lookup_env \<Rightarrow> string \<Rightarrow> gfarm_error_t \<Rightarrow> (nat \<Rightarrow> string \<Rightarrow> (fd_world, unit) gfm_call)
     \<Rightarrow> (nat \<Rightarrow> (fd_world, 'a) gfm_call) \<Rightarrow> (nat \<Rightarrow> 'a option \<Rightarrow> (fd_world, 'b) gfm_call) \<Rightarrow> nat
     \<Rightarrow> (fd_world, 'b) gfm_call" where
  "gfm_name_op_loop env url root_error_code request_op result_op success_op retry =
     call_bind (gfm_url_server env url) (\<lambda>(gfm_server, path).
     call_bind (call_try (gfm_name_requests root_error_code request_op gfm_server path)) (\<lambda>r. case r of
       Inl e \<Rightarrow> gfm_give_back gfm_server e
     | Inr e_save \<Rightarrow>
     call_bind (call_try (gfm_client_compound_end_request gfm_server)) (\<lambda>r. case r of
       Inl e \<Rightarrow> gfm_give_back gfm_server (saved_error e_save e)
     | Inr _ \<Rightarrow>
     call_bind (call_try (gfm_tmp_lookup_parent_result (lk_mal env) gfm_server path)) (\<lambda>r. case r of
       Inl e \<Rightarrow>
         if gfm_client_is_connection_error e \<and> retry + 1 \<le> 1
         then call_bind (gfm_name_success_op_connection_free gfm_server ())
                (\<lambda>_. gfm_name_op_loop env url root_error_code request_op result_op success_op (retry + 1))
         else gfm_give_back gfm_server (saved_error e_save e)
     | Inr base \<Rightarrow>
     call_bind (call_try (gfm_name_results root_error_code e_save result_op gfm_server base)) (\<lambda>r. case r of
       Inl e \<Rightarrow> gfm_give_back gfm_server (saved_error e_save e)
     | Inr (e_save, v) \<Rightarrow>
     call_bind (call_try (gfm_client_compound_end_result (lk_mal env) gfm_server)) (\<lambda>r. case r of
       Inl e \<Rightarrow> gfm_give_back gfm_server (saved_error e_save e)
     | Inr _ \<Rightarrow>
         if e_save \<noteq> GFARM_ERR_NO_ERROR then gfm_give_back gfm_server e_save
         else success_op gfm_server v))))))"
  by pat_completeness auto
termination
  by (relation "measure (\<lambda>(_, _, _, _, _, _, retry). 2 - retry)") auto

declare gfm_name_op_loop.simps [simp del]

definition gfm_name_op ::
  "lookup_env \<Rightarrow> string \<Rightarrow> gfarm_error_t \<Rightarrow> (nat \<Rightarrow> string \<Rightarrow> (fd_world, unit) gfm_call)
     \<Rightarrow> (nat \<Rightarrow> (fd_world, 'a) gfm_call) \<Rightarrow> (nat \<Rightarrow> 'a option \<Rightarrow> (fd_world, 'b) gfm_call)
     \<Rightarrow> (fd_world, 'b) gfm_call" where
  "gfm_name_op env url root_error_code request_op result_op success_op =
     gfm_name_op_loop env url root_error_code request_op result_op success_op 0"

subsection \<open>Operations on what a path leads to\<close>

definition gfm_inode_success_op_connection_free :: "nat \<Rightarrow> 'a \<Rightarrow> byte \<Rightarrow> ('w, 'a) gfm_call" where
  "gfm_inode_success_op_connection_free gfm_server v type =
     gfm_name_success_op_connection_free gfm_server v"

text \<open>The requests, up to the end of the compound.\<close>

definition gfm_inode_requests ::
  "int \<Rightarrow> (nat \<Rightarrow> ('w, unit) gfm_call) \<Rightarrow> nat \<Rightarrow> string \<Rightarrow> ('w, unit) gfm_call" where
  "gfm_inode_requests flags request_op gfm_server path =
     call_bind (gfm_tmp_open_request gfm_server path flags)
       (\<lambda>_. call_bind (request_op gfm_server)
       (\<lambda>_. gfm_client_compound_end_request gfm_server))"

function gfm_inode_op_loop ::
  "lookup_env \<Rightarrow> string \<Rightarrow> int \<Rightarrow> (nat \<Rightarrow> (fd_world, unit) gfm_call) \<Rightarrow> (nat \<Rightarrow> (fd_world, 'a) gfm_call)
     \<Rightarrow> (nat \<Rightarrow> 'a \<Rightarrow> byte \<Rightarrow> (fd_world, 'b) gfm_call)
     \<Rightarrow> ('a \<Rightarrow> fd_world gfm_state \<Rightarrow> fd_world gfm_state) option \<Rightarrow> nat \<Rightarrow> (fd_world, 'b) gfm_call" where
  "gfm_inode_op_loop env url flags request_op result_op success_op cleanup_op retry =
     call_bind (gfm_url_server env url) (\<lambda>(gfm_server, path).
     call_bind (call_try (gfm_inode_requests flags request_op gfm_server path)) (\<lambda>r. case r of
       Inl e \<Rightarrow> gfm_give_back gfm_server e
     | Inr _ \<Rightarrow>
     call_bind (call_try (gfm_tmp_open_result (lk_mal env) gfm_server path)) (\<lambda>r. case r of
       Inl e \<Rightarrow>
         if gfm_client_is_connection_error e \<and> retry + 1 \<le> 1
         then call_bind (gfm_name_success_op_connection_free gfm_server ())
                (\<lambda>_. gfm_inode_op_loop env url flags request_op result_op success_op cleanup_op (retry + 1))
         else gfm_give_back gfm_server e
     | Inr type \<Rightarrow>
     call_bind (call_try (result_op gfm_server)) (\<lambda>r. case r of
       Inl e \<Rightarrow> gfm_give_back gfm_server e
     | Inr v \<Rightarrow>
     call_bind (call_try (gfm_client_compound_end_result (lk_mal env) gfm_server)) (\<lambda>r s. case r of
       Inl e \<Rightarrow> gfm_give_back gfm_server e (case cleanup_op of None \<Rightarrow> s | Some cleanup \<Rightarrow> cleanup v s)
     | Inr _ \<Rightarrow> success_op gfm_server v type s)))))"
  by pat_completeness auto
termination
  by (relation "measure (\<lambda>(_, _, _, _, _, _, _, retry). 2 - retry)") auto

declare gfm_inode_op_loop.simps [simp del]

definition gfm_inode_op ::
  "lookup_env \<Rightarrow> string \<Rightarrow> int \<Rightarrow> (nat \<Rightarrow> (fd_world, unit) gfm_call) \<Rightarrow> (nat \<Rightarrow> (fd_world, 'a) gfm_call)
     \<Rightarrow> (nat \<Rightarrow> 'a \<Rightarrow> byte \<Rightarrow> (fd_world, 'b) gfm_call)
     \<Rightarrow> ('a \<Rightarrow> fd_world gfm_state \<Rightarrow> fd_world gfm_state) option \<Rightarrow> (fd_world, 'b) gfm_call" where
  "gfm_inode_op env url flags request_op result_op success_op cleanup_op =
     gfm_inode_op_loop env url flags request_op result_op success_op cleanup_op 0"

end
