(* ===== verification/Gfs_Names.thy ===== *)
theory Gfs_Names
  imports Lookup
begin

text \<open>
  The calls of an application that are one operation on a path: \<open>gfarm/gfs_mkdir.c\<close>, \<open>gfs_remove.c\<close>,
  \<open>gfs_symlink.c\<close> (on a name), \<open>gfs_stat.c\<close>, \<open>gfs_chmod.c\<close>, \<open>gfs_chown.c\<close>, \<open>gfs_utimes.c\<close>, \<open>gfs_readlink.c\<close>
  and \<open>gfs_replica.c\<close> (on what a path leads to). Each hands its request, its result and what to do at the end
  to \<open>gfm_name_op\<close> or \<open>gfm_inode_op\<close>. Messages that are logged and profiling timers are left out.
\<close>

subsection \<open>On a name\<close>

definition gfm_mkdir_request :: "int \<Rightarrow> nat \<Rightarrow> string \<Rightarrow> ('w, unit) gfm_call" where
  "gfm_mkdir_request mode gfm_server base = gfm_client_mkdir_request gfm_server (c_bytes base) mode"

definition gfm_mkdir_result :: "(u64 \<Rightarrow> bool) \<Rightarrow> nat \<Rightarrow> ('w, xdr_val list) gfm_call" where
  "gfm_mkdir_result mal gfm_server = gfm_client_mkdir_result mal gfm_server"

definition gfs_mkdir :: "lookup_env \<Rightarrow> string \<Rightarrow> int \<Rightarrow> (fd_world, xdr_val list option) gfm_call" where
  "gfs_mkdir env path mode =
     gfm_name_op env path GFARM_ERR_ALREADY_EXISTS (gfm_mkdir_request mode) (gfm_mkdir_result (lk_mal env))
       gfm_name_success_op_connection_free"

definition gfm_remove_request :: "nat \<Rightarrow> string \<Rightarrow> ('w, unit) gfm_call" where
  "gfm_remove_request gfm_server base = gfm_client_remove_request gfm_server (c_bytes base)"

definition gfm_remove_result :: "(u64 \<Rightarrow> bool) \<Rightarrow> nat \<Rightarrow> ('w, xdr_val list) gfm_call" where
  "gfm_remove_result mal gfm_server = gfm_client_remove_result mal gfm_server"

definition gfs_remove :: "lookup_env \<Rightarrow> string \<Rightarrow> (fd_world, xdr_val list option) gfm_call" where
  "gfs_remove env path =
     gfm_name_op env path GFARM_ERR_IS_A_DIRECTORY gfm_remove_request (gfm_remove_result (lk_mal env))
       gfm_name_success_op_connection_free"

definition gfm_symlink_request :: "string \<Rightarrow> nat \<Rightarrow> string \<Rightarrow> ('w, unit) gfm_call" where
  "gfm_symlink_request src gfm_server base =
     gfm_client_symlink_request gfm_server (c_bytes src) (c_bytes base)"

definition gfm_symlink_result :: "(u64 \<Rightarrow> bool) \<Rightarrow> nat \<Rightarrow> ('w, xdr_val list) gfm_call" where
  "gfm_symlink_result mal gfm_server = gfm_client_symlink_result mal gfm_server"

definition gfs_symlink :: "lookup_env \<Rightarrow> string \<Rightarrow> string \<Rightarrow> (fd_world, xdr_val list option) gfm_call" where
  "gfs_symlink env src path =
     gfm_name_op env path GFARM_ERR_OPERATION_NOT_PERMITTED (gfm_symlink_request src)
       (gfm_symlink_result (lk_mal env)) gfm_name_success_op_connection_free"

subsection \<open>On what a path leads to\<close>

text \<open>The fields of \<open>struct gfs_stat\<close> are the values received; the third is \<open>st_mode\<close>.\<close>

definition gfm_stat_request :: "nat \<Rightarrow> ('w, unit) gfm_call" where
  "gfm_stat_request gfm_server = gfm_client_fstat_request gfm_server"

definition gfm_stat_result :: "(u64 \<Rightarrow> bool) \<Rightarrow> nat \<Rightarrow> ('w, xdr_val list) gfm_call" where
  "gfm_stat_result mal gfm_server = gfm_client_fstat_result mal gfm_server"

definition gfs_stat :: "lookup_env \<Rightarrow> string \<Rightarrow> (fd_world, xdr_val list) gfm_call" where
  "gfs_stat env path =
     gfm_inode_op env path GFARM_FILE_LOOKUP gfm_stat_request (gfm_stat_result (lk_mal env))
       gfm_inode_success_op_connection_free None"

definition gfs_lstat :: "lookup_env \<Rightarrow> string \<Rightarrow> (fd_world, xdr_val list) gfm_call" where
  "gfs_lstat env path = gfs_stat env path"

text \<open>\<open>gfm_server\<close> and \<open>fd\<close> are \<open>gfs_pio_metadb(gf)\<close> and \<open>gfs_pio_fileno(gf)\<close> of the open file.\<close>

definition gfs_fstat :: "(u64 \<Rightarrow> bool) \<Rightarrow> nat \<Rightarrow> int \<Rightarrow> ('w, xdr_val list) gfm_call" where
  "gfs_fstat mal gfm_server fd =
     gfm_client_compound_fd_op mal gfm_server fd (gfm_stat_request gfm_server) (gfm_stat_result mal gfm_server)
       None"

definition gfm_chmod_request :: "int \<Rightarrow> nat \<Rightarrow> ('w, unit) gfm_call" where
  "gfm_chmod_request mode gfm_server = gfm_client_fchmod_request gfm_server mode"

definition gfm_chmod_result :: "(u64 \<Rightarrow> bool) \<Rightarrow> nat \<Rightarrow> ('w, xdr_val list) gfm_call" where
  "gfm_chmod_result mal gfm_server = gfm_client_fchmod_result mal gfm_server"

definition gfs_chmod :: "lookup_env \<Rightarrow> string \<Rightarrow> int \<Rightarrow> (fd_world, xdr_val list) gfm_call" where
  "gfs_chmod env path mode =
     gfm_inode_op env path GFARM_FILE_LOOKUP (gfm_chmod_request mode) (gfm_chmod_result (lk_mal env))
       gfm_inode_success_op_connection_free None"

definition gfm_chown_request :: "string option \<Rightarrow> string option \<Rightarrow> nat \<Rightarrow> ('w, unit) gfm_call" where
  "gfm_chown_request username groupname gfm_server =
     gfm_client_fchown_request gfm_server (map_option c_bytes username) (map_option c_bytes groupname)"

definition gfm_chown_result :: "(u64 \<Rightarrow> bool) \<Rightarrow> nat \<Rightarrow> ('w, xdr_val list) gfm_call" where
  "gfm_chown_result mal gfm_server = gfm_client_fchown_result mal gfm_server"

definition gfs_chown ::
  "lookup_env \<Rightarrow> string \<Rightarrow> string option \<Rightarrow> string option \<Rightarrow> (fd_world, xdr_val list) gfm_call" where
  "gfs_chown env path username groupname =
     gfm_inode_op env path GFARM_FILE_LOOKUP (gfm_chown_request username groupname)
       (gfm_chown_result (lk_mal env)) gfm_inode_success_op_connection_free None"

text \<open>The times of access and of modification, in seconds and nanoseconds.\<close>

record gfm_utimes_closure =
  ut_atime :: "u64 \<times> int"
  ut_mtime :: "u64 \<times> int"

definition gfm_utimes_request :: "gfm_utimes_closure \<Rightarrow> nat \<Rightarrow> ('w, unit) gfm_call" where
  "gfm_utimes_request c gfm_server =
     gfm_client_futimes_request gfm_server (fst (ut_atime c)) (snd (ut_atime c))
       (fst (ut_mtime c)) (snd (ut_mtime c))"

definition gfm_utimes_result :: "(u64 \<Rightarrow> bool) \<Rightarrow> nat \<Rightarrow> ('w, xdr_val list) gfm_call" where
  "gfm_utimes_result mal gfm_server = gfm_client_futimes_result mal gfm_server"

text \<open>\<open>tsp\<close> may be \<open>NULL\<close>; \<open>now\<close> is then what \<open>gettimeofday\<close> gives, in seconds and microseconds.\<close>

definition gfs_utimes ::
  "lookup_env \<Rightarrow> u64 \<times> int \<Rightarrow> string \<Rightarrow> ((u64 \<times> int) \<times> (u64 \<times> int)) option
     \<Rightarrow> (fd_world, xdr_val list) gfm_call" where
  "gfs_utimes env now path tsp =
     (let closure = (case tsp of
          None \<Rightarrow> (let t = (fst now, snd now * 1000) in \<lparr>ut_atime = t, ut_mtime = t\<rparr>)
        | Some (a, b) \<Rightarrow> \<lparr>ut_atime = a, ut_mtime = b\<rparr>)
      in gfm_inode_op env path GFARM_FILE_LOOKUP (gfm_utimes_request closure) (gfm_utimes_result (lk_mal env))
           gfm_inode_success_op_connection_free None)"

definition gfm_readlink_request :: "nat \<Rightarrow> ('w, unit) gfm_call" where
  "gfm_readlink_request gfm_server = gfm_client_readlink_request gfm_server"

definition gfm_readlink_result :: "(u64 \<Rightarrow> bool) \<Rightarrow> nat \<Rightarrow> ('w, xdr_val list) gfm_call" where
  "gfm_readlink_result mal gfm_server = gfm_client_readlink_result mal gfm_server"

definition gfs_readlink :: "lookup_env \<Rightarrow> string \<Rightarrow> (fd_world, xdr_val list) gfm_call" where
  "gfs_readlink env path =
     gfm_inode_op env path GFARM_FILE_LOOKUP gfm_readlink_request (gfm_readlink_result (lk_mal env))
       gfm_inode_success_op_connection_free None"

subsection \<open>Replicas\<close>

definition gfm_replica_list_by_name_request :: "nat \<Rightarrow> ('w, unit) gfm_call" where
  "gfm_replica_list_by_name_request gfm_server = gfm_client_replica_list_by_name_request gfm_server"

definition gfm_replica_list_by_name_result ::
  "(u64 \<Rightarrow> bool) \<Rightarrow> nat \<Rightarrow> ('w, int \<times> xdr_val list list) gfm_call" where
  "gfm_replica_list_by_name_result mal gfm_server = gfm_client_replica_list_by_name_result mal gfm_server"

text \<open>Freeing the names leaves nothing behind that is modelled.\<close>

definition gfm_replica_list_by_name_cleanup ::
  "int \<times> xdr_val list list \<Rightarrow> 'w gfm_state \<Rightarrow> 'w gfm_state" where
  "gfm_replica_list_by_name_cleanup c s = s"

definition gfs_replica_list_by_name ::
  "lookup_env \<Rightarrow> string \<Rightarrow> (fd_world, int \<times> xdr_val list list) gfm_call" where
  "gfs_replica_list_by_name env path =
     gfm_inode_op env path GFARM_FILE_LOOKUP gfm_replica_list_by_name_request
       (gfm_replica_list_by_name_result (lk_mal env)) gfm_inode_success_op_connection_free
       (Some gfm_replica_list_by_name_cleanup)"

definition gfm_replica_remove_by_file_request :: "string \<Rightarrow> nat \<Rightarrow> ('w, unit) gfm_call" where
  "gfm_replica_remove_by_file_request host gfm_server =
     gfm_client_replica_remove_by_file_request gfm_server (c_bytes host)"

definition gfm_replica_remove_by_file_result :: "(u64 \<Rightarrow> bool) \<Rightarrow> nat \<Rightarrow> ('w, xdr_val list) gfm_call" where
  "gfm_replica_remove_by_file_result mal gfm_server =
     gfm_client_replica_remove_by_file_result mal gfm_server"

definition gfs_replica_remove_by_file ::
  "lookup_env \<Rightarrow> string \<Rightarrow> string \<Rightarrow> (fd_world, xdr_val list) gfm_call" where
  "gfs_replica_remove_by_file env path host =
     gfm_inode_op env path GFARM_FILE_LOOKUP (gfm_replica_remove_by_file_request host)
       (gfm_replica_remove_by_file_result (lk_mal env)) gfm_inode_success_op_connection_free None"

end
