(* ===== verification/Gfs_Paths.thy ===== *)
theory Gfs_Paths
  imports Gfs_Names
begin

text \<open>
  The calls on paths that make several steps: \<open>gfarm/gfs_unlink.c\<close> and \<open>gfs_rmdir.c\<close> ask what the path is
  before they remove it, \<open>gfs_rename.c\<close> and \<open>gfs_link.c\<close> walk two paths in one compound, \<open>gfs_io.c\<close> creates and
  opens files and closes descriptors, \<open>gfs_statfs.c\<close> asks for the space. What is under \<open>#if 0\<close>, logged messages
  and profiling timers are left out.
\<close>

subsection \<open>Removing files and directories\<close>

text \<open>\<open>GFARM_S_ISDIR(st.st_mode)\<close> of the values received.\<close>

definition stat_is_dir :: "xdr_val list \<Rightarrow> bool option" where
  "stat_is_dir st =
     (case st of _ # _ # Val_int32 st_mode # _ \<Rightarrow> Some (and st_mode 0xF000 = 0x4000) | _ \<Rightarrow> None)"

definition gfs_unlink :: "lookup_env \<Rightarrow> string \<Rightarrow> (fd_world, xdr_val list option) gfm_call" where
  "gfs_unlink env path =
     call_bind (gfs_stat env path)
       (\<lambda>st. case stat_is_dir st of
          None \<Rightarrow> call_undefined
        | Some is_dir \<Rightarrow> if is_dir then call_fail GFARM_ERR_IS_A_DIRECTORY else gfs_remove env path)"

definition gfs_rmdir :: "lookup_env \<Rightarrow> string \<Rightarrow> (fd_world, xdr_val list option) gfm_call" where
  "gfs_rmdir env path =
     call_bind (gfs_stat env path)
       (\<lambda>st. case stat_is_dir st of
          None \<Rightarrow> call_undefined
        | Some is_dir \<Rightarrow> if \<not> is_dir then call_fail GFARM_ERR_NOT_A_DIRECTORY else gfs_remove env path)"

subsection \<open>On two paths\<close>

text \<open>
  Both connections are given back at the end, with \<open>e_save != GFARM_ERR_NO_ERROR ? e_save : e\<close>. The
  connections are taken one after the other and must be the same.
\<close>

definition gfs_pair_end :: "nat \<Rightarrow> nat \<Rightarrow> gfarm_error_t \<Rightarrow> ('w, unit) gfm_call" where
  "gfs_pair_end sgfmd dgfmd e =
     call_bind (gfm_name_success_op_connection_free dgfmd ())
       (\<lambda>_. if e \<noteq> GFARM_ERR_NO_ERROR then gfm_give_back sgfmd e
            else gfm_name_success_op_connection_free sgfmd ())"

definition gfs_pair_servers ::
  "lookup_env \<Rightarrow> string \<Rightarrow> string \<Rightarrow> (fd_world, nat \<times> string \<times> nat \<times> string) gfm_call" where
  "gfs_pair_servers env src dst =
     call_bind (gfm_url_server env src) (\<lambda>(sgfmd, spath).
     call_bind (call_try (gfm_url_server env dst)) (\<lambda>r. case r of
       Inl e \<Rightarrow> gfm_give_back sgfmd e
     | Inr (dgfmd, dpath) \<Rightarrow>
         if sgfmd \<noteq> dgfmd
         then call_bind (gfm_name_success_op_connection_free dgfmd ())
                (\<lambda>_. gfm_give_back sgfmd GFARM_ERR_CROSS_DEVICE_LINK)
         else call_return (sgfmd, spath, dgfmd, dpath)))"

text \<open>Renaming: the requests about the source, then about the target; both yield \<open>e_save\<close>.\<close>

definition gfs_rename_source_requests :: "nat \<Rightarrow> string \<Rightarrow> ('w, gfarm_error_t \<times> string) gfm_call" where
  "gfs_rename_source_requests sgfmd spath =
     call_bind (gfm_tmp_lookup_parent_request sgfmd spath)
       (\<lambda>sbase. if sbase = GFARM_PATH_ROOT then call_return (GFARM_ERR_OPERATION_NOT_PERMITTED, sbase)
                else call_bind (gfm_client_save_fd_request sgfmd)
                       (\<lambda>_. call_return (GFARM_ERR_NO_ERROR, sbase)))"

definition gfs_rename_target_requests ::
  "nat \<Rightarrow> gfarm_error_t \<Rightarrow> string \<Rightarrow> nat \<Rightarrow> string \<Rightarrow> ('w, gfarm_error_t) gfm_call" where
  "gfs_rename_target_requests sgfmd e_save sbase dgfmd dpath =
     call_bind (gfm_lookup_dir_request dgfmd dpath)
       (\<lambda>dbase. if dbase = GFARM_PATH_ROOT then call_return GFARM_ERR_OPERATION_NOT_PERMITTED
                else if e_save = GFARM_ERR_NO_ERROR
                then call_bind (gfm_client_rename_request sgfmd (c_bytes sbase) (c_bytes dbase))
                       (\<lambda>_. call_return e_save)
                else call_return e_save)"

definition gfs_rename_target_results ::
  "(u64 \<Rightarrow> bool) \<Rightarrow> nat \<Rightarrow> gfarm_error_t \<Rightarrow> nat \<Rightarrow> string \<Rightarrow> ('w, gfarm_error_t) gfm_call" where
  "gfs_rename_target_results mal sgfmd e_save dgfmd dpath =
     call_bind (gfm_lookup_dir_result mal dgfmd dpath)
       (\<lambda>dbase. if dbase = GFARM_PATH_ROOT then call_return GFARM_ERR_OPERATION_NOT_PERMITTED
                else if e_save = GFARM_ERR_NO_ERROR
                then call_bind (gfm_client_rename_result mal sgfmd) (\<lambda>_. call_return e_save)
                else call_return e_save)"

function gfs_rename_loop :: "lookup_env \<Rightarrow> string \<Rightarrow> string \<Rightarrow> nat \<Rightarrow> (fd_world, unit) gfm_call" where
  "gfs_rename_loop env src dst retry =
     call_bind (gfs_pair_servers env src dst) (\<lambda>(sgfmd, spath, dgfmd, dpath).
     call_bind (call_try (gfs_rename_source_requests sgfmd spath)) (\<lambda>r. case r of
       Inl e \<Rightarrow> gfs_pair_end sgfmd dgfmd e
     | Inr (e_save, sbase) \<Rightarrow>
     call_bind (call_try (gfs_rename_target_requests sgfmd e_save sbase dgfmd dpath)) (\<lambda>r. case r of
       Inl e \<Rightarrow> gfs_pair_end sgfmd dgfmd (saved_error e_save e)
     | Inr e_save \<Rightarrow>
     call_bind (call_try (gfm_client_compound_end_request sgfmd)) (\<lambda>r. case r of
       Inl e \<Rightarrow> gfs_pair_end sgfmd dgfmd (saved_error e_save e)
     | Inr _ \<Rightarrow>
     call_bind (call_try (gfm_tmp_lookup_parent_result (lk_mal env) sgfmd spath)) (\<lambda>r. case r of
       Inl e \<Rightarrow>
         if gfm_client_is_connection_error e \<and> retry + 1 \<le> 1
         then call_bind (gfs_pair_end sgfmd dgfmd GFARM_ERR_NO_ERROR)
                (\<lambda>_. gfs_rename_loop env src dst (retry + 1))
         else gfs_pair_end sgfmd dgfmd (saved_error e_save e)
     | Inr sbase \<Rightarrow>
     call_bind (call_try
         (if sbase = GFARM_PATH_ROOT then call_return GFARM_ERR_OPERATION_NOT_PERMITTED
          else call_bind (gfm_client_save_fd_result (lk_mal env) sgfmd) (\<lambda>_. call_return e_save)))
       (\<lambda>r. case r of
       Inl e \<Rightarrow> gfs_pair_end sgfmd dgfmd (saved_error e_save e)
     | Inr e_save \<Rightarrow>
     call_bind (call_try (gfs_rename_target_results (lk_mal env) sgfmd e_save dgfmd dpath)) (\<lambda>r. case r of
       Inl e \<Rightarrow> gfs_pair_end sgfmd dgfmd (saved_error e_save e)
     | Inr e_save \<Rightarrow>
     call_bind (call_try (gfm_client_compound_end_result (lk_mal env) sgfmd)) (\<lambda>r. case r of
       Inl e \<Rightarrow> gfs_pair_end sgfmd dgfmd (saved_error e_save e)
     | Inr _ \<Rightarrow> gfs_pair_end sgfmd dgfmd e_save))))))))"
  by pat_completeness auto
termination
  by (relation "measure (\<lambda>(_, _, _, retry). 2 - retry)") auto

declare gfs_rename_loop.simps [simp del]

definition gfs_rename :: "lookup_env \<Rightarrow> string \<Rightarrow> string \<Rightarrow> (fd_world, unit) gfm_call" where
  "gfs_rename env src dst = gfs_rename_loop env src dst 0"

text \<open>Linking: the requests and the results behind the walk to the source.\<close>

definition gfs_link_requests :: "nat \<Rightarrow> string \<Rightarrow> nat \<Rightarrow> string \<Rightarrow> ('w, gfarm_error_t) gfm_call" where
  "gfs_link_requests sgfmd spath dgfmd dpath =
     call_bind (gfm_tmp_open_request sgfmd spath GFARM_FILE_LOOKUP)
       (\<lambda>_. call_bind (gfm_client_save_fd_request sgfmd)
       (\<lambda>_. call_bind (gfm_lookup_dir_request dgfmd dpath)
       (\<lambda>dbase. if dbase = GFARM_PATH_ROOT then call_return GFARM_ERR_OPERATION_NOT_PERMITTED
                else call_bind (gfm_client_flink_request dgfmd (c_bytes dbase))
                       (\<lambda>_. call_return GFARM_ERR_NO_ERROR))))"

definition gfs_link_results ::
  "(u64 \<Rightarrow> bool) \<Rightarrow> nat \<Rightarrow> nat \<Rightarrow> string \<Rightarrow> gfarm_error_t \<Rightarrow> ('w, gfarm_error_t) gfm_call" where
  "gfs_link_results mal sgfmd dgfmd dpath e_save =
     call_bind (gfm_client_save_fd_result mal sgfmd)
       (\<lambda>_. call_bind (gfm_lookup_dir_result mal dgfmd dpath)
       (\<lambda>dbase. if dbase = GFARM_PATH_ROOT then call_return GFARM_ERR_OPERATION_NOT_PERMITTED
                else call_bind (gfm_client_flink_result mal dgfmd) (\<lambda>_. call_return e_save)))"

function gfs_link_loop :: "lookup_env \<Rightarrow> string \<Rightarrow> string \<Rightarrow> nat \<Rightarrow> (fd_world, unit) gfm_call" where
  "gfs_link_loop env src dst retry =
     call_bind (gfs_pair_servers env src dst) (\<lambda>(sgfmd, spath, dgfmd, dpath).
     call_bind (call_try (gfs_link_requests sgfmd spath dgfmd dpath)) (\<lambda>r. case r of
       Inl e \<Rightarrow> gfs_pair_end sgfmd dgfmd e
     | Inr e_save \<Rightarrow>
     call_bind (call_try (gfm_client_compound_end_request sgfmd)) (\<lambda>r. case r of
       Inl e \<Rightarrow> gfs_pair_end sgfmd dgfmd (saved_error e_save e)
     | Inr _ \<Rightarrow>
     call_bind (call_try (gfm_tmp_open_result (lk_mal env) sgfmd spath)) (\<lambda>r. case r of
       Inl e \<Rightarrow>
         if gfm_client_is_connection_error e \<and> retry + 1 \<le> 1
         then call_bind (gfs_pair_end sgfmd dgfmd GFARM_ERR_NO_ERROR)
                (\<lambda>_. gfs_link_loop env src dst (retry + 1))
         else gfs_pair_end sgfmd dgfmd (saved_error e_save e)
     | Inr type \<Rightarrow>
     call_bind (call_try (gfs_link_results (lk_mal env) sgfmd dgfmd dpath e_save)) (\<lambda>r. case r of
       Inl e \<Rightarrow> gfs_pair_end sgfmd dgfmd (saved_error e_save e)
     | Inr e_save \<Rightarrow>
     call_bind (call_try (gfm_client_compound_end_result (lk_mal env) sgfmd)) (\<lambda>r. case r of
       Inl e \<Rightarrow> gfs_pair_end sgfmd dgfmd (saved_error e_save e)
     | Inr _ \<Rightarrow> gfs_pair_end sgfmd dgfmd e_save))))))"
  by pat_completeness auto
termination
  by (relation "measure (\<lambda>(_, _, _, retry). 2 - retry)") auto

declare gfs_link_loop.simps [simp del]

definition gfs_link :: "lookup_env \<Rightarrow> string \<Rightarrow> string \<Rightarrow> (fd_world, unit) gfm_call" where
  "gfs_link env src dst = gfs_link_loop env src dst 0"

subsection \<open>Descriptors for open files\<close>

text \<open>
  \<open>GFARM_FILE_USER_MODE\<close> is \<open>GFARM_FILE_ACCMODE\<close> with the flags for truncation, unbuffered access and
  creation of a replica.
\<close>

definition gfm_open_flag_check :: "u32 \<Rightarrow> gfarm_error_t" where
  "gfm_open_flag_check flag =
     (if and flag (not 0x30000403) \<noteq> 0 then GFARM_ERR_INVALID_ARGUMENT
      else if and flag 3 = 3 then GFARM_ERR_INVALID_ARGUMENT
      else GFARM_ERR_NO_ERROR)"

definition gfm_create_fd_request :: "u32 \<Rightarrow> int \<Rightarrow> nat \<Rightarrow> string \<Rightarrow> ('w, unit) gfm_call" where
  "gfm_create_fd_request flags mode_to_create gfm_server base =
     call_bind (gfm_client_create_request gfm_server (c_bytes base) (sint flags) mode_to_create)
       (\<lambda>_. gfm_client_get_fd_request gfm_server)"

text \<open>The results are \<open>mode_created\<close> and \<open>fd\<close>.\<close>

definition gfm_get_fd :: "(u64 \<Rightarrow> bool) \<Rightarrow> nat \<Rightarrow> ('w, int) gfm_call" where
  "gfm_get_fd mal gfm_server =
     call_bind (gfm_client_get_fd_result mal gfm_server)
       (\<lambda>vals. case vals of [Val_int32 fd] \<Rightarrow> call_return (sint fd) | _ \<Rightarrow> call_undefined)"

definition gfm_create_fd_result :: "(u64 \<Rightarrow> bool) \<Rightarrow> nat \<Rightarrow> ('w, u32 \<times> int) gfm_call" where
  "gfm_create_fd_result mal gfm_server =
     call_bind (gfm_client_create_result mal gfm_server)
       (\<lambda>vals. case vals of
          [Val_int64 inum, Val_int64 gen, Val_int32 mode_created] \<Rightarrow>
            call_bind (gfm_get_fd mal gfm_server) (\<lambda>fd. call_return (mode_created, fd))
        | _ \<Rightarrow> call_undefined)"

text \<open>The connection, the descriptor and the type; nothing has been stored when \<open>gfm_create_fd_result\<close> did not run.\<close>

definition gfm_create_fd_success :: "nat \<Rightarrow> (u32 \<times> int) option \<Rightarrow> ('w, nat \<times> int \<times> byte) gfm_call" where
  "gfm_create_fd_success gfm_server c =
     (case c of
        None \<Rightarrow> call_undefined
      | Some (mode_created, fd) \<Rightarrow> call_return (gfm_server, fd, gfs_mode_to_type mode_created))"

definition gfm_create_fd ::
  "lookup_env \<Rightarrow> string \<Rightarrow> u32 \<Rightarrow> int \<Rightarrow> (fd_world, nat \<times> int \<times> byte) gfm_call" where
  "gfm_create_fd env path flags mode =
     (if gfm_open_flag_check flags \<noteq> GFARM_ERR_NO_ERROR then call_fail (gfm_open_flag_check flags)
      else gfm_name_op env path GFARM_ERR_IS_A_DIRECTORY (gfm_create_fd_request flags mode)
             (gfm_create_fd_result (lk_mal env)) gfm_create_fd_success)"

definition gfm_open_fd_request :: "nat \<Rightarrow> ('w, unit) gfm_call" where
  "gfm_open_fd_request gfm_server = gfm_client_get_fd_request gfm_server"

definition gfm_open_fd_result :: "(u64 \<Rightarrow> bool) \<Rightarrow> nat \<Rightarrow> ('w, int) gfm_call" where
  "gfm_open_fd_result mal gfm_server = gfm_get_fd mal gfm_server"

definition gfm_open_fd_success :: "nat \<Rightarrow> int \<Rightarrow> byte \<Rightarrow> ('w, nat \<times> int \<times> byte) gfm_call" where
  "gfm_open_fd_success gfm_server fd type = call_return (gfm_server, fd, type)"

definition gfm_open_fd :: "lookup_env \<Rightarrow> string \<Rightarrow> u32 \<Rightarrow> (fd_world, nat \<times> int \<times> byte) gfm_call" where
  "gfm_open_fd env path flags =
     (if gfm_open_flag_check flags \<noteq> GFARM_ERR_NO_ERROR then call_fail (gfm_open_flag_check flags)
      else gfm_inode_op env path (sint flags) gfm_open_fd_request (gfm_open_fd_result (lk_mal env))
             gfm_open_fd_success None)"

definition gfm_close_request :: "nat \<Rightarrow> ('w, unit) gfm_call" where
  "gfm_close_request gfm_server = gfm_client_close_request gfm_server"

definition gfm_close_result :: "(u64 \<Rightarrow> bool) \<Rightarrow> nat \<Rightarrow> ('w, xdr_val list) gfm_call" where
  "gfm_close_result mal gfm_server = gfm_client_close_result mal gfm_server"

definition gfm_close_fd :: "(u64 \<Rightarrow> bool) \<Rightarrow> nat \<Rightarrow> int \<Rightarrow> ('w, xdr_val list) gfm_call" where
  "gfm_close_fd mal gfm_server fd =
     gfm_client_compound_fd_op mal gfm_server fd (gfm_close_request gfm_server)
       (gfm_close_result mal gfm_server) None"

subsection \<open>Space\<close>

function gfs_statfs_loop :: "lookup_env \<Rightarrow> nat \<Rightarrow> (fd_world, xdr_val list) gfm_call" where
  "gfs_statfs_loop env retry =
     call_bind (lookup_acquire env (gfarm_metadb_server_name env) (gfarm_metadb_server_port env)) (\<lambda>gfm_server.
     call_bind (call_try (gfm_client_statfs (lk_mal env) gfm_server)) (\<lambda>r. case r of
       Inl e \<Rightarrow>
         if gfm_client_is_connection_error e \<and> retry + 1 \<le> 1
         then call_bind (gfm_name_success_op_connection_free gfm_server ())
                (\<lambda>_. gfs_statfs_loop env (retry + 1))
         else gfm_give_back gfm_server e
     | Inr vals \<Rightarrow> gfm_name_success_op_connection_free gfm_server vals))"
  by pat_completeness auto
termination
  by (relation "measure (\<lambda>(_, retry). 2 - retry)") auto

declare gfs_statfs_loop.simps [simp del]

text \<open>The results are \<open>used\<close>, \<open>avail\<close> and \<open>files\<close>.\<close>

definition gfs_statfs :: "lookup_env \<Rightarrow> (fd_world, xdr_val list) gfm_call" where
  "gfs_statfs env = gfs_statfs_loop env 0"

end
