(* ===== verification/Gfm_Dialogue.thy ===== *)
theory Gfm_Dialogue
  imports Gfm_Exchange
begin

text \<open>
  Sequences of requests and of results on one connection. \<open>requested p f bs v\<close>: the call \<open>f\<close> succeeds with
  \<open>v\<close>, puts \<open>bs\<close> behind what is to be sent, and receives nothing. \<open>answered p f rs v\<close>: the call \<open>f\<close> takes the
  replies \<open>rs\<close>, up to the first error number, which it fails with, and succeeds with \<open>v\<close> when there is none.
  Both are kept by the composition of calls, so what a walk along a path says and hears is put together from
  its steps.
\<close>

subsection \<open>Requests\<close>

definition requested :: "nat \<Rightarrow> (fd_world, 'a) gfm_call \<Rightarrow> byte list \<Rightarrow> 'a \<Rightarrow> bool" where
  "requested p f bs v \<longleftrightarrow>
     (\<forall>s. gfm_ready p s \<longrightarrow>
        (\<exists>s'. f s = Some (Inr v, s') \<and> gfm_ready p s' \<and> gfm_same p s s'
            \<and> gfm_outgoing p s' = gfm_outgoing p s @ bs \<and> gfm_incoming p s' = gfm_incoming p s))"

lemma requestedE:
  assumes "requested p f bs v" and "gfm_ready p s"
  obtains s' where "f s = Some (Inr v, s')" "gfm_ready p s'" "gfm_same p s s'"
    "gfm_outgoing p s' = gfm_outgoing p s @ bs" "gfm_incoming p s' = gfm_incoming p s"
  using assms unfolding requested_def by blast

lemma requested_return: "requested p (call_return v) [] v"
  by (simp add: requested_def call_return_def)

lemma requested_bind:
  assumes "requested p f bs v" and "requested p (g v) bs' w"
  shows "requested p (call_bind f g) (bs @ bs') w"
  unfolding requested_def
proof (intro allI impI)
  fix s assume r: "gfm_ready p s"
  from requestedE [OF assms(1) r] obtain s1 where
    1: "f s = Some (Inr v, s1)" "gfm_ready p s1" "gfm_same p s s1"
      "gfm_outgoing p s1 = gfm_outgoing p s @ bs" "gfm_incoming p s1 = gfm_incoming p s" by blast
  from requestedE [OF assms(2) 1(2)] obtain s2 where
    2: "g v s1 = Some (Inr w, s2)" "gfm_ready p s2" "gfm_same p s1 s2"
      "gfm_outgoing p s2 = gfm_outgoing p s1 @ bs'" "gfm_incoming p s2 = gfm_incoming p s1" by blast
  show "\<exists>s'. call_bind f g s = Some (Inr w, s') \<and> gfm_ready p s' \<and> gfm_same p s s'
      \<and> gfm_outgoing p s' = gfm_outgoing p s @ bs @ bs' \<and> gfm_incoming p s' = gfm_incoming p s"
    unfolding bind_ok [where f = f, OF 1(1)] using 2 1(4,5) gfm_same_trans [OF 1(3) 2(3)]
    by (intro exI [of _ s2]) simp
qed

lemma requested_message:
  assumes "gfm_protocol call command fmt args"
  shows "requested p (call p) (gfm_wire command fmt args) ()"
  unfolding requested_def using protocol_ready [OF _ assms] by blast

subsection \<open>Results\<close>

type_synonym reply = "u32 \<times> byte list"

fun replies :: "reply list \<Rightarrow> byte list" where
  "replies [] = []"
| "replies ((x, bs) # rs) = reply_bytes x bs @ (if x = 0 then replies rs else [])"

definition status_of :: "reply list \<Rightarrow> u32" where
  "status_of rs = first_error (map fst rs)"

lemma status_simps [simp]:
  "status_of [] = 0"
  "status_of ((x, bs) # rs) = (if x = 0 then status_of rs else x)"
  by (simp_all add: status_of_def first_error_def)

lemma status_append: "status_of (rs @ rs') = (if status_of rs = 0 then status_of rs' else status_of rs)"
  by (induction rs rule: replies.induct) simp_all

lemma replies_append: "replies (rs @ rs') = replies rs @ (if status_of rs = 0 then replies rs' else [])"
  by (induction rs rule: replies.induct) simp_all

definition outcome_of :: "u32 \<Rightarrow> 'a \<Rightarrow> gfarm_error_t + 'a" where
  "outcome_of x v = (if x = 0 then Inr v else Inl (sint x))"

definition answered :: "nat \<Rightarrow> (fd_world, 'a) gfm_call \<Rightarrow> reply list \<Rightarrow> 'a \<Rightarrow> bool" where
  "answered p f rs v \<longleftrightarrow>
     (\<forall>s later. gfm_ready p s \<and> gfm_incoming p s = replies rs @ later \<longrightarrow>
        (\<exists>s'. f s = Some (outcome_of (status_of rs) v, s') \<and> gfm_ready p s' \<and> gfm_same p s s'
            \<and> gfm_outgoing p s' = gfm_outgoing p s
            \<and> (if rs = [] then s' = s else fw_out (gfm_world s') = gfm_outgoing p s)
            \<and> gfm_incoming p s' = later))"

lemma answeredE:
  assumes "answered p f rs v" and "gfm_ready p s" and "gfm_incoming p s = replies rs @ later"
  obtains s' where "f s = Some (outcome_of (status_of rs) v, s')" "gfm_ready p s'" "gfm_same p s s'"
    "gfm_outgoing p s' = gfm_outgoing p s"
    "if rs = [] then s' = s else fw_out (gfm_world s') = gfm_outgoing p s" "gfm_incoming p s' = later"
  using assms unfolding answered_def by blast

lemma answered_return: "answered p (call_return v) [] v"
  by (simp add: answered_def outcome_of_def call_return_def)

lemma answered_bind:
  assumes "answered p f rs v" and "answered p (g v) rs' w"
  shows "answered p (call_bind f g) (rs @ rs') w"
  unfolding answered_def
proof (intro allI impI)
  fix s later assume s: "gfm_ready p s \<and> gfm_incoming p s = replies (rs @ rs') @ later"
  then have r: "gfm_ready p s"
    and i: "gfm_incoming p s = replies rs @ (if status_of rs = 0 then replies rs' @ later else later)"
    by (simp_all add: replies_append)
  from answeredE [OF assms(1) r i] obtain s1 where
    1: "f s = Some (outcome_of (status_of rs) v, s1)" "gfm_ready p s1" "gfm_same p s s1"
      "gfm_outgoing p s1 = gfm_outgoing p s"
      "if rs = [] then s1 = s else fw_out (gfm_world s1) = gfm_outgoing p s"
      "gfm_incoming p s1 = (if status_of rs = 0 then replies rs' @ later else later)" by blast
  show "\<exists>s'. call_bind f g s = Some (outcome_of (status_of (rs @ rs')) w, s') \<and> gfm_ready p s'
      \<and> gfm_same p s s' \<and> gfm_outgoing p s' = gfm_outgoing p s
      \<and> (if rs @ rs' = [] then s' = s else fw_out (gfm_world s') = gfm_outgoing p s)
      \<and> gfm_incoming p s' = later"
  proof (cases "status_of rs = 0")
    case False
    then have "call_bind f g s = Some (Inl (sint (status_of rs)), s1)" "rs \<noteq> []"
      using 1(1) by (auto simp: call_bind_def outcome_of_def)
    with False 1 show ?thesis by (intro exI [of _ s1]) (simp add: status_append outcome_of_def)
  next
    case True
    have fs: "f s = Some (Inr v, s1)" using True 1(1) by (simp add: outcome_of_def)
    have i1: "gfm_incoming p s1 = replies rs' @ later" using True 1(6) by simp
    from answeredE [OF assms(2) 1(2) i1] obtain s2 where
      2: "g v s1 = Some (outcome_of (status_of rs') w, s2)" "gfm_ready p s2" "gfm_same p s1 s2"
        "gfm_outgoing p s2 = gfm_outgoing p s1"
        "if rs' = [] then s2 = s1 else fw_out (gfm_world s2) = gfm_outgoing p s1"
        "gfm_incoming p s2 = later" by blast
    have "if rs @ rs' = [] then s2 = s else fw_out (gfm_world s2) = gfm_outgoing p s"
      using 1(4,5) 2(5) by (cases "rs = []"; cases "rs' = []") simp_all
    with True show ?thesis unfolding bind_ok [where f = f, OF fs]
      using 2(1,2,4,6) 1(4) gfm_same_trans [OF 1(3) 2(3)]
      by (intro exI [of _ s2]) (simp add: status_append)
  qed
qed

lemma answered_result:
  assumes "malloc_generous mal" and "xdr_encode fmt args = Some bs" and "xdr_decoded fmt args szs = Some vals"
  shows "answered p (gfm_client_rpc_result mal p just (map recv_char fmt) szs) [(x, bs)] vals"
  unfolding answered_def
proof (intro allI impI)
  fix s later assume "gfm_ready p s \<and> gfm_incoming p s = replies [(x, bs)] @ later"
  then have r: "gfm_ready p s" and i: "gfm_incoming p s = reply_bytes x bs @ later" by simp_all
  from gfm_result_ready [OF r assms i, of just]
  show "\<exists>s'. gfm_client_rpc_result mal p just (map recv_char fmt) szs s
        = Some (outcome_of (status_of [(x, bs)]) vals, s') \<and> gfm_ready p s' \<and> gfm_same p s s'
      \<and> gfm_outgoing p s' = gfm_outgoing p s
      \<and> (if [(x, bs)] = [] then s' = s else fw_out (gfm_world s') = gfm_outgoing p s)
      \<and> gfm_incoming p s' = later"
    by (cases "x = 0") (simp_all add: outcome_of_def)
qed

lemma answered_plain:
  assumes "malloc_generous mal"
  shows "answered p (gfm_client_rpc_result mal p just '''' []) [(x, [])] []"
  using answered_result [OF assms, of "[]" "[]" "[]" "[]" "[]" p just x] by simp

lemma answered_drop:
  assumes "answered p f rs v"
  shows "answered p (call_bind f (\<lambda>_. call_return w)) rs w"
  using answered_bind [OF assms, of "\<lambda>_. call_return w" "[]" w] by (simp add: answered_return)

subsection \<open>A server that has gone\<close>

lemma gfm_result_lost:
  assumes "gfm_ready p s" and "length (gfm_incoming p s) < 4"
  shows "\<exists>s'. gfm_client_rpc_result mal p just fmt szs s = Some (Inl GFARM_ERR_UNEXPECTED_EOF, s')
    \<and> gfm_lost p s s'"
proof -
  from gfm_ready_conn [OF assms(1)] obtain g where
    g: "gfm_server_at s p = Some g" "xdr_ready (gfm_conn g) (gfm_world s)"
      "gfm_incoming p s = from_peer (gfm_conn g) (gfm_world s)" by blast
  from used_ready [OF assms(1)] obtain s1 where
    1: "gfm_client_connection_used p s = Some s1" "gfm_ready p s1" "gfm_same p s s1"
      "gfm_server_at s1 p = Some g" "gfm_world s1 = gfm_world s" using g(1) by auto
  from flush_ready [OF g(2)] obtain c2 w2 where
    2: "gfp_xdr_flush (gfm_conn g) (gfm_world s) = Some (c2, GFARM_ERR_NO_ERROR, w2)" "xdr_ready c2 w2"
      "from_peer c2 w2 = from_peer (gfm_conn g) (gfm_world s)" by blast
  let ?s2 = "gfm_store_conn p c2 w2 s1"
  note st = store_conn_ready [OF 1(2,4) 2(2)]
  from vrpc_eof_ready [OF 2(2), of mal just fmt szs] 2(3) g(3) assms(2) obtain r where
    r: "gfp_xdr_vrpc_result mal c2 just fmt szs w2 = Some r" "rpc_error r = GFARM_ERR_UNEXPECTED_EOF"
    by auto
  obtain xs where "cache_inv (gfm_server_cache ?s2) xs" "in_use (gfm_server_cache ?s2) p"
    using st(1) by (auto simp: gfm_ready_def)
  from rpc_end_lost [OF this st(3) r(2)] obtain s' where
    e: "gfm_rpc_end p r ?s2 = Some (Inl GFARM_ERR_UNEXPECTED_EOF, s')" "gfm_lost p ?s2 s'" by auto
  have "gfm_client_rpc_result mal p just fmt szs s = gfm_rpc_end p r ?s2"
    using 1(1,4,5) 2(1) r(1) st(4) by (simp add: gfm_client_rpc_result_def call_bind_def)
  with e(1) gfm_lost_same [OF gfm_same_trans [OF 1(3) st(2)] e(2)] show ?thesis by auto
qed

end
