(* ===== verification/Lookup_Spec.thy ===== *)
theory Lookup_Spec
  imports Gfs_Paths Gfm_Dialogue
begin

text \<open>
  What \<open>gfarm/lookup.c\<close> does with a path: the walk opens the root and then the directories the path names, in
  order, and the two walks of an operation, the one that asks and the one that hears the answers,
  are in step. From that the whole exchange of an operation on a name or on a file, and what
  happens when the server has gone in the meantime.
\<close>

subsection \<open>The directories of a path\<close>

fun split_slash :: "string \<Rightarrow> string list" where
  "split_slash [] = [[]]"
| "split_slash (c # cs) =
     (if c = CHR ''/'' then [] # split_slash cs
      else (c # hd (split_slash cs)) # tl (split_slash cs))"

definition path_dirs :: "string \<Rightarrow> string list" where
  "path_dirs path = filter (\<lambda>d. d \<noteq> [] \<and> d \<noteq> ''.'') (butlast (split_slash path))"

definition path_last :: "string \<Rightarrow> string" where
  "path_last path = last (split_slash path)"

text \<open>The path names nothing but the root.\<close>

definition path_is_root :: "string \<Rightarrow> bool" where
  "path_is_root path \<longleftrightarrow> path_dirs path = [] \<and> path_last path = []"

definition path_base :: "string \<Rightarrow> string" where
  "path_base path = (if path_is_root path then ''/'' else path_last path)"

lemma split_slash_nonempty [simp]: "split_slash path \<noteq> []"
  by (cases path) simp_all

lemma split_slash_single:
  "drop (strcspn_slash path) path = [] \<Longrightarrow> split_slash path = [path]"
  by (induction path) (auto simp: strcspn_slash_def)

lemma split_slash_step:
  "drop (strcspn_slash path) path \<noteq> [] \<Longrightarrow>
     split_slash path = take (strcspn_slash path) path # split_slash (drop (strcspn_slash path + 1) path)"
proof (induction path)
  case (Cons c cs)
  then show ?case by (cases "c = CHR ''/''") (simp_all add: strcspn_slash_def)
qed simp

lemma path_last_no_slash: "CHR ''/'' \<notin> set (path_last path)"
proof (induction path)
  case (Cons c cs)
  then show ?case by (cases "split_slash cs") (auto simp: path_last_def split: if_splits)
qed (simp add: path_last_def)

lemma path_base_root: "path_base path = ''/'' \<longleftrightarrow> path_is_root path"
  using path_last_no_slash [of path] by (auto simp: path_base_def)

lemma path_base_last: "\<not> path_is_root path \<Longrightarrow> path_base path = path_last path"
  by (simp add: path_base_def)

lemma strcspn_le: "strcspn_slash path \<le> length path"
  by (simp add: strcspn_slash_def length_takeWhile_le)

lemma path_single:
  assumes "drop (strcspn_slash path) path = []"
  shows "path_dirs path = []" and "path_last path = path" and "strcspn_slash path = length path"
  using split_slash_single [OF assms] strcspn_le [of path] assms
  by (simp_all add: path_dirs_def path_last_def)

lemma path_step:
  assumes "drop (strcspn_slash path) path \<noteq> []"
  defines "d \<equiv> take (strcspn_slash path) path" and "rest \<equiv> drop (strcspn_slash path + 1) path"
  shows "path_dirs path = (if d \<noteq> [] \<and> d \<noteq> ''.'' then [d] else []) @ path_dirs rest"
    and "path_last path = path_last rest" and "length rest < length path"
  using split_slash_step [OF assms(1)] assms(1)
  by (simp_all add: path_dirs_def path_last_def d_def rest_def)

lemma take_dot: "take n path = ''.'' \<longleftrightarrow> n \<noteq> 0 \<and> path \<noteq> [] \<and> take 1 path = ''.'' \<and> (n = 1 \<or> length path = 1)"
  by (cases path; cases n) (auto simp: Suc_le_eq)

lemma skip_slash: "path_dirs (drop 1 path) = path_dirs path \<and> path_last (drop 1 path) = path_last path"
  if "take 1 path = ''/''"
  using that by (cases path) (auto simp: path_dirs_def path_last_def)

subsection \<open>What the walk asks\<close>

definition root_wire :: "int \<Rightarrow> byte list" where
  "root_wire flags = gfm_wire GFM_PROTO_OPEN_ROOT ''i'' [Arg_int flags]"

definition open_wire :: "string \<Rightarrow> int \<Rightarrow> byte list" where
  "open_wire name flags =
     gfm_wire GFM_PROTO_OPEN ''Si''
       [Arg_ptr (c_bytes name), Arg_size (of_nat (length name)), Arg_int flags]"

definition opens_wire :: "string list \<Rightarrow> byte list" where
  "opens_wire ds = concat (map (\<lambda>d. open_wire d GFARM_FILE_LOOKUP) ds)"

definition walk_wire :: "string \<Rightarrow> byte list" where
  "walk_wire path =
     (if path_is_root path then [] else root_wire GFARM_FILE_LOOKUP @ opens_wire (path_dirs path))"

lemma open_root_requested:
  "requested p (gfm_client_open_root_request p flags) (root_wire flags) ()"
  unfolding root_wire_def by (rule requested_message) (rule gfm_protocol.intros)

lemma unat_small: "n < 2 ^ 31 \<Longrightarrow> unat (of_nat n :: u64) = n"
  by (simp add: unsigned_of_nat take_bit_nat_eq_self)

lemma block_wire:
  assumes "n < 2 ^ 31" and "n \<le> length a" and "n \<le> length b" and "take n a = take n b"
  shows "gfm_wire c ''Si'' [Arg_ptr a, Arg_size (of_nat n), Arg_int flags]
    = gfm_wire c ''Si'' [Arg_ptr b, Arg_size (of_nat n), Arg_int flags]"
proof -
  have "block_chunk (ucast (of_nat n :: u64)) x = Some (take n x)" if "n \<le> length x" for x
    unfolding ucast_of_nat unat_small [OF assms(1)] by (rule block_chunk_of_nat [OF assms(1) that])
  with assms(2-4) show ?thesis by (simp add: gfm_wire_def xdr_chunks.simps)
qed

lemma open_requested:
  assumes "n < 2 ^ 31" and "n \<le> length path"
  shows "requested p (gfm_client_open_request p (c_bytes path) (of_nat n) flags)
    (open_wire (take n path) flags) ()"
proof -
  have "sized (of_nat n) (c_bytes path)"
    using assms by (simp add: sized_def unat_small c_bytes_def)
  then have "gfm_protocol (\<lambda>p. gfm_client_open_request p (c_bytes path) (of_nat n) flags) GFM_PROTO_OPEN ''Si''
      [Arg_ptr (c_bytes path), Arg_size (of_nat n), Arg_int flags]" by (rule gfm_protocol.intros)
  from requested_message [OF this, of p] show ?thesis
    using block_wire [of n "c_bytes path" "c_bytes (take n path)"] assms
    by (simp add: open_wire_def c_bytes_def take_map)
qed

lemma walk_loop_requested:
  assumes "length path < 2 ^ 31"
  shows "requested p (gfm_lookup_dir_request_loop p beginning path)
    ((if beginning \<and> \<not> path_is_root path then root_wire GFARM_FILE_LOOKUP else []) @ opens_wire (path_dirs path))
    (if beginning then path_base path else path_last path)"
  using assms
proof (induction path arbitrary: beginning rule: measure_induct_rule [of length])
  case (less path)
  let ?len = "strcspn_slash path"
  let ?d = "take ?len path" and ?rest = "drop (?len + 1) path"
  have len: "\<not> 2 ^ 31 \<le> ?len" "?len < 2 ^ 31" "?len \<le> length path"
    using less.prems strcspn_le [of path] by simp_all
  note loop = gfm_lookup_dir_request_loop.simps [of p beginning path, unfolded Let_def if_not_P [OF len(1)]]
  show ?case
  proof (cases "drop ?len path = []")
    case True
    note one = path_single [OF True]
    have run: "gfm_lookup_dir_request_loop p beginning path =
        (if beginning then (if path = [] then call_return ''/''
            else call_bind (gfm_client_open_root_request p GFARM_FILE_LOOKUP) (\<lambda>_. call_return path))
         else call_return path)"
      unfolding loop if_P [OF True] by (simp add: one(3))
    have "requested p (call_bind (gfm_client_open_root_request p GFARM_FILE_LOOKUP) (\<lambda>_. call_return path))
        (root_wire GFARM_FILE_LOOKUP @ []) path"
      by (rule requested_bind [OF open_root_requested requested_return])
    then show ?thesis unfolding run
      using requested_return [of p path] requested_return [of p "''/''"]
      by (simp add: one(1,2) path_base_def path_is_root_def opens_wire_def)
  next
    case False
    note st = path_step [OF False]
    have IH: "requested p (gfm_lookup_dir_request_loop p b ?rest)
        ((if b \<and> \<not> path_is_root ?rest then root_wire GFARM_FILE_LOOKUP else []) @ opens_wire (path_dirs ?rest))
        (if b then path_base ?rest else path_last ?rest)" for b
      using less.IH [OF st(3), of b] st(3) less.prems by simp
    show ?thesis
    proof (cases "?d \<noteq> [] \<and> ?d \<noteq> ''.''")
      case skip: False
      then have "?len = 0 \<or> ?len = 1 \<and> take 1 path = ''.''"
        using take_dot [of ?len path] False len(3) by (cases path) auto
      then have run: "gfm_lookup_dir_request_loop p beginning path
          = gfm_lookup_dir_request_loop p beginning ?rest"
      proof
        assume 0: "?len = 0"
        show ?thesis unfolding loop if_not_P [OF False] if_P [OF 0] by (simp add: 0)
      next
        assume 1: "?len = 1 \<and> take 1 path = ''.''"
        then have "?len \<noteq> 0" by simp
        then show ?thesis unfolding loop if_not_P [OF False] if_P [OF 1] using 1 by (simp add: numeral_2_eq_2)
      qed
      have "path_dirs path = path_dirs ?rest" unfolding st(1) if_not_P [OF skip] by simp
      then have "path_base path = path_base ?rest" "path_is_root path = path_is_root ?rest"
        "path_dirs path = path_dirs ?rest"
        using st(2) by (simp_all add: path_base_def path_is_root_def)
      then show ?thesis unfolding run using IH [of beginning] st(2) by (cases beginning) simp_all
    next
      case named: True
      then have skip: "?len \<noteq> 0" "\<not> (?len = 1 \<and> take 1 path = ''.'')" by auto
      have root: "requested p (if beginning then gfm_client_open_root_request p GFARM_FILE_LOOKUP else call_return ())
          (if beginning then root_wire GFARM_FILE_LOOKUP else []) ()"
        by (simp add: open_root_requested requested_return)
      have "requested p (gfm_lookup_dir_request_loop p beginning path)
          ((if beginning then root_wire GFARM_FILE_LOOKUP else []) @ open_wire ?d GFARM_FILE_LOOKUP
             @ opens_wire (path_dirs ?rest)) (path_last ?rest)"
        unfolding loop if_not_P [OF False] if_not_P [OF skip(1)] if_not_P [OF skip(2)]
        by (intro requested_bind [OF root] requested_bind [OF open_requested [OF len(2,3)]])
          (use IH [of False] in simp)
      with named st(1,2) show ?thesis
        by (cases beginning) (simp_all add: path_base_def path_is_root_def opens_wire_def)
    qed
  qed
qed

text \<open>A leading slash makes no difference.\<close>

lemma skip_path:
  obtains path' where "(if take 1 path = ''/'' then drop 1 path else path) = path'"
    and "path_dirs path' = path_dirs path" "path_last path' = path_last path"
    and "path_base path' = path_base path" "path_is_root path' = path_is_root path"
    and "length path' \<le> length path"
proof -
  let ?path = "if take 1 path = ''/'' then drop 1 path else path"
  have "path_dirs ?path = path_dirs path" "path_last ?path = path_last path" "length ?path \<le> length path"
    using skip_slash [of path] by auto
  then show thesis by (intro that [of ?path]) (simp_all add: path_base_def path_is_root_def)
qed

lemma walk_requested:
  assumes "length path < 2 ^ 31"
  shows "requested p (gfm_lookup_dir_request p path) (walk_wire path) (path_base path)"
proof -
  obtain path' where skip: "(if take 1 path = ''/'' then drop 1 path else path) = path'"
    and eqs: "path_dirs path' = path_dirs path" "path_last path' = path_last path"
      "path_base path' = path_base path" "path_is_root path' = path_is_root path"
    and len: "length path' \<le> length path"
    by (rule skip_path)
  from len assms have "length path' < 2 ^ 31" by simp
  from walk_loop_requested [OF this, of p True] have
    r: "requested p (gfm_lookup_dir_request_loop p True path')
      ((if path_is_root path then [] else root_wire GFARM_FILE_LOOKUP) @ opens_wire (path_dirs path))
      (path_base path)" by (cases "path_is_root path") (simp_all add: eqs)
  have "walk_wire path = (if path_is_root path then [] else root_wire GFARM_FILE_LOOKUP) @ opens_wire (path_dirs path)"
    by (simp add: walk_wire_def path_is_root_def opens_wire_def)
  with r show ?thesis unfolding gfm_lookup_dir_request_def skip by simp
qed

subsection \<open>What the walk hears\<close>

text \<open>The reply to an \<open>OPEN\<close>: inode number, generation and mode. One to the root, one to each directory.\<close>

definition open_answer :: "byte list \<Rightarrow> bool" where
  "open_answer bs \<longleftrightarrow>
     (\<exists>inum gen mode. xdr_encode ''lli'' [Arg_int64 inum, Arg_int64 gen, Arg_int mode] = Some bs)"

definition walk_answers :: "string \<Rightarrow> reply list \<Rightarrow> bool" where
  "walk_answers path rs \<longleftrightarrow>
     (if path_is_root path then rs = []
      else \<exists>x opens. rs = (x, []) # opens \<and> length opens = length (path_dirs path)
             \<and> (\<forall>r \<in> set opens. open_answer (snd r)))"

lemma open_answered:
  assumes "malloc_generous mal" and "xdr_encode ''lli'' [Arg_int64 inum, Arg_int64 gen, Arg_int mode] = Some bs"
  shows "answered p (gfm_client_open_result mal p) [(x, bs)]
    [Val_int64 inum, Val_int64 gen, Val_int32 (word_of_int mode)]"
  using answered_result [OF assms, of "[]" _ p False x]
  by (simp add: gfm_client_open_result_def xdr_value_def recv_char_def)

lemma open_root_answered:
  "malloc_generous mal \<Longrightarrow> answered p (gfm_client_open_root_result mal p) [(x, [])] []"
  unfolding gfm_client_open_root_result_def by (rule answered_plain)

lemma walk_loop_answered:
  assumes "malloc_generous mal" and "length path < 2 ^ 31"
    and "length opens = length (path_dirs path)" and "\<forall>r \<in> set opens. open_answer (snd r)"
  shows "answered p (gfm_lookup_dir_result_loop mal p beginning path)
    ((if beginning \<and> \<not> path_is_root path then [(x, [])] else []) @ opens)
    (if beginning then path_base path else path_last path)"
  using assms(2-4)
proof (induction path arbitrary: beginning opens rule: measure_induct_rule [of length])
  case (less path)
  let ?len = "strcspn_slash path"
  let ?d = "take ?len path" and ?rest = "drop (?len + 1) path"
  have len: "\<not> 2 ^ 31 \<le> ?len" using less.prems(1) strcspn_le [of path] by simp
  note root_x = open_root_answered [OF assms(1), of p x]
  note loop = gfm_lookup_dir_result_loop.simps [of mal p beginning path, unfolded Let_def if_not_P [OF len]]
  show ?case
  proof (cases "drop ?len path = []")
    case True
    note one = path_single [OF True]
    have none: "opens = []" using less.prems(2) one(1) by simp
    have run: "gfm_lookup_dir_result_loop mal p beginning path =
        (if beginning then (if path = [] then call_return ''/''
            else call_bind (gfm_client_open_root_result mal p) (\<lambda>_. call_return path))
         else call_return path)"
      unfolding loop if_P [OF True] by (simp add: one(3))
    show ?thesis unfolding run none
      using answered_drop [OF root_x, where w = path]
        answered_return [of p path] answered_return [of p "''/''"]
      by (simp add: one(1,2) path_base_def path_is_root_def)
  next
    case False
    note st = path_step [OF False]
    have IH: "answered p (gfm_lookup_dir_result_loop mal p b ?rest)
        ((if b \<and> \<not> path_is_root ?rest then [(x, [])] else []) @ os)
        (if b then path_base ?rest else path_last ?rest)"
      if "length os = length (path_dirs ?rest)" "\<forall>r \<in> set os. open_answer (snd r)" for b os
      using less.IH [OF st(3) _ that, of b] st(3) less.prems(1) by simp
    show ?thesis
    proof (cases "?d \<noteq> [] \<and> ?d \<noteq> ''.''")
      case skip: False
      then have "?len = 0 \<or> ?len = 1 \<and> take 1 path = ''.''"
        using take_dot [of ?len path] False strcspn_le [of path] by (cases path) auto
      then have run: "gfm_lookup_dir_result_loop mal p beginning path
          = gfm_lookup_dir_result_loop mal p beginning ?rest"
      proof
        assume 0: "?len = 0"
        show ?thesis unfolding loop if_not_P [OF False] if_P [OF 0] by (simp add: 0)
      next
        assume 1: "?len = 1 \<and> take 1 path = ''.''"
        then have "?len \<noteq> 0" by simp
        then show ?thesis unfolding loop if_not_P [OF False] if_P [OF 1] using 1 by (simp add: numeral_2_eq_2)
      qed
      have "path_dirs path = path_dirs ?rest" unfolding st(1) if_not_P [OF skip] by simp
      then have "path_base path = path_base ?rest" "path_is_root path = path_is_root ?rest"
        "path_dirs path = path_dirs ?rest"
        using st(2) by (simp_all add: path_base_def path_is_root_def)
      then show ?thesis unfolding run using IH [of opens beginning] less.prems(2,3) st(2)
        by (cases beginning) simp_all
    next
      case named: True
      then have skip: "?len \<noteq> 0" "\<not> (?len = 1 \<and> take 1 path = ''.'')" by auto
      have dirs: "path_dirs path = ?d # path_dirs ?rest" using st(1) named by simp
      with less.prems(2) obtain y bs os where opens: "opens = (y, bs) # os"
        "length os = length (path_dirs ?rest)" by (cases opens) auto
      then have os: "\<forall>r \<in> set os. open_answer (snd r)" and "open_answer bs"
        using less.prems(3) by simp_all
      then obtain inum gen mode where
        bs: "xdr_encode ''lli'' [Arg_int64 inum, Arg_int64 gen, Arg_int mode] = Some bs"
        by (auto simp: open_answer_def)
      have root: "answered p (if beginning
            then call_bind (gfm_client_open_root_result mal p) (\<lambda>_. call_return ()) else call_return ())
          (if beginning then [(x, [])] else []) ()"
        using answered_drop [OF root_x, where w = "()"] answered_return [of p "()"]
        by simp
      have "answered p (gfm_lookup_dir_result_loop mal p beginning path)
          ((if beginning then [(x, [])] else []) @ [(y, bs)] @ os) (path_last ?rest)"
        unfolding loop if_not_P [OF False] if_not_P [OF skip(1)] if_not_P [OF skip(2)]
        by (intro answered_bind [OF root] answered_bind [OF open_answered [OF assms(1) bs]])
          (use IH [OF opens(2) os, of False] in simp)
      with dirs st(2) opens(1) show ?thesis
        by (cases beginning) (simp_all add: path_base_def path_is_root_def)
    qed
  qed
qed

lemma walk_answered:
  assumes "malloc_generous mal" and "length path < 2 ^ 31" and "walk_answers path rs"
  shows "answered p (gfm_lookup_dir_result mal p path) rs (path_base path)"
proof -
  obtain path' where skip: "(if take 1 path = ''/'' then drop 1 path else path) = path'"
    and eqs: "path_dirs path' = path_dirs path" "path_last path' = path_last path"
      "path_base path' = path_base path" "path_is_root path' = path_is_root path"
    and len: "length path' \<le> length path"
    by (rule skip_path)
  from len assms(2) have len': "length path' < 2 ^ 31" by simp
  show ?thesis
  proof (cases "path_is_root path")
    case True
    then have "rs = []" "path_dirs path = []"
      using assms(3) by (simp_all add: walk_answers_def path_is_root_def)
    with walk_loop_answered [OF assms(1) len', of "[]" p True] True eqs show ?thesis
      unfolding gfm_lookup_dir_result_def skip by simp
  next
    case False
    with assms(3) obtain x opens where rs: "rs = (x, []) # opens"
      "length opens = length (path_dirs path')" "\<forall>r \<in> set opens. open_answer (snd r)"
      by (auto simp: walk_answers_def eqs)
    from walk_loop_answered [OF assms(1) len' rs(2,3), of p True x] False eqs rs(1) show ?thesis
      unfolding gfm_lookup_dir_result_def skip by simp
  qed
qed

subsection \<open>Operations on a name\<close>

definition begin_wire :: "byte list" where
  "begin_wire = gfm_wire GFM_PROTO_COMPOUND_BEGIN '''' []"

definition end_wire :: "byte list" where
  "end_wire = gfm_wire GFM_PROTO_COMPOUND_END '''' []"

lemma begin_requested: "requested p (gfm_client_compound_begin_request p) begin_wire ()"
  unfolding begin_wire_def by (rule requested_message) (rule gfm_protocol.intros)

lemma end_requested: "requested p (gfm_client_compound_end_request p) end_wire ()"
  unfolding end_wire_def by (rule requested_message) (rule gfm_protocol.intros)

lemma parent_requested:
  assumes "length path < 2 ^ 31"
  shows "requested p (gfm_tmp_lookup_parent_request p path) (begin_wire @ walk_wire path) (path_base path)"
  unfolding gfm_tmp_lookup_parent_request_def
  by (rule requested_bind [OF begin_requested walk_requested [OF assms]])

lemma parent_answered:
  assumes "malloc_generous mal" and "length path < 2 ^ 31" and "walk_answers path rs"
  shows "answered p (gfm_tmp_lookup_parent_result mal p path) ((b, []) # rs) (path_base path)"
proof -
  have "answered p (gfm_tmp_lookup_parent_result mal p path) ([(b, [])] @ rs) (path_base path)"
    unfolding gfm_tmp_lookup_parent_result_def gfm_client_compound_begin_result_def
    by (rule answered_bind [OF answered_plain [OF assms(1)] walk_answered [OF assms]])
  then show ?thesis by simp
qed

lemma end_answered:
  "malloc_generous mal \<Longrightarrow> answered p (gfm_client_compound_end_result mal p) [(e, [])] []"
  unfolding gfm_client_compound_end_result_def by (rule answered_plain)

lemma try_bind: "f s = Some (r, s') \<Longrightarrow> call_bind (call_try f) g s = g r s'"
  by (simp add: call_bind_def call_try_def)

text \<open>How an operation ends: the connection is given back with the error, or the result is handed on.\<close>

definition gfm_finish ::
  "nat \<Rightarrow> (nat \<Rightarrow> 'a \<Rightarrow> ('w, 'b) gfm_call) \<Rightarrow> gfarm_error_t + 'a \<Rightarrow> ('w, 'b) gfm_call" where
  "gfm_finish p success_op r =
     (case r of Inl e \<Rightarrow> gfm_give_back p e | Inr v \<Rightarrow> success_op p v)"

lemma finish_simps [simp]:
  "gfm_finish p success_op (Inl e) = gfm_give_back p e"
  "gfm_finish p success_op (Inr v) = success_op p v"
  by (simp_all add: gfm_finish_def)

lemma saved_error_simps [simp]:
  "saved_error 0 e = e" "e_save \<noteq> 0 \<Longrightarrow> saved_error e_save e = e_save"
  by (simp_all add: saved_error_def)

text \<open>The error of an operation on the root is the one given for that, whatever the server says.\<close>

definition name_outcome :: "gfarm_error_t \<Rightarrow> string \<Rightarrow> reply list \<Rightarrow> 'a \<Rightarrow> gfarm_error_t + 'a option" where
  "name_outcome root_error_code path rs v =
     (if path_is_root path then Inl root_error_code else outcome_of (status_of rs) (Some v))"

text \<open>What a whole exchange has done to the connection: \<open>bs\<close> is sent, \<open>later\<close> is still to come.\<close>

definition exchanged :: "nat \<Rightarrow> byte list \<Rightarrow> byte list \<Rightarrow> fd_world gfm_state \<Rightarrow> fd_world gfm_state \<Rightarrow> bool" where
  "exchanged p bs later s s' \<longleftrightarrow>
     gfm_ready p s' \<and> gfm_same p s s' \<and> gfm_outgoing p s' = gfm_outgoing p s @ bs
     \<and> fw_out (gfm_world s') = gfm_outgoing p s @ bs \<and> gfm_incoming p s' = later"

lemma name_requests:
  assumes "length path < 2 ^ 31" and "\<not> path_is_root path \<Longrightarrow> requested p (request_op p (path_base path)) req ()"
  shows "requested p (gfm_name_requests root_error_code request_op p path)
    (begin_wire @ walk_wire path @ (if path_is_root path then [] else req))
    (if path_is_root path then root_error_code else GFARM_ERR_NO_ERROR)"
proof -
  have "requested p (if path_base path = ''/'' then call_return root_error_code
        else call_bind (request_op p (path_base path)) (\<lambda>_. call_return GFARM_ERR_NO_ERROR))
      (if path_is_root path then [] else req) (if path_is_root path then root_error_code else GFARM_ERR_NO_ERROR)"
  proof (cases "path_is_root path")
    case False
    have "requested p (call_bind (request_op p (path_base path)) (\<lambda>_. call_return GFARM_ERR_NO_ERROR))
        (req @ []) GFARM_ERR_NO_ERROR"
      by (rule requested_bind [OF assms(2) [OF False] requested_return])
    with False show ?thesis by (simp add: path_base_root)
  qed (simp add: path_base_root requested_return)
  note tail = this
  have "requested p (gfm_name_requests root_error_code request_op p path)
      ((begin_wire @ walk_wire path) @ (if path_is_root path then [] else req))
      (if path_is_root path then root_error_code else GFARM_ERR_NO_ERROR)"
    unfolding gfm_name_requests_def by (rule requested_bind [OF parent_requested [OF assms(1)]], rule tail)
  then show ?thesis by simp
qed

lemma name_results:
  assumes "\<not> path_is_root path \<Longrightarrow> answered p (result_op p) rs v" and "path_is_root path \<Longrightarrow> rs = []"
  shows "answered p (gfm_name_results root_error_code e_save result_op p (path_base path)) rs
    (if path_is_root path then (root_error_code, None) else (e_save, Some v))"
proof (cases "path_is_root path")
  case True
  with assms(2) show ?thesis by (simp add: gfm_name_results_def path_base_root answered_return)
next
  case False
  have "answered p (call_bind (result_op p) (\<lambda>v. call_return (e_save, Some v))) (rs @ []) (e_save, Some v)"
    by (rule answered_bind [OF assms(1) [OF False] answered_return])
  with False show ?thesis by (simp add: gfm_name_results_def path_base_root)
qed


text \<open>The replies to a whole operation on a name, and what goes out before the first of them.\<close>

definition name_replies :: "string \<Rightarrow> u32 \<Rightarrow> reply list \<Rightarrow> reply list \<Rightarrow> u32 \<Rightarrow> reply list" where
  "name_replies path b walk rs e =
     (b, []) # walk @ (if path_is_root path then [] else rs) @ [(e, [])]"

definition name_wire :: "string \<Rightarrow> byte list \<Rightarrow> byte list" where
  "name_wire path req =
     begin_wire @ walk_wire path @ (if path_is_root path then [] else req) @ end_wire"

text \<open>A connection error among the answers to the walk makes the code try again, once.\<close>

definition walk_retried :: "nat \<Rightarrow> u32 \<Rightarrow> reply list \<Rightarrow> bool" where
  "walk_retried retry b walk \<longleftrightarrow>
     gfm_client_is_connection_error (sint (status_of ((b, []) # walk))) \<and> retry + 1 \<le> 1"

lemma name_op_loop_unfold:
  assumes "gfm_url_server env url s = Some (Inr (p, path), s1)"
    and "gfm_name_requests root_error_code request_op p path s1 = Some (Inr e_save, s2)"
    and "gfm_client_compound_end_request p s2 = Some (Inr (), s3)"
    and "gfm_tmp_lookup_parent_result (lk_mal env) p path s3 = Some (r, s4)"
  shows "gfm_name_op_loop env url root_error_code request_op result_op success_op retry s =
    (case r of
       Inl e \<Rightarrow>
         if gfm_client_is_connection_error e \<and> retry + 1 \<le> 1
         then call_bind (gfm_name_success_op_connection_free p ())
                (\<lambda>_. gfm_name_op_loop env url root_error_code request_op result_op success_op (retry + 1)) s4
         else gfm_give_back p (saved_error e_save e) s4
     | Inr base \<Rightarrow>
         call_bind (call_try (gfm_name_results root_error_code e_save result_op p base)) (\<lambda>r. case r of
           Inl e \<Rightarrow> gfm_give_back p (saved_error e_save e)
         | Inr (e_save, v) \<Rightarrow>
             call_bind (call_try (gfm_client_compound_end_result (lk_mal env) p)) (\<lambda>r. case r of
               Inl e \<Rightarrow> gfm_give_back p (saved_error e_save e)
             | Inr _ \<Rightarrow>
                 if e_save \<noteq> GFARM_ERR_NO_ERROR then gfm_give_back p e_save else success_op p v)) s4)"
  apply (subst gfm_name_op_loop.simps)
  apply (subst bind_ok [where f = "gfm_url_server env url", OF assms(1)])
  apply (simp only: prod.case)
  apply (subst try_bind [where f = "gfm_name_requests root_error_code request_op p path", OF assms(2)])
  apply (simp only: sum.case)
  apply (subst try_bind [where f = "gfm_client_compound_end_request p", OF assms(3)])
  apply (simp only: sum.case)
  apply (subst try_bind [where f = "gfm_tmp_lookup_parent_result (lk_mal env) p path", OF assms(4)])
  apply (cases r; simp)
  done

lemma name_pass:
  assumes url: "gfm_url_server env url s = Some (Inr (p, path), s1)" and ready: "gfm_ready p s1"
    and mal: "malloc_generous (lk_mal env)" and len: "length path < 2 ^ 31" and re: "root_error_code \<noteq> 0"
    and req: "\<not> path_is_root path \<Longrightarrow> requested p (request_op p (path_base path)) req ()"
    and res: "\<not> path_is_root path \<Longrightarrow> answered p (result_op p) rs v"
    and walk: "walk_answers path walk"
    and inc: "gfm_incoming p s1 = replies (name_replies path b walk rs e) @ later"
    and once: "\<not> walk_retried retry b walk"
  shows "\<exists>s2. gfm_name_op_loop env url root_error_code request_op result_op success_op retry s
      = gfm_finish p success_op (name_outcome root_error_code path (name_replies path b walk rs e) v) s2
    \<and> exchanged p (name_wire path req) later s1 s2"
proof -
  let ?root = "path_is_root path"
  let ?e_save = "if ?root then root_error_code else GFARM_ERR_NO_ERROR"
  let ?rs = "if ?root then [] else rs"
  let ?looks = "(b, []) # walk"
  have "requested p (gfm_name_requests root_error_code request_op p path)
      (begin_wire @ walk_wire path @ (if ?root then [] else req)) ?e_save"
    by (rule name_requests) (use len req in simp_all)
  from requestedE [OF this ready] obtain s2 where
    2: "gfm_name_requests root_error_code request_op p path s1 = Some (Inr ?e_save, s2)" "gfm_ready p s2"
      "gfm_same p s1 s2"
      "gfm_outgoing p s2 = gfm_outgoing p s1 @ begin_wire @ walk_wire path @ (if ?root then [] else req)"
      "gfm_incoming p s2 = gfm_incoming p s1" by blast
  from requestedE [OF end_requested 2(2)] obtain s3 where
    3: "gfm_client_compound_end_request p s2 = Some (Inr (), s3)" "gfm_ready p s3" "gfm_same p s2 s3"
      "gfm_outgoing p s3 = gfm_outgoing p s2 @ end_wire" "gfm_incoming p s3 = gfm_incoming p s2" by blast
  have o3: "gfm_outgoing p s3 = gfm_outgoing p s1 @ name_wire path req"
    using 2(4) 3(4) by (simp add: name_wire_def)
  have i3: "gfm_incoming p s3 = replies ?looks
      @ (if status_of ?looks = 0 then replies (?rs @ [(e, [])]) @ later else later)"
    using inc 2(5) 3(5) replies_append [of ?looks "?rs @ [(e, [])]"] by (simp add: name_replies_def)
  from answeredE [OF parent_answered [OF mal len walk] 3(2) i3] obtain s4 where
    4: "gfm_tmp_lookup_parent_result (lk_mal env) p path s3
        = Some (outcome_of (status_of ?looks) (path_base path), s4)" "gfm_ready p s4" "gfm_same p s3 s4"
      "gfm_outgoing p s4 = gfm_outgoing p s3" "fw_out (gfm_world s4) = gfm_outgoing p s3"
      "gfm_incoming p s4 = (if status_of ?looks = 0 then replies (?rs @ [(e, [])]) @ later else later)"
    by (metis list.distinct(1))
  note unf = name_op_loop_unfold [OF url 2(1) 3(1) 4(1), of result_op success_op retry]
  have st: "status_of (name_replies path b walk rs e) = (if status_of ?looks = 0
      then if status_of ?rs = 0 then e else status_of ?rs else status_of ?looks)"
    using status_append [of ?looks "?rs @ [(e, [])]"] status_append [of ?rs "[(e, [])]"]
    by (simp add: name_replies_def)
  have same4: "gfm_same p s1 s4" using gfm_same_trans [OF gfm_same_trans [OF 2(3) 3(3)] 4(3)] .
  show ?thesis
  proof (cases "status_of ?looks = 0")
    case False
    then have "exchanged p (name_wire path req) later s1 s4"
      using 4 o3 same4 by (simp add: exchanged_def)
    moreover have "saved_error ?e_save (sint (status_of ?looks))
        = (if ?root then root_error_code else sint (status_of ?looks))"
      using re by simp
    then have "gfm_name_op_loop env url root_error_code request_op result_op success_op retry s
        = gfm_finish p success_op (name_outcome root_error_code path (name_replies path b walk rs e) v) s4"
      unfolding unf using once False st
      by (auto simp: outcome_of_def walk_retried_def name_outcome_def simp del: status_simps)
    ultimately show ?thesis by blast
  next
    case True
    note ok = this
    have i4: "gfm_incoming p s4 = replies ?rs @ (if status_of ?rs = 0 then replies [(e, [])] @ later else later)"
      using 4(6) ok replies_append [of ?rs "[(e, [])]"] by simp
    have "answered p (gfm_name_results root_error_code ?e_save result_op p (path_base path)) ?rs
        (if ?root then (root_error_code, None) else (?e_save, Some v))"
      by (rule name_results) (use res in simp_all)
    from answeredE [OF this 4(2) i4] obtain s5 where
      5: "gfm_name_results root_error_code ?e_save result_op p (path_base path) s4
          = Some (outcome_of (status_of ?rs) (if ?root then (root_error_code, None) else (?e_save, Some v)), s5)"
        "gfm_ready p s5" "gfm_same p s4 s5" "gfm_outgoing p s5 = gfm_outgoing p s4"
        "if ?rs = [] then s5 = s4 else fw_out (gfm_world s5) = gfm_outgoing p s4"
        "gfm_incoming p s5 = (if status_of ?rs = 0 then replies [(e, [])] @ later else later)" by blast
    have f5: "fw_out (gfm_world s5) = gfm_outgoing p s3" using 5(5) 4(4,5) by (cases "?rs = []") simp_all
    note same5 = gfm_same_trans [OF same4 5(3)]
    note run5 = try_bind [where f = "gfm_name_results root_error_code ?e_save result_op p (path_base path)", OF 5(1)]
    show ?thesis
    proof (cases "status_of ?rs = 0")
      case False
      then have nr: "\<not> ?root" by auto
      have "exchanged p (name_wire path req) later s1 s5"
        using 5 f5 4(4) o3 same5 False by (simp add: exchanged_def)
      moreover have "gfm_name_op_loop env url root_error_code request_op result_op success_op retry s
          = gfm_finish p success_op (name_outcome root_error_code path (name_replies path b walk rs e) v) s5"
        unfolding unf using False ok st nr
        by (simp add: run5 [unfolded if_not_P [OF nr]] outcome_of_def name_outcome_def)
      ultimately show ?thesis by blast
    next
      case True
      have i5: "gfm_incoming p s5 = replies [(e, [])] @ later" using 5(6) True by simp
      from answeredE [OF end_answered [OF mal] 5(2) i5] obtain s6 where
        6: "gfm_client_compound_end_result (lk_mal env) p s5 = Some (outcome_of (status_of [(e, [])]) [], s6)"
          "gfm_ready p s6" "gfm_same p s5 s6" "gfm_outgoing p s6 = gfm_outgoing p s5"
          "fw_out (gfm_world s6) = gfm_outgoing p s5" "gfm_incoming p s6 = later"
        by (metis list.distinct(1))
      note run6 = try_bind [where f = "gfm_client_compound_end_result (lk_mal env) p", OF 6(1)]
      have "exchanged p (name_wire path req) later s1 s6"
        using 6 5(4) 4(4) o3 gfm_same_trans [OF same5 6(3)] by (simp add: exchanged_def)
      moreover have "gfm_name_op_loop env url root_error_code request_op result_op success_op retry s
          = gfm_finish p success_op (name_outcome root_error_code path (name_replies path b walk rs e) v) s6"
      proof (cases ?root)
        case r: True
        show ?thesis unfolding unf using ok st re r
          by (cases "e = 0") (simp_all add: run5 [unfolded if_P [OF r]] run6 outcome_of_def name_outcome_def)
      next
        case r: False
        show ?thesis unfolding unf using True ok st r
          by (cases "e = 0") (simp_all add: run5 [unfolded if_not_P [OF r]] run6 outcome_of_def name_outcome_def)
      qed
      ultimately show ?thesis by blast
    qed
  qed
qed


text \<open>When the server has gone: the connection leaves the cache, and the loop starts again or ends.\<close>

lemma parent_result_lost:
  assumes "gfm_ready p s" and "length (gfm_incoming p s) < 4"
  shows "\<exists>s'. gfm_tmp_lookup_parent_result mal p path s = Some (Inl GFARM_ERR_UNEXPECTED_EOF, s') \<and> gfm_lost p s s'"
proof -
  from gfm_result_lost [OF assms, of mal False "[]" "[]"] obtain s' where
    s': "gfm_client_compound_begin_result mal p s = Some (Inl GFARM_ERR_UNEXPECTED_EOF, s')" "gfm_lost p s s'"
    unfolding gfm_client_compound_begin_result_def by blast
  with bind_error [where f = "gfm_client_compound_begin_result mal p", OF s'(1)] show ?thesis
    unfolding gfm_tmp_lookup_parent_result_def by auto
qed

lemma eof_connection_error [simp]: "gfm_client_is_connection_error GFARM_ERR_UNEXPECTED_EOF"
  by (simp add: gfm_client_is_connection_error_def)

lemma name_lost:
  assumes url: "gfm_url_server env url s = Some (Inr (p, path), s1)" and ready: "gfm_ready p s1"
    and len: "length path < 2 ^ 31" and re: "root_error_code \<noteq> 0"
    and req: "\<not> path_is_root path \<Longrightarrow> requested p (request_op p (path_base path)) req ()"
    and gone: "length (gfm_incoming p s1) < 4"
  shows "\<exists>s2. gfm_lost p s1 s2
    \<and> gfm_name_op_loop env url root_error_code request_op result_op success_op retry s
      = (if retry = 0
         then call_bind (gfm_name_success_op_connection_free p ())
                (\<lambda>_. gfm_name_op_loop env url root_error_code request_op result_op success_op 1) s2
         else gfm_give_back p (if path_is_root path then root_error_code else GFARM_ERR_UNEXPECTED_EOF) s2)"
proof -
  have "requested p (gfm_name_requests root_error_code request_op p path)
      (begin_wire @ walk_wire path @ (if path_is_root path then [] else req))
      (if path_is_root path then root_error_code else GFARM_ERR_NO_ERROR)"
    by (rule name_requests) (use len req in simp_all)
  from requestedE [OF this ready] obtain s2 where
    2: "gfm_name_requests root_error_code request_op p path s1
        = Some (Inr (if path_is_root path then root_error_code else GFARM_ERR_NO_ERROR), s2)" "gfm_ready p s2"
      "gfm_same p s1 s2" "gfm_incoming p s2 = gfm_incoming p s1" by blast
  from requestedE [OF end_requested 2(2)] obtain s3 where
    3: "gfm_client_compound_end_request p s2 = Some (Inr (), s3)" "gfm_ready p s3" "gfm_same p s2 s3"
      "gfm_incoming p s3 = gfm_incoming p s2" by blast
  have "length (gfm_incoming p s3) < 4" using gone 2(4) 3(4) by simp
  from parent_result_lost [OF 3(2) this, of "lk_mal env" path] obtain s4 where
    4: "gfm_tmp_lookup_parent_result (lk_mal env) p path s3 = Some (Inl GFARM_ERR_UNEXPECTED_EOF, s4)"
      "gfm_lost p s3 s4" by blast
  note unf = name_op_loop_unfold [OF url 2(1) 3(1) 4(1), of result_op success_op retry]
  have "gfm_lost p s1 s4" using gfm_lost_same [OF gfm_same_trans [OF 2(3) 3(3)] 4(2)] .
  then show ?thesis unfolding unf using re by (intro exI [of _ s4]) auto
qed

subsection \<open>Operations on what a path leads to\<close>

text \<open>The last step of the walk, and its answer with the type that it gives.\<close>

definition target_wire :: "string \<Rightarrow> int \<Rightarrow> byte list" where
  "target_wire path flags =
     (if path_is_root path then root_wire flags else open_wire (path_last path) flags)"

definition target_answer :: "string \<Rightarrow> byte list \<Rightarrow> byte \<Rightarrow> bool" where
  "target_answer path bs type \<longleftrightarrow>
     (if path_is_root path then bs = [] \<and> type = GFS_DT_DIR
      else \<exists>inum gen mode. xdr_encode ''lli'' [Arg_int64 inum, Arg_int64 gen, Arg_int mode] = Some bs
             \<and> type = gfs_mode_to_type (word_of_int mode))"

lemma path_last_short: "length path < 2 ^ 31 \<Longrightarrow> length (path_last path) < 2 ^ 31"
proof -
  have "length (path_last path) \<le> length path"
  proof (induction path)
    case (Cons c cs)
    then show ?case by (cases "split_slash cs") (auto simp: path_last_def split: if_splits)
  qed (simp add: path_last_def)
  then show "length path < 2 ^ 31 \<Longrightarrow> length (path_last path) < 2 ^ 31" by simp
qed

lemma target_requested:
  assumes "length path < 2 ^ 31"
  shows "requested p (gfm_tmp_open_request p path flags)
    ((begin_wire @ walk_wire path) @ target_wire path flags) ()"
  unfolding gfm_tmp_open_request_def
proof (rule requested_bind [OF parent_requested [OF assms]])
  have "requested p (gfm_client_open_request p (c_bytes (path_last path)) (of_nat (length (path_last path))) flags)
      (open_wire (path_last path) flags) ()"
    using open_requested [of "length (path_last path)" "path_last path" p flags] path_last_short [OF assms]
    by simp
  then show "requested p (if path_base path = ''/'' then gfm_client_open_root_request p flags
      else gfm_client_open_request p (c_bytes (path_base path)) (of_nat (length (path_base path))) flags)
      (target_wire path flags) ()"
    using path_last_no_slash [of path]
    by (cases "path_is_root path")
      (auto simp: path_base_root path_base_last target_wire_def open_root_requested)
qed

lemma target_answered:
  assumes "malloc_generous mal" and "length path < 2 ^ 31" and "walk_answers path walk"
    and "target_answer path obs type"
  shows "answered p (gfm_tmp_open_result mal p path) (((b, []) # walk) @ [(t, obs)]) type"
  unfolding gfm_tmp_open_result_def
proof (rule answered_bind [OF parent_answered [OF assms(1-3)]], cases "path_is_root path")
  case True
  then show "answered p (if path_base path = ''/''
        then call_bind (gfm_client_open_root_result mal p) (\<lambda>_. call_return GFS_DT_DIR)
        else call_bind (gfm_client_open_result mal p)
               (\<lambda>vals. case vals of [Val_int64 inum, Val_int64 gen, Val_int32 mode] \<Rightarrow>
                  call_return (gfs_mode_to_type mode) | _ \<Rightarrow> call_undefined)) [(t, obs)] type"
    using answered_drop [OF open_root_answered [OF assms(1)], where w = GFS_DT_DIR] assms(4)
    by (simp add: path_base_root target_answer_def)
next
  case False
  with assms(4) obtain inum gen mode where
    o: "xdr_encode ''lli'' [Arg_int64 inum, Arg_int64 gen, Arg_int mode] = Some obs"
      "type = gfs_mode_to_type (word_of_int mode)" by (auto simp: target_answer_def)
  have "answered p (call_bind (gfm_client_open_result mal p)
      (\<lambda>vals. case vals of [Val_int64 inum, Val_int64 gen, Val_int32 mode] \<Rightarrow>
         call_return (gfs_mode_to_type mode) | _ \<Rightarrow> call_undefined)) ([(t, obs)] @ []) type"
    by (rule answered_bind [OF open_answered [OF assms(1) o(1)]]) (simp add: o(2) answered_return)
  with False show "answered p (if path_base path = ''/''
        then call_bind (gfm_client_open_root_result mal p) (\<lambda>_. call_return GFS_DT_DIR)
        else call_bind (gfm_client_open_result mal p)
               (\<lambda>vals. case vals of [Val_int64 inum, Val_int64 gen, Val_int32 mode] \<Rightarrow>
                  call_return (gfs_mode_to_type mode) | _ \<Rightarrow> call_undefined)) [(t, obs)] type"
    by (simp add: path_base_root)
qed

definition inode_wire :: "string \<Rightarrow> int \<Rightarrow> byte list \<Rightarrow> byte list" where
  "inode_wire path flags req = begin_wire @ walk_wire path @ target_wire path flags @ req @ end_wire"

definition inode_replies :: "u32 \<Rightarrow> reply list \<Rightarrow> reply \<Rightarrow> reply list \<Rightarrow> u32 \<Rightarrow> reply list" where
  "inode_replies b walk target rs e = (b, []) # walk @ [target] @ rs @ [(e, [])]"

lemma inode_requests:
  assumes "length path < 2 ^ 31" and "requested p (request_op p) req ()"
  shows "requested p (gfm_inode_requests flags request_op p path) (inode_wire path flags req) ()"
proof -
  have "requested p (gfm_inode_requests flags request_op p path)
      (((begin_wire @ walk_wire path) @ target_wire path flags) @ req @ end_wire) ()"
    unfolding gfm_inode_requests_def
    by (rule requested_bind [OF target_requested [OF assms(1)] requested_bind [OF assms(2) end_requested]])
  then show ?thesis by (simp add: inode_wire_def)
qed


lemma inode_op_loop_unfold:
  assumes "gfm_url_server env url s = Some (Inr (p, path), s1)"
    and "gfm_inode_requests flags request_op p path s1 = Some (Inr (), s2)"
    and "gfm_tmp_open_result (lk_mal env) p path s2 = Some (r, s3)"
  shows "gfm_inode_op_loop env url flags request_op result_op success_op cleanup_op retry s =
    (case r of
       Inl e \<Rightarrow>
         if gfm_client_is_connection_error e \<and> retry + 1 \<le> 1
         then call_bind (gfm_name_success_op_connection_free p ())
                (\<lambda>_. gfm_inode_op_loop env url flags request_op result_op success_op cleanup_op (retry + 1)) s3
         else gfm_give_back p e s3
     | Inr type \<Rightarrow>
         call_bind (call_try (result_op p)) (\<lambda>r. case r of
           Inl e \<Rightarrow> gfm_give_back p e
         | Inr v \<Rightarrow>
             call_bind (call_try (gfm_client_compound_end_result (lk_mal env) p)) (\<lambda>r s. case r of
               Inl e \<Rightarrow> gfm_give_back p e (case cleanup_op of None \<Rightarrow> s | Some cleanup \<Rightarrow> cleanup v s)
             | Inr _ \<Rightarrow> success_op p v type s)) s3)"
  apply (subst gfm_inode_op_loop.simps)
  apply (subst bind_ok [where f = "gfm_url_server env url", OF assms(1)])
  apply (simp only: prod.case)
  apply (subst try_bind [where f = "gfm_inode_requests flags request_op p path", OF assms(2)])
  apply (simp only: sum.case)
  apply (subst try_bind [where f = "gfm_tmp_open_result (lk_mal env) p path", OF assms(3)])
  apply (cases r; simp)
  done

lemma inode_pass:
  assumes url: "gfm_url_server env url s = Some (Inr (p, path), s1)" and ready: "gfm_ready p s1"
    and mal: "malloc_generous (lk_mal env)" and len: "length path < 2 ^ 31"
    and req: "requested p (request_op p) req ()" and res: "answered p (result_op p) rs v"
    and walk: "walk_answers path walk" and target: "target_answer path obs type"
    and inc: "gfm_incoming p s1 = replies (inode_replies b walk (t, obs) rs e) @ later"
    and once: "\<not> walk_retried retry b (walk @ [(t, obs)])"
  shows "\<exists>s2. gfm_inode_op_loop env url flags request_op result_op success_op None retry s
      = gfm_finish p (\<lambda>p v. success_op p v type)
          (outcome_of (status_of (inode_replies b walk (t, obs) rs e)) v) s2
    \<and> exchanged p (inode_wire path flags req) later s1 s2"
proof -
  let ?looks = "((b, []) # walk) @ [(t, obs)]"
  have "requested p (gfm_inode_requests flags request_op p path) (inode_wire path flags req) ()"
    by (rule inode_requests) (use len req in simp_all)
  from requestedE [OF this ready] obtain s2 where
    2: "gfm_inode_requests flags request_op p path s1 = Some (Inr (), s2)" "gfm_ready p s2"
      "gfm_same p s1 s2" "gfm_outgoing p s2 = gfm_outgoing p s1 @ inode_wire path flags req"
      "gfm_incoming p s2 = gfm_incoming p s1" by blast
  have i2: "gfm_incoming p s2 = replies ?looks
      @ (if status_of ?looks = 0 then replies (rs @ [(e, [])]) @ later else later)"
    using inc 2(5) replies_append [of ?looks "rs @ [(e, [])]"] by (simp add: inode_replies_def)
  from answeredE [OF target_answered [OF mal len walk target] 2(2) i2] obtain s3 where
    3: "gfm_tmp_open_result (lk_mal env) p path s2 = Some (outcome_of (status_of ?looks) type, s3)"
      "gfm_ready p s3" "gfm_same p s2 s3" "gfm_outgoing p s3 = gfm_outgoing p s2"
      "fw_out (gfm_world s3) = gfm_outgoing p s2"
      "gfm_incoming p s3 = (if status_of ?looks = 0 then replies (rs @ [(e, [])]) @ later else later)"
    by (metis list.distinct(1) append_is_Nil_conv)
  note unf = inode_op_loop_unfold [OF url 2(1) 3(1), of result_op success_op None retry]
  have st: "status_of (inode_replies b walk (t, obs) rs e) = (if status_of ?looks = 0
      then if status_of rs = 0 then e else status_of rs else status_of ?looks)"
    using status_append [of ?looks "rs @ [(e, [])]"] status_append [of rs "[(e, [])]"]
    by (simp add: inode_replies_def)
  note same3 = gfm_same_trans [OF 2(3) 3(3)]
  show ?thesis
  proof (cases "status_of ?looks = 0")
    case False
    then have "exchanged p (inode_wire path flags req) later s1 s3"
      using 3 2(4) same3 by (simp add: exchanged_def)
    moreover have "gfm_inode_op_loop env url flags request_op result_op success_op None retry s
        = gfm_finish p (\<lambda>p v. success_op p v type)
            (outcome_of (status_of (inode_replies b walk (t, obs) rs e)) v) s3"
      unfolding unf using once False st
      by (auto simp: outcome_of_def walk_retried_def simp del: status_simps)
    ultimately show ?thesis by blast
  next
    case True
    note ok = this
    have i3: "gfm_incoming p s3 = replies rs @ (if status_of rs = 0 then replies [(e, [])] @ later else later)"
      using 3(6) ok replies_append [of rs "[(e, [])]"] by simp
    from answeredE [OF res 3(2) i3] obtain s4 where
      4: "result_op p s3 = Some (outcome_of (status_of rs) v, s4)" "gfm_ready p s4" "gfm_same p s3 s4"
        "gfm_outgoing p s4 = gfm_outgoing p s3"
        "if rs = [] then s4 = s3 else fw_out (gfm_world s4) = gfm_outgoing p s3"
        "gfm_incoming p s4 = (if status_of rs = 0 then replies [(e, [])] @ later else later)" by blast
    have f4: "fw_out (gfm_world s4) = gfm_outgoing p s2" using 4(5) 3(4,5) by (cases "rs = []") simp_all
    note same4 = gfm_same_trans [OF same3 4(3)]
    note run4 = try_bind [where f = "result_op p", OF 4(1)]
    show ?thesis
    proof (cases "status_of rs = 0")
      case False
      have "exchanged p (inode_wire path flags req) later s1 s4"
        using 4 f4 3(4) 2(4) same4 False by (simp add: exchanged_def)
      moreover have "gfm_inode_op_loop env url flags request_op result_op success_op None retry s
          = gfm_finish p (\<lambda>p v. success_op p v type)
              (outcome_of (status_of (inode_replies b walk (t, obs) rs e)) v) s4"
        unfolding unf st using False ok by (simp add: run4 outcome_of_def del: status_simps)
      ultimately show ?thesis by blast
    next
      case True
      have i4: "gfm_incoming p s4 = replies [(e, [])] @ later" using 4(6) True by simp
      from answeredE [OF end_answered [OF mal] 4(2) i4] obtain s5 where
        5: "gfm_client_compound_end_result (lk_mal env) p s4 = Some (outcome_of (status_of [(e, [])]) [], s5)"
          "gfm_ready p s5" "gfm_same p s4 s5" "gfm_outgoing p s5 = gfm_outgoing p s4"
          "fw_out (gfm_world s5) = gfm_outgoing p s4" "gfm_incoming p s5 = later"
        by (metis list.distinct(1))
      note run5 = try_bind [where f = "gfm_client_compound_end_result (lk_mal env) p", OF 5(1)]
      have "exchanged p (inode_wire path flags req) later s1 s5"
        using 5 4(4) 3(4) 2(4) gfm_same_trans [OF same4 5(3)] by (simp add: exchanged_def)
      moreover have "gfm_inode_op_loop env url flags request_op result_op success_op None retry s
          = gfm_finish p (\<lambda>p v. success_op p v type)
              (outcome_of (status_of (inode_replies b walk (t, obs) rs e)) v) s5"
        unfolding unf st using True ok
        by (cases "e = 0") (simp_all add: run4 run5 outcome_of_def)
      ultimately show ?thesis by blast
    qed
  qed
qed

end
