(* ===== verification/Lookup_Exchange.thy ===== *)
theory Lookup_Exchange
  imports Lookup_Spec
begin

text \<open>
  Whole operations on paths: what an operation on a name or on a file sends before it hears anything, what
  it returns for every sequence of answers, what a server that has gone makes of it, and how a URL is taken apart.
\<close>

subsection \<open>A connection to start from\<close>

text \<open>A server that is in the cache already, with a process on it, shared with another user.\<close>

definition sample_net :: gfm_net where
  "sample_net = \<lparr>net_getaddrinfo = \<lambda>_ _ w. (None, w), net_socket = \<lambda>w. (Inl ENFILE, w),
     net_sockopt_apply = \<lambda>_ _ _ w. w, net_bind_source_ip = \<lambda>_ _ w. (GFARM_ERR_NO_ERROR, w),
     net_connect = \<lambda>_ _ w. (None, w), net_close = \<lambda>_ w. w,
     net_auth_request = \<lambda>conn _ _ w. (conn, GFARM_ERR_NO_ERROR, 0, w)\<rparr>"

definition sample_env :: lookup_env where
  "sample_env = \<lparr>lk_mal = \<lambda>_. True, lk_duph = \<lambda>_. True, lk_dupu = \<lambda>_. True, lk_malp = \<lambda>_. None,
     lk_user = [0x75], lk_net = sample_net, lk_malg = \<lambda>_. True, lk_new_xdr = \<lambda>_ _. Inl GFARM_ERR_NO_MEMORY,
     lk_fresh_key = [], lk_pause = \<lambda>_ w. w, lk_key = [],
     gfarm_metadb_server_name = ''h'', gfarm_metadb_server_port = 601\<rparr>"

lemma shared_entry:
  fixes d :: "'c"
  assumes m: "m = None \<or> m = Some 6"
  shows "\<exists>(c :: 'c conn_cache) c1 xs.
     gfp_cached_connection_acquire (\<lambda>_. True) True True m [0x75] c [0x68] 601 = Some (c1, Inr (5, False))
   \<and> cache_inv c1 xs \<and> in_use c1 5 \<and> refs (lru_list c1) 5 = 2 \<and> allocated c1 = {5} \<and> gfp_cached_connection_get_data c1 5 = Some d"
proof -
  define c0 :: "'c conn_cache" where
    "c0 = GFP_CONN_CACHE_INITIALIZER (\<lambda>_. \<lparr>le_next = None, le_prev = None, le_acquired = 0\<rparr>)
       (\<lambda>_. \<lparr>cc_hash_entry = None, cc_data = None\<rparr>) 31 8"
  let ?key = "\<lparr>id_hostname = [0x68], id_port = 601, id_username = [0x75]\<rparr> :: gfp_conn_hash_id"
  let ?acq = "gfp_cached_connection_acquire (\<lambda>_. True) True True"
  have inv: "cache_inv c0 []" unfolding c0_def by (rule init_inv) simp_all
  have none: "conn_find (hashtab c0) ?key = None" "allocated c0 = {}"
    by (simp_all add: c0_def GFP_CONN_CACHE_INITIALIZER_def)
  have "\<And>p. Some (5 :: nat) = Some p \<Longrightarrow> p \<noteq> list_head \<and> p \<notin> allocated c0" using none by simp
  from acquire_spec [OF inv, of 601 "Some 5" "\<lambda>_. True" True True "[0x75]" "[0x68]", OF _ _ this] none
  obtain c2 where
    a: "?acq (Some 5) [0x75] c0 [0x68] 601 = Some (c2, Inr (5, True))"
    and 1: "cache_inv c2 [5]" "allocated c2 = {5}" "refs (lru_list c2) 5 = 1"
      "\<exists>k. cc_hash_entry (cconns c2 5) = Some k \<and> gfp_conn_hash_equal k ?key"
    by (fastforce split: bool.splits sum.splits)
  let ?c = "gfp_cached_connection_set_data c2 5 (Some d)"
  have inv1: "cache_inv ?c [5]" using set_data_inv [OF 1(1)] by simp
  have al: "allocated ?c = {5}" "refs (lru_list ?c) 5 = 1" "cc_data (cconns ?c 5) = Some d"
    using 1(2,3) by (simp_all add: gfp_cached_connection_set_data_def)
  note d1 = cache_invD [OF inv1]
  have found: "conn_find (hashtab ?c) ?key = Some 5"
    using matches_iff [OF d1(2), of ?key 5] d1(6) d1(9) [of 5] 1(4) al(1)
    by (auto simp: gfp_cached_connection_set_data_def)
  have "\<And>p. m = Some p \<Longrightarrow> p \<noteq> list_head \<and> p \<notin> allocated ?c" using m al(1) by auto
  from acquire_spec [OF inv1, of 601 m "\<lambda>_. True" True True "[0x75]" "[0x68]", OF _ _ this] found
  obtain c1 where
    "?acq m [0x75] ?c [0x68] 601 = Some (c1, Inr (5, False))"
    "cache_inv c1 [5]" "allocated c1 = allocated ?c" "cconns c1 = cconns ?c"
    "refs (lru_list c1) = (refs (lru_list ?c))(5 := refs (lru_list ?c) 5 + 1)"
    by (fastforce split: bool.splits sum.splits)
  with al show ?thesis
    by (intro exI [of _ ?c] exI [of _ c1] exI [of _ "[5]"])
      (simp add: in_use_refs gfp_cached_connection_get_data_def)
qed

lemma sample_server_env:
  assumes env: "env = sample_env\<lparr>lk_malp := \<lambda>_. m, lk_net := net, lk_new_xdr := new_xdr, lk_key := key\<rparr>"
    and m: "m = None \<or> m = Some 6"
  shows "\<exists>s s1. (\<forall>path. take 6 path \<noteq> ''gfarm:'' \<longrightarrow> gfm_url_server env path s = Some (Inr (5, path), s1))
     \<and> gfm_ready 5 s1 \<and> gfm_incoming 5 s1 = bs \<and> gfm_outgoing 5 s1 = []
     \<and> refs (lru_list (gfm_server_cache s1)) 5 = 2
     \<and> allocated (gfm_server_cache s1) = {5}"
proof -
  let ?g = "\<lparr>gfm_conn = sample_conn, gfm_auth_method = 0, gfm_pid = 1, gfm_pid_key = []\<rparr> :: fd_world gfm_connection"
  obtain c c1 :: "fd_world gfm_connection conn_cache" and xs where
    c: "gfp_cached_connection_acquire (\<lambda>_. True) True True m [0x75] c [0x68] 601 = Some (c1, Inr (5, False))"
      "cache_inv c1 xs" "in_use c1 5" "refs (lru_list c1) 5 = 2" "allocated c1 = {5}"
      "gfp_cached_connection_get_data c1 5 = Some ?g"
    using shared_entry [OF m, of ?g] by blast
  let ?s = "\<lparr>gfm_server_cache = c, gfm_world = peer_world bs\<rparr>"
  let ?s1 = "\<lparr>gfm_server_cache = c1, gfm_world = peer_world bs\<rparr>"
  have at: "gfm_server_at ?s1 5 = Some ?g" using c(6) by (simp add: gfm_server_at_def)
  have acq: "lookup_acquire env ''h'' 601 ?s = Some (Inr 5, ?s1)"
    using c(1) at by (simp add: lookup_acquire_def gfm_client_connection_and_process_acquire_def
        gfm_client_connection_acquire_def sample_env_def env call_bind_def call_return_def)
  have "gfm_url_server env path ?s = Some (Inr (5, path), ?s1)" if "take 6 path \<noteq> ''gfarm:''" for path
    using acq that
    by (simp add: gfm_url_server_def gfarm_url_parse_metadb_def call_bind_def call_return_def sample_env_def env)
  moreover note x = new_socket_ready [OF sample_conn_new peer_world_calm, of bs]
  have "gfm_ready 5 ?s1" using c(2,3) at x by (auto simp: gfm_ready_def)
  moreover have "gfm_incoming 5 ?s1 = bs" "gfm_outgoing 5 ?s1 = []"
    using at x by (simp_all add: gfm_incoming_def gfm_outgoing_def peer_world_def)
  ultimately show ?thesis using c(4,5) by (intro exI [of _ ?s] exI [of _ ?s1]) simp
qed

lemma sample_server:
  "\<exists>s s1. (\<forall>path. take 6 path \<noteq> ''gfarm:'' \<longrightarrow> gfm_url_server sample_env path s = Some (Inr (5, path), s1))
     \<and> gfm_ready 5 s1 \<and> gfm_incoming 5 s1 = bs \<and> gfm_outgoing 5 s1 = []
     \<and> refs (lru_list (gfm_server_cache s1)) 5 = 2"
proof -
  have "sample_env = sample_env\<lparr>lk_malp := \<lambda>_. None, lk_net := sample_net,
      lk_new_xdr := \<lambda>_ _. Inl GFARM_ERR_NO_MEMORY, lk_key := []\<rparr>"
    by (simp add: sample_env_def)
  from sample_server_env [OF this] show ?thesis by blast
qed

text \<open>Giving back a connection that others use touches only the count.\<close>

lemma shared_free_cache:
  assumes inv: "cache_inv (gfm_server_cache s) xs" and p: "in_use (gfm_server_cache s) p"
    and "1 < refs (lru_list (gfm_server_cache s)) p"
  shows "\<exists>s'. gfm_client_connection_free p s = Some s' \<and> gfm_world s' = gfm_world s
     \<and> cache_inv (gfm_server_cache s') xs \<and> allocated (gfm_server_cache s') = allocated (gfm_server_cache s)
     \<and> cconns (gfm_server_cache s') = cconns (gfm_server_cache s)"
proof -
  have pa: "p \<in> allocated (gfm_server_cache s)" "0 < refs (lru_list (gfm_server_cache s)) p"
    using p by (simp_all add: in_use_refs)
  from conn_free_spec [OF inv pa, of gfm_client_connection_dispose "Some (gfm_world s)"] assms(3)
  obtain c where "gfp_cached_or_uncached_connection_free gfm_client_connection_dispose (gfm_server_cache s) p
      (Some (gfm_world s)) = Some (c, Some (gfm_world s))"
    "cache_inv c xs" "allocated c = allocated (gfm_server_cache s)" "cconns c = cconns (gfm_server_cache s)"
    by (auto simp: dispose_all_def split: if_splits)
  then show ?thesis by (simp add: gfm_client_connection_free_def gfm_disposing_def)
qed

lemma shared_free:
  assumes "gfm_ready p s" and "1 < refs (lru_list (gfm_server_cache s)) p"
  shows "\<exists>s'. gfm_client_connection_free p s = Some s' \<and> gfm_world s' = gfm_world s"
proof -
  obtain xs where "cache_inv (gfm_server_cache s) xs" "in_use (gfm_server_cache s) p"
    using assms(1) by (auto simp: gfm_ready_def)
  from shared_free_cache [OF this assms(2)] show ?thesis by blast
qed

lemma same_refs: "gfm_same p s s' \<Longrightarrow> refs (lru_list (gfm_server_cache s')) = refs (lru_list (gfm_server_cache s))"
  by (simp add: gfm_same_def Let_def)

subsection \<open>Names\<close>

text \<open>How an operation ends that gives its connection back.\<close>

definition given_back :: "nat \<Rightarrow> gfarm_error_t + 'a \<Rightarrow> ('w, 'a) gfm_call" where
  "given_back p r s = map_option (Pair r) (gfm_client_connection_free p s)"

lemma finish_name: "gfm_finish p gfm_name_success_op_connection_free r s = given_back p r s"
  by (cases r)
    (simp_all add: gfm_finish_def gfm_give_back_def gfm_name_success_op_connection_free_def given_back_def)

text \<open>C36: an operation on the name at the end of a path. Whatever directories the path names, the
  requests go out in one compound, in order and in front of any reply: the beginning, the root and each
  directory on the way, the operation with the last name, the end; for the root itself the operation is left out.
  The first error number among the replies is the result, and what the server has sent after it stays unread;
  the root gives the error of the operation for the root. In every case the connection is given back.\<close>

theorem name_op_exchange:
  assumes "gfm_url_server env url s = Some (Inr (p, path), s1)" and "gfm_ready p s1"
    and "malloc_generous (lk_mal env)" and "length path < 2 ^ 31" and "root_error_code \<noteq> 0"
    and "gfm_protocol (\<lambda>p. request_op p (path_base path)) command fmt args"
    and "xdr_encode rfmt rargs = Some bs" and "xdr_decoded rfmt rargs szs = Some vals"
    and "walk_answers path walk" and "\<not> walk_retried 0 b walk"
    and "gfm_incoming p s1 = replies (name_replies path b walk [(x, bs)] e) @ later"
  shows "\<exists>s2. gfm_name_op env url root_error_code request_op
        (\<lambda>p. gfm_client_rpc_result (lk_mal env) p just (map recv_char rfmt) szs)
        gfm_name_success_op_connection_free s
      = given_back p (name_outcome root_error_code path (name_replies path b walk [(x, bs)] e) vals) s2
    \<and> exchanged p (name_wire path (gfm_wire command fmt args)) later s1 s2"
  unfolding gfm_name_op_def finish_name [symmetric]
  by (rule name_pass) (use assms requested_message [OF assms(6)] answered_result [OF assms(3,7,8)] in simp_all)

text \<open>C37: an operation on the file that a path leads to. The compound opens the root, each directory on
  the way and the file itself, asks for the operation and ends, all in front of any reply; the first error number
  is the result and what follows it stays unread; otherwise the values and the type
  of the file are handed on.\<close>

theorem inode_op_exchange:
  assumes "gfm_url_server env url s = Some (Inr (p, path), s1)" and "gfm_ready p s1"
    and "malloc_generous (lk_mal env)" and "length path < 2 ^ 31"
    and "gfm_protocol request_op command fmt args"
    and "xdr_encode rfmt rargs = Some bs" and "xdr_decoded rfmt rargs szs = Some vals"
    and "walk_answers path walk" and "target_answer path obs type" and "\<not> walk_retried 0 b (walk @ [(t, obs)])"
    and "gfm_incoming p s1 = replies (inode_replies b walk (t, obs) [(x, bs)] e) @ later"
  shows "\<exists>s2. gfm_inode_op env url flags request_op
        (\<lambda>p. gfm_client_rpc_result (lk_mal env) p just (map recv_char rfmt) szs) success_op None s
      = gfm_finish p (\<lambda>p v. success_op p v type)
          (outcome_of (status_of (inode_replies b walk (t, obs) [(x, bs)] e)) vals) s2
    \<and> exchanged p (inode_wire path flags (gfm_wire command fmt args)) later s1 s2"
  unfolding gfm_inode_op_def
  by (rule inode_pass) (use assms requested_message [OF assms(5)] answered_result [OF assms(3,6,7)] in simp_all)


text \<open>C38: an operation on a name over a connection whose server has gone. The connection leaves the cache,
  is given back, and the operation is tried once more on the connection that the cache then has for the path: if
  its server answers, the operation ends as it would have ended at once, and if that server has gone as well, the
  end of the stream is the error; there is no third attempt.\<close>

theorem name_op_gone:
  fixes just :: bool
  assumes "gfm_url_server env url s = Some (Inr (p, path), s1)" and "gfm_ready p s1"
    and "length (gfm_incoming p s1) < 4"
    and "malloc_generous (lk_mal env)" and "length path < 2 ^ 31" and "root_error_code \<noteq> 0"
    and protocol: "gfm_protocol (\<lambda>p. request_op p (path_base path)) command fmt args"
    and "xdr_encode rfmt rargs = Some bs" and "xdr_decoded rfmt rargs szs = Some vals"
  defines "name_op \<equiv> gfm_name_op env url root_error_code request_op
        (\<lambda>p. gfm_client_rpc_result (lk_mal env) p just (map recv_char rfmt) szs)
        gfm_name_success_op_connection_free"
  shows "\<exists>s2. gfm_lost p s1 s2 \<and> (gfm_client_connection_free p s2 = None \<longrightarrow> name_op s = None)
    \<and> (\<forall>s3 q s4. gfm_client_connection_free p s2 = Some s3 \<and> gfm_ready q s4
          \<and> gfm_url_server env url s3 = Some (Inr (q, path), s4) \<longrightarrow>
        (\<forall>b walk x e later. walk_answers path walk
              \<and> gfm_incoming q s4 = replies (name_replies path b walk [(x, bs)] e) @ later \<longrightarrow>
           (\<exists>s5. name_op s = given_back q (name_outcome root_error_code path
                    (name_replies path b walk [(x, bs)] e) vals) s5
               \<and> exchanged q (name_wire path (gfm_wire command fmt args)) later s4 s5))
      \<and> (length (gfm_incoming q s4) < 4 \<longrightarrow>
           (\<exists>s5. gfm_lost q s4 s5 \<and> name_op s = given_back q
                (Inl (if path_is_root path then root_error_code else GFARM_ERR_UNEXPECTED_EOF)) s5)))"
proof -
  let ?res = "\<lambda>p. gfm_client_rpc_result (lk_mal env) p just (map recv_char rfmt) szs"
  let ?loop = "gfm_name_op_loop env url root_error_code request_op ?res gfm_name_success_op_connection_free"
  have req: "requested q (request_op q (path_base path)) (gfm_wire command fmt args) ()" for q
    by (rule requested_message [OF protocol])
  have lost: "\<exists>s2. gfm_lost q s4 s2 \<and> ?loop retry t
      = (if retry = 0
         then call_bind (gfm_name_success_op_connection_free q ()) (\<lambda>_. ?loop 1) s2
         else gfm_give_back q (if path_is_root path then root_error_code else GFARM_ERR_UNEXPECTED_EOF) s2)"
    if "gfm_url_server env url t = Some (Inr (q, path), s4)" "gfm_ready q s4" "length (gfm_incoming q s4) < 4"
    for q s4 t retry
    by (rule name_lost [OF that(1,2) assms(5,6) _ that(3)]) (rule req)
  have op: "name_op s = ?loop 0 s" by (simp add: name_op_def gfm_name_op_def)
  from lost [OF assms(1-3), of 0] obtain s2 where
    2: "gfm_lost p s1 s2"
      "name_op s = call_bind (gfm_name_success_op_connection_free p ()) (\<lambda>_. ?loop 1) s2"
    unfolding op by auto
  have none: "name_op s = None" if "gfm_client_connection_free p s2 = None"
    using 2(2) that by (simp add: call_bind_def gfm_name_success_op_connection_free_def)
  have again: "name_op s = ?loop 1 s3" if "gfm_client_connection_free p s2 = Some s3" for s3
    using 2(2) that by (simp add: call_bind_def gfm_name_success_op_connection_free_def)
  have second: "\<exists>s5. name_op s = given_back q (name_outcome root_error_code path
                    (name_replies path b walk [(x, bs)] e) vals) s5
               \<and> exchanged q (name_wire path (gfm_wire command fmt args)) later s4 s5"
    if "gfm_client_connection_free p s2 = Some s3" "gfm_ready q s4"
      "gfm_url_server env url s3 = Some (Inr (q, path), s4)" "walk_answers path walk"
      "gfm_incoming q s4 = replies (name_replies path b walk [(x, bs)] e) @ later" for s3 q s4 b walk x e later
    unfolding again [OF that(1)] finish_name [symmetric]
    by (rule name_pass)
      (use that assms(4-6) req answered_result [OF assms(4,8,9)] in \<open>simp_all add: walk_retried_def\<close>)
  have third: "\<exists>s5. gfm_lost q s4 s5 \<and> name_op s = given_back q
                (Inl (if path_is_root path then root_error_code else GFARM_ERR_UNEXPECTED_EOF)) s5"
    if "gfm_client_connection_free p s2 = Some s3" "gfm_ready q s4"
      "gfm_url_server env url s3 = Some (Inr (q, path), s4)" "length (gfm_incoming q s4) < 4" for s3 q s4
    using lost [OF that(3,2,4), of 1] unfolding again [OF that(1)]
    by (simp add: given_back_def gfm_give_back_def)
  show ?thesis
    by (rule exI [of _ s2], intro conjI allI impI) (use 2(1) none second third in blast)+
qed

subsection \<open>URLs\<close>

text \<open>C39: the server of a URL. Printed as \<open>gfarm://host:port/path\<close>, a host of letters, digits, dashes
  and dots, a port from 1 to 65535 and a path are read back: the connection is the one for that host and port,
  and the walk begins with that path. When the copy of the host name finds no memory, the
  code writes to a null pointer.\<close>

theorem url_server_read:
  fixes env :: lookup_env
  assumes "host \<noteq> []" and "\<forall>c \<in> set host. url_host_char c" and "0 < n" and "n < 65536"
    and "path = [] \<or> hd path = CHR ''/''"
  defines "url \<equiv> ''gfarm://'' @ host @ '':'' @ dec (int n) @ path"
    and "room \<equiv> gfarm_malloc_array (lk_mal env) (of_nat (length host + 1)) 1"
  shows "gfm_url_server env url =
    (if room = None then call_undefined
     else call_bind (lookup_acquire env host (int n)) (\<lambda>p. call_return (p, path)))"
proof -
  let ?rest = "dec_digits n @ path"
  have url: "url = ''gfarm://'' @ host @ '':'' @ ?rest" by (simp add: url_def dec_def)
  have colon: "\<not> url_host_char (CHR '':'')"
    by (simp add: url_host_char_def isalnum_def isdigit_def isupper_def islower_def code_def)
  have host: "takeWhile url_host_char (host @ CHR '':'' # ?rest) = host"
    "dropWhile url_host_char (host @ CHR '':'' # ?rest) = CHR '':'' # ?rest"
    using assms(2) colon by (simp_all add: takeWhile_append2 dropWhile_append2)
  have slash: "\<not> isdigit (CHR ''/'')" by (simp add: isdigit_def code_def)
  have num: "strtoul ?rest = Some (int n, path)"
    by (rule strtoul_dec_digits) (use assms(4,5) slash in auto)
  have parse: "gfarm_url_parse_metadb env True url =
      (if room = None then call_undefined
       else call_bind (lookup_acquire env host (int n)) (\<lambda>p. call_return (Some p, path)))"
    unfolding gfarm_url_parse_metadb_def Let_def url room_def
    using assms(1,3-5) by (auto simp: host num)
  show ?thesis
    unfolding gfm_url_server_def parse
    by (rule ext)
      (auto simp: call_bind_def call_undefined_def call_return_def split: option.splits sum.splits)
qed

subsection \<open>A slash at the end\<close>

lemma split_slash_snoc: "split_slash (path @ ''/'') = split_slash path @ [[]]"
proof (induction path)
  case (Cons c cs)
  then show ?case by (cases "split_slash cs") auto
qed simp

text \<open>C40: a slash at the end of a path makes its last name a directory on the way: the walk opens it,
  and the name that is left for the operation is the empty string, which goes to the server in its place.\<close>

theorem lookup_trailing_slash:
  assumes "gfm_ready p s" and "length path < 2 ^ 31 - 1" and "path_last path \<noteq> []" and "path_last path \<noteq> ''.''"
  shows "\<exists>s'. gfm_lookup_dir_request p (path @ ''/'') s = Some (Inr [], s')
    \<and> gfm_outgoing p s' = gfm_outgoing p s @ root_wire GFARM_FILE_LOOKUP
        @ opens_wire (path_dirs path @ [path_last path])"
proof -
  have all: "split_slash path = butlast (split_slash path) @ [path_last path]" by (simp add: path_last_def)
  have "filter (\<lambda>d. d \<noteq> [] \<and> d \<noteq> ''.'') (split_slash path) = path_dirs path @ [path_last path]"
    by (subst all) (simp add: path_dirs_def assms(3,4))
  then have "path_dirs (path @ ''/'') = path_dirs path @ [path_last path]"
    unfolding path_dirs_def [of "path @ ''/''"] split_slash_snoc butlast_snoc .
  moreover have "path_last (path @ ''/'') = []" by (simp add: path_last_def split_slash_snoc)
  ultimately have b: "path_base (path @ ''/'') = []"
    "walk_wire (path @ ''/'') = root_wire GFARM_FILE_LOOKUP @ opens_wire (path_dirs path @ [path_last path])"
    by (simp_all add: path_base_def path_is_root_def walk_wire_def)
  have "length (path @ ''/'') < 2 ^ 31" using assms(2) by simp
  from requestedE [OF walk_requested [OF this] assms(1)] b show ?thesis by metis
qed


subsection \<open>Witnesses\<close>

lemma sample_opened: "\<exists>bs. xdr_encode ''lli'' [Arg_int64 2, Arg_int64 1, Arg_int 16877] = Some bs"
  by (simp add: xdr_chunks.simps)

lemma sample_paths [simp]:
  "path_is_root ''/a/b'' = False" "path_dirs ''/a/b'' = [''a'']" "path_last ''/a/b'' = ''b''"
  "path_is_root ''/a'' = False" "path_dirs ''/a'' = []" "path_last ''/a'' = ''a''"
  by (simp_all add: path_is_root_def path_dirs_def path_last_def)

lemma sample_mal [simp]: "lk_mal sample_env = (\<lambda>_. True)"
  by (simp add: sample_env_def)

lemma no_connection_error [simp]: "gfm_client_is_connection_error 0 = False"
  by (simp add: gfm_client_is_connection_error_def IS_CONNECTION_ERROR_def)

lemma mkdir_protocol:
  "c_string (c_bytes name) \<Longrightarrow>
     gfm_protocol (\<lambda>p. gfm_mkdir_request mode p name) GFM_PROTO_MKDIR ''si'' [Arg_ptr (c_bytes name), Arg_int mode]"
  unfolding gfm_mkdir_request_def by (rule gfm_protocol.intros)

lemma mkdir_is_name_op:
  "gfs_mkdir env path mode = gfm_name_op env path GFARM_ERR_ALREADY_EXISTS (gfm_mkdir_request mode)
     (\<lambda>p. gfm_client_rpc_result (lk_mal env) p False (map recv_char []) []) gfm_name_success_op_connection_free"
  by (simp add: gfs_mkdir_def gfm_mkdir_result_def [abs_def] gfm_client_mkdir_result_def)

lemma sample_string: "c_string (c_bytes ''b'')"
  by (simp add: c_string_def c_bytes_def)

theorem name_op_exchange_witness:
  "\<exists>s s'. gfs_mkdir sample_env ''/a/b'' 7 s = Some (Inl GFARM_ERR_ALREADY_EXISTS, s')
     \<and> fw_out (gfm_world s') = begin_wire @ root_wire GFARM_FILE_LOOKUP @ open_wire ''a'' GFARM_FILE_LOOKUP
         @ gfm_wire GFM_PROTO_MKDIR ''si'' [Arg_ptr (c_bytes ''b''), Arg_int 7] @ end_wire"
proof -
  obtain obs where obs: "xdr_encode ''lli'' [Arg_int64 2, Arg_int64 1, Arg_int 16877] = Some obs"
    using sample_opened by blast
  let ?walk = "[(0, []), (0, obs)] :: reply list"
  let ?rs = "name_replies ''/a/b'' 0 ?walk [(17, [])] 0"
  obtain s s1 where
    url: "\<forall>path. take 6 path \<noteq> ''gfarm:'' \<longrightarrow> gfm_url_server sample_env path s = Some (Inr (5, path), s1)"
    and s1: "gfm_ready 5 s1" "gfm_incoming 5 s1 = replies ?rs @ [9]" "gfm_outgoing 5 s1 = []"
      "refs (lru_list (gfm_server_cache s1)) 5 = 2"
    using sample_server by blast
  have u: "gfm_url_server sample_env ''/a/b'' s = Some (Inr (5, ''/a/b''), s1)" using url by simp
  have walk: "walk_answers ''/a/b'' ?walk" "\<not> walk_retried 0 0 ?walk"
    using obs by (auto simp: walk_answers_def open_answer_def walk_retried_def)
  have pr: "gfm_protocol (\<lambda>p. gfm_mkdir_request 7 p (path_base ''/a/b'')) GFM_PROTO_MKDIR ''si''
      [Arg_ptr (c_bytes ''b''), Arg_int 7]"
    using mkdir_protocol [OF sample_string] by (simp add: path_base_def)
  from name_op_exchange [where request_op = "gfm_mkdir_request 7" and root_error_code = GFARM_ERR_ALREADY_EXISTS
      and rfmt = "[]" and rargs = "[]" and bs = "[]" and szs = "[]" and vals = "[]" and just = False
      and walk = ?walk and b = 0 and x = 17 and e = 0 and later = "[9]", OF u s1(1) _ _ _ pr] walk s1(2)
  obtain s2 where
    2: "gfs_mkdir sample_env ''/a/b'' 7 s
        = given_back 5 (name_outcome GFARM_ERR_ALREADY_EXISTS ''/a/b'' ?rs []) s2"
      "exchanged 5 (name_wire ''/a/b'' (gfm_wire GFM_PROTO_MKDIR ''si'' [Arg_ptr (c_bytes ''b''), Arg_int 7])) [9] s1 s2"
    unfolding mkdir_is_name_op by auto
  have "name_outcome GFARM_ERR_ALREADY_EXISTS ''/a/b'' ?rs ([] :: xdr_val list) = Inl GFARM_ERR_ALREADY_EXISTS"
    by (simp add: name_outcome_def name_replies_def outcome_of_def)
  moreover from shared_free [of 5 s2] 2(2) s1(4) same_refs [of 5 s1 s2] obtain s' where
    "gfm_client_connection_free 5 s2 = Some s'" "gfm_world s' = gfm_world s2" by (auto simp: exchanged_def)
  ultimately show ?thesis using 2 s1(3)
    by (intro exI [of _ s] exI [of _ s'])
      (simp add: given_back_def exchanged_def name_wire_def walk_wire_def opens_wire_def)
qed

theorem inode_op_exchange_witness:
  "\<exists>s s'. gfs_chmod sample_env ''/a'' 7 s = Some (Inr [], s')
     \<and> fw_out (gfm_world s') = begin_wire @ root_wire GFARM_FILE_LOOKUP @ open_wire ''a'' GFARM_FILE_LOOKUP
         @ gfm_wire GFM_PROTO_FCHMOD ''i'' [Arg_int 7] @ end_wire"
proof -
  obtain obs where obs: "xdr_encode ''lli'' [Arg_int64 2, Arg_int64 1, Arg_int 16877] = Some obs"
    using sample_opened by blast
  let ?walk = "[(0, [])] :: reply list" and ?type = "gfs_mode_to_type (word_of_int 16877)"
  let ?rs = "inode_replies 0 ?walk (0, obs) [(0, [])] 0"
  obtain s s1 where
    url: "\<forall>path. take 6 path \<noteq> ''gfarm:'' \<longrightarrow> gfm_url_server sample_env path s = Some (Inr (5, path), s1)"
    and s1: "gfm_ready 5 s1" "gfm_incoming 5 s1 = replies ?rs @ [9]" "gfm_outgoing 5 s1 = []"
      "refs (lru_list (gfm_server_cache s1)) 5 = 2"
    using sample_server by blast
  have u: "gfm_url_server sample_env ''/a'' s = Some (Inr (5, ''/a''), s1)" using url by simp
  have "target_answer ''/a'' obs ?type"
    unfolding target_answer_def sample_paths if_False using obs by blast
  then have walk: "walk_answers ''/a'' ?walk" "\<not> walk_retried 0 0 (?walk @ [(0, obs)])"
    "target_answer ''/a'' obs ?type"
    by (auto simp: walk_answers_def walk_retried_def)
  have pr: "gfm_protocol (gfm_chmod_request 7) GFM_PROTO_FCHMOD ''i'' [Arg_int 7]"
    unfolding gfm_chmod_request_def by (rule gfm_protocol.intros)
  have op: "gfs_chmod sample_env ''/a'' 7 = gfm_inode_op sample_env ''/a'' GFARM_FILE_LOOKUP (gfm_chmod_request 7)
      (\<lambda>p. gfm_client_rpc_result (lk_mal sample_env) p False (map recv_char []) [])
      gfm_inode_success_op_connection_free None"
    by (simp add: gfs_chmod_def gfm_chmod_result_def [abs_def] gfm_client_fchmod_result_def)
  from inode_op_exchange [where request_op = "gfm_chmod_request 7" and flags = GFARM_FILE_LOOKUP
      and success_op = gfm_inode_success_op_connection_free
      and rfmt = "[]" and rargs = "[]" and bs = "[]" and szs = "[]" and vals = "[]" and just = False
      and x = 0 and e = 0 and later = "[9]", OF u s1(1) _ _ pr _ _ walk(1,3,2)] s1(2)
  obtain s2 where
    2: "gfs_chmod sample_env ''/a'' 7 s
        = gfm_finish 5 (\<lambda>p v. gfm_inode_success_op_connection_free p v ?type) (outcome_of (status_of ?rs) []) s2"
      "exchanged 5 (inode_wire ''/a'' GFARM_FILE_LOOKUP (gfm_wire GFM_PROTO_FCHMOD ''i'' [Arg_int 7])) [9] s1 s2"
    unfolding op by auto
  have "outcome_of (status_of ?rs) ([] :: xdr_val list) = Inr []"
    by (simp add: inode_replies_def outcome_of_def)
  moreover from shared_free [of 5 s2] 2(2) s1(4) same_refs [of 5 s1 s2] obtain s' where
    "gfm_client_connection_free 5 s2 = Some s'" "gfm_world s' = gfm_world s2" by (auto simp: exchanged_def)
  ultimately show ?thesis using 2 s1(3)
    by (intro exI [of _ s] exI [of _ s'])
      (simp add: gfm_inode_success_op_connection_free_def gfm_name_success_op_connection_free_def
        exchanged_def inode_wire_def walk_wire_def opens_wire_def target_wire_def)
qed

text \<open>
  An environment in which a new connection can be made: what the new server sends is \<open>bs\<close>, and the entry for
  it is at address 6.
\<close>

definition reconnect_env :: "byte list \<Rightarrow> lookup_env" where
  "reconnect_env bs = sample_env\<lparr>lk_malp := \<lambda>_. Some 6,
     lk_net := sample_net\<lparr>net_getaddrinfo := \<lambda>_ _ w. (Some ([], []), w), net_socket := \<lambda>w. (Inr 3, w),
       net_connect := \<lambda>_ _ _. (None, peer_world bs)\<rparr>,
     lk_new_xdr := \<lambda>_ _. Inr sample_conn, lk_key := replicate 32 0\<rparr>"

lemma fresh_entry:
  fixes c :: "'c conn_cache"
  assumes inv: "cache_inv c xs" and c: "allocated c = {5}" "cc_hash_entry (cconns c 5) = None"
  shows "\<exists>c1. gfp_cached_connection_acquire (\<lambda>_. True) True True (Some 6) [0x75] c [0x68] 601
       = Some (c1, Inr (6, True)) \<and> cache_inv c1 (6 # xs) \<and> in_use c1 6"
proof -
  let ?key = "\<lparr>id_hostname = [0x68], id_port = 601, id_username = [0x75]\<rparr> :: gfp_conn_hash_id"
  note d = cache_invD [OF inv]
  have "set xs \<subseteq> {5}" using d(6) c(1) by simp
  moreover have "5 \<notin> set xs" using matches_table [OF d(2), of 5] c(2) by auto
  ultimately have "xs = []" by (cases xs) auto
  then have none: "conn_find (hashtab c) ?key = None"
    using matches_iff [OF d(2), of ?key] by (cases "conn_find (hashtab c) ?key") auto
  have "\<And>p. Some (6 :: nat) = Some p \<Longrightarrow> p \<noteq> list_head \<and> p \<notin> allocated c" using c by simp
  from acquire_spec [OF inv, of 601 "Some 6" "\<lambda>_. True" True True "[0x75]" "[0x68]", OF _ _ this] none
  show ?thesis by (fastforce simp: in_use_refs split: bool.splits sum.splits)
qed

text \<open>Storing what is not about the buffers leaves a connection ready.\<close>

lemma store_ready:
  assumes "gfm_ready p s" and "gfm_server_at s p = Some g" and "gfm_conn g' = gfm_conn g"
  shows "gfm_ready p (gfm_store p g' s)" and "gfm_incoming p (gfm_store p g' s) = gfm_incoming p s"
proof -
  let ?s = "gfm_store p g' s"
  obtain xs where inv: "cache_inv (gfm_server_cache s) xs" and u: "in_use (gfm_server_cache s) p"
    using assms(1) by (auto simp: gfm_ready_def)
  have at: "gfm_server_at ?s p = Some g'" "gfm_world ?s = gfm_world s"
    by (simp_all add: gfm_store_def gfm_server_at_def gfp_cached_connection_get_data_def
        gfp_cached_connection_set_data_def)
  have "cache_inv (gfm_server_cache ?s) xs" "in_use (gfm_server_cache ?s) p"
    using set_data_inv [OF inv, of p "Some g'"] u
    by (simp_all add: gfm_store_def in_use_def gfp_cached_connection_set_data_def)
  then show "gfm_ready p ?s" using at assms by (auto simp: gfm_ready_def)
  show "gfm_incoming p ?s = gfm_incoming p s" using at assms by (simp add: gfm_incoming_def)
qed

lemma reconnected:
  assumes inv: "cache_inv (gfm_server_cache s) xs" and al: "allocated (gfm_server_cache s) = {5}"
    and gone: "\<not> gfm_client_is_connection_valid s 5" and path: "take 6 path \<noteq> ''gfarm:''"
    and pbs: "xdr_encode ''l'' [Arg_int64 3] = Some pbs"
  shows "\<exists>s'. gfm_url_server (reconnect_env (reply_bytes 0 pbs @ bs)) path s = Some (Inr (6, path), s')
     \<and> gfm_ready 6 s' \<and> gfm_incoming 6 s' = bs"
proof -
  let ?in = "reply_bytes 0 pbs @ bs" and ?key = "replicate 32 0 :: byte list"
  let ?env = "reconnect_env ?in"
  let ?g = "\<lparr>gfm_conn = sample_conn, gfm_auth_method = 0, gfm_pid = 0, gfm_pid_key = []\<rparr> :: fd_world gfm_connection"
  from fresh_entry [OF inv al] gone obtain c1 where
    c1: "gfp_cached_connection_acquire (\<lambda>_. True) True True (Some 6) [0x75] (gfm_server_cache s) [0x68] 601
        = Some (c1, Inr (6, True))" "cache_inv c1 (6 # xs)" "in_use c1 6"
    by (auto simp: gfm_client_is_connection_valid_def gfp_is_cached_connection_def)
  define s1 where "s1 = gfm_store 6 ?g (s\<lparr>gfm_server_cache := c1, gfm_world := peer_world ?in\<rparr>)"
  note x = new_socket_ready [OF sample_conn_new peer_world_calm, of ?in]
  have at: "gfm_server_at s1 6 = Some ?g" "gfm_world s1 = peer_world ?in"
    by (simp_all add: s1_def gfm_store_def gfm_server_at_def gfp_cached_connection_get_data_def
        gfp_cached_connection_set_data_def)
  have "cache_inv (gfm_server_cache s1) (6 # xs)" "in_use (gfm_server_cache s1) 6"
    using set_data_inv [OF c1(2), of 6 "Some ?g"] c1(3)
    by (simp_all add: s1_def gfm_store_def in_use_def gfp_cached_connection_set_data_def)
  with at x have r1: "gfm_ready 6 s1" "gfm_incoming 6 s1 = ?in"
    by (auto simp: gfm_ready_def gfm_incoming_def peer_world_def)
  define s2 where "s2 = gfm_store 6 (?g\<lparr>gfm_pid_key := ?key\<rparr>) s1"
  have r2: "gfm_ready 6 s2" "gfm_incoming 6 s2 = ?in"
    using store_ready [OF r1(1) at(1), of "?g\<lparr>gfm_pid_key := ?key\<rparr>"] r1(2) by (simp_all add: s2_def)
  have "\<exists>req. xdr_encode ''ib'' [Arg_int GFM_PROTO_PROCESS_KEY_TYPE_SHAREDSECRET,
      Arg_size GFM_PROTO_PROCESS_KEY_LEN_SHAREDSECRET, Arg_ptr ?key] = Some req"
    by (simp add: xdr_chunks.simps block_chunk_def)
  then obtain req where req: "xdr_encode ''ib'' [Arg_int GFM_PROTO_PROCESS_KEY_TYPE_SHAREDSECRET,
      Arg_size GFM_PROTO_PROCESS_KEY_LEN_SHAREDSECRET, Arg_ptr ?key] = Some req" by blast
  have dec: "xdr_decoded ''l'' [Arg_int64 3] [] = Some [Val_int64 3]" by (simp add: xdr_value_def)
  from gfm_rpc_ready [where mal = "\<lambda>_. True", OF r2(1) _ req pbs dec r2(2)] obtain s3 where
    3: "gfm_client_process_alloc (\<lambda>_. True) 6 GFM_PROTO_PROCESS_KEY_TYPE_SHAREDSECRET ?key
        GFM_PROTO_PROCESS_KEY_LEN_SHAREDSECRET s2 = Some (Inr [Val_int64 3], s3)"
      "gfm_ready 6 s3" "gfm_incoming 6 s3 = bs"
    by (auto simp: gfm_client_process_alloc_def recv_char_def)
  from gfm_ready_conn [OF 3(2)] obtain g3 where g3: "gfm_server_at s3 6 = Some g3" by blast
  let ?s4 = "gfm_store 6 (g3\<lparr>gfm_pid := 3\<rparr>) s3"
  have connect: "gfm_client_connection0 (lk_net ?env) True (lk_new_xdr ?env t) [] [0x68] 601 6 None
      (s\<lparr>gfm_server_cache := c1\<rparr>) = Some (Inr (), s1)" for t
    by (simp add: gfm_client_connection0_def gfm_authenticate_def gfm_socket_def reconnect_env_def sample_env_def
        sample_net_def call_bind_def call_return_def s1_def)
  have "gfm_client_connection_acquire (\<lambda>_. True) True True (Some 6) [0x75]
      (\<lambda>entry s'. gfm_client_connection0 (lk_net ?env) True (lk_new_xdr ?env s') [] [0x68] 601 entry None s')
      (\<lambda>_ w. w) [0x68] 601 s = Some (Inr 6, s1)"
    using c1(1) connect
    by (simp add: gfm_client_connection_acquire_def gfm_connect_retry.simps call_return_def)
  moreover have env: "lk_mal ?env = (\<lambda>_. True)" "lk_duph ?env = (\<lambda>_. True)" "lk_dupu ?env = (\<lambda>_. True)"
    "lk_malp ?env = (\<lambda>_. Some 6)" "lk_user ?env = [0x75]" "lk_malg ?env = (\<lambda>_. True)" "lk_fresh_key ?env = []"
    "lk_pause ?env = (\<lambda>_ w. w)" "lk_key ?env = ?key" "gfarm_metadb_server_name ?env = ''h''"
    "gfarm_metadb_server_port ?env = 601"
    by (simp_all add: reconnect_env_def sample_env_def)
  ultimately have "lookup_acquire ?env ''h'' 601 s = Some (Inr 6, ?s4)"
    using at(1) 3(1) g3
    by (simp add: lookup_acquire_def gfm_client_connection_and_process_acquire_def call_bind_def call_try_def
        call_return_def s2_def)
  then have "gfm_url_server ?env path s = Some (Inr (6, path), ?s4)"
    using path env
    by (simp add: gfm_url_server_def gfarm_url_parse_metadb_def call_bind_def call_return_def)
  then show ?thesis
    using store_ready [OF 3(2) g3, of "g3\<lparr>gfm_pid := 3\<rparr>"] 3(3) by auto
qed

theorem name_op_gone_witness:
  "\<exists>env s s1 s5. gfm_url_server env ''/a/b'' s = Some (Inr (5, ''/a/b''), s1) \<and> gfm_incoming 5 s1 = []
     \<and> gfs_mkdir env ''/a/b'' 7 s = given_back 6 (Inl GFARM_ERR_ALREADY_EXISTS) s5 \<and> gfm_incoming 6 s5 = [9]"
proof -
  obtain obs where obs: "xdr_encode ''lli'' [Arg_int64 2, Arg_int64 1, Arg_int 16877] = Some obs"
    using sample_opened by blast
  obtain pbs where pbs: "xdr_encode ''l'' [Arg_int64 3] = Some pbs" by (simp add: xdr_chunks.simps)
  let ?walk = "[(0, []), (0, obs)] :: reply list"
  let ?rs = "name_replies ''/a/b'' 0 ?walk [(17, [])] 0"
  let ?env = "reconnect_env (reply_bytes 0 pbs @ replies ?rs @ [9])"
  obtain s s1 where
    u: "\<forall>path. take 6 path \<noteq> ''gfarm:'' \<longrightarrow> gfm_url_server ?env path s = Some (Inr (5, path), s1)"
    and s1: "gfm_ready 5 s1" "gfm_incoming 5 s1 = []" "refs (lru_list (gfm_server_cache s1)) 5 = 2"
      "allocated (gfm_server_cache s1) = {5}"
    using sample_server_env [where env = ?env and bs = "[]", OF reconnect_env_def] by blast
  have url: "gfm_url_server ?env ''/a/b'' s = Some (Inr (5, ''/a/b''), s1)" using u by simp
  have walk: "walk_answers ''/a/b'' ?walk" using obs by (auto simp: walk_answers_def open_answer_def)
  have pr: "gfm_protocol (\<lambda>p. gfm_mkdir_request 7 p (path_base ''/a/b'')) GFM_PROTO_MKDIR ''si''
      [Arg_ptr (c_bytes ''b''), Arg_int 7]"
    using mkdir_protocol [OF sample_string] by (simp add: path_base_def)
  have mal: "malloc_generous (lk_mal ?env)" by (simp add: reconnect_env_def)
  have "length (gfm_incoming 5 s1) < 4" "length ''/a/b'' < 2 ^ 31" "GFARM_ERR_ALREADY_EXISTS \<noteq> 0"
    "xdr_encode [] [] = Some []" "xdr_decoded [] [] [] = Some []" using s1(2) by simp_all
  note plain = this
  obtain s2 where 2: "gfm_lost 5 s1 s2"
    and again: "\<forall>s3 q s4. gfm_client_connection_free 5 s2 = Some s3 \<and> gfm_ready q s4
        \<and> gfm_url_server ?env ''/a/b'' s3 = Some (Inr (q, ''/a/b''), s4) \<longrightarrow>
      (\<forall>b walk x e later. walk_answers ''/a/b'' walk
          \<and> gfm_incoming q s4 = replies (name_replies ''/a/b'' b walk [(x, [])] e) @ later \<longrightarrow>
        (\<exists>s5. gfs_mkdir ?env ''/a/b'' 7 s = given_back q (name_outcome GFARM_ERR_ALREADY_EXISTS ''/a/b''
              (name_replies ''/a/b'' b walk [(x, [])] e) []) s5
            \<and> exchanged q (name_wire ''/a/b'' (gfm_wire GFM_PROTO_MKDIR ''si''
                [Arg_ptr (c_bytes ''b''), Arg_int 7])) later s4 s5))"
    using name_op_gone [where request_op = "gfm_mkdir_request 7" and just = False,
      OF url s1(1) plain(1) mal plain(2,3) pr plain(4,5)]
    unfolding mkdir_is_name_op by blast
  obtain ys where lost: "cache_inv (gfm_server_cache s2) ys" "in_use (gfm_server_cache s2) 5"
    "allocated (gfm_server_cache s2) = {5}" "1 < refs (lru_list (gfm_server_cache s2)) 5"
    "\<not> gfm_client_is_connection_valid s2 5"
    using 2 s1(3,4) by (auto simp: gfm_lost_def)
  from shared_free_cache [OF lost(1,2,4)] obtain s3 where
    3: "gfm_client_connection_free 5 s2 = Some s3" "cache_inv (gfm_server_cache s3) ys"
      "allocated (gfm_server_cache s3) = {5}" "\<not> gfm_client_is_connection_valid s3 5"
    using lost(3,5) by (auto simp: gfm_client_is_connection_valid_def gfp_is_cached_connection_def)
  from reconnected [OF 3(2-4) _ pbs, of "''/a/b''" "replies ?rs @ [9]"] obtain s4 where
    4: "gfm_url_server ?env ''/a/b'' s3 = Some (Inr (6, ''/a/b''), s4)" "gfm_ready 6 s4"
      "gfm_incoming 6 s4 = replies ?rs @ [9]" by auto
  from again [rule_format, OF conjI [OF 3(1) conjI [OF 4(2,1)]] conjI [OF walk 4(3)]] obtain s5 where
    "gfs_mkdir ?env ''/a/b'' 7 s = given_back 6 (name_outcome GFARM_ERR_ALREADY_EXISTS ''/a/b'' ?rs []) s5"
    "gfm_incoming 6 s5 = [9]" by (auto simp: exchanged_def)
  moreover have "name_outcome GFARM_ERR_ALREADY_EXISTS ''/a/b'' ?rs ([] :: xdr_val list) = Inl GFARM_ERR_ALREADY_EXISTS"
    by (simp add: name_outcome_def name_replies_def outcome_of_def)
  ultimately show ?thesis using url s1(2) by metis
qed

theorem url_server_read_witness:
  "gfm_url_server sample_env ''gfarm://h-1.a:601/x''
     = call_bind (lookup_acquire sample_env ''h-1.a'' 601) (\<lambda>p. call_return (p, ''/x''))"
proof -
  have "dec (int 601) = ''601''" by code_simp
  moreover have "gfarm_malloc_array (\<lambda>_. True) 6 1 \<noteq> None" by code_simp
  then obtain y where "gfarm_malloc_array (\<lambda>_. True) 6 1 = Some y" by blast
  ultimately show ?thesis
    using url_server_read [of "''h-1.a''" 601 "''/x''" sample_env]
    by (simp add: url_host_char_def isalnum_def isdigit_def isupper_def islower_def code_def)
qed

theorem lookup_trailing_slash_witness:
  "\<exists>s s'. gfm_lookup_dir_request 5 ''/a/b/'' s = Some (Inr [], s')
     \<and> gfm_outgoing 5 s' = root_wire GFARM_FILE_LOOKUP @ opens_wire [''a'', ''b'']"
proof -
  obtain s where s: "gfm_ready 5 s" "gfm_outgoing 5 s = []" using ready_state by blast
  from lookup_trailing_slash [OF s(1), of "''/a/b''"] s(2) show ?thesis by auto
qed

end
