(* ===== verification/Spec2Isabelle.thy ===== *)
theory Spec2Isabelle
  imports Timeval Gfp_Xdr_Spec Hash_Table_Spec Id_Table_Reach Hostspec_Spec Param_Spec Conn_Cache_Spec Gfm_Exchange Gfs_Pio_Refine Gfs_Command_Input Gfevent_Due Gfs_Load_Spec
    Lookup_Exchange
begin

text \<open>
  A verification library for the C client library of the Gfarm file system that the repository
  carries under \<open>src/handson/ex2\<close>: \<open>lib/libgfarm/gfutil\<close> (utilities) and \<open>lib/libgfarm/gfarm\<close>
  (the library proper), with the headers of \<open>include/gfarm\<close>. Pwrake itself is written in Ruby; this is
  the C code it is shipped with. File names below are relative to \<open>lib/libgfarm\<close>.

  \<^bold>\<open>How the program is put together.\<close> An application calls functions that talk to the metadata
  server. A call takes a connection out of a cache (\<open>gfarm/conn_cache.c\<close>, which stands on
  \<open>gfutil/hash.c\<close> through \<open>gfarm/conn_hash.c\<close>, and on \<open>gfutil/lru_cache.c\<close>), sends a command number and
  typed arguments (\<open>gfarm/gfp_xdr.c\<close>) through a byte buffer (\<open>gfarm/iobuffer.c\<close>) over hooks that call
  \<open>read\<close>(2) and \<open>send\<close>(2) (\<open>gfarm/io_fd.c\<close>), and receives an error number and typed results.
  \<open>gfarm/gfm_client.c\<close> holds the calls. What an application does with a path is a sequence of them in one
  compound: \<open>gfarm/lookup.c\<close> finds the server in the URL and walks down the path, and the files \<open>gfarm/gfs_mkdir.c\<close>,
  \<open>gfs_stat.c\<close>, \<open>gfs_rename.c\<close> and so on add the operation at the end. Numbers of errors from other domains are mapped into
  one space (\<open>gfarm/liberror.c\<close>). Which hosts an option is for is said by patterns
  (\<open>gfarm/hostspec.c\<close>), used by configured parameters (\<open>gfarm/param.c\<close>, \<open>gfarm/sockopt.c\<close>).
  The server side's identifiers come from \<open>gfutil/id_table.c\<close>. An open file (\<open>gfarm/gfs_pio.c\<close>) is a
  buffer over the functions of a view; the view of a section (\<open>gfarm/gfs_pio_section.c\<close>) chooses a host,
  connects to its file server, and reads and writes either a local descriptor (\<open>gfarm/gfs_pio_local.c\<close>) or
  through the connection (\<open>gfarm/gfs_pio_remote.c\<close>).

  \<^bold>\<open>Conventions.\<close> A struct is a record with the fields of the source, an enumeration that is sent
  over the wire a numeral, \<open>size_t\<close> and the fixed-width types are words where their wrap-around matters,
  \<open>int\<close> elsewhere. A \<open>malloc\<close>ed array is a total memory \<open>mem\<close> of which the length fields say what is
  valid, or a list. Shared mutable structs are cells of a store. What the environment decides (whether
  memory is granted, what a system call answers, what the peer has sent) is a parameter or the content of
  a world \<open>'w\<close> that every call threads. \<open>gfarm_error_t\<close> is an integer as in C; an error return is a
  value, either beside the results or as \<open>Inl\<close>. \<open>None\<close> as the outcome of a whole operation means that
  the C code aborts, fails an assertion, dereferences a null pointer, overflows, or does not return.
  Loops over hooks that need not end are \<open>partial_function (option)\<close>, so no fuel bounds them,
  and that they return is proved where it is claimed.

  \<^bold>\<open>The theories.\<close>

  \<^item> \<open>Gfarm_Prelude\<close>, \<open>Gfarm_Error\<close>, \<open>C_Strings\<close>, \<open>Byte_Order\<close>: memory, C division and conversions, the
    numbers of \<open>include/gfarm/error.h\<close> and \<open>gfarm/liberror.h\<close>, \<open>ctype.h\<close> and \<open>strtoul\<close>, byte order.
  \<^item> \<open>Alloc\<close>, \<open>Timeval\<close>: \<open>gfutil/alloc.c\<close>; \<open>gfutil/timeval.c\<close> and \<open>gfarm/timespec.c\<close>. Allocated sizes are
    exact products; arithmetic on times is that of the instants.
  \<^item> \<open>Iobuffer\<close>, \<open>Iobuffer_Spec\<close>, \<open>Iobuffer_Stream\<close>, \<open>Io_Fd\<close>: \<open>gfarm/iobuffer.c\<close>, \<open>gfarm/io_fd.c\<close>. The
    buffer is a queue (locale \<open>byte_queue\<close>), hooks obey contracts stated as locales, and the hooks over
    scripted system calls satisfy them, whatever short transfers and interruptions occur.
  \<^item> \<open>Gfp_Xdr\<close>, \<open>Gfp_Xdr_Spec\<close>, \<open>Xdr_Duplex\<close>: \<open>gfarm/gfp_xdr.c\<close>. Every format character both ways, what
    is sent is received, remote procedure calls, one connection used in both directions.
  \<^item> \<open>Liberror_Tables\<close>, \<open>Liberror\<close>, \<open>Liberror_Spec\<close>: \<open>gfarm/liberror.c\<close>. Intervals of codes stay disjoint,
    codes lead back to their messages and Unix numbers.
  \<^item> \<open>Hash_Table\<close>, \<open>Hash_Table_Spec\<close>: \<open>gfutil/hash.c\<close>, \<open>gfutil/hash_strptr.c\<close>. A table refines a finite map.
  \<^item> \<open>Id_Table\<close>, \<open>Id_Table_Spec\<close>, \<open>Id_Table_Reach\<close>: \<open>gfutil/id_table.c\<close>. The gap buffer with its
    compaction, reached states, a contract of handle tables, and the defects of a wrap-around.
  \<^item> \<open>Hostspec\<close>, \<open>Hostspec_Spec\<close>, \<open>Param\<close>, \<open>Sockopt\<close>, \<open>Param_Spec\<close>: \<open>gfarm/hostspec.c\<close>, \<open>gfarm/param.c\<close>,
    \<open>gfarm/sockopt.c\<close>. Parsing, printing and matching; the first matching entry decides.
  \<^item> \<open>Lru_Cache\<close>, \<open>Lru_Cache_Spec\<close>, \<open>Conn_Hash\<close>, \<open>Conn_Cache\<close>, \<open>Conn_Cache_Spec\<close>: \<open>gfutil/lru_cache.c\<close>,
    \<open>gfarm/conn_hash.c\<close>, \<open>gfarm/conn_cache.c\<close>. The doubly linked list refines a list in order of use;
    \<open>cache_inv\<close> ties it to the table and the store of connections.
  \<^item> \<open>Gfm_Rpc\<close>, \<open>Gfm_Proto\<close>, \<open>Gfm_Metadata\<close>, \<open>Gfm_Fs\<close>, \<open>Gfm_Connect\<close>, \<open>Gfm_Spec\<close>, \<open>Gfm_Requests\<close>,
    \<open>Gfm_Exchange\<close>: \<open>gfarm/gfm_client.c\<close>. One definition per call; \<open>gfm_ready\<close> is the state in which
    calls can follow one another; requests are typed and told apart by the wire; compound requests, lost
    connections and the bounded repetition of connecting.
  \<^item> \<open>Lookup\<close>, \<open>Gfs_Names\<close>, \<open>Gfs_Paths\<close>, \<open>Gfm_Dialogue\<close>, \<open>Lookup_Spec\<close>, \<open>Lookup_Exchange\<close>: \<open>gfarm/lookup.c\<close> and the
    calls that stand on it. \<open>requested\<close> and \<open>answered\<close> say what a sequence of requests puts on the wire and what a
    sequence of results takes from it, and are kept by composition; a path names directories (\<open>path_dirs\<close>) and a
    last name (\<open>path_last\<close>), and the walk that asks and the one that hears are in step. Whole operations on a name
    and on a file, their one repetition on a connection that has gone, the server of a URL, a slash at the end.
  \<^item> \<open>Plain_File\<close>, \<open>Gfs_Pio\<close>, \<open>Gfs_Pio_Spec\<close>, \<open>Gfs_Pio_File\<close>, \<open>Gfs_Pio_Lines\<close>: \<open>gfarm/gfs_pio.c\<close>. What a plain file
    is; the operations; the contract of a view as the locale \<open>file_view\<close>, with the invariant \<open>pio_inv\<close> of the
    buffer and the file \<open>pio_file\<close> it stands for; sequences of operations refine a plain file with a
    position; lines.
  \<^item> \<open>Gfs_Pio_Section\<close>, \<open>Gfs_Pio_Refine\<close>: \<open>gfarm/gfs_pio_section.c\<close>, \<open>gfs_pio_local.c\<close>, \<open>gfs_pio_remote.c\<close>.
    Local storage over scripted system calls satisfies \<open>file_view\<close>, so what was proved holds down to \<open>read\<close>
    and \<open>write\<close>; where the buffer and its file disagree. The calls of \<open>gfs_client.c\<close> (record \<open>gfs_client\<close>)
    and of the scheduler (record \<open>section_env\<close>) are parameters.
  \<^item> \<open>Calls\<close>, \<open>Gfs_Client\<close>, \<open>Gfs_Calls\<close>, \<open>Gfs_Connect\<close>, \<open>Gfs_Command\<close>, \<open>Gfs_Spec\<close>, \<open>Gfs_Command_Spec\<close>,
    \<open>Gfs_Command_Input\<close>:
    \<open>gfarm/gfs_client.c\<close>. The calls to the file servers, over the state-and-error composition they share with
    \<open>Gfm_Rpc\<close>; opening connections; a remote command as two state machines on one connection, driven by
    \<open>select\<close>. \<open>command_reach\<close> is what a program may do with a command; its invariant, what becomes of a
    signal, and how the input is framed on the wire.
  \<^item> \<open>Gfevent\<close>, \<open>Gfevent_Spec\<close>, \<open>Gfevent_Turn\<close>, \<open>Gfevent_Due\<close>: \<open>gfutil/gfevent.c\<close>. The queue of events as a list
    in the store (\<open>eq_inv\<close>, on the rings of \<open>Linked_Ring\<close> that \<open>Lru_Cache_Spec\<close> uses too), kept by adding and
    deleting; the descriptor sets, which grow; what a turn asks \<open>select\<close> and whom it calls back; the contract
    \<open>ev_client\<close> under which a turn returns, and \<open>ev_clock\<close> under which the loop does. What a callback does, \<open>select\<close>
    and the clock are parameters.
  \<^item> \<open>Gfs_Load\<close>, \<open>Gfs_Load_Spec\<close>: asking a file server for its load by datagrams, the state machine of
    \<open>gfarm/gfs_client.c\<close> over the event queue, as a client that keeps the contract.

  \<^bold>\<open>Bounds.\<close> Paths are shorter than \<open>2 ^ 31\<close> characters in the lemmas on walks, as the \<open>int\<close> that the code keeps
  the length of a name in requires. Descriptors in the event queue are below \<open>2 ^ 26\<close> in its lemmas, far above what a process may open.
  The repeated attempts to connect stop after waits of 1, 2, up to 512 seconds, as the code's
  constant says; those to open a view of a section after seven, with pauses of 5, 10, up to 320 seconds. Nothing else in the models is bounded beyond the widths of the types.

  \<^bold>\<open>Not modelled.\<close> Authentication (key files, credentials and GSI libraries), scheduling (round-trip times
  over UDP and floating-point loads), configuration files and the environment, connecting and file system status
  through the event queue, reading and
  caching directories, extended attributes, replication on demand, globbing, timers,
  logging and the forking of processes; profiling timers inside modelled functions are left out. The
  demonstrations under \<open>src/demo\<close> are bundled third-party numerical tools, not part of the system.
\<close>

end
